(* ===== verification/Prelude.thy ===== *)
theory Prelude
  imports Main "HOL-Library.Sublist"
begin

text \<open>
  Shared vocabulary of the development: the types every component uses, results with an
  error side, tables as lists of rows with a key, the few string functions of the Rust
  standard library that the program calls, and the lemmas about them that the component
  proofs rest on.
\<close>

named_theorems table_simps \<open>lookups after inserts and updates of a table\<close>
named_theorems store_defs \<open>definitions unfolded together in the store proofs\<close>

section \<open>Text\<close>

text \<open>
  A Rust \<open>String\<close> is the list of its UTF-8 bytes, one \<open>char\<close> per byte, so \<open>length\<close> is
  \<open>len()\<close> and byte-wise comparison is Rust's ordering.
\<close>

type_synonym utf8 = string

definition byte :: "nat \<Rightarrow> char" where
  "byte n = char_of n"

text \<open>
  \<open>str::trim\<close> removes the characters with the Unicode property White_Space;
  \<open>trimmed_empty s\<close> is \<open>s.trim().is_empty()\<close>: the text consists of such characters only.
  Their UTF-8 encodings are spelled out byte by byte.
\<close>

definition white1 :: "char \<Rightarrow> bool" where
  "white1 a = (let n = of_char a :: nat in (9 \<le> n \<and> n \<le> 13) \<or> n = 32)"

definition white2 :: "char \<Rightarrow> char \<Rightarrow> bool" where
  "white2 a b \<longleftrightarrow> a = byte 194 \<and> (b = byte 133 \<or> b = byte 160)"

definition white3 :: "char \<Rightarrow> char \<Rightarrow> char \<Rightarrow> bool" where
  "white3 a b c =
     (let n = of_char c :: nat in
      (a = byte 225 \<and> b = byte 154 \<and> n = 128)
      \<or> (a = byte 226 \<and> b = byte 128 \<and>
          ((128 \<le> n \<and> n \<le> 138) \<or> n = 168 \<or> n = 169 \<or> n = 175))
      \<or> (a = byte 226 \<and> b = byte 129 \<and> n = 159)
      \<or> (a = byte 227 \<and> b = byte 128 \<and> n = 128))"

fun trimmed_empty :: "utf8 \<Rightarrow> bool" where
  "trimmed_empty [] = True"
| "trimmed_empty (a # s) =
     (if white1 a then trimmed_empty s
      else (case s of
        [] \<Rightarrow> False
      | b # s' \<Rightarrow>
          (if white2 a b then trimmed_empty s'
           else (case s' of
             [] \<Rightarrow> False
           | c # s'' \<Rightarrow> (if white3 a b c then trimmed_empty s'' else False)))))"

text \<open>Visible ASCII characters are not white space, nor do they start any.\<close>

definition plain_char :: "char \<Rightarrow> bool" where
  "plain_char a \<longleftrightarrow> \<not> white1 a \<and> (of_char a :: nat) < 128"

lemma plain_not_white: "plain_char a \<Longrightarrow> \<not> white2 a b" "plain_char a \<Longrightarrow> \<not> white3 a b c"
  by (auto simp: plain_char_def white2_def white3_def byte_def Let_def)

lemma plain_not_empty: "plain_char a \<Longrightarrow> \<not> trimmed_empty (a # s)"
  using plain_not_white[of a] by (subst trimmed_empty.simps) (auto simp: plain_char_def split: list.split)

definition contains_nul :: "utf8 \<Rightarrow> bool" where
  "contains_nul s \<longleftrightarrow> byte 0 \<in> set s"

definition lower_char :: "char \<Rightarrow> char" where
  "lower_char c = (let n = of_char c :: nat in if 65 \<le> n \<and> n \<le> 90 then byte (n + 32) else c)"

definition to_ascii_lowercase :: "utf8 \<Rightarrow> utf8" where
  "to_ascii_lowercase s = map lower_char s"

definition ends_with :: "utf8 \<Rightarrow> utf8 \<Rightarrow> bool" where
  "ends_with s p \<longleftrightarrow> suffix p s"

definition starts_with :: "utf8 \<Rightarrow> utf8 \<Rightarrow> bool" where
  "starts_with s p \<longleftrightarrow> prefix p s"

text \<open>Decimal rendering of an unsigned integer (\<open>Display\<close> for \<open>usize\<close>).\<close>

fun show_nat :: "nat \<Rightarrow> utf8" where
  "show_nat n = (if n < 10 then [byte (48 + n)] else show_nat (n div 10) @ [byte (48 + n mod 10)])"

declare show_nat.simps [simp del]

definition digit_value :: "char \<Rightarrow> nat" where
  "digit_value c = of_char c - 48"

fun read_nat :: "utf8 \<Rightarrow> nat" where
  "read_nat s = foldl (\<lambda>n c. 10 * n + digit_value c) 0 s"

lemma digit_value_byte: "d < 10 \<Longrightarrow> digit_value (byte (48 + d)) = d"
  by (simp add: digit_value_def byte_def)

lemma read_show_nat: "read_nat (show_nat n) = n"
proof (induction n rule: show_nat.induct)
  case (1 n)
  then show ?case
    by (subst show_nat.simps) (auto simp: digit_value_byte)
qed

lemma show_nat_inj: "show_nat m = show_nat n \<Longrightarrow> m = n"
  by (metis read_show_nat)

lemma show_nat_nonempty: "show_nat n \<noteq> []"
  by (subst show_nat.simps) simp

text \<open>\<open>str::replace\<close>: left to right, occurrences do not overlap. The program calls it with a
  non-empty pattern only.\<close>

function str_replace :: "utf8 \<Rightarrow> utf8 \<Rightarrow> utf8 \<Rightarrow> utf8" where
  "str_replace pat rep [] = []"
| "str_replace pat rep (c # cs) =
     (if pat \<noteq> [] \<and> prefix pat (c # cs)
      then rep @ str_replace pat rep (drop (length pat) (c # cs))
      else c # str_replace pat rep cs)"
  by pat_completeness auto
termination
  by (relation "measure (\<lambda>(pat, rep, s). length s)") auto

lemma str_replace_absent: "\<not> sublist pat s \<Longrightarrow> str_replace pat rep s = s"
proof (induction pat rep s rule: str_replace.induct)
  case (2 pat rep c cs)
  from "2.prems" have "\<not> prefix pat (c # cs)" and "\<not> sublist pat cs"
    by (auto simp: sublist_Cons_right)
  with "2.IH"(2) show ?case by simp
qed simp

section \<open>Results\<close>

text \<open>A fallible Rust function returns \<open>Inl\<close> its error or \<open>Inr\<close> its value.\<close>

definition is_ok :: "'e + 'a \<Rightarrow> bool" where
  "is_ok r = (case r of Inl _ \<Rightarrow> False | Inr _ \<Rightarrow> True)"

lemma is_ok_simps [simp]: "is_ok (Inr x)" "\<not> is_ok (Inl e)"
  by (simp_all add: is_ok_def)

text \<open>The \<open>?\<close> operator: stop at the first error.\<close>

definition try_then :: "'e + 'a \<Rightarrow> ('a \<Rightarrow> 'e + 'b) \<Rightarrow> 'e + 'b" where
  "try_then r k = (case r of Inl e \<Rightarrow> Inl e | Inr x \<Rightarrow> k x)"

lemma try_then_simps [simp]:
  "try_then (Inl e) k = Inl e" "try_then (Inr x) k = k x"
  by (simp_all add: try_then_def)

lemma try_then_Inr [simp]: "try_then r k = Inr y \<longleftrightarrow> (\<exists>x. r = Inr x \<and> k x = Inr y)"
  by (cases r) simp_all

text \<open>A loop over checks that stops at the first failing one.\<close>

fun check_all :: "('a \<Rightarrow> 'e + unit) \<Rightarrow> 'a list \<Rightarrow> 'e + unit" where
  "check_all f [] = Inr ()"
| "check_all f (x # xs) = (case f x of Inl e \<Rightarrow> Inl e | Inr _ \<Rightarrow> check_all f xs)"

lemma check_all_ok [simp]: "check_all f xs = Inr () \<longleftrightarrow> (\<forall>x \<in> set xs. f x = Inr ())"
  by (induction xs) (auto split: sum.splits)

section \<open>Tables\<close>

text \<open>
  A SQL table is the list of its rows. \<open>row_by key k rows\<close> is a \<open>SELECT ... WHERE key = k\<close>
  for a primary or unique key, \<open>update_where\<close> an \<open>UPDATE ... WHERE\<close>, and an \<open>INSERT\<close>
  appends the row.
\<close>

definition row_by :: "('r \<Rightarrow> 'k) \<Rightarrow> 'k \<Rightarrow> 'r list \<Rightarrow> 'r option" where
  "row_by key k rows = find (\<lambda>r. key r = k) rows"

definition update_where :: "('r \<Rightarrow> bool) \<Rightarrow> ('r \<Rightarrow> 'r) \<Rightarrow> 'r list \<Rightarrow> 'r list" where
  "update_where p f rows = map (\<lambda>r. if p r then f r else r) rows"

definition unique_by :: "('r \<Rightarrow> 'k) \<Rightarrow> 'r list \<Rightarrow> bool" where
  "unique_by key rows = distinct (map key rows)"

lemma row_by_Nil [simp]: "row_by key k [] = None"
  by (simp add: row_by_def)

lemma row_by_Cons [simp]:
  "row_by key k (r # rows) = (if key r = k then Some r else row_by key k rows)"
  by (simp add: row_by_def)

lemma row_by_append [table_simps]:
  "row_by key k (rows @ rows') =
     (case row_by key k rows of None \<Rightarrow> row_by key k rows' | Some r \<Rightarrow> Some r)"
  by (induction rows) auto

lemma row_by_None: "row_by key k rows = None \<longleftrightarrow> k \<notin> key ` set rows"
  by (induction rows) auto

lemma row_by_SomeD: "row_by key k rows = Some r \<Longrightarrow> r \<in> set rows \<and> key r = k"
  by (induction rows) (auto split: if_splits)

lemma row_by_key: "row_by key k rows = Some r \<Longrightarrow> key r = k"
  by (blast dest: row_by_SomeD)

lemma row_by_in: "row_by key k rows = Some r \<Longrightarrow> r \<in> set rows"
  by (blast dest: row_by_SomeD)

lemma row_by_unique:
  "unique_by key rows \<Longrightarrow> r \<in> set rows \<Longrightarrow> row_by key (key r) rows = Some r"
  by (induction rows) (auto simp: unique_by_def)

lemma row_by_update [table_simps]:
  assumes "\<And>r. p r \<Longrightarrow> key (f r) = key r"
  shows "row_by key k (update_where p f rows) =
    (case row_by key k rows of None \<Rightarrow> None | Some r \<Rightarrow> Some (if p r then f r else r))"
  using assms by (induction rows) (auto simp: update_where_def)

lemma map_key_update:
  "(\<And>r. p r \<Longrightarrow> key (f r) = key r) \<Longrightarrow> map key (update_where p f rows) = map key rows"
  by (induction rows) (auto simp: update_where_def)

lemma unique_by_update [table_simps]:
  "(\<And>r. p r \<Longrightarrow> key (f r) = key r) \<Longrightarrow>
    unique_by key (update_where p f rows) = unique_by key rows"
  by (simp add: unique_by_def map_key_update)

lemma unique_by_insert:
  "unique_by key rows \<Longrightarrow> row_by key (key r) rows = None \<Longrightarrow> unique_by key (rows @ [r])"
  by (auto simp: unique_by_def row_by_None)

lemma update_where_in:
  "r \<in> set (update_where p f rows) \<longleftrightarrow>
    (\<exists>r0 \<in> set rows. r = (if p r0 then f r0 else r0))"
  by (auto simp: update_where_def)

lemma update_where_none:
  "(\<And>r. r \<in> set rows \<Longrightarrow> \<not> p r) \<Longrightarrow> update_where p f rows = rows"
  by (induction rows) (auto simp: update_where_def)

lemma update_where_all:
  "\<forall>r \<in> set rows. P r \<Longrightarrow> (\<And>r. r \<in> set rows \<Longrightarrow> p r \<Longrightarrow> P r \<Longrightarrow> P (f r)) \<Longrightarrow>
    \<forall>r \<in> set (update_where p f rows). P r"
  by (auto simp: update_where_def)

text \<open>A row found by its unique key is the only one with that key.\<close>

lemma row_by_only:
  "row_by key k rows = Some r \<Longrightarrow> unique_by key rows \<Longrightarrow> x \<in> set rows \<Longrightarrow> key x = k \<Longrightarrow> x = r"
  using row_by_unique by fastforce

lemma length_update_where [simp]: "length (update_where p f rows) = length rows"
  by (simp add: update_where_def)

text \<open>The number of rows an \<open>UPDATE ... WHERE\<close> reports as changed, and
  \<open>INSERT ... ON CONFLICT(key) DO UPDATE\<close> of all columns.\<close>

definition count_rows :: "('r \<Rightarrow> bool) \<Rightarrow> 'r list \<Rightarrow> nat" where
  "count_rows p rows = length (filter p rows)"

definition upsert :: "('r \<Rightarrow> 'k) \<Rightarrow> 'r \<Rightarrow> 'r list \<Rightarrow> 'r list" where
  "upsert key row rows =
     (if row_by key (key row) rows = None then rows @ [row]
      else update_where (\<lambda>r. key r = key row) (\<lambda>_. row) rows)"

lemma count_rows_key:
  assumes "unique_by key rows" "\<And>r. p r \<Longrightarrow> key r = k"
  shows "count_rows p rows = (case row_by key k rows of None \<Rightarrow> 0 | Some r \<Rightarrow> if p r then 1 else 0)"
  using assms(1)
proof (induction rows)
  case (Cons x rows)
  show ?case
  proof (cases "key x = k")
    case True
    then have "filter p rows = []"
      using Cons.prems assms(2) by (auto simp: unique_by_def filter_empty_conv) (metis imageI)
    with True show ?thesis by (simp add: count_rows_def)
  next
    case False
    with assms(2) have "\<not> p x" by blast
    with False Cons show ?thesis by (simp add: count_rows_def unique_by_def)
  qed
qed (simp add: count_rows_def)

lemma count_rows_one:
  assumes "count_rows p rows = 1" "unique_by key rows" "\<And>r. p r \<Longrightarrow> key r = k"
  shows "\<exists>r. row_by key k rows = Some r \<and> p r"
proof -
  have c: "count_rows p rows = (case row_by key k rows of None \<Rightarrow> 0 | Some r \<Rightarrow> if p r then 1 else 0)"
    by (rule count_rows_key[OF assms(2)]) (rule assms(3))
  show ?thesis
  proof (cases "row_by key k rows")
    case (Some x)
    have "p x"
    proof (rule ccontr)
      assume "\<not> p x"
      with c Some have "count_rows p rows = 0" by simp
      with assms(1) show False by simp
    qed
    with Some show ?thesis by blast
  qed (use c assms(1) in simp)
qed

lemma row_by_upsert [table_simps]:
  "row_by key k (upsert key row rows) = (if k = key row then Some row else row_by key k rows)"
proof (cases "row_by key (key row) rows")
  case None
  then show ?thesis by (simp add: upsert_def row_by_append split: option.split)
next
  case (Some x)
  then have "row_by key k (update_where (\<lambda>r. key r = key row) (\<lambda>_. row) rows)
      = (case row_by key k rows of None \<Rightarrow> None | Some r \<Rightarrow> Some (if key r = key row then row else r))"
    by (intro row_by_update) simp
  with Some show ?thesis
    by (auto simp: upsert_def split: option.split dest: row_by_key)
qed

lemma unique_by_upsert: "unique_by key rows \<Longrightarrow> unique_by key (upsert key row rows)"
  using unique_by_update[of "\<lambda>r. key r = key row" key "\<lambda>_. row" rows]
  by (simp add: upsert_def unique_by_insert)

lemma upsert_in: "x \<in> set (upsert key row rows) \<Longrightarrow> x = row \<or> x \<in> set rows"
  by (auto simp: upsert_def update_where_def split: if_splits)

text \<open>\<open>i64::checked_add\<close>.\<close>

definition checked_add :: "int \<Rightarrow> int \<Rightarrow> int option" where
  "checked_add a b = (if - (2 ^ 63) \<le> a + b \<and> a + b < 2 ^ 63 then Some (a + b) else None)"

text \<open>\<open>ORDER BY\<close>: a stable insertion sort by a strict comparison of rows.\<close>

definition order_rows :: "('r \<Rightarrow> 'k::linorder) \<Rightarrow> 'r list \<Rightarrow> 'r list" where
  "order_rows key rows = sort_key key rows"

text \<open>
  Rows of a table that are never lost and only change in a given way: \<open>keeps_rows\<close> for a
  relation that is reflexive and transitive.
\<close>

definition keeps_rows ::
  "('r \<Rightarrow> 'k) \<Rightarrow> ('r \<Rightarrow> 'r \<Rightarrow> bool) \<Rightarrow> 'r list \<Rightarrow> 'r list \<Rightarrow> bool" where
  "keeps_rows key ev rows rows' \<longleftrightarrow> (\<forall>i x. row_by key i rows = Some x \<longrightarrow>
     (\<exists>y. row_by key i rows' = Some y \<and> ev x y))"

lemma keeps_rows_refl: "(\<And>x. ev x x) \<Longrightarrow> keeps_rows key ev rows rows"
  by (simp add: keeps_rows_def)

lemma keeps_rows_trans:
  assumes "\<And>x y z. ev x y \<Longrightarrow> ev y z \<Longrightarrow> ev x z"
    and "keeps_rows key ev as bs" "keeps_rows key ev bs cs"
  shows "keeps_rows key ev as cs"
  unfolding keeps_rows_def
proof (intro allI impI)
  fix i x assume "row_by key i as = Some x"
  with assms(2) obtain y where y: "row_by key i bs = Some y" "ev x y" unfolding keeps_rows_def by blast
  with assms(3) obtain z where "row_by key i cs = Some z" "ev y z" unfolding keeps_rows_def by blast
  with assms(1) y(2) show "\<exists>z. row_by key i cs = Some z \<and> ev x z" by blast
qed

lemma keeps_rows_append: "(\<And>x. ev x x) \<Longrightarrow> keeps_rows key ev rows (rows @ extra)"
  by (auto simp: keeps_rows_def row_by_append)

lemma keeps_rows_update:
  assumes "\<And>x. ev x x" "\<And>x. key (f x) = key x"
    and "\<And>x i. row_by key i rows = Some x \<Longrightarrow> p x \<Longrightarrow> ev x (f x)"
  shows "keeps_rows key ev rows (update_where p f rows)"
  using assms by (auto simp: keeps_rows_def row_by_update)

section \<open>Life cycles\<close>

text \<open>
  Several tables hold a status column that only moves along an \<open>allowed\<close> relation and never
  leaves its terminal values. The locale states that contract once.
\<close>

locale lifecycle =
  fixes allowed :: "'s \<Rightarrow> 's \<Rightarrow> bool"
    and terminal :: "'s \<Rightarrow> bool"
  assumes terminal_stuck: "terminal s \<Longrightarrow> allowed s t \<Longrightarrow> t = s"
begin

lemma terminal_absorbing: "allowed\<^sup>*\<^sup>* s t \<Longrightarrow> terminal s \<Longrightarrow> t = s"
  by (induction rule: rtranclp_induct) (auto dest: terminal_stuck)

lemma terminal_agree:
  "allowed\<^sup>*\<^sup>* s t \<Longrightarrow> allowed\<^sup>*\<^sup>* t u \<Longrightarrow> terminal t \<Longrightarrow> u = t"
  by (blast dest: terminal_absorbing)

end

section \<open>Fencing\<close>

text \<open>
  A resource whose holder is fenced by an epoch: steps never lower the epoch, and a token is
  good only at its own epoch. A token of an earlier epoch is then dead for ever.
\<close>

locale fencing =
  fixes step :: "'s \<Rightarrow> 's \<Rightarrow> bool"
    and epoch :: "'s \<Rightarrow> int"
    and token_epoch :: "'t \<Rightarrow> int"
    and good :: "'s \<Rightarrow> 't \<Rightarrow> bool"
  assumes epoch_step: "step s s' \<Longrightarrow> epoch s \<le> epoch s'"
    and good_epoch: "good s t \<Longrightarrow> token_epoch t = epoch s"
begin

lemma epoch_steps: "step\<^sup>*\<^sup>* s s' \<Longrightarrow> epoch s \<le> epoch s'"
  by (induction rule: rtranclp_induct) (auto dest: epoch_step)

lemma old_token_dead: "step\<^sup>*\<^sup>* s s' \<Longrightarrow> token_epoch t < epoch s \<Longrightarrow> \<not> good s' t"
  using epoch_steps good_epoch by force

end

end
