(* ===== verification/Errors.thy ===== *)
theory Errors
  imports Prelude
begin

text \<open>
  The error type of the program, from \<open>src/src/error.rs\<close>: the domain failures every
  operation returns, the conversion of host I/O and SQLite failures into them, and the
  machine-readable code of each.
\<close>

text \<open>
  \<open>std::io::Error\<close> as far as the conversion reads it: whether its kind is
  \<open>PermissionDenied\<close>, and the OS error number if it carries one. \<open>rusqlite::Error\<close> as far
  as the conversion reads it: the failure code.
\<close>

record io_error =
  io_permission_denied :: bool
  io_raw_os_error :: "int option"

datatype sqlite_code = DiskFull | SqlPermissionDenied | ReadOnly
  | AuthorizationForStatementDenied | OtherSqliteFailure utf8

datatype sqlite_error = SqliteFailure sqlite_code | OtherSqliteError utf8

datatype pong_error =
    Io io_error
  | Sqlite sqlite_error
  | Serialization utf8
  | InvalidInput utf8
  | Integrity utf8
  | NotFound utf8
  | Conflict utf8
  | IdempotencyKeyReuse utf8
  | Unsupported utf8
  | RecoveryRequired utf8
  | ResourceExhausted utf8
  | PermissionDenied utf8
  | PermissionDeniedWithOsError utf8 int
  | FaultInjected utf8

type_synonym 'a res = "pong_error + 'a"

text \<open>The target the program is compiled for (\<open>cfg(windows)\<close>, \<open>cfg(target_os)\<close>).\<close>

datatype platform = Windows | Linux | Macos | OtherOs

definition is_filesystem_permission_error :: "platform \<Rightarrow> io_error \<Rightarrow> bool" where
  "is_filesystem_permission_error os e =
     (if \<not> io_permission_denied e then False else os \<noteq> Windows)"

definition is_filesystem_capacity_error :: "platform \<Rightarrow> io_error \<Rightarrow> bool" where
  "is_filesystem_capacity_error os e =
     (case io_raw_os_error e of
        None \<Rightarrow> False
      | Some code \<Rightarrow>
          (case os of
             Windows \<Rightarrow> code \<in> {39, 112, 1295}
           | Linux \<Rightarrow> code \<in> {28, 122}
           | Macos \<Rightarrow> code \<in> {28, 69}
           | OtherOs \<Rightarrow> False))"

definition from_io :: "platform \<Rightarrow> io_error \<Rightarrow> pong_error" where
  "from_io os e =
     (if is_filesystem_permission_error os e
      then PermissionDenied ''filesystem operation was denied''
      else if is_filesystem_capacity_error os e
      then ResourceExhausted ''filesystem capacity is exhausted''
      else Io e)"

definition from_protected_io :: "platform \<Rightarrow> io_error \<Rightarrow> pong_error" where
  "from_protected_io os e =
     (if io_permission_denied e \<or> (os = Windows \<and> io_raw_os_error e = Some 5)
      then (case io_raw_os_error e of
              Some n \<Rightarrow> PermissionDeniedWithOsError ''protected repository access was denied'' n
            | None \<Rightarrow> PermissionDenied ''protected repository access was denied'')
      else if is_filesystem_capacity_error os e
      then ResourceExhausted ''filesystem capacity is exhausted''
      else from_io os e)"

definition from_sqlite :: "sqlite_error \<Rightarrow> pong_error" where
  "from_sqlite e =
     (case e of
        SqliteFailure DiskFull \<Rightarrow> ResourceExhausted ''SQLite storage capacity is exhausted''
      | SqliteFailure SqlPermissionDenied \<Rightarrow> PermissionDenied ''SQLite storage access was denied''
      | SqliteFailure ReadOnly \<Rightarrow> PermissionDenied ''SQLite storage access was denied''
      | SqliteFailure AuthorizationForStatementDenied \<Rightarrow>
          PermissionDenied ''SQLite storage access was denied''
      | _ \<Rightarrow> Sqlite e)"

definition raw_os_error :: "pong_error \<Rightarrow> int option" where
  "raw_os_error e =
     (case e of
        Io ie \<Rightarrow> io_raw_os_error ie
      | PermissionDeniedWithOsError _ n \<Rightarrow> Some n
      | _ \<Rightarrow> None)"

fun error_code :: "pong_error \<Rightarrow> utf8" where
  "error_code (Io _) = ''IO_ERROR''"
| "error_code (Sqlite _) = ''STORAGE_ERROR''"
| "error_code (Serialization _) = ''SERIALIZATION_ERROR''"
| "error_code (InvalidInput _) = ''INVALID_INPUT''"
| "error_code (Integrity _) = ''INTEGRITY_ERROR''"
| "error_code (NotFound _) = ''NOT_FOUND''"
| "error_code (Conflict _) = ''CONFLICT''"
| "error_code (IdempotencyKeyReuse _) = ''IDEMPOTENCY_KEY_REUSE''"
| "error_code (Unsupported _) = ''UNSUPPORTED''"
| "error_code (RecoveryRequired _) = ''RECOVERY_REQUIRED''"
| "error_code (ResourceExhausted _) = ''RESOURCE_EXHAUSTED''"
| "error_code (PermissionDenied _) = ''PERMISSION_DENIED''"
| "error_code (PermissionDeniedWithOsError _ _) = ''PERMISSION_DENIED''"
| "error_code (FaultInjected _) = ''FAULT_INJECTED''"

text \<open>A protected read or write that the host denies always reports the one stable code,
  and keeps the OS error whenever the host supplied one.\<close>

lemma protected_denial_code:
  "io_permission_denied e \<Longrightarrow>
    error_code (from_protected_io os e) = ''PERMISSION_DENIED''
    \<and> raw_os_error (from_protected_io os e) = io_raw_os_error e"
  by (simp add: from_protected_io_def raw_os_error_def split: option.splits)

lemma sqlite_storage_code:
  "error_code (from_sqlite e)
    \<in> {''RESOURCE_EXHAUSTED'', ''PERMISSION_DENIED'', ''STORAGE_ERROR''}"
  by (auto simp: from_sqlite_def split: sqlite_error.split sqlite_code.split)

text \<open>The unique-constraint failure an \<open>INSERT\<close> reports.\<close>

definition constraint_violation :: pong_error where
  "constraint_violation = from_sqlite (SqliteFailure (OtherSqliteFailure ''ConstraintViolation''))"

end
