(* ===== verification/Redaction.thy ===== *)
theory Redaction
  imports Errors
begin

text \<open>
  The redaction policy of \<open>src/src/redaction.rs\<close>: registered secrets, replacement of every
  occurrence in a text by the marker, the byte scanner, and the redaction of JSON payloads.
  A \<open>serde_json::Number\<close> is opaque to the program, which only prints it, so it is modelled
  by its printed text. A JSON object is the list of its members in the order the map
  iterates them.
\<close>

datatype json = JNull | JBool bool | JNumber utf8 | JString utf8 | JArray "json list"
  | JObject "(utf8 \<times> json) list"

record redaction_profile =
  profile_id_of :: utf8
  profile_version_of :: utf8

record redactor =
  profile_id :: utf8
  version :: utf8
  secrets :: "utf8 list"

definition REDACTED :: utf8 where
  "REDACTED = ''[REDACTED]''"

definition default_redactor :: redactor where
  "default_redactor = \<lparr>profile_id = ''default'', version = ''0.1'', secrets = []\<rparr>"

definition new_redactor :: "utf8 \<Rightarrow> utf8 \<Rightarrow> redactor res" where
  "new_redactor pid ver =
     (if pid = [] \<or> ver = []
      then Inl (InvalidInput ''redaction profile id and version must not be empty'')
      else Inr \<lparr>profile_id = pid, version = ver, secrets = []\<rparr>)"

text \<open>\<open>sort_by_key(Reverse(len))\<close> is a stable sort by descending length.\<close>

definition register_secret :: "redactor \<Rightarrow> utf8 \<Rightarrow> redactor res" where
  "register_secret r secret =
     (if length secret < 4
      then Inl (InvalidInput ''registered secrets must contain at least four bytes'')
      else if secret \<in> set (secrets r) then Inr r
      else Inr (r\<lparr>secrets := sort_key (\<lambda>v. - int (length v)) (secrets r @ [secret])\<rparr>))"

definition profile :: "redactor \<Rightarrow> redaction_profile" where
  "profile r = \<lparr>profile_id_of = profile_id r, profile_version_of = version r\<rparr>"

definition redact_with :: "utf8 list \<Rightarrow> utf8 \<Rightarrow> utf8" where
  "redact_with ss v = foldl (\<lambda>t secret. str_replace secret REDACTED t) v ss"

definition redact_text :: "redactor \<Rightarrow> utf8 \<Rightarrow> utf8" where
  "redact_text r v = redact_with (secrets r) v"

text \<open>\<open>bytes.windows(n).any(|w| w == secret)\<close> looks for the secret as a contiguous block.\<close>

definition contains_secret :: "redactor \<Rightarrow> utf8 \<Rightarrow> bool" where
  "contains_secret r bytes = list_ex (\<lambda>secret. sublist secret bytes) (secrets r)"

definition assert_clean_bytes :: "redactor \<Rightarrow> utf8 \<Rightarrow> utf8 \<Rightarrow> unit res" where
  "assert_clean_bytes r bytes location =
     (if contains_secret r bytes
      then Inl (Integrity (''configured secret detected in persisted bytes at '' @ location))
      else Inr ())"

definition sensitive_parts :: "utf8 list" where
  "sensitive_parts = [''secret'', ''password'', ''passwd'', ''token'', ''api_key'', ''apikey'',
     ''authorization'', ''cookie'', ''private_key'']"

definition is_sensitive_key :: "utf8 \<Rightarrow> bool" where
  "is_sensitive_key key =
     (let normalized = to_ascii_lowercase key in
      list_ex (\<lambda>part. normalized = part \<or> ends_with normalized (''_'' @ part)) sensitive_parts)"

text \<open>
  The loop that looks for a free key \<open>base#1\<close>, \<open>base#2\<close>, ... It stops because each
  round rules out one more of the finitely many keys already used.
\<close>

definition suffixed :: "utf8 \<Rightarrow> nat \<Rightarrow> utf8" where
  "suffixed base n = base @ ''#'' @ show_nat n"

lemma suffixed_inj: "suffixed base m = suffixed base n \<Longrightarrow> m = n"
  by (auto simp: suffixed_def dest: show_nat_inj)

function next_free_key :: "utf8 list \<Rightarrow> utf8 \<Rightarrow> nat \<Rightarrow> utf8" where
  "next_free_key used base n =
     (if suffixed base n \<in> set used then next_free_key used base (Suc n) else suffixed base n)"
  by pat_completeness auto
termination
proof (relation "measure (\<lambda>(used, base, n). card {k \<in> set used. \<exists>m \<ge> n. k = suffixed base m})")
  fix used base n
  assume hit: "suffixed base n \<in> set used"
  let ?S = "\<lambda>n. {k \<in> set used. \<exists>m \<ge> n. k = suffixed base m}"
  have "?S (Suc n) \<subseteq> ?S n" by (auto dest: Suc_leD)
  moreover have "suffixed base n \<in> ?S n" using hit by auto
  moreover have "suffixed base n \<notin> ?S (Suc n)" by (auto dest: suffixed_inj)
  ultimately have "?S (Suc n) \<subset> ?S n" by blast
  then have "card (?S (Suc n)) < card (?S n)"
    by (intro psubset_card_mono) auto
  then show "((used, base, Suc n), (used, base, n)) \<in>
      measure (\<lambda>(used, base, n). card {k \<in> set used. \<exists>m \<ge> n. k = suffixed base m})"
    by simp
qed simp

declare next_free_key.simps [simp del]

definition collision_free_key :: "utf8 list \<Rightarrow> utf8 \<Rightarrow> utf8" where
  "collision_free_key used key = (if key \<in> set used then next_free_key used key 1 else key)"

text \<open>\<open>Map::insert\<close> of a key that is not in the map. The map keeps its members in byte order
  of the keys.\<close>

definition utf8_less :: "utf8 \<Rightarrow> utf8 \<Rightarrow> bool" where
  "utf8_less a b = lexordp (\<lambda>c d. (of_char c :: nat) < of_char d) a b"

fun obj_insert :: "utf8 \<Rightarrow> json \<Rightarrow> (utf8 \<times> json) list \<Rightarrow> (utf8 \<times> json) list" where
  "obj_insert k v [] = [(k, v)]"
| "obj_insert k v ((k', v') # ms) =
     (if k = k' then (k, v) # ms
      else if utf8_less k k' then (k, v) # (k', v') # ms
      else (k', v') # obj_insert k v ms)"

fun redact_value :: "redactor \<Rightarrow> json \<Rightarrow> json"
  and redact_list :: "redactor \<Rightarrow> json list \<Rightarrow> json list"
  and redact_members ::
    "redactor \<Rightarrow> (utf8 \<times> json) list \<Rightarrow> (utf8 \<times> json) list \<Rightarrow> (utf8 \<times> json) list" where
  "redact_value r JNull = JNull"
| "redact_value r (JBool b) = JBool b"
| "redact_value r (JNumber n) = JNumber n"
| "redact_value r (JString s) = JString (redact_text r s)"
| "redact_value r (JArray vs) = JArray (redact_list r vs)"
| "redact_value r (JObject ms) = JObject (redact_members r ms [])"
| "redact_list r [] = []"
| "redact_list r (v # vs) = redact_value r v # redact_list r vs"
| "redact_members r [] redacted = redacted"
| "redact_members r ((key, v) # ms) redacted =
     redact_members r ms
       (obj_insert (collision_free_key (map fst redacted) (redact_text r key))
          (if is_sensitive_key key then JString REDACTED else redact_value r v) redacted)"

section \<open>Redacted text holds no secret\<close>

text \<open>
  Replacing an occurrence writes the marker, which can itself be, or touch, a registered
  secret. A secret is \<open>marker_safe\<close> when it cannot: it has none of the marker's brackets and
  is not part of the word between them.
\<close>

definition marker_safe :: "utf8 \<Rightarrow> bool" where
  "marker_safe t \<longleftrightarrow> t \<noteq> [] \<and> CHR ''['' \<notin> set t \<and> CHR '']'' \<notin> set t
     \<and> \<not> sublist t ''REDACTED''"

definition clean :: "utf8 list \<Rightarrow> utf8 \<Rightarrow> bool" where
  "clean ss s \<longleftrightarrow> (\<forall>t \<in> set ss. \<not> sublist t s)"

definition safe_policy :: "redactor \<Rightarrow> bool" where
  "safe_policy r \<longleftrightarrow> (\<forall>t \<in> set (secrets r). marker_safe t)"

definition clean_text :: "redactor \<Rightarrow> utf8 \<Rightarrow> bool" where
  "clean_text r s = clean (secrets r) s"

lemma contains_secret_iff: "contains_secret r s \<longleftrightarrow> \<not> clean_text r s"
  by (auto simp: contains_secret_def clean_text_def clean_def list_ex_iff)

lemma sublist_set: "sublist t s \<Longrightarrow> set t \<subseteq> set s"
  by (auto simp: sublist_def)

text \<open>A marker-safe text cannot occur across the marker.\<close>

lemma marker_separates_right:
  assumes "marker_safe t" "sublist t (REDACTED @ b)"
  shows "sublist t b"
proof -
  have red: "REDACTED = ''['' @ ''REDACTED'' @ '']''" by (simp add: REDACTED_def)
  from assms(1) have ne: "t \<noteq> []" and no: "CHR ''['' \<notin> set t" "CHR '']'' \<notin> set t"
    and nw: "\<not> sublist t ''REDACTED''" by (auto simp: marker_safe_def)
  from assms(2) have "sublist t (''['' @ (''REDACTED'' @ (CHR '']'' # b)))"
    by (simp add: red)
  then have "sublist t (''REDACTED'' @ (CHR '']'' # b))"
    using no(1) ne by (auto simp: sublist_Cons_right prefix_Cons)
  then consider "sublist t ''REDACTED''" | "sublist t (CHR '']'' # b)"
    | t1 t2 where "t = t1 @ t2" "suffix t1 ''REDACTED''" "prefix t2 (CHR '']'' # b)"
    unfolding sublist_append by blast
  then show ?thesis
  proof cases
    case 1
    with nw show ?thesis by blast
  next
    case 2
    with no(2) ne show ?thesis by (auto simp: sublist_Cons_right prefix_Cons)
  next
    case 3
    with no(2) have "t2 = []" by (auto simp: prefix_Cons)
    with 3 have "sublist t ''REDACTED''" by (simp add: suffix_imp_sublist)
    with nw show ?thesis by blast
  qed
qed

lemma marker_separates:
  assumes "marker_safe t"
  shows "sublist t (a @ REDACTED @ b) \<longleftrightarrow> sublist t a \<or> sublist t b"
proof
  assume "sublist t (a @ REDACTED @ b)"
  then consider "sublist t a" | "sublist t (REDACTED @ b)"
    | t1 t2 where "t = t1 @ t2" "suffix t1 a" "prefix t2 (REDACTED @ b)"
    unfolding sublist_append by blast
  then show "sublist t a \<or> sublist t b"
  proof cases
    case 3
    with assms have "t2 = []"
      by (auto simp: marker_safe_def REDACTED_def prefix_Cons)
    with 3 show ?thesis by (simp add: suffix_imp_sublist)
  qed (use assms marker_separates_right in blast)+
next
  assume "sublist t a \<or> sublist t b"
  then show "sublist t (a @ REDACTED @ b)" by (auto simp: sublist_append)
qed

text \<open>Replacing one secret does not create another ...\<close>

lemma str_replace_keeps_clean_gen:
  assumes "marker_safe t"
  shows "\<not> sublist t (p @ s) \<Longrightarrow> \<not> sublist t (p @ str_replace pat REDACTED s)"
proof (induction "length s" arbitrary: p s rule: less_induct)
  case less
  show ?case
  proof (cases s)
    case Nil
    with less.prems show ?thesis by simp
  next
    case (Cons c cs)
    show ?thesis
    proof (cases "pat \<noteq> [] \<and> prefix pat s")
      case True
      let ?rest = "drop (length pat) s"
      have "\<not> sublist t p" using less.prems by (auto simp: sublist_append)
      moreover have "\<not> sublist t ([] @ ?rest)"
        using less.prems by (metis append_Nil append_take_drop_id sublist_append)
      then have "\<not> sublist t ([] @ str_replace pat REDACTED ?rest)"
        using True Cons by (intro less.hyps) auto
      ultimately show ?thesis using True Cons assms by (simp add: marker_separates)
    next
      case False
      have "\<not> sublist t ((p @ [c]) @ str_replace pat REDACTED cs)"
        using less.prems Cons by (intro less.hyps) auto
      with False Cons show ?thesis by auto
    qed
  qed
qed

lemma str_replace_keeps_clean:
  "marker_safe t \<Longrightarrow> \<not> sublist t s \<Longrightarrow> \<not> sublist t (str_replace pat REDACTED s)"
  using str_replace_keeps_clean_gen[of t "[]" s pat] by simp

text \<open>... and removes the secret itself.\<close>

lemma str_replace_removes_gen:
  assumes "marker_safe t"
  shows "\<forall>i < length p. \<not> prefix t (drop i (p @ s)) \<Longrightarrow>
    \<not> sublist t (p @ str_replace t REDACTED s)"
proof (induction "length s" arbitrary: p s rule: less_induct)
  case less
  from assms have ne: "t \<noteq> []" by (simp add: marker_safe_def)
  have p: "\<not> sublist t p"
  proof
    assume "sublist t p"
    then obtain u v where p: "p = u @ t @ v" by (auto simp: sublist_def)
    with ne have "length u < length p" by simp
    moreover from p have "prefix t (drop (length u) (p @ s))" by simp
    ultimately show False using less.prems by blast
  qed
  show ?case
  proof (cases s)
    case Nil
    with p show ?thesis by simp
  next
    case (Cons c cs)
    show ?thesis
    proof (cases "prefix t s")
      case True
      have "\<not> sublist t ([] @ str_replace t REDACTED (drop (length t) s))"
        using ne Cons by (intro less.hyps) auto
      with True Cons p ne assms show ?thesis by (simp add: marker_separates)
    next
      case False
      have "\<not> prefix t (drop i ((p @ [c]) @ cs))" if "i < length (p @ [c])" for i
      proof (cases "i < length p")
        case True
        with less.prems Cons show ?thesis by simp
      next
        case eq: False
        with that have "i = length p" by simp
        with False Cons show ?thesis by simp
      qed
      then have "\<not> sublist t ((p @ [c]) @ str_replace t REDACTED cs)"
        using Cons by (intro less.hyps) auto
      with False Cons show ?thesis by auto
    qed
  qed
qed

lemma str_replace_removes: "marker_safe t \<Longrightarrow> \<not> sublist t (str_replace t REDACTED s)"
  using str_replace_removes_gen[of t "[]" s] by simp

lemma redact_with_keeps:
  "marker_safe t \<Longrightarrow> \<not> sublist t s \<Longrightarrow> \<not> sublist t (redact_with ss s)"
  by (induction ss arbitrary: s) (simp_all add: redact_with_def str_replace_keeps_clean)

lemma redact_with_clean: "\<forall>t \<in> set ss. marker_safe t \<Longrightarrow> clean ss (redact_with ss s)"
proof (induction ss arbitrary: s)
  case (Cons t ss)
  then show ?case
    using redact_with_keeps[of t "str_replace t REDACTED s" ss]
    by (auto simp: clean_def redact_with_def str_replace_removes)
qed (simp add: clean_def)

lemma redact_clean: "safe_policy r \<Longrightarrow> clean_text r (redact_text r s)"
  by (simp add: safe_policy_def clean_text_def redact_text_def redact_with_clean)

lemma redact_with_absent: "clean ss s \<Longrightarrow> redact_with ss s = s"
  by (induction ss) (simp_all add: clean_def redact_with_def str_replace_absent)

lemma redact_text_clean_id [simp]: "clean_text r s \<Longrightarrow> redact_text r s = s"
  by (simp add: clean_text_def redact_text_def redact_with_absent)

lemma redact_idem: "safe_policy r \<Longrightarrow> redact_text r (redact_text r s) = redact_text r s"
  by (simp add: redact_clean)

text \<open>A redacted text is either the text itself or shows the marker.\<close>

lemma str_replace_bracket:
  "CHR ''['' \<in> set s \<or> pat \<noteq> [] \<and> sublist pat s \<Longrightarrow>
    CHR ''['' \<in> set (str_replace pat REDACTED s)"
proof (induction pat "REDACTED" s rule: str_replace.induct)
  case (2 pat c cs)
  then show ?case
    by (cases "pat \<noteq> [] \<and> prefix pat (c # cs)") (auto simp: REDACTED_def sublist_Cons_right)
qed simp

lemma redact_with_bracket: "CHR ''['' \<in> set s \<Longrightarrow> CHR ''['' \<in> set (redact_with ss s)"
  by (induction ss arbitrary: s) (simp_all add: redact_with_def str_replace_bracket)

lemma redact_with_marked:
  "\<forall>t \<in> set ss. t \<noteq> [] \<Longrightarrow> CHR ''['' \<notin> set (redact_with ss s) \<Longrightarrow> redact_with ss s = s"
proof (induction ss arbitrary: s)
  case (Cons t ss)
  have u: "redact_with (t # ss) s = redact_with ss (str_replace t REDACTED s)"
    by (simp add: redact_with_def)
  with Cons.prems(2) have "CHR ''['' \<notin> set (str_replace t REDACTED s)"
    using redact_with_bracket by metis
  then have "\<not> sublist t s" using str_replace_bracket Cons.prems(1) by auto
  then have "str_replace t REDACTED s = s" by (rule str_replace_absent)
  with Cons u show ?case by simp
qed (simp add: redact_with_def)

lemma redact_text_unmarked:
  "safe_policy r \<Longrightarrow> redact_text r s = t \<Longrightarrow> CHR ''['' \<notin> set t \<Longrightarrow> s = t"
  using redact_with_marked[of "secrets r" s]
  by (auto simp: redact_text_def safe_policy_def marker_safe_def)

section \<open>Redacted JSON\<close>

lemma default_policy_safe [simp]: "safe_policy default_redactor"
  by (simp add: safe_policy_def default_redactor_def)

lemma default_redactor_id [simp]:
  "redact_text default_redactor s = s" "clean_text default_redactor s"
  by (simp_all add: clean_text_def clean_def default_redactor_def redact_text_def redact_with_def)

lemma next_free_key_fresh: "next_free_key used base n \<notin> set used"
proof (induction used base n rule: next_free_key.induct)
  case (1 used base n)
  then show ?case by (subst next_free_key.simps) simp
qed

lemma collision_free_key_fresh: "collision_free_key used key \<notin> set used"
  by (simp add: collision_free_key_def next_free_key_fresh)

lemma obj_insert_fresh_length: "k \<notin> fst ` set ms \<Longrightarrow> length (obj_insert k v ms) = Suc (length ms)"
  by (induction k v ms rule: obj_insert.induct) auto

lemma obj_insert_fresh_set: "k \<notin> fst ` set ms \<Longrightarrow> set (obj_insert k v ms) = insert (k, v) (set ms)"
  by (induction k v ms rule: obj_insert.induct) auto

lemma collision_free_insert:
  "length (obj_insert (collision_free_key (map fst ms) k) v ms) = Suc (length ms)"
  "set (obj_insert (collision_free_key (map fst ms) k) v ms)
    = insert (collision_free_key (map fst ms) k, v) (set ms)"
  using collision_free_key_fresh[of "map fst ms" k]
  by (simp_all add: obj_insert_fresh_length obj_insert_fresh_set)

text \<open>Every string that occurs as a value, at any depth, is free of secrets.\<close>

fun values_clean :: "redactor \<Rightarrow> json \<Rightarrow> bool" where
  "values_clean r (JString s) = clean_text r s"
| "values_clean r (JArray vs) = (\<forall>v \<in> set vs. values_clean r v)"
| "values_clean r (JObject ms) = (\<forall>m \<in> set ms. values_clean r (snd m))"
| "values_clean r _ = True"

lemma marker_clean: "safe_policy r \<Longrightarrow> clean_text r REDACTED"
  using marker_separates[where a = "[]" and b = "[]"]
  by (auto simp: safe_policy_def clean_text_def clean_def marker_safe_def)

lemma redact_values_clean:
  shows "safe_policy r \<Longrightarrow> values_clean r (redact_value r v)"
    and "safe_policy r \<Longrightarrow> \<forall>v \<in> set (redact_list r vs). values_clean r v"
    and "safe_policy r \<Longrightarrow> \<forall>m \<in> set out. values_clean r (snd m) \<Longrightarrow>
      \<forall>m \<in> set (redact_members r ms out). values_clean r (snd m)"
  by (induction r v and r vs and r ms out rule: redact_value_redact_list_redact_members.induct)
    (simp_all add: redact_clean marker_clean collision_free_insert)

lemma redact_members_length: "length (redact_members r ms out) = length ms + length out"
  by (induction ms arbitrary: out) (auto simp: collision_free_insert)

lemma redact_list_map: "redact_list r vs = map (redact_value r) vs"
  by (induction vs) simp_all

text \<open>The same shape: the kind of value, and the number of elements and of members, at every
  depth but under a sensitive key.\<close>

fun json_width :: "json \<Rightarrow> nat" where
  "json_width (JArray vs) = length vs"
| "json_width (JObject ms) = length ms"
| "json_width _ = 0"

section \<open>Properties\<close>

text \<open>
  C40. Under a safe policy, one whose secrets are not empty, have no bracket and are not part of
  the word in the marker, the redacted text has no registered secret in it, so the byte scanner
  that guards what is persisted accepts it, and redacting it again changes nothing. Without that
  condition this is false (\<open>marker_secret_defeats_redaction\<close>). A text without secrets is left as
  it is under any policy.
\<close>

theorem redact_text_sound:
  "(safe_policy r \<longrightarrow> \<not> contains_secret r (redact_text r s)
      \<and> assert_clean_bytes r (redact_text r s) loc = Inr ()
      \<and> redact_text r (redact_text r s) = redact_text r s)
   \<and> (\<not> contains_secret r s \<longrightarrow> redact_text r s = s)"
  by (simp add: assert_clean_bytes_def contains_secret_iff redact_clean)

definition sample_policy :: redactor where
  "sample_policy = default_redactor\<lparr>secrets := [''hunter2'', ''s3cr'']\<rparr>"

lemma sample_policy_safe: "safe_policy sample_policy"
  by (simp add: safe_policy_def sample_policy_def marker_safe_def sublist_Cons_right
      prefix_Cons)

theorem redact_text_sound_witness:
  "redact_text sample_policy ''a hunter2 b'' = ''a [REDACTED] b''
   \<and> assert_clean_bytes sample_policy (redact_text sample_policy ''a hunter2 b'') ''row'' = Inr ()
   \<and> redact_text sample_policy ''plain'' = ''plain''"
proof -
  have "\<not> contains_secret sample_policy ''plain''"
    by (simp add: contains_secret_def sample_policy_def sublist_Cons_right)
  then show ?thesis
    using redact_text_sound[of sample_policy "''a hunter2 b''" "''row''"]
      redact_text_sound[of sample_policy "''plain''" "''row''"] sample_policy_safe
    by (simp add: redact_text_def redact_with_def sample_policy_def REDACTED_def)
qed

text \<open>
  Redacting a JSON payload keeps the kind of the value and every element and member: keys
  that become equal are renamed, never dropped. Under a safe policy no string value at any
  depth holds a secret.
\<close>

lemma redact_value_sound:
  "json_width (redact_value r v) = json_width v
   \<and> (safe_policy r \<longrightarrow> values_clean r (redact_value r v))"
proof
  show "json_width (redact_value r v) = json_width v"
    by (cases v) (simp_all add: redact_members_length redact_list_map)
qed (simp add: redact_values_clean(1))

lemma redact_value_sound_witness:
  "let v = redact_value sample_policy (JObject [(''hunter2'', JNull), (''s3cr'', JString ''s3cr'')])
   in json_width v = 2 \<and> values_clean sample_policy v
     \<and> v = JObject [(''[REDACTED]'', JNull), (''[REDACTED]#1'', JString ''[REDACTED]'')]"
proof -
  let ?v = "JObject [(''hunter2'', JNull), (''s3cr'', JString ''s3cr'')]"
  have "redact_value sample_policy ?v
      = JObject [(''[REDACTED]'', JNull), (''[REDACTED]#1'', JString ''[REDACTED]'')]"
    by code_simp
  with redact_value_sound[of sample_policy ?v] sample_policy_safe show ?thesis by simp
qed

text \<open>
  The policy is safe only as far as the registered secrets are: a secret that is part of
  the marker itself can be registered, and then redaction reproduces it in its output, is not
  idempotent, and the byte scanner rejects the redacted text.
\<close>

lemma marker_secret_defeats_redaction:
  "\<exists>r. register_secret default_redactor ''ACTE'' = Inr r
    \<and> redact_text r ''ACTE'' = ''[REDACTED]''
    \<and> contains_secret r (redact_text r ''ACTE'')
    \<and> redact_text r (redact_text r ''ACTE'') \<noteq> redact_text r ''ACTE''"
proof -
  let ?r = "default_redactor\<lparr>secrets := [''ACTE'']\<rparr>"
  have "register_secret default_redactor ''ACTE'' = Inr ?r"
    by (simp add: register_secret_def default_redactor_def)
  moreover have "redact_text ?r ''ACTE'' = ''[REDACTED]''"
    "redact_text ?r ''[REDACTED]'' = ''[RED[REDACTED]D]''"
    by (simp_all add: redact_text_def redact_with_def REDACTED_def)
  moreover have "contains_secret ?r ''[REDACTED]''"
    by (simp add: contains_secret_def sublist_Cons_right prefix_Cons)
  ultimately show ?thesis by (intro exI[of _ ?r]) simp
qed

end
