(* ===== verification/Canonical.thy ===== *)
theory Canonical
  imports Redaction "HOL-Library.Char_ord" "HOL-Library.List_Lexorder" "HOL-Library.Multiset"
begin

text \<open>
  The deterministic JSON encoding of \<open>src/src/canonical.rs\<close> and the domain-separated digest
  of \<open>src/src/cas.rs\<close>. Functions outside the program are parameters, collected in a record:
  the rendering of one JSON string (\<open>serde_json::to_writer\<close>), SHA-256 as lowercase
  hexadecimal, the JSON parser (\<open>serde_json::from_str\<close>, whose failure is a message), and the
  \<open>Debug\<close> rendering of a text, which occurs in error messages only. Keys are
  compared as bytes; that is the order \<open>List_Lexorder\<close> gives lists of \<open>char\<close>.
\<close>

record externals =
  json_str :: "utf8 \<Rightarrow> utf8"
  sha256_hex :: "utf8 \<Rightarrow> utf8"
  json_parse :: "utf8 \<Rightarrow> utf8 + json"
  debug_str :: "utf8 \<Rightarrow> utf8"

definition debug_opt :: "externals \<Rightarrow> utf8 option \<Rightarrow> utf8" where
  "debug_opt X v = (case v of None \<Rightarrow> ''None'' | Some s \<Rightarrow> ''Some('' @ debug_str X s @ '')'')"

section \<open>Writing a value\<close>

fun join_comma :: "utf8 list \<Rightarrow> utf8" where
  "join_comma [] = []"
| "join_comma [x] = x"
| "join_comma (x # y # xs) = x @ '','' @ join_comma (y # xs)"

lemma size_member: "m \<in> set ms \<Longrightarrow> size (snd m) < size (JObject ms)"
  by (induction ms) (auto simp: size_prod_simp)

function write_value :: "(utf8 \<Rightarrow> utf8) \<Rightarrow> json \<Rightarrow> utf8" where
  "write_value es JNull = ''null''"
| "write_value es (JBool b) = (if b then ''true'' else ''false'')"
| "write_value es (JNumber n) = n"
| "write_value es (JString s) = es s"
| "write_value es (JArray vs) = ''['' @ join_comma (map (\<lambda>v. write_value es v) vs) @ '']''"
| "write_value es (JObject ms) =
     ''{'' @ join_comma (map (\<lambda>m. es (fst m) @ '':'' @ write_value es (snd m)) (sort_key fst ms))
     @ ''}''"
  by pat_completeness auto

termination
proof (relation "measure (\<lambda>(es, v). size v)", goal_cases)
  case (2 es vs v)
  then show ?case by (induction vs) auto
next
  case (3 es ms m)
  then show ?case using size_member[of m ms] by simp
qed simp

definition canonical_bytes :: "externals \<Rightarrow> json \<Rightarrow> utf8 res" where
  "canonical_bytes X v = Inr (write_value (json_str X) v)"

definition validate_domain :: "utf8 \<Rightarrow> unit res" where
  "validate_domain domain =
     (if domain = [] then Inl (InvalidInput ''domain must not be empty'')
      else if contains_nul domain then Inl (InvalidInput ''domain must not contain NUL'')
      else Inr ())"

text \<open>\<open>sha256(domain + NUL + bytes)\<close>.\<close>

definition digest_input :: "utf8 \<Rightarrow> utf8 \<Rightarrow> utf8" where
  "digest_input domain bytes = domain @ [byte 0] @ bytes"

definition digest_for :: "externals \<Rightarrow> utf8 \<Rightarrow> utf8 \<Rightarrow> utf8" where
  "digest_for X domain bytes = sha256_hex X (digest_input domain bytes)"

definition canonical_digest :: "externals \<Rightarrow> utf8 \<Rightarrow> json \<Rightarrow> utf8 res" where
  "canonical_digest X domain v =
     (case validate_domain domain of
        Inl e \<Rightarrow> Inl e
      | Inr _ \<Rightarrow>
          (case canonical_bytes X v of Inl e \<Rightarrow> Inl e | Inr b \<Rightarrow> Inr (digest_for X domain b)))"

text \<open>The domain and the bytes are recovered from what is hashed: a valid domain has no NUL.\<close>

lemma digest_input_inj:
  assumes "digest_input d1 b1 = digest_input d2 b2"
    and "validate_domain d1 = Inr ()" "validate_domain d2 = Inr ()"
  shows "d1 = d2 \<and> b1 = b2"
proof -
  have nn: "byte 0 \<notin> set d1" "byte 0 \<notin> set d2"
    using assms(2,3) by (auto simp: validate_domain_def contains_nul_def split: if_splits)
  have "takeWhile (\<lambda>c. c \<noteq> byte 0) (digest_input d b) = d"
    "dropWhile (\<lambda>c. c \<noteq> byte 0) (digest_input d b) = byte 0 # b" if "byte 0 \<notin> set d" for d b
    using that by (auto simp: digest_input_def takeWhile_append dropWhile_append)
  from this[OF nn(1), of b1] this[OF nn(2), of b2] assms(1) show ?thesis by simp
qed

section \<open>Member order does not matter\<close>

function normalize :: "json \<Rightarrow> json" where
  "normalize JNull = JNull"
| "normalize (JBool b) = JBool b"
| "normalize (JNumber n) = JNumber n"
| "normalize (JString s) = JString s"
| "normalize (JArray vs) = JArray (map (\<lambda>v. normalize v) vs)"
| "normalize (JObject ms) = JObject (map (\<lambda>m. (fst m, normalize (snd m))) (sort_key fst ms))"
  by pat_completeness auto

termination
proof (relation "measure size", goal_cases)
  case (2 vs v)
  then show ?case by (induction vs) auto
next
  case (3 ms m)
  then show ?case using size_member[of m ms] by simp
qed simp

text \<open>Equal up to the order of object members, at every depth; the keys of an object are
  distinct, as in the map the program uses.\<close>

inductive json_equiv :: "json \<Rightarrow> json \<Rightarrow> bool" where
  refl_leaf: "json_equiv v v"
| arrays: "list_all2 json_equiv vs ws \<Longrightarrow> json_equiv (JArray vs) (JArray ws)"
| objects: "distinct (map fst ms) \<Longrightarrow> mset ms = mset ms' \<Longrightarrow>
    list_all2 (\<lambda>m n. fst m = fst n \<and> json_equiv (snd m) (snd n)) ms' ns \<Longrightarrow>
    json_equiv (JObject ms) (JObject ns)"

lemma sort_members_unique:
  assumes "distinct (map fst ms)" "mset ms = mset ns"
  shows "sort_key fst ms = sort_key fst ns"
proof (rule sort_key_inj_key_eq)
  show "inj_on fst (set ms)" using assms(1) by (simp add: distinct_map)
qed (use assms in auto)

lemma insort_key_rel:
  assumes "fst a = fst b" "f a = g b" "list_all2 (\<lambda>m n. fst m = fst n \<and> f m = g n) ms ns"
  shows "list_all2 (\<lambda>m n. fst m = fst n \<and> f m = g n) (insort_key fst a ms) (insort_key fst b ns)"
  using assms(3,1,2) by (induction rule: list_all2_induct) auto

lemma sort_key_rel:
  "list_all2 (\<lambda>m n. fst m = fst n \<and> f m = g n) ms ns \<Longrightarrow>
    list_all2 (\<lambda>m n. fst m = fst n \<and> f m = g n) (sort_key fst ms) (sort_key fst ns)"
  by (induction rule: list_all2_induct) (auto simp: sort_key_def intro: insort_key_rel)

lemma json_equiv_write: "json_equiv v w \<Longrightarrow> write_value es v = write_value es w"
proof (induction rule: json_equiv.induct)
  case (arrays vs ws)
  then have "map (write_value es) vs = map (write_value es) ws"
    by (auto simp: list_all2_conv_all_nth intro: nth_equalityI)
  then show ?case by simp
next
  case (objects ms ms' ns)
  have "list_all2 (\<lambda>m n. fst m = fst n \<and> write_value es (snd m) = write_value es (snd n)) ms' ns"
    by (rule list_all2_mono[OF objects.IH]) auto
  from sort_key_rel[OF this]
  have "map (\<lambda>m. es (fst m) @ '':'' @ write_value es (snd m)) (sort_key fst ms')
      = map (\<lambda>m. es (fst m) @ '':'' @ write_value es (snd m)) (sort_key fst ns)"
    by (auto simp: list_all2_conv_all_nth intro: nth_equalityI)
  then show ?case using sort_members_unique[OF objects.hyps(1,2)] by simp
qed simp

section \<open>Different values have different bytes\<close>

text \<open>
  What is needed of the string encoder, a third-party function: it starts with a quote and is
  self-delimiting, as JSON string syntax is. Printed numbers use the JSON number alphabet.
\<close>

definition json_encoder :: "(utf8 \<Rightarrow> utf8) \<Rightarrow> bool" where
  "json_encoder es \<longleftrightarrow> (\<forall>a. es a \<noteq> [] \<and> hd (es a) = CHR 0x22)
     \<and> (\<forall>a b r s. es a @ r = es b @ s \<longrightarrow> a = b \<and> r = s)"

lemma json_encoder_hd: "json_encoder es \<Longrightarrow> es a \<noteq> [] \<and> hd (es a) = CHR 0x22"
  unfolding json_encoder_def by blast

lemma json_encoder_cancel: "json_encoder es \<Longrightarrow> es a @ r = es b @ s \<Longrightarrow> a = b \<and> r = s"
  unfolding json_encoder_def by blast

definition number_chars :: utf8 where
  "number_chars = ''0123456789-+.eE''"

definition number_text :: "utf8 \<Rightarrow> bool" where
  "number_text n \<longleftrightarrow> n \<noteq> [] \<and> hd n \<in> set ''0123456789-'' \<and> set n \<subseteq> set number_chars"

fun numbers_ok :: "json \<Rightarrow> bool" where
  "numbers_ok (JNumber n) = number_text n"
| "numbers_ok (JArray vs) = (\<forall>v \<in> set vs. numbers_ok v)"
| "numbers_ok (JObject ms) = (\<forall>m \<in> set ms. numbers_ok (snd m))"
| "numbers_ok _ = True"

definition closes :: "utf8 \<Rightarrow> bool" where
  "closes r \<longleftrightarrow> r = [] \<or> hd r \<in> set '',]}''"

lemma closes_simps [simp]: "closes []" "closes (c # r) \<longleftrightarrow> c \<in> set '',]}''"
  by (simp_all add: closes_def)

lemma number_cancel:
  assumes "set m \<subseteq> set number_chars" "set n \<subseteq> set number_chars" "closes r" "closes s"
    and "m @ r = n @ s"
  shows "m = n \<and> r = s"
proof -
  let ?P = "\<lambda>c. c \<in> set number_chars"
  have t: "takeWhile ?P (m @ r) = m" if "set m \<subseteq> set number_chars" "closes r" for m r
  proof -
    have "takeWhile ?P r = []"
      using that(2) by (cases r) (auto simp: number_chars_def)
    with that(1) show ?thesis by (simp add: takeWhile_append subset_iff)
  qed
  from t[OF assms(1,3)] t[OF assms(2,4)] assms(5) have "m = n" by simp
  with assms(5) show ?thesis by simp
qed

text \<open>A comma-separated list of items is split back into its items.\<close>

lemma join_cancel:
  assumes "\<And>x y r s. x \<in> set xs \<Longrightarrow> y \<in> set ys \<Longrightarrow> closes r \<Longrightarrow> closes s \<Longrightarrow> f x @ r = f y @ s \<Longrightarrow>
      N x = N y \<and> r = s"
    and "\<And>x. x \<in> set xs \<union> set ys \<Longrightarrow> \<not> closes (f x @ [CHR '','' ])"
    and "c \<in> set '']}''" "join_comma (map f xs) @ c # r = join_comma (map f ys) @ c # s"
  shows "map N xs = map N ys \<and> r = s"
  using assms
proof (induction xs arbitrary: ys)
  case Nil
  then show ?case
  proof (cases ys)
    case (Cons y ys')
    with Nil.prems(2)[of y] Nil.prems(3,4) show ?thesis
      by (cases ys'; cases "f y") auto
  qed simp
next
  case (Cons x xs)
  from Cons.prems(2)[of x] have nx: "\<not> closes (f x @ [CHR '',''])" by simp
  show ?case
  proof (cases ys)
    case Nil
    with nx Cons.prems(3,4) show ?thesis
      by (cases xs; cases "f x") auto
  next
    case ys: (Cons y ys')
    let ?rest = "\<lambda>zs t. (if zs = [] then c # t else CHR '','' # join_comma (map f zs) @ c # t)"
    have split: "join_comma (map f (z # zs)) @ c # t = f z @ ?rest zs t" for z zs t
      by (cases zs) auto
    have "closes (?rest zs t)" for zs t using Cons.prems(3) by auto
    then have eq: "N x = N y \<and> ?rest xs r = ?rest ys' s"
      using Cons.prems(4) unfolding ys split
      by (intro Cons.prems(1)) (auto simp: ys)
    show ?thesis
    proof (cases "xs = [] \<or> ys' = []")
      case True
      with eq Cons.prems(3) show ?thesis by (auto simp: ys split: if_splits)
    next
      case False
      with eq have "join_comma (map f xs) @ c # r = join_comma (map f ys') @ c # s" by simp
      moreover have "N x = N y \<and> r = s"
        if "x \<in> set xs" "y \<in> set ys'" "closes r" "closes s" "f x @ r = f y @ s" for x y r s
        using Cons.prems(1)[of x y r s] that ys by simp
      moreover have "\<not> closes (f x @ [CHR '',''])" if "x \<in> set xs \<union> set ys'" for x
        using Cons.prems(2)[of x] that ys by auto
      ultimately have "map N xs = map N ys' \<and> r = s"
        using Cons.IH[of ys'] Cons.prems(3) by blast
      with eq show ?thesis by (simp add: ys)
    qed
  qed
qed

lemma hd_write:
  assumes "json_encoder es" "numbers_ok v"
  shows "write_value es v \<noteq> [] \<and> hd (write_value es v) =
    (case v of JNull \<Rightarrow> CHR ''n'' | JBool b \<Rightarrow> if b then CHR ''t'' else CHR ''f''
     | JNumber n \<Rightarrow> hd n | JString _ \<Rightarrow> CHR 0x22 | JArray _ \<Rightarrow> CHR ''['' | JObject _ \<Rightarrow> CHR ''{'')"
  using assms(2) json_encoder_hd[OF assms(1)] by (cases v) (auto simp: number_text_def)

lemma hd_write_open:
  assumes "json_encoder es" "numbers_ok v"
  shows "\<not> closes (write_value es v @ r)"
proof -
  have "hd (write_value es v) \<notin> set '',]}''"
    using hd_write[OF assms] assms(2) by (cases v) (auto simp: number_text_def)
  with hd_write[OF assms] show ?thesis by (auto simp: closes_def)
qed

text \<open>The first byte tells the kind of value.\<close>

lemma write_same_kind:
  assumes "json_encoder es" "numbers_ok v" "numbers_ok w"
    and "write_value es v @ r = write_value es w @ s"
  shows "(v = JNull \<longleftrightarrow> w = JNull) \<and> (\<forall>b. v = JBool b \<longleftrightarrow> w = JBool b)
    \<and> (\<exists>n. v = JNumber n) = (\<exists>n. w = JNumber n) \<and> (\<exists>n. v = JString n) = (\<exists>n. w = JString n)
    \<and> (\<exists>n. v = JArray n) = (\<exists>n. w = JArray n) \<and> (\<exists>n. v = JObject n) = (\<exists>n. w = JObject n)"
proof -
  have "hd (write_value es v) = hd (write_value es w)"
    using hd_write[OF assms(1,2)] hd_write[OF assms(1,3)] assms(4) by (metis hd_append2)
  with hd_write[OF assms(1,2)] hd_write[OF assms(1,3)] assms(2,3) show ?thesis
    by (cases v; cases w) (auto simp: number_text_def split: if_splits)
qed

lemma write_cancel:
  assumes "json_encoder es" "numbers_ok v" "numbers_ok w" "closes r" "closes s"
    and "write_value es v @ r = write_value es w @ s"
  shows "normalize v = normalize w \<and> r = s"
  using assms
proof (induction es v arbitrary: w r s rule: write_value.induct)
  case (3 es n)
  from write_same_kind[OF "3.prems"(1-3,6)] obtain n' where w: "w = JNumber n'" by auto
  with 3 have "n = n' \<and> r = s"
    by (intro number_cancel) (auto simp: number_text_def)
  with w show ?case by simp
next
  case (4 es a)
  from write_same_kind[OF "4.prems"(1-3,6)] obtain b where w: "w = JString b" by auto
  with "4.prems" have "a = b \<and> r = s" by (auto dest: json_encoder_cancel)
  with w show ?case by simp
next
  case (5 es vs)
  from write_same_kind[OF "5.prems"(1-3,6)] obtain ws where w: "w = JArray ws" by auto
  have "map normalize vs = map normalize ws \<and> r = s"
  proof (rule join_cancel[where c = "CHR '']''" and f = "write_value es"])
    show "join_comma (map (write_value es) vs) @ CHR '']'' # r
        = join_comma (map (write_value es) ws) @ CHR '']'' # s"
      using "5.prems" w by simp
    show "normalize x = normalize y \<and> r = s"
      if "x \<in> set vs" "y \<in> set ws" "closes r" "closes s"
        "write_value es x @ r = write_value es y @ s" for x y r s
      using "5.IH"[of x y r s] "5.prems" that w by auto
    show "\<not> closes (write_value es x @ [CHR '',''])" if "x \<in> set vs \<union> set ws" for x
      using "5.prems" that w by (intro hd_write_open) auto
  qed simp
  with w show ?case by simp
next
  case (6 es ms)
  from write_same_kind[OF "6.prems"(1-3,6)] obtain ns where w: "w = JObject ns" by auto
  let ?f = "\<lambda>m. es (fst m) @ '':'' @ write_value es (snd m)"
  let ?N = "\<lambda>m. (fst m, normalize (snd m))"
  have enc: "json_encoder es" by fact
  have "map ?N (sort_key fst ms) = map ?N (sort_key fst ns) \<and> r = s"
  proof (rule join_cancel[where c = "CHR ''}''" and f = ?f])
    show "join_comma (map ?f (sort_key fst ms)) @ CHR ''}'' # r
        = join_comma (map ?f (sort_key fst ns)) @ CHR ''}'' # s"
      using "6.prems" w by simp
    show "?N x = ?N y \<and> r = s"
      if "x \<in> set (sort_key fst ms)" "y \<in> set (sort_key fst ns)" "closes r" "closes s"
        "?f x @ r = ?f y @ s" for x y r s
    proof -
      from that(5) have "es (fst x) @ (CHR '':'' # write_value es (snd x) @ r)
          = es (fst y) @ (CHR '':'' # write_value es (snd y) @ s)" by simp
      then have "fst x = fst y \<and> write_value es (snd x) @ r = write_value es (snd y) @ s"
        using json_encoder_cancel[OF enc] by blast
      then show ?thesis
        using "6.IH"[of x "snd y" r s] "6.prems" that w by auto
    qed
    show "\<not> closes (?f x @ [CHR '',''])" if "x \<in> set (sort_key fst ms) \<union> set (sort_key fst ns)" for x
      using json_encoder_hd[OF enc, of "fst x"] by (auto simp: closes_def hd_append)
  qed simp
  with w show ?case by simp
next
  case (1 es)
  from write_same_kind[OF "1.prems"(1-3,6)] have "w = JNull" by auto
  with 1 show ?case by simp
next
  case (2 es b)
  from write_same_kind[OF "2.prems"(1-3,6)] have "w = JBool b" by auto
  with 2 show ?case by simp
qed

section \<open>A string encoder\<close>

text \<open>An encoder that satisfies \<open>json_encoder\<close>, for concrete runs: quotes and backslashes
  are escaped.\<close>

fun escape :: "utf8 \<Rightarrow> utf8" where
  "escape [] = []"
| "escape (c # s) =
     (if c = CHR 0x22 \<or> c = CHR 0x5C then CHR 0x5C # c # escape s else c # escape s)"

definition quote :: "utf8 \<Rightarrow> utf8" where
  "quote s = CHR 0x22 # escape s @ [CHR 0x22]"

definition sample_externals :: externals where
  "sample_externals = \<lparr>json_str = quote, sha256_hex = (\<lambda>s. s), json_parse = (\<lambda>s. Inr (JString s)), debug_str = quote\<rparr>"

lemma escape_cancel: "escape a @ CHR 0x22 # r = escape b @ CHR 0x22 # s \<Longrightarrow> a = b \<and> r = s"
proof (induction a arbitrary: b)
  case Nil
  then show ?case by (cases b) (auto split: if_splits)
next
  case (Cons c a)
  then show ?case by (cases b) (auto split: if_splits)
qed

lemma quote_encoder: "json_encoder quote"
  unfolding json_encoder_def by (auto simp: quote_def dest: escape_cancel)

section \<open>Properties\<close>

text \<open>
  C39. The bytes that are hashed determine the domain and the JSON value up to member order, and
  values that differ in member order only have the same digest: two digests of one domain can
  differ by their content alone, and agree only when SHA-256 itself collides.
\<close>

theorem canonical_digest_faithful:
  assumes "json_encoder (json_str X)" "numbers_ok v" "numbers_ok w"
    and "validate_domain d1 = Inr ()" "validate_domain d2 = Inr ()"
    and "canonical_bytes X v = Inr b1" "canonical_bytes X w = Inr b2"
  shows "(digest_input d1 b1 = digest_input d2 b2 \<longrightarrow> d1 = d2 \<and> normalize v = normalize w)
    \<and> (json_equiv v w \<longrightarrow> canonical_digest X d1 v = canonical_digest X d1 w)"
proof
  show "digest_input d1 b1 = digest_input d2 b2 \<longrightarrow> d1 = d2 \<and> normalize v = normalize w"
    using digest_input_inj[OF _ assms(4,5)] write_cancel[OF assms(1-3), of "[]" "[]"] assms(6,7)
    by (auto simp: canonical_bytes_def)
  show "json_equiv v w \<longrightarrow> canonical_digest X d1 v = canonical_digest X d1 w"
    using json_equiv_write[of v w "json_str X"]
    by (simp add: canonical_digest_def canonical_bytes_def split: sum.split)
qed

theorem canonical_digest_faithful_witness:
  "let v = JObject [(''b'', JNumber ''1''), (''a'', JNull)]; w = JObject [(''a'', JNull), (''b'', JNumber ''1'')]
   in canonical_digest sample_externals ''pong.x'' v = canonical_digest sample_externals ''pong.x'' w
     \<and> digest_input ''pong.x'' (write_value quote v) \<noteq> digest_input ''pong.y'' (write_value quote w)"
proof -
  let ?v = "JObject [(''b'', JNumber ''1''), (''a'', JNull)]"
  let ?w = "JObject [(''a'', JNull), (''b'', JNumber ''1'')]"
  have eq: "json_equiv ?v ?w"
    by (rule json_equiv.objects[where ms' = "[(''a'', JNull), (''b'', JNumber ''1'')]"])
      (auto intro: json_equiv.refl_leaf)
  have enc: "json_encoder (json_str sample_externals)"
    by (simp add: sample_externals_def quote_encoder)
  have num: "numbers_ok ?v" "numbers_ok ?w"
    by (simp_all add: number_text_def number_chars_def)
  have dom: "validate_domain ''pong.x'' = Inr ()" "validate_domain ''pong.y'' = Inr ()"
    by code_simp+
  have b: "canonical_bytes sample_externals u = Inr (write_value quote u)" for u
    by (simp add: canonical_bytes_def sample_externals_def)
  show ?thesis
    using canonical_digest_faithful[OF enc num dom b b] eq by simp
qed

end
