(* ===== verification/Schema.thy ===== *)
theory Schema
  imports Canonical
begin

text \<open>
  The data of the metadata store (\<open>src/src/metadata.rs\<close>): the structs the operations take
  and return, which are also the rows of the SQLite tables, and the database as a record of
  tables. A 64-bit integer column is an \<open>int\<close>; where the code checks a range, the check is
  written out in the operation. Columns that hold canonical JSON of a typed field
  (\<open>input_refs_json\<close> and its kin) are modelled by the typed field the row decoders return.
\<close>

section \<open>Requests and rows\<close>

record idempotency_key =
  ik_project_id :: utf8
  ik_actor_id :: utf8
  ik_request_id :: utf8

datatype idempotency_result = NewlyRecorded | Existing json

record event_record =
  ev_event_id :: utf8
  ev_project_id :: utf8
  ev_stream_id :: utf8
  ev_sequence :: int
  ev_schema_version :: utf8
  ev_actor_id :: "utf8 option"
  ev_request_id :: "utf8 option"
  ev_occurred_at :: utf8
  ev_payload_digest :: utf8
  ev_payload_json :: utf8

record new_event =
  ne_event_id :: utf8
  ne_project_id :: utf8
  ne_stream_id :: utf8
  ne_schema_version :: utf8
  ne_actor_id :: "utf8 option"
  ne_request_id :: "utf8 option"
  ne_occurred_at :: utf8
  ne_payload :: json

record new_event_envelope =
  nv_event_id :: utf8
  nv_project_id :: utf8
  nv_stream_id :: utf8
  nv_event_type :: utf8
  nv_schema_version :: utf8
  nv_occurred_at :: utf8
  nv_recorded_at :: utf8
  nv_actor_id :: "utf8 option"
  nv_workspace_id :: "utf8 option"
  nv_task_id :: "utf8 option"
  nv_operation_id :: "utf8 option"
  nv_causation_id :: "utf8 option"
  nv_correlation_id :: "utf8 option"
  nv_parent_event_ids :: "utf8 list"
  nv_capture_confidence :: "utf8 option"
  nv_redaction_status :: utf8
  nv_generation_id :: "utf8 option"
  nv_migration_id :: "utf8 option"
  nv_payload :: json

record event_envelope =
  en_event_id :: utf8
  en_project_id :: utf8
  en_stream_id :: utf8
  en_event_type :: utf8
  en_sequence :: int
  en_project_sequence :: int
  en_schema_version :: utf8
  en_occurred_at :: utf8
  en_recorded_at :: utf8
  en_actor_id :: "utf8 option"
  en_workspace_id :: "utf8 option"
  en_task_id :: "utf8 option"
  en_operation_id :: "utf8 option"
  en_causation_id :: "utf8 option"
  en_correlation_id :: "utf8 option"
  en_parent_event_ids :: "utf8 list"
  en_capture_confidence :: "utf8 option"
  en_redaction_status :: utf8
  en_payload_digest :: utf8
  en_payload_json :: utf8

record journal_operation =
  jo_project_id :: utf8
  jo_actor_id :: utf8
  jo_request_id :: utf8
  jo_operation_id :: utf8
  jo_phase :: utf8
  jo_payload_json :: utf8
  jo_created_at :: utf8

record workspace_record =
  ws_workspace_id :: utf8
  ws_project_id :: utf8
  ws_driver :: utf8
  ws_locator :: utf8
  ws_branch_ref :: "utf8 option"
  ws_head :: "utf8 option"
  ws_version_head_id :: "utf8 option"
  ws_environment_id :: "utf8 option"
  ws_status :: utf8
  ws_revision :: int
  ws_created_at :: utf8
  ws_updated_at :: utf8

record lease_record =
  lr_workspace_id :: utf8
  lr_agent_id :: "utf8 option"
  lr_epoch :: int
  lr_expires_at_ms :: int
  lr_acquired_at_ms :: int

record lease_token =
  lt_workspace_id :: utf8
  lt_agent_id :: utf8
  lt_epoch :: int
  lt_expires_at_ms :: int

record workspace_update =
  wu_workspace_id :: utf8
  wu_expected_revision :: int
  wu_lease :: lease_token
  wu_branch_ref :: "utf8 option"
  wu_head :: "utf8 option"
  wu_environment_id :: "utf8 option"
  wu_status :: utf8
  wu_updated_at :: utf8
  wu_now_ms :: int

record environment_record =
  er_environment_id :: utf8
  er_project_id :: utf8
  er_fingerprint :: utf8
  er_facts_json :: utf8
  er_created_at :: utf8

record snapshot_record =
  sn_snapshot_id :: utf8
  sn_root_digest :: utf8
  sn_workspace_id :: utf8
  sn_project_id :: utf8
  sn_environment_id :: "utf8 option"
  sn_manifest_version :: nat
  sn_redaction_profile_id :: utf8
  sn_redaction_profile_version :: utf8
  sn_file_count :: nat
  sn_total_bytes :: nat
  sn_created_at :: utf8
  sn_operation_id :: utf8
  sn_event_id :: utf8
  sn_generation_id :: utf8
  sn_migration_id :: utf8

record snapshot_publication =
  sp_snapshot_id :: utf8
  sp_root_digest :: utf8
  sp_workspace_id :: utf8
  sp_project_id :: utf8
  sp_environment_id :: "utf8 option"
  sp_manifest_version :: nat
  sp_file_count :: nat
  sp_total_bytes :: nat
  sp_created_at :: utf8
  sp_operation_id :: utf8
  sp_event_id :: utf8
  sp_causation_id :: "utf8 option"
  sp_correlation_id :: "utf8 option"
  sp_expected_revision :: int
  sp_lease :: lease_token
  sp_now_ms :: int

record version_record =
  ve_version_id :: utf8
  ve_workspace_id :: utf8
  ve_project_id :: utf8
  ve_snapshot_id :: utf8
  ve_creation_operation_id :: utf8
  ve_environment_id :: "utf8 option"
  ve_generation_id :: utf8
  ve_migration_id :: utf8
  ve_created_at :: utf8
  ve_parent_version_id :: "utf8 option"

record version_publication =
  vp_workspace_id :: utf8
  vp_project_id :: utf8
  vp_snapshot_id :: utf8
  vp_creation_operation_id :: utf8
  vp_environment_id :: "utf8 option"
  vp_created_at :: utf8
  vp_parent_version_id :: "utf8 option"

record agent_identity =
  ai_agent_id :: utf8
  ai_provider :: utf8
  ai_display_name :: "utf8 option"
  ai_created_at :: utf8

record task_creation =
  tc_task_id :: utf8
  tc_project_id :: utf8
  tc_goal :: utf8
  tc_context_ref :: "utf8 option"
  tc_created_at :: utf8

record task_record =
  tk_task_id :: utf8
  tk_project_id :: utf8
  tk_goal :: utf8
  tk_state :: utf8
  tk_context_ref :: "utf8 option"
  tk_created_at :: utf8
  tk_started_at :: "utf8 option"
  tk_completed_at :: "utf8 option"
  tk_failed_at :: "utf8 option"
  tk_interrupted_at :: "utf8 option"
  tk_revision :: int
  tk_updated_at :: utf8

text \<open>\<open>ExplorationCreation\<close> and \<open>ExplorationRecord\<close>, \<open>RouteCreation\<close> and
  \<open>RouteRecord\<close> have the same fields.\<close>

record exploration_record =
  xp_exploration_id :: utf8
  xp_task_id :: utf8
  xp_created_by :: utf8
  xp_purpose_ref :: "utf8 option"
  xp_created_at :: utf8

record route_record =
  ro_route_id :: utf8
  ro_exploration_id :: utf8
  ro_source_kind :: utf8
  ro_source_id :: utf8
  ro_status :: utf8
  ro_terminal_version_id :: "utf8 option"
  ro_created_by :: utf8
  ro_purpose_ref :: "utf8 option"
  ro_created_at :: utf8

record route_attachment =
  ra_route_id :: utf8
  ra_execution_id :: utf8
  ra_attached_at :: utf8

record execution_creation =
  ec_execution_id :: utf8
  ec_task_id :: utf8
  ec_agent_id :: utf8
  ec_parent_execution_id :: "utf8 option"
  ec_workspace_id :: "utf8 option"
  ec_base_version_id :: "utf8 option"
  ec_current_version_id :: "utf8 option"
  ec_created_at :: utf8

record execution_record =
  ex_execution_id :: utf8
  ex_task_id :: utf8
  ex_agent_id :: utf8
  ex_project_id :: utf8
  ex_parent_execution_id :: "utf8 option"
  ex_workspace_id :: "utf8 option"
  ex_base_version_id :: "utf8 option"
  ex_current_version_id :: "utf8 option"
  ex_state :: utf8
  ex_outcome :: "utf8 option"
  ex_created_at :: utf8
  ex_started_at :: "utf8 option"
  ex_completed_at :: "utf8 option"
  ex_failed_at :: "utf8 option"
  ex_interrupted_at :: "utf8 option"
  ex_revision :: int
  ex_updated_at :: utf8

record execution_operation =
  eo_execution_id :: utf8
  eo_operation_id :: utf8
  eo_created_at :: utf8

end
