(* ===== verification/Schema_Relations.thy ===== *)
theory Schema_Relations
  imports Schema
begin

text \<open>
  The remaining structs and rows of \<open>src/src/metadata.rs\<close>: hand-offs, checkpoints, rollbacks
  and resume attempts between executions, the operation ledger, projections, and the database
  that holds all tables.
\<close>

section \<open>Relations between executions\<close>

record handoff_creation =
  hc_handoff_id :: utf8
  hc_task_id :: utf8
  hc_from_execution_id :: utf8
  hc_to_execution_id :: utf8
  hc_source_version_id :: "utf8 option"
  hc_checkpoint_id :: "utf8 option"
  hc_reason :: utf8
  hc_actor_agent_id :: utf8
  hc_requester_execution_id :: "utf8 option"
  hc_request_id :: utf8
  hc_created_at :: utf8

record handoff_record =
  hr_handoff_id :: utf8
  hr_task_id :: utf8
  hr_from_execution_id :: utf8
  hr_to_execution_id :: utf8
  hr_source_version_id :: "utf8 option"
  hr_checkpoint_id :: "utf8 option"
  hr_reason :: utf8
  hr_actor_agent_id :: utf8
  hr_requester_execution_id :: "utf8 option"
  hr_request_id :: utf8
  hr_status :: utf8
  hr_request_digest :: utf8
  hr_generation_id :: utf8
  hr_migration_id :: utf8
  hr_created_at :: utf8
  hr_updated_at :: utf8

record checkpoint_creation =
  cc_checkpoint_id :: utf8
  cc_task_id :: utf8
  cc_execution_id :: utf8
  cc_workspace_id :: utf8
  cc_version_id :: utf8
  cc_operation_id :: "utf8 option"
  cc_reason :: utf8
  cc_actor_agent_id :: utf8
  cc_request_id :: utf8
  cc_created_at :: utf8

record checkpoint_record =
  cr_checkpoint_id :: utf8
  cr_task_id :: utf8
  cr_execution_id :: utf8
  cr_workspace_id :: utf8
  cr_version_id :: utf8
  cr_operation_id :: "utf8 option"
  cr_reason :: utf8
  cr_actor_agent_id :: utf8
  cr_request_id :: utf8
  cr_request_digest :: utf8
  cr_generation_id :: utf8
  cr_migration_id :: utf8
  cr_created_at :: utf8

datatype rollback_target = TargetVersion utf8 | TargetCheckpoint utf8 | TaskBaseline
  | ExecutionBaseline

fun target_kind :: "rollback_target \<Rightarrow> utf8" where
  "target_kind (TargetVersion _) = ''version''"
| "target_kind (TargetCheckpoint _) = ''checkpoint''"
| "target_kind TaskBaseline = ''task_baseline''"
| "target_kind ExecutionBaseline = ''execution_baseline''"

fun target_reference :: "rollback_target \<Rightarrow> utf8 option" where
  "target_reference (TargetVersion v) = Some v"
| "target_reference (TargetCheckpoint v) = Some v"
| "target_reference TaskBaseline = None"
| "target_reference ExecutionBaseline = None"

record rollback_creation =
  rc_rollback_id :: utf8
  rc_task_id :: utf8
  rc_execution_id :: utf8
  rc_workspace_id :: utf8
  rc_target :: rollback_target
  rc_actor_agent_id :: utf8
  rc_request_id :: utf8
  rc_created_at :: utf8
  rc_lease :: "lease_token option"
  rc_expected_workspace_revision :: "int option"
  rc_now_ms :: "int option"

record rollback_record =
  rr_rollback_id :: utf8
  rr_task_id :: utf8
  rr_execution_id :: utf8
  rr_workspace_id :: utf8
  rr_target_kind :: utf8
  rr_target_reference :: "utf8 option"
  rr_target_version_id :: utf8
  rr_actor_agent_id :: utf8
  rr_request_id :: utf8
  rr_request_digest :: utf8
  rr_status :: utf8
  rr_result_version_id :: "utf8 option"
  rr_source_version_id :: "utf8 option"
  rr_source_snapshot_id :: "utf8 option"
  rr_previous_workspace_head :: "utf8 option"
  rr_result_workspace_head :: "utf8 option"
  rr_previous_version_head :: "utf8 option"
  rr_result_version_head :: "utf8 option"
  rr_generation_id :: utf8
  rr_migration_id :: utf8
  rr_created_at :: utf8
  rr_updated_at :: utf8

record resume_creation =
  sc_execution_id :: utf8
  sc_task_id :: utf8
  sc_agent_id :: utf8
  sc_parent_execution_id :: "utf8 option"
  sc_workspace_id :: "utf8 option"
  sc_source_version_id :: "utf8 option"
  sc_checkpoint_id :: "utf8 option"
  sc_request_id :: utf8
  sc_created_at :: utf8

record resume_record =
  sr_execution_id :: utf8
  sr_task_id :: utf8
  sr_agent_id :: utf8
  sr_source_version_id :: utf8
  sr_checkpoint_id :: "utf8 option"
  sr_request_id :: utf8
  sr_request_digest :: utf8
  sr_generation_id :: utf8
  sr_migration_id :: utf8
  sr_created_at :: utf8

section \<open>The operation ledger\<close>

record operation_ref =
  of_kind :: utf8
  of_reference :: utf8
  of_media_type :: "utf8 option"

record operation_error =
  oe_code :: utf8
  oe_message :: utf8
  oe_retryable :: bool
  oe_details :: "json option"
  oe_safe_to_expose :: bool

record operation_envelope =
  ov_operation_id :: utf8
  ov_project_id :: utf8
  ov_request_id :: utf8
  ov_agent_id :: utf8
  ov_session_id :: utf8
  ov_workspace_id :: "utf8 option"
  ov_environment_id :: "utf8 option"
  ov_parent_operation_id :: "utf8 option"
  ov_schema_version :: utf8
  ov_started_at :: utf8
  ov_tool :: utf8
  ov_action :: utf8
  ov_input_refs :: "operation_ref list"
  ov_output_refs :: "operation_ref list"
  ov_resource :: "json option"
  ov_before_state :: "json option"
  ov_after_state :: "json option"
  ov_reversibility :: utf8
  ov_replayability :: utf8
  ov_side_effect :: utf8
  ov_policy_decision :: "json option"

record operation_outcome =
  oo_status :: utf8
  oo_finished_at :: utf8
  oo_output_refs :: "operation_ref list option"
  oo_after_state :: "json option"
  oo_result :: "json option"
  oo_error :: "operation_error option"

record operation_record =
  op_operation_id :: utf8
  op_project_id :: utf8
  op_request_id :: utf8
  op_agent_id :: utf8
  op_session_id :: utf8
  op_workspace_id :: "utf8 option"
  op_environment_id :: "utf8 option"
  op_parent_operation_id :: "utf8 option"
  op_schema_version :: utf8
  op_started_at :: utf8
  op_finished_at :: "utf8 option"
  op_tool :: utf8
  op_action :: utf8
  op_input_refs :: "operation_ref list"
  op_output_refs :: "operation_ref list"
  op_resource :: "json option"
  op_before_state :: "json option"
  op_after_state :: "json option"
  op_result :: "json option"
  op_error :: "operation_error option"
  op_reversibility :: utf8
  op_replayability :: utf8
  op_side_effect :: utf8
  op_policy_decision :: "json option"
  op_lifecycle_status :: utf8
  op_recording_status :: utf8
  op_redaction_profile_id :: utf8
  op_redaction_profile_version :: utf8
  op_envelope_digest :: utf8
  op_updated_at :: utf8

section \<open>Projections\<close>

record projection_definition =
  pd_projection_id :: utf8
  pd_project_id :: utf8
  pd_schema_version :: utf8
  pd_generation_id :: "utf8 option"
  pd_migration_id :: "utf8 option"
  pd_initial_state :: json

record projection_cursor =
  pc_project_sequence :: int
  pc_stream_id :: utf8
  pc_sequence :: int
  pc_event_id :: utf8
  pc_payload_digest :: utf8

record projection_record =
  pr_projection_id :: utf8
  pr_project_id :: utf8
  pr_schema_version :: utf8
  pr_generation_id :: utf8
  pr_migration_id :: utf8
  pr_redaction_profile_id :: utf8
  pr_redaction_profile_version :: utf8
  pr_status :: utf8
  pr_initial_state_json :: utf8
  pr_state_json :: utf8
  pr_state_digest :: utf8
  pr_cursor :: "projection_cursor option"
  pr_event_count :: int
  pr_updated_at :: utf8

record projection_applied_event =
  pa_projection_id :: utf8
  pa_event_id :: utf8
  pa_payload_digest :: utf8
  pa_applied_at :: utf8

section \<open>The database\<close>

record ref_row =
  rf_name :: utf8
  rf_value :: utf8
  rf_updated_at :: utf8

record idempotency_row =
  ir_project_id :: utf8
  ir_actor_id :: utf8
  ir_request_id :: utf8
  ir_command_digest :: utf8
  ir_result_json :: utf8
  ir_created_at :: utf8

text \<open>One field per table of \<open>initialize_schema\<close>.\<close>

record db =
  repository_meta :: "(utf8 \<times> utf8) list"
  refs :: "ref_row list"
  idempotency :: "idempotency_row list"
  events :: "event_record list"
  event_envelopes :: "event_envelope list"
  projections :: "projection_record list"
  projection_events :: "projection_applied_event list"
  operation_journal :: "journal_operation list"
  operations :: "operation_record list"
  workspaces :: "workspace_record list"
  workspace_leases :: "lease_record list"
  environments :: "environment_record list"
  snapshots :: "snapshot_record list"
  versions :: "version_record list"
  agent_identities :: "agent_identity list"
  tasks :: "task_record list"
  explorations :: "exploration_record list"
  routes :: "route_record list"
  route_executions :: "route_attachment list"
  executions :: "execution_record list"
  execution_operations :: "execution_operation list"
  handoffs :: "handoff_record list"
  checkpoints :: "checkpoint_record list"
  rollback_records :: "rollback_record list"
  resume_attempts :: "resume_record list"

text \<open>A repository created by this version: every table empty but the format metadata, which
  names the schema and the redaction profile (\<open>initialize_schema\<close>).\<close>

definition empty_db :: "redactor \<Rightarrow> db" where
  "empty_db r = \<lparr>
     repository_meta = [(''repository_format'', ''0.1''),
       (''redaction_profile_id'', redact_text r (profile_id r)),
       (''redaction_profile_version'', redact_text r (version r))],
     refs = [], idempotency = [], events = [], event_envelopes = [], projections = [],
     projection_events = [], operation_journal = [], operations = [], workspaces = [],
     workspace_leases = [], environments = [], snapshots = [], versions = [],
     agent_identities = [], tasks = [], explorations = [], routes = [], route_executions = [],
     executions = [], execution_operations = [], handoffs = [], checkpoints = [],
     rollback_records = [], resume_attempts = []\<rparr>"

end
