(* ===== verification/Store.thy ===== *)
theory Store
  imports Schema_Relations "HOL-Library.Product_Lexorder"
begin

text \<open>
  The metadata store itself (\<open>struct MetadataStore\<close> of \<open>src/src/metadata.rs\<close>): the database,
  the redaction policy and the one-shot failpoints, and the transaction that every mutating
  operation runs. A transaction body is a function of the database it read: it fails, ends
  without a write, or asks to commit a new database together with the read-back that the
  operation performs afterwards. Failpoints fire before the commit (the transaction rolls
  back) or after it (the write is durable, the caller sees an error).
\<close>

datatype metadata_failpoint =
    BeforeIntentCommit | AfterIntentCommit | BeforeOutcomeCommit | AfterOutcomeCommit
  | BeforeRecoveryCommit | AfterRecoveryCommit | BeforeSqliteCommit | AfterSqliteCommit
  | BeforeSnapshotMetadataInsert | AfterSnapshotMetadataInsert | BeforeSnapshotHeadUpdate
  | AfterSnapshotHeadUpdate | AfterSnapshotPublicationCommit | BeforeOperationFinishCommit
  | AfterOperationFinishCommit | BeforeRollbackCompletionCommit | AfterRollbackCompletionCommit

fun failpoint_label :: "metadata_failpoint \<Rightarrow> utf8" where
  "failpoint_label BeforeIntentCommit = ''before_intent_commit''"
| "failpoint_label AfterIntentCommit = ''after_intent_commit''"
| "failpoint_label BeforeOutcomeCommit = ''before_outcome_commit''"
| "failpoint_label AfterOutcomeCommit = ''after_outcome_commit''"
| "failpoint_label BeforeRecoveryCommit = ''before_recovery_commit''"
| "failpoint_label AfterRecoveryCommit = ''after_recovery_commit''"
| "failpoint_label BeforeSqliteCommit = ''before_sqlite_commit''"
| "failpoint_label AfterSqliteCommit = ''after_sqlite_commit''"
| "failpoint_label BeforeSnapshotMetadataInsert = ''before_snapshot_metadata_insert''"
| "failpoint_label AfterSnapshotMetadataInsert = ''after_snapshot_metadata_insert''"
| "failpoint_label BeforeSnapshotHeadUpdate = ''before_snapshot_head_update''"
| "failpoint_label AfterSnapshotHeadUpdate = ''after_snapshot_head_update''"
| "failpoint_label AfterSnapshotPublicationCommit = ''after_snapshot_publication_commit''"
| "failpoint_label BeforeOperationFinishCommit = ''before_operation_finish_commit''"
| "failpoint_label AfterOperationFinishCommit = ''after_operation_finish_commit''"
| "failpoint_label BeforeRollbackCompletionCommit = ''before_rollback_completion_commit''"
| "failpoint_label AfterRollbackCompletionCommit = ''after_rollback_completion_commit''"

datatype projection_failpoint =
    BeforeApply | AfterValidation | AfterIdempotencyCheck | AfterStateMutation
  | BeforeCursorUpdate | AfterCursorUpdate | BeforeLedgerCommit | AfterLedgerCommit
  | BeforeTransactionCommit | AfterTransactionCommit

fun projection_label :: "projection_failpoint \<Rightarrow> utf8" where
  "projection_label BeforeApply = ''fi10_a_before_projection_apply''"
| "projection_label AfterValidation = ''fi10_b_after_event_validation''"
| "projection_label AfterIdempotencyCheck = ''fi10_c_after_idempotency_check''"
| "projection_label AfterStateMutation = ''fi10_d_after_state_mutation''"
| "projection_label BeforeCursorUpdate = ''fi10_e_before_cursor_update''"
| "projection_label AfterCursorUpdate = ''fi10_f_after_cursor_update''"
| "projection_label BeforeLedgerCommit = ''fi10_g_before_applied_event_ledger_commit''"
| "projection_label AfterLedgerCommit = ''fi10_h_after_applied_event_ledger_commit''"
| "projection_label BeforeTransactionCommit = ''fi10_i_before_transaction_commit''"
| "projection_label AfterTransactionCommit = ''fi10_j_after_transaction_commit''"

record metadata_store =
  st_db :: db
  st_redactor :: redactor
  st_failpoints :: "metadata_failpoint option"
  st_projection_failpoints :: "projection_failpoint option"

definition open_store :: "redactor \<Rightarrow> metadata_store" where
  "open_store r = \<lparr>st_db = empty_db r, st_redactor = r, st_failpoints = None,
     st_projection_failpoints = None\<rparr>"

text \<open>\<open>MetadataFailpoints::take_if\<close>: the point that fires, if any, and what stays armed.\<close>

definition take_if ::
  "metadata_failpoint option \<Rightarrow> metadata_failpoint \<Rightarrow> metadata_failpoint \<Rightarrow>
    metadata_failpoint option \<times> metadata_failpoint option" where
  "take_if armed specific generic =
     (case armed of
        Some point \<Rightarrow> if point = specific \<or> point = generic then (armed, None) else (None, armed)
      | None \<Rightarrow> (None, None))"

definition projection_take_if ::
  "projection_failpoint option \<Rightarrow> projection_failpoint \<Rightarrow>
    projection_failpoint option \<times> projection_failpoint option" where
  "projection_take_if armed point = (if armed = Some point then (armed, None) else (None, armed))"

text \<open>\<open>inject_before_commit\<close>, \<open>inject_after_commit\<close>, \<open>inject_snapshot_failpoint\<close>.\<close>

definition inject ::
  "metadata_store \<Rightarrow> metadata_failpoint \<Rightarrow> metadata_failpoint \<Rightarrow> unit res \<times> metadata_store" where
  "inject st specific generic =
     (case take_if (st_failpoints st) specific generic of
        (Some point, rest) \<Rightarrow>
          (Inl (FaultInjected (failpoint_label point)), st\<lparr>st_failpoints := rest\<rparr>)
      | (None, rest) \<Rightarrow> (Inr (), st\<lparr>st_failpoints := rest\<rparr>))"

definition inject_before_commit :: "metadata_store \<Rightarrow> metadata_failpoint \<Rightarrow> unit res \<times> metadata_store"
  where "inject_before_commit st specific = inject st specific BeforeSqliteCommit"

definition inject_after_commit :: "metadata_store \<Rightarrow> metadata_failpoint \<Rightarrow> unit res \<times> metadata_store"
  where "inject_after_commit st specific = inject st specific AfterSqliteCommit"

definition inject_snapshot_failpoint ::
  "metadata_store \<Rightarrow> metadata_failpoint \<Rightarrow> unit res \<times> metadata_store"
  where "inject_snapshot_failpoint st point = inject st point point"

section \<open>Transactions\<close>

datatype 'a tx_end = Finished 'a | Commit db "db \<Rightarrow> 'a res"

definition commit ::
  "metadata_store \<Rightarrow> db \<Rightarrow> metadata_failpoint \<Rightarrow> metadata_failpoint \<Rightarrow> unit res \<times> metadata_store"
where
  "commit st d before after =
     (case inject_before_commit st before of
        (Inl e, st') \<Rightarrow> (Inl e, st')
      | (Inr _, st') \<Rightarrow> inject_after_commit (st'\<lparr>st_db := d\<rparr>) after)"

definition run_tx ::
  "metadata_store \<Rightarrow> 'a tx_end res \<Rightarrow> metadata_failpoint \<Rightarrow> metadata_failpoint \<Rightarrow>
    'a res \<times> metadata_store" where
  "run_tx st body before after =
     (case body of
        Inl e \<Rightarrow> (Inl e, st)
      | Inr (Finished x) \<Rightarrow> (Inr x, st)
      | Inr (Commit d read_back) \<Rightarrow>
          (case commit st d before after of
             (Inl e, st') \<Rightarrow> (Inl e, st')
           | (Inr _, st') \<Rightarrow> (read_back (st_db st'), st')))"

text \<open>What any transaction does to the store: nothing but the write its body asked for.\<close>

lemma inject_frame [simp]:
  "st_db (snd (inject st s g)) = st_db st"
  "st_redactor (snd (inject st s g)) = st_redactor st"
  by (simp_all add: inject_def take_if_def split: option.splits)

lemma inject_unarmed [simp]: "st_failpoints st = None \<Longrightarrow> inject st s g = (Inr (), st)"
  by (simp add: inject_def take_if_def)

lemma commit_cases:
  "(\<exists>e. fst (commit st d b a) = Inl e \<and> st_db (snd (commit st d b a)) = st_db st)
   \<or> st_db (snd (commit st d b a)) = d"
  by (auto simp: commit_def inject_before_commit_def inject_after_commit_def
      split: prod.split sum.split dest: arg_cong[where f = "st_db \<circ> snd"])

lemma commit_ok_db:
  "commit st d b a = (Inr (), st') \<Longrightarrow> st_db st' = d"
  by (auto simp: commit_def inject_before_commit_def inject_after_commit_def
      split: prod.splits sum.splits)
    (metis inject_frame(1) metadata_store.select_convs(1) metadata_store.surjective
      metadata_store.update_convs(1) snd_conv)

lemma commit_redactor [simp]: "st_redactor (snd (commit st d b a)) = st_redactor st"
proof -
  obtain r1 st1 where 1: "inject_before_commit st b = (r1, st1)" by fastforce
  then have "st_redactor st1 = st_redactor st"
    by (metis inject_before_commit_def inject_frame(2) snd_conv)
  with 1 show ?thesis
    by (auto simp: commit_def inject_after_commit_def split: sum.split)
qed

lemma commit_unarmed [simp]:
  "st_failpoints st = None \<Longrightarrow> commit st d b a = (Inr (), st\<lparr>st_db := d\<rparr>)"
  by (simp add: commit_def inject_before_commit_def inject_after_commit_def)

lemma run_tx_redactor [simp]: "st_redactor (snd (run_tx st body b a)) = st_redactor st"
proof (cases body)
  case (Inr t)
  then show ?thesis
  proof (cases t)
    case (Commit d k)
    obtain res st' where c: "commit st d b a = (res, st')" by fastforce
    with commit_redactor[of st d b a] Inr Commit show ?thesis
      by (auto simp: run_tx_def split: sum.split)
  qed (simp add: run_tx_def)
qed (simp add: run_tx_def)

lemma run_tx_db_cases:
  "st_db (snd (run_tx st body b a)) = st_db st
   \<or> (\<exists>d k. body = Inr (Commit d k) \<and> st_db (snd (run_tx st body b a)) = d)"
proof (cases body)
  case (Inr t)
  then show ?thesis
  proof (cases t)
    case (Commit d k)
    obtain res st' where c: "commit st d b a = (res, st')" by fastforce
    with commit_cases[of st d b a] Inr Commit show ?thesis
      by (auto simp: run_tx_def split: sum.split)
  qed (simp add: run_tx_def)
qed (simp add: run_tx_def)

text \<open>The answer to a write: the read-back of what was written, or the injected fault.\<close>

lemma inject_result:
  "fst (inject st s g) = Inr () \<or> (\<exists>l. fst (inject st s g) = Inl (FaultInjected l))"
  by (simp add: inject_def split: prod.split option.split)

lemma commit_result:
  "(fst (commit st d b a) = Inr () \<and> st_db (snd (commit st d b a)) = d)
   \<or> (\<exists>l. fst (commit st d b a) = Inl (FaultInjected l))"
proof -
  obtain r1 st1 where 1: "inject_before_commit st b = (r1, st1)" by fastforce
  obtain r2 st2 where 2: "inject_after_commit (st1\<lparr>st_db := d\<rparr>) a = (r2, st2)" by fastforce
  have "st_db st2 = d"
    using 2 inject_frame(1)[of "st1\<lparr>st_db := d\<rparr>"] by (metis inject_after_commit_def
        metadata_store.select_convs(1) metadata_store.surjective metadata_store.update_convs(1)
        snd_conv)
  moreover have "r1 = Inr () \<or> (\<exists>l. r1 = Inl (FaultInjected l))"
    "r2 = Inr () \<or> (\<exists>l. r2 = Inl (FaultInjected l))"
    using 1 2 inject_result unfolding inject_before_commit_def inject_after_commit_def
    by (metis fst_conv)+
  ultimately show ?thesis using 1 2 by (auto simp: commit_def)
qed

lemma run_tx_commit_result:
  assumes "run_tx st (Inr (Commit d k)) b a = (out, st')"
  shows "(out = k d \<and> st_db st' = d) \<or> (\<exists>l. out = Inl (FaultInjected l))"
proof -
  obtain o1 st1 where c: "commit st d b a = (o1, st1)" by fastforce
  with commit_result[of st d b a] assms show ?thesis
    by (auto simp: run_tx_def split: sum.splits)
qed

lemma run_tx_success:
  assumes "run_tx st body b a = (Inr x, st')"
  shows "(body = Inr (Finished x) \<and> st' = st)
    \<or> (\<exists>k. body = Inr (Commit (st_db st') k) \<and> k (st_db st') = Inr x)"
proof (cases body)
  case (Inr t)
  then show ?thesis
  proof (cases t)
    case (Commit d k)
    with Inr run_tx_commit_result[of st d k b a "Inr x" st'] assms show ?thesis by simp
  qed (use assms in \<open>simp add: run_tx_def\<close>)
qed (use assms in \<open>simp add: run_tx_def\<close>)

lemma run_tx_invariant:
  assumes "I (st_db st)" "\<And>d k. body = Inr (Commit d k) \<Longrightarrow> I d"
  shows "I (st_db (snd (run_tx st body b a)))"
  using run_tx_db_cases[of st body b a] assms by auto

text \<open>Without an armed failpoint the outcome is the body's.\<close>

lemma run_tx_unarmed:
  "st_failpoints st = None \<Longrightarrow> run_tx st body b a =
    (case body of
       Inl e \<Rightarrow> (Inl e, st)
     | Inr (Finished x) \<Rightarrow> (Inr x, st)
     | Inr (Commit d k) \<Rightarrow> (k d, st\<lparr>st_db := d\<rparr>))"
  by (simp add: run_tx_def split: sum.split tx_end.split)

text \<open>A body's own error, or its end without a write, leaves the store as it was, failpoints
  included.\<close>

lemma run_tx_error [simp]: "run_tx st (Inl e) b a = (Inl e, st)"
  by (simp add: run_tx_def)

lemma run_tx_finished [simp]: "run_tx st (Inr (Finished x)) b a = (Inr x, st)"
  by (simp add: run_tx_def)

section \<open>Operations\<close>

text \<open>
  An operation redacts and checks its request against the policy (\<open>prep\<close>) and then runs one
  transaction over the current database, with the two failpoints of its commit. Most
  operations use the SQLite-wide points, which \<open>sqlite_op\<close> fixes.
\<close>

definition run_op ::
  "metadata_failpoint \<Rightarrow> metadata_failpoint \<Rightarrow> (redactor \<Rightarrow> 'q \<Rightarrow> 'c res) \<Rightarrow>
    (redactor \<Rightarrow> 'c \<Rightarrow> db \<Rightarrow> 'a tx_end res) \<Rightarrow>
    metadata_store \<Rightarrow> 'q \<Rightarrow> 'a res \<times> metadata_store" where
  "run_op before after prep body st q =
     (case prep (st_redactor st) q of
        Inl e \<Rightarrow> (Inl e, st)
      | Inr c \<Rightarrow> run_tx st (body (st_redactor st) c (st_db st)) before after)"

abbreviation sqlite_op ::
  "(redactor \<Rightarrow> 'q \<Rightarrow> 'c res) \<Rightarrow> (redactor \<Rightarrow> 'c \<Rightarrow> db \<Rightarrow> 'a tx_end res) \<Rightarrow>
    metadata_store \<Rightarrow> 'q \<Rightarrow> 'a res \<times> metadata_store" where
  "sqlite_op \<equiv> run_op BeforeSqliteCommit AfterSqliteCommit"

lemma run_op_redactor [simp]: "st_redactor (snd (run_op b a prep body st q)) = st_redactor st"
  by (simp add: run_op_def split: sum.split)

lemma run_op_prepared:
  "prep (st_redactor st) q = Inr c \<Longrightarrow>
    run_op b a prep body st q = run_tx st (body (st_redactor st) c (st_db st)) b a"
  by (simp add: run_op_def)

lemma store_same_db [simp]: "st\<lparr>st_db := st_db st\<rparr> = st"
  by simp

lemma run_op_success:
  assumes "run_op b a prep body st q = (Inr x, st')"
  shows "\<exists>c. prep (st_redactor st) q = Inr c
    \<and> ((body (st_redactor st) c (st_db st) = Inr (Finished x) \<and> st' = st)
      \<or> (\<exists>k. body (st_redactor st) c (st_db st) = Inr (Commit (st_db st') k)
          \<and> k (st_db st') = Inr x))"
  using assms run_tx_success[of st _ b a x st']
  by (cases "prep (st_redactor st) q") (simp_all add: run_op_def)

lemma run_op_wrote:
  assumes "run_op b a prep body st q = (Inr x, st')" "prep (st_redactor st) q = Inr c"
    and "body (st_redactor st) c (st_db st) \<noteq> Inr (Finished x)"
  shows "\<exists>k. body (st_redactor st) c (st_db st) = Inr (Commit (st_db st') k)
    \<and> k (st_db st') = Inr x"
  using run_op_success[OF assms(1)] assms(2,3) by simp

lemma run_op_same_redactor:
  "run_op b a prep body st q = (out, st') \<Longrightarrow> st_redactor st' = st_redactor st"
  by (metis run_op_redactor snd_conv)

definition with_failpoint :: "metadata_failpoint option \<Rightarrow> metadata_store \<Rightarrow> metadata_store" where
  "with_failpoint fp st = st\<lparr>st_failpoints := fp\<rparr>"

lemma with_failpoint_simps [simp]:
  "st_db (with_failpoint fp st) = st_db st" "st_redactor (with_failpoint fp st) = st_redactor st"
  "st_failpoints (with_failpoint fp st) = fp"
  by (simp_all add: with_failpoint_def)

text \<open>A history of requests to one operation, each with a failpoint that may be armed before it.\<close>

fun run_history ::
  "(metadata_store \<Rightarrow> 'q \<Rightarrow> 'a res \<times> metadata_store) \<Rightarrow> metadata_store \<Rightarrow>
    (metadata_failpoint option \<times> 'q) list \<Rightarrow> metadata_store" where
  "run_history op st [] = st"
| "run_history op st ((fp, q) # qs) = run_history op (snd (op (with_failpoint fp st) q)) qs"

lemma run_history_redactor [simp]:
  "st_redactor (run_history (run_op b a prep body) st qs) = st_redactor st"
  by (induction "run_op b a prep body" st qs rule: run_history.induct) simp_all

text \<open>A fact about the database that every commit of an operation keeps, whatever the request,
  holds after any history.\<close>

lemma run_op_keeps:
  assumes "\<And>c d k. prep (st_redactor st) q = Inr c \<Longrightarrow>
      body (st_redactor st) c (st_db st) = Inr (Commit d k) \<Longrightarrow> I d" "I (st_db st)"
  shows "I (st_db (snd (run_op b a prep body st q)))"
proof (cases "prep (st_redactor st) q")
  case (Inr c)
  with assms show ?thesis by (simp add: run_op_def run_tx_invariant[where I = I])
qed (simp add: run_op_def assms)

lemma run_history_keeps:
  assumes "\<And>q c d d' k. I d \<Longrightarrow> prep (st_redactor st) q = Inr c \<Longrightarrow>
      body (st_redactor st) c d = Inr (Commit d' k) \<Longrightarrow> I d'" "I (st_db st)"
  shows "I (st_db (run_history (run_op b a prep body) st qs))"
  using assms
proof (induction "run_op b a prep body" st qs rule: run_history.induct)
  case (2 st fp q qs)
  have "I (st_db (snd (run_op b a prep body (with_failpoint fp st) q)))"
    by (rule run_op_keeps) (use 2 in simp_all)
  with 2 show ?case by simp
qed simp

text \<open>
  The interface of the store: an operation whose commits keep an invariant of the database.
  The invariant then holds after any sequence of requests, whatever failpoint the harness arms
  before each.
\<close>

locale store_op =
  fixes before after :: metadata_failpoint
    and prep :: "redactor \<Rightarrow> 'q \<Rightarrow> 'c res"
    and body :: "redactor \<Rightarrow> 'c \<Rightarrow> db \<Rightarrow> 'a tx_end res"
    and inv :: "redactor \<Rightarrow> db \<Rightarrow> bool"
  assumes body_keeps: "inv r d \<Longrightarrow> prep r q = Inr c \<Longrightarrow> body r c d = Inr (Commit d' k) \<Longrightarrow> inv r d'"
begin

lemma op_keeps:
  assumes "inv (st_redactor st) (st_db st)"
  shows "inv (st_redactor st) (st_db (snd (run_op before after prep body st q)))"
proof (cases "prep (st_redactor st) q")
  case (Inr c)
  have "inv (st_redactor st) (st_db (snd (run_tx st (body (st_redactor st) c (st_db st)) before after)))"
    by (rule run_tx_invariant[where I = "inv (st_redactor st)", OF assms])
      (rule body_keeps[OF assms Inr])
  with Inr show ?thesis by (simp add: run_op_def)
qed (simp add: run_op_def assms)

lemma history_inv:
  "inv (st_redactor st) (st_db st) \<Longrightarrow>
    inv (st_redactor st) (st_db (run_history (run_op before after prep body) st qs))"
proof (induction "run_op before after prep body" st qs rule: run_history.induct)
  case (2 st fp q qs)
  with op_keeps[of "with_failpoint fp st" q] show ?case by simp
qed simp

end

text \<open>
  An operation is idempotent when a request repeated on the database it committed finds its own
  effect and returns what the commit read back, without changing the database again. One
  injected fault, wherever it fires, is then healed by sending the same request again.
\<close>

definition settled :: "'a tx_end res \<Rightarrow> db \<Rightarrow> 'a \<Rightarrow> bool" where
  "settled b d x = (b = Inr (Finished x) \<or> (\<exists>k. b = Inr (Commit d k) \<and> k d = Inr x))"

lemma settled_finished [intro]: "b = Inr (Finished x) \<Longrightarrow> settled b d x"
  by (simp add: settled_def)

lemma settled_run:
  "settled body (st_db st) x \<Longrightarrow> st_failpoints st = None \<Longrightarrow> run_tx st body b a = (Inr x, st)"
  by (auto simp: settled_def run_tx_unarmed)

locale idempotent_op = store_op +
  assumes body_again: "inv r d \<Longrightarrow> prep r q = Inr c \<Longrightarrow> body r c d = Inr (Commit d' k) \<Longrightarrow>
    \<exists>x. k d' = Inr x \<and> settled (body r c d') d' x"
begin

lemma again:
  assumes "inv (st_redactor st) (st_db st)" "st_failpoints st = None"
    and "run_op before after prep body st q = (Inr x, st')"
  shows "run_op before after prep body st' q = (Inr x, st')"
proof (cases "prep (st_redactor st) q")
  case (Inr c)
  show ?thesis
  proof (cases "body (st_redactor st) c (st_db st)")
    case b: (Inr t)
    show ?thesis
    proof (cases t)
      case (Finished y)
      with Inr b assms(3) show ?thesis by (auto simp: run_op_def)
    next
      case (Commit d k)
      with body_again[OF assms(1) Inr] b obtain y where
        y: "k d = Inr y" "settled (body (st_redactor st) c d) d y" by auto
      with Inr b Commit assms(2,3) have "x = y" "st' = st\<lparr>st_db := d\<rparr>"
        by (simp_all add: run_op_def run_tx_unarmed)
      with Inr y assms(2) show ?thesis by (simp add: run_op_def settled_run)
    qed
  qed (use Inr assms(3) in \<open>simp add: run_op_def\<close>)
qed (use assms(3) in \<open>simp add: run_op_def\<close>)

text \<open>Retrying after a run with any failpoint armed ends in the database and the answer of an
  undisturbed run.\<close>

lemma retry_converges:
  assumes "inv (st_redactor st) (st_db st)"
    and "st1 = snd (run_op before after prep body (with_failpoint fp st) q)"
  shows "fst (run_op before after prep body (with_failpoint None st1) q)
      = fst (run_op before after prep body (with_failpoint None st) q)
    \<and> st_db (snd (run_op before after prep body (with_failpoint None st1) q))
      = st_db (snd (run_op before after prep body (with_failpoint None st) q))"
proof (cases "prep (st_redactor st) q")
  case (Inl e)
  then show ?thesis by (simp add: assms(2) run_op_def)
next
  case (Inr c)
  let ?b = "body (st_redactor st) c (st_db st)"
  have st1: "st1 = snd (run_tx (with_failpoint fp st) ?b before after)"
    by (simp add: assms(2) run_op_def Inr)
  then have red: "st_redactor st1 = st_redactor st" by simp
  show ?thesis
  proof (cases "\<exists>d k. ?b = Inr (Commit d k)")
    case False
    then have "st_db st1 = st_db st"
      using run_tx_db_cases[of "with_failpoint fp st" ?b before after]
      by (auto simp: st1)
    with False red show ?thesis
      by (cases ?b) (auto simp: run_op_def Inr run_tx_unarmed split: tx_end.split)
  next
    case True
    then obtain d k where b: "?b = Inr (Commit d k)" by blast
    obtain x where x: "k d = Inr x" "settled (body (st_redactor st) c d) d x"
      using body_again[OF assms(1) Inr b] by blast
    have clean: "run_op before after prep body (with_failpoint None st) q
        = (Inr x, (with_failpoint None st)\<lparr>st_db := d\<rparr>)"
      by (simp add: run_op_def Inr run_tx_unarmed b x)
    have "st_db st1 = st_db st \<or> st_db st1 = d"
      using run_tx_db_cases[of "with_failpoint fp st" ?b before after] b by (simp add: st1)
    then have "fst (run_op before after prep body (with_failpoint None st1) q) = Inr x
        \<and> st_db (snd (run_op before after prep body (with_failpoint None st1) q)) = d"
      using b x red
      by (elim disjE) (auto simp: run_op_def Inr run_tx_unarmed settled_def)
    with clean show ?thesis by simp
  qed
qed

end

section \<open>Shared checks\<close>

definition validate_non_empty :: "utf8 \<Rightarrow> utf8 \<Rightarrow> unit res" where
  "validate_non_empty v label =
     (if trimmed_empty v \<or> contains_nul v then Inl (InvalidInput (label @ '' is invalid''))
      else Inr ())"

definition valid_text :: "utf8 \<Rightarrow> bool" where
  "valid_text v \<longleftrightarrow> \<not> trimmed_empty v \<and> \<not> contains_nul v"

lemma validate_non_empty_ok [simp]: "validate_non_empty v l = Inr () \<longleftrightarrow> valid_text v"
  by (simp add: validate_non_empty_def valid_text_def)

lemma valid_text_plain: "plain_char a \<Longrightarrow> byte 0 \<notin> set (a # s) \<Longrightarrow> valid_text (a # s)"
  by (simp add: valid_text_def plain_not_empty contains_nul_def del: trimmed_empty.simps)

definition validate_opt :: "utf8 option \<Rightarrow> utf8 \<Rightarrow> unit res" where
  "validate_opt v label = (case v of None \<Rightarrow> Inr () | Some x \<Rightarrow> validate_non_empty x label)"

lemma validate_opt_ok [simp]: "validate_opt v l = Inr () \<longleftrightarrow> (\<forall>x. v = Some x \<longrightarrow> valid_text x)"
  by (auto simp: validate_opt_def split: option.splits)

definition validate_labelled :: "(utf8 \<times> utf8) list \<Rightarrow> unit res" where
  "validate_labelled xs = check_all (\<lambda>(v, label). validate_non_empty v label) xs"

lemma validate_labelled_ok [simp]:
  "validate_labelled xs = Inr () \<longleftrightarrow> (\<forall>(v, l) \<in> set xs. valid_text v)"
  by (auto simp: validate_labelled_def)

definition redact_opt :: "redactor \<Rightarrow> utf8 option \<Rightarrow> utf8 option" where
  "redact_opt r v = map_option (redact_text r) v"

definition clean_opt :: "redactor \<Rightarrow> utf8 option \<Rightarrow> bool" where
  "clean_opt r v \<longleftrightarrow> (\<forall>x. v = Some x \<longrightarrow> clean_text r x)"

lemma clean_opt_simps [simp]: "clean_opt r None" "clean_opt r (Some x) \<longleftrightarrow> clean_text r x"
  by (simp_all add: clean_opt_def)

lemma redact_opt_clean: "safe_policy r \<Longrightarrow> clean_opt r (redact_opt r v)"
  by (cases v) (simp_all add: redact_opt_def redact_clean)

lemma clean_opt_default [simp]: "clean_opt default_redactor v"
  by (simp add: clean_opt_def)

lemma open_store_simps [simp]:
  "st_db (open_store r) = empty_db r" "st_redactor (open_store r) = r"
  "st_failpoints (open_store r) = None"
  by (simp_all add: open_store_def)

text \<open>The repository identity every durable row is stamped with (\<open>projection_identity\<close>).\<close>

definition meta_value :: "db \<Rightarrow> utf8 \<Rightarrow> utf8 option" where
  "meta_value d key = map_of (repository_meta d) key"

definition generation_identity :: "db \<Rightarrow> (utf8 \<times> utf8) option res" where
  "generation_identity d =
     (case (meta_value d ''generation_id'', meta_value d ''migration_id'') of
        (Some g, Some m) \<Rightarrow> Inr (Some (g, m))
      | (None, None) \<Rightarrow> Inr None
      | _ \<Rightarrow> Inl (Integrity ''generation identity metadata is incomplete''))"

definition projection_identity :: "db \<Rightarrow> (utf8 \<times> utf8) res" where
  "projection_identity d =
     (case generation_identity d of
        Inl e \<Rightarrow> Inl e
      | Inr None \<Rightarrow> Inr (''legacy-v0.1'', ''legacy'')
      | Inr (Some i) \<Rightarrow> Inr i)"

text \<open>Inside a transaction some checks read the two values one by one, each with its default.\<close>

definition stored_identity :: "db \<Rightarrow> utf8 \<times> utf8" where
  "stored_identity d =
     ((case meta_value d ''generation_id'' of Some v \<Rightarrow> v | None \<Rightarrow> ''legacy-v0.1''),
      (case meta_value d ''migration_id'' of Some v \<Rightarrow> v | None \<Rightarrow> ''legacy''))"

lemma projection_identity_stored: "projection_identity d = Inr i \<Longrightarrow> stored_identity d = i"
  by (auto simp: projection_identity_def generation_identity_def stored_identity_def
      split: option.splits)

end
