(* ===== verification/Task_Store.thy ===== *)
theory Task_Store
  imports Store
begin

text \<open>
  Agent identities and tasks (\<open>src/src/metadata.rs\<close>): creation with idempotent retry, reads,
  and the task life cycle guarded by a revision.
\<close>

section \<open>Agent identities\<close>

definition redact_agent_identity :: "redactor \<Rightarrow> agent_identity \<Rightarrow> agent_identity res" where
  "redact_agent_identity r i0 =
     (let i = \<lparr>ai_agent_id = redact_text r (ai_agent_id i0),
               ai_provider = redact_text r (ai_provider i0),
               ai_display_name = redact_opt r (ai_display_name i0),
               ai_created_at = redact_text r (ai_created_at i0)\<rparr> in
      try_then (validate_labelled [(ai_agent_id i, ''agent id''), (ai_provider i, ''agent provider''),
          (ai_created_at i, ''agent created_at'')]) (\<lambda>_.
      try_then (validate_opt (ai_display_name i) ''agent display name'') (\<lambda>_.
      Inr i)))"

definition agent_identity_by :: "redactor \<Rightarrow> db \<Rightarrow> utf8 \<Rightarrow> agent_identity option" where
  "agent_identity_by r d agent_id = row_by ai_agent_id (redact_text r agent_id) (agent_identities d)"

definition list_agent_identities :: "db \<Rightarrow> agent_identity list" where
  "list_agent_identities d = order_rows ai_agent_id (agent_identities d)"

definition create_agent_identity_tx ::
  "redactor \<Rightarrow> agent_identity \<Rightarrow> db \<Rightarrow> agent_identity tx_end res" where
  "create_agent_identity_tx r i d =
     (case row_by ai_agent_id (ai_agent_id i) (agent_identities d) of
        Some existing \<Rightarrow>
          if existing \<noteq> i
          then Inl (Conflict ''agent identity already exists with different metadata'')
          else Inr (Finished existing)
      | None \<Rightarrow>
          Inr (Commit (d\<lparr>agent_identities := agent_identities d @ [i]\<rparr>)
            (\<lambda>d'. case agent_identity_by r d' (ai_agent_id i) of
                    None \<Rightarrow> Inl (Integrity ''agent identity disappeared after creation'')
                  | Some x \<Rightarrow> Inr x)))"

definition create_agent_identity ::
  "metadata_store \<Rightarrow> agent_identity \<Rightarrow> agent_identity res \<times> metadata_store" where
  "create_agent_identity = sqlite_op redact_agent_identity create_agent_identity_tx"

section \<open>Tasks\<close>

definition redact_task_creation :: "redactor \<Rightarrow> task_creation \<Rightarrow> task_creation res" where
  "redact_task_creation r c0 =
     (let c = \<lparr>tc_task_id = redact_text r (tc_task_id c0),
               tc_project_id = redact_text r (tc_project_id c0),
               tc_goal = redact_text r (tc_goal c0),
               tc_context_ref = redact_opt r (tc_context_ref c0),
               tc_created_at = redact_text r (tc_created_at c0)\<rparr> in
      try_then (validate_labelled [(tc_task_id c, ''task id''),
          (tc_project_id c, ''task project id''), (tc_goal c, ''task goal''),
          (tc_created_at c, ''task created_at'')]) (\<lambda>_.
      try_then (validate_opt (tc_context_ref c) ''task context reference'') (\<lambda>_.
      Inr c)))"

definition task_by :: "redactor \<Rightarrow> db \<Rightarrow> utf8 \<Rightarrow> task_record option" where
  "task_by r d task_id = row_by tk_task_id (redact_text r task_id) (tasks d)"

definition list_tasks :: "redactor \<Rightarrow> db \<Rightarrow> utf8 \<Rightarrow> task_record list" where
  "list_tasks r d project_id =
     order_rows (\<lambda>t. (tk_created_at t, tk_task_id t))
       (filter (\<lambda>t. tk_project_id t = redact_text r project_id) (tasks d))"

definition new_task_row :: "task_creation \<Rightarrow> task_record" where
  "new_task_row c =
     \<lparr>tk_task_id = tc_task_id c, tk_project_id = tc_project_id c, tk_goal = tc_goal c,
      tk_state = ''created'', tk_context_ref = tc_context_ref c, tk_created_at = tc_created_at c,
      tk_started_at = None, tk_completed_at = None, tk_failed_at = None, tk_interrupted_at = None,
      tk_revision = 0, tk_updated_at = tc_created_at c\<rparr>"

definition create_task_tx :: "redactor \<Rightarrow> task_creation \<Rightarrow> db \<Rightarrow> task_record tx_end res" where
  "create_task_tx r c d =
     (case row_by tk_task_id (tc_task_id c) (tasks d) of
        Some existing \<Rightarrow>
          if tk_project_id existing \<noteq> tc_project_id c \<or> tk_goal existing \<noteq> tc_goal c
            \<or> tk_context_ref existing \<noteq> tc_context_ref c
            \<or> tk_created_at existing \<noteq> tc_created_at c
          then Inl (IdempotencyKeyReuse (tc_task_id c))
          else Inr (Finished existing)
      | None \<Rightarrow>
          Inr (Commit (d\<lparr>tasks := tasks d @ [new_task_row c]\<rparr>)
            (\<lambda>d'. case task_by r d' (tc_task_id c) of
                    None \<Rightarrow> Inl (Integrity ''task disappeared after creation'')
                  | Some t \<Rightarrow> Inr t)))"

definition create_task ::
  "metadata_store \<Rightarrow> task_creation \<Rightarrow> task_record res \<times> metadata_store" where
  "create_task = sqlite_op redact_task_creation create_task_tx"

definition task_states :: "utf8 list" where
  "task_states = [''created'', ''running'', ''blocked'', ''waiting'', ''completed'', ''failed'',
     ''cancelled'', ''interrupted'']"

definition validate_task_state :: "utf8 \<Rightarrow> unit res" where
  "validate_task_state state =
     (if state \<in> set task_states then Inr () else Inl (InvalidInput ''task state is unsupported''))"

definition task_transition_allowed :: "utf8 \<Rightarrow> utf8 \<Rightarrow> bool" where
  "task_transition_allowed current next_state =
     (if current = ''created'' then
        next_state \<in> {''running'', ''blocked'', ''waiting'', ''cancelled'', ''interrupted''}
      else if current \<in> {''running'', ''blocked'', ''waiting''} then
        next_state \<in> {''running'', ''blocked'', ''waiting'', ''completed'', ''failed'',
                       ''cancelled'', ''interrupted''}
      else False)"

definition task_terminal :: "utf8 \<Rightarrow> bool" where
  "task_terminal s \<longleftrightarrow> s \<in> {''completed'', ''failed'', ''cancelled'', ''interrupted''}"

text \<open>The row written by the \<open>UPDATE\<close> of a permitted transition.\<close>

definition advance_task :: "utf8 \<Rightarrow> utf8 \<Rightarrow> task_record \<Rightarrow> task_record" where
  "advance_task next_state updated_at t = t\<lparr>
     tk_state := next_state,
     tk_started_at := (if next_state = ''running'' then Some updated_at else tk_started_at t),
     tk_completed_at := (if next_state = ''completed'' then Some updated_at else tk_completed_at t),
     tk_failed_at := (if next_state = ''failed'' then Some updated_at else tk_failed_at t),
     tk_interrupted_at :=
       (if next_state = ''interrupted'' then Some updated_at else tk_interrupted_at t),
     tk_revision := tk_revision t + 1,
     tk_updated_at := updated_at\<rparr>"

definition update_task_prep ::
  "redactor \<Rightarrow> utf8 \<times> utf8 \<times> int \<times> utf8 \<Rightarrow> (utf8 \<times> utf8 \<times> int \<times> utf8) res" where
  "update_task_prep r q =
     (case q of (task_id, next_state, expected_revision, updated_at) \<Rightarrow>
        try_then (validate_task_state (redact_text r next_state)) (\<lambda>_.
        if expected_revision < 0
        then Inl (InvalidInput ''task revision must not be negative'')
        else Inr (redact_text r task_id, redact_text r next_state, expected_revision,
                  redact_text r updated_at)))"

definition update_task_state_tx ::
  "redactor \<Rightarrow> utf8 \<times> utf8 \<times> int \<times> utf8 \<Rightarrow> db \<Rightarrow> task_record tx_end res" where
  "update_task_state_tx r q d =
     (case q of (task_id, next_state, expected_revision, updated_at) \<Rightarrow>
      case row_by tk_task_id task_id (tasks d) of
        None \<Rightarrow> Inl (NotFound ''task does not exist'')
      | Some current \<Rightarrow>
          if tk_state current = next_state then Inr (Finished current)
          else if \<not> task_transition_allowed (tk_state current) next_state
          then Inl (Conflict (''invalid task lifecycle transition '' @ tk_state current @ '' -> ''
                 @ next_state))
          else if tk_revision current \<noteq> expected_revision
          then Inl (Conflict ''task revision is stale'')
          else Inr (Commit
            (d\<lparr>tasks := update_where
                 (\<lambda>t. tk_task_id t = task_id \<and> tk_revision t = expected_revision)
                 (advance_task next_state updated_at) (tasks d)\<rparr>)
            (\<lambda>d'. case task_by r d' task_id of
                    None \<Rightarrow> Inl (Integrity ''task disappeared after update'')
                  | Some t \<Rightarrow> Inr t)))"

definition update_task_state ::
  "metadata_store \<Rightarrow> utf8 \<times> utf8 \<times> int \<times> utf8 \<Rightarrow> task_record res \<times> metadata_store" where
  "update_task_state = sqlite_op update_task_prep update_task_state_tx"

section \<open>The task life cycle\<close>

interpretation task_cycle: lifecycle task_transition_allowed task_terminal
  by unfold_locales (auto simp: task_transition_allowed_def task_terminal_def)

text \<open>
  What every stored task satisfies: its state is a known one, the end timestamps are set
  exactly in their own terminal state, the revision counts the transitions and is 0 exactly
  in the initial state, and no column holds a registered secret.
\<close>

definition task_consistent :: "task_record \<Rightarrow> bool" where
  "task_consistent t \<longleftrightarrow> tk_state t \<in> set task_states
     \<and> (tk_completed_at t \<noteq> None \<longleftrightarrow> tk_state t = ''completed'')
     \<and> (tk_failed_at t \<noteq> None \<longleftrightarrow> tk_state t = ''failed'')
     \<and> (tk_interrupted_at t \<noteq> None \<longleftrightarrow> tk_state t = ''interrupted'')
     \<and> 0 \<le> tk_revision t \<and> (tk_revision t = 0 \<longleftrightarrow> tk_state t = ''created'')
     \<and> (tk_state t = ''running'' \<longrightarrow> tk_started_at t \<noteq> None)"

definition task_clean :: "redactor \<Rightarrow> task_record \<Rightarrow> bool" where
  "task_clean r t \<longleftrightarrow> clean_text r (tk_task_id t) \<and> clean_text r (tk_project_id t)
     \<and> clean_text r (tk_goal t) \<and> clean_opt r (tk_context_ref t) \<and> clean_text r (tk_created_at t)
     \<and> clean_opt r (tk_started_at t) \<and> clean_opt r (tk_completed_at t)
     \<and> clean_opt r (tk_failed_at t) \<and> clean_opt r (tk_interrupted_at t)
     \<and> clean_text r (tk_updated_at t)"

definition tasks_ok :: "redactor \<Rightarrow> db \<Rightarrow> bool" where
  "tasks_ok r d \<longleftrightarrow> safe_policy r \<and> unique_by tk_task_id (tasks d)
     \<and> (\<forall>t \<in> set (tasks d). task_consistent t \<and> task_clean r t)"

lemma tasks_ok_empty: "safe_policy r \<Longrightarrow> tasks_ok r (empty_db r)"
  by (simp add: tasks_ok_def empty_db_def unique_by_def)

lemma redact_task_creation_clean:
  "safe_policy r \<Longrightarrow> redact_task_creation r c0 = Inr c \<Longrightarrow>
    clean_text r (tc_task_id c) \<and> clean_text r (tc_project_id c) \<and> clean_text r (tc_goal c)
    \<and> clean_opt r (tc_context_ref c) \<and> clean_text r (tc_created_at c)"
  by (auto simp: redact_task_creation_def Let_def redact_clean redact_opt_clean)

lemma new_task_row_ok:
  "safe_policy r \<Longrightarrow> redact_task_creation r c0 = Inr c \<Longrightarrow>
    task_consistent (new_task_row c) \<and> task_clean r (new_task_row c)"
  using redact_task_creation_clean[of r c0 c]
  by (simp add: task_consistent_def task_clean_def new_task_row_def task_states_def)

lemma create_task_commit:
  "create_task_tx r c d = Inr (Commit d' k) \<longleftrightarrow>
    row_by tk_task_id (tc_task_id c) (tasks d) = None
    \<and> d' = d\<lparr>tasks := tasks d @ [new_task_row c]\<rparr>
    \<and> k = (\<lambda>d'. case task_by r d' (tc_task_id c) of
        None \<Rightarrow> Inl (Integrity ''task disappeared after creation'') | Some t \<Rightarrow> Inr t)"
  by (auto simp: create_task_tx_def split: option.split if_split)

lemma new_task_row_id [simp]: "tk_task_id (new_task_row c) = tc_task_id c"
  by (simp add: new_task_row_def)

interpretation create_task: idempotent_op BeforeSqliteCommit AfterSqliteCommit redact_task_creation create_task_tx tasks_ok
proof unfold_locales
  fix r d q c d' and k :: "db \<Rightarrow> task_record res"
  assume ok: "tasks_ok r d" and prep: "redact_task_creation r q = Inr c"
    and body: "create_task_tx r c d = Inr (Commit d' k)"
  from ok have safe: "safe_policy r" by (simp add: tasks_ok_def)
  note row = new_task_row_ok[OF safe prep]
  have id: "redact_text r (tc_task_id c) = tc_task_id c"
    using redact_task_creation_clean[OF safe prep] by simp
  note commit = body[unfolded create_task_commit]
  show "tasks_ok r d'"
    using ok row commit by (simp add: tasks_ok_def unique_by_insert)
  show "\<exists>x. k d' = Inr x \<and> settled (create_task_tx r c d') d' x"
    using commit by (simp add: settled_def id task_by_def create_task_tx_def row_by_append new_task_row_def)
qed

lemma advance_task_simps [simp]:
  "tk_task_id (advance_task s u t) = tk_task_id t"
  "tk_state (advance_task s u t) = s"
  "tk_revision (advance_task s u t) = tk_revision t + 1"
  by (simp_all add: advance_task_def)

lemma task_transition_facts:
  "task_transition_allowed c s \<Longrightarrow> s \<in> set task_states \<and> s \<noteq> ''created'' \<and> \<not> task_terminal c"
  by (auto simp: task_transition_allowed_def task_states_def task_terminal_def split: if_splits)

lemma advance_task_consistent:
  assumes "task_consistent t" "task_transition_allowed (tk_state t) s"
  shows "task_consistent (advance_task s u t)"
proof -
  note f = task_transition_facts[OF assms(2)]
  then have "tk_completed_at t = None" "tk_failed_at t = None" "tk_interrupted_at t = None"
    using assms(1) by (simp_all add: task_consistent_def task_terminal_def)
  with assms(1) f show ?thesis by (simp add: task_consistent_def advance_task_def)
qed

lemma advance_task_clean:
  "task_clean r t \<Longrightarrow> clean_text r u \<Longrightarrow> task_clean r (advance_task s u t)"
  by (simp add: task_clean_def advance_task_def)

lemma update_task_commit:
  "update_task_state_tx r (i, s, n, u) d = Inr (Commit d' k) \<longleftrightarrow>
    (\<exists>cur. row_by tk_task_id i (tasks d) = Some cur \<and> tk_state cur \<noteq> s
      \<and> task_transition_allowed (tk_state cur) s \<and> tk_revision cur = n)
    \<and> d' = d\<lparr>tasks := update_where (\<lambda>t. tk_task_id t = i \<and> tk_revision t = n)
        (advance_task s u) (tasks d)\<rparr>
    \<and> k = (\<lambda>d'. case task_by r d' i of
        None \<Rightarrow> Inl (Integrity ''task disappeared after update'') | Some t \<Rightarrow> Inr t)"
  by (auto simp: update_task_state_tx_def split: option.split if_split)

interpretation update_task: idempotent_op BeforeSqliteCommit AfterSqliteCommit update_task_prep update_task_state_tx tasks_ok
proof unfold_locales
  fix r d q c d' and k :: "db \<Rightarrow> task_record res"
  assume ok: "tasks_ok r d" and prep: "update_task_prep r q = Inr c"
    and body: "update_task_state_tx r c d = Inr (Commit d' k)"
  obtain i s n u where c: "c = (i, s, n, u)" by (cases c)
  from ok have safe: "safe_policy r" and uq: "unique_by tk_task_id (tasks d)"
    by (simp_all add: tasks_ok_def)
  from prep have clean: "clean_text r u" "redact_text r i = i"
    by (auto simp: update_task_prep_def c redact_clean[OF safe] split: prod.splits if_splits)
  from body c obtain cur where cur: "row_by tk_task_id i (tasks d) = Some cur"
    and al: "task_transition_allowed (tk_state cur) s" "tk_revision cur = n"
    by (simp add: update_task_commit) blast
  note commit = body[unfolded c update_task_commit]
  have "\<forall>t \<in> set (update_where (\<lambda>t. tk_task_id t = i \<and> tk_revision t = n)
      (advance_task s u) (tasks d)). task_consistent t \<and> task_clean r t"
  proof (rule update_where_all)
    show "\<forall>t \<in> set (tasks d). task_consistent t \<and> task_clean r t"
      using ok by (simp add: tasks_ok_def)
    show "task_consistent (advance_task s u t) \<and> task_clean r (advance_task s u t)"
      if "t \<in> set (tasks d)" "tk_task_id t = i \<and> tk_revision t = n"
        "task_consistent t \<and> task_clean r t" for t
      using that row_by_only[OF cur uq, of t] al clean
      by (simp add: advance_task_consistent advance_task_clean)
  qed
  then show "tasks_ok r d'"
    using ok commit by (simp add: tasks_ok_def unique_by_update)
  have "row_by tk_task_id i (tasks d') = Some (advance_task s u cur)"
    using commit cur al row_by_key[OF cur] by (simp add: row_by_update)
  then show "\<exists>x. k d' = Inr x \<and> settled (update_task_state_tx r c d') d' x"
    using commit clean by (simp add: settled_def c task_by_def update_task_state_tx_def)
qed

text \<open>How one committed transition changes a row found by its id.\<close>

lemma update_task_row:
  assumes "update_task_state_tx r (i, s, n, u) d = Inr (Commit d' k)"
    and row: "row_by tk_task_id j (tasks d) = Some t"
  shows "row_by tk_task_id j (tasks d') =
      Some (if j = i \<and> tk_revision t = n then advance_task s u t else t)"
    and "j = i \<Longrightarrow> task_transition_allowed (tk_state t) s"
proof -
  note c = assms(1)[unfolded update_task_commit]
  then obtain cur where cur: "row_by tk_task_id i (tasks d) = Some cur"
    "task_transition_allowed (tk_state cur) s" by meson
  from c have "tasks d' = update_where (\<lambda>t. tk_task_id t = i \<and> tk_revision t = n)
      (advance_task s u) (tasks d)" by simp
  then show "row_by tk_task_id j (tasks d') =
      Some (if j = i \<and> tk_revision t = n then advance_task s u t else t)"
    using row_by_key[OF row] by (simp add: row_by_update row)
  show "task_transition_allowed (tk_state t) s" if "j = i" using that row cur by simp
qed

section \<open>Properties\<close>

text \<open>
  A task creation interrupted by one injected fault, before or after its commit, is healed
  by sending the same request again: the answer and the database are those of an undisturbed
  run.
\<close>

lemma create_task_retry_converges:
  assumes "tasks_ok (st_redactor st) (st_db st)"
    and "st1 = snd (create_task (with_failpoint fp st) c)"
  shows "fst (create_task (with_failpoint None st1) c) = fst (create_task (with_failpoint None st) c)
    \<and> st_db (snd (create_task (with_failpoint None st1) c))
      = st_db (snd (create_task (with_failpoint None st) c))"
  using create_task.retry_converges[OF assms(1)] assms(2) by (simp add: create_task_def)

definition sample_creation :: task_creation where
  "sample_creation = \<lparr>tc_task_id = ''t1'', tc_project_id = ''p1'', tc_goal = ''g'',
     tc_context_ref = None, tc_created_at = ''d1''\<rparr>"

lemma create_task_retry_converges_witness:
  "fst (create_task (with_failpoint None
      (snd (create_task (with_failpoint (Some AfterSqliteCommit) (open_store default_redactor))
        sample_creation))) sample_creation)
   = fst (create_task (with_failpoint None (open_store default_redactor)) sample_creation)"
  using create_task_retry_converges[of "open_store default_redactor" _ "Some AfterSqliteCommit"
      sample_creation, OF _ refl]
  by (simp add: tasks_ok_empty)

text \<open>
  A task in a terminal state is frozen: whatever transition is requested of the store, with
  whatever failpoint armed, the stored row stays as it is, and asking that task for another
  state is reported as a conflict.
\<close>

lemma terminal_task_frozen:
  assumes "tasks_ok (st_redactor st) (st_db st)"
    and "task_by (st_redactor st) (st_db st) task_id = Some t" "task_terminal (tk_state t)"
  shows "task_by (st_redactor st) (st_db (snd (update_task_state st q))) task_id = Some t
    \<and> (\<forall>s n u. s \<in> set task_states \<longrightarrow> redact_text (st_redactor st) s = s \<longrightarrow> s \<noteq> tk_state t \<longrightarrow>
        0 \<le> n \<longrightarrow> (\<exists>m. fst (update_task_state st (task_id, s, n, u)) = Inl (Conflict m)))"
proof
  let ?r = "st_redactor st"
  have row: "row_by tk_task_id (redact_text ?r task_id) (tasks (st_db st)) = Some t"
    using assms(2) by (simp add: task_by_def)
  show "task_by ?r (st_db (snd (update_task_state st q))) task_id = Some t"
  proof (cases "update_task_prep ?r q")
    case (Inr c)
    obtain i s n u where c: "c = (i, s, n, u)" by (cases c)
    have keeps: "task_by ?r d task_id = Some t"
      if "update_task_state_tx ?r c (st_db st) = Inr (Commit d k)" for d k
    proof -
      note up = update_task_row[OF that[unfolded c] row]
      have "redact_text ?r task_id \<noteq> i"
        using up(2) task_transition_facts[of "tk_state t" s] assms(3) by blast
      with up(1) show ?thesis by (simp add: task_by_def)
    qed
    with Inr show ?thesis
      unfolding update_task_state_def run_op_def
      by (simp add: run_tx_invariant[where I = "\<lambda>d. task_by ?r d task_id = Some t"] assms(2) keeps)
  qed (simp add: update_task_state_def run_op_def assms(2))
  show "\<forall>s n u. s \<in> set task_states \<longrightarrow> redact_text ?r s = s \<longrightarrow> s \<noteq> tk_state t \<longrightarrow>
      0 \<le> n \<longrightarrow> (\<exists>m. fst (update_task_state st (task_id, s, n, u)) = Inl (Conflict m))"
    using row assms(3) task_transition_facts[of "tk_state t"]
    by (auto simp: update_task_state_def run_op_def update_task_prep_def validate_task_state_def
        update_task_state_tx_def)
qed

definition sample_task :: task_record where
  "sample_task = advance_task ''completed'' ''d3'' (advance_task ''running'' ''d2''
     (new_task_row sample_creation))"

definition sample_task_store :: "task_record \<Rightarrow> metadata_store" where
  "sample_task_store t = (open_store default_redactor)
     \<lparr>st_db := (empty_db default_redactor)\<lparr>tasks := [t]\<rparr>\<rparr>"

lemma sample_task_store_simps [simp]:
  "tasks (st_db (sample_task_store t)) = [t]" "st_redactor (sample_task_store t) = default_redactor"
  "st_failpoints (sample_task_store t) = None"
  by (simp_all add: sample_task_store_def)

lemma sample_task_store_ok: "task_consistent t \<Longrightarrow> tasks_ok default_redactor (st_db (sample_task_store t))"
  by (simp add: tasks_ok_def unique_by_def task_clean_def)

lemma sample_rows_consistent:
  "task_consistent (new_task_row sample_creation)" "task_consistent sample_task"
  by (simp_all add: sample_task_def task_consistent_def new_task_row_def advance_task_def task_states_def)

lemma terminal_task_frozen_witness:
  "task_by default_redactor (st_db (snd (update_task_state (sample_task_store sample_task)
      (''t1'', ''running'', 2, ''d4'')))) ''t1'' = Some sample_task
   \<and> (\<exists>m. fst (update_task_state (sample_task_store sample_task)
      (''t1'', ''running'', 2, ''d4'')) = Inl (Conflict m))"
proof -
  have ok: "tasks_ok (st_redactor (sample_task_store sample_task)) (st_db (sample_task_store sample_task))"
    by (simp add: sample_task_store_ok sample_rows_consistent)
  have row: "task_by (st_redactor (sample_task_store sample_task))
      (st_db (sample_task_store sample_task)) ''t1'' = Some sample_task"
    by (simp add: task_by_def sample_task_def new_task_row_def sample_creation_def)
  have ter: "task_terminal (tk_state sample_task)" "tk_state sample_task = ''completed''"
    by (simp_all add: sample_task_def task_terminal_def)
  note w = terminal_task_frozen[OF ok row ter(1), of "(''t1'', ''running'', 2, ''d4'')"]
  have "''running'' \<in> set task_states" by (simp add: task_states_def)
  then have "\<exists>m. fst (update_task_state (sample_task_store sample_task)
      (''t1'', ''running'', 2, ''d4'')) = Inl (Conflict m)"
    by (intro mp[OF spec[OF spec[OF spec[OF conjunct2[OF w]]], THEN mp, THEN mp, THEN mp]])
      (simp_all add: ter(2))
  with w show ?thesis by simp
qed

text \<open>
  Of two writers that hold the same revision of a task and ask for different states, the
  second one always loses: once the first transition has been written, the second is a conflict
  and writes nothing.
\<close>

lemma task_update_no_lost_update:
  assumes "tasks_ok (st_redactor st) (st_db st)"
    and "task_by (st_redactor st) (st_db st) task_id = Some t" "tk_revision t = n"
    and "tk_state t \<noteq> s1" "st_failpoints st = None"
    and "update_task_state st (task_id, s1, n, u1) = (Inr t1, st1)"
    and "s2 \<noteq> s1" "s2 \<in> set task_states" "redact_text (st_redactor st) s1 = s1"
      "redact_text (st_redactor st) s2 = s2"
  shows "tk_revision t1 = n + 1
    \<and> (\<exists>m. update_task_state st1 (task_id, s2, n, u2) = (Inl (Conflict m), st1))"
proof -
  let ?r = "st_redactor st" and ?i = "redact_text (st_redactor st) task_id"
    and ?u = "redact_text (st_redactor st) u1"
  have safe: "safe_policy ?r" and uq: "unique_by tk_task_id (tasks (st_db st))"
    using assms(1) by (simp_all add: tasks_ok_def)
  have row: "row_by tk_task_id ?i (tasks (st_db st)) = Some t"
    using assms(2) by (simp add: task_by_def)
  have s1: "task_transition_allowed (tk_state t) s1" "s1 \<in> set task_states" "0 \<le> n"
    and out: "st1 = st\<lparr>st_db := st_db st\<lparr>tasks := update_where
        (\<lambda>t. tk_task_id t = ?i \<and> tk_revision t = n) (advance_task s1 ?u) (tasks (st_db st))\<rparr>\<rparr>"
      "task_by ?r (st_db st1) ?i = Some t1"
    using assms(3-6,9) row
    by (auto simp: update_task_state_def run_op_def update_task_prep_def validate_task_state_def
        update_task_state_tx_def run_tx_unarmed split: if_splits option.splits)
  have row1: "row_by tk_task_id ?i (tasks (st_db st1)) = Some (advance_task s1 ?u t)"
    using row row_by_key[OF row] assms(3) by (simp add: out row_by_update)
  then have "t1 = advance_task s1 ?u t"
    using out(2) by (simp add: task_by_def redact_idem[OF safe])
  moreover have "st_redactor st1 = ?r" by (simp add: out)
  ultimately show ?thesis
    using row1 assms(3,7,8,10) s1
    by (auto simp: update_task_state_def run_op_def update_task_prep_def validate_task_state_def
        update_task_state_tx_def)
qed

lemma task_update_no_lost_update_witness:
  "let st = sample_task_store (new_task_row sample_creation);
       st1 = snd (update_task_state st (''t1'', ''running'', 0, ''d2''))
   in \<exists>m. update_task_state st1 (''t1'', ''blocked'', 0, ''d2'') = (Inl (Conflict m), st1)"
proof -
  let ?st = "sample_task_store (new_task_row sample_creation)"
  have ok: "tasks_ok (st_redactor ?st) (st_db ?st)"
    by (simp add: sample_task_store_ok sample_rows_consistent)
  have row: "task_by (st_redactor ?st) (st_db ?st) ''t1'' = Some (new_task_row sample_creation)"
    by (simp add: task_by_def sample_creation_def)
  have run: "update_task_state ?st (''t1'', ''running'', 0, ''d2'')
      = (Inr (advance_task ''running'' ''d2'' (new_task_row sample_creation)),
         sample_task_store (advance_task ''running'' ''d2'' (new_task_row sample_creation)))"
    by (simp add: update_task_state_def run_op_def update_task_prep_def validate_task_state_def
        task_states_def update_task_state_tx_def task_transition_allowed_def run_tx_unarmed
        new_task_row_def sample_creation_def update_where_def task_by_def)
      (simp add: sample_task_store_def)
  show ?thesis
    using task_update_no_lost_update[OF ok row _ _ _ run, of "''blocked''" "''d2''"] run
    by (simp add: new_task_row_def task_states_def)
qed

end
