(* ===== verification/Ref_Store.thy ===== *)
theory Ref_Store
  imports Store
begin

text \<open>
  Named references with compare-and-swap, and the table of idempotency keys
  (\<open>get_ref\<close>, \<open>compare_and_swap_ref\<close> and \<open>record_idempotency\<close> of
  \<open>src/src/metadata.rs\<close>).
\<close>

section \<open>References\<close>

definition get_ref :: "redactor \<Rightarrow> db \<Rightarrow> utf8 \<Rightarrow> utf8 option" where
  "get_ref r d name = map_option rf_value (row_by rf_name (redact_text r name) (refs d))"

record ref_swap =
  sw_name :: utf8
  sw_expected :: "utf8 option"
  sw_new_value :: utf8
  sw_updated_at :: utf8

definition redact_ref_swap :: "redactor \<Rightarrow> ref_swap \<Rightarrow> ref_swap res" where
  "redact_ref_swap r q = Inr \<lparr>sw_name = redact_text r (sw_name q),
     sw_expected = redact_opt r (sw_expected q), sw_new_value = redact_text r (sw_new_value q),
     sw_updated_at = redact_text r (sw_updated_at q)\<rparr>"

definition compare_and_swap_ref_tx ::
  "externals \<Rightarrow> redactor \<Rightarrow> ref_swap \<Rightarrow> db \<Rightarrow> unit tx_end res" where
  "compare_and_swap_ref_tx X r q d =
     (let current = map_option rf_value (row_by rf_name (sw_name q) (refs d)) in
      if current \<noteq> sw_expected q
      then Inl (Conflict (''STALE_HEAD for ref '' @ sw_name q @ '': expected ''
             @ debug_opt X (sw_expected q) @ '', found '' @ debug_opt X current))
      else Inr (Commit
        (case current of
           Some _ \<Rightarrow> d\<lparr>refs := update_where (\<lambda>row. rf_name row = sw_name q)
               (\<lambda>row. row\<lparr>rf_value := sw_new_value q, rf_updated_at := sw_updated_at q\<rparr>) (refs d)\<rparr>
         | None \<Rightarrow> d\<lparr>refs := refs d @ [\<lparr>rf_name = sw_name q, rf_value = sw_new_value q,
               rf_updated_at = sw_updated_at q\<rparr>]\<rparr>)
        (\<lambda>_. Inr ())))"

definition compare_and_swap_ref ::
  "externals \<Rightarrow> metadata_store \<Rightarrow> ref_swap \<Rightarrow> unit res \<times> metadata_store" where
  "compare_and_swap_ref X = sqlite_op redact_ref_swap (compare_and_swap_ref_tx X)"

section \<open>Idempotency keys\<close>

record idempotency_request =
  iq_key :: idempotency_key
  iq_command_digest :: utf8
  iq_result :: json
  iq_created_at :: utf8

definition idempotency_row_key :: "idempotency_row \<Rightarrow> utf8 \<times> utf8 \<times> utf8" where
  "idempotency_row_key i = (ir_project_id i, ir_actor_id i, ir_request_id i)"

definition record_idempotency_prep ::
  "externals \<Rightarrow> redactor \<Rightarrow> idempotency_request \<Rightarrow> idempotency_row res" where
  "record_idempotency_prep X r q =
     (case canonical_bytes X (redact_value r (iq_result q)) of
        Inl e \<Rightarrow> Inl e
      | Inr result_json \<Rightarrow> Inr
          \<lparr>ir_project_id = redact_text r (ik_project_id (iq_key q)),
           ir_actor_id = redact_text r (ik_actor_id (iq_key q)),
           ir_request_id = redact_text r (ik_request_id (iq_key q)),
           ir_command_digest = redact_text r (iq_command_digest q),
           ir_result_json = result_json,
           ir_created_at = redact_text r (iq_created_at q)\<rparr>)"

definition record_idempotency_tx ::
  "externals \<Rightarrow> redactor \<Rightarrow> idempotency_row \<Rightarrow> db \<Rightarrow> idempotency_result tx_end res" where
  "record_idempotency_tx X r row d =
     (case row_by idempotency_row_key (idempotency_row_key row) (idempotency d) of
        None \<Rightarrow> Inr (Commit (d\<lparr>idempotency := idempotency d @ [row]\<rparr>) (\<lambda>_. Inr NewlyRecorded))
      | Some existing \<Rightarrow>
          if ir_command_digest existing \<noteq> ir_command_digest row
          then Inl (IdempotencyKeyReuse (ir_request_id row))
          else (case json_parse X (ir_result_json existing) of
             Inl message \<Rightarrow> Inl (Serialization message)
           | Inr v \<Rightarrow> Inr (Commit d (\<lambda>_. Inr (Existing v)))))"

definition record_idempotency ::
  "externals \<Rightarrow> metadata_store \<Rightarrow> idempotency_request \<Rightarrow> idempotency_result res \<times> metadata_store"
where
  "record_idempotency X = sqlite_op (record_idempotency_prep X) (record_idempotency_tx X)"

section \<open>References are registers\<close>

text \<open>
  The abstract contract: a map from names to values, changed only by a swap whose expected
  value is the current one.
\<close>

definition ref_map :: "db \<Rightarrow> utf8 \<Rightarrow> utf8 option" where
  "ref_map d name = map_option rf_value (row_by rf_name name (refs d))"

definition swap_spec ::
  "(utf8 \<Rightarrow> utf8 option) \<Rightarrow> ref_swap \<Rightarrow> (utf8 \<Rightarrow> utf8 option) option" where
  "swap_spec m q =
     (if m (sw_name q) = sw_expected q then Some (m(sw_name q \<mapsto> sw_new_value q)) else None)"

lemma get_ref_map: "get_ref r d name = ref_map d (redact_text r name)"
  by (simp add: get_ref_def ref_map_def)

lemma compare_and_swap_commit:
  "compare_and_swap_ref_tx X r q d = Inr (Commit d' k) \<Longrightarrow>
    swap_spec (ref_map d) q = Some (ref_map d') \<and> k = (\<lambda>_. Inr ())"
  by (auto simp: compare_and_swap_ref_tx_def swap_spec_def ref_map_def row_by_append row_by_update
      fun_eq_iff Let_def split: if_splits option.splits dest: row_by_key)

lemma compare_and_swap_stale:
  "swap_spec (ref_map d) q = None \<longleftrightarrow> (\<exists>m. compare_and_swap_ref_tx X r q d = Inl (Conflict m))"
  by (auto simp: compare_and_swap_ref_tx_def swap_spec_def ref_map_def Let_def)

definition refs_ok :: "redactor \<Rightarrow> db \<Rightarrow> bool" where
  "refs_ok r d \<longleftrightarrow> unique_by rf_name (refs d) \<and> unique_by idempotency_row_key (idempotency d)
     \<and> safe_policy r \<and> (\<forall>x \<in> set (refs d). clean_text r (rf_name x) \<and> clean_text r (rf_value x))"

interpretation compare_and_swap: store_op BeforeSqliteCommit AfterSqliteCommit redact_ref_swap
  "compare_and_swap_ref_tx X" refs_ok for X
proof unfold_locales
  fix r d q c d' and k :: "db \<Rightarrow> unit res"
  assume ok: "refs_ok r d" and prep: "redact_ref_swap r q = Inr c"
    and body: "compare_and_swap_ref_tx X r c d = Inr (Commit d' k)"
  from ok have safe: "safe_policy r" by (simp add: refs_ok_def)
  from prep have c: "clean_text r (sw_name c)" "clean_text r (sw_new_value c)"
    by (auto simp: redact_ref_swap_def redact_clean[OF safe])
  show "refs_ok r d'"
  proof (cases "row_by rf_name (sw_name c) (refs d)")
    case None
    let ?row = "\<lparr>rf_name = sw_name c, rf_value = sw_new_value c, rf_updated_at = sw_updated_at c\<rparr>"
    from None body have d': "d' = d\<lparr>refs := refs d @ [?row]\<rparr>"
      by (simp add: compare_and_swap_ref_tx_def Let_def split: if_splits)
    have "unique_by rf_name (refs d @ [?row])"
      using ok None by (simp add: unique_by_insert refs_ok_def)
    with ok c show ?thesis by (simp add: d' refs_ok_def)
  next
    case (Some x)
    with body have d': "d' = d\<lparr>refs := update_where (\<lambda>row. rf_name row = sw_name c)
        (\<lambda>row. row\<lparr>rf_value := sw_new_value c, rf_updated_at := sw_updated_at c\<rparr>) (refs d)\<rparr>"
      by (simp add: compare_and_swap_ref_tx_def Let_def split: if_splits option.splits)
    have "\<forall>x \<in> set (refs d'). clean_text r (rf_name x) \<and> clean_text r (rf_value x)"
    proof -
      have "\<forall>x \<in> set (update_where (\<lambda>row. rf_name row = sw_name c)
          (\<lambda>row. row\<lparr>rf_value := sw_new_value c, rf_updated_at := sw_updated_at c\<rparr>) (refs d)).
          clean_text r (rf_name x) \<and> clean_text r (rf_value x)"
        by (rule update_where_all) (use ok c in \<open>simp_all add: refs_ok_def\<close>)
      then show ?thesis by (simp add: d')
    qed
    moreover have "unique_by rf_name (refs d')"
      using ok by (simp add: d' unique_by_update refs_ok_def)
    ultimately show ?thesis using ok by (simp add: refs_ok_def d')
  qed
qed

lemma record_idempotency_commit:
  "record_idempotency_tx X r row d = Inr (Commit d' k) \<Longrightarrow>
    d' = d \<or> (row_by idempotency_row_key (idempotency_row_key row) (idempotency d) = None
      \<and> d' = d\<lparr>idempotency := idempotency d @ [row]\<rparr>)"
  by (auto simp: record_idempotency_tx_def split: option.splits if_splits sum.splits)

lemma record_idempotency_new:
  "record_idempotency_tx X r row d = Inr (Commit d' k) \<Longrightarrow> k d' = Inr NewlyRecorded \<Longrightarrow>
    row_by idempotency_row_key (idempotency_row_key row) (idempotency d) = None
    \<and> idempotency d' = idempotency d @ [row]"
  by (simp add: record_idempotency_tx_def split: option.splits if_splits sum.splits)
    (metis Inr_inject db.select_convs(3) db.surjective db.update_convs(3) idempotency_result.distinct(1))+

lemma record_idempotency_writes: "record_idempotency_tx X r row d \<noteq> Inr (Finished x)"
  by (simp add: record_idempotency_tx_def split: option.split sum.split)

interpretation record_idempotency: store_op BeforeSqliteCommit AfterSqliteCommit
  "record_idempotency_prep X" "record_idempotency_tx X" refs_ok for X
proof unfold_locales
  fix r d q c d' and k :: "db \<Rightarrow> idempotency_result res"
  assume ok: "refs_ok r d" and body: "record_idempotency_tx X r c d = Inr (Commit d' k)"
  from record_idempotency_commit[OF body] ok show "refs_ok r d'"
    by (elim disjE) (simp_all add: refs_ok_def unique_by_insert)
qed

lemma idempotency_row_stays:
  "row_by idempotency_row_key i (idempotency d) = Some row \<Longrightarrow>
    record_idempotency_tx X r c d = Inr (Commit d' k) \<Longrightarrow>
    row_by idempotency_row_key i (idempotency d') = Some row"
  using record_idempotency_commit[of X r c d d' k] by (metis (no_types, lifting) db.select_convs(3)
      db.surjective db.update_convs(3) option.simps(5) row_by_append)

section \<open>Properties\<close>

text \<open>
  C37. The references are registers with compare-and-swap: a swap that succeeds changed exactly
  the named register from the expected to the new value, a conflict is reported exactly when
  the expected value is not the current one, and any other outcome, injected faults included,
  leaves the registers as they were or applied the swap once.
\<close>

theorem compare_and_swap_refines:
  assumes "redact_ref_swap (st_redactor st) q = Inr c"
    and "compare_and_swap_ref X st q = (out, st')"
  shows "(out = Inr () \<longrightarrow> swap_spec (ref_map (st_db st)) c = Some (ref_map (st_db st')))
    \<and> ((\<exists>m. out = Inl (Conflict m)) \<longleftrightarrow> swap_spec (ref_map (st_db st)) c = None)
    \<and> (ref_map (st_db st') = ref_map (st_db st)
       \<or> swap_spec (ref_map (st_db st)) c = Some (ref_map (st_db st')))"
proof (cases "compare_and_swap_ref_tx X (st_redactor st) c (st_db st)")
  case (Inl e)
  then have "swap_spec (ref_map (st_db st)) c = None" "\<exists>m. e = Conflict m"
    by (auto simp: compare_and_swap_ref_tx_def swap_spec_def ref_map_def Let_def split: if_splits)
  with Inl assms show ?thesis by (auto simp: compare_and_swap_ref_def run_op_def)
next
  case (Inr t)
  then obtain d k where t: "t = Commit d k"
    by (auto simp: compare_and_swap_ref_tx_def Let_def split: if_splits)
  note spec = compare_and_swap_commit[OF Inr[unfolded t]]
  have run: "run_tx st (Inr (Commit d k)) BeforeSqliteCommit AfterSqliteCommit = (out, st')"
    using assms Inr t by (simp add: compare_and_swap_ref_def run_op_def)
  from run_tx_db_cases[of st "Inr (Commit d k)" BeforeSqliteCommit AfterSqliteCommit] run
  have db: "st_db st' = st_db st \<or> st_db st' = d" by auto
  from run_tx_commit_result[OF run] spec
  have "out = Inr () \<longrightarrow> st_db st' = d" "\<nexists>m. out = Inl (Conflict m)" by auto
  with db spec show ?thesis by auto
qed

definition sample_swap :: ref_swap where
  "sample_swap = \<lparr>sw_name = ''main'', sw_expected = None, sw_new_value = ''v1'',
     sw_updated_at = ''d1''\<rparr>"

lemma sample_swap_prep: "redact_ref_swap default_redactor sample_swap = Inr sample_swap"
  by (simp add: redact_ref_swap_def sample_swap_def redact_opt_def)

lemma empty_db_refs [simp]: "refs (empty_db r) = []" "idempotency (empty_db r) = []"
  by (simp_all add: empty_db_def)

theorem compare_and_swap_refines_witness:
  "let (out, st') = compare_and_swap_ref sample_externals (open_store default_redactor) sample_swap
   in out = Inr () \<and> ref_map (st_db st') = [''main'' \<mapsto> ''v1'']"
proof -
  obtain out st' where run: "compare_and_swap_ref sample_externals (open_store default_redactor)
      sample_swap = (out, st')" by fastforce
  have out: "out = Inr ()"
    using run sample_swap_prep
    by (simp add: compare_and_swap_ref_def run_op_prepared compare_and_swap_ref_tx_def
        run_tx_unarmed sample_swap_def Let_def)
  have "redact_ref_swap (st_redactor (open_store default_redactor)) sample_swap = Inr sample_swap"
    by (simp add: sample_swap_prep)
  note refines = compare_and_swap_refines[OF this run]
  have "ref_map (empty_db default_redactor) = Map.empty" by (simp add: ref_map_def fun_eq_iff)
  with refines out have "ref_map (st_db st') = [''main'' \<mapsto> ''v1'']"
    by (simp add: swap_spec_def sample_swap_def)
  with out run show ?thesis by simp
qed

text \<open>
  An idempotency key belongs to the request that recorded it first, whatever is recorded
  later and wherever faults strike: the same command gets the recorded result back, a different
  command under the key is refused, and neither changes the database.
\<close>

lemma idempotency_first_writer_wins:
  assumes "record_idempotency X st q = (Inr NewlyRecorded, st1)"
    and "st2 = with_failpoint None (run_history (record_idempotency X) st1 later)"
    and "iq_key q' = iq_key q"
    and "json_parse X (write_value (json_str X) (redact_value (st_redactor st) (iq_result q))) = Inr v"
  shows "record_idempotency X st2 q' =
    (if redact_text (st_redactor st) (iq_command_digest q')
          = redact_text (st_redactor st) (iq_command_digest q)
     then (Inr (Existing v), st2)
     else (Inl (IdempotencyKeyReuse (redact_text (st_redactor st) (ik_request_id (iq_key q)))), st2))"
proof -
  let ?r = "st_redactor st"
  obtain row where row: "record_idempotency_prep X ?r q = Inr row"
    by (simp add: record_idempotency_prep_def canonical_bytes_def)
  let ?k = "idempotency_row_key row"
  obtain k where
    body: "record_idempotency_tx X ?r row (st_db st) = Inr (Commit (st_db st1) k)
      \<and> k (st_db st1) = Inr NewlyRecorded"
    by (rule exE[OF run_op_wrote[OF assms(1)[unfolded record_idempotency_def] row
          record_idempotency_writes]])
  have first: "row_by idempotency_row_key ?k (idempotency (st_db st1)) = Some row"
    using body record_idempotency_new[of X ?r row "st_db st" "st_db st1" k]
    by (simp add: row_by_append)
  have "row_by idempotency_row_key ?k
      (idempotency (st_db (run_history (record_idempotency X) st1 later))) = Some row"
    unfolding record_idempotency_def
    by (rule run_history_keeps[where I = "\<lambda>d. row_by idempotency_row_key ?k (idempotency d)
        = Some row", OF _ first]) (rule idempotency_row_stays)
  then have "row_by idempotency_row_key ?k (idempotency (st_db st2)) = Some row"
    by (simp add: assms(2))
  moreover have "st_redactor st2 = ?r"
    using run_op_same_redactor[OF assms(1)[unfolded record_idempotency_def]]
    by (simp add: assms(2) record_idempotency_def)
  moreover obtain row' where row': "record_idempotency_prep X ?r q' = Inr row'"
    by (simp add: record_idempotency_prep_def canonical_bytes_def)
  moreover have "idempotency_row_key row' = ?k"
    "ir_command_digest row' = redact_text ?r (iq_command_digest q')"
    "ir_command_digest row = redact_text ?r (iq_command_digest q)"
    "ir_request_id row' = redact_text ?r (ik_request_id (iq_key q))"
    "json_parse X (ir_result_json row) = Inr v"
    using row row' assms(3,4)
    by (auto simp: record_idempotency_prep_def canonical_bytes_def idempotency_row_key_def)
  moreover have "st_failpoints st2 = None" by (simp add: assms(2))
  ultimately show ?thesis
    unfolding record_idempotency_def
    by (simp add: run_op_prepared record_idempotency_tx_def run_tx_unarmed)
qed

definition sample_idempotency :: "utf8 \<Rightarrow> idempotency_request" where
  "sample_idempotency digest = \<lparr>iq_key = \<lparr>ik_project_id = ''p1'', ik_actor_id = ''a1'',
       ik_request_id = ''r1''\<rparr>, iq_command_digest = digest, iq_result = JNumber ''1'',
     iq_created_at = ''d1''\<rparr>"

lemma idempotency_first_writer_wins_witness:
  "let st1 = snd (record_idempotency sample_externals (open_store default_redactor)
         (sample_idempotency ''c1''));
       st2 = with_failpoint None (run_history (record_idempotency sample_externals) st1
         [(Some BeforeSqliteCommit, sample_idempotency ''c2'')])
   in record_idempotency sample_externals st2 (sample_idempotency ''c2'')
     = (Inl (IdempotencyKeyReuse ''r1''), st2)"
proof -
  let ?st = "open_store default_redactor"
  obtain st1 where run: "record_idempotency sample_externals ?st (sample_idempotency ''c1'')
      = (Inr NewlyRecorded, st1)"
    by (simp add: record_idempotency_def run_op_def record_idempotency_prep_def
        canonical_bytes_def record_idempotency_tx_def run_tx_unarmed)
  have same: "iq_key (sample_idempotency ''c2'') = iq_key (sample_idempotency ''c1'')"
    by (simp add: sample_idempotency_def)
  have parse: "json_parse sample_externals (write_value (json_str sample_externals)
      (redact_value (st_redactor ?st) (iq_result (sample_idempotency ''c1'')))) = Inr (JString ''1'')"
    by (simp add: sample_externals_def sample_idempotency_def)
  have other: "iq_command_digest (sample_idempotency ''c2'')
      \<noteq> iq_command_digest (sample_idempotency ''c1'')"
    "ik_request_id (iq_key (sample_idempotency ''c1'')) = ''r1''"
    by (simp_all add: sample_idempotency_def)
  note wins = idempotency_first_writer_wins[OF run refl same parse,
      of "[(Some BeforeSqliteCommit, sample_idempotency ''c2'')]"]
  show ?thesis
    unfolding Let_def run snd_conv using wins other by (simp del: run_history.simps)
qed

end
