(* ===== verification/Journal_Store.thy ===== *)
theory Journal_Store
  imports Store
begin

text \<open>
  The operation journal of \<open>src/src/metadata.rs\<close>: intents made durable before an external
  effect, their outcomes, and the recovery that turns an intent without outcome into an
  explicit unknown. The last part follows one entry through any history of journal calls and
  faults.
\<close>

section \<open>Phases\<close>

definition KNOWN_OUTCOME_PHASES :: "utf8 list" where
  "KNOWN_OUTCOME_PHASES = [''outcome_durable'', ''published'', ''failed'', ''cancelled'',
     ''unknown'', ''unreconciled'']"

definition phase_transition_allowed :: "utf8 \<Rightarrow> utf8 \<Rightarrow> bool" where
  "phase_transition_allowed current next_phase =
     (if current = next_phase then True
      else if current \<in> {''reserved'', ''intent_durable''} then
        next_phase \<in> {''outcome_durable'', ''failed'', ''cancelled'', ''unknown''}
      else if current = ''executing'' then
        next_phase \<in> {''outcome_durable'', ''failed'', ''cancelled'', ''unknown''}
      else if current = ''outcome_durable'' then
        next_phase \<in> {''published'', ''unreconciled'', ''unknown''}
      else if current = ''unreconciled'' then next_phase \<in> {''published'', ''unknown''}
      else False)"

definition terminal_phases :: "utf8 list" where
  "terminal_phases = [''failed'', ''cancelled'', ''unknown'', ''published'']"

definition unresolved_phases :: "utf8 list" where
  "unresolved_phases = [''reserved'', ''intent_durable'', ''executing'']"

section \<open>Operations\<close>

definition jo_key :: "journal_operation \<Rightarrow> utf8 \<times> utf8 \<times> utf8" where
  "jo_key o1 = (jo_project_id o1, jo_actor_id o1, jo_request_id o1)"

record intent_request =
  jq_project_id :: utf8
  jq_actor_id :: utf8
  jq_request_id :: utf8
  jq_operation_id :: utf8
  jq_payload :: json
  jq_created_at :: utf8

definition record_intent_prep ::
  "externals \<Rightarrow> redactor \<Rightarrow> intent_request \<Rightarrow> journal_operation res" where
  "record_intent_prep X r q =
     (case canonical_bytes X (redact_value r (jq_payload q)) of
        Inl e \<Rightarrow> Inl e
      | Inr payload_json \<Rightarrow> Inr
          \<lparr>jo_project_id = redact_text r (jq_project_id q),
           jo_actor_id = redact_text r (jq_actor_id q),
           jo_request_id = redact_text r (jq_request_id q),
           jo_operation_id = redact_text r (jq_operation_id q),
           jo_phase = ''intent_durable'', jo_payload_json = payload_json,
           jo_created_at = redact_text r (jq_created_at q)\<rparr>)"

definition record_intent_tx ::
  "redactor \<Rightarrow> journal_operation \<Rightarrow> db \<Rightarrow> unit tx_end res" where
  "record_intent_tx r row d =
     (case row_by jo_key (jo_key row) (operation_journal d) of
        None \<Rightarrow>
          Inr (Commit (d\<lparr>operation_journal := operation_journal d @ [row]\<rparr>) (\<lambda>_. Inr ()))
      | Some existing \<Rightarrow>
          if jo_operation_id existing \<noteq> jo_operation_id row
            \<or> jo_payload_json existing \<noteq> jo_payload_json row
          then Inl (IdempotencyKeyReuse (jo_request_id row))
          else Inr (Commit d (\<lambda>_. Inr ())))"

definition record_intent ::
  "externals \<Rightarrow> metadata_store \<Rightarrow> intent_request \<Rightarrow> unit res \<times> metadata_store" where
  "record_intent X =
     run_op BeforeIntentCommit AfterIntentCommit (record_intent_prep X) record_intent_tx"

record outcome_request =
  oq_key :: idempotency_key
  oq_phase :: utf8
  oq_payload :: json

record outcome_update =
  ou_key :: "utf8 \<times> utf8 \<times> utf8"
  ou_phase :: utf8
  ou_payload_json :: utf8

definition record_outcome_prep ::
  "externals \<Rightarrow> redactor \<Rightarrow> outcome_request \<Rightarrow> outcome_update res" where
  "record_outcome_prep X r q =
     (case canonical_bytes X (redact_value r (oq_payload q)) of
        Inl e \<Rightarrow> Inl e
      | Inr payload_json \<Rightarrow>
          if redact_text r (oq_phase q) \<notin> set KNOWN_OUTCOME_PHASES
          then Inl (InvalidInput (''unsupported journal outcome phase '' @ redact_text r (oq_phase q)))
          else Inr \<lparr>ou_key = (redact_text r (ik_project_id (oq_key q)),
                      redact_text r (ik_actor_id (oq_key q)),
                      redact_text r (ik_request_id (oq_key q))),
                    ou_phase = redact_text r (oq_phase q), ou_payload_json = payload_json\<rparr>)"

definition write_outcome :: "outcome_update \<Rightarrow> journal_operation \<Rightarrow> journal_operation" where
  "write_outcome u x = x\<lparr>jo_phase := ou_phase u, jo_payload_json := ou_payload_json u\<rparr>"

definition record_outcome_tx ::
  "redactor \<Rightarrow> outcome_update \<Rightarrow> db \<Rightarrow> unit tx_end res" where
  "record_outcome_tx r u d =
     (case row_by jo_key (ou_key u) (operation_journal d) of
        None \<Rightarrow> Inl (NotFound (''operation intent '' @ snd (snd (ou_key u))))
      | Some existing \<Rightarrow>
          if jo_phase existing = ou_phase u then
            (if jo_payload_json existing \<noteq> ou_payload_json u
             then Inl (Integrity (''operation '' @ snd (snd (ou_key u)) @ '' reused phase ''
                    @ ou_phase u @ '' with different payload''))
             else Inr (Commit d (\<lambda>_. Inr ())))
          else if \<not> phase_transition_allowed (jo_phase existing) (ou_phase u)
          then Inl (Conflict (''invalid operation phase transition '' @ jo_phase existing @ '' -> ''
                 @ ou_phase u @ '' for '' @ snd (snd (ou_key u))))
          else Inr (Commit
            (d\<lparr>operation_journal := update_where (\<lambda>x. jo_key x = ou_key u)
                 (write_outcome u)
                 (operation_journal d)\<rparr>)
            (\<lambda>_. Inr ())))"

definition record_outcome ::
  "externals \<Rightarrow> metadata_store \<Rightarrow> outcome_request \<Rightarrow> unit res \<times> metadata_store" where
  "record_outcome X =
     run_op BeforeOutcomeCommit AfterOutcomeCommit (record_outcome_prep X) record_outcome_tx"

definition order_journal :: "journal_operation list \<Rightarrow> journal_operation list" where
  "order_journal rows = order_rows (\<lambda>x. (jo_created_at x, jo_request_id x)) rows"

definition unfinished_operations :: "db \<Rightarrow> journal_operation list" where
  "unfinished_operations d =
     order_journal (filter (\<lambda>x. jo_phase x \<notin> set terminal_phases) (operation_journal d))"

definition unknown_operations :: "db \<Rightarrow> journal_operation list" where
  "unknown_operations d =
     order_journal (filter (\<lambda>x. jo_phase x = ''unknown'') (operation_journal d))"

definition operation :: "redactor \<Rightarrow> db \<Rightarrow> idempotency_key \<Rightarrow> journal_operation option" where
  "operation r d key = row_by jo_key
     (redact_text r (ik_project_id key), redact_text r (ik_actor_id key),
      redact_text r (ik_request_id key)) (operation_journal d)"

definition mark_unknown :: "journal_operation \<Rightarrow> journal_operation" where
  "mark_unknown x = x\<lparr>jo_phase := ''unknown''\<rparr>"

text \<open>The loop over the selected rows, one \<open>UPDATE\<close> by key each.\<close>

fun mark_each :: "journal_operation list \<Rightarrow> journal_operation list \<Rightarrow> journal_operation list" where
  "mark_each [] rows = rows"
| "mark_each (x # xs) rows = mark_each xs (update_where (\<lambda>y. jo_key y = jo_key x) mark_unknown rows)"

definition recover_unfinished_operations_tx ::
  "redactor \<Rightarrow> unit \<Rightarrow> db \<Rightarrow> journal_operation list tx_end res" where
  "recover_unfinished_operations_tx r u d =
     (let recovered = order_journal
        (filter (\<lambda>x. jo_phase x \<in> set unresolved_phases) (operation_journal d)) in
      Inr (Commit (d\<lparr>operation_journal := mark_each recovered (operation_journal d)\<rparr>)
        (\<lambda>_. Inr (map mark_unknown recovered))))"

definition recover_unfinished_operations ::
  "metadata_store \<Rightarrow> journal_operation list res \<times> metadata_store" where
  "recover_unfinished_operations st =
     run_op BeforeRecoveryCommit AfterRecoveryCommit (\<lambda>_. Inr) recover_unfinished_operations_tx st ()"

section \<open>Phases are a life cycle\<close>

definition phase_terminal :: "utf8 \<Rightarrow> bool" where
  "phase_terminal p \<longleftrightarrow> p \<in> set terminal_phases"

interpretation phases: lifecycle phase_transition_allowed phase_terminal
  by unfold_locales
    (auto simp: phase_transition_allowed_def phase_terminal_def terminal_phases_def split: if_splits)

definition journal_ok :: "redactor \<Rightarrow> db \<Rightarrow> bool" where
  "journal_ok r d \<longleftrightarrow> unique_by jo_key (operation_journal d)
     \<and> (\<forall>x \<in> set (operation_journal d).
          jo_phase x \<in> set (''intent_durable'' # KNOWN_OUTCOME_PHASES))"

lemma jo_key_update [simp]:
  "jo_key (x\<lparr>jo_phase := p\<rparr>) = jo_key x" "jo_key (x\<lparr>jo_payload_json := j\<rparr>) = jo_key x"
  "jo_key (mark_unknown x) = jo_key x"
  by (simp_all add: jo_key_def mark_unknown_def)

lemma mark_unknown_phase [simp]: "jo_phase (mark_unknown x) = ''unknown''"
  by (simp add: mark_unknown_def)

lemma mark_unknown_twice [simp]: "mark_unknown (mark_unknown x) = mark_unknown x"
  by (simp add: mark_unknown_def)

text \<open>Row by row, the loop is one update of all rows whose key was selected.\<close>

lemma mark_each_map:
  "mark_each xs rows = update_where (\<lambda>y. jo_key y \<in> jo_key ` set xs) mark_unknown rows"
  by (induction xs arbitrary: rows) (auto simp: update_where_def)

lemma mark_selected:
  assumes "unique_by jo_key rows"
  shows "mark_each (order_journal (filter P rows)) rows = update_where P mark_unknown rows"
proof -
  have "jo_key y \<in> jo_key ` set (filter P rows) \<longleftrightarrow> P y" if "y \<in> set rows" for y
    using that row_by_unique[OF assms] by (auto simp: image_iff) (metis option.inject)
  then show ?thesis
    by (simp add: mark_each_map order_journal_def order_rows_def update_where_def)
qed

section \<open>What each call does to the journal\<close>

lemma record_intent_commit:
  "record_intent_tx r row d = Inr (Commit d' k) \<longleftrightarrow> k = (\<lambda>_. Inr ())
    \<and> (case row_by jo_key (jo_key row) (operation_journal d) of
         None \<Rightarrow> d' = d\<lparr>operation_journal := operation_journal d @ [row]\<rparr>
       | Some e \<Rightarrow> jo_operation_id e = jo_operation_id row
           \<and> jo_payload_json e = jo_payload_json row \<and> d' = d)"
  by (auto simp: record_intent_tx_def split: option.split if_split)

lemma write_outcome_simps [simp]:
  "jo_key (write_outcome u x) = jo_key x" "jo_phase (write_outcome u x) = ou_phase u"
  "jo_payload_json (write_outcome u x) = ou_payload_json u"
  "jo_operation_id (write_outcome u x) = jo_operation_id x"
  "jo_created_at (write_outcome u x) = jo_created_at x"
  by (simp_all add: write_outcome_def)

lemma record_outcome_commit:
  "record_outcome_tx r u d = Inr (Commit d' k) \<longleftrightarrow> k = (\<lambda>_. Inr ())
    \<and> (\<exists>e. row_by jo_key (ou_key u) (operation_journal d) = Some e
        \<and> (if jo_phase e = ou_phase u then jo_payload_json e = ou_payload_json u \<and> d' = d
           else phase_transition_allowed (jo_phase e) (ou_phase u)
             \<and> d' = d\<lparr>operation_journal := update_where (\<lambda>x. jo_key x = ou_key u)
                   (write_outcome u) (operation_journal d)\<rparr>))"
  by (cases "row_by jo_key (ou_key u) (operation_journal d)") (auto simp: record_outcome_tx_def)

lemma record_outcome_prep_phase:
  "record_outcome_prep X r q = Inr u \<Longrightarrow> ou_phase u \<in> set KNOWN_OUTCOME_PHASES"
  by (auto simp: record_outcome_prep_def canonical_bytes_def split: if_splits)

lemma record_intent_prep_phase:
  "record_intent_prep X r q = Inr row \<Longrightarrow> jo_phase row = ''intent_durable''"
  by (auto simp: record_intent_prep_def canonical_bytes_def)

lemma journal_ok_update:
  assumes "journal_ok r d" "\<And>x. jo_key (f x) = jo_key x"
    and "\<And>x. jo_phase (f x) \<in> set KNOWN_OUTCOME_PHASES"
  shows "journal_ok r (d\<lparr>operation_journal := update_where p f (operation_journal d)\<rparr>)"
proof -
  have "\<forall>x \<in> set (update_where p f (operation_journal d)).
      jo_phase x \<in> set (''intent_durable'' # KNOWN_OUTCOME_PHASES)"
    by (rule update_where_all) (use assms in \<open>simp_all add: journal_ok_def\<close>)
  with assms show ?thesis by (simp add: journal_ok_def unique_by_update)
qed

interpretation record_intent: idempotent_op BeforeIntentCommit AfterIntentCommit
  "record_intent_prep X" record_intent_tx journal_ok for X
proof unfold_locales
  fix r d q c d' and k :: "db \<Rightarrow> unit res"
  assume ok: "journal_ok r d" and prep: "record_intent_prep X r q = Inr c"
    and body: "record_intent_tx r c d = Inr (Commit d' k)"
  note commit = body[unfolded record_intent_commit]
  show "journal_ok r d'"
  proof (cases "row_by jo_key (jo_key c) (operation_journal d)")
    case None
    with commit ok record_intent_prep_phase[OF prep] show ?thesis
      by (simp add: journal_ok_def unique_by_insert)
  qed (use commit ok in simp)
  have kk: "k = (\<lambda>_. Inr ())" using commit by (rule conjunct1)
  have "\<exists>e. row_by jo_key (jo_key c) (operation_journal d') = Some e
      \<and> jo_operation_id e = jo_operation_id c \<and> jo_payload_json e = jo_payload_json c"
  proof (cases "row_by jo_key (jo_key c) (operation_journal d)")
    case None
    with commit have "operation_journal d' = operation_journal d @ [c]" by simp
    with None show ?thesis by (simp add: row_by_append)
  qed (use commit in simp)
  then obtain e where "row_by jo_key (jo_key c) (operation_journal d') = Some e"
    "jo_operation_id e = jo_operation_id c" "jo_payload_json e = jo_payload_json c" by metis
  then have "record_intent_tx r c d' = Inr (Commit d' (\<lambda>_. Inr ()))"
    by (simp add: record_intent_tx_def)
  then show "\<exists>x. k d' = Inr x \<and> settled (record_intent_tx r c d') d' x"
    by (simp add: kk settled_def)
qed

interpretation record_outcome: idempotent_op BeforeOutcomeCommit AfterOutcomeCommit
  "record_outcome_prep X" record_outcome_tx journal_ok for X
proof unfold_locales
  fix r d q c d' and k :: "db \<Rightarrow> unit res"
  assume ok: "journal_ok r d" and prep: "record_outcome_prep X r q = Inr c"
    and body: "record_outcome_tx r c d = Inr (Commit d' k)"
  note commit = body[unfolded record_outcome_commit]
  then obtain e where e: "row_by jo_key (ou_key c) (operation_journal d) = Some e" by meson
  with commit have d': "d' = (if jo_phase e = ou_phase c then d
      else d\<lparr>operation_journal := update_where (\<lambda>x. jo_key x = ou_key c)
                   (write_outcome c) (operation_journal d)\<rparr>)" by simp
  show "journal_ok r d'"
    using ok record_outcome_prep_phase[OF prep] by (simp add: d' journal_ok_update)
  show "\<exists>x. k d' = Inr x \<and> settled (record_outcome_tx r c d') d' x"
    using commit e row_by_key[OF e]
    by (simp add: d' settled_def record_outcome_tx_def row_by_update split: if_splits)
qed

lemma recover_commit:
  "unique_by jo_key (operation_journal d) \<Longrightarrow>
    recover_unfinished_operations_tx r u d =
      Inr (Commit (d\<lparr>operation_journal := update_where (\<lambda>x. jo_phase x \<in> set unresolved_phases)
            mark_unknown (operation_journal d)\<rparr>)
        (\<lambda>_. Inr (map mark_unknown (order_journal
          (filter (\<lambda>x. jo_phase x \<in> set unresolved_phases) (operation_journal d))))))"
  by (simp add: recover_unfinished_operations_tx_def Let_def mark_selected)

lemma recover_idle:
  "\<forall>x \<in> set (operation_journal d). jo_phase x \<notin> set unresolved_phases \<Longrightarrow>
    recover_unfinished_operations_tx r u d = Inr (Commit d (\<lambda>_. Inr []))"
  by (simp add: recover_unfinished_operations_tx_def order_journal_def order_rows_def Let_def
      filter_False)

interpretation recover: store_op BeforeRecoveryCommit AfterRecoveryCommit "\<lambda>_. Inr"
  recover_unfinished_operations_tx journal_ok
proof unfold_locales
  fix r d q c d' and k :: "db \<Rightarrow> journal_operation list res"
  assume ok: "journal_ok r d" and body: "recover_unfinished_operations_tx r c d = Inr (Commit d' k)"
  from ok have "unique_by jo_key (operation_journal d)" by (simp add: journal_ok_def)
  with body have "d' = d\<lparr>operation_journal := update_where
      (\<lambda>x. jo_phase x \<in> set unresolved_phases) mark_unknown (operation_journal d)\<rparr>"
    by (simp add: recover_commit)
  with ok show "journal_ok r d'" by (simp add: journal_ok_update KNOWN_OUTCOME_PHASES_def)
qed

section \<open>The life of one entry\<close>

text \<open>
  \<open>entry_step x y\<close>: the entry \<open>x\<close> may become \<open>y\<close> in one commit. It keeps its identity, moves
  along the phases, and its payload changes only with the phase.
\<close>

definition entry_step :: "journal_operation \<Rightarrow> journal_operation \<Rightarrow> bool" where
  "entry_step x y \<longleftrightarrow> jo_key y = jo_key x \<and> jo_operation_id y = jo_operation_id x
     \<and> jo_created_at y = jo_created_at x \<and> phase_transition_allowed (jo_phase x) (jo_phase y)
     \<and> (jo_phase y = jo_phase x \<longrightarrow> y = x)"

lemma phase_refl [simp]: "phase_transition_allowed p p"
  by (simp add: phase_transition_allowed_def)

lemma entry_step_refl [simp]: "entry_step x x"
  by (simp add: entry_step_def)

lemma entry_step_terminal: "entry_step x y \<Longrightarrow> phase_terminal (jo_phase x) \<Longrightarrow> y = x"
  by (auto simp: entry_step_def dest: phases.terminal_stuck)

lemma entry_steps_facts:
  "entry_step\<^sup>*\<^sup>* x y \<Longrightarrow> jo_key y = jo_key x \<and> jo_operation_id y = jo_operation_id x
    \<and> jo_created_at y = jo_created_at x
    \<and> phase_transition_allowed\<^sup>*\<^sup>* (jo_phase x) (jo_phase y)
    \<and> (phase_terminal (jo_phase x) \<longrightarrow> y = x)"
proof (induction rule: rtranclp_induct)
  case (step y z)
  then have "entry_step y z" by simp
  then have "phase_transition_allowed (jo_phase y) (jo_phase z)" "jo_key z = jo_key y"
    "jo_operation_id z = jo_operation_id y" "jo_created_at z = jo_created_at y"
    by (simp_all add: entry_step_def)
  moreover have "phase_terminal (jo_phase x) \<longrightarrow> z = x"
    using step entry_step_terminal by blast
  ultimately show ?case
    using step.IH by (simp add: rtranclp.rtrancl_into_rtrancl[where b = "jo_phase y"])
qed simp

definition has_entry :: "journal_operation \<Rightarrow> db \<Rightarrow> bool" where
  "has_entry x d \<longleftrightarrow> (\<exists>y. row_by jo_key (jo_key x) (operation_journal d) = Some y \<and> entry_step\<^sup>*\<^sup>* x y)"

lemma has_entry_step:
  assumes "has_entry x d" "\<And>y. row_by jo_key (jo_key x) (operation_journal d) = Some y \<Longrightarrow>
      \<exists>z. row_by jo_key (jo_key x) (operation_journal d') = Some z \<and> entry_step y z"
  shows "has_entry x d'"
proof -
  from assms(1) obtain y where y: "row_by jo_key (jo_key x) (operation_journal d) = Some y"
    "entry_step\<^sup>*\<^sup>* x y" by (auto simp only: has_entry_def)
  from assms(2)[OF y(1)] obtain z where z: "row_by jo_key (jo_key x) (operation_journal d') = Some z"
    "entry_step y z" by (elim exE conjE)
  from y(2) z(2) have "entry_step\<^sup>*\<^sup>* x z" by (rule rtranclp.rtrancl_into_rtrancl)
  with z(1) show ?thesis unfolding has_entry_def by (intro exI conjI)
qed

lemma intent_has_entry:
  assumes "has_entry x d" "record_intent_tx r row d = Inr (Commit d' k)"
  shows "has_entry x d'"
proof (rule has_entry_step[OF assms(1)])
  fix y assume y: "row_by jo_key (jo_key x) (operation_journal d) = Some y"
  then have "row_by jo_key (jo_key x) (operation_journal d') = Some y"
    using assms(2)[unfolded record_intent_commit]
    by (cases "row_by jo_key (jo_key row) (operation_journal d)") (simp_all add: row_by_append)
  then show "\<exists>z. row_by jo_key (jo_key x) (operation_journal d') = Some z \<and> entry_step y z"
    by simp
qed

lemma outcome_has_entry:
  assumes "has_entry x d" "record_outcome_tx r u d = Inr (Commit d' k)"
  shows "has_entry x d'"
proof (rule has_entry_step[OF assms(1)])
  fix y assume y: "row_by jo_key (jo_key x) (operation_journal d) = Some y"
  note commit = assms(2)[unfolded record_outcome_commit]
  then obtain e where e: "row_by jo_key (ou_key u) (operation_journal d) = Some e" by meson
  show "\<exists>z. row_by jo_key (jo_key x) (operation_journal d') = Some z \<and> entry_step y z"
  proof (cases "jo_phase e = ou_phase u")
    case True
    with commit e y show ?thesis by simp
  next
    case False
    then have "row_by jo_key (jo_key x) (operation_journal d')
        = Some (if jo_key y = ou_key u then write_outcome u y else y)"
      using commit e y by (simp add: row_by_update)
    moreover have "entry_step y (if jo_key y = ou_key u then write_outcome u y else y)"
    proof (cases "jo_key y = ou_key u")
      case True
      with y e row_by_key[OF y] have "y = e" by simp
      with True False commit e show ?thesis by (simp add: entry_step_def)
    qed simp
    ultimately show ?thesis by blast
  qed
qed

lemma recover_has_entry:
  assumes "has_entry x d" "journal_ok r d"
    and "recover_unfinished_operations_tx r u d = Inr (Commit d' k)"
  shows "has_entry x d'"
proof (rule has_entry_step[OF assms(1)])
  fix y assume y: "row_by jo_key (jo_key x) (operation_journal d) = Some y"
  from assms(2) have "unique_by jo_key (operation_journal d)" by (simp add: journal_ok_def)
  with assms(3) have d': "d' = d\<lparr>operation_journal := update_where
      (\<lambda>x. jo_phase x \<in> set unresolved_phases) mark_unknown (operation_journal d)\<rparr>"
    by (simp add: recover_commit)
  have "row_by jo_key (jo_key x) (operation_journal d')
      = Some (if jo_phase y \<in> set unresolved_phases then mark_unknown y else y)"
    by (simp add: d' row_by_update y)
  moreover have "entry_step y (if jo_phase y \<in> set unresolved_phases then mark_unknown y else y)"
    by (auto simp: entry_step_def mark_unknown_def jo_key_def unresolved_phases_def
        phase_transition_allowed_def)
  ultimately show "\<exists>z. row_by jo_key (jo_key x) (operation_journal d') = Some z \<and> entry_step y z"
    by blast
qed

text \<open>Any journal call, with any failpoint armed before it.\<close>

inductive journal_step :: "externals \<Rightarrow> metadata_store \<Rightarrow> metadata_store \<Rightarrow> bool"
  for X where
  intent: "journal_step X st (snd (record_intent X (with_failpoint fp st) q))"
| outcome: "journal_step X st (snd (record_outcome X (with_failpoint fp st) q))"
| recovery: "journal_step X st (snd (recover_unfinished_operations (with_failpoint fp st)))"

lemma journal_step_keeps:
  assumes "journal_step X st st'" "journal_ok (st_redactor st) (st_db st)"
  shows "st_redactor st' = st_redactor st \<and> journal_ok (st_redactor st) (st_db st')
    \<and> (has_entry x (st_db st) \<longrightarrow> has_entry x (st_db st'))"
  using assms
proof (cases rule: journal_step.cases)
  case (intent fp q)
  have "has_entry x (st_db (snd (record_intent X (with_failpoint fp st) q)))"
    if "has_entry x (st_db st)"
    unfolding record_intent_def by (rule run_op_keeps) (use that intent_has_entry in simp_all)
  with intent assms(2) record_intent.op_keeps[of "with_failpoint fp st" X q] show ?thesis
    by (simp add: record_intent_def)
next
  case (outcome fp q)
  have "has_entry x (st_db (snd (record_outcome X (with_failpoint fp st) q)))"
    if "has_entry x (st_db st)"
    unfolding record_outcome_def by (rule run_op_keeps) (use that outcome_has_entry in simp_all)
  with outcome assms(2) record_outcome.op_keeps[of "with_failpoint fp st" X q] show ?thesis
    by (simp add: record_outcome_def)
next
  case (recovery fp)
  have "has_entry x (st_db (snd (recover_unfinished_operations (with_failpoint fp st))))"
    if "has_entry x (st_db st)"
    unfolding recover_unfinished_operations_def
    by (rule run_op_keeps) (use that recover_has_entry assms(2) in simp_all)
  with recovery assms(2) recover.op_keeps[of "with_failpoint fp st" "()"] show ?thesis
    by (simp add: recover_unfinished_operations_def)
qed

lemma journal_steps_keep:
  "(journal_step X)\<^sup>*\<^sup>* st st' \<Longrightarrow> journal_ok (st_redactor st) (st_db st) \<Longrightarrow>
    st_redactor st' = st_redactor st \<and> journal_ok (st_redactor st) (st_db st')
    \<and> (has_entry x (st_db st) \<longrightarrow> has_entry x (st_db st'))"
proof (induction rule: rtranclp_induct)
  case (step y z)
  then have y: "st_redactor y = st_redactor st" "journal_ok (st_redactor st) (st_db y)"
    "has_entry x (st_db st) \<longrightarrow> has_entry x (st_db y)" by simp_all
  from journal_step_keeps[OF step.hyps(2), of x] y show ?case by simp
qed simp

section \<open>Properties\<close>

text \<open>
  Whatever calls of the journal alone are made, in whatever order and with whatever faults, a
  recorded entry is never lost: it keeps its identity, its phase only moves along the allowed
  transitions, and once it is failed, cancelled, unknown or published it never changes again.
  The other components write entries too; \<open>Store_Life\<close> says what they do to them.
\<close>

lemma journal_entry_steps:
  assumes "(journal_step X)\<^sup>*\<^sup>* st st'" "journal_ok (st_redactor st) (st_db st)"
    and "row_by jo_key key (operation_journal (st_db st)) = Some x"
  shows "\<exists>y. row_by jo_key key (operation_journal (st_db st')) = Some y
    \<and> jo_operation_id y = jo_operation_id x \<and> jo_created_at y = jo_created_at x
    \<and> phase_transition_allowed\<^sup>*\<^sup>* (jo_phase x) (jo_phase y)
    \<and> (phase_terminal (jo_phase x) \<longrightarrow> y = x)"
proof -
  have key: "jo_key x = key" by (rule row_by_key[OF assms(3)])
  have "has_entry x (st_db st)" using assms(3) by (auto simp: has_entry_def key)
  then have "has_entry x (st_db st')" using journal_steps_keep[OF assms(1,2), of x] by simp
  then obtain y where "row_by jo_key key (operation_journal (st_db st')) = Some y"
    "entry_step\<^sup>*\<^sup>* x y" by (auto simp only: has_entry_def key)
  with entry_steps_facts[of x y] show ?thesis by (intro exI[of _ y]) simp
qed

definition sample_entry :: "utf8 \<Rightarrow> journal_operation" where
  "sample_entry phase = \<lparr>jo_project_id = ''p1'', jo_actor_id = ''a1'', jo_request_id = ''r1'',
     jo_operation_id = ''o1'', jo_phase = phase, jo_payload_json = ''1'', jo_created_at = ''d1''\<rparr>"

definition sample_journal :: "utf8 \<Rightarrow> metadata_store" where
  "sample_journal phase = (open_store default_redactor)
     \<lparr>st_db := (empty_db default_redactor)\<lparr>operation_journal := [sample_entry phase]\<rparr>\<rparr>"

lemma sample_journal_simps [simp]:
  "operation_journal (st_db (sample_journal p)) = [sample_entry p]"
  "st_redactor (sample_journal p) = default_redactor" "st_failpoints (sample_journal p) = None"
  "jo_key (sample_entry p) = (''p1'', ''a1'', ''r1'')" "jo_phase (sample_entry p) = p"
  by (simp_all add: sample_journal_def sample_entry_def jo_key_def)

lemma sample_journal_ok:
  "p \<in> set (''intent_durable'' # KNOWN_OUTCOME_PHASES) \<Longrightarrow>
    journal_ok default_redactor (st_db (sample_journal p))"
  by (simp add: journal_ok_def unique_by_def)

definition sample_outcome :: "utf8 \<Rightarrow> outcome_request" where
  "sample_outcome phase = \<lparr>oq_key = \<lparr>ik_project_id = ''p1'', ik_actor_id = ''a1'',
     ik_request_id = ''r1''\<rparr>, oq_phase = phase, oq_payload = JNumber ''2''\<rparr>"

text \<open>
  C36. Recovery is all or nothing and repeatable: the journal is either untouched or has every
  intent without outcome, and nothing else, marked unknown with its payload retained; after a
  recovery that returned, a second one finds nothing and changes nothing.
\<close>

theorem recovery_atomic_and_repeatable:
  assumes "journal_ok (st_redactor st) (st_db st)"
    and "recover_unfinished_operations st = (out, st')"
  shows "operation_journal (st_db st') \<in> {operation_journal (st_db st),
      map (\<lambda>x. if jo_phase x \<in> set unresolved_phases then mark_unknown x else x)
        (operation_journal (st_db st))}
    \<and> (\<forall>ops. out = Inr ops \<longrightarrow>
        operation_journal (st_db st') =
          map (\<lambda>x. if jo_phase x \<in> set unresolved_phases then mark_unknown x else x)
            (operation_journal (st_db st))
        \<and> set ops = mark_unknown ` {x \<in> set (operation_journal (st_db st)).
            jo_phase x \<in> set unresolved_phases}
        \<and> recover_unfinished_operations (with_failpoint None st')
          = (Inr [], with_failpoint None st'))"
proof -
  let ?j = "operation_journal (st_db st)"
  let ?done = "update_where (\<lambda>x. jo_phase x \<in> set unresolved_phases) mark_unknown ?j"
  let ?d = "(st_db st)\<lparr>operation_journal := ?done\<rparr>"
  let ?ops = "map mark_unknown (order_journal (filter (\<lambda>x. jo_phase x \<in> set unresolved_phases) ?j))"
  have uq: "unique_by jo_key ?j" using assms(1) by (simp add: journal_ok_def)
  have run: "run_tx st (Inr (Commit ?d (\<lambda>_. Inr ?ops))) BeforeRecoveryCommit AfterRecoveryCommit
      = (out, st')"
    using assms(2) by (simp add: recover_unfinished_operations_def run_op_def recover_commit[OF uq])
  have cases: "st_db st' = st_db st \<or> st_db st' = ?d"
    using run_tx_db_cases[of st "Inr (Commit ?d (\<lambda>_. Inr ?ops))" BeforeRecoveryCommit
        AfterRecoveryCommit] run by auto
  have second: "recover_unfinished_operations (with_failpoint None st')
      = (Inr [], with_failpoint None st')" if db: "st_db st' = ?d"
  proof -
    have "\<forall>x \<in> set ?done. jo_phase x \<notin> set unresolved_phases"
      by (auto simp: update_where_def unresolved_phases_def)
    then have "\<forall>x \<in> set (operation_journal (st_db st')). jo_phase x \<notin> set unresolved_phases"
      unfolding db by simp
    from recover_idle[OF this] show ?thesis
      by (simp add: recover_unfinished_operations_def run_op_def run_tx_unarmed)
  qed
  have "st_db st' = ?d \<and> ops = ?ops" if "out = Inr ops" for ops
    using run_tx_commit_result[OF run] that by simp
  moreover have "set ?ops = mark_unknown ` {x \<in> set ?j. jo_phase x \<in> set unresolved_phases}"
    by (simp add: order_journal_def order_rows_def)
  ultimately show ?thesis
    using cases second by (auto simp: update_where_def)
qed

theorem recovery_atomic_and_repeatable_witness:
  "operation_journal (st_db (snd (recover_unfinished_operations (sample_journal ''intent_durable''))))
     = [sample_entry ''unknown'']"
proof -
  let ?st = "sample_journal ''intent_durable''"
  have ok: "journal_ok (st_redactor ?st) (st_db ?st)"
    using sample_journal_ok[of "''intent_durable''"] by simp
  obtain ops st' where run: "recover_unfinished_operations ?st = (Inr ops, st')"
    by (simp add: recover_unfinished_operations_def run_op_def
        recover_unfinished_operations_tx_def Let_def run_tx_unarmed)
  have "mark_unknown (sample_entry ''intent_durable'') = sample_entry ''unknown''"
    by (simp add: mark_unknown_def sample_entry_def)
  with recovery_atomic_and_repeatable[OF ok run] show ?thesis
    by (simp add: run unresolved_phases_def)
qed

text \<open>
  Intents and outcomes survive one injected fault: repeating the call after a run with any
  failpoint armed gives the answer and the database of an undisturbed run.
\<close>

lemma journal_retry_converges:
  assumes "journal_ok (st_redactor st) (st_db st)"
    and "st1 = snd (record_intent X (with_failpoint fp st) q)"
    and "st2 = snd (record_outcome X (with_failpoint fp st) p)"
  shows "(let again = record_intent X (with_failpoint None st1) q;
              clean = record_intent X (with_failpoint None st) q
          in fst again = fst clean \<and> st_db (snd again) = st_db (snd clean))
    \<and> (let again = record_outcome X (with_failpoint None st2) p;
           clean = record_outcome X (with_failpoint None st) p
       in fst again = fst clean \<and> st_db (snd again) = st_db (snd clean))"
  using record_intent.retry_converges[OF assms(1) assms(2)[unfolded record_intent_def]]
    record_outcome.retry_converges[OF assms(1) assms(3)[unfolded record_outcome_def]]
  unfolding record_intent_def record_outcome_def Let_def by (rule conjI)

lemma journal_retry_converges_witness:
  "let st = sample_journal ''intent_durable'';
       again = record_outcome sample_externals (with_failpoint None (snd (record_outcome
         sample_externals (with_failpoint (Some AfterOutcomeCommit) st) (sample_outcome ''failed''))))
         (sample_outcome ''failed'')
   in fst again = fst (record_outcome sample_externals (with_failpoint None st)
        (sample_outcome ''failed''))"
proof -
  have ok: "journal_ok (st_redactor (sample_journal ''intent_durable''))
      (st_db (sample_journal ''intent_durable''))"
    using sample_journal_ok[of "''intent_durable''"] by simp
  show ?thesis
    using journal_retry_converges[OF ok refl refl, where X = sample_externals
        and fp = "Some AfterOutcomeCommit" and p = "sample_outcome ''failed''"]
    by (simp add: Let_def)
qed

end
