(* ===== verification/Workspace_Store.thy ===== *)
theory Workspace_Store
  imports Store
begin

text \<open>
  Workspaces, their leases and environments in \<open>src/src/metadata.rs\<close>: registration, the
  fenced lease with its epoch, the update guarded by a lease and a revision, and environment
  facts with their fingerprint. Times are \<open>i64\<close> milliseconds supplied by the caller.
\<close>

section \<open>Checks\<close>

definition workspace_statuses :: "utf8 list" where
  "workspace_statuses = [''created'', ''preparing'', ''ready'', ''active'', ''paused'',
     ''reconciling'', ''archived'']"

definition validate_workspace_status :: "utf8 \<Rightarrow> unit res" where
  "validate_workspace_status status =
     (if status \<in> set workspace_statuses then Inr ()
      else Inl (InvalidInput ''workspace status is unsupported''))"

definition ready_statuses :: "utf8 list" where
  "ready_statuses = [''ready'', ''active'', ''paused'']"

definition validate_workspace_ready_state ::
  "utf8 \<Rightarrow> utf8 option \<Rightarrow> utf8 option \<Rightarrow> unit res" where
  "validate_workspace_ready_state status head environment_id =
     (if status \<in> set ready_statuses \<and> (head = None \<or> environment_id = None)
      then Inl (InvalidInput ''ready workspace requires a head and environment revision'')
      else Inr ())"

definition validate_workspace_record :: "workspace_record \<Rightarrow> unit res" where
  "validate_workspace_record w =
     try_then (validate_labelled [(ws_workspace_id w, ''workspace id''),
       (ws_project_id w, ''project id''), (ws_driver w, ''workspace driver''),
       (ws_locator w, ''workspace locator'')]) (\<lambda>_.
     try_then (validate_workspace_status (ws_status w)) (\<lambda>_.
     if ws_version_head_id w \<noteq> None
     then Inl (InvalidInput ''new workspace Version Head must be null'')
     else try_then (validate_workspace_ready_state (ws_status w) (ws_head w) (ws_environment_id w)) (\<lambda>_.
     if ws_revision w \<noteq> 0 then Inl (InvalidInput ''new workspace revision must be zero'')
     else validate_labelled [(ws_created_at w, ''workspace created_at''),
       (ws_updated_at w, ''workspace updated_at'')])))"

section \<open>Reads\<close>

definition workspace_by :: "redactor \<Rightarrow> db \<Rightarrow> utf8 \<Rightarrow> workspace_record option" where
  "workspace_by r d workspace_id = row_by ws_workspace_id (redact_text r workspace_id) (workspaces d)"

definition list_workspaces :: "redactor \<Rightarrow> db \<Rightarrow> utf8 \<Rightarrow> workspace_record list" where
  "list_workspaces r d project_id =
     order_rows (\<lambda>w. (ws_created_at w, ws_workspace_id w))
       (filter (\<lambda>w. ws_project_id w = redact_text r project_id) (workspaces d))"

definition workspace_lease :: "redactor \<Rightarrow> db \<Rightarrow> utf8 \<Rightarrow> lease_record option" where
  "workspace_lease r d workspace_id =
     row_by lr_workspace_id (redact_text r workspace_id) (workspace_leases d)"

definition environment_by :: "redactor \<Rightarrow> db \<Rightarrow> utf8 \<Rightarrow> environment_record option" where
  "environment_by r d environment_id =
     row_by er_environment_id (redact_text r environment_id) (environments d)"

definition environment_project :: "db \<Rightarrow> utf8 \<Rightarrow> utf8 option" where
  "environment_project d e = map_option er_project_id (row_by er_environment_id e (environments d))"

definition workspace_project :: "db \<Rightarrow> utf8 \<Rightarrow> utf8 option" where
  "workspace_project d w = map_option ws_project_id (row_by ws_workspace_id w (workspaces d))"

section \<open>Registration\<close>

definition redact_workspace :: "redactor \<Rightarrow> workspace_record \<Rightarrow> workspace_record" where
  "redact_workspace r w =
     \<lparr>ws_workspace_id = redact_text r (ws_workspace_id w),
      ws_project_id = redact_text r (ws_project_id w), ws_driver = redact_text r (ws_driver w),
      ws_locator = redact_text r (ws_locator w), ws_branch_ref = redact_opt r (ws_branch_ref w),
      ws_head = redact_opt r (ws_head w), ws_version_head_id = None,
      ws_environment_id = redact_opt r (ws_environment_id w), ws_status = redact_text r (ws_status w),
      ws_revision = 0, ws_created_at = redact_text r (ws_created_at w),
      ws_updated_at = redact_text r (ws_updated_at w)\<rparr>"

definition create_workspace_prep :: "redactor \<Rightarrow> workspace_record \<Rightarrow> workspace_record res" where
  "create_workspace_prep r w =
     try_then (validate_workspace_record w) (\<lambda>_. Inr (redact_workspace r w))"

definition create_workspace_tx ::
  "redactor \<Rightarrow> workspace_record \<Rightarrow> db \<Rightarrow> workspace_record tx_end res" where
  "create_workspace_tx r w d =
     (if (case ws_environment_id w of None \<Rightarrow> False
          | Some e \<Rightarrow> environment_project d e \<noteq> Some (ws_project_id w))
      then Inl (Conflict ''workspace environment is missing or belongs to another project'')
      else if row_by ws_workspace_id (ws_workspace_id w) (workspaces d) \<noteq> None
      then Inl (Conflict ''workspace identity already exists'')
      else Inr (Commit (d\<lparr>workspaces := workspaces d @ [w]\<rparr>)
        (\<lambda>d'. case workspace_by r d' (ws_workspace_id w) of
                None \<Rightarrow> Inl (Integrity ''workspace disappeared after creation'')
              | Some x \<Rightarrow> Inr x)))"

definition create_workspace ::
  "metadata_store \<Rightarrow> workspace_record \<Rightarrow> workspace_record res \<times> metadata_store" where
  "create_workspace = sqlite_op create_workspace_prep create_workspace_tx"

section \<open>Leases\<close>

record acquire_request =
  aq_workspace_id :: utf8
  aq_agent_id :: utf8
  aq_now_ms :: int
  aq_ttl_ms :: int

text \<open>The lease row that an accepted request asks for; its epoch is chosen in the transaction.\<close>

definition acquire_workspace_lease_prep :: "redactor \<Rightarrow> acquire_request \<Rightarrow> lease_record res" where
  "acquire_workspace_lease_prep r q =
     try_then (validate_non_empty (aq_workspace_id q) ''workspace id'') (\<lambda>_.
     try_then (validate_non_empty (aq_agent_id q) ''agent id'') (\<lambda>_.
     if aq_ttl_ms q \<le> 0 then Inl (InvalidInput ''lease ttl must be positive'')
     else (case checked_add (aq_now_ms q) (aq_ttl_ms q) of
        None \<Rightarrow> Inl (InvalidInput ''lease expiry overflow'')
      | Some expires \<Rightarrow> Inr
          \<lparr>lr_workspace_id = redact_text r (aq_workspace_id q),
           lr_agent_id = Some (redact_text r (aq_agent_id q)), lr_epoch = 0,
           lr_expires_at_ms = expires, lr_acquired_at_ms = aq_now_ms q\<rparr>)))"

definition lease_token_of :: "lease_record \<Rightarrow> lease_token" where
  "lease_token_of l = \<lparr>lt_workspace_id = lr_workspace_id l, lt_agent_id = the (lr_agent_id l),
     lt_epoch = lr_epoch l, lt_expires_at_ms = lr_expires_at_ms l\<rparr>"

definition next_epoch :: "lease_record option \<Rightarrow> int \<Rightarrow> int res" where
  "next_epoch current now_ms =
     (case current of
        None \<Rightarrow> Inr 1
      | Some lease \<Rightarrow>
          if lr_agent_id lease \<noteq> None \<and> lr_expires_at_ms lease > now_ms
          then Inl (Conflict ''workspace lease is held'')
          else (case checked_add (lr_epoch lease) 1 of
             None \<Rightarrow> Inl (Integrity ''workspace lease epoch overflow'')
           | Some e \<Rightarrow> Inr e))"

definition acquire_workspace_lease_tx ::
  "redactor \<Rightarrow> lease_record \<Rightarrow> db \<Rightarrow> lease_token tx_end res" where
  "acquire_workspace_lease_tx r want d =
     (if row_by ws_workspace_id (lr_workspace_id want) (workspaces d) = None
      then Inl (NotFound ''workspace does not exist'')
      else (case next_epoch (row_by lr_workspace_id (lr_workspace_id want) (workspace_leases d))
                   (lr_acquired_at_ms want) of
         Inl e \<Rightarrow> Inl e
       | Inr epoch \<Rightarrow>
           Inr (Commit (d\<lparr>workspace_leases := upsert lr_workspace_id (want\<lparr>lr_epoch := epoch\<rparr>)
                  (workspace_leases d)\<rparr>)
             (\<lambda>_. Inr (lease_token_of (want\<lparr>lr_epoch := epoch\<rparr>))))))"

definition acquire_workspace_lease ::
  "metadata_store \<Rightarrow> acquire_request \<Rightarrow> lease_token res \<times> metadata_store" where
  "acquire_workspace_lease = sqlite_op acquire_workspace_lease_prep acquire_workspace_lease_tx"

definition redact_token :: "redactor \<Rightarrow> lease_token \<Rightarrow> lease_token" where
  "redact_token r t = t\<lparr>lt_workspace_id := redact_text r (lt_workspace_id t),
     lt_agent_id := redact_text r (lt_agent_id t)\<rparr>"

text \<open>The \<open>WHERE\<close> of the statements a token guards, without and with the expiry check.\<close>

definition token_matches :: "lease_token \<Rightarrow> lease_record \<Rightarrow> bool" where
  "token_matches t l \<longleftrightarrow> lr_workspace_id l = lt_workspace_id t
     \<and> lr_agent_id l = Some (lt_agent_id t) \<and> lr_epoch l = lt_epoch t"

definition token_live :: "lease_token \<Rightarrow> int \<Rightarrow> lease_record \<Rightarrow> bool" where
  "token_live t now_ms l \<longleftrightarrow> token_matches t l \<and> lr_expires_at_ms l > now_ms"

record renew_request =
  nq_token :: lease_token
  nq_now_ms :: int
  nq_ttl_ms :: int

definition renew_workspace_lease_prep ::
  "redactor \<Rightarrow> renew_request \<Rightarrow> (lease_token \<times> int) res" where
  "renew_workspace_lease_prep r q =
     (if nq_ttl_ms q \<le> 0 then Inl (InvalidInput ''lease ttl must be positive'')
      else (case checked_add (nq_now_ms q) (nq_ttl_ms q) of
         None \<Rightarrow> Inl (InvalidInput ''lease expiry overflow'')
       | Some expires \<Rightarrow>
           Inr ((redact_token r (nq_token q))\<lparr>lt_expires_at_ms := expires\<rparr>, nq_now_ms q)))"

definition renew_workspace_lease_tx ::
  "redactor \<Rightarrow> lease_token \<times> int \<Rightarrow> db \<Rightarrow> lease_token tx_end res" where
  "renew_workspace_lease_tx r q d =
     (case q of (t, now_ms) \<Rightarrow>
        if count_rows (token_live t now_ms) (workspace_leases d) \<noteq> 1
        then Inl (Conflict ''workspace lease is stale or expired'')
        else Inr (Commit
          (d\<lparr>workspace_leases := update_where (token_live t now_ms)
               (\<lambda>l. l\<lparr>lr_expires_at_ms := lt_expires_at_ms t, lr_acquired_at_ms := now_ms\<rparr>)
               (workspace_leases d)\<rparr>)
          (\<lambda>_. Inr t)))"

definition renew_workspace_lease ::
  "metadata_store \<Rightarrow> renew_request \<Rightarrow> lease_token res \<times> metadata_store" where
  "renew_workspace_lease = sqlite_op renew_workspace_lease_prep renew_workspace_lease_tx"

definition release_workspace_lease_prep ::
  "redactor \<Rightarrow> lease_token \<times> int \<Rightarrow> (lease_token \<times> int) res" where
  "release_workspace_lease_prep r q = (case q of (t, now_ms) \<Rightarrow> Inr (redact_token r t, now_ms))"

definition release_workspace_lease_tx ::
  "redactor \<Rightarrow> lease_token \<times> int \<Rightarrow> db \<Rightarrow> unit tx_end res" where
  "release_workspace_lease_tx r q d =
     (case q of (t, now_ms) \<Rightarrow>
        if count_rows (token_matches t) (workspace_leases d) \<noteq> 1
        then Inl (Conflict ''workspace lease is stale'')
        else Inr (Commit
          (d\<lparr>workspace_leases := update_where (token_matches t)
               (\<lambda>l. l\<lparr>lr_agent_id := None, lr_expires_at_ms := 0, lr_acquired_at_ms := now_ms\<rparr>)
               (workspace_leases d)\<rparr>)
          (\<lambda>_. Inr ())))"

definition release_workspace_lease ::
  "metadata_store \<Rightarrow> lease_token \<times> int \<Rightarrow> unit res \<times> metadata_store" where
  "release_workspace_lease = sqlite_op release_workspace_lease_prep release_workspace_lease_tx"

section \<open>Updates\<close>

definition update_workspace_prep :: "redactor \<Rightarrow> workspace_update \<Rightarrow> workspace_update res" where
  "update_workspace_prep r u =
     try_then (validate_non_empty (wu_workspace_id u) ''workspace id'') (\<lambda>_.
     if wu_expected_revision u < 0
     then Inl (InvalidInput ''workspace revision must not be negative'')
     else try_then (validate_workspace_status (wu_status u)) (\<lambda>_.
     try_then (validate_workspace_ready_state (wu_status u) (wu_head u) (wu_environment_id u)) (\<lambda>_.
     let c = \<lparr>wu_workspace_id = redact_text r (wu_workspace_id u),
              wu_expected_revision = wu_expected_revision u, wu_lease = redact_token r (wu_lease u),
              wu_branch_ref = redact_opt r (wu_branch_ref u), wu_head = redact_opt r (wu_head u),
              wu_environment_id = redact_opt r (wu_environment_id u),
              wu_status = redact_text r (wu_status u), wu_updated_at = redact_text r (wu_updated_at u),
              wu_now_ms = wu_now_ms u\<rparr> in
     if lt_workspace_id (wu_lease c) \<noteq> wu_workspace_id c
     then Inl (Conflict ''lease belongs to another workspace'')
     else Inr c)))"

definition apply_workspace_update :: "workspace_update \<Rightarrow> workspace_record \<Rightarrow> workspace_record" where
  "apply_workspace_update u w = w\<lparr>ws_branch_ref := wu_branch_ref u, ws_head := wu_head u,
     ws_environment_id := wu_environment_id u, ws_status := wu_status u,
     ws_revision := ws_revision w + 1, ws_updated_at := wu_updated_at u\<rparr>"

definition at_revision :: "utf8 \<Rightarrow> int \<Rightarrow> workspace_record \<Rightarrow> bool" where
  "at_revision i n w \<longleftrightarrow> ws_workspace_id w = i \<and> ws_revision w = n"

definition lease_live :: "db \<Rightarrow> lease_token \<Rightarrow> int \<Rightarrow> bool" where
  "lease_live d t now_ms = list_ex (token_live t now_ms) (workspace_leases d)"

definition update_workspace_tx ::
  "redactor \<Rightarrow> workspace_update \<Rightarrow> db \<Rightarrow> workspace_record tx_end res" where
  "update_workspace_tx r u d =
     (if (case wu_environment_id u of None \<Rightarrow> False
          | Some e \<Rightarrow> environment_project d e = None
              \<or> environment_project d e \<noteq> workspace_project d (wu_workspace_id u))
      then Inl (Conflict ''workspace environment is missing or belongs to another project'')
      else if \<not> lease_live d (wu_lease u) (wu_now_ms u)
      then Inl (Conflict ''workspace lease is stale or expired'')
      else if count_rows (at_revision (wu_workspace_id u) (wu_expected_revision u)) (workspaces d) \<noteq> 1
      then Inl (Conflict ''workspace revision is stale'')
      else Inr (Commit
        (d\<lparr>workspaces := update_where (at_revision (wu_workspace_id u) (wu_expected_revision u))
             (apply_workspace_update u) (workspaces d)\<rparr>)
        (\<lambda>d'. case workspace_by r d' (wu_workspace_id u) of
                None \<Rightarrow> Inl (Integrity ''workspace disappeared after update'')
              | Some w \<Rightarrow> Inr w)))"

definition update_workspace ::
  "metadata_store \<Rightarrow> workspace_update \<Rightarrow> workspace_record res \<times> metadata_store" where
  "update_workspace = sqlite_op update_workspace_prep update_workspace_tx"

section \<open>Environments\<close>

record environment_request =
  eq_environment_id :: utf8
  eq_project_id :: utf8
  eq_facts :: json
  eq_created_at :: utf8

definition record_environment_prep ::
  "externals \<Rightarrow> redactor \<Rightarrow> environment_request \<Rightarrow> environment_record res" where
  "record_environment_prep X r q =
     try_then (validate_non_empty (eq_environment_id q) ''environment id'') (\<lambda>_.
     try_then (validate_non_empty (eq_project_id q) ''project id'') (\<lambda>_.
     try_then (canonical_bytes X (redact_value r (eq_facts q))) (\<lambda>facts_json. Inr
       \<lparr>er_environment_id = redact_text r (eq_environment_id q),
        er_project_id = redact_text r (eq_project_id q),
        er_fingerprint = ''sha256:'' @ digest_for X ''environment/v1'' facts_json,
        er_facts_json = facts_json, er_created_at = redact_text r (eq_created_at q)\<rparr>)))"

text \<open>An identical environment is answered from the stored row; that path commits no write and
  passes no failpoint.\<close>

definition record_environment_tx ::
  "redactor \<Rightarrow> environment_record \<Rightarrow> db \<Rightarrow> environment_record tx_end res" where
  "record_environment_tx r e d =
     (case row_by er_environment_id (er_environment_id e) (environments d) of
        Some existing \<Rightarrow>
          if er_project_id existing \<noteq> er_project_id e
            \<or> er_fingerprint existing \<noteq> er_fingerprint e
            \<or> er_facts_json existing \<noteq> er_facts_json e
          then Inl (Integrity ''environment identity was reused with different facts'')
          else (case environment_by r d (er_environment_id e) of
             None \<Rightarrow> Inl (Integrity ''environment disappeared during idempotent read'')
           | Some x \<Rightarrow> Inr (Finished x))
      | None \<Rightarrow>
          Inr (Commit (d\<lparr>environments := environments d @ [e]\<rparr>)
            (\<lambda>d'. case environment_by r d' (er_environment_id e) of
                    None \<Rightarrow> Inl (Integrity ''environment disappeared after creation'')
                  | Some x \<Rightarrow> Inr x)))"

definition record_environment ::
  "externals \<Rightarrow> metadata_store \<Rightarrow> environment_request \<Rightarrow> environment_record res \<times> metadata_store"
where
  "record_environment X = sqlite_op (record_environment_prep X) record_environment_tx"

section \<open>The invariant\<close>

text \<open>
  Keys are unique, revisions and epochs have their range, a ready workspace has a head and an
  environment, and the environment of a workspace exists and belongs to its project.
\<close>

definition workspace_ready_ok :: "workspace_record \<Rightarrow> bool" where
  "workspace_ready_ok w \<longleftrightarrow> 0 \<le> ws_revision w
     \<and> (ws_status w \<in> set ready_statuses \<longrightarrow> ws_head w \<noteq> None \<and> ws_environment_id w \<noteq> None)"

definition workspace_env_ok :: "environment_record list \<Rightarrow> workspace_record \<Rightarrow> bool" where
  "workspace_env_ok es w \<longleftrightarrow> (\<forall>e. ws_environment_id w = Some e \<longrightarrow>
     map_option er_project_id (row_by er_environment_id e es) = Some (ws_project_id w))"

definition leases_ok :: "db \<Rightarrow> bool" where
  "leases_ok d \<longleftrightarrow> unique_by lr_workspace_id (workspace_leases d)
     \<and> (\<forall>l \<in> set (workspace_leases d). 1 \<le> lr_epoch l
          \<and> row_by ws_workspace_id (lr_workspace_id l) (workspaces d) \<noteq> None)"

definition workspaces_ok :: "redactor \<Rightarrow> db \<Rightarrow> bool" where
  "workspaces_ok r d \<longleftrightarrow> safe_policy r \<and> unique_by ws_workspace_id (workspaces d)
     \<and> unique_by er_environment_id (environments d) \<and> leases_ok d
     \<and> (\<forall>w \<in> set (workspaces d). workspace_ready_ok w \<and> workspace_env_ok (environments d) w)"

lemma workspaces_ok_empty: "safe_policy r \<Longrightarrow> workspaces_ok r (empty_db r)"
  by (simp add: workspaces_ok_def leases_ok_def empty_db_def unique_by_def)

text \<open>A stored status that is a ready one was given as such: redaction only produces the marker.\<close>

lemma redact_ready_status:
  assumes "safe_policy r" "redact_text r s \<in> set ready_statuses"
  shows "s \<in> set ready_statuses"
proof -
  have "CHR ''['' \<notin> set (redact_text r s)"
    using assms(2) by (auto simp: ready_statuses_def)
  then show ?thesis using redact_text_unmarked[OF assms(1) refl] assms(2) by metis
qed

lemma redact_opt_None [simp]: "redact_opt r v = None \<longleftrightarrow> v = None"
  by (simp add: redact_opt_def)

lemma ready_state_kept:
  "safe_policy r \<Longrightarrow> validate_workspace_ready_state s h e = Inr () \<Longrightarrow>
    redact_text r s \<in> set ready_statuses \<Longrightarrow> redact_opt r h \<noteq> None \<and> redact_opt r e \<noteq> None"
  by (auto simp: validate_workspace_ready_state_def dest: redact_ready_status split: if_splits)

subsection \<open>Workspaces\<close>

lemma create_workspace_commit:
  "create_workspace_tx r w d = Inr (Commit d' k) \<Longrightarrow>
    (\<forall>e. ws_environment_id w = Some e \<longrightarrow> environment_project d e = Some (ws_project_id w))
    \<and> row_by ws_workspace_id (ws_workspace_id w) (workspaces d) = None
    \<and> d' = d\<lparr>workspaces := workspaces d @ [w]\<rparr>"
  by (auto simp: create_workspace_tx_def split: if_splits option.splits)

lemma update_workspace_commit:
  "update_workspace_tx r u d = Inr (Commit d' k) \<Longrightarrow>
    (\<forall>e. wu_environment_id u = Some e \<longrightarrow> environment_project d e \<noteq> None
        \<and> environment_project d e = workspace_project d (wu_workspace_id u))
    \<and> lease_live d (wu_lease u) (wu_now_ms u)
    \<and> count_rows (at_revision (wu_workspace_id u) (wu_expected_revision u)) (workspaces d) = 1
    \<and> d' = d\<lparr>workspaces := update_where (at_revision (wu_workspace_id u) (wu_expected_revision u))
             (apply_workspace_update u) (workspaces d)\<rparr>"
  by (auto simp: update_workspace_tx_def split: if_splits option.splits) metis

lemma leases_ok_more:
  "leases_ok d \<Longrightarrow> workspace_leases d' = workspace_leases d \<Longrightarrow>
    (\<And>i. row_by ws_workspace_id i (workspaces d) \<noteq> None \<Longrightarrow>
      row_by ws_workspace_id i (workspaces d') \<noteq> None) \<Longrightarrow> leases_ok d'"
  by (simp add: leases_ok_def)

lemma apply_update_simps [simp]:
  "ws_workspace_id (apply_workspace_update u w) = ws_workspace_id w"
  "ws_project_id (apply_workspace_update u w) = ws_project_id w"
  "ws_revision (apply_workspace_update u w) = ws_revision w + 1"
  "ws_status (apply_workspace_update u w) = wu_status u"
  "ws_head (apply_workspace_update u w) = wu_head u"
  "ws_environment_id (apply_workspace_update u w) = wu_environment_id u"
  by (simp_all add: apply_workspace_update_def)

lemma workspace_row_updated:
  "row_by ws_workspace_id i (update_where (at_revision j n) (apply_workspace_update u) ws) =
    map_option (\<lambda>w. if at_revision j n w then apply_workspace_update u w else w)
      (row_by ws_workspace_id i ws)"
  by (simp add: row_by_update option.case_eq_if map_option_case)

interpretation create_workspace: store_op BeforeSqliteCommit AfterSqliteCommit
  create_workspace_prep create_workspace_tx workspaces_ok
proof unfold_locales
  fix r d q c d' and k :: "db \<Rightarrow> workspace_record res"
  assume ok: "workspaces_ok r d" and prep: "create_workspace_prep r q = Inr c"
    and body: "create_workspace_tx r c d = Inr (Commit d' k)"
  note com = create_workspace_commit[OF body]
  then have d': "d' = d\<lparr>workspaces := workspaces d @ [c]\<rparr>" by simp
  from ok have safe: "safe_policy r" by (simp add: workspaces_ok_def)
  from prep have c: "c = redact_workspace r q"
    and ready: "validate_workspace_ready_state (ws_status q) (ws_head q) (ws_environment_id q) = Inr ()"
    by (simp_all add: create_workspace_prep_def validate_workspace_record_def split: if_splits)
  have "workspace_ready_ok c"
    using ready_state_kept[OF safe ready] by (simp add: c workspace_ready_ok_def redact_workspace_def)
  moreover have "workspace_env_ok (environments d) c"
    using com by (simp add: workspace_env_ok_def environment_project_def)
  moreover have "unique_by ws_workspace_id (workspaces d @ [c])"
    using ok com by (simp add: unique_by_insert workspaces_ok_def)
  moreover have "leases_ok d'"
    by (rule leases_ok_more[of d]) (use ok in \<open>auto simp: d' workspaces_ok_def row_by_append
      split: option.splits\<close>)
  ultimately show "workspaces_ok r d'"
    using ok by (simp add: workspaces_ok_def) (simp add: d')
qed

interpretation update_workspace: store_op BeforeSqliteCommit AfterSqliteCommit
  update_workspace_prep update_workspace_tx workspaces_ok
proof unfold_locales
  fix r d q c d' and k :: "db \<Rightarrow> workspace_record res"
  assume ok: "workspaces_ok r d" and prep: "update_workspace_prep r q = Inr c"
    and body: "update_workspace_tx r c d = Inr (Commit d' k)"
  note com = update_workspace_commit[OF body]
  let ?rows = "update_where (at_revision (wu_workspace_id c) (wu_expected_revision c))
             (apply_workspace_update c) (workspaces d)"
  from com have d': "d' = d\<lparr>workspaces := ?rows\<rparr>" by simp
  from ok have safe: "safe_policy r" and uq: "unique_by ws_workspace_id (workspaces d)"
    by (simp_all add: workspaces_ok_def)
  from prep have ready: "validate_workspace_ready_state (wu_status q) (wu_head q)
      (wu_environment_id q) = Inr ()"
    and c: "wu_status c = redact_text r (wu_status q)" "wu_head c = redact_opt r (wu_head q)"
      "wu_environment_id c = redact_opt r (wu_environment_id q)"
    by (auto simp: update_workspace_prep_def Let_def split: if_splits)
  have "\<forall>w \<in> set ?rows. workspace_ready_ok w \<and> workspace_env_ok (environments d) w"
  proof (rule update_where_all)
    show "\<forall>w \<in> set (workspaces d). workspace_ready_ok w \<and> workspace_env_ok (environments d) w"
      using ok by (simp add: workspaces_ok_def)
    show "workspace_ready_ok (apply_workspace_update c w)
        \<and> workspace_env_ok (environments d) (apply_workspace_update c w)"
      if w: "w \<in> set (workspaces d)" "at_revision (wu_workspace_id c) (wu_expected_revision c) w"
        "workspace_ready_ok w \<and> workspace_env_ok (environments d) w" for w
    proof
      show "workspace_ready_ok (apply_workspace_update c w)"
        using w(3) ready_state_kept[OF safe ready] by (simp add: workspace_ready_ok_def c)
      have "workspace_project d (wu_workspace_id c) = Some (ws_project_id w)"
        using row_by_unique[OF uq w(1)] w(2) by (simp add: workspace_project_def at_revision_def)
      then show "workspace_env_ok (environments d) (apply_workspace_update c w)"
        using com by (simp add: workspace_env_ok_def environment_project_def)
    qed
  qed
  moreover have "unique_by ws_workspace_id ?rows" using uq by (simp add: unique_by_update)
  moreover have "leases_ok d'"
    by (rule leases_ok_more[of d]) (use ok in \<open>simp_all add: d' workspaces_ok_def
      workspace_row_updated\<close>)
  ultimately show "workspaces_ok r d'"
    using ok by (simp add: workspaces_ok_def) (simp add: d')
qed

subsection \<open>Leases\<close>

lemma token_live_key: "token_live t n l \<Longrightarrow> lr_workspace_id l = lt_workspace_id t"
  by (simp add: token_live_def token_matches_def)

lemma token_matches_key: "token_matches t l \<Longrightarrow> lr_workspace_id l = lt_workspace_id t"
  by (simp add: token_matches_def)

lemma acquire_commit:
  "acquire_workspace_lease_tx r want d = Inr (Commit d' k) \<longleftrightarrow>
    row_by ws_workspace_id (lr_workspace_id want) (workspaces d) \<noteq> None
    \<and> (\<exists>e. next_epoch (row_by lr_workspace_id (lr_workspace_id want) (workspace_leases d))
          (lr_acquired_at_ms want) = Inr e
        \<and> d' = d\<lparr>workspace_leases := upsert lr_workspace_id (want\<lparr>lr_epoch := e\<rparr>)
            (workspace_leases d)\<rparr>
        \<and> k = (\<lambda>_. Inr (lease_token_of (want\<lparr>lr_epoch := e\<rparr>))))"
  by (auto simp: acquire_workspace_lease_tx_def split: sum.splits)

lemma renew_commit:
  "renew_workspace_lease_tx r (t, n) d = Inr (Commit d' k) \<longleftrightarrow>
    count_rows (token_live t n) (workspace_leases d) = 1
    \<and> d' = d\<lparr>workspace_leases := update_where (token_live t n)
        (\<lambda>l. l\<lparr>lr_expires_at_ms := lt_expires_at_ms t, lr_acquired_at_ms := n\<rparr>)
        (workspace_leases d)\<rparr>
    \<and> k = (\<lambda>_. Inr t)"
  by (auto simp: renew_workspace_lease_tx_def)

lemma release_commit:
  "release_workspace_lease_tx r (t, n) d = Inr (Commit d' k) \<longleftrightarrow>
    count_rows (token_matches t) (workspace_leases d) = 1
    \<and> d' = d\<lparr>workspace_leases := update_where (token_matches t)
        (\<lambda>l. l\<lparr>lr_agent_id := None, lr_expires_at_ms := 0, lr_acquired_at_ms := n\<rparr>)
        (workspace_leases d)\<rparr>
    \<and> k = (\<lambda>_. Inr ())"
  by (auto simp: release_workspace_lease_tx_def)

lemma leases_ok_update:
  assumes "leases_ok d" "\<And>l. lr_workspace_id (f l) = lr_workspace_id l"
    and "\<And>l. lr_epoch (f l) = lr_epoch l"
  shows "leases_ok (d\<lparr>workspace_leases := update_where p f (workspace_leases d)\<rparr>)"
proof -
  have "\<forall>l \<in> set (update_where p f (workspace_leases d)). 1 \<le> lr_epoch l
      \<and> row_by ws_workspace_id (lr_workspace_id l) (workspaces d) \<noteq> None"
    by (rule update_where_all) (use assms in \<open>simp_all add: leases_ok_def\<close>)
  with assms show ?thesis by (simp add: leases_ok_def unique_by_update)
qed

lemma workspaces_ok_leases:
  "workspaces_ok r d \<Longrightarrow> leases_ok (d\<lparr>workspace_leases := ls\<rparr>) \<Longrightarrow>
    workspaces_ok r (d\<lparr>workspace_leases := ls\<rparr>)"
  by (simp add: workspaces_ok_def)

lemma next_epoch_ok:
  "next_epoch cur n = Inr e \<Longrightarrow> (\<And>l. cur = Some l \<Longrightarrow> 1 \<le> lr_epoch l) \<Longrightarrow>
    1 \<le> e \<and> e = (case cur of None \<Rightarrow> 0 | Some l \<Rightarrow> lr_epoch l) + 1"
  by (auto simp: next_epoch_def checked_add_def split: option.splits if_splits)

lemma leases_ok_acquire:
  assumes "leases_ok d" "row_by ws_workspace_id (lr_workspace_id want) (workspaces d) \<noteq> None"
    and "next_epoch (row_by lr_workspace_id (lr_workspace_id want) (workspace_leases d)) n = Inr e"
  shows "leases_ok (d\<lparr>workspace_leases := upsert lr_workspace_id (want\<lparr>lr_epoch := e\<rparr>)
      (workspace_leases d)\<rparr>)"
proof -
  have "1 \<le> e"
    using next_epoch_ok[OF assms(3)] assms(1) by (auto simp: leases_ok_def dest: row_by_in)
  then have "\<forall>l \<in> set (upsert lr_workspace_id (want\<lparr>lr_epoch := e\<rparr>) (workspace_leases d)).
      1 \<le> lr_epoch l \<and> row_by ws_workspace_id (lr_workspace_id l) (workspaces d) \<noteq> None"
    using assms(1,2) by (auto simp: leases_ok_def dest!: upsert_in)
  with assms(1) show ?thesis by (simp add: leases_ok_def unique_by_upsert)
qed

interpretation acquire_lease: store_op BeforeSqliteCommit AfterSqliteCommit
  acquire_workspace_lease_prep acquire_workspace_lease_tx workspaces_ok
proof unfold_locales
  fix r d q c d' and k :: "db \<Rightarrow> lease_token res"
  assume ok: "workspaces_ok r d" and body: "acquire_workspace_lease_tx r c d = Inr (Commit d' k)"
  from body[unfolded acquire_commit] obtain e where
    e: "next_epoch (row_by lr_workspace_id (lr_workspace_id c) (workspace_leases d))
          (lr_acquired_at_ms c) = Inr e"
    and d': "d' = d\<lparr>workspace_leases := upsert lr_workspace_id (c\<lparr>lr_epoch := e\<rparr>)
            (workspace_leases d)\<rparr>"
    and w: "row_by ws_workspace_id (lr_workspace_id c) (workspaces d) \<noteq> None"
    by (elim conjE exE)
  from ok have "leases_ok d" by (simp add: workspaces_ok_def)
  from workspaces_ok_leases[OF ok leases_ok_acquire[OF this w e]] show "workspaces_ok r d'"
    by (simp only: d')
qed

interpretation renew_lease: store_op BeforeSqliteCommit AfterSqliteCommit
  renew_workspace_lease_prep renew_workspace_lease_tx workspaces_ok
proof unfold_locales
  fix r d q c d' and k :: "db \<Rightarrow> lease_token res"
  assume ok: "workspaces_ok r d" and body: "renew_workspace_lease_tx r c d = Inr (Commit d' k)"
  obtain t n where c: "c = (t, n)" by (cases c)
  from body[unfolded c renew_commit] have d': "d' = d\<lparr>workspace_leases := update_where (token_live t n)
      (\<lambda>l. l\<lparr>lr_expires_at_ms := lt_expires_at_ms t, lr_acquired_at_ms := n\<rparr>) (workspace_leases d)\<rparr>"
    by (elim conjE)
  from ok have "leases_ok d" by (simp add: workspaces_ok_def)
  from workspaces_ok_leases[OF ok leases_ok_update[OF this]] show "workspaces_ok r d'"
    by (simp add: d')
qed

interpretation release_lease: store_op BeforeSqliteCommit AfterSqliteCommit
  release_workspace_lease_prep release_workspace_lease_tx workspaces_ok
proof unfold_locales
  fix r d q c d' and k :: "db \<Rightarrow> unit res"
  assume ok: "workspaces_ok r d" and body: "release_workspace_lease_tx r c d = Inr (Commit d' k)"
  obtain t n where c: "c = (t, n)" by (cases c)
  from body[unfolded c release_commit] have d': "d' = d\<lparr>workspace_leases := update_where (token_matches t)
      (\<lambda>l. l\<lparr>lr_agent_id := None, lr_expires_at_ms := 0, lr_acquired_at_ms := n\<rparr>) (workspace_leases d)\<rparr>"
    by (elim conjE)
  from ok have "leases_ok d" by (simp add: workspaces_ok_def)
  from workspaces_ok_leases[OF ok leases_ok_update[OF this]] show "workspaces_ok r d'"
    by (simp add: d')
qed

subsection \<open>Environments\<close>

lemma record_environment_commit:
  "record_environment_tx r e d = Inr (Commit d' k) \<longleftrightarrow>
    row_by er_environment_id (er_environment_id e) (environments d) = None
    \<and> d' = d\<lparr>environments := environments d @ [e]\<rparr>
    \<and> k = (\<lambda>d'. case environment_by r d' (er_environment_id e) of
              None \<Rightarrow> Inl (Integrity ''environment disappeared after creation'') | Some x \<Rightarrow> Inr x)"
  by (auto simp: record_environment_tx_def split: option.split if_split)

lemma record_environment_prep_id:
  "safe_policy r \<Longrightarrow> record_environment_prep X r q = Inr e \<Longrightarrow>
    redact_text r (er_environment_id e) = er_environment_id e"
  by (auto simp: record_environment_prep_def canonical_bytes_def redact_idem)

interpretation record_environment: idempotent_op BeforeSqliteCommit AfterSqliteCommit
  "record_environment_prep X" record_environment_tx workspaces_ok for X
proof unfold_locales
  fix r d q e d' and k :: "db \<Rightarrow> environment_record res"
  assume ok: "workspaces_ok r d" and prep: "record_environment_prep X r q = Inr e"
    and body: "record_environment_tx r e d = Inr (Commit d' k)"
  note com = body[unfolded record_environment_commit]
  then have d': "d' = d\<lparr>environments := environments d @ [e]\<rparr>" by (elim conjE)
  have new: "row_by er_environment_id (er_environment_id e) (environments d) = None"
    using com by (elim conjE)
  have "workspace_env_ok (environments d @ [e]) w" if "workspace_env_ok (environments d) w" for w
    using that by (fastforce simp: workspace_env_ok_def row_by_append)
  moreover have "unique_by er_environment_id (environments d @ [e])"
    using ok new by (simp add: workspaces_ok_def unique_by_insert)
  ultimately show "workspaces_ok r d'"
    using ok by (simp add: workspaces_ok_def leases_ok_def d')
  have id: "redact_text r (er_environment_id e) = er_environment_id e"
    using record_environment_prep_id[OF _ prep] ok by (simp add: workspaces_ok_def)
  have row: "row_by er_environment_id (er_environment_id e) (environments d') = Some e"
    using new by (simp add: d' row_by_append)
  have k: "k d' = Inr e"
    using com row by (simp add: environment_by_def id)
  have "record_environment_tx r e d' = Inr (Finished e)"
    by (simp add: record_environment_tx_def row environment_by_def id)
  with k show "\<exists>x. k d' = Inr x \<and> settled (record_environment_tx r e d') d' x"
    by (simp add: settled_def)
qed

section \<open>Any sequence of calls\<close>

text \<open>Any workspace, lease or environment call, with any failpoint armed before it.\<close>

inductive workspace_step :: "externals \<Rightarrow> metadata_store \<Rightarrow> metadata_store \<Rightarrow> bool" for X where
  create: "workspace_step X st (snd (create_workspace (with_failpoint fp st) w))"
| update: "workspace_step X st (snd (update_workspace (with_failpoint fp st) u))"
| acquire: "workspace_step X st (snd (acquire_workspace_lease (with_failpoint fp st) a))"
| renew: "workspace_step X st (snd (renew_workspace_lease (with_failpoint fp st) n))"
| release: "workspace_step X st (snd (release_workspace_lease (with_failpoint fp st) t))"
| environment: "workspace_step X st (snd (record_environment X (with_failpoint fp st) e))"

lemma workspace_step_ok:
  assumes "workspace_step X st st'" "workspaces_ok (st_redactor st) (st_db st)"
  shows "st_redactor st' = st_redactor st \<and> workspaces_ok (st_redactor st) (st_db st')"
  using assms
proof (cases rule: workspace_step.cases)
  case (create fp w)
  then show ?thesis
    using create_workspace.op_keeps[of "with_failpoint fp st" w] assms(2)
    by (simp add: create_workspace_def)
next
  case (update fp u)
  then show ?thesis
    using update_workspace.op_keeps[of "with_failpoint fp st" u] assms(2)
    by (simp add: update_workspace_def)
next
  case (acquire fp a)
  then show ?thesis
    using acquire_lease.op_keeps[of "with_failpoint fp st" a] assms(2)
    by (simp add: acquire_workspace_lease_def)
next
  case (renew fp n)
  then show ?thesis
    using renew_lease.op_keeps[of "with_failpoint fp st" n] assms(2)
    by (simp add: renew_workspace_lease_def)
next
  case (release fp t)
  then show ?thesis
    using release_lease.op_keeps[of "with_failpoint fp st" t] assms(2)
    by (simp add: release_workspace_lease_def)
next
  case (environment fp e)
  then show ?thesis
    using record_environment.op_keeps[of "with_failpoint fp st" X e] assms(2)
    by (simp add: record_environment_def)
qed

lemma workspace_steps_ok:
  "(workspace_step X)\<^sup>*\<^sup>* st st' \<Longrightarrow> workspaces_ok (st_redactor st) (st_db st) \<Longrightarrow>
    st_redactor st' = st_redactor st \<and> workspaces_ok (st_redactor st) (st_db st')"
proof (induction rule: rtranclp_induct)
  case (step y z)
  then show ?case using workspace_step_ok[OF step.hyps(2)] by simp
qed simp

section \<open>Epochs fence stale leases\<close>

definition lease_epoch :: "utf8 \<Rightarrow> db \<Rightarrow> int" where
  "lease_epoch w d = (case row_by lr_workspace_id w (workspace_leases d) of
     None \<Rightarrow> 0 | Some l \<Rightarrow> lr_epoch l)"

lemma lease_epoch_same:
  "workspace_leases d' = workspace_leases d \<Longrightarrow> lease_epoch w d' = lease_epoch w d"
  by (simp add: lease_epoch_def)

lemma lease_epoch_update:
  assumes "\<And>l. lr_workspace_id (f l) = lr_workspace_id l" "\<And>l. lr_epoch (f l) = lr_epoch l"
  shows "lease_epoch w (d\<lparr>workspace_leases := update_where p f (workspace_leases d)\<rparr>)
    = lease_epoch w d"
  using assms by (simp add: lease_epoch_def row_by_update split: option.split)

lemma acquire_epoch:
  assumes "workspaces_ok r d" "acquire_workspace_lease_tx r want d = Inr (Commit d' k)"
  shows "lease_epoch w d' = (if w = lr_workspace_id want then lease_epoch w d + 1 else lease_epoch w d)"
    and "\<exists>t. k d' = Inr t \<and> lt_workspace_id t = lr_workspace_id want
      \<and> lt_epoch t = lease_epoch (lr_workspace_id want) d'"
proof -
  from assms(2)[unfolded acquire_commit] obtain e where
    e: "next_epoch (row_by lr_workspace_id (lr_workspace_id want) (workspace_leases d))
          (lr_acquired_at_ms want) = Inr e"
    and d': "d' = d\<lparr>workspace_leases := upsert lr_workspace_id (want\<lparr>lr_epoch := e\<rparr>)
            (workspace_leases d)\<rparr>"
    and k: "k = (\<lambda>_. Inr (lease_token_of (want\<lparr>lr_epoch := e\<rparr>)))"
    by (elim conjE exE)
  from assms(1) have "e = lease_epoch (lr_workspace_id want) d + 1"
    using next_epoch_ok[OF e] by (auto simp: lease_epoch_def workspaces_ok_def leases_ok_def dest: row_by_in)
  then show "lease_epoch w d' = (if w = lr_workspace_id want then lease_epoch w d + 1 else lease_epoch w d)"
    by (simp add: d' lease_epoch_def row_by_upsert)
  show "\<exists>t. k d' = Inr t \<and> lt_workspace_id t = lr_workspace_id want
      \<and> lt_epoch t = lease_epoch (lr_workspace_id want) d'"
    by (simp add: k d' lease_token_of_def lease_epoch_def row_by_upsert)
qed

text \<open>A sound step: one from a store in which the invariant holds.\<close>

definition sound_step :: "externals \<Rightarrow> metadata_store \<Rightarrow> metadata_store \<Rightarrow> bool" where
  "sound_step X st st' \<longleftrightarrow> workspaces_ok (st_redactor st) (st_db st) \<and> workspace_step X st st'"

lemma sound_steps:
  "(workspace_step X)\<^sup>*\<^sup>* st st' \<Longrightarrow> workspaces_ok (st_redactor st) (st_db st) \<Longrightarrow>
    (sound_step X)\<^sup>*\<^sup>* st st'"
proof (induction rule: rtranclp_induct)
  case (step y z)
  from workspace_steps_ok[OF step.hyps(1) step.prems] have
    "workspaces_ok (st_redactor y) (st_db y)" by simp
  with step show ?case
    by (simp add: sound_step_def rtranclp.rtrancl_into_rtrancl[where b = y])
qed simp

lemma epoch_step:
  assumes "sound_step X st st'"
  shows "lease_epoch w (st_db st) \<le> lease_epoch w (st_db st')"
proof -
  have ok: "workspaces_ok (st_redactor st) (st_db st)" and step: "workspace_step X st st'"
    using assms by (simp_all add: sound_step_def)
  let ?I = "\<lambda>d. lease_epoch w (st_db st) \<le> lease_epoch w d"
  from step show ?thesis
  proof (cases rule: workspace_step.cases)
    case (create fp q)
    have "?I (st_db (snd (create_workspace (with_failpoint fp st) q)))"
      unfolding create_workspace_def
    proof (rule run_op_keeps[where I = ?I])
      fix c d k
      assume "create_workspace_tx (st_redactor (with_failpoint fp st)) c
          (st_db (with_failpoint fp st)) = Inr (Commit d k)"
      from create_workspace_commit[OF this] show "?I d" by (simp add: lease_epoch_def)
    qed simp
    with create show ?thesis by simp
  next
    case (update fp q)
    have "?I (st_db (snd (update_workspace (with_failpoint fp st) q)))"
      unfolding update_workspace_def
    proof (rule run_op_keeps[where I = ?I])
      fix c d k
      assume "update_workspace_tx (st_redactor (with_failpoint fp st)) c
          (st_db (with_failpoint fp st)) = Inr (Commit d k)"
      from update_workspace_commit[OF this] show "?I d" by (simp add: lease_epoch_def)
    qed simp
    with update show ?thesis by simp
  next
    case (acquire fp q)
    have "?I (st_db (snd (acquire_workspace_lease (with_failpoint fp st) q)))"
      unfolding acquire_workspace_lease_def
    proof (rule run_op_keeps[where I = ?I])
      fix c d k
      assume "acquire_workspace_lease_tx (st_redactor (with_failpoint fp st)) c
          (st_db (with_failpoint fp st)) = Inr (Commit d k)"
      from acquire_epoch(1)[OF _ this, of w] ok show "?I d" by simp
    qed simp
    with acquire show ?thesis by simp
  next
    case (renew fp q)
    have "?I (st_db (snd (renew_workspace_lease (with_failpoint fp st) q)))"
      unfolding renew_workspace_lease_def
    proof (rule run_op_keeps[where I = ?I])
      fix d k and c :: "lease_token \<times> int"
      obtain t n where c: "c = (t, n)" by (cases c)
      assume "renew_workspace_lease_tx (st_redactor (with_failpoint fp st)) c
          (st_db (with_failpoint fp st)) = Inr (Commit d k)"
      from this[unfolded c renew_commit] show "?I d" by (simp add: lease_epoch_update)
    qed simp
    with renew show ?thesis by simp
  next
    case (release fp q)
    have "?I (st_db (snd (release_workspace_lease (with_failpoint fp st) q)))"
      unfolding release_workspace_lease_def
    proof (rule run_op_keeps[where I = ?I])
      fix d k and c :: "lease_token \<times> int"
      obtain t n where c: "c = (t, n)" by (cases c)
      assume "release_workspace_lease_tx (st_redactor (with_failpoint fp st)) c
          (st_db (with_failpoint fp st)) = Inr (Commit d k)"
      from this[unfolded c release_commit] show "?I d" by (simp add: lease_epoch_update)
    qed simp
    with release show ?thesis by simp
  next
    case (environment fp q)
    have "?I (st_db (snd (record_environment X (with_failpoint fp st) q)))"
      unfolding record_environment_def
    proof (rule run_op_keeps[where I = ?I])
      fix c d k
      assume "record_environment_tx (st_redactor (with_failpoint fp st)) c
          (st_db (with_failpoint fp st)) = Inr (Commit d k)"
      from this[unfolded record_environment_commit] show "?I d" by (simp add: lease_epoch_def)
    qed simp
    with environment show ?thesis by simp
  qed
qed

definition token_known :: "db \<Rightarrow> lease_token \<Rightarrow> bool" where
  "token_known d t \<longleftrightarrow> (\<exists>l. row_by lr_workspace_id (lt_workspace_id t) (workspace_leases d) = Some l
     \<and> token_matches t l)"

interpretation lease_fence: fencing "sound_step X" "\<lambda>st. lease_epoch w (st_db st)" lt_epoch
  "\<lambda>st t. lt_workspace_id t = w \<and> token_known (st_db st) t" for X w
proof unfold_locales
  fix s s' assume "sound_step X s s'"
  then show "lease_epoch w (st_db s) \<le> lease_epoch w (st_db s')" by (rule epoch_step)
next
  fix s and t :: lease_token
  assume "lt_workspace_id t = w \<and> token_known (st_db s) t"
  then show "lt_epoch t = lease_epoch w (st_db s)"
    by (auto simp: token_known_def token_matches_def lease_epoch_def)
qed

lemma count_matches:
  assumes "workspaces_ok r d" "\<not> token_known d t"
  shows "count_rows (token_matches t) (workspace_leases d) = 0"
    "count_rows (token_live t n) (workspace_leases d) = 0" "\<not> lease_live d t n"
proof -
  have uq: "unique_by lr_workspace_id (workspace_leases d)"
    using assms(1) by (simp add: workspaces_ok_def leases_ok_def)
  have none: "\<not> token_matches t l" if "l \<in> set (workspace_leases d)" for l
  proof
    assume m: "token_matches t l"
    from row_by_unique[OF uq that] m have "token_known d t"
      by (simp add: token_known_def token_matches_def)
    with assms(2) show False by simp
  qed
  then show "count_rows (token_matches t) (workspace_leases d) = 0"
    "count_rows (token_live t n) (workspace_leases d) = 0"
    by (simp_all add: count_rows_def filter_empty_conv token_live_def)
  show "\<not> lease_live d t n" using none by (auto simp: lease_live_def list_ex_iff token_live_def)
qed

lemma acquire_ran:
  assumes "acquire_workspace_lease st q = (Inr t, st')"
  obtains want where "acquire_workspace_lease_prep (st_redactor st) q = Inr want"
    and "\<exists>k. acquire_workspace_lease_tx (st_redactor st) want (st_db st)
        = Inr (Commit (st_db st') k) \<and> k (st_db st') = Inr t"
proof -
  have "acquire_workspace_lease_tx r c d \<noteq> Inr (Finished x)" for r c d x
    by (simp add: acquire_workspace_lease_tx_def split: sum.split)
  with run_op_success[OF assms[unfolded acquire_workspace_lease_def]] that show ?thesis by meson
qed

text \<open>What a successful acquisition returns.\<close>

lemma acquire_result:
  assumes "acquire_workspace_lease st q = (Inr t, st')" "workspaces_ok (st_redactor st) (st_db st)"
  shows "lt_epoch t = lease_epoch (lt_workspace_id t) (st_db st')
    \<and> lease_epoch (lt_workspace_id t) (st_db st') = lease_epoch (lt_workspace_id t) (st_db st) + 1
    \<and> redact_text (st_redactor st) (lt_workspace_id t) = lt_workspace_id t
    \<and> redact_text (st_redactor st) (lt_agent_id t) = lt_agent_id t"
proof -
  let ?r = "st_redactor st"
  have safe: "safe_policy ?r" using assms(2) by (simp add: workspaces_ok_def)
  obtain want where want: "acquire_workspace_lease_prep ?r q = Inr want"
    and body: "\<exists>k. acquire_workspace_lease_tx ?r want (st_db st) = Inr (Commit (st_db st') k)
      \<and> k (st_db st') = Inr t"
    by (rule acquire_ran[OF assms(1)])
  from body obtain k where b: "acquire_workspace_lease_tx ?r want (st_db st) = Inr (Commit (st_db st') k)"
    "k (st_db st') = Inr t" by (elim exE conjE)
  have ep: "lt_workspace_id t = lr_workspace_id want" "lt_epoch t = lease_epoch (lr_workspace_id want) (st_db st')"
    using acquire_epoch(2)[OF assms(2) b(1)] b(2) by simp_all
  from b(1)[unfolded acquire_commit] b(2) obtain e where "lease_token_of (want\<lparr>lr_epoch := e\<rparr>) = t"
    by (elim exE conjE) simp
  with want have "redact_text ?r (lt_workspace_id t) = lt_workspace_id t"
    "redact_text ?r (lt_agent_id t) = lt_agent_id t"
    by (auto simp: acquire_workspace_lease_prep_def lease_token_of_def redact_idem[OF safe]
        split: if_splits option.splits)
  with ep acquire_epoch(1)[OF assms(2) b(1), of "lr_workspace_id want"] show ?thesis by simp
qed

lemma update_ran:
  assumes "update_workspace st u = (Inr w, st')"
  obtains c where "update_workspace_prep (st_redactor st) u = Inr c"
    and "\<exists>k. update_workspace_tx (st_redactor st) c (st_db st) = Inr (Commit (st_db st') k)
      \<and> k (st_db st') = Inr w"
proof -
  have "update_workspace_tx r c d \<noteq> Inr (Finished x)" for r c d x
    by (simp add: update_workspace_tx_def)
  with run_op_success[OF assms[unfolded update_workspace_def]] that show ?thesis by meson
qed

lemma update_read_back:
  "update_workspace_tx r u d = Inr (Commit d' k) \<Longrightarrow>
    k = (\<lambda>d'. case workspace_by r d' (wu_workspace_id u) of
           None \<Rightarrow> Inl (Integrity ''workspace disappeared after update'') | Some w \<Rightarrow> Inr w)"
  by (simp add: update_workspace_tx_def split: if_splits)

text \<open>Without its lease, or at another revision, an update fails and changes nothing.\<close>

lemma update_needs_lease:
  assumes "\<And>n. \<not> lease_live (st_db st) (redact_token (st_redactor st) (wu_lease u)) n"
  shows "snd (update_workspace st u) = st \<and> \<not> is_ok (fst (update_workspace st u))"
proof (cases "update_workspace_prep (st_redactor st) u")
  case (Inr c)
  then have "wu_lease c = redact_token (st_redactor st) (wu_lease u)"
    by (auto simp: update_workspace_prep_def Let_def split: if_splits)
  with assms have "\<exists>e. update_workspace_tx (st_redactor st) c (st_db st) = Inl e"
    by (simp add: update_workspace_tx_def)
  with Inr show ?thesis by (auto simp: update_workspace_def run_op_def)
qed (simp add: update_workspace_def run_op_def)

lemma update_needs_revision:
  assumes "count_rows (at_revision (redact_text (st_redactor st) (wu_workspace_id u))
      (wu_expected_revision u)) (workspaces (st_db st)) \<noteq> 1"
  shows "snd (update_workspace st u) = st \<and> \<not> is_ok (fst (update_workspace st u))"
proof (cases "update_workspace_prep (st_redactor st) u")
  case (Inr c)
  then have "wu_workspace_id c = redact_text (st_redactor st) (wu_workspace_id u)"
    "wu_expected_revision c = wu_expected_revision u"
    by (auto simp: update_workspace_prep_def Let_def split: if_splits)
  with assms have "\<exists>e. update_workspace_tx (st_redactor st) c (st_db st) = Inl e"
    by (simp add: update_workspace_tx_def)
  with Inr show ?thesis by (auto simp: update_workspace_def run_op_def)
qed (simp add: update_workspace_def run_op_def)

lemma lease_live_row:
  "unique_by lr_workspace_id (workspace_leases d) \<Longrightarrow> lease_live d t n \<longleftrightarrow>
    (\<exists>l. row_by lr_workspace_id (lt_workspace_id t) (workspace_leases d) = Some l \<and> token_live t n l)"
  unfolding lease_live_def list_ex_iff
  using row_by_unique token_live_key row_by_in by metis

section \<open>Properties\<close>

text \<open>
  C11. Fencing: once a workspace lease has been acquired again, the earlier token is dead for
  ever. Whatever calls and faults come in between or after, a renewal, a release or a workspace
  update under the old token fails and leaves the store as it was.
\<close>

theorem stale_lease_is_fenced:
  assumes "workspaces_ok (st_redactor st) (st_db st)"
    and "acquire_workspace_lease st q = (Inr t, st1)" "(workspace_step X)\<^sup>*\<^sup>* st1 st2"
    and "acquire_workspace_lease st2 q' = (Inr t', st3)" "(workspace_step X)\<^sup>*\<^sup>* st3 st4"
    and "lt_workspace_id t' = lt_workspace_id t"
  shows "lt_epoch t < lt_epoch t'
    \<and> (\<forall>n. release_workspace_lease st4 (t, n) = (Inl (Conflict ''workspace lease is stale''), st4))
    \<and> (\<forall>n. nq_token n = t \<longrightarrow> snd (renew_workspace_lease st4 n) = st4
          \<and> \<not> is_ok (fst (renew_workspace_lease st4 n)))
    \<and> (\<forall>u. wu_lease u = t \<longrightarrow> snd (update_workspace st4 u) = st4
          \<and> \<not> is_ok (fst (update_workspace st4 u)))"
proof -
  let ?r = "st_redactor st" and ?w = "lt_workspace_id t"
  have ok1: "workspaces_ok ?r (st_db st1)" and r1: "st_redactor st1 = ?r"
    using acquire_lease.op_keeps[OF assms(1), of q] assms(2)
      run_op_same_redactor[OF assms(2)[unfolded acquire_workspace_lease_def]]
    by (simp_all add: acquire_workspace_lease_def)
  have ok2: "workspaces_ok ?r (st_db st2)" and r2: "st_redactor st2 = ?r"
    using workspace_steps_ok[OF assms(3)] ok1 r1 by simp_all
  have ok3: "workspaces_ok ?r (st_db st3)" and r3: "st_redactor st3 = ?r"
    using acquire_lease.op_keeps[of st2 q'] ok2 r2 assms(4)
      run_op_same_redactor[OF assms(4)[unfolded acquire_workspace_lease_def]]
    by (simp_all add: acquire_workspace_lease_def)
  have ok4: "workspaces_ok ?r (st_db st4)" and r4: "st_redactor st4 = ?r"
    using workspace_steps_ok[OF assms(5)] ok3 r3 by simp_all
  have safe: "safe_policy ?r" using assms(1) by (simp add: workspaces_ok_def)
  note a1 = acquire_result[OF assms(2,1)]
  have ok2': "workspaces_ok (st_redactor st2) (st_db st2)" using ok2 r2 by simp
  note a2 = acquire_result[OF assms(4) ok2']
  have "lease_epoch ?w (st_db st1) \<le> lease_epoch ?w (st_db st2)"
    using lease_fence.epoch_steps[OF sound_steps[OF assms(3)]] ok1 r1 by simp
  with a1 a2 assms(6) have less: "lt_epoch t < lt_epoch t'" "lt_epoch t < lease_epoch ?w (st_db st3)"
    by simp_all
  have dead: "\<not> token_known (st_db st4) t"
    using lease_fence.old_token_dead[OF sound_steps[OF assms(5)] less(2)] ok3 r3 by simp
  have red: "redact_token ?r t = t" using a1 by (simp add: redact_token_def)
  have known: "token_known (st_db st4) (t\<lparr>lt_expires_at_ms := x\<rparr>) = token_known (st_db st4) t" for x
    by (simp add: token_known_def token_matches_def)
  note no = count_matches[OF ok4 dead]
  have "release_workspace_lease st4 (t, n) = (Inl (Conflict ''workspace lease is stale''), st4)" for n
    by (simp add: release_workspace_lease_def run_op_def release_workspace_lease_prep_def r4 red
        release_workspace_lease_tx_def no)
  moreover have "snd (renew_workspace_lease st4 n) = st4 \<and> \<not> is_ok (fst (renew_workspace_lease st4 n))"
    if "nq_token n = t" for n
    using that count_matches(2)[OF ok4, of "t\<lparr>lt_expires_at_ms := x\<rparr>" for x] dead
    by (simp add: renew_workspace_lease_def run_op_def renew_workspace_lease_prep_def r4 red
        renew_workspace_lease_tx_def known split: option.split)
  moreover have "snd (update_workspace st4 u) = st4 \<and> \<not> is_ok (fst (update_workspace st4 u))"
    if "wu_lease u = t" for u
    by (rule update_needs_lease) (simp add: that r4 red no)
  ultimately show ?thesis using less(1) by simp
qed

definition sample_workspace :: workspace_record where
  "sample_workspace = \<lparr>ws_workspace_id = ''w1'', ws_project_id = ''p1'', ws_driver = ''local'',
     ws_locator = ''loc'', ws_branch_ref = None, ws_head = None, ws_version_head_id = None,
     ws_environment_id = None, ws_status = ''created'', ws_revision = 0, ws_created_at = ''d1'',
     ws_updated_at = ''d1''\<rparr>"

definition sample_lease :: "utf8 \<Rightarrow> int \<Rightarrow> int \<Rightarrow> lease_record" where
  "sample_lease a n now_ms = \<lparr>lr_workspace_id = ''w1'', lr_agent_id = Some a, lr_epoch = n,
     lr_expires_at_ms = now_ms + 10, lr_acquired_at_ms = now_ms\<rparr>"

definition sample_leased :: "lease_record list \<Rightarrow> metadata_store" where
  "sample_leased ls = (open_store default_redactor)\<lparr>st_db := (empty_db default_redactor)
     \<lparr>workspaces := [sample_workspace], workspace_leases := ls\<rparr>\<rparr>"

definition sample_acquire :: "utf8 \<Rightarrow> int \<Rightarrow> acquire_request" where
  "sample_acquire a now_ms = \<lparr>aq_workspace_id = ''w1'', aq_agent_id = a, aq_now_ms = now_ms,
     aq_ttl_ms = 10\<rparr>"

lemma sample_leased_simps [simp]:
  "workspaces (st_db (sample_leased ls)) = [sample_workspace]"
  "workspace_leases (st_db (sample_leased ls)) = ls"
  "environments (st_db (sample_leased ls)) = []"
  "st_redactor (sample_leased ls) = default_redactor" "st_failpoints (sample_leased ls) = None"
  by (simp_all add: sample_leased_def empty_db_def)

lemma sample_lease_simps [simp]:
  "lr_workspace_id (sample_lease a n t) = ''w1''" "lr_epoch (sample_lease a n t) = n"
  by (simp_all add: sample_lease_def)

lemma sample_leased_ok:
  assumes "leases_ok (st_db (sample_leased ls))"
  shows "workspaces_ok (st_redactor (sample_leased ls)) (st_db (sample_leased ls))"
  using assms by (simp add: workspaces_ok_def unique_by_def sample_workspace_def
      workspace_ready_ok_def workspace_env_ok_def ready_statuses_def)

lemma sample_leases:
  "leases_ok (st_db (sample_leased []))"
  "1 \<le> n \<Longrightarrow> leases_ok (st_db (sample_leased [sample_lease a n t]))"
  by (simp_all add: leases_ok_def unique_by_def sample_workspace_def)

lemma valid_samples: "valid_text ''w1''" "valid_text ''a1''" "valid_text ''a2''" "valid_text ''p1''"
  "valid_text ''e1''" "valid_text ''local''" "valid_text ''loc''" "valid_text ''d1''"
  by code_simp+

lemma sample_checks: "validate_non_empty ''w1'' l = Inr ()" "validate_non_empty ''a1'' l = Inr ()"
  "validate_non_empty ''a2'' l = Inr ()" "validate_non_empty ''p1'' l = Inr ()"
  "validate_non_empty ''e1'' l = Inr ()" "validate_non_empty ''local'' l = Inr ()"
  "validate_non_empty ''loc'' l = Inr ()" "validate_non_empty ''d1'' l = Inr ()"
  by (simp_all add: valid_samples)

lemma sample_acquire_first:
  "acquire_workspace_lease (sample_leased []) (sample_acquire ''a1'' 0)
    = (Inr (lease_token_of (sample_lease ''a1'' 1 0)), sample_leased [sample_lease ''a1'' 1 0])"
  by (simp add: acquire_workspace_lease_def run_op_def acquire_workspace_lease_prep_def
      sample_acquire_def checked_add_def acquire_workspace_lease_tx_def next_epoch_def
      run_tx_unarmed upsert_def sample_checks sample_workspace_def)
    (simp add: sample_leased_def sample_lease_def)

lemma sample_acquire_second:
  "acquire_workspace_lease (sample_leased [sample_lease ''a1'' 1 0]) (sample_acquire ''a2'' 20)
    = (Inr (lease_token_of (sample_lease ''a2'' 2 20)), sample_leased [sample_lease ''a2'' 2 20])"
  by (simp add: acquire_workspace_lease_def run_op_def acquire_workspace_lease_prep_def
      sample_acquire_def checked_add_def acquire_workspace_lease_tx_def next_epoch_def
      run_tx_unarmed upsert_def sample_checks sample_workspace_def sample_lease_def update_where_def)
    (simp add: sample_leased_def)

theorem stale_lease_is_fenced_witness:
  "release_workspace_lease (sample_leased [sample_lease ''a2'' 2 20])
     (lease_token_of (sample_lease ''a1'' 1 0), 25)
   = (Inl (Conflict ''workspace lease is stale''), sample_leased [sample_lease ''a2'' 2 20])"
proof -
  have ok: "workspaces_ok (st_redactor (sample_leased [])) (st_db (sample_leased []))"
    by (rule sample_leased_ok) (rule sample_leases)
  have same: "lt_workspace_id (lease_token_of (sample_lease ''a2'' 2 20))
      = lt_workspace_id (lease_token_of (sample_lease ''a1'' 1 0))"
    by (simp add: lease_token_of_def sample_lease_def)
  show ?thesis
    using stale_lease_is_fenced[OF ok sample_acquire_first rtranclp.rtrancl_refl
        sample_acquire_second rtranclp.rtrancl_refl same] by blast
qed

text \<open>
  C15. Mutual exclusion: an acquisition succeeds only at a time at which no token of that
  workspace is live, its token is live from then on, and every token that is live afterwards,
  at whatever time, is the acquirer's of the same epoch.
\<close>

theorem lease_exclusive:
  assumes "workspaces_ok (st_redactor st) (st_db st)"
    and "acquire_workspace_lease st q = (Inr t, st')"
  shows "(\<forall>t'. lt_workspace_id t' = lt_workspace_id t \<longrightarrow> \<not> lease_live (st_db st) t' (aq_now_ms q))
    \<and> lease_live (st_db st') t (aq_now_ms q)
    \<and> (\<forall>t' n. lt_workspace_id t' = lt_workspace_id t \<longrightarrow> lease_live (st_db st') t' n \<longrightarrow>
        lt_agent_id t' = lt_agent_id t \<and> lt_epoch t' = lt_epoch t)"
proof -
  let ?r = "st_redactor st"
  obtain want where want: "acquire_workspace_lease_prep ?r q = Inr want"
    and body: "\<exists>k. acquire_workspace_lease_tx ?r want (st_db st) = Inr (Commit (st_db st') k)
      \<and> k (st_db st') = Inr t"
    by (rule acquire_ran[OF assms(2)])
  from body obtain k where b: "acquire_workspace_lease_tx ?r want (st_db st) = Inr (Commit (st_db st') k)"
    "k (st_db st') = Inr t" by (elim exE conjE)
  from b(1)[unfolded acquire_commit] obtain e where
    e: "next_epoch (row_by lr_workspace_id (lr_workspace_id want) (workspace_leases (st_db st)))
          (lr_acquired_at_ms want) = Inr e"
    and d': "st_db st' = (st_db st)\<lparr>workspace_leases := upsert lr_workspace_id (want\<lparr>lr_epoch := e\<rparr>)
            (workspace_leases (st_db st))\<rparr>"
    and k: "k = (\<lambda>_. Inr (lease_token_of (want\<lparr>lr_epoch := e\<rparr>)))"
    by (elim conjE exE)
  from b(2) k have t: "t = lease_token_of (want\<lparr>lr_epoch := e\<rparr>)" by simp
  have tf: "lt_workspace_id t = lr_workspace_id want" "lt_epoch t = e"
    by (simp_all add: t lease_token_of_def)
  have w: "lr_agent_id want = Some (lt_agent_id t)" "lr_acquired_at_ms want = aq_now_ms q"
    "aq_now_ms q < lr_expires_at_ms want"
    using want by (auto simp: t lease_token_of_def acquire_workspace_lease_prep_def checked_add_def
        split: if_splits option.splits)
  have uq: "unique_by lr_workspace_id (workspace_leases (st_db st))"
    "unique_by lr_workspace_id (workspace_leases (st_db st'))"
    using assms(1) by (simp_all add: workspaces_ok_def leases_ok_def d' unique_by_upsert)
  have row': "row_by lr_workspace_id (lt_workspace_id t) (workspace_leases (st_db st'))
      = Some (want\<lparr>lr_epoch := e\<rparr>)"
    by (simp add: d' row_by_upsert t lease_token_of_def)
  have wid: "lr_workspace_id want = lt_workspace_id t" by (simp add: t lease_token_of_def)
  have "\<not> lease_live (st_db st) t' (aq_now_ms q)" if "lt_workspace_id t' = lt_workspace_id t" for t'
    using e w(2) that
    by (auto simp: lease_live_row[OF uq(1)] wid next_epoch_def token_live_def token_matches_def
        split: option.splits if_splits)
  moreover have "lease_live (st_db st') t (aq_now_ms q)"
    using w wid tf(2) by (simp add: lease_live_row[OF uq(2)] row' token_live_def token_matches_def)
  moreover have "lt_agent_id t' = lt_agent_id t \<and> lt_epoch t' = lt_epoch t"
    if "lt_workspace_id t' = lt_workspace_id t" "lease_live (st_db st') t' n" for t' n
  proof -
    have "token_matches t' (want\<lparr>lr_epoch := e\<rparr>)"
      using that(2) unfolding lease_live_row[OF uq(2)] that(1) row' token_live_def
      by (elim exE conjE) simp
    with w(1) tf(2) show ?thesis by (simp add: token_matches_def)
  qed
  ultimately show ?thesis by blast
qed

theorem lease_exclusive_witness:
  "lease_live (st_db (sample_leased [sample_lease ''a2'' 2 20]))
      (lease_token_of (sample_lease ''a2'' 2 20)) 20
   \<and> \<not> lease_live (st_db (sample_leased [sample_lease ''a1'' 1 0]))
      (lease_token_of (sample_lease ''a1'' 1 0)) 20"
proof -
  let ?st = "sample_leased [sample_lease ''a1'' 1 0]"
  have ok: "workspaces_ok (st_redactor ?st) (st_db ?st)"
    by (rule sample_leased_ok) (simp add: sample_leases)
  have q: "aq_now_ms (sample_acquire ''a2'' 20) = 20" by (simp add: sample_acquire_def)
  have same: "lt_workspace_id (lease_token_of (sample_lease ''a1'' 1 0))
      = lt_workspace_id (lease_token_of (sample_lease ''a2'' 2 20))"
    by (simp add: lease_token_of_def sample_lease_def)
  from lease_exclusive[OF ok sample_acquire_second, unfolded q] same show ?thesis by blast
qed

text \<open>
  A workspace update that succeeds was made under a live lease of that workspace and at
  the current revision; it advances the revision by one and touches no other workspace, so a
  second update prepared at the same revision fails and changes nothing.
\<close>

lemma update_workspace_guarded:
  assumes "workspaces_ok (st_redactor st) (st_db st)" "st_failpoints st = None"
    and "update_workspace st u = (Inr w, st')"
  shows "lease_live (st_db st) (redact_token (st_redactor st) (wu_lease u)) (wu_now_ms u)
    \<and> (\<exists>w0. workspace_by (st_redactor st) (st_db st) (wu_workspace_id u) = Some w0
        \<and> ws_revision w0 = wu_expected_revision u)
    \<and> ws_revision w = wu_expected_revision u + 1
    \<and> (\<forall>i. i \<noteq> ws_workspace_id w \<longrightarrow> row_by ws_workspace_id i (workspaces (st_db st'))
        = row_by ws_workspace_id i (workspaces (st_db st)))
    \<and> (\<forall>u'. wu_workspace_id u' = wu_workspace_id u \<longrightarrow>
        wu_expected_revision u' = wu_expected_revision u \<longrightarrow>
        \<not> is_ok (fst (update_workspace st' u')) \<and> snd (update_workspace st' u') = st')"
proof -
  let ?r = "st_redactor st" and ?i = "redact_text (st_redactor st) (wu_workspace_id u)"
    and ?n = "wu_expected_revision u"
  have safe: "safe_policy ?r" and uq: "unique_by ws_workspace_id (workspaces (st_db st))"
    using assms(1) by (simp_all add: workspaces_ok_def)
  obtain c where prep: "update_workspace_prep ?r u = Inr c"
    and body: "\<exists>k. update_workspace_tx ?r c (st_db st) = Inr (Commit (st_db st') k)
      \<and> k (st_db st') = Inr w"
    by (rule update_ran[OF assms(3)])
  from body obtain k where b: "update_workspace_tx ?r c (st_db st) = Inr (Commit (st_db st') k)"
    "k (st_db st') = Inr w" by (elim exE conjE)
  have c: "wu_workspace_id c = ?i" "wu_expected_revision c = ?n" "wu_now_ms c = wu_now_ms u"
    "wu_lease c = redact_token ?r (wu_lease u)"
    using prep by (auto simp: update_workspace_prep_def Let_def split: if_splits)
  note com = update_workspace_commit[OF b(1), unfolded c]
  then have d': "st_db st' = (st_db st)\<lparr>workspaces := update_where (at_revision ?i ?n)
      (apply_workspace_update c) (workspaces (st_db st))\<rparr>" by simp
  have "count_rows (at_revision ?i ?n) (workspaces (st_db st)) = 1" using com by simp
  from count_rows_one[OF this uq] obtain w0 where
    w0: "row_by ws_workspace_id ?i (workspaces (st_db st)) = Some w0" "at_revision ?i ?n w0"
    by (simp add: at_revision_def) blast
  have row: "row_by ws_workspace_id ?i (workspaces (st_db st')) = Some (apply_workspace_update c w0)"
    by (simp add: d' workspace_row_updated w0)
  have "w = apply_workspace_update c w0"
    using update_read_back[OF b(1)] b(2) row by (simp add: c workspace_by_def redact_idem[OF safe])
  moreover have "\<not> is_ok (fst (update_workspace st' u')) \<and> snd (update_workspace st' u') = st'"
    if "wu_workspace_id u' = wu_workspace_id u" "wu_expected_revision u' = ?n" for u'
  proof -
    have uq': "unique_by ws_workspace_id (workspaces (st_db st'))"
      using uq by (simp add: d' unique_by_update)
    have "count_rows (at_revision ?i ?n) (workspaces (st_db st')) \<noteq> 1"
      using row w0(2) count_rows_one[OF _ uq', of "at_revision ?i ?n" ?i]
      by (auto simp: at_revision_def)
    moreover have "st_redactor st' = ?r"
      by (rule run_op_same_redactor[OF assms(3)[unfolded update_workspace_def]])
    ultimately have "conj (\<not> is_ok (fst (update_workspace st' u'))) (snd (update_workspace st' u') = st')"
      using that update_needs_revision[of st' u'] by simp
    then show ?thesis .
  qed
  moreover have "ws_workspace_id w0 = ?i" "ws_revision w0 = ?n"
    using w0(2) by (simp_all add: at_revision_def)
  moreover have "row_by ws_workspace_id i (workspaces (st_db st'))
      = row_by ws_workspace_id i (workspaces (st_db st))" if "i \<noteq> ?i" for i
  proof (cases "row_by ws_workspace_id i (workspaces (st_db st))")
    case (Some x)
    with row_by_key[OF Some] that show ?thesis
      by (simp add: d' workspace_row_updated at_revision_def)
  qed (simp add: d' workspace_row_updated)
  ultimately show ?thesis
    using com w0 by (simp add: workspace_by_def)
qed

definition sample_update :: workspace_update where
  "sample_update = \<lparr>wu_workspace_id = ''w1'', wu_expected_revision = 0,
     wu_lease = lease_token_of (sample_lease ''a1'' 1 0), wu_branch_ref = None, wu_head = None,
     wu_environment_id = None, wu_status = ''preparing'', wu_updated_at = ''d2'', wu_now_ms = 5\<rparr>"

lemma sample_update_runs:
  "fst (update_workspace (sample_leased [sample_lease ''a1'' 1 0]) sample_update)
    = Inr (apply_workspace_update sample_update sample_workspace)"
  by (simp add: update_workspace_def run_op_def update_workspace_prep_def sample_update_def
      sample_checks validate_workspace_status_def workspace_statuses_def
      validate_workspace_ready_state_def ready_statuses_def Let_def redact_token_def
      lease_token_of_def sample_lease_def update_workspace_tx_def lease_live_def token_live_def
      token_matches_def count_rows_def at_revision_def sample_workspace_def run_tx_unarmed
      redact_opt_def workspace_by_def update_where_def apply_workspace_update_def)

lemma update_workspace_guarded_witness:
  "let st' = snd (update_workspace (sample_leased [sample_lease ''a1'' 1 0]) sample_update)
   in update_workspace st' sample_update = (fst (update_workspace st' sample_update), st')
     \<and> \<not> is_ok (fst (update_workspace st' sample_update))"
proof -
  let ?st = "sample_leased [sample_lease ''a1'' 1 0]"
  have ok: "workspaces_ok (st_redactor ?st) (st_db ?st)"
    by (rule sample_leased_ok) (simp add: sample_leases)
  obtain w st' where run: "update_workspace ?st sample_update = (Inr w, st')"
    using sample_update_runs by (metis prod.exhaust_sel)
  note g = update_workspace_guarded[OF ok _ run]
  have "\<not> is_ok (fst (update_workspace st' sample_update))
      \<and> snd (update_workspace st' sample_update) = st'"
    using g by simp
  then show ?thesis by (simp add: run Let_def prod_eq_iff)
qed

text \<open>
  In every store reached from an empty one by workspace, lease and environment calls, with
  any faults, a workspace that is ready, active or paused has a head and an environment that
  exists and belongs to the workspace's project.
\<close>

lemma ready_workspaces_are_backed:
  assumes "safe_policy r" "(workspace_step X)\<^sup>*\<^sup>* (open_store r) st"
    and "w \<in> set (workspaces (st_db st))" "ws_status w \<in> set ready_statuses"
  shows "ws_head w \<noteq> None \<and> (\<exists>e env. ws_environment_id w = Some e
    \<and> row_by er_environment_id e (environments (st_db st)) = Some env
    \<and> er_project_id env = ws_project_id w)"
proof -
  have "workspaces_ok r (st_db st)"
    using workspace_steps_ok[OF assms(2)] assms(1) by (simp add: workspaces_ok_empty)
  with assms(3,4) show ?thesis
    by (fastforce simp: workspaces_ok_def workspace_ready_ok_def workspace_env_ok_def)
qed

definition sample_environment :: environment_request where
  "sample_environment = \<lparr>eq_environment_id = ''e1'', eq_project_id = ''p1'', eq_facts = JNull,
     eq_created_at = ''d1''\<rparr>"

definition sample_ready :: workspace_record where
  "sample_ready = sample_workspace\<lparr>ws_status := ''ready'', ws_head := Some ''h1'',
     ws_environment_id := Some ''e1''\<rparr>"

definition sample_ready_store :: metadata_store where
  "sample_ready_store = snd (create_workspace (with_failpoint None
     (snd (record_environment sample_externals (with_failpoint None (open_store default_redactor))
       sample_environment))) sample_ready)"

lemma sample_ready_rows: "workspaces (st_db sample_ready_store) = [sample_ready]"
  by (simp add: sample_ready_store_def record_environment_def run_op_def record_environment_prep_def
      sample_environment_def sample_checks canonical_bytes_def record_environment_tx_def
      run_tx_unarmed empty_db_def create_workspace_def create_workspace_prep_def
      validate_workspace_record_def validate_labelled_def sample_ready_def sample_workspace_def validate_workspace_status_def
      workspace_statuses_def validate_workspace_ready_state_def redact_workspace_def redact_opt_def
      create_workspace_tx_def environment_project_def environment_by_def)

lemma ready_workspaces_are_backed_witness:
  "\<exists>env. row_by er_environment_id ''e1'' (environments (st_db sample_ready_store)) = Some env
     \<and> er_project_id env = ''p1''"
proof -
  have reach: "(workspace_step sample_externals)\<^sup>*\<^sup>* (open_store default_redactor) sample_ready_store"
    unfolding sample_ready_store_def
    by (rule rtranclp.rtrancl_into_rtrancl, rule r_into_rtranclp, rule workspace_step.environment)
      (rule workspace_step.create)
  have mem: "sample_ready \<in> set (workspaces (st_db sample_ready_store))"
    "ws_status sample_ready \<in> set ready_statuses"
    by (simp_all add: sample_ready_rows) (simp add: sample_ready_def ready_statuses_def)
  show ?thesis
    using ready_workspaces_are_backed[OF default_policy_safe reach mem]
    by (simp add: sample_ready_def sample_workspace_def)
qed

end
