(* ===== verification/Event_Store.thy ===== *)
theory Event_Store
  imports Store
begin

text \<open>
  The event log of \<open>src/src/metadata.rs\<close>: event envelopes with their compatibility rows in
  \<open>events\<close>, the numbering of each stream and of each project, deduplication by event id, the
  events of the operation ledger, and the backfill of legacy rows.
\<close>

section \<open>Numbering\<close>

text \<open>\<open>SELECT COALESCE(MAX(n), 0) + 1 ... WHERE key = k\<close>.\<close>

definition next_number :: "('r \<Rightarrow> 'k) \<Rightarrow> ('r \<Rightarrow> int) \<Rightarrow> 'k \<Rightarrow> 'r list \<Rightarrow> int" where
  "next_number key num k rows =
     (case map num (filter (\<lambda>r. key r = k) rows) of [] \<Rightarrow> 0 | n # ns \<Rightarrow> foldl max n ns) + 1"

definition dense :: "int list \<Rightarrow> bool" where
  "dense ns \<longleftrightarrow> ns = map (\<lambda>i. int i + 1) [0..<length ns]"

definition numbered :: "('r \<Rightarrow> 'k) \<Rightarrow> ('r \<Rightarrow> int) \<Rightarrow> 'r list \<Rightarrow> bool" where
  "numbered key num rows \<longleftrightarrow> (\<forall>k. dense (map num (filter (\<lambda>r. key r = k) rows)))"

lemma dense_Nil [simp]: "dense []"
  by (simp add: dense_def)

lemma dense_snoc: "dense ns \<Longrightarrow> dense (ns @ [int (length ns) + 1])"
  by (simp add: dense_def)

lemma foldl_max_upt: "foldl max 1 (map (\<lambda>i. int i + 1) [1..<Suc n]) = int n + 1"
  by (induction n) simp_all

lemma dense_max:
  assumes "dense ns"
  shows "(case ns of [] \<Rightarrow> 0 | n # ns \<Rightarrow> foldl max n ns) = int (length ns)"
proof (cases ns)
  case (Cons a l)
  then have "a # l = map (\<lambda>i. int i + 1) [0..<Suc (length l)]"
    using assms by (simp add: dense_def)
  also have "\<dots> = 1 # map (\<lambda>i. int i + 1) [1..<Suc (length l)]"
    by (subst upt_conv_Cons) simp_all
  finally have "a = 1" "l = map (\<lambda>i. int i + 1) [1..<Suc (length l)]" by simp_all
  with foldl_max_upt[of "length l"] Cons show ?thesis by simp
qed simp

lemma next_number_dense:
  "numbered key num rows \<Longrightarrow>
    next_number key num k rows = int (length (filter (\<lambda>r. key r = k) rows)) + 1"
  using dense_max[of "map num (filter (\<lambda>r. key r = k) rows)"]
  by (simp add: next_number_def numbered_def)

lemma numbered_Nil [simp]: "numbered key num []"
  by (simp add: numbered_def)

lemma numbered_snoc:
  assumes "numbered key num rows" "num r = next_number key num (key r) rows"
  shows "numbered key num (rows @ [r])"
  unfolding numbered_def
proof
  fix k
  have "dense (map num (filter (\<lambda>r. key r = k) rows))" using assms(1) by (simp add: numbered_def)
  from this dense_snoc[OF this] assms(2) next_number_dense[OF assms(1), of "key r"]
  show "dense (map num (filter (\<lambda>r. key r = k) (rows @ [r])))" by auto
qed

lemma dense_less:
  assumes "dense ns" "n \<in> set ns"
  shows "n < int (length ns) + 1"
proof -
  have "n \<in> set (map (\<lambda>i. int i + 1) [0..<length ns])"
    using assms by (metis dense_def)
  then show ?thesis by auto
qed

lemma next_number_fresh:
  "numbered key num rows \<Longrightarrow> r \<in> set rows \<Longrightarrow> key r = k \<Longrightarrow> num r \<noteq> next_number key num k rows"
  using dense_less[of "map num (filter (\<lambda>x. key x = key r) rows)" "num r"]
  by (auto simp: next_number_dense numbered_def)

section \<open>Envelopes\<close>

definition canonical_json_value :: "externals \<Rightarrow> json \<Rightarrow> utf8 res" where
  "canonical_json_value X v = canonical_bytes X v"

definition digest_text :: "externals \<Rightarrow> utf8 \<Rightarrow> utf8" where
  "digest_text X v = sha256_hex X v"

definition json_get :: "json \<Rightarrow> utf8 \<Rightarrow> json option" where
  "json_get v key = (case v of JObject ms \<Rightarrow> map_of ms key | _ \<Rightarrow> None)"

definition as_str :: "json \<Rightarrow> utf8 option" where
  "as_str v = (case v of JString s \<Rightarrow> Some s | _ \<Rightarrow> None)"

text \<open>\<open>payload.get("type").and_then(Value::as_str).unwrap_or(fallback)\<close>.\<close>

definition payload_type :: "utf8 \<Rightarrow> json \<Rightarrow> utf8" where
  "payload_type fallback v =
     (case Option.bind (json_get v ''type'') as_str of Some s \<Rightarrow> s | None \<Rightarrow> fallback)"

definition redact_event_envelope :: "redactor \<Rightarrow> new_event_envelope \<Rightarrow> new_event_envelope" where
  "redact_event_envelope r e =
     \<lparr>nv_event_id = redact_text r (nv_event_id e), nv_project_id = redact_text r (nv_project_id e),
      nv_stream_id = redact_text r (nv_stream_id e), nv_event_type = redact_text r (nv_event_type e),
      nv_schema_version = redact_text r (nv_schema_version e),
      nv_occurred_at = redact_text r (nv_occurred_at e),
      nv_recorded_at = redact_text r (nv_recorded_at e), nv_actor_id = redact_opt r (nv_actor_id e),
      nv_workspace_id = redact_opt r (nv_workspace_id e), nv_task_id = redact_opt r (nv_task_id e),
      nv_operation_id = redact_opt r (nv_operation_id e),
      nv_causation_id = redact_opt r (nv_causation_id e),
      nv_correlation_id = redact_opt r (nv_correlation_id e),
      nv_parent_event_ids = map (redact_text r) (nv_parent_event_ids e),
      nv_capture_confidence = redact_opt r (nv_capture_confidence e),
      nv_redaction_status = redact_text r (nv_redaction_status e),
      nv_generation_id = redact_opt r (nv_generation_id e),
      nv_migration_id = redact_opt r (nv_migration_id e), nv_payload = redact_value r (nv_payload e)\<rparr>"

definition validate_identity_assertion ::
  "externals \<Rightarrow> utf8 option \<Rightarrow> utf8 option \<Rightarrow> utf8 \<times> utf8 \<Rightarrow> utf8 \<Rightarrow> unit res" where
  "validate_identity_assertion X generation_id migration_id expected subject =
     (if generation_id \<noteq> None \<and> generation_id \<noteq> Some (fst expected)
      then Inl (Integrity (subject @ '' generation identity '' @ debug_str X (the generation_id)
             @ '' does not match metadata identity '' @ debug_str X (fst expected)))
      else if migration_id \<noteq> None \<and> migration_id \<noteq> Some (snd expected)
      then Inl (Integrity (subject @ '' migration identity '' @ debug_str X (the migration_id)
             @ '' does not match metadata identity '' @ debug_str X (snd expected)))
      else Inr ())"

definition validate_event_envelope :: "new_event_envelope \<Rightarrow> unit res" where
  "validate_event_envelope e =
     try_then (validate_labelled [(nv_event_id e, ''event_id''), (nv_project_id e, ''project_id''),
       (nv_stream_id e, ''stream_id''), (nv_event_type e, ''event_type''),
       (nv_schema_version e, ''schema_version''), (nv_occurred_at e, ''occurred_at''),
       (nv_recorded_at e, ''recorded_at''), (nv_redaction_status e, ''redaction_status'')]) (\<lambda>_.
     if list_ex trimmed_empty (nv_parent_event_ids e)
     then Inl (InvalidInput ''parent_event_ids cannot contain empty values'')
     else Inr ())"

definition parents_value :: "utf8 list \<Rightarrow> json" where
  "parents_value ids = JArray (map JString ids)"

definition envelope_matches_input ::
  "externals \<Rightarrow> event_envelope \<Rightarrow> new_event_envelope \<Rightarrow> utf8 \<Rightarrow> utf8 \<Rightarrow> bool" where
  "envelope_matches_input X x e payload_digest parents_json \<longleftrightarrow>
     en_project_id x = nv_project_id e \<and> en_stream_id x = nv_stream_id e
     \<and> en_event_type x = nv_event_type e \<and> en_schema_version x = nv_schema_version e
     \<and> en_occurred_at x = nv_occurred_at e \<and> en_recorded_at x = nv_recorded_at e
     \<and> en_actor_id x = nv_actor_id e \<and> en_workspace_id x = nv_workspace_id e
     \<and> en_task_id x = nv_task_id e \<and> en_operation_id x = nv_operation_id e
     \<and> en_causation_id x = nv_causation_id e \<and> en_correlation_id x = nv_correlation_id e
     \<and> en_parent_event_ids x = nv_parent_event_ids e
     \<and> en_capture_confidence x = nv_capture_confidence e
     \<and> en_redaction_status x = nv_redaction_status e \<and> en_payload_digest x = payload_digest
     \<and> en_payload_json x = (case canonical_json_value X (nv_payload e) of Inl _ \<Rightarrow> [] | Inr s \<Rightarrow> s)
     \<and> canonical_json_value X (parents_value (en_parent_event_ids x)) = Inr parents_json"

text \<open>The two inserts, with the unique constraints of their tables.\<close>

definition insert_event :: "event_record \<Rightarrow> db \<Rightarrow> db res" where
  "insert_event e d =
     (if row_by ev_event_id (ev_event_id e) (events d) \<noteq> None
        \<or> list_ex (\<lambda>x. ev_stream_id x = ev_stream_id e \<and> ev_sequence x = ev_sequence e) (events d)
      then Inl constraint_violation
      else Inr (d\<lparr>events := events d @ [e]\<rparr>))"

definition insert_envelope :: "event_envelope \<Rightarrow> db \<Rightarrow> db res" where
  "insert_envelope e d =
     (if row_by en_event_id (en_event_id e) (event_envelopes d) \<noteq> None
        \<or> list_ex (\<lambda>x. en_project_id x = en_project_id e
             \<and> en_project_sequence x = en_project_sequence e) (event_envelopes d)
      then Inl constraint_violation
      else Inr (d\<lparr>event_envelopes := event_envelopes d @ [e]\<rparr>))"

definition next_sequence :: "utf8 \<Rightarrow> db \<Rightarrow> int" where
  "next_sequence stream d = next_number ev_stream_id ev_sequence stream (events d)"

definition next_project_sequence :: "utf8 \<Rightarrow> db \<Rightarrow> int" where
  "next_project_sequence project d =
     next_number en_project_id en_project_sequence project (event_envelopes d)"

definition envelope_event :: "new_event_envelope \<Rightarrow> int \<Rightarrow> utf8 \<Rightarrow> utf8 \<Rightarrow> event_record" where
  "envelope_event e sequence payload_digest payload_json =
     \<lparr>ev_event_id = nv_event_id e, ev_project_id = nv_project_id e, ev_stream_id = nv_stream_id e,
      ev_sequence = sequence, ev_schema_version = nv_schema_version e,
      ev_actor_id = nv_actor_id e, ev_request_id = nv_correlation_id e,
      ev_occurred_at = nv_occurred_at e, ev_payload_digest = payload_digest,
      ev_payload_json = payload_json\<rparr>"

definition envelope_row ::
  "new_event_envelope \<Rightarrow> int \<Rightarrow> int \<Rightarrow> utf8 \<Rightarrow> utf8 \<Rightarrow> event_envelope" where
  "envelope_row e sequence project_sequence payload_digest payload_json =
     \<lparr>en_event_id = nv_event_id e, en_project_id = nv_project_id e, en_stream_id = nv_stream_id e,
      en_event_type = nv_event_type e, en_sequence = sequence,
      en_project_sequence = project_sequence, en_schema_version = nv_schema_version e,
      en_occurred_at = nv_occurred_at e, en_recorded_at = nv_recorded_at e,
      en_actor_id = nv_actor_id e, en_workspace_id = nv_workspace_id e, en_task_id = nv_task_id e,
      en_operation_id = nv_operation_id e, en_causation_id = nv_causation_id e,
      en_correlation_id = nv_correlation_id e, en_parent_event_ids = nv_parent_event_ids e,
      en_capture_confidence = nv_capture_confidence e,
      en_redaction_status = nv_redaction_status e, en_payload_digest = payload_digest,
      en_payload_json = payload_json\<rparr>"

definition legacy_conflicts :: "event_record \<Rightarrow> new_event_envelope \<Rightarrow> utf8 \<Rightarrow> bool" where
  "legacy_conflicts x e payload_digest \<longleftrightarrow> ev_project_id x \<noteq> nv_project_id e
     \<or> ev_stream_id x \<noteq> nv_stream_id e \<or> ev_schema_version x \<noteq> nv_schema_version e
     \<or> ev_occurred_at x \<noteq> nv_occurred_at e \<or> ev_payload_digest x \<noteq> payload_digest"

text \<open>The compatibility row: the existing one if it agrees, else a new one at the end of the
  stream.\<close>

definition ensure_event ::
  "new_event_envelope \<Rightarrow> utf8 \<Rightarrow> utf8 \<Rightarrow> db \<Rightarrow> (int \<times> db) res" where
  "ensure_event e payload_digest payload_json d =
     (case row_by ev_event_id (nv_event_id e) (events d) of
        Some x \<Rightarrow>
          if legacy_conflicts x e payload_digest
          then Inl (Integrity (''legacy event '' @ nv_event_id e
                 @ '' conflicts with envelope identity''))
          else Inr (ev_sequence x, d)
      | None \<Rightarrow>
          (let n = next_sequence (nv_stream_id e) d in
           try_then (insert_event (envelope_event e n payload_digest payload_json) d)
             (\<lambda>d'. Inr (n, d'))))"

definition append_event_envelope_tx ::
  "externals \<Rightarrow> new_event_envelope \<Rightarrow> db \<Rightarrow> (event_envelope \<times> db) res" where
  "append_event_envelope_tx X e d =
     try_then (validate_event_envelope e) (\<lambda>_.
     try_then (canonical_json_value X (nv_payload e)) (\<lambda>payload_json.
     let payload_digest = digest_text X payload_json in
     try_then (canonical_json_value X (parents_value (nv_parent_event_ids e))) (\<lambda>parents_json.
     case row_by en_event_id (nv_event_id e) (event_envelopes d) of
       Some existing \<Rightarrow>
         if envelope_matches_input X existing e payload_digest parents_json
         then Inr (existing, d)
         else Inl (Integrity (''event ID '' @ nv_event_id e
                @ '' was reused with different envelope content''))
     | None \<Rightarrow>
         try_then (ensure_event e payload_digest payload_json d) (\<lambda>(sequence, d1).
         let row = envelope_row e sequence (next_project_sequence (nv_project_id e) d1)
               payload_digest payload_json in
         try_then (insert_envelope row d1) (\<lambda>d2. Inr (row, d2))))))"

definition append_event_envelope_prep ::
  "redactor \<Rightarrow> new_event_envelope \<Rightarrow> new_event_envelope res" where
  "append_event_envelope_prep r e0 =
     (let e = redact_event_envelope r e0 in
      try_then (validate_event_envelope e) (\<lambda>_. Inr e))"

definition append_event_envelope_body ::
  "externals \<Rightarrow> redactor \<Rightarrow> new_event_envelope \<Rightarrow> db \<Rightarrow> event_envelope tx_end res" where
  "append_event_envelope_body X r e d =
     try_then (projection_identity d) (\<lambda>expected.
     try_then (validate_identity_assertion X (nv_generation_id e) (nv_migration_id e) expected
       ''event envelope'') (\<lambda>_.
     try_then (append_event_envelope_tx X e d) (\<lambda>(row, d').
     Inr (Commit d' (\<lambda>_. Inr row)))))"

definition append_event_envelope ::
  "externals \<Rightarrow> metadata_store \<Rightarrow> new_event_envelope \<Rightarrow> event_envelope res \<times> metadata_store"
where
  "append_event_envelope X = sqlite_op append_event_envelope_prep (append_event_envelope_body X)"

section \<open>Events in the first format\<close>

definition redact_new_event :: "redactor \<Rightarrow> new_event \<Rightarrow> new_event res" where
  "redact_new_event r e = Inr
     \<lparr>ne_event_id = redact_text r (ne_event_id e), ne_project_id = redact_text r (ne_project_id e),
      ne_stream_id = redact_text r (ne_stream_id e),
      ne_schema_version = redact_text r (ne_schema_version e),
      ne_actor_id = redact_opt r (ne_actor_id e), ne_request_id = redact_opt r (ne_request_id e),
      ne_occurred_at = redact_text r (ne_occurred_at e),
      ne_payload = redact_value r (ne_payload e)\<rparr>"

definition event_envelope_of :: "new_event \<Rightarrow> new_event_envelope" where
  "event_envelope_of e =
     \<lparr>nv_event_id = ne_event_id e, nv_project_id = ne_project_id e, nv_stream_id = ne_stream_id e,
      nv_event_type = payload_type ''legacy.event'' (ne_payload e),
      nv_schema_version = ne_schema_version e, nv_occurred_at = ne_occurred_at e,
      nv_recorded_at = ne_occurred_at e, nv_actor_id = ne_actor_id e, nv_workspace_id = None,
      nv_task_id = None, nv_operation_id = None, nv_causation_id = None,
      nv_correlation_id = ne_request_id e, nv_parent_event_ids = [],
      nv_capture_confidence = Some ''observed'', nv_redaction_status = ''redacted'',
      nv_generation_id = None, nv_migration_id = None, nv_payload = ne_payload e\<rparr>"

definition new_event_row :: "new_event \<Rightarrow> int \<Rightarrow> utf8 \<Rightarrow> utf8 \<Rightarrow> event_record" where
  "new_event_row e sequence payload_digest payload_json =
     \<lparr>ev_event_id = ne_event_id e, ev_project_id = ne_project_id e, ev_stream_id = ne_stream_id e,
      ev_sequence = sequence, ev_schema_version = ne_schema_version e,
      ev_actor_id = ne_actor_id e, ev_request_id = ne_request_id e,
      ev_occurred_at = ne_occurred_at e, ev_payload_digest = payload_digest,
      ev_payload_json = payload_json\<rparr>"

definition event_matches :: "event_record \<Rightarrow> new_event \<Rightarrow> utf8 \<Rightarrow> bool" where
  "event_matches x e payload_digest \<longleftrightarrow> ev_payload_digest x = payload_digest
     \<and> ev_project_id x = ne_project_id e \<and> ev_stream_id x = ne_stream_id e
     \<and> ev_schema_version x = ne_schema_version e \<and> ev_actor_id x = ne_actor_id e
     \<and> ev_request_id x = ne_request_id e \<and> ev_occurred_at x = ne_occurred_at e"

definition append_event_body ::
  "externals \<Rightarrow> redactor \<Rightarrow> new_event \<Rightarrow> db \<Rightarrow> event_record tx_end res" where
  "append_event_body X r e d =
     try_then (canonical_bytes X (ne_payload e)) (\<lambda>payload_json.
     let payload_digest = sha256_hex X payload_json in
     case row_by ev_event_id (ne_event_id e) (events d) of
       Some existing \<Rightarrow>
         if \<not> event_matches existing e payload_digest
         then Inl (Integrity (''event ID '' @ ne_event_id e @ '' was reused with different content''))
         else Inr (Commit d (\<lambda>_. Inr existing))
     | None \<Rightarrow>
         (let row = new_event_row e (next_sequence (ne_stream_id e) d) payload_digest payload_json in
          try_then (insert_event row d) (\<lambda>d1.
          try_then (append_event_envelope_tx X (event_envelope_of e) d1) (\<lambda>(_, d2).
          Inr (Commit d2 (\<lambda>_. Inr row))))))"

definition append_event ::
  "externals \<Rightarrow> metadata_store \<Rightarrow> new_event \<Rightarrow> event_record res \<times> metadata_store" where
  "append_event X = sqlite_op redact_new_event (append_event_body X)"

section \<open>Reads\<close>

definition list_events :: "redactor \<Rightarrow> db \<Rightarrow> utf8 \<Rightarrow> event_record list" where
  "list_events r d stream =
     order_rows ev_sequence (filter (\<lambda>e. ev_stream_id e = redact_text r stream) (events d))"

definition list_event_envelopes :: "db \<Rightarrow> utf8 \<Rightarrow> int \<Rightarrow> event_envelope list" where
  "list_event_envelopes d project after =
     order_rows en_project_sequence
       (filter (\<lambda>e. en_project_id e = project \<and> en_project_sequence e > after) (event_envelopes d))"

section \<open>Events of the operation ledger\<close>

definition operation_stream :: "utf8 \<Rightarrow> utf8" where
  "operation_stream operation_id = ''operation:'' @ operation_id"

definition show_int :: "int \<Rightarrow> utf8" where
  "show_int n = (if n < 0 then ''-'' @ show_nat (nat (- n)) else show_nat (nat n))"

text \<open>\<open>Value::as_i64\<close>: the number as it was parsed, when it is an integer of 64 bits.\<close>

definition read_digits :: "utf8 \<Rightarrow> nat option" where
  "read_digits s = (if s \<noteq> [] \<and> list_all (\<lambda>c. of_char c \<in> {48..57::nat}) s then Some (read_nat s) else None)"

definition read_int :: "utf8 \<Rightarrow> int option" where
  "read_int s = (case s of
     c # ds \<Rightarrow> if c = CHR ''-'' then map_option (\<lambda>n. - int n) (read_digits ds)
       else map_option int (read_digits s)
   | [] \<Rightarrow> None)"

definition json_i64 :: "json \<Rightarrow> int option" where
  "json_i64 v = (case v of
     JNumber s \<Rightarrow> (case read_int s of
         None \<Rightarrow> None | Some n \<Rightarrow> if - (2 ^ 63) \<le> n \<and> n < 2 ^ 63 then Some n else None)
   | _ \<Rightarrow> None)"

lemma digits_of_show_nat: "c \<in> set (show_nat n) \<Longrightarrow> of_char c \<in> {48..57::nat}"
proof (induction n rule: show_nat.induct)
  case (1 n)
  have "of_char (byte (48 + k)) \<in> {48..57::nat}" if "k < 10" for k
    using that by (simp add: byte_def)
  with 1 show ?case by (subst (asm) show_nat.simps) (auto split: if_splits)
qed

lemma read_digits_show: "read_digits (show_nat n) = Some n"
proof -
  have "list_all (\<lambda>c. of_char c \<in> {48..57::nat}) (show_nat n)"
    unfolding list_all_iff using digits_of_show_nat by blast
  with show_nat_nonempty[of n] show ?thesis
    unfolding read_digits_def read_show_nat by (simp only: if_True simp_thms)
qed

lemma json_i64_show: "- (2 ^ 63) \<le> n \<Longrightarrow> n < 2 ^ 63 \<Longrightarrow> json_i64 (JNumber (show_int n)) = Some n"
proof -
  have "read_int (show_nat m) = Some (int m)" for m
  proof -
    obtain c ds where c: "show_nat m = c # ds" using show_nat_nonempty[of m] by (cases "show_nat m") auto
    then have "of_char c \<in> {48..57::nat}" using digits_of_show_nat[of c m] by simp
    then have "c \<noteq> CHR ''-''" by auto
    then show ?thesis using read_digits_show[of m] by (simp add: c read_int_def)
  qed
  moreover have "read_int (''-'' @ show_nat m) = Some (- int m)" for m
    by (simp add: read_int_def read_digits_show)
  ultimately have "read_int (show_int n) = Some n" by (simp add: show_int_def)
  then show "- (2 ^ 63) \<le> n \<Longrightarrow> n < 2 ^ 63 \<Longrightarrow> ?thesis" by (simp add: json_i64_def)
qed

definition next_operation_event_sequence :: "utf8 \<Rightarrow> db \<Rightarrow> int" where
  "next_operation_event_sequence operation_id d = next_sequence (operation_stream operation_id) d"

definition operation_envelope_event ::
  "utf8 \<Rightarrow> utf8 \<Rightarrow> utf8 \<Rightarrow> utf8 \<Rightarrow> utf8 \<Rightarrow> utf8 \<Rightarrow> int \<Rightarrow> json \<Rightarrow> new_event_envelope" where
  "operation_envelope_event operation_id project_id agent_id request_id schema_version occurred_at
     sequence payload =
     \<lparr>nv_event_id = operation_stream operation_id @ '':'' @ show_int sequence,
      nv_project_id = project_id, nv_stream_id = operation_stream operation_id,
      nv_event_type = payload_type ''operation.lifecycle'' payload,
      nv_schema_version = schema_version, nv_occurred_at = occurred_at,
      nv_recorded_at = occurred_at, nv_actor_id = Some agent_id, nv_workspace_id = None,
      nv_task_id = None, nv_operation_id = Some operation_id, nv_causation_id = None,
      nv_correlation_id = Some request_id, nv_parent_event_ids = [],
      nv_capture_confidence = Some ''observed'', nv_redaction_status = ''redacted'',
      nv_generation_id = None, nv_migration_id = None, nv_payload = payload\<rparr>"

definition append_operation_event ::
  "externals \<Rightarrow> utf8 \<Rightarrow> utf8 \<Rightarrow> utf8 \<Rightarrow> utf8 \<Rightarrow> utf8 \<Rightarrow> utf8 \<Rightarrow> int \<Rightarrow> json \<Rightarrow> db \<Rightarrow> db res" where
  "append_operation_event X operation_id project_id agent_id request_id schema_version occurred_at
     sequence payload d =
     try_then (canonical_json_value X payload) (\<lambda>payload_json.
     let e = operation_envelope_event operation_id project_id agent_id request_id schema_version
           occurred_at sequence payload in
     try_then (insert_event (envelope_event e sequence (digest_text X payload_json) payload_json) d)
       (\<lambda>d1.
     try_then (append_event_envelope_tx X e d1) (\<lambda>(_, d2). Inr d2)))"

section \<open>Legacy rows\<close>

definition backfill_row :: "event_record \<Rightarrow> json \<Rightarrow> int \<Rightarrow> event_envelope" where
  "backfill_row x payload project_sequence =
     \<lparr>en_event_id = ev_event_id x, en_project_id = ev_project_id x, en_stream_id = ev_stream_id x,
      en_event_type = payload_type ''legacy.event'' payload, en_sequence = ev_sequence x,
      en_project_sequence = project_sequence, en_schema_version = ev_schema_version x,
      en_occurred_at = ev_occurred_at x, en_recorded_at = ev_occurred_at x,
      en_actor_id = ev_actor_id x, en_workspace_id = None, en_task_id = None,
      en_operation_id = None, en_causation_id = None, en_correlation_id = ev_request_id x,
      en_parent_event_ids = [], en_capture_confidence = Some ''observed'',
      en_redaction_status = ''redacted'', en_payload_digest = ev_payload_digest x,
      en_payload_json = ev_payload_json x\<rparr>"

fun backfill_rows :: "externals \<Rightarrow> event_record list \<Rightarrow> db \<Rightarrow> db res" where
  "backfill_rows X [] d = Inr d"
| "backfill_rows X (x # xs) d =
     (if row_by en_event_id (ev_event_id x) (event_envelopes d) \<noteq> None then backfill_rows X xs d
      else (case json_parse X (ev_payload_json x) of
         Inl message \<Rightarrow> Inl (Serialization message)
       | Inr payload \<Rightarrow>
           (case insert_envelope
                   (backfill_row x payload (next_project_sequence (ev_project_id x) d)) d of
              Inl e \<Rightarrow> Inl e
            | Inr d' \<Rightarrow> backfill_rows X xs d')))"

definition backfill_legacy_event_envelopes :: "externals \<Rightarrow> db \<Rightarrow> db res" where
  "backfill_legacy_event_envelopes X d = backfill_rows X (events d) d"

section \<open>The log is dense and append-only\<close>

text \<open>
  The invariant: event ids are unique, the events of each stream and the envelopes of each
  project are numbered 1, 2, 3, ... in the order they were appended, and every envelope agrees
  with its compatibility row.
\<close>

definition agrees :: "event_record \<Rightarrow> event_envelope \<Rightarrow> bool" where
  "agrees x e \<longleftrightarrow> ev_project_id x = en_project_id e \<and> ev_stream_id x = en_stream_id e
     \<and> ev_sequence x = en_sequence e \<and> ev_schema_version x = en_schema_version e
     \<and> ev_occurred_at x = en_occurred_at e \<and> ev_payload_digest x = en_payload_digest e"

definition envelope_backed :: "event_record list \<Rightarrow> event_envelope \<Rightarrow> bool" where
  "envelope_backed es e \<longleftrightarrow> (\<exists>x. row_by ev_event_id (en_event_id e) es = Some x \<and> agrees x e)"

definition events_ok :: "db \<Rightarrow> bool" where
  "events_ok d \<longleftrightarrow> unique_by ev_event_id (events d) \<and> unique_by en_event_id (event_envelopes d)
     \<and> numbered ev_stream_id ev_sequence (events d)
     \<and> numbered en_project_id en_project_sequence (event_envelopes d)
     \<and> (\<forall>e \<in> set (event_envelopes d). envelope_backed (events d) e)"

definition log_only :: "db \<Rightarrow> db \<Rightarrow> bool" where
  "log_only d d' \<longleftrightarrow> (\<exists>xs ys. d' = d\<lparr>events := events d @ xs,
     event_envelopes := event_envelopes d @ ys\<rparr>)"

lemma events_ok_empty: "events_ok (empty_db r)"
  by (simp add: events_ok_def empty_db_def unique_by_def)

lemma log_only_refl [simp]: "log_only d d"
  unfolding log_only_def by (intro exI[of _ "[]"]) simp

lemma log_only_trans: "log_only a b \<Longrightarrow> log_only b c \<Longrightarrow> log_only a c"
  unfolding log_only_def by (elim exE) (auto intro!: exI)

lemma log_only_event [simp]: "log_only d (d\<lparr>events := events d @ [e]\<rparr>)"
  unfolding log_only_def by (rule exI[of _ "[e]"], rule exI[of _ "[]"]) simp

lemma log_only_envelope [simp]: "log_only d (d\<lparr>event_envelopes := event_envelopes d @ [e]\<rparr>)"
  unfolding log_only_def by (rule exI[of _ "[]"], rule exI[of _ "[e]"]) simp

text \<open>Appending to the log does not touch the other tables.\<close>

lemma log_only_tables:
  assumes "log_only d d'"
  shows "operations d' = operations d" "operation_journal d' = operation_journal d"
    "workspaces d' = workspaces d" "environments d' = environments d"
    "workspace_leases d' = workspace_leases d" "repository_meta d' = repository_meta d"
    "snapshots d' = snapshots d" "versions d' = versions d" "executions d' = executions d"
  using assms unfolding log_only_def by (elim exE; simp)+

lemma log_only_prefix:
  "log_only d d' \<Longrightarrow> prefix (events d) (events d') \<and> prefix (event_envelopes d) (event_envelopes d')"
  unfolding log_only_def by (elim exE) simp

lemma insert_event_result:
  "insert_event e d = Inr d' \<longleftrightarrow> d' = d\<lparr>events := events d @ [e]\<rparr>
    \<and> row_by ev_event_id (ev_event_id e) (events d) = None
    \<and> \<not> list_ex (\<lambda>x. ev_stream_id x = ev_stream_id e \<and> ev_sequence x = ev_sequence e) (events d)"
  by (auto simp: insert_event_def)

lemma insert_envelope_result:
  "insert_envelope e d = Inr d' \<longleftrightarrow> d' = d\<lparr>event_envelopes := event_envelopes d @ [e]\<rparr>
    \<and> row_by en_event_id (en_event_id e) (event_envelopes d) = None
    \<and> \<not> list_ex (\<lambda>x. en_project_id x = en_project_id e
          \<and> en_project_sequence x = en_project_sequence e) (event_envelopes d)"
  by (auto simp: insert_envelope_def)

lemma envelope_backed_more:
  "envelope_backed es e \<Longrightarrow> envelope_backed (es @ xs) e"
  by (auto simp: envelope_backed_def row_by_append)

text \<open>A row with a new id and the next number is always accepted.\<close>

lemma insert_event_total:
  assumes "events_ok d" "row_by ev_event_id (ev_event_id e) (events d) = None"
    and "ev_sequence e = next_sequence (ev_stream_id e) d"
  shows "insert_event e d = Inr (d\<lparr>events := events d @ [e]\<rparr>)"
proof -
  have "\<not> list_ex (\<lambda>x. ev_stream_id x = ev_stream_id e \<and> ev_sequence x = ev_sequence e) (events d)"
    using assms(1,3)
    by (auto simp: list_ex_iff events_ok_def next_sequence_def dest: next_number_fresh)
  with assms(2) show ?thesis by (simp add: insert_event_def)
qed

lemma insert_event_ok:
  assumes "events_ok d" "insert_event e d = Inr d'"
    and "ev_sequence e = next_sequence (ev_stream_id e) d"
  shows "events_ok d'"
proof -
  from assms(2) have d': "d' = d\<lparr>events := events d @ [e]\<rparr>"
    and new: "row_by ev_event_id (ev_event_id e) (events d) = None"
    by (simp_all add: insert_event_result)
  have "numbered ev_stream_id ev_sequence (events d @ [e])"
    using assms(1,3) by (intro numbered_snoc) (simp_all add: events_ok_def next_sequence_def)
  moreover have "unique_by ev_event_id (events d @ [e])"
    using assms(1) new by (simp add: unique_by_insert events_ok_def)
  ultimately show ?thesis
    using assms(1) by (simp add: d' events_ok_def envelope_backed_more)
qed

lemma insert_envelope_total:
  assumes "events_ok d" "row_by en_event_id (en_event_id e) (event_envelopes d) = None"
    and "en_project_sequence e = next_project_sequence (en_project_id e) d"
  shows "insert_envelope e d = Inr (d\<lparr>event_envelopes := event_envelopes d @ [e]\<rparr>)"
proof -
  have "\<not> list_ex (\<lambda>x. en_project_id x = en_project_id e
      \<and> en_project_sequence x = en_project_sequence e) (event_envelopes d)"
    using assms(1,3)
    by (auto simp: list_ex_iff events_ok_def next_project_sequence_def dest: next_number_fresh)
  with assms(2) show ?thesis by (simp add: insert_envelope_def)
qed

lemma insert_envelope_ok:
  assumes "events_ok d" "insert_envelope e d = Inr d'"
    and "en_project_sequence e = next_project_sequence (en_project_id e) d"
    and "envelope_backed (events d) e"
  shows "events_ok d'"
proof -
  from assms(2) have d': "d' = d\<lparr>event_envelopes := event_envelopes d @ [e]\<rparr>"
    and new: "row_by en_event_id (en_event_id e) (event_envelopes d) = None"
    by (simp_all add: insert_envelope_result)
  have "numbered en_project_id en_project_sequence (event_envelopes d @ [e])"
    using assms(1,3) by (intro numbered_snoc) (simp_all add: events_ok_def next_project_sequence_def)
  moreover have "unique_by en_event_id (event_envelopes d @ [e])"
    using assms(1) new by (simp add: unique_by_insert events_ok_def)
  ultimately show ?thesis
    using assms(1,4) by (simp add: d' events_ok_def)
qed

lemma ensure_event_result:
  assumes "events_ok d" "ensure_event e dg js d = Inr (n, d1)"
  shows "events_ok d1 \<and> log_only d d1 \<and> event_envelopes d1 = event_envelopes d
    \<and> (\<exists>x. row_by ev_event_id (nv_event_id e) (events d1) = Some x \<and> ev_sequence x = n
         \<and> \<not> legacy_conflicts x e dg)"
proof (cases "row_by ev_event_id (nv_event_id e) (events d)")
  case None
  let ?x = "envelope_event e (next_sequence (nv_stream_id e) d) dg js"
  from None assms(2) have ins: "insert_event ?x d = Inr d1" and n: "n = next_sequence (nv_stream_id e) d"
    by (auto simp: ensure_event_def Let_def)
  have seq: "ev_sequence ?x = next_sequence (ev_stream_id ?x) d" by (simp add: envelope_event_def)
  from ins have d1: "d1 = d\<lparr>events := events d @ [?x]\<rparr>" by (simp add: insert_event_result)
  have "\<not> legacy_conflicts ?x e dg" "ev_sequence ?x = n" "ev_event_id ?x = nv_event_id e"
    by (simp_all add: legacy_conflicts_def envelope_event_def n)
  with None insert_event_ok[OF assms(1) ins seq] show ?thesis
    by (simp add: d1 row_by_append)
next
  case (Some x)
  with assms show ?thesis by (auto simp: ensure_event_def split: if_splits)
qed

text \<open>What a successful append does: it finds the envelope or adds it.\<close>

lemma append_envelope_result:
  assumes "events_ok d" "append_event_envelope_tx X e d = Inr (row, d')"
  shows "events_ok d' \<and> log_only d d'
    \<and> row_by en_event_id (nv_event_id e) (event_envelopes d') = Some row
    \<and> append_event_envelope_tx X e d' = Inr (row, d')"
proof -
  let ?js = "write_value (json_str X) (nv_payload e)" and
    ?pj = "write_value (json_str X) (parents_value (nv_parent_event_ids e))"
  let ?dg = "digest_text X ?js"
  have val: "validate_event_envelope e = Inr ()"
    using assms(2) by (auto simp: append_event_envelope_tx_def simp del: try_then_Inr
        simp: try_then_def split: sum.splits)
  show ?thesis
  proof (cases "row_by en_event_id (nv_event_id e) (event_envelopes d)")
    case (Some x)
    with assms show ?thesis
      by (auto simp: append_event_envelope_tx_def canonical_json_value_def canonical_bytes_def Let_def
          split: if_splits)
  next
    case None
    with assms(2) val obtain n d1 where en: "ensure_event e ?dg ?js d = Inr (n, d1)"
      and ins: "insert_envelope (envelope_row e n (next_project_sequence (nv_project_id e) d1) ?dg ?js) d1
        = Inr d'"
      and row: "row = envelope_row e n (next_project_sequence (nv_project_id e) d1) ?dg ?js"
      by (auto simp: append_event_envelope_tx_def canonical_json_value_def canonical_bytes_def Let_def)
    note er = ensure_event_result[OF assms(1) en]
    from er obtain x where x: "row_by ev_event_id (nv_event_id e) (events d1) = Some x"
      "ev_sequence x = n" "\<not> legacy_conflicts x e ?dg" by auto
    have rf: "en_event_id row = nv_event_id e" "en_project_id row = nv_project_id e"
      "en_project_sequence row = next_project_sequence (en_project_id row) d1"
      by (simp_all add: row envelope_row_def)
    have "agrees x row"
      using x by (simp add: agrees_def row envelope_row_def legacy_conflicts_def)
    then have "envelope_backed (events d1) row"
      using x(1) by (simp add: envelope_backed_def rf)
    with insert_envelope_ok[OF _ ins[folded row] rf(3)] er have ok: "events_ok d'" by simp
    from ins[folded row] have d': "d' = d1\<lparr>event_envelopes := event_envelopes d1 @ [row]\<rparr>"
      and new: "row_by en_event_id (en_event_id row) (event_envelopes d1) = None"
      by (simp_all add: insert_envelope_result)
    have found: "row_by en_event_id (nv_event_id e) (event_envelopes d') = Some row"
      using new by (simp add: d' row_by_append rf)
    have "envelope_matches_input X row e ?dg ?pj"
      by (simp add: envelope_matches_input_def row envelope_row_def canonical_json_value_def
          canonical_bytes_def)
    with found val have "append_event_envelope_tx X e d' = Inr (row, d')"
      by (simp add: append_event_envelope_tx_def canonical_json_value_def canonical_bytes_def Let_def)
    moreover have "log_only d d'"
      using er log_only_trans[OF _ log_only_envelope[of d1 row]] by (simp only: d')
    ultimately show ?thesis using ok found by simp
  qed
qed

lemma log_only_row:
  assumes "log_only d d'" "row_by ev_event_id i (events d) = Some x"
  shows "row_by ev_event_id i (events d') = Some x"
proof -
  from log_only_prefix[OF assms(1)] obtain xs where "events d' = events d @ xs"
    by (auto simp: prefix_def)
  with assms(2) show ?thesis by (simp add: row_by_append)
qed

lemma envelope_body_commit:
  "append_event_envelope_body X r e d = Inr (Commit d' k) \<longleftrightarrow>
    (\<exists>i row. projection_identity d = Inr i
      \<and> validate_identity_assertion X (nv_generation_id e) (nv_migration_id e) i ''event envelope'' = Inr ()
      \<and> append_event_envelope_tx X e d = Inr (row, d') \<and> k = (\<lambda>_. Inr row))"
  by (auto simp: append_event_envelope_body_def)

lemma log_only_identity [simp]: "log_only d d' \<Longrightarrow> projection_identity d' = projection_identity d"
  unfolding log_only_def
  by (elim exE) (simp add: projection_identity_def generation_identity_def meta_value_def)

text \<open>The store invariant of the log does not depend on the policy.\<close>

definition log_ok :: "redactor \<Rightarrow> db \<Rightarrow> bool" where
  "log_ok r d \<longleftrightarrow> events_ok d"

interpretation append_event_envelope: idempotent_op BeforeSqliteCommit AfterSqliteCommit
  append_event_envelope_prep "append_event_envelope_body X" log_ok for X
proof unfold_locales
  fix r d q e d' and k :: "db \<Rightarrow> event_envelope res"
  assume ok: "log_ok r d" and body: "append_event_envelope_body X r e d = Inr (Commit d' k)"
  from body[unfolded envelope_body_commit] obtain i row where
    i: "projection_identity d = Inr i"
      "validate_identity_assertion X (nv_generation_id e) (nv_migration_id e) i ''event envelope'' = Inr ()"
    and tx: "append_event_envelope_tx X e d = Inr (row, d')" and k: "k = (\<lambda>_. Inr row)"
    by (elim exE conjE)
  note res = append_envelope_result[OF ok[unfolded log_ok_def] tx]
  then show "log_ok r d'" by (simp add: log_ok_def)
  have "append_event_envelope_body X r e d' = Inr (Commit d' (\<lambda>_. Inr row))"
  proof -
    have "log_only d d'" using res by (elim conjE)
    then have "projection_identity d' = Inr i" using i(1) by simp
    with i(2) res show ?thesis
      unfolding envelope_body_commit by (intro exI[of _ i] exI[of _ row]) simp
  qed
  then show "\<exists>x. k d' = Inr x \<and> settled (append_event_envelope_body X r e d') d' x"
    by (simp add: k settled_def)
qed

lemma append_event_result:
  assumes "events_ok d" "append_event_body X r e d = Inr (Commit d' k)"
  shows "events_ok d' \<and> log_only d d'
    \<and> (\<exists>x. row_by ev_event_id (ne_event_id e) (events d') = Some x \<and> k = (\<lambda>_. Inr x)
         \<and> append_event_body X r e d' = Inr (Commit d' (\<lambda>_. Inr x)))"
proof -
  let ?js = "write_value (json_str X) (ne_payload e)"
  let ?dg = "sha256_hex X ?js"
  show ?thesis
  proof (cases "row_by ev_event_id (ne_event_id e) (events d)")
    case (Some x)
    with assms(2) have m: "event_matches x e ?dg" and d': "d' = d" and k: "k = (\<lambda>_. Inr x)"
      by (simp_all add: append_event_body_def canonical_bytes_def Let_def split: if_splits)
    have "append_event_body X r e d = Inr (Commit d (\<lambda>_. Inr x))"
      using Some m by (simp add: append_event_body_def canonical_bytes_def Let_def)
    with Some assms(1) show ?thesis by (simp add: d' k)
  next
    case None
    let ?row = "new_event_row e (next_sequence (ne_stream_id e) d) ?dg ?js"
    from None assms(2) obtain d1 en where ins: "insert_event ?row d = Inr d1"
      and tx: "append_event_envelope_tx X (event_envelope_of e) d1 = Inr (en, d')"
      and k: "k = (\<lambda>_. Inr ?row)"
      by (auto simp: append_event_body_def canonical_bytes_def Let_def)
    have f: "ev_event_id ?row = ne_event_id e" "ev_sequence ?row = next_sequence (ev_stream_id ?row) d"
      by (simp_all add: new_event_row_def)
    from ins have d1: "d1 = d\<lparr>events := events d @ [?row]\<rparr>" by (simp add: insert_event_result)
    note res = append_envelope_result[OF insert_event_ok[OF assms(1) ins f(2)] tx]
    have lo1: "log_only d d1" by (simp only: d1 log_only_event)
    have lo2: "log_only d1 d'" using res by (elim conjE)
    have row1: "row_by ev_event_id (ne_event_id e) (events d1) = Some ?row"
      using None by (simp add: d1 row_by_append f)
    note row = log_only_row[OF lo2 row1]
    have "event_matches ?row e ?dg" by (simp add: event_matches_def new_event_row_def)
    with row have "append_event_body X r e d' = Inr (Commit d' (\<lambda>_. Inr ?row))"
      by (simp add: append_event_body_def canonical_bytes_def Let_def)
    with row k res log_only_trans[OF lo1 lo2] show ?thesis by blast
  qed
qed

interpretation append_event: idempotent_op BeforeSqliteCommit AfterSqliteCommit
  redact_new_event "append_event_body X" log_ok for X
proof unfold_locales
  fix r d q e d' and k :: "db \<Rightarrow> event_record res"
  assume ok: "log_ok r d" and body: "append_event_body X r e d = Inr (Commit d' k)"
  note res = append_event_result[OF ok[unfolded log_ok_def] body]
  then show "log_ok r d'" by (simp add: log_ok_def)
  from res obtain x where "k = (\<lambda>_. Inr x)"
    "append_event_body X r e d' = Inr (Commit d' (\<lambda>_. Inr x))" by (elim exE conjE)
  then show "\<exists>x. k d' = Inr x \<and> settled (append_event_body X r e d') d' x"
    by (simp add: settled_def)
qed

lemma append_operation_event_result:
  assumes "events_ok d" "append_operation_event X i p a q v t n payload d = Inr d'"
    and "n = next_operation_event_sequence i d"
  shows "events_ok d' \<and> log_only d d'"
proof -
  let ?e = "operation_envelope_event i p a q v t n payload"
  let ?js = "write_value (json_str X) payload"
  let ?row = "envelope_event ?e n (digest_text X ?js) ?js"
  from assms(2) obtain d1 en where ins: "insert_event ?row d = Inr d1"
    and tx: "append_event_envelope_tx X ?e d1 = Inr (en, d')"
    by (auto simp: append_operation_event_def canonical_json_value_def canonical_bytes_def Let_def)
  have seq: "ev_sequence ?row = next_sequence (ev_stream_id ?row) d"
    using assms(3)
    by (simp add: envelope_event_def operation_envelope_event_def next_operation_event_sequence_def)
  note res = append_envelope_result[OF insert_event_ok[OF assms(1) ins seq] tx]
  from ins have "d1 = d\<lparr>events := events d @ [?row]\<rparr>" by (simp add: insert_event_result)
  then have lo: "log_only d d1" by (simp only: log_only_event)
  have "log_only d1 d'" using res by (elim conjE)
  from log_only_trans[OF lo this] res show ?thesis by simp
qed

text \<open>The backfill adds exactly the missing envelopes.\<close>

lemma backfill_rows_result:
  "backfill_rows X xs d = Inr d' \<Longrightarrow> events_ok d \<Longrightarrow> set xs \<subseteq> set (events d) \<Longrightarrow>
    events_ok d' \<and> log_only d d' \<and> events d' = events d
    \<and> (\<forall>i. row_by en_event_id i (event_envelopes d) \<noteq> None \<longrightarrow>
          row_by en_event_id i (event_envelopes d') \<noteq> None)
    \<and> (\<forall>x \<in> set xs. row_by en_event_id (ev_event_id x) (event_envelopes d') \<noteq> None)"
proof (induction X xs d rule: backfill_rows.induct)
  case (2 X x xs d)
  show ?case
  proof (cases "row_by en_event_id (ev_event_id x) (event_envelopes d)")
    case (Some e)
    with 2 show ?thesis by auto
  next
    case None
    with "2.prems"(1) obtain v d1 where parse: "json_parse X (ev_payload_json x) = Inr v"
      and ins: "insert_envelope (backfill_row x v (next_project_sequence (ev_project_id x) d)) d = Inr d1"
      and rest: "backfill_rows X xs d1 = Inr d'"
      by (auto split: sum.splits)
    let ?e = "backfill_row x v (next_project_sequence (ev_project_id x) d)"
    have d1: "d1 = d\<lparr>event_envelopes := event_envelopes d @ [?e]\<rparr>"
      using ins by (simp add: insert_envelope_result)
    have f: "en_event_id ?e = ev_event_id x"
      "en_project_sequence ?e = next_project_sequence (en_project_id ?e) d"
      by (simp_all add: backfill_row_def)
    have "row_by ev_event_id (ev_event_id x) (events d) = Some x"
      using "2.prems" by (intro row_by_unique) (auto simp: events_ok_def)
    moreover have "agrees x ?e" by (simp add: agrees_def backfill_row_def)
    ultimately have "envelope_backed (events d) ?e" by (simp add: envelope_backed_def f)
    note ok1 = insert_envelope_ok[OF "2.prems"(2) ins f(2) this]
    have sub: "set xs \<subseteq> set (events d1)" using "2.prems"(3) by (simp add: d1)
    note IH = "2.IH"(2)[OF _ parse ins rest ok1 sub]
    have lo: "log_only d d1" by (simp only: d1 log_only_envelope)
    have mono: "\<forall>i. row_by en_event_id i (event_envelopes d) \<noteq> None \<longrightarrow>
        row_by en_event_id i (event_envelopes d1) \<noteq> None"
      by (auto simp: d1 row_by_append)
    have here: "row_by en_event_id (ev_event_id x) (event_envelopes d1) \<noteq> None"
      using None by (simp add: d1 row_by_append f)
    from IH None have IH': "events_ok d'" "log_only d1 d'" "events d' = events d1"
      "\<forall>i. row_by en_event_id i (event_envelopes d1) \<noteq> None \<longrightarrow>
          row_by en_event_id i (event_envelopes d') \<noteq> None"
      "\<forall>x \<in> set xs. row_by en_event_id (ev_event_id x) (event_envelopes d') \<noteq> None" by simp_all
    have "events d1 = events d" by (simp add: d1)
    then have ev: "events d' = events d" using IH'(3) by simp
    have mono': "\<forall>i. row_by en_event_id i (event_envelopes d) \<noteq> None \<longrightarrow>
          row_by en_event_id i (event_envelopes d') \<noteq> None"
      using mono IH'(4) by blast
    have all: "\<forall>y \<in> set (x # xs). row_by en_event_id (ev_event_id y) (event_envelopes d') \<noteq> None"
      using here IH'(4,5) by (simp del: not_None_eq)
    show ?thesis
      by (intro conjI IH'(1) log_only_trans[OF lo IH'(2)] ev mono' all)
  qed
qed simp

lemma backfill_covered:
  "\<forall>x \<in> set xs. row_by en_event_id (ev_event_id x) (event_envelopes d) \<noteq> None \<Longrightarrow>
    backfill_rows X xs d = Inr d"
  by (induction X xs d rule: backfill_rows.induct) simp_all

section \<open>Any sequence of calls\<close>

text \<open>An event call with any failpoint armed before it, or the backfill of an opening.\<close>

inductive event_step :: "externals \<Rightarrow> metadata_store \<Rightarrow> metadata_store \<Rightarrow> bool" for X where
  event: "event_step X st (snd (append_event X (with_failpoint fp st) e))"
| envelope: "event_step X st (snd (append_event_envelope X (with_failpoint fp st) v))"
| backfill: "backfill_legacy_event_envelopes X (st_db st) = Inr d \<Longrightarrow>
    event_step X st (st\<lparr>st_db := d\<rparr>)"

lemma event_step_keeps:
  assumes "event_step X st st'" "events_ok (st_db st)"
  shows "events_ok (st_db st') \<and> log_only (st_db st) (st_db st') \<and> st_redactor st' = st_redactor st"
  using assms
proof (cases rule: event_step.cases)
  case (event fp e)
  have keeps: "events_ok d \<and> log_only (st_db st) d"
    if "append_event_body X r c (st_db st) = Inr (Commit d k)" for r c d k
    using append_event_result[OF assms(2) that] by simp
  have "events_ok (st_db (snd (append_event X (with_failpoint fp st) e)))
      \<and> log_only (st_db st) (st_db (snd (append_event X (with_failpoint fp st) e)))"
    unfolding append_event_def
    by (rule run_op_keeps[where I = "\<lambda>d. events_ok d \<and> log_only (st_db st) d"])
      (use keeps assms(2) in simp_all)
  with event show ?thesis by (simp add: append_event_def)
next
  case (envelope fp v)
  have keeps: "events_ok d \<and> log_only (st_db st) d"
    if "append_event_envelope_body X r c (st_db st) = Inr (Commit d k)" for r c d k
  proof -
    from that[unfolded envelope_body_commit] obtain row where
      "append_event_envelope_tx X c (st_db st) = Inr (row, d)" by (elim exE conjE)
    from append_envelope_result[OF assms(2) this] show ?thesis by simp
  qed
  have "events_ok (st_db (snd (append_event_envelope X (with_failpoint fp st) v)))
      \<and> log_only (st_db st) (st_db (snd (append_event_envelope X (with_failpoint fp st) v)))"
    unfolding append_event_envelope_def
    by (rule run_op_keeps[where I = "\<lambda>d. events_ok d \<and> log_only (st_db st) d"])
      (use keeps assms(2) in simp_all)
  with envelope show ?thesis by (simp add: append_event_envelope_def)
next
  case (backfill d)
  with backfill_rows_result[of X "events (st_db st)" "st_db st" d] assms(2) show ?thesis
    by (simp add: backfill_legacy_event_envelopes_def)
qed

lemma event_steps_keep:
  "(event_step X)\<^sup>*\<^sup>* st st' \<Longrightarrow> events_ok (st_db st) \<Longrightarrow>
    events_ok (st_db st') \<and> log_only (st_db st) (st_db st') \<and> st_redactor st' = st_redactor st"
proof (induction rule: rtranclp_induct)
  case (step y z)
  then have y: "events_ok (st_db y)" "log_only (st_db st) (st_db y)" "st_redactor y = st_redactor st"
    by simp_all
  from event_step_keeps[OF step.hyps(2) y(1)] y(2,3) log_only_trans[OF y(2)] show ?case by simp
qed simp

text \<open>Rows that are numbered densely are already in order.\<close>

lemma dense_sorted: "dense ns \<Longrightarrow> sorted ns"
proof -
  assume "dense ns"
  moreover have "sorted (map (\<lambda>i. int i + 1) [0..<length ns])"
    by (simp add: sorted_iff_nth_mono)
  ultimately show "sorted ns" by (metis dense_def)
qed

lemma numbered_sorted:
  "numbered key num rows \<Longrightarrow>
    order_rows num (filter (\<lambda>r. key r = k) rows) = filter (\<lambda>r. key r = k) rows"
  using dense_sorted[of "map num (filter (\<lambda>r. key r = k) rows)"]
  by (simp add: order_rows_def numbered_def sorted_sort_id sort_key_id_if_sorted)

lemma dense_after: "dense (map num rows) \<Longrightarrow> filter (\<lambda>r. num r > int n) rows = drop n rows"
proof (induction rows rule: rev_induct)
  case (snoc x rows)
  then have "map num rows @ [num x] = map (\<lambda>i. int i + 1) [0..<length rows] @ [int (length rows) + 1]"
    by (simp add: dense_def)
  then have "dense (map num rows)" "num x = int (length rows) + 1"
    by (simp_all add: dense_def)
  with snoc.IH show ?case by (cases "n \<le> length rows") auto
qed simp

text \<open>The envelopes of one project, in the order they were appended.\<close>

definition project_log :: "db \<Rightarrow> utf8 \<Rightarrow> event_envelope list" where
  "project_log d p = filter (\<lambda>e. en_project_id e = p) (event_envelopes d)"

lemma list_envelopes_after:
  assumes "numbered en_project_id en_project_sequence (event_envelopes d)"
  shows "list_event_envelopes d p (int n) = drop n (project_log d p)"
proof -
  have dn: "dense (map en_project_sequence (project_log d p))"
    using assms by (simp add: numbered_def project_log_def)
  have "filter (\<lambda>e. en_project_id e = p \<and> en_project_sequence e > int n)
      (event_envelopes d) = drop n (project_log d p)"
    using dense_after[OF dn, of n] unfolding project_log_def by (simp only: filter_filter)
  moreover have "sorted (map en_project_sequence (drop n (project_log d p)))"
    using dense_sorted[OF dn] by (metis drop_map sorted_wrt_drop)
  ultimately show ?thesis
    by (simp add: list_event_envelopes_def order_rows_def sort_key_id_if_sorted)
qed

lemma list_events_stream:
  "events_ok d \<Longrightarrow> list_events r d s = filter (\<lambda>e. ev_stream_id e = redact_text r s) (events d)"
  unfolding list_events_def by (rule numbered_sorted) (simp add: events_ok_def)

section \<open>Properties\<close>

text \<open>
  C14. In every store reached from an empty one by event calls, openings and faults, listing a
  stream gives its events in the order they were appended, numbered 1, 2, 3, ... without gaps,
  and the envelopes of a project are numbered the same way; reading a project after a cursor
  gives exactly the envelopes that a reader at that cursor has not seen.
\<close>

theorem event_log_dense:
  assumes "(event_step X)\<^sup>*\<^sup>* (open_store r) st"
  shows "(let es = list_events r (st_db st) s in
      es = filter (\<lambda>e. ev_stream_id e = redact_text r s) (events (st_db st))
      \<and> map ev_sequence es = map (\<lambda>i. int i + 1) [0..<length es])
    \<and> (let vs = list_event_envelopes (st_db st) p 0 in
      map en_project_sequence vs = map (\<lambda>i. int i + 1) [0..<length vs]
      \<and> list_event_envelopes (st_db st) p (int n) = drop n vs)"
proof -
  have ok: "events_ok (st_db st)" using event_steps_keep[OF assms] by (simp add: events_ok_empty)
  then have num: "numbered ev_stream_id ev_sequence (events (st_db st))"
    "numbered en_project_id en_project_sequence (event_envelopes (st_db st))"
    by (simp_all add: events_ok_def)
  have d: "dense (map en_project_sequence (project_log (st_db st) p))"
    using num(2) by (simp add: numbered_def project_log_def)
  note after = list_envelopes_after[OF num(2), of p]
  show ?thesis
    using num(1) d after[of 0] after[of n] list_events_stream[OF ok]
    by (simp add: Let_def numbered_def dense_def)
qed

text \<open>
  The log is append-only: whatever event calls and faults follow, the events and envelopes
  already there stay, unchanged and at their place, and no other table changes.
\<close>

lemma event_log_append_only:
  assumes "(event_step X)\<^sup>*\<^sup>* (open_store r) st" "(event_step X)\<^sup>*\<^sup>* st st'"
  shows "prefix (events (st_db st)) (events (st_db st'))
    \<and> prefix (event_envelopes (st_db st)) (event_envelopes (st_db st'))
    \<and> st_db st' = (st_db st)\<lparr>events := events (st_db st'),
        event_envelopes := event_envelopes (st_db st')\<rparr>"
proof -
  have "events_ok (st_db st)" using event_steps_keep[OF assms(1)] by (simp add: events_ok_empty)
  then have lo: "log_only (st_db st) (st_db st')" using event_steps_keep[OF assms(2)] by simp
  then have "st_db st' = (st_db st)\<lparr>events := events (st_db st'),
      event_envelopes := event_envelopes (st_db st')\<rparr>"
    unfolding log_only_def by (elim exE) simp
  with log_only_prefix[OF lo] show ?thesis by simp
qed

text \<open>
  An event is appended exactly once: repeating an append that succeeded returns the same
  record and changes nothing, and a repetition after one injected fault ends in the answer and
  the database of an undisturbed run.
\<close>

lemma append_event_exactly_once:
  assumes "(event_step X)\<^sup>*\<^sup>* (open_store r) st"
    and "st1 = snd (append_event X (with_failpoint fp st) e)"
  shows "fst (append_event X (with_failpoint None st1) e)
      = fst (append_event X (with_failpoint None st) e)
    \<and> st_db (snd (append_event X (with_failpoint None st1) e))
      = st_db (snd (append_event X (with_failpoint None st) e))
    \<and> (let (out, st2) = append_event X (with_failpoint None st) e in
        is_ok out \<longrightarrow> append_event X st2 e = (out, st2))"
proof -
  have ok: "log_ok (st_redactor st) (st_db st)"
    using event_steps_keep[OF assms(1)] by (simp add: events_ok_empty log_ok_def)
  obtain out st2 where run: "append_event X (with_failpoint None st) e = (out, st2)" by fastforce
  have "append_event X st2 e = (out, st2)" if "is_ok out"
  proof -
    from that obtain x where x: "out = Inr x" by (cases out) simp_all
    show ?thesis
      using append_event.again[of "with_failpoint None st" X e x st2] ok run
      by (simp add: append_event_def x)
  qed
  with append_event.retry_converges[OF ok assms(2)[unfolded append_event_def]] run show ?thesis
    unfolding append_event_def by simp
qed

definition sample_event :: "utf8 \<Rightarrow> new_event" where
  "sample_event i = \<lparr>ne_event_id = i, ne_project_id = ''p1'', ne_stream_id = ''s1'',
     ne_schema_version = ''0.1'', ne_actor_id = None, ne_request_id = None,
     ne_occurred_at = ''d1'', ne_payload = JNull\<rparr>"

definition sample_log :: metadata_store where
  "sample_log = snd (append_event sample_externals (with_failpoint (Some AfterSqliteCommit)
     (open_store default_redactor)) (sample_event ''e1''))"

lemma sample_log_reached: "(event_step sample_externals)\<^sup>*\<^sup>* (open_store default_redactor) sample_log"
  unfolding sample_log_def by (rule r_into_rtranclp, rule event_step.event)

theorem event_log_dense_witness:
  "map ev_sequence (list_events default_redactor (st_db sample_log) ''s1'')
     = map (\<lambda>i. int i + 1) [0..<length (list_events default_redactor (st_db sample_log) ''s1'')]
   \<and> list_event_envelopes (st_db sample_log) ''p1'' 1
     = drop 1 (list_event_envelopes (st_db sample_log) ''p1'' 0)"
  using event_log_dense[OF sample_log_reached, of "''s1''" "''p1''" 1]
  unfolding Let_def of_nat_1 by (elim conjE) (rule conjI)

lemma event_log_append_only_witness:
  "prefix (events (st_db sample_log)) (events (st_db (snd (append_event sample_externals
     (with_failpoint None sample_log) (sample_event ''e2'')))))"
proof -
  have "(event_step sample_externals)\<^sup>*\<^sup>* sample_log (snd (append_event sample_externals
     (with_failpoint None sample_log) (sample_event ''e2'')))"
    by (rule r_into_rtranclp, rule event_step.event)
  from event_log_append_only[OF sample_log_reached this] show ?thesis by (rule conjunct1)
qed

lemma append_event_exactly_once_witness:
  "fst (append_event sample_externals (with_failpoint None sample_log) (sample_event ''e1''))
    = fst (append_event sample_externals (with_failpoint None (open_store default_redactor))
        (sample_event ''e1''))"
  using append_event_exactly_once[OF rtranclp.rtrancl_refl sample_log_def] by blast

end
