(* ===== verification/Operation_Store.thy ===== *)
theory Operation_Store
  imports Journal_Store Workspace_Store Event_Store
begin

text \<open>
  The operation ledger of \<open>src/src/metadata.rs\<close>: an operation is started with its complete
  envelope and finished with exactly one outcome; each change writes the operation row, its
  journal row and an immutable event in one transaction.
\<close>

section \<open>Redaction and checks\<close>

definition redact_operation_ref :: "redactor \<Rightarrow> operation_ref \<Rightarrow> operation_ref" where
  "redact_operation_ref r x = \<lparr>of_kind = redact_text r (of_kind x),
     of_reference = redact_text r (of_reference x), of_media_type = redact_opt r (of_media_type x)\<rparr>"

definition redact_json_opt :: "redactor \<Rightarrow> json option \<Rightarrow> json option" where
  "redact_json_opt r v = map_option (redact_value r) v"

definition redact_operation_envelope :: "redactor \<Rightarrow> operation_envelope \<Rightarrow> operation_envelope" where
  "redact_operation_envelope r e =
     \<lparr>ov_operation_id = redact_text r (ov_operation_id e),
      ov_project_id = redact_text r (ov_project_id e), ov_request_id = redact_text r (ov_request_id e),
      ov_agent_id = redact_text r (ov_agent_id e), ov_session_id = redact_text r (ov_session_id e),
      ov_workspace_id = redact_opt r (ov_workspace_id e),
      ov_environment_id = redact_opt r (ov_environment_id e),
      ov_parent_operation_id = redact_opt r (ov_parent_operation_id e),
      ov_schema_version = redact_text r (ov_schema_version e),
      ov_started_at = redact_text r (ov_started_at e), ov_tool = redact_text r (ov_tool e),
      ov_action = redact_text r (ov_action e),
      ov_input_refs = map (redact_operation_ref r) (ov_input_refs e),
      ov_output_refs = map (redact_operation_ref r) (ov_output_refs e),
      ov_resource = redact_json_opt r (ov_resource e),
      ov_before_state = redact_json_opt r (ov_before_state e),
      ov_after_state = redact_json_opt r (ov_after_state e),
      ov_reversibility = redact_text r (ov_reversibility e),
      ov_replayability = redact_text r (ov_replayability e),
      ov_side_effect = redact_text r (ov_side_effect e),
      ov_policy_decision = redact_json_opt r (ov_policy_decision e)\<rparr>"

definition redact_operation_error :: "redactor \<Rightarrow> operation_error \<Rightarrow> operation_error" where
  "redact_operation_error r e =
     \<lparr>oe_code = redact_text r (oe_code e), oe_message = redact_text r (oe_message e),
      oe_retryable = oe_retryable e, oe_details = redact_json_opt r (oe_details e),
      oe_safe_to_expose = oe_safe_to_expose e\<rparr>"

definition redact_operation_outcome :: "redactor \<Rightarrow> operation_outcome \<Rightarrow> operation_outcome" where
  "redact_operation_outcome r x =
     \<lparr>oo_status = redact_text r (oo_status x), oo_finished_at = redact_text r (oo_finished_at x),
      oo_output_refs = map_option (map (redact_operation_ref r)) (oo_output_refs x),
      oo_after_state = redact_json_opt r (oo_after_state x),
      oo_result = redact_json_opt r (oo_result x),
      oo_error = map_option (redact_operation_error r) (oo_error x)\<rparr>"

definition validate_operation_ref :: "operation_ref \<Rightarrow> unit res" where
  "validate_operation_ref x =
     try_then (validate_non_empty (of_kind x) ''operation reference kind'') (\<lambda>_.
     try_then (validate_non_empty (of_reference x) ''operation reference'') (\<lambda>_.
     validate_opt (of_media_type x) ''operation reference media type''))"

definition validate_operation_envelope :: "operation_envelope \<Rightarrow> unit res" where
  "validate_operation_envelope e =
     try_then (validate_labelled [(ov_operation_id e, ''operation id''),
       (ov_project_id e, ''operation project id''), (ov_request_id e, ''operation request id''),
       (ov_agent_id e, ''operation agent id''), (ov_session_id e, ''operation session id''),
       (ov_schema_version e, ''operation schema version''), (ov_started_at e, ''operation started_at''),
       (ov_tool e, ''operation tool''), (ov_action e, ''operation action''),
       (ov_reversibility e, ''operation reversibility''),
       (ov_replayability e, ''operation replayability''),
       (ov_side_effect e, ''operation side effect'')]) (\<lambda>_.
     try_then (check_all validate_operation_ref (ov_input_refs e @ ov_output_refs e)) (\<lambda>_.
     check_all (\<lambda>v. validate_opt v ''operation association'')
       [ov_workspace_id e, ov_environment_id e, ov_parent_operation_id e]))"

definition outcome_statuses :: "utf8 list" where
  "outcome_statuses = [''completed'', ''failed'', ''cancelled'', ''unknown'']"

definition validate_operation_outcome :: "operation_outcome \<Rightarrow> unit res" where
  "validate_operation_outcome x =
     try_then (validate_non_empty (oo_status x) ''operation status'') (\<lambda>_.
     try_then (validate_non_empty (oo_finished_at x) ''operation finished_at'') (\<lambda>_.
     if oo_status x \<notin> set outcome_statuses
     then Inl (InvalidInput ''operation outcome status is unsupported'')
     else if \<not> (if oo_status x = ''completed'' then oo_result x \<noteq> None \<and> oo_error x = None
                else oo_result x = None \<and> oo_error x \<noteq> None)
     then Inl (InvalidInput ''operation outcome must contain exactly one result or error'')
     else try_then (case oo_error x of None \<Rightarrow> Inr () | Some e \<Rightarrow>
            try_then (validate_non_empty (oe_code e) ''operation error code'') (\<lambda>_.
            validate_non_empty (oe_message e) ''operation error message'')) (\<lambda>_.
     case oo_output_refs x of None \<Rightarrow> Inr () | Some xs \<Rightarrow> check_all validate_operation_ref xs)))"

definition operation_project :: "db \<Rightarrow> utf8 \<Rightarrow> utf8 option" where
  "operation_project d i = map_option op_project_id (row_by op_operation_id i (operations d))"

definition bound_to :: "(utf8 \<Rightarrow> utf8 option) \<Rightarrow> utf8 option \<Rightarrow> utf8 \<Rightarrow> bool" where
  "bound_to owner v project_id = (case v of None \<Rightarrow> True | Some x \<Rightarrow> owner x = Some project_id)"

definition validate_operation_bindings ::
  "db \<Rightarrow> utf8 \<Rightarrow> utf8 option \<Rightarrow> utf8 option \<Rightarrow> utf8 option \<Rightarrow> unit res" where
  "validate_operation_bindings d project_id workspace_id environment_id parent_operation_id =
     (if \<not> bound_to (workspace_project d) workspace_id project_id
      then Inl (Conflict ''operation workspace is missing or belongs to another project'')
      else if \<not> bound_to (environment_project d) environment_id project_id
      then Inl (Conflict ''operation environment is missing or belongs to another project'')
      else if \<not> bound_to (operation_project d) parent_operation_id project_id
      then Inl (Conflict ''operation parent is missing or belongs to another project'')
      else Inr ())"

section \<open>JSON forms\<close>

text \<open>\<open>serde_json::to_value\<close> of the structs: an absent option is \<open>null\<close>.\<close>

definition opt_value :: "json option \<Rightarrow> json" where
  "opt_value v = (case v of None \<Rightarrow> JNull | Some x \<Rightarrow> x)"

definition opt_text_value :: "utf8 option \<Rightarrow> json" where
  "opt_text_value v = (case v of None \<Rightarrow> JNull | Some x \<Rightarrow> JString x)"

definition operation_ref_value :: "operation_ref \<Rightarrow> json" where
  "operation_ref_value x = JObject [(''kind'', JString (of_kind x)),
     (''media_type'', opt_text_value (of_media_type x)), (''reference'', JString (of_reference x))]"

definition refs_value :: "operation_ref list \<Rightarrow> json" where
  "refs_value xs = JArray (map operation_ref_value xs)"

definition operation_error_value :: "operation_error \<Rightarrow> json" where
  "operation_error_value e = JObject [(''code'', JString (oe_code e)),
     (''details'', opt_value (oe_details e)), (''message'', JString (oe_message e)),
     (''retryable'', JBool (oe_retryable e)), (''safe_to_expose'', JBool (oe_safe_to_expose e))]"

definition operation_envelope_value :: "operation_envelope \<Rightarrow> json" where
  "operation_envelope_value e = JObject
     [(''action'', JString (ov_action e)), (''after_state'', opt_value (ov_after_state e)),
      (''agent_id'', JString (ov_agent_id e)), (''before_state'', opt_value (ov_before_state e)),
      (''environment_id'', opt_text_value (ov_environment_id e)),
      (''input_refs'', refs_value (ov_input_refs e)),
      (''operation_id'', JString (ov_operation_id e)),
      (''output_refs'', refs_value (ov_output_refs e)),
      (''parent_operation_id'', opt_text_value (ov_parent_operation_id e)),
      (''policy_decision'', opt_value (ov_policy_decision e)),
      (''project_id'', JString (ov_project_id e)),
      (''replayability'', JString (ov_replayability e)),
      (''request_id'', JString (ov_request_id e)), (''resource'', opt_value (ov_resource e)),
      (''reversibility'', JString (ov_reversibility e)),
      (''schema_version'', JString (ov_schema_version e)),
      (''session_id'', JString (ov_session_id e)), (''side_effect'', JString (ov_side_effect e)),
      (''started_at'', JString (ov_started_at e)), (''tool'', JString (ov_tool e)),
      (''workspace_id'', opt_text_value (ov_workspace_id e))]"

definition operation_outcome_value :: "operation_outcome \<Rightarrow> json" where
  "operation_outcome_value x = JObject
     [(''after_state'', opt_value (oo_after_state x)),
      (''error'', (case oo_error x of None \<Rightarrow> JNull | Some e \<Rightarrow> operation_error_value e)),
      (''finished_at'', JString (oo_finished_at x)),
      (''output_refs'', (case oo_output_refs x of None \<Rightarrow> JNull | Some xs \<Rightarrow> refs_value xs)),
      (''result'', opt_value (oo_result x)), (''status'', JString (oo_status x))]"

definition operation_envelope_digest :: "externals \<Rightarrow> operation_envelope \<Rightarrow> utf8 res" where
  "operation_envelope_digest X e =
     try_then (canonical_digest X ''operation/envelope/v1'' (operation_envelope_value e))
       (\<lambda>h. Inr (''sha256:'' @ h))"

definition operation_value_digest :: "externals \<Rightarrow> json \<Rightarrow> utf8 res" where
  "operation_value_digest X v =
     try_then (canonical_digest X ''operation/value/v1'' v) (\<lambda>h. Inr (''sha256:'' @ h))"

text \<open>The error column is read back from JSON: details that are \<open>null\<close> come back absent.\<close>

definition stored_error :: "operation_error \<Rightarrow> operation_error" where
  "stored_error e = (if oe_details e = Some JNull then e\<lparr>oe_details := None\<rparr> else e)"

section \<open>Reads\<close>

definition op_request_key :: "operation_record \<Rightarrow> utf8 \<times> utf8 \<times> utf8" where
  "op_request_key x = (op_project_id x, op_agent_id x, op_request_id x)"

definition operation_by :: "redactor \<Rightarrow> db \<Rightarrow> utf8 \<Rightarrow> operation_record option" where
  "operation_by r d operation_id = row_by op_operation_id (redact_text r operation_id) (operations d)"

definition operation_record_for_request ::
  "redactor \<Rightarrow> db \<Rightarrow> utf8 \<Rightarrow> utf8 \<Rightarrow> utf8 \<Rightarrow> operation_record option" where
  "operation_record_for_request r d project_id agent_id request_id =
     row_by op_request_key (redact_text r project_id, redact_text r agent_id, redact_text r request_id)
       (operations d)"

definition latest_operation_for_workspace ::
  "redactor \<Rightarrow> db \<Rightarrow> utf8 \<Rightarrow> operation_record option" where
  "latest_operation_for_workspace r d workspace_id =
     (case rev (order_rows (\<lambda>x. (op_updated_at x, op_operation_id x))
        (filter (\<lambda>x. op_workspace_id x = Some (redact_text r workspace_id)) (operations d))) of
        [] \<Rightarrow> None | x # _ \<Rightarrow> Some x)"

definition has_unresolved_operation_for_workspace :: "redactor \<Rightarrow> db \<Rightarrow> utf8 \<Rightarrow> bool" where
  "has_unresolved_operation_for_workspace r d workspace_id =
     list_ex (\<lambda>x. op_workspace_id x = Some (redact_text r workspace_id)
        \<and> op_lifecycle_status x \<in> {''started'', ''unknown''}) (operations d)"

section \<open>Starting\<close>

record operation_start =
  os_envelope :: operation_envelope
  os_digest :: utf8
  os_envelope_json :: utf8

definition start_operation_prep ::
  "externals \<Rightarrow> redactor \<Rightarrow> operation_envelope \<Rightarrow> operation_start res" where
  "start_operation_prep X r e0 =
     (let e = redact_operation_envelope r e0 in
      try_then (validate_operation_envelope e) (\<lambda>_.
      try_then (operation_envelope_digest X e) (\<lambda>digest.
      try_then (canonical_json_value X (operation_envelope_value e)) (\<lambda>envelope_json.
      Inr \<lparr>os_envelope = e, os_digest = digest, os_envelope_json = envelope_json\<rparr>))))"

definition started_row :: "redactor \<Rightarrow> operation_envelope \<Rightarrow> utf8 \<Rightarrow> operation_record" where
  "started_row r e digest =
     \<lparr>op_operation_id = ov_operation_id e, op_project_id = ov_project_id e,
      op_request_id = ov_request_id e, op_agent_id = ov_agent_id e, op_session_id = ov_session_id e,
      op_workspace_id = ov_workspace_id e, op_environment_id = ov_environment_id e,
      op_parent_operation_id = ov_parent_operation_id e, op_schema_version = ov_schema_version e,
      op_started_at = ov_started_at e, op_finished_at = None, op_tool = ov_tool e,
      op_action = ov_action e, op_input_refs = ov_input_refs e, op_output_refs = ov_output_refs e,
      op_resource = ov_resource e, op_before_state = ov_before_state e,
      op_after_state = ov_after_state e, op_result = None, op_error = None,
      op_reversibility = ov_reversibility e, op_replayability = ov_replayability e,
      op_side_effect = ov_side_effect e, op_policy_decision = ov_policy_decision e,
      op_lifecycle_status = ''started'', op_recording_status = ''durable'',
      op_redaction_profile_id = profile_id r, op_redaction_profile_version = version r,
      op_envelope_digest = digest, op_updated_at = ov_started_at e\<rparr>"

definition intent_row :: "operation_envelope \<Rightarrow> utf8 \<Rightarrow> journal_operation" where
  "intent_row e envelope_json =
     \<lparr>jo_project_id = ov_project_id e, jo_actor_id = ov_agent_id e,
      jo_request_id = ov_request_id e, jo_operation_id = ov_operation_id e,
      jo_phase = ''intent_durable'', jo_payload_json = envelope_json,
      jo_created_at = ov_started_at e\<rparr>"

definition started_payload :: "utf8 \<Rightarrow> utf8 \<Rightarrow> json" where
  "started_payload operation_id digest = JObject
     [(''envelope_digest'', JString digest), (''lifecycle_status'', JString ''started''),
      (''operation_id'', JString operation_id), (''recording_status'', JString ''durable'')]"

text \<open>\<open>INSERT ... ON CONFLICT DO NOTHING\<close>, then the comparison with the row that was there.\<close>

definition journal_intent :: "operation_envelope \<Rightarrow> utf8 \<Rightarrow> db \<Rightarrow> db res" where
  "journal_intent e envelope_json d =
     (let row = intent_row e envelope_json in
      case row_by jo_key (jo_key row) (operation_journal d) of
        None \<Rightarrow> Inr (d\<lparr>operation_journal := operation_journal d @ [row]\<rparr>)
      | Some existing \<Rightarrow>
          if jo_operation_id existing \<noteq> ov_operation_id e \<or> jo_payload_json existing \<noteq> envelope_json
          then Inl (IdempotencyKeyReuse (ov_request_id e)) else Inr d)"

definition start_operation_tx ::
  "externals \<Rightarrow> redactor \<Rightarrow> operation_start \<Rightarrow> db \<Rightarrow> operation_record tx_end res" where
  "start_operation_tx X r s d =
     (let e = os_envelope s in
      case row_by op_request_key (ov_project_id e, ov_agent_id e, ov_request_id e) (operations d) of
        Some existing \<Rightarrow>
          if op_envelope_digest existing \<noteq> os_digest s
          then Inl (IdempotencyKeyReuse (ov_request_id e))
          else Inr (Finished existing)
      | None \<Rightarrow>
          if row_by op_operation_id (ov_operation_id e) (operations d) \<noteq> None
          then Inl (Conflict ''operation identity is already used by another request'')
          else
            try_then (validate_operation_bindings d (ov_project_id e) (ov_workspace_id e)
              (ov_environment_id e) (ov_parent_operation_id e)) (\<lambda>_.
            try_then (journal_intent e (os_envelope_json s) d) (\<lambda>d1.
            let d2 = d1\<lparr>operations := operations d1 @ [started_row r e (os_digest s)]\<rparr> in
            try_then (append_operation_event X (ov_operation_id e) (ov_project_id e) (ov_agent_id e)
              (ov_request_id e) (ov_schema_version e) (ov_started_at e)
              (next_operation_event_sequence (ov_operation_id e) d2)
              (started_payload (ov_operation_id e) (os_digest s)) d2) (\<lambda>d3.
            Inr (Commit d3 (\<lambda>d'. case operation_by r d' (ov_operation_id e) of
                None \<Rightarrow> Inl (Integrity ''operation disappeared after start'')
              | Some x \<Rightarrow> Inr x))))))"

definition start_operation ::
  "externals \<Rightarrow> metadata_store \<Rightarrow> operation_envelope \<Rightarrow> operation_record res \<times> metadata_store" where
  "start_operation X = sqlite_op (start_operation_prep X) (start_operation_tx X)"

section \<open>Finishing\<close>

record finish_request =
  fq_operation_id :: utf8
  fq_outcome :: operation_outcome
  fq_event :: "new_event_envelope option"

text \<open>The checks of \<open>finish_operation_with_event\<close> on its event, then those of
  \<open>finish_operation_internal\<close>; the first ones read the repository identity.\<close>

definition finish_event_check ::
  "externals \<Rightarrow> redactor \<Rightarrow> db \<Rightarrow> new_event_envelope option \<Rightarrow> new_event_envelope option res" where
  "finish_event_check X r d v =
     (case v of
        None \<Rightarrow> Inr None
      | Some e0 \<Rightarrow>
          (let e = redact_event_envelope r e0 in
           try_then (validate_event_envelope e) (\<lambda>_.
           try_then (projection_identity d) (\<lambda>expected.
           try_then (validate_identity_assertion X (nv_generation_id e) (nv_migration_id e) expected
             ''operation completion event'') (\<lambda>_.
           Inr (Some e))))))"

definition finish_operation_prep ::
  "externals \<Rightarrow> redactor \<Rightarrow> db \<Rightarrow> finish_request \<Rightarrow> finish_request res" where
  "finish_operation_prep X r d q =
     try_then (finish_event_check X r d (fq_event q)) (\<lambda>event.
     try_then (validate_non_empty (redact_text r (fq_operation_id q)) ''operation id'') (\<lambda>_.
     let outcome = redact_operation_outcome r (fq_outcome q) in
     try_then (validate_operation_outcome outcome) (\<lambda>_.
     Inr \<lparr>fq_operation_id = redact_text r (fq_operation_id q), fq_outcome = outcome,
          fq_event = event\<rparr>)))"

definition final_output_refs :: "operation_outcome \<Rightarrow> operation_record \<Rightarrow> operation_ref list" where
  "final_output_refs x current =
     (case oo_output_refs x of Some xs \<Rightarrow> xs | None \<Rightarrow> op_output_refs current)"

definition final_after_state :: "operation_outcome \<Rightarrow> operation_record \<Rightarrow> json option" where
  "final_after_state x current =
     (case oo_after_state x of Some v \<Rightarrow> Some v | None \<Rightarrow> op_after_state current)"

definition same_outcome :: "operation_outcome \<Rightarrow> operation_record \<Rightarrow> bool" where
  "same_outcome x current \<longleftrightarrow> op_finished_at current = Some (oo_finished_at x)
     \<and> op_output_refs current = final_output_refs x current
     \<and> op_after_state current = final_after_state x current
     \<and> op_result current = oo_result x \<and> op_error current = oo_error x"

definition append_completion ::
  "externals \<Rightarrow> new_event_envelope option \<Rightarrow> db \<Rightarrow> db res" where
  "append_completion X event d =
     (case event of None \<Rightarrow> Inr d
      | Some e \<Rightarrow> try_then (append_event_envelope_tx X e d) (\<lambda>(_, d'). Inr d'))"

definition journal_phase_of :: "utf8 \<Rightarrow> utf8" where
  "journal_phase_of status = (if status = ''completed'' then ''outcome_durable'' else status)"

definition finish_row :: "operation_outcome \<Rightarrow> operation_record \<Rightarrow> operation_record" where
  "finish_row x current = current\<lparr>op_output_refs := final_output_refs x current,
     op_after_state := final_after_state x current, op_finished_at := Some (oo_finished_at x),
     op_result := oo_result x, op_error := map_option stored_error (oo_error x),
     op_lifecycle_status := oo_status x, op_updated_at := oo_finished_at x\<rparr>"

definition finished_payload :: "utf8 \<Rightarrow> utf8 \<Rightarrow> utf8 \<Rightarrow> utf8 \<Rightarrow> json" where
  "finished_payload operation_id status recording digest = JObject
     [(''lifecycle_status'', JString status), (''operation_id'', JString operation_id),
      (''outcome_digest'', JString digest), (''recording_status'', JString recording)]"

definition outcome_payload :: "utf8 \<Rightarrow> operation_outcome \<Rightarrow> utf8 \<Rightarrow> json" where
  "outcome_payload operation_id x digest = JObject
     [(''lifecycle_status'', JString (oo_status x)), (''operation_id'', JString operation_id),
      (''outcome'', operation_outcome_value x), (''outcome_digest'', JString digest)]"

definition set_outcome :: "utf8 \<Rightarrow> utf8 \<Rightarrow> journal_operation \<Rightarrow> journal_operation" where
  "set_outcome phase payload_json x = x\<lparr>jo_phase := phase, jo_payload_json := payload_json\<rparr>"

text \<open>
  The identical outcome again: the completion event is appended if it is not there yet, and the
  transaction commits without passing a failpoint. The result is the row as it was read.
\<close>

definition finish_replay ::
  "externals \<Rightarrow> finish_request \<Rightarrow> operation_record \<Rightarrow> db \<Rightarrow> (operation_record \<times> db) res" where
  "finish_replay X q current d =
     (if same_outcome (fq_outcome q) current
      then try_then (append_completion X (fq_event q) d) (\<lambda>d'. Inr (current, d'))
      else Inl (Integrity ''operation outcome was reused with different content''))"

definition finish_operation_tx ::
  "externals \<Rightarrow> redactor \<Rightarrow> finish_request \<Rightarrow> operation_record \<Rightarrow> db \<Rightarrow> operation_record tx_end res"
where
  "finish_operation_tx X r q current d =
     (let x = fq_outcome q; i = fq_operation_id q in
      if op_lifecycle_status current \<noteq> ''started''
      then Inl (Conflict (''invalid operation lifecycle transition ''
             @ op_lifecycle_status current @ '' -> '' @ oo_status x))
      else
        try_then (operation_value_digest X (operation_outcome_value x)) (\<lambda>digest.
        try_then (canonical_json_value X (outcome_payload i x digest)) (\<lambda>payload_json.
        let d1 = d\<lparr>operations := update_where
                (\<lambda>y. op_operation_id y = i \<and> op_lifecycle_status y = ''started'') (finish_row x)
                (operations d)\<rparr> in
        if count_rows (\<lambda>y. jo_key y = op_request_key current) (operation_journal d1) \<noteq> 1
        then Inl (Integrity ''operation journal row disappeared during finish'')
        else
          let d2 = d1\<lparr>operation_journal := update_where (\<lambda>y. jo_key y = op_request_key current)
                (set_outcome (journal_phase_of (oo_status x)) payload_json) (operation_journal d1)\<rparr> in
          try_then (append_operation_event X i (op_project_id current) (op_agent_id current)
            (op_request_id current) (op_schema_version current) (oo_finished_at x)
            (next_operation_event_sequence i d2)
            (finished_payload i (oo_status x) (op_recording_status current) digest) d2) (\<lambda>d3.
          try_then (append_completion X (fq_event q) d3) (\<lambda>d4.
          Inr (Commit d4 (\<lambda>d'. case operation_by r d' i of
              None \<Rightarrow> Inl (Integrity ''operation disappeared after finish'')
            | Some y \<Rightarrow> Inr y)))))))"

definition finish_operation_internal ::
  "externals \<Rightarrow> metadata_store \<Rightarrow> finish_request \<Rightarrow> operation_record res \<times> metadata_store" where
  "finish_operation_internal X st q =
     (let r = st_redactor st; d = st_db st in
      case finish_operation_prep X r d q of
        Inl e \<Rightarrow> (Inl e, st)
      | Inr c \<Rightarrow>
          (case row_by op_operation_id (fq_operation_id c) (operations d) of
             None \<Rightarrow> (Inl (NotFound (''operation '' @ fq_operation_id c)), st)
           | Some current \<Rightarrow>
               if op_lifecycle_status current = oo_status (fq_outcome c)
               then (case finish_replay X c current d of
                   Inl e \<Rightarrow> (Inl e, st)
                 | Inr (x, d') \<Rightarrow> (Inr x, st\<lparr>st_db := d'\<rparr>))
               else run_tx st (finish_operation_tx X r c current d)
                      BeforeOperationFinishCommit AfterOperationFinishCommit))"

definition finish_operation ::
  "externals \<Rightarrow> metadata_store \<Rightarrow> utf8 \<Rightarrow> operation_outcome \<Rightarrow> operation_record res \<times> metadata_store"
where
  "finish_operation X st i x =
     finish_operation_internal X st \<lparr>fq_operation_id = i, fq_outcome = x, fq_event = None\<rparr>"

definition finish_operation_with_event ::
  "externals \<Rightarrow> metadata_store \<Rightarrow> utf8 \<Rightarrow> operation_outcome \<Rightarrow> new_event_envelope \<Rightarrow>
    operation_record res \<times> metadata_store" where
  "finish_operation_with_event X st i x e =
     finish_operation_internal X st \<lparr>fq_operation_id = i, fq_outcome = x, fq_event = Some e\<rparr>"

section \<open>Recording quality\<close>

definition recording_prep :: "redactor \<Rightarrow> utf8 \<times> utf8 \<times> utf8 \<Rightarrow> (utf8 \<times> utf8 \<times> utf8) res" where
  "recording_prep r q =
     (case q of (i0, s0, u0) \<Rightarrow>
        let i = redact_text r i0; s = redact_text r s0; u = redact_text r u0 in
        try_then (validate_non_empty i ''operation id'') (\<lambda>_.
        try_then (validate_non_empty u ''operation updated_at'') (\<lambda>_.
        if s \<notin> {''durable'', ''unreconciled''}
        then Inl (InvalidInput ''operation recording status is unsupported'')
        else Inr (i, s, u))))"

definition recording_payload :: "utf8 \<Rightarrow> utf8 \<Rightarrow> utf8 \<Rightarrow> json" where
  "recording_payload operation_id status recording = JObject
     [(''lifecycle_status'', JString status), (''operation_id'', JString operation_id),
      (''recording_status'', JString recording)]"

definition recording_tx ::
  "externals \<Rightarrow> redactor \<Rightarrow> utf8 \<times> utf8 \<times> utf8 \<Rightarrow> db \<Rightarrow> operation_record tx_end res" where
  "recording_tx X r q d =
     (case q of (i, s, u) \<Rightarrow>
      case row_by op_operation_id i (operations d) of
        None \<Rightarrow> Inl (NotFound (''operation '' @ i))
      | Some current \<Rightarrow>
          if op_recording_status current = s then Inr (Finished current)
          else
            let d1 = d\<lparr>operations := update_where (\<lambda>y. op_operation_id y = i)
                  (\<lambda>y. y\<lparr>op_recording_status := s, op_updated_at := u\<rparr>) (operations d)\<rparr> in
            try_then (append_operation_event X i (op_project_id current) (op_agent_id current)
              (op_request_id current) (op_schema_version current) u
              (next_operation_event_sequence i d1)
              (recording_payload i (op_lifecycle_status current) s) d1) (\<lambda>d2.
            Inr (Commit d2 (\<lambda>d'. case operation_by r d' i of
                None \<Rightarrow> Inl (Integrity ''operation disappeared after recording update'')
              | Some y \<Rightarrow> Inr y))))"

definition set_operation_recording_status ::
  "externals \<Rightarrow> metadata_store \<Rightarrow> utf8 \<times> utf8 \<times> utf8 \<Rightarrow> operation_record res \<times> metadata_store"
where
  "set_operation_recording_status X = sqlite_op recording_prep (recording_tx X)"

section \<open>The invariant of the ledger\<close>

text \<open>
  Every operation carries exactly the outcome its status asks for, and is backed by the journal
  row of its request.
\<close>

definition op_consistent :: "operation_record \<Rightarrow> bool" where
  "op_consistent x \<longleftrightarrow> op_lifecycle_status x \<in> set (''started'' # outcome_statuses)
     \<and> (op_finished_at x = None \<longleftrightarrow> op_lifecycle_status x = ''started'')
     \<and> (op_result x \<noteq> None \<longleftrightarrow> op_lifecycle_status x = ''completed'')
     \<and> (op_error x \<noteq> None \<longleftrightarrow> op_lifecycle_status x \<in> {''failed'', ''cancelled'', ''unknown''})
     \<and> op_recording_status x \<in> {''durable'', ''unreconciled''}"

definition op_journaled :: "journal_operation list \<Rightarrow> operation_record \<Rightarrow> bool" where
  "op_journaled js x \<longleftrightarrow> (\<exists>j. row_by jo_key (op_request_key x) js = Some j
     \<and> jo_operation_id j = op_operation_id x)"

definition ledger_ok :: "redactor \<Rightarrow> db \<Rightarrow> bool" where
  "ledger_ok r d \<longleftrightarrow> safe_policy r \<and> events_ok d \<and> journal_ok r d
     \<and> unique_by op_operation_id (operations d) \<and> unique_by op_request_key (operations d)
     \<and> (\<forall>x \<in> set (operations d). op_consistent x \<and> op_journaled (operation_journal d) x)"

lemma ledger_ok_empty: "safe_policy r \<Longrightarrow> ledger_ok r (empty_db r)"
  using events_ok_empty[of r]
  by (simp add: ledger_ok_def journal_ok_def empty_db_def unique_by_def)

lemma ledger_ok_log:
  "ledger_ok r d \<Longrightarrow> log_only d d' \<Longrightarrow> events_ok d' \<Longrightarrow> ledger_ok r d'"
  by (simp add: ledger_ok_def journal_ok_def log_only_tables)

text \<open>The tables the ledger never touches.\<close>

definition ledger_frame :: "db \<Rightarrow> db \<Rightarrow> bool" where
  "ledger_frame d d' \<longleftrightarrow> workspaces d' = workspaces d \<and> environments d' = environments d
     \<and> workspace_leases d' = workspace_leases d \<and> repository_meta d' = repository_meta d
     \<and> snapshots d' = snapshots d \<and> versions d' = versions d \<and> executions d' = executions d
     \<and> prefix (event_envelopes d) (event_envelopes d')"

lemma ledger_frame_refl [simp]: "ledger_frame d d"
  by (simp add: ledger_frame_def)

lemma ledger_frame_trans: "ledger_frame a b \<Longrightarrow> ledger_frame b c \<Longrightarrow> ledger_frame a c"
  by (auto simp: ledger_frame_def)

lemma ledger_frame_log: "log_only d d' \<Longrightarrow> ledger_frame d d'"
  by (simp add: ledger_frame_def log_only_tables log_only_prefix)

lemma ledger_frame_written:
  "log_only (d\<lparr>operations := xs, operation_journal := js\<rparr>) d' \<Longrightarrow> ledger_frame d d'"
  "log_only (d\<lparr>operations := xs\<rparr>) d' \<Longrightarrow> ledger_frame d d'"
  by (drule ledger_frame_log, simp add: ledger_frame_def)+

lemma append_completion_result:
  assumes "events_ok d" "append_completion X v d = Inr d'"
  shows "events_ok d' \<and> log_only d d' \<and> append_completion X v d' = Inr d'"
proof (cases v)
  case None
  with assms show ?thesis by (simp add: append_completion_def)
next
  case (Some e)
  with assms(2) obtain row where tx: "append_event_envelope_tx X e d = Inr (row, d')"
    by (auto simp: append_completion_def)
  from append_envelope_result[OF assms(1) tx] Some show ?thesis
    by (simp add: append_completion_def)
qed

subsection \<open>Starting\<close>

lemma journal_intent_result:
  assumes "journal_intent e js d = Inr d'" "journal_ok r d"
  shows "journal_ok r d' \<and> (\<exists>xs. d' = d\<lparr>operation_journal := operation_journal d @ xs\<rparr>)
    \<and> (\<exists>j. row_by jo_key (ov_project_id e, ov_agent_id e, ov_request_id e) (operation_journal d') = Some j
        \<and> jo_operation_id j = ov_operation_id e)"
proof -
  let ?row = "intent_row e js"
  have key: "jo_key ?row = (ov_project_id e, ov_agent_id e, ov_request_id e)"
    "jo_operation_id ?row = ov_operation_id e" "jo_phase ?row = ''intent_durable''"
    by (simp_all add: jo_key_def intent_row_def)
  show ?thesis
  proof (cases "row_by jo_key (jo_key ?row) (operation_journal d)")
    case None
    with assms(1) have d': "d' = d\<lparr>operation_journal := operation_journal d @ [?row]\<rparr>"
      by (simp add: journal_intent_def Let_def)
    have "journal_ok r d'"
      using assms(2) None by (simp add: d' journal_ok_def unique_by_insert key)
    moreover have "row_by jo_key (jo_key ?row) (operation_journal d') = Some ?row"
      using None by (simp add: d' row_by_append)
    ultimately show ?thesis unfolding key(1)
      by (intro conjI exI[of _ "[?row]"] exI[of _ ?row]) (simp_all add: d' key)
  next
    case (Some j)
    with assms(1) have d': "d' = d" and j: "jo_operation_id j = ov_operation_id e"
      by (simp_all add: journal_intent_def Let_def split: if_splits)
    show ?thesis
      using Some assms(2) unfolding key(1) d'
      by (intro conjI exI[of _ "[]"] exI[of _ j]) (simp_all add: j)
  qed
qed

lemma op_journaled_more:
  "op_journaled js x \<Longrightarrow> op_journaled (js @ ks) x"
  by (auto simp: op_journaled_def row_by_append)

lemma started_row_simps [simp]:
  "op_operation_id (started_row r e h) = ov_operation_id e"
  "op_request_key (started_row r e h) = (ov_project_id e, ov_agent_id e, ov_request_id e)"
  "op_envelope_digest (started_row r e h) = h" "op_lifecycle_status (started_row r e h) = ''started''"
  by (simp_all add: started_row_def op_request_key_def)

lemma started_row_consistent: "op_consistent (started_row r e h)"
  by (simp add: op_consistent_def started_row_def outcome_statuses_def)

lemma start_operation_commit:
  assumes "ledger_ok r d" "start_operation_tx X r s d = Inr (Commit d' k)"
  shows "ledger_ok r d' \<and> operations d' = operations d @ [started_row r (os_envelope s) (os_digest s)]
    \<and> (\<exists>xs. operation_journal d' = operation_journal d @ xs)
    \<and> row_by op_request_key (ov_project_id (os_envelope s), ov_agent_id (os_envelope s),
        ov_request_id (os_envelope s)) (operations d) = None
    \<and> row_by op_operation_id (ov_operation_id (os_envelope s)) (operations d) = None
    \<and> ledger_frame d d' \<and> k = (\<lambda>d'. case operation_by r d' (ov_operation_id (os_envelope s)) of
              None \<Rightarrow> Inl (Integrity ''operation disappeared after start'') | Some x \<Rightarrow> Inr x)"
proof -
  let ?e = "os_envelope s"
  let ?row = "started_row r ?e (os_digest s)"
  have fresh: "row_by op_request_key (ov_project_id ?e, ov_agent_id ?e, ov_request_id ?e) (operations d) = None"
    using assms(2)
    by (cases "row_by op_request_key (ov_project_id ?e, ov_agent_id ?e, ov_request_id ?e) (operations d)")
      (simp_all add: start_operation_tx_def Let_def split: if_splits)
  with assms(2) obtain d1 where id: "row_by op_operation_id (ov_operation_id ?e) (operations d) = None"
    and ji: "journal_intent ?e (os_envelope_json s) d = Inr d1"
    and ev: "append_operation_event X (ov_operation_id ?e) (ov_project_id ?e) (ov_agent_id ?e)
        (ov_request_id ?e) (ov_schema_version ?e) (ov_started_at ?e)
        (next_operation_event_sequence (ov_operation_id ?e) (d1\<lparr>operations := operations d1 @ [?row]\<rparr>))
        (started_payload (ov_operation_id ?e) (os_digest s))
        (d1\<lparr>operations := operations d1 @ [?row]\<rparr>) = Inr d'"
    and k: "k = (\<lambda>d'. case operation_by r d' (ov_operation_id ?e) of
              None \<Rightarrow> Inl (Integrity ''operation disappeared after start'') | Some x \<Rightarrow> Inr x)"
    by (simp add: start_operation_tx_def Let_def split: if_splits) blast
  let ?d2 = "d1\<lparr>operations := operations d1 @ [?row]\<rparr>"
  have jok: "journal_ok r d" using assms(1) by (simp add: ledger_ok_def)
  note ji' = journal_intent_result[OF ji jok]
  then obtain xs where d1: "d1 = d\<lparr>operation_journal := operation_journal d @ xs\<rparr>" by blast
  have jr: "op_journaled (operation_journal d1) ?row"
    using ji' by (simp add: op_journaled_def)
  have e2: "events_ok ?d2" using assms(1) by (simp add: ledger_ok_def events_ok_def d1)
  have ok2: "ledger_ok r ?d2"
  proof -
    have "\<forall>x \<in> set (operations ?d2). op_consistent x \<and> op_journaled (operation_journal d1) x"
      using assms(1) jr started_row_consistent
      by (auto simp: ledger_ok_def d1 op_journaled_more)
    moreover have "unique_by op_operation_id (operations ?d2)" "unique_by op_request_key (operations ?d2)"
      using assms(1) fresh id by (simp_all add: ledger_ok_def d1 unique_by_insert)
    moreover have "journal_ok r ?d2" using ji' by (simp add: journal_ok_def)
    ultimately show ?thesis using assms(1) e2 by (simp add: ledger_ok_def)
  qed
  note res = append_operation_event_result[OF e2 ev refl]
  have "operations d' = operations ?d2" "operation_journal d' = operation_journal ?d2"
    using res log_only_tables by blast+
  then have "operations d' = operations d @ [?row]" "operation_journal d' = operation_journal d @ xs"
    by (simp_all add: d1)
  moreover have "ledger_ok r d'" using ledger_ok_log[OF ok2] res by simp
  moreover have "ledger_frame d d'"
    using ledger_frame_log[of ?d2 d'] res by (simp add: ledger_frame_def) (simp add: d1)
  ultimately show ?thesis using fresh id k by (intro conjI exI[of _ xs]) assumption+
qed

lemma start_prep_id:
  "start_operation_prep X r e0 = Inr s \<Longrightarrow> safe_policy r \<Longrightarrow>
    redact_text r (ov_operation_id (os_envelope s)) = ov_operation_id (os_envelope s)"
  by (auto simp: start_operation_prep_def Let_def redact_operation_envelope_def redact_idem)

interpretation start_operation: idempotent_op BeforeSqliteCommit AfterSqliteCommit
  "start_operation_prep X" "start_operation_tx X" ledger_ok for X
proof unfold_locales
  fix r d q s d' and k :: "db \<Rightarrow> operation_record res"
  assume ok: "ledger_ok r d" and prep: "start_operation_prep X r q = Inr s"
    and body: "start_operation_tx X r s d = Inr (Commit d' k)"
  note com = start_operation_commit[OF ok body]
  let ?e = "os_envelope s"
  let ?row = "started_row r ?e (os_digest s)"
  show "ledger_ok r d'" using com by (elim conjE)
  have ops: "operations d' = operations d @ [?row]" using com by (elim conjE)
  have id: "redact_text r (ov_operation_id ?e) = ov_operation_id ?e"
    using start_prep_id[OF prep] ok by (simp add: ledger_ok_def)
  have k: "k d' = Inr ?row" using com by (simp add: operation_by_def id ops row_by_append)
  have "start_operation_tx X r s d' = Inr (Finished ?row)"
    using com by (simp add: start_operation_tx_def Let_def ops row_by_append)
  with k show "\<exists>x. k d' = Inr x \<and> settled (start_operation_tx X r s d') d' x"
    by (simp add: settled_def)
qed

subsection \<open>Finishing\<close>

lemma valid_outcome_facts:
  "validate_operation_outcome x = Inr () \<Longrightarrow> oo_status x \<in> set outcome_statuses
    \<and> (oo_result x \<noteq> None \<longleftrightarrow> oo_status x = ''completed'')
    \<and> (oo_error x \<noteq> None \<longleftrightarrow> oo_status x \<noteq> ''completed'')"
  by (auto simp: validate_operation_outcome_def split: if_splits)

lemma finish_row_keys [simp]:
  "op_operation_id (finish_row x y) = op_operation_id y"
  "op_request_key (finish_row x y) = op_request_key y"
  "op_lifecycle_status (finish_row x y) = oo_status x"
  by (simp_all add: finish_row_def op_request_key_def)

lemma finish_row_consistent:
  assumes "op_consistent y" "validate_operation_outcome x = Inr ()"
  shows "op_consistent (finish_row x y)"
proof -
  note v = valid_outcome_facts[OF assms(2)]
  have row: "op_finished_at (finish_row x y) = Some (oo_finished_at x)"
    "op_result (finish_row x y) = oo_result x"
    "op_error (finish_row x y) = map_option stored_error (oo_error x)"
    "op_recording_status (finish_row x y) = op_recording_status y"
    by (simp_all add: finish_row_def)
  have rec: "op_recording_status y \<in> {''durable'', ''unreconciled''}"
    using assms(1) by (simp add: op_consistent_def)
  from v have st: "oo_status x \<in> set outcome_statuses" by (elim conjE)
  then have "oo_status x \<noteq> ''started''"
    "oo_status x \<noteq> ''completed'' \<longleftrightarrow> oo_status x \<in> {''failed'', ''cancelled'', ''unknown''}"
    by (auto simp: outcome_statuses_def)
  with v st rec show ?thesis unfolding op_consistent_def row finish_row_keys by simp
qed

lemma set_outcome_simps [simp]:
  "jo_key (set_outcome ph js x) = jo_key x" "jo_phase (set_outcome ph js x) = ph"
  "jo_operation_id (set_outcome ph js x) = jo_operation_id x"
  "jo_created_at (set_outcome ph js x) = jo_created_at x"
  by (simp_all add: set_outcome_def jo_key_def)

lemma journal_phase_known:
  "s \<in> set outcome_statuses \<Longrightarrow> journal_phase_of s \<in> set KNOWN_OUTCOME_PHASES"
  by (auto simp: outcome_statuses_def journal_phase_of_def KNOWN_OUTCOME_PHASES_def)

text \<open>A change of the journal that keeps keys and operation ids keeps the operations backed.\<close>

lemma op_journaled_update:
  assumes "op_journaled js y" "\<And>x. jo_key (f x) = jo_key x" "\<And>x. jo_operation_id (f x) = jo_operation_id x"
  shows "op_journaled (update_where p f js) y"
  using assms by (auto simp: op_journaled_def row_by_update)

lemma ledger_ok_update:
  assumes ok: "ledger_ok r d"
    and f: "\<And>y. op_operation_id (f y) = op_operation_id y" "\<And>y. op_request_key (f y) = op_request_key y"
      "\<And>y. op_consistent y \<Longrightarrow> p y \<Longrightarrow> op_consistent (f y)"
  shows "ledger_ok r (d\<lparr>operations := update_where p f (operations d)\<rparr>)"
proof -
  have "op_consistent x \<and> op_journaled (operation_journal d) x"
    if x: "x \<in> set (update_where p f (operations d))" for x
  proof -
    from x obtain y where y: "y \<in> set (operations d)" "x = (if p y then f y else y)"
      by (auto simp: update_where_in)
    with ok have "op_consistent y" "op_journaled (operation_journal d) y"
      by (simp_all add: ledger_ok_def)
    with y f show ?thesis by (simp add: op_journaled_def)
  qed
  with ok f(1,2) show ?thesis
    by (simp add: ledger_ok_def journal_ok_def events_ok_def unique_by_update)
qed

lemma ledger_ok_journal_update:
  assumes ok: "ledger_ok r d" and f: "\<And>x. jo_key (f x) = jo_key x"
    "\<And>x. jo_operation_id (f x) = jo_operation_id x" "\<And>x. jo_phase (f x) \<in> set KNOWN_OUTCOME_PHASES"
  shows "ledger_ok r (d\<lparr>operation_journal := update_where p f (operation_journal d)\<rparr>)"
proof -
  have "journal_ok r (d\<lparr>operation_journal := update_where p f (operation_journal d)\<rparr>)"
    by (rule journal_ok_update) (use assms in \<open>simp_all add: ledger_ok_def\<close>)
  with ok show ?thesis
    using f(1,2) by (simp add: ledger_ok_def events_ok_def op_journaled_update)
qed

lemma finish_operation_commit:
  assumes ok: "ledger_ok r d" and valid: "validate_operation_outcome (fq_outcome q) = Inr ()"
    and tx: "finish_operation_tx X r q current d = Inr (Commit d' k)"
  shows "ledger_ok r d' \<and> op_lifecycle_status current = ''started''
    \<and> operations d' = update_where (\<lambda>y. op_operation_id y = fq_operation_id q
          \<and> op_lifecycle_status y = ''started'') (finish_row (fq_outcome q)) (operations d)
    \<and> (\<exists>js. operation_journal d' = update_where (\<lambda>y. jo_key y = op_request_key current)
          (set_outcome (journal_phase_of (oo_status (fq_outcome q))) js) (operation_journal d))
    \<and> append_completion X (fq_event q) d' = Inr d' \<and> repository_meta d' = repository_meta d
    \<and> ledger_frame d d' \<and> k = (\<lambda>d'. case operation_by r d' (fq_operation_id q) of
              None \<Rightarrow> Inl (Integrity ''operation disappeared after finish'') | Some y \<Rightarrow> Inr y)"
proof -
  let ?x = "fq_outcome q" and ?i = "fq_operation_id q"
  let ?p = "\<lambda>y. op_operation_id y = ?i \<and> op_lifecycle_status y = ''started''"
  let ?d1 = "d\<lparr>operations := update_where ?p (finish_row ?x) (operations d)\<rparr>"
  let ?d2 = "\<lambda>js. ?d1\<lparr>operation_journal := update_where (\<lambda>y. jo_key y = op_request_key current)
      (set_outcome (journal_phase_of (oo_status ?x)) js) (operation_journal ?d1)\<rparr>"
  have st: "op_lifecycle_status current = ''started''"
    using tx by (simp add: finish_operation_tx_def Let_def split: if_splits)
  then have "\<exists>digest js d3. append_operation_event X ?i (op_project_id current) (op_agent_id current)
        (op_request_id current) (op_schema_version current) (oo_finished_at ?x)
        (next_operation_event_sequence ?i (?d2 js))
        (finished_payload ?i (oo_status ?x) (op_recording_status current) digest) (?d2 js) = Inr d3
      \<and> append_completion X (fq_event q) d3 = Inr d'"
    using tx by (simp add: finish_operation_tx_def Let_def split: if_splits)
      (elim exE conjE, intro exI conjI, assumption+)
  then obtain digest js d3 where
    ev: "append_operation_event X ?i (op_project_id current) (op_agent_id current)
        (op_request_id current) (op_schema_version current) (oo_finished_at ?x)
        (next_operation_event_sequence ?i (?d2 js))
        (finished_payload ?i (oo_status ?x) (op_recording_status current) digest) (?d2 js) = Inr d3"
    and co: "append_completion X (fq_event q) d3 = Inr d'" by (elim exE conjE)
  have k: "k = (\<lambda>d'. case operation_by r d' ?i of
              None \<Rightarrow> Inl (Integrity ''operation disappeared after finish'') | Some y \<Rightarrow> Inr y)"
    using tx st by (simp add: finish_operation_tx_def Let_def split: if_splits)
      (elim exE conjE, rule sym, assumption)
  have ok1: "ledger_ok r ?d1"
    by (rule ledger_ok_update[OF ok]) (use finish_row_consistent valid in simp_all)
  have ok2: "ledger_ok r (?d2 js)"
    using valid_outcome_facts[OF valid]
    by (intro ledger_ok_journal_update[OF ok1]) (simp_all add: journal_phase_known)
  have e2: "events_ok (?d2 js)" using ok2 by (simp add: ledger_ok_def)
  note r3 = append_operation_event_result[OF e2 ev refl]
  then have e3: "events_ok d3" by (rule conjunct1)
  note r4 = append_completion_result[OF e3 co]
  have lo: "log_only (?d2 js) d'" using r3 r4 by (elim conjE) (rule log_only_trans)
  have "ledger_ok r d'" by (rule ledger_ok_log[OF ok2 lo]) (use r4 in simp)
  moreover have "operations d' = operations (?d2 js)" "operation_journal d' = operation_journal (?d2 js)"
    "repository_meta d' = repository_meta (?d2 js)" using log_only_tables(1,2,6)[OF lo] by simp_all
  moreover have "ledger_frame d d'" using ledger_frame_log[OF lo] by (simp add: ledger_frame_def)
  ultimately show ?thesis using st k r4 by (intro conjI exI[of _ js]) simp_all
qed

lemma finish_prep_valid:
  "finish_operation_prep X r d q = Inr c \<Longrightarrow> validate_operation_outcome (fq_outcome c) = Inr ()
    \<and> fq_operation_id c = redact_text r (fq_operation_id q)"
  by (auto simp: finish_operation_prep_def Let_def)

lemma finish_replay_commit:
  assumes "ledger_ok r d" "finish_replay X q current d = Inr (x, d')"
  shows "ledger_ok r d' \<and> operations d' = operations d
    \<and> operation_journal d' = operation_journal d \<and> x = current
    \<and> repository_meta d' = repository_meta d
    \<and> append_completion X (fq_event q) d' = Inr d' \<and> ledger_frame d d'"
proof -
  from assms(2) have "append_completion X (fq_event q) d = Inr d'" "x = current"
    by (auto simp: finish_replay_def split: if_splits)
  with append_completion_result[of d X "fq_event q" d'] assms(1) show ?thesis
    using ledger_ok_log[OF assms(1), of d'] log_only_tables(1,2,6)[of d d'] ledger_frame_log[of d d']
    by (simp add: ledger_ok_def)
qed

subsection \<open>Recording quality\<close>

lemma recording_prep_facts:
  "recording_prep r q = Inr (i, s, u) \<Longrightarrow> s \<in> {''durable'', ''unreconciled''}
    \<and> i = redact_text r (fst q)"
  by (cases q) (auto simp: recording_prep_def Let_def split: if_splits)

lemma recording_commit:
  assumes ok: "ledger_ok r d" and s: "s \<in> {''durable'', ''unreconciled''}"
    and tx: "recording_tx X r (i, s, u) d = Inr (Commit d' k)"
  shows "ledger_ok r d'
    \<and> operations d' = update_where (\<lambda>y. op_operation_id y = i)
        (\<lambda>y. y\<lparr>op_recording_status := s, op_updated_at := u\<rparr>) (operations d)
    \<and> operation_journal d' = operation_journal d
    \<and> (\<exists>current. row_by op_operation_id i (operations d) = Some current)
    \<and> ledger_frame d d' \<and> k = (\<lambda>d'. case operation_by r d' i of
              None \<Rightarrow> Inl (Integrity ''operation disappeared after recording update'')
            | Some y \<Rightarrow> Inr y)"
proof -
  let ?d1 = "d\<lparr>operations := update_where (\<lambda>y. op_operation_id y = i)
      (\<lambda>y. y\<lparr>op_recording_status := s, op_updated_at := u\<rparr>) (operations d)\<rparr>"
  obtain current where cur: "row_by op_operation_id i (operations d) = Some current"
    using tx by (cases "row_by op_operation_id i (operations d)") (simp_all add: recording_tx_def)
  with tx have ev: "append_operation_event X i (op_project_id current) (op_agent_id current)
        (op_request_id current) (op_schema_version current) u (next_operation_event_sequence i ?d1)
        (recording_payload i (op_lifecycle_status current) s) ?d1 = Inr d'"
    and k: "k = (\<lambda>d'. case operation_by r d' i of
              None \<Rightarrow> Inl (Integrity ''operation disappeared after recording update'')
            | Some y \<Rightarrow> Inr y)"
    by (simp_all add: recording_tx_def Let_def split: if_splits)
  have ok1: "ledger_ok r ?d1"
    by (rule ledger_ok_update[OF ok]) (use s in \<open>simp_all add: op_request_key_def op_consistent_def\<close>)
  then have e1: "events_ok ?d1" by (simp add: ledger_ok_def)
  note res = append_operation_event_result[OF e1 ev refl]
  have "ledger_ok r d'" by (rule ledger_ok_log[OF ok1]) (use res in simp_all)
  moreover have "operations d' = operations ?d1" "operation_journal d' = operation_journal ?d1"
    using log_only_tables(1,2)[of ?d1 d'] res by simp_all
  moreover have "ledger_frame d d'" using ledger_frame_log[of ?d1 d'] res by (simp add: ledger_frame_def)
  ultimately show ?thesis using cur k by (intro conjI exI[of _ current]) simp_all
qed

interpretation recording: idempotent_op BeforeSqliteCommit AfterSqliteCommit
  recording_prep "recording_tx X" ledger_ok for X
proof unfold_locales
  fix r d q d' and c :: "utf8 \<times> utf8 \<times> utf8" and k :: "db \<Rightarrow> operation_record res"
  assume ok: "ledger_ok r d" and prep: "recording_prep r q = Inr c"
    and body: "recording_tx X r c d = Inr (Commit d' k)"
  obtain i s u where c: "c = (i, s, u)" by (cases c)
  note facts = recording_prep_facts[OF prep[unfolded c]]
  note com = recording_commit[OF ok conjunct1[OF facts] body[unfolded c]]
  show "ledger_ok r d'" using com by (rule conjunct1)
  from com obtain current where cur: "row_by op_operation_id i (operations d) = Some current"
    by (elim conjE exE)
  let ?row = "current\<lparr>op_recording_status := s, op_updated_at := u\<rparr>"
  have row: "row_by op_operation_id i (operations d') = Some ?row"
    using com row_by_key[OF cur] by (simp add: row_by_update cur)
  have "redact_text r i = i" using facts ok by (simp add: ledger_ok_def redact_idem)
  moreover have "k = (\<lambda>d'. case operation_by r d' i of
              None \<Rightarrow> Inl (Integrity ''operation disappeared after recording update'')
            | Some y \<Rightarrow> Inr y)" using com by (elim conjE)
  ultimately have "k d' = Inr ?row" by (simp add: operation_by_def row)
  moreover have "recording_tx X r c d' = Inr (Finished ?row)"
    by (simp add: c recording_tx_def row)
  ultimately show "\<exists>x. k d' = Inr x \<and> settled (recording_tx X r c d') d' x"
    by (simp add: settled_def)
qed

section \<open>The life of one operation\<close>

text \<open>
  The changes a ledger row may undergo: its recording quality and timestamp at any time, and its
  outcome only while it is started. Nothing else of a row is ever written again.
\<close>

definition op_evolves :: "operation_record \<Rightarrow> operation_record \<Rightarrow> bool" where
  "op_evolves x y \<longleftrightarrow> (\<exists>s u. y = x\<lparr>op_recording_status := s, op_updated_at := u\<rparr>)
     \<or> (op_lifecycle_status x = ''started'' \<and> (\<exists>outs after fin result err status s u.
          y = x\<lparr>op_output_refs := outs, op_after_state := after, op_finished_at := fin,
            op_result := result, op_error := err, op_lifecycle_status := status,
            op_recording_status := s, op_updated_at := u\<rparr>))"

lemma op_evolves_recording: "op_evolves x (x\<lparr>op_recording_status := s, op_updated_at := u\<rparr>)"
  by (simp add: op_evolves_def) blast

lemma op_evolves_outcome:
  "op_lifecycle_status x = ''started'' \<Longrightarrow>
    op_evolves x (x\<lparr>op_output_refs := outs, op_after_state := after, op_finished_at := fin,
      op_result := result, op_error := err, op_lifecycle_status := status,
      op_recording_status := s, op_updated_at := u\<rparr>)"
  unfolding op_evolves_def by blast

lemma op_evolves_refl [simp]: "op_evolves x x"
  using op_evolves_recording[where s = "op_recording_status x" and u = "op_updated_at x" and x = x] by simp

lemma op_evolves_finish:
  "op_lifecycle_status x = ''started'' \<Longrightarrow> op_evolves x (finish_row u x)"
  using op_evolves_outcome[where x = x and fin = "Some (oo_finished_at u)"
      and outs = "final_output_refs u x" and after = "final_after_state u x"
      and result = "oo_result u" and err = "map_option stored_error (oo_error u)"
      and status = "oo_status u" and s = "op_recording_status x" and u = "oo_finished_at u"]
  by (simp add: finish_row_def)

lemma op_evolves_trans:
  assumes "op_evolves x y" "op_evolves y z"
  shows "op_evolves x z"
proof (cases "op_lifecycle_status x = ''started''")
  case True
  have chain: "\<exists>outs after fin result err status s u.
      v = w\<lparr>op_output_refs := outs, op_after_state := after, op_finished_at := fin,
        op_result := result, op_error := err, op_lifecycle_status := status,
        op_recording_status := s, op_updated_at := u\<rparr>" if "op_evolves w v" for v w
  proof -
    have "v = w\<lparr>op_output_refs := op_output_refs v, op_after_state := op_after_state v,
        op_finished_at := op_finished_at v, op_result := op_result v, op_error := op_error v,
        op_lifecycle_status := op_lifecycle_status v, op_recording_status := op_recording_status v,
        op_updated_at := op_updated_at v\<rparr>"
      using that unfolding op_evolves_def by (elim disjE exE conjE) simp_all
    then show ?thesis by blast
  qed
  from chain[OF assms(1)] chain[OF assms(2)] show ?thesis
    by (elim exE) (simp add: op_evolves_outcome[OF True])
next
  case False
  with assms(1) obtain s u where y: "y = x\<lparr>op_recording_status := s, op_updated_at := u\<rparr>"
    by (auto simp: op_evolves_def)
  with False assms(2) obtain s' u' where "z = y\<lparr>op_recording_status := s', op_updated_at := u'\<rparr>"
    by (auto simp: op_evolves_def)
  then have "z = x\<lparr>op_recording_status := s', op_updated_at := u'\<rparr>" by (simp add: y)
  then show ?thesis by (simp only: op_evolves_recording)
qed

definition has_op :: "operation_record \<Rightarrow> db \<Rightarrow> bool" where
  "has_op x d \<longleftrightarrow> (\<exists>y. row_by op_operation_id (op_operation_id x) (operations d) = Some y
     \<and> op_evolves x y)"

lemma has_op_append:
  "has_op x d \<Longrightarrow> operations d' = operations d @ zs \<Longrightarrow> has_op x d'"
  by (auto simp: has_op_def row_by_append)

lemma has_op_update:
  assumes "has_op x d" "operations d' = update_where p f (operations d)"
    and "\<And>y. op_operation_id (f y) = op_operation_id y" "\<And>y. p y \<Longrightarrow> op_evolves y (f y)"
  shows "has_op x d'"
proof -
  from assms(1) obtain y where y: "row_by op_operation_id (op_operation_id x) (operations d) = Some y"
    and e: "op_evolves x y" unfolding has_op_def by (elim exE conjE)
  have "op_evolves x (if p y then f y else y)"
    using e assms(4) op_evolves_trans[OF e] by simp
  with y assms(2,3) show ?thesis unfolding has_op_def
    by (intro exI[of _ "if p y then f y else y"]) (simp add: row_by_update)
qed

text \<open>The journal calls leave the other tables alone, and keep the operations backed.\<close>

lemma journal_step_frame:
  assumes "journal_step X st st'" "journal_ok (st_redactor st) (st_db st)"
  shows "\<exists>js. st_db st' = (st_db st)\<lparr>operation_journal := js\<rparr>"
proof -
  let ?I = "\<lambda>d. \<exists>js. d = (st_db st)\<lparr>operation_journal := js\<rparr>"
  have I0: "?I (st_db st)" by (rule exI[of _ "operation_journal (st_db st)"]) simp
  from assms(1) show ?thesis
  proof (cases rule: journal_step.cases)
    case (intent fp q)
    have "?I d" if "record_intent_tx r c (st_db st) = Inr (Commit d k)" for r c d k
      using that I0 unfolding record_intent_commit
      by (cases "row_by jo_key (jo_key c) (operation_journal (st_db st))") auto
    with I0 show ?thesis unfolding intent record_intent_def
      by (intro run_op_keeps[where I = ?I]) simp_all
  next
    case (outcome fp q)
    have "?I d" if "record_outcome_tx r c (st_db st) = Inr (Commit d k)" for r c d k
      using that I0 unfolding record_outcome_commit by (auto split: if_splits)
    with I0 show ?thesis unfolding outcome record_outcome_def
      by (intro run_op_keeps[where I = ?I]) simp_all
  next
    case (recovery fp)
    have "unique_by jo_key (operation_journal (st_db st))" using assms(2) by (simp add: journal_ok_def)
    then have "?I d" if "recover_unfinished_operations_tx r u (st_db st) = Inr (Commit d k)" for r u d k
      using that by (auto simp: recover_commit)
    with I0 show ?thesis unfolding recovery recover_unfinished_operations_def
      by (intro run_op_keeps[where I = ?I]) simp_all
  qed
qed

lemma journal_step_ledger:
  assumes "journal_step X st st'" "ledger_ok (st_redactor st) (st_db st)"
  shows "st_redactor st' = st_redactor st \<and> ledger_ok (st_redactor st) (st_db st')
    \<and> operations (st_db st') = operations (st_db st)"
proof -
  let ?d = "st_db st" and ?d' = "st_db st'"
  have j: "journal_ok (st_redactor st) ?d" using assms(2) by (simp add: ledger_ok_def)
  note keeps = journal_step_keeps[OF assms(1) j]
  from journal_step_frame[OF assms(1) j] obtain js where d': "?d' = ?d\<lparr>operation_journal := js\<rparr>"
    by (rule exE)
  have backed: "op_journaled js x" if "op_journaled (operation_journal ?d) x" for x
  proof -
    from that obtain e where e: "row_by jo_key (op_request_key x) (operation_journal ?d) = Some e"
      "jo_operation_id e = op_operation_id x" unfolding op_journaled_def by (elim exE conjE)
    note key = row_by_key[OF e(1)]
    have "has_entry e ?d" using e(1) by (simp add: has_entry_def key)
    with keeps[of e] have "has_entry e ?d'" by simp
    then obtain f where f: "row_by jo_key (jo_key e) js = Some f" "entry_step\<^sup>*\<^sup>* e f"
      by (auto simp: has_entry_def d')
    with e entry_steps_facts[OF f(2)] key show ?thesis by (simp add: op_journaled_def)
  qed
  have "journal_ok (st_redactor st) ?d'" using keeps by simp
  with assms(2) backed have "ledger_ok (st_redactor st) ?d'"
    by (simp add: ledger_ok_def events_ok_def d')
  with keeps show ?thesis by (simp add: d')
qed

text \<open>Any call on the ledger or on the journal, with any failpoint armed before it.\<close>

inductive ledger_step :: "externals \<Rightarrow> metadata_store \<Rightarrow> metadata_store \<Rightarrow> bool" for X where
  start: "ledger_step X st (snd (start_operation X (with_failpoint fp st) e))"
| finish: "ledger_step X st (snd (finish_operation_internal X (with_failpoint fp st) q))"
| recording: "ledger_step X st (snd (set_operation_recording_status X (with_failpoint fp st) u))"
| journal: "journal_step X st st' \<Longrightarrow> ledger_step X st st'"

lemma start_has_op:
  assumes "has_op x d" "ledger_ok r d" "start_operation_tx X r s d = Inr (Commit d' k)"
  shows "has_op x d'"
  using assms(1) start_operation_commit[OF assms(2,3)] by (elim conjE) (rule has_op_append)

lemma recording_has_op:
  assumes "has_op x d" "ledger_ok r d" "recording_prep r q = Inr c" "recording_tx X r c d = Inr (Commit d' k)"
  shows "has_op x d'"
proof -
  obtain i s u where c: "c = (i, s, u)" by (cases c)
  note com = recording_commit[OF assms(2) conjunct1[OF recording_prep_facts[OF assms(3)[unfolded c]]]
      assms(4)[unfolded c]]
  then have ops: "operations d' = update_where (\<lambda>y. op_operation_id y = i)
      (\<lambda>y. y\<lparr>op_recording_status := s, op_updated_at := u\<rparr>) (operations d)" by (elim conjE)
  show ?thesis by (rule has_op_update[OF assms(1) ops]) (simp_all add: op_evolves_recording)
qed

lemma finish_internal_frame:
  assumes ok: "ledger_ok (st_redactor st) (st_db st)"
  shows "ledger_frame (st_db st) (st_db (snd (finish_operation_internal X st q)))"
proof -
  let ?r = "st_redactor st" and ?d = "st_db st"
  have "ledger_frame ?d (st_db (snd (run_tx st (finish_operation_tx X ?r c current ?d)
      BeforeOperationFinishCommit AfterOperationFinishCommit)))"
    if "finish_operation_prep X ?r ?d q = Inr c" for c current
    by (rule run_tx_invariant, simp)
      (drule finish_operation_commit[OF ok conjunct1[OF finish_prep_valid[OF that]]], elim conjE, assumption)
  moreover have "ledger_frame ?d d'" if "finish_replay X c current ?d = Inr (y, d')" for c current y d'
    using finish_replay_commit[OF ok that] by (elim conjE)
  ultimately show ?thesis
    by (cases "finish_operation_prep X ?r ?d q")
      (auto simp: finish_operation_internal_def Let_def split: option.splits sum.splits prod.splits)
qed

lemma finish_internal_keeps:
  assumes ok: "ledger_ok (st_redactor st) (st_db st)"
  shows "let st' = snd (finish_operation_internal X st q) in st_redactor st' = st_redactor st
    \<and> ledger_ok (st_redactor st) (st_db st') \<and> (has_op x (st_db st) \<longrightarrow> has_op x (st_db st'))"
proof (cases "finish_operation_prep X (st_redactor st) (st_db st) q")
  case (Inl e)
  with ok show ?thesis by (simp add: finish_operation_internal_def Let_def)
next
  case prep: (Inr c)
  let ?r = "st_redactor st" and ?d = "st_db st"
  note valid = conjunct1[OF finish_prep_valid[OF prep]]
  show ?thesis
  proof (cases "row_by op_operation_id (fq_operation_id c) (operations ?d)")
    case None
    with prep ok show ?thesis by (simp add: finish_operation_internal_def Let_def)
  next
    case cur: (Some current)
    show ?thesis
    proof (cases "op_lifecycle_status current = oo_status (fq_outcome c)")
      case True
      show ?thesis
      proof (cases "finish_replay X c current ?d")
        case (Inl e)
        with prep cur True ok show ?thesis by (simp add: finish_operation_internal_def Let_def)
      next
        case (Inr p)
        then obtain y d' where p: "finish_replay X c current ?d = Inr (y, d')" by (cases p) simp
        with finish_replay_commit[OF ok p] prep cur True show ?thesis
          by (simp add: finish_operation_internal_def Let_def has_op_def)
      qed
    next
      case False
      let ?tx = "finish_operation_tx X ?r c current ?d"
      let ?run = "run_tx st ?tx BeforeOperationFinishCommit AfterOperationFinishCommit"
      have "ledger_ok ?r (st_db (snd ?run))"
        by (rule run_tx_invariant) (use ok finish_operation_commit[OF ok valid] in blast)+
      moreover have "has_op x (st_db (snd ?run))" if h: "has_op x ?d"
      proof (rule run_tx_invariant[where I = "has_op x", OF h])
        fix d k assume tx: "?tx = Inr (Commit d k)"
        from finish_operation_commit[OF ok valid tx]
        have ops: "operations d = update_where (\<lambda>y. op_operation_id y = fq_operation_id c
            \<and> op_lifecycle_status y = ''started'') (finish_row (fq_outcome c)) (operations ?d)"
          by (elim conjE)
        show "has_op x d" by (rule has_op_update[OF h ops]) (simp_all add: op_evolves_finish)
      qed
      moreover have "finish_operation_internal X st q = ?run"
        using prep cur False by (simp add: finish_operation_internal_def Let_def)
      ultimately show ?thesis by (simp add: Let_def)
    qed
  qed
qed

lemma ledger_step_keeps:
  assumes "ledger_step X st st'" "ledger_ok (st_redactor st) (st_db st)"
  shows "st_redactor st' = st_redactor st \<and> ledger_ok (st_redactor st) (st_db st')
    \<and> (has_op x (st_db st) \<longrightarrow> has_op x (st_db st'))"
  using assms(1)
proof (cases rule: ledger_step.cases)
  case (start fp e)
  have "has_op x (st_db (snd (start_operation X (with_failpoint fp st) e)))" if "has_op x (st_db st)"
    unfolding start_operation_def by (rule run_op_keeps) (use that start_has_op assms(2) in simp_all)
  with start assms(2) start_operation.op_keeps[of "with_failpoint fp st" X e] show ?thesis
    by (simp add: start_operation_def)
next
  case (finish fp q)
  with finish_internal_keeps[of "with_failpoint fp st" X q x] assms(2) show ?thesis
    by (simp add: Let_def)
next
  case (recording fp u)
  have "has_op x (st_db (snd (set_operation_recording_status X (with_failpoint fp st) u)))"
    if "has_op x (st_db st)"
    unfolding set_operation_recording_status_def
    by (rule run_op_keeps) (use that recording_has_op assms(2) in simp_all)
  with recording assms(2) recording.op_keeps[of "with_failpoint fp st" X u] show ?thesis
    by (simp add: set_operation_recording_status_def)
next
  case journal
  with journal_step_ledger[OF journal assms(2)] show ?thesis by (simp add: has_op_def)
qed

lemma ledger_step_frame:
  assumes "ledger_step X st st'" "ledger_ok (st_redactor st) (st_db st)"
  shows "ledger_frame (st_db st) (st_db st')"
  using assms(1)
proof (cases rule: ledger_step.cases)
  case (start fp e)
  have "ledger_frame (st_db st) (st_db (snd (start_operation X (with_failpoint fp st) e)))"
    unfolding start_operation_def
    by (rule run_op_keeps) (use start_operation_commit[OF assms(2)] in \<open>simp_all, blast?\<close>)
  with start show ?thesis by simp
next
  case (finish fp q)
  with finish_internal_frame[of "with_failpoint fp st" X q] assms(2) show ?thesis by simp
next
  case (recording fp u)
  have keeps: "ledger_frame (st_db st) d" if "recording_prep r q = Inr c"
    "recording_tx X (st_redactor st) c (st_db st) = Inr (Commit d k)" for r q c d k
  proof -
    obtain i s v where c: "c = (i, s, v)" by (cases c)
    from recording_commit[OF assms(2) conjunct1[OF recording_prep_facts[OF that(1)[unfolded c]]]
        that(2)[unfolded c]] show ?thesis by (elim conjE)
  qed
  have "ledger_frame (st_db st) (st_db (snd (set_operation_recording_status X (with_failpoint fp st) u)))"
    unfolding set_operation_recording_status_def by (rule run_op_keeps) (use keeps in simp_all)
  with recording show ?thesis by simp
next
  case journal
  have "journal_ok (st_redactor st) (st_db st)" using assms(2) by (simp add: ledger_ok_def)
  from journal_step_frame[OF journal this] show ?thesis by (elim exE) (simp add: ledger_frame_def)
qed

lemma ledger_steps_keep:
  "(ledger_step X)\<^sup>*\<^sup>* st st' \<Longrightarrow> ledger_ok (st_redactor st) (st_db st) \<Longrightarrow>
    st_redactor st' = st_redactor st \<and> ledger_ok (st_redactor st) (st_db st')
    \<and> (has_op x (st_db st) \<longrightarrow> has_op x (st_db st'))"
proof (induction rule: rtranclp_induct)
  case (step y z)
  then have y: "st_redactor y = st_redactor st" "ledger_ok (st_redactor st) (st_db y)"
    "has_op x (st_db st) \<longrightarrow> has_op x (st_db y)" by simp_all
  from ledger_step_keeps[OF step.hyps(2), of x] y show ?case by simp
qed simp

text \<open>On an empty log a lifecycle event always goes in.\<close>

lemma first_operation_event:
  assumes "events d = []" "event_envelopes d = []"
    and "validate_event_envelope (operation_envelope_event i p a q v t n payload) = Inr ()"
  shows "\<exists>d'. append_operation_event X i p a q v t n payload d = Inr d'"
proof -
  let ?e = "operation_envelope_event i p a q v t n payload"
  let ?js = "write_value (json_str X) payload"
  let ?row = "envelope_event ?e n (digest_text X ?js) ?js"
  let ?d1 = "d\<lparr>events := [?row]\<rparr>"
  have json: "canonical_json_value X w = Inr (write_value (json_str X) w)" for w
    by (simp add: canonical_json_value_def canonical_bytes_def)
  have row: "ev_event_id ?row = nv_event_id ?e" "\<not> legacy_conflicts ?row ?e (digest_text X ?js)"
    by (simp_all add: envelope_event_def legacy_conflicts_def)
  have ins: "insert_event ?row d = Inr ?d1" by (simp add: insert_event_def assms(1))
  have pay: "nv_payload ?e = payload" by (simp add: operation_envelope_event_def)
  have ens: "ensure_event ?e (digest_text X ?js) ?js ?d1 = Inr (ev_sequence ?row, ?d1)"
    by (simp add: ensure_event_def row)
  have "\<exists>en d'. append_event_envelope_tx X ?e ?d1 = Inr (en, d')"
    by (simp add: append_event_envelope_tx_def assms(2,3) json pay ens Let_def insert_envelope_def)
  then obtain en d' where tx: "append_event_envelope_tx X ?e ?d1 = Inr (en, d')" by (elim exE)
  have "append_operation_event X i p a q v t n payload d = Inr d'"
    by (simp add: append_operation_event_def Let_def json ins tx)
  then show ?thesis by (rule exI)
qed

subsection \<open>Finishing again\<close>

lemma same_outcome_finish_row:
  "same_outcome x (finish_row x y) \<longleftrightarrow> (\<forall>e. oo_error x = Some e \<longrightarrow> oe_details e \<noteq> Some JNull)"
proof -
  have "stored_error e = e \<longleftrightarrow> oe_details e \<noteq> Some JNull" for e
    by (cases e) (simp add: stored_error_def)
  then have "map_option stored_error (oo_error x) = oo_error x
      \<longleftrightarrow> (\<forall>e. oo_error x = Some e \<longrightarrow> oe_details e \<noteq> Some JNull)"
    by (cases "oo_error x") simp_all
  then show ?thesis
    by (simp add: same_outcome_def finish_row_def final_output_refs_def final_after_state_def
        split: option.split)
qed

lemma redact_value_null: "redact_value r v = JNull \<longleftrightarrow> v = JNull"
  by (cases v) simp_all

text \<open>No error of the outcome has details that are \<open>null\<close>.\<close>

definition null_details :: "operation_outcome \<Rightarrow> bool" where
  "null_details x = (case oo_error x of None \<Rightarrow> False | Some e \<Rightarrow> oe_details e = Some JNull)"

lemma null_details_redacted: "null_details (redact_operation_outcome r x) = null_details x"
  by (simp add: null_details_def redact_operation_outcome_def redact_operation_error_def
      redact_json_opt_def redact_value_null split: option.split)

lemma same_outcome_finished: "same_outcome x (finish_row x y) \<longleftrightarrow> \<not> null_details x"
  by (simp add: same_outcome_finish_row null_details_def split: option.split)

lemma finish_prep_facts:
  "finish_operation_prep X r d q = Inr c \<Longrightarrow> validate_operation_outcome (fq_outcome c) = Inr ()
    \<and> fq_operation_id c = redact_text r (fq_operation_id q)
    \<and> fq_outcome c = redact_operation_outcome r (fq_outcome q)"
  by (auto simp: finish_operation_prep_def Let_def)

text \<open>The request is prepared the same way on every database with the same identity.\<close>

lemma finish_prep_meta:
  assumes "repository_meta d' = repository_meta d"
  shows "finish_operation_prep X r d' q = finish_operation_prep X r d q"
proof -
  have "projection_identity d' = projection_identity d"
    by (simp add: projection_identity_def generation_identity_def meta_value_def assms)
  then show ?thesis unfolding finish_operation_prep_def finish_event_check_def by (simp only:)
qed

lemma finish_internal_replay:
  assumes "finish_operation_prep X (st_redactor st) (st_db st) q = Inr c"
    and "row_by op_operation_id (fq_operation_id c) (operations (st_db st)) = Some current"
    and "op_lifecycle_status current = oo_status (fq_outcome c)"
    and "same_outcome (fq_outcome c) current"
    and "append_completion X (fq_event c) (st_db st) = Inr (st_db st)"
  shows "finish_operation_internal X st q = (Inr current, st)"
  using assms by (simp add: finish_operation_internal_def Let_def finish_replay_def)

text \<open>What a commit of the outcome reads back, and what sending the outcome again does then.\<close>

lemma finish_commit_again:
  assumes ok: "ledger_ok (st_redactor st) d"
    and prep: "finish_operation_prep X (st_redactor st) d q = Inr c"
    and cur: "row_by op_operation_id (fq_operation_id c) (operations d) = Some current"
    and tx: "finish_operation_tx X (st_redactor st) c current d = Inr (Commit (st_db st) k)"
  shows "k (st_db st) = Inr (finish_row (fq_outcome c) current)"
    and "finish_operation_internal X st q =
      (if null_details (fq_outcome q)
       then (Inl (Integrity ''operation outcome was reused with different content''), st)
       else (Inr (finish_row (fq_outcome c) current), st))"
proof -
  let ?r = "st_redactor st" and ?d' = "st_db st" and ?row = "finish_row (fq_outcome c) current"
  note facts = finish_prep_facts[OF prep]
  note com = finish_operation_commit[OF ok conjunct1[OF facts] tx]
  have id: "op_operation_id current = fq_operation_id c" using cur by (rule row_by_key)
  have row: "row_by op_operation_id (fq_operation_id c) (operations ?d') = Some ?row"
    using com id by (simp add: row_by_update cur)
  have "redact_text ?r (fq_operation_id c) = fq_operation_id c"
    using facts ok by (simp add: ledger_ok_def redact_idem)
  moreover have "k = (\<lambda>d'. case operation_by ?r d' (fq_operation_id c) of
      None \<Rightarrow> Inl (Integrity ''operation disappeared after finish'') | Some y \<Rightarrow> Inr y)"
    using com by (elim conjE)
  ultimately show "k ?d' = Inr ?row" by (simp add: operation_by_def row)
  have prep': "finish_operation_prep X ?r ?d' q = Inr c"
    using finish_prep_meta[of ?d' d] com prep by simp
  have nd: "same_outcome (fq_outcome c) ?row \<longleftrightarrow> \<not> null_details (fq_outcome q)"
    using facts by (simp add: same_outcome_finished null_details_redacted)
  have again: "append_completion X (fq_event c) ?d' = Inr ?d'" using com by (elim conjE)
  show "finish_operation_internal X st q =
      (if null_details (fq_outcome q)
       then (Inl (Integrity ''operation outcome was reused with different content''), st)
       else (Inr ?row, st))"
    using prep' row nd again
    by (simp add: finish_operation_internal_def Let_def finish_replay_def)
qed

text \<open>The two ways a finish gets as far as the ledger, each sent again after a fault.\<close>

lemma finish_replay_retry:
  assumes ok: "ledger_ok (st_redactor st) (st_db st)"
    and prep: "finish_operation_prep X (st_redactor st) (st_db st) q = Inr c"
    and cur: "row_by op_operation_id (fq_operation_id c) (operations (st_db st)) = Some current"
    and same: "op_lifecycle_status current = oo_status (fq_outcome c)"
    and st1: "st1 = snd (finish_operation_internal X (with_failpoint fp st) q)"
  shows "fst (finish_operation_internal X (with_failpoint None st1) q)
      = fst (finish_operation_internal X (with_failpoint None st) q)
    \<and> st_db (snd (finish_operation_internal X (with_failpoint None st1) q))
      = st_db (snd (finish_operation_internal X (with_failpoint None st) q))"
proof (cases "finish_replay X c current (st_db st)")
  case (Inl e)
  with prep cur same show ?thesis by (simp add: st1 finish_operation_internal_def Let_def)
next
  case (Inr p)
  obtain y d' where p: "p = (y, d')" by (cases p)
  have run: "finish_operation_internal X (with_failpoint f st) q
      = (Inr y, (with_failpoint f st)\<lparr>st_db := d'\<rparr>)" for f
    using prep cur same Inr p by (simp add: finish_operation_internal_def Let_def)
  note com = finish_replay_commit[OF ok Inr[unfolded p]]
  have so: "same_outcome (fq_outcome c) current"
    using Inr by (simp add: finish_replay_def split: if_splits)
  have prep': "finish_operation_prep X (st_redactor st) d' q = Inr c"
    using finish_prep_meta[of d' "st_db st"] com prep by simp
  have "finish_operation_internal X (with_failpoint None st1) q
      = (Inr current, with_failpoint None st1)"
    by (rule finish_internal_replay[of _ _ _ c])
      (use com prep' cur same so in \<open>simp_all add: st1 run\<close>)
  with com show ?thesis by (simp add: st1 run)
qed

lemma finish_commit_retry:
  assumes ok: "ledger_ok (st_redactor st) (st_db st)" and nd: "\<not> null_details (fq_outcome q)"
    and prep: "finish_operation_prep X (st_redactor st) (st_db st) q = Inr c"
    and cur: "row_by op_operation_id (fq_operation_id c) (operations (st_db st)) = Some current"
    and diff: "op_lifecycle_status current \<noteq> oo_status (fq_outcome c)"
    and st1: "st1 = snd (finish_operation_internal X (with_failpoint fp st) q)"
  shows "fst (finish_operation_internal X (with_failpoint None st1) q)
      = fst (finish_operation_internal X (with_failpoint None st) q)
    \<and> st_db (snd (finish_operation_internal X (with_failpoint None st1) q))
      = st_db (snd (finish_operation_internal X (with_failpoint None st) q))"
proof -
  let ?r = "st_redactor st" and ?d = "st_db st"
  let ?tx = "finish_operation_tx X ?r c current ?d"
  have run: "finish_operation_internal X (with_failpoint f st) q = run_tx (with_failpoint f st) ?tx
      BeforeOperationFinishCommit AfterOperationFinishCommit" for f
    using prep cur diff by (simp add: finish_operation_internal_def Let_def)
  have red: "st_redactor st1 = ?r" by (simp add: st1 run)
  have db: "st_db st1 = ?d \<or> (\<exists>k. ?tx = Inr (Commit (st_db st1) k))"
    using run_tx_db_cases[of "with_failpoint fp st" ?tx] by (simp add: st1 run)
  show ?thesis
  proof (cases "st_db st1 = ?d")
    case True
    then have "finish_operation_internal X (with_failpoint None st1) q = run_tx
        (with_failpoint None st1) ?tx BeforeOperationFinishCommit AfterOperationFinishCommit"
      using prep cur diff red by (simp add: finish_operation_internal_def Let_def)
    with True show ?thesis by (simp add: run run_tx_unarmed split: sum.split tx_end.split)
  next
    case False
    with db obtain k where tx: "?tx = Inr (Commit (st_db st1) k)" by blast
    have "k (st_db st1) = Inr (finish_row (fq_outcome c) current)"
      "finish_operation_internal X (with_failpoint None st1) q
        = (Inr (finish_row (fq_outcome c) current), with_failpoint None st1)"
      using finish_commit_again[of "with_failpoint None st1" ?d X q c current k] ok nd prep cur tx
      by (simp_all add: red)
    then show ?thesis by (simp add: run run_tx_unarmed tx)
  qed
qed

section \<open>Properties\<close>

text \<open>
  C7. Whatever calls are made on the ledger and on the journal, in whatever order and with
  whatever faults, an operation is never lost and its envelope never changes; its outcome is
  written at most once, in the one call that takes it out of \<open>started\<close>, and it carries exactly
  one result or error when it is finished. The journal row of its request is there as well.
\<close>

theorem operation_life:
  assumes "(ledger_step X)\<^sup>*\<^sup>* st st'" "ledger_ok (st_redactor st) (st_db st)"
    and "row_by op_operation_id i (operations (st_db st)) = Some x"
  shows "\<exists>y. row_by op_operation_id i (operations (st_db st')) = Some y
    \<and> op_evolves x y \<and> op_consistent y \<and> op_journaled (operation_journal (st_db st')) y"
proof -
  have id: "op_operation_id x = i" using assms(3) by (rule row_by_key)
  have "has_op x (st_db st)" using assms(3) by (simp add: has_op_def id)
  with ledger_steps_keep[OF assms(1,2), of x]
  have h: "has_op x (st_db st')" and ok: "ledger_ok (st_redactor st) (st_db st')" by simp_all
  from h obtain y where y: "row_by op_operation_id i (operations (st_db st')) = Some y"
    "op_evolves x y" unfolding has_op_def id by (elim exE conjE)
  with ok row_by_in[OF y(1)] show ?thesis by (intro exI[of _ y]) (simp add: ledger_ok_def)
qed

text \<open>
  The outcome of an operation survives one injected fault: unless the error of the outcome
  has details that are \<open>null\<close>, sending the outcome again after a run with any failpoint armed
  ends in the answer and the database of an undisturbed run, completion event included.
\<close>

lemma finish_retry_converges:
  assumes "ledger_ok (st_redactor st) (st_db st)" "\<not> null_details (fq_outcome q)"
    and "st1 = snd (finish_operation_internal X (with_failpoint fp st) q)"
  shows "fst (finish_operation_internal X (with_failpoint None st1) q)
      = fst (finish_operation_internal X (with_failpoint None st) q)
    \<and> st_db (snd (finish_operation_internal X (with_failpoint None st1) q))
      = st_db (snd (finish_operation_internal X (with_failpoint None st) q))"
proof (cases "finish_operation_prep X (st_redactor st) (st_db st) q")
  case (Inl e)
  then show ?thesis by (simp add: assms(3) finish_operation_internal_def Let_def)
next
  case prep: (Inr c)
  show ?thesis
  proof (cases "row_by op_operation_id (fq_operation_id c) (operations (st_db st))")
    case None
    with prep show ?thesis by (simp add: assms(3) finish_operation_internal_def Let_def)
  next
    case (Some current)
    with finish_replay_retry[OF assms(1) prep _ _ assms(3)]
      finish_commit_retry[OF assms(1,2) prep _ _ assms(3)] show ?thesis by blast
  qed
qed

text \<open>
  The outcome of an operation is decided once: whatever is sent for an operation that is no
  longer started either is refused and changes nothing, or is the outcome the operation already
  has, and then the row that is there is returned and neither ledger nor journal changes.
\<close>

lemma outcome_decided_once:
  assumes "ledger_ok (st_redactor st) (st_db st)"
    and "operation_by (st_redactor st) (st_db st) (fq_operation_id q) = Some current"
    and "op_lifecycle_status current \<noteq> ''started''"
    and "finish_operation_internal X st q = (out, st')"
  shows "(\<exists>e. out = Inl e \<and> st' = st)
    \<or> (out = Inr current \<and> operations (st_db st') = operations (st_db st)
       \<and> operation_journal (st_db st') = operation_journal (st_db st)
       \<and> oo_status (redact_operation_outcome (st_redactor st) (fq_outcome q)) = op_lifecycle_status current
       \<and> same_outcome (redact_operation_outcome (st_redactor st) (fq_outcome q)) current)"
proof (cases "finish_operation_prep X (st_redactor st) (st_db st) q")
  case (Inl e)
  with assms(4) have "out = Inl e \<and> st' = st" by (simp add: finish_operation_internal_def Let_def)
  then show ?thesis by blast
next
  case prep: (Inr c)
  note facts = finish_prep_facts[OF prep]
  have cur: "row_by op_operation_id (fq_operation_id c) (operations (st_db st)) = Some current"
    using assms(2) facts by (simp add: operation_by_def)
  show ?thesis
  proof (cases "op_lifecycle_status current = oo_status (fq_outcome c)")
    case True
    show ?thesis
    proof (cases "finish_replay X c current (st_db st)")
      case (Inl e)
      with prep cur True assms(4) have "out = Inl e \<and> st' = st"
        by (simp add: finish_operation_internal_def Let_def)
      then show ?thesis by blast
    next
      case (Inr p)
      obtain y d' where p: "p = (y, d')" by (cases p)
      have run: "out = Inr y" "st' = st\<lparr>st_db := d'\<rparr>"
        using prep cur True Inr p assms(4) by (simp_all add: finish_operation_internal_def Let_def)
      have "same_outcome (fq_outcome c) current"
        using Inr by (simp add: finish_replay_def split: if_splits)
      with finish_replay_commit[OF assms(1) Inr[unfolded p]] run facts True show ?thesis by simp
    qed
  next
    case False
    obtain e where "finish_operation_tx X (st_redactor st) c current (st_db st) = Inl e"
      using assms(3) by (simp add: finish_operation_tx_def Let_def)
    with False prep cur assms(4) have "out = Inl e \<and> st' = st"
      by (simp add: finish_operation_internal_def Let_def)
    then show ?thesis by blast
  qed
qed

text \<open>
  C12. A request is bound to the operation it started: whatever happens to ledger and journal
  in between, starting with that request again returns that operation, in its current state, if
  the envelope is the same, and is refused otherwise; the store does not change.
\<close>

theorem request_bound_once:
  assumes "(ledger_step X)\<^sup>*\<^sup>* st st'" "ledger_ok (st_redactor st) (st_db st)"
    and "start_operation_prep X (st_redactor st) e = Inr s"
    and "row_by op_request_key (ov_project_id (os_envelope s), ov_agent_id (os_envelope s),
        ov_request_id (os_envelope s)) (operations (st_db st)) = Some x"
  shows "\<exists>y. op_evolves x y \<and> start_operation X st' e =
    (if op_envelope_digest x = os_digest s then Inr y
     else Inl (IdempotencyKeyReuse (ov_request_id (os_envelope s))), st')"
proof -
  let ?k = "(ov_project_id (os_envelope s), ov_agent_id (os_envelope s), ov_request_id (os_envelope s))"
  have key: "op_request_key x = ?k" and x: "x \<in> set (operations (st_db st))"
    using row_by_key[OF assms(4)] row_by_in[OF assms(4)] by simp_all
  have "row_by op_operation_id (op_operation_id x) (operations (st_db st)) = Some x"
    using assms(2) x by (simp add: ledger_ok_def row_by_unique)
  then have "has_op x (st_db st)" by (simp add: has_op_def)
  with ledger_steps_keep[OF assms(1,2), of x] have red: "st_redactor st' = st_redactor st"
    and ok: "ledger_ok (st_redactor st) (st_db st')" and h: "has_op x (st_db st')" by simp_all
  from h obtain y where y: "y \<in> set (operations (st_db st'))" and e: "op_evolves x y"
    unfolding has_op_def by (elim exE conjE) (rule that, rule row_by_in)
  from e have kept: "op_request_key y = op_request_key x" "op_envelope_digest y = op_envelope_digest x"
    unfolding op_evolves_def by (elim disjE exE conjE; simp add: op_request_key_def)+
  have "row_by op_request_key (op_request_key y) (operations (st_db st')) = Some y"
    using ok y by (simp add: ledger_ok_def row_by_unique)
  then have "start_operation X st' e = (if op_envelope_digest x = os_digest s then Inr y
      else Inl (IdempotencyKeyReuse (ov_request_id (os_envelope s))), st')"
    using assms(3) by (simp add: start_operation_def run_op_prepared red start_operation_tx_def
        Let_def key kept)
  with e show ?thesis by (intro exI conjI)
qed

text \<open>
  A start that is interrupted by one injected fault, before or after its commit, is healed
  by sending the same envelope again: answer and database are those of an undisturbed run.
\<close>

lemma start_retry_converges:
  assumes "ledger_ok (st_redactor st) (st_db st)"
    and "st1 = snd (start_operation X (with_failpoint fp st) e)"
  shows "fst (start_operation X (with_failpoint None st1) e)
      = fst (start_operation X (with_failpoint None st) e)
    \<and> st_db (snd (start_operation X (with_failpoint None st1) e))
      = st_db (snd (start_operation X (with_failpoint None st) e))"
  unfolding start_operation_def
  by (rule start_operation.retry_converges[OF assms(1)]) (simp add: assms(2) start_operation_def)

text \<open>
  C13. A finish that succeeds writes the outcome to the operation and to the journal row of its
  request in one transaction, whatever phase that row is in. In particular it takes a row that a
  recovery has marked \<open>unknown\<close> to the outcome's phase, a transition the journal itself refuses.
  Sending the same outcome again returns the operation unchanged, unless the error of the
  outcome has details that are \<open>null\<close>: that one is refused as different content.
\<close>

theorem finish_writes_both:
  assumes "ledger_ok (st_redactor st) (st_db st)"
    and "operation_by (st_redactor st) (st_db st) (fq_operation_id q) = Some current"
    and "op_lifecycle_status current = ''started''"
    and "finish_operation_internal X st q = (Inr x, st')"
  shows "let u = redact_operation_outcome (st_redactor st) (fq_outcome q) in
    x = finish_row u current
    \<and> operation_by (st_redactor st) (st_db st') (fq_operation_id q) = Some x
    \<and> (\<exists>j j'. row_by jo_key (op_request_key current) (operation_journal (st_db st)) = Some j
        \<and> row_by jo_key (op_request_key current) (operation_journal (st_db st')) = Some j'
        \<and> jo_operation_id j' = op_operation_id current \<and> jo_phase j' = journal_phase_of (oo_status u)
        \<and> (phase_transition_allowed ''unknown'' (jo_phase j') \<longleftrightarrow> oo_status u = ''unknown''))
    \<and> finish_operation_internal X st' q =
        (if null_details (fq_outcome q)
         then (Inl (Integrity ''operation outcome was reused with different content''), st')
         else (Inr x, st'))"
proof -
  let ?r = "st_redactor st" and ?d = "st_db st"
  obtain c where prep: "finish_operation_prep X ?r ?d q = Inr c"
    using assms(4) by (cases "finish_operation_prep X ?r ?d q")
      (simp_all add: finish_operation_internal_def Let_def)
  note facts = finish_prep_facts[OF prep]
  note valid = conjunct1[OF facts]
  have cur: "row_by op_operation_id (fq_operation_id c) (operations ?d) = Some current"
    using assms(2) facts by (simp add: operation_by_def)
  have ne: "op_lifecycle_status current \<noteq> oo_status (fq_outcome c)"
    using valid_outcome_facts[OF valid] assms(3) by (auto simp: outcome_statuses_def)
  let ?tx = "finish_operation_tx X ?r c current ?d"
  have run: "run_tx st ?tx BeforeOperationFinishCommit AfterOperationFinishCommit = (Inr x, st')"
    using prep cur ne assms(4) by (simp add: finish_operation_internal_def Let_def)
  have unfinished: "?tx \<noteq> Inr (Finished x)"
    by (simp add: finish_operation_tx_def Let_def split: if_split)
  from run_tx_success[OF run] unfinished obtain k where
    tx: "?tx = Inr (Commit (st_db st') k)" and k: "k (st_db st') = Inr x" by blast
  have red: "st_redactor st' = ?r" using run_tx_redactor[of st ?tx] run by (metis snd_conv)
  note again = finish_commit_again[of st' ?d X q c current k, unfolded red, OF assms(1) prep cur tx]
  note com = finish_operation_commit[OF assms(1) valid tx]
  have u: "redact_operation_outcome ?r (fq_outcome q) = fq_outcome c" using facts by simp
  have x: "x = finish_row (fq_outcome c) current" using again(1) k by simp
  have row: "operation_by ?r (st_db st') (fq_operation_id q) = Some x"
    using com facts assms(2,3) row_by_key[OF cur] by (simp add: operation_by_def row_by_update x)
  from assms(1) row_by_in[OF cur] obtain j where
    j: "row_by jo_key (op_request_key current) (operation_journal ?d) = Some j"
      "jo_operation_id j = op_operation_id current"
    by (auto simp: ledger_ok_def op_journaled_def)
  from com obtain js where "operation_journal (st_db st') = update_where
      (\<lambda>y. jo_key y = op_request_key current)
      (set_outcome (journal_phase_of (oo_status (fq_outcome c))) js) (operation_journal ?d)"
    by (elim conjE exE)
  then have j': "row_by jo_key (op_request_key current) (operation_journal (st_db st'))
      = Some (set_outcome (journal_phase_of (oo_status (fq_outcome c))) js j)"
    using j row_by_key[OF j(1)] by (simp add: row_by_update)
  have "oo_status (fq_outcome c) \<in> set outcome_statuses" using valid_outcome_facts[OF valid] by simp
  then have "phase_transition_allowed ''unknown'' (journal_phase_of (oo_status (fq_outcome c)))
      \<longleftrightarrow> oo_status (fq_outcome c) = ''unknown''"
    by (auto simp: outcome_statuses_def journal_phase_of_def phase_transition_allowed_def)
  with j j' row x again(2) show ?thesis by (simp add: Let_def u)
qed

section \<open>The properties at a concrete ledger\<close>

text \<open>One started operation with its intent, an outcome for it, and an outcome whose error has
  details that are \<open>null\<close>.\<close>

definition sample_envelope :: operation_envelope where
  "sample_envelope = \<lparr>ov_operation_id = ''o1'', ov_project_id = ''p1'', ov_request_id = ''r1'',
     ov_agent_id = ''a1'', ov_session_id = ''s1'', ov_workspace_id = None, ov_environment_id = None,
     ov_parent_operation_id = None, ov_schema_version = ''1'', ov_started_at = ''d1'',
     ov_tool = ''t1'', ov_action = ''x1'', ov_input_refs = [], ov_output_refs = [],
     ov_resource = None, ov_before_state = None, ov_after_state = None,
     ov_reversibility = ''r'', ov_replayability = ''r'', ov_side_effect = ''e'',
     ov_policy_decision = None\<rparr>"

definition sample_operation :: operation_record where
  "sample_operation = started_row default_redactor sample_envelope ''h1''"

definition sample_ledger :: "utf8 \<Rightarrow> operation_record \<Rightarrow> metadata_store" where
  "sample_ledger phase x = (open_store default_redactor)\<lparr>st_db := (empty_db default_redactor)
     \<lparr>operations := [x], operation_journal := [sample_entry phase]\<rparr>\<rparr>"

definition sample_error :: "json option \<Rightarrow> operation_error" where
  "sample_error details = \<lparr>oe_code = ''c1'', oe_message = ''m1'', oe_retryable = False,
     oe_details = details, oe_safe_to_expose = True\<rparr>"

definition sample_finish :: "json option \<Rightarrow> finish_request" where
  "sample_finish details = \<lparr>fq_operation_id = ''o1'', fq_outcome = \<lparr>oo_status = ''failed'',
     oo_finished_at = ''d2'', oo_output_refs = None, oo_after_state = None, oo_result = None,
     oo_error = Some (sample_error details)\<rparr>, fq_event = None\<rparr>"

lemma sample_ledger_simps [simp]:
  "operations (st_db (sample_ledger p x)) = [x]"
  "operation_journal (st_db (sample_ledger p x)) = [sample_entry p]"
  "events (st_db (sample_ledger p x)) = []" "event_envelopes (st_db (sample_ledger p x)) = []"
  "st_redactor (sample_ledger p x) = default_redactor" "st_failpoints (sample_ledger p x) = None"
  by (simp_all add: sample_ledger_def empty_db_def)

lemma sample_operation_simps [simp]:
  "op_operation_id sample_operation = ''o1''"
  "op_request_key sample_operation = (''p1'', ''a1'', ''r1'')"
  "op_lifecycle_status sample_operation = ''started''"
  by (simp_all add: sample_operation_def sample_envelope_def)

lemma sample_ledger_ok:
  assumes "op_consistent x" "op_request_key x = (''p1'', ''a1'', ''r1'')" "op_operation_id x = ''o1''"
    and "p \<in> set (''intent_durable'' # KNOWN_OUTCOME_PHASES)"
  shows "ledger_ok default_redactor (st_db (sample_ledger p x))"
  using assms
  by (simp add: ledger_ok_def journal_ok_def events_ok_def unique_by_def op_journaled_def
      sample_entry_def jo_key_def)

lemma sample_started_ok:
  "p \<in> set (''intent_durable'' # KNOWN_OUTCOME_PHASES) \<Longrightarrow>
    ledger_ok default_redactor (st_db (sample_ledger p sample_operation))"
  using started_row_consistent[of default_redactor sample_envelope "''h1''"]
  by (intro sample_ledger_ok) (simp_all, simp only: sample_operation_def)

lemma valid_text_sample [simp]:
  "valid_text ''o1''" "valid_text ''failed''" "valid_text ''d2''" "valid_text ''c1''" "valid_text ''m1''"
  by code_simp+

lemma sample_texts [simp]:
  "validate_non_empty ''o1'' l = Inr ()" "validate_non_empty ''failed'' l = Inr ()"
  "validate_non_empty ''d2'' l = Inr ()" "validate_non_empty ''c1'' l = Inr ()"
  "validate_non_empty ''m1'' l = Inr ()"
  by (simp_all add: valid_text_sample)

lemma sample_outcome_redacted:
  "v \<in> {None, Some JNull} \<Longrightarrow> redact_operation_outcome default_redactor (fq_outcome (sample_finish v))
    = fq_outcome (sample_finish v)"
  by (auto simp: sample_finish_def sample_error_def redact_operation_outcome_def
      redact_operation_error_def redact_json_opt_def)

lemma sample_finish_prepared:
  assumes "v \<in> {None, Some JNull}"
  shows "finish_operation_prep X default_redactor d (sample_finish v) = Inr (sample_finish v)"
proof -
  have "validate_operation_outcome (fq_outcome (sample_finish v)) = Inr ()"
    by (simp add: validate_operation_outcome_def sample_finish_def sample_error_def outcome_statuses_def)
  then show ?thesis
    using sample_outcome_redacted[OF assms]
    by (simp add: finish_operation_prep_def finish_event_check_def Let_def)
       (simp add: sample_finish_def)
qed

lemma sample_event_valid:
  "validate_event_envelope (operation_envelope_event ''o1'' ''p1'' ''a1'' ''r1'' ''1'' ''d2'' 1
     (finished_payload ''o1'' s ''durable'' h)) = Inr ()"
proof -
  have "list_all (\<lambda>(v, _). valid_text v) [(''operation:o1:1'', ''event_id''), (''p1'', ''project_id''),
      (''operation:o1'', ''stream_id''), (''operation.lifecycle'', ''event_type''),
      (''1'', ''schema_version''), (''d2'', ''occurred_at''), (''redacted'', '''')]" by code_simp
  moreover have "show_int 1 = ''1''" by code_simp
  ultimately show ?thesis
    by (simp add: validate_event_envelope_def operation_envelope_event_def operation_stream_def
        finished_payload_def payload_type_def json_get_def)
qed

lemma value_domain: "validate_domain ''operation/value/v1'' = Inr ()"
  by code_simp

text \<open>Finishing the sample operation succeeds, whatever phase its journal row is in.\<close>

lemma sample_finish_succeeds:
  assumes "v \<in> {None, Some JNull}" "p \<in> set (''intent_durable'' # KNOWN_OUTCOME_PHASES)"
  shows "\<exists>x st'. finish_operation_internal sample_externals (sample_ledger p sample_operation)
    (sample_finish v) = (Inr x, st')"
proof -
  let ?X = sample_externals and ?st = "sample_ledger p sample_operation" and ?q = "sample_finish v"
  let ?u = "fq_outcome ?q"
  have q: "fq_operation_id ?q = ''o1''" "oo_status ?u = ''failed''" "oo_finished_at ?u = ''d2''"
    "fq_event ?q = None"
    by (simp_all add: sample_finish_def)
  have op: "op_project_id sample_operation = ''p1''" "op_agent_id sample_operation = ''a1''"
    "op_request_id sample_operation = ''r1''" "op_schema_version sample_operation = ''1''"
    "op_recording_status sample_operation = ''durable''"
    by (simp_all add: sample_operation_def started_row_def sample_envelope_def)
  obtain h where h: "operation_value_digest ?X (operation_outcome_value ?u) = Inr h"
    using value_domain by (simp add: operation_value_digest_def canonical_digest_def canonical_bytes_def)
  obtain js where js: "canonical_json_value ?X (outcome_payload ''o1'' ?u h) = Inr js"
    by (simp add: canonical_json_value_def canonical_bytes_def)
  let ?d1 = "(st_db ?st)\<lparr>operations := [finish_row ?u sample_operation]\<rparr>"
  let ?d2 = "?d1\<lparr>operation_journal := [set_outcome (journal_phase_of ''failed'') js (sample_entry p)]\<rparr>"
  have log: "events ?d2 = []" "event_envelopes ?d2 = []" by simp_all
  from first_operation_event[OF log sample_event_valid[of "''failed''" h], of ?X]
  obtain d3 where d3: "append_operation_event ?X ''o1'' ''p1'' ''a1'' ''r1'' ''1'' ''d2'' 1
      (finished_payload ''o1'' ''failed'' ''durable'' h) ?d2 = Inr d3" by (elim exE)
  have n: "next_operation_event_sequence ''o1'' ?d2 = 1"
    by (simp add: next_operation_event_sequence_def next_sequence_def next_number_def)
  have upd: "update_where (\<lambda>y. op_operation_id y = ''o1'' \<and> op_lifecycle_status y = ''started'')
      (finish_row ?u) [sample_operation] = [finish_row ?u sample_operation]"
    "update_where (\<lambda>y. jo_key y = (''p1'', ''a1'', ''r1''))
      (set_outcome (journal_phase_of ''failed'') js) [sample_entry p]
        = [set_outcome (journal_phase_of ''failed'') js (sample_entry p)]"
    by (simp_all add: update_where_def)
  have one: "count_rows (\<lambda>y. jo_key y = (''p1'', ''a1'', ''r1'')) [sample_entry p] = 1"
    by (simp add: count_rows_def)
  have "\<exists>k. finish_operation_tx ?X default_redactor ?q sample_operation (st_db ?st)
      = Inr (Commit d3 k)"
    unfolding finish_operation_tx_def
    by (simp add: q op h js upd one n d3 append_completion_def Let_def)
  then obtain k where tx: "finish_operation_tx ?X default_redactor ?q sample_operation (st_db ?st)
      = Inr (Commit d3 k)" by (elim exE)
  note ok = sample_started_ok[OF assms(2)]
  have "k d3 = Inr (finish_row ?u sample_operation)"
    using finish_commit_again(1)[of "?st\<lparr>st_db := d3\<rparr>" "st_db ?st" ?X ?q ?q sample_operation k]
      ok sample_finish_prepared[OF assms(1)] tx by (simp add: q)
  with tx sample_finish_prepared[OF assms(1)] show ?thesis
    by (simp add: finish_operation_internal_def Let_def q run_tx_unarmed)
qed

lemma op_evolves_envelope:
  "op_evolves x y \<Longrightarrow> op_operation_id y = op_operation_id x \<and> op_request_key y = op_request_key x
    \<and> op_envelope_digest y = op_envelope_digest x"
  unfolding op_evolves_def by (elim disjE exE conjE; simp add: op_request_key_def)

theorem operation_life_witness:
  "\<exists>y. row_by op_operation_id ''o1'' (operations (st_db (snd (finish_operation_internal sample_externals
      (with_failpoint (Some AfterOperationFinishCommit) (snd (recover_unfinished_operations
        (with_failpoint None (sample_ledger ''intent_durable'' sample_operation)))))
      (sample_finish None))))) = Some y \<and> op_envelope_digest y = ''h1''"
proof -
  let ?st = "sample_ledger ''intent_durable'' sample_operation"
  let ?st' = "snd (finish_operation_internal sample_externals
      (with_failpoint (Some AfterOperationFinishCommit) (snd (recover_unfinished_operations
        (with_failpoint None ?st)))) (sample_finish None))"
  have steps: "(ledger_step sample_externals)\<^sup>*\<^sup>* ?st ?st'"
    by (rule rtranclp.rtrancl_into_rtrancl, rule r_into_rtranclp, rule ledger_step.journal,
        rule journal_step.recovery) (rule ledger_step.finish)
  have ok: "ledger_ok (st_redactor ?st) (st_db ?st)" using sample_started_ok by simp
  have row: "row_by op_operation_id ''o1'' (operations (st_db ?st)) = Some sample_operation" by simp
  from operation_life[OF steps ok row] obtain y where
    "row_by op_operation_id ''o1'' (operations (st_db ?st')) = Some y" "op_evolves sample_operation y"
    by (elim exE conjE)
  with op_evolves_envelope[of sample_operation y] show ?thesis
    by (intro exI[of _ y] conjI) (simp_all add: sample_operation_def)
qed

lemma finish_retry_converges_witness:
  "fst (finish_operation_internal sample_externals (with_failpoint None (snd
      (finish_operation_internal sample_externals
        (with_failpoint (Some AfterOperationFinishCommit) (sample_ledger ''unknown'' sample_operation))
        (sample_finish None)))) (sample_finish None))
    = fst (finish_operation_internal sample_externals
        (with_failpoint None (sample_ledger ''unknown'' sample_operation)) (sample_finish None))"
proof -
  let ?st = "sample_ledger ''unknown'' sample_operation"
  have "ledger_ok (st_redactor ?st) (st_db ?st)"
    using sample_started_ok[of "''unknown''"] by (simp add: KNOWN_OUTCOME_PHASES_def)
  moreover have "\<not> null_details (fq_outcome (sample_finish None))"
    by (simp add: null_details_def sample_finish_def sample_error_def)
  ultimately show ?thesis using finish_retry_converges[OF _ _ refl] by blast
qed

lemma outcome_decided_once_witness:
  "snd (finish_operation_internal sample_externals (sample_ledger ''failed''
      (finish_row (fq_outcome (sample_finish (Some JNull))) sample_operation)) (sample_finish (Some JNull)))
    = sample_ledger ''failed'' (finish_row (fq_outcome (sample_finish (Some JNull))) sample_operation)"
proof -
  let ?q = "sample_finish (Some JNull)"
  let ?x = "finish_row (fq_outcome ?q) sample_operation"
  let ?st = "sample_ledger ''failed'' ?x"
  have v: "validate_operation_outcome (fq_outcome ?q) = Inr ()"
    using finish_prep_valid[OF sample_finish_prepared[of "Some JNull" sample_externals]] by simp
  have "op_consistent ?x"
    using finish_row_consistent[OF _ v] started_row_consistent
    by (simp add: sample_operation_def)
  then have ok: "ledger_ok (st_redactor ?st) (st_db ?st)"
    using sample_ledger_ok[of ?x "''failed''"] by (simp add: KNOWN_OUTCOME_PHASES_def)
  have cur: "operation_by (st_redactor ?st) (st_db ?st) (fq_operation_id ?q) = Some ?x"
    by (simp add: operation_by_def) (simp add: sample_finish_def)
  have "op_lifecycle_status ?x = ''failed''" unfolding finish_row_keys by (simp add: sample_finish_def)
  then have started: "op_lifecycle_status ?x \<noteq> ''started''" by simp
  have "\<not> same_outcome (redact_operation_outcome (st_redactor ?st) (fq_outcome ?q)) ?x"
    using sample_outcome_redacted[of "Some JNull"] same_outcome_finished[of "fq_outcome ?q"]
    by (simp add: null_details_def) (simp add: sample_finish_def sample_error_def)
  with outcome_decided_once[OF ok cur started, of sample_externals] show ?thesis
    by (metis prod.collapse)
qed

theorem request_bound_once_witness:
  "fst (start_operation sample_externals (snd (finish_operation_internal sample_externals
      (with_failpoint None (sample_ledger ''intent_durable'' sample_operation)) (sample_finish None)))
      sample_envelope) = Inl (IdempotencyKeyReuse ''r1'')"
proof -
  let ?st = "sample_ledger ''intent_durable'' sample_operation"
  let ?e = sample_envelope
  have red: "redact_operation_envelope default_redactor ?e = ?e"
    by (simp add: redact_operation_envelope_def sample_envelope_def redact_opt_def redact_json_opt_def)
  have v: "validate_operation_envelope ?e = Inr ()" by code_simp
  have dom: "validate_domain ''operation/envelope/v1'' = Inr ()" by code_simp
  obtain h where h: "operation_envelope_digest sample_externals ?e = Inr (''sha256:'' @ h)"
    using dom by (simp add: operation_envelope_digest_def canonical_digest_def canonical_bytes_def)
  obtain js where js: "canonical_json_value sample_externals (operation_envelope_value ?e) = Inr js"
    by (simp add: canonical_json_value_def canonical_bytes_def)
  have prep: "start_operation_prep sample_externals (st_redactor ?st) ?e = Inr
      \<lparr>os_envelope = ?e, os_digest = ''sha256:'' @ h, os_envelope_json = js\<rparr>"
    by (simp add: start_operation_prep_def Let_def red v h js)
  have ok: "ledger_ok (st_redactor ?st) (st_db ?st)" using sample_started_ok by simp
  have steps: "(ledger_step sample_externals)\<^sup>*\<^sup>* ?st (snd (finish_operation_internal sample_externals
      (with_failpoint None ?st) (sample_finish None)))"
    by (rule r_into_rtranclp, rule ledger_step.finish)
  have keys: "ov_project_id ?e = ''p1''" "ov_agent_id ?e = ''a1''" "ov_request_id ?e = ''r1''"
    "op_envelope_digest sample_operation = ''h1''"
    by (simp_all add: sample_envelope_def sample_operation_def)
  show ?thesis using request_bound_once[OF steps ok prep, of sample_operation] by (simp add: keys)
qed

lemma start_retry_converges_witness:
  "fst (start_operation sample_externals (with_failpoint None (snd (start_operation sample_externals
      (with_failpoint (Some AfterSqliteCommit) (open_store default_redactor)) sample_envelope)))
      sample_envelope)
    = fst (start_operation sample_externals (with_failpoint None (open_store default_redactor))
        sample_envelope)"
  using start_retry_converges[OF _ refl, of "open_store default_redactor"] ledger_ok_empty
  by simp

theorem finish_writes_both_witness:
  "\<exists>x st'. finish_operation_internal sample_externals (sample_ledger ''unknown'' sample_operation)
      (sample_finish (Some JNull)) = (Inr x, st')
    \<and> (\<exists>j. row_by jo_key (''p1'', ''a1'', ''r1'') (operation_journal (st_db st')) = Some j
        \<and> jo_phase j = ''failed'')
    \<and> finish_operation_internal sample_externals st' (sample_finish (Some JNull))
        = (Inl (Integrity ''operation outcome was reused with different content''), st')"
proof -
  let ?st = "sample_ledger ''unknown'' sample_operation" and ?q = "sample_finish (Some JNull)"
  have u: "''unknown'' \<in> set (''intent_durable'' # KNOWN_OUTCOME_PHASES)"
    by (simp add: KNOWN_OUTCOME_PHASES_def)
  obtain x st' where run: "finish_operation_internal sample_externals ?st ?q = (Inr x, st')"
    using sample_finish_succeeds[of "Some JNull" "''unknown''"] u by blast
  have ok: "ledger_ok (st_redactor ?st) (st_db ?st)" using sample_started_ok[OF u] by simp
  have cur: "operation_by (st_redactor ?st) (st_db ?st) (fq_operation_id ?q) = Some sample_operation"
    by (simp add: operation_by_def) (simp add: sample_finish_def)
  have "oo_status (fq_outcome ?q) = ''failed''" "null_details (fq_outcome ?q)"
    by (simp_all add: sample_finish_def null_details_def sample_error_def)
  with finish_writes_both[OF ok cur _ run] run show ?thesis
    using sample_outcome_redacted[of "Some JNull"]
    by (simp add: Let_def journal_phase_of_def) blast
qed

end
