(* ===== verification/Snapshot_Store.thy ===== *)
theory Snapshot_Store
  imports Workspace_Store Event_Store
begin

text \<open>
  Publication of snapshots (\<open>publish_snapshot\<close>, \<open>snapshot_record\<close>, \<open>snapshot_id_for_root\<close> of
  \<open>src/src/metadata.rs\<close>): the snapshot row, its event and the new head of the workspace are
  written in one transaction, which passes a failpoint between its statements. The lemmas show
  that a publication is all or nothing wherever a fault strikes, and what its retries do.
\<close>

section \<open>Failpoints inside a transaction\<close>

text \<open>\<open>inject_...(...)?\<close> between two statements: the error returns, and with it the transaction
  is rolled back, or the statements go on with what is left armed.\<close>

definition pass ::
  "unit res \<times> metadata_store \<Rightarrow> (metadata_store \<Rightarrow> 'a res \<times> metadata_store) \<Rightarrow>
    'a res \<times> metadata_store" where
  "pass i k = (case i of (Inl e, st) \<Rightarrow> (Inl e, st) | (Inr _, st) \<Rightarrow> k st)"

text \<open>A statement of the transaction, which works on the uncommitted database.\<close>

definition attempt ::
  "metadata_store \<Rightarrow> 'b res \<Rightarrow> ('b \<Rightarrow> 'a res \<times> metadata_store) \<Rightarrow> 'a res \<times> metadata_store" where
  "attempt st x k = (case x of Inl e \<Rightarrow> (Inl e, st) | Inr y \<Rightarrow> k y)"

lemma attempt_simps [simp]:
  "attempt st (Inl e) k = (Inl e, st)" "attempt st (Inr y) k = k y"
  by (simp_all add: attempt_def)

lemma pass_unarmed:
  assumes "st_failpoints st = None"
  shows "pass (inject_snapshot_failpoint st p) k = k st" "pass (inject_before_commit st p) k = k st"
    "pass (inject_after_commit st p) k = k st"
  using assms by (simp_all add: pass_def inject_snapshot_failpoint_def inject_before_commit_def
      inject_after_commit_def)

text \<open>Passing a failpoint changes neither database nor policy; if it fires, the call ends with
  its error.\<close>

lemma pass_inject:
  assumes "\<And>e st'. st_db st' = st_db st \<Longrightarrow> st_redactor st' = st_redactor st \<Longrightarrow>
      P (Inl (FaultInjected e), st')"
    and "\<And>st'. st_db st' = st_db st \<Longrightarrow> st_redactor st' = st_redactor st \<Longrightarrow> P (k st')"
  shows "P (pass (inject st s g) k)"
proof (cases "inject st s g")
  case (Pair o1 st')
  have frame: "st_db st' = st_db st" "st_redactor st' = st_redactor st"
    using inject_frame[of st s g] Pair by simp_all
  show ?thesis
  proof (cases o1)
    case (Inl e)
    have "\<exists>l. e = FaultInjected l"
      using inject_result[of st s g] Pair Inl by auto
    with Inl Pair assms(1)[OF frame] show ?thesis by (auto simp: pass_def)
  qed (use Pair assms(2)[OF frame] in \<open>simp add: pass_def\<close>)
qed

lemmas pass_points = pass_inject[where s = p and g = p for p, folded inject_snapshot_failpoint_def]
  pass_inject[where g = BeforeSqliteCommit, folded inject_before_commit_def]
  pass_inject[where g = AfterSqliteCommit, folded inject_after_commit_def]

lemma attempt_rule:
  "(\<And>e. x = Inl e \<Longrightarrow> P (Inl e, st)) \<Longrightarrow> (\<And>y. x = Inr y \<Longrightarrow> P (k y)) \<Longrightarrow> P (attempt st x k)"
  by (cases x) simp_all

section \<open>Publication\<close>

definition snapshot_record_of :: "db \<Rightarrow> utf8 \<Rightarrow> snapshot_record option" where
  "snapshot_record_of d snapshot_id = row_by sn_snapshot_id snapshot_id (snapshots d)"

definition snapshot_id_for_root :: "db \<Rightarrow> utf8 \<Rightarrow> utf8 option" where
  "snapshot_id_for_root d root_digest =
     map_option sn_snapshot_id (row_by sn_root_digest root_digest (snapshots d))"

definition validate_snapshot_publication :: "snapshot_publication \<Rightarrow> unit res" where
  "validate_snapshot_publication p =
     try_then (validate_labelled [(sp_snapshot_id p, ''snapshot id''),
       (sp_root_digest p, ''snapshot root digest''), (sp_workspace_id p, ''snapshot workspace id''),
       (sp_project_id p, ''snapshot project id''), (sp_created_at p, ''snapshot created_at''),
       (sp_operation_id p, ''snapshot operation id''), (sp_event_id p, ''snapshot event id'')]) (\<lambda>_.
     if \<not> starts_with (sp_snapshot_id p) ''snp-''
     then Inl (InvalidInput ''snapshot id must use the snp- prefix'')
     else if \<not> starts_with (sp_root_digest p) ''sha256:''
     then Inl (InvalidInput ''snapshot root digest must use the sha256: prefix'')
     else if sp_manifest_version p = 0
     then Inl (InvalidInput ''snapshot manifest version must be positive'')
     else if sp_file_count p > 2 ^ 63 - 1 \<or> sp_total_bytes p > 2 ^ 63 - 1
     then Inl (ResourceExhausted ''snapshot metadata counters exceed SQLite range'')
     else try_then (validate_non_empty (lt_agent_id (sp_lease p)) ''snapshot lease agent id'') (\<lambda>_.
     if lt_expires_at_ms (sp_lease p) \<le> sp_now_ms p
     then Inl (Conflict ''snapshot lease is expired'') else Inr ()))"

text \<open>The workspace the publication goes to, after all checks against it.\<close>

definition publication_workspace ::
  "snapshot_publication \<Rightarrow> db \<Rightarrow> workspace_record res" where
  "publication_workspace p d =
     (case row_by ws_workspace_id (sp_workspace_id p) (workspaces d) of
        None \<Rightarrow> Inl (NotFound ''workspace does not exist'')
      | Some w \<Rightarrow>
          if ws_project_id w \<noteq> sp_project_id p
          then Inl (Conflict ''snapshot workspace belongs to another project'')
          else if lt_workspace_id (sp_lease p) \<noteq> sp_workspace_id p
          then Inl (Conflict ''snapshot lease belongs to another workspace'')
          else if \<not> lease_live d (sp_lease p) (sp_now_ms p)
          then Inl (Conflict ''workspace lease is stale or expired'')
          else if ws_revision w \<noteq> sp_expected_revision p
          then Inl (Conflict ''workspace revision is stale'')
          else if sp_environment_id p \<noteq> ws_environment_id w
          then Inl (Conflict ''snapshot environment does not match workspace'')
          else (case sp_environment_id p of
             None \<Rightarrow> Inl (Conflict ''snapshot publication requires a workspace environment'')
           | Some e \<Rightarrow>
               if environment_project d e \<noteq> Some (sp_project_id p)
               then Inl (Conflict ''snapshot environment is missing or belongs to another project'')
               else Inr w))"

definition snapshot_row ::
  "redactor \<Rightarrow> utf8 \<times> utf8 \<Rightarrow> snapshot_publication \<Rightarrow> snapshot_record" where
  "snapshot_row r identity p =
     \<lparr>sn_snapshot_id = sp_snapshot_id p, sn_root_digest = sp_root_digest p,
      sn_workspace_id = sp_workspace_id p, sn_project_id = sp_project_id p,
      sn_environment_id = sp_environment_id p, sn_manifest_version = sp_manifest_version p,
      sn_redaction_profile_id = profile_id r, sn_redaction_profile_version = version r,
      sn_file_count = sp_file_count p, sn_total_bytes = sp_total_bytes p,
      sn_created_at = sp_created_at p, sn_operation_id = sp_operation_id p,
      sn_event_id = sp_event_id p, sn_generation_id = fst identity,
      sn_migration_id = snd identity\<rparr>"

definition snapshot_payload :: "snapshot_publication \<Rightarrow> json" where
  "snapshot_payload p = JObject
     [(''file_count'', JNumber (show_nat (sp_file_count p))),
      (''root_digest'', JString (sp_root_digest p)), (''snapshot_id'', JString (sp_snapshot_id p)),
      (''total_bytes'', JNumber (show_nat (sp_total_bytes p))),
      (''type'', JString ''snapshot.created''), (''workspace_id'', JString (sp_workspace_id p))]"

definition snapshot_event :: "utf8 \<times> utf8 \<Rightarrow> snapshot_publication \<Rightarrow> new_event_envelope" where
  "snapshot_event identity p =
     \<lparr>nv_event_id = sp_event_id p, nv_project_id = sp_project_id p,
      nv_stream_id = ''workspace:'' @ sp_workspace_id p, nv_event_type = ''snapshot.created'',
      nv_schema_version = ''0.1'', nv_occurred_at = sp_created_at p,
      nv_recorded_at = sp_created_at p, nv_actor_id = Some (lt_agent_id (sp_lease p)),
      nv_workspace_id = Some (sp_workspace_id p), nv_task_id = None,
      nv_operation_id = Some (sp_operation_id p), nv_causation_id = sp_causation_id p,
      nv_correlation_id = (case sp_correlation_id p of None \<Rightarrow> Some (sp_operation_id p) | c \<Rightarrow> c),
      nv_parent_event_ids = (case sp_causation_id p of None \<Rightarrow> [] | Some c \<Rightarrow> [c]),
      nv_capture_confidence = Some ''observed'', nv_redaction_status = ''redacted'',
      nv_generation_id = Some (fst identity), nv_migration_id = Some (snd identity),
      nv_payload = snapshot_payload p\<rparr>"

text \<open>
  A snapshot that is already there must be the one this publication describes, be the head of
  the workspace, and have its event. The event's operation and workspace columns are read as
  texts, so a missing one is a conversion error of SQLite.
\<close>

definition null_column :: pong_error where
  "null_column = from_sqlite (OtherSqliteError ''InvalidColumnType'')"

definition published_before ::
  "redactor \<Rightarrow> utf8 \<times> utf8 \<Rightarrow> snapshot_publication \<Rightarrow> workspace_record \<Rightarrow> snapshot_record \<Rightarrow> db \<Rightarrow>
    snapshot_record res" where
  "published_before r identity p w existing d =
     (if existing \<noteq> snapshot_row r identity p \<or> ws_head w \<noteq> Some (sn_root_digest existing)
      then Inl (Integrity ''snapshot identity was reused with inconsistent publication state'')
      else (case row_by en_event_id (sn_event_id existing) (event_envelopes d) of
         None \<Rightarrow> Inl (Integrity ''snapshot metadata exists without its publication event'')
       | Some e \<Rightarrow>
           if en_operation_id e = None \<or> en_workspace_id e = None then Inl null_column
           else if en_event_type e \<noteq> ''snapshot.created'' \<or> en_project_id e \<noteq> sn_project_id existing
             \<or> en_operation_id e \<noteq> Some (sn_operation_id existing)
             \<or> en_workspace_id e \<noteq> Some (sn_workspace_id existing)
           then Inl (Integrity ''snapshot metadata exists without its publication event'')
           else Inr existing))"

text \<open>\<open>INSERT OR IGNORE\<close>: a row with the same id, root digest or event id is left alone.\<close>

definition insert_snapshot :: "snapshot_record \<Rightarrow> db \<Rightarrow> db res" where
  "insert_snapshot x d =
     (if row_by sn_snapshot_id (sn_snapshot_id x) (snapshots d) \<noteq> None
        \<or> row_by sn_root_digest (sn_root_digest x) (snapshots d) \<noteq> None
        \<or> row_by sn_event_id (sn_event_id x) (snapshots d) \<noteq> None
      then Inl (Conflict ''snapshot identity already exists'')
      else Inr (d\<lparr>snapshots := snapshots d @ [x]\<rparr>))"

definition advance_head :: "utf8 \<Rightarrow> utf8 \<Rightarrow> workspace_record \<Rightarrow> workspace_record" where
  "advance_head root_digest created_at w = w\<lparr>ws_head := Some root_digest, ws_status := ''ready'',
     ws_revision := ws_revision w + 1, ws_updated_at := created_at\<rparr>"

definition update_head :: "snapshot_publication \<Rightarrow> db \<Rightarrow> db res" where
  "update_head p d =
     (if count_rows (at_revision (sp_workspace_id p) (sp_expected_revision p)) (workspaces d) \<noteq> 1
      then Inl (Conflict ''workspace revision is stale'')
      else Inr (d\<lparr>workspaces := update_where (at_revision (sp_workspace_id p) (sp_expected_revision p))
             (advance_head (sp_root_digest p) (sp_created_at p)) (workspaces d)\<rparr>))"

text \<open>What the publication finds: an earlier one to return, or the identity to write under.\<close>

definition publication_checks ::
  "redactor \<Rightarrow> db \<Rightarrow> snapshot_publication \<Rightarrow> (utf8 \<times> utf8 + snapshot_record) res" where
  "publication_checks r d p =
     try_then (validate_snapshot_publication p) (\<lambda>_.
     try_then (projection_identity d) (\<lambda>identity.
     try_then (publication_workspace p d) (\<lambda>w.
     case row_by sn_snapshot_id (sp_snapshot_id p) (snapshots d) of
       None \<Rightarrow> Inr (Inl identity)
     | Some existing \<Rightarrow>
         try_then (published_before r identity p w existing d) (\<lambda>x. Inr (Inr x)))))"

definition publish_snapshot ::
  "externals \<Rightarrow> metadata_store \<Rightarrow> snapshot_publication \<Rightarrow> snapshot_record res \<times> metadata_store"
where
  "publish_snapshot X st p =
     attempt st (publication_checks (st_redactor st) (st_db st) p) (\<lambda>found.
     case found of
       Inr existing \<Rightarrow> (Inr existing, st)
     | Inl identity \<Rightarrow>
         pass (inject_snapshot_failpoint st BeforeSnapshotMetadataInsert) (\<lambda>st1.
         attempt st1 (insert_snapshot (snapshot_row (st_redactor st) identity p) (st_db st)) (\<lambda>d1.
         pass (inject_snapshot_failpoint st1 AfterSnapshotMetadataInsert) (\<lambda>st2.
         attempt st2 (append_event_envelope_tx X (snapshot_event identity p) d1) (\<lambda>(_, d2).
         pass (inject_snapshot_failpoint st2 BeforeSnapshotHeadUpdate) (\<lambda>st3.
         attempt st3 (update_head p d2) (\<lambda>d3.
         pass (inject_snapshot_failpoint st3 AfterSnapshotHeadUpdate) (\<lambda>st4.
         pass (inject_before_commit st4 BeforeSqliteCommit) (\<lambda>st5.
         pass (inject_snapshot_failpoint (st5\<lparr>st_db := d3\<rparr>) AfterSnapshotPublicationCommit) (\<lambda>st6.
         pass (inject_after_commit st6 AfterSqliteCommit) (\<lambda>st7.
         (case snapshot_record_of (st_db st7) (sp_snapshot_id p) of
            None \<Rightarrow> Inl (Integrity ''snapshot disappeared after publication'')
          | Some x \<Rightarrow> Inr x, st7))))))))))))"

text \<open>The write of a publication, without its failpoints.\<close>

definition publication_write ::
  "externals \<Rightarrow> redactor \<Rightarrow> snapshot_publication \<Rightarrow> utf8 \<times> utf8 \<Rightarrow> db \<Rightarrow> db res" where
  "publication_write X r p identity d =
     try_then (insert_snapshot (snapshot_row r identity p) d) (\<lambda>d1.
     try_then (append_event_envelope_tx X (snapshot_event identity p) d1) (\<lambda>(_, d2).
     update_head p d2))"

section \<open>A publication is all or nothing\<close>

text \<open>
  The shape of every call, whatever failpoint is armed: the database is as it was, or it is
  the write of the whole publication. A call that returns a snapshot found it published or
  wrote all of it.
\<close>

definition publish_shape ::
  "externals \<Rightarrow> metadata_store \<Rightarrow> snapshot_publication \<Rightarrow> snapshot_record res \<times> metadata_store \<Rightarrow> bool"
where
  "publish_shape X st p o1 \<longleftrightarrow> (case o1 of (out, st') \<Rightarrow> st_redactor st' = st_redactor st
     \<and> (st_db st' = st_db st \<or> (\<exists>identity.
           publication_checks (st_redactor st) (st_db st) p = Inr (Inl identity)
           \<and> publication_write X (st_redactor st) p identity (st_db st) = Inr (st_db st')))
     \<and> (\<forall>x. out = Inr x \<longrightarrow>
          (publication_checks (st_redactor st) (st_db st) p = Inr (Inr x) \<and> st_db st' = st_db st)
          \<or> (\<exists>identity. publication_checks (st_redactor st) (st_db st) p = Inr (Inl identity)
              \<and> publication_write X (st_redactor st) p identity (st_db st) = Inr (st_db st')
              \<and> snapshot_record_of (st_db st') (sp_snapshot_id p) = Some x)))"

lemma publish_shape_error:
  "st_redactor st' = st_redactor st \<Longrightarrow> st_db st' = st_db st \<Longrightarrow> publish_shape X st p (Inl e, st')"
  by (simp add: publish_shape_def)

lemma publish_shape_written:
  assumes "publication_checks (st_redactor st) (st_db st) p = Inr (Inl identity)"
    and "publication_write X (st_redactor st) p identity (st_db st) = Inr (st_db st')"
    and "st_redactor st' = st_redactor st"
    and "\<And>x. out = Inr x \<Longrightarrow> snapshot_record_of (st_db st') (sp_snapshot_id p) = Some x"
  shows "publish_shape X st p (out, st')"
  using assms unfolding publish_shape_def by blast

lemma publish_snapshot_shape: "publish_shape X st p (publish_snapshot X st p)"
proof (cases "publication_checks (st_redactor st) (st_db st) p")
  case (Inl e)
  then show ?thesis by (simp add: publish_snapshot_def publish_shape_def)
next
  case checks: (Inr found)
  show ?thesis
  proof (cases found)
    case (Inr x)
    then show ?thesis by (simp add: publish_snapshot_def publish_shape_def checks)
  next
    case (Inl identity)
    let ?row = "snapshot_row (st_redactor st) identity p"
    note found = checks[unfolded Inl]
    have written: "publish_shape X st p (out, st')"
      if "insert_snapshot ?row (st_db st) = Inr d1"
        "append_event_envelope_tx X (snapshot_event identity p) d1 = Inr y"
        "update_head p (snd y) = Inr (st_db st')" "st_redactor st' = st_redactor st"
        "\<And>x. out = Inr x \<Longrightarrow> snapshot_record_of (st_db st') (sp_snapshot_id p) = Some x"
      for d1 y out st'
      by (rule publish_shape_written[OF found])
        (use that in \<open>simp_all add: publication_write_def case_prod_beta\<close>)
    show ?thesis
      unfolding publish_snapshot_def found attempt_simps sum.case
      apply (rule pass_points(1), simp add: publish_shape_error)
      apply (rule attempt_rule, simp add: publish_shape_error)
      apply (rule pass_points(1), simp add: publish_shape_error)
      apply (rule attempt_rule, simp add: publish_shape_error)
      apply (simp only: case_prod_beta)
      apply (rule pass_points(1), simp add: publish_shape_error)
      apply (rule attempt_rule, simp add: publish_shape_error)
      apply (rule pass_points(1), simp add: publish_shape_error)
      apply (rule pass_points(2), simp add: publish_shape_error)
      apply (rule pass_points(1))
       apply (rule written, assumption+, simp, simp, simp)
      apply (rule pass_points(3))
       apply (rule written, assumption+, simp, simp, simp)
      apply (rule written, assumption+, simp, simp)
      apply (simp split: option.splits)
      done
  qed
qed

section \<open>The invariant of the snapshots\<close>

text \<open>Every snapshot row has its workspace and its publication event.\<close>

definition announces :: "snapshot_record \<Rightarrow> event_envelope \<Rightarrow> bool" where
  "announces x e \<longleftrightarrow> en_event_type e = ''snapshot.created'' \<and> en_project_id e = sn_project_id x
     \<and> en_operation_id e = Some (sn_operation_id x) \<and> en_workspace_id e = Some (sn_workspace_id x)"

definition snapshot_backed :: "db \<Rightarrow> snapshot_record \<Rightarrow> bool" where
  "snapshot_backed d x \<longleftrightarrow> workspace_project d (sn_workspace_id x) = Some (sn_project_id x)
     \<and> (\<exists>e. row_by en_event_id (sn_event_id x) (event_envelopes d) = Some e \<and> announces x e)"

definition snapshots_ok :: "db \<Rightarrow> bool" where
  "snapshots_ok d \<longleftrightarrow> unique_by sn_snapshot_id (snapshots d) \<and> unique_by sn_root_digest (snapshots d)
     \<and> unique_by sn_event_id (snapshots d) \<and> (\<forall>x \<in> set (snapshots d). snapshot_backed d x)"

lemma snapshot_row_simps [simp]:
  "sn_snapshot_id (snapshot_row r i p) = sp_snapshot_id p"
  "sn_root_digest (snapshot_row r i p) = sp_root_digest p"
  "sn_workspace_id (snapshot_row r i p) = sp_workspace_id p"
  "sn_project_id (snapshot_row r i p) = sp_project_id p"
  "sn_event_id (snapshot_row r i p) = sp_event_id p"
  "sn_operation_id (snapshot_row r i p) = sp_operation_id p"
  "sn_environment_id (snapshot_row r i p) = sp_environment_id p"
  "sn_generation_id (snapshot_row r i p) = fst i" "sn_migration_id (snapshot_row r i p) = snd i"
  by (simp_all add: snapshot_row_def)

lemma insert_snapshot_result:
  "insert_snapshot x d = Inr d' \<longleftrightarrow> d' = d\<lparr>snapshots := snapshots d @ [x]\<rparr>
    \<and> row_by sn_snapshot_id (sn_snapshot_id x) (snapshots d) = None
    \<and> row_by sn_root_digest (sn_root_digest x) (snapshots d) = None
    \<and> row_by sn_event_id (sn_event_id x) (snapshots d) = None"
  by (auto simp: insert_snapshot_def)

lemma update_head_result:
  "update_head p d = Inr d' \<longleftrightarrow>
    d' = d\<lparr>workspaces := update_where (at_revision (sp_workspace_id p) (sp_expected_revision p))
       (advance_head (sp_root_digest p) (sp_created_at p)) (workspaces d)\<rparr>
    \<and> count_rows (at_revision (sp_workspace_id p) (sp_expected_revision p)) (workspaces d) = 1"
  by (auto simp: update_head_def)

lemma advance_head_simps [simp]:
  "ws_workspace_id (advance_head g t w) = ws_workspace_id w"
  "ws_project_id (advance_head g t w) = ws_project_id w"
  "ws_environment_id (advance_head g t w) = ws_environment_id w"
  "ws_version_head_id (advance_head g t w) = ws_version_head_id w"
  "ws_head (advance_head g t w) = Some g" "ws_status (advance_head g t w) = ''ready''"
  "ws_revision (advance_head g t w) = ws_revision w + 1"
  by (simp_all add: advance_head_def)

text \<open>What the checks establish.\<close>

lemma publication_workspace_result:
  "publication_workspace p d = Inr w \<longleftrightarrow>
    row_by ws_workspace_id (sp_workspace_id p) (workspaces d) = Some w
    \<and> ws_project_id w = sp_project_id p \<and> lt_workspace_id (sp_lease p) = sp_workspace_id p
    \<and> lease_live d (sp_lease p) (sp_now_ms p) \<and> ws_revision w = sp_expected_revision p
    \<and> sp_environment_id p = ws_environment_id w
    \<and> (\<exists>e. sp_environment_id p = Some e \<and> environment_project d e = Some (sp_project_id p))"
  by (auto simp: publication_workspace_def split: option.splits if_splits)

lemma publication_checks_new:
  "publication_checks r d p = Inr (Inl identity) \<longleftrightarrow> validate_snapshot_publication p = Inr ()
    \<and> projection_identity d = Inr identity \<and> (\<exists>w. publication_workspace p d = Inr w)
    \<and> row_by sn_snapshot_id (sp_snapshot_id p) (snapshots d) = None"
  by (cases identity; cases "row_by sn_snapshot_id (sp_snapshot_id p) (snapshots d)")
    (auto simp: publication_checks_def)

text \<open>An accepted event is the one asked for.\<close>

lemma appended_envelope:
  assumes "events_ok d" "append_event_envelope_tx X e d = Inr (row, d')"
  shows "en_event_type row = nv_event_type e" "en_project_id row = nv_project_id e"
    "en_operation_id row = nv_operation_id e" "en_workspace_id row = nv_workspace_id e"
proof -
  note res = append_envelope_result[OF assms]
  then have again: "append_event_envelope_tx X e d' = Inr (row, d')"
    and found: "row_by en_event_id (nv_event_id e) (event_envelopes d') = Some row" by simp_all
  have "\<exists>dg pj. envelope_matches_input X row e dg pj"
  proof (rule ccontr)
    assume "\<not> ?thesis"
    then have no: "envelope_matches_input X row e dg pj = False" for dg pj by blast
    show False using again
      by (simp add: append_event_envelope_tx_def Let_def found no canonical_json_value_def canonical_bytes_def)
  qed
  then obtain dg pj where "envelope_matches_input X row e dg pj" by (elim exE)
  then show "en_event_type row = nv_event_type e" "en_project_id row = nv_project_id e"
    "en_operation_id row = nv_operation_id e" "en_workspace_id row = nv_workspace_id e"
    by (simp_all add: envelope_matches_input_def)
qed

text \<open>The write, table by table.\<close>

definition moved_workspaces :: "snapshot_publication \<Rightarrow> workspace_record list \<Rightarrow> workspace_record list" where
  "moved_workspaces p = update_where (at_revision (sp_workspace_id p) (sp_expected_revision p))
     (advance_head (sp_root_digest p) (sp_created_at p))"

lemma publication_write_result:
  assumes ok: "events_ok d" and w: "publication_write X r p identity d = Inr d'"
  shows "\<exists>xs ys. d' = d\<lparr>snapshots := snapshots d @ [snapshot_row r identity p], events := events d @ xs,
      event_envelopes := event_envelopes d @ ys, workspaces := moved_workspaces p (workspaces d)\<rparr>
    \<and> events_ok d'
    \<and> (\<exists>e. row_by en_event_id (sp_event_id p) (event_envelopes d') = Some e
        \<and> announces (snapshot_row r identity p) e)
    \<and> row_by sn_snapshot_id (sp_snapshot_id p) (snapshots d) = None
    \<and> row_by sn_root_digest (sp_root_digest p) (snapshots d) = None
    \<and> row_by sn_event_id (sp_event_id p) (snapshots d) = None"
proof -
  let ?row = "snapshot_row r identity p"
  from w obtain d1 ev d2 where ins: "insert_snapshot ?row d = Inr d1"
    and ap: "append_event_envelope_tx X (snapshot_event identity p) d1 = Inr (ev, d2)"
    and up: "update_head p d2 = Inr d'"
    by (auto simp: publication_write_def)
  from ins have d1: "d1 = d\<lparr>snapshots := snapshots d @ [?row]\<rparr>"
    and new: "row_by sn_snapshot_id (sp_snapshot_id p) (snapshots d) = None"
      "row_by sn_root_digest (sp_root_digest p) (snapshots d) = None"
      "row_by sn_event_id (sp_event_id p) (snapshots d) = None"
    by (simp_all add: insert_snapshot_result)
  have ok1: "events_ok d1" using ok by (simp add: d1 events_ok_def)
  note res = append_envelope_result[OF ok1 ap]
  then obtain xs ys where d2: "d2 = d1\<lparr>events := events d1 @ xs, event_envelopes := event_envelopes d1 @ ys\<rparr>"
    unfolding log_only_def by (elim conjE exE)
  from up have d': "d' = d2\<lparr>workspaces := moved_workspaces p (workspaces d2)\<rparr>"
    by (simp add: update_head_result moved_workspaces_def)
  have shape: "d' = d\<lparr>snapshots := snapshots d @ [?row], events := events d @ xs,
      event_envelopes := event_envelopes d @ ys, workspaces := moved_workspaces p (workspaces d)\<rparr>"
    by (simp add: d' d2 d1)
  have "events_ok d2" using res by (rule conjunct1)
  then have "events_ok d'" by (simp add: d' events_ok_def)
  moreover have "row_by en_event_id (sp_event_id p) (event_envelopes d') = Some ev"
    using res by (simp add: d' snapshot_event_def)
  moreover have "announces ?row ev"
    using appended_envelope[OF ok1 ap] by (simp add: announces_def snapshot_event_def)
  ultimately show ?thesis using shape new by blast
qed

text \<open>The workspaces after a publication: the one it goes to has moved, no other.\<close>

lemma moved_row:
  "row_by ws_workspace_id i (moved_workspaces p ws) = map_option
    (\<lambda>w. if at_revision (sp_workspace_id p) (sp_expected_revision p) w
      then advance_head (sp_root_digest p) (sp_created_at p) w else w) (row_by ws_workspace_id i ws)"
  by (simp add: moved_workspaces_def row_by_update option.case_eq_if map_option_case)

lemma moved_project:
  "map_option ws_project_id (row_by ws_workspace_id i (moved_workspaces p ws))
    = map_option ws_project_id (row_by ws_workspace_id i ws)"
  by (simp add: moved_row option.map_comp o_def if_distrib cong: if_cong)

lemma moved_workspaces_ok:
  assumes ok: "workspaces_ok r d" and w: "publication_workspace p d = Inr w"
    and d': "workspaces d' = moved_workspaces p (workspaces d)" "environments d' = environments d"
      "workspace_leases d' = workspace_leases d"
  shows "workspaces_ok r d'"
proof -
  note pw = w[unfolded publication_workspace_result]
  have uq: "unique_by ws_workspace_id (workspaces d)" using ok by (simp add: workspaces_ok_def)
  have rows: "workspace_ready_ok x \<and> workspace_env_ok (environments d) x"
    if x: "x \<in> set (moved_workspaces p (workspaces d))" for x
  proof -
    let ?p = "at_revision (sp_workspace_id p) (sp_expected_revision p)"
    from x obtain y where y: "y \<in> set (workspaces d)"
      and xy: "x = (if ?p y then advance_head (sp_root_digest p) (sp_created_at p) y else y)"
      by (auto simp: moved_workspaces_def update_where_in)
    from ok y have rd: "workspace_ready_ok y" "workspace_env_ok (environments d) y"
      by (simp_all add: workspaces_ok_def)
    show ?thesis
    proof (cases "?p y")
      case True
      then have "ws_workspace_id y = sp_workspace_id p" by (simp add: at_revision_def)
      with pw row_by_unique[OF uq y] have "y = w" by simp
      moreover from pw obtain e where "sp_environment_id p = Some e" by (elim conjE exE)
      moreover have "sp_environment_id p = ws_environment_id w" using pw by (elim conjE)
      ultimately show ?thesis using rd xy True by (simp add: workspace_ready_ok_def workspace_env_ok_def)
    qed (use rd xy in simp)
  qed
  have "unique_by ws_workspace_id (moved_workspaces p (workspaces d))"
    using uq by (simp add: moved_workspaces_def unique_by_update)
  moreover have "leases_ok d'"
    by (rule leases_ok_more[of d]) (use ok d' in \<open>simp_all add: workspaces_ok_def moved_row\<close>)
  ultimately show ?thesis using ok rows d' by (simp add: workspaces_ok_def)
qed

definition publishing_ok :: "redactor \<Rightarrow> db \<Rightarrow> bool" where
  "publishing_ok r d \<longleftrightarrow> workspaces_ok r d \<and> events_ok d \<and> snapshots_ok d"

lemma publishing_ok_empty: "safe_policy r \<Longrightarrow> publishing_ok r (empty_db r)"
  using events_ok_empty[of r]
  by (simp add: publishing_ok_def workspaces_ok_empty) (simp add: snapshots_ok_def empty_db_def unique_by_def)

text \<open>What has been written stays backed by what is there later.\<close>

definition grows :: "db \<Rightarrow> db \<Rightarrow> bool" where
  "grows d d' \<longleftrightarrow> prefix (event_envelopes d) (event_envelopes d')
     \<and> (\<forall>i w. workspace_project d i = Some w \<longrightarrow> workspace_project d' i = Some w)"

lemma snapshot_backed_grows: "grows d d' \<Longrightarrow> snapshot_backed d x \<Longrightarrow> snapshot_backed d' x"
  by (auto simp: grows_def snapshot_backed_def prefix_def row_by_append)

lemma snapshots_ok_grows:
  "grows d d' \<Longrightarrow> snapshots d' = snapshots d \<Longrightarrow> snapshots_ok d \<Longrightarrow> snapshots_ok d'"
  by (simp add: snapshots_ok_def snapshot_backed_grows)

lemma publication_keeps:
  assumes ok: "publishing_ok r d" and checks: "publication_checks r d p = Inr (Inl identity)"
    and w: "publication_write X r p identity d = Inr d'"
  shows "publishing_ok r d' \<and> grows d d'"
proof -
  from checks obtain ws where ws: "publication_workspace p d = Inr ws"
    by (auto simp: publication_checks_new)
  have ev: "events_ok d" using ok by (simp add: publishing_ok_def)
  note res = publication_write_result[OF ev w]
  then obtain xs ys where d': "d' = d\<lparr>snapshots := snapshots d @ [snapshot_row r identity p],
      events := events d @ xs, event_envelopes := event_envelopes d @ ys,
      workspaces := moved_workspaces p (workspaces d)\<rparr>" by (elim exE conjE)
  have proj: "workspace_project d' i = workspace_project d i" for i
    by (simp add: workspace_project_def d' moved_project)
  then have gr: "grows d d'" by (simp add: grows_def d')
  have "workspaces_ok r d'"
    by (rule moved_workspaces_ok[OF _ ws]) (use ok in \<open>simp_all add: publishing_ok_def d'\<close>)
  moreover have "events_ok d'" using res by (elim exE conjE)
  moreover have "snapshots_ok d'"
  proof -
    have "workspace_project d' (sp_workspace_id p) = Some (sp_project_id p)"
      using ws by (simp add: proj) (simp add: publication_workspace_result workspace_project_def)
    then have "snapshot_backed d' (snapshot_row r identity p)"
      using res by (simp add: snapshot_backed_def)
    moreover have "\<forall>x \<in> set (snapshots d). snapshot_backed d' x"
      using ok gr snapshot_backed_grows by (simp add: publishing_ok_def snapshots_ok_def)
    moreover have "snapshots d' = snapshots d @ [snapshot_row r identity p]" by (simp add: d')
    ultimately show ?thesis
      using ok res by (auto simp: publishing_ok_def snapshots_ok_def unique_by_insert)
  qed
  ultimately show ?thesis using gr by (simp add: publishing_ok_def)
qed

text \<open>What a call that has written leaves behind.\<close>

lemma publication_committed:
  assumes ok: "publishing_ok (st_redactor st) (st_db st)"
    and st1: "st1 = snd (publish_snapshot X st p)" "st_db st1 \<noteq> st_db st"
  obtains ws i e where "publication_workspace p (st_db st) = Inr ws"
    and "projection_identity (st_db st) = Inr i" and "validate_snapshot_publication p = Inr ()"
    and "row_by sn_snapshot_id (sp_snapshot_id p) (snapshots (st_db st)) = None"
    and "snapshots (st_db st1) = snapshots (st_db st) @ [snapshot_row (st_redactor st) i p]"
    and "workspaces (st_db st1) = moved_workspaces p (workspaces (st_db st))"
    and "workspace_leases (st_db st1) = workspace_leases (st_db st)"
    and "environments (st_db st1) = environments (st_db st)"
    and "repository_meta (st_db st1) = repository_meta (st_db st)"
    and "row_by en_event_id (sp_event_id p) (event_envelopes (st_db st1)) = Some e"
    and "announces (snapshot_row (st_redactor st) i p) e"
    and "publishing_ok (st_redactor st) (st_db st1)" and "st_redactor st1 = st_redactor st"
proof -
  let ?r = "st_redactor st" and ?d = "st_db st" and ?d1 = "st_db st1"
  have shape: "publish_shape X st p (publish_snapshot X st p)" by (rule publish_snapshot_shape)
  then have red: "st_redactor st1 = ?r" and "\<exists>identity. publication_checks ?r ?d p = Inr (Inl identity)
      \<and> publication_write X ?r p identity ?d = Inr ?d1"
    using st1 by (cases "publish_snapshot X st p"; simp add: publish_shape_def)+
  then obtain i where checks: "publication_checks ?r ?d p = Inr (Inl i)"
    and w: "publication_write X ?r p i ?d = Inr ?d1" by (elim exE conjE)
  from checks obtain ws where ws: "publication_workspace p ?d = Inr ws" by (auto simp: publication_checks_new)
  have ev: "events_ok ?d" using ok by (simp add: publishing_ok_def)
  from publication_write_result[OF ev w]
  obtain xs ys e where d1: "?d1 = ?d\<lparr>snapshots := snapshots ?d @ [snapshot_row ?r i p],
      events := events ?d @ xs, event_envelopes := event_envelopes ?d @ ys,
      workspaces := moved_workspaces p (workspaces ?d)\<rparr>"
    and e: "row_by en_event_id (sp_event_id p) (event_envelopes ?d1) = Some e"
      "announces (snapshot_row ?r i p) e"
    and new: "row_by sn_snapshot_id (sp_snapshot_id p) (snapshots ?d) = None" by (elim exE conjE)
  show ?thesis
    by (rule that[OF ws _ _ new _ _ _ _ _ e])
      (use checks d1 publication_keeps[OF ok checks w] red in \<open>simp_all add: publication_checks_new\<close>)
qed

text \<open>The workspace of the publication, after it.\<close>

lemma published_workspace:
  assumes "publication_workspace p d = Inr ws" "workspaces d' = moved_workspaces p (workspaces d)"
  shows "row_by ws_workspace_id (sp_workspace_id p) (workspaces d')
      = Some (advance_head (sp_root_digest p) (sp_created_at p) ws)"
    and "i \<noteq> sp_workspace_id p \<Longrightarrow> row_by ws_workspace_id i (workspaces d') = row_by ws_workspace_id i (workspaces d)"
proof -
  note pw = assms(1)[unfolded publication_workspace_result]
  then have row: "row_by ws_workspace_id (sp_workspace_id p) (workspaces d) = Some ws" by (elim conjE)
  show "row_by ws_workspace_id (sp_workspace_id p) (workspaces d')
      = Some (advance_head (sp_root_digest p) (sp_created_at p) ws)"
    using pw row_by_key[OF row] by (simp add: assms(2) moved_row at_revision_def)
  show "row_by ws_workspace_id i (workspaces d') = row_by ws_workspace_id i (workspaces d)"
    if "i \<noteq> sp_workspace_id p"
    using that row_by_key[of ws_workspace_id i "workspaces d"]
    by (cases "row_by ws_workspace_id i (workspaces d)") (simp_all add: assms(2) moved_row at_revision_def)
qed

section \<open>Properties\<close>

text \<open>
  C6. A snapshot is published as a whole or not at all, whatever failpoint is armed inside or
  around the transaction: the database is the one before, or in one step the snapshot row, its
  event and the new head are there, the revision has advanced by one, the workspace is ready,
  and no other workspace has changed. A publication happens only in a workspace of the project
  and environment it names, at the revision it expects and under a lease of that workspace that
  is live in the store; a call that returns a snapshot, new or published before, was made under
  such a lease and leaves the snapshot durable.
\<close>

theorem publication_all_or_nothing:
  assumes "publishing_ok (st_redactor st) (st_db st)"
    and "publish_snapshot X st p = (out, st')"
  shows "publishing_ok (st_redactor st) (st_db st') \<and> st_redactor st' = st_redactor st
    \<and> (st_db st' = st_db st
       \<or> (\<exists>x w e. snapshot_record_of (st_db st) (sp_snapshot_id p) = None
           \<and> snapshot_record_of (st_db st') (sp_snapshot_id p) = Some x
           \<and> x = snapshot_row (st_redactor st) (stored_identity (st_db st)) p
           \<and> row_by en_event_id (sn_event_id x) (event_envelopes (st_db st')) = Some e \<and> announces x e
           \<and> row_by ws_workspace_id (sp_workspace_id p) (workspaces (st_db st)) = Some w
           \<and> ws_revision w = sp_expected_revision p \<and> ws_project_id w = sp_project_id p
           \<and> ws_environment_id w = sp_environment_id p \<and> sp_environment_id p \<noteq> None
           \<and> lt_workspace_id (sp_lease p) = sp_workspace_id p \<and> lease_live (st_db st) (sp_lease p) (sp_now_ms p)
           \<and> row_by ws_workspace_id (sp_workspace_id p) (workspaces (st_db st'))
               = Some (advance_head (sn_root_digest x) (sp_created_at p) w)
           \<and> (\<forall>i. i \<noteq> sp_workspace_id p \<longrightarrow> row_by ws_workspace_id i (workspaces (st_db st'))
                = row_by ws_workspace_id i (workspaces (st_db st)))))
    \<and> (\<forall>x. out = Inr x \<longrightarrow> snapshot_record_of (st_db st') (sp_snapshot_id p) = Some x
          \<and> lt_workspace_id (sp_lease p) = sp_workspace_id p \<and> lease_live (st_db st) (sp_lease p) (sp_now_ms p))"
proof -
  let ?r = "st_redactor st" and ?d = "st_db st" and ?d' = "st_db st'"
  have shape: "publish_shape X st p (out, st')" using publish_snapshot_shape[of X st p] assms(2) by simp
  then have red: "st_redactor st' = ?r" by (simp add: publish_shape_def)
  have "snapshot_record_of ?d (sp_snapshot_id p) = Some x" if "publication_checks ?r ?d p = Inr (Inr x)" for x
    using that by (cases "row_by sn_snapshot_id (sp_snapshot_id p) (snapshots ?d)")
      (auto simp: publication_checks_def snapshot_record_of_def published_before_def
        split: if_splits option.splits)
  moreover have "lt_workspace_id (sp_lease p) = sp_workspace_id p \<and> lease_live ?d (sp_lease p) (sp_now_ms p)"
    if "publication_checks ?r ?d p = Inr y" for y
    using that by (auto simp: publication_checks_def publication_workspace_result)
  ultimately have out: "\<forall>x. out = Inr x \<longrightarrow> snapshot_record_of ?d' (sp_snapshot_id p) = Some x
      \<and> lt_workspace_id (sp_lease p) = sp_workspace_id p \<and> lease_live ?d (sp_lease p) (sp_now_ms p)"
    using shape unfolding publish_shape_def by auto
  show ?thesis
  proof (cases "?d' = ?d")
    case True
    with assms(1) red out show ?thesis by simp
  next
    case False
    have st': "st' = snd (publish_snapshot X st p)" by (simp add: assms(2))
    obtain ws i e where
      ws: "publication_workspace p ?d = Inr ws" and id: "projection_identity ?d = Inr i"
      and new: "row_by sn_snapshot_id (sp_snapshot_id p) (snapshots ?d) = None"
      and sn: "snapshots ?d' = snapshots ?d @ [snapshot_row ?r i p]"
      and mv: "workspaces ?d' = moved_workspaces p (workspaces ?d)"
      and e: "row_by en_event_id (sp_event_id p) (event_envelopes ?d') = Some e"
        "announces (snapshot_row ?r i p) e"
      and ok: "publishing_ok ?r ?d'"
      by (rule publication_committed[OF assms(1) st' False]) (rule that; assumption)
    have rec: "snapshot_record_of ?d' (sp_snapshot_id p) = Some (snapshot_row ?r i p)"
      using new by (simp add: snapshot_record_of_def sn row_by_append)
    have sid: "stored_identity ?d = i" by (rule projection_identity_stored[OF id])
    have env: "ws_environment_id ws \<noteq> None"
      using ws by (cases "ws_environment_id ws") (auto simp: publication_workspace_result)
    show ?thesis using ok red out rec e new ws[unfolded publication_workspace_result]
        published_workspace[OF ws mv]
      by (intro conjI disjI2 exI[of _ "snapshot_row ?r i p"] exI[of _ ws] exI[of _ e])
        (simp_all add: sid snapshot_record_of_def env del: not_None_eq)
  qed
qed

text \<open>
  The retry of a publication that has become durable, whether its caller was told or not:
  sent as it was, it is refused, because its own commit has advanced the revision it names; sent
  with the advanced revision, it returns the snapshot that is there. Neither changes anything.
\<close>

lemma publication_retry:
  assumes "publishing_ok (st_redactor st) (st_db st)"
    and "st1 = snd (publish_snapshot X st p)" "st_db st1 \<noteq> st_db st"
  shows "publish_snapshot X st1 p = (Inl (Conflict ''workspace revision is stale''), st1)
    \<and> publish_snapshot X st1 (p\<lparr>sp_expected_revision := sp_expected_revision p + 1\<rparr>)
      = (Inr (snapshot_row (st_redactor st) (stored_identity (st_db st)) p), st1)"
proof -
  let ?r = "st_redactor st" and ?d = "st_db st" and ?d1 = "st_db st1"
  let ?p = "p\<lparr>sp_expected_revision := sp_expected_revision p + 1\<rparr>"
  obtain ws i e where
    ws: "publication_workspace p ?d = Inr ws" and id: "projection_identity ?d = Inr i"
    and val: "validate_snapshot_publication p = Inr ()"
    and new: "row_by sn_snapshot_id (sp_snapshot_id p) (snapshots ?d) = None"
    and tables: "snapshots ?d1 = snapshots ?d @ [snapshot_row ?r i p]"
      "workspace_leases ?d1 = workspace_leases ?d" "environments ?d1 = environments ?d"
      "repository_meta ?d1 = repository_meta ?d"
    and mv: "workspaces ?d1 = moved_workspaces p (workspaces ?d)"
    and e: "row_by en_event_id (sp_event_id p) (event_envelopes ?d1) = Some e"
      "announces (snapshot_row ?r i p) e"
    and red: "st_redactor st1 = ?r" by (rule publication_committed[OF assms]) (rule that; assumption)
  let ?w = "advance_head (sp_root_digest p) (sp_created_at p) ws"
  note pw = ws[unfolded publication_workspace_result] and mv' = published_workspace(1)[OF ws mv]
  have live: "lease_live ?d1 t n = lease_live ?d t n" and env: "environment_project ?d1 j = environment_project ?d j"
    for t n j by (simp_all add: lease_live_def environment_project_def tables)
  have id1: "projection_identity ?d1 = Inr i"
    using id by (simp add: projection_identity_def generation_identity_def meta_value_def tables)
  have stale: "publication_workspace p ?d1 = Inl (Conflict ''workspace revision is stale'')"
    using pw by (simp add: publication_workspace_def mv' live)
  from pw obtain v where "sp_environment_id p = Some v" "environment_project ?d v = Some (sp_project_id p)"
    by (elim conjE exE)
  then have "\<exists>v. ws_environment_id ws = Some v \<and> environment_project ?d v = Some (sp_project_id p)"
    using pw by (intro exI[of _ v]) simp
  with pw have fresh: "publication_workspace ?p ?d1 = Inr ?w"
    by (simp add: publication_workspace_result mv' live env)
  have "validate_snapshot_publication ?p = validate_snapshot_publication p"
    unfolding validate_snapshot_publication_def by simp
  with val have val': "validate_snapshot_publication ?p = Inr ()" by simp
  have rec: "row_by sn_snapshot_id (sp_snapshot_id p) (snapshots ?d1) = Some (snapshot_row ?r i p)"
    using new by (simp add: tables row_by_append)
  have pb: "published_before ?r i ?p ?w (snapshot_row ?r i p) ?d1 = Inr (snapshot_row ?r i p)"
    using e by (simp add: published_before_def announces_def) (simp add: snapshot_row_def)
  have "publication_checks ?r ?d1 p = Inl (Conflict ''workspace revision is stale'')"
    by (simp add: publication_checks_def val id1 stale)
  moreover have "publication_checks ?r ?d1 ?p = Inr (Inr (snapshot_row ?r i p))"
    by (simp add: publication_checks_def val' id1 fresh rec pb)
  ultimately show ?thesis
    by (simp add: publish_snapshot_def red projection_identity_stored[OF id])
qed

section \<open>The properties at a concrete workspace\<close>

definition sample_publisher :: metadata_store where
  "sample_publisher = (open_store default_redactor)\<lparr>st_db := (empty_db default_redactor)
     \<lparr>workspaces := [sample_ready], workspace_leases := [sample_lease ''a1'' 1 0],
      environments := [\<lparr>er_environment_id = ''e1'', er_project_id = ''p1'', er_fingerprint = ''h'',
        er_facts_json = ''null'', er_created_at = ''d1''\<rparr>]\<rparr>\<rparr>"

definition sample_publication :: snapshot_publication where
  "sample_publication = \<lparr>sp_snapshot_id = ''snp-1'', sp_root_digest = ''sha256:1'',
     sp_workspace_id = ''w1'', sp_project_id = ''p1'', sp_environment_id = Some ''e1'',
     sp_manifest_version = 1, sp_file_count = 2, sp_total_bytes = 3, sp_created_at = ''d2'',
     sp_operation_id = ''o1'', sp_event_id = ''v1'', sp_causation_id = None,
     sp_correlation_id = None, sp_expected_revision = 0,
     sp_lease = lease_token_of (sample_lease ''a1'' 1 0), sp_now_ms = 5\<rparr>"

lemma sample_publisher_simps [simp]:
  "workspaces (st_db sample_publisher) = [sample_ready]" "snapshots (st_db sample_publisher) = []"
  "event_envelopes (st_db sample_publisher) = []" "events (st_db sample_publisher) = []"
  "st_redactor sample_publisher = default_redactor" "st_failpoints sample_publisher = None"
  "projection_identity (st_db sample_publisher) = Inr (''legacy-v0.1'', ''legacy'')"
  by (simp_all add: sample_publisher_def empty_db_def projection_identity_def
      generation_identity_def meta_value_def)

lemma sample_publisher_ok: "publishing_ok default_redactor (st_db sample_publisher)"
proof -
  have "events_ok (st_db sample_publisher)" "snapshots_ok (st_db sample_publisher)"
    by (simp_all add: events_ok_def snapshots_ok_def unique_by_def)
  moreover have "workspaces_ok default_redactor (st_db sample_publisher)"
    by (simp add: workspaces_ok_def leases_ok_def unique_by_def)
      (simp add: sample_publisher_def sample_ready_def sample_workspace_def sample_lease_def
        workspace_ready_ok_def workspace_env_ok_def)
  ultimately show ?thesis by (simp add: publishing_ok_def)
qed

lemma sample_publication_texts:
  "valid_text ''snp-1''" "valid_text ''sha256:1''" "valid_text ''o1''" "valid_text ''v1''" "valid_text ''d2''"
  by code_simp+

lemma sample_publication_valid:
  "validate_snapshot_publication sample_publication = Inr ()"
  "validate_event_envelope (snapshot_event (''legacy-v0.1'', ''legacy'') sample_publication) = Inr ()"
proof -
  have "starts_with ''snp-1'' ''snp-''" "starts_with ''sha256:1'' ''sha256:''" by code_simp+
  then show "validate_snapshot_publication sample_publication = Inr ()"
    by (simp add: validate_snapshot_publication_def sample_publication_def lease_token_of_def
        sample_lease_def sample_publication_texts valid_samples)
  show "validate_event_envelope (snapshot_event (''legacy-v0.1'', ''legacy'') sample_publication) = Inr ()"
    by code_simp
qed

lemma first_envelope:
  assumes "events d = []" "event_envelopes d = []" "validate_event_envelope e = Inr ()"
  obtains row d' where "append_event_envelope_tx X e d = Inr (row, d')" "log_only d d'"
proof -
  let ?js = "write_value (json_str X) (nv_payload e)"
  let ?d1 = "d\<lparr>events := [envelope_event e 1 (digest_text X ?js) ?js]\<rparr>"
  have json: "canonical_json_value X w = Inr (write_value (json_str X) w)" for w
    by (simp add: canonical_json_value_def canonical_bytes_def)
  have "ensure_event e (digest_text X ?js) ?js d = Inr (1, ?d1)"
    by (simp add: ensure_event_def assms insert_event_def next_sequence_def next_number_def)
  then have "\<exists>row d'. append_event_envelope_tx X e d = Inr (row, d')"
    by (simp add: append_event_envelope_tx_def assms json Let_def insert_envelope_def)
  then obtain row d' where tx: "append_event_envelope_tx X e d = Inr (row, d')" by (elim exE)
  have "events_ok d" using assms by (simp add: events_ok_def unique_by_def)
  from that[OF tx] append_envelope_result[OF this tx] show ?thesis by simp
qed

text \<open>The publication goes through, and an armed post-commit failpoint hides its result.\<close>

lemma sample_publication_runs:
  assumes "fp \<in> {None, Some AfterSnapshotPublicationCommit}"
  shows "st_db (snd (publish_snapshot sample_externals (with_failpoint fp sample_publisher)
    sample_publication)) \<noteq> st_db sample_publisher"
proof -
  let ?st = "with_failpoint fp sample_publisher" and ?p = sample_publication
  let ?i = "(''legacy-v0.1'', ''legacy'')" and ?d = "st_db sample_publisher"
  let ?d1 = "?d\<lparr>snapshots := [snapshot_row default_redactor ?i ?p]\<rparr>"
  have ws: "publication_workspace ?p ?d = Inr sample_ready"
    by (simp add: publication_workspace_result environment_project_def lease_live_def)
      (simp add: sample_publisher_def sample_ready_def sample_workspace_def sample_publication_def
        sample_lease_def token_live_def token_matches_def lease_token_of_def)
  have checks: "publication_checks default_redactor ?d ?p = Inr (Inl ?i)"
    by (simp add: publication_checks_new ws sample_publication_valid)
  have log: "events ?d1 = []" "event_envelopes ?d1 = []" by simp_all
  obtain row d2 where ap: "append_event_envelope_tx sample_externals (snapshot_event ?i ?p) ?d1 = Inr (row, d2)"
    and lo: "log_only ?d1 d2"
    by (rule first_envelope[OF log sample_publication_valid(2)])
  then have d2: "workspaces d2 = [sample_ready]" "snapshots d2 = [snapshot_row default_redactor ?i ?p]"
    using log_only_tables(3,7)[OF lo] by simp_all
  obtain d3 where up: "update_head ?p d2 = Inr d3"
    by (simp add: update_head_def d2 count_rows_def at_revision_def)
      (simp add: sample_publication_def sample_ready_def sample_workspace_def)
  then have d3: "snapshots d3 = [snapshot_row default_redactor ?i ?p]" by (simp add: update_head_result d2)
  have ins: "insert_snapshot (snapshot_row default_redactor ?i ?p) ?d = Inr ?d1"
    by (simp add: insert_snapshot_def)
  have "st_db (snd (publish_snapshot sample_externals ?st ?p)) = d3"
    using assms by (auto simp: publish_snapshot_def checks ins ap up pass_def inject_snapshot_failpoint_def
        inject_before_commit_def inject_after_commit_def inject_def take_if_def)
  moreover have "snapshots d3 \<noteq> snapshots ?d" by (simp add: d3)
  ultimately show ?thesis by metis
qed

theorem publication_all_or_nothing_witness:
  "snapshot_record_of (st_db (snd (publish_snapshot sample_externals
      (with_failpoint (Some AfterSnapshotPublicationCommit) sample_publisher) sample_publication))) ''snp-1''
    = Some (snapshot_row default_redactor (''legacy-v0.1'', ''legacy'') sample_publication)"
proof -
  let ?st = "with_failpoint (Some AfterSnapshotPublicationCommit) sample_publisher"
  obtain out st' where run: "publish_snapshot sample_externals ?st sample_publication = (out, st')"
    by (cases "publish_snapshot sample_externals ?st sample_publication")
  have ok: "publishing_ok (st_redactor ?st) (st_db ?st)" using sample_publisher_ok by simp
  have ne: "st_db st' \<noteq> st_db ?st"
    using sample_publication_runs[of "Some AfterSnapshotPublicationCommit"] by (simp add: run)
  have i: "stored_identity (st_db sample_publisher) = (''legacy-v0.1'', ''legacy'')"
    by (rule projection_identity_stored) simp
  from publication_all_or_nothing[OF ok run] ne
  have "snapshot_record_of (st_db st') (sp_snapshot_id sample_publication)
      = Some (snapshot_row (st_redactor ?st) (stored_identity (st_db ?st)) sample_publication)"
    by (elim conjE disjE exE) simp_all
  then show ?thesis by (simp add: run i) (simp add: sample_publication_def)
qed

lemma publication_retry_witness:
  "let st1 = snd (publish_snapshot sample_externals
      (with_failpoint (Some AfterSnapshotPublicationCommit) sample_publisher) sample_publication)
   in publish_snapshot sample_externals st1 sample_publication
      = (Inl (Conflict ''workspace revision is stale''), st1)"
  using publication_retry[OF _ refl, of "with_failpoint (Some AfterSnapshotPublicationCommit) sample_publisher"
      sample_externals sample_publication]
    sample_publication_runs[of "Some AfterSnapshotPublicationCommit"] sample_publisher_ok
  by (simp add: Let_def)

end
