(* ===== verification/Version_Store.thy ===== *)
theory Version_Store
  imports Operation_Store Snapshot_Store
begin

text \<open>
  Logical versions (\<open>create_version\<close>, \<open>version_record\<close>, \<open>get_parent\<close>, \<open>get_children\<close>,
  \<open>set_version_head\<close>, \<open>get_current_version\<close> and their checks in \<open>src/src/metadata.rs\<close>): a
  version names a published snapshot, the operation that created it and its parent, and every
  read checks the whole ancestry again. The lemmas show that the ancestry walk ends, that
  versions form a forest whose reads never fail, and that creating a version completes its
  operation in the same transaction.
\<close>

section \<open>Identity and bindings\<close>

definition version_identity_id ::
  "externals \<Rightarrow> utf8 \<Rightarrow> utf8 \<Rightarrow> utf8 \<Rightarrow> utf8 \<Rightarrow> utf8 res" where
  "version_identity_id X project_id workspace_id snapshot_id operation_id =
     try_then (canonical_digest X ''version/identity/v1'' (JObject
       [(''creation_operation_id'', JString operation_id), (''project_id'', JString project_id),
        (''snapshot_id'', JString snapshot_id), (''workspace_id'', JString workspace_id)]))
       (\<lambda>h. Inr (''ver-'' @ h))"

definition ref_is :: "utf8 \<Rightarrow> utf8 \<Rightarrow> operation_ref \<Rightarrow> bool" where
  "ref_is kind reference x \<longleftrightarrow> of_kind x = kind \<and> of_reference x = reference"

text \<open>\<open>operation.result.as_ref().and_then(|result| result.get(key))\<close>.\<close>

definition result_member :: "operation_record \<Rightarrow> utf8 \<Rightarrow> json option" where
  "result_member x key = Option.bind (op_result x) (\<lambda>v. json_get v key)"

definition operation_references_snapshot :: "operation_record \<Rightarrow> utf8 \<Rightarrow> bool" where
  "operation_references_snapshot x snapshot_id \<longleftrightarrow>
     list_ex (ref_is ''snapshot'' snapshot_id) (op_input_refs x @ op_output_refs x)
     \<or> Option.bind (result_member x ''snapshot_id'') as_str = Some snapshot_id"

definition operation_references_parent :: "operation_record \<Rightarrow> utf8 \<Rightarrow> bool" where
  "operation_references_parent x parent_id \<longleftrightarrow>
     list_ex (ref_is ''version'' parent_id) (op_input_refs x)"

definition operation_result_matches_version :: "operation_record \<Rightarrow> version_record \<Rightarrow> bool" where
  "operation_result_matches_version x v \<longleftrightarrow>
     Option.bind (result_member x ''version_id'') as_str = Some (ve_version_id v)
     \<and> operation_references_snapshot x (ve_snapshot_id v)
     \<and> (case result_member x ''parent_version_id'' of
          Some parent \<Rightarrow> as_str parent = ve_parent_version_id v
        | None \<Rightarrow> ve_parent_version_id v = None)"

definition validate_version_publication :: "version_publication \<Rightarrow> unit res" where
  "validate_version_publication p =
     try_then (validate_labelled [(vp_workspace_id p, ''version workspace id''),
       (vp_project_id p, ''version project id''), (vp_snapshot_id p, ''version snapshot id''),
       (vp_creation_operation_id p, ''version creation operation id''),
       (vp_created_at p, ''version created_at'')]) (\<lambda>_.
     if \<not> starts_with (vp_snapshot_id p) ''snp-''
     then Inl (InvalidInput ''version snapshot id must use the snp- prefix'')
     else validate_opt (vp_environment_id p) ''version environment id'')"

definition validate_version_row ::
  "externals \<Rightarrow> version_record \<Rightarrow> snapshot_record \<Rightarrow> operation_record \<Rightarrow> utf8 \<times> utf8 \<Rightarrow> unit res"
where
  "validate_version_row X v s x identity =
     try_then (version_identity_id X (ve_project_id v) (ve_workspace_id v) (ve_snapshot_id v)
       (ve_creation_operation_id v)) (\<lambda>expected_id.
     if ve_version_id v \<noteq> expected_id
     then Inl (Integrity ''version identity digest is invalid'')
     else if sn_snapshot_id s \<noteq> ve_snapshot_id v \<or> sn_workspace_id s \<noteq> ve_workspace_id v
       \<or> sn_project_id s \<noteq> ve_project_id v \<or> sn_environment_id s \<noteq> ve_environment_id v
       \<or> sn_generation_id s \<noteq> ve_generation_id v \<or> sn_migration_id s \<noteq> ve_migration_id v
     then Inl (Integrity ''version snapshot binding is invalid'')
     else if ve_generation_id v \<noteq> fst identity \<or> ve_migration_id v \<noteq> snd identity
     then Inl (Integrity ''version generation binding is invalid'')
     else if op_operation_id x \<noteq> ve_creation_operation_id v \<or> op_project_id x \<noteq> ve_project_id v
       \<or> op_workspace_id x \<noteq> Some (ve_workspace_id v)
       \<or> op_environment_id x \<noteq> ve_environment_id v \<or> op_action x \<noteq> ''version.create''
       \<or> op_lifecycle_status x \<noteq> ''completed'' \<or> \<not> operation_result_matches_version x v
       \<or> (case ve_parent_version_id v of None \<Rightarrow> False
          | Some parent_id \<Rightarrow> \<not> operation_references_parent x parent_id)
     then Inl (Integrity ''version operation binding is invalid'')
     else Inr ())"

definition validate_version_row_transaction ::
  "externals \<Rightarrow> db \<Rightarrow> version_record \<Rightarrow> snapshot_record \<Rightarrow> operation_record \<Rightarrow> unit res" where
  "validate_version_row_transaction X d v s x = validate_version_row X v s x (stored_identity d)"

text \<open>The row of a version together with the snapshot and the operation it names.\<close>

definition version_bound :: "externals \<Rightarrow> db \<Rightarrow> utf8 \<times> utf8 \<Rightarrow> utf8 \<Rightarrow> version_record \<Rightarrow> unit res" where
  "version_bound X d identity subject v =
     (case row_by sn_snapshot_id (ve_snapshot_id v) (snapshots d) of
        None \<Rightarrow> Inl (Integrity (subject @ '' snapshot is missing''))
      | Some s \<Rightarrow>
          (case row_by op_operation_id (ve_creation_operation_id v) (operations d) of
             None \<Rightarrow> Inl (Integrity (subject @ '' operation is missing''))
           | Some x \<Rightarrow> validate_version_row X v s x identity))"

section \<open>The ancestry walk\<close>

definition same_scope :: "version_record \<Rightarrow> version_record \<Rightarrow> bool" where
  "same_scope parent child \<longleftrightarrow> ve_workspace_id parent = ve_workspace_id child
     \<and> ve_project_id parent = ve_project_id child
     \<and> ve_environment_id parent = ve_environment_id child
     \<and> ve_generation_id parent = ve_generation_id child
     \<and> ve_migration_id parent = ve_migration_id child"

text \<open>
  \<open>validate_parent_chain_transaction\<close> and \<open>validate_parent_chain_connection\<close> are one loop with
  different errors for a missing parent and for a parent of another scope; these two are
  arguments here. The set \<open>seen\<close> is what makes the loop end: it only takes ids of rows.
\<close>

function validate_parent_chain ::
  "externals \<Rightarrow> pong_error \<times> pong_error \<Rightarrow> db \<Rightarrow> version_record \<Rightarrow> utf8 \<times> utf8 \<Rightarrow> utf8 \<Rightarrow> utf8 list \<Rightarrow>
    unit res" where
  "validate_parent_chain X errors d child identity parent_id seen =
     (if parent_id \<in> set seen then Inl (Integrity ''version parent chain contains a cycle'')
      else (case row_by ve_version_id parent_id (versions d) of
         None \<Rightarrow> Inl (fst errors)
       | Some parent \<Rightarrow>
           if \<not> same_scope parent child then Inl (snd errors)
           else (case version_bound X d identity ''version parent'' parent of
              Inl e \<Rightarrow> Inl e
            | Inr _ \<Rightarrow>
                (case ve_parent_version_id parent of
                   None \<Rightarrow> Inr ()
                 | Some grand \<Rightarrow>
                     if grand = ve_version_id child
                     then Inl (Integrity ''version parent chain would create a cycle'')
                     else validate_parent_chain X errors d child identity grand (parent_id # seen)))))"
  by pat_completeness auto
termination
proof (relation "measure (\<lambda>(X, errors, d, child, identity, parent_id, seen).
    card (set (map ve_version_id (versions d)) - set seen))", goal_cases)
  case (2 X errors d child identity parent_id seen parent u grand)
  then have "parent_id \<in> set (map ve_version_id (versions d)) - set seen"
    using row_by_SomeD by fastforce
  then have "card (set (map ve_version_id (versions d)) - set (parent_id # seen))
      < card (set (map ve_version_id (versions d)) - set seen)"
    by (intro psubset_card_mono) auto
  then show ?case by simp
qed simp

declare validate_parent_chain.simps [simp del]

definition parent_errors_transaction :: "pong_error \<times> pong_error" where
  "parent_errors_transaction = (NotFound ''version parent does not exist'',
     Conflict ''version parent scope does not match child'')"

definition parent_errors_connection :: "pong_error \<times> pong_error" where
  "parent_errors_connection = (Integrity ''version parent is missing'',
     Integrity ''version parent scope does not match child'')"

definition validate_parent_transaction :: "externals \<Rightarrow> db \<Rightarrow> version_record \<Rightarrow> unit res" where
  "validate_parent_transaction X d child =
     (case ve_parent_version_id child of
        None \<Rightarrow> Inr ()
      | Some parent_id \<Rightarrow>
          if parent_id = ve_version_id child then Inl (Conflict ''version cannot be its own parent'')
          else validate_parent_chain X parent_errors_transaction d child (stored_identity d) parent_id [])"

definition validate_parent_connection :: "externals \<Rightarrow> db \<Rightarrow> version_record \<Rightarrow> unit res" where
  "validate_parent_connection X d child =
     (case ve_parent_version_id child of
        None \<Rightarrow> Inr ()
      | Some parent_id \<Rightarrow>
          if parent_id = ve_version_id child then Inl (Integrity ''version cannot be its own parent'')
          else validate_parent_chain X parent_errors_connection d child (stored_identity d) parent_id [])"

section \<open>Reads\<close>

definition version_record_of :: "externals \<Rightarrow> db \<Rightarrow> utf8 \<Rightarrow> version_record option res" where
  "version_record_of X d version_id =
     (case row_by ve_version_id version_id (versions d) of
        None \<Rightarrow> Inr None
      | Some v \<Rightarrow>
          (case row_by sn_snapshot_id (ve_snapshot_id v) (snapshots d) of
             None \<Rightarrow> Inl (Integrity ''version references a missing snapshot'')
           | Some s \<Rightarrow>
               (case row_by op_operation_id (ve_creation_operation_id v) (operations d) of
                  None \<Rightarrow> Inl (Integrity ''version references a missing operation'')
                | Some x \<Rightarrow>
                    try_then (projection_identity d) (\<lambda>identity.
                    try_then (validate_version_row X v s x identity) (\<lambda>_.
                    try_then (validate_parent_connection X d v) (\<lambda>_. Inr (Some v)))))))"

definition list_versions :: "db \<Rightarrow> utf8 \<Rightarrow> version_record list" where
  "list_versions d workspace_id = order_rows (\<lambda>v. (ve_created_at v, ve_version_id v))
     (filter (\<lambda>v. ve_workspace_id v = workspace_id) (versions d))"

definition get_parent :: "externals \<Rightarrow> db \<Rightarrow> utf8 \<Rightarrow> version_record option res" where
  "get_parent X d version_id =
     try_then (version_record_of X d version_id) (\<lambda>found.
     case found of
       None \<Rightarrow> Inl (NotFound ''version does not exist'')
     | Some v \<Rightarrow>
         (case ve_parent_version_id v of
            None \<Rightarrow> Inr None
          | Some parent_id \<Rightarrow>
              try_then (version_record_of X d parent_id) (\<lambda>parent.
              case parent of
                None \<Rightarrow> Inl (Integrity ''version parent disappeared'')
              | Some p \<Rightarrow> Inr (Some p))))"

definition get_children :: "externals \<Rightarrow> db \<Rightarrow> utf8 \<Rightarrow> version_record list res" where
  "get_children X d version_id =
     try_then (version_record_of X d version_id) (\<lambda>found.
     case found of
       None \<Rightarrow> Inl (NotFound ''version does not exist'')
     | Some parent \<Rightarrow>
         (let children = order_rows ve_version_id
            (filter (\<lambda>v. ve_parent_version_id v = Some (ve_version_id parent)) (versions d)) in
          try_then (check_all (validate_parent_connection X d) children) (\<lambda>_. Inr children)))"

section \<open>The selected version of a workspace\<close>

definition head_scope :: "version_record \<Rightarrow> workspace_record \<Rightarrow> bool" where
  "head_scope v w \<longleftrightarrow> ve_workspace_id v = ws_workspace_id w \<and> ve_project_id v = ws_project_id w
     \<and> ve_environment_id v = ws_environment_id w"

definition version_for_workspace_transaction ::
  "externals \<Rightarrow> db \<Rightarrow> utf8 \<Rightarrow> workspace_record \<Rightarrow> version_record res" where
  "version_for_workspace_transaction X d version_id w =
     (case row_by ve_version_id version_id (versions d) of
        None \<Rightarrow> Inl (Integrity ''workspace Version Head is missing'')
      | Some v \<Rightarrow>
          if \<not> head_scope v w
          then Inl (Conflict ''workspace Version Head scope does not match workspace'')
          else (case row_by sn_snapshot_id (ve_snapshot_id v) (snapshots d) of
             None \<Rightarrow> Inl (Integrity ''Version Head Snapshot is missing'')
           | Some s \<Rightarrow>
               (case row_by op_operation_id (ve_creation_operation_id v) (operations d) of
                  None \<Rightarrow> Inl (Integrity ''Version Head operation is missing'')
                | Some x \<Rightarrow>
                    try_then (validate_version_row_transaction X d v s x) (\<lambda>_.
                    try_then (validate_parent_transaction X d v) (\<lambda>_. Inr v)))))"

definition get_current_version ::
  "externals \<Rightarrow> redactor \<Rightarrow> db \<Rightarrow> utf8 \<Rightarrow> version_record option res" where
  "get_current_version X r d workspace_id =
     (case workspace_by r d workspace_id of
        None \<Rightarrow> Inl (NotFound ''workspace does not exist'')
      | Some w \<Rightarrow>
          (case ws_version_head_id w of
             None \<Rightarrow> Inr None
           | Some version_id \<Rightarrow>
               try_then (version_record_of X d version_id) (\<lambda>found.
               case found of
                 None \<Rightarrow> Inl (Integrity ''workspace Version Head is missing'')
               | Some v \<Rightarrow>
                   if \<not> head_scope v w
                   then Inl (Integrity ''workspace Version Head scope is inconsistent'')
                   else Inr (Some v))))"

record head_request =
  hq_workspace_id :: utf8
  hq_version_id :: "utf8 option"
  hq_lease :: lease_token
  hq_expected_revision :: int
  hq_updated_at :: utf8
  hq_now_ms :: int

definition set_version_head_prep :: "redactor \<Rightarrow> head_request \<Rightarrow> head_request res" where
  "set_version_head_prep r q =
     try_then (validate_non_empty (hq_workspace_id q) ''workspace id'') (\<lambda>_.
     try_then (validate_non_empty (hq_updated_at q) ''workspace updated_at'') (\<lambda>_.
     if hq_expected_revision q < 0
     then Inl (InvalidInput ''workspace revision must not be negative'')
     else if lt_workspace_id (hq_lease q) \<noteq> hq_workspace_id q
     then Inl (Conflict ''lease belongs to another workspace'')
     else try_then (validate_non_empty (lt_agent_id (hq_lease q)) ''lease agent id'') (\<lambda>_.
     Inr \<lparr>hq_workspace_id = redact_text r (hq_workspace_id q),
       hq_version_id = redact_opt r (hq_version_id q), hq_lease = redact_token r (hq_lease q),
       hq_expected_revision = hq_expected_revision q,
       hq_updated_at = redact_text r (hq_updated_at q), hq_now_ms = hq_now_ms q\<rparr>)))"

definition select_version :: "utf8 option \<Rightarrow> utf8 \<Rightarrow> workspace_record \<Rightarrow> workspace_record" where
  "select_version version_id updated_at w = w\<lparr>ws_version_head_id := version_id,
     ws_revision := ws_revision w + 1, ws_updated_at := updated_at\<rparr>"

definition check_target :: "externals \<Rightarrow> db \<Rightarrow> utf8 option \<Rightarrow> workspace_record \<Rightarrow> unit res" where
  "check_target X d target w =
     (case target of
        None \<Rightarrow> Inr ()
      | Some i \<Rightarrow>
          try_then (version_for_workspace_transaction X d i w) (\<lambda>v.
          if ve_version_id v \<noteq> i
          then Inl (Integrity ''workspace Version Head identity is inconsistent'') else Inr ()))"

definition set_version_head_tx ::
  "externals \<Rightarrow> redactor \<Rightarrow> head_request \<Rightarrow> db \<Rightarrow> workspace_record tx_end res" where
  "set_version_head_tx X r q d =
     (case row_by ws_workspace_id (hq_workspace_id q) (workspaces d) of
        None \<Rightarrow> Inl (NotFound ''workspace does not exist'')
      | Some w \<Rightarrow>
          if \<not> lease_live d (hq_lease q) (hq_now_ms q)
          then Inl (Conflict ''workspace lease is stale or expired'')
          else try_then (check_target X d (hq_version_id q) w) (\<lambda>_.
          if ws_revision w \<noteq> hq_expected_revision q
          then if ws_version_head_id w = hq_version_id q
                 \<and> checked_add (hq_expected_revision q) 1 = Some (ws_revision w)
               then Inr (Finished w) else Inl (Conflict ''workspace revision is stale'')
          else if ws_version_head_id w = hq_version_id q then Inr (Finished w)
          else if count_rows (at_revision (hq_workspace_id q) (hq_expected_revision q)) (workspaces d) \<noteq> 1
          then Inl (Conflict ''workspace revision is stale'')
          else Inr (Commit
            (d\<lparr>workspaces := update_where (at_revision (hq_workspace_id q) (hq_expected_revision q))
                 (select_version (hq_version_id q) (hq_updated_at q)) (workspaces d)\<rparr>)
            (\<lambda>d'. case workspace_by r d' (hq_workspace_id q) of
                    None \<Rightarrow> Inl (Integrity ''workspace disappeared after Version Head update'')
                  | Some w' \<Rightarrow> Inr w'))))"

definition set_version_head ::
  "externals \<Rightarrow> metadata_store \<Rightarrow> head_request \<Rightarrow> workspace_record res \<times> metadata_store" where
  "set_version_head X = sqlite_op set_version_head_prep (set_version_head_tx X)"

section \<open>Creation\<close>

definition creation_workspace :: "version_publication \<Rightarrow> db \<Rightarrow> unit res" where
  "creation_workspace p d =
     (case row_by ws_workspace_id (vp_workspace_id p) (workspaces d) of
        None \<Rightarrow> Inl (NotFound ''workspace does not exist'')
      | Some w \<Rightarrow>
          if ws_project_id w \<noteq> vp_project_id p
          then Inl (Conflict ''version workspace belongs to another project'')
          else if ws_environment_id w \<noteq> vp_environment_id p
          then Inl (Conflict ''version environment does not match workspace'')
          else Inr ())"

definition creation_snapshot ::
  "version_publication \<Rightarrow> utf8 \<times> utf8 \<Rightarrow> db \<Rightarrow> snapshot_record res" where
  "creation_snapshot p identity d =
     (case row_by sn_snapshot_id (vp_snapshot_id p) (snapshots d) of
        None \<Rightarrow> Inl (NotFound ''snapshot does not exist'')
      | Some s \<Rightarrow>
          if sn_workspace_id s \<noteq> vp_workspace_id p \<or> sn_project_id s \<noteq> vp_project_id p
            \<or> sn_environment_id s \<noteq> vp_environment_id p
          then Inl (Conflict ''version snapshot binding does not match workspace'')
          else if sn_generation_id s \<noteq> fst identity \<or> sn_migration_id s \<noteq> snd identity
          then Inl (Integrity ''version snapshot is not bound to the active generation'')
          else Inr s)"

definition creation_operation :: "version_publication \<Rightarrow> db \<Rightarrow> operation_record res" where
  "creation_operation p d =
     (case row_by op_operation_id (vp_creation_operation_id p) (operations d) of
        None \<Rightarrow> Inl (NotFound ''version creation operation does not exist'')
      | Some x \<Rightarrow>
          if op_project_id x \<noteq> vp_project_id p \<or> op_workspace_id x \<noteq> Some (vp_workspace_id p)
            \<or> op_environment_id x \<noteq> vp_environment_id p \<or> op_action x \<noteq> ''version.create''
          then Inl (Conflict ''version creation operation binding is inconsistent'')
          else if \<not> operation_references_snapshot x (vp_snapshot_id p)
          then Inl (Conflict ''version creation operation does not reference the requested snapshot'')
          else if (case vp_parent_version_id p of None \<Rightarrow> False
                   | Some parent_id \<Rightarrow> \<not> operation_references_parent x parent_id)
          then Inl (Conflict ''version creation operation does not reference the requested parent'')
          else Inr x)"

definition version_row :: "utf8 \<Rightarrow> utf8 \<times> utf8 \<Rightarrow> version_publication \<Rightarrow> version_record" where
  "version_row version_id identity p =
     \<lparr>ve_version_id = version_id, ve_workspace_id = vp_workspace_id p,
      ve_project_id = vp_project_id p, ve_snapshot_id = vp_snapshot_id p,
      ve_creation_operation_id = vp_creation_operation_id p,
      ve_environment_id = vp_environment_id p, ve_generation_id = fst identity,
      ve_migration_id = snd identity, ve_created_at = vp_created_at p,
      ve_parent_version_id = vp_parent_version_id p\<rparr>"

definition insert_version :: "version_record \<Rightarrow> db \<Rightarrow> db res" where
  "insert_version v d =
     (if row_by ve_version_id (ve_version_id v) (versions d) \<noteq> None
        \<or> row_by ve_creation_operation_id (ve_creation_operation_id v) (versions d) \<noteq> None
        \<or> ve_parent_version_id v = Some (ve_version_id v)
      then Inl constraint_violation
      else Inr (d\<lparr>versions := versions d @ [v]\<rparr>))"

record creation_plan =
  cp_version :: version_record
  cp_snapshot :: snapshot_record
  cp_operation :: operation_record

text \<open>What the checks find: the version this operation already created, or what to create.\<close>

definition creation_checks ::
  "externals \<Rightarrow> db \<Rightarrow> version_publication \<Rightarrow> (creation_plan + version_record) res" where
  "creation_checks X d p =
     try_then (validate_version_publication p) (\<lambda>_.
     try_then (version_identity_id X (vp_project_id p) (vp_workspace_id p) (vp_snapshot_id p)
       (vp_creation_operation_id p)) (\<lambda>version_id.
     try_then (projection_identity d) (\<lambda>identity.
     try_then (creation_workspace p d) (\<lambda>_.
     try_then (creation_snapshot p identity d) (\<lambda>s.
     try_then (creation_operation p d) (\<lambda>x.
     let v = version_row version_id identity p in
     case row_by ve_creation_operation_id (vp_creation_operation_id p) (versions d) of
       Some existing \<Rightarrow>
         if existing \<noteq> v then Inl (IdempotencyKeyReuse (vp_creation_operation_id p))
         else try_then (validate_version_row_transaction X d existing s x) (\<lambda>_.
              Inr (Inr existing))
     | None \<Rightarrow>
         if row_by ve_snapshot_id (vp_snapshot_id p) (versions d) \<noteq> None
         then Inl (Conflict (''CONTRACT_OPEN_DECISION: multiple operations targeting one ''
                @ ''snapshot are not resolved''))
         else try_then (validate_parent_transaction X d v) (\<lambda>_.
              Inr (Inl \<lparr>cp_version = v, cp_snapshot = s, cp_operation = x\<rparr>))))))))"

definition version_output_refs :: "creation_plan \<Rightarrow> operation_ref list" where
  "version_output_refs c =
     (let outs = op_output_refs (cp_operation c); s = sn_snapshot_id (cp_snapshot c) in
      (if list_ex (ref_is ''snapshot'' s) outs then outs
       else outs @ [\<lparr>of_kind = ''snapshot'', of_reference = s,
              of_media_type = Some ''application/vnd.pong.snapshot''\<rparr>])
      @ [\<lparr>of_kind = ''version'', of_reference = ve_version_id (cp_version c),
           of_media_type = Some ''application/vnd.pong.version''\<rparr>])"

definition version_result :: "creation_plan \<Rightarrow> json" where
  "version_result c = JObject
     [(''action'', JString ''version.create''),
      (''parent_version_id'', opt_text_value (ve_parent_version_id (cp_version c))),
      (''snapshot_id'', JString (sn_snapshot_id (cp_snapshot c))),
      (''version_id'', JString (ve_version_id (cp_version c))),
      (''workspace_id'', JString (ve_workspace_id (cp_version c)))]"

definition version_outcome :: "creation_plan \<Rightarrow> operation_outcome" where
  "version_outcome c =
     \<lparr>oo_status = ''completed'', oo_finished_at = ve_created_at (cp_version c),
      oo_output_refs = Some (version_output_refs c), oo_after_state = None,
      oo_result = Some (version_result c), oo_error = None\<rparr>"

definition complete_row :: "creation_plan \<Rightarrow> operation_record \<Rightarrow> operation_record" where
  "complete_row c x = x\<lparr>op_output_refs := version_output_refs c,
     op_finished_at := Some (ve_created_at (cp_version c)), op_result := Some (version_result c),
     op_lifecycle_status := ''completed'', op_updated_at := ve_created_at (cp_version c)\<rparr>"

text \<open>The completion of a started creation operation: ledger, journal and event.\<close>

definition complete_creation :: "externals \<Rightarrow> creation_plan \<Rightarrow> db \<Rightarrow> db res" where
  "complete_creation X c d =
     (let x = cp_operation c; i = op_operation_id x in
      try_then (operation_value_digest X (operation_outcome_value (version_outcome c))) (\<lambda>digest.
      try_then (canonical_json_value X (outcome_payload i (version_outcome c) digest)) (\<lambda>payload_json.
      let d1 = d\<lparr>operations := update_where
            (\<lambda>y. op_operation_id y = i \<and> op_lifecycle_status y = ''started'') (complete_row c)
            (operations d)\<rparr> in
      if count_rows (\<lambda>y. jo_key y = op_request_key x) (operation_journal d1) \<noteq> 1
      then Inl (Integrity ''version operation journal row disappeared during completion'')
      else
        let d2 = d1\<lparr>operation_journal := update_where (\<lambda>y. jo_key y = op_request_key x)
              (set_outcome ''outcome_durable'' payload_json) (operation_journal d1)\<rparr> in
        append_operation_event X i (op_project_id x) (op_agent_id x) (op_request_id x)
          (op_schema_version x) (ve_created_at (cp_version c)) (next_operation_event_sequence i d2)
          (finished_payload i ''completed'' (op_recording_status x) digest) d2)))"

definition commit_version ::
  "externals \<Rightarrow> metadata_store \<Rightarrow> utf8 \<Rightarrow> db \<Rightarrow> version_record res \<times> metadata_store" where
  "commit_version X st version_id d =
     pass (inject_before_commit st BeforeSqliteCommit) (\<lambda>st1.
     pass (inject_after_commit (st1\<lparr>st_db := d\<rparr>) AfterOperationFinishCommit) (\<lambda>st2.
     pass (inject_after_commit st2 AfterSqliteCommit) (\<lambda>st3.
     attempt st3 (version_record_of X (st_db st3) version_id) (\<lambda>found.
     (case found of
        None \<Rightarrow> Inl (Integrity ''version disappeared after creation'')
      | Some v \<Rightarrow> Inr v, st3)))))"

definition create_version ::
  "externals \<Rightarrow> metadata_store \<Rightarrow> version_publication \<Rightarrow> version_record res \<times> metadata_store"
where
  "create_version X st p =
     attempt st (creation_checks X (st_db st) p) (\<lambda>found.
     case found of
       Inr existing \<Rightarrow> (Inr existing, st)
     | Inl c \<Rightarrow>
         (let v = cp_version c; x = cp_operation c in
          attempt st (insert_version v (st_db st)) (\<lambda>d1.
          if op_lifecycle_status x = ''started''
          then pass (inject_before_commit st BeforeOperationFinishCommit) (\<lambda>st1.
               attempt st1 (complete_creation X c d1) (\<lambda>d2.
               commit_version X st1 (ve_version_id v) d2))
          else if op_lifecycle_status x \<noteq> ''completed''
          then (Inl (RecoveryRequired
                 ''version creation operation is not in a successful retryable state''), st)
          else if \<not> operation_result_matches_version x v
          then (Inl (Integrity ''completed version creation operation has an inconsistent result''), st)
          else commit_version X st (ve_version_id v) d1)))"

section \<open>Versions form a forest\<close>

text \<open>
  Each version comes after its parent, in the same scope; and every version is bound to its
  snapshot and its completed operation. On such a table every ancestry walk succeeds.
\<close>

definition parent_in :: "version_record list \<Rightarrow> version_record \<Rightarrow> bool" where
  "parent_in us v \<longleftrightarrow> (case ve_parent_version_id v of None \<Rightarrow> True
     | Some i \<Rightarrow> \<exists>u \<in> set us. ve_version_id u = i \<and> same_scope u v)"

fun rooted :: "version_record list \<Rightarrow> version_record list \<Rightarrow> bool" where
  "rooted us [] = True"
| "rooted us (v # vs) = (parent_in us v \<and> rooted (us @ [v]) vs)"

lemma rooted_append: "rooted us (vs @ ws) \<longleftrightarrow> rooted us vs \<and> rooted (us @ vs) ws"
  by (induction us vs rule: rooted.induct) auto

definition version_good :: "externals \<Rightarrow> db \<Rightarrow> version_record \<Rightarrow> bool" where
  "version_good X d v \<longleftrightarrow> (\<exists>s x. row_by sn_snapshot_id (ve_snapshot_id v) (snapshots d) = Some s
     \<and> row_by op_operation_id (ve_creation_operation_id v) (operations d) = Some x
     \<and> validate_version_row X v s x (stored_identity d) = Inr ())"

definition versions_ok :: "externals \<Rightarrow> db \<Rightarrow> bool" where
  "versions_ok X d \<longleftrightarrow> unique_by ve_version_id (versions d)
     \<and> unique_by ve_creation_operation_id (versions d) \<and> unique_by ve_snapshot_id (versions d)
     \<and> rooted [] (versions d) \<and> (\<forall>v \<in> set (versions d). version_good X d v)
     \<and> projection_identity d = Inr (stored_identity d)"

lemma version_bound_good:
  "version_good X d v \<Longrightarrow> version_bound X d (stored_identity d) subject v = Inr ()"
  by (auto simp: version_good_def version_bound_def)

lemma same_scope_trans: "same_scope a b \<Longrightarrow> same_scope b c \<Longrightarrow> same_scope a c"
  by (simp add: same_scope_def)

lemma walk_succeeds:
  assumes ok: "versions_ok X d" and vs: "versions d = as @ u # bs"
    and scope: "same_scope u child"
    and seen: "set seen \<inter> set (map ve_version_id (as @ [u])) = {}"
    and child: "ve_version_id child \<notin> set (map ve_version_id (as @ [u]))"
  shows "validate_parent_chain X errors d child (stored_identity d) (ve_version_id u) seen = Inr ()"
  using vs scope seen child
proof (induction "length as" arbitrary: as u bs seen rule: less_induct)
  case less
  have uq: "unique_by ve_version_id (versions d)" and good: "\<forall>v \<in> set (versions d). version_good X d v"
    and root: "rooted [] (versions d)" using ok by (simp_all add: versions_ok_def)
  have row: "row_by ve_version_id (ve_version_id u) (versions d) = Some u"
    using row_by_unique[OF uq, of u] less.prems(1) by simp
  have bound: "version_bound X d (stored_identity d) ''version parent'' u = Inr ()"
    using good less.prems(1) by (intro version_bound_good) simp
  note step = validate_parent_chain.simps[of X errors d child "stored_identity d" "ve_version_id u" seen]
  have notseen: "ve_version_id u \<notin> set seen" using less.prems(3) by auto
  show ?case
  proof (cases "ve_parent_version_id u")
    case None
    then show ?thesis using less.prems(2) by (simp add: step row bound notseen)
  next
    case (Some g)
    from root less.prems(1) have "parent_in as u" by (simp add: rooted_append)
    with Some obtain p where p: "p \<in> set as" "ve_version_id p = g" "same_scope p u"
      by (auto simp: parent_in_def)
    from p(1) obtain as1 as2 where as: "as = as1 @ p # as2" by (auto simp: in_set_conv_decomp)
    have fresh: "ve_version_id u \<notin> set (map ve_version_id as)"
      using uq less.prems(1) by (simp add: unique_by_def)
    have "validate_parent_chain X errors d child (stored_identity d) (ve_version_id p)
        (ve_version_id u # seen) = Inr ()"
    proof (rule less.hyps[of as1 p "as2 @ u # bs"])
      show "same_scope p child" using same_scope_trans p(3) less.prems(2) by blast
      show "set (ve_version_id u # seen) \<inter> set (map ve_version_id (as1 @ [p])) = {}"
        using less.prems(3) fresh by (auto simp: as)
    qed (use less.prems as in auto)
    moreover have g: "g \<in> ve_version_id ` set as" using p(1,2) by blast
    have "ve_version_id child \<notin> ve_version_id ` set as" using less.prems(4) by simp
    with g have "g \<noteq> ve_version_id child" by metis
    ultimately show ?thesis using less.prems(2) Some p(2) by (simp add: step row bound notseen)
  qed
qed

lemma parent_checks_succeed:
  assumes ok: "versions_ok X d" and v: "v \<in> set (versions d)"
  shows "validate_parent_connection X d v = Inr ()" "validate_parent_transaction X d v = Inr ()"
proof -
  from v obtain as bs where vs: "versions d = as @ v # bs" by (auto simp: in_set_conv_decomp)
  have "rooted [] (versions d)" "unique_by ve_version_id (versions d)" using ok by (simp_all add: versions_ok_def)
  with vs have pin: "parent_in as v" and fresh: "ve_version_id v \<notin> set (map ve_version_id as)"
    by (simp_all add: rooted_append unique_by_def)
  have "validate_parent_chain X errors d v (stored_identity d) g [] = Inr () \<and> g \<noteq> ve_version_id v"
    if "ve_parent_version_id v = Some g" for errors g
  proof -
    from pin that obtain p where p: "p \<in> set as" "ve_version_id p = g" "same_scope p v"
      by (auto simp: parent_in_def)
    from p(1) obtain as1 as2 where as: "as = as1 @ p # as2" by (auto simp: in_set_conv_decomp)
    have vs': "versions d = as1 @ p # (as2 @ v # bs)" by (simp add: vs as)
    have "validate_parent_chain X errors d v (stored_identity d) (ve_version_id p) [] = Inr ()"
      by (rule walk_succeeds[OF ok vs' p(3)]) (use fresh as in auto)
    moreover have "ve_version_id v \<notin> ve_version_id ` set as" using fresh by simp
    then have "ve_version_id p \<noteq> ve_version_id v" using imageI[OF p(1), of ve_version_id] by metis
    ultimately show ?thesis using p(2) by simp
  qed
  then show "validate_parent_connection X d v = Inr ()" "validate_parent_transaction X d v = Inr ()"
    by (auto simp: validate_parent_connection_def validate_parent_transaction_def split: option.split)
qed

text \<open>Every version that is there can be read.\<close>

lemma version_readable:
  assumes "versions_ok X d" "row_by ve_version_id i (versions d) = Some v"
  shows "version_record_of X d i = Inr (Some v)"
proof -
  have v: "v \<in> set (versions d)" using row_by_in[OF assms(2)] .
  have "version_good X d v" using assms(1) v by (simp add: versions_ok_def)
  then obtain s x where sx: "row_by sn_snapshot_id (ve_snapshot_id v) (snapshots d) = Some s"
    "row_by op_operation_id (ve_creation_operation_id v) (operations d) = Some x"
    "validate_version_row X v s x (stored_identity d) = Inr ()"
    unfolding version_good_def by (elim exE conjE)
  have "projection_identity d = Inr (stored_identity d)" using assms(1) by (simp add: versions_ok_def)
  then show ?thesis
    using parent_checks_succeed(1)[OF assms(1) v] sx by (simp add: version_record_of_def assms(2))
qed

subsection \<open>What later writes leave alone\<close>

text \<open>A completed operation only changes in what no check of a version reads.\<close>

lemma validate_version_row_ok:
  "validate_version_row X v s x i = Inr () \<longleftrightarrow>
    version_identity_id X (ve_project_id v) (ve_workspace_id v) (ve_snapshot_id v)
      (ve_creation_operation_id v) = Inr (ve_version_id v)
    \<and> (sn_snapshot_id s = ve_snapshot_id v \<and> sn_workspace_id s = ve_workspace_id v
       \<and> sn_project_id s = ve_project_id v \<and> sn_environment_id s = ve_environment_id v
       \<and> sn_generation_id s = ve_generation_id v \<and> sn_migration_id s = ve_migration_id v)
    \<and> (ve_generation_id v = fst i \<and> ve_migration_id v = snd i)
    \<and> (op_operation_id x = ve_creation_operation_id v \<and> op_project_id x = ve_project_id v
       \<and> op_workspace_id x = Some (ve_workspace_id v) \<and> op_environment_id x = ve_environment_id v
       \<and> op_action x = ''version.create'' \<and> op_lifecycle_status x = ''completed''
       \<and> operation_result_matches_version x v
       \<and> (\<forall>g. ve_parent_version_id v = Some g \<longrightarrow> operation_references_parent x g))"
  by (cases "version_identity_id X (ve_project_id v) (ve_workspace_id v) (ve_snapshot_id v)
      (ve_creation_operation_id v)"; cases "ve_parent_version_id v")
    (simp_all add: validate_version_row_def, blast+)

lemma validate_version_row_evolves:
  assumes "validate_version_row X v s x i = Inr ()" "op_evolves x y"
  shows "validate_version_row X v s y i = Inr ()"
proof -
  from assms(1) have "op_lifecycle_status x = ''completed''" by (simp add: validate_version_row_ok)
  with assms(2) obtain a b where y: "y = x\<lparr>op_recording_status := a, op_updated_at := b\<rparr>"
    by (auto simp: op_evolves_def)
  have "operation_result_matches_version y v = operation_result_matches_version x v"
    "operation_references_parent y g = operation_references_parent x g" for g
    by (simp_all add: y operation_result_matches_version_def result_member_def
        operation_references_snapshot_def operation_references_parent_def)
  with assms(1) show ?thesis by (simp add: validate_version_row_ok) (simp add: y)
qed

definition history_kept :: "db \<Rightarrow> db \<Rightarrow> bool" where
  "history_kept d d' \<longleftrightarrow> prefix (snapshots d) (snapshots d') \<and> repository_meta d' = repository_meta d
     \<and> (\<forall>i x. row_by op_operation_id i (operations d) = Some x \<longrightarrow>
          (\<exists>y. row_by op_operation_id i (operations d') = Some y \<and> op_evolves x y))"

lemma identity_kept:
  "repository_meta d' = repository_meta d \<Longrightarrow>
    stored_identity d' = stored_identity d \<and> projection_identity d' = projection_identity d"
  by (simp add: stored_identity_def projection_identity_def generation_identity_def meta_value_def)

lemma version_good_kept:
  assumes "history_kept d d'" "version_good X d v"
  shows "version_good X d' v"
proof -
  from assms(2) obtain s x where s: "row_by sn_snapshot_id (ve_snapshot_id v) (snapshots d) = Some s"
    and x: "row_by op_operation_id (ve_creation_operation_id v) (operations d) = Some x"
    and val: "validate_version_row X v s x (stored_identity d) = Inr ()"
    unfolding version_good_def by (elim exE conjE)
  from assms(1) x obtain y where y: "row_by op_operation_id (ve_creation_operation_id v) (operations d') = Some y"
    "op_evolves x y" unfolding history_kept_def by blast
  have "row_by sn_snapshot_id (ve_snapshot_id v) (snapshots d') = Some s"
    using assms(1) s by (auto simp: history_kept_def prefix_def row_by_append)
  moreover have "stored_identity d' = stored_identity d"
    using assms(1) by (intro identity_kept[THEN conjunct1]) (simp add: history_kept_def)
  ultimately show ?thesis
    using y(1) validate_version_row_evolves[OF val y(2)] by (simp add: version_good_def)
qed

lemma versions_ok_kept:
  assumes "history_kept d d'" "versions d' = versions d" "versions_ok X d"
  shows "versions_ok X d'"
proof -
  have "repository_meta d' = repository_meta d" using assms(1) by (simp add: history_kept_def)
  with assms version_good_kept[OF assms(1)] identity_kept[of d' d] show ?thesis
    by (simp add: versions_ok_def)
qed

lemma history_kept_same:
  "snapshots d' = snapshots d \<Longrightarrow> repository_meta d' = repository_meta d \<Longrightarrow>
    operations d' = operations d \<Longrightarrow> history_kept d d'"
  by (simp add: history_kept_def)

section \<open>What a creation writes\<close>

definition creation_write :: "externals \<Rightarrow> creation_plan \<Rightarrow> db \<Rightarrow> db res" where
  "creation_write X c d =
     try_then (insert_version (cp_version c) d) (\<lambda>d1.
     if op_lifecycle_status (cp_operation c) = ''started'' then complete_creation X c d1
     else if op_lifecycle_status (cp_operation c) \<noteq> ''completed''
     then Inl (RecoveryRequired
            ''version creation operation is not in a successful retryable state'')
     else if \<not> operation_result_matches_version (cp_operation c) (cp_version c)
     then Inl (Integrity ''completed version creation operation has an inconsistent result'')
     else Inr d1)"

definition create_shape ::
  "externals \<Rightarrow> metadata_store \<Rightarrow> version_publication \<Rightarrow> version_record res \<times> metadata_store \<Rightarrow> bool"
where
  "create_shape X st p o1 \<longleftrightarrow> (case o1 of (out, st') \<Rightarrow> st_redactor st' = st_redactor st
     \<and> (st_db st' = st_db st \<or> (\<exists>c. creation_checks X (st_db st) p = Inr (Inl c)
           \<and> creation_write X c (st_db st) = Inr (st_db st')))
     \<and> (\<forall>v. out = Inr v \<longrightarrow>
          (creation_checks X (st_db st) p = Inr (Inr v) \<and> st_db st' = st_db st)
          \<or> (\<exists>c. creation_checks X (st_db st) p = Inr (Inl c)
              \<and> creation_write X c (st_db st) = Inr (st_db st')
              \<and> version_record_of X (st_db st') (ve_version_id (cp_version c)) = Inr (Some v))))"

lemma create_shape_error:
  "st_redactor st' = st_redactor st \<Longrightarrow> st_db st' = st_db st \<Longrightarrow> create_shape X st p (Inl e, st')"
  by (simp add: create_shape_def)

lemma commit_version_shape:
  assumes c: "creation_checks X (st_db st) p = Inr (Inl c)" "creation_write X c (st_db st) = Inr d'"
    and st1: "st_redactor st1 = st_redactor st" "st_db st1 = st_db st"
  shows "create_shape X st p (commit_version X st1 (ve_version_id (cp_version c)) d')"
proof -
  have written: "create_shape X st p (out, st')"
    if "st_db st' = d'" "st_redactor st' = st_redactor st"
      "\<And>v. out = Inr v \<Longrightarrow> version_record_of X d' (ve_version_id (cp_version c)) = Inr (Some v)" for out st'
    using that c unfolding create_shape_def by blast
  show ?thesis
    unfolding commit_version_def
    apply (rule pass_points(2), simp add: create_shape_error st1)
    apply (rule pass_points(3), rule written, simp, simp add: st1, simp)
    apply (rule pass_points(3), rule written, simp, simp add: st1, simp)
    apply (rule attempt_rule, rule written, simp, simp add: st1, simp)
    apply (rule written, simp, simp add: st1)
    apply (simp split: option.splits)
    done
qed

lemma create_version_shape: "create_shape X st p (create_version X st p)"
proof (cases "creation_checks X (st_db st) p")
  case (Inl e)
  then show ?thesis by (simp add: create_version_def create_shape_def)
next
  case checks: (Inr found)
  show ?thesis
  proof (cases found)
    case (Inr v)
    then show ?thesis by (simp add: create_version_def create_shape_def checks)
  next
    case (Inl c)
    note found = checks[unfolded Inl]
    let ?x = "cp_operation c"
    note shape = commit_version_shape[OF found]
    show ?thesis
    proof (cases "insert_version (cp_version c) (st_db st)")
      case (Inl e)
      then show ?thesis by (simp add: create_version_def found create_shape_error)
    next
      case ins: (Inr d1)
      have run: "create_version X st p = (if op_lifecycle_status ?x = ''started''
          then pass (inject_before_commit st BeforeOperationFinishCommit) (\<lambda>st1.
               attempt st1 (complete_creation X c d1) (\<lambda>d2.
               commit_version X st1 (ve_version_id (cp_version c)) d2))
          else if op_lifecycle_status ?x \<noteq> ''completed''
          then (Inl (RecoveryRequired
                 ''version creation operation is not in a successful retryable state''), st)
          else if \<not> operation_result_matches_version ?x (cp_version c)
          then (Inl (Integrity ''completed version creation operation has an inconsistent result''), st)
          else commit_version X st (ve_version_id (cp_version c)) d1)"
        by (simp add: create_version_def found ins Let_def)
      show ?thesis
      proof (cases "op_lifecycle_status ?x = ''started''")
        case True
        show ?thesis unfolding run if_P[OF True]
          apply (rule pass_points(2), simp add: create_shape_error)
          apply (rule attempt_rule, simp add: create_shape_error)
          apply (rule shape)
          apply (simp_all add: creation_write_def ins True)
          done
      next
        case False
        have "creation_write X c (st_db st) = Inr d1"
          if "op_lifecycle_status ?x = ''completed''" "operation_result_matches_version ?x (cp_version c)"
          using that by (simp add: creation_write_def ins)
        with False shape[of d1 st] show ?thesis by (simp add: run create_shape_error)
      qed
    qed
  qed
qed

text \<open>What the checks have established about a plan.\<close>

lemma creation_checks_new:
  assumes "creation_checks X d p = Inr (Inl c)"
  shows "\<exists>i. projection_identity d = Inr i
      \<and> version_identity_id X (vp_project_id p) (vp_workspace_id p) (vp_snapshot_id p)
          (vp_creation_operation_id p) = Inr (ve_version_id (cp_version c))
      \<and> creation_snapshot p i d = Inr (cp_snapshot c)
      \<and> cp_version c = version_row (ve_version_id (cp_version c)) i p"
    and "creation_operation p d = Inr (cp_operation c)" and "creation_workspace p d = Inr ()"
    and "row_by ve_snapshot_id (vp_snapshot_id p) (versions d) = None"
    and "validate_parent_transaction X d (cp_version c) = Inr ()"
    and "row_by ve_creation_operation_id (vp_creation_operation_id p) (versions d) = None"
proof -
  let ?checked = "\<lambda>h i s x. validate_version_publication p = Inr ()
      \<and> version_identity_id X (vp_project_id p) (vp_workspace_id p) (vp_snapshot_id p)
          (vp_creation_operation_id p) = Inr h
      \<and> projection_identity d = Inr i \<and> creation_workspace p d = Inr ()
      \<and> creation_snapshot p i d = Inr s \<and> creation_operation p d = Inr x
      \<and> row_by ve_creation_operation_id (vp_creation_operation_id p) (versions d) = None
      \<and> row_by ve_snapshot_id (vp_snapshot_id p) (versions d) = None
      \<and> validate_parent_transaction X d (version_row h i p) = Inr ()
      \<and> c = \<lparr>cp_version = version_row h i p, cp_snapshot = s, cp_operation = x\<rparr>"
  have "\<exists>h i s x. ?checked h i s x"
    using assms by (cases "row_by ve_creation_operation_id (vp_creation_operation_id p) (versions d)")
      (auto simp: creation_checks_def Let_def split: if_splits)
  then obtain h i s x where c: "?checked h i s x" by (elim exE)
  then have ch: "ve_version_id (cp_version c) = h" by (simp add: version_row_def)
  from c show "\<exists>i. projection_identity d = Inr i
      \<and> version_identity_id X (vp_project_id p) (vp_workspace_id p) (vp_snapshot_id p)
          (vp_creation_operation_id p) = Inr (ve_version_id (cp_version c))
      \<and> creation_snapshot p i d = Inr (cp_snapshot c)
      \<and> cp_version c = version_row (ve_version_id (cp_version c)) i p"
    unfolding ch by (intro exI[of _ i]) simp
  from c show "creation_operation p d = Inr (cp_operation c)" "creation_workspace p d = Inr ()"
    "row_by ve_snapshot_id (vp_snapshot_id p) (versions d) = None"
    "validate_parent_transaction X d (cp_version c) = Inr ()"
    "row_by ve_creation_operation_id (vp_creation_operation_id p) (versions d) = None" by simp_all
qed

lemma creation_operation_result:
  "creation_operation p d = Inr x \<longleftrightarrow>
    row_by op_operation_id (vp_creation_operation_id p) (operations d) = Some x
    \<and> op_project_id x = vp_project_id p \<and> op_workspace_id x = Some (vp_workspace_id p)
    \<and> op_environment_id x = vp_environment_id p \<and> op_action x = ''version.create''
    \<and> operation_references_snapshot x (vp_snapshot_id p)
    \<and> (\<forall>g. vp_parent_version_id p = Some g \<longrightarrow> operation_references_parent x g)"
  by (auto simp: creation_operation_def split: option.splits if_splits)

lemma creation_snapshot_result:
  "creation_snapshot p i d = Inr s \<longleftrightarrow>
    row_by sn_snapshot_id (vp_snapshot_id p) (snapshots d) = Some s
    \<and> sn_workspace_id s = vp_workspace_id p \<and> sn_project_id s = vp_project_id p
    \<and> sn_environment_id s = vp_environment_id p
    \<and> sn_generation_id s = fst i \<and> sn_migration_id s = snd i"
  by (auto simp: creation_snapshot_def split: option.splits if_splits)

lemma version_row_simps [simp]:
  "ve_version_id (version_row h i p) = h" "ve_workspace_id (version_row h i p) = vp_workspace_id p"
  "ve_project_id (version_row h i p) = vp_project_id p"
  "ve_snapshot_id (version_row h i p) = vp_snapshot_id p"
  "ve_creation_operation_id (version_row h i p) = vp_creation_operation_id p"
  "ve_environment_id (version_row h i p) = vp_environment_id p"
  "ve_generation_id (version_row h i p) = fst i" "ve_migration_id (version_row h i p) = snd i"
  "ve_created_at (version_row h i p) = vp_created_at p"
  "ve_parent_version_id (version_row h i p) = vp_parent_version_id p"
  by (simp_all add: version_row_def)

lemma complete_row_simps [simp]:
  "op_operation_id (complete_row c x) = op_operation_id x"
  "op_request_key (complete_row c x) = op_request_key x"
  "op_lifecycle_status (complete_row c x) = ''completed''"
  "op_project_id (complete_row c x) = op_project_id x"
  "op_workspace_id (complete_row c x) = op_workspace_id x"
  "op_environment_id (complete_row c x) = op_environment_id x"
  "op_action (complete_row c x) = op_action x" "op_input_refs (complete_row c x) = op_input_refs x"
  "op_result (complete_row c x) = Some (version_result c)"
  by (simp_all add: complete_row_def op_request_key_def)

lemma complete_row_consistent:
  assumes "op_consistent x" "op_lifecycle_status x = ''started''"
  shows "op_consistent (complete_row c x)"
  using assms by (simp add: op_consistent_def) (simp add: complete_row_def outcome_statuses_def)

lemma complete_row_evolves:
  assumes "op_lifecycle_status x = ''started''"
  shows "op_evolves x (complete_row c x)"
  using op_evolves_outcome[OF assms, where outs = "version_output_refs c" and after = "op_after_state x"
      and fin = "Some (ve_created_at (cp_version c))" and result = "Some (version_result c)"
      and err = "op_error x" and status = "''completed''" and s = "op_recording_status x"
      and u = "ve_created_at (cp_version c)"]
  by (simp add: complete_row_def)

text \<open>The result it writes is the one the version asks for.\<close>

lemma complete_row_matches:
  assumes "sn_snapshot_id (cp_snapshot c) = ve_snapshot_id (cp_version c)"
  shows "operation_result_matches_version (complete_row c x) (cp_version c)"
proof -
  have m: "result_member (complete_row c x) ''version_id'' = Some (JString (ve_version_id (cp_version c)))"
    "result_member (complete_row c x) ''snapshot_id'' = Some (JString (ve_snapshot_id (cp_version c)))"
    "result_member (complete_row c x) ''parent_version_id'' = Some (opt_text_value (ve_parent_version_id (cp_version c)))"
    using assms by (simp_all add: result_member_def version_result_def json_get_def)
  have "as_str (opt_text_value v) = v" for v
    by (cases v) (simp_all add: opt_text_value_def as_str_def)
  then show ?thesis
    by (simp add: operation_result_matches_version_def operation_references_snapshot_def m as_str_def)
qed

lemma complete_creation_result:
  assumes ok: "ledger_ok r d" and w: "complete_creation X c d = Inr d'"
  shows "ledger_ok r d'
    \<and> operations d' = update_where (\<lambda>y. op_operation_id y = op_operation_id (cp_operation c)
          \<and> op_lifecycle_status y = ''started'') (complete_row c) (operations d)
    \<and> (\<exists>js. operation_journal d' = update_where (\<lambda>y. jo_key y = op_request_key (cp_operation c))
          (set_outcome ''outcome_durable'' js) (operation_journal d))
    \<and> prefix (event_envelopes d) (event_envelopes d')
    \<and> workspaces d' = workspaces d \<and> environments d' = environments d
    \<and> workspace_leases d' = workspace_leases d \<and> repository_meta d' = repository_meta d
    \<and> snapshots d' = snapshots d \<and> versions d' = versions d"
proof -
  let ?x = "cp_operation c"
  let ?p = "\<lambda>y. op_operation_id y = op_operation_id ?x \<and> op_lifecycle_status y = ''started''"
  let ?d1 = "d\<lparr>operations := update_where ?p (complete_row c) (operations d)\<rparr>"
  let ?d2 = "\<lambda>js. ?d1\<lparr>operation_journal := update_where (\<lambda>y. jo_key y = op_request_key ?x)
      (set_outcome ''outcome_durable'' js) (operation_journal ?d1)\<rparr>"
  have "\<exists>digest js. append_operation_event X (op_operation_id ?x) (op_project_id ?x) (op_agent_id ?x)
      (op_request_id ?x) (op_schema_version ?x) (ve_created_at (cp_version c))
      (next_operation_event_sequence (op_operation_id ?x) (?d2 js))
      (finished_payload (op_operation_id ?x) ''completed'' (op_recording_status ?x) digest) (?d2 js) = Inr d'"
    using w by (simp add: complete_creation_def Let_def split: if_splits)
      (elim exE conjE, intro exI, assumption)
  then obtain digest js where ev: "append_operation_event X (op_operation_id ?x) (op_project_id ?x)
      (op_agent_id ?x) (op_request_id ?x) (op_schema_version ?x) (ve_created_at (cp_version c))
      (next_operation_event_sequence (op_operation_id ?x) (?d2 js))
      (finished_payload (op_operation_id ?x) ''completed'' (op_recording_status ?x) digest) (?d2 js) = Inr d'"
    by (elim exE)
  have ok1: "ledger_ok r ?d1"
    by (rule ledger_ok_update[OF ok]) (simp_all add: complete_row_consistent)
  have ok2: "ledger_ok r (?d2 js)"
    by (intro ledger_ok_journal_update[OF ok1]) (simp_all add: KNOWN_OUTCOME_PHASES_def)
  have e2: "events_ok (?d2 js)" using ok2 by (simp add: ledger_ok_def)
  note res = append_operation_event_result[OF e2 ev refl]
  then have lo: "log_only (?d2 js) d'" by (rule conjunct2)
  have "ledger_ok r d'" by (rule ledger_ok_log[OF ok2 lo]) (use res in simp)
  moreover have "prefix (event_envelopes (?d2 js)) (event_envelopes d')" using log_only_prefix[OF lo] by simp
  ultimately show ?thesis using log_only_tables[OF lo] by (intro conjI exI[of _ js]) simp_all
qed

lemma parent_found:
  assumes "validate_parent_transaction X d v = Inr ()"
  shows "parent_in (versions d) v"
proof (cases "ve_parent_version_id v")
  case None
  then show ?thesis by (simp add: parent_in_def)
next
  case (Some g)
  with assms have walk: "validate_parent_chain X parent_errors_transaction d v (stored_identity d) g [] = Inr ()"
    by (simp add: validate_parent_transaction_def split: if_splits)
  obtain u where u: "row_by ve_version_id g (versions d) = Some u" "same_scope u v"
    using walk by (subst (asm) validate_parent_chain.simps) (simp split: option.splits if_splits)
  then show ?thesis using row_by_SomeD[OF u(1)] by (auto simp: parent_in_def Some)
qed

lemma insert_version_result:
  "insert_version v d = Inr d' \<longleftrightarrow> d' = d\<lparr>versions := versions d @ [v]\<rparr>
    \<and> row_by ve_version_id (ve_version_id v) (versions d) = None
    \<and> row_by ve_creation_operation_id (ve_creation_operation_id v) (versions d) = None
    \<and> ve_parent_version_id v \<noteq> Some (ve_version_id v)"
  by (auto simp: insert_version_def)

text \<open>The tables a creation touches, and the operation it leaves behind.\<close>

lemma creation_write_tables:
  assumes ok: "ledger_ok r d" and w: "creation_write X c d = Inr d'"
    and x: "row_by op_operation_id (op_operation_id (cp_operation c)) (operations d) = Some (cp_operation c)"
  shows "ledger_ok r d' \<and> versions d' = versions d @ [cp_version c]
    \<and> insert_version (cp_version c) d = Inr (d\<lparr>versions := versions d @ [cp_version c]\<rparr>)
    \<and> prefix (event_envelopes d) (event_envelopes d') \<and> history_kept d d'
    \<and> workspaces d' = workspaces d \<and> environments d' = environments d
    \<and> workspace_leases d' = workspace_leases d \<and> snapshots d' = snapshots d
    \<and> (\<exists>y. row_by op_operation_id (op_operation_id (cp_operation c)) (operations d') = Some y
        \<and> (if op_lifecycle_status (cp_operation c) = ''started'' then y = complete_row c (cp_operation c)
           else y = cp_operation c \<and> op_lifecycle_status y = ''completed''
             \<and> operation_result_matches_version y (cp_version c)))"
proof -
  let ?x = "cp_operation c" and ?d1 = "d\<lparr>versions := versions d @ [cp_version c]\<rparr>"
  from w have ins: "insert_version (cp_version c) d = Inr ?d1"
    by (auto simp: creation_write_def insert_version_result)
  have ok1: "ledger_ok r ?d1" using ok by (simp add: ledger_ok_def events_ok_def journal_ok_def)
  show ?thesis
  proof (cases "op_lifecycle_status ?x = ''started''")
    case True
    with w ins have cc: "complete_creation X c ?d1 = Inr d'" by (simp add: creation_write_def)
    note res = complete_creation_result[OF ok1 cc]
    let ?p = "\<lambda>y. op_operation_id y = op_operation_id ?x \<and> op_lifecycle_status y = ''started''"
    from res have ops: "operations d' = update_where ?p (complete_row c) (operations d)" by simp
    have row: "row_by op_operation_id i (operations d') = (case row_by op_operation_id i (operations d) of
        None \<Rightarrow> None | Some y \<Rightarrow> Some (if ?p y then complete_row c y else y))" for i
      by (simp add: ops row_by_update)
    have "\<exists>y. row_by op_operation_id i (operations d') = Some y \<and> op_evolves z y"
      if z: "row_by op_operation_id i (operations d) = Some z" for i z
      unfolding row z by (simp add: complete_row_evolves)
    then have "history_kept d d'" using res by (simp add: history_kept_def)
    then show ?thesis using res ins True by (simp add: row_by_update x)
  next
    case False
    with w ins have "d' = ?d1" "op_lifecycle_status ?x = ''completed''"
      "operation_result_matches_version ?x (cp_version c)"
      by (auto simp: creation_write_def split: if_splits)
    with ok1 ins x False show ?thesis by (simp add: history_kept_def)
  qed
qed

lemma creation_keeps:
  assumes ok: "ledger_ok r d" "versions_ok X d" and checks: "creation_checks X d p = Inr (Inl c)"
    and w: "creation_write X c d = Inr d'"
  shows "versions_ok X d' \<and> row_by ve_version_id (ve_version_id (cp_version c)) (versions d') = Some (cp_version c)"
proof -
  let ?v = "cp_version c" and ?x = "cp_operation c"
  note ch = creation_checks_new[OF checks]
  from ch(1) obtain i where i: "projection_identity d = Inr i"
    and id: "version_identity_id X (vp_project_id p) (vp_workspace_id p) (vp_snapshot_id p)
          (vp_creation_operation_id p) = Inr (ve_version_id ?v)"
    and s: "creation_snapshot p i d = Inr (cp_snapshot c)"
    and v: "?v = version_row (ve_version_id ?v) i p" by (elim exE conjE)
  note x = ch(2)[unfolded creation_operation_result] and s' = s[unfolded creation_snapshot_result]
  have oid: "op_operation_id ?x = vp_creation_operation_id p" by (rule row_by_key[OF x[THEN conjunct1]])
  have row: "row_by op_operation_id (op_operation_id ?x) (operations d) = Some ?x"
    unfolding oid using x by (elim conjE)
  note tb = creation_write_tables[OF ok(1) w row]
  note vs = tb[THEN conjunct2, THEN conjunct1] and ins = tb[THEN conjunct2, THEN conjunct2, THEN conjunct1]
  note tc = tb[THEN conjunct2, THEN conjunct2, THEN conjunct2, THEN conjunct2]
  note hk = tc[THEN conjunct1] and td = tc[THEN conjunct2, THEN conjunct2, THEN conjunct2, THEN conjunct2]
  note sn = td[THEN conjunct1]
  from td obtain y where y: "row_by op_operation_id (vp_creation_operation_id p) (operations d') = Some y"
    and yx: "if op_lifecycle_status ?x = ''started'' then y = complete_row c ?x
       else y = ?x \<and> op_lifecycle_status y = ''completed'' \<and> operation_result_matches_version y ?v"
    unfolding oid by (elim conjE exE)
  have fields: "ve_project_id ?v = vp_project_id p" "ve_workspace_id ?v = vp_workspace_id p"
    "ve_snapshot_id ?v = vp_snapshot_id p" "ve_creation_operation_id ?v = vp_creation_operation_id p"
    "ve_environment_id ?v = vp_environment_id p" "ve_generation_id ?v = fst i"
    "ve_migration_id ?v = snd i" "ve_parent_version_id ?v = vp_parent_version_id p"
    by (subst v, simp)+
  have sid: "stored_identity d = i" by (rule projection_identity_stored[OF i])
  have snap: "sn_snapshot_id (cp_snapshot c) = ve_snapshot_id ?v"
    unfolding fields(3) by (rule row_by_key[OF s'[THEN conjunct1]])
  have op: "op_project_id y = vp_project_id p \<and> op_workspace_id y = Some (vp_workspace_id p)
      \<and> op_environment_id y = vp_environment_id p \<and> op_action y = ''version.create''
      \<and> op_lifecycle_status y = ''completed'' \<and> operation_result_matches_version y ?v
      \<and> op_input_refs y = op_input_refs ?x \<and> op_operation_id y = vp_creation_operation_id p"
  proof (cases "op_lifecycle_status ?x = ''started''")
    case True
    with yx have "y = complete_row c ?x" by simp
    with x oid show ?thesis using complete_row_matches[OF snap, of ?x] by simp
  next
    case False
    note yy = yx[unfolded if_not_P[OF False]]
    have "op_lifecycle_status ?x = ''completed''" "operation_result_matches_version ?x ?v"
      using yy[unfolded yy[THEN conjunct1]] by simp_all
    with x oid show ?thesis unfolding yy[THEN conjunct1] by simp
  qed
  have meta: "repository_meta d' = repository_meta d" using hk by (simp add: history_kept_def)
  have "validate_version_row X ?v (cp_snapshot c) y i = Inr ()"
    using op id s' x snap by (simp add: validate_version_row_ok fields operation_references_parent_def)
  then have good: "version_good X d' ?v"
    using s' y identity_kept[OF meta] by (simp add: version_good_def fields sn sid)
  have olds: "\<forall>u \<in> set (versions d). version_good X d' u"
    using ok(2) version_good_kept[OF hk] by (simp add: versions_ok_def)
  have "parent_in (versions d) ?v" by (rule parent_found[OF ch(5)])
  moreover have "row_by ve_version_id (ve_version_id ?v) (versions d) = None"
    using ins by (simp add: insert_version_result)
  ultimately have "versions_ok X d'"
    using ok(2) good olds ch(4,6) identity_kept[OF meta]
    by (simp add: versions_ok_def vs unique_by_insert rooted_append fields)
  moreover have "row_by ve_version_id (ve_version_id ?v) (versions d') = Some ?v"
    using ins by (simp add: vs row_by_append insert_version_result)
  ultimately show ?thesis by simp
qed

end
