(* ===== verification/Version_Life.thy ===== *)
theory Version_Life
  imports Version_Store
begin

text \<open>
  The life of a version, over \<open>Version_Store\<close>: the ancestry walk against the lineage it stands
  for, creation under faults and its retry, the reads of a history, and the Version Head of a
  workspace. The properties of \<open>create_version\<close>, \<open>get_parent\<close>, \<open>get_children\<close> and
  \<open>set_version_head\<close> in \<open>src/src/metadata.rs\<close> are here.
\<close>

section \<open>The walk and the lineage\<close>

text \<open>
  A lineage is the list of ancestors a version has, up to one without a parent. The walk does
  not build it, and stops on a repeated id; both say the same.
\<close>

fun lineage ::
  "externals \<Rightarrow> db \<Rightarrow> version_record \<Rightarrow> utf8 \<times> utf8 \<Rightarrow> utf8 \<Rightarrow> version_record list \<Rightarrow> bool" where
  "lineage X d child identity i [] = False"
| "lineage X d child identity i (u # us) =
     (row_by ve_version_id i (versions d) = Some u \<and> same_scope u child
      \<and> version_bound X d identity ''version parent'' u = Inr ()
      \<and> (case ve_parent_version_id u of
           None \<Rightarrow> us = []
         | Some g \<Rightarrow> g \<noteq> ve_version_id child \<and> lineage X d child identity g us))"

lemma lineage_unique:
  "lineage X d child identity i us \<Longrightarrow> lineage X d child identity i vs \<Longrightarrow> us = vs"
proof (induction us arbitrary: i vs)
  case (Cons u us)
  then show ?case by (cases vs) (auto split: option.splits)
qed simp

lemma lineage_suffix:
  "lineage X d child identity i (as @ v # bs) \<Longrightarrow> lineage X d child identity (ve_version_id v) (v # bs)"
proof (induction as arbitrary: i)
  case Nil
  then have "row_by ve_version_id i (versions d) = Some v" by simp
  then have "ve_version_id v = i" by (rule row_by_key)
  with Nil show ?case by simp
next
  case (Cons a as)
  then show ?case by (auto split: option.splits)
qed

lemma lineage_distinct:
  assumes "lineage X d child identity i us"
  shows "distinct (map ve_version_id us)"
proof (rule ccontr)
  assume "\<not> distinct (map ve_version_id us)"
  then obtain as u bs v cs where us: "us = as @ u # bs @ v # cs" and id: "ve_version_id u = ve_version_id v"
    using not_distinct_decomp[of "map ve_version_id us"]
    by (auto simp: map_eq_append_conv append_eq_map_conv Cons_eq_map_conv map_eq_Cons_conv)
  have "lineage X d child identity (ve_version_id u) (u # bs @ v # cs)"
    using lineage_suffix[of X d child identity i as u "bs @ v # cs"] assms us by simp
  moreover have "lineage X d child identity (ve_version_id v) (v # cs)"
    using lineage_suffix[of X d child identity i "as @ u # bs" v cs] assms us by simp
  ultimately have "u # bs @ v # cs = v # cs" unfolding id by (rule lineage_unique)
  then show False by (auto dest: arg_cong[where f = length])
qed

text \<open>The ancestors from \<open>i\<close> on, none of them visited before.\<close>

definition fresh_lineage ::
  "externals \<Rightarrow> db \<Rightarrow> version_record \<Rightarrow> utf8 \<times> utf8 \<Rightarrow> utf8 \<Rightarrow> utf8 list \<Rightarrow> bool" where
  "fresh_lineage X d child identity i seen \<longleftrightarrow> (\<exists>us. lineage X d child identity i us
     \<and> set (map ve_version_id us) \<inter> set seen = {})"

lemma lineage_first:
  assumes "lineage X d child identity i us"
  obtains u us' where "us = u # us'" "row_by ve_version_id i (versions d) = Some u" "ve_version_id u = i"
    "same_scope u child" "version_bound X d identity ''version parent'' u = Inr ()"
  using assms row_by_key[of ve_version_id i "versions d"] by (cases us) auto

lemma fresh_lineage_extend:
  assumes u: "row_by ve_version_id i (versions d) = Some u" "same_scope u child"
      "version_bound X d identity ''version parent'' u = Inr ()"
    and g: "ve_parent_version_id u = Some g" and ns: "i \<notin> set seen"
  shows "fresh_lineage X d child identity i seen \<longleftrightarrow>
    g \<noteq> ve_version_id child \<and> fresh_lineage X d child identity g (i # seen)"
proof
  assume "fresh_lineage X d child identity i seen"
  then obtain us where us: "lineage X d child identity i us" "set (map ve_version_id us) \<inter> set seen = {}"
    unfolding fresh_lineage_def by (elim exE conjE)
  from us(1) obtain us' where us': "us = u # us'" "ve_version_id u = i"
    using lineage_first[OF us(1)] u(1) by (metis option.inject)
  with us g have "g \<noteq> ve_version_id child" "lineage X d child identity g us'" by simp_all
  moreover have "i \<notin> set (map ve_version_id us')" using lineage_distinct[OF us(1)] us' by simp
  ultimately show "g \<noteq> ve_version_id child \<and> fresh_lineage X d child identity g (i # seen)"
    using us(2) us' unfolding fresh_lineage_def by (intro conjI exI[of _ us']) auto
next
  assume "g \<noteq> ve_version_id child \<and> fresh_lineage X d child identity g (i # seen)"
  then obtain us where us: "lineage X d child identity g us" "set (map ve_version_id us) \<inter> set (i # seen) = {}"
    and gc: "g \<noteq> ve_version_id child" unfolding fresh_lineage_def by (elim exE conjE)
  have "lineage X d child identity i (u # us)" using us(1) u g gc by simp
  moreover have "set (map ve_version_id (u # us)) \<inter> set seen = {}"
    using us(2) row_by_key[OF u(1)] ns by auto
  ultimately show "fresh_lineage X d child identity i seen" unfolding fresh_lineage_def by (intro exI conjI)
qed

lemma fresh_lineage_root:
  assumes "row_by ve_version_id i (versions d) = Some u" "same_scope u child"
      "version_bound X d identity ''version parent'' u = Inr ()"
    and "ve_parent_version_id u = None" "i \<notin> set seen"
  shows "fresh_lineage X d child identity i seen"
  using assms row_by_key[OF assms(1)] unfolding fresh_lineage_def by (intro exI[of _ "[u]"]) simp

lemma walk_fresh_lineage:
  "validate_parent_chain X errors d child identity i seen = Inr () \<longleftrightarrow>
    fresh_lineage X d child identity i seen"
proof (induction X errors d child identity i seen rule: validate_parent_chain.induct)
  case (1 X errors d child identity i seen)
  note step = validate_parent_chain.simps[of X errors d child identity i seen]
  show ?case
  proof (cases "\<exists>u. i \<notin> set seen \<and> row_by ve_version_id i (versions d) = Some u \<and> same_scope u child
      \<and> version_bound X d identity ''version parent'' u = Inr ()")
    case False
    have "\<not> fresh_lineage X d child identity i seen"
    proof
      assume "fresh_lineage X d child identity i seen"
      then obtain us where us: "lineage X d child identity i us" "set (map ve_version_id us) \<inter> set seen = {}"
        unfolding fresh_lineage_def by (elim exE conjE)
      obtain u us' where "us = u # us'" "row_by ve_version_id i (versions d) = Some u" "ve_version_id u = i"
        "same_scope u child" "version_bound X d identity ''version parent'' u = Inr ()"
        by (rule lineage_first[OF us(1)])
      with False us(2) show False by simp
    qed
    moreover have "validate_parent_chain X errors d child identity i seen \<noteq> Inr ()"
      using False by (auto simp: step split: option.splits sum.splits)
    ultimately show ?thesis by blast
  next
    case True
    then obtain u where u: "row_by ve_version_id i (versions d) = Some u" "same_scope u child"
      "version_bound X d identity ''version parent'' u = Inr ()" and ns: "i \<notin> set seen" by blast
    show ?thesis
    proof (cases "ve_parent_version_id u")
      case None
      with u ns fresh_lineage_root[OF u None ns] show ?thesis by (simp add: step)
    next
      case (Some g)
      have "validate_parent_chain X errors d child identity i seen = Inr () \<longleftrightarrow>
          g \<noteq> ve_version_id child \<and> validate_parent_chain X errors d child identity g (i # seen) = Inr ()"
        using u ns Some by (simp add: step)
      moreover have "g \<noteq> ve_version_id child \<Longrightarrow>
          validate_parent_chain X errors d child identity g (i # seen) = Inr () \<longleftrightarrow>
          fresh_lineage X d child identity g (i # seen)"
        by (rule 1(1)[OF ns u(1) _ u(3) Some]) (use u in auto)
      ultimately show ?thesis using fresh_lineage_extend[OF u Some ns] by blast
    qed
  qed
qed

text \<open>The loop run for at most \<open>n\<close> rounds; \<open>None\<close> when that was not enough.\<close>

fun bounded_walk ::
  "nat \<Rightarrow> externals \<Rightarrow> pong_error \<times> pong_error \<Rightarrow> db \<Rightarrow> version_record \<Rightarrow> utf8 \<times> utf8 \<Rightarrow> utf8 \<Rightarrow> utf8 list \<Rightarrow>
    unit res option" where
  "bounded_walk 0 X errors d child identity i seen = None"
| "bounded_walk (Suc n) X errors d child identity i seen =
     (if i \<in> set seen then Some (Inl (Integrity ''version parent chain contains a cycle''))
      else (case row_by ve_version_id i (versions d) of
         None \<Rightarrow> Some (Inl (fst errors))
       | Some u \<Rightarrow>
           if \<not> same_scope u child then Some (Inl (snd errors))
           else (case version_bound X d identity ''version parent'' u of
              Inl e \<Rightarrow> Some (Inl e)
            | Inr _ \<Rightarrow>
                (case ve_parent_version_id u of
                   None \<Rightarrow> Some (Inr ())
                 | Some g \<Rightarrow>
                     if g = ve_version_id child
                     then Some (Inl (Integrity ''version parent chain would create a cycle''))
                     else bounded_walk n X errors d child identity g (i # seen)))))"

lemma bounded_walk_enough:
  assumes "distinct seen" "set seen \<subseteq> set (map ve_version_id (versions d))"
    and "length (versions d) < n + length seen"
  shows "bounded_walk n X errors d child identity i seen
    = Some (validate_parent_chain X errors d child identity i seen)"
  using assms
proof (induction n arbitrary: i seen)
  case 0
  have "card (set seen) \<le> card (set (map ve_version_id (versions d)))" using 0(2) by (intro card_mono) auto
  then have "length seen \<le> length (versions d)"
    using 0(1) card_length[of "map ve_version_id (versions d)"] by (simp add: distinct_card)
  with 0(3) show ?case by simp
next
  case (Suc n)
  note step = validate_parent_chain.simps[of X errors d child identity i seen]
  have rest: "bounded_walk n X errors d child identity g (i # seen)
      = Some (validate_parent_chain X errors d child identity g (i # seen))"
    if "i \<notin> set seen" "row_by ve_version_id i (versions d) = Some u" for g u
  proof (rule Suc.IH)
    have "i \<in> ve_version_id ` set (versions d)" using row_by_SomeD[OF that(2)] by blast
    then show "set (i # seen) \<subseteq> set (map ve_version_id (versions d))" using Suc.prems(2) by simp
  qed (use Suc.prems that(1) in simp_all)
  show ?case using rest by (auto simp: step split: option.split sum.split)
qed

text \<open>
  C35. The walk over the ancestors of a version ends on every table, however its parent column
  is damaged: it has its answer after one round for each stored version and one more.
\<close>

theorem ancestry_walk_ends:
  "bounded_walk (Suc (length (versions d))) X errors d child identity i []
    = Some (validate_parent_chain X errors d child identity i [])"
  by (rule bounded_walk_enough) simp_all

text \<open>
  C8. The walk accepts exactly when the version has a complete lineage: a list of distinct
  stored versions, each the parent of the one before, in the scope of the child and bound to
  its snapshot and operation, that reaches a version without a parent and never the child.
\<close>

theorem ancestry_walk_is_lineage:
  "validate_parent_chain X errors d child identity i [] = Inr () \<longleftrightarrow>
    (\<exists>us. lineage X d child identity i us \<and> distinct (map ve_version_id us)
      \<and> ve_version_id child \<notin> set (map ve_version_id (tl us)))"
proof -
  have tail: "ve_version_id child \<notin> set (map ve_version_id (tl us))"
    if "lineage X d child identity i us" for us
    using that
  proof (induction us arbitrary: i)
    case (Cons u us)
    show ?case
    proof (cases us)
      case (Cons u' us')
      with Cons.prems obtain g where g: "g \<noteq> ve_version_id child" "lineage X d child identity g us"
        by (cases "ve_parent_version_id u") auto
      have "ve_version_id u' = g" using g(2) Cons row_by_key by auto
      with g Cons.IH[OF g(2)] Cons show ?thesis by auto
    qed simp
  qed simp
  show ?thesis
    using tail lineage_distinct by (simp add: walk_fresh_lineage fresh_lineage_def) blast
qed

section \<open>Creation\<close>

text \<open>A publication that has become durable: its version, and its operation completed with it.\<close>

definition version_durable :: "externals \<Rightarrow> db \<Rightarrow> version_publication \<Rightarrow> version_record \<Rightarrow> bool" where
  "version_durable X d p v \<longleftrightarrow> version_record_of X d (ve_version_id v) = Inr (Some v)
     \<and> ve_workspace_id v = vp_workspace_id p \<and> ve_snapshot_id v = vp_snapshot_id p
     \<and> ve_creation_operation_id v = vp_creation_operation_id p
     \<and> (\<exists>x. row_by op_operation_id (vp_creation_operation_id p) (operations d) = Some x
          \<and> op_lifecycle_status x = ''completed'' \<and> operation_result_matches_version x v)"

lemma version_good_operation:
  assumes "version_good X d v"
  obtains x where "row_by op_operation_id (ve_creation_operation_id v) (operations d) = Some x"
    "op_lifecycle_status x = ''completed''" "operation_result_matches_version x v"
    "op_project_id x = ve_project_id v" "op_workspace_id x = Some (ve_workspace_id v)"
proof -
  from assms obtain s x where x: "row_by op_operation_id (ve_creation_operation_id v) (operations d) = Some x"
    and val: "validate_version_row X v s x (stored_identity d) = Inr ()"
    unfolding version_good_def by (elim exE conjE)
  from val[unfolded validate_version_row_ok] show thesis by (intro that[OF x]) (elim conjE, assumption)+
qed

lemma stored_version_durable:
  assumes ok: "versions_ok X d" and v: "row_by ve_version_id (ve_version_id v) (versions d) = Some v"
    and p: "ve_workspace_id v = vp_workspace_id p" "ve_snapshot_id v = vp_snapshot_id p"
      "ve_creation_operation_id v = vp_creation_operation_id p"
  shows "version_durable X d p v"
proof -
  have "version_good X d v" using ok row_by_in[OF v] by (simp add: versions_ok_def)
  then obtain x where "row_by op_operation_id (ve_creation_operation_id v) (operations d) = Some x"
    "op_lifecycle_status x = ''completed''" "operation_result_matches_version x v"
    by (rule version_good_operation)
  with version_readable[OF ok v] p show ?thesis by (simp add: version_durable_def)
qed

lemma creation_checks_old:
  assumes "creation_checks X d p = Inr (Inr v)"
  shows "row_by ve_creation_operation_id (vp_creation_operation_id p) (versions d) = Some v
    \<and> (\<exists>h i. v = version_row h i p)"
  using assms by (cases "row_by ve_creation_operation_id (vp_creation_operation_id p) (versions d)")
    (auto simp: creation_checks_def Let_def split: if_splits)

lemma create_version_cases:
  assumes run: "create_version X st p = (out, st')"
    and ok: "ledger_ok (st_redactor st) (st_db st)" "versions_ok X (st_db st)"
  obtains (same) "st_db st' = st_db st"
      "\<And>v. out = Inr v \<Longrightarrow> creation_checks X (st_db st) p = Inr (Inr v)"
    | (written) c where "creation_checks X (st_db st) p = Inr (Inl c)"
      "creation_write X c (st_db st) = Inr (st_db st')"
      "versions (st_db st') = versions (st_db st) @ [cp_version c]"
      "ledger_ok (st_redactor st) (st_db st')" "versions_ok X (st_db st')"
      "row_by ve_version_id (ve_version_id (cp_version c)) (versions (st_db st')) = Some (cp_version c)"
      "\<And>v. out = Inr v \<Longrightarrow> v = cp_version c"
proof -
  have shape: "create_shape X st p (out, st')" using create_version_shape[of X st p] run by simp
  have wr: thesis if c: "creation_checks X (st_db st) p = Inr (Inl c)"
    and w: "creation_write X c (st_db st) = Inr (st_db st')" for c
  proof -
    note ch = creation_checks_new(2)[OF c, unfolded creation_operation_result]
    have "op_operation_id (cp_operation c) = vp_creation_operation_id p"
      by (rule row_by_key[OF ch[THEN conjunct1]])
    then have row: "row_by op_operation_id (op_operation_id (cp_operation c)) (operations (st_db st))
        = Some (cp_operation c)" using ch[THEN conjunct1] by simp
    note tb = creation_write_tables[OF ok(1) w row] and keeps = creation_keeps[OF ok c w]
    note ok' = keeps[THEN conjunct1] and v = keeps[THEN conjunct2]
    have "v = cp_version c" if "out = Inr v" for v
    proof -
      have "version_record_of X (st_db st') (ve_version_id (cp_version c)) = Inr (Some (cp_version c))"
        by (rule version_readable[OF ok' v])
      with shape that c show ?thesis by (auto simp: create_shape_def)
    qed
    then show thesis
      by (rule written[OF c w tb[THEN conjunct2, THEN conjunct1] tb[THEN conjunct1] ok' v])
  qed
  show thesis
  proof (cases "\<exists>c. creation_checks X (st_db st) p = Inr (Inl c)
      \<and> creation_write X c (st_db st) = Inr (st_db st')")
    case True
    then show thesis using wr by (elim exE conjE)
  next
    case False
    with shape have "st_db st' = st_db st"
      "\<And>v. out = Inr v \<Longrightarrow> creation_checks X (st_db st) p = Inr (Inr v)"
      unfolding create_shape_def by blast+
    then show thesis by (rule same)
  qed
qed

text \<open>What the completion of a creation writes beside the version and its operation.\<close>

lemma operation_event_written:
  assumes "events_ok d" "append_operation_event X i p a q v t n payload d = Inr d'"
    and "n = next_operation_event_sequence i d"
  shows "\<exists>ev en. events d' = events d @ [ev] \<and> event_envelopes d' = event_envelopes d @ [en]
    \<and> en_event_id en = ev_event_id ev \<and> ev_stream_id ev = operation_stream i \<and> ev_sequence ev = n
    \<and> en_operation_id en = Some i \<and> en_payload_json en = write_value (json_str X) payload"
proof -
  let ?e = "operation_envelope_event i p a q v t n payload"
  let ?js = "write_value (json_str X) payload"
  let ?row = "envelope_event ?e n (digest_text X ?js) ?js"
  from assms(2) obtain d1 en where ins: "insert_event ?row d = Inr d1"
    and tx: "append_event_envelope_tx X ?e d1 = Inr (en, d')"
    by (auto simp: append_operation_event_def canonical_json_value_def canonical_bytes_def Let_def)
  have row: "ev_event_id ?row = nv_event_id ?e" "nv_payload ?e = payload" "nv_operation_id ?e = Some i"
    "nv_stream_id ?e = operation_stream i" "ev_stream_id ?row = operation_stream i" "ev_sequence ?row = n"
    by (simp_all add: envelope_event_def operation_envelope_event_def)
  from ins have d1: "d1 = d\<lparr>events := events d @ [?row]\<rparr>"
    and new: "row_by ev_event_id (nv_event_id ?e) (events d) = None" by (simp_all add: insert_event_result row)
  have none: "row_by en_event_id (nv_event_id ?e) (event_envelopes d) = None"
  proof (rule ccontr)
    assume "row_by en_event_id (nv_event_id ?e) (event_envelopes d) \<noteq> None"
    then obtain x where "row_by en_event_id (nv_event_id ?e) (event_envelopes d) = Some x" by blast
    from row_by_in[OF this] row_by_key[OF this] assms(1) new show False
      by (auto simp: events_ok_def envelope_backed_def)
  qed
  have old: "row_by ev_event_id (nv_event_id ?e) (events d1) = Some ?row"
    using new row by (simp add: d1 row_by_append)
  from tx none obtain m d2 where en: "ensure_event ?e (digest_text X ?js) ?js d1 = Inr (m, d2)"
    and put: "insert_envelope en d2 = Inr d'"
    and env: "en = envelope_row ?e m (next_project_sequence (nv_project_id ?e) d2) (digest_text X ?js) ?js"
    by (auto simp: append_event_envelope_tx_def canonical_json_value_def canonical_bytes_def Let_def d1 row)
  have d2: "d2 = d1" using en old by (auto simp: ensure_event_def split: if_splits)
  have "events d' = events d @ [?row]" "event_envelopes d' = event_envelopes d @ [en]"
    using put by (simp_all add: insert_envelope_result d2 d1)
  moreover have "en_event_id en = ev_event_id ?row" "en_operation_id en = Some i" "en_payload_json en = ?js"
    by (simp_all add: env envelope_row_def row)
  ultimately show ?thesis using row(5,6) by blast
qed

definition creation_recorded :: "externals \<Rightarrow> version_publication \<Rightarrow> db \<Rightarrow> db \<Rightarrow> bool" where
  "creation_recorded X p d d' \<longleftrightarrow> (let i = vp_creation_operation_id p in
     \<exists>x. row_by op_operation_id i (operations d) = Some x \<and>
      (if op_lifecycle_status x = ''started''
       then (\<exists>j js. row_by jo_key (op_request_key x) (operation_journal d) = Some j
              \<and> row_by jo_key (op_request_key x) (operation_journal d') = Some (set_outcome ''outcome_durable'' js j))
         \<and> (\<exists>ev en digest. events d' = events d @ [ev] \<and> event_envelopes d' = event_envelopes d @ [en]
              \<and> en_event_id en = ev_event_id ev \<and> ev_stream_id ev = operation_stream i
              \<and> en_operation_id en = Some i \<and> en_payload_json en = write_value (json_str X)
                  (finished_payload i ''completed'' (op_recording_status x) digest))
       else operations d' = operations d \<and> operation_journal d' = operation_journal d
         \<and> events d' = events d \<and> event_envelopes d' = event_envelopes d))"

lemma complete_creation_log:
  assumes ok: "ledger_ok r d" and w: "complete_creation X c d = Inr d'"
  shows "\<exists>js ev en digest. operation_journal d' = update_where (\<lambda>y. jo_key y = op_request_key (cp_operation c))
        (set_outcome ''outcome_durable'' js) (operation_journal d)
    \<and> events d' = events d @ [ev] \<and> event_envelopes d' = event_envelopes d @ [en]
    \<and> en_event_id en = ev_event_id ev \<and> ev_stream_id ev = operation_stream (op_operation_id (cp_operation c))
    \<and> en_operation_id en = Some (op_operation_id (cp_operation c))
    \<and> en_payload_json en = write_value (json_str X) (finished_payload (op_operation_id (cp_operation c))
        ''completed'' (op_recording_status (cp_operation c)) digest)
    \<and> executions d' = executions d"
proof -
  let ?x = "cp_operation c"
  let ?d2 = "\<lambda>js. d\<lparr>operations := update_where (\<lambda>y. op_operation_id y = op_operation_id ?x
        \<and> op_lifecycle_status y = ''started'') (complete_row c) (operations d),
      operation_journal := update_where (\<lambda>y. jo_key y = op_request_key ?x)
        (set_outcome ''outcome_durable'' js) (operation_journal d)\<rparr>"
  have "\<exists>digest js. append_operation_event X (op_operation_id ?x) (op_project_id ?x) (op_agent_id ?x)
      (op_request_id ?x) (op_schema_version ?x) (ve_created_at (cp_version c))
      (next_operation_event_sequence (op_operation_id ?x) (?d2 js))
      (finished_payload (op_operation_id ?x) ''completed'' (op_recording_status ?x) digest) (?d2 js) = Inr d'"
    using w by (simp add: complete_creation_def Let_def split: if_splits)
      (elim exE conjE, intro exI, assumption)
  then obtain digest js where ev: "append_operation_event X (op_operation_id ?x) (op_project_id ?x)
      (op_agent_id ?x) (op_request_id ?x) (op_schema_version ?x) (ve_created_at (cp_version c))
      (next_operation_event_sequence (op_operation_id ?x) (?d2 js))
      (finished_payload (op_operation_id ?x) ''completed'' (op_recording_status ?x) digest) (?d2 js) = Inr d'"
    by (elim exE)
  have e2: "events_ok (?d2 js)" using ok by (simp add: ledger_ok_def events_ok_def)
  note log = operation_event_written[OF e2 ev refl]
  have "log_only (?d2 js) d'" using append_operation_event_result[OF e2 ev refl] ..
  then have "operation_journal d' = operation_journal (?d2 js)" "executions d' = executions (?d2 js)"
    by (rule log_only_tables)+
  with log show ?thesis by (intro exI[of _ js]) auto
qed

lemma creation_write_recorded:
  assumes ok: "ledger_ok r d" and c: "creation_checks X d p = Inr (Inl c)" and w: "creation_write X c d = Inr d'"
  shows "creation_recorded X p d d'"
proof -
  let ?x = "cp_operation c" and ?d1 = "d\<lparr>versions := versions d @ [cp_version c]\<rparr>"
  note ch = creation_checks_new(2)[OF c, unfolded creation_operation_result]
  have row: "row_by op_operation_id (vp_creation_operation_id p) (operations d) = Some ?x"
    by (rule ch[THEN conjunct1])
  then have i: "op_operation_id ?x = vp_creation_operation_id p" by (rule row_by_key)
  from w have ins: "insert_version (cp_version c) d = Inr ?d1" by (auto simp: creation_write_def insert_version_result)
  have ok1: "ledger_ok r ?d1" using ok by (simp add: ledger_ok_def events_ok_def journal_ok_def)
  show ?thesis
  proof (cases "op_lifecycle_status ?x = ''started''")
    case True
    with w ins have "complete_creation X c ?d1 = Inr d'" by (simp add: creation_write_def)
    note log = complete_creation_log[OF ok1 this]
    have "op_journaled (operation_journal d) ?x"
      using ok row_by_in[OF row] by (simp add: ledger_ok_def)
    then obtain j where j: "row_by jo_key (op_request_key ?x) (operation_journal d) = Some j"
      by (auto simp: op_journaled_def)
    with log True row i show ?thesis
      by (auto simp: creation_recorded_def Let_def row_by_update dest: row_by_key)
  next
    case False
    with w ins have "d' = ?d1" by (auto simp: creation_write_def split: if_splits)
    with False row show ?thesis by (simp add: creation_recorded_def Let_def)
  qed
qed

text \<open>
  C5. Creating a version is one step, whatever failpoint is armed: either the database is the
  one before, or a new version is there, appended to the others, together with its operation
  completed and its result naming it; if the operation was only started before, the journal row
  of its request has the durable outcome and the completion event and its envelope are the last
  of the log, and if it was completed already, ledger, journal and log are as they were. In all
  cases every version still satisfies the store's invariant, and a call that returns a version
  leaves that version durable.
\<close>

theorem create_version_atomic:
  assumes "ledger_ok (st_redactor st) (st_db st)" "versions_ok X (st_db st)"
    and "create_version X st p = (out, st')"
  shows "ledger_ok (st_redactor st) (st_db st') \<and> versions_ok X (st_db st')
    \<and> (st_db st' = st_db st
       \<or> (\<exists>v. versions (st_db st') = versions (st_db st) @ [v]
            \<and> version_durable X (st_db st') p v \<and> creation_recorded X p (st_db st) (st_db st')))
    \<and> (\<forall>v. out = Inr v \<longrightarrow> version_durable X (st_db st') p v)"
  using assms(3,1,2)
proof (cases rule: create_version_cases)
  case same
  have "version_durable X (st_db st') p v" if "out = Inr v" for v
  proof -
    note old = creation_checks_old[OF same(2)[OF that]]
    then have row: "row_by ve_creation_operation_id (vp_creation_operation_id p) (versions (st_db st)) = Some v"
      by (rule conjunct1)
    have uq: "unique_by ve_version_id (versions (st_db st))" using assms(2) by (simp add: versions_ok_def)
    from old obtain h i where v: "v = version_row h i p" by (elim conjE exE)
    show ?thesis unfolding same(1)
      by (rule stored_version_durable[OF assms(2) row_by_unique[OF uq row_by_in[OF row]]])
        (simp_all add: v)
  qed
  with same(1) assms(1,2) show ?thesis by simp
next
  case (written c)
  from creation_checks_new(1)[OF written(1)] obtain i where
    v: "cp_version c = version_row (ve_version_id (cp_version c)) i p" by (elim exE conjE)
  have dur: "version_durable X (st_db st') p (cp_version c)"
    by (rule stored_version_durable[OF written(5,6)]) (subst v, simp)+
  with creation_write_recorded[OF assms(1) written(1,2)]
  have "\<exists>v. versions (st_db st') = versions (st_db st) @ [v] \<and> version_durable X (st_db st') p v
      \<and> creation_recorded X p (st_db st) (st_db st')"
    using written(3) by (intro exI[of _ "cp_version c"] conjI)
  with dur written(4,5,7) show ?thesis by blast
qed

lemma creation_checks_valid: "creation_checks X d p = Inr z \<Longrightarrow> validate_version_publication p = Inr ()"
  by (simp add: creation_checks_def)

lemma result_references_snapshot:
  "operation_result_matches_version x v \<Longrightarrow> operation_references_snapshot x (ve_snapshot_id v)"
  by (simp add: operation_result_matches_version_def)

lemma creation_checks_again:
  assumes ok: "ledger_ok r d" and c: "creation_checks X d p = Inr (Inl c)"
    and w: "creation_write X c d = Inr d'" and ok': "versions_ok X d'"
    and vs: "versions d' = versions d @ [cp_version c]"
  shows "creation_checks X d' p = Inr (Inr (cp_version c))"
proof -
  let ?v = "cp_version c"
  note ch = creation_checks_new[OF c]
  from ch(1) obtain i where i: "projection_identity d = Inr i"
    and id: "version_identity_id X (vp_project_id p) (vp_workspace_id p) (vp_snapshot_id p)
          (vp_creation_operation_id p) = Inr (ve_version_id ?v)"
    and s: "creation_snapshot p i d = Inr (cp_snapshot c)"
    and v: "?v = version_row (ve_version_id ?v) i p" by (elim exE conjE)
  note x = ch(2)[unfolded creation_operation_result]
  have oid: "op_operation_id (cp_operation c) = vp_creation_operation_id p"
    by (rule row_by_key[OF x[THEN conjunct1]])
  then have row: "row_by op_operation_id (op_operation_id (cp_operation c)) (operations d) = Some (cp_operation c)"
    using x[THEN conjunct1] by simp
  note tb = creation_write_tables[OF ok w row]
  from tb have ws: "workspaces d' = workspaces d" and sn: "snapshots d' = snapshots d"
    and hk: "history_kept d d'" by simp_all
  have meta: "repository_meta d' = repository_meta d" using hk by (simp add: history_kept_def)
  have fields: "ve_project_id ?v = vp_project_id p" "ve_workspace_id ?v = vp_workspace_id p"
    "ve_snapshot_id ?v = vp_snapshot_id p" "ve_creation_operation_id ?v = vp_creation_operation_id p"
    "ve_environment_id ?v = vp_environment_id p" "ve_parent_version_id ?v = vp_parent_version_id p"
    by (subst v, simp)+
  have "version_good X d' ?v" using ok' vs by (simp add: versions_ok_def)
  then obtain s' y where s': "row_by sn_snapshot_id (vp_snapshot_id p) (snapshots d') = Some s'"
    and y: "row_by op_operation_id (vp_creation_operation_id p) (operations d') = Some y"
    and val: "validate_version_row X ?v s' y (stored_identity d') = Inr ()"
    unfolding version_good_def fields by (elim exE conjE)
  have s_eq: "s' = cp_snapshot c" using s' s sn by (simp add: creation_snapshot_result)
  note good = val[unfolded validate_version_row_ok]
  have op: "creation_operation p d' = Inr y"
    using good y result_references_snapshot[of y ?v] fields by (simp add: creation_operation_result)
  have new: "row_by ve_creation_operation_id (vp_creation_operation_id p) (versions d') = Some ?v"
    using ch(6) by (simp add: vs row_by_append fields)
  have "creation_workspace p d' = Inr ()" "creation_snapshot p i d' = Inr (cp_snapshot c)"
    "projection_identity d' = Inr i"
    using ch(3) s i identity_kept[OF meta] by (simp_all add: creation_workspace_def creation_snapshot_def ws sn)
  moreover have "validate_version_row_transaction X d' ?v (cp_snapshot c) y = Inr ()"
    using val by (simp add: validate_version_row_transaction_def s_eq)
  ultimately show ?thesis
    using id op new v creation_checks_valid[OF c] by (simp add: creation_checks_def Let_def)
qed

text \<open>
  A creation that has become durable answers its retry: whether or not the caller was told,
  and whatever failpoint is armed the second time, the same request returns the version that is
  there and changes nothing.
\<close>

lemma create_version_retry:
  assumes "ledger_ok (st_redactor st) (st_db st)" "versions_ok X (st_db st)"
    and "st1 = snd (create_version X st p)" "st_db st1 \<noteq> st_db st"
  shows "\<exists>v. versions (st_db st1) = versions (st_db st) @ [v] \<and> version_durable X (st_db st1) p v
    \<and> create_version X (with_failpoint fp st1) p = (Inr v, with_failpoint fp st1)"
proof -
  obtain out where run: "create_version X st p = (out, st1)" using assms(3) by (cases "create_version X st p") simp
  show ?thesis using run assms(1,2)
  proof (cases rule: create_version_cases)
    case same
    with assms(4) show ?thesis by simp
  next
    case (written c)
    have again: "creation_checks X (st_db st1) p = Inr (Inr (cp_version c))"
      by (rule creation_checks_again[OF assms(1) written(1,2,5,3)])
    from creation_checks_new(1)[OF written(1)] obtain i where
      v: "cp_version c = version_row (ve_version_id (cp_version c)) i p" by (elim exE conjE)
    have "version_durable X (st_db st1) p (cp_version c)"
      by (rule stored_version_durable[OF written(5,6)]) (subst v, simp)+
    moreover have "create_version X (with_failpoint fp st1) p = (Inr (cp_version c), with_failpoint fp st1)"
      using again by (simp add: create_version_def)
    ultimately show ?thesis using written(3) by blast
  qed
qed

section \<open>The Version Head of a workspace\<close>

text \<open>A selected version exists and belongs to the workspace that selects it.\<close>

definition heads_ok :: "db \<Rightarrow> bool" where
  "heads_ok d \<longleftrightarrow> (\<forall>w \<in> set (workspaces d). \<forall>i. ws_version_head_id w = Some i \<longrightarrow>
     (\<exists>v. row_by ve_version_id i (versions d) = Some v \<and> ve_workspace_id v = ws_workspace_id w
        \<and> ve_project_id v = ws_project_id w))"

lemma select_version_simps [simp]:
  "ws_workspace_id (select_version i u w) = ws_workspace_id w"
  "ws_project_id (select_version i u w) = ws_project_id w"
  "ws_environment_id (select_version i u w) = ws_environment_id w"
  "ws_status (select_version i u w) = ws_status w" "ws_head (select_version i u w) = ws_head w"
  "ws_version_head_id (select_version i u w) = i" "ws_revision (select_version i u w) = ws_revision w + 1"
  by (simp_all add: select_version_def)

lemma check_target_found:
  assumes "check_target X d (Some i) w = Inr ()"
  shows "\<exists>v. row_by ve_version_id i (versions d) = Some v \<and> head_scope v w"
  using assms by (auto simp: check_target_def version_for_workspace_transaction_def
      split: option.splits if_splits)

lemma set_head_commit:
  assumes "set_version_head_tx X r q d = Inr (Commit d' k)"
  obtains w where "row_by ws_workspace_id (hq_workspace_id q) (workspaces d) = Some w"
    and "lease_live d (hq_lease q) (hq_now_ms q)" and "check_target X d (hq_version_id q) w = Inr ()"
    and "ws_revision w = hq_expected_revision q"
    and "d' = d\<lparr>workspaces := update_where (at_revision (hq_workspace_id q) (hq_expected_revision q))
           (select_version (hq_version_id q) (hq_updated_at q)) (workspaces d)\<rparr>"
    and "k = (\<lambda>d'. case workspace_by r d' (hq_workspace_id q) of
           None \<Rightarrow> Inl (Integrity ''workspace disappeared after Version Head update'') | Some w' \<Rightarrow> Inr w')"
proof -
  obtain w where w: "row_by ws_workspace_id (hq_workspace_id q) (workspaces d) = Some w"
    using assms by (cases "row_by ws_workspace_id (hq_workspace_id q) (workspaces d)")
      (simp_all add: set_version_head_tx_def)
  then show thesis
    using assms by (intro that[OF w]) (auto simp: set_version_head_tx_def split: if_splits)
qed

lemma selected_row:
  "row_by ws_workspace_id i (update_where (at_revision j n) (select_version v u) ws) =
    map_option (\<lambda>w. if at_revision j n w then select_version v u w else w) (row_by ws_workspace_id i ws)"
  by (simp add: row_by_update option.case_eq_if map_option_case)

lemma set_head_keeps:
  assumes ok: "workspaces_ok r d" "heads_ok d" and body: "set_version_head_tx X r q d = Inr (Commit d' k)"
  shows "workspaces_ok r d' \<and> heads_ok d'"
proof -
  let ?p = "at_revision (hq_workspace_id q) (hq_expected_revision q)"
    and ?f = "select_version (hq_version_id q) (hq_updated_at q)"
  obtain w where w: "row_by ws_workspace_id (hq_workspace_id q) (workspaces d) = Some w"
    and target: "check_target X d (hq_version_id q) w = Inr ()"
    and d': "d' = d\<lparr>workspaces := update_where ?p ?f (workspaces d)\<rparr>" by (rule set_head_commit[OF body])
  have uq: "unique_by ws_workspace_id (workspaces d)" using ok(1) by (simp add: workspaces_ok_def)
  have ready: "\<forall>x \<in> set (update_where ?p ?f (workspaces d)). workspace_ready_ok x \<and> workspace_env_ok (environments d) x"
    by (rule update_where_all) (use ok(1) in \<open>simp_all add: workspaces_ok_def workspace_ready_ok_def
        workspace_env_ok_def\<close>)
  have "leases_ok d'"
    by (rule leases_ok_more[of d]) (use ok(1) in \<open>simp_all add: d' workspaces_ok_def selected_row\<close>)
  with ready ok(1) uq have "workspaces_ok r d'"
    by (simp add: workspaces_ok_def) (simp add: d' unique_by_update)
  moreover have "heads_ok d'" unfolding heads_ok_def
  proof (intro ballI allI impI)
    fix x i assume x: "x \<in> set (workspaces d')" and i: "ws_version_head_id x = Some i"
    from x obtain y where y: "y \<in> set (workspaces d)" "x = (if ?p y then ?f y else y)"
      by (auto simp: d' update_where_in)
    have vs: "versions d' = versions d" by (simp add: d')
    show "\<exists>v. row_by ve_version_id i (versions d') = Some v \<and> ve_workspace_id v = ws_workspace_id x
        \<and> ve_project_id v = ws_project_id x"
    proof (cases "?p y")
      case True
      then have "y = w" using w row_by_unique[OF uq y(1)] by (simp add: at_revision_def)
      with True i y(2) target check_target_found[of X d i w] show ?thesis
        by (auto simp: vs head_scope_def)
    next
      case False
      with y i ok(2) show ?thesis by (simp add: heads_ok_def vs)
    qed
  qed
  ultimately show ?thesis ..
qed

interpretation set_head: store_op BeforeSqliteCommit AfterSqliteCommit
  set_version_head_prep "set_version_head_tx X" "\<lambda>r d. workspaces_ok r d \<and> heads_ok d" for X
  by unfold_locales (use set_head_keeps in blast)

lemma current_selected:
  assumes ok: "versions_ok X d" and w: "workspace_by r d j = Some w"
    and target: "check_target X d (ws_version_head_id w) w = Inr ()"
  shows "\<exists>out. get_current_version X r d j = Inr out \<and> map_option ve_version_id out = ws_version_head_id w"
proof (cases "ws_version_head_id w")
  case (Some i)
  with target obtain v where v: "row_by ve_version_id i (versions d) = Some v" "head_scope v w"
    using check_target_found by metis
  have "ve_version_id v = i" by (rule row_by_key[OF v(1)])
  with Some w v version_readable[OF ok v(1)] show ?thesis by (simp add: get_current_version_def)
qed (simp add: get_current_version_def w)

lemma check_target_ok:
  assumes ok: "versions_ok X d" and v: "row_by ve_version_id j (versions d) = Some v" "head_scope v w"
  shows "check_target X d (Some j) w = Inr ()"
proof -
  have in': "v \<in> set (versions d)" using row_by_in[OF v(1)] .
  then have "version_good X d v" using ok by (simp add: versions_ok_def)
  with parent_checks_succeed(2)[OF ok in'] v row_by_key[OF v(1)] show ?thesis
    by (auto simp: check_target_def version_for_workspace_transaction_def version_good_def
        validate_version_row_transaction_def)
qed

lemma check_target_same:
  assumes ok: "versions_ok X d'" "versions d' = versions d" and target: "check_target X d i w = Inr ()"
    and w': "ws_workspace_id w' = ws_workspace_id w" "ws_project_id w' = ws_project_id w"
      "ws_environment_id w' = ws_environment_id w"
  shows "check_target X d' i w' = Inr ()"
proof (cases i)
  case (Some j)
  with target obtain v where v: "row_by ve_version_id j (versions d) = Some v" "head_scope v w"
    using check_target_found by metis
  then have "head_scope v w'" using w' by (simp add: head_scope_def)
  with v(1) ok Some check_target_ok[OF ok(1)] show ?thesis by simp
qed (simp add: check_target_def)

lemma set_head_finished:
  assumes "set_version_head_tx X r q d = Inr (Finished w)"
  shows "row_by ws_workspace_id (hq_workspace_id q) (workspaces d) = Some w
    \<and> lease_live d (hq_lease q) (hq_now_ms q) \<and> check_target X d (hq_version_id q) w = Inr ()
    \<and> ws_version_head_id w = hq_version_id q
    \<and> ws_revision w \<in> {hq_expected_revision q, hq_expected_revision q + 1}"
  using assms by (auto simp: set_version_head_tx_def checked_add_def split: option.splits if_splits)

text \<open>
  Selecting a version that succeeds was made under a live lease of the workspace and at its
  current revision, or the revision after it when the selection was already the requested one.
  Reading the current version then gives the selected one, or none when the selection was
  cleared, and the revision has advanced by at most one.
\<close>

lemma set_version_head_selects:
  assumes "workspaces_ok (st_redactor st) (st_db st)" "versions_ok X (st_db st)"
    and "set_version_head X st q = (Inr w, st')"
  shows "lease_live (st_db st) (redact_token (st_redactor st) (hq_lease q)) (hq_now_ms q)
    \<and> workspace_by (st_redactor st) (st_db st') (hq_workspace_id q) = Some w
    \<and> ws_version_head_id w = redact_opt (st_redactor st) (hq_version_id q)
    \<and> ws_revision w \<in> {hq_expected_revision q, hq_expected_revision q + 1}
    \<and> (\<exists>out. get_current_version X (st_redactor st) (st_db st') (hq_workspace_id q) = Inr out
        \<and> map_option ve_version_id out = redact_opt (st_redactor st) (hq_version_id q))"
proof -
  let ?r = "st_redactor st" and ?d = "st_db st" and ?d' = "st_db st'"
  let ?i = "redact_text ?r (hq_workspace_id q)"
  from run_op_success[OF assms(3)[unfolded set_version_head_def]]
  obtain c where prep: "set_version_head_prep ?r q = Inr c"
    and ran: "(set_version_head_tx X ?r c ?d = Inr (Finished w) \<and> st' = st)
      \<or> (\<exists>k. set_version_head_tx X ?r c ?d = Inr (Commit ?d' k) \<and> k ?d' = Inr w)" by (elim exE conjE)
  have c: "hq_workspace_id c = ?i" "hq_version_id c = redact_opt ?r (hq_version_id q)"
    "hq_lease c = redact_token ?r (hq_lease q)" "hq_expected_revision c = hq_expected_revision q"
    "hq_now_ms c = hq_now_ms q"
    using prep by (auto simp: set_version_head_prep_def split: if_splits)
  have safe: "safe_policy ?r" using assms(1) by (simp add: workspaces_ok_def)
  have result: "?thesis" if row: "workspace_by ?r ?d' (hq_workspace_id q) = Some w"
    and ok': "versions_ok X ?d'" and target: "check_target X ?d' (ws_version_head_id w) w = Inr ()"
    and head: "ws_version_head_id w = hq_version_id c"
    and rest: "lease_live ?d (hq_lease c) (hq_now_ms c)"
      "ws_revision w \<in> {hq_expected_revision c, hq_expected_revision c + 1}"
    using current_selected[OF ok' row target] row head rest by (simp add: c)
  from ran show ?thesis
  proof (elim disjE exE conjE)
    assume "set_version_head_tx X ?r c ?d = Inr (Finished w)" and st': "st' = st"
    note f = set_head_finished[OF this(1)]
    show ?thesis by (rule result) (use f assms(2) in \<open>simp_all add: st' workspace_by_def c\<close>)
  next
    fix k assume body: "set_version_head_tx X ?r c ?d = Inr (Commit ?d' k)" and k: "k ?d' = Inr w"
    obtain w0 where w0: "row_by ws_workspace_id (hq_workspace_id c) (workspaces ?d) = Some w0"
      and live: "lease_live ?d (hq_lease c) (hq_now_ms c)" and target: "check_target X ?d (hq_version_id c) w0 = Inr ()"
      and rev: "ws_revision w0 = hq_expected_revision c"
      and d': "?d' = ?d\<lparr>workspaces := update_where (at_revision (hq_workspace_id c) (hq_expected_revision c))
           (select_version (hq_version_id c) (hq_updated_at c)) (workspaces ?d)\<rparr>"
      and kd: "k = (\<lambda>d'. case workspace_by ?r d' (hq_workspace_id c) of
           None \<Rightarrow> Inl (Integrity ''workspace disappeared after Version Head update'') | Some w' \<Rightarrow> Inr w')"
      by (rule set_head_commit[OF body])
    let ?w = "select_version (hq_version_id c) (hq_updated_at c) w0"
    have ws: "workspaces ?d' = update_where (at_revision (hq_workspace_id c) (hq_expected_revision c))
           (select_version (hq_version_id c) (hq_updated_at c)) (workspaces ?d)" by (subst d') simp
    have vs: "versions ?d' = versions ?d" by (subst d') simp
    have hk: "history_kept ?d ?d'" by (subst d') (rule history_kept_same; simp)
    have row: "row_by ws_workspace_id ?i (workspaces ?d') = Some ?w"
      using w0 rev row_by_key[OF w0] unfolding ws selected_row c(1) by (simp add: at_revision_def c(1))
    have "w = ?w" using k row by (simp add: kd workspace_by_def c(1) redact_idem[OF safe])
    moreover have ok': "versions_ok X ?d'" by (rule versions_ok_kept[OF hk vs assms(2)])
    moreover have "check_target X ?d' (hq_version_id c) ?w = Inr ()"
      by (rule check_target_same[OF ok' vs target]) simp_all
    ultimately show ?thesis
      by (intro result) (use row live rev in \<open>simp_all add: workspace_by_def\<close>)
  qed
qed

section \<open>The properties at a concrete store\<close>

text \<open>A published snapshot and a started operation that is to make a version of it.\<close>

definition sample_creation :: version_publication where
  "sample_creation = \<lparr>vp_workspace_id = ''w1'', vp_project_id = ''p1'', vp_snapshot_id = ''snp-1'',
     vp_creation_operation_id = ''o1'', vp_environment_id = Some ''e1'', vp_created_at = ''d2'',
     vp_parent_version_id = None\<rparr>"

definition sample_creating :: operation_record where
  "sample_creating = started_row default_redactor (sample_envelope\<lparr>ov_workspace_id := Some ''w1'',
     ov_environment_id := Some ''e1'', ov_action := ''version.create'', ov_input_refs :=
       [\<lparr>of_kind = ''snapshot'', of_reference = ''snp-1'', of_media_type = None\<rparr>]\<rparr>) ''h1''"

definition sample_snapshot :: snapshot_record where
  "sample_snapshot = snapshot_row default_redactor (''legacy-v0.1'', ''legacy'') sample_publication"

definition sample_creator :: metadata_store where
  "sample_creator = (open_store default_redactor)\<lparr>st_db := (empty_db default_redactor)
     \<lparr>operation_journal := [sample_entry ''intent_durable''], operations := [sample_creating],
      workspaces := [sample_ready], workspace_leases := [sample_lease ''a1'' 1 0],
      environments := [\<lparr>er_environment_id = ''e1'', er_project_id = ''p1'', er_fingerprint = ''h'',
        er_facts_json = ''null'', er_created_at = ''d1''\<rparr>], snapshots := [sample_snapshot]\<rparr>\<rparr>"

lemma sample_creator_simps [simp]:
  "operations (st_db sample_creator) = [sample_creating]"
  "operation_journal (st_db sample_creator) = [sample_entry ''intent_durable'']"
  "workspaces (st_db sample_creator) = [sample_ready]" "snapshots (st_db sample_creator) = [sample_snapshot]"
  "versions (st_db sample_creator) = []" "event_envelopes (st_db sample_creator) = []"
  "events (st_db sample_creator) = []" "st_redactor sample_creator = default_redactor"
  "projection_identity (st_db sample_creator) = Inr (''legacy-v0.1'', ''legacy'')"
  "stored_identity (st_db sample_creator) = (''legacy-v0.1'', ''legacy'')"
  by (simp_all add: sample_creator_def empty_db_def projection_identity_def stored_identity_def
      generation_identity_def meta_value_def)

lemma sample_creator_ok:
  "ledger_ok default_redactor (st_db sample_creator)" "versions_ok X (st_db sample_creator)"
  "workspaces_ok default_redactor (st_db sample_creator)"
proof -
  show "workspaces_ok default_redactor (st_db sample_creator)"
    by (simp add: workspaces_ok_def leases_ok_def unique_by_def)
      (simp add: sample_creator_def sample_ready_def sample_workspace_def sample_lease_def
        workspace_ready_ok_def workspace_env_ok_def)
  have "op_consistent sample_creating" by (simp only: sample_creating_def started_row_consistent)
  then show "ledger_ok default_redactor (st_db sample_creator)"
    by (simp add: ledger_ok_def journal_ok_def events_ok_def unique_by_def op_journaled_def)
      (simp add: sample_entry_def jo_key_def sample_creating_def sample_envelope_def)
  show "versions_ok X (st_db sample_creator)" by (simp add: versions_ok_def unique_by_def)
qed

lemma version_domain: "validate_domain ''version/identity/v1'' = Inr ()"
  by code_simp

lemma sample_creation_valid: "validate_version_publication sample_creation = Inr ()"
proof -
  have "starts_with ''snp-1'' ''snp-''" by code_simp
  then show ?thesis
    by (simp add: validate_version_publication_def sample_creation_def validate_labelled_def
        sample_publication_texts valid_samples del: check_all.simps)
qed

lemma sample_creation_checked:
  "\<exists>c. creation_checks sample_externals (st_db sample_creator) sample_creation = Inr (Inl c)
    \<and> cp_operation c = sample_creating \<and> cp_snapshot c = sample_snapshot
    \<and> ve_created_at (cp_version c) = ''d2''"
proof -
  obtain h where h: "version_identity_id sample_externals ''p1'' ''w1'' ''snp-1'' ''o1'' = Inr h"
    using version_domain by (simp add: version_identity_id_def canonical_digest_def canonical_bytes_def)
  have snap: "creation_snapshot sample_creation (''legacy-v0.1'', ''legacy'') (st_db sample_creator)
      = Inr sample_snapshot"
    by (simp add: creation_snapshot_result) (simp add: sample_snapshot_def sample_creation_def
        snapshot_row_def sample_publication_def)
  have op: "creation_operation sample_creation (st_db sample_creator) = Inr sample_creating"
    by (simp add: creation_operation_result) (simp add: sample_creating_def sample_envelope_def
        started_row_def sample_creation_def operation_references_snapshot_def ref_is_def)
  have ws: "creation_workspace sample_creation (st_db sample_creator) = Inr ()"
    by (simp add: creation_workspace_def) (simp add: sample_creation_def sample_ready_def sample_workspace_def)
  have p: "vp_project_id sample_creation = ''p1''" "vp_workspace_id sample_creation = ''w1''"
    "vp_snapshot_id sample_creation = ''snp-1''" "vp_creation_operation_id sample_creation = ''o1''"
    "vp_parent_version_id sample_creation = None" "vp_created_at sample_creation = ''d2''"
    by (simp_all add: sample_creation_def)
  show ?thesis
    using h by (simp add: creation_checks_def sample_creation_valid ws snap op p Let_def
        validate_parent_transaction_def)
qed

lemma sample_creating_simps [simp]:
  "op_operation_id sample_creating = ''o1''" "op_request_key sample_creating = (''p1'', ''a1'', ''r1'')"
  "op_lifecycle_status sample_creating = ''started''" "op_project_id sample_creating = ''p1''"
  "op_agent_id sample_creating = ''a1''" "op_request_id sample_creating = ''r1''"
  "op_schema_version sample_creating = ''1''" "op_recording_status sample_creating = ''durable''"
  by (simp_all add: sample_creating_def sample_envelope_def started_row_def op_request_key_def)

text \<open>The creation goes through, and an armed failpoint hides it or prevents it.\<close>

lemma sample_completion_runs:
  assumes c: "cp_operation c = sample_creating" "ve_created_at (cp_version c) = ''d2''"
  shows "\<exists>d'. complete_creation sample_externals c
    ((st_db sample_creator)\<lparr>versions := [cp_version c]\<rparr>) = Inr d'"
proof -
  let ?X = sample_externals and ?d = "(st_db sample_creator)\<lparr>versions := [cp_version c]\<rparr>"
  obtain h where h: "operation_value_digest ?X (operation_outcome_value (version_outcome c)) = Inr h"
    using value_domain by (simp add: operation_value_digest_def canonical_digest_def canonical_bytes_def)
  obtain js where js: "canonical_json_value ?X (outcome_payload ''o1'' (version_outcome c) h) = Inr js"
    by (simp add: canonical_json_value_def canonical_bytes_def)
  let ?d1 = "?d\<lparr>operations := [complete_row c sample_creating]\<rparr>"
  let ?d2 = "?d1\<lparr>operation_journal := [set_outcome ''outcome_durable'' js (sample_entry ''intent_durable'')]\<rparr>"
  have log: "events ?d2 = []" "event_envelopes ?d2 = []" by simp_all
  from first_operation_event[OF log sample_event_valid[of "''completed''" h], of ?X]
  obtain d3 where d3: "append_operation_event ?X ''o1'' ''p1'' ''a1'' ''r1'' ''1'' ''d2'' 1
      (finished_payload ''o1'' ''completed'' ''durable'' h) ?d2 = Inr d3" by (elim exE)
  have key: "jo_key (sample_entry ''intent_durable'') = (''p1'', ''a1'', ''r1'')"
    by (simp add: sample_entry_def jo_key_def)
  have seq: "next_operation_event_sequence ''o1'' ?d2 = 1"
    by (simp add: next_operation_event_sequence_def next_sequence_def next_number_def)
  show ?thesis
    using h js d3 by (simp add: complete_creation_def c Let_def count_rows_def key seq update_where_def)
qed

lemma sample_creation_runs:
  assumes "fp \<in> {None, Some AfterOperationFinishCommit}"
  shows "st_db (snd (create_version sample_externals (with_failpoint fp sample_creator) sample_creation))
    \<noteq> st_db sample_creator"
proof -
  let ?X = sample_externals and ?st = "with_failpoint fp sample_creator"
  obtain c where c: "creation_checks ?X (st_db sample_creator) sample_creation = Inr (Inl c)"
    "cp_operation c = sample_creating" "cp_snapshot c = sample_snapshot" "ve_created_at (cp_version c) = ''d2''"
    using sample_creation_checked by (elim exE conjE)
  have par: "ve_parent_version_id (cp_version c) = None"
    using creation_checks_new(1)[OF c(1)] by (elim exE conjE) (metis version_row_simps(10) sample_creation_def
        version_publication.select_convs(7))
  let ?d1 = "(st_db sample_creator)\<lparr>versions := [cp_version c]\<rparr>"
  have ins: "insert_version (cp_version c) (st_db sample_creator) = Inr ?d1"
    by (simp add: insert_version_def par)
  obtain d2 where cc: "complete_creation ?X c ?d1 = Inr d2" using sample_completion_runs[OF c(2,4)] by (elim exE)
  have "creation_write ?X c (st_db sample_creator) = Inr d2"
    by (simp add: creation_write_def ins c(2) cc)
  from creation_write_tables[OF sample_creator_ok(1) this] have vs: "versions d2 = [cp_version c]"
    by (simp add: c(2))
  have "st_db (snd (create_version ?X ?st sample_creation)) = d2"
    using assms by (auto simp: create_version_def c ins cc Let_def commit_version_def pass_def
        inject_before_commit_def inject_after_commit_def inject_def take_if_def attempt_def
        split: sum.split option.split)
  moreover have "versions d2 \<noteq> versions (st_db sample_creator)" by (simp add: vs)
  ultimately show ?thesis by metis
qed

theorem create_version_atomic_witness:
  "\<exists>v j ev. let st' = snd (create_version sample_externals
      (with_failpoint (Some AfterOperationFinishCommit) sample_creator) sample_creation)
    in versions (st_db st') = [v] \<and> ve_snapshot_id v = ''snp-1''
      \<and> row_by jo_key (''p1'', ''a1'', ''r1'') (operation_journal (st_db st')) = Some j
      \<and> jo_phase j = ''outcome_durable''
      \<and> events (st_db st') = [ev] \<and> ev_stream_id ev = operation_stream ''o1''"
proof -
  let ?st = "with_failpoint (Some AfterOperationFinishCommit) sample_creator"
  have ok: "ledger_ok (st_redactor ?st) (st_db ?st)" "versions_ok sample_externals (st_db ?st)"
    using sample_creator_ok by simp_all
  obtain out st' where run: "create_version sample_externals ?st sample_creation = (out, st')"
    by (cases "create_version sample_externals ?st sample_creation")
  have "st_db st' \<noteq> st_db ?st"
    using sample_creation_runs[of "Some AfterOperationFinishCommit"] by (simp add: run)
  with create_version_atomic[OF ok run] obtain v where
    v: "versions (st_db st') = versions (st_db ?st) @ [v]" "version_durable sample_externals (st_db st') sample_creation v"
    "creation_recorded sample_externals sample_creation (st_db ?st) (st_db st')"
    by blast
  have c: "vp_creation_operation_id sample_creation = ''o1''" "op_operation_id sample_creating = ''o1''"
    "op_request_key sample_creating = (''p1'', ''a1'', ''r1'')" "vp_snapshot_id sample_creation = ''snp-1''"
    "op_lifecycle_status sample_creating = ''started''"
    by (simp_all add: sample_creation_def sample_creating_def sample_envelope_def)
  from v(3) obtain j js ev where
    j: "row_by jo_key (''p1'', ''a1'', ''r1'') (operation_journal (st_db st')) = Some (set_outcome ''outcome_durable'' js j)"
    and ev: "events (st_db st') = [ev]" "ev_stream_id ev = operation_stream ''o1''"
    by (simp add: creation_recorded_def Let_def c) (elim exE conjE, simp)
  from v(1,2) have "versions (st_db st') = [v]" "ve_snapshot_id v = ''snp-1''"
    by (simp_all add: version_durable_def c)
  with j ev show ?thesis
    by (intro exI[of _ v] exI[of _ "set_outcome ''outcome_durable'' js j"] exI[of _ ev]) (simp add: run)
qed

lemma create_version_retry_witness:
  "let st1 = snd (create_version sample_externals
      (with_failpoint (Some AfterOperationFinishCommit) sample_creator) sample_creation)
   in \<exists>v. versions (st_db st1) = [v]
      \<and> create_version sample_externals (with_failpoint None st1) sample_creation = (Inr v, with_failpoint None st1)"
  using create_version_retry[OF _ _ refl, of "with_failpoint (Some AfterOperationFinishCommit) sample_creator"
      sample_externals sample_creation None]
    sample_creation_runs[of "Some AfterOperationFinishCommit"] sample_creator_ok
  by (simp add: Let_def) blast

text \<open>The created version is then selected, under the lease of the workspace.\<close>

definition sample_selection :: "utf8 \<Rightarrow> head_request" where
  "sample_selection i = \<lparr>hq_workspace_id = ''w1'', hq_version_id = Some i,
     hq_lease = lease_token_of (sample_lease ''a1'' 1 0), hq_expected_revision = 0,
     hq_updated_at = ''d2'', hq_now_ms = 5\<rparr>"

lemma sample_created:
  obtains st :: metadata_store and v where "workspaces_ok (st_redactor st) (st_db st)" "versions_ok sample_externals (st_db st)"
    "st_redactor st = default_redactor" "st_failpoints st = None" "workspaces (st_db st) = [sample_ready]"
    "workspace_leases (st_db st) = [sample_lease ''a1'' 1 0]"
    "row_by ve_version_id (ve_version_id v) (versions (st_db st)) = Some v" "head_scope v sample_ready"
proof -
  let ?X = sample_externals and ?st = "with_failpoint None sample_creator"
  obtain out st' where run: "create_version ?X ?st sample_creation = (out, st')"
    by (cases "create_version ?X ?st sample_creation")
  have ok: "ledger_ok (st_redactor ?st) (st_db ?st)" "versions_ok ?X (st_db ?st)" using sample_creator_ok by simp_all
  have ne: "st_db st' \<noteq> st_db ?st" using sample_creation_runs[of None] by (simp add: run)
  show ?thesis using run ok
  proof (cases rule: create_version_cases)
    case same
    with ne show ?thesis by simp
  next
    case (written c)
    from written(1) sample_creation_checked have c: "cp_operation c = sample_creating" by auto
    have tb: "workspaces (st_db st') = [sample_ready]" "environments (st_db st') = environments (st_db sample_creator)"
      "workspace_leases (st_db st') = workspace_leases (st_db sample_creator)"
      using creation_write_tables[OF ok(1) written(2)] by (simp_all add: c)
    let ?st2 = "sample_creator\<lparr>st_db := st_db st', st_failpoints := None\<rparr>"
    from creation_checks_new(1)[OF written(1)] obtain i where
      v: "cp_version c = version_row (ve_version_id (cp_version c)) i sample_creation" by (elim exE conjE)
    have f: "ve_workspace_id (cp_version c) = ''w1''" "ve_project_id (cp_version c) = ''p1''"
      "ve_environment_id (cp_version c) = Some ''e1''"
      by (subst v, simp add: sample_creation_def)+
    then have scope: "head_scope (cp_version c) sample_ready"
      by (simp add: head_scope_def sample_ready_def sample_workspace_def)
    show ?thesis
    proof (rule that[of ?st2 "cp_version c"])
      show "workspaces_ok (st_redactor ?st2) (st_db ?st2)"
        using sample_creator_ok(3) tb by (simp add: workspaces_ok_def leases_ok_def)
      show "workspace_leases (st_db ?st2) = [sample_lease ''a1'' 1 0]" using tb by (simp add: sample_creator_def)
    qed (use written tb scope in simp_all)
  qed
qed

lemma set_version_head_selects_witness:
  "\<exists>st i w. ws_version_head_id sample_ready = None
    \<and> fst (set_version_head sample_externals st (sample_selection i)) = Inr w \<and> ws_version_head_id w = Some i"
proof -
  let ?X = sample_externals
  obtain st :: metadata_store and v where
    ok: "workspaces_ok (st_redactor st) (st_db st)" "versions_ok ?X (st_db st)"
    and st: "st_redactor st = default_redactor" "st_failpoints st = None" "workspaces (st_db st) = [sample_ready]"
      "workspace_leases (st_db st) = [sample_lease ''a1'' 1 0]"
    and v: "row_by ve_version_id (ve_version_id v) (versions (st_db st)) = Some v" "head_scope v sample_ready"
    by (rule sample_created)
  let ?q = "sample_selection (ve_version_id v)"
  have prep: "set_version_head_prep default_redactor ?q = Inr ?q"
    by (simp add: set_version_head_prep_def sample_selection_def valid_samples redact_opt_def
        redact_token_def lease_token_of_def sample_lease_def)
  have target: "check_target ?X (st_db st) (Some (ve_version_id v)) sample_ready = Inr ()"
    by (rule check_target_ok[OF ok(2) v])
  have ready: "ws_version_head_id sample_ready = None" "ws_workspace_id sample_ready = ''w1''"
    "ws_revision sample_ready = 0" by (simp_all add: sample_ready_def sample_workspace_def)
  have live: "lease_live (st_db st) (lease_token_of (sample_lease ''a1'' 1 0)) 5"
    by (simp add: lease_live_def st token_live_def token_matches_def lease_token_of_def sample_lease_def)
  have q: "hq_workspace_id ?q = ''w1''" "hq_version_id ?q = Some (ve_version_id v)"
    "hq_lease ?q = lease_token_of (sample_lease ''a1'' 1 0)" "hq_expected_revision ?q = 0" "hq_now_ms ?q = 5"
    by (simp_all add: sample_selection_def)
  have "\<exists>w st'. set_version_head ?X st ?q = (Inr w, st')"
    using prep target live
    by (simp add: set_version_head_def run_op_def st set_version_head_tx_def q ready run_tx_unarmed
        workspace_by_def count_rows_def at_revision_def update_where_def)
  then obtain w st' where run: "set_version_head ?X st ?q = (Inr w, st')" by (elim exE)
  from set_version_head_selects[OF ok run] have "ws_version_head_id w = redact_opt (st_redactor st) (hq_version_id ?q)"
    by (elim conjE)
  then have "ws_version_head_id w = Some (ve_version_id v)" by (simp add: st q redact_opt_def)
  with run ready show ?thesis by (metis fst_conv)
qed

end
