(* ===== verification/Execution_Store.thy ===== *)
theory Execution_Store
  imports Task_Store Version_Store
begin

text \<open>
  Executions (\<open>create_execution\<close>, \<open>execution\<close>, \<open>start_execution\<close>, \<open>transition_execution\<close>,
  \<open>set_execution_current_version\<close>, \<open>attach_operation_to_execution\<close> and their checks in
  \<open>src/src/metadata.rs\<close>): an execution is an attempt of an agent at a task, with a parent, a
  workspace, a base and a current version, a state that only moves forward, and the operations
  it owns. Every read checks the row and all its ancestors again.
\<close>

section \<open>Creation requests and states\<close>

definition redact_execution_creation :: "redactor \<Rightarrow> execution_creation \<Rightarrow> execution_creation res" where
  "redact_execution_creation r c0 =
     (let c = \<lparr>ec_execution_id = redact_text r (ec_execution_id c0),
               ec_task_id = redact_text r (ec_task_id c0),
               ec_agent_id = redact_text r (ec_agent_id c0),
               ec_parent_execution_id = redact_opt r (ec_parent_execution_id c0),
               ec_workspace_id = redact_opt r (ec_workspace_id c0),
               ec_base_version_id = redact_opt r (ec_base_version_id c0),
               ec_current_version_id = redact_opt r (ec_current_version_id c0),
               ec_created_at = redact_text r (ec_created_at c0)\<rparr> in
      try_then (validate_labelled [(ec_execution_id c, ''execution id''),
          (ec_task_id c, ''execution task id''), (ec_agent_id c, ''execution agent id''),
          (ec_created_at c, ''execution created_at'')]) (\<lambda>_.
      try_then (check_all (\<lambda>v. validate_opt v ''execution reference'')
          [ec_parent_execution_id c, ec_workspace_id c, ec_base_version_id c,
           ec_current_version_id c]) (\<lambda>_.
      Inr c)))"

definition execution_states :: "utf8 list" where
  "execution_states = [''created'', ''running'', ''paused'', ''completed'', ''failed'',
     ''interrupted'', ''unknown'']"

definition validate_execution_state :: "utf8 \<Rightarrow> unit res" where
  "validate_execution_state state =
     (if state \<in> set execution_states then Inr ()
      else Inl (InvalidInput ''execution state is unsupported''))"

definition execution_transition_allowed :: "utf8 \<Rightarrow> utf8 \<Rightarrow> bool" where
  "execution_transition_allowed current next_state =
     (if current = ''created'' then
        next_state \<in> {''running'', ''paused'', ''failed'', ''interrupted'', ''unknown''}
      else if current \<in> {''running'', ''paused''} then
        next_state \<in> {''running'', ''paused'', ''completed'', ''failed'', ''interrupted'',
                       ''unknown''}
      else False)"

definition execution_terminal :: "utf8 \<Rightarrow> bool" where
  "execution_terminal s \<longleftrightarrow> s \<in> {''completed'', ''failed'', ''interrupted'', ''unknown''}"

interpretation execution_cycle: lifecycle execution_transition_allowed execution_terminal
  by unfold_locales (auto simp: execution_transition_allowed_def execution_terminal_def split: if_splits)

section \<open>Bindings\<close>

definition validate_base_version_scope ::
  "version_record \<Rightarrow> workspace_record \<Rightarrow> utf8 \<times> utf8 \<Rightarrow> unit res" where
  "validate_base_version_scope v w identity =
     (if ve_project_id v \<noteq> ws_project_id w \<or> ve_environment_id v \<noteq> ws_environment_id w
        \<or> ve_generation_id v \<noteq> fst identity \<or> ve_migration_id v \<noteq> snd identity
      then Inl (Conflict ''execution base Version is incompatible with target workspace'')
      else Inr ())"

definition version_for_execution_base_transaction ::
  "externals \<Rightarrow> db \<Rightarrow> utf8 \<Rightarrow> workspace_record \<Rightarrow> version_record res" where
  "version_for_execution_base_transaction X d version_id w =
     (case row_by ve_version_id version_id (versions d) of
        None \<Rightarrow> Inl (NotFound ''execution base Version does not exist'')
      | Some v \<Rightarrow>
          (case row_by sn_snapshot_id (ve_snapshot_id v) (snapshots d) of
             None \<Rightarrow> Inl (Integrity ''execution base Snapshot is missing'')
           | Some s \<Rightarrow>
               (case row_by op_operation_id (ve_creation_operation_id v) (operations d) of
                  None \<Rightarrow> Inl (Integrity ''execution base Version operation is missing'')
                | Some x \<Rightarrow>
                    try_then (validate_version_row_transaction X d v s x) (\<lambda>_.
                    try_then (validate_parent_transaction X d v) (\<lambda>_.
                    try_then (validate_base_version_scope v w (stored_identity d)) (\<lambda>_.
                    Inr v))))))"

definition validate_execution_bindings ::
  "externals \<Rightarrow> db \<Rightarrow> execution_creation \<Rightarrow> utf8 \<Rightarrow> unit res" where
  "validate_execution_bindings X d c project_id =
     (if (ec_base_version_id c \<noteq> None \<or> ec_current_version_id c \<noteq> None) \<and> ec_workspace_id c = None
      then Inl (Conflict ''execution Version references require a workspace'')
      else (case ec_workspace_id c of
         None \<Rightarrow> Inr ()
       | Some workspace_id \<Rightarrow>
           (case row_by ws_workspace_id workspace_id (workspaces d) of
              None \<Rightarrow> Inl (NotFound ''execution workspace does not exist'')
            | Some w \<Rightarrow>
                if ws_project_id w \<noteq> project_id
                then Inl (Conflict ''execution workspace belongs to another project'')
                else try_then
                  (case ec_base_version_id c of
                     None \<Rightarrow> Inr ()
                   | Some i \<Rightarrow>
                       try_then (version_for_execution_base_transaction X d i w) (\<lambda>v.
                       if ve_project_id v \<noteq> project_id
                       then Inl (Conflict ''execution base Version belongs to another project'')
                       else Inr ())) (\<lambda>_.
                  case ec_current_version_id c of
                    None \<Rightarrow> Inr ()
                  | Some i \<Rightarrow>
                      try_then (version_for_workspace_transaction X d i w) (\<lambda>v.
                      if ve_project_id v \<noteq> project_id
                      then Inl (Conflict ''execution current Version belongs to another project'')
                      else Inr ())))))"

text \<open>The walk over the ancestors of a new execution; \<open>seen\<close> only takes ids of stored rows.\<close>

function execution_parent_walk ::
  "db \<Rightarrow> utf8 \<Rightarrow> utf8 \<Rightarrow> utf8 \<Rightarrow> utf8 \<Rightarrow> utf8 list \<Rightarrow> unit res" where
  "execution_parent_walk d child_id task_id project_id current_id seen =
     (if current_id \<in> set seen then Inl (Integrity ''execution parent chain contains a cycle'')
      else (case row_by ex_execution_id current_id (executions d) of
         None \<Rightarrow> Inl (NotFound ''execution parent does not exist'')
       | Some parent \<Rightarrow>
           if ex_task_id parent \<noteq> task_id \<or> ex_project_id parent \<noteq> project_id
           then Inl (Conflict ''execution parent scope does not match child'')
           else if ex_execution_id parent = child_id
           then Inl (Conflict ''execution parent chain would create a cycle'')
           else (case ex_parent_execution_id parent of
              None \<Rightarrow> Inr ()
            | Some up \<Rightarrow>
                execution_parent_walk d child_id task_id project_id up (current_id # seen))))"
  by pat_completeness auto
termination
proof (relation "measure (\<lambda>(d, child_id, task_id, project_id, current_id, seen).
    card (set (map ex_execution_id (executions d)) - set seen))", goal_cases)
  case (2 d child_id task_id project_id current_id seen parent up)
  then have "current_id \<in> set (map ex_execution_id (executions d)) - set seen"
    using row_by_SomeD by fastforce
  then have "card (set (map ex_execution_id (executions d)) - set (current_id # seen))
      < card (set (map ex_execution_id (executions d)) - set seen)"
    by (intro psubset_card_mono) auto
  then show ?case by simp
qed simp

declare execution_parent_walk.simps [simp del]

definition validate_execution_parent :: "db \<Rightarrow> utf8 \<Rightarrow> utf8 \<Rightarrow> utf8 \<Rightarrow> utf8 \<Rightarrow> unit res" where
  "validate_execution_parent d parent_id child_id task_id project_id =
     (if parent_id = child_id then Inl (Conflict ''execution cannot be its own parent'')
      else execution_parent_walk d child_id task_id project_id parent_id [])"

definition execution_matches_creation ::
  "execution_record \<Rightarrow> execution_creation \<Rightarrow> utf8 \<Rightarrow> bool" where
  "execution_matches_creation e c project_id \<longleftrightarrow>
     ex_task_id e = ec_task_id c \<and> ex_agent_id e = ec_agent_id c \<and> ex_project_id e = project_id
     \<and> ex_parent_execution_id e = ec_parent_execution_id c
     \<and> ex_workspace_id e = ec_workspace_id c \<and> ex_base_version_id e = ec_base_version_id c
     \<and> (ec_current_version_id c = None \<or> ex_current_version_id e = ec_current_version_id c)
     \<and> ex_created_at e = ec_created_at c"

section \<open>Reads\<close>

text \<open>
  What \<open>validate_execution_record\<close> checks of the links of one row; it does so for the execution
  and for each of its ancestors, with the subject of the message changed.
\<close>

definition execution_links ::
  "externals \<Rightarrow> redactor \<Rightarrow> db \<Rightarrow> utf8 \<Rightarrow> execution_record \<Rightarrow> unit res" where
  "execution_links X r d subject e =
     (if agent_identity_by r d (ex_agent_id e) = None
      then Inl (Integrity (subject @ '' references a missing agent''))
      else (case ex_workspace_id e of
         None \<Rightarrow>
           if ex_base_version_id e \<noteq> None \<or> ex_current_version_id e \<noteq> None
           then Inl (Integrity (subject @ '' Version reference has no workspace'')) else Inr ()
       | Some workspace_id \<Rightarrow>
           (case workspace_by r d workspace_id of
              None \<Rightarrow> Inl (Integrity (subject @ '' references a missing workspace''))
            | Some w \<Rightarrow>
                if ws_project_id w \<noteq> ex_project_id e
                then Inl (Integrity (subject @ '' workspace project binding is invalid''))
                else if (case ws_environment_id w of None \<Rightarrow> False
                         | Some i \<Rightarrow> environment_project d i \<noteq> Some (ex_project_id e))
                then Inl (Integrity (subject @ '' workspace environment binding is invalid''))
                else try_then
                  (case ex_base_version_id e of
                     None \<Rightarrow> Inr ()
                   | Some i \<Rightarrow>
                       try_then (version_record_of X d i) (\<lambda>found.
                       case found of
                         None \<Rightarrow> Inl (Integrity (subject @ '' references a missing base Version''))
                       | Some v \<Rightarrow>
                           try_then (projection_identity d) (\<lambda>identity.
                           validate_base_version_scope v w identity))) (\<lambda>_.
                  case ex_current_version_id e of
                    None \<Rightarrow> Inr ()
                  | Some i \<Rightarrow>
                      try_then (version_record_of X d i) (\<lambda>found.
                      case found of
                        None \<Rightarrow> Inl (Integrity (subject @ '' references a missing current Version''))
                      | Some v \<Rightarrow>
                          if ve_workspace_id v \<noteq> ws_workspace_id w
                            \<or> ve_project_id v \<noteq> ex_project_id e
                            \<or> ve_environment_id v \<noteq> ws_environment_id w
                          then Inl (Integrity (subject @ '' current Version binding is invalid''))
                          else Inr ())))))"

function execution_record_walk ::
  "externals \<Rightarrow> redactor \<Rightarrow> db \<Rightarrow> execution_record \<Rightarrow> utf8 \<Rightarrow> utf8 list \<Rightarrow> unit res" where
  "execution_record_walk X r d e current_id seen =
     (if current_id \<in> set seen then Inl (Integrity ''execution parent chain contains a cycle'')
      else (case row_by ex_execution_id current_id (executions d) of
         None \<Rightarrow> Inl (Integrity ''execution parent is missing'')
       | Some parent \<Rightarrow>
           if ex_task_id parent \<noteq> ex_task_id e \<or> ex_project_id parent \<noteq> ex_project_id e
           then Inl (Integrity ''execution parent scope is invalid'')
           else (case execution_links X r d ''execution parent'' parent of
              Inl err \<Rightarrow> Inl err
            | Inr _ \<Rightarrow>
                if ex_execution_id parent = ex_execution_id e
                then Inl (Integrity ''execution parent chain contains a cycle'')
                else (case ex_parent_execution_id parent of
                   None \<Rightarrow> Inr ()
                 | Some up \<Rightarrow> execution_record_walk X r d e up (current_id # seen)))))"
  by pat_completeness auto
termination
proof (relation "measure (\<lambda>(X, r, d, e, current_id, seen).
    card (set (map ex_execution_id (executions d)) - set seen))", goal_cases)
  case (2 X r d e current_id seen parent u up)
  then have "current_id \<in> set (map ex_execution_id (executions d)) - set seen"
    using row_by_SomeD by fastforce
  then have "card (set (map ex_execution_id (executions d)) - set (current_id # seen))
      < card (set (map ex_execution_id (executions d)) - set seen)"
    by (intro psubset_card_mono) auto
  then show ?case by simp
qed simp

declare execution_record_walk.simps [simp del]

definition validate_execution_record ::
  "externals \<Rightarrow> redactor \<Rightarrow> db \<Rightarrow> execution_record \<Rightarrow> unit res" where
  "validate_execution_record X r d e =
     (case task_by r d (ex_task_id e) of
        None \<Rightarrow> Inl (Integrity ''execution references a missing task'')
      | Some t \<Rightarrow>
          if tk_project_id t \<noteq> ex_project_id e
          then Inl (Integrity ''execution task project binding is invalid'')
          else try_then (execution_links X r d ''execution'' e) (\<lambda>_.
          case ex_parent_execution_id e of
            None \<Rightarrow> Inr ()
          | Some parent_id \<Rightarrow> execution_record_walk X r d e parent_id []))"

definition execution_by ::
  "externals \<Rightarrow> redactor \<Rightarrow> db \<Rightarrow> utf8 \<Rightarrow> execution_record option res" where
  "execution_by X r d execution_id =
     (case row_by ex_execution_id (redact_text r execution_id) (executions d) of
        None \<Rightarrow> Inr None
      | Some e \<Rightarrow> try_then (validate_execution_record X r d e) (\<lambda>_. Inr (Some e)))"

definition list_executions ::
  "externals \<Rightarrow> redactor \<Rightarrow> db \<Rightarrow> utf8 \<Rightarrow> execution_record list res" where
  "list_executions X r d task_id =
     (let rows = order_rows (\<lambda>e. (ex_created_at e, ex_execution_id e))
        (filter (\<lambda>e. ex_task_id e = redact_text r task_id) (executions d)) in
      try_then (check_all (validate_execution_record X r d) rows) (\<lambda>_. Inr rows))"

definition child_executions ::
  "externals \<Rightarrow> redactor \<Rightarrow> db \<Rightarrow> utf8 \<Rightarrow> execution_record list res" where
  "child_executions X r d parent_execution_id =
     (let rows = order_rows (\<lambda>e. (ex_created_at e, ex_execution_id e))
        (filter (\<lambda>e. ex_parent_execution_id e = Some (redact_text r parent_execution_id))
          (executions d)) in
      try_then (check_all (validate_execution_record X r d) rows) (\<lambda>_. Inr rows))"

text \<open>The read that every call on an execution ends with.\<close>

definition execution_read_back ::
  "externals \<Rightarrow> redactor \<Rightarrow> utf8 \<Rightarrow> utf8 \<Rightarrow> db \<Rightarrow> execution_record res" where
  "execution_read_back X r execution_id message d =
     try_then (execution_by X r d execution_id) (\<lambda>found.
     case found of None \<Rightarrow> Inl (Integrity message) | Some e \<Rightarrow> Inr e)"

section \<open>Creation\<close>

definition new_execution_row :: "execution_creation \<Rightarrow> utf8 \<Rightarrow> execution_record" where
  "new_execution_row c project_id =
     \<lparr>ex_execution_id = ec_execution_id c, ex_task_id = ec_task_id c, ex_agent_id = ec_agent_id c,
      ex_project_id = project_id, ex_parent_execution_id = ec_parent_execution_id c,
      ex_workspace_id = ec_workspace_id c, ex_base_version_id = ec_base_version_id c,
      ex_current_version_id = ec_current_version_id c, ex_state = ''created'', ex_outcome = None,
      ex_created_at = ec_created_at c, ex_started_at = None, ex_completed_at = None,
      ex_failed_at = None, ex_interrupted_at = None, ex_revision = 0,
      ex_updated_at = ec_created_at c\<rparr>"

definition create_execution_tx ::
  "externals \<Rightarrow> redactor \<Rightarrow> execution_creation \<Rightarrow> db \<Rightarrow> execution_record tx_end res" where
  "create_execution_tx X r c d =
     (case row_by tk_task_id (ec_task_id c) (tasks d) of
        None \<Rightarrow> Inl (NotFound ''execution task does not exist'')
      | Some t \<Rightarrow>
          if row_by ai_agent_id (ec_agent_id c) (agent_identities d) = None
          then Inl (NotFound ''execution agent does not exist'')
          else (case row_by ex_execution_id (ec_execution_id c) (executions d) of
             Some existing \<Rightarrow>
               if \<not> execution_matches_creation existing c (tk_project_id t)
               then Inl (IdempotencyKeyReuse (ec_execution_id c))
               else try_then (execution_read_back X r (ec_execution_id c)
                      ''execution disappeared during idempotent retry'' d) (\<lambda>e. Inr (Finished e))
           | None \<Rightarrow>
               try_then (validate_execution_bindings X d c (tk_project_id t)) (\<lambda>_.
               try_then (case ec_parent_execution_id c of
                   None \<Rightarrow> Inr ()
                 | Some parent_id \<Rightarrow> validate_execution_parent d parent_id (ec_execution_id c)
                     (ec_task_id c) (tk_project_id t)) (\<lambda>_.
               Inr (Commit (d\<lparr>executions := executions d @ [new_execution_row c (tk_project_id t)]\<rparr>)
                 (execution_read_back X r (ec_execution_id c)
                   ''execution disappeared after creation''))))))"

definition create_execution ::
  "externals \<Rightarrow> metadata_store \<Rightarrow> execution_creation \<Rightarrow> execution_record res \<times> metadata_store" where
  "create_execution X = sqlite_op redact_execution_creation (create_execution_tx X)"

section \<open>Transitions\<close>

record transition_request =
  xq_execution_id :: utf8
  xq_next_state :: utf8
  xq_outcome :: "utf8 option"
  xq_expected_revision :: int
  xq_updated_at :: utf8
  xq_start_task :: bool

definition transition_prep :: "redactor \<Rightarrow> transition_request \<Rightarrow> transition_request res" where
  "transition_prep r q =
     try_then (validate_execution_state (redact_text r (xq_next_state q))) (\<lambda>_.
     if xq_expected_revision q < 0
     then Inl (InvalidInput ''execution revision must not be negative'')
     else Inr \<lparr>xq_execution_id = redact_text r (xq_execution_id q),
       xq_next_state = redact_text r (xq_next_state q), xq_outcome = redact_opt r (xq_outcome q),
       xq_expected_revision = xq_expected_revision q,
       xq_updated_at = redact_text r (xq_updated_at q), xq_start_task = xq_start_task q\<rparr>)"

definition advance_execution ::
  "utf8 \<Rightarrow> utf8 option \<Rightarrow> utf8 \<Rightarrow> execution_record \<Rightarrow> execution_record" where
  "advance_execution next_state result updated_at e = e\<lparr>
     ex_state := next_state, ex_outcome := result,
     ex_started_at := (if next_state = ''running'' then Some updated_at else ex_started_at e),
     ex_completed_at := (if next_state = ''completed'' then Some updated_at else ex_completed_at e),
     ex_failed_at := (if next_state = ''failed'' then Some updated_at else ex_failed_at e),
     ex_interrupted_at :=
       (if next_state = ''interrupted'' then Some updated_at else ex_interrupted_at e),
     ex_revision := ex_revision e + 1, ex_updated_at := updated_at\<rparr>"

definition execution_at :: "utf8 \<Rightarrow> int \<Rightarrow> execution_record \<Rightarrow> bool" where
  "execution_at i n e \<longleftrightarrow> ex_execution_id e = i \<and> ex_revision e = n"

text \<open>Starting an execution also starts its task, in the same transaction.\<close>

definition start_its_task :: "utf8 \<Rightarrow> utf8 \<Rightarrow> db \<Rightarrow> db res" where
  "start_its_task task_id updated_at d =
     (case row_by tk_task_id task_id (tasks d) of
        None \<Rightarrow> Inl (Integrity ''execution task disappeared'')
      | Some t \<Rightarrow>
          if tk_state t = ''created''
          then Inr (d\<lparr>tasks := update_where
                 (\<lambda>x. tk_task_id x = tk_task_id t \<and> tk_revision x = tk_revision t)
                 (advance_task ''running'' updated_at) (tasks d)\<rparr>)
          else if tk_state t \<notin> {''running'', ''blocked'', ''waiting''}
          then Inl (Conflict ''execution cannot start a terminal task'')
          else Inr d)"

definition transition_execution_tx ::
  "externals \<Rightarrow> redactor \<Rightarrow> transition_request \<Rightarrow> db \<Rightarrow> execution_record tx_end res" where
  "transition_execution_tx X r q d =
     (case row_by ex_execution_id (xq_execution_id q) (executions d) of
        None \<Rightarrow> Inl (NotFound ''execution does not exist'')
      | Some current \<Rightarrow>
          if ex_state current = xq_next_state q \<and> ex_outcome current = xq_outcome q
          then Inr (Finished current)
          else if \<not> execution_transition_allowed (ex_state current) (xq_next_state q)
          then Inl (Conflict (''invalid execution lifecycle transition '' @ ex_state current
                 @ '' -> '' @ xq_next_state q))
          else if ex_revision current \<noteq> xq_expected_revision q
          then Inl (Conflict ''execution revision is stale'')
          else if count_rows (execution_at (xq_execution_id q) (xq_expected_revision q))
                 (executions d) \<noteq> 1
          then Inl (Conflict ''execution revision is stale'')
          else
            let d1 = d\<lparr>executions := update_where
                  (execution_at (xq_execution_id q) (xq_expected_revision q))
                  (advance_execution (xq_next_state q) (xq_outcome q) (xq_updated_at q))
                  (executions d)\<rparr> in
            try_then (if xq_start_task q then start_its_task (ex_task_id current) (xq_updated_at q) d1
                      else Inr d1) (\<lambda>d2.
            Inr (Commit d2 (execution_read_back X r (xq_execution_id q)
              ''execution disappeared after transition''))))"

definition transition_execution_internal ::
  "externals \<Rightarrow> metadata_store \<Rightarrow> transition_request \<Rightarrow> execution_record res \<times> metadata_store" where
  "transition_execution_internal X = sqlite_op transition_prep (transition_execution_tx X)"

definition start_execution ::
  "externals \<Rightarrow> metadata_store \<Rightarrow> utf8 \<Rightarrow> int \<Rightarrow> utf8 \<Rightarrow> execution_record res \<times> metadata_store"
where
  "start_execution X st execution_id expected_revision updated_at =
     transition_execution_internal X st \<lparr>xq_execution_id = execution_id,
       xq_next_state = ''running'', xq_outcome = None, xq_expected_revision = expected_revision,
       xq_updated_at = updated_at, xq_start_task = True\<rparr>"

definition transition_execution ::
  "externals \<Rightarrow> metadata_store \<Rightarrow> utf8 \<Rightarrow> utf8 \<Rightarrow> utf8 option \<Rightarrow> int \<Rightarrow> utf8 \<Rightarrow>
    execution_record res \<times> metadata_store"
where
  "transition_execution X st execution_id next_state result expected_revision updated_at =
     transition_execution_internal X st \<lparr>xq_execution_id = execution_id,
       xq_next_state = next_state, xq_outcome = result, xq_expected_revision = expected_revision,
       xq_updated_at = updated_at, xq_start_task = False\<rparr>"

definition finish_execution ::
  "externals \<Rightarrow> metadata_store \<Rightarrow> utf8 \<Rightarrow> utf8 \<Rightarrow> utf8 option \<Rightarrow> int \<Rightarrow> utf8 \<Rightarrow>
    execution_record res \<times> metadata_store"
where
  "finish_execution X st execution_id next_state result expected_revision updated_at =
     transition_execution X st execution_id next_state result expected_revision updated_at"

section \<open>The current version of an execution\<close>

text \<open>\<open>i64::saturating_add\<close>.\<close>

definition saturating_add :: "int \<Rightarrow> int \<Rightarrow> int" where
  "saturating_add a b = max (- (2 ^ 63)) (min (a + b) (2 ^ 63 - 1))"

record current_version_request =
  vq_execution_id :: utf8
  vq_version_id :: utf8
  vq_lease :: lease_token
  vq_expected_execution_revision :: int
  vq_expected_workspace_revision :: int
  vq_updated_at :: utf8
  vq_now_ms :: int

definition current_version_prep ::
  "redactor \<Rightarrow> current_version_request \<Rightarrow> current_version_request res" where
  "current_version_prep r q0 =
     (let q = q0\<lparr>vq_execution_id := redact_text r (vq_execution_id q0),
            vq_version_id := redact_text r (vq_version_id q0),
            vq_updated_at := redact_text r (vq_updated_at q0)\<rparr> in
      try_then (validate_labelled [(vq_execution_id q, ''execution id''),
        (vq_version_id q, ''execution Version id''),
        (lt_agent_id (vq_lease q), ''execution lease agent id''),
        (vq_updated_at q, ''execution updated_at'')]) (\<lambda>_.
      if vq_expected_execution_revision q < 0 \<or> vq_expected_workspace_revision q < 0
      then Inl (InvalidInput ''revision must not be negative'')
      else if lt_expires_at_ms (vq_lease q) \<le> vq_now_ms q
      then Inl (Conflict ''workspace lease is expired'')
      else Inr q))"

definition adopt_version :: "utf8 \<Rightarrow> utf8 \<Rightarrow> execution_record \<Rightarrow> execution_record" where
  "adopt_version version_id updated_at e = e\<lparr>ex_current_version_id := Some version_id,
     ex_revision := ex_revision e + 1, ex_updated_at := updated_at\<rparr>"

definition touch_workspace :: "utf8 \<Rightarrow> workspace_record \<Rightarrow> workspace_record" where
  "touch_workspace updated_at w = w\<lparr>ws_revision := ws_revision w + 1, ws_updated_at := updated_at\<rparr>"

definition current_version_tx ::
  "externals \<Rightarrow> redactor \<Rightarrow> current_version_request \<Rightarrow> db \<Rightarrow> execution_record tx_end res" where
  "current_version_tx X r q d =
     (case row_by ex_execution_id (vq_execution_id q) (executions d) of
        None \<Rightarrow> Inl (NotFound ''execution does not exist'')
      | Some e \<Rightarrow>
     (case ex_workspace_id e of
        None \<Rightarrow> Inl (Conflict ''execution has no workspace'')
      | Some workspace_id \<Rightarrow>
     if lt_workspace_id (vq_lease q) \<noteq> workspace_id
     then Inl (Conflict ''lease belongs to another workspace'')
     else if lt_agent_id (vq_lease q) \<noteq> ex_agent_id e
     then Inl (Conflict ''workspace lease agent does not own execution'')
     else (case row_by ws_workspace_id workspace_id (workspaces d) of
        None \<Rightarrow> Inl (NotFound ''execution workspace does not exist'')
      | Some w \<Rightarrow>
     if \<not> lease_live d (vq_lease q) (vq_now_ms q)
     then Inl (Conflict ''workspace lease is stale or expired'')
     else if ex_current_version_id e = Some (vq_version_id q)
       \<and> ws_revision w = saturating_add (vq_expected_workspace_revision q) 1
       \<and> ex_revision e = saturating_add (vq_expected_execution_revision q) 1
     then Inr (Finished e)
     else if ws_revision w \<noteq> vq_expected_workspace_revision q
     then Inl (Conflict ''workspace revision is stale'')
     else if ex_revision e \<noteq> vq_expected_execution_revision q
     then Inl (Conflict ''execution revision is stale'')
     else try_then (version_for_workspace_transaction X d (vq_version_id q) w) (\<lambda>v.
     if ve_project_id v \<noteq> ex_project_id e
     then Inl (Conflict ''execution Version project does not match'')
     else if count_rows (execution_at (vq_execution_id q) (vq_expected_execution_revision q))
            (executions d) \<noteq> 1
     then Inl (Conflict ''execution revision is stale'')
     else if count_rows (at_revision workspace_id (vq_expected_workspace_revision q))
            (workspaces d) \<noteq> 1
     then Inl (Conflict ''workspace revision is stale'')
     else Inr (Commit
       (d\<lparr>workspaces := update_where (at_revision workspace_id (vq_expected_workspace_revision q))
            (touch_workspace (vq_updated_at q)) (workspaces d),
          executions := update_where
            (execution_at (vq_execution_id q) (vq_expected_execution_revision q))
            (adopt_version (vq_version_id q) (vq_updated_at q)) (executions d)\<rparr>)
       (execution_read_back X r (vq_execution_id q)
         ''execution disappeared after Version update''))))))"

definition set_execution_current_version ::
  "externals \<Rightarrow> metadata_store \<Rightarrow> current_version_request \<Rightarrow> execution_record res \<times> metadata_store"
where
  "set_execution_current_version X = sqlite_op current_version_prep (current_version_tx X)"

section \<open>Operations an execution owns\<close>

definition owner_mismatch :: "operation_record \<Rightarrow> execution_record \<Rightarrow> bool" where
  "owner_mismatch x e \<longleftrightarrow> (case (op_workspace_id x, ex_workspace_id e) of
     (Some a, Some b) \<Rightarrow> a \<noteq> b | _ \<Rightarrow> False)"

definition execution_operation_read ::
  "externals \<Rightarrow> redactor \<Rightarrow> db \<Rightarrow> utf8 \<Rightarrow> utf8 \<Rightarrow> execution_operation option res" where
  "execution_operation_read X r d execution_id operation_id =
     (case row_by (\<lambda>o1. (eo_execution_id o1, eo_operation_id o1)) (execution_id, operation_id)
        (execution_operations d) of
        None \<Rightarrow> Inr None
      | Some owner \<Rightarrow>
          try_then (execution_by X r d (eo_execution_id owner)) (\<lambda>found.
          case found of
            None \<Rightarrow> Inl (Integrity ''operation owner execution is missing'')
          | Some e \<Rightarrow>
              (case operation_by r d (eo_operation_id owner) of
                 None \<Rightarrow> Inl (Integrity ''owned operation is missing'')
               | Some x \<Rightarrow>
                   if op_project_id x \<noteq> ex_project_id e
                   then Inl (Integrity ''operation owner project binding is invalid'')
                   else if op_agent_id x \<noteq> ex_agent_id e
                   then Inl (Integrity ''operation owner agent binding is invalid'')
                   else if owner_mismatch x e
                   then Inl (Integrity ''operation owner workspace binding is invalid'')
                   else Inr (Some owner))))"

definition execution_for_operation ::
  "externals \<Rightarrow> redactor \<Rightarrow> db \<Rightarrow> utf8 \<Rightarrow> execution_operation option res" where
  "execution_for_operation X r d operation_id =
     (case row_by eo_operation_id (redact_text r operation_id) (execution_operations d) of
        None \<Rightarrow> Inr None
      | Some o1 \<Rightarrow> execution_operation_read X r d (eo_execution_id o1) (eo_operation_id o1))"

definition operations_for_execution ::
  "externals \<Rightarrow> redactor \<Rightarrow> db \<Rightarrow> utf8 \<Rightarrow> execution_operation list res" where
  "operations_for_execution X r d execution_id =
     (let rows = order_rows (\<lambda>o1. (eo_created_at o1, eo_operation_id o1))
        (filter (\<lambda>o1. eo_execution_id o1 = execution_id) (execution_operations d)) in
      try_then (check_all (\<lambda>o1. try_then (execution_operation_read X r d (eo_execution_id o1)
        (eo_operation_id o1)) (\<lambda>_. Inr ())) rows) (\<lambda>_. Inr rows))"

definition attach_operation_prep :: "redactor \<Rightarrow> execution_operation \<Rightarrow> execution_operation res" where
  "attach_operation_prep r q0 =
     (let q = \<lparr>eo_execution_id = redact_text r (eo_execution_id q0),
               eo_operation_id = redact_text r (eo_operation_id q0),
               eo_created_at = redact_text r (eo_created_at q0)\<rparr> in
      try_then (validate_labelled [(eo_execution_id q, ''execution id''),
        (eo_operation_id q, ''operation id''), (eo_created_at q, ''ownership created_at'')]) (\<lambda>_.
      Inr q))"

definition attach_operation_tx ::
  "externals \<Rightarrow> redactor \<Rightarrow> execution_operation \<Rightarrow> db \<Rightarrow> execution_operation tx_end res" where
  "attach_operation_tx X r q d =
     (case row_by ex_execution_id (eo_execution_id q) (executions d) of
        None \<Rightarrow> Inl (NotFound ''execution does not exist'')
      | Some e \<Rightarrow>
     (case row_by op_operation_id (eo_operation_id q) (operations d) of
        None \<Rightarrow> Inl (NotFound ''operation does not exist'')
      | Some x \<Rightarrow>
     if op_project_id x \<noteq> ex_project_id e
     then Inl (Conflict ''operation project does not match execution'')
     else if op_agent_id x \<noteq> ex_agent_id e
     then Inl (Conflict ''operation agent does not match execution agent'')
     else if owner_mismatch x e
     then Inl (Conflict ''operation workspace does not match execution workspace'')
     else (case row_by eo_operation_id (eo_operation_id q) (execution_operations d) of
        Some existing \<Rightarrow>
          if existing \<noteq> q then Inl (Conflict ''operation already has an execution owner'')
          else Inr (Finished existing)
      | None \<Rightarrow>
          Inr (Commit (d\<lparr>execution_operations := execution_operations d @ [q]\<rparr>)
            (\<lambda>d'. try_then (execution_operation_read X r d' (eo_execution_id q) (eo_operation_id q))
              (\<lambda>found. case found of
                 None \<Rightarrow> Inl (Integrity ''execution ownership disappeared'') | Some z \<Rightarrow> Inr z))))))"

definition attach_operation_to_execution ::
  "externals \<Rightarrow> metadata_store \<Rightarrow> execution_operation \<Rightarrow> execution_operation res \<times> metadata_store" where
  "attach_operation_to_execution X = sqlite_op attach_operation_prep (attach_operation_tx X)"

section \<open>What a stored execution may become\<close>

definition execution_evolves :: "execution_record \<Rightarrow> execution_record \<Rightarrow> bool" where
  "execution_evolves x y \<longleftrightarrow>
     (ex_execution_id y = ex_execution_id x \<and> ex_task_id y = ex_task_id x \<and> ex_agent_id y = ex_agent_id x
      \<and> ex_project_id y = ex_project_id x \<and> ex_parent_execution_id y = ex_parent_execution_id x
      \<and> ex_workspace_id y = ex_workspace_id x \<and> ex_base_version_id y = ex_base_version_id x
      \<and> ex_created_at y = ex_created_at x)
     \<and> execution_transition_allowed\<^sup>*\<^sup>* (ex_state x) (ex_state y) \<and> ex_revision x \<le> ex_revision y
     \<and> (execution_terminal (ex_state x) \<longrightarrow> y = x\<lparr>ex_current_version_id := ex_current_version_id y,
          ex_revision := ex_revision y, ex_updated_at := ex_updated_at y\<rparr>)"

lemma execution_evolves_refl [simp]: "execution_evolves x x"
  by (simp add: execution_evolves_def)

lemma execution_frozen_trans:
  assumes "y = x\<lparr>ex_current_version_id := a, ex_revision := b, ex_updated_at := c\<rparr>"
    and "z = y\<lparr>ex_current_version_id := ex_current_version_id z, ex_revision := ex_revision z,
      ex_updated_at := ex_updated_at z\<rparr>"
  shows "z = x\<lparr>ex_current_version_id := ex_current_version_id z, ex_revision := ex_revision z,
      ex_updated_at := ex_updated_at z\<rparr>"
  using assms(2) unfolding assms(1) by simp

lemma execution_evolves_trans [trans]:
  assumes "execution_evolves x y" "execution_evolves y z"
  shows "execution_evolves x z"
proof -
  note a = assms(1)[unfolded execution_evolves_def] and b = assms(2)[unfolded execution_evolves_def]
  have "z = x\<lparr>ex_current_version_id := ex_current_version_id z, ex_revision := ex_revision z,
      ex_updated_at := ex_updated_at z\<rparr>" if t: "execution_terminal (ex_state x)"
  proof (rule execution_frozen_trans)
    show y: "y = x\<lparr>ex_current_version_id := ex_current_version_id y, ex_revision := ex_revision y,
        ex_updated_at := ex_updated_at y\<rparr>" using a t by blast
    have "ex_state y = ex_state x" by (subst y) simp
    with b t show "z = y\<lparr>ex_current_version_id := ex_current_version_id z, ex_revision := ex_revision z,
        ex_updated_at := ex_updated_at z\<rparr>" by simp
  qed
  moreover have "execution_transition_allowed\<^sup>*\<^sup>* (ex_state x) (ex_state z)" "ex_revision x \<le> ex_revision z"
    using a b by (blast intro: rtranclp_trans, linarith)
  ultimately show ?thesis using a b unfolding execution_evolves_def by simp
qed

lemma execution_evolves_advance:
  assumes "execution_transition_allowed (ex_state x) s"
  shows "execution_evolves x (advance_execution s o1 u x)"
proof -
  have "\<not> execution_terminal (ex_state x)"
    using assms by (auto simp: execution_transition_allowed_def execution_terminal_def split: if_splits)
  with assms show ?thesis by (simp add: execution_evolves_def advance_execution_def)
qed

lemma execution_evolves_adopt: "execution_evolves x (adopt_version i u x)"
  by (simp add: execution_evolves_def adopt_version_def)

lemma advance_execution_id [simp]:
  "ex_execution_id (advance_execution s o1 u x) = ex_execution_id x"
  "ex_execution_id (adopt_version i u x) = ex_execution_id x"
  by (simp_all add: advance_execution_def adopt_version_def)

section \<open>Each call on executions\<close>

abbreviation executions_kept :: "db \<Rightarrow> db \<Rightarrow> bool" where
  "executions_kept d d' \<equiv> keeps_rows ex_execution_id execution_evolves (executions d) (executions d')"

lemma create_execution_commit:
  assumes "create_execution_tx X r c d = Inr (Commit d' k)"
  obtains t where "d' = d\<lparr>executions := executions d @ [new_execution_row c (tk_project_id t)]\<rparr>"
    and "row_by ex_execution_id (ec_execution_id c) (executions d) = None"
    and "row_by tk_task_id (ec_task_id c) (tasks d) = Some t"
    and "\<And>i. ec_parent_execution_id c = Some i \<Longrightarrow>
      validate_execution_parent d i (ec_execution_id c) (ec_task_id c) (tk_project_id t) = Inr ()"
proof -
  obtain t where t: "row_by tk_task_id (ec_task_id c) (tasks d) = Some t"
    using assms by (cases "row_by tk_task_id (ec_task_id c) (tasks d)") (simp_all add: create_execution_tx_def)
  with assms show thesis
    by (intro that[of t]) (auto simp: create_execution_tx_def split: option.splits if_splits)
qed

lemma start_its_task_result:
  "start_its_task i u d = Inr d' \<Longrightarrow> \<exists>ts. d' = d\<lparr>tasks := ts\<rparr>
    \<and> (\<exists>t. row_by tk_task_id i ts = Some t \<and> tk_state t \<in> {''running'', ''blocked'', ''waiting''})"
proof -
  assume a: "start_its_task i u d = Inr d'"
  then obtain t where t: "row_by tk_task_id i (tasks d) = Some t" by (auto simp: start_its_task_def split: option.splits)
  show ?thesis
  proof (cases "tk_state t = ''created''")
    case True
    let ?ts = "update_where (\<lambda>x. tk_task_id x = tk_task_id t \<and> tk_revision x = tk_revision t)
        (advance_task ''running'' u) (tasks d)"
    from True a t have "d' = d\<lparr>tasks := ?ts\<rparr>" by (simp add: start_its_task_def)
    moreover have "row_by tk_task_id i ?ts = Some (advance_task ''running'' u t)"
      using t by (simp add: row_by_update advance_task_def)
    ultimately show ?thesis by (intro exI[of _ ?ts]) (simp add: advance_task_def)
  next
    case False
    with a t have "d' = d" "tk_state t \<in> {''running'', ''blocked'', ''waiting''}"
      by (auto simp: start_its_task_def split: if_splits)
    with t show ?thesis by (intro exI[of _ "tasks d"]) simp
  qed
qed

lemma transition_commit:
  assumes "transition_execution_tx X r q d = Inr (Commit d' k)"
  obtains current ts where "row_by ex_execution_id (xq_execution_id q) (executions d) = Some current"
    and "execution_transition_allowed (ex_state current) (xq_next_state q)"
    and "ex_revision current = xq_expected_revision q"
    and "d' = d\<lparr>executions := update_where (execution_at (xq_execution_id q) (xq_expected_revision q))
        (advance_execution (xq_next_state q) (xq_outcome q) (xq_updated_at q)) (executions d), tasks := ts\<rparr>"
    and "xq_start_task q \<Longrightarrow> \<exists>t. row_by tk_task_id (ex_task_id current) ts = Some t
        \<and> tk_state t \<in> {''running'', ''blocked'', ''waiting''}"
    and "\<not> xq_start_task q \<Longrightarrow> ts = tasks d"
proof -
  obtain current where cur: "row_by ex_execution_id (xq_execution_id q) (executions d) = Some current"
    using assms by (cases "row_by ex_execution_id (xq_execution_id q) (executions d)")
      (simp_all add: transition_execution_tx_def)
  let ?d1 = "d\<lparr>executions := update_where (execution_at (xq_execution_id q) (xq_expected_revision q))
        (advance_execution (xq_next_state q) (xq_outcome q) (xq_updated_at q)) (executions d)\<rparr>"
  from assms cur have ok: "execution_transition_allowed (ex_state current) (xq_next_state q)"
    "ex_revision current = xq_expected_revision q"
    and end1: "(if xq_start_task q then start_its_task (ex_task_id current) (xq_updated_at q) ?d1 else Inr ?d1) = Inr d'"
    by (auto simp: transition_execution_tx_def Let_def split: if_splits)
  show thesis
  proof (cases "xq_start_task q")
    case True
    with end1 start_its_task_result[of "ex_task_id current" "xq_updated_at q" ?d1 d'] obtain ts where
      "d' = ?d1\<lparr>tasks := ts\<rparr>" "\<exists>t. row_by tk_task_id (ex_task_id current) ts = Some t
        \<and> tk_state t \<in> {''running'', ''blocked'', ''waiting''}" by auto
    with True show thesis by (intro that[OF cur ok, of ts]) simp_all
  next
    case False
    with end1 have d': "d' = ?d1" by simp
    show thesis by (rule that[OF cur ok, of "tasks d"]) (use False in \<open>simp_all add: d'\<close>)
  qed
qed

lemma current_version_commit:
  assumes "current_version_tx X r q d = Inr (Commit d' k)"
  obtains w where "d' = d\<lparr>workspaces := update_where (at_revision w (vq_expected_workspace_revision q))
          (touch_workspace (vq_updated_at q)) (workspaces d),
        executions := update_where (execution_at (vq_execution_id q) (vq_expected_execution_revision q))
          (adopt_version (vq_version_id q) (vq_updated_at q)) (executions d)\<rparr>"
    and "lease_live d (vq_lease q) (vq_now_ms q)"
proof -
  obtain e where e: "row_by ex_execution_id (vq_execution_id q) (executions d) = Some e"
    using assms by (cases "row_by ex_execution_id (vq_execution_id q) (executions d)")
      (simp_all add: current_version_tx_def)
  then obtain w where w: "ex_workspace_id e = Some w"
    using assms by (cases "ex_workspace_id e") (simp_all add: current_version_tx_def)
  with e assms show thesis
    by (intro that[of w]) (auto simp: current_version_tx_def split: option.splits if_splits)
qed

lemma attach_operation_commit:
  "attach_operation_tx X r q d = Inr (Commit d' k) \<Longrightarrow>
    d' = d\<lparr>execution_operations := execution_operations d @ [q]\<rparr>
    \<and> row_by eo_operation_id (eo_operation_id q) (execution_operations d) = None
    \<and> (\<exists>e x. row_by ex_execution_id (eo_execution_id q) (executions d) = Some e
        \<and> row_by op_operation_id (eo_operation_id q) (operations d) = Some x
        \<and> op_project_id x = ex_project_id e \<and> op_agent_id x = ex_agent_id e \<and> \<not> owner_mismatch x e)"
  by (auto simp: attach_operation_tx_def split: option.splits if_splits)

text \<open>What every call keeps: executions only evolve, owners only grow.\<close>

definition executions_step :: "db \<Rightarrow> db \<Rightarrow> bool" where
  "executions_step d d' \<longleftrightarrow> executions_kept d d'
     \<and> prefix (execution_operations d) (execution_operations d')"

lemma executions_step_refl [simp]: "executions_step d d"
  by (simp add: executions_step_def keeps_rows_refl)

lemma executions_step_trans:
  assumes "executions_step a b" "executions_step b c"
  shows "executions_step a c"
proof -
  have "executions_kept a b" "executions_kept b c" using assms by (simp_all add: executions_step_def)
  then have "executions_kept a c" by (rule keeps_rows_trans[rotated]) (rule execution_evolves_trans)
  moreover have "prefix (execution_operations a) (execution_operations c)"
    by (rule prefix_order.trans[of _ "execution_operations b"]) (use assms in \<open>simp_all add: executions_step_def\<close>)
  ultimately show ?thesis by (simp add: executions_step_def)
qed

lemma executions_step_same:
  "executions d' = executions d \<Longrightarrow> execution_operations d' = execution_operations d \<Longrightarrow> executions_step d d'"
  by (simp add: executions_step_def keeps_rows_refl)

lemma create_execution_step: "create_execution_tx X r c d = Inr (Commit d' k) \<Longrightarrow> executions_step d d'"
  by (erule create_execution_commit) (simp add: executions_step_def keeps_rows_append)

lemma transition_step: "transition_execution_tx X r q d = Inr (Commit d' k) \<Longrightarrow> executions_step d d'"
proof (erule transition_commit)
  fix current ts
  assume cur: "row_by ex_execution_id (xq_execution_id q) (executions d) = Some current"
    and allowed: "execution_transition_allowed (ex_state current) (xq_next_state q)"
    and d': "d' = d\<lparr>executions := update_where (execution_at (xq_execution_id q) (xq_expected_revision q))
        (advance_execution (xq_next_state q) (xq_outcome q) (xq_updated_at q)) (executions d), tasks := ts\<rparr>"
  have "execution_evolves x (advance_execution (xq_next_state q) (xq_outcome q) (xq_updated_at q) x)"
    if "row_by ex_execution_id i (executions d) = Some x"
      "execution_at (xq_execution_id q) (xq_expected_revision q) x" for x i
  proof -
    have "x = current" using that cur row_by_key[OF that(1)] by (simp add: execution_at_def)
    with allowed show ?thesis by (simp add: execution_evolves_advance)
  qed
  then show "executions_step d d'" unfolding executions_step_def d'
    by (simp add: keeps_rows_update)
qed

lemma current_version_step: "current_version_tx X r q d = Inr (Commit d' k) \<Longrightarrow> executions_step d d'"
  by (erule current_version_commit)
    (simp add: executions_step_def keeps_rows_update execution_evolves_adopt)

lemma attach_step: "attach_operation_tx X r q d = Inr (Commit d' k) \<Longrightarrow> executions_step d d'"
  using attach_operation_commit[of X r q d d' k] by (simp add: executions_step_def keeps_rows_refl)

text \<open>
  Any call on executions with any failpoint armed before it, between steps of the rest of the
  store, which leave the owners alone and may insert executions, as a resume does, but not lose
  or rebind one.
\<close>

inductive execution_step :: "externals \<Rightarrow> metadata_store \<Rightarrow> metadata_store \<Rightarrow> bool" for X where
  create: "execution_step X st (snd (create_execution X (with_failpoint fp st) c))"
| transition: "execution_step X st (snd (transition_execution_internal X (with_failpoint fp st) q))"
| adopt: "execution_step X st (snd (set_execution_current_version X (with_failpoint fp st) v))"
| attach: "execution_step X st (snd (attach_operation_to_execution X (with_failpoint fp st) a))"
| other: "executions_kept (st_db st) (st_db st') \<Longrightarrow>
    execution_operations (st_db st') = execution_operations (st_db st) \<Longrightarrow>
    st_redactor st' = st_redactor st \<Longrightarrow> execution_step X st st'"

lemma execution_run:
  assumes "\<And>r c d d' k. body r c d = Inr (Commit d' k) \<Longrightarrow> executions_step d d'"
  shows "executions_step (st_db st) (st_db (snd (run_op b a prep body (with_failpoint fp st) q)))
    \<and> st_redactor (snd (run_op b a prep body (with_failpoint fp st) q)) = st_redactor st"
proof -
  have "executions_step (st_db st) (st_db (snd (run_op b a prep body (with_failpoint fp st) q)))"
    by (rule run_op_keeps) (use assms in simp_all)
  then show ?thesis by simp
qed

lemma execution_step_keeps:
  assumes "execution_step X st st'"
  shows "executions_step (st_db st) (st_db st') \<and> st_redactor st' = st_redactor st"
  using assms
proof (cases rule: execution_step.cases)
  case (create fp c)
  then show ?thesis unfolding create_execution_def
    by (simp only:) (rule execution_run, rule create_execution_step)
next
  case (transition fp q)
  then show ?thesis unfolding transition_execution_internal_def
    by (simp only:) (rule execution_run, rule transition_step)
next
  case (adopt fp v)
  then show ?thesis unfolding set_execution_current_version_def
    by (simp only:) (rule execution_run, rule current_version_step)
next
  case (attach fp a)
  then show ?thesis unfolding attach_operation_to_execution_def
    by (simp only:) (rule execution_run, rule attach_step)
next
  case other
  then show ?thesis by (simp add: executions_step_def)
qed

lemma execution_steps_keep:
  "(execution_step X)\<^sup>*\<^sup>* st st' \<Longrightarrow>
    executions_step (st_db st) (st_db st') \<and> st_redactor st' = st_redactor st"
proof (induction rule: rtranclp_induct)
  case (step y z)
  with execution_step_keeps[OF step.hyps(2)] executions_step_trans show ?case by metis
qed simp

section \<open>Properties\<close>

lemma owner_stays:
  assumes "prefix (execution_operations d) (execution_operations d')"
    and "row_by eo_operation_id i (execution_operations d) = Some o1"
  shows "row_by eo_operation_id i (execution_operations d') = Some o1"
  using assms by (auto simp: prefix_def row_by_append)

lemma attach_result:
  assumes "attach_operation_to_execution X st q = (Inr o1, st')"
  shows "row_by eo_operation_id (eo_operation_id o1) (execution_operations (st_db st')) = Some o1
    \<and> attach_operation_prep (st_redactor st) q = Inr o1"
proof -
  from run_op_success[OF assms[unfolded attach_operation_to_execution_def]] obtain c where
    prep: "attach_operation_prep (st_redactor st) q = Inr c"
    and ran: "(attach_operation_tx X (st_redactor st) c (st_db st) = Inr (Finished o1) \<and> st' = st)
      \<or> (\<exists>k. attach_operation_tx X (st_redactor st) c (st_db st) = Inr (Commit (st_db st') k)
          \<and> k (st_db st') = Inr o1)" by (elim exE conjE)
  from ran show ?thesis
  proof (elim disjE exE conjE)
    assume f: "attach_operation_tx X (st_redactor st) c (st_db st) = Inr (Finished o1)" and st': "st' = st"
    from f have "row_by eo_operation_id (eo_operation_id c) (execution_operations (st_db st)) = Some o1" "o1 = c"
      by (auto simp: attach_operation_tx_def split: option.splits if_splits)
    with prep st' show ?thesis by simp
  next
    fix k assume body: "attach_operation_tx X (st_redactor st) c (st_db st) = Inr (Commit (st_db st') k)"
      and k: "k (st_db st') = Inr o1"
    from attach_operation_commit[OF body]
    have eos: "execution_operations (st_db st') = execution_operations (st_db st) @ [c]"
      and new: "row_by eo_operation_id (eo_operation_id c) (execution_operations (st_db st)) = None" by auto
    have "k = (\<lambda>d'. try_then (execution_operation_read X (st_redactor st) d' (eo_execution_id c) (eo_operation_id c))
        (\<lambda>found. case found of None \<Rightarrow> Inl (Integrity ''execution ownership disappeared'') | Some z \<Rightarrow> Inr z))"
      using body by (auto simp: attach_operation_tx_def split: option.splits if_splits)
    with k have "row_by (\<lambda>o1. (eo_execution_id o1, eo_operation_id o1)) (eo_execution_id c, eo_operation_id c)
        (execution_operations (st_db st')) = Some o1"
      by (auto simp: execution_operation_read_def split: option.splits if_splits)
    from row_by_in[OF this] row_by_key[OF this] have "o1 \<in> set (execution_operations (st_db st) @ [c])"
      "eo_operation_id o1 = eo_operation_id c" by (simp_all add: eos)
    moreover from this have "o1 \<notin> set (execution_operations (st_db st))"
      using new by (metis imageI row_by_None)
    ultimately have "o1 = c" by simp
    with prep new eos show ?thesis by (simp add: row_by_append)
  qed
qed

text \<open>
  C18. An operation has one owner for ever: after it has been attached to an execution, any
  later attachment of the same operation that succeeds, through any calls and faults in between,
  names the same execution and time, and the stored owner is still the first one.
\<close>

theorem operation_owned_once:
  assumes "attach_operation_to_execution X st q = (Inr o1, st1)" "(execution_step X)\<^sup>*\<^sup>* st1 st2"
    and "attach_operation_to_execution X st2 q' = (Inr o2, st3)" "eo_operation_id o2 = eo_operation_id o1"
  shows "o2 = o1 \<and> row_by eo_operation_id (eo_operation_id o1) (execution_operations (st_db st3)) = Some o1"
proof -
  let ?i = "eo_operation_id o1"
  have "row_by eo_operation_id ?i (execution_operations (st_db st1)) = Some o1" using attach_result[OF assms(1)] by simp
  with execution_steps_keep[OF assms(2)] owner_stays have two:
    "row_by eo_operation_id ?i (execution_operations (st_db st2)) = Some o1" unfolding executions_step_def by blast
  have "executions_step (st_db st2) (st_db st3)"
    using execution_run[of "attach_operation_tx X" st2 BeforeSqliteCommit AfterSqliteCommit attach_operation_prep
        "st_failpoints st2" q', OF attach_step] assms(3)
    by (simp add: attach_operation_to_execution_def with_failpoint_def)
  with two owner_stays have three: "row_by eo_operation_id ?i (execution_operations (st_db st3)) = Some o1"
    unfolding executions_step_def by blast
  moreover have "row_by eo_operation_id ?i (execution_operations (st_db st3)) = Some o2"
    using attach_result[OF assms(3)] assms(4) by simp
  ultimately show ?thesis by simp
qed

text \<open>
  Starting an execution. When the execution already runs without an outcome, the call
  succeeds and changes nothing, in whatever state the task is. Otherwise a success means that
  one commit has moved the execution to running and left its task running, blocked or waiting.
\<close>

lemma start_execution_and_task:
  assumes "safe_policy (st_redactor st)"
    and "row_by ex_execution_id (redact_text (st_redactor st) i) (executions (st_db st)) = Some cur"
    and "start_execution X st i n u = (Inr e, st')"
  shows "if ex_state cur = ''running'' \<and> ex_outcome cur = None then e = cur \<and> st' = st
    else ex_state e = ''running'' \<and> ex_task_id e = ex_task_id cur \<and> ex_revision e = n + 1
      \<and> (\<exists>t. row_by tk_task_id (ex_task_id cur) (tasks (st_db st')) = Some t
            \<and> tk_state t \<in> {''running'', ''blocked'', ''waiting''})"
proof -
  let ?r = "st_redactor st"
  let ?q = "\<lparr>xq_execution_id = i, xq_next_state = ''running'', xq_outcome = None,
    xq_expected_revision = n, xq_updated_at = u, xq_start_task = True\<rparr>"
  from run_op_success[OF assms(3)[unfolded start_execution_def transition_execution_internal_def]]
  obtain c where prep: "transition_prep ?r ?q = Inr c"
    and ran: "(transition_execution_tx X ?r c (st_db st) = Inr (Finished e) \<and> st' = st)
      \<or> (\<exists>k. transition_execution_tx X ?r c (st_db st) = Inr (Commit (st_db st') k) \<and> k (st_db st') = Inr e)"
    by (elim exE conjE)
  have c: "xq_execution_id c = redact_text ?r i" "xq_next_state c = redact_text ?r ''running''"
    "xq_outcome c = None" "xq_expected_revision c = n" "xq_start_task c"
    and valid: "redact_text ?r ''running'' \<in> set execution_states"
    using prep by (auto simp: transition_prep_def validate_execution_state_def redact_opt_def split: if_splits)
  have c2: "xq_next_state c = ''running''"
    using redact_text_unmarked[OF assms(1) refl, of "''running''"] valid c(2) by (auto simp: execution_states_def)
  have cur: "row_by ex_execution_id (xq_execution_id c) (executions (st_db st)) = Some cur"
    using assms(2) c(1) by simp
  from ran show ?thesis
  proof (elim disjE exE conjE)
    assume "transition_execution_tx X ?r c (st_db st) = Inr (Finished e)" "st' = st"
    with cur c2 c(3) show ?thesis
      by (auto simp: transition_execution_tx_def Let_def split: if_splits)
  next
    fix k assume body: "transition_execution_tx X ?r c (st_db st) = Inr (Commit (st_db st') k)" and k: "k (st_db st') = Inr e"
    obtain ts where d': "st_db st' = (st_db st)\<lparr>executions := update_where
          (execution_at (xq_execution_id c) (xq_expected_revision c))
          (advance_execution (xq_next_state c) (xq_outcome c) (xq_updated_at c)) (executions (st_db st)), tasks := ts\<rparr>"
      and allowed: "execution_transition_allowed (ex_state cur) (xq_next_state c)"
      and rev: "ex_revision cur = xq_expected_revision c"
      and task: "\<exists>t. row_by tk_task_id (ex_task_id cur) ts = Some t
        \<and> tk_state t \<in> {''running'', ''blocked'', ''waiting''}"
      by (rule transition_commit[OF body, unfolded cur option.inject]) (use c(5) in blast)
    have kd: "k = execution_read_back X ?r (xq_execution_id c) ''execution disappeared after transition''"
      and no: "\<not> (ex_state cur = ''running'' \<and> ex_outcome cur = None)"
      using body cur c2 c(3) by (auto simp: transition_execution_tx_def Let_def split: if_splits)
    have "execution_at (xq_execution_id c) n cur" using row_by_key[OF cur] rev c(4) by (simp add: execution_at_def)
    then have row: "row_by ex_execution_id (xq_execution_id c) (executions (st_db st'))
        = Some (advance_execution ''running'' None (xq_updated_at c) cur)"
      using cur by (simp add: d' row_by_update c(3,4) c2)
    have "e = advance_execution ''running'' None (xq_updated_at c) cur"
      using k row c(1) by (auto simp: kd execution_read_back_def execution_by_def redact_idem[OF assms(1)])
    with no task rev c(4) show ?thesis by (auto simp: d' advance_execution_def)
  qed
qed

section \<open>The properties at a concrete execution\<close>

definition sample_execution :: "utf8 \<Rightarrow> execution_record" where
  "sample_execution s = (new_execution_row \<lparr>ec_execution_id = ''o1'', ec_task_id = ''t1'',
     ec_agent_id = ''a1'', ec_parent_execution_id = None, ec_workspace_id = None,
     ec_base_version_id = None, ec_current_version_id = None, ec_created_at = ''d1''\<rparr> ''p1'')
     \<lparr>ex_state := s\<rparr>"

definition sample_executor :: "utf8 \<Rightarrow> metadata_store" where
  "sample_executor s = (open_store default_redactor)\<lparr>st_db := (empty_db default_redactor)
     \<lparr>operations := [sample_operation],
      agent_identities := [\<lparr>ai_agent_id = ''a1'', ai_provider = ''v'', ai_display_name = None,
        ai_created_at = ''d1''\<rparr>],
      tasks := [new_task_row Task_Store.sample_creation], executions := [sample_execution s]\<rparr>\<rparr>"

lemma sample_executor_simps [simp]:
  "executions (st_db (sample_executor s)) = [sample_execution s]"
  "operations (st_db (sample_executor s)) = [sample_operation]"
  "execution_operations (st_db (sample_executor s)) = []"
  "st_redactor (sample_executor s) = default_redactor" "st_failpoints (sample_executor s) = None"
  "ex_execution_id (sample_execution s) = ''o1''" "ex_state (sample_execution s) = s"
  "ex_outcome (sample_execution s) = None" "ex_project_id (sample_execution s) = ''p1''"
  "ex_agent_id (sample_execution s) = ''a1''" "ex_workspace_id (sample_execution s) = None"
  by (simp_all add: sample_executor_def sample_execution_def new_execution_row_def empty_db_def)

definition sample_owner :: execution_operation where
  "sample_owner = \<lparr>eo_execution_id = ''o1'', eo_operation_id = ''o1'', eo_created_at = ''d2''\<rparr>"

lemma sample_attached:
  "attach_operation_to_execution sample_externals (sample_executor ''running'') sample_owner
    = (Inr sample_owner, (sample_executor ''running'')\<lparr>st_db := (st_db (sample_executor ''running''))
        \<lparr>execution_operations := [sample_owner]\<rparr>\<rparr>)"
proof -
  let ?X = sample_externals and ?d = "st_db (sample_executor ''running'')"
  let ?d1 = "?d\<lparr>execution_operations := [sample_owner]\<rparr>"
  have prep: "attach_operation_prep default_redactor sample_owner = Inr sample_owner"
    by (simp add: attach_operation_prep_def sample_owner_def Let_def del: check_all.simps)
  have op: "op_project_id sample_operation = ''p1''" "op_agent_id sample_operation = ''a1''"
    "op_workspace_id sample_operation = None"
    by (simp_all add: sample_operation_def started_row_def sample_envelope_def)
  have "validate_execution_record ?X default_redactor ?d1 (sample_execution ''running'') = Inr ()"
    by (simp add: validate_execution_record_def task_by_def execution_links_def agent_identity_by_def
        sample_executor_def sample_execution_def new_execution_row_def new_task_row_def
        Task_Store.sample_creation_def)
  then have read: "execution_operation_read ?X default_redactor ?d1 ''o1'' ''o1'' = Inr (Some sample_owner)"
    by (simp add: execution_operation_read_def execution_by_def operation_by_def op owner_mismatch_def)
      (simp add: sample_owner_def)
  have "attach_operation_tx ?X default_redactor sample_owner ?d = Inr (Commit ?d1
      (\<lambda>d'. try_then (execution_operation_read ?X default_redactor d' ''o1'' ''o1'')
        (\<lambda>found. case found of None \<Rightarrow> Inl (Integrity ''execution ownership disappeared'') | Some z \<Rightarrow> Inr z)))"
    by (simp add: attach_operation_tx_def op owner_mismatch_def) (simp add: sample_owner_def)
  with prep read show ?thesis
    by (simp add: attach_operation_to_execution_def run_op_def run_tx_unarmed)
qed

theorem operation_owned_once_witness:
  "let st1 = snd (attach_operation_to_execution sample_externals (sample_executor ''running'') sample_owner)
   in row_by eo_operation_id ''o1'' (execution_operations
      (st_db (snd (attach_operation_to_execution sample_externals st1 sample_owner)))) = Some sample_owner"
proof -
  let ?X = sample_externals
  obtain st1 where one: "attach_operation_to_execution ?X (sample_executor ''running'') sample_owner
      = (Inr sample_owner, st1)" and st1: "executions (st_db st1) = [sample_execution ''running'']"
    "operations (st_db st1) = [sample_operation]" "execution_operations (st_db st1) = [sample_owner]"
    "st_redactor st1 = default_redactor" using sample_attached by simp
  have op: "op_project_id sample_operation = ''p1''" "op_agent_id sample_operation = ''a1''"
    "op_workspace_id sample_operation = None"
    by (simp_all add: sample_operation_def started_row_def sample_envelope_def)
  have prep: "attach_operation_prep default_redactor sample_owner = Inr sample_owner"
    by (simp add: attach_operation_prep_def sample_owner_def Let_def del: check_all.simps)
  have o1: "eo_operation_id sample_owner = ''o1''" "eo_execution_id sample_owner = ''o1''"
    by (simp_all add: sample_owner_def)
  have two: "attach_operation_to_execution ?X st1 sample_owner = (Inr sample_owner, st1)"
    using prep by (simp add: attach_operation_to_execution_def run_op_def attach_operation_tx_def st1 op
        owner_mismatch_def o1 run_tx_def)
  from operation_owned_once[OF one rtranclp.rtrancl_refl two] show ?thesis by (simp add: one two o1)
qed

lemma start_execution_and_task_witness:
  "\<exists>t. start_execution sample_externals (sample_executor ''running'') ''o1'' 0 ''d2''
      = (Inr (sample_execution ''running''), sample_executor ''running'')
    \<and> row_by tk_task_id ''t1'' (tasks (st_db (sample_executor ''running''))) = Some t \<and> tk_state t = ''created''"
proof -
  let ?st = "sample_executor ''running''"
  obtain e st' where run: "start_execution sample_externals ?st ''o1'' 0 ''d2'' = (Inr e, st')"
    by (simp add: start_execution_def transition_execution_internal_def run_op_def transition_prep_def
        validate_execution_state_def execution_states_def transition_execution_tx_def run_tx_def redact_opt_def)
  have row: "row_by ex_execution_id (redact_text (st_redactor ?st) ''o1'') (executions (st_db ?st))
      = Some (sample_execution ''running'')" by simp
  have safe: "safe_policy (st_redactor ?st)" by simp
  from start_execution_and_task[OF safe row run] have "e = sample_execution ''running'' \<and> st' = ?st" by simp
  with run show ?thesis by (simp add: sample_executor_def new_task_row_def Task_Store.sample_creation_def)
qed

end
