(* ===== verification/Route_Store.thy ===== *)
theory Route_Store
  imports Execution_Store
begin

text \<open>
  Explorations and routes (\<open>create_exploration\<close>, \<open>create_route\<close>, \<open>update_route_status\<close>,
  \<open>attach_execution_to_route\<close> and their reads in \<open>src/src/metadata.rs\<close>): an exploration groups
  the routes tried for a task, a route starts at a version or a checkpoint, and executions are
  attached to at most one route. The lemmas show that routes and attachments stay in the scope
  of their task.
\<close>

section \<open>Explorations\<close>

definition redact_exploration_creation :: "redactor \<Rightarrow> exploration_record \<Rightarrow> exploration_record res" where
  "redact_exploration_creation r c0 =
     (let c = \<lparr>xp_exploration_id = redact_text r (xp_exploration_id c0),
               xp_task_id = redact_text r (xp_task_id c0),
               xp_created_by = redact_text r (xp_created_by c0),
               xp_purpose_ref = redact_opt r (xp_purpose_ref c0),
               xp_created_at = redact_text r (xp_created_at c0)\<rparr> in
      try_then (validate_labelled [(xp_exploration_id c, ''exploration id''),
          (xp_task_id c, ''exploration task id''), (xp_created_by c, ''exploration creator''),
          (xp_created_at c, ''exploration created_at'')]) (\<lambda>_.
      try_then (validate_opt (xp_purpose_ref c) ''exploration purpose reference'') (\<lambda>_.
      Inr c)))"

definition exploration_by :: "redactor \<Rightarrow> db \<Rightarrow> utf8 \<Rightarrow> exploration_record option" where
  "exploration_by r d exploration_id =
     row_by xp_exploration_id (redact_text r exploration_id) (explorations d)"

definition list_explorations :: "redactor \<Rightarrow> db \<Rightarrow> utf8 \<Rightarrow> exploration_record list" where
  "list_explorations r d task_id = order_rows (\<lambda>x. (xp_created_at x, xp_exploration_id x))
     (filter (\<lambda>x. xp_task_id x = redact_text r task_id) (explorations d))"

definition create_exploration_tx ::
  "redactor \<Rightarrow> exploration_record \<Rightarrow> db \<Rightarrow> exploration_record tx_end res" where
  "create_exploration_tx r c d =
     (if row_by tk_task_id (xp_task_id c) (tasks d) = None
      then Inl (NotFound ''exploration task does not exist'')
      else if row_by ai_agent_id (xp_created_by c) (agent_identities d) = None
      then Inl (NotFound ''exploration creator does not exist'')
      else (case row_by xp_exploration_id (xp_exploration_id c) (explorations d) of
         Some existing \<Rightarrow>
           if existing \<noteq> c then Inl (IdempotencyKeyReuse (xp_exploration_id c))
           else Inr (Finished existing)
       | None \<Rightarrow>
           Inr (Commit (d\<lparr>explorations := explorations d @ [c]\<rparr>)
             (\<lambda>d'. case exploration_by r d' (xp_exploration_id c) of
                     None \<Rightarrow> Inl (Integrity ''exploration disappeared after creation'')
                   | Some x \<Rightarrow> Inr x))))"

definition create_exploration ::
  "metadata_store \<Rightarrow> exploration_record \<Rightarrow> exploration_record res \<times> metadata_store" where
  "create_exploration = sqlite_op redact_exploration_creation create_exploration_tx"

section \<open>Routes\<close>

definition redact_route_creation :: "redactor \<Rightarrow> route_record \<Rightarrow> route_record res" where
  "redact_route_creation r c0 =
     (let c = \<lparr>ro_route_id = redact_text r (ro_route_id c0),
               ro_exploration_id = redact_text r (ro_exploration_id c0),
               ro_source_kind = redact_text r (ro_source_kind c0),
               ro_source_id = redact_text r (ro_source_id c0),
               ro_status = redact_text r (ro_status c0),
               ro_terminal_version_id = redact_opt r (ro_terminal_version_id c0),
               ro_created_by = redact_text r (ro_created_by c0),
               ro_purpose_ref = redact_opt r (ro_purpose_ref c0),
               ro_created_at = redact_text r (ro_created_at c0)\<rparr> in
      try_then (validate_labelled [(ro_route_id c, ''route id''),
          (ro_exploration_id c, ''route exploration id''), (ro_source_kind c, ''route source kind''),
          (ro_source_id c, ''route source id''), (ro_status c, ''route status''),
          (ro_created_by c, ''route creator''), (ro_created_at c, ''route created_at'')]) (\<lambda>_.
      try_then (validate_opt (ro_terminal_version_id c) ''route terminal Version id'') (\<lambda>_.
      try_then (validate_opt (ro_purpose_ref c) ''route purpose reference'') (\<lambda>_.
      Inr c))))"

definition validate_route_status :: "utf8 \<Rightarrow> unit res" where
  "validate_route_status status =
     (if status \<in> {''active'', ''paused'', ''failed'', ''completed'', ''abandoned''} then Inr ()
      else Inl (InvalidInput ''route status is not supported''))"

definition route_prep :: "redactor \<Rightarrow> route_record \<Rightarrow> route_record res" where
  "route_prep r c0 = try_then (redact_route_creation r c0) (\<lambda>c.
     try_then (validate_route_status (ro_status c)) (\<lambda>_. Inr c))"

text \<open>The task and the project an exploration belongs to (the join of the two tables).\<close>

definition exploration_scope :: "db \<Rightarrow> utf8 \<Rightarrow> (utf8 \<times> utf8) option" where
  "exploration_scope d exploration_id =
     (case row_by xp_exploration_id exploration_id (explorations d) of
        None \<Rightarrow> None
      | Some x \<Rightarrow> map_option (\<lambda>t. (xp_task_id x, tk_project_id t))
          (row_by tk_task_id (xp_task_id x) (tasks d)))"

definition route_source :: "db \<Rightarrow> route_record \<Rightarrow> utf8 \<times> utf8 \<Rightarrow> unit res" where
  "route_source d c scope =
     (if ro_source_kind c = ''version'' then
        (case row_by ve_version_id (ro_source_id c) (versions d) of
           None \<Rightarrow> Inl (NotFound ''route source Version does not exist'')
         | Some v \<Rightarrow>
             if ve_project_id v \<noteq> snd scope
             then Inl (Conflict ''route source Version project scope does not match exploration'')
             else Inr ())
      else if ro_source_kind c = ''checkpoint'' then
        (case row_by cr_checkpoint_id (ro_source_id c) (checkpoints d) of
           None \<Rightarrow> Inl (NotFound ''route source Checkpoint does not exist'')
         | Some k \<Rightarrow>
             if cr_task_id k \<noteq> fst scope
             then Inl (Conflict ''route source Checkpoint task scope does not match exploration'')
             else (case row_by ve_version_id (cr_version_id k) (versions d) of
                None \<Rightarrow> Inl (Integrity ''route source Checkpoint references a missing Version'')
              | Some v \<Rightarrow>
                  if ve_project_id v \<noteq> snd scope \<or> ve_workspace_id v \<noteq> cr_workspace_id k
                  then Inl (Conflict ''route source Checkpoint Version scope is invalid'')
                  else Inr ()))
      else Inl (InvalidInput ''route source kind must be version or checkpoint''))"

definition route_by :: "redactor \<Rightarrow> db \<Rightarrow> utf8 \<Rightarrow> route_record option" where
  "route_by r d route_id = row_by ro_route_id (redact_text r route_id) (routes d)"

definition list_routes :: "redactor \<Rightarrow> db \<Rightarrow> utf8 \<Rightarrow> route_record list" where
  "list_routes r d exploration_id = order_rows (\<lambda>x. (ro_created_at x, ro_route_id x))
     (filter (\<lambda>x. ro_exploration_id x = redact_text r exploration_id) (routes d))"

definition create_route_tx :: "redactor \<Rightarrow> route_record \<Rightarrow> db \<Rightarrow> route_record tx_end res" where
  "create_route_tx r c d =
     (case exploration_scope d (ro_exploration_id c) of
        None \<Rightarrow> Inl (NotFound ''route exploration does not exist'')
      | Some scope \<Rightarrow>
          if row_by ai_agent_id (ro_created_by c) (agent_identities d) = None
          then Inl (NotFound ''route creator does not exist'')
          else try_then (route_source d c scope) (\<lambda>_.
          if (case ro_terminal_version_id c of None \<Rightarrow> False
              | Some i \<Rightarrow> map_option ve_project_id (row_by ve_version_id i (versions d))
                  \<noteq> Some (snd scope))
          then Inl (Conflict ''route terminal Version project scope does not match exploration'')
          else (case row_by ro_route_id (ro_route_id c) (routes d) of
             Some existing \<Rightarrow>
               if existing \<noteq> c then Inl (IdempotencyKeyReuse (ro_route_id c))
               else Inr (Finished existing)
           | None \<Rightarrow>
               Inr (Commit (d\<lparr>routes := routes d @ [c]\<rparr>)
                 (\<lambda>d'. case route_by r d' (ro_route_id c) of
                         None \<Rightarrow> Inl (Integrity ''route disappeared after creation'')
                       | Some x \<Rightarrow> Inr x)))))"

definition create_route :: "metadata_store \<Rightarrow> route_record \<Rightarrow> route_record res \<times> metadata_store" where
  "create_route = sqlite_op route_prep create_route_tx"

definition update_route_prep :: "redactor \<Rightarrow> utf8 \<times> utf8 \<Rightarrow> (utf8 \<times> utf8) res" where
  "update_route_prep r q =
     (let i = redact_text r (fst q); s = redact_text r (snd q) in
      try_then (validate_non_empty i ''route id'') (\<lambda>_.
      try_then (validate_non_empty s ''route status'') (\<lambda>_.
      try_then (validate_route_status s) (\<lambda>_. Inr (i, s)))))"

definition update_route_status_tx :: "redactor \<Rightarrow> utf8 \<times> utf8 \<Rightarrow> db \<Rightarrow> route_record tx_end res" where
  "update_route_status_tx r q d =
     (case row_by ro_route_id (fst q) (routes d) of
        None \<Rightarrow> Inl (NotFound ''route does not exist'')
      | Some current \<Rightarrow>
          if ro_status current = snd q then Inr (Finished current)
          else Inr (Commit
            (d\<lparr>routes := update_where (\<lambda>x. ro_route_id x = fst q) (\<lambda>x. x\<lparr>ro_status := snd q\<rparr>) (routes d)\<rparr>)
            (\<lambda>d'. case route_by r d' (fst q) of
                    None \<Rightarrow> Inl (Integrity ''route disappeared after status update'')
                  | Some x \<Rightarrow> Inr x)))"

definition update_route_status ::
  "metadata_store \<Rightarrow> utf8 \<times> utf8 \<Rightarrow> route_record res \<times> metadata_store" where
  "update_route_status = sqlite_op update_route_prep update_route_status_tx"

section \<open>Attachments\<close>

definition redact_route_execution_attachment ::
  "redactor \<Rightarrow> route_attachment \<Rightarrow> route_attachment res" where
  "redact_route_execution_attachment r c0 =
     (let c = \<lparr>ra_route_id = redact_text r (ra_route_id c0),
               ra_execution_id = redact_text r (ra_execution_id c0),
               ra_attached_at = redact_text r (ra_attached_at c0)\<rparr> in
      try_then (validate_labelled [(ra_route_id c, ''route id''),
          (ra_execution_id c, ''route execution id''), (ra_attached_at c, ''route attached_at'')]) (\<lambda>_.
      Inr c))"

definition route_scope :: "db \<Rightarrow> utf8 \<Rightarrow> (utf8 \<times> utf8) option" where
  "route_scope d route_id = (case row_by ro_route_id route_id (routes d) of
     None \<Rightarrow> None | Some x \<Rightarrow> exploration_scope d (ro_exploration_id x))"

definition execution_scope :: "db \<Rightarrow> utf8 \<Rightarrow> (utf8 \<times> utf8) option" where
  "execution_scope d execution_id = map_option (\<lambda>e. (ex_task_id e, ex_project_id e))
     (row_by ex_execution_id execution_id (executions d))"

definition attach_execution_tx ::
  "redactor \<Rightarrow> route_attachment \<Rightarrow> db \<Rightarrow> route_attachment tx_end res" where
  "attach_execution_tx r c d =
     (case route_scope d (ra_route_id c) of
        None \<Rightarrow> Inl (NotFound ''route does not exist'')
      | Some scope \<Rightarrow>
     (case execution_scope d (ra_execution_id c) of
        None \<Rightarrow> Inl (NotFound ''route execution does not exist'')
      | Some found \<Rightarrow>
          if found \<noteq> scope
          then Inl (Conflict ''route execution task/project scope does not match route'')
          else (case row_by ra_execution_id (ra_execution_id c) (route_executions d) of
             Some existing \<Rightarrow>
               if existing = c then Inr (Finished existing)
               else Inl (Conflict ''execution is already attached to another route'')
           | None \<Rightarrow> Inr (Commit (d\<lparr>route_executions := route_executions d @ [c]\<rparr>) (\<lambda>_. Inr c)))))"

definition attach_execution_to_route ::
  "metadata_store \<Rightarrow> route_attachment \<Rightarrow> route_attachment res \<times> metadata_store" where
  "attach_execution_to_route = sqlite_op redact_route_execution_attachment attach_execution_tx"

definition list_route_executions :: "redactor \<Rightarrow> db \<Rightarrow> utf8 \<Rightarrow> route_attachment list" where
  "list_route_executions r d route_id = order_rows (\<lambda>x. (ra_attached_at x, ra_execution_id x))
     (filter (\<lambda>x. ra_route_id x = redact_text r route_id) (route_executions d))"

section \<open>Routes stay in the scope of their task\<close>

text \<open>What a route and an attachment were checked against, as a condition on the tables.\<close>

definition route_good :: "db \<Rightarrow> route_record \<Rightarrow> bool" where
  "route_good d x \<longleftrightarrow> (\<exists>scope. exploration_scope d (ro_exploration_id x) = Some scope
     \<and> route_source d x scope = Inr ()
     \<and> (\<forall>i. ro_terminal_version_id x = Some i \<longrightarrow>
           map_option ve_project_id (row_by ve_version_id i (versions d)) = Some (snd scope)))"

definition attachment_good :: "db \<Rightarrow> route_attachment \<Rightarrow> bool" where
  "attachment_good d a \<longleftrightarrow> (\<exists>scope. route_scope d (ra_route_id a) = Some scope
     \<and> execution_scope d (ra_execution_id a) = Some scope)"

definition routes_ok :: "db \<Rightarrow> bool" where
  "routes_ok d \<longleftrightarrow> unique_by ro_route_id (routes d) \<and> unique_by ra_execution_id (route_executions d)
     \<and> (\<forall>x \<in> set (routes d). route_good d x) \<and> (\<forall>a \<in> set (route_executions d). attachment_good d a)"

text \<open>The rows routes refer to are never lost and keep the columns that were checked.\<close>

definition same_task :: "execution_record \<Rightarrow> execution_record \<Rightarrow> bool" where
  "same_task x y \<longleftrightarrow> ex_task_id y = ex_task_id x \<and> ex_project_id y = ex_project_id x"

definition routes_context :: "db \<Rightarrow> db \<Rightarrow> bool" where
  "routes_context d d' \<longleftrightarrow> keeps_rows xp_exploration_id (=) (explorations d) (explorations d')
     \<and> keeps_rows tk_task_id (\<lambda>x y. tk_project_id y = tk_project_id x) (tasks d) (tasks d')
     \<and> keeps_rows ve_version_id (=) (versions d) (versions d')
     \<and> keeps_rows cr_checkpoint_id (=) (checkpoints d) (checkpoints d')
     \<and> keeps_rows ex_execution_id same_task (executions d) (executions d')
     \<and> keeps_rows ro_route_id (\<lambda>x y. ro_exploration_id y = ro_exploration_id x) (routes d) (routes d')"

lemma keeps_rows_same: "keeps_rows key (=) rows rows' \<Longrightarrow> row_by key i rows = Some x \<Longrightarrow>
    row_by key i rows' = Some x"
  by (simp add: keeps_rows_def)

lemma exploration_scope_kept:
  assumes "routes_context d d'" "exploration_scope d i = Some s"
  shows "exploration_scope d' i = Some s"
proof -
  obtain x t where x: "row_by xp_exploration_id i (explorations d) = Some x"
    and t: "row_by tk_task_id (xp_task_id x) (tasks d) = Some t" and s: "s = (xp_task_id x, tk_project_id t)"
    using assms(2) by (auto simp: exploration_scope_def split: option.splits)
  from assms(1) have "row_by xp_exploration_id i (explorations d') = Some x"
    by (intro keeps_rows_same[OF _ x]) (simp add: routes_context_def)
  moreover have "\<exists>t'. row_by tk_task_id (xp_task_id x) (tasks d') = Some t' \<and> tk_project_id t' = tk_project_id t"
    using assms(1) t unfolding routes_context_def keeps_rows_def by blast
  ultimately show ?thesis using s by (auto simp: exploration_scope_def)
qed

lemma route_scope_kept:
  assumes "routes_context d d'" "route_scope d i = Some s"
  shows "route_scope d' i = Some s"
proof -
  obtain x where x: "row_by ro_route_id i (routes d) = Some x" "exploration_scope d (ro_exploration_id x) = Some s"
    using assms(2) by (auto simp: route_scope_def split: option.splits)
  obtain y where "row_by ro_route_id i (routes d') = Some y" "ro_exploration_id y = ro_exploration_id x"
    using assms(1) x(1) unfolding routes_context_def keeps_rows_def by blast
  with exploration_scope_kept[OF assms(1) x(2)] show ?thesis by (simp add: route_scope_def)
qed

lemma execution_scope_kept:
  assumes "routes_context d d'" "execution_scope d i = Some s"
  shows "execution_scope d' i = Some s"
proof -
  obtain x where x: "row_by ex_execution_id i (executions d) = Some x" "s = (ex_task_id x, ex_project_id x)"
    using assms(2) by (auto simp: execution_scope_def)
  obtain y where "row_by ex_execution_id i (executions d') = Some y" "same_task x y"
    using assms(1) x(1) unfolding routes_context_def keeps_rows_def by blast
  with x(2) show ?thesis by (simp add: execution_scope_def same_task_def)
qed

lemma route_source_kept:
  assumes "routes_context d d'" "route_source d x s = Inr ()"
  shows "route_source d' x s = Inr ()"
proof -
  have v: "row_by ve_version_id i (versions d') = Some v" if "row_by ve_version_id i (versions d) = Some v" for i v
    by (rule keeps_rows_same[OF _ that]) (use assms(1) in \<open>simp add: routes_context_def\<close>)
  have k: "row_by cr_checkpoint_id i (checkpoints d') = Some k"
    if "row_by cr_checkpoint_id i (checkpoints d) = Some k" for i k
    by (rule keeps_rows_same[OF _ that]) (use assms(1) in \<open>simp add: routes_context_def\<close>)
  show ?thesis
  proof (cases "ro_source_kind x = ''version''")
    case True
    with assms(2) obtain w where "row_by ve_version_id (ro_source_id x) (versions d) = Some w"
      "ve_project_id w = snd s" by (auto simp: route_source_def split: option.splits if_splits)
    with v[OF this(1)] True show ?thesis by (simp add: route_source_def)
  next
    case False
    with assms(2) obtain p w where kind: "ro_source_kind x = ''checkpoint''"
      and p: "row_by cr_checkpoint_id (ro_source_id x) (checkpoints d) = Some p" "cr_task_id p = fst s"
      and w: "row_by ve_version_id (cr_version_id p) (versions d) = Some w" "ve_project_id w = snd s"
        "ve_workspace_id w = cr_workspace_id p"
      by (auto simp: route_source_def split: option.splits if_splits)
    show ?thesis by (simp add: route_source_def kind k[OF p(1)] v[OF w(1)] p(2) w(2,3))
  qed
qed

lemma route_good_kept:
  assumes "routes_context d d'" "route_good d x"
  shows "route_good d' x"
proof -
  obtain s where s: "exploration_scope d (ro_exploration_id x) = Some s" "route_source d x s = Inr ()"
    and ends: "\<forall>i. ro_terminal_version_id x = Some i \<longrightarrow>
      map_option ve_project_id (row_by ve_version_id i (versions d)) = Some (snd s)"
    using assms(2) unfolding route_good_def by blast
  have "map_option ve_project_id (row_by ve_version_id i (versions d')) = Some (snd s)"
    if "ro_terminal_version_id x = Some i" for i
  proof -
    from ends that obtain v where "row_by ve_version_id i (versions d) = Some v" "ve_project_id v = snd s" by auto
    moreover have "keeps_rows ve_version_id (=) (versions d) (versions d')"
      using assms(1) by (simp add: routes_context_def)
    ultimately show ?thesis using keeps_rows_same by fastforce
  qed
  with exploration_scope_kept[OF assms(1) s(1)] route_source_kept[OF assms(1) s(2)]
  show ?thesis unfolding route_good_def by blast
qed

lemma attachment_good_kept: "routes_context d d' \<Longrightarrow> attachment_good d a \<Longrightarrow> attachment_good d' a"
  unfolding attachment_good_def using route_scope_kept execution_scope_kept by blast

lemma route_good_status [simp]: "route_good d (x\<lparr>ro_status := s\<rparr>) = route_good d x"
  by (simp add: route_good_def route_source_def)

text \<open>The context of a change: each table is unchanged, or has new rows, or new statuses.\<close>

lemma routes_context_refl [simp]: "routes_context d d"
  by (simp add: routes_context_def keeps_rows_refl same_task_def)

lemma routes_context_trans:
  assumes "routes_context a b" "routes_context b c"
  shows "routes_context a c"
  unfolding routes_context_def
proof (intro conjI)
  show "keeps_rows xp_exploration_id (=) (explorations a) (explorations c)"
    using assms unfolding routes_context_def by (elim conjE) (rule keeps_rows_trans[of _ _ _ "explorations b"]; simp)
  show "keeps_rows tk_task_id (\<lambda>x y. tk_project_id y = tk_project_id x) (tasks a) (tasks c)"
    using assms unfolding routes_context_def by (elim conjE) (rule keeps_rows_trans[of _ _ _ "tasks b"]; simp)
  show "keeps_rows ve_version_id (=) (versions a) (versions c)"
    using assms unfolding routes_context_def by (elim conjE) (rule keeps_rows_trans[of _ _ _ "versions b"]; simp)
  show "keeps_rows cr_checkpoint_id (=) (checkpoints a) (checkpoints c)"
    using assms unfolding routes_context_def by (elim conjE) (rule keeps_rows_trans[of _ _ _ "checkpoints b"]; simp)
  show "keeps_rows ex_execution_id same_task (executions a) (executions c)"
    using assms unfolding routes_context_def
    by (elim conjE) (rule keeps_rows_trans[of _ _ _ "executions b"]; simp add: same_task_def)
  show "keeps_rows ro_route_id (\<lambda>x y. ro_exploration_id y = ro_exploration_id x) (routes a) (routes c)"
    using assms unfolding routes_context_def by (elim conjE) (rule keeps_rows_trans[of _ _ _ "routes b"]; simp)
qed

lemma routes_ok_kept:
  assumes "routes_ok d" "routes_context d d'" "routes d' = routes d" "route_executions d' = route_executions d"
  shows "routes_ok d'"
  using assms(1,3,4) route_good_kept[OF assms(2)] attachment_good_kept[OF assms(2)]
  by (simp add: routes_ok_def)


lemma create_exploration_routes:
  assumes "routes_ok d" "create_exploration_tx r c d = Inr (Commit d' k)"
  shows "routes_ok d'"
proof -
  from assms(2) have d': "d' = d\<lparr>explorations := explorations d @ [c]\<rparr>"
    by (auto simp: create_exploration_tx_def split: if_splits option.splits)
  have "routes_context d d'"
    by (simp add: d' routes_context_def keeps_rows_refl keeps_rows_append same_task_def)
  then show ?thesis by (rule routes_ok_kept[OF assms(1)]) (simp_all add: d')
qed

lemma create_route_routes:
  assumes "routes_ok d" "create_route_tx r c d = Inr (Commit d' k)"
  shows "routes_ok d'"
proof -
  from assms(2) obtain scope where d': "d' = d\<lparr>routes := routes d @ [c]\<rparr>"
    and new: "row_by ro_route_id (ro_route_id c) (routes d) = None"
    and good: "exploration_scope d (ro_exploration_id c) = Some scope" "route_source d c scope = Inr ()"
      "\<forall>i. ro_terminal_version_id c = Some i \<longrightarrow>
        map_option ve_project_id (row_by ve_version_id i (versions d)) = Some (snd scope)"
    by (auto simp: create_route_tx_def split: if_splits option.splits)
  have ctx: "routes_context d d'"
    by (simp add: d' routes_context_def keeps_rows_refl keeps_rows_append same_task_def)
  have "route_good d c" using good unfolding route_good_def by blast
  then have "\<forall>x \<in> set (routes d'). route_good d' x"
    using assms(1) route_good_kept[OF ctx] by (auto simp: routes_ok_def d')
  moreover have "unique_by ro_route_id (routes d')" "unique_by ra_execution_id (route_executions d')"
    using assms(1) new by (simp_all add: routes_ok_def d' unique_by_insert)
  moreover have "\<forall>a \<in> set (route_executions d'). attachment_good d' a"
    using assms(1) attachment_good_kept[OF ctx] by (simp add: routes_ok_def d')
  ultimately show ?thesis by (simp add: routes_ok_def)
qed

lemma update_route_routes:
  assumes "routes_ok d" "update_route_status_tx r q d = Inr (Commit d' k)"
  shows "routes_ok d'"
proof -
  from assms(2) have d': "d' = d\<lparr>routes :=
      update_where (\<lambda>x. ro_route_id x = fst q) (\<lambda>x. x\<lparr>ro_status := snd q\<rparr>) (routes d)\<rparr>"
    by (auto simp: update_route_status_tx_def split: if_splits option.splits)
  have ctx: "routes_context d d'"
    by (simp add: d' routes_context_def keeps_rows_refl keeps_rows_update same_task_def)
  have "\<forall>x \<in> set (routes d'). route_good d x"
    using assms(1) by (auto simp: d' update_where_in routes_ok_def)
  then have "\<forall>x \<in> set (routes d'). route_good d' x" using route_good_kept[OF ctx] by blast
  moreover have "unique_by ro_route_id (routes d')" "unique_by ra_execution_id (route_executions d')"
    using assms(1) by (simp_all add: routes_ok_def d' unique_by_update)
  moreover have "\<forall>a \<in> set (route_executions d'). attachment_good d' a"
    using assms(1) attachment_good_kept[OF ctx] by (simp add: routes_ok_def d')
  ultimately show ?thesis by (simp add: routes_ok_def)
qed

lemma attach_execution_routes:
  assumes "routes_ok d" "attach_execution_tx r c d = Inr (Commit d' k)"
  shows "routes_ok d'"
proof -
  from assms(2) obtain scope where d': "d' = d\<lparr>route_executions := route_executions d @ [c]\<rparr>"
    and new: "row_by ra_execution_id (ra_execution_id c) (route_executions d) = None"
    and good: "route_scope d (ra_route_id c) = Some scope" "execution_scope d (ra_execution_id c) = Some scope"
    by (auto simp: attach_execution_tx_def split: if_splits option.splits)
  have ctx: "routes_context d d'"
    by (simp add: d' routes_context_def keeps_rows_refl same_task_def)
  have "attachment_good d c" using good unfolding attachment_good_def by blast
  then have "\<forall>a \<in> set (route_executions d'). attachment_good d' a"
    using assms(1) attachment_good_kept[OF ctx] by (auto simp: routes_ok_def d')
  moreover have "unique_by ro_route_id (routes d')" "unique_by ra_execution_id (route_executions d')"
    using assms(1) new by (simp_all add: routes_ok_def d' unique_by_insert)
  moreover have "\<forall>x \<in> set (routes d'). route_good d' x"
    using assms(1) route_good_kept[OF ctx] by (simp add: routes_ok_def d')
  ultimately show ?thesis by (simp add: routes_ok_def)
qed

interpretation create_exploration: store_op BeforeSqliteCommit AfterSqliteCommit
  redact_exploration_creation create_exploration_tx "\<lambda>_. routes_ok"
  by unfold_locales (rule create_exploration_routes)

interpretation create_route: store_op BeforeSqliteCommit AfterSqliteCommit
  route_prep create_route_tx "\<lambda>_. routes_ok"
  by unfold_locales (rule create_route_routes)

interpretation update_route: store_op BeforeSqliteCommit AfterSqliteCommit
  update_route_prep update_route_status_tx "\<lambda>_. routes_ok"
  by unfold_locales (rule update_route_routes)

interpretation attach_execution: store_op BeforeSqliteCommit AfterSqliteCommit
  redact_route_execution_attachment attach_execution_tx "\<lambda>_. routes_ok"
  by unfold_locales (rule attach_execution_routes)

text \<open>
  Any call of this component with any failpoint armed before it, and any step of the rest of the
  store that keeps what routes refer to.
\<close>

inductive route_step :: "metadata_store \<Rightarrow> metadata_store \<Rightarrow> bool" where
  exploration: "route_step st (snd (create_exploration (with_failpoint fp st) x))"
| route: "route_step st (snd (create_route (with_failpoint fp st) c))"
| status: "route_step st (snd (update_route_status (with_failpoint fp st) q))"
| attach: "route_step st (snd (attach_execution_to_route (with_failpoint fp st) a))"
| other: "routes_context (st_db st) (st_db st') \<Longrightarrow> routes (st_db st') = routes (st_db st) \<Longrightarrow>
    route_executions (st_db st') = route_executions (st_db st) \<Longrightarrow> route_step st st'"

lemma route_step_ok: "route_step st st' \<Longrightarrow> routes_ok (st_db st) \<Longrightarrow> routes_ok (st_db st')"
proof (induction rule: route_step.induct)
  case (exploration st fp x)
  then show ?case using create_exploration.op_keeps[of "with_failpoint fp st" x]
    by (simp add: create_exploration_def)
next
  case (route st fp c)
  then show ?case using create_route.op_keeps[of "with_failpoint fp st" c]
    by (simp add: create_route_def )
next
  case (status st fp q)
  then show ?case using update_route.op_keeps[of "with_failpoint fp st" q]
    by (simp add: update_route_status_def )
next
  case (attach st fp a)
  then show ?case using attach_execution.op_keeps[of "with_failpoint fp st" a]
    by (simp add: attach_execution_to_route_def )
next
  case (other st st')
  then show ?case using routes_ok_kept by metis
qed


lemma route_steps_ok: "route_step\<^sup>*\<^sup>* st st' \<Longrightarrow> routes_ok (st_db st) \<Longrightarrow> routes_ok (st_db st')"
  by (induction rule: rtranclp_induct) (auto dest: route_step_ok)

text \<open>An attachment whose execution has the task and the project of the exploration of its route.\<close>

definition attachment_scoped :: "db \<Rightarrow> route_attachment \<Rightarrow> bool" where
  "attachment_scoped d a \<longleftrightarrow> (\<exists>x p t e. row_by ro_route_id (ra_route_id a) (routes d) = Some x
     \<and> row_by xp_exploration_id (ro_exploration_id x) (explorations d) = Some p
     \<and> row_by tk_task_id (xp_task_id p) (tasks d) = Some t
     \<and> row_by ex_execution_id (ra_execution_id a) (executions d) = Some e
     \<and> ex_task_id e = tk_task_id t \<and> ex_project_id e = tk_project_id t)"

lemma attachment_good_scoped:
  assumes "attachment_good d a"
  shows "attachment_scoped d a"
proof -
  from assms obtain s where s: "route_scope d (ra_route_id a) = Some s"
    "execution_scope d (ra_execution_id a) = Some s" unfolding attachment_good_def by blast
  from s(1) obtain x p t where x: "row_by ro_route_id (ra_route_id a) (routes d) = Some x"
    and p: "row_by xp_exploration_id (ro_exploration_id x) (explorations d) = Some p"
    and t: "row_by tk_task_id (xp_task_id p) (tasks d) = Some t" and st: "s = (xp_task_id p, tk_project_id t)"
    by (auto simp: route_scope_def exploration_scope_def split: option.splits)
  from s(2) obtain e where e: "row_by ex_execution_id (ra_execution_id a) (executions d) = Some e"
    and se: "s = (ex_task_id e, ex_project_id e)" by (auto simp: execution_scope_def)
  show ?thesis unfolding attachment_scoped_def
    by (intro exI conjI, rule x, rule p, rule t, rule e)
      (use st se row_by_key[OF t] in simp_all)
qed

text \<open>
  A route that starts at a version of the project of its exploration, or at a checkpoint of the
  task of its exploration whose version is of that project and of the workspace of the
  checkpoint; a terminal version is of that project too.
\<close>

definition route_started :: "db \<Rightarrow> route_record \<Rightarrow> bool" where
  "route_started d x \<longleftrightarrow> (\<exists>p t v. row_by xp_exploration_id (ro_exploration_id x) (explorations d) = Some p
     \<and> row_by tk_task_id (xp_task_id p) (tasks d) = Some t \<and> ve_project_id v = tk_project_id t
     \<and> ((ro_source_kind x = ''version'' \<and> row_by ve_version_id (ro_source_id x) (versions d) = Some v)
        \<or> (ro_source_kind x = ''checkpoint'' \<and> (\<exists>k. row_by cr_checkpoint_id (ro_source_id x) (checkpoints d) = Some k
             \<and> row_by ve_version_id (cr_version_id k) (versions d) = Some v \<and> cr_task_id k = tk_task_id t
             \<and> cr_workspace_id k = ve_workspace_id v)))
     \<and> (case ro_terminal_version_id x of None \<Rightarrow> True
        | Some i \<Rightarrow> \<exists>u. row_by ve_version_id i (versions d) = Some u \<and> ve_project_id u = tk_project_id t))"

lemma route_source_started:
  assumes "route_source d x (task_id, project_id) = Inr ()"
  shows "\<exists>v. ve_project_id v = project_id
    \<and> ((ro_source_kind x = ''version'' \<and> row_by ve_version_id (ro_source_id x) (versions d) = Some v)
       \<or> (ro_source_kind x = ''checkpoint'' \<and> (\<exists>k. row_by cr_checkpoint_id (ro_source_id x) (checkpoints d) = Some k
            \<and> row_by ve_version_id (cr_version_id k) (versions d) = Some v \<and> cr_task_id k = task_id
            \<and> cr_workspace_id k = ve_workspace_id v)))"
  using assms by (auto simp: route_source_def split: option.splits if_splits)

lemma route_good_started:
  assumes "route_good d x"
  shows "route_started d x"
proof -
  from assms obtain p t where p: "row_by xp_exploration_id (ro_exploration_id x) (explorations d) = Some p"
    and t: "row_by tk_task_id (xp_task_id p) (tasks d) = Some t"
    and src: "route_source d x (xp_task_id p, tk_project_id t) = Inr ()"
    and stop: "\<forall>i. ro_terminal_version_id x = Some i \<longrightarrow>
      map_option ve_project_id (row_by ve_version_id i (versions d)) = Some (tk_project_id t)"
    by (auto simp: route_good_def exploration_scope_def split: option.splits)
  from stop have "case ro_terminal_version_id x of None \<Rightarrow> True
      | Some i \<Rightarrow> \<exists>u. row_by ve_version_id i (versions d) = Some u \<and> ve_project_id u = tk_project_id t"
    by (auto split: option.split)
  with p t route_source_started[OF src, folded row_by_key[OF t]] show ?thesis
    unfolding route_started_def by blast
qed

text \<open>
  C34. In every store reached by calls on explorations, routes and attachments with whatever
  faults, and by whatever the rest of the store does that keeps the rows routes refer to: an
  attachment that is listed for a route names an execution of the very task and project the
  exploration of the route belongs to, and that execution is attached to no other route. A
  route that is listed starts at a version of that project, or at a checkpoint of that task whose
  version is of that project and of the workspace of the checkpoint; where it has a terminal
  version, that is one of the project too.
\<close>

theorem route_attachments_scoped:
  assumes "routes_ok (st_db st0)" "route_step\<^sup>*\<^sup>* st0 st"
  shows "(\<forall>a \<in> set (list_route_executions (st_redactor st) (st_db st) i). attachment_scoped (st_db st) a
      \<and> (\<forall>b \<in> set (route_executions (st_db st)). ra_execution_id b = ra_execution_id a \<longrightarrow> b = a))
    \<and> (\<forall>x \<in> set (list_routes (st_redactor st) (st_db st) j). route_started (st_db st) x)"
proof (intro conjI ballI impI)
  have ok: "routes_ok (st_db st)" by (rule route_steps_ok[OF assms(2,1)])
  fix a assume "a \<in> set (list_route_executions (st_redactor st) (st_db st) i)"
  then have a: "a \<in> set (route_executions (st_db st))" by (simp add: list_route_executions_def order_rows_def)
  with ok show "attachment_scoped (st_db st) a" by (simp add: routes_ok_def attachment_good_scoped)
  fix b assume "b \<in> set (route_executions (st_db st))" "ra_execution_id b = ra_execution_id a"
  with ok a row_by_unique[of ra_execution_id "route_executions (st_db st)"] show "b = a"
    unfolding routes_ok_def by (metis option.inject)
next
  fix x assume "x \<in> set (list_routes (st_redactor st) (st_db st) j)"
  then have "route_good (st_db st) x"
    using route_steps_ok[OF assms(2,1)] by (simp add: routes_ok_def list_routes_def order_rows_def)
  then show "route_started (st_db st) x" by (rule route_good_started)
qed

definition sample_route :: route_record where
  "sample_route = \<lparr>ro_route_id = ''r1'', ro_exploration_id = ''x1'', ro_source_kind = ''version'',
     ro_source_id = ''v1'', ro_status = ''active'', ro_terminal_version_id = None,
     ro_created_by = ''a1'', ro_purpose_ref = None, ro_created_at = ''d1''\<rparr>"

definition sample_routed :: metadata_store where
  "sample_routed = (open_store default_redactor)\<lparr>st_db := (empty_db default_redactor)
     \<lparr>tasks := [new_task_row Task_Store.sample_creation], executions := [sample_execution ''running''],
      versions := [\<lparr>ve_version_id = ''v1'', ve_workspace_id = ''w1'', ve_project_id = ''p1'',
        ve_snapshot_id = ''s1'', ve_creation_operation_id = ''o1'', ve_environment_id = None,
        ve_generation_id = ''g'', ve_migration_id = ''m'', ve_created_at = ''d1'', ve_parent_version_id = None\<rparr>],
      explorations := [\<lparr>xp_exploration_id = ''x1'', xp_task_id = ''t1'', xp_created_by = ''a1'',
        xp_purpose_ref = None, xp_created_at = ''d1''\<rparr>], routes := [sample_route]\<rparr>\<rparr>"

definition sample_attachment :: route_attachment where
  "sample_attachment = \<lparr>ra_route_id = ''r1'', ra_execution_id = ''o1'', ra_attached_at = ''d2''\<rparr>"

lemma sample_routed_ok: "routes_ok (st_db sample_routed)"
  by (simp add: routes_ok_def sample_routed_def sample_route_def route_good_def exploration_scope_def
      route_source_def unique_by_def empty_db_def new_task_row_def Task_Store.sample_creation_def)

lemma valid_route_sample [simp]: "valid_text ''r1''"
  by code_simp

lemma sample_attach:
  "st_db (snd (attach_execution_to_route (with_failpoint None sample_routed) sample_attachment))
    = (st_db sample_routed)\<lparr>route_executions := [sample_attachment]\<rparr>"
proof -
  have "redact_route_execution_attachment default_redactor sample_attachment = Inr sample_attachment"
    by (simp add: redact_route_execution_attachment_def sample_attachment_def Let_def del: check_all.simps)
  moreover have "attach_execution_tx default_redactor sample_attachment (st_db sample_routed)
      = Inr (Commit ((st_db sample_routed)\<lparr>route_executions := [sample_attachment]\<rparr>) (\<lambda>_. Inr sample_attachment))"
    by (simp add: attach_execution_tx_def sample_attachment_def sample_routed_def sample_route_def
        route_scope_def exploration_scope_def execution_scope_def empty_db_def new_task_row_def
        Task_Store.sample_creation_def sample_execution_def new_execution_row_def)
  ultimately show ?thesis
    by (simp add: attach_execution_to_route_def run_op_def run_tx_unarmed with_failpoint_def sample_routed_def)
qed

theorem route_attachments_scoped_witness:
  "let st = snd (attach_execution_to_route (with_failpoint None sample_routed) sample_attachment)
   in attachment_scoped (st_db st) sample_attachment \<and> route_started (st_db st) sample_route"
proof -
  let ?st = "snd (attach_execution_to_route (with_failpoint None sample_routed)
    sample_attachment)"
  have "route_step\<^sup>*\<^sup>* sample_routed ?st" by (rule r_into_rtranclp, rule route_step.attach)
  note scoped = route_attachments_scoped[OF sample_routed_ok this, of "''r1''" "''x1''"]
  have red: "st_redactor ?st = default_redactor"
    by (simp add: attach_execution_to_route_def with_failpoint_def sample_routed_def)
  then have "sample_attachment \<in> set (list_route_executions (st_redactor ?st) (st_db ?st) ''r1'')"
    by (simp add: list_route_executions_def order_rows_def sample_attach)
      (simp add: sample_attachment_def)
  moreover have "sample_route \<in> set (list_routes (st_redactor ?st) (st_db ?st) ''x1'')"
    unfolding red by (simp add: list_routes_def order_rows_def sample_attach)
      (simp add: sample_routed_def sample_route_def)
  ultimately show ?thesis using scoped by (simp add: Let_def)
qed

end
