(* ===== verification/Relation_Store.thy ===== *)
theory Relation_Store
  imports Execution_Store
begin

text \<open>
  Hand-offs, checkpoints and resume attempts (\<open>create_handoff\<close>, \<open>create_checkpoint\<close>,
  \<open>resume_from_version\<close>, \<open>resume_from_checkpoint\<close> and their reads in \<open>src/src/metadata.rs\<close>):
  immutable relations between the executions of a task. Every creation is keyed by its task and
  request id and remembers the digest of the request; the same request is answered from the row.
\<close>

section \<open>Digests of requests\<close>

text \<open>The requests as \<open>serde_json::to_value\<close> gives them.\<close>

definition opt_string :: "utf8 option \<Rightarrow> json" where
  "opt_string v = (case v of None \<Rightarrow> JNull | Some s \<Rightarrow> JString s)"

definition relation_request_digest :: "externals \<Rightarrow> json \<Rightarrow> utf8 res" where
  "relation_request_digest X v =
     try_then (canonical_digest X ''m3/relation-request/v1'' v) (\<lambda>h. Inr (''sha256:'' @ h))"

definition handoff_value :: "handoff_creation \<Rightarrow> json" where
  "handoff_value q = JObject
     [(''actor_agent_id'', JString (hc_actor_agent_id q)),
      (''checkpoint_id'', opt_string (hc_checkpoint_id q)), (''created_at'', JString (hc_created_at q)),
      (''from_execution_id'', JString (hc_from_execution_id q)), (''handoff_id'', JString (hc_handoff_id q)),
      (''reason'', JString (hc_reason q)), (''request_id'', JString (hc_request_id q)),
      (''requester_execution_id'', opt_string (hc_requester_execution_id q)),
      (''source_version_id'', opt_string (hc_source_version_id q)), (''task_id'', JString (hc_task_id q)),
      (''to_execution_id'', JString (hc_to_execution_id q))]"

definition checkpoint_value :: "checkpoint_creation \<Rightarrow> json" where
  "checkpoint_value q = JObject
     [(''actor_agent_id'', JString (cc_actor_agent_id q)), (''checkpoint_id'', JString (cc_checkpoint_id q)),
      (''created_at'', JString (cc_created_at q)), (''execution_id'', JString (cc_execution_id q)),
      (''operation_id'', opt_string (cc_operation_id q)), (''reason'', JString (cc_reason q)),
      (''request_id'', JString (cc_request_id q)), (''task_id'', JString (cc_task_id q)),
      (''version_id'', JString (cc_version_id q)), (''workspace_id'', JString (cc_workspace_id q))]"

definition resume_value :: "resume_creation \<Rightarrow> json" where
  "resume_value q = JObject
     [(''agent_id'', JString (sc_agent_id q)), (''checkpoint_id'', opt_string (sc_checkpoint_id q)),
      (''created_at'', JString (sc_created_at q)), (''execution_id'', JString (sc_execution_id q)),
      (''parent_execution_id'', opt_string (sc_parent_execution_id q)),
      (''request_id'', JString (sc_request_id q)),
      (''source_version_id'', opt_string (sc_source_version_id q)), (''task_id'', JString (sc_task_id q)),
      (''workspace_id'', opt_string (sc_workspace_id q))]"

section \<open>Shared checks\<close>

definition validate_relation_version ::
  "db \<Rightarrow> utf8 \<Rightarrow> execution_record \<Rightarrow> utf8 \<Rightarrow> version_record res" where
  "validate_relation_version d version_id e project_id =
     (case row_by ve_version_id version_id (versions d) of
        None \<Rightarrow> Inl (NotFound ''relation Version does not exist'')
      | Some v \<Rightarrow>
          if ve_project_id v \<noteq> project_id \<or> ex_workspace_id e \<noteq> Some (ve_workspace_id v)
          then Inl (Conflict ''relation Version scope is invalid'') else Inr v)"

text \<open>
  What all creations do with the row that already has the task and the request id: the row of
  this very request is the answer, any other reuses the key.
\<close>

definition replay_request :: "'r option \<Rightarrow> ('r \<Rightarrow> bool) \<Rightarrow> utf8 \<Rightarrow> 'r tx_end res \<Rightarrow> 'r tx_end res" where
  "replay_request found same request_id fresh =
     (case found of
        None \<Rightarrow> fresh
      | Some existing \<Rightarrow> if same existing then Inr (Finished existing) else Inl (IdempotencyKeyReuse request_id))"

section \<open>Hand-offs\<close>

definition redact_handoff_creation :: "redactor \<Rightarrow> handoff_creation \<Rightarrow> handoff_creation res" where
  "redact_handoff_creation r q0 =
     (let q = \<lparr>hc_handoff_id = redact_text r (hc_handoff_id q0), hc_task_id = redact_text r (hc_task_id q0),
               hc_from_execution_id = redact_text r (hc_from_execution_id q0),
               hc_to_execution_id = redact_text r (hc_to_execution_id q0),
               hc_source_version_id = redact_opt r (hc_source_version_id q0),
               hc_checkpoint_id = redact_opt r (hc_checkpoint_id q0), hc_reason = redact_text r (hc_reason q0),
               hc_actor_agent_id = redact_text r (hc_actor_agent_id q0),
               hc_requester_execution_id = redact_opt r (hc_requester_execution_id q0),
               hc_request_id = redact_text r (hc_request_id q0),
               hc_created_at = redact_text r (hc_created_at q0)\<rparr> in
      try_then (validate_labelled [(hc_handoff_id q, ''handoff id''), (hc_task_id q, ''handoff task''),
          (hc_from_execution_id q, ''handoff source''), (hc_to_execution_id q, ''handoff target''),
          (hc_reason q, ''handoff reason''), (hc_actor_agent_id q, ''handoff actor''),
          (hc_request_id q, ''handoff request''), (hc_created_at q, ''handoff created_at'')]) (\<lambda>_. Inr q))"

definition handoff_by :: "db \<Rightarrow> utf8 \<Rightarrow> handoff_record option" where
  "handoff_by d handoff_id = row_by hr_handoff_id handoff_id (handoffs d)"

definition list_handoffs :: "db \<Rightarrow> utf8 \<Rightarrow> handoff_record list" where
  "list_handoffs d task_id = order_rows (\<lambda>h. (hr_created_at h, hr_handoff_id h))
     (filter (\<lambda>h. hr_task_id h = task_id) (handoffs d))"

text \<open>The redacted request with its digest and the identity rows are written under.\<close>

record 'q keyed =
  kq_request :: 'q
  kq_digest :: utf8

definition keyed_request :: "externals \<Rightarrow> ('q \<Rightarrow> json) \<Rightarrow> (redactor \<Rightarrow> 'q \<Rightarrow> 'q res) \<Rightarrow>
    redactor \<Rightarrow> 'q \<Rightarrow> 'q keyed res" where
  "keyed_request X as_value redact r q0 =
     try_then (redact r q0) (\<lambda>q.
     try_then (relation_request_digest X (as_value q)) (\<lambda>digest.
     Inr \<lparr>kq_request = q, kq_digest = digest\<rparr>))"

definition handoff_row :: "handoff_creation \<Rightarrow> utf8 \<Rightarrow> utf8 \<times> utf8 \<Rightarrow> handoff_record" where
  "handoff_row q digest identity =
     \<lparr>hr_handoff_id = hc_handoff_id q, hr_task_id = hc_task_id q,
      hr_from_execution_id = hc_from_execution_id q, hr_to_execution_id = hc_to_execution_id q,
      hr_source_version_id = hc_source_version_id q, hr_checkpoint_id = hc_checkpoint_id q,
      hr_reason = hc_reason q, hr_actor_agent_id = hc_actor_agent_id q,
      hr_requester_execution_id = hc_requester_execution_id q, hr_request_id = hc_request_id q,
      hr_status = ''completed'', hr_request_digest = digest, hr_generation_id = fst identity,
      hr_migration_id = snd identity, hr_created_at = hc_created_at q, hr_updated_at = hc_created_at q\<rparr>"

definition handoff_checkpoint :: "db \<Rightarrow> handoff_creation \<Rightarrow> execution_record \<Rightarrow> unit res" where
  "handoff_checkpoint d q source =
     (case hc_checkpoint_id q of
        None \<Rightarrow> Inr ()
      | Some i \<Rightarrow>
          (case row_by cr_checkpoint_id i (checkpoints d) of
             None \<Rightarrow> Inl (NotFound ''handoff checkpoint does not exist'')
           | Some k \<Rightarrow>
               if cr_task_id k \<noteq> hc_task_id q \<or> cr_execution_id k \<noteq> ex_execution_id source
               then Inl (Conflict ''handoff checkpoint scope is invalid'') else Inr ()))"

definition handoff_checks :: "db \<Rightarrow> handoff_creation \<Rightarrow> unit res" where
  "handoff_checks d q =
     try_then (validate_labelled [(hc_handoff_id q, ''handoff id''), (hc_reason q, ''handoff reason''),
       (hc_actor_agent_id q, ''handoff actor''), (hc_request_id q, ''handoff request id'')]) (\<lambda>_.
     case row_by tk_task_id (hc_task_id q) (tasks d) of
        None \<Rightarrow> Inl (NotFound ''handoff task does not exist'')
      | Some t \<Rightarrow>
     (case row_by ex_execution_id (hc_from_execution_id q) (executions d) of
        None \<Rightarrow> Inl (NotFound ''handoff source execution does not exist'')
      | Some source \<Rightarrow>
     (case row_by ex_execution_id (hc_to_execution_id q) (executions d) of
        None \<Rightarrow> Inl (NotFound ''handoff target execution does not exist'')
      | Some target \<Rightarrow>
     if ex_task_id source \<noteq> hc_task_id q \<or> ex_task_id target \<noteq> hc_task_id q
       \<or> ex_project_id source \<noteq> tk_project_id t \<or> ex_project_id target \<noteq> tk_project_id t
     then Inl (Conflict ''handoff task/project scope is invalid'')
     else if ex_execution_id source = ex_execution_id target
     then Inl (Conflict ''handoff source and target must differ'')
     else if ex_state source \<notin> {''running'', ''paused'', ''interrupted''}
     then Inl (Conflict ''handoff source state is not handoff-ready'')
     else if ex_state target \<noteq> ''created''
     then Inl (Conflict ''handoff target must be a fresh execution'')
     else if row_by ai_agent_id (hc_actor_agent_id q) (agent_identities d) = None
     then Inl (NotFound ''handoff actor does not exist'')
     else try_then
       (case hc_source_version_id q of
          None \<Rightarrow> Inr ()
        | Some i \<Rightarrow> try_then (validate_relation_version d i source (tk_project_id t)) (\<lambda>_. Inr ()))
       (\<lambda>_. handoff_checkpoint d q source))))"

definition create_handoff_tx ::
  "redactor \<Rightarrow> handoff_creation keyed \<Rightarrow> db \<Rightarrow> handoff_record tx_end res" where
  "create_handoff_tx r k d =
     (let q = kq_request k in
      try_then (projection_identity d) (\<lambda>identity.
      replay_request (row_by (\<lambda>h. (hr_task_id h, hr_request_id h)) (hc_task_id q, hc_request_id q) (handoffs d))
        (\<lambda>h. hr_request_digest h = kq_digest k \<and> hr_handoff_id h = hc_handoff_id q) (hc_request_id q)
        (try_then (handoff_checks d q) (\<lambda>_.
         if row_by hr_handoff_id (hc_handoff_id q) (handoffs d) \<noteq> None then Inl constraint_violation
         else Inr (Commit (d\<lparr>handoffs := handoffs d @ [handoff_row q (kq_digest k) identity]\<rparr>)
           (\<lambda>d'. case handoff_by d' (hc_handoff_id q) of
                   None \<Rightarrow> Inl (Integrity ''handoff disappeared after creation'')
                 | Some h \<Rightarrow> Inr h))))))"

definition create_handoff ::
  "externals \<Rightarrow> metadata_store \<Rightarrow> handoff_creation \<Rightarrow> handoff_record res \<times> metadata_store" where
  "create_handoff X = sqlite_op (keyed_request X handoff_value redact_handoff_creation) create_handoff_tx"


section \<open>Checkpoints\<close>

definition redact_checkpoint_creation :: "redactor \<Rightarrow> checkpoint_creation \<Rightarrow> checkpoint_creation res" where
  "redact_checkpoint_creation r q0 =
     (let q = \<lparr>cc_checkpoint_id = redact_text r (cc_checkpoint_id q0), cc_task_id = redact_text r (cc_task_id q0),
               cc_execution_id = redact_text r (cc_execution_id q0),
               cc_workspace_id = redact_text r (cc_workspace_id q0),
               cc_version_id = redact_text r (cc_version_id q0),
               cc_operation_id = redact_opt r (cc_operation_id q0), cc_reason = redact_text r (cc_reason q0),
               cc_actor_agent_id = redact_text r (cc_actor_agent_id q0),
               cc_request_id = redact_text r (cc_request_id q0),
               cc_created_at = redact_text r (cc_created_at q0)\<rparr> in
      try_then (validate_labelled [(cc_checkpoint_id q, ''checkpoint id''), (cc_task_id q, ''checkpoint task''),
          (cc_execution_id q, ''checkpoint execution''), (cc_workspace_id q, ''checkpoint workspace''),
          (cc_version_id q, ''checkpoint version''), (cc_reason q, ''checkpoint reason''),
          (cc_actor_agent_id q, ''checkpoint actor''), (cc_request_id q, ''checkpoint request''),
          (cc_created_at q, ''checkpoint created_at'')]) (\<lambda>_. Inr q))"

definition checkpoint_by :: "db \<Rightarrow> utf8 \<Rightarrow> checkpoint_record option" where
  "checkpoint_by d checkpoint_id = row_by cr_checkpoint_id checkpoint_id (checkpoints d)"

definition list_checkpoints :: "db \<Rightarrow> utf8 \<Rightarrow> checkpoint_record list" where
  "list_checkpoints d task_id = order_rows (\<lambda>k. (cr_created_at k, cr_checkpoint_id k))
     (filter (\<lambda>k. cr_task_id k = task_id) (checkpoints d))"

definition checkpoint_row :: "checkpoint_creation \<Rightarrow> utf8 \<Rightarrow> utf8 \<times> utf8 \<Rightarrow> checkpoint_record" where
  "checkpoint_row q digest identity =
     \<lparr>cr_checkpoint_id = cc_checkpoint_id q, cr_task_id = cc_task_id q, cr_execution_id = cc_execution_id q,
      cr_workspace_id = cc_workspace_id q, cr_version_id = cc_version_id q,
      cr_operation_id = cc_operation_id q, cr_reason = cc_reason q,
      cr_actor_agent_id = cc_actor_agent_id q, cr_request_id = cc_request_id q,
      cr_request_digest = digest, cr_generation_id = fst identity, cr_migration_id = snd identity,
      cr_created_at = cc_created_at q\<rparr>"

definition checkpoint_operation :: "db \<Rightarrow> checkpoint_creation \<Rightarrow> utf8 \<Rightarrow> unit res" where
  "checkpoint_operation d q project_id =
     (case cc_operation_id q of
        None \<Rightarrow> Inr ()
      | Some i \<Rightarrow>
          (case row_by op_operation_id i (operations d) of
             None \<Rightarrow> Inl (NotFound ''checkpoint operation does not exist'')
           | Some x \<Rightarrow>
               if op_project_id x \<noteq> project_id
               then Inl (Conflict ''checkpoint operation project is invalid'') else Inr ()))"

definition checkpoint_checks :: "db \<Rightarrow> checkpoint_creation \<Rightarrow> unit res" where
  "checkpoint_checks d q =
     try_then (validate_labelled [(cc_checkpoint_id q, ''checkpoint id''), (cc_reason q, ''checkpoint reason'')]) (\<lambda>_.
     case row_by tk_task_id (cc_task_id q) (tasks d) of
        None \<Rightarrow> Inl (NotFound ''checkpoint task does not exist'')
      | Some t \<Rightarrow>
     (case row_by ex_execution_id (cc_execution_id q) (executions d) of
        None \<Rightarrow> Inl (NotFound ''checkpoint execution does not exist'')
      | Some e \<Rightarrow>
     if ex_task_id e \<noteq> tk_task_id t \<or> ex_project_id e \<noteq> tk_project_id t
       \<or> ex_workspace_id e \<noteq> Some (cc_workspace_id q)
     then Inl (Conflict ''checkpoint execution scope is invalid'')
     else if row_by ai_agent_id (cc_actor_agent_id q) (agent_identities d) = None
     then Inl (NotFound ''checkpoint actor does not exist'')
     else (case row_by ws_workspace_id (cc_workspace_id q) (workspaces d) of
        None \<Rightarrow> Inl (NotFound ''checkpoint workspace does not exist'')
      | Some w \<Rightarrow>
     if ws_project_id w \<noteq> tk_project_id t
     then Inl (Conflict ''checkpoint workspace project is invalid'')
     else try_then (validate_relation_version d (cc_version_id q) e (tk_project_id t)) (\<lambda>v.
     if ve_workspace_id v \<noteq> cc_workspace_id q
     then Inl (Conflict ''checkpoint Version workspace is invalid'')
     else checkpoint_operation d q (tk_project_id t)))))"

definition create_checkpoint_tx ::
  "redactor \<Rightarrow> checkpoint_creation keyed \<Rightarrow> db \<Rightarrow> checkpoint_record tx_end res" where
  "create_checkpoint_tx r k d =
     (let q = kq_request k in
      try_then (projection_identity d) (\<lambda>identity.
      replay_request (row_by (\<lambda>x. (cr_task_id x, cr_request_id x)) (cc_task_id q, cc_request_id q) (checkpoints d))
        (\<lambda>x. cr_request_digest x = kq_digest k \<and> cr_checkpoint_id x = cc_checkpoint_id q) (cc_request_id q)
        (try_then (checkpoint_checks d q) (\<lambda>_.
         if row_by cr_checkpoint_id (cc_checkpoint_id q) (checkpoints d) \<noteq> None then Inl constraint_violation
         else Inr (Commit (d\<lparr>checkpoints := checkpoints d @ [checkpoint_row q (kq_digest k) identity]\<rparr>)
           (\<lambda>d'. case checkpoint_by d' (cc_checkpoint_id q) of
                   None \<Rightarrow> Inl (Integrity ''checkpoint disappeared after creation'')
                 | Some x \<Rightarrow> Inr x))))))"

definition create_checkpoint ::
  "externals \<Rightarrow> metadata_store \<Rightarrow> checkpoint_creation \<Rightarrow> checkpoint_record res \<times> metadata_store" where
  "create_checkpoint X = sqlite_op (keyed_request X checkpoint_value redact_checkpoint_creation) create_checkpoint_tx"

section \<open>Resume attempts\<close>

definition redact_resume_creation :: "redactor \<Rightarrow> resume_creation \<Rightarrow> resume_creation res" where
  "redact_resume_creation r q0 =
     (let q = \<lparr>sc_execution_id = redact_text r (sc_execution_id q0), sc_task_id = redact_text r (sc_task_id q0),
               sc_agent_id = redact_text r (sc_agent_id q0),
               sc_parent_execution_id = redact_opt r (sc_parent_execution_id q0),
               sc_workspace_id = redact_opt r (sc_workspace_id q0),
               sc_source_version_id = redact_opt r (sc_source_version_id q0),
               sc_checkpoint_id = redact_opt r (sc_checkpoint_id q0),
               sc_request_id = redact_text r (sc_request_id q0),
               sc_created_at = redact_text r (sc_created_at q0)\<rparr> in
      try_then (validate_labelled [(sc_execution_id q, ''resume execution''), (sc_task_id q, ''resume task''),
          (sc_agent_id q, ''resume agent''), (sc_request_id q, ''resume request''),
          (sc_created_at q, ''resume created_at'')]) (\<lambda>_. Inr q))"

definition resume_record_of :: "db \<Rightarrow> utf8 \<Rightarrow> resume_record option" where
  "resume_record_of d execution_id = row_by sr_execution_id execution_id (resume_attempts d)"

definition list_resume_attempts :: "db \<Rightarrow> utf8 \<Rightarrow> resume_record list" where
  "list_resume_attempts d task_id = order_rows (\<lambda>x. (sr_created_at x, sr_execution_id x))
     (filter (\<lambda>x. sr_task_id x = task_id) (resume_attempts d))"

definition resume_row :: "resume_creation \<Rightarrow> utf8 \<Rightarrow> utf8 \<Rightarrow> utf8 \<times> utf8 \<Rightarrow> resume_record" where
  "resume_row q source_version_id digest identity =
     \<lparr>sr_execution_id = sc_execution_id q, sr_task_id = sc_task_id q, sr_agent_id = sc_agent_id q,
      sr_source_version_id = source_version_id, sr_checkpoint_id = sc_checkpoint_id q,
      sr_request_id = sc_request_id q, sr_request_digest = digest, sr_generation_id = fst identity,
      sr_migration_id = snd identity, sr_created_at = sc_created_at q\<rparr>"

text \<open>The redacted request must name its source version; the digest is taken after that check.\<close>

definition resume_request :: "externals \<Rightarrow> redactor \<Rightarrow> resume_creation \<Rightarrow> (utf8 \<times> resume_creation keyed) res" where
  "resume_request X r q0 =
     try_then (redact_resume_creation r q0) (\<lambda>q.
     case sc_source_version_id q of
       None \<Rightarrow> Inl (InvalidInput ''resume source Version is required'')
     | Some source_version_id \<Rightarrow>
         try_then (relation_request_digest X (resume_value q)) (\<lambda>digest.
         Inr (source_version_id, \<lparr>kq_request = q, kq_digest = digest\<rparr>)))"

definition resume_workspace :: "db \<Rightarrow> resume_creation \<Rightarrow> version_record \<Rightarrow> unit res" where
  "resume_workspace d q v =
     (case sc_workspace_id q of
        None \<Rightarrow> Inr ()
      | Some i \<Rightarrow>
          (case row_by ws_workspace_id i (workspaces d) of
             None \<Rightarrow> Inl (NotFound ''resume target workspace does not exist'')
           | Some w \<Rightarrow> validate_base_version_scope v w (stored_identity d)))"

text \<open>The checks end with the project of the task and the source version.\<close>

definition resume_checks :: "db \<Rightarrow> resume_creation \<Rightarrow> utf8 \<Rightarrow> (utf8 \<times> version_record) res" where
  "resume_checks d q source_version_id =
     (case row_by tk_task_id (sc_task_id q) (tasks d) of
        None \<Rightarrow> Inl (NotFound ''resume task does not exist'')
      | Some t \<Rightarrow>
     if row_by ai_agent_id (sc_agent_id q) (agent_identities d) = None
     then Inl (NotFound ''resume agent does not exist'')
     else try_then
       (case sc_parent_execution_id q of
          None \<Rightarrow> Inr None
        | Some i \<Rightarrow>
            (case row_by ex_execution_id i (executions d) of
               None \<Rightarrow> Inl (NotFound ''resume parent execution does not exist'')
             | Some e \<Rightarrow> Inr (Some e))) (\<lambda>source.
     case row_by ve_version_id source_version_id (versions d) of
       None \<Rightarrow> Inl (NotFound ''resume source Version does not exist'')
     | Some v \<Rightarrow>
     if ve_project_id v \<noteq> tk_project_id t
     then Inl (Conflict ''resume Version project is invalid'')
     else try_then (resume_workspace d q v) (\<lambda>_.
     if (case source of None \<Rightarrow> False
         | Some parent \<Rightarrow> ex_task_id parent \<noteq> tk_task_id t \<or> ex_project_id parent \<noteq> tk_project_id t)
     then Inl (Conflict ''resume parent execution scope is invalid'')
     else Inr (tk_project_id t, v))))"

definition resumed_execution :: "resume_creation \<Rightarrow> utf8 \<Rightarrow> version_record \<Rightarrow> execution_creation" where
  "resumed_execution q source_version_id v =
     \<lparr>ec_execution_id = sc_execution_id q, ec_task_id = sc_task_id q, ec_agent_id = sc_agent_id q,
      ec_parent_execution_id = sc_parent_execution_id q,
      ec_workspace_id = (case sc_workspace_id q of None \<Rightarrow> Some (ve_workspace_id v) | Some w \<Rightarrow> Some w),
      ec_base_version_id = Some source_version_id, ec_current_version_id = None,
      ec_created_at = sc_created_at q\<rparr>"

text \<open>The execution of the attempt: the one that is there if it is what this request would
  create, else a new one.\<close>

definition insert_resumed :: "externals \<Rightarrow> db \<Rightarrow> execution_creation \<Rightarrow> utf8 \<Rightarrow> db res" where
  "insert_resumed X d c project_id =
     (case row_by ex_execution_id (ec_execution_id c) (executions d) of
        Some existing \<Rightarrow>
          if \<not> execution_matches_creation existing c project_id
          then Inl (IdempotencyKeyReuse (ec_execution_id c)) else Inr d
      | None \<Rightarrow>
          try_then (validate_execution_bindings X d c project_id) (\<lambda>_.
          try_then (case ec_parent_execution_id c of
              None \<Rightarrow> Inr ()
            | Some i \<Rightarrow> validate_execution_parent d i (ec_execution_id c) (ec_task_id c) project_id) (\<lambda>_.
          Inr (d\<lparr>executions := executions d @ [new_execution_row c project_id]\<rparr>))))"

definition resume_tx ::
  "externals \<Rightarrow> redactor \<Rightarrow> utf8 \<times> resume_creation keyed \<Rightarrow> db \<Rightarrow> resume_record tx_end res" where
  "resume_tx X r sk d =
     (let q = kq_request (snd sk) in
      try_then (projection_identity d) (\<lambda>identity.
      replay_request (row_by (\<lambda>x. (sr_task_id x, sr_request_id x)) (sc_task_id q, sc_request_id q) (resume_attempts d))
        (\<lambda>x. sr_request_digest x = kq_digest (snd sk) \<and> sr_execution_id x = sc_execution_id q) (sc_request_id q)
        (try_then (resume_checks d q (fst sk)) (\<lambda>pv.
         try_then (insert_resumed X d (resumed_execution q (fst sk) (snd pv)) (fst pv)) (\<lambda>d1.
         if row_by sr_execution_id (sc_execution_id q) (resume_attempts d1) \<noteq> None then Inl constraint_violation
         else Inr (Commit (d1\<lparr>resume_attempts := resume_attempts d1 @ [resume_row q (fst sk) (kq_digest (snd sk)) identity]\<rparr>)
           (\<lambda>d'. case resume_record_of d' (sc_execution_id q) of
                   None \<Rightarrow> Inl (Integrity ''resume attempt disappeared after creation'')
                 | Some x \<Rightarrow> Inr x)))))))"

definition resume_from_request ::
  "externals \<Rightarrow> metadata_store \<Rightarrow> resume_creation \<Rightarrow> resume_record res \<times> metadata_store" where
  "resume_from_request X = sqlite_op (resume_request X) (resume_tx X)"

definition resume_from_version ::
  "externals \<Rightarrow> metadata_store \<Rightarrow> resume_creation \<Rightarrow> resume_record res \<times> metadata_store" where
  "resume_from_version = resume_from_request"

definition resume_from_checkpoint ::
  "externals \<Rightarrow> metadata_store \<Rightarrow> resume_creation \<Rightarrow> resume_record res \<times> metadata_store" where
  "resume_from_checkpoint X st q =
     (case sc_checkpoint_id q of
        None \<Rightarrow> (Inl (InvalidInput ''resume checkpoint is required''), st)
      | Some i \<Rightarrow>
     (case checkpoint_by (st_db st) i of
        None \<Rightarrow> (Inl (NotFound ''resume checkpoint does not exist''), st)
      | Some k \<Rightarrow>
          if cr_task_id k \<noteq> sc_task_id q then (Inl (Conflict ''resume checkpoint task is invalid''), st)
          else resume_from_request X st (q\<lparr>sc_source_version_id := Some (cr_version_id k)\<rparr>)))"


section \<open>What a stored relation says\<close>

definition checkpoint_good :: "db \<Rightarrow> checkpoint_record \<Rightarrow> bool" where
  "checkpoint_good d k \<longleftrightarrow> (\<exists>e v. row_by ex_execution_id (cr_execution_id k) (executions d) = Some e
     \<and> row_by ve_version_id (cr_version_id k) (versions d) = Some v
     \<and> ex_task_id e = cr_task_id k \<and> ex_workspace_id e = Some (cr_workspace_id k)
     \<and> ve_workspace_id v = cr_workspace_id k \<and> ve_project_id v = ex_project_id e)"

definition handoff_good :: "db \<Rightarrow> handoff_record \<Rightarrow> bool" where
  "handoff_good d h \<longleftrightarrow> (\<exists>a b. row_by ex_execution_id (hr_from_execution_id h) (executions d) = Some a
     \<and> row_by ex_execution_id (hr_to_execution_id h) (executions d) = Some b
     \<and> hr_from_execution_id h \<noteq> hr_to_execution_id h
     \<and> ex_task_id a = hr_task_id h \<and> ex_task_id b = hr_task_id h \<and> ex_project_id a = ex_project_id b
     \<and> (\<forall>i. hr_source_version_id h = Some i \<longrightarrow> (\<exists>v. row_by ve_version_id i (versions d) = Some v
           \<and> ve_project_id v = ex_project_id a \<and> ex_workspace_id a = Some (ve_workspace_id v)))
     \<and> (\<forall>i. hr_checkpoint_id h = Some i \<longrightarrow> (\<exists>k. row_by cr_checkpoint_id i (checkpoints d) = Some k
           \<and> cr_task_id k = hr_task_id h \<and> cr_execution_id k = hr_from_execution_id h)))"

definition resume_good :: "db \<Rightarrow> resume_record \<Rightarrow> bool" where
  "resume_good d x \<longleftrightarrow> (\<exists>e v. row_by ex_execution_id (sr_execution_id x) (executions d) = Some e
     \<and> row_by ve_version_id (sr_source_version_id x) (versions d) = Some v
     \<and> ex_task_id e = sr_task_id x \<and> ex_agent_id e = sr_agent_id x
     \<and> ex_base_version_id e = Some (sr_source_version_id x) \<and> ve_project_id v = ex_project_id e
     \<and> ex_workspace_id e \<noteq> None)"

definition relations_ok :: "db \<Rightarrow> bool" where
  "relations_ok d \<longleftrightarrow> (\<forall>k \<in> set (checkpoints d). checkpoint_good d k)
     \<and> (\<forall>h \<in> set (handoffs d). handoff_good d h) \<and> (\<forall>x \<in> set (resume_attempts d). resume_good d x)"

text \<open>The rows relations refer to are never lost and keep the columns that were checked.\<close>

definition same_binding :: "execution_record \<Rightarrow> execution_record \<Rightarrow> bool" where
  "same_binding x y \<longleftrightarrow> ex_task_id y = ex_task_id x \<and> ex_agent_id y = ex_agent_id x
     \<and> ex_project_id y = ex_project_id x \<and> ex_workspace_id y = ex_workspace_id x
     \<and> ex_base_version_id y = ex_base_version_id x"

definition relations_context :: "db \<Rightarrow> db \<Rightarrow> bool" where
  "relations_context d d' \<longleftrightarrow> keeps_rows ex_execution_id same_binding (executions d) (executions d')
     \<and> keeps_rows ve_version_id (=) (versions d) (versions d')
     \<and> keeps_rows cr_checkpoint_id (=) (checkpoints d) (checkpoints d')"

lemma same_binding_refl [simp]: "same_binding x x"
  by (simp add: same_binding_def)

lemma evolves_same_binding: "execution_evolves x y \<Longrightarrow> same_binding x y"
  by (simp add: execution_evolves_def same_binding_def)

lemma context_execution:
  assumes "relations_context d d'" "row_by ex_execution_id i (executions d) = Some e"
  obtains e' where "row_by ex_execution_id i (executions d') = Some e'" "same_binding e e'"
  using assms that unfolding relations_context_def keeps_rows_def by blast

lemma context_version:
  assumes "relations_context d d'" "row_by ve_version_id i (versions d) = Some v"
  shows "row_by ve_version_id i (versions d') = Some v"
  using assms unfolding relations_context_def keeps_rows_def by blast

lemma context_checkpoint:
  assumes "relations_context d d'" "row_by cr_checkpoint_id i (checkpoints d) = Some k"
  shows "row_by cr_checkpoint_id i (checkpoints d') = Some k"
  using assms unfolding relations_context_def keeps_rows_def by blast

lemma checkpoint_good_kept:
  assumes "relations_context d d'" "checkpoint_good d k"
  shows "checkpoint_good d' k"
proof -
  obtain e v where e: "row_by ex_execution_id (cr_execution_id k) (executions d) = Some e"
    and v: "row_by ve_version_id (cr_version_id k) (versions d) = Some v"
    and c: "ex_task_id e = cr_task_id k" "ex_workspace_id e = Some (cr_workspace_id k)"
      "ve_workspace_id v = cr_workspace_id k" "ve_project_id v = ex_project_id e"
    using assms(2) unfolding checkpoint_good_def by blast
  obtain e' where "row_by ex_execution_id (cr_execution_id k) (executions d') = Some e'" "same_binding e e'"
    by (rule context_execution[OF assms(1) e])
  with c context_version[OF assms(1) v] show ?thesis by (simp add: checkpoint_good_def same_binding_def)
qed

lemma resume_good_kept:
  assumes "relations_context d d'" "resume_good d x"
  shows "resume_good d' x"
proof -
  obtain e v where e: "row_by ex_execution_id (sr_execution_id x) (executions d) = Some e"
    and v: "row_by ve_version_id (sr_source_version_id x) (versions d) = Some v"
    and c: "ex_task_id e = sr_task_id x" "ex_agent_id e = sr_agent_id x"
      "ex_base_version_id e = Some (sr_source_version_id x)" "ve_project_id v = ex_project_id e"
      "ex_workspace_id e \<noteq> None"
    using assms(2) unfolding resume_good_def by blast
  obtain e' where "row_by ex_execution_id (sr_execution_id x) (executions d') = Some e'" "same_binding e e'"
    by (rule context_execution[OF assms(1) e])
  with c context_version[OF assms(1) v] show ?thesis by (simp add: resume_good_def same_binding_def)
qed

lemma handoff_good_kept:
  assumes "relations_context d d'" "handoff_good d h"
  shows "handoff_good d' h"
proof -
  obtain a b where a: "row_by ex_execution_id (hr_from_execution_id h) (executions d) = Some a"
    and b: "row_by ex_execution_id (hr_to_execution_id h) (executions d) = Some b"
    and c: "hr_from_execution_id h \<noteq> hr_to_execution_id h" "ex_task_id a = hr_task_id h"
      "ex_task_id b = hr_task_id h" "ex_project_id a = ex_project_id b"
    and v: "\<forall>i. hr_source_version_id h = Some i \<longrightarrow> (\<exists>v. row_by ve_version_id i (versions d) = Some v
           \<and> ve_project_id v = ex_project_id a \<and> ex_workspace_id a = Some (ve_workspace_id v))"
    and k: "\<forall>i. hr_checkpoint_id h = Some i \<longrightarrow> (\<exists>k. row_by cr_checkpoint_id i (checkpoints d) = Some k
           \<and> cr_task_id k = hr_task_id h \<and> cr_execution_id k = hr_from_execution_id h)"
    using assms(2) unfolding handoff_good_def by blast
  obtain a' where a': "row_by ex_execution_id (hr_from_execution_id h) (executions d') = Some a'" "same_binding a a'"
    by (rule context_execution[OF assms(1) a])
  obtain b' where b': "row_by ex_execution_id (hr_to_execution_id h) (executions d') = Some b'" "same_binding b b'"
    by (rule context_execution[OF assms(1) b])
  have "\<exists>v. row_by ve_version_id i (versions d') = Some v \<and> ve_project_id v = ex_project_id a'
      \<and> ex_workspace_id a' = Some (ve_workspace_id v)" if "hr_source_version_id h = Some i" for i
    using v that context_version[OF assms(1)] a'(2) unfolding same_binding_def by metis
  moreover have "\<exists>k. row_by cr_checkpoint_id i (checkpoints d') = Some k
      \<and> cr_task_id k = hr_task_id h \<and> cr_execution_id k = hr_from_execution_id h"
    if "hr_checkpoint_id h = Some i" for i
    using k that context_checkpoint[OF assms(1)] by blast
  moreover have "ex_task_id a' = hr_task_id h" "ex_task_id b' = hr_task_id h" "ex_project_id a' = ex_project_id b'"
    using a'(2) b'(2) c by (simp_all add: same_binding_def)
  ultimately show ?thesis using a'(1) b'(1) c(1) unfolding handoff_good_def by blast
qed

lemma relations_context_refl [simp]: "relations_context d d"
  by (simp add: relations_context_def keeps_rows_refl)

lemma relations_ok_kept:
  assumes "relations_ok d" "relations_context d d'"
    and "\<And>k. k \<in> set (checkpoints d') \<Longrightarrow> k \<in> set (checkpoints d) \<or> checkpoint_good d k"
    and "\<And>h. h \<in> set (handoffs d') \<Longrightarrow> h \<in> set (handoffs d) \<or> handoff_good d h"
    and "\<And>x. x \<in> set (resume_attempts d') \<Longrightarrow> x \<in> set (resume_attempts d) \<or> resume_good d' x"
  shows "relations_ok d'"
  unfolding relations_ok_def
proof (intro conjI ballI)
  fix k assume "k \<in> set (checkpoints d')"
  with assms(1,3) have "checkpoint_good d k" unfolding relations_ok_def by blast
  then show "checkpoint_good d' k" by (rule checkpoint_good_kept[OF assms(2)])
next
  fix h assume "h \<in> set (handoffs d')"
  with assms(1,4) have "handoff_good d h" unfolding relations_ok_def by blast
  then show "handoff_good d' h" by (rule handoff_good_kept[OF assms(2)])
next
  fix x assume "x \<in> set (resume_attempts d')"
  with assms(1,5) resume_good_kept[OF assms(2)] show "resume_good d' x" unfolding relations_ok_def by blast
qed


section \<open>Requests are answered once\<close>

text \<open>
  The contract the three creations share: the table only grows, a committed creation adds the
  row of its request, and the row is the answer to the request from then on.
\<close>

locale request_table =
  fixes rows :: "db \<Rightarrow> 'r list"
    and prep :: "redactor \<Rightarrow> 'q \<Rightarrow> 'c res"
    and body :: "redactor \<Rightarrow> 'c \<Rightarrow> db \<Rightarrow> 'r tx_end res"
    and req :: "'r \<Rightarrow> utf8 \<times> utf8"
    and wants :: "'c \<Rightarrow> 'r \<Rightarrow> bool"
  assumes fresh: "body r c d = Inr (Commit d' k) \<Longrightarrow>
      \<exists>x. rows d' = rows d @ [x] \<and> wants c x \<and> row_by req (req x) (rows d) = None \<and> k d' = Inr x
        \<and> projection_identity d' = projection_identity d"
    and identified: "body r c d = Inr y \<Longrightarrow> \<exists>i. projection_identity d = Inr i"
    and replay: "projection_identity d = Inr i \<Longrightarrow> row_by req (req x) (rows d) = Some x \<Longrightarrow> wants c x \<Longrightarrow>
      body r c d = Inr (Finished x)"
    and known: "body r c d = Inr (Finished x) \<Longrightarrow> wants c x \<and> row_by req (req x) (rows d) = Some x"
begin

lemma grows: "prefix (rows (st_db st)) (rows (st_db (snd (run_op b a prep body st q))))"
proof (cases "prep (st_redactor st) q")
  case (Inr c)
  have "prefix (rows (st_db st)) (rows (st_db (snd (run_tx st (body (st_redactor st) c (st_db st)) b a))))"
    by (rule run_tx_invariant[where I = "\<lambda>d. prefix (rows (st_db st)) (rows d)"])
      (auto dest: fresh)
  with Inr show ?thesis by (simp add: run_op_def)
qed (simp add: run_op_def)

lemma answer_stored:
  assumes "run_op b a prep body st q = (Inr x, st')"
  shows "\<exists>c. prep (st_redactor st) q = Inr c \<and> wants c x \<and> row_by req (req x) (rows (st_db st')) = Some x"
proof -
  from run_op_success[OF assms] obtain c where prep: "prep (st_redactor st) q = Inr c"
    and ran: "(body (st_redactor st) c (st_db st) = Inr (Finished x) \<and> st' = st)
      \<or> (\<exists>k. body (st_redactor st) c (st_db st) = Inr (Commit (st_db st') k) \<and> k (st_db st') = Inr x)"
    by (elim exE conjE)
  from ran show ?thesis
  proof (elim disjE conjE exE)
    assume "body (st_redactor st) c (st_db st) = Inr (Finished x)" "st' = st"
    with prep known show ?thesis by blast
  next
    fix k assume "body (st_redactor st) c (st_db st) = Inr (Commit (st_db st') k)" "k (st_db st') = Inr x"
    from fresh[OF this(1)] this(2) prep show ?thesis by (auto simp: row_by_append)
  qed
qed

lemma answer_identified:
  assumes "run_op b a prep body st q = (Inr x, st')"
  shows "\<exists>i. projection_identity (st_db st') = Inr i"
proof -
  from run_op_success[OF assms] obtain c where
    "(body (st_redactor st) c (st_db st) = Inr (Finished x) \<and> st' = st)
      \<or> (\<exists>k. body (st_redactor st) c (st_db st) = Inr (Commit (st_db st') k) \<and> k (st_db st') = Inr x)"
    by (elim exE conjE)
  then show ?thesis
  proof (elim disjE conjE exE)
    assume "body (st_redactor st) c (st_db st) = Inr (Finished x)" "st' = st"
    with identified show ?thesis by blast
  next
    fix k assume b: "body (st_redactor st) c (st_db st) = Inr (Commit (st_db st') k)"
    from fresh[OF b] identified[OF b] show ?thesis by auto
  qed
qed

lemma answered_forever:
  assumes "run_op b a prep body st q = (Inr x, st1)"
    and "prefix (rows (st_db st1)) (rows (st_db st2))" "st_redactor st2 = st_redactor st"
    and "projection_identity (st_db st2) = Inr i"
  shows "run_op b a prep body st2 q = (Inr x, st2)"
proof -
  from answer_stored[OF assms(1)] obtain c where c: "prep (st_redactor st) q = Inr c" "wants c x"
    and row: "row_by req (req x) (rows (st_db st1)) = Some x" by blast
  from assms(2) row have "row_by req (req x) (rows (st_db st2)) = Some x"
    by (auto simp: prefix_def row_by_append)
  from replay[OF assms(4) this c(2)] c(1) assms(3) show ?thesis by (simp add: run_op_def)
qed

end

definition wants_handoff :: "handoff_creation keyed \<Rightarrow> handoff_record \<Rightarrow> bool" where
  "wants_handoff k h \<longleftrightarrow> hr_task_id h = hc_task_id (kq_request k) \<and> hr_request_id h = hc_request_id (kq_request k)
     \<and> hr_request_digest h = kq_digest k \<and> hr_handoff_id h = hc_handoff_id (kq_request k)"

definition wants_checkpoint :: "checkpoint_creation keyed \<Rightarrow> checkpoint_record \<Rightarrow> bool" where
  "wants_checkpoint k h \<longleftrightarrow> cr_task_id h = cc_task_id (kq_request k) \<and> cr_request_id h = cc_request_id (kq_request k)
     \<and> cr_request_digest h = kq_digest k \<and> cr_checkpoint_id h = cc_checkpoint_id (kq_request k)"

definition wants_resume :: "utf8 \<times> resume_creation keyed \<Rightarrow> resume_record \<Rightarrow> bool" where
  "wants_resume sk h \<longleftrightarrow> sr_task_id h = sc_task_id (kq_request (snd sk))
     \<and> sr_request_id h = sc_request_id (kq_request (snd sk))
     \<and> sr_request_digest h = kq_digest (snd sk) \<and> sr_execution_id h = sc_execution_id (kq_request (snd sk))"

lemma identity_same:
  "repository_meta d' = repository_meta d \<Longrightarrow> projection_identity d' = projection_identity d"
  by (simp add: projection_identity_def generation_identity_def meta_value_def)

lemma replay_request_commit:
  "replay_request found same i fresh = Inr (Commit d k) \<longleftrightarrow> found = None \<and> fresh = Inr (Commit d k)"
  by (auto simp: replay_request_def split: option.split)

lemma replay_request_finished:
  "replay_request found same i fresh = Inr (Finished x) \<longleftrightarrow>
    (found = Some x \<and> same x) \<or> (found = None \<and> fresh = Inr (Finished x))"
  by (auto simp: replay_request_def split: option.split)

lemma create_handoff_commit:
  assumes "create_handoff_tx r k d = Inr (Commit d' rb)"
  obtains i where "d' = d\<lparr>handoffs := handoffs d @ [handoff_row (kq_request k) (kq_digest k) i]\<rparr>"
    "row_by (\<lambda>h. (hr_task_id h, hr_request_id h)) (hc_task_id (kq_request k), hc_request_id (kq_request k)) (handoffs d) = None"
    "row_by hr_handoff_id (hc_handoff_id (kq_request k)) (handoffs d) = None"
    "handoff_checks d (kq_request k) = Inr ()"
    "rb d' = (case handoff_by d' (hc_handoff_id (kq_request k)) of
       None \<Rightarrow> Inl (Integrity ''handoff disappeared after creation'') | Some h \<Rightarrow> Inr h)"
  using assms that by (auto simp: create_handoff_tx_def Let_def replay_request_commit split: if_splits)

lemma create_checkpoint_commit:
  assumes "create_checkpoint_tx r k d = Inr (Commit d' rb)"
  obtains i where "d' = d\<lparr>checkpoints := checkpoints d @ [checkpoint_row (kq_request k) (kq_digest k) i]\<rparr>"
    "row_by (\<lambda>h. (cr_task_id h, cr_request_id h)) (cc_task_id (kq_request k), cc_request_id (kq_request k)) (checkpoints d) = None"
    "row_by cr_checkpoint_id (cc_checkpoint_id (kq_request k)) (checkpoints d) = None"
    "checkpoint_checks d (kq_request k) = Inr ()"
    "rb d' = (case checkpoint_by d' (cc_checkpoint_id (kq_request k)) of
       None \<Rightarrow> Inl (Integrity ''checkpoint disappeared after creation'') | Some h \<Rightarrow> Inr h)"
  using assms that by (auto simp: create_checkpoint_tx_def Let_def replay_request_commit split: if_splits)

lemma insert_resumed_cases:
  assumes "insert_resumed X d c p = Inr d1"
  shows "(d1 = d \<and> (\<exists>e. row_by ex_execution_id (ec_execution_id c) (executions d) = Some e
        \<and> execution_matches_creation e c p))
    \<or> (d1 = d\<lparr>executions := executions d @ [new_execution_row c p]\<rparr>
        \<and> row_by ex_execution_id (ec_execution_id c) (executions d) = None)"
  using assms by (auto simp: insert_resumed_def split: option.splits if_splits)

lemma resume_commit:
  assumes "resume_tx X r sk d = Inr (Commit d' rb)"
  obtains i p v d1 where "resume_checks d (kq_request (snd sk)) (fst sk) = Inr (p, v)"
    "insert_resumed X d (resumed_execution (kq_request (snd sk)) (fst sk) v) p = Inr d1"
    "d' = d1\<lparr>resume_attempts := resume_attempts d @ [resume_row (kq_request (snd sk)) (fst sk) (kq_digest (snd sk)) i]\<rparr>"
    "row_by (\<lambda>h. (sr_task_id h, sr_request_id h)) (sc_task_id (kq_request (snd sk)), sc_request_id (kq_request (snd sk))) (resume_attempts d) = None"
    "row_by sr_execution_id (sc_execution_id (kq_request (snd sk))) (resume_attempts d) = None"
    "rb d' = (case resume_record_of d' (sc_execution_id (kq_request (snd sk))) of
       None \<Rightarrow> Inl (Integrity ''resume attempt disappeared after creation'') | Some h \<Rightarrow> Inr h)"
    "repository_meta d' = repository_meta d" "resume_attempts d1 = resume_attempts d"
proof -
  let ?q = "kq_request (snd sk)"
  from assms obtain i p v d1 where checks: "resume_checks d ?q (fst sk) = Inr (p, v)"
    and ins: "insert_resumed X d (resumed_execution ?q (fst sk) v) p = Inr d1"
    and none: "row_by (\<lambda>h. (sr_task_id h, sr_request_id h)) (sc_task_id ?q, sc_request_id ?q) (resume_attempts d) = None"
    and rest: "(if row_by sr_execution_id (sc_execution_id ?q) (resume_attempts d1) \<noteq> None then Inl constraint_violation
         else Inr (Commit (d1\<lparr>resume_attempts := resume_attempts d1 @ [resume_row ?q (fst sk) (kq_digest (snd sk)) i]\<rparr>)
           (\<lambda>d'. case resume_record_of d' (sc_execution_id ?q) of
                   None \<Rightarrow> Inl (Integrity ''resume attempt disappeared after creation'')
                 | Some x \<Rightarrow> Inr x))) = Inr (Commit d' rb)"
    by (auto simp: resume_tx_def Let_def replay_request_commit)
  from insert_resumed_cases[OF ins] have same: "resume_attempts d1 = resume_attempts d"
    "repository_meta d1 = repository_meta d" by auto
  from rest same show ?thesis by (intro that[OF checks ins _ none]) (auto split: if_splits)
qed

interpretation handoffs: request_table handoffs "keyed_request X handoff_value redact_handoff_creation"
  create_handoff_tx "\<lambda>h. (hr_task_id h, hr_request_id h)" wants_handoff for X
proof unfold_locales
  fix r c d d' and k :: "db \<Rightarrow> handoff_record res"
  assume "create_handoff_tx r c d = Inr (Commit d' k)"
  then show "\<exists>x. handoffs d' = handoffs d @ [x] \<and> wants_handoff c x
      \<and> row_by (\<lambda>h. (hr_task_id h, hr_request_id h)) (hr_task_id x, hr_request_id x) (handoffs d) = None \<and> k d' = Inr x
      \<and> projection_identity d' = projection_identity d"
    by (rule create_handoff_commit) (auto simp: wants_handoff_def handoff_row_def handoff_by_def row_by_append intro: identity_same)
next
  fix r c d and y :: "handoff_record tx_end" assume "create_handoff_tx r c d = Inr y"
  then show "\<exists>i. projection_identity d = Inr i" by (auto simp: create_handoff_tx_def Let_def)
next
  fix r c d i x assume "projection_identity d = Inr i" "wants_handoff c x"
    "row_by (\<lambda>h. (hr_task_id h, hr_request_id h)) (hr_task_id x, hr_request_id x) (handoffs d) = Some x"
  then show "create_handoff_tx r c d = Inr (Finished x)"
    by (simp add: create_handoff_tx_def Let_def wants_handoff_def replay_request_def)
next
  fix r c d x assume "create_handoff_tx r c d = Inr (Finished x)"
  then have row: "row_by (\<lambda>h. (hr_task_id h, hr_request_id h)) (hc_task_id (kq_request c), hc_request_id (kq_request c))
      (handoffs d) = Some x" and w: "hr_request_digest x = kq_digest c" "hr_handoff_id x = hc_handoff_id (kq_request c)"
    by (auto simp: create_handoff_tx_def Let_def replay_request_finished split: if_splits)
  from row_by_key[OF row] row w show "wants_handoff c x
      \<and> row_by (\<lambda>h. (hr_task_id h, hr_request_id h)) (hr_task_id x, hr_request_id x) (handoffs d) = Some x"
    by (simp add: wants_handoff_def)
qed

interpretation checkpoints: request_table checkpoints "keyed_request X checkpoint_value redact_checkpoint_creation"
  create_checkpoint_tx "\<lambda>h. (cr_task_id h, cr_request_id h)" wants_checkpoint for X
proof unfold_locales
  fix r c d d' and k :: "db \<Rightarrow> checkpoint_record res"
  assume "create_checkpoint_tx r c d = Inr (Commit d' k)"
  then show "\<exists>x. checkpoints d' = checkpoints d @ [x] \<and> wants_checkpoint c x
      \<and> row_by (\<lambda>h. (cr_task_id h, cr_request_id h)) (cr_task_id x, cr_request_id x) (checkpoints d) = None \<and> k d' = Inr x
      \<and> projection_identity d' = projection_identity d"
    by (rule create_checkpoint_commit) (auto simp: wants_checkpoint_def checkpoint_row_def checkpoint_by_def row_by_append intro: identity_same)
next
  fix r c d and y :: "checkpoint_record tx_end" assume "create_checkpoint_tx r c d = Inr y"
  then show "\<exists>i. projection_identity d = Inr i" by (auto simp: create_checkpoint_tx_def Let_def)
next
  fix r c d i x assume "projection_identity d = Inr i" "wants_checkpoint c x"
    "row_by (\<lambda>h. (cr_task_id h, cr_request_id h)) (cr_task_id x, cr_request_id x) (checkpoints d) = Some x"
  then show "create_checkpoint_tx r c d = Inr (Finished x)"
    by (simp add: create_checkpoint_tx_def Let_def wants_checkpoint_def replay_request_def)
next
  fix r c d x assume "create_checkpoint_tx r c d = Inr (Finished x)"
  then have row: "row_by (\<lambda>h. (cr_task_id h, cr_request_id h)) (cc_task_id (kq_request c), cc_request_id (kq_request c))
      (checkpoints d) = Some x" and w: "cr_request_digest x = kq_digest c" "cr_checkpoint_id x = cc_checkpoint_id (kq_request c)"
    by (auto simp: create_checkpoint_tx_def Let_def replay_request_finished split: if_splits)
  from row_by_key[OF row] row w show "wants_checkpoint c x
      \<and> row_by (\<lambda>h. (cr_task_id h, cr_request_id h)) (cr_task_id x, cr_request_id x) (checkpoints d) = Some x"
    by (simp add: wants_checkpoint_def)
qed

interpretation resumes: request_table resume_attempts "resume_request X" "resume_tx X"
  "\<lambda>h. (sr_task_id h, sr_request_id h)" wants_resume for X
proof unfold_locales
  fix r c d d' and k :: "db \<Rightarrow> resume_record res"
  assume "resume_tx X r c d = Inr (Commit d' k)"
  then show "\<exists>x. resume_attempts d' = resume_attempts d @ [x] \<and> wants_resume c x
      \<and> row_by (\<lambda>h. (sr_task_id h, sr_request_id h)) (sr_task_id x, sr_request_id x) (resume_attempts d) = None \<and> k d' = Inr x
      \<and> projection_identity d' = projection_identity d"
  proof (rule resume_commit)
    fix i p v d1
    let ?x = "resume_row (kq_request (snd c)) (fst c) (kq_digest (snd c)) i"
    assume d': "d' = d1\<lparr>resume_attempts := resume_attempts d @ [?x]\<rparr>" and "repository_meta d' = repository_meta d"
      and none: "row_by (\<lambda>h. (sr_task_id h, sr_request_id h))
          (sc_task_id (kq_request (snd c)), sc_request_id (kq_request (snd c))) (resume_attempts d) = None"
        "row_by sr_execution_id (sc_execution_id (kq_request (snd c))) (resume_attempts d) = None"
      and k: "k d' = (case resume_record_of d' (sc_execution_id (kq_request (snd c))) of
       None \<Rightarrow> Inl (Integrity ''resume attempt disappeared after creation'') | Some h \<Rightarrow> Inr h)"
    have "resume_record_of d' (sc_execution_id (kq_request (snd c))) = Some ?x"
      using none(2) by (simp add: d' resume_record_of_def row_by_append resume_row_def)
    with k identity_same[OF \<open>repository_meta d' = repository_meta d\<close>] none(1) show ?thesis
      by (intro exI[of _ ?x]) (simp add: d' wants_resume_def resume_row_def)
  qed
next
  fix r c d and y :: "resume_record tx_end" assume "resume_tx X r c d = Inr y"
  then show "\<exists>i. projection_identity d = Inr i" by (auto simp: resume_tx_def Let_def)
next
  fix r c d i x assume "projection_identity d = Inr i" "wants_resume c x"
    "row_by (\<lambda>h. (sr_task_id h, sr_request_id h)) (sr_task_id x, sr_request_id x) (resume_attempts d) = Some x"
  then show "resume_tx X r c d = Inr (Finished x)"
    by (simp add: resume_tx_def Let_def wants_resume_def replay_request_def)
next
  fix r c d x assume "resume_tx X r c d = Inr (Finished x)"
  then have row: "row_by (\<lambda>h. (sr_task_id h, sr_request_id h))
      (sc_task_id (kq_request (snd c)), sc_request_id (kq_request (snd c))) (resume_attempts d) = Some x"
    and w: "sr_request_digest x = kq_digest (snd c)" "sr_execution_id x = sc_execution_id (kq_request (snd c))"
    by (auto simp: resume_tx_def Let_def replay_request_finished split: if_splits)
  from row_by_key[OF row] row w show "wants_resume c x
      \<and> row_by (\<lambda>h. (sr_task_id h, sr_request_id h)) (sr_task_id x, sr_request_id x) (resume_attempts d) = Some x"
    by (simp add: wants_resume_def)
qed


lemma handoff_checks_good:
  assumes "handoff_checks d q = Inr ()"
  shows "handoff_good d (handoff_row q g i)"
proof -
  from assms obtain t a b where t: "row_by tk_task_id (hc_task_id q) (tasks d) = Some t"
    and a: "row_by ex_execution_id (hc_from_execution_id q) (executions d) = Some a"
    and b: "row_by ex_execution_id (hc_to_execution_id q) (executions d) = Some b"
    and c: "ex_task_id a = hc_task_id q" "ex_task_id b = hc_task_id q" "ex_project_id a = tk_project_id t"
      "ex_project_id b = tk_project_id t" "ex_execution_id a \<noteq> ex_execution_id b"
    and v: "(case hc_source_version_id q of None \<Rightarrow> Inr ()
       | Some i \<Rightarrow> try_then (validate_relation_version d i a (tk_project_id t)) (\<lambda>_. Inr ())) = (Inr () :: unit res)"
    and k: "handoff_checkpoint d q a = Inr ()"
    by (auto simp: handoff_checks_def split: option.splits if_splits)
  have "\<exists>v. row_by ve_version_id i (versions d) = Some v \<and> ve_project_id v = ex_project_id a
      \<and> ex_workspace_id a = Some (ve_workspace_id v)" if "hc_source_version_id q = Some i" for i
    using v that c(3) by (auto simp: validate_relation_version_def split: option.splits if_splits)
  moreover have "\<exists>k. row_by cr_checkpoint_id i (checkpoints d) = Some k
      \<and> cr_task_id k = hc_task_id q \<and> cr_execution_id k = hc_from_execution_id q"
    if "hc_checkpoint_id q = Some i" for i
    using k that row_by_key[OF a] by (auto simp: handoff_checkpoint_def split: option.splits if_splits)
  moreover have "hc_from_execution_id q \<noteq> hc_to_execution_id q"
    using c(5) row_by_key[OF a] row_by_key[OF b] by simp
  ultimately show ?thesis using a b c by (auto simp: handoff_good_def handoff_row_def)
qed

lemma checkpoint_checks_good:
  assumes "checkpoint_checks d q = Inr ()"
  shows "checkpoint_good d (checkpoint_row q g i)"
proof -
  from assms obtain t e v where t: "row_by tk_task_id (cc_task_id q) (tasks d) = Some t"
    and e: "row_by ex_execution_id (cc_execution_id q) (executions d) = Some e"
    and c: "ex_task_id e = tk_task_id t" "ex_project_id e = tk_project_id t"
      "ex_workspace_id e = Some (cc_workspace_id q)"
    and v: "validate_relation_version d (cc_version_id q) e (tk_project_id t) = Inr v"
      "ve_workspace_id v = cc_workspace_id q"
    by (auto simp: checkpoint_checks_def split: option.splits if_splits)
  from v have "row_by ve_version_id (cc_version_id q) (versions d) = Some v" "ve_project_id v = ex_project_id e"
    using c(2) by (auto simp: validate_relation_version_def split: option.splits if_splits)
  with e c v(2) row_by_key[OF t] show ?thesis by (simp add: checkpoint_good_def checkpoint_row_def)
qed

lemma resume_checks_good:
  assumes "resume_checks d q s = Inr (p, v)"
  shows "row_by ve_version_id s (versions d) = Some v \<and> ve_project_id v = p"
  using assms by (auto simp: resume_checks_def split: option.splits if_splits)

lemma resume_inserted_good:
  assumes checks: "resume_checks d q s = Inr (p, v)"
    and ins: "insert_resumed X d (resumed_execution q s v) p = Inr d1"
    and d': "d' = d1\<lparr>resume_attempts := xs\<rparr>"
  shows "relations_context d d' \<and> resume_good d' (resume_row q s g i)
    \<and> checkpoints d' = checkpoints d \<and> handoffs d' = handoffs d"
proof -
  let ?c = "resumed_execution q s v"
  note v = resume_checks_good[OF checks]
  have c: "ec_execution_id ?c = sc_execution_id q" "ec_task_id ?c = sc_task_id q" "ec_agent_id ?c = sc_agent_id q"
    "ec_base_version_id ?c = Some s" "ec_workspace_id ?c \<noteq> None"
    by (simp_all add: resumed_execution_def split: option.split)
  from insert_resumed_cases[OF ins] show ?thesis
  proof (elim disjE conjE exE)
    fix e assume "d1 = d" and e: "row_by ex_execution_id (ec_execution_id ?c) (executions d) = Some e"
      and m: "execution_matches_creation e ?c p"
    then have x: "executions d' = executions d" "versions d' = versions d" "checkpoints d' = checkpoints d"
      "handoffs d' = handoffs d" by (simp_all add: d')
    then have "relations_context d d'" by (simp add: relations_context_def keeps_rows_refl)
    moreover have "resume_good d' (resume_row q s g i)"
      using e m v x c by (auto simp: resume_good_def resume_row_def execution_matches_creation_def)
    ultimately show ?thesis using x by simp
  next
    assume d1: "d1 = d\<lparr>executions := executions d @ [new_execution_row ?c p]\<rparr>"
      and none: "row_by ex_execution_id (ec_execution_id ?c) (executions d) = None"
    then have x: "executions d' = executions d @ [new_execution_row ?c p]" "versions d' = versions d"
      "checkpoints d' = checkpoints d" "handoffs d' = handoffs d" by (simp_all add: d')
    then have "relations_context d d'" by (simp add: relations_context_def keeps_rows_refl keeps_rows_append)
    moreover have "resume_good d' (resume_row q s g i)"
      using none v x c by (simp add: resume_good_def resume_row_def row_by_append new_execution_row_def)
    ultimately show ?thesis using x by simp
  qed
qed


section \<open>Steps\<close>

text \<open>What a commit of one of the three creations does to the tables relations live in.\<close>

definition relations_step :: "db \<Rightarrow> db \<Rightarrow> bool" where
  "relations_step d d' \<longleftrightarrow> (relations_ok d \<longrightarrow> relations_ok d')
     \<and> prefix (handoffs d) (handoffs d') \<and> prefix (checkpoints d) (checkpoints d')
     \<and> prefix (resume_attempts d) (resume_attempts d')
     \<and> ((\<exists>i. projection_identity d = Inr i) \<longrightarrow> (\<exists>i. projection_identity d' = Inr i))"

lemma relations_step_refl [simp]: "relations_step d d"
  by (simp add: relations_step_def)

lemma relations_step_trans: "relations_step a b \<Longrightarrow> relations_step b c \<Longrightarrow> relations_step a c"
  unfolding relations_step_def by (elim conjE, intro conjI) (simp | (rule prefix_order.trans, assumption+))+

lemma handoff_step: "create_handoff_tx r c d = Inr (Commit d' k) \<Longrightarrow> relations_step d d'"
proof (erule create_handoff_commit)
  fix i assume d': "d' = d\<lparr>handoffs := handoffs d @ [handoff_row (kq_request c) (kq_digest c) i]\<rparr>"
    and checks: "handoff_checks d (kq_request c) = Inr ()"
  have "relations_ok d'" if "relations_ok d"
    using handoff_checks_good[OF checks, of "kq_digest c" i]
    by (intro relations_ok_kept[OF that]) (auto simp: d' relations_context_def keeps_rows_refl)
  moreover have "handoffs d' = handoffs d @ [handoff_row (kq_request c) (kq_digest c) i]"
    "checkpoints d' = checkpoints d" "resume_attempts d' = resume_attempts d" by (simp_all add: d')
  moreover have "projection_identity d' = projection_identity d" by (rule identity_same) (simp add: d')
  ultimately show ?thesis by (simp add: relations_step_def)
qed

lemma checkpoint_step: "create_checkpoint_tx r c d = Inr (Commit d' k) \<Longrightarrow> relations_step d d'"
proof (erule create_checkpoint_commit)
  fix i assume d': "d' = d\<lparr>checkpoints := checkpoints d @ [checkpoint_row (kq_request c) (kq_digest c) i]\<rparr>"
    and checks: "checkpoint_checks d (kq_request c) = Inr ()"
  have "relations_ok d'" if "relations_ok d"
    using checkpoint_checks_good[OF checks, of "kq_digest c" i]
    by (intro relations_ok_kept[OF that]) (auto simp: d' relations_context_def keeps_rows_refl keeps_rows_append)
  moreover have "handoffs d' = handoffs d" "resume_attempts d' = resume_attempts d"
    "checkpoints d' = checkpoints d @ [checkpoint_row (kq_request c) (kq_digest c) i]" by (simp_all add: d')
  moreover have "projection_identity d' = projection_identity d" by (rule identity_same) (simp add: d')
  ultimately show ?thesis by (simp add: relations_step_def)
qed

lemma resume_step: "resume_tx X r c d = Inr (Commit d' k) \<Longrightarrow> relations_step d d'"
proof (erule resume_commit)
  fix i p v d1
  let ?x = "resume_row (kq_request (snd c)) (fst c) (kq_digest (snd c)) i"
  assume checks: "resume_checks d (kq_request (snd c)) (fst c) = Inr (p, v)"
    and ins: "insert_resumed X d (resumed_execution (kq_request (snd c)) (fst c) v) p = Inr d1"
    and d': "d' = d1\<lparr>resume_attempts := resume_attempts d @ [?x]\<rparr>"
    and meta: "repository_meta d' = repository_meta d"
  note good = resume_inserted_good[OF checks ins d', of "kq_digest (snd c)" i]
  have "relations_ok d'" if "relations_ok d"
    by (rule relations_ok_kept[OF that good[THEN conjunct1]]) (use good d' in auto)
  moreover have "resume_attempts d' = resume_attempts d @ [?x]" by (simp add: d')
  ultimately show ?thesis using good identity_same[OF meta] by (simp add: relations_step_def)
qed

text \<open>
  Any call of this component with any failpoint armed before it, and any step of the rest of the
  store, which leaves the three tables alone and keeps what they refer to.
\<close>

inductive relation_step :: "externals \<Rightarrow> metadata_store \<Rightarrow> metadata_store \<Rightarrow> bool" for X where
  handoff: "relation_step X st (snd (create_handoff X (with_failpoint fp st) q))"
| checkpoint: "relation_step X st (snd (create_checkpoint X (with_failpoint fp st) k))"
| resume: "relation_step X st (snd (resume_from_version X (with_failpoint fp st) s))"
| resume_checkpoint: "relation_step X st (snd (resume_from_checkpoint X (with_failpoint fp st) s))"
| other: "relations_context (st_db st) (st_db st') \<Longrightarrow> handoffs (st_db st') = handoffs (st_db st) \<Longrightarrow>
    checkpoints (st_db st') = checkpoints (st_db st) \<Longrightarrow>
    resume_attempts (st_db st') = resume_attempts (st_db st) \<Longrightarrow> st_redactor st' = st_redactor st \<Longrightarrow>
    (\<And>i. projection_identity (st_db st) = Inr i \<Longrightarrow> \<exists>j. projection_identity (st_db st') = Inr j) \<Longrightarrow>
    relation_step X st st'"

lemma relation_run:
  assumes "\<And>r c d d' k. body r c d = Inr (Commit d' k) \<Longrightarrow> relations_step d d'"
  shows "relations_step (st_db st) (st_db (snd (run_op b a prep body (with_failpoint fp st) q)))
    \<and> st_redactor (snd (run_op b a prep body (with_failpoint fp st) q)) = st_redactor st"
proof -
  have "relations_step (st_db st) (st_db (snd (run_op b a prep body (with_failpoint fp st) q)))"
    by (rule run_op_keeps) (use assms in simp_all)
  then show ?thesis by simp
qed

lemma relation_run_resume:
  "relations_step (st_db st) (st_db (snd (resume_from_request X (with_failpoint fp st) q)))
    \<and> st_redactor (snd (resume_from_request X (with_failpoint fp st) q)) = st_redactor st"
  unfolding resume_from_request_def by (rule relation_run, rule resume_step)

lemma relation_step_keeps:
  assumes "relation_step X st st'"
  shows "relations_step (st_db st) (st_db st') \<and> st_redactor st' = st_redactor st"
  using assms
proof (cases rule: relation_step.cases)
  case (handoff fp q)
  then show ?thesis unfolding create_handoff_def by (simp only:) (rule relation_run, rule handoff_step)
next
  case (checkpoint fp k)
  then show ?thesis unfolding create_checkpoint_def by (simp only:) (rule relation_run, rule checkpoint_step)
next
  case (resume fp s)
  then show ?thesis unfolding resume_from_version_def by (simp only:) (rule relation_run_resume)
next
  case (resume_checkpoint fp s)
  then show ?thesis
    using relation_run_resume[of st X fp]
    by (auto simp: resume_from_checkpoint_def split: option.splits)
next
  case other
  have "relations_ok (st_db st')" if "relations_ok (st_db st)"
    by (rule relations_ok_kept[OF that other(1)]) (use other in simp_all)
  with other show ?thesis by (auto simp: relations_step_def)
qed

lemma relation_steps_keep:
  "(relation_step X)\<^sup>*\<^sup>* st st' \<Longrightarrow> relations_step (st_db st) (st_db st') \<and> st_redactor st' = st_redactor st"
proof (induction rule: rtranclp_induct)
  case (step y z)
  with relation_step_keeps[OF step.hyps(2)] relations_step_trans show ?case by metis
qed simp

section \<open>Properties\<close>

text \<open>
  C33. A hand-off, a checkpoint or a resume attempt whose request has been answered is answered
  the same for ever: after any calls of the three kinds, any faults and anything the rest of the
  store does, the same request returns the same record and changes nothing.
\<close>

theorem relation_requests_answered_forever:
  assumes "(relation_step X)\<^sup>*\<^sup>* st1 st2"
  shows "(\<forall>st q h. create_handoff X st q = (Inr h, st1) \<longrightarrow> create_handoff X st2 q = (Inr h, st2))
    \<and> (\<forall>st q k. create_checkpoint X st q = (Inr k, st1) \<longrightarrow> create_checkpoint X st2 q = (Inr k, st2))
    \<and> (\<forall>st q x. resume_from_version X st q = (Inr x, st1) \<longrightarrow> resume_from_version X st2 q = (Inr x, st2))"
proof (intro conjI allI impI)
  note kept = relation_steps_keep[OF assms, unfolded relations_step_def]
  fix st q h assume run: "create_handoff X st q = (Inr h, st1)"
  note run' = run[unfolded create_handoff_def]
  from handoffs.answer_identified[OF run'] kept obtain i where "projection_identity (st_db st2) = Inr i" by blast
  moreover have "st_redactor st2 = st_redactor st"
    using kept run' run_op_redactor[of _ _ _ _ st q] by (metis snd_conv)
  ultimately show "create_handoff X st2 q = (Inr h, st2)"
    unfolding create_handoff_def using handoffs.answered_forever[OF run'] kept by blast
next
  note kept = relation_steps_keep[OF assms, unfolded relations_step_def]
  fix st q h assume run: "create_checkpoint X st q = (Inr h, st1)"
  note run' = run[unfolded create_checkpoint_def]
  from checkpoints.answer_identified[OF run'] kept obtain i where "projection_identity (st_db st2) = Inr i" by blast
  moreover have "st_redactor st2 = st_redactor st"
    using kept run' run_op_redactor[of _ _ _ _ st q] by (metis snd_conv)
  ultimately show "create_checkpoint X st2 q = (Inr h, st2)"
    unfolding create_checkpoint_def using checkpoints.answered_forever[OF run'] kept by blast
next
  note kept = relation_steps_keep[OF assms, unfolded relations_step_def]
  fix st q h assume run: "resume_from_version X st q = (Inr h, st1)"
  note run' = run[unfolded resume_from_version_def resume_from_request_def]
  from resumes.answer_identified[OF run'] kept obtain i where "projection_identity (st_db st2) = Inr i" by blast
  moreover have "st_redactor st2 = st_redactor st"
    using kept run' run_op_redactor[of _ _ _ _ st q] by (metis snd_conv)
  ultimately show "resume_from_version X st2 q = (Inr h, st2)"
    unfolding resume_from_version_def resume_from_request_def using resumes.answered_forever[OF run'] kept by blast
qed

text \<open>
  C32. In every store reached by calls of the three kinds and by what the rest of the store does:
  a listed checkpoint names a stored execution of its task and a stored version, both of the
  workspace of the checkpoint and of one project; a listed hand-off goes between two different
  executions of its task, of one project, its source version is of that project and of the
  workspace of its source, and its checkpoint is one of its task taken by its source; a listed
  resume attempt has its execution, of its task and agent, based on its source version, of the
  project of that version and bound to some workspace. The workspace of a resumed execution need
  not be the one of its source version.
\<close>

theorem relations_sound:
  assumes "relations_ok (st_db st0)" "(relation_step X)\<^sup>*\<^sup>* st0 st"
  shows "(\<forall>k \<in> set (list_checkpoints (st_db st) i). checkpoint_good (st_db st) k)
    \<and> (\<forall>h \<in> set (list_handoffs (st_db st) i). handoff_good (st_db st) h)
    \<and> (\<forall>x \<in> set (list_resume_attempts (st_db st) i). resume_good (st_db st) x)"
proof -
  have "relations_ok (st_db st)" using relation_steps_keep[OF assms(2)] assms(1) by (simp add: relations_step_def)
  then show ?thesis
    by (simp add: relations_ok_def list_checkpoints_def list_handoffs_def list_resume_attempts_def order_rows_def)
qed


section \<open>The properties at a concrete hand-off\<close>

definition sample_handoff :: handoff_creation where
  "sample_handoff = \<lparr>hc_handoff_id = ''c1'', hc_task_id = ''t1'', hc_from_execution_id = ''o1'',
     hc_to_execution_id = ''m1'', hc_source_version_id = None, hc_checkpoint_id = None, hc_reason = ''g'',
     hc_actor_agent_id = ''a1'', hc_requester_execution_id = None, hc_request_id = ''r1'',
     hc_created_at = ''d2''\<rparr>"

definition sample_partners :: metadata_store where
  "sample_partners = (open_store default_redactor)\<lparr>st_db := (empty_db default_redactor)
     \<lparr>agent_identities := [\<lparr>ai_agent_id = ''a1'', ai_provider = ''v'', ai_display_name = None,
        ai_created_at = ''d1''\<rparr>],
      tasks := [new_task_row Task_Store.sample_creation],
      executions := [sample_execution ''running'', (sample_execution ''created'')\<lparr>ex_execution_id := ''m1''\<rparr>]\<rparr>\<rparr>"

lemma valid_relation_sample [simp]: "valid_text ''r1''" "valid_text ''t1''" "valid_text ''g''" "valid_text ''a1''"
  by code_simp+

lemma sample_partners_simps [simp]:
  "st_redactor sample_partners = default_redactor" "st_failpoints sample_partners = None"
  "handoffs (st_db sample_partners) = []" "checkpoints (st_db sample_partners) = []"
  "resume_attempts (st_db sample_partners) = []" "relations_ok (st_db sample_partners)"
  "projection_identity (st_db sample_partners) = Inr (''legacy-v0.1'', ''legacy'')"
  by (simp_all add: sample_partners_def empty_db_def relations_ok_def projection_identity_def
      generation_identity_def meta_value_def)

lemma sample_handoff_runs:
  "\<exists>h. create_handoff sample_externals sample_partners sample_handoff = (Inr h,
      sample_partners\<lparr>st_db := (st_db sample_partners)\<lparr>handoffs := [h]\<rparr>\<rparr>) \<and> hr_task_id h = ''t1''"
proof -
  have dom: "validate_domain ''m3/relation-request/v1'' = Inr ()" by code_simp
  then obtain g where g: "relation_request_digest sample_externals (handoff_value sample_handoff) = Inr g"
    by (simp add: relation_request_digest_def canonical_digest_def canonical_bytes_def)
  have "redact_handoff_creation default_redactor sample_handoff = Inr sample_handoff"
    by (simp add: redact_handoff_creation_def sample_handoff_def redact_opt_def Let_def del: check_all.simps)
  with g have prep: "keyed_request sample_externals handoff_value redact_handoff_creation default_redactor sample_handoff
      = Inr \<lparr>kq_request = sample_handoff, kq_digest = g\<rparr>" by (simp add: keyed_request_def)
  have checks: "handoff_checks (st_db sample_partners) sample_handoff = Inr ()"
    by (simp add: handoff_checks_def handoff_checkpoint_def sample_partners_def sample_handoff_def empty_db_def
        new_task_row_def Task_Store.sample_creation_def sample_execution_def new_execution_row_def del: check_all.simps)
  show ?thesis
    by (simp add: create_handoff_def run_op_def prep create_handoff_tx_def Let_def replay_request_def checks
        run_tx_unarmed handoff_by_def handoff_row_def) (simp add: sample_handoff_def)
qed

theorem relation_requests_answered_forever_witness:
  "\<exists>h st1. create_handoff sample_externals sample_partners sample_handoff = (Inr h, st1)
    \<and> (let st2 = snd (create_handoff sample_externals (with_failpoint (Some AfterSqliteCommit) st1)
           (sample_handoff\<lparr>hc_request_id := ''r2''\<rparr>))
       in create_handoff sample_externals st2 sample_handoff = (Inr h, st2))"
proof -
  obtain h st1 where one: "create_handoff sample_externals sample_partners sample_handoff = (Inr h, st1)"
    using sample_handoff_runs by blast
  let ?st2 = "snd (create_handoff sample_externals (with_failpoint (Some AfterSqliteCommit) st1)
    (sample_handoff\<lparr>hc_request_id := ''r2''\<rparr>))"
  have "(relation_step sample_externals)\<^sup>*\<^sup>* st1 ?st2" by (rule r_into_rtranclp, rule relation_step.handoff)
  from relation_requests_answered_forever[OF this] one show ?thesis by (auto simp: Let_def)
qed

theorem relations_sound_witness:
  "\<exists>h. list_handoffs (st_db (snd (create_handoff sample_externals (with_failpoint None sample_partners)
        sample_handoff))) ''t1'' = [h]
    \<and> handoff_good (st_db (snd (create_handoff sample_externals (with_failpoint None sample_partners)
        sample_handoff))) h"
proof -
  let ?st = "snd (create_handoff sample_externals (with_failpoint None sample_partners) sample_handoff)"
  have same: "with_failpoint None sample_partners = sample_partners" by (simp add: with_failpoint_def)
  obtain h where h: "st_db ?st = (st_db sample_partners)\<lparr>handoffs := [h]\<rparr>" "hr_task_id h = ''t1''"
    using sample_handoff_runs by (auto simp: same)
  have "(relation_step sample_externals)\<^sup>*\<^sup>* sample_partners ?st"
    by (rule r_into_rtranclp, rule relation_step.handoff)
  from relations_sound[OF _ this, of "''t1''"] h show ?thesis by (simp add: list_handoffs_def order_rows_def)
qed

end
