(* ===== verification/Rollback_Store.thy ===== *)
theory Rollback_Store
  imports Relation_Store
begin

text \<open>
  Rollbacks (\<open>create_rollback\<close>, \<open>complete_rollback\<close>, \<open>complete_published_rollback\<close> and their
  reads in \<open>src/src/metadata.rs\<close>). A rollback is prepared against an immutable version before
  the tree of its workspace is replaced; its completion publishes both heads of the workspace, or
  records that the snapshot publication did, together with the new status of the record.
\<close>

section \<open>Requests\<close>

definition lease_value :: "lease_token \<Rightarrow> json" where
  "lease_value t = JObject
     [(''agent_id'', JString (lt_agent_id t)), (''epoch'', JNumber (show_int (lt_epoch t))),
      (''expires_at_ms'', JNumber (show_int (lt_expires_at_ms t))),
      (''workspace_id'', JString (lt_workspace_id t))]"

fun target_value :: "rollback_target \<Rightarrow> json" where
  "target_value (TargetVersion v) = JObject [(''Version'', JString v)]"
| "target_value (TargetCheckpoint v) = JObject [(''Checkpoint'', JString v)]"
| "target_value TaskBaseline = JString ''TaskBaseline''"
| "target_value ExecutionBaseline = JString ''ExecutionBaseline''"

definition opt_number :: "int option \<Rightarrow> json" where
  "opt_number v = (case v of None \<Rightarrow> JNull | Some n \<Rightarrow> JNumber (show_int n))"

definition rollback_value :: "rollback_creation \<Rightarrow> json" where
  "rollback_value q = JObject
     [(''actor_agent_id'', JString (rc_actor_agent_id q)), (''created_at'', JString (rc_created_at q)),
      (''execution_id'', JString (rc_execution_id q)),
      (''expected_workspace_revision'', opt_number (rc_expected_workspace_revision q)),
      (''lease'', case rc_lease q of None \<Rightarrow> JNull | Some t \<Rightarrow> lease_value t),
      (''now_ms'', opt_number (rc_now_ms q)), (''request_id'', JString (rc_request_id q)),
      (''rollback_id'', JString (rc_rollback_id q)), (''target'', target_value (rc_target q)),
      (''task_id'', JString (rc_task_id q)), (''workspace_id'', JString (rc_workspace_id q))]"

text \<open>The target and the lease of a request are taken as they are given.\<close>

definition redact_rollback_creation :: "redactor \<Rightarrow> rollback_creation \<Rightarrow> rollback_creation res" where
  "redact_rollback_creation r q0 =
     (let q = q0\<lparr>rc_rollback_id := redact_text r (rc_rollback_id q0), rc_task_id := redact_text r (rc_task_id q0),
               rc_execution_id := redact_text r (rc_execution_id q0),
               rc_workspace_id := redact_text r (rc_workspace_id q0),
               rc_actor_agent_id := redact_text r (rc_actor_agent_id q0),
               rc_request_id := redact_text r (rc_request_id q0),
               rc_created_at := redact_text r (rc_created_at q0)\<rparr> in
      try_then (validate_labelled [(rc_rollback_id q, ''rollback id''), (rc_task_id q, ''rollback task''),
          (rc_execution_id q, ''rollback execution''), (rc_workspace_id q, ''rollback workspace''),
          (rc_actor_agent_id q, ''rollback actor''), (rc_request_id q, ''rollback request''),
          (rc_created_at q, ''rollback created_at'')]) (\<lambda>_. Inr q))"

section \<open>Preparation\<close>

definition rollback_record_of :: "db \<Rightarrow> utf8 \<Rightarrow> rollback_record option" where
  "rollback_record_of d rollback_id = row_by rr_rollback_id rollback_id (rollback_records d)"

definition list_rollback_records :: "db \<Rightarrow> utf8 \<Rightarrow> rollback_record list" where
  "list_rollback_records d task_id = order_rows (\<lambda>x. (rr_created_at x, rr_rollback_id x))
     (filter (\<lambda>x. rr_task_id x = task_id) (rollback_records d))"

text \<open>The task, the execution and the workspace of a request, which must belong together.\<close>

definition rollback_scope ::
  "db \<Rightarrow> rollback_creation \<Rightarrow> (task_record \<times> execution_record \<times> workspace_record) res" where
  "rollback_scope d q =
     (case row_by tk_task_id (rc_task_id q) (tasks d) of
        None \<Rightarrow> Inl (NotFound ''rollback task does not exist'')
      | Some t \<Rightarrow>
     (case row_by ex_execution_id (rc_execution_id q) (executions d) of
        None \<Rightarrow> Inl (NotFound ''rollback execution does not exist'')
      | Some e \<Rightarrow>
     if ex_task_id e \<noteq> tk_task_id t \<or> ex_project_id e \<noteq> tk_project_id t
     then Inl (Conflict ''rollback execution scope is invalid'')
     else (case row_by ws_workspace_id (rc_workspace_id q) (workspaces d) of
        None \<Rightarrow> Inl (NotFound ''rollback workspace does not exist'')
      | Some w \<Rightarrow>
     if ws_project_id w \<noteq> tk_project_id t \<or> ex_workspace_id e \<noteq> Some (rc_workspace_id q)
     then Inl (Conflict ''rollback workspace scope is invalid'')
     else Inr (t, e, w))))"

definition rollback_revision :: "rollback_creation \<Rightarrow> workspace_record \<Rightarrow> unit res" where
  "rollback_revision q w =
     (case rc_expected_workspace_revision q of
        None \<Rightarrow> Inr ()
      | Some n \<Rightarrow>
          if n < 0 then Inl (InvalidInput ''rollback workspace revision must not be negative'')
          else if ws_revision w \<noteq> n then Inl (Conflict ''rollback workspace revision is stale'')
          else Inr ())"

text \<open>Without a time the lease counts as expired: the time defaults to the largest one.\<close>

definition rollback_lease :: "db \<Rightarrow> rollback_creation \<Rightarrow> unit res" where
  "rollback_lease d q =
     (case rc_lease q of
        None \<Rightarrow> Inl (Conflict ''rollback requires a current workspace lease'')
      | Some t \<Rightarrow>
          let now_ms = (case rc_now_ms q of None \<Rightarrow> 9223372036854775807 | Some n \<Rightarrow> n) in
          if lt_workspace_id t \<noteq> rc_workspace_id q \<or> lt_agent_id t \<noteq> rc_actor_agent_id q
            \<or> lt_expires_at_ms t \<le> now_ms
          then Inl (Conflict ''rollback lease is stale or expired'')
          else if \<not> lease_live d t now_ms
          then Inl (Conflict ''rollback lease is stale or expired'')
          else Inr ())"

definition rollback_target_version ::
  "db \<Rightarrow> rollback_creation \<Rightarrow> execution_record \<Rightarrow> utf8 res" where
  "rollback_target_version d q e =
     (case rc_target q of
        TargetVersion version_id \<Rightarrow> Inr version_id
      | TargetCheckpoint checkpoint_id \<Rightarrow>
          (case row_by cr_checkpoint_id checkpoint_id (checkpoints d) of
             None \<Rightarrow> Inl (NotFound ''rollback checkpoint does not exist'')
           | Some k \<Rightarrow>
               if cr_task_id k \<noteq> rc_task_id q then Inl (Conflict ''rollback checkpoint scope is invalid'')
               else Inr (cr_version_id k))
      | ExecutionBaseline \<Rightarrow>
          (case ex_base_version_id e of
             None \<Rightarrow> Inl (Conflict ''execution has no baseline Version'')
           | Some version_id \<Rightarrow> Inr version_id)
      | TaskBaseline \<Rightarrow> Inl (Unsupported ''task baseline is not defined by the current Task model''))"

text \<open>A version of the workspace itself is checked as a relation of the execution, a version of
  another workspace as an immutable base.\<close>

definition rollback_version ::
  "externals \<Rightarrow> db \<Rightarrow> rollback_creation \<Rightarrow> utf8 \<Rightarrow> task_record \<Rightarrow> execution_record \<Rightarrow> workspace_record \<Rightarrow>
    version_record res" where
  "rollback_version X d q version_id t e w =
     (if map_option ve_workspace_id (row_by ve_version_id version_id (versions d)) = Some (rc_workspace_id q)
      then validate_relation_version d version_id e (tk_project_id t)
      else version_for_execution_base_transaction X d version_id w)"

definition rollback_checks :: "externals \<Rightarrow> db \<Rightarrow> rollback_creation \<Rightarrow> utf8 res" where
  "rollback_checks X d q =
     try_then (rollback_scope d q) (\<lambda>(t, e, w).
     try_then (rollback_revision q w) (\<lambda>_.
     if row_by ai_agent_id (rc_actor_agent_id q) (agent_identities d) = None
     then Inl (NotFound ''rollback actor does not exist'')
     else try_then (rollback_lease d q) (\<lambda>_.
     try_then (rollback_target_version d q e) (\<lambda>version_id.
     try_then (rollback_version X d q version_id t e w) (\<lambda>v.
     if ve_project_id v \<noteq> tk_project_id t
     then Inl (Conflict ''rollback target Version project is invalid'')
     else Inr version_id)))))"

definition rollback_row ::
  "rollback_creation \<Rightarrow> utf8 \<Rightarrow> utf8 \<Rightarrow> utf8 \<Rightarrow> utf8 \<times> utf8 \<Rightarrow> rollback_record" where
  "rollback_row q status version_id digest identity =
     \<lparr>rr_rollback_id = rc_rollback_id q, rr_task_id = rc_task_id q, rr_execution_id = rc_execution_id q,
      rr_workspace_id = rc_workspace_id q, rr_target_kind = target_kind (rc_target q),
      rr_target_reference = target_reference (rc_target q), rr_target_version_id = version_id,
      rr_actor_agent_id = rc_actor_agent_id q, rr_request_id = rc_request_id q,
      rr_request_digest = digest, rr_status = status, rr_result_version_id = None,
      rr_source_version_id = None, rr_source_snapshot_id = None, rr_previous_workspace_head = None,
      rr_result_workspace_head = None, rr_previous_version_head = None, rr_result_version_head = None,
      rr_generation_id = fst identity, rr_migration_id = snd identity,
      rr_created_at = rc_created_at q, rr_updated_at = rc_created_at q\<rparr>"

definition create_rollback_tx ::
  "externals \<Rightarrow> utf8 \<Rightarrow> redactor \<Rightarrow> rollback_creation keyed \<Rightarrow> db \<Rightarrow> rollback_record tx_end res" where
  "create_rollback_tx X status r k d =
     (let q = kq_request k in
      try_then (projection_identity d) (\<lambda>identity.
      replay_request (row_by (\<lambda>x. (rr_task_id x, rr_request_id x)) (rc_task_id q, rc_request_id q) (rollback_records d))
        (\<lambda>x. rr_request_digest x = kq_digest k \<and> rr_rollback_id x = rc_rollback_id q) (rc_request_id q)
        (try_then (rollback_checks X d q) (\<lambda>version_id.
         if row_by rr_rollback_id (rc_rollback_id q) (rollback_records d) \<noteq> None then Inl constraint_violation
         else Inr (Commit
           (d\<lparr>rollback_records := rollback_records d @ [rollback_row q status version_id (kq_digest k) identity]\<rparr>)
           (\<lambda>d'. case rollback_record_of d' (rc_rollback_id q) of
                   None \<Rightarrow> Inl (Integrity ''rollback disappeared after creation'')
                 | Some x \<Rightarrow> Inr x))))))"

definition create_rollback_with_status ::
  "externals \<Rightarrow> utf8 \<Rightarrow> metadata_store \<Rightarrow> rollback_creation \<Rightarrow> rollback_record res \<times> metadata_store" where
  "create_rollback_with_status X status =
     sqlite_op (keyed_request X rollback_value redact_rollback_creation) (create_rollback_tx X status)"

definition create_rollback ::
  "externals \<Rightarrow> metadata_store \<Rightarrow> rollback_creation \<Rightarrow> rollback_record res \<times> metadata_store" where
  "create_rollback X = create_rollback_with_status X ''prepared''"

definition prepare_rollback ::
  "externals \<Rightarrow> metadata_store \<Rightarrow> rollback_creation \<Rightarrow> rollback_record res \<times> metadata_store" where
  "prepare_rollback X = create_rollback_with_status X ''prepared''"

section \<open>Completion\<close>

text \<open>\<open>RollbackCompletionInput\<close> and \<open>PublishedRollbackCompletionInput\<close> have the same fields.\<close>

record rollback_completion =
  rz_rollback_id :: utf8
  rz_workspace_id :: utf8
  rz_target_version_id :: utf8
  rz_target_workspace_head :: utf8
  rz_source_version_id :: "utf8 option"
  rz_source_snapshot_id :: "utf8 option"
  rz_previous_workspace_head :: "utf8 option"
  rz_previous_version_head :: "utf8 option"
  rz_result_version_head :: "utf8 option"
  rz_lease :: lease_token
  rz_expected_revision :: int
  rz_updated_at :: utf8
  rz_now_ms :: int

definition completion_texts :: "rollback_completion \<Rightarrow> unit res" where
  "completion_texts q =
     validate_labelled [(rz_rollback_id q, ''rollback id''), (rz_workspace_id q, ''rollback workspace id''),
       (rz_target_version_id q, ''rollback target version''),
       (rz_target_workspace_head q, ''rollback workspace head''), (rz_updated_at q, ''rollback updated_at'')]"

definition completion_lease :: "rollback_completion \<Rightarrow> rollback_completion res" where
  "completion_lease q =
     (if lt_workspace_id (rz_lease q) \<noteq> rz_workspace_id q
      then Inl (Conflict ''lease belongs to another workspace'') else Inr q)"

definition complete_rollback_prep :: "redactor \<Rightarrow> rollback_completion \<Rightarrow> rollback_completion res" where
  "complete_rollback_prep r q =
     try_then (completion_texts q) (\<lambda>_.
     if rz_expected_revision q < 0 then Inl (InvalidInput ''workspace revision must not be negative'')
     else completion_lease q)"

definition complete_published_prep :: "redactor \<Rightarrow> rollback_completion \<Rightarrow> rollback_completion res" where
  "complete_published_prep r q = try_then (completion_texts q) (\<lambda>_. completion_lease q)"

text \<open>What both completions read first: the record, its workspace and the lease.\<close>

definition completion_rows :: "db \<Rightarrow> rollback_completion \<Rightarrow> (rollback_record \<times> workspace_record) res" where
  "completion_rows d q =
     (case row_by rr_rollback_id (rz_rollback_id q) (rollback_records d) of
        None \<Rightarrow> Inl (NotFound ''rollback record does not exist'')
      | Some x \<Rightarrow>
          if rr_workspace_id x \<noteq> rz_workspace_id q \<or> rr_target_version_id x \<noteq> rz_target_version_id q
          then Inl (Conflict ''rollback completion binding is inconsistent'')
          else (case row_by ws_workspace_id (rz_workspace_id q) (workspaces d) of
             None \<Rightarrow> Inl (NotFound ''workspace does not exist'')
           | Some w \<Rightarrow>
               if \<not> lease_live d (rz_lease q) (rz_now_ms q)
               then Inl (Conflict ''workspace lease is stale or expired'') else Inr (x, w)))"

definition coalesce :: "'a option \<Rightarrow> 'a option \<Rightarrow> 'a option" where
  "coalesce a b = (case a of None \<Rightarrow> b | Some x \<Rightarrow> Some x)"

definition completed_row :: "rollback_completion \<Rightarrow> rollback_record \<Rightarrow> rollback_record" where
  "completed_row q x = x\<lparr>rr_status := ''completed'',
     rr_source_version_id := coalesce (rz_source_version_id q) (rr_source_version_id x),
     rr_source_snapshot_id := coalesce (rz_source_snapshot_id q) (rr_source_snapshot_id x),
     rr_previous_workspace_head := coalesce (rz_previous_workspace_head q) (rr_previous_workspace_head x),
     rr_result_workspace_head := Some (rz_target_workspace_head q),
     rr_previous_version_head := coalesce (rz_previous_version_head q) (rr_previous_version_head x),
     rr_result_version_head := rz_result_version_head q, rr_updated_at := rz_updated_at q\<rparr>"

definition completed_workspace :: "rollback_completion \<Rightarrow> workspace_record \<Rightarrow> workspace_record" where
  "completed_workspace q w = w\<lparr>ws_head := Some (rz_target_workspace_head q),
     ws_version_head_id := rz_result_version_head q, ws_revision := ws_revision w + 1,
     ws_updated_at := rz_updated_at q\<rparr>"

definition prepared_row :: "utf8 \<Rightarrow> rollback_record \<Rightarrow> bool" where
  "prepared_row rollback_id x \<longleftrightarrow> rr_rollback_id x = rollback_id \<and> rr_status x = ''prepared''"

definition completion_answer ::
  "redactor \<Rightarrow> rollback_completion \<Rightarrow> db \<Rightarrow> workspace_record res" where
  "completion_answer r q d =
     (case workspace_by r d (rz_workspace_id q) of
        None \<Rightarrow> Inl (Integrity ''workspace disappeared after rollback'') | Some w \<Rightarrow> Inr w)"

definition complete_rollback_tx ::
  "redactor \<Rightarrow> rollback_completion \<Rightarrow> db \<Rightarrow> workspace_record tx_end res" where
  "complete_rollback_tx r q d =
     try_then (completion_rows d q) (\<lambda>(x, w).
     if rr_status x = ''completed''
     then if ws_head w = Some (rz_target_workspace_head q)
            \<and> (rz_result_version_head q = None \<or> ws_version_head_id w = rz_result_version_head q)
          then Inr (Finished w)
          else Inl (RecoveryRequired ''completed rollback has inconsistent workspace heads'')
     else if rr_status x \<noteq> ''prepared''
     then Inl (RecoveryRequired ''rollback record is not in a retryable prepared state'')
     else if ws_revision w \<noteq> rz_expected_revision q then Inl (Conflict ''workspace revision is stale'')
     else if count_rows (at_revision (rz_workspace_id q) (rz_expected_revision q)) (workspaces d) \<noteq> 1
     then Inl (Conflict ''workspace revision is stale'')
     else if count_rows (prepared_row (rz_rollback_id q)) (rollback_records d) \<noteq> 1
     then Inl (RecoveryRequired ''rollback record changed during completion'')
     else Inr (Commit
       (d\<lparr>workspaces := update_where (at_revision (rz_workspace_id q) (rz_expected_revision q))
            (completed_workspace q) (workspaces d),
          rollback_records := update_where (prepared_row (rz_rollback_id q)) (completed_row q)
            (rollback_records d)\<rparr>)
       (completion_answer r q)))"

definition complete_rollback ::
  "metadata_store \<Rightarrow> rollback_completion \<Rightarrow> workspace_record res \<times> metadata_store" where
  "complete_rollback = run_op BeforeRollbackCompletionCommit AfterRollbackCompletionCommit
     complete_rollback_prep complete_rollback_tx"

definition published_heads :: "rollback_completion \<Rightarrow> workspace_record \<Rightarrow> bool" where
  "published_heads q w \<longleftrightarrow> ws_revision w = rz_expected_revision q
     \<and> ws_head w = Some (rz_target_workspace_head q) \<and> ws_version_head_id w = rz_result_version_head q"

definition complete_published_tx ::
  "redactor \<Rightarrow> rollback_completion \<Rightarrow> db \<Rightarrow> workspace_record tx_end res" where
  "complete_published_tx r q d =
     try_then (completion_rows d q) (\<lambda>(x, w).
     if rr_status x = ''completed''
     then if published_heads q w then Inr (Finished w)
          else Inl (RecoveryRequired ''completed rollback has inconsistent published state'')
     else if rr_status x \<noteq> ''prepared''
     then Inl (RecoveryRequired ''rollback record is not in a retryable prepared state'')
     else if \<not> published_heads q w
     then Inl (Conflict ''published rollback target does not match workspace state'')
     else if count_rows (prepared_row (rz_rollback_id q)) (rollback_records d) \<noteq> 1
     then Inl (RecoveryRequired ''rollback record changed during completion'')
     else Inr (Commit
       (d\<lparr>rollback_records := update_where (prepared_row (rz_rollback_id q))
            (\<lambda>x. (completed_row q x)\<lparr>rr_result_version_id := None\<rparr>) (rollback_records d)\<rparr>)
       (completion_answer r q)))"

definition complete_published_rollback ::
  "metadata_store \<Rightarrow> rollback_completion \<Rightarrow> workspace_record res \<times> metadata_store" where
  "complete_published_rollback = run_op BeforeRollbackCompletionCommit AfterRollbackCompletionCommit
     complete_published_prep complete_published_tx"


section \<open>Requests are answered once\<close>

definition wants_rollback :: "rollback_creation keyed \<Rightarrow> rollback_record \<Rightarrow> bool" where
  "wants_rollback k x \<longleftrightarrow> rr_task_id x = rc_task_id (kq_request k) \<and> rr_request_id x = rc_request_id (kq_request k)
     \<and> rr_request_digest x = kq_digest k \<and> rr_rollback_id x = rc_rollback_id (kq_request k)"

lemma create_rollback_commit:
  assumes "create_rollback_tx X status r k d = Inr (Commit d' rb)"
  obtains i v where "rollback_checks X d (kq_request k) = Inr v"
    "d' = d\<lparr>rollback_records := rollback_records d @ [rollback_row (kq_request k) status v (kq_digest k) i]\<rparr>"
    "row_by (\<lambda>x. (rr_task_id x, rr_request_id x)) (rc_task_id (kq_request k), rc_request_id (kq_request k))
      (rollback_records d) = None"
    "row_by rr_rollback_id (rc_rollback_id (kq_request k)) (rollback_records d) = None"
    "rb d' = (case rollback_record_of d' (rc_rollback_id (kq_request k)) of
       None \<Rightarrow> Inl (Integrity ''rollback disappeared after creation'') | Some x \<Rightarrow> Inr x)"
  using assms that by (auto simp: create_rollback_tx_def Let_def replay_request_commit split: if_splits)

interpretation rollbacks: request_table rollback_records "keyed_request X rollback_value redact_rollback_creation"
  "create_rollback_tx X status" "\<lambda>x. (rr_task_id x, rr_request_id x)" wants_rollback for X status
proof unfold_locales
  fix r c d d' and k :: "db \<Rightarrow> rollback_record res"
  assume "create_rollback_tx X status r c d = Inr (Commit d' k)"
  then show "\<exists>x. rollback_records d' = rollback_records d @ [x] \<and> wants_rollback c x
      \<and> row_by (\<lambda>x. (rr_task_id x, rr_request_id x)) (rr_task_id x, rr_request_id x) (rollback_records d) = None
      \<and> k d' = Inr x \<and> projection_identity d' = projection_identity d"
    by (rule create_rollback_commit)
      (auto simp: wants_rollback_def rollback_row_def rollback_record_of_def row_by_append intro: identity_same)
next
  fix r c d and y :: "rollback_record tx_end" assume "create_rollback_tx X status r c d = Inr y"
  then show "\<exists>i. projection_identity d = Inr i" by (auto simp: create_rollback_tx_def Let_def)
next
  fix r c d i x assume "projection_identity d = Inr i" "wants_rollback c x"
    "row_by (\<lambda>x. (rr_task_id x, rr_request_id x)) (rr_task_id x, rr_request_id x) (rollback_records d) = Some x"
  then show "create_rollback_tx X status r c d = Inr (Finished x)"
    by (simp add: create_rollback_tx_def Let_def wants_rollback_def replay_request_def)
next
  fix r c d x assume "create_rollback_tx X status r c d = Inr (Finished x)"
  then have row: "row_by (\<lambda>x. (rr_task_id x, rr_request_id x)) (rc_task_id (kq_request c), rc_request_id (kq_request c))
      (rollback_records d) = Some x" and w: "rr_request_digest x = kq_digest c" "rr_rollback_id x = rc_rollback_id (kq_request c)"
    by (auto simp: create_rollback_tx_def Let_def replay_request_finished split: if_splits)
  from row_by_key[OF row] row w show "wants_rollback c x
      \<and> row_by (\<lambda>x. (rr_task_id x, rr_request_id x)) (rr_task_id x, rr_request_id x) (rollback_records d) = Some x"
    by (simp add: wants_rollback_def)
qed

section \<open>The life of a record\<close>

text \<open>A record changes once, from prepared to completed, and only in the columns of the result.\<close>

definition rollback_evolves :: "rollback_record \<Rightarrow> rollback_record \<Rightarrow> bool" where
  "rollback_evolves x y \<longleftrightarrow> y = x \<or> (rr_status x = ''prepared'' \<and> rr_status y = ''completed''
     \<and> y = x\<lparr>rr_status := rr_status y, rr_result_version_id := rr_result_version_id y,
         rr_source_version_id := rr_source_version_id y, rr_source_snapshot_id := rr_source_snapshot_id y,
         rr_previous_workspace_head := rr_previous_workspace_head y,
         rr_result_workspace_head := rr_result_workspace_head y,
         rr_previous_version_head := rr_previous_version_head y,
         rr_result_version_head := rr_result_version_head y, rr_updated_at := rr_updated_at y\<rparr>)"

lemma rollback_evolves_refl [simp]: "rollback_evolves x x"
  by (simp add: rollback_evolves_def)

lemma rollback_evolves_trans: "rollback_evolves x y \<Longrightarrow> rollback_evolves y z \<Longrightarrow> rollback_evolves x z"
  unfolding rollback_evolves_def by (elim disjE conjE) simp_all

lemma rollback_evolves_done: "rollback_evolves x y \<Longrightarrow> rr_status x = ''completed'' \<Longrightarrow> y = x"
  unfolding rollback_evolves_def by (elim disjE conjE) simp_all

lemma rollback_evolves_columns:
  assumes "rollback_evolves x y"
  shows "rr_rollback_id y = rr_rollback_id x \<and> rr_task_id y = rr_task_id x \<and> rr_request_id y = rr_request_id x
    \<and> rr_execution_id y = rr_execution_id x \<and> rr_workspace_id y = rr_workspace_id x
    \<and> rr_target_version_id y = rr_target_version_id x \<and> rr_target_kind y = rr_target_kind x
    \<and> rr_actor_agent_id y = rr_actor_agent_id x \<and> rr_request_digest y = rr_request_digest x
    \<and> rr_created_at y = rr_created_at x"
  using assms unfolding rollback_evolves_def
proof (elim disjE conjE)
  assume y: "y = x\<lparr>rr_status := rr_status y, rr_result_version_id := rr_result_version_id y,
         rr_source_version_id := rr_source_version_id y, rr_source_snapshot_id := rr_source_snapshot_id y,
         rr_previous_workspace_head := rr_previous_workspace_head y,
         rr_result_workspace_head := rr_result_workspace_head y,
         rr_previous_version_head := rr_previous_version_head y,
         rr_result_version_head := rr_result_version_head y, rr_updated_at := rr_updated_at y\<rparr>"
  show ?thesis by (subst y, simp)+
qed simp

lemma completed_row_simps [simp]:
  "rr_status (completed_row q x) = ''completed''" "rr_rollback_id (completed_row q x) = rr_rollback_id x"
  "rr_result_workspace_head (completed_row q x) = Some (rz_target_workspace_head q)"
  "rr_result_version_head (completed_row q x) = rz_result_version_head q"
  by (simp_all add: completed_row_def)

lemma completed_evolves:
  "prepared_row i x \<Longrightarrow> rollback_evolves x (completed_row q x)"
  "prepared_row i x \<Longrightarrow> rollback_evolves x ((completed_row q x)\<lparr>rr_result_version_id := None\<rparr>)"
  by (simp_all add: rollback_evolves_def completed_row_def prepared_row_def)

text \<open>What a record says: an execution of its task on its workspace, a version of the project,
  and results exactly when it is completed.\<close>

definition rollback_good :: "db \<Rightarrow> rollback_record \<Rightarrow> bool" where
  "rollback_good d x \<longleftrightarrow> (\<exists>e v. row_by ex_execution_id (rr_execution_id x) (executions d) = Some e
     \<and> row_by ve_version_id (rr_target_version_id x) (versions d) = Some v
     \<and> ex_task_id e = rr_task_id x \<and> ex_workspace_id e = Some (rr_workspace_id x)
     \<and> ve_project_id v = ex_project_id e)
     \<and> (rr_status x = ''prepared'' \<and> rr_result_workspace_head x = None
        \<or> rr_status x = ''completed'' \<and> rr_result_workspace_head x \<noteq> None)"

definition rollbacks_ok :: "db \<Rightarrow> bool" where
  "rollbacks_ok d \<longleftrightarrow> unique_by rr_rollback_id (rollback_records d)
     \<and> unique_by (\<lambda>x. (rr_task_id x, rr_request_id x)) (rollback_records d)
     \<and> (\<forall>x \<in> set (rollback_records d). rollback_good d x)"

lemma rollbacks_ok_empty [simp]: "rollbacks_ok (empty_db r)"
  by (simp add: rollbacks_ok_def empty_db_def unique_by_def)

lemma completion_rows_ok:
  "completion_rows d q = Inr (x, w) \<longleftrightarrow> row_by rr_rollback_id (rz_rollback_id q) (rollback_records d) = Some x
    \<and> row_by ws_workspace_id (rz_workspace_id q) (workspaces d) = Some w
    \<and> rr_workspace_id x = rz_workspace_id q \<and> rr_target_version_id x = rz_target_version_id q
    \<and> lease_live d (rz_lease q) (rz_now_ms q)"
  by (auto simp: completion_rows_def split: option.splits if_splits)

lemma complete_rollback_commit:
  assumes "complete_rollback_tx r q d = Inr (Commit d' k)"
  obtains x w where "completion_rows d q = Inr (x, w)" "rr_status x = ''prepared''"
    "ws_revision w = rz_expected_revision q"
    "d' = d\<lparr>workspaces := update_where (at_revision (rz_workspace_id q) (rz_expected_revision q))
            (completed_workspace q) (workspaces d),
          rollback_records := update_where (prepared_row (rz_rollback_id q)) (completed_row q)
            (rollback_records d)\<rparr>"
    "k = completion_answer r q"
  using assms that by (auto simp: complete_rollback_tx_def split: if_splits)

lemma complete_published_commit:
  assumes "complete_published_tx r q d = Inr (Commit d' k)"
  obtains x w where "completion_rows d q = Inr (x, w)" "rr_status x = ''prepared''" "published_heads q w"
    "d' = d\<lparr>rollback_records := update_where (prepared_row (rz_rollback_id q))
            (\<lambda>x. (completed_row q x)\<lparr>rr_result_version_id := None\<rparr>) (rollback_records d)\<rparr>"
    "k = completion_answer r q"
  using assms that by (auto simp: complete_published_tx_def split: if_splits)

lemma rollback_good_kept:
  assumes "relations_context d d'" "rollback_good d x"
  shows "rollback_good d' x"
proof -
  obtain e v where e: "row_by ex_execution_id (rr_execution_id x) (executions d) = Some e"
    and v: "row_by ve_version_id (rr_target_version_id x) (versions d) = Some v"
    and c: "ex_task_id e = rr_task_id x" "ex_workspace_id e = Some (rr_workspace_id x)"
      "ve_project_id v = ex_project_id e"
      "rr_status x = ''prepared'' \<and> rr_result_workspace_head x = None
        \<or> rr_status x = ''completed'' \<and> rr_result_workspace_head x \<noteq> None"
    using assms(2) unfolding rollback_good_def by blast
  obtain e' where "row_by ex_execution_id (rr_execution_id x) (executions d') = Some e'" "same_binding e e'"
    by (rule context_execution[OF assms(1) e])
  with c context_version[OF assms(1) v] show ?thesis by (simp add: rollback_good_def same_binding_def)
qed

lemma rollback_good_evolves:
  assumes "rollback_good d x" "rollback_evolves x y" "rr_status y = ''completed''" "rr_result_workspace_head y \<noteq> None"
  shows "rollback_good d y"
  using assms(1,3,4) rollback_evolves_columns[OF assms(2)] by (simp add: rollback_good_def)

text \<open>The update both completions make of the table, for the columns \<open>f\<close> they write.\<close>

lemma completed_rows_ok:
  assumes ok: "rollbacks_ok d" and rows: "rollback_records d' = update_where (prepared_row i) f (rollback_records d)"
    and ctx: "relations_context d d'"
    and f: "\<And>x. prepared_row i x \<Longrightarrow> rollback_evolves x (f x)" "\<And>x. rr_status (f x) = ''completed''"
      "\<And>x. rr_result_workspace_head (f x) \<noteq> None"
  shows "rollbacks_ok d' \<and> keeps_rows rr_rollback_id rollback_evolves (rollback_records d) (rollback_records d')"
proof
  have id: "rr_rollback_id (f x) = rr_rollback_id x" "(rr_task_id (f x), rr_request_id (f x)) = (rr_task_id x, rr_request_id x)"
    if "prepared_row i x" for x using rollback_evolves_columns[OF f(1)[OF that]] by simp_all
  show "keeps_rows rr_rollback_id rollback_evolves (rollback_records d) (rollback_records d')"
    using f(1) id(1) by (auto simp: keeps_rows_def rows row_by_update split: option.split)
  have "rollback_good d' y" if y: "y \<in> set (rollback_records d')" for y
  proof -
    from y obtain x where x: "x \<in> set (rollback_records d)" and yx: "y = (if prepared_row i x then f x else x)"
      unfolding rows update_where_in by blast
    have "rollback_good d x" using ok x unfolding rollbacks_ok_def by blast
    then have "rollback_good d y"
      using yx rollback_good_evolves[OF _ f] by (cases "prepared_row i x") simp_all
    then show ?thesis by (rule rollback_good_kept[OF ctx])
  qed
  with ok id show "rollbacks_ok d'" by (simp add: rollbacks_ok_def rows unique_by_update)
qed

lemma rollback_scope_ok:
  assumes "rollback_scope d q = Inr (t, e, w)"
  shows "row_by ex_execution_id (rc_execution_id q) (executions d) = Some e \<and> ex_task_id e = rc_task_id q
    \<and> ex_project_id e = tk_project_id t \<and> ex_workspace_id e = Some (rc_workspace_id q)"
  using assms by (auto simp: rollback_scope_def dest: row_by_key split: option.splits if_splits)

lemma rollback_version_stored:
  assumes "rollback_version X d q i t e w = Inr v"
  shows "row_by ve_version_id i (versions d) = Some v"
  using assms
  by (auto simp: rollback_version_def validate_relation_version_def version_for_execution_base_transaction_def
      split: option.splits if_splits)

lemma rollback_checks_good:
  assumes "rollback_checks X d q = Inr i"
  shows "rollback_good d (rollback_row q ''prepared'' i g m)"
proof -
  from assms obtain t e w v where "rollback_scope d q = Inr (t, e, w)" "rollback_version X d q i t e w = Inr v"
    "ve_project_id v = tk_project_id t"
    by (auto simp: rollback_checks_def split: if_splits)
  with rollback_scope_ok rollback_version_stored show ?thesis
    by (auto simp: rollback_good_def rollback_row_def)
qed

definition rollbacks_step :: "db \<Rightarrow> db \<Rightarrow> bool" where
  "rollbacks_step d d' \<longleftrightarrow> rollbacks_ok d \<longrightarrow>
     rollbacks_ok d' \<and> keeps_rows rr_rollback_id rollback_evolves (rollback_records d) (rollback_records d')"

lemma rollbacks_step_refl [simp]: "rollbacks_step d d"
  by (simp add: rollbacks_step_def keeps_rows_refl)

lemma rollbacks_step_trans: "rollbacks_step a b \<Longrightarrow> rollbacks_step b c \<Longrightarrow> rollbacks_step a c"
  unfolding rollbacks_step_def
  by (intro impI conjI; (drule mp, assumption, elim conjE)+)
    (assumption | rule keeps_rows_trans[OF rollback_evolves_trans], assumption+)+

lemma rollback_create_step:
  assumes "create_rollback_tx X ''prepared'' r c d = Inr (Commit d' k)"
  shows "rollbacks_step d d'"
  using assms
proof (rule create_rollback_commit)
  fix i v assume checks: "rollback_checks X d (kq_request c) = Inr v"
    and d': "d' = d\<lparr>rollback_records := rollback_records d @ [rollback_row (kq_request c) ''prepared'' v (kq_digest c) i]\<rparr>"
    and none: "row_by (\<lambda>x. (rr_task_id x, rr_request_id x)) (rc_task_id (kq_request c), rc_request_id (kq_request c))
      (rollback_records d) = None" "row_by rr_rollback_id (rc_rollback_id (kq_request c)) (rollback_records d) = None"
  let ?x = "rollback_row (kq_request c) ''prepared'' v (kq_digest c) i"
  have rows: "rollback_records d' = rollback_records d @ [?x]" and ctx: "relations_context d d'"
    by (simp_all add: d' relations_context_def keeps_rows_refl)
  have key: "rr_rollback_id ?x = rc_rollback_id (kq_request c)"
    "(rr_task_id ?x, rr_request_id ?x) = (rc_task_id (kq_request c), rc_request_id (kq_request c))"
    by (simp_all add: rollback_row_def)
  show ?thesis
    unfolding rollbacks_step_def
  proof (intro impI conjI)
    assume ok: "rollbacks_ok d"
    have "rollback_good d' y" if "y \<in> set (rollback_records d')" for y
      using that ok rollback_checks_good[OF checks, of "kq_digest c" i] rollback_good_kept[OF ctx]
      by (auto simp: rows rollbacks_ok_def)
    moreover have "unique_by rr_rollback_id (rollback_records d')"
      unfolding rows by (rule unique_by_insert) (use ok none key in \<open>simp_all add: rollbacks_ok_def\<close>)
    moreover have "unique_by (\<lambda>x. (rr_task_id x, rr_request_id x)) (rollback_records d')"
      unfolding rows by (rule unique_by_insert) (use ok none key in \<open>simp_all add: rollbacks_ok_def\<close>)
    ultimately show "rollbacks_ok d'" by (simp add: rollbacks_ok_def)
    show "keeps_rows rr_rollback_id rollback_evolves (rollback_records d) (rollback_records d')"
      unfolding rows by (rule keeps_rows_append) simp
  qed
qed

lemma rollback_complete_step:
  assumes "complete_rollback_tx r c d = Inr (Commit d' k)"
  shows "rollbacks_step d d'"
  unfolding rollbacks_step_def
proof (intro impI, rule complete_rollback_commit[OF assms])
  fix x w assume ok: "rollbacks_ok d" and d': "d' = d\<lparr>workspaces := update_where (at_revision (rz_workspace_id c)
            (rz_expected_revision c)) (completed_workspace c) (workspaces d),
          rollback_records := update_where (prepared_row (rz_rollback_id c)) (completed_row c) (rollback_records d)\<rparr>"
  show "rollbacks_ok d' \<and> keeps_rows rr_rollback_id rollback_evolves (rollback_records d) (rollback_records d')"
    by (rule completed_rows_ok[OF ok, of _ "rz_rollback_id c" "completed_row c"])
      (simp_all add: d' completed_evolves relations_context_def keeps_rows_refl)
qed

lemma rollback_published_step:
  assumes "complete_published_tx r c d = Inr (Commit d' k)"
  shows "rollbacks_step d d'"
  unfolding rollbacks_step_def
proof (intro impI, rule complete_published_commit[OF assms])
  fix x w assume ok: "rollbacks_ok d" and d': "d' = d\<lparr>rollback_records := update_where (prepared_row (rz_rollback_id c))
            (\<lambda>x. (completed_row c x)\<lparr>rr_result_version_id := None\<rparr>) (rollback_records d)\<rparr>"
  show "rollbacks_ok d' \<and> keeps_rows rr_rollback_id rollback_evolves (rollback_records d) (rollback_records d')"
    by (rule completed_rows_ok[OF ok, of _ "rz_rollback_id c" "\<lambda>x. (completed_row c x)\<lparr>rr_result_version_id := None\<rparr>"])
      (simp_all add: d' completed_evolves relations_context_def keeps_rows_refl)
qed


text \<open>
  Any call of this component with any failpoint armed before it, and any step of the rest of the
  store, which leaves the records alone and keeps what they refer to.
\<close>

inductive rollback_step :: "externals \<Rightarrow> metadata_store \<Rightarrow> metadata_store \<Rightarrow> bool" for X where
  create: "rollback_step X st (snd (create_rollback X (with_failpoint fp st) c))"
| prepare: "rollback_step X st (snd (prepare_rollback X (with_failpoint fp st) c))"
| complete: "rollback_step X st (snd (complete_rollback (with_failpoint fp st) q))"
| published: "rollback_step X st (snd (complete_published_rollback (with_failpoint fp st) q))"
| other: "relations_context (st_db st) (st_db st') \<Longrightarrow>
    rollback_records (st_db st') = rollback_records (st_db st) \<Longrightarrow> rollback_step X st st'"

lemma rollback_run:
  assumes "\<And>r c d d' k. body r c d = Inr (Commit d' k) \<Longrightarrow> rollbacks_step d d'"
  shows "rollbacks_step (st_db st) (st_db (snd (run_op b a prep body (with_failpoint fp st) q)))"
  by (rule run_op_keeps) (use assms in simp_all)

lemma rollback_step_keeps: "rollback_step X st st' \<Longrightarrow> rollbacks_step (st_db st) (st_db st')"
proof (induction rule: rollback_step.induct)
  case (other st st')
  then show ?case
    using rollback_good_kept[OF other(1)]
    by (simp add: rollbacks_step_def rollbacks_ok_def keeps_rows_refl)
qed (simp_all only: create_rollback_def prepare_rollback_def create_rollback_with_status_def complete_rollback_def
    complete_published_rollback_def,
    (rule rollback_run, rule rollback_create_step rollback_complete_step rollback_published_step, assumption)+)

lemma rollback_steps_keep: "(rollback_step X)\<^sup>*\<^sup>* st st' \<Longrightarrow> rollbacks_step (st_db st) (st_db st')"
  by (induction rule: rtranclp_induct) (auto intro: rollbacks_step_trans rollback_step_keeps)

section \<open>What a completion answers\<close>

text \<open>A commit of a completion, seen from the two rows it is about.\<close>

lemma completed_rows:
  assumes commit: "complete_rollback_tx r q d = Inr (Commit d' k)"
  shows "\<exists>x w. rollback_record_of d (rz_rollback_id q) = Some x \<and> rr_status x = ''prepared''
    \<and> rollback_record_of d' (rz_rollback_id q) = Some (completed_row q x)
    \<and> row_by ws_workspace_id (rz_workspace_id q) (workspaces d) = Some w \<and> ws_revision w = rz_expected_revision q
    \<and> row_by ws_workspace_id (rz_workspace_id q) (workspaces d') = Some (completed_workspace q w)
    \<and> (\<forall>i. i \<noteq> rz_workspace_id q \<longrightarrow>
        row_by ws_workspace_id i (workspaces d') = row_by ws_workspace_id i (workspaces d))
    \<and> complete_rollback_tx r q d' = Inr (Finished (completed_workspace q w))"
  using commit
proof (rule complete_rollback_commit)
  fix x w assume rows: "completion_rows d q = Inr (x, w)" and x: "rr_status x = ''prepared''"
    and w: "ws_revision w = rz_expected_revision q"
    and d': "d' = d\<lparr>workspaces := update_where (at_revision (rz_workspace_id q) (rz_expected_revision q))
            (completed_workspace q) (workspaces d),
          rollback_records := update_where (prepared_row (rz_rollback_id q)) (completed_row q) (rollback_records d)\<rparr>"
  from rows have r: "row_by rr_rollback_id (rz_rollback_id q) (rollback_records d) = Some x"
      "row_by ws_workspace_id (rz_workspace_id q) (workspaces d) = Some w"
      "rr_workspace_id x = rz_workspace_id q" "rr_target_version_id x = rz_target_version_id q"
    and live: "lease_live d (rz_lease q) (rz_now_ms q)" by (simp_all add: completion_rows_ok)
  have px: "prepared_row (rz_rollback_id q) x" and pw: "at_revision (rz_workspace_id q) (rz_expected_revision q) w"
    using x w row_by_key[OF r(1)] row_by_key[OF r(2)] by (simp_all add: prepared_row_def at_revision_def)
  have x': "row_by rr_rollback_id (rz_rollback_id q) (rollback_records d') = Some (completed_row q x)"
    using r(1) px by (simp add: d' row_by_update)
  have all: "row_by ws_workspace_id i (workspaces d') = map_option (\<lambda>w.
      if at_revision (rz_workspace_id q) (rz_expected_revision q) w then completed_workspace q w else w)
      (row_by ws_workspace_id i (workspaces d))" for i
    by (simp add: d' row_by_update completed_workspace_def split: option.split)
  have w': "row_by ws_workspace_id (rz_workspace_id q) (workspaces d') = Some (completed_workspace q w)"
    using r(2) pw by (simp add: all)
  have other: "row_by ws_workspace_id i (workspaces d') = row_by ws_workspace_id i (workspaces d)"
    if "i \<noteq> rz_workspace_id q" for i
    using that by (cases "row_by ws_workspace_id i (workspaces d)") (auto simp: all at_revision_def dest: row_by_key)
  have "completion_rows d' q = Inr (completed_row q x, completed_workspace q w)"
    using x' w' r(3,4) live by (simp add: completion_rows_ok completed_row_def lease_live_def d')
  then have "complete_rollback_tx r q d' = Inr (Finished (completed_workspace q w))"
    by (simp add: complete_rollback_tx_def) (simp add: completed_workspace_def)
  with r(1,2) x w x' w' other show ?thesis by (simp add: rollback_record_of_def)
qed

lemma complete_run:
  "complete_rollback st q = (case complete_rollback_prep (st_redactor st) q of Inl e \<Rightarrow> (Inl e, st)
     | Inr _ \<Rightarrow> run_tx st (complete_rollback_tx (st_redactor st) q (st_db st))
         BeforeRollbackCompletionCommit AfterRollbackCompletionCommit)"
  "complete_published_rollback st q = (case complete_published_prep (st_redactor st) q of Inl e \<Rightarrow> (Inl e, st)
     | Inr _ \<Rightarrow> run_tx st (complete_published_tx (st_redactor st) q (st_db st))
         BeforeRollbackCompletionCommit AfterRollbackCompletionCommit)"
  by (auto simp: complete_rollback_def complete_published_rollback_def run_op_def complete_rollback_prep_def
      complete_published_prep_def completion_lease_def try_then_def split: sum.split if_splits)

text \<open>The state both completions leave when they answer.\<close>

definition completion_state :: "db \<Rightarrow> rollback_completion \<Rightarrow> bool" where
  "completion_state d q \<longleftrightarrow> (\<exists>x w. completion_rows d q = Inr (x, w) \<and> rr_status x = ''completed''
     \<and> ws_head w = Some (rz_target_workspace_head q))"

lemma completion_finished:
  "complete_rollback_tx r q d = Inr (Finished y) \<Longrightarrow> completion_state d q"
  "complete_published_tx r q d = Inr (Finished y) \<Longrightarrow> completion_state d q"
  by (auto simp: complete_rollback_tx_def complete_published_tx_def completion_state_def published_heads_def
      split: if_splits)

lemma complete_commit_state:
  assumes "complete_rollback_tx r q d = Inr (Commit d' k)"
  shows "completion_state d' q"
  using completed_rows[OF assms] completion_finished(1) by blast

lemma published_commit_state:
  assumes "complete_published_tx r q d = Inr (Commit d' k)"
  shows "completion_state d' q"
  using assms
proof (rule complete_published_commit)
  fix x w assume rows: "completion_rows d q = Inr (x, w)" and x: "rr_status x = ''prepared''"
    and w: "published_heads q w"
    and d': "d' = d\<lparr>rollback_records := update_where (prepared_row (rz_rollback_id q))
            (\<lambda>x. (completed_row q x)\<lparr>rr_result_version_id := None\<rparr>) (rollback_records d)\<rparr>"
  from rows have r: "row_by rr_rollback_id (rz_rollback_id q) (rollback_records d) = Some x"
    by (simp add: completion_rows_ok)
  have "row_by rr_rollback_id (rz_rollback_id q) (rollback_records d')
      = Some ((completed_row q x)\<lparr>rr_result_version_id := None\<rparr>)"
    using r x row_by_key[OF r] by (simp add: d' row_by_update prepared_row_def)
  with rows have "completion_rows d' q = Inr ((completed_row q x)\<lparr>rr_result_version_id := None\<rparr>, w)"
    by (simp add: completion_rows_ok lease_live_def d' completed_row_def)
  with w show ?thesis by (simp add: completion_state_def published_heads_def)
qed

lemma answered_state:
  assumes "run_tx st body b a = (Inr y, st')"
    and "\<And>y. body = Inr (Finished y) \<Longrightarrow> completion_state (st_db st) q"
    and "\<And>d k. body = Inr (Commit d k) \<Longrightarrow> completion_state d q"
  shows "completion_state (st_db st') q"
  using run_tx_success[OF assms(1)] assms(2,3) by blast

section \<open>Properties\<close>

text \<open>
  C26. A rollback is completed all or nothing: whatever fault hits the call, the store is as it
  was or the prepared record is completed and its workspace has both heads and the next revision,
  no other workspace touched. The call made again then answers with that workspace and changes
  nothing, so a lost answer never moves the heads twice.
\<close>
theorem rollback_completed_once:
  assumes "complete_rollback st q = (out, st')"
  shows "st_db st' = st_db st \<or> (\<exists>x w. rollback_record_of (st_db st) (rz_rollback_id q) = Some x
      \<and> rr_status x = ''prepared''
      \<and> rollback_record_of (st_db st') (rz_rollback_id q) = Some (completed_row q x)
      \<and> row_by ws_workspace_id (rz_workspace_id q) (workspaces (st_db st)) = Some w
      \<and> ws_revision w = rz_expected_revision q
      \<and> row_by ws_workspace_id (rz_workspace_id q) (workspaces (st_db st')) = Some (completed_workspace q w)
      \<and> (\<forall>i. i \<noteq> rz_workspace_id q \<longrightarrow> row_by ws_workspace_id i (workspaces (st_db st'))
            = row_by ws_workspace_id i (workspaces (st_db st)))
      \<and> complete_rollback st' q = (Inr (completed_workspace q w), st'))"
proof (cases "complete_rollback_prep (st_redactor st) q")
  case (Inr c)
  let ?body = "complete_rollback_tx (st_redactor st) q (st_db st)"
  have st': "st' = snd (run_tx st ?body BeforeRollbackCompletionCommit AfterRollbackCompletionCommit)"
    using assms Inr by (simp add: complete_run)
  have red: "st_redactor st' = st_redactor st" by (simp add: st')
  from run_tx_db_cases[of st ?body BeforeRollbackCompletionCommit AfterRollbackCompletionCommit] show ?thesis
  proof (elim disjE exE conjE)
    fix d k assume body: "?body = Inr (Commit d k)"
      and "st_db (snd (run_tx st ?body BeforeRollbackCompletionCommit AfterRollbackCompletionCommit)) = d"
    then have d: "st_db st' = d" by (simp add: st')
    have again: "complete_rollback st' q = (Inr y, st')"
      if "complete_rollback_tx (st_redactor st) q d = Inr (Finished y)" for y
      using that Inr by (simp add: complete_run(1)[of st'] red d)
    from completed_rows[OF body] again show ?thesis by (simp only: d) blast
  qed (simp add: st')
qed (use assms in \<open>simp add: complete_run\<close>)

text \<open>
  When a completion answers, of either kind and with any failpoint armed, the record is
  completed and its workspace really has the target head: a completion that publishes the heads
  itself and one after a snapshot publication both refuse a record that is not theirs, a stale
  revision and a lease that is not live.
\<close>
lemma completion_answer_published:
  assumes "complete_rollback st q = (Inr w, st') \<or> complete_published_rollback st q = (Inr w, st')"
  shows "\<exists>x w'. rollback_record_of (st_db st') (rz_rollback_id q) = Some x \<and> rr_status x = ''completed''
    \<and> rr_workspace_id x = rz_workspace_id q \<and> rr_target_version_id x = rz_target_version_id q
    \<and> row_by ws_workspace_id (rz_workspace_id q) (workspaces (st_db st')) = Some w'
    \<and> ws_head w' = Some (rz_target_workspace_head q) \<and> lease_live (st_db st') (rz_lease q) (rz_now_ms q)"
proof -
  have "completion_state (st_db st') q"
    using assms
    by (elim disjE; cases "complete_rollback_prep (st_redactor st) q"; cases "complete_published_prep (st_redactor st) q")
      (auto simp: complete_run elim!: answered_state
        dest: completion_finished complete_commit_state published_commit_state)
  then show ?thesis
    by (auto simp: completion_state_def completion_rows_ok rollback_record_of_def)
qed

text \<open>
  C31. The life of a rollback record: with the store opened empty, whatever calls, faults and
  other steps follow, no record is lost; it changes at most once, from prepared to completed, and
  only in the columns of the result; it has a result exactly when it is completed; and it always
  names an execution of its task bound to its workspace and a stored version of its project.
\<close>
theorem rollback_life:
  assumes "(rollback_step X)\<^sup>*\<^sup>* (open_store r) st" "(rollback_step X)\<^sup>*\<^sup>* st st'"
    and "rollback_record_of (st_db st) i = Some x"
  shows "\<exists>y. rollback_record_of (st_db st') i = Some y \<and> rollback_evolves x y \<and> rollback_good (st_db st') y"
proof -
  have ok: "rollbacks_ok (st_db st)"
    using rollback_steps_keep[OF assms(1)] by (simp add: rollbacks_step_def open_store_def)
  with rollback_steps_keep[OF assms(2)] have ok': "rollbacks_ok (st_db st')"
    and keep: "keeps_rows rr_rollback_id rollback_evolves (rollback_records (st_db st)) (rollback_records (st_db st'))"
    by (simp_all add: rollbacks_step_def)
  from keep assms(3) obtain y where y: "rollback_record_of (st_db st') i = Some y" "rollback_evolves x y"
    unfolding keeps_rows_def rollback_record_of_def by blast
  with ok' row_by_in have "rollback_good (st_db st') y" unfolding rollbacks_ok_def rollback_record_of_def by metis
  with y show ?thesis by blast
qed


section \<open>The properties at a concrete rollback\<close>

definition rolling_version :: version_record where
  "rolling_version = \<lparr>ve_version_id = ''v1'', ve_workspace_id = ''w1'', ve_project_id = ''p1'',
     ve_snapshot_id = ''snp-1'', ve_creation_operation_id = ''o1'', ve_environment_id = None,
     ve_generation_id = ''legacy-v0.1'', ve_migration_id = ''legacy'', ve_created_at = ''d1'',
     ve_parent_version_id = None\<rparr>"

definition rolling_store :: metadata_store where
  "rolling_store = (open_store default_redactor)\<lparr>st_db := (empty_db default_redactor)
     \<lparr>agent_identities := [\<lparr>ai_agent_id = ''a1'', ai_provider = ''v'', ai_display_name = None,
        ai_created_at = ''d1''\<rparr>],
      tasks := [new_task_row Task_Store.sample_creation],
      executions := [(sample_execution ''running'')\<lparr>ex_workspace_id := Some ''w1''\<rparr>],
      versions := [rolling_version], workspaces := [sample_workspace],
      workspace_leases := [sample_lease ''a1'' 1 0]\<rparr>\<rparr>"

definition rolling_request :: rollback_creation where
  "rolling_request = \<lparr>rc_rollback_id = ''c1'', rc_task_id = ''t1'', rc_execution_id = ''o1'',
     rc_workspace_id = ''w1'', rc_target = TargetVersion ''v1'', rc_actor_agent_id = ''a1'',
     rc_request_id = ''r1'', rc_created_at = ''d2'', rc_lease = Some (lease_token_of (sample_lease ''a1'' 1 0)),
     rc_expected_workspace_revision = Some 0, rc_now_ms = Some 5\<rparr>"

definition rolling_completion :: rollback_completion where
  "rolling_completion = \<lparr>rz_rollback_id = ''c1'', rz_workspace_id = ''w1'', rz_target_version_id = ''v1'',
     rz_target_workspace_head = ''h1'', rz_source_version_id = None, rz_source_snapshot_id = None,
     rz_previous_workspace_head = None, rz_previous_version_head = None,
     rz_result_version_head = Some ''v1'', rz_lease = lease_token_of (sample_lease ''a1'' 1 0),
     rz_expected_revision = 0, rz_updated_at = ''d2'', rz_now_ms = 6\<rparr>"

definition prepared_store :: metadata_store where
  "prepared_store = snd (prepare_rollback sample_externals (with_failpoint None rolling_store) rolling_request)"

lemma rolling_texts: "valid_text ''c1''" "valid_text ''o1''" "valid_text ''d2''" "valid_text ''v1''" "valid_text ''h1''"
  by code_simp+

lemma rolling_checks: "rollback_checks sample_externals (st_db rolling_store) rolling_request = Inr ''v1''"
proof -
  have "rollback_scope (st_db rolling_store) rolling_request
      = Inr (new_task_row Task_Store.sample_creation, (sample_execution ''running'')\<lparr>ex_workspace_id := Some ''w1''\<rparr>,
          sample_workspace)"
    by (simp add: rollback_scope_def rolling_store_def rolling_request_def new_task_row_def
        Task_Store.sample_creation_def sample_execution_def new_execution_row_def sample_workspace_def)
  moreover have "rollback_lease (st_db rolling_store) rolling_request = Inr ()"
    by (simp add: rollback_lease_def rolling_store_def rolling_request_def sample_lease_def lease_token_of_def
        lease_live_def token_live_def token_matches_def)
  moreover have "rollback_version sample_externals (st_db rolling_store) rolling_request ''v1''
      (new_task_row Task_Store.sample_creation) ((sample_execution ''running'')\<lparr>ex_workspace_id := Some ''w1''\<rparr>)
      sample_workspace = Inr rolling_version"
    by (simp add: rollback_version_def rolling_store_def rolling_request_def validate_relation_version_def
        rolling_version_def new_task_row_def Task_Store.sample_creation_def)
  moreover have "row_by ai_agent_id (rc_actor_agent_id rolling_request) (agent_identities (st_db rolling_store)) \<noteq> None"
    by (simp add: rolling_store_def rolling_request_def)
  moreover have "rollback_revision rolling_request sample_workspace = Inr ()"
    by (simp add: rollback_revision_def rolling_request_def sample_workspace_def)
  moreover have "rollback_target_version (st_db rolling_store) rolling_request e = Inr ''v1''" for e
    by (simp add: rollback_target_version_def rolling_request_def)
  moreover have "ve_project_id rolling_version = tk_project_id (new_task_row Task_Store.sample_creation)"
    by (simp add: rolling_version_def new_task_row_def Task_Store.sample_creation_def)
  ultimately show ?thesis by (simp add: rollback_checks_def)
qed

lemma rolling_prepared:
  "\<exists>x. st_db prepared_store = (st_db rolling_store)\<lparr>rollback_records := [x]\<rparr>
    \<and> rr_rollback_id x = ''c1'' \<and> rr_workspace_id x = ''w1'' \<and> rr_target_version_id x = ''v1''
    \<and> rr_status x = ''prepared''"
proof -
  have "validate_domain ''m3/relation-request/v1'' = Inr ()" by code_simp
  then obtain g where g: "relation_request_digest sample_externals (rollback_value rolling_request) = Inr g"
    by (simp add: relation_request_digest_def canonical_digest_def canonical_bytes_def)
  have "redact_rollback_creation default_redactor rolling_request = Inr rolling_request"
    by (simp add: redact_rollback_creation_def rolling_request_def Let_def rolling_texts valid_samples del: check_all.simps)
  with g have prep: "keyed_request sample_externals rollback_value redact_rollback_creation default_redactor rolling_request
      = Inr \<lparr>kq_request = rolling_request, kq_digest = g\<rparr>" by (simp add: keyed_request_def)
  have none: "rollback_records (st_db rolling_store) = []" "st_redactor rolling_store = default_redactor"
    "projection_identity (st_db rolling_store) = Inr (''legacy-v0.1'', ''legacy'')"
    by (simp_all add: rolling_store_def empty_db_def projection_identity_def generation_identity_def meta_value_def)
  let ?x = "rollback_row rolling_request ''prepared'' ''v1'' g (''legacy-v0.1'', ''legacy'')"
  have "st_db prepared_store = (st_db rolling_store)\<lparr>rollback_records := [?x]\<rparr>"
    by (simp add: prepared_store_def prepare_rollback_def create_rollback_with_status_def run_op_def prep
        create_rollback_tx_def Let_def replay_request_def rolling_checks run_tx_unarmed none)
  moreover have "rr_rollback_id ?x = ''c1''" "rr_workspace_id ?x = ''w1''" "rr_target_version_id ?x = ''v1''"
    "rr_status ?x = ''prepared''" by (simp_all add: rollback_row_def rolling_request_def)
  ultimately show ?thesis by blast
qed

text \<open>The completion of the prepared record, with a failpoint armed or not.\<close>

lemma rolling_completes:
  "\<exists>d k. complete_rollback_tx default_redactor rolling_completion (st_db prepared_store) = Inr (Commit d k)
    \<and> k d = Inr (completed_workspace rolling_completion sample_workspace)"
proof -
  obtain x where d: "st_db prepared_store = (st_db rolling_store)\<lparr>rollback_records := [x]\<rparr>"
    and x: "rr_rollback_id x = ''c1''" "rr_workspace_id x = ''w1''" "rr_target_version_id x = ''v1''"
      "rr_status x = ''prepared''" using rolling_prepared by blast
  have ws: "workspaces (st_db prepared_store) = [sample_workspace]" "rollback_records (st_db prepared_store) = [x]"
    and ls: "workspace_leases (st_db prepared_store) = [sample_lease ''a1'' 1 0]"
    by (simp_all add: d rolling_store_def)
  have "completion_rows (st_db prepared_store) rolling_completion = Inr (x, sample_workspace)"
    by (simp add: completion_rows_ok ws ls lease_live_def rolling_completion_def x sample_lease_def lease_token_of_def
        token_live_def token_matches_def) (simp add: sample_workspace_def)
  moreover have "at_revision ''w1'' 0 sample_workspace" "prepared_row ''c1'' x" "ws_revision sample_workspace = 0"
    by (simp_all add: at_revision_def sample_workspace_def prepared_row_def x)
  moreover have "rz_workspace_id rolling_completion = ''w1''" "rz_expected_revision rolling_completion = 0"
    "rz_rollback_id rolling_completion = ''c1''" by (simp_all add: rolling_completion_def)
  moreover have "ws_workspace_id (completed_workspace rolling_completion sample_workspace) = ''w1''"
    by (simp add: completed_workspace_def sample_workspace_def)
  ultimately show ?thesis
    by (simp add: complete_rollback_tx_def x ws count_rows_def update_where_def completion_answer_def workspace_by_def)
qed

lemma rolling_prep: "complete_rollback_prep default_redactor rolling_completion = Inr rolling_completion"
  by (simp add: complete_rollback_prep_def completion_texts_def rolling_completion_def completion_lease_def
      sample_lease_def lease_token_of_def rolling_texts valid_samples del: check_all.simps)

lemma prepared_redactor [simp]: "st_redactor prepared_store = default_redactor"
  by (simp add: prepared_store_def prepare_rollback_def create_rollback_with_status_def rolling_store_def open_store_def)

lemma rolling_run:
  "fst (complete_rollback (with_failpoint None prepared_store) rolling_completion)
     = Inr (completed_workspace rolling_completion sample_workspace)"
  using rolling_completes by (auto simp: complete_run rolling_prep run_tx_unarmed)

lemma rolling_ids: "rz_rollback_id rolling_completion = ''c1''" "rz_workspace_id rolling_completion = ''w1''"
  by (simp_all add: rolling_completion_def)

text \<open>An armed post-commit failpoint hides the answer; the record is completed all the same.\<close>

lemma rolling_faulted:
  "completion_state (st_db (snd (complete_rollback (with_failpoint (Some AfterRollbackCompletionCommit) prepared_store)
     rolling_completion))) rolling_completion"
proof -
  obtain d k where body: "complete_rollback_tx default_redactor rolling_completion (st_db prepared_store) = Inr (Commit d k)"
    using rolling_completes by blast
  have "st_db (snd (complete_rollback (with_failpoint (Some AfterRollbackCompletionCommit) prepared_store)
     rolling_completion)) = d"
    by (simp add: complete_run rolling_prep body run_tx_def commit_def inject_before_commit_def
        inject_after_commit_def inject_def take_if_def with_failpoint_def)
  with complete_commit_state[OF body] show ?thesis by simp
qed

lemma rolling_unfinished: "\<not> completion_state (st_db prepared_store) rolling_completion"
proof -
  obtain x where "st_db prepared_store = (st_db rolling_store)\<lparr>rollback_records := [x]\<rparr>"
    "rr_status x = ''prepared''" "rr_rollback_id x = ''c1''" using rolling_prepared by blast
  then show ?thesis by (simp add: completion_state_def completion_rows_ok rolling_ids)
qed

theorem rollback_completed_once_witness:
  "let st1 = snd (complete_rollback (with_failpoint (Some AfterRollbackCompletionCommit) prepared_store) rolling_completion)
   in \<exists>w. complete_rollback st1 rolling_completion = (Inr w, st1) \<and> ws_head w = Some ''h1''"
proof -
  let ?st = "with_failpoint (Some AfterRollbackCompletionCommit) prepared_store"
  obtain out st1 where run: "complete_rollback ?st rolling_completion = (out, st1)"
    by (cases "complete_rollback ?st rolling_completion")
  from rolling_faulted rolling_unfinished have "st_db st1 \<noteq> st_db ?st" by (auto simp: run)
  with rollback_completed_once[OF run] obtain w where
    "complete_rollback st1 rolling_completion = (Inr (completed_workspace rolling_completion w), st1)" by blast
  moreover have "ws_head (completed_workspace rolling_completion w) = Some ''h1''"
    by (simp add: completed_workspace_def rolling_completion_def)
  ultimately show ?thesis by (simp add: run)
qed

lemma completion_answer_published_witness:
  "\<exists>x. rollback_record_of (st_db (snd (complete_rollback (with_failpoint None prepared_store) rolling_completion))) ''c1''
      = Some x \<and> rr_status x = ''completed''"
proof -
  obtain st1 where run: "complete_rollback (with_failpoint None prepared_store) rolling_completion
      = (Inr (completed_workspace rolling_completion sample_workspace), st1)"
    using rolling_run by (cases "complete_rollback (with_failpoint None prepared_store) rolling_completion") auto
  from completion_answer_published[OF disjI1[OF run]] show ?thesis unfolding run snd_conv rolling_ids by blast
qed

theorem rollback_life_witness:
  "\<exists>x y. rollback_record_of (st_db prepared_store) ''c1'' = Some x \<and> rr_status x = ''prepared''
    \<and> rollback_record_of (st_db (snd (complete_rollback (with_failpoint None prepared_store) rolling_completion))) ''c1''
        = Some y \<and> rollback_evolves x y"
proof -
  obtain x where d: "st_db prepared_store = (st_db rolling_store)\<lparr>rollback_records := [x]\<rparr>"
    and x: "rr_rollback_id x = ''c1''" "rr_status x = ''prepared''" using rolling_prepared by blast
  have one: "rollback_step sample_externals (open_store default_redactor) rolling_store"
    by (rule rollback_step.other) (auto simp: relations_context_def keeps_rows_def rolling_store_def open_store_def empty_db_def)
  have two: "rollback_step sample_externals rolling_store prepared_store"
    unfolding prepared_store_def by (rule rollback_step.prepare)
  have row: "rollback_record_of (st_db prepared_store) ''c1'' = Some x" by (simp add: d rollback_record_of_def x)
  have "(rollback_step sample_externals)\<^sup>*\<^sup>* (open_store default_redactor) prepared_store"
    by (rule rtranclp.rtrancl_into_rtrancl[where b = rolling_store], rule r_into_rtranclp, rule one, rule two)
  moreover have "(rollback_step sample_externals)\<^sup>*\<^sup>* prepared_store
      (snd (complete_rollback (with_failpoint None prepared_store) rolling_completion))"
    by (rule r_into_rtranclp, rule rollback_step.complete)
  ultimately show ?thesis using rollback_life[OF _ _ row] row x(2) by blast
qed

end
