(* ===== verification/Projection_Store.thy ===== *)
theory Projection_Store
  imports Snapshot_Store
begin

text \<open>
  Projections (\<open>create_projection\<close>, \<open>apply_projection\<close>, \<open>rebuild_projection\<close> and their reads in
  \<open>src/src/metadata.rs\<close>): a JSON state folded from the events of a project by registered
  handlers, with a cursor into the log and a ledger of the events that were applied. The lemmas
  relate the incremental application to a replay of the whole log. Handlers are closures of the
  embedding program; they are a parameter, a function of the event and the state.
\<close>

type_synonym handler = "event_envelope \<Rightarrow> json \<Rightarrow> json res"
type_synonym handlers = "utf8 \<Rightarrow> handler option"

definition register_projection_handler :: "utf8 \<Rightarrow> handler \<Rightarrow> handlers \<Rightarrow> handlers" where
  "register_projection_handler event_type handler hs = hs(event_type := Some handler)"

definition inject_projection :: "metadata_store \<Rightarrow> projection_failpoint \<Rightarrow> unit res \<times> metadata_store" where
  "inject_projection st point =
     (case projection_take_if (st_projection_failpoints st) point of
        (Some fired, rest) \<Rightarrow>
          (Inl (FaultInjected (projection_label fired)), st\<lparr>st_projection_failpoints := rest\<rparr>)
      | (None, rest) \<Rightarrow> (Inr (), st\<lparr>st_projection_failpoints := rest\<rparr>))"

section \<open>Creation and reads\<close>

definition validate_projection_definition :: "projection_definition \<Rightarrow> unit res" where
  "validate_projection_definition p =
     validate_labelled [(pd_projection_id p, ''projection_id''), (pd_project_id p, ''project_id''),
       (pd_schema_version p, ''projection schema_version'')]"

definition projection_record_of :: "db \<Rightarrow> utf8 \<Rightarrow> projection_record option" where
  "projection_record_of d projection_id = row_by pr_projection_id projection_id (projections d)"

definition projection_applied_events :: "db \<Rightarrow> utf8 \<Rightarrow> projection_applied_event list" where
  "projection_applied_events d projection_id =
     filter (\<lambda>a. pa_projection_id a = projection_id) (projection_events d)"

definition new_projection_row :: "externals \<Rightarrow> redactor \<Rightarrow> utf8 \<times> utf8 \<Rightarrow> projection_definition \<Rightarrow>
    utf8 \<Rightarrow> utf8 \<Rightarrow> projection_record" where
  "new_projection_row X r identity p state_json updated_at =
     \<lparr>pr_projection_id = pd_projection_id p, pr_project_id = pd_project_id p,
      pr_schema_version = pd_schema_version p, pr_generation_id = fst identity,
      pr_migration_id = snd identity, pr_redaction_profile_id = profile_id r,
      pr_redaction_profile_version = version r, pr_status = ''ready'',
      pr_initial_state_json = state_json, pr_state_json = state_json,
      pr_state_digest = digest_text X state_json, pr_cursor = None, pr_event_count = 0,
      pr_updated_at = updated_at\<rparr>"

definition create_projection_prep ::
  "externals \<Rightarrow> redactor \<Rightarrow> projection_definition \<times> utf8 \<Rightarrow> (projection_definition \<times> utf8 \<times> utf8) res" where
  "create_projection_prep X r q =
     try_then (validate_projection_definition (fst q)) (\<lambda>_.
     try_then (canonical_json_value X (pd_initial_state (fst q))) (\<lambda>state_json.
     Inr (fst q, state_json, snd q)))"

definition create_projection_tx ::
  "externals \<Rightarrow> redactor \<Rightarrow> projection_definition \<times> utf8 \<times> utf8 \<Rightarrow> db \<Rightarrow> projection_record tx_end res" where
  "create_projection_tx X r q d =
     (case q of (p, state_json, updated_at) \<Rightarrow>
      try_then (projection_identity d) (\<lambda>identity.
      try_then (validate_identity_assertion X (pd_generation_id p) (pd_migration_id p) identity
        ''projection definition'') (\<lambda>_.
      if projection_record_of d (pd_projection_id p) \<noteq> None then Inl constraint_violation
      else Inr (Commit
        (d\<lparr>projections := projections d @ [new_projection_row X r identity p state_json updated_at]\<rparr>)
        (\<lambda>d'. case projection_record_of d' (pd_projection_id p) of
                None \<Rightarrow> Inl (Integrity ''projection disappeared after creation'')
              | Some x \<Rightarrow> Inr x)))))"

definition create_projection ::
  "externals \<Rightarrow> metadata_store \<Rightarrow> projection_definition \<times> utf8 \<Rightarrow> projection_record res \<times> metadata_store" where
  "create_projection X = sqlite_op (create_projection_prep X) (create_projection_tx X)"

section \<open>The integrity of a projection\<close>

text \<open>The events the ledger of a projection names, joined by event id.\<close>

definition applied_envelopes :: "db \<Rightarrow> utf8 \<Rightarrow> event_envelope list" where
  "applied_envelopes d projection_id =
     concat (map (\<lambda>a. filter (\<lambda>e. en_event_id e = pa_event_id a) (event_envelopes d))
       (projection_applied_events d projection_id))"

definition ledger_conflict :: "db \<Rightarrow> projection_record \<Rightarrow> projection_applied_event \<Rightarrow> bool" where
  "ledger_conflict d x a \<longleftrightarrow>
     (case row_by en_event_id (pa_event_id a) (event_envelopes d) of
        None \<Rightarrow> True
      | Some e \<Rightarrow> en_project_id e \<noteq> pr_project_id x \<or> en_payload_digest e \<noteq> pa_payload_digest a)"

definition sql_max :: "int list \<Rightarrow> int option" where
  "sql_max ns = (case ns of [] \<Rightarrow> None | n # rest \<Rightarrow> Some (foldl max n rest))"

definition at_cursor :: "projection_record \<Rightarrow> projection_cursor \<Rightarrow> event_envelope \<Rightarrow> bool" where
  "at_cursor x c e \<longleftrightarrow> en_event_id e = pc_event_id c \<and> en_project_id e = pr_project_id x
     \<and> en_project_sequence e = pc_project_sequence c \<and> en_stream_id e = pc_stream_id c
     \<and> en_sequence e = pc_sequence c \<and> en_payload_digest e = pc_payload_digest c"

definition validate_projection_record_integrity ::
  "externals \<Rightarrow> db \<Rightarrow> projection_record \<Rightarrow> unit res" where
  "validate_projection_record_integrity X d x =
     (let bad = (\<lambda>text. Inl (Integrity (''projection '' @ pr_projection_id x @ text))) in
      case json_parse X (pr_state_json x) of
        Inl message \<Rightarrow> bad ('' state is not valid JSON: '' @ message)
      | Inr state \<Rightarrow>
          try_then (canonical_json_value X state) (\<lambda>canonical_state.
          if canonical_state \<noteq> pr_state_json x \<or> digest_text X (pr_state_json x) \<noteq> pr_state_digest x
          then bad '' state digest does not match canonical state''
          else if int (length (projection_applied_events d (pr_projection_id x))) \<noteq> pr_event_count x
          then bad '' event count does not match applied-event ledger''
          else (case find (ledger_conflict d x) (projection_applied_events d (pr_projection_id x)) of
             Some a \<Rightarrow> bad ('' applied-event ledger conflicts with source event '' @ pa_event_id a)
           | None \<Rightarrow>
               (case (pr_cursor x, sql_max (map en_project_sequence (applied_envelopes d (pr_projection_id x)))) of
                  (None, None) \<Rightarrow> Inr ()
                | (Some c, Some n) \<Rightarrow>
                    if pc_project_sequence c \<noteq> n
                    then bad '' cursor is inconsistent with its applied-event ledger''
                    else if count_rows (at_cursor x c) (event_envelopes d) \<noteq> 1
                    then bad '' cursor does not match its source event''
                    else Inr ()
                | _ \<Rightarrow> bad '' cursor is inconsistent with its applied-event ledger''))))"

section \<open>Application\<close>

definition event_cursor :: "event_envelope \<Rightarrow> projection_cursor" where
  "event_cursor e = \<lparr>pc_project_sequence = en_project_sequence e, pc_stream_id = en_stream_id e,
     pc_sequence = en_sequence e, pc_event_id = en_event_id e, pc_payload_digest = en_payload_digest e\<rparr>"

text \<open>What the loop over the events carries; the ledger is the uncommitted table.\<close>

record progress =
  pg_state :: json
  pg_cursor :: "projection_cursor option"
  pg_count :: int
  pg_degraded :: bool
  pg_ledger :: "projection_applied_event list"

definition handle_event :: "handlers \<Rightarrow> event_envelope \<Rightarrow> progress \<Rightarrow> progress res" where
  "handle_event hs e p =
     (case hs (en_event_type e) of
        Some handler \<Rightarrow> try_then (handler e (pg_state p)) (\<lambda>state. Inr (p\<lparr>pg_state := state\<rparr>))
      | None \<Rightarrow> Inr (p\<lparr>pg_degraded := True\<rparr>))"

definition ledger_key :: "projection_applied_event \<Rightarrow> utf8 \<times> utf8" where
  "ledger_key a = (pa_projection_id a, pa_event_id a)"

definition applied_row :: "utf8 \<Rightarrow> utf8 \<Rightarrow> event_envelope \<Rightarrow> projection_applied_event" where
  "applied_row projection_id updated_at e =
     \<lparr>pa_projection_id = projection_id, pa_event_id = en_event_id e,
      pa_payload_digest = en_payload_digest e, pa_applied_at = updated_at\<rparr>"

definition apply_event ::
  "handlers \<Rightarrow> utf8 \<Rightarrow> utf8 \<Rightarrow> event_envelope \<Rightarrow> progress \<Rightarrow> metadata_store \<Rightarrow> progress res \<times> metadata_store" where
  "apply_event hs projection_id updated_at e p st =
     (let applied = row_by ledger_key (projection_id, en_event_id e) (pg_ledger p) in
      pass (inject_projection st AfterIdempotencyCheck) (\<lambda>st.
      case applied of
        Some a \<Rightarrow>
          if pa_payload_digest a \<noteq> en_payload_digest e
          then (Inl (Integrity (''projection event '' @ en_event_id e
            @ '' was reused with a different payload digest'')), st)
          else (Inr (p\<lparr>pg_cursor := Some (event_cursor e)\<rparr>), st)
      | None \<Rightarrow>
          attempt st (handle_event hs e p) (\<lambda>p.
          pass (inject_projection st AfterStateMutation) (\<lambda>st.
          pass (inject_projection st BeforeCursorUpdate) (\<lambda>st.
          let p = p\<lparr>pg_cursor := Some (event_cursor e)\<rparr> in
          pass (inject_projection st AfterCursorUpdate) (\<lambda>st.
          pass (inject_projection st BeforeLedgerCommit) (\<lambda>st.
          let p = p\<lparr>pg_ledger := pg_ledger p @ [applied_row projection_id updated_at e]\<rparr> in
          pass (inject_projection st AfterLedgerCommit) (\<lambda>st.
          (Inr (p\<lparr>pg_count := pg_count p + 1\<rparr>), st)))))))))"

fun apply_events ::
  "handlers \<Rightarrow> utf8 \<Rightarrow> utf8 \<Rightarrow> event_envelope list \<Rightarrow> progress \<Rightarrow> metadata_store \<Rightarrow>
    progress res \<times> metadata_store" where
  "apply_events hs projection_id updated_at [] p st = (Inr p, st)"
| "apply_events hs projection_id updated_at (e # es) p st =
     (case apply_event hs projection_id updated_at e p st of
        (Inl err, st) \<Rightarrow> (Inl err, st)
      | (Inr p, st) \<Rightarrow> apply_events hs projection_id updated_at es p st)"

definition start_progress :: "bool \<Rightarrow> projection_record \<Rightarrow> json \<Rightarrow> db \<Rightarrow> progress" where
  "start_progress rebuild x state d =
     (if rebuild
      then \<lparr>pg_state = state, pg_cursor = None, pg_count = 0, pg_degraded = False,
            pg_ledger = filter (\<lambda>a. pa_projection_id a \<noteq> pr_projection_id x) (projection_events d)\<rparr>
      else \<lparr>pg_state = state, pg_cursor = pr_cursor x, pg_count = pr_event_count x,
            pg_degraded = (pr_status x = ''degraded''), pg_ledger = projection_events d\<rparr>)"

definition start_sequence :: "bool \<Rightarrow> projection_record \<Rightarrow> int" where
  "start_sequence rebuild x =
     (if rebuild then 0 else (case pr_cursor x of None \<Rightarrow> 0 | Some c \<Rightarrow> pc_project_sequence c))"

definition published_row :: "externals \<Rightarrow> progress \<Rightarrow> utf8 \<Rightarrow> utf8 \<Rightarrow> projection_record \<Rightarrow> projection_record" where
  "published_row X p state_json updated_at x = x\<lparr>
     pr_status := (if pg_degraded p then ''degraded'' else ''ready''), pr_state_json := state_json,
     pr_state_digest := digest_text X state_json, pr_cursor := pg_cursor p,
     pr_event_count := pg_count p, pr_updated_at := updated_at\<rparr>"

definition publish_progress :: "externals \<Rightarrow> utf8 \<Rightarrow> progress \<Rightarrow> utf8 \<Rightarrow> utf8 \<Rightarrow> db \<Rightarrow> db" where
  "publish_progress X projection_id p state_json updated_at d =
     d\<lparr>projections := update_where (\<lambda>x. pr_projection_id x = projection_id)
         (published_row X p state_json updated_at) (projections d),
       projection_events := pg_ledger p\<rparr>"

text \<open>The checks before the first event, which end with the state to start from.\<close>

definition projection_start ::
  "externals \<Rightarrow> redactor \<Rightarrow> db \<Rightarrow> utf8 \<Rightarrow> bool \<Rightarrow> (projection_record \<times> json) res" where
  "projection_start X r d projection_id rebuild =
     (case projection_record_of d projection_id of
        None \<Rightarrow> Inl (NotFound (''projection '' @ projection_id))
      | Some x \<Rightarrow>
          try_then (projection_identity d) (\<lambda>identity.
          if pr_generation_id x \<noteq> fst identity \<or> pr_migration_id x \<noteq> snd identity
          then Inl (Integrity ''projection generation identity does not match metadata'')
          else if pr_redaction_profile_id x \<noteq> profile_id r \<or> pr_redaction_profile_version x \<noteq> version r
          then Inl (Integrity ''projection redaction profile does not match metadata'')
          else try_then (validate_projection_record_integrity X d x) (\<lambda>_.
          case json_parse X (if rebuild then pr_initial_state_json x else pr_state_json x) of
            Inl message \<Rightarrow> Inl (Serialization message)
          | Inr state \<Rightarrow> Inr (x, state))))"

text \<open>The end of the transaction, after the loop.\<close>

definition commit_progress ::
  "externals \<Rightarrow> utf8 \<Rightarrow> utf8 \<Rightarrow> progress \<Rightarrow> metadata_store \<Rightarrow> projection_record res \<times> metadata_store" where
  "commit_progress X projection_id updated_at p st =
     attempt st (canonical_json_value X (pg_state p)) (\<lambda>state_json.
     let d = publish_progress X projection_id p state_json updated_at (st_db st) in
     pass (inject_projection st BeforeTransactionCommit) (\<lambda>st.
     pass (inject_before_commit st BeforeSqliteCommit) (\<lambda>st.
     pass (inject_projection (st\<lparr>st_db := d\<rparr>) AfterTransactionCommit) (\<lambda>st.
     pass (inject_after_commit st AfterSqliteCommit) (\<lambda>st.
     (case projection_record_of (st_db st) projection_id of
        None \<Rightarrow> Inl (Integrity ''projection disappeared after apply'')
      | Some x \<Rightarrow> Inr x, st))))))"

definition apply_projection_internal ::
  "externals \<Rightarrow> handlers \<Rightarrow> metadata_store \<Rightarrow> utf8 \<Rightarrow> utf8 \<Rightarrow> bool \<Rightarrow>
    projection_record res \<times> metadata_store" where
  "apply_projection_internal X hs st projection_id updated_at rebuild =
     pass (inject_projection st BeforeApply) (\<lambda>st.
     attempt st (projection_start X (st_redactor st) (st_db st) projection_id rebuild) (\<lambda>(x, state).
     let es = list_event_envelopes (st_db st) (pr_project_id x) (start_sequence rebuild x) in
     pass (inject_projection st AfterValidation) (\<lambda>st.
     case apply_events hs projection_id updated_at es (start_progress rebuild x state (st_db st)) st of
       (Inl e, st) \<Rightarrow> (Inl e, st)
     | (Inr p, st) \<Rightarrow> commit_progress X projection_id updated_at p st)))"

definition apply_projection ::
  "externals \<Rightarrow> handlers \<Rightarrow> metadata_store \<Rightarrow> utf8 \<Rightarrow> utf8 \<Rightarrow> projection_record res \<times> metadata_store" where
  "apply_projection X hs st projection_id updated_at =
     apply_projection_internal X hs st projection_id updated_at False"

definition rebuild_projection ::
  "externals \<Rightarrow> handlers \<Rightarrow> metadata_store \<Rightarrow> utf8 \<Rightarrow> utf8 \<Rightarrow> projection_record res \<times> metadata_store" where
  "rebuild_projection X hs st projection_id updated_at =
     apply_projection_internal X hs st projection_id updated_at True"


section \<open>Failpoints\<close>

lemma inject_projection_frame [simp]:
  "st_db (snd (inject_projection st p)) = st_db st"
  "st_redactor (snd (inject_projection st p)) = st_redactor st"
  "st_failpoints (snd (inject_projection st p)) = st_failpoints st"
  by (simp_all add: inject_projection_def projection_take_if_def)

text \<open>What a call can leave of the store it started from when only failpoints were touched.\<close>

definition same_data :: "metadata_store \<Rightarrow> metadata_store \<Rightarrow> bool" where
  "same_data st st' \<longleftrightarrow> st_db st' = st_db st \<and> st_redactor st' = st_redactor st"

lemma same_data_refl [simp]: "same_data st st"
  by (simp add: same_data_def)

lemma same_data_trans: "same_data a b \<Longrightarrow> same_data b c \<Longrightarrow> same_data a c"
  by (simp add: same_data_def)

text \<open>No failpoint is armed: all of them are passed.\<close>

definition unarmed :: "metadata_store \<Rightarrow> bool" where
  "unarmed st \<longleftrightarrow> st_failpoints st = None \<and> st_projection_failpoints st = None"

definition passed :: "metadata_store \<Rightarrow> metadata_store \<Rightarrow> bool" where
  "passed st0 st \<longleftrightarrow> same_data st0 st \<and> (unarmed st0 \<longrightarrow> st = st0)"

lemma passed_refl [simp]: "passed st st"
  by (simp add: passed_def)

lemma passed_db: "passed a b \<Longrightarrow> st_db b = st_db a"
  unfolding passed_def same_data_def by (elim conjE)

lemma passed_redactor: "passed a b \<Longrightarrow> st_redactor b = st_redactor a"
  unfolding passed_def same_data_def by (elim conjE)

lemma passed_trans: "passed a b \<Longrightarrow> passed b c \<Longrightarrow> passed a c"
  unfolding passed_def using same_data_trans by metis

lemma pass_projection:
  assumes "passed st0 st"
    and "\<And>e st'. same_data st0 st' \<Longrightarrow> \<not> unarmed st0 \<Longrightarrow> P (Inl e, st')"
    and "\<And>st'. passed st0 st' \<Longrightarrow> P (k st')"
  shows "P (pass (inject_projection st p) k)"
proof (cases "st_projection_failpoints st = Some p")
  case True
  then have "pass (inject_projection st p) k
      = (Inl (FaultInjected (projection_label p)), st\<lparr>st_projection_failpoints := None\<rparr>)"
    by (simp add: pass_def inject_projection_def projection_take_if_def)
  moreover have "same_data st0 (st\<lparr>st_projection_failpoints := None\<rparr>)" "\<not> unarmed st0"
    using assms(1) True by (auto simp: passed_def same_data_def unarmed_def)
  ultimately show ?thesis using assms(2) by simp
next
  case False
  then have "pass (inject_projection st p) k = k st"
    by (simp add: pass_def inject_projection_def projection_take_if_def)
  with assms(3)[OF assms(1)] show ?thesis by simp
qed

lemma pass_sqlite:
  assumes "passed st0 st"
    and "\<And>e st'. same_data st0 st' \<Longrightarrow> \<not> unarmed st0 \<Longrightarrow> P (Inl e, st')"
    and "\<And>st'. passed st0 st' \<Longrightarrow> P (k st')"
  shows "P (pass (inject st s g) k)"
proof (cases "unarmed st0")
  case True
  with assms(1) have "st = st0" by (simp add: passed_def)
  with True have "pass (inject st s g) k = k st" by (simp add: pass_def unarmed_def)
  with assms(3)[OF assms(1)] show ?thesis by simp
next
  case False
  have base: "st_db st = st_db st0" "st_redactor st = st_redactor st0"
    using assms(1) by (simp_all add: passed_def same_data_def)
  show ?thesis
  proof (rule pass_inject)
    fix e and st' :: metadata_store assume "st_db st' = st_db st" "st_redactor st' = st_redactor st"
    with base False show "P (Inl (FaultInjected e), st')" by (intro assms(2)) (simp_all add: same_data_def)
  next
    fix st' :: metadata_store assume "st_db st' = st_db st" "st_redactor st' = st_redactor st"
    with base False show "P (k st')" by (intro assms(3)) (simp add: passed_def same_data_def)
  qed
qed

section \<open>Replay\<close>

text \<open>The specification: all handlers of a list of events, one after the other, and whether an
  event without a handler was met.\<close>

fun replay :: "handlers \<Rightarrow> event_envelope list \<Rightarrow> json \<times> bool \<Rightarrow> (json \<times> bool) res" where
  "replay hs [] s = Inr s"
| "replay hs (e # es) (v, degraded) =
     (case hs (en_event_type e) of
        None \<Rightarrow> replay hs es (v, True)
      | Some handler \<Rightarrow> try_then (handler e v) (\<lambda>w. replay hs es (w, degraded)))"

lemma replay_append:
  "replay hs (as @ bs) s = try_then (replay hs as s) (replay hs bs)"
proof (induction as arbitrary: s)
  case (Cons a as)
  show ?case
  proof (cases s)
    case (Pair v g)
    with Cons show ?thesis by (cases "hs (en_event_type a)") (auto simp: try_then_def split: sum.split)
  qed
qed simp

declare replay.simps(2) [simp del]

text \<open>The progress after a list of events none of which is in the ledger yet.\<close>

definition after_events :: "utf8 \<Rightarrow> utf8 \<Rightarrow> event_envelope list \<Rightarrow> json \<times> bool \<Rightarrow> progress \<Rightarrow> progress" where
  "after_events i u es s p = \<lparr>pg_state = fst s,
     pg_cursor = (if es = [] then pg_cursor p else Some (event_cursor (last es))),
     pg_count = pg_count p + int (length es), pg_degraded = snd s,
     pg_ledger = pg_ledger p @ map (applied_row i u) es\<rparr>"

definition one_event :: "handlers \<Rightarrow> event_envelope \<Rightarrow> progress \<Rightarrow> (json \<times> bool) res" where
  "one_event hs e p = replay hs [e] (pg_state p, pg_degraded p)"

lemma handle_event_replay:
  "handle_event hs e p = try_then (one_event hs e p) (\<lambda>s. Inr (p\<lparr>pg_state := fst s, pg_degraded := snd s\<rparr>))"
  by (simp add: handle_event_def one_event_def replay.simps(2) try_then_def split: option.split sum.split)

lemma apply_event_rule:
  assumes new: "row_by ledger_key (i, en_event_id e) (pg_ledger p) = None" and st: "passed st0 st"
    and fail: "\<And>err st'. passed st0 st' \<Longrightarrow>
      unarmed st0 \<Longrightarrow> one_event hs e p = Inl err \<Longrightarrow> P (Inl err, st')"
    and fault: "\<And>err st'. same_data st0 st' \<Longrightarrow> \<not> unarmed st0 \<Longrightarrow> P (Inl err, st')"
    and done_: "\<And>s st'. one_event hs e p = Inr s \<Longrightarrow> passed st0 st' \<Longrightarrow>
      P (Inr (after_events i u [e] s p), st')"
  shows "P (apply_event hs i u e p st)"
proof -
  have failed: "P (Inl err, st')" if "one_event hs e p = Inl err" "passed st0 st'" for err st'
    using that fail fault by (cases "unarmed st0") (auto simp: passed_def)
  have loop: "P (pass (inject_projection st1 AfterStateMutation) (\<lambda>st.
          pass (inject_projection st BeforeCursorUpdate) (\<lambda>st.
          pass (inject_projection st AfterCursorUpdate) (\<lambda>st.
          pass (inject_projection st BeforeLedgerCommit) (\<lambda>st.
          pass (inject_projection st AfterLedgerCommit) (\<lambda>st. (Inr (after_events i u [e] s p), st)))))))"
    if "passed st0 st1" "one_event hs e p = Inr s" for st1 s
    using that(1)
    apply -
    apply (rule pass_projection[where P = P], assumption, rule fault, assumption, assumption)+
    apply (rule done_[OF that(2)])
    apply assumption
    done
  show ?thesis
    unfolding apply_event_def Let_def new option.case handle_event_replay
    apply (rule pass_projection[where P = P, OF st fault])
    apply assumption+
    apply (rule attempt_rule[where P = P])
     apply (auto simp: try_then_def intro: failed split: sum.splits)[1]
    apply (clarsimp simp: after_events_def[symmetric])
    subgoal for st1 x y
      using loop[of st1 "(x, y)"] by (cases p) (simp add: after_events_def)
    done
qed


lemma ledger_key_applied [simp]: "ledger_key (applied_row i u e) = (i, en_event_id e)"
  by (simp add: ledger_key_def applied_row_def)

lemma after_events_Cons:
  "after_events i u es s (after_events i u [e] s1 p) = after_events i u (e # es) s p"
  by (simp add: after_events_def)

lemma apply_events_rule:
  assumes "\<And>e. e \<in> set es \<Longrightarrow> row_by ledger_key (i, en_event_id e) (pg_ledger p) = None"
    and "distinct (map en_event_id es)" and "passed st0 st"
    and fail: "\<And>err st'. passed st0 st' \<Longrightarrow> unarmed st0 \<Longrightarrow>
      replay hs es (pg_state p, pg_degraded p) = Inl err \<Longrightarrow> P (Inl err, st')"
    and fault: "\<And>err st'. same_data st0 st' \<Longrightarrow> \<not> unarmed st0 \<Longrightarrow> P (Inl err, st')"
    and done_: "\<And>s st'. replay hs es (pg_state p, pg_degraded p) = Inr s \<Longrightarrow> passed st0 st' \<Longrightarrow>
      P (Inr (after_events i u es s p), st')"
  shows "P (apply_events hs i u es p st)"
  using assms
proof (induction es arbitrary: p st)
  case Nil
  have "p = after_events i u [] (pg_state p, pg_degraded p) p" by (cases p) (simp add: after_events_def)
  with Nil.prems(3) Nil.prems(6)[of "(pg_state p, pg_degraded p)" st] show ?case by simp
next
  case (Cons e es)
  have step: "replay hs (e # es) (pg_state p, pg_degraded p) = try_then (one_event hs e p) (replay hs es)"
    by (simp only: one_event_def replay_append[symmetric] append.simps)
  define next_step where "next_step = (\<lambda>r. P (case r of (Inl err, st) \<Rightarrow> (Inl err, st)
      | (Inr p, st) \<Rightarrow> apply_events hs i u es p st))"
  have "next_step (apply_event hs i u e p st)"
  proof (rule apply_event_rule[where P = next_step])
    fix s and st' :: metadata_store assume one: "one_event hs e p = Inr s" and st': "passed st0 st'"
    let ?p = "after_events i u [e] s p"
    have now: "(pg_state ?p, pg_degraded ?p) = s" by (simp add: after_events_def)
    have tail: "replay hs (e # es) (pg_state p, pg_degraded p) = replay hs es s" by (simp add: step one)
    have "P (apply_events hs i u es ?p st')"
    proof (rule Cons.IH)
      fix x assume "x \<in> set es"
      moreover from this have "en_event_id x \<noteq> en_event_id e" using Cons.prems(2) by (metis distinct.simps(2) image_eqI list.simps(9) list.set_map)
      ultimately show "row_by ledger_key (i, en_event_id x) (pg_ledger ?p) = None"
        using Cons.prems(1)[of x] by (auto simp: after_events_def row_by_append)
    next
      fix t st2 assume "replay hs es (pg_state ?p, pg_degraded ?p) = Inr t" "passed st0 st2"
      then show "P (Inr (after_events i u es t ?p), st2)"
        using Cons.prems(6)[of t st2] by (simp add: now tail after_events_Cons)
    qed (use Cons.prems st' now tail in auto)
    then show "next_step (Inr ?p, st')" by (simp add: next_step_def)
  qed (use Cons.prems step in \<open>auto simp: next_step_def\<close>)
  then show ?case by (simp add: next_step_def)
qed


section \<open>The invariant\<close>

text \<open>A state that the parser reads back as it was; handlers keep states of that kind.\<close>

definition stable :: "externals \<Rightarrow> json \<Rightarrow> bool" where
  "stable X v \<longleftrightarrow> json_parse X (write_value (json_str X) v) = Inr v"

definition stable_handlers :: "externals \<Rightarrow> handlers \<Rightarrow> bool" where
  "stable_handlers X hs \<longleftrightarrow> (\<forall>t h e v w. hs t = Some h \<longrightarrow> stable X v \<longrightarrow> h e v = Inr w \<longrightarrow> stable X w)"

lemma replay_stable:
  "stable_handlers X hs \<Longrightarrow> stable X v \<Longrightarrow> replay hs es (v, g) = Inr (w, g') \<Longrightarrow> stable X w"
proof (induction es arbitrary: v g)
  case (Cons e es)
  show ?case
  proof (cases "hs (en_event_type e)")
    case None
    with Cons.IH[OF Cons.prems(1,2)] Cons.prems(3) show ?thesis by (simp add: replay.simps(2))
  next
    case (Some h)
    with Cons.prems(3) obtain u where u: "h e v = Inr u" "replay hs es (u, g) = Inr (w, g')"
      by (auto simp: replay.simps(2))
    from Cons.prems(1,2) Some u(1) have "stable X u" unfolding stable_handlers_def by blast
    from Cons.IH[OF Cons.prems(1) this u(2)] show ?thesis .
  qed
qed simp

definition cursor_of :: "event_envelope list \<Rightarrow> projection_cursor option" where
  "cursor_of es = (if es = [] then None else Some (event_cursor (last es)))"

definition applied_key :: "projection_applied_event \<Rightarrow> utf8 \<times> utf8" where
  "applied_key a = (pa_event_id a, pa_payload_digest a)"

definition event_key :: "event_envelope \<Rightarrow> utf8 \<times> utf8" where
  "event_key e = (en_event_id e, en_payload_digest e)"

text \<open>A projection is a replay of the first events of its project.\<close>

definition projected :: "externals \<Rightarrow> handlers \<Rightarrow> db \<Rightarrow> projection_record \<Rightarrow>
    json \<Rightarrow> event_envelope list \<Rightarrow> json \<times> bool \<Rightarrow> bool" where
  "projected X hs d x init es s \<longleftrightarrow> stable X init \<and> pr_initial_state_json x = write_value (json_str X) init
     \<and> prefix es (project_log d (pr_project_id x)) \<and> replay hs es (init, False) = Inr s
     \<and> pr_state_json x = write_value (json_str X) (fst s)
     \<and> pr_state_digest x = digest_text X (pr_state_json x)
     \<and> pr_status x = (if snd s then ''degraded'' else ''ready'')
     \<and> pr_event_count x = int (length es) \<and> pr_cursor x = cursor_of es
     \<and> map applied_key (projection_applied_events d (pr_projection_id x)) = map event_key es"

definition projections_ok :: "externals \<Rightarrow> handlers \<Rightarrow> db \<Rightarrow> bool" where
  "projections_ok X hs d \<longleftrightarrow> unique_by pr_projection_id (projections d)
     \<and> unique_by en_event_id (event_envelopes d)
     \<and> numbered en_project_id en_project_sequence (event_envelopes d)
     \<and> (\<forall>x \<in> set (projections d). \<exists>init es s. projected X hs d x init es s)
     \<and> (\<forall>a \<in> set (projection_events d). row_by pr_projection_id (pa_projection_id a) (projections d) \<noteq> None)"

text \<open>The progress of a projection that has seen the whole log of its project.\<close>

definition caught_up :: "db \<Rightarrow> projection_record \<Rightarrow> json \<times> bool \<Rightarrow> progress \<Rightarrow> bool" where
  "caught_up d x s p \<longleftrightarrow> pg_state p = fst s \<and> pg_degraded p = snd s
     \<and> pg_cursor p = cursor_of (project_log d (pr_project_id x))
     \<and> pg_count p = int (length (project_log d (pr_project_id x)))
     \<and> map applied_key (filter (\<lambda>a. pa_projection_id a = pr_projection_id x) (pg_ledger p))
         = map event_key (project_log d (pr_project_id x))
     \<and> filter (\<lambda>a. pa_projection_id a \<noteq> pr_projection_id x) (pg_ledger p)
         = filter (\<lambda>a. pa_projection_id a \<noteq> pr_projection_id x) (projection_events d)"

lemma applied_row_simps [simp]:
  "pa_projection_id (applied_row i u e) = i" "applied_key (applied_row i u e) = event_key e"
  by (simp_all add: applied_row_def applied_key_def event_key_def)

lemma filter_applied_rows [simp]:
  "filter (\<lambda>a. pa_projection_id a = i) (map (applied_row i u) es) = map (applied_row i u) es"
  "filter (\<lambda>a. pa_projection_id a \<noteq> i) (map (applied_row i u) es) = []"
  by (induction es) simp_all

lemma cursor_of_append: "cursor_of (as @ bs) = (if bs = [] then cursor_of as else cursor_of bs)"
  by (simp add: cursor_of_def)

text \<open>From the first state or from the stored one, the rest of the log leads to the same end.\<close>

lemma rebuild_caught_up:
  assumes "es = project_log d (pr_project_id x)"
  shows "caught_up d x s (after_events (pr_projection_id x) u es s (start_progress True x init d))"
  using assms by (simp add: caught_up_def after_events_def start_progress_def cursor_of_def comp_def)

lemma apply_caught_up:
  assumes "projected X hs d x init es s0" "project_log d (pr_project_id x) = es @ rest"
  shows "caught_up d x s (after_events (pr_projection_id x) u rest s (start_progress False x (fst s0) d))"
  using assms
  by (simp add: caught_up_def after_events_def start_progress_def projected_def cursor_of_append
      projection_applied_events_def comp_def) (simp add: cursor_of_def)

text \<open>Events of the log after the ones applied are not in the ledger.\<close>

lemma log_ids_distinct: "unique_by en_event_id (event_envelopes d) \<Longrightarrow> distinct (map en_event_id (project_log d i))"
  unfolding unique_by_def project_log_def by (rule distinct_map_filter)

lemma not_in_ledger:
  assumes "projected X hs d x init es s0" "project_log d (pr_project_id x) = es @ rest"
    and "unique_by en_event_id (event_envelopes d)" "e \<in> set rest"
  shows "row_by ledger_key (pr_projection_id x, en_event_id e) (projection_events d) = None"
proof (rule ccontr)
  assume "row_by ledger_key (pr_projection_id x, en_event_id e) (projection_events d) \<noteq> None"
  then obtain a where a: "a \<in> set (projection_events d)" "ledger_key a = (pr_projection_id x, en_event_id e)"
    by (auto simp: row_by_None)
  then have "applied_key a \<in> set (map applied_key (projection_applied_events d (pr_projection_id x)))"
    by (simp add: projection_applied_events_def ledger_key_def)
  also have "\<dots> = event_key ` set es" using assms(1) by (simp add: projected_def)
  finally obtain b where "b \<in> set es" "en_event_id b = en_event_id e"
    using a(2) by (auto simp: applied_key_def event_key_def ledger_key_def)
  moreover have "distinct (map en_event_id (es @ rest))" using log_ids_distinct[OF assms(3)] assms(2) by metis
  ultimately show False using assms(4) by (metis disjoint_iff distinct_append image_eqI list.set_map map_append)
qed


section \<open>What an application does\<close>

lemma start_state:
  assumes "projection_start X r d i rb = Inr (y, v)" "projection_record_of d i = Some x"
    and "projected X hs d x init es s0" "stable_handlers X hs"
  shows "y = x \<and> v = (if rb then init else fst s0)"
proof -
  have st: "stable X init" "replay hs es (init, False) = Inr s0" "pr_initial_state_json x = write_value (json_str X) init"
    "pr_state_json x = write_value (json_str X) (fst s0)"
    using assms(3) by (simp_all add: projected_def)
  have "stable X (fst s0)"
    by (rule replay_stable[OF assms(4) st(1), of es False _ "snd s0"]) (simp add: st(2))
  with st assms(1,2) show ?thesis
    by (auto simp: projection_start_def stable_def split: if_splits sum.splits)
qed

lemma log_sequence:
  assumes "numbered en_project_id en_project_sequence (event_envelopes d)"
    and "project_log d i = es @ rest" "es \<noteq> []"
  shows "en_project_sequence (last es) = int (length es)"
proof -
  have "dense (map en_project_sequence (project_log d i))" using assms(1) by (simp add: numbered_def project_log_def)
  then have "map en_project_sequence (es @ rest) = map (\<lambda>i. int i + 1) [0..<length (es @ rest)]"
    using assms(2) by (simp add: dense_def)
  moreover have k: "length es - 1 < length (es @ rest)" using assms(3) by (cases es) auto
  ultimately have "en_project_sequence ((es @ rest) ! (length es - 1)) = int (length es - 1) + 1"
    by (metis (no_types, lifting) add_0 diff_zero length_map length_upt nth_map nth_upt)
  moreover have "(es @ rest) ! (length es - 1) = last es" using assms(3) by (simp add: nth_append last_conv_nth)
  moreover have "int (length es - 1) + 1 = int (length es)" using assms(3) by (cases es) simp_all
  ultimately show ?thesis by simp
qed

lemma start_sequence_applied:
  assumes "projected X hs d x init es s0" "numbered en_project_id en_project_sequence (event_envelopes d)"
  shows "start_sequence rb x = int (if rb then 0 else length es)"
proof -
  obtain rest where "project_log d (pr_project_id x) = es @ rest"
    using assms(1) by (auto simp: projected_def prefix_def)
  from log_sequence[OF assms(2) this] assms(1) show ?thesis
    by (auto simp: start_sequence_def projected_def cursor_of_def event_cursor_def)
qed

lemma unarmed_inject_after [simp]: "passed st0 st \<Longrightarrow> unarmed st0 \<Longrightarrow> unarmed st"
  by (simp add: passed_def)

text \<open>The answer of a commit: the row that was written, or an injected fault.\<close>

definition commit_answer :: "metadata_store \<Rightarrow> metadata_store \<Rightarrow> 'a \<Rightarrow> 'a res \<Rightarrow> bool" where
  "commit_answer st0 st x r \<longleftrightarrow> (r = Inr x \<and> (unarmed st0 \<longrightarrow> unarmed st)) \<or> (\<not> unarmed st0 \<and> (\<exists>e. r = Inl e))"

lemma commit_progress_rule:
  assumes st1: "passed st st1" and row: "projection_record_of (st_db st) i = Some x"
    and fault: "\<And>e st'. same_data st st' \<Longrightarrow> \<not> unarmed st \<Longrightarrow> P (Inl e, st')"
    and stored: "\<And>r st'. st_db st' = publish_progress X i p (write_value (json_str X) (pg_state p)) u (st_db st) \<Longrightarrow>
        st_redactor st' = st_redactor st \<Longrightarrow>
        commit_answer st st' (published_row X p (write_value (json_str X) (pg_state p)) u x) r \<Longrightarrow> P (r, st')"
  shows "P (commit_progress X i u p st1)"
proof -
  let ?json = "write_value (json_str X) (pg_state p)"
  let ?d = "publish_progress X i p ?json u (st_db st)"
  have encoded: "canonical_json_value X (pg_state p) = Inr ?json"
    by (simp add: canonical_json_value_def canonical_bytes_def)
  have reads: "projection_record_of ?d i = Some (published_row X p ?json u x)"
    using row row_by_key[OF row[unfolded projection_record_of_def]]
    by (simp add: projection_record_of_def publish_progress_def row_by_update published_row_def)
  have committed: "P (pass (inject_projection (st3\<lparr>st_db := ?d\<rparr>) AfterTransactionCommit) (\<lambda>st.
       pass (inject st AfterSqliteCommit AfterSqliteCommit) (\<lambda>st.
       (case projection_record_of (st_db st) i of
          None \<Rightarrow> Inl (Integrity ''projection disappeared after apply'') | Some x \<Rightarrow> Inr x, st))))"
    if st3: "passed st st3" for st3
  proof -
    let ?c = "st3\<lparr>st_db := ?d\<rparr>"
    have c: "st_db ?c = ?d" "st_redactor ?c = st_redactor st" using passed_redactor[OF st3] by simp_all
    have armed: "unarmed ?c" if "unarmed st" using st3 that unfolding passed_def unarmed_def by auto
    have faulted: "P (Inl e, st')" if "same_data ?c st'" "\<not> unarmed ?c" for e st'
      by (rule stored) (use that c armed in \<open>auto simp: same_data_def commit_answer_def\<close>)
    have answered: "P (Inr (published_row X p ?json u x), st5)" if st5: "passed ?c st5" for st5
      by (rule stored) (use passed_db[OF st5] passed_redactor[OF st5] c armed unarmed_inject_after[OF st5]
          in \<open>simp_all add: commit_answer_def\<close>)
    show ?thesis
      apply (rule pass_projection[where P = P, OF passed_refl[of ?c] faulted], assumption, assumption)
      apply (rule pass_sqlite[where P = P], assumption, rule faulted, assumption, assumption)
      subgoal for st4 st5 using answered[of st5] passed_db[of ?c st5] reads by simp
      done
  qed
  show ?thesis
    unfolding commit_progress_def encoded attempt_simps Let_def inject_before_commit_def
      inject_after_commit_def passed_db[OF st1]
    apply (rule pass_projection[where P = P, OF st1], rule fault, assumption, assumption)
    apply (rule pass_sqlite[where P = P], assumption, rule fault, assumption, assumption)
    apply (rule committed, assumption)
    done
qed

text \<open>Where the loop starts, as the two modes of the call see it.\<close>

definition first_state :: "bool \<Rightarrow> json \<Rightarrow> json \<times> bool \<Rightarrow> json" where
  "first_state rb init s0 = (if rb then init else fst s0)"

lemma loop_start:
  assumes ok: "projections_ok X hs d" and proj: "projected X hs d x init es s0"
    and evs: "evs = list_event_envelopes d (pr_project_id x) (start_sequence rb x)"
    and p0: "p0 = start_progress rb x (first_state rb init s0) d"
  shows "replay hs evs (pg_state p0, pg_degraded p0) = replay hs (project_log d (pr_project_id x)) (init, False)"
    and "caught_up d x s (after_events (pr_projection_id x) u evs s p0)"
    and "distinct (map en_event_id evs)"
    and "e \<in> set evs \<Longrightarrow> row_by ledger_key (pr_projection_id x, en_event_id e) (pg_ledger p0) = None"
proof -
  let ?log = "project_log d (pr_project_id x)"
  obtain rest where log: "?log = es @ rest" using proj by (auto simp: projected_def prefix_def)
  have ids: "unique_by en_event_id (event_envelopes d)"
    and num: "numbered en_project_id en_project_sequence (event_envelopes d)"
    using ok by (simp_all add: projections_ok_def)
  have evs': "evs = (if rb then ?log else rest)"
    unfolding evs start_sequence_applied[OF proj num] list_envelopes_after[OF num] using log by simp
  have r0: "replay hs es (init, False) = Inr s0" using proj by (simp add: projected_def)
  have rest_replay: "replay hs rest s0 = replay hs ?log (init, False)" by (simp add: log replay_append r0)
  show "replay hs evs (pg_state p0, pg_degraded p0) = replay hs ?log (init, False)"
  proof (cases rb)
    case False
    then have "(pg_state p0, pg_degraded p0) = s0"
      using proj by (cases s0) (simp add: p0 start_progress_def projected_def first_state_def)
    with False evs' rest_replay show ?thesis by simp
  next
    case True
    then have "(pg_state p0, pg_degraded p0) = (init, False)" by (simp add: p0 start_progress_def first_state_def)
    with True evs' show ?thesis by simp
  qed
  show "caught_up d x s (after_events (pr_projection_id x) u evs s p0)"
    using rebuild_caught_up[of ?log d x s u init, OF refl] apply_caught_up[OF proj log, of s u]
    by (cases rb) (simp_all add: p0 evs' first_state_def)
  have "distinct (map en_event_id (es @ rest))" using log_ids_distinct[OF ids, of "pr_project_id x"] log by simp
  then show "distinct (map en_event_id evs)" using evs' log by (simp split: if_splits)
  show "row_by ledger_key (pr_projection_id x, en_event_id e) (pg_ledger p0) = None" if "e \<in> set evs"
  proof (cases rb)
    case True
    then show ?thesis by (auto simp: p0 start_progress_def row_by_None ledger_key_def)
  next
    case False
    with that evs' have "e \<in> set rest" by simp
    from not_in_ledger[OF proj log ids this] False show ?thesis by (simp add: p0 start_progress_def)
  qed
qed

lemma apply_internal_rule:
  assumes ok: "projections_ok X hs (st_db st)" and hs: "stable_handlers X hs"
    and row: "projection_record_of (st_db st) i = Some x" and proj: "projected X hs (st_db st) x init es s0"
    and fault: "\<And>e st'. same_data st st' \<Longrightarrow> \<not> unarmed st \<Longrightarrow> P (Inl e, st')"
    and fail: "\<And>e. unarmed st \<Longrightarrow> projection_start X (st_redactor st) (st_db st) i rb = Inl e
        \<or> (is_ok (projection_start X (st_redactor st) (st_db st) i rb)
          \<and> replay hs (project_log (st_db st) (pr_project_id x)) (init, False) = Inl e) \<Longrightarrow> P (Inl e, st)"
    and stored: "\<And>s p r st'. replay hs (project_log (st_db st) (pr_project_id x)) (init, False) = Inr s \<Longrightarrow>
        is_ok (projection_start X (st_redactor st) (st_db st) i rb) \<Longrightarrow> caught_up (st_db st) x s p \<Longrightarrow>
        st_db st' = publish_progress X i p (write_value (json_str X) (fst s)) u (st_db st) \<Longrightarrow>
        st_redactor st' = st_redactor st \<Longrightarrow>
        commit_answer st st' (published_row X p (write_value (json_str X) (fst s)) u x) r \<Longrightarrow> P (r, st')"
  shows "P (apply_projection_internal X hs st i u rb)"
proof -
  let ?d = "st_db st"
  let ?evs = "list_event_envelopes ?d (pr_project_id x) (start_sequence rb x)"
  define p0 where "p0 = start_progress rb x (first_state rb init s0) ?d"
  note begins = loop_start[OF ok proj refl p0_def]
  have xid: "pr_projection_id x = i" using row row_by_key unfolding projection_record_of_def by metis
  have failed: "P (Inl e, st')" if "passed st st'" "projection_start X (st_redactor st) ?d i rb = Inl e
        \<or> (is_ok (projection_start X (st_redactor st) ?d i rb)
          \<and> replay hs (project_log ?d (pr_project_id x)) (init, False) = Inl e)" for e st'
    using that fail fault by (cases "unarmed st") (auto simp: passed_def)
  define finish where "finish = (\<lambda>r. P (case r of
       (Inl e, st) \<Rightarrow> (Inl e, st) | (Inr p, st) \<Rightarrow> commit_progress X i u p st))"
  have loop: "finish (apply_events hs i u ?evs p0 st2)"
    if st2: "passed st st2" and ready: "is_ok (projection_start X (st_redactor st) ?d i rb)" for st2
  proof (rule apply_events_rule[where P = finish, OF _ begins(3) st2])
    fix s st' assume s: "replay hs ?evs (pg_state p0, pg_degraded p0) = Inr s" and st': "passed st st'"
    have full: "caught_up ?d x s (after_events i u ?evs s p0)" using begins(2) xid by simp
    then have "pg_state (after_events i u ?evs s p0) = fst s" by (simp add: caught_up_def)
    then have "P (commit_progress X i u (after_events i u ?evs s p0) st')"
      by (intro commit_progress_rule[where P = P, OF st' row fault])
        (use stored[OF s[unfolded begins(1)] ready full] in simp_all)
    then show "finish (Inr (after_events i u ?evs s p0), st')" by (simp add: finish_def)
  qed (use begins(1,4) xid ready failed fault in \<open>auto simp: finish_def\<close>)
  have begun: "projection_start X (st_redactor st) ?d i rb = Inr y \<Longrightarrow> y = (x, first_state rb init s0)" for y
    using start_state[OF _ row proj hs] by (cases y) (auto simp: first_state_def)
  show ?thesis
    unfolding apply_projection_internal_def
    apply (rule pass_projection[where P = P, OF passed_refl], rule fault, assumption, assumption)
    apply (rule attempt_rule[where P = P])
     apply (rule failed, assumption, simp add: passed_db passed_redactor)
    subgoal for st1 y
      apply (simp add: passed_db passed_redactor)
      apply (frule begun, simp add: passed_db)
      apply (rule pass_projection[where P = P], assumption, rule fault, assumption, assumption)
      subgoal for st2
        using loop[of st2] by (simp add: finish_def is_ok_simps p0_def passed_db)
      done
    done
qed


section \<open>The invariant is kept\<close>

definition final_row :: "externals \<Rightarrow> db \<Rightarrow> projection_record \<Rightarrow> json \<times> bool \<Rightarrow> utf8 \<Rightarrow> projection_record" where
  "final_row X d x s updated_at = x\<lparr>
     pr_status := (if snd s then ''degraded'' else ''ready''),
     pr_state_json := write_value (json_str X) (fst s),
     pr_state_digest := digest_text X (write_value (json_str X) (fst s)),
     pr_cursor := cursor_of (project_log d (pr_project_id x)),
     pr_event_count := int (length (project_log d (pr_project_id x))), pr_updated_at := updated_at\<rparr>"

lemma published_final:
  "caught_up d x s p \<Longrightarrow> published_row X p (write_value (json_str X) (fst s)) u x = final_row X d x s u"
  by (simp add: caught_up_def published_row_def final_row_def)

lemma project_log_same: "event_envelopes d' = event_envelopes d \<Longrightarrow> project_log d' i = project_log d i"
  by (simp add: project_log_def)

lemma published_tables:
  assumes ok: "projections_ok X hs d" and row: "projection_record_of d i = Some x"
    and p: "caught_up d x s p" and d': "d' = publish_progress X i p (write_value (json_str X) (fst s)) u d"
  shows "event_envelopes d' = event_envelopes d" "repository_meta d' = repository_meta d"
    and "projection_record_of d' j = (if j = i then Some (final_row X d x s u) else projection_record_of d j)"
    and "map applied_key (projection_applied_events d' i) = map event_key (project_log d (pr_project_id x))"
    and "j \<noteq> i \<Longrightarrow> projection_applied_events d' j = projection_applied_events d j"
    and "y \<in> set (projections d') \<Longrightarrow> y = final_row X d x s u \<or> (y \<in> set (projections d) \<and> pr_projection_id y \<noteq> i)"
    and "pr_projection_id x = i" "unique_by pr_projection_id (projections d')"
proof -
  have uniq: "unique_by pr_projection_id (projections d)" using ok by (simp add: projections_ok_def)
  show xid: "pr_projection_id x = i" using row row_by_key unfolding projection_record_of_def by metis
  have tab: "projections d' = update_where (\<lambda>x. pr_projection_id x = i)
      (published_row X p (write_value (json_str X) (fst s)) u) (projections d)"
    "projection_events d' = pg_ledger p" by (simp_all add: d' publish_progress_def)
  have keep: "pr_projection_id (published_row X p t u y) = pr_projection_id y" for t y by (simp add: published_row_def)
  show "event_envelopes d' = event_envelopes d" "repository_meta d' = repository_meta d"
    by (simp_all add: d' publish_progress_def)
  show "unique_by pr_projection_id (projections d')" using uniq keep by (simp add: tab unique_by_update)
  show "projection_record_of d' j = (if j = i then Some (final_row X d x s u) else projection_record_of d j)"
    using row published_final[OF p, of X u] keep xid
    by (auto simp: projection_record_of_def tab row_by_update split: option.splits dest: row_by_key)
  show "map applied_key (projection_applied_events d' i) = map event_key (project_log d (pr_project_id x))"
    using p xid by (simp add: projection_applied_events_def tab caught_up_def)
  show "projection_applied_events d' j = projection_applied_events d j" if "j \<noteq> i"
  proof -
    have rest: "filter (\<lambda>a. pa_projection_id a \<noteq> i) (pg_ledger p)
        = filter (\<lambda>a. pa_projection_id a \<noteq> i) (projection_events d)"
      using p xid by (simp add: caught_up_def)
    have twice: "filter (\<lambda>a. pa_projection_id a = j) (filter (\<lambda>a. pa_projection_id a \<noteq> i) xs)
        = filter (\<lambda>a. pa_projection_id a = j) xs" for xs using that by (induction xs) auto
    show ?thesis
      unfolding projection_applied_events_def tab
      by (rule box_equals[OF arg_cong[OF rest, of "filter (\<lambda>a. pa_projection_id a = j)"] twice twice])
  qed
  show "y = final_row X d x s u \<or> (y \<in> set (projections d) \<and> pr_projection_id y \<noteq> i)" if "y \<in> set (projections d')"
  proof -
    from that obtain z where z: "z \<in> set (projections d)"
      "y = (if pr_projection_id z = i then published_row X p (write_value (json_str X) (fst s)) u z else z)"
      by (auto simp: tab update_where_in)
    have "z = x" if "pr_projection_id z = i"
      using row_by_only[OF row[unfolded projection_record_of_def] uniq z(1) that] .
    with z published_final[OF p, of X u] show ?thesis by auto
  qed
qed

lemma projected_final:
  assumes "projected X hs d x init es s0" "replay hs (project_log d (pr_project_id x)) (init, False) = Inr s"
    and "event_envelopes d' = event_envelopes d"
    and "map applied_key (projection_applied_events d' (pr_projection_id x)) = map event_key (project_log d (pr_project_id x))"
  shows "projected X hs d' (final_row X d x s u) init (project_log d (pr_project_id x)) s"
  using assms(1,2,4) project_log_same[OF assms(3)] by (simp add: projected_def final_row_def)

lemma projected_other:
  assumes "projected X hs d y init es s" "prefix (event_envelopes d) (event_envelopes d')"
    and "projection_applied_events d' (pr_projection_id y) = projection_applied_events d (pr_projection_id y)"
  shows "projected X hs d' y init es s"
proof -
  have "prefix (project_log d i) (project_log d' i)" for i
    using assms(2) by (auto simp: project_log_def prefix_def)
  moreover have "prefix es (project_log d (pr_project_id y))" using assms(1) by (simp add: projected_def)
  ultimately have "prefix es (project_log d' (pr_project_id y))" by (rule prefix_order.trans[rotated])
  with assms(1,3) show ?thesis by (simp add: projected_def)
qed

lemma published_ok:
  assumes ok: "projections_ok X hs d" and row: "projection_record_of d i = Some x"
    and proj: "projected X hs d x init es s0"
    and s: "replay hs (project_log d (pr_project_id x)) (init, False) = Inr s" and p: "caught_up d x s p"
    and d': "d' = publish_progress X i p (write_value (json_str X) (fst s)) u d"
  shows "projections_ok X hs d'"
proof -
  note t = published_tables[OF ok row p d']
  have good: "\<exists>init es s. projected X hs d' y init es s" if "y \<in> set (projections d')" for y
    using t(6)[OF that]
  proof (elim disjE conjE)
    assume "y = final_row X d x s u"
    then show ?thesis using projected_final[OF proj s t(1)] t(4,7) by blast
  next
    assume y: "y \<in> set (projections d)" "pr_projection_id y \<noteq> i"
    with ok obtain init es s where "projected X hs d y init es s" unfolding projections_ok_def by blast
    then have "projected X hs d' y init es s" by (rule projected_other) (use t(1) t(5)[OF y(2)] in simp_all)
    then show ?thesis by blast
  qed
  have "row_by pr_projection_id (pa_projection_id a) (projections d') \<noteq> None" if "a \<in> set (projection_events d')" for a
  proof (cases "pa_projection_id a = i")
    case True
    with t(3)[of i] show ?thesis by (simp add: projection_record_of_def)
  next
    case False
    with that have "a \<in> set (projection_applied_events d' (pa_projection_id a))"
      by (simp add: projection_applied_events_def)
    with t(5)[OF False] have "a \<in> set (projection_events d)" by (simp add: projection_applied_events_def)
    with ok t(3)[of "pa_projection_id a"] False show ?thesis
      unfolding projections_ok_def projection_record_of_def by simp
  qed
  with ok good t(1,8) show ?thesis by (simp add: projections_ok_def)
qed


section \<open>Integrity of a reachable projection\<close>

lemma find_none: "(\<And>x. x \<in> set xs \<Longrightarrow> \<not> P x) \<Longrightarrow> find P xs = None"
  by (simp add: find_None_iff)

lemma max_of_dense: "sql_max (map (\<lambda>i. int i + 1) [0..<Suc n]) = Some (int n + 1)"
proof -
  have "map (\<lambda>i. int i + 1) [0..<Suc n] = 1 # map (\<lambda>i. int i + 1) [1..<Suc n]"
    by (subst upt_conv_Cons) simp_all
  with foldl_max_upt[of n] show ?thesis by (simp add: sql_max_def)
qed

lemma applied_are_log:
  assumes ids: "unique_by en_event_id (event_envelopes d)" and proj: "projected X hs d x init es s"
  shows "applied_envelopes d (pr_projection_id x) = es"
proof -
  have "prefix es (project_log d (pr_project_id x))" using proj by (simp add: projected_def)
  from set_mono_prefix[OF this] have log: "set es \<subseteq> set (event_envelopes d)" by (auto simp: project_log_def)
  have one: "filter (\<lambda>y. en_event_id y = en_event_id e) rows = [e]"
    if "unique_by en_event_id rows" "e \<in> set rows" for e rows
    using that
  proof (induction rows)
    case (Cons y rows)
    then have new: "en_event_id y \<notin> en_event_id ` set rows" and u: "unique_by en_event_id rows"
      by (simp_all add: unique_by_def)
    show ?case
    proof (cases "y = e")
      case True
      with new have "filter (\<lambda>y. en_event_id y = en_event_id e) rows = []"
        by (metis (mono_tags, lifting) filter_empty_conv image_eqI)
      with True show ?thesis by simp
    next
      case False
      with Cons.prems(2) new have "e \<in> set rows" "en_event_id y \<noteq> en_event_id e" by auto
      with Cons.IH[OF u] show ?thesis by simp
    qed
  qed simp
  have "applied_envelopes d (pr_projection_id x)
      = concat (map (\<lambda>i. filter (\<lambda>e. en_event_id e = i) (event_envelopes d))
          (map fst (map applied_key (projection_applied_events d (pr_projection_id x)))))"
    by (simp add: applied_envelopes_def applied_key_def comp_def)
  also have "\<dots> = concat (map (\<lambda>i. filter (\<lambda>e. en_event_id e = i) (event_envelopes d)) (map fst (map event_key es)))"
    using proj by (simp add: projected_def)
  also have "\<dots> = concat (map (\<lambda>e. [e]) es)"
    using log one[OF ids] by (intro arg_cong[of _ _ concat]) (auto simp: event_key_def)
  finally show ?thesis by simp
qed

lemma ledger_agrees:
  assumes ids: "unique_by en_event_id (event_envelopes d)" and proj: "projected X hs d x init es s"
    and a: "a \<in> set (projection_applied_events d (pr_projection_id x))"
  shows "\<not> ledger_conflict d x a"
proof -
  from a have "applied_key a \<in> set (map event_key es)" using proj by (metis image_eqI list.set_map projected_def)
  then obtain e where e: "e \<in> set es" "pa_event_id a = en_event_id e" "pa_payload_digest a = en_payload_digest e"
    by (auto simp: applied_key_def event_key_def)
  from e(1) have "e \<in> set (project_log d (pr_project_id x))"
    using proj by (auto simp: projected_def dest: set_mono_prefix)
  then have "e \<in> set (event_envelopes d)" "en_project_id e = pr_project_id x" by (simp_all add: project_log_def)
  with row_by_unique[OF ids this(1)] e show ?thesis by (simp add: ledger_conflict_def)
qed

lemma cursor_agrees:
  assumes ok: "projections_ok X hs d" and proj: "projected X hs d x init es s"
  shows "case (pr_cursor x, sql_max (map en_project_sequence es)) of
      (None, None) \<Rightarrow> True
    | (Some c, Some n) \<Rightarrow> pc_project_sequence c = n \<and> count_rows (at_cursor x c) (event_envelopes d) = 1
    | _ \<Rightarrow> False"
proof (cases "es = []")
  case True
  with proj show ?thesis by (simp add: projected_def cursor_of_def sql_max_def)
next
  case False
  have ids: "unique_by en_event_id (event_envelopes d)"
    and num: "numbered en_project_id en_project_sequence (event_envelopes d)" using ok by (simp_all add: projections_ok_def)
  obtain rest where log: "project_log d (pr_project_id x) = es @ rest" using proj by (auto simp: projected_def prefix_def)
  have "dense (map en_project_sequence (es @ rest))" using num log by (metis numbered_def project_log_def)
  then have "take (length es) (map en_project_sequence (es @ rest))
      = take (length es) (map (\<lambda>i. int i + 1) [0..<length (es @ rest)])" by (metis dense_def length_map)
  then have seqs: "map en_project_sequence es = map (\<lambda>i. int i + 1) [0..<length es]" by (simp add: take_map)
  obtain n where n: "length es = Suc n" using False by (cases es) auto
  have "sql_max (map en_project_sequence es) = Some (int n + 1)" unfolding seqs n by (rule max_of_dense)
  then have mx: "sql_max (map en_project_sequence es) = Some (int (length es))" by (simp add: n)
  have c: "pr_cursor x = Some (event_cursor (last es))" using proj False by (simp add: projected_def cursor_of_def)
  have "last es \<in> set (project_log d (pr_project_id x))" using False log by simp
  then have l: "last es \<in> set (event_envelopes d)" "en_project_id (last es) = pr_project_id x" by (simp_all add: project_log_def)
  have "count_rows (at_cursor x (event_cursor (last es))) (event_envelopes d)
      = (case row_by en_event_id (en_event_id (last es)) (event_envelopes d) of
           None \<Rightarrow> 0 | Some r \<Rightarrow> if at_cursor x (event_cursor (last es)) r then 1 else 0)"
    by (rule count_rows_key[OF ids]) (simp add: at_cursor_def event_cursor_def)
  then have "count_rows (at_cursor x (event_cursor (last es))) (event_envelopes d) = 1"
    using row_by_unique[OF ids l(1)] l(2) by (simp add: at_cursor_def event_cursor_def)
  with mx c log_sequence[OF num log False] show ?thesis by (simp add: event_cursor_def)
qed

lemma integrity_holds:
  assumes ok: "projections_ok X hs d" and hs: "stable_handlers X hs" and proj: "projected X hs d x init es s"
  shows "validate_projection_record_integrity X d x = Inr ()"
proof -
  have ids: "unique_by en_event_id (event_envelopes d)" using ok by (simp add: projections_ok_def)
  have st: "stable X init" "replay hs es (init, False) = Inr s" "pr_state_json x = write_value (json_str X) (fst s)"
    "pr_state_digest x = digest_text X (pr_state_json x)" "pr_event_count x = int (length es)"
    using proj by (simp_all add: projected_def)
  have "stable X (fst s)" by (rule replay_stable[OF hs st(1), of es False _ "snd s"]) (simp add: st(2))
  then have parse: "json_parse X (write_value (json_str X) (fst s)) = Inr (fst s)" by (simp add: stable_def)
  have len: "length (projection_applied_events d (pr_projection_id x)) = length es"
    using proj by (metis length_map projected_def)
  have agree: "find (ledger_conflict d x) (projection_applied_events d (pr_projection_id x)) = None"
    by (rule find_none) (rule ledger_agrees[OF ids proj])
  show ?thesis
    using cursor_agrees[OF ok proj]
    by (cases "pr_cursor x"; cases "sql_max (map en_project_sequence es)")
      (simp_all add: validate_projection_record_integrity_def parse canonical_json_value_def canonical_bytes_def
        st(3,5) st(4)[unfolded st(3)] len agree applied_are_log[OF ids proj] Let_def del: find_None_iff)
qed


section \<open>The specification of both calls\<close>

text \<open>
  The reference definition: after the identity checks, the whole log of the project is replayed
  from the initial state and the row that says so is returned.
\<close>

definition replayed_projection ::
  "externals \<Rightarrow> handlers \<Rightarrow> redactor \<Rightarrow> db \<Rightarrow> utf8 \<Rightarrow> utf8 \<Rightarrow> projection_record res" where
  "replayed_projection X hs r d projection_id updated_at =
     (case projection_record_of d projection_id of
        None \<Rightarrow> Inl (NotFound (''projection '' @ projection_id))
      | Some x \<Rightarrow>
          try_then (projection_identity d) (\<lambda>identity.
          if pr_generation_id x \<noteq> fst identity \<or> pr_migration_id x \<noteq> snd identity
          then Inl (Integrity ''projection generation identity does not match metadata'')
          else if pr_redaction_profile_id x \<noteq> profile_id r \<or> pr_redaction_profile_version x \<noteq> version r
          then Inl (Integrity ''projection redaction profile does not match metadata'')
          else (case json_parse X (pr_initial_state_json x) of
             Inl message \<Rightarrow> Inl (Serialization message)
           | Inr init \<Rightarrow>
               try_then (replay hs (project_log d (pr_project_id x)) (init, False)) (\<lambda>s.
               Inr (final_row X d x s updated_at)))))"

lemma projections_okD:
  assumes "projections_ok X hs d" "projection_record_of d i = Some x"
  obtains init es s where "projected X hs d x init es s"
  using assms row_by_in unfolding projections_ok_def projection_record_of_def by metis

lemma start_cases:
  assumes ok: "projections_ok X hs d" and hs: "stable_handlers X hs"
    and row: "projection_record_of d i = Some x" and proj: "projected X hs d x init es s0"
  shows "replayed_projection X hs r d i u = try_then (projection_start X r d i rb) (\<lambda>_.
      try_then (replay hs (project_log d (pr_project_id x)) (init, False)) (\<lambda>s. Inr (final_row X d x s u)))"
proof -
  have st: "stable X init" "replay hs es (init, False) = Inr s0" "pr_initial_state_json x = write_value (json_str X) init"
    "pr_state_json x = write_value (json_str X) (fst s0)"
    using proj by (simp_all add: projected_def)
  have "stable X (fst s0)" by (rule replay_stable[OF hs st(1), of es False _ "snd s0"]) (simp add: st(2))
  with st show ?thesis
    by (cases "projection_identity d"; cases "replay hs (project_log d (pr_project_id x)) (init, False)")
      (simp_all add: replayed_projection_def projection_start_def row integrity_holds[OF ok hs proj] stable_def)
qed

text \<open>Without a fault, both calls answer what the specification says.\<close>

lemma apply_internal_answer:
  assumes ok: "projections_ok X hs (st_db st)" and hs: "stable_handlers X hs" and un: "unarmed st"
  shows "fst (apply_projection_internal X hs st i u rb) = replayed_projection X hs (st_redactor st) (st_db st) i u"
proof (cases "projection_record_of (st_db st) i")
  case None
  have "pass (inject_projection st BeforeApply) k = k st" for k :: "metadata_store \<Rightarrow> projection_record res \<times> metadata_store"
    using un by (cases st) (simp add: pass_def inject_projection_def projection_take_if_def unarmed_def)
  with None show ?thesis
    by (simp add: apply_projection_internal_def projection_start_def replayed_projection_def)
next
  case (Some x)
  obtain init es s0 where proj: "projected X hs (st_db st) x init es s0" by (rule projections_okD[OF ok Some])
  note spec = start_cases[OF ok hs Some proj, of "st_redactor st" u rb]
  show ?thesis
  proof (rule apply_internal_rule[where P = "\<lambda>r. fst r = replayed_projection X hs (st_redactor st) (st_db st) i u",
        OF ok hs Some proj])
    fix e assume "projection_start X (st_redactor st) (st_db st) i rb = Inl e
      \<or> (is_ok (projection_start X (st_redactor st) (st_db st) i rb)
        \<and> replay hs (project_log (st_db st) (pr_project_id x)) (init, False) = Inl e)"
    then show "fst (Inl e :: projection_record res, st) = replayed_projection X hs (st_redactor st) (st_db st) i u"
      unfolding spec by (cases "projection_start X (st_redactor st) (st_db st) i rb") auto
  next
    fix s p r st' assume s: "replay hs (project_log (st_db st) (pr_project_id x)) (init, False) = Inr s"
      and ready: "is_ok (projection_start X (st_redactor st) (st_db st) i rb)" and p: "caught_up (st_db st) x s p"
      and r: "commit_answer st st' (published_row X p (write_value (json_str X) (fst s)) u x) r"
    from r un published_final[OF p, of X u] have "r = Inr (final_row X (st_db st) x s u)"
      by (simp add: commit_answer_def)
    with s ready show "fst (r, st' :: metadata_store) = replayed_projection X hs (st_redactor st) (st_db st) i u"
      unfolding spec by (cases "projection_start X (st_redactor st) (st_db st) i rb") auto
  qed (use un in simp)
qed


section \<open>Steps\<close>

text \<open>What a call leaves of the tables: the log and the metadata as they were, and either all
  rows as they were or the complete row for its projection.\<close>

definition left_complete :: "externals \<Rightarrow> handlers \<Rightarrow> utf8 \<Rightarrow> utf8 \<Rightarrow> metadata_store \<Rightarrow> metadata_store \<Rightarrow> bool" where
  "left_complete X hs i u st st' \<longleftrightarrow> projections_ok X hs (st_db st') \<and> st_redactor st' = st_redactor st
    \<and> event_envelopes (st_db st') = event_envelopes (st_db st)
    \<and> repository_meta (st_db st') = repository_meta (st_db st)
    \<and> (st_db st' = st_db st \<or> (\<exists>x init s. projection_record_of (st_db st) i = Some x
          \<and> stable X init \<and> pr_initial_state_json x = write_value (json_str X) init
          \<and> replay hs (project_log (st_db st) (pr_project_id x)) (init, False) = Inr s
          \<and> projection_record_of (st_db st') i = Some (final_row X (st_db st) x s u)
          \<and> map applied_key (projection_applied_events (st_db st') i)
              = map event_key (project_log (st_db st) (pr_project_id x))))"

lemma left_same: "projections_ok X hs (st_db st) \<Longrightarrow> same_data st st' \<Longrightarrow> left_complete X hs i u st st'"
  by (simp add: left_complete_def same_data_def)

lemma apply_internal_leaves:
  assumes ok: "projections_ok X hs (st_db st)" and hs: "stable_handlers X hs"
  shows "left_complete X hs i u st (snd (apply_projection_internal X hs st i u rb))"
proof (cases "projection_record_of (st_db st) i")
  case None
  have "same_data st (snd (apply_projection_internal X hs st i u rb))"
    unfolding apply_projection_internal_def
    by (rule pass_projection[where P = "\<lambda>r. same_data st (snd r)", OF passed_refl])
      (auto simp: projection_start_def passed_db None same_data_def passed_redactor)
  then show ?thesis by (rule left_same[OF ok])
next
  case (Some x)
  obtain init es s0 where proj: "projected X hs (st_db st) x init es s0" by (rule projections_okD[OF ok Some])
  show ?thesis
  proof (rule apply_internal_rule[where P = "\<lambda>r. left_complete X hs i u st (snd r)", OF ok hs Some proj])
    fix s p r and st' :: metadata_store assume s: "replay hs (project_log (st_db st) (pr_project_id x)) (init, False) = Inr s"
      and p: "caught_up (st_db st) x s p"
      and d': "st_db st' = publish_progress X i p (write_value (json_str X) (fst s)) u (st_db st)"
      and red: "st_redactor st' = st_redactor st"
    note t = published_tables[OF ok Some p d']
    have init: "stable X init" "pr_initial_state_json x = write_value (json_str X) init"
      using proj by (simp_all add: projected_def)
    have "projections_ok X hs (st_db st')" by (rule published_ok[OF ok Some proj s p d'])
    with t(1,2,4) t(3)[of i] red Some init s show "left_complete X hs i u st (snd (r, st'))"
      unfolding left_complete_def by (metis snd_conv)
  qed (use left_same[OF ok] in \<open>simp_all\<close>)
qed

lemma final_row_fields [simp]:
  "pr_generation_id (final_row X d x s u) = pr_generation_id x"
  "pr_migration_id (final_row X d x s u) = pr_migration_id x"
  "pr_redaction_profile_id (final_row X d x s u) = pr_redaction_profile_id x"
  "pr_redaction_profile_version (final_row X d x s u) = pr_redaction_profile_version x"
  "pr_initial_state_json (final_row X d x s u) = pr_initial_state_json x"
  "pr_project_id (final_row X d x s u) = pr_project_id x"
  by (simp_all add: final_row_def)

lemma final_row_again:
  assumes "event_envelopes d' = event_envelopes d"
  shows "final_row X d' (final_row X d x s u) s u = final_row X d x s u"
  by (simp add: final_row_def project_log_same[OF assms])

lemma replayed_same:
  assumes "left_complete X hs i u st st'"
  shows "replayed_projection X hs (st_redactor st') (st_db st') i u
    = replayed_projection X hs (st_redactor st) (st_db st) i u"
proof (cases "st_db st' = st_db st")
  case False
  with assms obtain x init s where x: "projection_record_of (st_db st) i = Some x"
    and init: "stable X init" "pr_initial_state_json x = write_value (json_str X) init"
    and s: "replay hs (project_log (st_db st) (pr_project_id x)) (init, False) = Inr s"
    and x': "projection_record_of (st_db st') i = Some (final_row X (st_db st) x s u)"
    unfolding left_complete_def by blast
  have e: "event_envelopes (st_db st') = event_envelopes (st_db st)"
    "projection_identity (st_db st') = projection_identity (st_db st)" "st_redactor st' = st_redactor st"
    using assms by (simp_all add: left_complete_def projection_identity_def generation_identity_def meta_value_def)
  show ?thesis
    using init s
    by (cases "projection_identity (st_db st)")
      (simp_all add: replayed_projection_def x x' e(2,3) final_row_again[OF e(1)] project_log_same[OF e(1)] stable_def)
qed (use assms in \<open>simp add: left_complete_def\<close>)

lemma create_projection_ok:
  assumes ok: "projections_ok X hs d" and st: "stable X (pd_initial_state (fst q))"
    and prep: "create_projection_prep X r q = Inr c" and body: "create_projection_tx X r c d = Inr (Commit d' k)"
  shows "projections_ok X hs d' \<and> event_envelopes d' = event_envelopes d"
proof -
  obtain p u where q: "q = (p, u)" by (cases q)
  let ?js = "write_value (json_str X) (pd_initial_state p)"
  from prep have c: "c = (p, ?js, u)"
    by (auto simp: create_projection_prep_def q canonical_json_value_def canonical_bytes_def)
  from body obtain identity where d': "d' = d\<lparr>projections := projections d @ [new_projection_row X r identity p ?js u]\<rparr>"
    and new: "row_by pr_projection_id (pd_projection_id p) (projections d) = None"
    by (auto simp: create_projection_tx_def c projection_record_of_def split: if_splits)
  let ?x = "new_projection_row X r identity p ?js u"
  have id: "pr_projection_id ?x = pd_projection_id p" by (simp add: new_projection_row_def)
  have none: "projection_applied_events d (pd_projection_id p) = []"
    using ok new by (auto simp: projections_ok_def projection_applied_events_def filter_empty_conv)
  have same: "event_envelopes d' = event_envelopes d" "projection_events d' = projection_events d" by (simp_all add: d')
  have "projected X hs d' ?x (pd_initial_state p) [] (pd_initial_state p, False)"
    using none st same(2) by (simp add: projected_def new_projection_row_def q cursor_of_def projection_applied_events_def)
  moreover have "\<exists>init es s. projected X hs d' y init es s" if "y \<in> set (projections d)" for y
  proof -
    from ok that obtain init es s where "projected X hs d y init es s" unfolding projections_ok_def by blast
    then have "projected X hs d' y init es s"
      by (rule projected_other) (simp_all add: same projection_applied_events_def)
    then show ?thesis by blast
  qed
  ultimately have "\<forall>y \<in> set (projections d'). \<exists>init es s. projected X hs d' y init es s" by (auto simp: d')
  moreover have "unique_by pr_projection_id (projections d')"
    using ok new id by (simp add: d' projections_ok_def unique_by_insert)
  moreover have "\<forall>a \<in> set (projection_events d'). row_by pr_projection_id (pa_projection_id a) (projections d') \<noteq> None"
    using ok by (auto simp: d' projections_ok_def row_by_append split: option.splits)
  ultimately show ?thesis using ok same by (simp add: projections_ok_def)
qed

text \<open>
  Any call on projections with any failpoints armed before it, and any step of the rest of the
  store, which leaves both tables alone and appends to the log.
\<close>

definition arm :: "metadata_failpoint option \<Rightarrow> projection_failpoint option \<Rightarrow> metadata_store \<Rightarrow> metadata_store" where
  "arm fp pfp st = st\<lparr>st_failpoints := fp, st_projection_failpoints := pfp\<rparr>"

lemma arm_simps [simp]:
  "st_db (arm fp pfp st) = st_db st" "st_redactor (arm fp pfp st) = st_redactor st" "unarmed (arm None None st)"
  by (simp_all add: arm_def unarmed_def)

inductive projection_step :: "externals \<Rightarrow> handlers \<Rightarrow> metadata_store \<Rightarrow> metadata_store \<Rightarrow> bool" for X hs where
  create: "stable X (pd_initial_state (fst q)) \<Longrightarrow>
    projection_step X hs st (snd (create_projection X (arm fp pfp st) q))"
| applied: "projection_step X hs st (snd (apply_projection X hs (arm fp pfp st) i u))"
| rebuild: "projection_step X hs st (snd (rebuild_projection X hs (arm fp pfp st) i u))"
| other: "projections (st_db st') = projections (st_db st) \<Longrightarrow>
    projection_events (st_db st') = projection_events (st_db st) \<Longrightarrow>
    prefix (event_envelopes (st_db st)) (event_envelopes (st_db st')) \<Longrightarrow>
    unique_by en_event_id (event_envelopes (st_db st')) \<Longrightarrow>
    numbered en_project_id en_project_sequence (event_envelopes (st_db st')) \<Longrightarrow> projection_step X hs st st'"

lemma projection_step_ok:
  assumes "projection_step X hs st st'" "stable_handlers X hs" "projections_ok X hs (st_db st)"
  shows "projections_ok X hs (st_db st')"
  using assms(1)
proof (cases rule: projection_step.cases)
  case (create q fp pfp)
  have "projections_ok X hs (st_db (snd (create_projection X (arm fp pfp st) q)))"
    unfolding create_projection_def
  proof (rule run_op_keeps[where I = "projections_ok X hs"])
    show "projections_ok X hs (st_db (arm fp pfp st))" using assms(3) by simp
    fix c d k
    assume prep: "create_projection_prep X (st_redactor (arm fp pfp st)) q = Inr c"
      and body: "create_projection_tx X (st_redactor (arm fp pfp st)) c (st_db (arm fp pfp st)) = Inr (Commit d k)"
    have "projections_ok X hs (st_db (arm fp pfp st))" using assms(3) by simp
    from create_projection_ok[OF this create(2) prep body] show "projections_ok X hs d" ..
  qed
  with create(1) show ?thesis by simp
next
  case (applied fp pfp i u)
  then show ?thesis
    using apply_internal_leaves[of X hs "arm fp pfp st" i u False] assms(2,3)
    by (simp add: apply_projection_def left_complete_def)
next
  case (rebuild fp pfp i u)
  then show ?thesis
    using apply_internal_leaves[of X hs "arm fp pfp st" i u True] assms(2,3)
    by (simp add: rebuild_projection_def left_complete_def)
next
  case other
  have "\<exists>init es s. projected X hs (st_db st') y init es s" if y: "y \<in> set (projections (st_db st'))" for y
  proof -
    from assms(3) y other(1) obtain init es s where "projected X hs (st_db st) y init es s"
      unfolding projections_ok_def by auto
    then have "projected X hs (st_db st') y init es s"
      by (rule projected_other) (use other in \<open>simp_all add: projection_applied_events_def\<close>)
    then show ?thesis by blast
  qed
  with assms(3) other show ?thesis by (simp add: projections_ok_def)
qed

lemma projection_steps_ok:
  "(projection_step X hs)\<^sup>*\<^sup>* st st' \<Longrightarrow> stable_handlers X hs \<Longrightarrow> projections_ok X hs (st_db st) \<Longrightarrow>
    projections_ok X hs (st_db st')"
  by (induction rule: rtranclp_induct) (auto dest: projection_step_ok)

lemma projections_ok_empty: "projections_ok X hs (st_db (open_store r))"
  by (simp add: projections_ok_def open_store_def empty_db_def unique_by_def)


section \<open>Handlers are registered before their events are applied\<close>

text \<open>
  The table of handlers lives in the process. It starts empty, and a handler is registered, or
  replaced, while no event of its type has been applied to any projection; it has to keep states
  that the parser reads back. An event that is applied while its type has no handler degrades the
  projection for good, and a rebuild after a later registration does not: such a registration is
  not a step.
\<close>

definition stable_handler :: "externals \<Rightarrow> handler \<Rightarrow> bool" where
  "stable_handler X h \<longleftrightarrow> (\<forall>e v w. stable X v \<longrightarrow> h e v = Inr w \<longrightarrow> stable X w)"

definition unapplied :: "db \<Rightarrow> utf8 \<Rightarrow> bool" where
  "unapplied d event_type \<longleftrightarrow> (\<forall>a \<in> set (projection_events d). \<forall>e \<in> set (event_envelopes d).
     en_event_id e = pa_event_id a \<longrightarrow> en_event_type e \<noteq> event_type)"

inductive projection_run :: "externals \<Rightarrow> handlers \<times> metadata_store \<Rightarrow> handlers \<times> metadata_store \<Rightarrow> bool" for X where
  call: "projection_step X hs st st' \<Longrightarrow> projection_run X (hs, st) (hs, st')"
| register: "stable_handler X h \<Longrightarrow> unapplied (st_db st) t \<Longrightarrow>
    projection_run X (hs, st) (register_projection_handler t h hs, st)"

lemma stable_handlers_each: "stable_handlers X hs \<longleftrightarrow> (\<forall>t h. hs t = Some h \<longrightarrow> stable_handler X h)"
  unfolding stable_handlers_def stable_handler_def by blast

lemma stable_register:
  "stable_handlers X hs \<Longrightarrow> stable_handler X h \<Longrightarrow> stable_handlers X (register_projection_handler t h hs)"
  by (simp add: stable_handlers_each register_projection_handler_def)

lemma replay_register:
  "\<forall>e \<in> set es. en_event_type e \<noteq> t \<Longrightarrow> replay (register_projection_handler t h hs) es s = replay hs es s"
proof (induction es arbitrary: s)
  case (Cons e es)
  then show ?case
    by (cases s; cases "hs (en_event_type e)")
      (simp_all add: replay.simps(2) register_projection_handler_def)
qed simp

lemma projected_register:
  assumes "projected X hs d x init es s" "unapplied d t"
  shows "projected X (register_projection_handler t h hs) d x init es s"
proof -
  have "en_event_type e \<noteq> t" if e: "e \<in> set es" for e
  proof -
    from assms(1) have "prefix es (project_log d (pr_project_id x))"
      and keys: "map applied_key (projection_applied_events d (pr_projection_id x)) = map event_key es"
      by (simp_all add: projected_def)
    then have "e \<in> set (project_log d (pr_project_id x))" using e by (auto simp: prefix_def)
    then have log: "e \<in> set (event_envelopes d)" by (simp add: project_log_def)
    from e have "event_key e \<in> set (map applied_key (projection_applied_events d (pr_projection_id x)))"
      unfolding keys by simp
    then obtain a where "a \<in> set (projection_events d)" "pa_event_id a = en_event_id e"
      by (auto simp: event_key_def applied_key_def projection_applied_events_def)
    with log assms(2) show ?thesis unfolding unapplied_def by metis
  qed
  then have "replay (register_projection_handler t h hs) es (init, False) = replay hs es (init, False)"
    by (intro replay_register) blast
  with assms(1) show ?thesis by (simp add: projected_def)
qed

lemma projection_run_ok:
  assumes "(projection_run X)\<^sup>*\<^sup>* (Map.empty, open_store r) (hs, st)"
  shows "stable_handlers X hs \<and> projections_ok X hs (st_db st)"
  using assms
proof (induction "(hs, st)" arbitrary: hs st rule: rtranclp_induct)
  case base
  then show ?case using projections_ok_empty[of X "Map.empty" r] by (simp add: stable_handlers_def)
next
  case (step y)
  obtain gs st0 where y: "y = (gs, st0)" by (cases y)
  from step.hyps(3)[OF y] have ok: "stable_handlers X gs" "projections_ok X gs (st_db st0)" by simp_all
  from step.hyps(2)[unfolded y] show ?case
  proof (cases rule: projection_run.cases)
    case call
    with ok projection_step_ok show ?thesis by blast
  next
    case (register h t)
    have "projections_ok X hs (st_db st0)"
      using ok(2) projected_register[OF _ register(4), of X gs _ _ _ _ h] unfolding projections_ok_def register(1) by blast
    with stable_register[OF ok(1) register(3), of t] register show ?thesis by simp
  qed
qed

lemma projection_calls_run:
  "(projection_step X hs)\<^sup>*\<^sup>* st st' \<Longrightarrow> (projection_run X)\<^sup>*\<^sup>* (hs, st) (hs, st')"
  by (induction rule: rtranclp_induct) (auto intro: rtranclp.rtrancl_into_rtrancl projection_run.call)

section \<open>Properties\<close>

text \<open>
  C27. Applying and rebuilding a projection agree: with the store opened empty, any calls between
  with whatever faults, and every handler registered before an event of its type is applied to
  any projection, an incremental application and a rebuild both answer the row that a replay of
  the complete project log from the initial state gives, or the error it gives. The parser reads
  back every initial state and whatever a handler makes of a state it reads back; the calls are
  those of the process that holds the handlers.
\<close>
theorem rebuild_equals_apply:
  assumes "(projection_run X)\<^sup>*\<^sup>* (Map.empty, open_store r) (hs, st)"
  shows "fst (apply_projection X hs (arm None None st) i u) = replayed_projection X hs (st_redactor st) (st_db st) i u
    \<and> fst (rebuild_projection X hs (arm None None st) i u) = replayed_projection X hs (st_redactor st) (st_db st) i u"
proof -
  have hs: "stable_handlers X hs" and ok: "projections_ok X hs (st_db (arm None None st))"
    using projection_run_ok[OF assms] by simp_all
  show ?thesis
    unfolding apply_projection_def rebuild_projection_def apply_internal_answer[OF ok hs arm_simps(3)] arm_simps
    by (rule conjI refl)+
qed

text \<open>
  C29. An application or a rebuild cut short by a fault at any of its failpoints, in a store
  reached as before, leaves the log as it was and either every table as it was or the row of the
  projection complete: the replay of the whole project log from the initial state, with exactly
  the events of that log in its ledger. The call made again without a fault, as an application or
  as a rebuild, answers exactly what the call would have answered undisturbed, so no event is
  folded twice and none is lost.
\<close>
theorem projection_fault_converges:
  assumes "(projection_run X)\<^sup>*\<^sup>* (Map.empty, open_store r) (hs, st)"
    and run: "st' = snd (apply_projection_internal X hs (arm fp pfp st) i u rb)"
  shows "fst (apply_projection_internal X hs (arm None None st') i u rb')
      = replayed_projection X hs (st_redactor st) (st_db st) i u
    \<and> event_envelopes (st_db st') = event_envelopes (st_db st)
    \<and> (st_db st' = st_db st \<or> (\<exists>x init s. projection_record_of (st_db st) i = Some x
          \<and> pr_initial_state_json x = write_value (json_str X) init
          \<and> replay hs (project_log (st_db st) (pr_project_id x)) (init, False) = Inr s
          \<and> projection_record_of (st_db st') i = Some (final_row X (st_db st) x s u)
          \<and> map applied_key (projection_applied_events (st_db st') i)
              = map event_key (project_log (st_db st) (pr_project_id x))))"
proof -
  have hs: "stable_handlers X hs" and ok: "projections_ok X hs (st_db (arm fp pfp st))"
    using projection_run_ok[OF assms(1)] by simp_all
  have left: "left_complete X hs i u (arm fp pfp st) st'"
    unfolding run by (rule apply_internal_leaves[OF ok hs])
  then have ok': "projections_ok X hs (st_db (arm None None st'))"
    and log: "event_envelopes (st_db st') = event_envelopes (st_db st)" by (simp_all add: left_complete_def)
  have tables: "st_db st' = st_db st \<or> (\<exists>x init s. projection_record_of (st_db st) i = Some x
      \<and> pr_initial_state_json x = write_value (json_str X) init
      \<and> replay hs (project_log (st_db st) (pr_project_id x)) (init, False) = Inr s
      \<and> projection_record_of (st_db st') i = Some (final_row X (st_db st) x s u)
      \<and> map applied_key (projection_applied_events (st_db st') i)
          = map event_key (project_log (st_db st) (pr_project_id x)))"
    using left unfolding left_complete_def arm_simps by blast
  show ?thesis
    unfolding apply_internal_answer[OF ok' hs arm_simps(3)]
    using replayed_same[OF left] log tables by simp
qed

section \<open>Concrete runs\<close>

definition toggle_externals :: externals where
  "toggle_externals = sample_externals\<lparr>json_parse := (\<lambda>s.
     if s = ''true'' then Inr (JBool True) else if s = ''false'' then Inr (JBool False)
     else if s = ''null'' then Inr JNull else Inl ''expected value'')\<rparr>"

definition toggle_handlers :: handlers where
  "toggle_handlers = register_projection_handler ''toggle''
     (\<lambda>e v. case v of JBool b \<Rightarrow> Inr (JBool (\<not> b)) | _ \<Rightarrow> Inr JNull) (\<lambda>t. None)"

definition toggle_event :: event_envelope where
  "toggle_event = \<lparr>en_event_id = ''e1'', en_project_id = ''p1'', en_stream_id = ''s1'',
     en_event_type = ''toggle'', en_sequence = 1, en_project_sequence = 1,
     en_schema_version = ''pong.event/v1'', en_occurred_at = ''t0'', en_recorded_at = ''t0'',
     en_actor_id = None, en_workspace_id = None, en_task_id = None, en_operation_id = None,
     en_causation_id = None, en_correlation_id = None, en_parent_event_ids = [],
     en_capture_confidence = None, en_redaction_status = ''clean'', en_payload_digest = ''sha256:1'',
     en_payload_json = ''{}''\<rparr>"

definition toggle_log :: metadata_store where
  "toggle_log = (open_store default_redactor)
     \<lparr>st_db := (empty_db default_redactor)\<lparr>event_envelopes := [toggle_event]\<rparr>\<rparr>"

definition toggle_definition :: projection_definition where
  "toggle_definition = \<lparr>pd_projection_id = ''pr1'', pd_project_id = ''p1'', pd_schema_version = ''v1'',
     pd_generation_id = None, pd_migration_id = None, pd_initial_state = JBool True\<rparr>"

definition toggle_store :: metadata_store where
  "toggle_store = snd (create_projection toggle_externals (arm None None toggle_log) (toggle_definition, ''t1''))"

definition toggle_row :: projection_record where
  "toggle_row = new_projection_row toggle_externals default_redactor (''legacy-v0.1'', ''legacy'')
     toggle_definition ''true'' ''t1''"

lemma toggle_reached: "(projection_step toggle_externals toggle_handlers)\<^sup>*\<^sup>* (open_store default_redactor) toggle_store"
proof -
  have "projection_step toggle_externals toggle_handlers (open_store default_redactor) toggle_log"
    by (rule projection_step.other)
      (auto simp: toggle_log_def empty_db_def open_store_def unique_by_def numbered_def dense_def toggle_event_def)
  moreover have "projection_step toggle_externals toggle_handlers toggle_log toggle_store"
    unfolding toggle_store_def
    by (rule projection_step.create) (simp add: stable_def toggle_definition_def toggle_externals_def)
  ultimately show ?thesis by (rule converse_rtranclp_into_rtranclp[OF _ r_into_rtranclp])
qed

lemma toggle_run: "(projection_run toggle_externals)\<^sup>*\<^sup>* (Map.empty, open_store default_redactor) (toggle_handlers, toggle_store)"
proof -
  let ?h = "\<lambda>(e :: event_envelope) v. case v of JBool b \<Rightarrow> Inr (JBool (\<not> b)) | _ \<Rightarrow> Inr JNull"
  have "stable toggle_externals (JBool b)" "stable toggle_externals JNull" for b
    by (cases b; simp add: stable_def toggle_externals_def)+
  then have "stable_handler toggle_externals ?h" by (auto simp: stable_handler_def split: json.splits)
  moreover have "unapplied (st_db (open_store default_redactor)) t" for t
    by (simp add: unapplied_def open_store_def empty_db_def)
  ultimately have "projection_run toggle_externals (Map.empty, open_store default_redactor)
      (toggle_handlers, open_store default_redactor)"
    unfolding toggle_handlers_def by (rule projection_run.register)
  then show ?thesis by (rule converse_rtranclp_into_rtranclp[OF _ projection_calls_run[OF toggle_reached]])
qed

lemma toggle_valid: "validate_projection_definition toggle_definition = Inr ()"
  by code_simp

lemma toggle_log_simps [simp]:
  "projections (st_db toggle_log) = []" "event_envelopes (st_db toggle_log) = [toggle_event]"
  "st_redactor toggle_log = default_redactor" "repository_meta (st_db toggle_log) = repository_meta (empty_db default_redactor)"
  by (simp_all add: toggle_log_def empty_db_def open_store_def)

lemma toggle_identity: "projection_identity (st_db toggle_log) = Inr (''legacy-v0.1'', ''legacy'')"
  by (simp add: projection_identity_def generation_identity_def meta_value_def empty_db_def)

lemma toggle_prep:
  "create_projection_prep toggle_externals r (toggle_definition, ''t1'') = Inr (toggle_definition, ''true'', ''t1'')"
  by (simp add: create_projection_prep_def toggle_valid canonical_json_value_def canonical_bytes_def)
    (simp add: toggle_definition_def)

lemma toggle_store_db: "st_db toggle_store = (st_db toggle_log)\<lparr>projections := [toggle_row]\<rparr>"
  "st_redactor toggle_store = default_redactor"
proof -
  have "create_projection_tx toggle_externals default_redactor (toggle_definition, ''true'', ''t1'') (st_db toggle_log)
      = Inr (Commit ((st_db toggle_log)\<lparr>projections := [toggle_row]\<rparr>) k)"
    if "k = (\<lambda>d'. case projection_record_of d' (pd_projection_id toggle_definition) of
        None \<Rightarrow> Inl (Integrity ''projection disappeared after creation'') | Some x \<Rightarrow> Inr x)" for k
    by (simp add: create_projection_tx_def toggle_identity that projection_record_of_def toggle_row_def
        validate_identity_assertion_def) (simp add: toggle_definition_def)
  then show "st_db toggle_store = (st_db toggle_log)\<lparr>projections := [toggle_row]\<rparr>"
    by (simp add: toggle_store_def create_projection_def run_op_def toggle_prep run_tx_unarmed arm_def)
  show "st_redactor toggle_store = default_redactor" by (simp add: toggle_store_def create_projection_def)
qed

text \<open>The replay of the log by hand: the event toggles the initial state once.\<close>

lemma toggle_replayed:
  "\<exists>x. replayed_projection toggle_externals toggle_handlers default_redactor (st_db toggle_store) ''pr1'' ''t2'' = Inr x
     \<and> pr_state_json x = ''false'' \<and> pr_event_count x = 1"
proof -
  have row: "projection_record_of (st_db toggle_store) ''pr1'' = Some toggle_row"
    by (simp add: toggle_store_db projection_record_of_def toggle_row_def new_projection_row_def toggle_definition_def)
  have log: "project_log (st_db toggle_store) (pr_project_id toggle_row) = [toggle_event]"
    by (simp add: toggle_store_db project_log_def toggle_row_def new_projection_row_def toggle_definition_def toggle_event_def)
  have id: "projection_identity (st_db toggle_store) = Inr (''legacy-v0.1'', ''legacy'')"
    using toggle_identity by (simp add: toggle_store_db projection_identity_def generation_identity_def meta_value_def)
  have init: "json_parse toggle_externals (pr_initial_state_json toggle_row) = Inr (JBool True)"
    by (simp add: toggle_row_def new_projection_row_def toggle_externals_def)
  have run: "replay toggle_handlers [toggle_event] (JBool True, False) = Inr (JBool False, False)"
    by (simp add: replay.simps toggle_handlers_def register_projection_handler_def toggle_event_def)
  have tags: "pr_generation_id toggle_row = ''legacy-v0.1''" "pr_migration_id toggle_row = ''legacy''"
    "pr_redaction_profile_id toggle_row = profile_id default_redactor"
    "pr_redaction_profile_version toggle_row = version default_redactor"
    by (simp_all add: toggle_row_def new_projection_row_def)
  show ?thesis
    by (simp add: replayed_projection_def row id tags init log run final_row_def)
qed

lemma rebuild_equals_apply_witness:
  "\<exists>x. fst (apply_projection toggle_externals toggle_handlers (arm None None toggle_store) ''pr1'' ''t2'') = Inr x
     \<and> fst (rebuild_projection toggle_externals toggle_handlers (arm None None toggle_store) ''pr1'' ''t2'') = Inr x
     \<and> pr_state_json x = ''false'' \<and> pr_event_count x = 1"
  using rebuild_equals_apply[OF toggle_run, of "''pr1''" "''t2''"] toggle_replayed
  by (auto simp: toggle_store_db(2))

lemma projection_fault_converges_witness:
  "\<exists>x. fst (apply_projection_internal toggle_externals toggle_handlers (arm None None
        (snd (apply_projection_internal toggle_externals toggle_handlers
          (arm None (Some AfterTransactionCommit) toggle_store) ''pr1'' ''t2'' False))) ''pr1'' ''t2'' False) = Inr x
     \<and> pr_state_json x = ''false'' \<and> pr_event_count x = 1"
  using projection_fault_converges[OF toggle_run refl, where i = "''pr1''" and u = "''t2''" and fp = None
      and pfp = "Some AfterTransactionCommit" and rb = False and rb' = False] toggle_replayed
  by (auto simp: toggle_store_db(2))

end
