(* ===== verification/Lifecycle_Store.thy ===== *)
theory Lifecycle_Store
  imports Operation_Store
begin

text \<open>
  The life-cycle operation of \<open>src/src/metadata.rs\<close>
  (\<open>apply_workspace_lifecycle_operation\<close>): one transaction that records an operation, moves the
  status of a workspace under its lease and its revision, and finishes the operation. The
  theorems relate it to the calls it stands for: a start, a guarded update and a finish.
\<close>

section \<open>The request\<close>

record lifecycle_input =
  li_operation :: operation_envelope
  li_lease :: lease_token
  li_expected_revision :: int
  li_expected_status :: utf8
  li_next_status :: utf8
  li_updated_at :: utf8
  li_now_ms :: int

text \<open>The request after its checks: the redacted operation, its workspace, and the rest as given.\<close>

record lifecycle_request =
  lq_start :: operation_start
  lq_workspace_id :: utf8
  lq_input :: lifecycle_input

definition lifecycle_prep ::
  "externals \<Rightarrow> redactor \<Rightarrow> lifecycle_input \<Rightarrow> lifecycle_request res" where
  "lifecycle_prep X r q =
     (let e = redact_operation_envelope r (li_operation q) in
      try_then (validate_operation_envelope e) (\<lambda>_.
      try_then (validate_labelled [(li_expected_status q, ''expected workspace status''),
        (li_next_status q, ''next workspace status'')]) (\<lambda>_.
      try_then (validate_workspace_status (li_expected_status q)) (\<lambda>_.
      try_then (validate_workspace_status (li_next_status q)) (\<lambda>_.
      try_then (validate_non_empty (li_updated_at q) ''workspace updated_at'') (\<lambda>_.
      if li_expected_revision q < 0
      then Inl (InvalidInput ''workspace revision must not be negative'')
      else (case ov_workspace_id e of
         None \<Rightarrow> Inl (InvalidInput ''lifecycle operation requires workspace'')
       | Some i \<Rightarrow>
           if i \<noteq> lt_workspace_id (li_lease q)
           then Inl (Conflict ''lease belongs to another workspace'')
           else
             try_then (operation_envelope_digest X e) (\<lambda>digest.
             try_then (canonical_json_value X (operation_envelope_value e)) (\<lambda>envelope_json.
             Inr \<lparr>lq_start = \<lparr>os_envelope = e, os_digest = digest,
                    os_envelope_json = envelope_json\<rparr>,
                  lq_workspace_id = i, lq_input = q\<rparr>)))))))))"

section \<open>The transaction\<close>

text \<open>A request that was seen before: answered from the completed operation, or refused.\<close>

definition lifecycle_replay ::
  "lifecycle_request \<Rightarrow> operation_record \<Rightarrow> db \<Rightarrow> (workspace_record \<times> operation_record) tx_end res"
where
  "lifecycle_replay c existing d =
     (let e = os_envelope (lq_start c); i = lq_workspace_id c in
      if op_envelope_digest existing = os_digest (lq_start c)
        \<and> op_operation_id existing = ov_operation_id e \<and> op_workspace_id existing = Some i
        \<and> op_lifecycle_status existing = ''completed''
      then (case op_result existing of
         None \<Rightarrow> Inl (Integrity ''completed lifecycle operation has no result'')
       | Some result \<Rightarrow>
           if Option.bind (json_get result ''workspace_id'') as_str \<noteq> Some i
           then Inl (Integrity ''completed lifecycle operation result is inconsistent'')
           else (case row_by ws_workspace_id i (workspaces d) of
              None \<Rightarrow> Inl (Integrity ''completed lifecycle operation workspace is missing'')
            | Some w \<Rightarrow> Inr (Finished (w, existing))))
      else if op_envelope_digest existing \<noteq> os_digest (lq_start c)
      then Inl (IdempotencyKeyReuse (ov_request_id e))
      else Inl (RecoveryRequired ''lifecycle operation request is not in a completed retryable state''))"

definition lifecycle_workspace_check :: "lifecycle_request \<Rightarrow> db \<Rightarrow> unit res" where
  "lifecycle_workspace_check c d =
     (let q = lq_input c in
      case row_by ws_workspace_id (lq_workspace_id c) (workspaces d) of
        None \<Rightarrow> Inl (NotFound ''workspace does not exist'')
      | Some w \<Rightarrow>
          if ws_project_id w \<noteq> ov_project_id (os_envelope (lq_start c))
            \<or> ws_status w \<noteq> li_expected_status q \<or> ws_revision w \<noteq> li_expected_revision q
          then Inl (Conflict ''workspace lifecycle revision or state is stale'')
          else try_then (validate_workspace_ready_state (li_next_status q) (ws_head w)
            (ws_environment_id w)) (\<lambda>_.
          if lease_live d (li_lease q) (li_now_ms q) then Inr ()
          else Inl (Conflict ''workspace lease is stale or expired'')))"

text \<open>The intent and the started operation. The journal row is a plain \<open>INSERT\<close>.\<close>

definition lifecycle_begin :: "externals \<Rightarrow> redactor \<Rightarrow> operation_start \<Rightarrow> db \<Rightarrow> db res" where
  "lifecycle_begin X r s d =
     (let e = os_envelope s; row = intent_row e (os_envelope_json s) in
      if row_by jo_key (jo_key row) (operation_journal d) \<noteq> None then Inl constraint_violation
      else
        let d1 = d\<lparr>operation_journal := operation_journal d @ [row]\<rparr>;
            d2 = d1\<lparr>operations := operations d1 @ [started_row r e (os_digest s)]\<rparr> in
        append_operation_event X (ov_operation_id e) (ov_project_id e) (ov_agent_id e)
          (ov_request_id e) (ov_schema_version e) (ov_started_at e)
          (next_operation_event_sequence (ov_operation_id e) d2)
          (started_payload (ov_operation_id e) (os_digest s)) d2)"

text \<open>The guarded update of the workspace, skipped when the status stays; it gives the revision
  that the workspace has afterwards.\<close>

definition lifecycle_guard :: "lifecycle_request \<Rightarrow> workspace_record \<Rightarrow> bool" where
  "lifecycle_guard c w \<longleftrightarrow> ws_workspace_id w = lq_workspace_id c
     \<and> ws_project_id w = ov_project_id (os_envelope (lq_start c))
     \<and> ws_status w = li_expected_status (lq_input c)
     \<and> ws_revision w = li_expected_revision (lq_input c)"

definition set_status :: "utf8 \<Rightarrow> utf8 \<Rightarrow> workspace_record \<Rightarrow> workspace_record" where
  "set_status status updated_at w = w\<lparr>ws_status := status, ws_revision := ws_revision w + 1,
     ws_updated_at := updated_at\<rparr>"

definition lifecycle_move :: "lifecycle_request \<Rightarrow> db \<Rightarrow> (int \<times> db) res" where
  "lifecycle_move c d =
     (let q = lq_input c in
      if li_expected_status q = li_next_status q then Inr (li_expected_revision q, d)
      else if count_rows (lifecycle_guard c) (workspaces d) \<noteq> 1
      then Inl (Conflict ''workspace lifecycle revision is stale'')
      else (case checked_add (li_expected_revision q) 1 of
         None \<Rightarrow> Inl (ResourceExhausted ''workspace revision overflow'')
       | Some n \<Rightarrow> Inr (n, d\<lparr>workspaces := update_where (lifecycle_guard c)
           (set_status (li_next_status q) (li_updated_at q)) (workspaces d)\<rparr>)))"

definition lifecycle_state :: "utf8 \<Rightarrow> int \<Rightarrow> json" where
  "lifecycle_state status n =
     JObject [(''revision'', JNumber (show_int n)), (''status'', JString status)]"

definition lifecycle_result :: "lifecycle_request \<Rightarrow> int \<Rightarrow> json" where
  "lifecycle_result c n = JObject
     [(''action'', JString (case Option.bind (Option.bind (ov_resource (os_envelope (lq_start c)))
         (\<lambda>v. json_get v ''action'')) as_str of None \<Rightarrow> ''lifecycle'' | Some a \<Rightarrow> a)),
      (''revision'', JNumber (show_int n)), (''status'', JString (li_next_status (lq_input c))),
      (''workspace_id'', JString (lq_workspace_id c))]"

definition lifecycle_outcome :: "lifecycle_request \<Rightarrow> int \<Rightarrow> operation_outcome" where
  "lifecycle_outcome c n =
     \<lparr>oo_status = ''completed'', oo_finished_at = li_updated_at (lq_input c), oo_output_refs = None,
      oo_after_state = Some (lifecycle_state (li_next_status (lq_input c)) n),
      oo_result = Some (lifecycle_result c n), oo_error = None\<rparr>"

definition complete_lifecycle_row ::
  "lifecycle_request \<Rightarrow> int \<Rightarrow> operation_record \<Rightarrow> operation_record" where
  "complete_lifecycle_row c n y =
     y\<lparr>op_after_state := Some (lifecycle_state (li_next_status (lq_input c)) n),
       op_finished_at := Some (li_updated_at (lq_input c)),
       op_result := Some (lifecycle_result c n), op_lifecycle_status := ''completed'',
       op_updated_at := li_updated_at (lq_input c)\<rparr>"

definition lifecycle_complete :: "externals \<Rightarrow> lifecycle_request \<Rightarrow> int \<Rightarrow> db \<Rightarrow> db res" where
  "lifecycle_complete X c n d =
     (let e = os_envelope (lq_start c); i = ov_operation_id e; x = lifecycle_outcome c n;
          key = (ov_project_id e, ov_agent_id e, ov_request_id e) in
      try_then (operation_value_digest X (operation_outcome_value x)) (\<lambda>digest.
      try_then (canonical_json_value X (outcome_payload i x digest)) (\<lambda>payload_json.
      let d1 = d\<lparr>operations := update_where
            (\<lambda>y. op_operation_id y = i \<and> op_lifecycle_status y = ''started'')
            (complete_lifecycle_row c n) (operations d)\<rparr> in
      if count_rows (\<lambda>y. jo_key y = key) (operation_journal d1) \<noteq> 1
      then Inl (Integrity ''lifecycle operation journal row disappeared during finish'')
      else
        let d2 = d1\<lparr>operation_journal := update_where (\<lambda>y. jo_key y = key)
              (set_outcome ''outcome_durable'' payload_json) (operation_journal d1)\<rparr> in
        append_operation_event X i (ov_project_id e) (ov_agent_id e) (ov_request_id e)
          (ov_schema_version e) (li_updated_at (lq_input c)) (next_operation_event_sequence i d2)
          (finished_payload i ''completed'' ''durable'' digest) d2)))"

definition lifecycle_read_back ::
  "redactor \<Rightarrow> lifecycle_request \<Rightarrow> db \<Rightarrow> (workspace_record \<times> operation_record) res" where
  "lifecycle_read_back r c d =
     (case workspace_by r d (lq_workspace_id c) of
        None \<Rightarrow> Inl (Integrity ''workspace disappeared after lifecycle update'')
      | Some w \<Rightarrow>
          (case operation_by r d (ov_operation_id (os_envelope (lq_start c))) of
             None \<Rightarrow> Inl (Integrity ''operation disappeared after lifecycle update'')
           | Some x \<Rightarrow> Inr (w, x)))"

definition lifecycle_tx ::
  "externals \<Rightarrow> redactor \<Rightarrow> lifecycle_request \<Rightarrow> db \<Rightarrow>
    (workspace_record \<times> operation_record) tx_end res" where
  "lifecycle_tx X r c d =
     (let s = lq_start c; e = os_envelope s in
      case row_by op_request_key (ov_project_id e, ov_agent_id e, ov_request_id e) (operations d) of
        Some existing \<Rightarrow> lifecycle_replay c existing d
      | None \<Rightarrow>
          if row_by op_operation_id (ov_operation_id e) (operations d) \<noteq> None
          then Inl (Conflict ''operation identity is already used by another request'')
          else
            try_then (validate_operation_bindings d (ov_project_id e) (ov_workspace_id e)
              (ov_environment_id e) (ov_parent_operation_id e)) (\<lambda>_.
            try_then (lifecycle_workspace_check c d) (\<lambda>_.
            try_then (lifecycle_begin X r s d) (\<lambda>d1.
            try_then (lifecycle_move c d1) (\<lambda>(n, d2).
            try_then (lifecycle_complete X c n d2) (\<lambda>d3.
            Inr (Commit d3 (lifecycle_read_back r c))))))))"

text \<open>
  The code looks at two failpoints before its commit and two after it: those of a finish, then the
  generic ones. Looking at the first of a pair also fires on the generic one, so the second look
  finds nothing that could fire.
\<close>

definition apply_workspace_lifecycle_operation ::
  "externals \<Rightarrow> metadata_store \<Rightarrow> lifecycle_input \<Rightarrow>
    (workspace_record \<times> operation_record) res \<times> metadata_store" where
  "apply_workspace_lifecycle_operation X =
     run_op BeforeOperationFinishCommit AfterOperationFinishCommit (lifecycle_prep X) (lifecycle_tx X)"

section \<open>What the transaction is made of\<close>

text \<open>The records that a commit writes are those of a start and of a finish.\<close>

definition lifecycle_finish :: "lifecycle_request \<Rightarrow> int \<Rightarrow> finish_request" where
  "lifecycle_finish c n = \<lparr>fq_operation_id = ov_operation_id (os_envelope (lq_start c)),
     fq_outcome = lifecycle_outcome c n, fq_event = None\<rparr>"

lemma lifecycle_begin_start:
  assumes "row_by op_request_key (ov_project_id (os_envelope s), ov_agent_id (os_envelope s),
        ov_request_id (os_envelope s)) (operations d) = None"
    and "row_by op_operation_id (ov_operation_id (os_envelope s)) (operations d) = None"
    and "row_by jo_key (ov_project_id (os_envelope s), ov_agent_id (os_envelope s),
        ov_request_id (os_envelope s)) (operation_journal d) = None"
    and "validate_operation_bindings d (ov_project_id (os_envelope s)) (ov_workspace_id (os_envelope s))
        (ov_environment_id (os_envelope s)) (ov_parent_operation_id (os_envelope s)) = Inr ()"
  shows "lifecycle_begin X r s d = Inr d1 \<longleftrightarrow> (\<exists>k. start_operation_tx X r s d = Inr (Commit d1 k))"
  using assms
  by (simp add: lifecycle_begin_def start_operation_tx_def journal_intent_def Let_def jo_key_def
      intent_row_def)

lemma lifecycle_outcome_valid:
  "valid_text (li_updated_at (lq_input c)) \<Longrightarrow>
    validate_operation_outcome (lifecycle_outcome c n) = Inr ()"
proof -
  have "valid_text ''completed''" by (rule valid_text_plain) code_simp+
  then show "valid_text (li_updated_at (lq_input c)) \<Longrightarrow> ?thesis"
    by (simp add: validate_operation_outcome_def lifecycle_outcome_def outcome_statuses_def)
qed

lemma complete_row_is_finish:
  "op_consistent y \<Longrightarrow> op_lifecycle_status y = ''started'' \<Longrightarrow>
    complete_lifecycle_row c n y = finish_row (lifecycle_outcome c n) y"
  by (simp add: complete_lifecycle_row_def finish_row_def lifecycle_outcome_def final_output_refs_def
      final_after_state_def op_consistent_def)

lemma update_where_same:
  "(\<And>x. x \<in> set rows \<Longrightarrow> p x \<Longrightarrow> f x = g x) \<Longrightarrow> update_where p f rows = update_where p g rows"
  by (simp add: update_where_def)

lemma lifecycle_complete_finish:
  assumes "ledger_ok r d" "os_envelope (lq_start c) = e"
  shows "lifecycle_complete X c n d = Inr d' \<longleftrightarrow> (\<exists>k. finish_operation_tx X r (lifecycle_finish c n)
    (started_row r e h) d = Inr (Commit d' k))"
proof -
  let ?p = "\<lambda>y. op_operation_id y = ov_operation_id e \<and> op_lifecycle_status y = ''started''"
  have rows: "update_where ?p (complete_lifecycle_row c n) (operations d)
      = update_where ?p (finish_row (lifecycle_outcome c n)) (operations d)"
    by (rule update_where_same) (use assms(1) in \<open>simp add: ledger_ok_def complete_row_is_finish\<close>)
  have row: "op_project_id (started_row r e h) = ov_project_id e"
    "op_agent_id (started_row r e h) = ov_agent_id e"
    "op_request_id (started_row r e h) = ov_request_id e"
    "op_schema_version (started_row r e h) = ov_schema_version e"
    "op_recording_status (started_row r e h) = ''durable''"
    by (simp_all add: started_row_def)
  have out: "oo_status (lifecycle_outcome c n) = ''completed''"
    "oo_finished_at (lifecycle_outcome c n) = li_updated_at (lq_input c)"
    by (simp_all add: lifecycle_outcome_def)
  show ?thesis
    by (cases "count_rows (\<lambda>y. jo_key y = (ov_project_id e, ov_agent_id e, ov_request_id e))
        (operation_journal d) = 1")
      (simp_all add: lifecycle_complete_def finish_operation_tx_def Let_def assms(2)
        lifecycle_finish_def rows row out journal_phase_of_def append_completion_def, blast?)
qed

lemma lifecycle_check_ok:
  "lifecycle_workspace_check c d = Inr () \<longleftrightarrow>
    (\<exists>w. row_by ws_workspace_id (lq_workspace_id c) (workspaces d) = Some w
      \<and> lifecycle_guard c w
      \<and> validate_workspace_ready_state (li_next_status (lq_input c)) (ws_head w) (ws_environment_id w) = Inr ()
      \<and> lease_live d (li_lease (lq_input c)) (li_now_ms (lq_input c)))"
  by (auto simp: lifecycle_workspace_check_def lifecycle_guard_def Let_def dest: row_by_key
      split: option.splits if_splits)

lemma lifecycle_move_result:
  "lifecycle_move c d = Inr (n, d') \<longleftrightarrow>
    (if li_expected_status (lq_input c) = li_next_status (lq_input c)
     then n = li_expected_revision (lq_input c) \<and> d' = d
     else count_rows (lifecycle_guard c) (workspaces d) = 1
       \<and> checked_add (li_expected_revision (lq_input c)) 1 = Some n
       \<and> d' = d\<lparr>workspaces := update_where (lifecycle_guard c)
           (set_status (li_next_status (lq_input c)) (li_updated_at (lq_input c))) (workspaces d)\<rparr>)"
  by (auto simp: lifecycle_move_def Let_def split: option.splits)

text \<open>The move only writes workspaces.\<close>

lemma lifecycle_move_tables:
  assumes "lifecycle_move c d = Inr (n, d')"
  shows "d' = d\<lparr>workspaces := workspaces d'\<rparr>"
  using assms by (auto simp: lifecycle_move_result split: if_splits)

lemma ledger_ok_workspaces: "ledger_ok r (d\<lparr>workspaces := ws\<rparr>) = ledger_ok r d"
  by (simp add: ledger_ok_def events_ok_def journal_ok_def)

lemma lifecycle_begin_journal:
  assumes "lifecycle_begin X r s d = Inr d1" "events_ok d"
  shows "row_by jo_key (ov_project_id (os_envelope s), ov_agent_id (os_envelope s),
      ov_request_id (os_envelope s)) (operation_journal d) = None"
    and "operation_journal d1 = operation_journal d @ [intent_row (os_envelope s) (os_envelope_json s)]"
proof -
  let ?e = "os_envelope s"
  let ?row = "intent_row ?e (os_envelope_json s)"
  have key: "jo_key ?row = (ov_project_id ?e, ov_agent_id ?e, ov_request_id ?e)"
    by (simp add: jo_key_def intent_row_def)
  let ?d2 = "d\<lparr>operation_journal := operation_journal d @ [?row],
      operations := operations d @ [started_row r ?e (os_digest s)]\<rparr>"
  have e2: "events_ok ?d2" using assms(2) by (simp add: events_ok_def)
  from assms(1) show "row_by jo_key (ov_project_id ?e, ov_agent_id ?e, ov_request_id ?e)
      (operation_journal d) = None"
    by (simp add: lifecycle_begin_def Let_def key split: if_splits)
  from assms(1) have "append_operation_event X (ov_operation_id ?e) (ov_project_id ?e)
      (ov_agent_id ?e) (ov_request_id ?e) (ov_schema_version ?e) (ov_started_at ?e)
      (next_operation_event_sequence (ov_operation_id ?e) ?d2)
      (started_payload (ov_operation_id ?e) (os_digest s)) ?d2 = Inr d1"
    by (simp add: lifecycle_begin_def Let_def split: if_splits)
  from append_operation_event_result[OF e2 this refl] log_only_tables(2)[of ?d2 d1]
  show "operation_journal d1 = operation_journal d @ [?row]" by simp
qed

text \<open>
  A life-cycle operation commits exactly when its workspace check passes and a start of its
  operation, the move of its workspace and a finish with its outcome would commit one after the
  other, and it leaves what they leave.
\<close>

lemma lifecycle_commit_iff:
  assumes ok: "ledger_ok r d"
    and fresh: "row_by op_request_key (ov_project_id (os_envelope (lq_start c)),
      ov_agent_id (os_envelope (lq_start c)), ov_request_id (os_envelope (lq_start c))) (operations d) = None"
    and free: "row_by jo_key (ov_project_id (os_envelope (lq_start c)),
      ov_agent_id (os_envelope (lq_start c)), ov_request_id (os_envelope (lq_start c))) (operation_journal d) = None"
  shows "lifecycle_tx X r c d = Inr (Commit d' k) \<longleftrightarrow> k = lifecycle_read_back r c
    \<and> lifecycle_workspace_check c d = Inr ()
    \<and> (\<exists>d1 k1 n d2 k2. start_operation_tx X r (lq_start c) d = Inr (Commit d1 k1)
        \<and> lifecycle_move c d1 = Inr (n, d2)
        \<and> finish_operation_tx X r (lifecycle_finish c n)
            (started_row r (os_envelope (lq_start c)) (os_digest (lq_start c))) d2 = Inr (Commit d' k2))"
    (is "?tx \<longleftrightarrow> ?k \<and> ?check \<and> ?parts")
proof -
  let ?s = "lq_start c"
  let ?e = "os_envelope ?s"
  let ?bind = "validate_operation_bindings d (ov_project_id ?e) (ov_workspace_id ?e)
      (ov_environment_id ?e) (ov_parent_operation_id ?e) = Inr ()"
  let ?id = "row_by op_operation_id (ov_operation_id ?e) (operations d) = None"
  have started: "?id \<and> ?bind" if "start_operation_tx X r ?s d = Inr (Commit d1 k1)" for d1 k1
    using that fresh by (auto simp: start_operation_tx_def Let_def split: if_splits)
  have finish: "lifecycle_complete X c n d2 = Inr d3 \<longleftrightarrow> (\<exists>k2. finish_operation_tx X r
      (lifecycle_finish c n) (started_row r ?e (os_digest ?s)) d2 = Inr (Commit d3 k2))"
    if "start_operation_tx X r ?s d = Inr (Commit d1 k1)" "lifecycle_move c d1 = Inr (n, d2)" for d1 k1 n d2 d3
  proof (rule lifecycle_complete_finish[OF _ refl])
    have "ledger_ok r d1" using start_operation_commit[OF ok that(1)] by (elim conjE)
    then show "ledger_ok r d2"
      using lifecycle_move_tables[OF that(2)] ledger_ok_workspaces[where d = d1 and ws = "workspaces d2" and r = r] by metis
  qed
  show ?thesis
  proof
    assume ?tx
    then have idb: ?id ?bind and k: ?k and ch: ?check
      and "\<exists>d1 n d2. lifecycle_begin X r ?s d = Inr d1 \<and> lifecycle_move c d1 = Inr (n, d2)
          \<and> lifecycle_complete X c n d2 = Inr d'"
      using fresh by (auto simp: lifecycle_tx_def Let_def split: if_splits)
    then obtain d1 n d2 where p: "lifecycle_begin X r ?s d = Inr d1" "lifecycle_move c d1 = Inr (n, d2)"
      "lifecycle_complete X c n d2 = Inr d'" by (elim exE conjE)
    from p(1) obtain k1 where st: "start_operation_tx X r ?s d = Inr (Commit d1 k1)"
      unfolding lifecycle_begin_start[OF fresh idb(1) free idb(2)] by (rule exE)
    from p(3) finish[OF st p(2)] obtain k2 where "finish_operation_tx X r (lifecycle_finish c n)
        (started_row r ?e (os_digest ?s)) d2 = Inr (Commit d' k2)" by blast
    with k ch st p(2) show "?k \<and> ?check \<and> ?parts" by blast
  next
    assume a: "?k \<and> ?check \<and> ?parts"
    then obtain d1 k1 n d2 k2 where st: "start_operation_tx X r ?s d = Inr (Commit d1 k1)"
      and mv: "lifecycle_move c d1 = Inr (n, d2)"
      and fi: "finish_operation_tx X r (lifecycle_finish c n) (started_row r ?e (os_digest ?s)) d2
        = Inr (Commit d' k2)" by (elim conjE exE)
    note idb = started[OF st]
    have "lifecycle_begin X r ?s d = Inr d1"
      using lifecycle_begin_start[OF fresh _ free] idb st by blast
    moreover have "lifecycle_complete X c n d2 = Inr d'" using finish[OF st mv] fi by blast
    ultimately show ?tx using fresh idb mv a by (simp add: lifecycle_tx_def Let_def)
  qed
qed

section \<open>What a commit writes\<close>

definition moved_workspace :: "lifecycle_request \<Rightarrow> workspace_record \<Rightarrow> workspace_record" where
  "moved_workspace c w = (if li_expected_status (lq_input c) = li_next_status (lq_input c) then w
     else set_status (li_next_status (lq_input c)) (li_updated_at (lq_input c)) w)"

definition completed_operation :: "redactor \<Rightarrow> lifecycle_request \<Rightarrow> int \<Rightarrow> operation_record" where
  "completed_operation r c n = finish_row (lifecycle_outcome c n)
     (started_row r (os_envelope (lq_start c)) (os_digest (lq_start c)))"

lemma set_status_simps [simp]:
  "ws_workspace_id (set_status s u w) = ws_workspace_id w"
  "ws_project_id (set_status s u w) = ws_project_id w"
  "ws_status (set_status s u w) = s" "ws_revision (set_status s u w) = ws_revision w + 1"
  "ws_head (set_status s u w) = ws_head w" "ws_environment_id (set_status s u w) = ws_environment_id w"
  "ws_version_head_id (set_status s u w) = ws_version_head_id w"
  by (simp_all add: set_status_def)

lemma moved_workspace_simps [simp]:
  "ws_workspace_id (moved_workspace c w) = ws_workspace_id w"
  "ws_project_id (moved_workspace c w) = ws_project_id w"
  "ws_head (moved_workspace c w) = ws_head w"
  "ws_environment_id (moved_workspace c w) = ws_environment_id w"
  "ws_version_head_id (moved_workspace c w) = ws_version_head_id w"
  by (simp_all add: moved_workspace_def)

lemma moved_status: "lifecycle_guard c w \<Longrightarrow> ws_status (moved_workspace c w) = li_next_status (lq_input c)"
  by (auto simp: moved_workspace_def lifecycle_guard_def)

text \<open>With unique ids the guard finds the row of the workspace and no other.\<close>

lemma guarded_rows:
  assumes "row_by ws_workspace_id (lq_workspace_id c) ws = Some w" "unique_by ws_workspace_id ws"
    and "lifecycle_guard c w"
  shows "update_where (lifecycle_guard c) f ws = update_where (\<lambda>x. ws_workspace_id x = lq_workspace_id c) f ws"
proof -
  have "lifecycle_guard c x \<longleftrightarrow> ws_workspace_id x = lq_workspace_id c" if "x \<in> set ws" for x
    using row_by_only[OF assms(1,2) that] assms(3) by (auto simp: lifecycle_guard_def)
  then show ?thesis by (simp add: update_where_def)
qed

lemma lifecycle_move_workspaces:
  assumes "lifecycle_move c d = Inr (n, d')" "unique_by ws_workspace_id (workspaces d)"
    and "row_by ws_workspace_id (lq_workspace_id c) (workspaces d) = Some w" "lifecycle_guard c w"
  shows "n = ws_revision (moved_workspace c w) \<and> d' = d\<lparr>workspaces :=
    update_where (\<lambda>x. ws_workspace_id x = lq_workspace_id c) (moved_workspace c) (workspaces d)\<rparr>"
proof (cases "li_expected_status (lq_input c) = li_next_status (lq_input c)")
  case True
  then have "update_where p (moved_workspace c) ws = ws" for p and ws :: "workspace_record list"
    by (induction ws) (simp_all add: update_where_def moved_workspace_def)
  with True assms show ?thesis
    by (simp add: lifecycle_move_result moved_workspace_def lifecycle_guard_def)
next
  case False
  have n: "checked_add (li_expected_revision (lq_input c)) 1 = Some n"
    and d': "d' = d\<lparr>workspaces := update_where (lifecycle_guard c)
      (set_status (li_next_status (lq_input c)) (li_updated_at (lq_input c))) (workspaces d)\<rparr>"
    using assms(1) False by (simp_all add: lifecycle_move_result)
  have "moved_workspace c = set_status (li_next_status (lq_input c)) (li_updated_at (lq_input c))"
    using False by (intro ext) (simp add: moved_workspace_def)
  moreover have "n = ws_revision w + 1"
    using n assms(4) by (simp add: checked_add_def lifecycle_guard_def split: if_splits)
  ultimately show ?thesis using d' guarded_rows[OF assms(3,2,4)] by simp
qed

lemma replay_never_commits: "lifecycle_replay c x d \<noteq> Inr (Commit d' k)"
  by (auto simp: lifecycle_replay_def Let_def split: option.splits if_splits)

lemma lifecycle_commit:
  assumes ok: "ledger_ok r d" and tx: "lifecycle_tx X r c d = Inr (Commit d' k)"
  obtains d1 k1 n d2 k2 where
    "row_by op_request_key (ov_project_id (os_envelope (lq_start c)),
      ov_agent_id (os_envelope (lq_start c)), ov_request_id (os_envelope (lq_start c))) (operations d) = None"
    "lifecycle_workspace_check c d = Inr ()" "k = lifecycle_read_back r c"
    "operation_journal d1 = operation_journal d
      @ [intent_row (os_envelope (lq_start c)) (os_envelope_json (lq_start c))]"
    "start_operation_tx X r (lq_start c) d = Inr (Commit d1 k1)" "lifecycle_move c d1 = Inr (n, d2)"
    "finish_operation_tx X r (lifecycle_finish c n)
      (started_row r (os_envelope (lq_start c)) (os_digest (lq_start c))) d2 = Inr (Commit d' k2)"
proof -
  let ?s = "lq_start c"
  let ?e = "os_envelope ?s"
  let ?key = "(ov_project_id ?e, ov_agent_id ?e, ov_request_id ?e)"
  have fresh: "row_by op_request_key ?key (operations d) = None"
    using tx replay_never_commits[of c _ d d' k]
    by (cases "row_by op_request_key ?key (operations d)") (simp_all add: lifecycle_tx_def Let_def)
  have ev: "events_ok d" using ok by (simp add: ledger_ok_def)
  from tx fresh obtain d1 where b: "lifecycle_begin X r ?s d = Inr d1"
    by (auto simp: lifecycle_tx_def Let_def split: if_splits)
  note jr = lifecycle_begin_journal[OF b ev]
  from tx[unfolded lifecycle_commit_iff[OF ok fresh jr(1)]]
  obtain d1' k1 n d2 k2 where p: "start_operation_tx X r ?s d = Inr (Commit d1' k1)"
    "lifecycle_move c d1' = Inr (n, d2)" "finish_operation_tx X r (lifecycle_finish c n)
      (started_row r ?e (os_digest ?s)) d2 = Inr (Commit d' k2)" by (elim conjE exE)
  have idb: "row_by op_operation_id (ov_operation_id ?e) (operations d) = None"
    "validate_operation_bindings d (ov_project_id ?e) (ov_workspace_id ?e)
        (ov_environment_id ?e) (ov_parent_operation_id ?e) = Inr ()"
    using p(1) fresh by (auto simp: start_operation_tx_def Let_def split: if_splits)
  have "lifecycle_begin X r ?s d = Inr d1'"
    unfolding lifecycle_begin_start[OF fresh idb(1) jr(1) idb(2)] by (rule exI[of _ k1]) (rule p(1))
  with b have "d1' = d1" by simp
  with that[OF fresh _ _ _ p] tx[unfolded lifecycle_commit_iff[OF ok fresh jr(1)]] jr(2)
  show ?thesis by (elim conjE) simp
qed

lemma lifecycle_prep_facts:
  assumes "lifecycle_prep X r q = Inr c"
  shows "lq_input c = q" "start_operation_prep X r (li_operation q) = Inr (lq_start c)"
    and "os_envelope (lq_start c) = redact_operation_envelope r (li_operation q)"
    and "ov_workspace_id (os_envelope (lq_start c)) = Some (lq_workspace_id c)"
    and "lq_workspace_id c = lt_workspace_id (li_lease q)" "valid_text (li_updated_at q)"
    and "li_expected_status q \<in> set workspace_statuses" "li_next_status q \<in> set workspace_statuses"
    and "0 \<le> li_expected_revision q"
  using assms
  by (auto simp: lifecycle_prep_def start_operation_prep_def validate_workspace_status_def Let_def
      split: if_splits option.splits)

lemma lifecycle_ids:
  assumes "lifecycle_prep X r q = Inr c" "safe_policy r"
  shows "redact_text r (lq_workspace_id c) = lq_workspace_id c"
    and "redact_text r (ov_operation_id (os_envelope (lq_start c))) = ov_operation_id (os_envelope (lq_start c))"
proof -
  show "redact_text r (ov_operation_id (os_envelope (lq_start c))) = ov_operation_id (os_envelope (lq_start c))"
    by (rule start_prep_id[OF lifecycle_prep_facts(2)[OF assms(1)] assms(2)])
  have "redact_opt r (ov_workspace_id (li_operation q)) = Some (lq_workspace_id c)"
    using lifecycle_prep_facts(3,4)[OF assms(1)] by (simp add: redact_operation_envelope_def)
  then obtain i where "lq_workspace_id c = redact_text r i"
    unfolding redact_opt_def map_option_eq_Some by (metis (no_types))
  then show "redact_text r (lq_workspace_id c) = lq_workspace_id c"
    using assms(2) by (simp add: redact_idem)
qed

lemma lifecycle_written:
  assumes ok: "ledger_ok r d" and ws: "unique_by ws_workspace_id (workspaces d)"
    and prep: "lifecycle_prep X r q = Inr c" and tx: "lifecycle_tx X r c d = Inr (Commit d' k)"
  obtains w n js where
    "row_by ws_workspace_id (lq_workspace_id c) (workspaces d) = Some w" "lifecycle_guard c w"
    "validate_workspace_ready_state (li_next_status q) (ws_head w) (ws_environment_id w) = Inr ()"
    "lease_live d (li_lease q) (li_now_ms q)" "n = ws_revision (moved_workspace c w)"
    "workspaces d' = update_where (\<lambda>x. ws_workspace_id x = lq_workspace_id c) (moved_workspace c) (workspaces d)"
    "row_by op_request_key (ov_project_id (os_envelope (lq_start c)),
      ov_agent_id (os_envelope (lq_start c)), ov_request_id (os_envelope (lq_start c))) (operations d) = None"
    "row_by op_operation_id (ov_operation_id (os_envelope (lq_start c))) (operations d) = None"
    "operations d' = operations d @ [completed_operation r c n]"
    "operation_journal d' = update_where (\<lambda>y. jo_key y = (ov_project_id (os_envelope (lq_start c)),
      ov_agent_id (os_envelope (lq_start c)), ov_request_id (os_envelope (lq_start c))))
      (set_outcome ''outcome_durable'' js) (operation_journal d
        @ [intent_row (os_envelope (lq_start c)) (os_envelope_json (lq_start c))])"
    "ledger_ok r d'" "ledger_frame (d\<lparr>workspaces := workspaces d'\<rparr>) d'" "k = lifecycle_read_back r c"
proof -
  let ?s = "lq_start c"
  let ?e = "os_envelope ?s"
  note input = lifecycle_prep_facts(1)[OF prep]
  from ok tx obtain d1 k1 n d2 k2 where
    fresh: "row_by op_request_key (ov_project_id ?e, ov_agent_id ?e, ov_request_id ?e) (operations d) = None"
    and ch: "lifecycle_workspace_check c d = Inr ()" and k: "k = lifecycle_read_back r c"
    and jr: "operation_journal d1 = operation_journal d @ [intent_row ?e (os_envelope_json ?s)]"
    and st: "start_operation_tx X r ?s d = Inr (Commit d1 k1)" and mv: "lifecycle_move c d1 = Inr (n, d2)"
    and fi: "finish_operation_tx X r (lifecycle_finish c n) (started_row r ?e (os_digest ?s)) d2
      = Inr (Commit d' k2)" by (rule lifecycle_commit)
  from ch[unfolded lifecycle_check_ok] obtain w where
    w: "row_by ws_workspace_id (lq_workspace_id c) (workspaces d) = Some w" "lifecycle_guard c w"
    "validate_workspace_ready_state (li_next_status q) (ws_head w) (ws_environment_id w) = Inr ()"
    "lease_live d (li_lease q) (li_now_ms q)" unfolding input by (elim exE conjE)
  note s = start_operation_commit[OF ok st]
  have f1: "ledger_frame d d1" using s by (elim conjE)
  have ok1: "ledger_ok r d1" using s by (elim conjE)
  have ws1: "workspaces d1 = workspaces d" using f1 by (simp add: ledger_frame_def)
  note m = lifecycle_move_workspaces[OF mv, unfolded ws1, OF ws w(1,2)]
  then have d2: "d2 = d1\<lparr>workspaces := update_where (\<lambda>x. ws_workspace_id x = lq_workspace_id c)
      (moved_workspace c) (workspaces d)\<rparr>" by (rule conjunct2)
  have ok2: "ledger_ok r d2" using ok1 by (simp only: d2 ledger_ok_workspaces)
  have valid: "validate_operation_outcome (fq_outcome (lifecycle_finish c n)) = Inr ()"
    using lifecycle_outcome_valid[of c n] lifecycle_prep_facts(6)[OF prep]
    by (simp add: lifecycle_finish_def input)
  note f = finish_operation_commit[OF ok2 valid fi]
  then have ok': "ledger_ok r d'" and f2: "ledger_frame d2 d'"
    and ops: "operations d' = update_where (\<lambda>y. op_operation_id y = ov_operation_id ?e
          \<and> op_lifecycle_status y = ''started'') (finish_row (lifecycle_outcome c n)) (operations d2)"
    by (simp_all add: lifecycle_finish_def)
  from f obtain js where j: "operation_journal d' = update_where (\<lambda>y. jo_key y = op_request_key
      (started_row r ?e (os_digest ?s))) (set_outcome (journal_phase_of (oo_status
        (fq_outcome (lifecycle_finish c n)))) js) (operation_journal d2)" by (elim conjE exE)
  have op1: "operations d2 = operations d @ [started_row r ?e (os_digest ?s)]"
    using s by (simp add: d2)
  have id: "row_by op_operation_id (ov_operation_id ?e) (operations d) = None" using s by (elim conjE)
  then have none: "update_where (\<lambda>y. op_operation_id y = ov_operation_id ?e
      \<and> op_lifecycle_status y = ''started'') g (operations d) = operations d" for g
    by (intro update_where_none) (metis row_by_None imageI)
  have "operations d' = operations d @ [completed_operation r c n]"
    unfolding ops op1 using none by (simp add: update_where_def completed_operation_def)
  moreover have "workspaces d' = workspaces d2" using f2 by (simp add: ledger_frame_def)
  moreover have "ledger_frame (d\<lparr>workspaces := workspaces d'\<rparr>) d'"
    using f1 f2 by (auto simp: ledger_frame_def d2)
  moreover have "operation_journal d2 = operation_journal d1" by (simp add: d2)
  ultimately show ?thesis
    using that[OF w _ _ fresh id _ _ ok' _ k, of n js] m j
    by (simp add: jr d2 lifecycle_finish_def lifecycle_outcome_def journal_phase_of_def)
qed

section \<open>The operation keeps the invariants and may be repeated\<close>

definition lifecycle_inv :: "redactor \<Rightarrow> db \<Rightarrow> bool" where
  "lifecycle_inv r d \<longleftrightarrow> ledger_ok r d \<and> workspaces_ok r d"

lemma moved_ready:
  assumes "validate_workspace_ready_state (li_next_status (lq_input c)) (ws_head w) (ws_environment_id w) = Inr ()"
    and "workspace_ready_ok w"
  shows "workspace_ready_ok (moved_workspace c w)"
  using assms by (auto simp: workspace_ready_ok_def moved_workspace_def validate_workspace_ready_state_def
      split: if_splits)

lemma lifecycle_keeps:
  assumes inv: "lifecycle_inv r d" and prep: "lifecycle_prep X r q = Inr c"
    and tx: "lifecycle_tx X r c d = Inr (Commit d' k)"
  shows "lifecycle_inv r d'"
proof -
  let ?i = "lq_workspace_id c"
  have ok: "ledger_ok r d" and wok: "workspaces_ok r d" using inv by (simp_all add: lifecycle_inv_def)
  have uq: "unique_by ws_workspace_id (workspaces d)" using wok by (simp add: workspaces_ok_def)
  from ok uq prep tx obtain w n js where
    w: "row_by ws_workspace_id ?i (workspaces d) = Some w"
    and ready: "validate_workspace_ready_state (li_next_status q) (ws_head w) (ws_environment_id w) = Inr ()"
    and rows: "workspaces d' = update_where (\<lambda>x. ws_workspace_id x = ?i) (moved_workspace c) (workspaces d)"
    and ok': "ledger_ok r d'" and fr: "ledger_frame (d\<lparr>workspaces := workspaces d'\<rparr>) d'"
    by (rule lifecycle_written)
  have env: "environments d' = environments d" and ls: "workspace_leases d' = workspace_leases d"
    using fr by (simp_all add: ledger_frame_def)
  have "\<forall>x \<in> set (workspaces d'). workspace_ready_ok x \<and> workspace_env_ok (environments d) x"
    unfolding rows
  proof (rule update_where_all)
    show "\<forall>x \<in> set (workspaces d). workspace_ready_ok x \<and> workspace_env_ok (environments d) x"
      using wok by (simp add: workspaces_ok_def)
    show "workspace_ready_ok (moved_workspace c x) \<and> workspace_env_ok (environments d) (moved_workspace c x)"
      if x: "x \<in> set (workspaces d)" "ws_workspace_id x = ?i"
        "workspace_ready_ok x \<and> workspace_env_ok (environments d) x" for x
      using moved_ready[of c w] ready row_by_only[OF w uq x(1,2)] x(3) lifecycle_prep_facts(1)[OF prep]
      by (simp add: workspace_env_ok_def)
  qed
  moreover have "unique_by ws_workspace_id (workspaces d')" using uq by (simp add: rows unique_by_update)
  moreover have "leases_ok d'"
    by (rule leases_ok_more[of d]) (use wok ls in \<open>simp_all add: workspaces_ok_def rows row_by_update
      split: option.split\<close>)
  ultimately show ?thesis using wok ok' env by (simp add: workspaces_ok_def lifecycle_inv_def)
qed

lemma completed_operation_simps [simp]:
  "op_operation_id (completed_operation r c n) = ov_operation_id (os_envelope (lq_start c))"
  "op_request_key (completed_operation r c n) = (ov_project_id (os_envelope (lq_start c)),
      ov_agent_id (os_envelope (lq_start c)), ov_request_id (os_envelope (lq_start c)))"
  "op_lifecycle_status (completed_operation r c n) = ''completed''"
  "op_envelope_digest (completed_operation r c n) = os_digest (lq_start c)"
  "op_workspace_id (completed_operation r c n) = ov_workspace_id (os_envelope (lq_start c))"
  "op_action (completed_operation r c n) = ov_action (os_envelope (lq_start c))"
  "op_resource (completed_operation r c n) = ov_resource (os_envelope (lq_start c))"
  "op_result (completed_operation r c n) = Some (lifecycle_result c n)"
  "op_after_state (completed_operation r c n) = Some (lifecycle_state (li_next_status (lq_input c)) n)"
  by (simp_all add: completed_operation_def finish_row_def started_row_def lifecycle_outcome_def
      op_request_key_def final_after_state_def)

lemma lifecycle_result_members:
  "Option.bind (json_get (lifecycle_result c n) ''workspace_id'') as_str = Some (lq_workspace_id c)"
  "Option.bind (json_get (lifecycle_result c n) ''status'') as_str = Some (li_next_status (lq_input c))"
  "json_get (lifecycle_result c n) ''revision'' = Some (JNumber (show_int n))"
  by (simp_all add: lifecycle_result_def json_get_def as_str_def)

text \<open>What a commit reads back, and what the same request finds afterwards.\<close>

lemma lifecycle_again:
  assumes inv: "lifecycle_inv r d" and prep: "lifecycle_prep X r q = Inr c"
    and tx: "lifecycle_tx X r c d = Inr (Commit d' k)"
    and w: "row_by ws_workspace_id (lq_workspace_id c) (workspaces d) = Some w"
  shows "k d' = Inr (moved_workspace c w, completed_operation r c (ws_revision (moved_workspace c w)))
    \<and> lifecycle_tx X r c d'
      = Inr (Finished (moved_workspace c w, completed_operation r c (ws_revision (moved_workspace c w))))"
proof -
  let ?i = "lq_workspace_id c" and ?x = "completed_operation r c (ws_revision (moved_workspace c w))"
  have ok: "ledger_ok r d" and wok: "workspaces_ok r d" using inv by (simp_all add: lifecycle_inv_def)
  have uq: "unique_by ws_workspace_id (workspaces d)" using wok by (simp add: workspaces_ok_def)
  from ok uq prep tx obtain w' n js where
    w': "row_by ws_workspace_id ?i (workspaces d) = Some w'" and n: "n = ws_revision (moved_workspace c w')"
    and rows: "workspaces d' = update_where (\<lambda>x. ws_workspace_id x = ?i) (moved_workspace c) (workspaces d)"
    and id: "row_by op_operation_id (ov_operation_id (os_envelope (lq_start c))) (operations d) = None"
    and key: "row_by op_request_key (ov_project_id (os_envelope (lq_start c)),
      ov_agent_id (os_envelope (lq_start c)), ov_request_id (os_envelope (lq_start c))) (operations d) = None"
    and ops: "operations d' = operations d @ [completed_operation r c n]" and k: "k = lifecycle_read_back r c"
    by (rule lifecycle_written)
  have ops': "operations d' = operations d @ [?x]" using ops n w w' by simp
  have row: "row_by ws_workspace_id ?i (workspaces d') = Some (moved_workspace c w)"
    using w row_by_key[OF w] by (simp add: rows row_by_update)
  have safe: "safe_policy r" using ok by (simp add: ledger_ok_def)
  have "k d' = Inr (moved_workspace c w, ?x)"
    using row id by (simp add: k lifecycle_read_back_def workspace_by_def operation_by_def
        lifecycle_ids[OF prep safe] ops' row_by_append)
  moreover have "lifecycle_tx X r c d' = Inr (Finished (moved_workspace c w, ?x))"
    using key row lifecycle_prep_facts(4)[OF prep]
    by (simp add: lifecycle_tx_def Let_def ops' row_by_append lifecycle_replay_def lifecycle_result_members)
  ultimately show ?thesis ..
qed

interpretation lifecycle_operation: idempotent_op BeforeOperationFinishCommit AfterOperationFinishCommit
  "lifecycle_prep X" "lifecycle_tx X" lifecycle_inv for X
proof unfold_locales
  fix r d q c d' and k :: "db \<Rightarrow> (workspace_record \<times> operation_record) res"
  assume inv: "lifecycle_inv r d" and prep: "lifecycle_prep X r q = Inr c"
    and tx: "lifecycle_tx X r c d = Inr (Commit d' k)"
  show "lifecycle_inv r d'" by (rule lifecycle_keeps[OF inv prep tx])
  have uq: "unique_by ws_workspace_id (workspaces d)" and ok: "ledger_ok r d"
    using inv by (simp_all add: workspaces_ok_def lifecycle_inv_def)
  from ok uq prep tx obtain w where w: "row_by ws_workspace_id (lq_workspace_id c) (workspaces d) = Some w"
    by (rule lifecycle_written)
  from lifecycle_again[OF inv prep tx w]
  show "\<exists>x. k d' = Inr x \<and> settled (lifecycle_tx X r c d') d' x"
    by (elim conjE) (rule exI, rule conjI, assumption, rule settled_finished)
qed

section \<open>A lifecycle operation goes through\<close>

text \<open>An event of an operation whose id is not taken is always accepted.\<close>

lemma show_nat_no_nul: "byte 0 \<notin> set (show_nat n)"
proof (induction n rule: show_nat.induct)
  case (1 n)
  have "byte 0 \<noteq> byte (48 + k)" if "k < 10" for k
    using that by (simp add: byte_def char_of_eq_iff)
  with 1 show ?case by (subst show_nat.simps) auto
qed

lemma zero_byte: "byte 0 = CHR 0x00"
  by code_simp

lemma operation_event_valid:
  assumes "valid_text i" "valid_text p" "valid_text v" "valid_text t"
    and "json_get payload ''type'' = None" "0 \<le> n"
  shows "validate_event_envelope (operation_envelope_event i p a q v t n payload) = Inr ()"
proof -
  have o: "valid_text (''operation:'' @ s)" if "byte 0 \<notin> set s" for s
    using that by (simp, intro valid_text_plain) (code_simp, simp add: zero_byte)
  have nul: "byte 0 \<notin> set i" "byte 0 \<notin> set (show_int n)"
    using assms(1,6) show_nat_no_nul by (simp_all add: valid_text_def contains_nul_def show_int_def)
  have "valid_text ''operation.lifecycle''" "valid_text ''redacted''"
    by (rule valid_text_plain; code_simp)+
  moreover have "valid_text (operation_stream i)" "valid_text (operation_stream i @ '':'' @ show_int n)"
    using o[of i] o[of "i @ '':'' @ show_int n"] nul by (simp_all add: operation_stream_def zero_byte)
  ultimately show ?thesis
    using assms by (simp add: validate_event_envelope_def operation_envelope_event_def payload_type_def)
qed

lemma operation_event_appended:
  assumes "events_ok d" "n = next_operation_event_sequence i d"
    and "validate_event_envelope (operation_envelope_event i p a q v t n payload) = Inr ()"
    and "row_by ev_event_id (operation_stream i @ '':'' @ show_int n) (events d) = None"
  obtains d' x where "append_operation_event X i p a q v t n payload d = Inr d'"
    "events d' = events d @ [x]" "ev_event_id x = operation_stream i @ '':'' @ show_int n"
    "ev_stream_id x = operation_stream i" "ev_sequence x = n"
proof -
  let ?e = "operation_envelope_event i p a q v t n payload"
  let ?js = "write_value (json_str X) payload"
  let ?row = "envelope_event ?e n (digest_text X ?js) ?js"
  have json: "canonical_json_value X w = Inr (write_value (json_str X) w)" for w
    by (simp add: canonical_json_value_def canonical_bytes_def)
  have row: "ev_event_id ?row = nv_event_id ?e" "\<not> legacy_conflicts ?row ?e (digest_text X ?js)"
    "nv_event_id ?e = operation_stream i @ '':'' @ show_int n" "ev_stream_id ?row = operation_stream i"
    "ev_sequence ?row = n" "nv_payload ?e = payload"
    by (simp_all add: envelope_event_def legacy_conflicts_def operation_envelope_event_def)
  let ?d1 = "d\<lparr>events := events d @ [?row]\<rparr>"
  have ins: "insert_event ?row d = Inr ?d1"
    by (rule insert_event_total[OF assms(1)])
      (use assms(2,4) row in \<open>simp_all add: next_operation_event_sequence_def\<close>)
  have ok1: "events_ok ?d1"
    by (rule insert_event_ok[OF assms(1) ins])
      (use assms(2) row in \<open>simp add: next_operation_event_sequence_def\<close>)
  have none: "row_by en_event_id (nv_event_id ?e) (event_envelopes ?d1) = None"
  proof -
    have "en_event_id en \<noteq> nv_event_id ?e" if "en \<in> set (event_envelopes d)" for en
      using that assms(1,4) row by (auto simp: events_ok_def envelope_backed_def)
    then show ?thesis by (simp add: row_by_None) (metis imageE)
  qed
  have ens: "ensure_event ?e (digest_text X ?js) ?js ?d1 = Inr (n, ?d1)"
    using assms(4) row by (simp add: ensure_event_def row_by_append)
  let ?en = "envelope_row ?e n (next_project_sequence (nv_project_id ?e) ?d1) (digest_text X ?js) ?js"
  have "insert_envelope ?en ?d1 = Inr (?d1\<lparr>event_envelopes := event_envelopes ?d1 @ [?en]\<rparr>)"
    by (rule insert_envelope_total[OF ok1]) (use none in \<open>simp_all add: envelope_row_def\<close>)
  then have "append_event_envelope_tx X ?e ?d1
      = Inr (?en, ?d1\<lparr>event_envelopes := event_envelopes ?d1 @ [?en]\<rparr>)"
    using none by (simp add: append_event_envelope_tx_def assms(3) json Let_def ens row)
  then have "append_operation_event X i p a q v t n payload d
      = Inr (?d1\<lparr>event_envelopes := event_envelopes ?d1 @ [?en]\<rparr>)"
    by (simp add: append_operation_event_def Let_def json ins)
  then show ?thesis by (rule that[where x = ?row]) (simp_all add: row)
qed

text \<open>No event belongs to the operation yet, in its stream or by its id.\<close>

definition unseen :: "utf8 \<Rightarrow> db \<Rightarrow> bool" where
  "unseen i d \<longleftrightarrow> list_all (\<lambda>x. ev_stream_id x \<noteq> operation_stream i
     \<and> \<not> prefix (operation_stream i @ '':'') (ev_event_id x)) (events d)"

lemma unseen_first:
  assumes "unseen i d"
  shows "next_operation_event_sequence i d = 1"
    and "row_by ev_event_id (operation_stream i @ '':'' @ s) (events d) = None"
proof -
  have "filter (\<lambda>x. ev_stream_id x = operation_stream i) (events d) = []"
    using assms by (auto simp: unseen_def list_all_iff filter_empty_conv)
  then show "next_operation_event_sequence i d = 1"
    by (simp add: next_operation_event_sequence_def next_sequence_def next_number_def)
  show "row_by ev_event_id (operation_stream i @ '':'' @ s) (events d) = None"
    unfolding row_by_None
  proof
    assume "operation_stream i @ '':'' @ s \<in> ev_event_id ` set (events d)"
    then obtain x where "x \<in> set (events d)" "ev_event_id x = (operation_stream i @ '':'') @ s" by auto
    with assms show False unfolding unseen_def list_all_iff by (metis prefixI)
  qed
qed

lemma unseen_second:
  assumes "unseen i d" "events d' = events d @ [x]" "ev_stream_id x = operation_stream i"
    and "ev_event_id x = operation_stream i @ '':'' @ show_int 1" "ev_sequence x = 1"
  shows "next_operation_event_sequence i d' = 2"
    and "row_by ev_event_id (operation_stream i @ '':'' @ show_int 2) (events d') = None"
proof -
  have "filter (\<lambda>x. ev_stream_id x = operation_stream i) (events d) = []"
    using assms by (auto simp: unseen_def list_all_iff filter_empty_conv)
  then show "next_operation_event_sequence i d' = 2"
    using assms by (simp add: next_operation_event_sequence_def next_sequence_def next_number_def)
  have "show_int 1 \<noteq> show_int 2" by code_simp
  then show "row_by ev_event_id (operation_stream i @ '':'' @ show_int 2) (events d') = None"
    using unseen_first(2)[OF assms(1)] assms by (simp add: row_by_append)
qed

lemma start_prep_texts:
  assumes "start_operation_prep X r e0 = Inr s"
  shows "valid_text (ov_operation_id (os_envelope s))" "valid_text (ov_project_id (os_envelope s))"
    "valid_text (ov_schema_version (os_envelope s))" "valid_text (ov_started_at (os_envelope s))"
  using assms by (auto simp: start_operation_prep_def validate_operation_envelope_def Let_def)

lemma lifecycle_begin_succeeds:
  assumes ok: "ledger_ok r d" and prep: "start_operation_prep X r e0 = Inr s" and e: "os_envelope s = e"
    and seen: "unseen (ov_operation_id e) d"
    and free: "row_by jo_key (ov_project_id e, ov_agent_id e, ov_request_id e) (operation_journal d) = None"
  obtains d1 x where "lifecycle_begin X r s d = Inr d1" "events d1 = events d @ [x]"
    "ev_stream_id x = operation_stream (ov_operation_id e)" "ev_sequence x = 1"
    "ev_event_id x = operation_stream (ov_operation_id e) @ '':'' @ show_int 1"
proof -
  let ?i = "ov_operation_id e"
  let ?d2 = "d\<lparr>operation_journal := operation_journal d @ [intent_row e (os_envelope_json s)],
      operations := operations d @ [started_row r e (os_digest s)]\<rparr>"
  have e2: "events_ok ?d2" using ok by (simp add: ledger_ok_def events_ok_def)
  have seen2: "unseen ?i ?d2" using seen by (simp add: unseen_def)
  note n = unseen_first[OF seen2]
  have t: "valid_text ?i" "valid_text (ov_project_id e)" "valid_text (ov_schema_version e)"
    "valid_text (ov_started_at e)"
    using start_prep_texts[OF prep] by (simp_all add: e)
  have v: "validate_event_envelope (operation_envelope_event ?i (ov_project_id e) (ov_agent_id e)
      (ov_request_id e) (ov_schema_version e) (ov_started_at e) 1 (started_payload ?i (os_digest s))) = Inr ()"
    by (rule operation_event_valid[OF t]) (simp_all add: started_payload_def json_get_def)
  from operation_event_appended[OF e2 n(1)[symmetric] v n(2), of X] obtain d1 x where
    ap: "append_operation_event X ?i (ov_project_id e) (ov_agent_id e) (ov_request_id e)
      (ov_schema_version e) (ov_started_at e) 1 (started_payload ?i (os_digest s)) ?d2 = Inr d1"
    and x: "events d1 = events ?d2 @ [x]" "ev_event_id x = operation_stream ?i @ '':'' @ show_int 1"
      "ev_stream_id x = operation_stream ?i" "ev_sequence x = 1" by metis
  have key: "jo_key (intent_row e js) = (ov_project_id e, ov_agent_id e, ov_request_id e)" for js
    by (simp add: jo_key_def intent_row_def)
  have "lifecycle_begin X r s d = Inr d1"
    using ap free n(1) by (simp add: lifecycle_begin_def Let_def e key)
  with that[of d1 x] x show ?thesis by simp
qed

lemma lifecycle_complete_succeeds:
  assumes ok: "ledger_ok r d" and e: "os_envelope (lq_start c) = e"
    and op: "x \<in> set (operations d)" "op_request_key x = (ov_project_id e, ov_agent_id e, ov_request_id e)"
    and t: "valid_text (ov_operation_id e)" "valid_text (ov_project_id e)" "valid_text (ov_schema_version e)"
      "valid_text (li_updated_at (lq_input c))"
    and n: "next_operation_event_sequence (ov_operation_id e) d = 2"
    and id: "row_by ev_event_id (operation_stream (ov_operation_id e) @ '':'' @ show_int 2) (events d) = None"
  shows "\<exists>d'. lifecycle_complete X c m d = Inr d'"
proof -
  let ?i = "ov_operation_id e" and ?key = "(ov_project_id e, ov_agent_id e, ov_request_id e)"
  obtain h where h: "operation_value_digest X (operation_outcome_value (lifecycle_outcome c m)) = Inr h"
    using value_domain by (simp add: operation_value_digest_def canonical_digest_def canonical_bytes_def)
  obtain js where js: "canonical_json_value X (outcome_payload ?i (lifecycle_outcome c m) h) = Inr js"
    by (simp add: canonical_json_value_def canonical_bytes_def)
  let ?d1 = "d\<lparr>operations := update_where (\<lambda>y. op_operation_id y = ?i \<and> op_lifecycle_status y = ''started'')
      (complete_lifecycle_row c m) (operations d)\<rparr>"
  let ?d2 = "?d1\<lparr>operation_journal := update_where (\<lambda>y. jo_key y = ?key)
      (set_outcome ''outcome_durable'' js) (operation_journal ?d1)\<rparr>"
  have jok: "unique_by jo_key (operation_journal d)" using ok by (simp add: ledger_ok_def journal_ok_def)
  obtain j where "row_by jo_key ?key (operation_journal d) = Some j"
    using ok op by (auto simp: ledger_ok_def op_journaled_def)
  then have one: "count_rows (\<lambda>y. jo_key y = ?key) (operation_journal ?d1) = 1"
    using count_rows_key[OF jok, of "\<lambda>y. jo_key y = ?key" ?key] row_by_key[of jo_key ?key] by simp
  have e2: "events_ok ?d2" using ok by (simp add: ledger_ok_def events_ok_def)
  have v: "validate_event_envelope (operation_envelope_event ?i (ov_project_id e) (ov_agent_id e)
      (ov_request_id e) (ov_schema_version e) (li_updated_at (lq_input c)) 2
      (finished_payload ?i ''completed'' ''durable'' h)) = Inr ()"
    by (rule operation_event_valid[OF t]) (simp_all add: finished_payload_def json_get_def)
  have n2: "2 = next_operation_event_sequence ?i ?d2"
    using n by (simp add: next_operation_event_sequence_def next_sequence_def)
  have id2: "row_by ev_event_id (operation_stream ?i @ '':'' @ show_int 2) (events ?d2) = None"
    using id by simp
  obtain d' where
    "append_operation_event X ?i (ov_project_id e) (ov_agent_id e) (ov_request_id e)
      (ov_schema_version e) (li_updated_at (lq_input c)) 2
      (finished_payload ?i ''completed'' ''durable'' h) ?d2 = Inr d'"
    by (rule operation_event_appended[OF e2 n2 v id2])
  moreover have "next_number ev_stream_id ev_sequence (operation_stream ?i) (events d) = 2"
    using n by (simp add: next_operation_event_sequence_def next_sequence_def)
  ultimately show ?thesis
    using one by (simp add: lifecycle_complete_def Let_def e h js next_operation_event_sequence_def
        next_sequence_def)
qed

text \<open>
  A new request whose workspace is where the caller expects it, under a live lease, commits
  unless the revision is at the end of its range.
\<close>

lemma lifecycle_succeeds:
  assumes inv: "lifecycle_inv r d" and prep: "lifecycle_prep X r q = Inr c"
    and e: "os_envelope (lq_start c) = e"
    and fresh: "row_by op_request_key (ov_project_id e, ov_agent_id e, ov_request_id e) (operations d) = None"
      "row_by op_operation_id (ov_operation_id e) (operations d) = None"
      "row_by jo_key (ov_project_id e, ov_agent_id e, ov_request_id e) (operation_journal d) = None"
      "unseen (ov_operation_id e) d"
    and bind: "validate_operation_bindings d (ov_project_id e) (ov_workspace_id e) (ov_environment_id e)
        (ov_parent_operation_id e) = Inr ()"
    and check: "lifecycle_workspace_check c d = Inr ()" and room: "li_expected_revision q + 1 < 2 ^ 63"
  shows "\<exists>d'. lifecycle_tx X r c d = Inr (Commit d' (lifecycle_read_back r c))"
proof -
  let ?s = "lq_start c"
  have ok: "ledger_ok r d" and uq: "unique_by ws_workspace_id (workspaces d)"
    using inv by (simp_all add: lifecycle_inv_def workspaces_ok_def)
  note pf = lifecycle_prep_facts[OF prep]
  obtain d1 x where b: "lifecycle_begin X r ?s d = Inr d1" "events d1 = events d @ [x]"
    "ev_stream_id x = operation_stream (ov_operation_id e)" "ev_sequence x = 1"
    "ev_event_id x = operation_stream (ov_operation_id e) @ '':'' @ show_int 1"
    by (rule lifecycle_begin_succeeds[OF ok pf(2) e fresh(4,3)])
  from b(1) obtain k1 where st: "start_operation_tx X r ?s d = Inr (Commit d1 k1)"
    unfolding lifecycle_begin_start[of ?s d X r d1, unfolded e, OF fresh(1-3) bind] by (rule exE)
  note s = start_operation_commit[OF ok st]
  have ok1: "ledger_ok r d1" and ops1: "operations d1 = operations d @ [started_row r e (os_digest ?s)]"
    and ws1: "workspaces d1 = workspaces d" using s by (simp_all add: e ledger_frame_def)
  obtain w where w: "row_by ws_workspace_id (lq_workspace_id c) (workspaces d) = Some w" "lifecycle_guard c w"
    using check by (auto simp: lifecycle_check_ok)
  have one: "count_rows (lifecycle_guard c) (workspaces d1) = 1"
    using count_rows_key[OF uq, of "lifecycle_guard c" "lq_workspace_id c"] w
    by (simp add: ws1 lifecycle_guard_def)
  have "checked_add (li_expected_revision q) 1 = Some (li_expected_revision q + 1)"
    using room pf(9) by (simp add: checked_add_def)
  with one have "\<exists>p. lifecycle_move c d1 = Inr p" by (simp add: lifecycle_move_def Let_def pf(1))
  then obtain n d2 where mv: "lifecycle_move c d1 = Inr (n, d2)" by auto
  have d2: "d2 = d1\<lparr>workspaces := workspaces d2\<rparr>" by (rule lifecycle_move_tables[OF mv])
  have ok2: "ledger_ok r d2" using ok1 by (subst d2) (simp only: ledger_ok_workspaces)
  have tb: "operations d2 = operations d1" "events d2 = events d1" by (subst d2, simp)+
  note n2 = unseen_second[OF fresh(4) b(2,3,5,4)]
  have t: "valid_text (ov_operation_id e)" "valid_text (ov_project_id e)" "valid_text (ov_schema_version e)"
    "valid_text (li_updated_at (lq_input c))"
    using start_prep_texts[OF pf(2)] pf(1,6) by (simp_all add: e)
  have "\<exists>d'. lifecycle_complete X c n d2 = Inr d'"
    by (rule lifecycle_complete_succeeds[OF ok2 e _ started_row_simps(2)[of r e "os_digest ?s"] t])
      (use n2 in \<open>simp_all add: tb ops1 next_operation_event_sequence_def next_sequence_def\<close>)
  then show ?thesis
    using fresh bind check b(1) mv by (auto simp: lifecycle_tx_def Let_def e)
qed

section \<open>All or nothing\<close>

text \<open>What a lifecycle operation that took effect leaves: the workspace moved by one revision, if at
  all, and one completed operation with its journal row, which name the same revision.\<close>

definition lifecycle_done ::
  "redactor \<Rightarrow> lifecycle_request \<Rightarrow> db \<Rightarrow> db \<Rightarrow> workspace_record \<Rightarrow> operation_record \<Rightarrow> bool" where
  "lifecycle_done r c d d' w' x \<longleftrightarrow>
     (let q = lq_input c; i = lq_workspace_id c in
      (\<exists>w. row_by ws_workspace_id i (workspaces d) = Some w
         \<and> ws_status w = li_expected_status q \<and> ws_revision w = li_expected_revision q
         \<and> ws_revision w' = ws_revision w + (if ws_status w' = ws_status w then 0 else 1))
      \<and> lease_live d (li_lease q) (li_now_ms q)
      \<and> ws_status w' = li_next_status q
      \<and> (\<forall>j. row_by ws_workspace_id j (workspaces d')
            = (if j = i then Some w' else row_by ws_workspace_id j (workspaces d)))
      \<and> operations d' = operations d @ [x]
      \<and> op_lifecycle_status x = ''completed'' \<and> op_workspace_id x = Some i
      \<and> Option.bind (op_result x) (\<lambda>v. json_get v ''revision'') = Some (JNumber (show_int (ws_revision w')))
      \<and> (\<exists>j. row_by jo_key (op_request_key x) (operation_journal d') = Some j
           \<and> jo_operation_id j = op_operation_id x \<and> jo_phase j = ''outcome_durable''))"

lemma lifecycle_commit_done:
  assumes inv: "lifecycle_inv r d" and prep: "lifecycle_prep X r q = Inr c"
    and tx: "lifecycle_tx X r c d = Inr (Commit d' k)"
  obtains w' x where "lifecycle_done r c d d' w' x" "k d' = Inr (w', x)"
proof -
  let ?i = "lq_workspace_id c" and ?e = "os_envelope (lq_start c)"
  have ok: "ledger_ok r d" and uq: "unique_by ws_workspace_id (workspaces d)"
    using inv by (simp_all add: lifecycle_inv_def workspaces_ok_def)
  from ok uq prep tx obtain w n js where
    w: "row_by ws_workspace_id ?i (workspaces d) = Some w" "lifecycle_guard c w"
    and live: "lease_live d (li_lease q) (li_now_ms q)" and n: "n = ws_revision (moved_workspace c w)"
    and rows: "workspaces d' = update_where (\<lambda>x. ws_workspace_id x = ?i) (moved_workspace c) (workspaces d)"
    and ops: "operations d' = operations d @ [completed_operation r c n]"
    and jr: "operation_journal d' = update_where (\<lambda>y. jo_key y = (ov_project_id ?e, ov_agent_id ?e, ov_request_id ?e))
      (set_outcome ''outcome_durable'' js) (operation_journal d @ [intent_row ?e (os_envelope_json (lq_start c))])"
    and ok': "ledger_ok r d'" by (rule lifecycle_written)
  let ?w = "moved_workspace c w" and ?x = "completed_operation r c n"
  have rb: "k d' = Inr (?w, ?x)" using lifecycle_again[OF inv prep tx w(1)] n by simp
  have "?x \<in> set (operations d')" by (simp add: ops)
  with ok' have "op_journaled (operation_journal d') ?x" by (simp add: ledger_ok_def)
  then obtain j where j: "row_by jo_key (op_request_key ?x) (operation_journal d') = Some j"
    "jo_operation_id j = op_operation_id ?x" unfolding op_journaled_def by (elim exE conjE)
  from row_by_in[OF j(1)] row_by_key[OF j(1)] have ph: "jo_phase j = ''outcome_durable''"
    by (auto simp: jr update_where_in)
  have moved: "row_by ws_workspace_id i (workspaces d')
      = (if i = ?i then Some ?w else row_by ws_workspace_id i (workspaces d))" for i
    using w(1) row_by_key[of ws_workspace_id i] by (auto simp: rows row_by_update split: option.split)
  have rev: "ws_revision ?w = ws_revision w + (if ws_status ?w = ws_status w then 0 else 1)"
    using w(2) by (simp add: moved_workspace_def lifecycle_guard_def)
  have "lifecycle_done r c d d' ?w ?x"
    unfolding lifecycle_done_def Let_def
    using w live j ph moved rev ops n lifecycle_prep_facts(1,4)[OF prep]
    by (intro conjI exI[of _ w] exI[of _ j])
      (simp_all add: moved_status lifecycle_guard_def lifecycle_result_members)
  with rb show ?thesis by (rule that[rotated])
qed

text \<open>A request that was answered before it wrote was answered from a completed operation.\<close>

lemma lifecycle_finished:
  assumes "lifecycle_tx X r c d = Inr (Finished (w, x))"
  shows "w \<in> set (workspaces d) \<and> x \<in> set (operations d) \<and> op_lifecycle_status x = ''completed''"
proof -
  let ?e = "os_envelope (lq_start c)"
  obtain y where y: "row_by op_request_key (ov_project_id ?e, ov_agent_id ?e, ov_request_id ?e) (operations d) = Some y"
    using assms by (cases "row_by op_request_key (ov_project_id ?e, ov_agent_id ?e, ov_request_id ?e) (operations d)")
      (auto simp: lifecycle_tx_def Let_def split: if_splits)
  with assms have "lifecycle_replay c y d = Inr (Finished (w, x))" by (simp add: lifecycle_tx_def Let_def)
  then have "x = y \<and> op_lifecycle_status y = ''completed''
      \<and> row_by ws_workspace_id (lq_workspace_id c) (workspaces d) = Some w"
    by (auto simp: lifecycle_replay_def Let_def split: option.splits if_splits)
  with y show ?thesis by (auto dest: row_by_in)
qed

text \<open>
  A life-cycle operation is all or nothing. Under any fault either the database is as it was,
  or the workspace has moved from the state and the revision that the caller named, under a
  live lease, and exactly one completed operation records the revision it has now, with the
  journal row of its request at its outcome; no other workspace has changed. A caller that gets
  an answer gets the rows that are in the store; one whose change is durable without an answer
  was told of the injected fault.
\<close>

lemma lifecycle_operation_atomic:
  assumes "lifecycle_inv (st_redactor st) (st_db st)"
    and "apply_workspace_lifecycle_operation X st q = (out, st')"
  shows "(st_db st' = st_db st \<and> (case out of Inl e \<Rightarrow> True
        | Inr (w, x) \<Rightarrow> w \<in> set (workspaces (st_db st)) \<and> x \<in> set (operations (st_db st))
            \<and> op_lifecycle_status x = ''completed''))
    \<or> (\<exists>c w' x. lifecycle_prep X (st_redactor st) q = Inr c
        \<and> lifecycle_done (st_redactor st) c (st_db st) (st_db st') w' x
        \<and> (out = Inr (w', x) \<or> (\<exists>l. out = Inl (FaultInjected l))))"
proof (cases "lifecycle_prep X (st_redactor st) q")
  case (Inl e)
  with assms(2) show ?thesis by (auto simp: apply_workspace_lifecycle_operation_def run_op_def)
next
  case prep: (Inr c)
  let ?r = "st_redactor st" and ?d = "st_db st"
  let ?tx = "lifecycle_tx X ?r c ?d"
  have run: "run_tx st ?tx BeforeOperationFinishCommit AfterOperationFinishCommit = (out, st')"
    using assms(2) prep by (simp add: apply_workspace_lifecycle_operation_def run_op_def)
  show ?thesis
  proof (cases "\<exists>d' k. ?tx = Inr (Commit d' k)")
    case True
    then obtain d' k where tx: "?tx = Inr (Commit d' k)" by (elim exE)
    obtain w' x where wr: "lifecycle_done ?r c ?d d' w' x" "k d' = Inr (w', x)"
      by (rule lifecycle_commit_done[OF assms(1) prep tx])
    from run_tx_db_cases[of st ?tx BeforeOperationFinishCommit AfterOperationFinishCommit] run tx
    have db: "st_db st' = ?d \<or> st_db st' = d'" by auto
    from run_tx_commit_result[OF run[unfolded tx]] wr(2)
    have out: "(out = Inr (w', x) \<and> st_db st' = d') \<or> (\<exists>l. out = Inl (FaultInjected l))" by simp
    show ?thesis
    proof (cases "st_db st' = d'")
      case True
      with wr(1) out prep show ?thesis by (intro disjI2 exI[of _ c] exI[of _ w'] exI[of _ x]) auto
    next
      case False
      with db out show ?thesis by (intro disjI1) auto
    qed
  next
    case False
    then consider e where "?tx = Inl e" | y where "?tx = Inr (Finished y)"
      by (cases ?tx) (metis, metis tx_end.exhaust)
    then have "st' = st \<and> (\<forall>w x. out = Inr (w, x) \<longrightarrow> ?tx = Inr (Finished (w, x)))"
      using run by cases auto
    then have same: "st' = st" and fin: "out = Inr (w, x) \<Longrightarrow> ?tx = Inr (Finished (w, x))" for w x
      by simp_all
    have "w \<in> set (workspaces ?d) \<and> x \<in> set (operations ?d) \<and> op_lifecycle_status x = ''completed''"
      if "out = Inr (w, x)" for w x
      by (rule lifecycle_finished[OF fin[OF that]])
    with same show ?thesis by (intro disjI1) (auto split: sum.split)
  qed
qed

section \<open>A concrete lifecycle operation\<close>

text \<open>The agent that holds the lease of the sample workspace archives it.\<close>

definition sample_lifecycle :: lifecycle_input where
  "sample_lifecycle = \<lparr>li_operation = sample_envelope\<lparr>ov_workspace_id := Some ''w1''\<rparr>,
     li_lease = \<lparr>lt_workspace_id = ''w1'', lt_agent_id = ''a1'', lt_epoch = 1, lt_expires_at_ms = 15\<rparr>,
     li_expected_revision = 0, li_expected_status = ''created'', li_next_status = ''archived'',
     li_updated_at = ''d2'', li_now_ms = 6\<rparr>"

abbreviation sample_held :: metadata_store where
  "sample_held \<equiv> sample_leased [sample_lease ''a1'' 1 5]"

lemma sample_held_ok: "lifecycle_inv default_redactor (st_db sample_held)"
proof -
  have "workspaces_ok default_redactor (st_db sample_held)"
    using sample_leased_ok[of "[sample_lease ''a1'' 1 5]"] sample_leases(2)[of 1] by simp
  moreover have "ledger_ok default_redactor (st_db sample_held)"
    using ledger_ok_empty[of default_redactor]
    by (simp add: ledger_ok_def events_ok_def journal_ok_def sample_leased_def)
  ultimately show ?thesis by (simp add: lifecycle_inv_def)
qed

lemma sample_lifecycle_prepared:
  "\<exists>c. lifecycle_prep sample_externals default_redactor sample_lifecycle = Inr c"
proof -
  have t: "valid_text ''created''" "valid_text ''archived''" "valid_text ''s1''" "valid_text ''t1''"
    "valid_text ''x1''" "valid_text ''r''" "valid_text ''e''" "valid_text ''1''" "valid_text ''r1''"
    by (rule valid_text_plain; code_simp)+
  have d: "validate_domain ''operation/envelope/v1'' = Inr ()" by code_simp
  have e: "redact_operation_envelope default_redactor (li_operation sample_lifecycle)
      = li_operation sample_lifecycle"
    by (simp add: sample_lifecycle_def redact_operation_envelope_def sample_envelope_def
        redact_opt_def redact_json_opt_def)
  have v: "validate_operation_envelope (li_operation sample_lifecycle) = Inr ()"
    using t valid_samples
    by (simp add: validate_operation_envelope_def sample_lifecycle_def sample_envelope_def
        validate_opt_def sample_checks)
  show ?thesis
    unfolding lifecycle_prep_def Let_def e v
    using t d by (simp add: sample_lifecycle_def validate_workspace_status_def workspace_statuses_def
        operation_envelope_digest_def canonical_digest_def canonical_bytes_def canonical_json_value_def)
qed

lemma sample_lifecycle_runs:
  obtains w x st where "apply_workspace_lifecycle_operation sample_externals sample_held sample_lifecycle
    = (Inr (w, x), st)"
proof -
  let ?X = sample_externals and ?r = default_redactor and ?d = "st_db sample_held"
  obtain c where prep: "lifecycle_prep ?X ?r sample_lifecycle = Inr c"
    using sample_lifecycle_prepared by (rule exE)
  note pf = lifecycle_prep_facts[OF prep]
  let ?e = "os_envelope (lq_start c)"
  have e: "ov_project_id ?e = ''p1''" "ov_workspace_id ?e = Some ''w1''" "ov_environment_id ?e = None"
    "ov_parent_operation_id ?e = None" "lq_workspace_id c = ''w1''" "lq_input c = sample_lifecycle"
    using pf(1,3,5) by (simp_all add: sample_lifecycle_def redact_operation_envelope_def sample_envelope_def
        redact_opt_def)
  have tb: "operations ?d = []" "operation_journal ?d = []" "events ?d = []"
    by (simp_all add: sample_leased_def empty_db_def)
  have bind: "validate_operation_bindings ?d (ov_project_id ?e) (ov_workspace_id ?e) (ov_environment_id ?e)
      (ov_parent_operation_id ?e) = Inr ()"
    by (simp add: e validate_operation_bindings_def bound_to_def workspace_project_def sample_workspace_def)
  have check: "lifecycle_workspace_check c ?d = Inr ()"
    by (simp add: lifecycle_workspace_check_def e sample_workspace_def sample_lifecycle_def
        validate_workspace_ready_state_def ready_statuses_def lease_live_def token_live_def
        token_matches_def sample_lease_def)
  have "\<exists>d'. lifecycle_tx ?X ?r c ?d = Inr (Commit d' (lifecycle_read_back ?r c))"
    by (rule lifecycle_succeeds[OF sample_held_ok prep refl _ _ _ _ bind check])
      (simp_all add: tb unseen_def sample_lifecycle_def)
  then obtain d' where tx: "lifecycle_tx ?X ?r c ?d = Inr (Commit d' (lifecycle_read_back ?r c))" by (rule exE)
  obtain w x where "lifecycle_read_back ?r c d' = Inr (w, x)"
    by (rule lifecycle_commit_done[OF sample_held_ok prep tx])
  with tx prep have "apply_workspace_lifecycle_operation ?X sample_held sample_lifecycle
      = (Inr (w, x), sample_held\<lparr>st_db := d'\<rparr>)"
    by (simp add: apply_workspace_lifecycle_operation_def run_op_def run_tx_unarmed)
  then show ?thesis by (rule that)
qed

lemma lifecycle_operation_atomic_witness:
  "\<exists>w x st. apply_workspace_lifecycle_operation sample_externals sample_held sample_lifecycle = (Inr (w, x), st)
    \<and> ws_status w = ''archived'' \<and> ws_revision w = 1 \<and> operations (st_db st) = [x]
    \<and> op_lifecycle_status x = ''completed''"
proof -
  obtain w x st where run: "apply_workspace_lifecycle_operation sample_externals sample_held sample_lifecycle
      = (Inr (w, x), st)" by (rule sample_lifecycle_runs)
  have none: "operations (st_db sample_held) = []" by (simp add: sample_leased_def empty_db_def)
  from lifecycle_operation_atomic[OF _ run] sample_held_ok none obtain c where
    c: "lifecycle_prep sample_externals default_redactor sample_lifecycle = Inr c"
    "lifecycle_done default_redactor c (st_db sample_held) (st_db st) w x" by auto
  have "lq_input c = sample_lifecycle" "lq_workspace_id c = ''w1''"
    using lifecycle_prep_facts(1,5)[OF c(1)] by (simp_all add: sample_lifecycle_def)
  with c(2) none have "ws_status w = ''archived'' \<and> ws_revision w = 1 \<and> operations (st_db st) = [x]
      \<and> op_lifecycle_status x = ''completed''"
    by (auto simp: lifecycle_done_def Let_def sample_lifecycle_def sample_workspace_def)
  with run show ?thesis by blast
qed

end
