(* ===== verification/Migration_Store.thy ===== *)
theory Migration_Store
  imports Version_Store Projection_Store "HOL-Library.AList"
begin

text \<open>
  The metadata side of an offline generation migration (\<open>set_repository_format\<close>,
  \<open>set_generation_identity\<close>, \<open>rebind_projections\<close>, \<open>validate_projection_bindings\<close> in
  \<open>src/src/metadata.rs\<close>, and the block of \<open>migrate_locked\<close> in \<open>src/src/repository.rs\<close> that calls
  them on the copied file): the file is declared of the generation format, bound to the new
  generation and migration, and its projections are bound to them. These calls inject no
  metadata failpoint; the failpoints of a migration lie between them. The lemmas say what each
  call leaves alone, and that versions, which are not rebound, can no longer be read.
\<close>

section \<open>The calls\<close>

definition REPOSITORY_FORMAT :: utf8 where "REPOSITORY_FORMAT = ''0.1''"
definition GENERATION_REPOSITORY_FORMAT :: utf8 where "GENERATION_REPOSITORY_FORMAT = ''0.2''"

text \<open>An immediate transaction without failpoints: the error, or the written store.\<close>

definition transact :: "metadata_store \<Rightarrow> db res \<Rightarrow> unit res \<times> metadata_store" where
  "transact st body = (case body of Inl e \<Rightarrow> (Inl e, st) | Inr d \<Rightarrow> (Inr (), st\<lparr>st_db := d\<rparr>))"

definition set_repository_format :: "metadata_store \<Rightarrow> utf8 \<Rightarrow> unit res \<times> metadata_store" where
  "set_repository_format st format =
     (if format \<noteq> REPOSITORY_FORMAT \<and> format \<noteq> GENERATION_REPOSITORY_FORMAT
      then (Inl (Unsupported (''repository format '' @ format @ '' is not supported'')), st)
      else transact st
        (if count_rows (\<lambda>m. fst m = ''repository_format'') (repository_meta (st_db st)) \<noteq> 1
         then Inl (Integrity ''repository format metadata is missing'')
         else Inr ((st_db st)\<lparr>repository_meta := update_where (\<lambda>m. fst m = ''repository_format'')
           (\<lambda>m. (fst m, format)) (repository_meta (st_db st))\<rparr>)))"

text \<open>\<open>INSERT ... ON CONFLICT(key) DO UPDATE\<close>, for the one key and then for the other.\<close>

definition upsert_meta :: "utf8 \<Rightarrow> utf8 \<Rightarrow> db \<Rightarrow> db" where
  "upsert_meta key v d = d\<lparr>repository_meta := AList.update key v (repository_meta d)\<rparr>"

definition set_generation_identity ::
  "metadata_store \<Rightarrow> utf8 \<Rightarrow> utf8 \<Rightarrow> unit res \<times> metadata_store" where
  "set_generation_identity st generation_id migration_id =
     (if generation_id = [] \<or> migration_id = []
      then (Inl (InvalidInput ''generation identity cannot be empty''), st)
      else transact st (Inr (upsert_meta ''migration_id'' migration_id
        (upsert_meta ''generation_id'' generation_id (st_db st)))))"

definition rebind_projections ::
  "metadata_store \<Rightarrow> utf8 \<Rightarrow> utf8 \<Rightarrow> unit res \<times> metadata_store" where
  "rebind_projections st generation_id migration_id =
     transact st (Inr ((st_db st)\<lparr>projections := update_where (\<lambda>_. True)
       (\<lambda>x. x\<lparr>pr_generation_id := generation_id, pr_migration_id := migration_id\<rparr>)
       (projections (st_db st))\<rparr>))"

text \<open>A projection that is not of this generation, migration and redaction profile.\<close>

definition unbound_projection :: "redactor \<Rightarrow> utf8 \<Rightarrow> utf8 \<Rightarrow> projection_record \<Rightarrow> bool" where
  "unbound_projection r generation_id migration_id x \<longleftrightarrow> pr_generation_id x \<noteq> generation_id
     \<or> pr_migration_id x \<noteq> migration_id \<or> pr_redaction_profile_id x \<noteq> profile_id r
     \<or> pr_redaction_profile_version x \<noteq> version r"

definition validate_projection_bindings ::
  "externals \<Rightarrow> metadata_store \<Rightarrow> utf8 \<Rightarrow> utf8 \<Rightarrow> unit res" where
  "validate_projection_bindings X st generation_id migration_id =
     (case find (unbound_projection (st_redactor st) generation_id migration_id) (projections (st_db st)) of
        Some x \<Rightarrow> Inl (Integrity
          (''projection '' @ pr_projection_id x @ '' is not bound to the active generation''))
      | None \<Rightarrow> check_all (\<lambda>i. case projection_record_of (st_db st) i of
            None \<Rightarrow> Inl (Integrity ''projection disappeared during validation'')
          | Some x \<Rightarrow> validate_projection_record_integrity X (st_db st) x)
          (order_rows (\<lambda>i. i) (map pr_projection_id (projections (st_db st)))))"

section \<open>The block of the migration\<close>

datatype migration_failpoint = Preflight | TargetAllocated | AfterBackup | BeforeProjectionRebind
  | AfterProjectionRebind | AfterCheckpoint | AfterVerify | BeforeSelectorReplace
  | AfterSelectorReplace | AfterSelectorDirectorySync | AfterJournalFinalize

fun migration_label :: "migration_failpoint \<Rightarrow> utf8" where
  "migration_label Preflight = ''preflight''"
| "migration_label TargetAllocated = ''target_allocated''"
| "migration_label AfterBackup = ''after_backup''"
| "migration_label BeforeProjectionRebind = ''before_projection_rebind''"
| "migration_label AfterProjectionRebind = ''after_projection_rebind''"
| "migration_label AfterCheckpoint = ''after_checkpoint''"
| "migration_label AfterVerify = ''after_verify''"
| "migration_label BeforeSelectorReplace = ''before_selector_replace''"
| "migration_label AfterSelectorReplace = ''after_selector_replace''"
| "migration_label AfterSelectorDirectorySync = ''after_selector_directory_sync''"
| "migration_label AfterJournalFinalize = ''after_journal_finalize''"

text \<open>\<open>MigrationFailpoints\<close> arms one point; it is the argument here and what stays armed the result.\<close>

definition fault_if ::
  "migration_failpoint option \<Rightarrow> migration_failpoint \<Rightarrow> unit res \<times> migration_failpoint option" where
  "fault_if armed point =
     (if armed = Some point then (Inl (FaultInjected (''migration_'' @ migration_label point)), None)
      else (Inr (), armed))"

record migration_spec =
  ms_migration_id :: utf8
  ms_target_generation_id :: utf8

definition bind_target ::
  "externals \<Rightarrow> migration_failpoint option \<Rightarrow> metadata_store \<Rightarrow> migration_spec \<Rightarrow>
    unit res \<times> metadata_store" where
  "bind_target X armed st spec =
     pass (set_repository_format st GENERATION_REPOSITORY_FORMAT) (\<lambda>st.
     pass (set_generation_identity st (ms_target_generation_id spec) (ms_migration_id spec)) (\<lambda>st.
     attempt st (fst (fault_if armed BeforeProjectionRebind)) (\<lambda>_.
     pass (rebind_projections st (ms_target_generation_id spec) (ms_migration_id spec)) (\<lambda>st.
     attempt st (fst (fault_if armed AfterProjectionRebind)) (\<lambda>_.
     (validate_projection_bindings X st (ms_target_generation_id spec) (ms_migration_id spec), st))))))"

section \<open>What the calls leave alone\<close>

lemma transact_simps [simp]:
  "st_redactor (snd (transact st body)) = st_redactor st"
  "transact st (Inl e) = (Inl e, st)" "transact st (Inr d) = (Inr (), st\<lparr>st_db := d\<rparr>)"
  by (simp_all add: transact_def split: sum.split)

lemma format_value:
  "key \<noteq> ''repository_format'' \<Longrightarrow>
    map_of (update_where (\<lambda>m. fst m = ''repository_format'') (\<lambda>m. (fst m, v)) ms) key = map_of ms key"
  by (induction ms) (auto simp: update_where_def)

lemma set_format_result:
  obtains ms where "st_db (snd (set_repository_format st format)) = (st_db st)\<lparr>repository_meta := ms\<rparr>"
    "\<And>key. key \<noteq> ''repository_format'' \<Longrightarrow> map_of ms key = map_of (repository_meta (st_db st)) key"
proof (cases "st_db (snd (set_repository_format st format)) = st_db st")
  case True
  then show ?thesis by (intro that[of "repository_meta (st_db st)"]) simp_all
next
  case False
  then show ?thesis
    by (intro that[of "update_where (\<lambda>m. fst m = ''repository_format'') (\<lambda>m. (fst m, format))
        (repository_meta (st_db st))"])
      (simp_all add: set_repository_format_def format_value split: if_splits)
qed

lemma set_identity_result:
  "g \<noteq> [] \<Longrightarrow> m \<noteq> [] \<Longrightarrow> \<exists>ms. set_generation_identity st g m = (Inr (), st\<lparr>st_db := (st_db st)\<lparr>repository_meta := ms\<rparr>\<rparr>)
    \<and> map_of ms = (map_of (repository_meta (st_db st)))(''generation_id'' \<mapsto> g, ''migration_id'' \<mapsto> m)"
  unfolding set_generation_identity_def upsert_meta_def
  by (rule exI[of _ "AList.update ''migration_id'' m (AList.update ''generation_id'' g (repository_meta (st_db st)))"])
    (simp add: update_conv')

lemma set_identity_rejects:
  "g = [] \<or> m = [] \<Longrightarrow> set_generation_identity st g m
    = (Inl (InvalidInput ''generation identity cannot be empty''), st)"
  by (auto simp: set_generation_identity_def)

lemma migration_redactor [simp]:
  "st_redactor (snd (set_repository_format st format)) = st_redactor st"
  "st_redactor (snd (set_generation_identity st g m)) = st_redactor st"
  "st_redactor (snd (rebind_projections st g m)) = st_redactor st"
  by (simp_all add: set_repository_format_def set_generation_identity_def rebind_projections_def)

lemma rebind_bound:
  "\<forall>x \<in> set (projections (st_db (snd (rebind_projections st g m)))).
    pr_generation_id x = g \<and> pr_migration_id x = m"
  by (auto simp: rebind_projections_def update_where_def)

text \<open>
  The whole block, armed or not: tables other than the declarations and the projections are as
  they were, and a block that succeeds has bound the store and every projection.
\<close>

definition rebound :: "metadata_store \<Rightarrow> metadata_store \<Rightarrow> bool" where
  "rebound st st' \<longleftrightarrow> st_redactor st' = st_redactor st
     \<and> (st_db st')\<lparr>repository_meta := [], projections := []\<rparr>
         = (st_db st)\<lparr>repository_meta := [], projections := []\<rparr>"

lemma rebound_refl: "rebound st st"
  by (simp add: rebound_def)

lemma rebound_trans: "rebound a b \<Longrightarrow> rebound b c \<Longrightarrow> rebound a c"
  by (simp add: rebound_def)

lemma rebound_meta:
  assumes "st_redactor st' = st_redactor st" "st_db st' = (st_db st)\<lparr>repository_meta := ms\<rparr>"
  shows "rebound st st'"
  by (simp add: rebound_def assms)

lemma calls_rebound:
  "rebound st (snd (set_repository_format st format))"
  "rebound st (snd (set_generation_identity st g m))"
  "rebound st (snd (rebind_projections st g m))"
proof -
  obtain ms where "st_db (snd (set_repository_format st format)) = (st_db st)\<lparr>repository_meta := ms\<rparr>"
    by (rule set_format_result)
  then show "rebound st (snd (set_repository_format st format))" by (intro rebound_meta) simp_all
  show "rebound st (snd (set_generation_identity st g m))"
  proof (cases "g = [] \<or> m = []")
    case True
    then show ?thesis by (simp add: set_identity_rejects rebound_refl)
  next
    case False
    with set_identity_result[of g m st] obtain ms where
      "set_generation_identity st g m = (Inr (), st\<lparr>st_db := (st_db st)\<lparr>repository_meta := ms\<rparr>\<rparr>)" by auto
    then show ?thesis by (intro rebound_meta) simp_all
  qed
  show "rebound st (snd (rebind_projections st g m))"
    by (simp add: rebound_def rebind_projections_def)
qed

lemma bind_target_rebound: "rebound st (snd (bind_target X armed st spec))"
proof -
  let ?g = "ms_target_generation_id spec" and ?m = "ms_migration_id spec"
  have pass: "rebound st (snd (pass a k))" if "rebound st (snd a)"
    "\<And>st'. rebound st st' \<Longrightarrow> rebound st (snd (k st'))" for a :: "unit res \<times> metadata_store" and k
    using that by (auto simp: pass_def split: prod.split sum.split)
  have attempt: "rebound st (snd (attempt st' x k))" if "rebound st st'" "\<And>y. rebound st (snd (k y))"
    for st' and x :: "unit res" and k
    using that by (auto simp: attempt_def split: sum.split)
  show ?thesis unfolding bind_target_def
    by (intro pass attempt calls_rebound(1) rebound_trans[OF _ calls_rebound(2)]
        rebound_trans[OF _ calls_rebound(3)]) simp_all
qed

section \<open>Versions are not rebound\<close>

lemma new_identity:
  "map_of (repository_meta d') = (map_of (repository_meta d))(''generation_id'' \<mapsto> g, ''migration_id'' \<mapsto> m) \<Longrightarrow>
    projection_identity d' = Inr (g, m)"
  by (simp add: projection_identity_def generation_identity_def meta_value_def)

lemma unreadable_under:
  assumes v: "version_record_of X d i = Inr (Some v)"
    and id: "projection_identity d' = Inr (g, m)" and other: "(g, m) \<noteq> (ve_generation_id v, ve_migration_id v)"
    and tb: "versions d' = versions d" "snapshots d' = snapshots d" "operations d' = operations d"
  shows "version_record_of X d' i = Inl (Integrity ''version generation binding is invalid'')"
proof -
  from v obtain s x j where row: "row_by ve_version_id i (versions d) = Some v"
    and s: "row_by sn_snapshot_id (ve_snapshot_id v) (snapshots d) = Some s"
    and x: "row_by op_operation_id (ve_creation_operation_id v) (operations d) = Some x"
    and valid: "validate_version_row X v s x j = Inr ()"
    by (auto simp: version_record_of_def split: option.splits sum.splits)
  from valid other have "validate_version_row X v s x (g, m)
      = Inl (Integrity ''version generation binding is invalid'')"
    by (auto simp: validate_version_row_def split: sum.splits if_splits)
  with row s x id show ?thesis by (simp add: tb version_record_of_def)
qed

text \<open>
  A version that can be read carries the identity of its store. Once the store is bound to
  another identity the same row, which nothing rebinds, is answered with an integrity error.
\<close>

lemma migrated_version_unreadable:
  assumes "version_record_of X (st_db st) i = Inr (Some v)"
    and "(g, m) \<noteq> (ve_generation_id v, ve_migration_id v)" "g \<noteq> []" "m \<noteq> []"
  shows "version_record_of X (st_db (snd (set_generation_identity st g m))) i
    = Inl (Integrity ''version generation binding is invalid'')"
proof -
  obtain ms where run: "set_generation_identity st g m
      = (Inr (), st\<lparr>st_db := (st_db st)\<lparr>repository_meta := ms\<rparr>\<rparr>)"
    and ms: "map_of ms = (map_of (repository_meta (st_db st)))(''generation_id'' \<mapsto> g, ''migration_id'' \<mapsto> m)"
    using set_identity_result[OF assms(3,4), of st] by (elim exE conjE)
  have "projection_identity ((st_db st)\<lparr>repository_meta := ms\<rparr>) = Inr (g, m)"
    by (rule new_identity[of _ "st_db st"]) (simp add: ms)
  then show ?thesis by (intro unreadable_under[OF assms(1) _ assms(2)]) (simp_all add: run)
qed

lemma pass_success:
  assumes "pass a k = (Inr x, st')"
  obtains st1 where "a = (Inr (), st1)" "k st1 = (Inr x, st')"
  using assms that by (cases a; cases "fst a") (simp_all add: pass_def)

lemma attempt_success:
  assumes "attempt st x k = (Inr y, st')"
  obtains z where "x = Inr z" "k z = (Inr y, st')"
  using assms that by (cases x) (simp_all add: attempt_def)

lemma projection_identity_meta:
  "repository_meta d' = repository_meta d \<Longrightarrow> projection_identity d' = projection_identity d"
  by (simp add: projection_identity_def generation_identity_def meta_value_def)

lemma bind_target_identity:
  assumes "bind_target X armed st spec = (Inr (), st')"
  shows "projection_identity (st_db st') = Inr (ms_target_generation_id spec, ms_migration_id spec)
    \<and> (\<forall>x \<in> set (projections (st_db st')). \<not> unbound_projection (st_redactor st')
         (ms_target_generation_id spec) (ms_migration_id spec) x)"
proof -
  let ?g = "ms_target_generation_id spec" and ?m = "ms_migration_id spec"
  from assms obtain st1 st2 st3 where
    a: "set_repository_format st GENERATION_REPOSITORY_FORMAT = (Inr (), st1)"
    and b: "set_generation_identity st1 ?g ?m = (Inr (), st2)"
    and c: "rebind_projections st2 ?g ?m = (Inr (), st3)"
    and v: "validate_projection_bindings X st3 ?g ?m = Inr ()" and st': "st' = st3"
    unfolding bind_target_def
    by (elim pass_success attempt_success) (erule Pair_inject, simp)
  have ne: "?g \<noteq> []" "?m \<noteq> []" using b set_identity_rejects[of ?g ?m st1] by auto
  obtain ms where "st2 = st1\<lparr>st_db := (st_db st1)\<lparr>repository_meta := ms\<rparr>\<rparr>"
    "map_of ms = (map_of (repository_meta (st_db st1)))(''generation_id'' \<mapsto> ?g, ''migration_id'' \<mapsto> ?m)"
    using set_identity_result[OF ne, of st1] b by auto
  then have "projection_identity (st_db st2) = Inr (?g, ?m)" by (intro new_identity[of _ "st_db st1"]) simp
  moreover have "projection_identity (st_db st3) = projection_identity (st_db st2)"
    using c by (intro projection_identity_meta) (auto simp: rebind_projections_def)
  moreover have "find (unbound_projection (st_redactor st3) ?g ?m) (projections (st_db st3)) = None"
    using v by (cases "find (unbound_projection (st_redactor st3) ?g ?m) (projections (st_db st3))")
      (simp_all add: validate_projection_bindings_def)
  ultimately show ?thesis by (simp add: st' find_None_iff)
qed

lemma bound_target_hides_versions:
  assumes v: "version_record_of X (st_db st) i = Inr (Some v)"
    and other: "(ms_target_generation_id spec, ms_migration_id spec) \<noteq> (ve_generation_id v, ve_migration_id v)"
    and run: "bind_target X armed st spec = (Inr (), st')"
  shows "version_record_of X (st_db st') i = Inl (Integrity ''version generation binding is invalid'')"
proof -
  let ?f = "\<lambda>d :: db. d\<lparr>repository_meta := [], projections := []\<rparr>"
  have "?f (st_db st') = ?f (st_db st)" using bind_target_rebound[of st X armed spec] run by (simp add: rebound_def)
  then have "versions (?f (st_db st')) = versions (?f (st_db st))" "snapshots (?f (st_db st')) = snapshots (?f (st_db st))"
    "operations (?f (st_db st')) = operations (?f (st_db st))" by simp_all
  with unreadable_under[OF v conjunct1[OF bind_target_identity[OF run]] other] show ?thesis by simp
qed

end
