(* ===== verification/Store_Calls.thy ===== *)
theory Store_Calls
  imports Task_Store Ref_Store Version_Life Lifecycle_Store Route_Store Rollback_Store Migration_Store
begin

text \<open>
  What the calls of every component do to the tables of the others: how a journal entry may
  change when the ledger, a version or a life-cycle operation writes it, and which calls have
  tables of their own that no invariant of the whole store depends on.
\<close>

section \<open>Journal entries and the operations they belong to\<close>

text \<open>The ledger has the operation of this request, and it has been finished.\<close>

definition finished :: "db \<Rightarrow> utf8 \<times> utf8 \<times> utf8 \<Rightarrow> bool" where
  "finished d key \<longleftrightarrow> list_ex (\<lambda>x. op_request_key x = key \<and> op_lifecycle_status x \<noteq> ''started'') (operations d)"

lemma list_ex_update: "(\<And>x. P (f x) \<longleftrightarrow> P x) \<Longrightarrow> list_ex P (update_where p f xs) \<longleftrightarrow> list_ex P xs"
  by (induction xs) (simp_all add: update_where_def)

text \<open>
  An entry keeps its identity and moves along the phases, unless its operation is finished
  meanwhile: that writes the phase of the outcome over any other.
\<close>

definition entry_follows :: "db \<Rightarrow> db \<Rightarrow> journal_operation \<Rightarrow> journal_operation \<Rightarrow> bool" where
  "entry_follows d d' x y \<longleftrightarrow> jo_key y = jo_key x \<and> jo_operation_id y = jo_operation_id x
     \<and> jo_created_at y = jo_created_at x
     \<and> (entry_step\<^sup>*\<^sup>* x y \<or> \<not> finished d (jo_key x) \<and> finished d' (jo_key x))"

definition journal_follows :: "db \<Rightarrow> db \<Rightarrow> bool" where
  "journal_follows d d' \<longleftrightarrow> (\<forall>key. finished d key \<longrightarrow> finished d' key)
     \<and> keeps_rows jo_key (entry_follows d d') (operation_journal d) (operation_journal d')"

lemma entry_follows_refl [simp]: "entry_follows d d' x x"
  by (simp add: entry_follows_def)

lemma journal_follows_refl: "journal_follows d d"
  by (simp add: journal_follows_def keeps_rows_refl)

lemma finished_same: "operations d' = operations d \<Longrightarrow> finished d' = finished d"
  by (rule ext) (simp add: finished_def)

lemma journal_follows_same:
  "operations d' = operations d \<Longrightarrow> operation_journal d' = operation_journal d \<Longrightarrow> journal_follows d d'"
  by (simp add: journal_follows_def keeps_rows_refl finished_same[of d' d])

lemma journal_follows_trans:
  assumes "journal_follows a b" "journal_follows b c"
  shows "journal_follows a c"
proof -
  have fin: "finished b k \<longrightarrow> finished c k" "finished a k \<longrightarrow> finished b k" for k
    using assms unfolding journal_follows_def by blast+
  have "entry_follows a c x z" if "entry_follows a b x y" "entry_follows b c y z" for x y z
    using that fin[of "jo_key x"] rtranclp_trans[of entry_step x y z]
    by (auto simp: entry_follows_def)
  then show ?thesis using assms fin unfolding journal_follows_def keeps_rows_def by meson
qed

text \<open>Appended rows, and the one write that finishes an operation.\<close>

lemma journal_follows_append:
  assumes "operations d' = operations d @ xs" "operation_journal d' = operation_journal d @ js"
  shows "journal_follows d d'"
  using assms by (simp add: journal_follows_def finished_def keeps_rows_append)

lemma journal_follows_finish:
  assumes uq: "unique_by op_request_key (operations d)"
    and x: "row_by op_operation_id i (operations d) = Some x" "op_lifecycle_status x = ''started''"
    and ops: "operations d' = update_where (\<lambda>y. op_operation_id y = i \<and> op_lifecycle_status y = ''started'') f (operations d)"
    and f: "op_request_key (f x) = op_request_key x" "op_lifecycle_status (f x) \<noteq> ''started''"
    and js: "operation_journal d' = update_where (\<lambda>y. jo_key y = op_request_key x) (set_outcome p j) (operation_journal d)"
  shows "journal_follows d d'"
proof -
  let ?k = "op_request_key x"
  have xin: "x \<in> set (operations d)" "op_operation_id x = i" using row_by_SomeD[OF x(1)] by simp_all
  have "op_lifecycle_status y = ''started''" if "y \<in> set (operations d)" "op_request_key y = ?k" for y
  proof -
    have "row_by op_request_key ?k (operations d) = Some y"
      using row_by_unique[OF uq that(1)] unfolding that(2) .
    then have "y = x" unfolding row_by_unique[OF uq xin(1)] by (rule option.inject[THEN iffD1, symmetric])
    with x(2) show ?thesis by simp
  qed
  then have open1: "\<not> finished d ?k" unfolding finished_def list_ex_iff by blast
  have "f x \<in> set (operations d')" using xin x(2) by (auto simp: ops update_where_in)
  with f have closed: "finished d' ?k" by (auto simp: finished_def list_ex_iff)
  have "y \<in> set (operations d')" if "y \<in> set (operations d)" "op_lifecycle_status y \<noteq> ''started''" for y
    using that unfolding ops update_where_in by (intro bexI[of _ y]) simp_all
  then have "finished d k \<longrightarrow> finished d' k" for k unfolding finished_def list_ex_iff by blast
  moreover have "keeps_rows jo_key (entry_follows d d') (operation_journal d) (operation_journal d')"
    unfolding js
    by (rule keeps_rows_update)
      (use open1 closed in \<open>simp_all add: entry_follows_def set_outcome_def jo_key_def\<close>)
  ultimately show ?thesis by (simp add: journal_follows_def)
qed

lemma journal_follows_journal:
  assumes "journal_step X st st'" "journal_ok (st_redactor st) (st_db st)"
  shows "journal_follows (st_db st) (st_db st')"
proof -
  obtain js where "st_db st' = (st_db st)\<lparr>operation_journal := js\<rparr>"
    using journal_step_frame[OF assms] by (elim exE)
  then have fin: "finished (st_db st') = finished (st_db st)" by (intro finished_same) simp
  have "\<exists>y. row_by jo_key i (operation_journal (st_db st')) = Some y \<and> entry_follows (st_db st) (st_db st') x y"
    if x: "row_by jo_key i (operation_journal (st_db st)) = Some x" for i x
  proof -
    have key: "jo_key x = i" by (rule row_by_key[OF x])
    with x have "has_entry x (st_db st)" by (auto simp: has_entry_def)
    then have "has_entry x (st_db st')" using journal_step_keeps[OF assms, of x] by simp
    then obtain y where y: "row_by jo_key i (operation_journal (st_db st')) = Some y" "entry_step\<^sup>*\<^sup>* x y"
      by (auto simp only: has_entry_def key)
    with entry_steps_facts[OF y(2)] show ?thesis by (intro exI[of _ y]) (simp add: entry_follows_def)
  qed
  then show ?thesis by (simp add: journal_follows_def fin keeps_rows_def)
qed

lemma finish_internal_follows:
  assumes ok: "ledger_ok (st_redactor st) (st_db st)"
  shows "journal_follows (st_db st) (st_db (snd (finish_operation_internal X st q)))"
proof -
  let ?r = "st_redactor st" and ?d = "st_db st"
  have uq: "unique_by op_request_key (operations ?d)" using ok by (simp add: ledger_ok_def)
  have "journal_follows ?d (st_db (snd (run_tx st (finish_operation_tx X ?r c current ?d)
      BeforeOperationFinishCommit AfterOperationFinishCommit)))"
    if prep: "finish_operation_prep X ?r ?d q = Inr c"
      and cur: "row_by op_operation_id (fq_operation_id c) (operations ?d) = Some current" for c current
  proof (rule run_tx_invariant)
    fix d k assume tx: "finish_operation_tx X ?r c current ?d = Inr (Commit d k)"
    note valid = conjunct1[OF finish_prep_valid[OF prep]]
    note com = finish_operation_commit[OF ok valid tx]
    then obtain js where js: "operation_journal d = update_where (\<lambda>y. jo_key y = op_request_key current)
        (set_outcome (journal_phase_of (oo_status (fq_outcome c))) js) (operation_journal ?d)" by (elim conjE exE)
    have "oo_status (fq_outcome c) \<noteq> ''started''"
      using valid by (auto simp: validate_operation_outcome_def outcome_statuses_def split: if_splits sum.splits)
    then show "journal_follows ?d d"
      by (intro journal_follows_finish[OF uq cur _ _ _ _ js, where f = "finish_row (fq_outcome c)"])
        (use com in simp_all)
  qed (rule journal_follows_refl)
  moreover have "journal_follows ?d d'" if "finish_replay X c current ?d = Inr (y, d')" for c current y d'
    using finish_replay_commit[OF ok that] by (intro journal_follows_same) simp_all
  ultimately show ?thesis
    by (cases "finish_operation_prep X ?r ?d q")
      (auto simp: finish_operation_internal_def Let_def journal_follows_refl split: option.splits sum.splits prod.splits)
qed

lemma ledger_step_follows:
  assumes "ledger_step X st st'" "ledger_ok (st_redactor st) (st_db st)"
  shows "journal_follows (st_db st) (st_db st')"
  using assms(1)
proof (cases rule: ledger_step.cases)
  case (start fp e)
  have "journal_follows (st_db st) (st_db (snd (start_operation X (with_failpoint fp st) e)))"
    unfolding start_operation_def
  proof (rule run_op_keeps)
    fix c d k assume "start_operation_tx X (st_redactor (with_failpoint fp st)) c (st_db (with_failpoint fp st)) = Inr (Commit d k)"
    from start_operation_commit[OF _ this] assms(2) obtain js where
      "operations d = operations (st_db st) @ [started_row (st_redactor st) (os_envelope c) (os_digest c)]"
      "operation_journal d = operation_journal (st_db st) @ js" by auto
    then show "journal_follows (st_db st) d" by (rule journal_follows_append)
  qed (simp add: journal_follows_refl)
  with start show ?thesis by simp
next
  case (finish fp q)
  with finish_internal_follows[of "with_failpoint fp st" X q] assms(2) show ?thesis by simp
next
  case (recording fp u)
  have "journal_follows (st_db st) d" if prep: "recording_prep r q = Inr c"
    and tx: "recording_tx X (st_redactor st) c (st_db st) = Inr (Commit d k)" for r q c d k
  proof -
    obtain i s v where c: "c = (i, s, v)" by (cases c)
    note com = recording_commit[OF assms(2) conjunct1[OF recording_prep_facts[OF prep[unfolded c]]] tx[unfolded c]]
    then have ops: "operations d = update_where (\<lambda>y. op_operation_id y = i)
        (\<lambda>y. y\<lparr>op_recording_status := s, op_updated_at := v\<rparr>) (operations (st_db st))"
      and js: "operation_journal d = operation_journal (st_db st)" by blast+
    have "finished d key \<longleftrightarrow> finished (st_db st) key" for key
      unfolding finished_def ops by (rule list_ex_update) (simp add: op_request_key_def)
    then show ?thesis unfolding journal_follows_def js by (simp only: keeps_rows_refl[OF entry_follows_refl]) simp
  qed
  then have "journal_follows (st_db st) (st_db (snd (set_operation_recording_status X (with_failpoint fp st) u)))"
    unfolding set_operation_recording_status_def
    by (intro run_op_keeps[where I = "journal_follows (st_db st)"])
      (simp_all only: with_failpoint_simps journal_follows_refl)
  with recording show ?thesis by simp
next
  case journal
  with assms(2) show ?thesis by (intro journal_follows_journal) (simp_all add: ledger_ok_def)
qed

text \<open>A version that completes its operation, and a life-cycle operation.\<close>

lemma creation_follows:
  assumes ok: "ledger_ok r d" and w: "creation_write X c d = Inr d'"
    and x: "row_by op_operation_id (op_operation_id (cp_operation c)) (operations d) = Some (cp_operation c)"
  shows "journal_follows d d' \<and> executions d' = executions d"
proof -
  let ?x = "cp_operation c" and ?d1 = "d\<lparr>versions := versions d @ [cp_version c]\<rparr>"
  from w have ins: "insert_version (cp_version c) d = Inr ?d1"
    by (auto simp: creation_write_def insert_version_result)
  have ok1: "ledger_ok r ?d1" using ok by (simp add: ledger_ok_def events_ok_def journal_ok_def)
  have uq: "unique_by op_request_key (operations d)" using ok by (simp add: ledger_ok_def)
  show ?thesis
  proof (cases "op_lifecycle_status ?x = ''started''")
    case True
    with w ins have cc: "complete_creation X c ?d1 = Inr d'" by (simp add: creation_write_def)
    from complete_creation_log[OF ok1 cc] obtain js where
      js: "operation_journal d' = update_where (\<lambda>y. jo_key y = op_request_key ?x)
        (set_outcome ''outcome_durable'' js) (operation_journal d)" and ex: "executions d' = executions d" by auto
    have "journal_follows d d'"
      by (rule journal_follows_finish[OF uq x True _ _ _ js, where f = "complete_row c"])
        (use complete_creation_result[OF ok1 cc] in simp_all)
    with ex show ?thesis by simp
  next
    case False
    with w ins have "d' = ?d1" by (auto simp: creation_write_def split: if_splits)
    then show ?thesis using journal_follows_same[of d' d] by simp
  qed
qed

lemma lifecycle_follows:
  assumes ok: "ledger_ok r d" and ws: "unique_by ws_workspace_id (workspaces d)"
    and prep: "lifecycle_prep X r q = Inr c" and tx: "lifecycle_tx X r c d = Inr (Commit d' k)"
  shows "journal_follows d d'"
proof -
  let ?e = "os_envelope (lq_start c)" and ?row = "intent_row (os_envelope (lq_start c)) (os_envelope_json (lq_start c))"
  let ?k = "(ov_project_id ?e, ov_agent_id ?e, ov_request_id ?e)"
  obtain n js where ops: "operations d' = operations d @ [completed_operation r c n]"
    and jr: "operation_journal d' = update_where (\<lambda>y. jo_key y = ?k) (set_outcome ''outcome_durable'' js)
        (operation_journal d @ [?row])"
    and ok': "ledger_ok r d'" using lifecycle_written[OF ok ws prep tx] by metis
  have "unique_by jo_key (operation_journal d @ [?row])"
    using ok' jr by (simp add: ledger_ok_def journal_ok_def unique_by_update set_outcome_def jo_key_def)
  note uq = this
  have new: "jo_key y \<noteq> ?k" if "y \<in> set (operation_journal d)" for y
  proof
    assume "jo_key y = ?k"
    moreover have "jo_key ?row = ?k" by (simp add: intent_row_def jo_key_def)
    ultimately have "jo_key ?row \<in> jo_key ` set (operation_journal d)" using that by force
    with uq show False by (simp add: unique_by_def)
  qed
  have "row_by jo_key i (operation_journal d') = Some y" if "row_by jo_key i (operation_journal d) = Some y" for i y
    using that new[OF row_by_in[OF that]] by (auto simp: jr row_by_update row_by_append set_outcome_def jo_key_def)
  then have "keeps_rows jo_key (entry_follows d d') (operation_journal d) (operation_journal d')"
    by (simp add: keeps_rows_def)
  moreover have "finished d key \<longrightarrow> finished d' key" for key by (simp add: finished_def ops)
  ultimately show ?thesis by (simp add: journal_follows_def)
qed

section \<open>Calls with tables of their own\<close>

text \<open>What a call that is not about versions leaves alone.\<close>

definition history_frame :: "db \<Rightarrow> db \<Rightarrow> bool" where
  "history_frame d d' \<longleftrightarrow> operations d' = operations d \<and> operation_journal d' = operation_journal d
     \<and> events d' = events d \<and> event_envelopes d' = event_envelopes d \<and> snapshots d' = snapshots d
     \<and> versions d' = versions d \<and> repository_meta d' = repository_meta d \<and> executions_kept d d'
     \<and> (\<forall>i p. workspace_project d i = Some p \<longrightarrow> workspace_project d' i = Some p)"

lemma executions_kept_refl [simp]: "executions d' = executions d \<Longrightarrow> executions_kept d d'"
  by (simp add: keeps_rows_refl)

definition side_tables :: "db \<Rightarrow> db \<Rightarrow> bool" where
  "side_tables d d' \<longleftrightarrow> history_frame d d' \<and> workspaces d' = workspaces d
     \<and> environments d' = environments d \<and> workspace_leases d' = workspace_leases d"

text \<open>The tables these calls write.\<close>

lemma side_tables_simps [simp]:
  "side_tables d d" "side_tables d (d'\<lparr>refs := rs\<rparr>) = side_tables d d'"
  "side_tables d (d'\<lparr>idempotency := ks\<rparr>) = side_tables d d'"
  "side_tables d (d'\<lparr>agent_identities := xs\<rparr>) = side_tables d d'"
  "side_tables d (d'\<lparr>tasks := ts\<rparr>) = side_tables d d'"
  "side_tables d (d'\<lparr>explorations := es\<rparr>) = side_tables d d'"
  "side_tables d (d'\<lparr>routes := ros\<rparr>) = side_tables d d'"
  "side_tables d (d'\<lparr>route_executions := res\<rparr>) = side_tables d d'"
  "side_tables d (d'\<lparr>execution_operations := eos\<rparr>) = side_tables d d'"
  "side_tables d (d'\<lparr>handoffs := hs\<rparr>) = side_tables d d'"
  "side_tables d (d'\<lparr>checkpoints := cs\<rparr>) = side_tables d d'"
  "side_tables d (d'\<lparr>rollback_records := bs\<rparr>) = side_tables d d'"
  "side_tables d (d'\<lparr>resume_attempts := ras\<rparr>) = side_tables d d'"
  "side_tables d (d'\<lparr>projections := ps\<rparr>) = side_tables d d'"
  "side_tables d (d'\<lparr>projection_events := pes\<rparr>) = side_tables d d'"
  by (simp_all add: side_tables_def history_frame_def workspace_project_def keeps_rows_refl)

lemma side_tables_executions [simp]:
  "side_tables d (d\<lparr>executions := xs\<rparr>) \<longleftrightarrow> keeps_rows ex_execution_id execution_evolves (executions d) xs"
  by (simp add: side_tables_def history_frame_def workspace_project_def)

lemma side_commits:
  "compare_and_swap_ref_tx X r s d = Inr (Commit d' k1) \<Longrightarrow> side_tables d d'"
  "record_idempotency_tx X r i d = Inr (Commit d' k2) \<Longrightarrow> side_tables d d'"
  "create_agent_identity_tx r a d = Inr (Commit d' k3) \<Longrightarrow> side_tables d d'"
  "create_task_tx r t d = Inr (Commit d' k4) \<Longrightarrow> side_tables d d'"
  "update_task_state_tx r u d = Inr (Commit d' k5) \<Longrightarrow> side_tables d d'"
  "create_exploration_tx r xp d = Inr (Commit d' k6) \<Longrightarrow> side_tables d d'"
  "create_route_tx r ro d = Inr (Commit d' k7) \<Longrightarrow> side_tables d d'"
  "update_route_status_tx r us d = Inr (Commit d' k8) \<Longrightarrow> side_tables d d'"
  "attach_execution_tx r ra d = Inr (Commit d' k9) \<Longrightarrow> side_tables d d'"
  "create_projection_tx X r p d = Inr (Commit d' k10) \<Longrightarrow> side_tables d d'"
  by (auto simp: compare_and_swap_ref_tx_def record_idempotency_tx_def create_agent_identity_tx_def
      create_task_tx_def update_task_state_tx_def create_exploration_tx_def create_route_tx_def
      update_route_status_tx_def attach_execution_tx_def create_projection_tx_def Let_def
      split: if_splits option.splits sum.splits prod.splits)

lemma relation_commits:
  "create_handoff_tx r h d = Inr (Commit d' k1) \<Longrightarrow> side_tables d d'"
  "create_checkpoint_tx r c d = Inr (Commit d' k2) \<Longrightarrow> side_tables d d'"
  "create_rollback_tx X status r b d = Inr (Commit d' k3) \<Longrightarrow> side_tables d d'"
  "complete_published_tx r z d = Inr (Commit d' k4) \<Longrightarrow> side_tables d d'"
  "attach_operation_tx X r eo d = Inr (Commit d' k5) \<Longrightarrow> side_tables d d'"
proof -
  show "create_handoff_tx r h d = Inr (Commit d' k1) \<Longrightarrow> side_tables d d'"
    by (erule create_handoff_commit) simp
  show "create_checkpoint_tx r c d = Inr (Commit d' k2) \<Longrightarrow> side_tables d d'"
    by (erule create_checkpoint_commit) simp
  show "create_rollback_tx X status r b d = Inr (Commit d' k3) \<Longrightarrow> side_tables d d'"
    by (erule create_rollback_commit) simp
  show "complete_published_tx r z d = Inr (Commit d' k4) \<Longrightarrow> side_tables d d'"
    by (erule complete_published_commit) simp
  show "attach_operation_tx X r eo d = Inr (Commit d' k5) \<Longrightarrow> side_tables d d'"
    by (drule attach_operation_commit, elim conjE) simp
qed

lemma execution_commits:
  "create_execution_tx X r c d = Inr (Commit d' k1) \<Longrightarrow> side_tables d d'"
  "transition_execution_tx X r q d = Inr (Commit d' k2) \<Longrightarrow> side_tables d d'"
  "resume_tx X r sk d = Inr (Commit d' k3) \<Longrightarrow> side_tables d d'"
proof -
  show "create_execution_tx X r c d = Inr (Commit d' k1) \<Longrightarrow> side_tables d d'"
    by (erule create_execution_commit) (simp add: keeps_rows_append)
  show "side_tables d d'" if tx: "transition_execution_tx X r q d = Inr (Commit d' k2)"
  proof -
    have kept: "executions_kept d d'" using transition_step[OF tx] by (simp add: executions_step_def)
    obtain xs ts where "d' = d\<lparr>executions := xs, tasks := ts\<rparr>" by (rule transition_commit[OF tx])
    with kept show ?thesis by simp
  qed
  show "side_tables d d'" if tx: "resume_tx X r sk d = Inr (Commit d' k3)"
    using tx
  proof (rule resume_commit)
    fix i p v d1 assume "insert_resumed X d (resumed_execution (kq_request (snd sk)) (fst sk) v) p = Inr d1"
      and d': "d' = d1\<lparr>resume_attempts := resume_attempts d
        @ [resume_row (kq_request (snd sk)) (fst sk) (kq_digest (snd sk)) i]\<rparr>"
    from insert_resumed_cases[OF this(1)] have "side_tables d d1"
      by (elim disjE conjE) (simp_all add: keeps_rows_append)
    then show ?thesis by (simp add: d')
  qed
qed

subsection \<open>Projections\<close>

text \<open>What a call on projections leaves of the store; failpoints may fire at any point of it.\<close>

definition side_kept :: "metadata_store \<Rightarrow> metadata_store \<Rightarrow> bool" where
  "side_kept st st' \<longleftrightarrow> st_redactor st' = st_redactor st \<and> side_tables (st_db st) (st_db st')"

lemma side_pass:
  assumes "side_kept st0 st" "\<And>st'. side_kept st0 st' \<Longrightarrow> side_kept st0 (snd (k st'))"
  shows "side_kept st0 (snd (pass (inject_projection st p) k))"
    and "side_kept st0 (snd (pass (inject st s g) k))"
  using assms inject_projection_frame[of st p] inject_frame[of st s g]
  by (cases "inject_projection st p"; cases "inject st s g"; auto simp: side_kept_def pass_def split: sum.split)+

lemma side_attempt:
  assumes "side_kept st0 st" "\<And>x. side_kept st0 (snd (k x))"
  shows "side_kept st0 (snd (attempt st y k))"
  using assms by (simp add: attempt_def split: sum.split)

lemma apply_event_side: "side_kept st0 st \<Longrightarrow> side_kept st0 (snd (apply_event hs i u e p st))"
  unfolding apply_event_def Let_def
  by (intro side_pass side_attempt) (auto split: option.split intro!: side_pass side_attempt)

lemma apply_events_side: "side_kept st0 st \<Longrightarrow> side_kept st0 (snd (apply_events hs i u es p st))"
proof (induction es arbitrary: p st)
  case (Cons e es)
  from apply_event_side[OF Cons.prems, of hs i u e p] Cons.IH show ?case
    by (cases "apply_event hs i u e p st") (auto split: sum.split)
qed simp

lemma commit_progress_side: "side_kept st0 st \<Longrightarrow> side_kept st0 (snd (commit_progress X i u p st))"
  unfolding commit_progress_def Let_def inject_before_commit_def inject_after_commit_def
  by (intro side_attempt side_pass) (simp_all add: side_kept_def publish_progress_def)

lemma apply_internal_side: "side_kept st (snd (apply_projection_internal X hs st i u rebuild))"
proof -
  have "side_kept st (snd (case apply_events hs i u es p st' of (Inl e, st) \<Rightarrow> (Inl e, st)
      | (Inr p, st) \<Rightarrow> commit_progress X i u p st))" if "side_kept st st'" for es p st'
    using apply_events_side[OF that, of hs i u es p] commit_progress_side
    by (cases "apply_events hs i u es p st'") (auto split: sum.split)
  then show ?thesis unfolding apply_projection_internal_def Let_def
    by (intro side_pass side_attempt) (auto simp: side_kept_def[of st st] split: prod.split intro!: side_pass)
qed

subsection \<open>The calls together\<close>

inductive side_step :: "externals \<Rightarrow> metadata_store \<Rightarrow> metadata_store \<Rightarrow> bool" for X where
  swap: "side_step X st (snd (compare_and_swap_ref X (with_failpoint fp st) s))"
| key: "side_step X st (snd (record_idempotency X (with_failpoint fp st) k))"
| agent: "side_step X st (snd (create_agent_identity (with_failpoint fp st) a))"
| task: "side_step X st (snd (create_task (with_failpoint fp st) t))"
| task_state: "side_step X st (snd (update_task_state (with_failpoint fp st) u))"
| execution: "side_step X st (snd (create_execution X (with_failpoint fp st) c))"
| transition: "side_step X st (snd (transition_execution_internal X (with_failpoint fp st) x))"
| owner: "side_step X st (snd (attach_operation_to_execution X (with_failpoint fp st) eo))"
| exploration: "side_step X st (snd (create_exploration (with_failpoint fp st) xp))"
| route: "side_step X st (snd (create_route (with_failpoint fp st) ro))"
| route_status: "side_step X st (snd (update_route_status (with_failpoint fp st) us))"
| attachment: "side_step X st (snd (attach_execution_to_route (with_failpoint fp st) ra))"
| handoff: "side_step X st (snd (create_handoff X (with_failpoint fp st) h))"
| checkpoint: "side_step X st (snd (create_checkpoint X (with_failpoint fp st) cc))"
| resume_version: "side_step X st (snd (resume_from_version X (with_failpoint fp st) sc))"
| resume_checkpoint: "side_step X st (snd (resume_from_checkpoint X (with_failpoint fp st) sc))"
| rollback: "side_step X st (snd (create_rollback X (with_failpoint fp st) rc))"
| rollback_prepared: "side_step X st (snd (prepare_rollback X (with_failpoint fp st) rc))"
| rollback_published: "side_step X st (snd (complete_published_rollback (with_failpoint fp st) rz))"
| projection: "side_step X st (snd (create_projection X (arm fp pfp st) p))"
| projection_apply: "side_step X st (snd (apply_projection X hs (arm fp pfp st) i v))"
| projection_rebuild: "side_step X st (snd (rebuild_projection X hs (arm fp pfp st) i v))"
| projection_rebind: "side_step X st (snd (rebind_projections st g m))"

lemma side_run:
  assumes "\<And>r c d d' k. body r c d = Inr (Commit d' k) \<Longrightarrow> side_tables d d'"
  shows "side_kept st (snd (run_op b a prep body (with_failpoint fp st) q))"
proof -
  have "side_tables (st_db st) (st_db (snd (run_op b a prep body (with_failpoint fp st) q)))"
    by (rule run_op_keeps) (use assms in simp_all)
  then show ?thesis by (simp add: side_kept_def)
qed

lemmas side_operations = compare_and_swap_ref_def record_idempotency_def create_agent_identity_def
  create_task_def update_task_state_def create_execution_def transition_execution_internal_def
  attach_operation_to_execution_def create_exploration_def create_route_def update_route_status_def
  attach_execution_to_route_def create_handoff_def create_checkpoint_def resume_from_version_def
  resume_from_request_def create_rollback_def prepare_rollback_def create_rollback_with_status_def
  complete_published_rollback_def

lemma resume_checkpoint_side: "side_kept st (snd (resume_from_checkpoint X (with_failpoint fp st) q))"
proof -
  have "side_kept st (snd (resume_from_request X (with_failpoint fp st) q'))" for q'
    unfolding resume_from_request_def by (rule side_run, rule execution_commits(3))
  moreover have "side_kept st (with_failpoint fp st)" by (simp add: side_kept_def)
  ultimately show ?thesis by (simp add: resume_from_checkpoint_def split: option.split)
qed

lemma arm_side: "side_kept (arm fp pfp st) st' \<Longrightarrow> side_kept st st'"
  by (simp add: side_kept_def)

lemma create_projection_side: "side_kept st (snd (create_projection X (arm fp pfp st) p))"
proof (rule arm_side)
  have "side_tables (st_db (arm fp pfp st)) (st_db (snd (create_projection X (arm fp pfp st) p)))"
    unfolding create_projection_def by (rule run_op_keeps) (use side_commits(10) in simp_all)
  then show "side_kept (arm fp pfp st) (snd (create_projection X (arm fp pfp st) p))"
    by (simp add: side_kept_def) (simp add: create_projection_def)
qed

lemma side_step_kept: "side_step X st st' \<Longrightarrow> side_kept st st'"
proof (induction rule: side_step.induct)
  case (projection_apply st hs fp pfp i v)
  show ?case unfolding apply_projection_def by (rule arm_side, rule apply_internal_side)
next
  case (projection_rebuild st hs fp pfp i v)
  show ?case unfolding rebuild_projection_def by (rule arm_side, rule apply_internal_side)
next
  case (projection_rebind st g m)
  show ?case by (simp add: side_kept_def) (simp add: rebind_projections_def)
qed (unfold side_operations, (rule resume_checkpoint_side create_projection_side
  | (rule side_run, erule side_commits relation_commits execution_commits))+)

end
