(* ===== verification/Store_History.thy ===== *)
theory Store_History
  imports Store_Calls
begin

text \<open>
  The metadata store as a whole: any interleaving of the calls of its components, each with a
  failpoint that may be armed before it. One invariant holds in every store reached from an
  empty one; it makes every version readable with its ancestry for ever, and says what reading
  the selected version of a workspace can return.
\<close>

section \<open>Steps\<close>

text \<open>
  Every call of the metadata store that writes, with any failpoint armed before it. Two steps
  ask for more than the call does, as its only caller in the repository does. A rollback is
  completed with the version it targets as the new head, a stored version of that workspace
  (\<open>rollback_local\<close> in \<open>src/src/workspace.rs\<close>, which treats a foreign version in another way). The
  generation identity is set while no version is stored, or to what it already is: with another
  one every stored version becomes unreadable (\<open>migrated_version_unreadable\<close>).
\<close>

definition rollback_to_own :: "db \<Rightarrow> rollback_completion \<Rightarrow> bool" where
  "rollback_to_own d q \<longleftrightarrow> rz_result_version_head q = Some (rz_target_version_id q)
     \<and> map_option ve_workspace_id (row_by ve_version_id (rz_target_version_id q) (versions d))
         = Some (rz_workspace_id q)"

definition rebindable :: "db \<Rightarrow> utf8 \<Rightarrow> utf8 \<Rightarrow> bool" where
  "rebindable d g m \<longleftrightarrow> versions d = [] \<or> stored_identity d = (g, m)"

inductive store_step :: "externals \<Rightarrow> metadata_store \<Rightarrow> metadata_store \<Rightarrow> bool" for X where
  workspace: "workspace_step X st st' \<Longrightarrow> store_step X st st'"
| event: "event_step X st st' \<Longrightarrow> store_step X st st'"
| ledger: "ledger_step X st st' \<Longrightarrow> store_step X st st'"
| lifecycle: "store_step X st (snd (apply_workspace_lifecycle_operation X (with_failpoint fp st) q))"
| publish: "store_step X st (snd (publish_snapshot X (with_failpoint fp st) p))"
| create: "store_step X st (snd (create_version X (with_failpoint fp st) v))"
| select: "store_step X st (snd (set_version_head X (with_failpoint fp st) q))"
| adopt: "store_step X st (snd (set_execution_current_version X (with_failpoint fp st) v))"
| rollback: "rollback_to_own (st_db st) z \<Longrightarrow> store_step X st (snd (complete_rollback (with_failpoint fp st) z))"
| side: "side_step X st st' \<Longrightarrow> store_step X st st'"
| format: "store_step X st (snd (set_repository_format st f))"
| identity: "rebindable (st_db st) g m \<Longrightarrow> store_step X st (snd (set_generation_identity st g m))"

section \<open>The invariant\<close>

definition store_ok :: "externals \<Rightarrow> redactor \<Rightarrow> db \<Rightarrow> bool" where
  "store_ok X r d \<longleftrightarrow> ledger_ok r d \<and> publishing_ok r d \<and> versions_ok X d \<and> heads_ok d"

lemma store_ok_empty:
  assumes "safe_policy r"
  shows "store_ok X r (empty_db r)"
proof -
  have "projection_identity (empty_db r) = Inr (stored_identity (empty_db r))"
    by (simp add: projection_identity_def stored_identity_def generation_identity_def meta_value_def empty_db_def)
  then have "versions_ok X (empty_db r)" by (simp add: versions_ok_def) (simp add: empty_db_def unique_by_def)
  with ledger_ok_empty[OF assms] publishing_ok_empty[OF assms] show ?thesis
    by (simp add: store_ok_def) (simp add: heads_ok_def empty_db_def)
qed

text \<open>A selection that was there before, in a workspace of the same project.\<close>

definition heads_from :: "workspace_record list \<Rightarrow> workspace_record list \<Rightarrow> bool" where
  "heads_from ws ws' \<longleftrightarrow> (\<forall>w' \<in> set ws'. ws_version_head_id w' = None
     \<or> (\<exists>w \<in> set ws. ws_workspace_id w = ws_workspace_id w' \<and> ws_project_id w = ws_project_id w'
          \<and> ws_version_head_id w = ws_version_head_id w'))"

lemma heads_from_refl [simp]: "heads_from ws ws"
  by (auto simp: heads_from_def)

lemma heads_from_update:
  assumes "\<And>w. ws_workspace_id (f w) = ws_workspace_id w" "\<And>w. ws_project_id (f w) = ws_project_id w"
    and "\<And>w. ws_version_head_id (f w) = ws_version_head_id w"
  shows "heads_from ws (update_where p f ws)"
  unfolding heads_from_def
proof
  fix x assume "x \<in> set (update_where p f ws)"
  then obtain w where "w \<in> set ws" "x = (if p w then f w else w)" by (auto simp: update_where_in)
  with assms show "ws_version_head_id x = None \<or> (\<exists>w \<in> set ws. ws_workspace_id w = ws_workspace_id x
      \<and> ws_project_id w = ws_project_id x \<and> ws_version_head_id w = ws_version_head_id x)"
    by (cases "p w") auto
qed

lemma heads_ok_from:
  assumes "heads_ok d" "heads_from (workspaces d) (workspaces d')"
    and "prefix (versions d) (versions d')"
  shows "heads_ok d'"
  unfolding heads_ok_def
proof (intro ballI allI impI)
  fix w' i assume w': "w' \<in> set (workspaces d')" "ws_version_head_id w' = Some i"
  with assms(2) obtain w where w: "w \<in> set (workspaces d)" "ws_workspace_id w = ws_workspace_id w'"
    "ws_project_id w = ws_project_id w'" "ws_version_head_id w = Some i" by (auto simp: heads_from_def)
  with assms(1) obtain v where "row_by ve_version_id i (versions d) = Some v"
    "ve_workspace_id v = ws_workspace_id w'" "ve_project_id v = ws_project_id w'"
    unfolding heads_ok_def by metis
  with assms(3) show "\<exists>v. row_by ve_version_id i (versions d') = Some v
      \<and> ve_workspace_id v = ws_workspace_id w' \<and> ve_project_id v = ws_project_id w'"
    by (auto simp: prefix_def row_by_append)
qed

lemma store_ok_frame:
  assumes ok: "store_ok X r d" and fr: "history_frame d d'" and ws: "workspaces_ok r d'" and hd: "heads_ok d'"
  shows "store_ok X r d' \<and> versions d' = versions d"
proof -
  note f = fr[unfolded history_frame_def]
  have "ledger_ok r d'" using ok f by (simp add: store_ok_def ledger_ok_def events_ok_def journal_ok_def)
  moreover have "snapshots_ok d'"
    by (rule snapshots_ok_grows[of d]) (use ok f in \<open>simp_all add: grows_def store_ok_def publishing_ok_def\<close>)
  then have "publishing_ok r d'" using ok f ws by (simp add: publishing_ok_def store_ok_def events_ok_def)
  moreover have "versions_ok X d'"
    by (rule versions_ok_kept[OF history_kept_same[of d' d]]) (use ok f in \<open>simp_all add: store_ok_def\<close>)
  ultimately show ?thesis using f hd by (simp add: store_ok_def)
qed

section \<open>Each step keeps it\<close>

text \<open>
  Every call keeps the redactor and the invariant, only adds versions, and lets executions and
  journal entries only live on.
\<close>

definition step_keeps :: "externals \<Rightarrow> metadata_store \<Rightarrow> metadata_store \<Rightarrow> bool" where
  "step_keeps X st st' \<longleftrightarrow> st_redactor st' = st_redactor st \<and> store_ok X (st_redactor st) (st_db st')
     \<and> prefix (versions (st_db st)) (versions (st_db st'))
     \<and> executions_kept (st_db st) (st_db st') \<and> journal_follows (st_db st) (st_db st')"

lemma step_keeps_trans:
  assumes "step_keeps X a b" "step_keeps X b c"
  shows "step_keeps X a c"
proof -
  have "executions_kept (st_db a) (st_db b)" "executions_kept (st_db b) (st_db c)"
    using assms by (simp_all add: step_keeps_def)
  then have "executions_kept (st_db a) (st_db c)"
    by (rule keeps_rows_trans[rotated]) (rule execution_evolves_trans)
  moreover have "journal_follows (st_db a) (st_db c)"
    by (rule journal_follows_trans[of _ "st_db b"]) (use assms in \<open>simp_all add: step_keeps_def\<close>)
  moreover have "prefix (versions (st_db a)) (versions (st_db c))"
    by (rule prefix_order.trans[of _ "versions (st_db b)"]) (use assms in \<open>simp_all add: step_keeps_def\<close>)
  ultimately show ?thesis using assms by (simp add: step_keeps_def)
qed

lemma step_keeps_frame:
  assumes ok: "store_ok X (st_redactor st) (st_db st)" and red: "st_redactor st' = st_redactor st"
    and fr: "history_frame (st_db st) (st_db st')"
    and ws: "workspaces_ok (st_redactor st) (st_db st')" "heads_ok (st_db st')"
  shows "step_keeps X st st'"
  using store_ok_frame[OF ok fr ws] red fr
  by (simp add: step_keeps_def history_frame_def journal_follows_same)

lemma workspace_project_updated:
  assumes "workspaces d' = update_where p f (workspaces d)"
    and "\<And>w. ws_workspace_id (f w) = ws_workspace_id w" "\<And>w. ws_project_id (f w) = ws_project_id w"
  shows "workspace_project d' i = workspace_project d i"
  using assms by (simp add: workspace_project_def row_by_update split: option.split)

lemma workspace_step_frame:
  assumes "workspace_step X st st'" "workspaces_ok (st_redactor st) (st_db st)"
  shows "history_frame (st_db st) (st_db st') \<and> heads_from (workspaces (st_db st)) (workspaces (st_db st'))"
proof -
  let ?d = "st_db st" and ?r = "st_redactor st"
  let ?I = "\<lambda>d. history_frame ?d d \<and> heads_from (workspaces ?d) (workspaces d)"
  have same: "?I (?d\<lparr>environments := es\<rparr>)" "?I (?d\<lparr>workspace_leases := ls\<rparr>)" "?I ?d" for es ls
    by (simp_all add: history_frame_def workspace_project_def)
  from assms(1) show ?thesis
  proof (cases rule: workspace_step.cases)
    case (create fp w)
    have "?I d" if "create_workspace_tx ?r c ?d = Inr (Commit d k)" "create_workspace_prep ?r w = Inr c" for c d k
    proof -
      have "ws_version_head_id c = None"
        using that(2) by (auto simp: create_workspace_prep_def redact_workspace_def split: if_splits)
      with create_workspace_commit[OF that(1)] show ?thesis
        by (auto simp: history_frame_def heads_from_def workspace_project_def row_by_append)
    qed
    then have "?I (st_db (snd (create_workspace (with_failpoint fp st) w)))"
      unfolding create_workspace_def by (intro run_op_keeps[where I = ?I]) (simp_all only: with_failpoint_simps same)
    with create show ?thesis by simp
  next
    case (update fp u)
    have "?I d" if "update_workspace_tx ?r c ?d = Inr (Commit d k)" for c d k
    proof -
      let ?p = "at_revision (wu_workspace_id c) (wu_expected_revision c)"
      from update_workspace_commit[OF that] have d: "d = ?d\<lparr>workspaces :=
          update_where ?p (apply_workspace_update c) (workspaces ?d)\<rparr>" by (elim conjE)
      have "workspace_project d i = workspace_project ?d i" for i
        by (rule workspace_project_updated[of d ?p "apply_workspace_update c"]) (simp_all add: d)
      moreover have "heads_from (workspaces ?d) (update_where ?p (apply_workspace_update c) (workspaces ?d))"
        by (rule heads_from_update) (simp_all, simp add: apply_workspace_update_def)
      ultimately show ?thesis by (simp add: history_frame_def) (simp add: d)
    qed
    then have "?I (st_db (snd (update_workspace (with_failpoint fp st) u)))"
      unfolding update_workspace_def by (intro run_op_keeps[where I = ?I]) (simp_all only: with_failpoint_simps same)
    with update show ?thesis by simp
  next
    case (acquire fp a)
    have "?I d" if "acquire_workspace_lease_tx ?r c ?d = Inr (Commit d k)" for c d k
      using that[unfolded acquire_commit] same(2) by (elim exE conjE) simp
    then have "?I (st_db (snd (acquire_workspace_lease (with_failpoint fp st) a)))"
      unfolding acquire_workspace_lease_def
      by (intro run_op_keeps[where I = ?I]) (simp_all only: with_failpoint_simps same)
    with acquire show ?thesis by simp
  next
    case (renew fp n)
    have "?I d" if "renew_workspace_lease_tx ?r c ?d = Inr (Commit d k)" for c d k
      using that same(2) by (cases c) (simp only: renew_commit)
    then have "?I (st_db (snd (renew_workspace_lease (with_failpoint fp st) n)))"
      unfolding renew_workspace_lease_def
      by (intro run_op_keeps[where I = ?I]) (simp_all only: with_failpoint_simps same)
    with renew show ?thesis by simp
  next
    case (release fp t)
    have "?I d" if "release_workspace_lease_tx ?r c ?d = Inr (Commit d k)" for c d k
      using that same(2) by (cases c) (simp only: release_commit)
    then have "?I (st_db (snd (release_workspace_lease (with_failpoint fp st) t)))"
      unfolding release_workspace_lease_def
      by (intro run_op_keeps[where I = ?I]) (simp_all only: with_failpoint_simps same)
    with release show ?thesis by simp
  next
    case (environment fp e)
    have "?I d" if "record_environment_tx ?r c ?d = Inr (Commit d k)" for c d k
      using that[unfolded record_environment_commit] same(1) by (elim conjE) (simp only:)
    then have "?I (st_db (snd (record_environment X (with_failpoint fp st) e)))"
      unfolding record_environment_def
      by (intro run_op_keeps[where I = ?I]) (simp_all only: with_failpoint_simps same)
    with environment show ?thesis by simp
  qed
qed

text \<open>References, keys, agents, tasks, executions, relations and projections have tables of their own.\<close>

lemma side_step_ok:
  assumes ok: "store_ok X (st_redactor st) (st_db st)" and step: "side_step X st st'"
  shows "step_keeps X st st'"
proof -
  note f = side_step_kept[OF step, unfolded side_kept_def side_tables_def]
  have "workspaces_ok (st_redactor st) (st_db st')"
    using ok f by (simp add: store_ok_def publishing_ok_def workspaces_ok_def leases_ok_def)
  moreover have "heads_ok (st_db st')"
    by (rule heads_ok_from[of "st_db st"]) (use ok f in \<open>simp_all add: store_ok_def history_frame_def\<close>)
  ultimately show ?thesis using f by (intro step_keeps_frame[OF ok]) simp_all
qed

text \<open>The event log and the ledger.\<close>

lemma event_step_ok:
  assumes ok: "store_ok X (st_redactor st) (st_db st)" and step: "event_step X st st'"
  shows "step_keeps X st st'"
proof -
  let ?d = "st_db st" and ?d' = "st_db st'"
  have "events_ok ?d" using ok by (simp add: store_ok_def publishing_ok_def)
  note ev = event_step_keeps[OF step this]
  then have ev': "events_ok ?d'" and lo: "log_only ?d ?d'" and red: "st_redactor st' = st_redactor st" by simp_all
  note tb = log_only_tables[OF lo]
  have "ledger_ok (st_redactor st) ?d'" by (rule ledger_ok_log[OF _ lo ev']) (use ok in \<open>simp add: store_ok_def\<close>)
  moreover have "grows ?d ?d'" using log_only_prefix[OF lo] by (simp add: grows_def workspace_project_def tb)
  then have "snapshots_ok ?d'"
    by (rule snapshots_ok_grows) (use ok in \<open>simp_all add: tb store_ok_def publishing_ok_def\<close>)
  then have "publishing_ok (st_redactor st) ?d'"
    using ok ev' by (simp add: publishing_ok_def store_ok_def workspaces_ok_def leases_ok_def tb)
  moreover have "versions_ok X ?d'"
    by (rule versions_ok_kept[OF history_kept_same[OF tb(7,6,1)] tb(8)]) (use ok in \<open>simp add: store_ok_def\<close>)
  moreover have "heads_ok ?d'" using ok by (simp add: store_ok_def heads_ok_def tb)
  moreover have "journal_follows ?d ?d'" by (rule journal_follows_same) (simp_all add: tb)
  ultimately show ?thesis using red by (simp add: step_keeps_def store_ok_def tb)
qed

lemma ledger_step_ok:
  assumes ok: "store_ok X (st_redactor st) (st_db st)" and step: "ledger_step X st st'"
  shows "step_keeps X st st'"
proof -
  let ?d = "st_db st" and ?d' = "st_db st'"
  have lok: "ledger_ok (st_redactor st) ?d" using ok by (simp add: store_ok_def)
  note keeps = ledger_step_keeps[OF step lok] and fr = ledger_step_frame[OF step lok, unfolded ledger_frame_def]
  have lok': "ledger_ok (st_redactor st) ?d'" and red: "st_redactor st' = st_redactor st"
    using keeps by simp_all
  have hk: "history_kept ?d ?d'" unfolding history_kept_def
  proof (intro conjI allI impI)
    fix i x assume x: "row_by op_operation_id i (operations ?d) = Some x"
    then have i: "op_operation_id x = i" by (rule row_by_key)
    with x have "has_op x ?d" by (simp add: has_op_def)
    with keeps[of x] i show "\<exists>y. row_by op_operation_id i (operations ?d') = Some y \<and> op_evolves x y"
      by (simp add: has_op_def)
  qed (use fr in simp_all)
  have "grows ?d ?d'" using fr by (simp add: grows_def workspace_project_def)
  then have "snapshots_ok ?d'"
    by (rule snapshots_ok_grows) (use ok fr in \<open>simp_all add: store_ok_def publishing_ok_def\<close>)
  then have "publishing_ok (st_redactor st) ?d'"
    using ok lok' fr by (simp add: publishing_ok_def store_ok_def workspaces_ok_def leases_ok_def ledger_ok_def)
  moreover have "versions_ok X ?d'"
    by (rule versions_ok_kept[OF hk]) (use ok fr in \<open>simp_all add: store_ok_def\<close>)
  moreover have "heads_ok ?d'" using ok fr by (simp add: store_ok_def heads_ok_def)
  ultimately show ?thesis using red fr lok' ledger_step_follows[OF step lok]
    by (simp add: step_keeps_def store_ok_def)
qed

lemma lifecycle_commit_ok:
  assumes ok: "store_ok X r d" and prep: "lifecycle_prep X r q = Inr c"
    and tx: "lifecycle_tx X r c d = Inr (Commit d' k)"
  shows "store_ok X r d' \<and> versions d' = versions d \<and> executions d' = executions d \<and> journal_follows d d'"
proof -
  let ?p = "\<lambda>x. ws_workspace_id x = lq_workspace_id c"
  have l: "ledger_ok r d" and inv: "lifecycle_inv r d" and uq: "unique_by ws_workspace_id (workspaces d)"
    using ok by (simp_all add: store_ok_def publishing_ok_def lifecycle_inv_def workspaces_ok_def)
  from l uq prep tx obtain n where
    rows: "workspaces d' = update_where ?p (moved_workspace c) (workspaces d)"
    and ops: "operations d' = operations d @ [completed_operation r c n]"
    and fr: "ledger_frame (d\<lparr>workspaces := workspaces d'\<rparr>) d'" by (rule lifecycle_written)
  note f = fr[unfolded ledger_frame_def]
  have l': "ledger_ok r d'" and w': "workspaces_ok r d'"
    using lifecycle_keeps[OF inv prep tx] by (simp_all add: lifecycle_inv_def)
  have same: "workspace_project d' i = workspace_project d i" for i
    by (rule workspace_project_updated[OF rows]) simp_all
  then have "grows d d'" using f by (simp add: grows_def)
  then have "snapshots_ok d'"
    by (rule snapshots_ok_grows) (use ok f in \<open>simp_all add: store_ok_def publishing_ok_def\<close>)
  then have "publishing_ok r d'" using w' l' by (simp add: publishing_ok_def ledger_ok_def)
  moreover have "history_kept d d'"
    using f by (auto simp: history_kept_def ops row_by_append)
  then have "versions_ok X d'" by (rule versions_ok_kept) (use ok f in \<open>simp_all add: store_ok_def\<close>)
  moreover have "heads_from (workspaces d) (workspaces d')"
    unfolding rows by (rule heads_from_update) simp_all
  then have "heads_ok d'" by (rule heads_ok_from[rotated]) (use ok f in \<open>simp_all add: store_ok_def\<close>)
  ultimately show ?thesis using l' f lifecycle_follows[OF l uq prep tx] by (simp add: store_ok_def)
qed

lemma lifecycle_step_ok:
  assumes ok: "store_ok X (st_redactor st) (st_db st)"
  shows "step_keeps X st (snd (apply_workspace_lifecycle_operation X (with_failpoint fp st) q))"
proof -
  let ?I = "\<lambda>d. store_ok X (st_redactor st) d \<and> versions d = versions (st_db st)
      \<and> executions d = executions (st_db st) \<and> journal_follows (st_db st) d"
  have "?I (st_db (snd (apply_workspace_lifecycle_operation X (with_failpoint fp st) q)))"
    unfolding apply_workspace_lifecycle_operation_def
  proof (rule run_op_keeps[where I = ?I])
    fix c d k
    assume "lifecycle_prep X (st_redactor (with_failpoint fp st)) q = Inr c"
      "lifecycle_tx X (st_redactor (with_failpoint fp st)) c (st_db (with_failpoint fp st)) = Inr (Commit d k)"
    then show "?I d" unfolding with_failpoint_simps by (rule lifecycle_commit_ok[OF ok])
  qed (use ok journal_follows_refl in simp)
  then show ?thesis by (simp add: step_keeps_def) (simp add: apply_workspace_lifecycle_operation_def)
qed

text \<open>Snapshots and versions.\<close>

lemma step_keeps_refl: "store_ok X (st_redactor st) (st_db st) \<Longrightarrow> st_redactor st' = st_redactor st \<Longrightarrow>
    st_db st' = st_db st \<Longrightarrow> step_keeps X st st'"
  by (simp add: step_keeps_def journal_follows_refl)

lemma publish_step_ok:
  assumes ok: "store_ok X (st_redactor st) (st_db st)" and run: "publish_snapshot X st p = (out, st')"
  shows "step_keeps X st st'"
proof (cases "st_db st' = st_db st")
  case True
  have "publish_shape X st p (out, st')" using publish_snapshot_shape[of X st p] run by simp
  then show ?thesis using ok True by (intro step_keeps_refl) (simp_all add: publish_shape_def)
next
  case False
  let ?r = "st_redactor st" and ?d = "st_db st" and ?d' = "st_db st'"
  have "publish_shape X st p (out, st')" using publish_snapshot_shape[of X st p] run by simp
  with False have red: "st_redactor st' = ?r" and "\<exists>i. publication_checks ?r ?d p = Inr (Inl i)
      \<and> publication_write X ?r p i ?d = Inr ?d'" by (simp_all add: publish_shape_def)
  then obtain i where checks: "publication_checks ?r ?d p = Inr (Inl i)"
    and w: "publication_write X ?r p i ?d = Inr ?d'" by (elim exE conjE)
  have ev: "events_ok ?d" and pok: "publishing_ok ?r ?d" using ok by (simp_all add: store_ok_def publishing_ok_def)
  from publication_write_result[OF ev w]
  obtain xs ys where d': "?d' = ?d\<lparr>snapshots := snapshots ?d @ [snapshot_row ?r i p],
      events := events ?d @ xs, event_envelopes := event_envelopes ?d @ ys,
      workspaces := moved_workspaces p (workspaces ?d)\<rparr>" by (elim exE conjE)
  have tb: "operations ?d' = operations ?d" "operation_journal ?d' = operation_journal ?d"
    "versions ?d' = versions ?d" "repository_meta ?d' = repository_meta ?d"
    "workspaces ?d' = moved_workspaces p (workspaces ?d)"
    "snapshots ?d' = snapshots ?d @ [snapshot_row ?r i p]" "executions ?d' = executions ?d" by (subst d', simp)+
  note pub = publication_keeps[OF pok checks w]
  have "ledger_ok ?r ?d'" using ok pub by (simp add: store_ok_def ledger_ok_def journal_ok_def publishing_ok_def tb)
  moreover have "history_kept ?d ?d'" by (simp add: history_kept_def tb)
  then have "versions_ok X ?d'" by (rule versions_ok_kept[OF _ tb(3)]) (use ok in \<open>simp add: store_ok_def\<close>)
  moreover have "heads_from (workspaces ?d) (workspaces ?d')"
    unfolding tb(5) moved_workspaces_def by (rule heads_from_update) simp_all
  then have "heads_ok ?d'" by (rule heads_ok_from[rotated]) (use ok in \<open>simp_all add: store_ok_def tb\<close>)
  moreover have "journal_follows ?d ?d'" by (rule journal_follows_same) (simp_all add: tb)
  ultimately show ?thesis using pub red by (simp add: step_keeps_def store_ok_def tb)
qed

lemma create_step_ok:
  assumes ok: "store_ok X (st_redactor st) (st_db st)" and run: "create_version X st p = (out, st')"
  shows "step_keeps X st st'"
proof -
  have l: "ledger_ok (st_redactor st) (st_db st)" and v: "versions_ok X (st_db st)"
    using ok by (simp_all add: store_ok_def)
  have "create_shape X st p (out, st')" using create_version_shape[of X st p] run by simp
  then have red: "st_redactor st' = st_redactor st" by (simp add: create_shape_def)
  show ?thesis using run l v
  proof (cases rule: create_version_cases)
    case same
    with ok red show ?thesis by (intro step_keeps_refl)
  next
    case (written c)
    let ?r = "st_redactor st" and ?d = "st_db st" and ?d' = "st_db st'"
    note ch = creation_checks_new(2)[OF written(1), unfolded creation_operation_result]
    have "op_operation_id (cp_operation c) = vp_creation_operation_id p" by (rule row_by_key[OF ch[THEN conjunct1]])
    then have row: "row_by op_operation_id (op_operation_id (cp_operation c)) (operations ?d) = Some (cp_operation c)"
      using ch[THEN conjunct1] by simp
    have tb: "prefix (event_envelopes ?d) (event_envelopes ?d')" "workspaces ?d' = workspaces ?d"
      "environments ?d' = environments ?d" "workspace_leases ?d' = workspace_leases ?d"
      "snapshots ?d' = snapshots ?d"
      using creation_write_tables[OF l written(2) row] by simp_all
    have "grows ?d ?d'" using tb by (simp add: grows_def workspace_project_def)
    then have "snapshots_ok ?d'"
      by (rule snapshots_ok_grows) (use ok tb in \<open>simp_all add: store_ok_def publishing_ok_def\<close>)
    then have "publishing_ok ?r ?d'"
      using ok written(4) tb by (simp add: publishing_ok_def store_ok_def workspaces_ok_def leases_ok_def ledger_ok_def)
    moreover have "heads_ok ?d'"
      by (rule heads_ok_from[of ?d]) (use ok tb written(3) in \<open>simp_all add: store_ok_def\<close>)
    ultimately show ?thesis using red written(3,4,5) creation_follows[OF l written(2) row]
      by (simp add: step_keeps_def store_ok_def)
  qed
qed

text \<open>Writes to one workspace row, with whatever else the call writes.\<close>

lemma workspaces_ok_written:
  assumes ok: "workspaces_ok r d" and ws: "workspaces d' = update_where p f (workspaces d)"
    and fr: "environments d' = environments d" "workspace_leases d' = workspace_leases d"
    and f: "\<And>w. ws_workspace_id (f w) = ws_workspace_id w" "\<And>w. ws_project_id (f w) = ws_project_id w"
      "\<And>w. ws_environment_id (f w) = ws_environment_id w" "\<And>w. workspace_ready_ok w \<Longrightarrow> workspace_ready_ok (f w)"
  shows "workspaces_ok r d'"
proof -
  have "\<forall>x \<in> set (update_where p f (workspaces d)). workspace_ready_ok x \<and> workspace_env_ok (environments d) x"
    by (rule update_where_all) (use ok f in \<open>simp_all add: workspaces_ok_def workspace_env_ok_def\<close>)
  moreover have "row_by ws_workspace_id i (workspaces d') \<noteq> None"
    if "row_by ws_workspace_id i (workspaces d) \<noteq> None" for i
    using that by (cases "row_by ws_workspace_id i (workspaces d)") (simp_all add: ws row_by_update f)
  then have "leases_ok d'"
    by (rule leases_ok_more[of d, rotated 2]) (use ok fr in \<open>simp_all add: workspaces_ok_def\<close>)
  ultimately show ?thesis
    using ok fr f by (simp add: workspaces_ok_def) (simp add: ws unique_by_update)
qed

lemma select_step_ok:
  assumes ok: "store_ok X (st_redactor st) (st_db st)"
  shows "step_keeps X st (snd (set_version_head X (with_failpoint fp st) q))"
proof -
  let ?d = "st_db st" and ?st' = "snd (set_version_head X (with_failpoint fp st) q)"
  let ?I = "\<lambda>d. history_frame ?d d \<and> workspaces_ok (st_redactor st) d \<and> heads_ok d"
  have I0: "?I ?d" using ok by (simp add: history_frame_def store_ok_def publishing_ok_def)
  have "?I d" if body: "set_version_head_tx X (st_redactor st) c ?d = Inr (Commit d k)" for c d k
  proof -
    let ?p = "at_revision (hq_workspace_id c) (hq_expected_revision c)"
      and ?f = "select_version (hq_version_id c) (hq_updated_at c)"
    obtain w where d: "d = ?d\<lparr>workspaces := update_where ?p ?f (workspaces ?d)\<rparr>"
      by (rule set_head_commit[OF body])
    have "workspace_project d i = workspace_project ?d i" for i
      by (rule workspace_project_updated[of d ?p ?f]) (simp_all add: d)
    then have "history_frame ?d d" by (simp add: history_frame_def) (simp add: d)
    moreover have "workspaces_ok (st_redactor st) d \<and> heads_ok d"
      using set_head_keeps[OF _ _ body] I0 by simp
    ultimately show ?thesis by simp
  qed
  then have "?I (st_db ?st')"
    unfolding set_version_head_def by (intro run_op_keeps[where I = ?I]) (simp_all only: I0 with_failpoint_simps)
  then show ?thesis by (intro step_keeps_frame[OF ok]) (simp_all, simp add: set_version_head_def)
qed

lemma adopt_step_ok:
  assumes ok: "store_ok X (st_redactor st) (st_db st)"
  shows "step_keeps X st (snd (set_execution_current_version X (with_failpoint fp st) q))"
proof -
  let ?d = "st_db st" and ?r = "st_redactor st"
  let ?st' = "snd (set_execution_current_version X (with_failpoint fp st) q)"
  let ?I = "\<lambda>d. history_frame ?d d \<and> workspaces_ok ?r d \<and> heads_ok d"
  have I0: "?I ?d" using ok by (simp add: history_frame_def store_ok_def publishing_ok_def)
  have "?I d" if body: "current_version_tx X ?r c ?d = Inr (Commit d k)" for c d k
  proof -
    have kept: "executions_kept ?d d" using current_version_step[OF body] by (simp add: executions_step_def)
    obtain w xs where d: "d = ?d\<lparr>workspaces := update_where (at_revision w (vq_expected_workspace_revision c))
        (touch_workspace (vq_updated_at c)) (workspaces ?d), executions := xs\<rparr>"
      by (rule current_version_commit[OF body])
    let ?p = "at_revision w (vq_expected_workspace_revision c)" and ?f = "touch_workspace (vq_updated_at c)"
    have same: "workspace_project d i = workspace_project ?d i" for i
      by (rule workspace_project_updated[of d ?p ?f]) (simp_all add: d touch_workspace_def)
    have "workspaces_ok ?r d"
      by (rule workspaces_ok_written[of ?r ?d d ?p ?f])
        (use I0 in \<open>simp_all add: d touch_workspace_def workspace_ready_ok_def\<close>)
    moreover have "heads_from (workspaces ?d) (update_where ?p ?f (workspaces ?d))"
      by (rule heads_from_update) (simp_all add: touch_workspace_def)
    then have "heads_ok d" by (intro heads_ok_from[of ?d d]) (use I0 in \<open>simp_all add: d\<close>)
    ultimately show ?thesis using kept same by (simp add: history_frame_def) (simp add: d)
  qed
  then have "?I (st_db ?st')"
    unfolding set_execution_current_version_def
    by (intro run_op_keeps[where I = ?I]) (simp_all only: I0 with_failpoint_simps)
  then show ?thesis by (intro step_keeps_frame[OF ok]) (simp_all, simp add: set_execution_current_version_def)
qed

text \<open>The version a completed rollback selects is of the project of its workspace.\<close>

lemma stored_version_project:
  assumes ok: "store_ok X r d" and v: "row_by ve_version_id i (versions d) = Some v"
    and w: "row_by ws_workspace_id (ve_workspace_id v) (workspaces d) = Some w"
  shows "ve_project_id v = ws_project_id w"
proof -
  have "version_good X d v" using ok row_by_in[OF v] by (simp add: store_ok_def versions_ok_def)
  then obtain s x where s: "row_by sn_snapshot_id (ve_snapshot_id v) (snapshots d) = Some s"
    and valid: "validate_version_row X v s x (stored_identity d) = Inr ()" by (auto simp: version_good_def)
  from valid have "sn_workspace_id s = ve_workspace_id v" "sn_project_id s = ve_project_id v"
    by (auto simp: validate_version_row_def split: sum.splits if_splits)
  moreover have "snapshot_backed d s"
    using ok row_by_in[OF s] by (simp add: store_ok_def publishing_ok_def snapshots_ok_def)
  ultimately show ?thesis using w by (simp add: snapshot_backed_def workspace_project_def)
qed

lemma rollback_step_ok:
  assumes ok: "store_ok X (st_redactor st) (st_db st)" and own: "rollback_to_own (st_db st) q"
  shows "step_keeps X st (snd (complete_rollback (with_failpoint fp st) q))"
proof -
  let ?d = "st_db st" and ?r = "st_redactor st" and ?st' = "snd (complete_rollback (with_failpoint fp st) q)"
  let ?p = "at_revision (rz_workspace_id q) (rz_expected_revision q)" and ?f = "completed_workspace q"
  let ?I = "\<lambda>d. history_frame ?d d \<and> workspaces_ok ?r d \<and> heads_ok d"
  have I0: "?I ?d" using ok by (simp add: history_frame_def store_ok_def publishing_ok_def)
  obtain v where v: "row_by ve_version_id (rz_target_version_id q) (versions ?d) = Some v"
    "ve_workspace_id v = rz_workspace_id q" "rz_result_version_head q = Some (rz_target_version_id q)"
    using own by (auto simp: rollback_to_own_def)
  have "?I d" if prep: "complete_rollback_prep ?r q = Inr c"
    and body: "complete_rollback_tx ?r c ?d = Inr (Commit d k)" for c d k
  proof -
    have c: "c = q" using prep by (auto simp: complete_rollback_prep_def completion_lease_def split: if_splits sum.splits)
    obtain bs where d: "d = ?d\<lparr>workspaces := update_where ?p ?f (workspaces ?d), rollback_records := bs\<rparr>"
      using body unfolding c by (rule complete_rollback_commit)
    have same: "workspace_project d i = workspace_project ?d i" for i
      by (rule workspace_project_updated[of d ?p ?f]) (simp_all add: d completed_workspace_def)
    have "workspaces_ok ?r d"
      by (rule workspaces_ok_written[of ?r ?d d ?p ?f])
        (use I0 in \<open>simp_all add: d completed_workspace_def workspace_ready_ok_def\<close>)
    moreover have "heads_ok d" unfolding heads_ok_def
    proof (intro ballI allI impI)
      fix x i assume x: "x \<in> set (workspaces d)" and i: "ws_version_head_id x = Some i"
      from x obtain y where y: "y \<in> set (workspaces ?d)" "x = (if ?p y then ?f y else y)"
        by (auto simp: d update_where_in)
      have vs: "versions d = versions ?d" by (simp add: d)
      have "unique_by ws_workspace_id (workspaces ?d)" using I0 by (simp add: workspaces_ok_def)
      from row_by_unique[OF this y(1)] have row: "row_by ws_workspace_id (ws_workspace_id y) (workspaces ?d) = Some y" .
      show "\<exists>v. row_by ve_version_id i (versions d) = Some v \<and> ve_workspace_id v = ws_workspace_id x
          \<and> ve_project_id v = ws_project_id x"
      proof (cases "?p y")
        case True
        with v y i row stored_version_project[OF ok v(1), of y] show ?thesis
          by (auto simp: vs completed_workspace_def at_revision_def)
      next
        case False
        with y i I0 show ?thesis by (simp add: heads_ok_def vs)
      qed
    qed
    ultimately show ?thesis using same by (simp add: history_frame_def) (simp add: d)
  qed
  then have "?I (st_db ?st')"
    unfolding complete_rollback_def
    by (intro run_op_keeps[where I = ?I]) (simp_all only: I0 with_failpoint_simps)
  then show ?thesis by (intro step_keeps_frame[OF ok]) (simp_all, simp add: complete_rollback_def)
qed

text \<open>The format and the generation identity.\<close>

lemma store_ok_meta:
  assumes ok: "store_ok X r d" and v: "versions_ok X (d\<lparr>repository_meta := ms\<rparr>)"
  shows "store_ok X r (d\<lparr>repository_meta := ms\<rparr>)"
proof -
  let ?d = "d\<lparr>repository_meta := ms\<rparr>"
  have "snapshots_ok ?d"
    by (rule snapshots_ok_grows[of d])
      (use ok in \<open>simp_all add: grows_def workspace_project_def store_ok_def publishing_ok_def\<close>)
  with ok v show ?thesis
    by (simp add: store_ok_def ledger_ok_def publishing_ok_def workspaces_ok_def leases_ok_def
        heads_ok_def events_ok_def journal_ok_def)
qed

lemma versions_ok_meta:
  assumes ok: "versions_ok X d" and id: "projection_identity (d\<lparr>repository_meta := ms\<rparr>) = Inr i"
    and same: "versions d = [] \<or> stored_identity d = i"
  shows "versions_ok X (d\<lparr>repository_meta := ms\<rparr>)"
proof -
  have i: "stored_identity (d\<lparr>repository_meta := ms\<rparr>) = i" by (rule projection_identity_stored[OF id])
  have "version_good X (d\<lparr>repository_meta := ms\<rparr>) v" if "v \<in> set (versions d)" for v
    using ok that same by (auto simp: versions_ok_def version_good_def i)
  with ok id i show ?thesis by (simp add: versions_ok_def)
qed

lemma format_step_ok:
  assumes ok: "store_ok X (st_redactor st) (st_db st)"
  shows "step_keeps X st (snd (set_repository_format st f))"
proof -
  let ?d = "st_db st"
  obtain ms where d: "st_db (snd (set_repository_format st f)) = ?d\<lparr>repository_meta := ms\<rparr>"
    and ms: "key \<noteq> ''repository_format'' \<longrightarrow> map_of ms key = map_of (repository_meta ?d) key" for key
    using set_format_result[of st f] by metis
  have v: "versions_ok X ?d" using ok by (simp add: store_ok_def)
  have "projection_identity (?d\<lparr>repository_meta := ms\<rparr>) = projection_identity ?d"
    by (simp add: projection_identity_def generation_identity_def meta_value_def ms)
  with v have "versions_ok X (?d\<lparr>repository_meta := ms\<rparr>)"
    by (intro versions_ok_meta[where i = "stored_identity ?d"]) (simp_all add: versions_ok_def)
  from store_ok_meta[OF ok this] show ?thesis
    using journal_follows_same[of "?d\<lparr>repository_meta := ms\<rparr>" ?d] by (simp add: step_keeps_def d)
qed

lemma identity_step_ok:
  assumes ok: "store_ok X (st_redactor st) (st_db st)" and guard: "rebindable (st_db st) g m"
  shows "step_keeps X st (snd (set_generation_identity st g m))"
proof (cases "g = [] \<or> m = []")
  case True
  with ok show ?thesis by (simp add: set_identity_rejects step_keeps_def journal_follows_refl)
next
  case False
  let ?d = "st_db st"
  obtain ms where run: "set_generation_identity st g m = (Inr (), st\<lparr>st_db := ?d\<lparr>repository_meta := ms\<rparr>\<rparr>)"
    and ms: "map_of ms = (map_of (repository_meta ?d))(''generation_id'' \<mapsto> g, ''migration_id'' \<mapsto> m)"
    using set_identity_result[of g m st] False by auto
  have "projection_identity (?d\<lparr>repository_meta := ms\<rparr>) = Inr (g, m)"
    by (rule new_identity[of _ ?d]) (simp add: ms)
  then have "versions_ok X (?d\<lparr>repository_meta := ms\<rparr>)"
    by (rule versions_ok_meta[rotated]) (use ok guard in \<open>simp_all add: store_ok_def rebindable_def\<close>)
  from store_ok_meta[OF ok this] show ?thesis
    using journal_follows_same[of "?d\<lparr>repository_meta := ms\<rparr>" ?d] by (simp add: step_keeps_def run)
qed

lemma store_step_ok:
  assumes "store_step X st st'" "store_ok X (st_redactor st) (st_db st)"
  shows "step_keeps X st st'"
  using assms(1)
proof (cases rule: store_step.cases)
  case workspace
  have w: "workspaces_ok (st_redactor st) (st_db st)" using assms(2) by (simp add: store_ok_def publishing_ok_def)
  note fr = workspace_step_frame[OF workspace w] and wok = workspace_step_ok[OF workspace w]
  have "heads_ok (st_db st')"
    by (rule heads_ok_from[of "st_db st"]) (use assms(2) fr in \<open>simp_all add: store_ok_def history_frame_def\<close>)
  with fr wok show ?thesis by (intro step_keeps_frame[OF assms(2)]) simp_all
next
  case event
  then show ?thesis by (rule event_step_ok[OF assms(2)])
next
  case ledger
  then show ?thesis by (rule ledger_step_ok[OF assms(2)])
next
  case (lifecycle fp q)
  with lifecycle_step_ok[OF assms(2)] show ?thesis by simp
next
  case (publish fp p)
  with publish_step_ok[of X "with_failpoint fp st" p] assms(2) show ?thesis
    by (cases "publish_snapshot X (with_failpoint fp st) p") (simp add: step_keeps_def)
next
  case (create fp v)
  with create_step_ok[of X "with_failpoint fp st" v] assms(2) show ?thesis
    by (cases "create_version X (with_failpoint fp st) v") (simp add: step_keeps_def)
next
  case (select fp q)
  with select_step_ok[OF assms(2)] show ?thesis by simp
next
  case (adopt fp v)
  with adopt_step_ok[OF assms(2)] show ?thesis by simp
next
  case (rollback z fp)
  with rollback_step_ok[OF assms(2)] show ?thesis by simp
next
  case side
  then show ?thesis by (rule side_step_ok[OF assms(2)])
next
  case (format f)
  with format_step_ok[OF assms(2)] show ?thesis by simp
next
  case (identity g m)
  with identity_step_ok[OF assms(2)] show ?thesis by simp
qed

lemma store_steps_ok:
  "(store_step X)\<^sup>*\<^sup>* st st' \<Longrightarrow> store_ok X (st_redactor st) (st_db st) \<Longrightarrow> step_keeps X st st'"
proof (induction rule: rtranclp_induct)
  case base
  then show ?case by (rule step_keeps_refl) simp_all
next
  case (step y z)
  then have y: "step_keeps X st y" by simp
  then have "store_ok X (st_redactor y) (st_db y)" by (simp add: step_keeps_def)
  from step_keeps_trans[OF y store_step_ok[OF step.hyps(2) this]] show ?case .
qed

section \<open>What every reachable store answers\<close>

text \<open>
  C1. One invariant of the whole store holds in every state reached from an empty one, whatever
  writing calls of the store are made, in any order and with any failpoint armed: the event
  log is dense, every operation is journaled, every ready workspace has its head, every
  snapshot its event, every version its snapshot, its completed operation and its parent, and
  every selected version exists in the project of its workspace. No call removes a version. Of
  two calls only the use the repository makes is among the steps: a rollback is completed to a
  stored version of its workspace, and the generation identity is changed only while no version
  is stored.
\<close>

theorem store_invariant:
  assumes "safe_policy r" "(store_step X)\<^sup>*\<^sup>* (open_store r) st" "(store_step X)\<^sup>*\<^sup>* st st'"
  shows "store_ok X r (st_db st') \<and> st_redactor st' = r
    \<and> prefix (versions (st_db st)) (versions (st_db st'))"
proof -
  have st: "store_ok X (st_redactor st) (st_db st)" "st_redactor st = r"
    using store_steps_ok[OF assms(2)] store_ok_empty[OF assms(1), of X] by (simp_all add: step_keeps_def)
  from store_steps_ok[OF assms(3) st(1)] st(2) show ?thesis by (simp add: step_keeps_def)
qed

lemma get_parent_read:
  assumes ok: "versions_ok X d" and v: "v \<in> set (versions d)"
  shows "get_parent X d (ve_version_id v) = Inr (Option.bind (ve_parent_version_id v)
      (\<lambda>g. row_by ve_version_id g (versions d)))"
    and "ve_parent_version_id v = Some g \<Longrightarrow>
      \<exists>u. row_by ve_version_id g (versions d) = Some u \<and> same_scope u v"
proof -
  have uq: "unique_by ve_version_id (versions d)" using ok by (simp add: versions_ok_def)
  have row: "row_by ve_version_id (ve_version_id u) (versions d) = Some u" if "u \<in> set (versions d)" for u
    by (rule row_by_unique[OF uq that])
  from v obtain as bs where vs: "versions d = as @ v # bs" by (auto simp: in_set_conv_decomp)
  have "rooted [] (versions d)" using ok by (simp add: versions_ok_def)
  with vs have pin: "parent_in as v" by (simp add: rooted_append)
  have par: "\<exists>u. row_by ve_version_id g (versions d) = Some u \<and> same_scope u v"
    if "ve_parent_version_id v = Some g" for g
  proof -
    from pin that obtain u where u: "u \<in> set as" "ve_version_id u = g" "same_scope u v"
      by (auto simp: parent_in_def)
    with row[of u] vs show ?thesis by auto
  qed
  then show "ve_parent_version_id v = Some g \<Longrightarrow>
      \<exists>u. row_by ve_version_id g (versions d) = Some u \<and> same_scope u v" by blast
  show "get_parent X d (ve_version_id v) = Inr (Option.bind (ve_parent_version_id v)
      (\<lambda>g. row_by ve_version_id g (versions d)))"
  proof (cases "ve_parent_version_id v")
    case (Some g)
    with par obtain u where u: "row_by ve_version_id g (versions d) = Some u" by blast
    with Some version_readable[OF ok row[OF v]] version_readable[OF ok u] show ?thesis
      by (simp add: get_parent_def)
  qed (simp add: get_parent_def version_readable[OF ok row[OF v]])
qed

lemma get_children_read:
  assumes ok: "versions_ok X d" and v: "v \<in> set (versions d)"
  shows "get_children X d (ve_version_id v) = Inr (order_rows ve_version_id
      (filter (\<lambda>u. ve_parent_version_id u = Some (ve_version_id v)) (versions d)))"
proof -
  have uq: "unique_by ve_version_id (versions d)" using ok by (simp add: versions_ok_def)
  then have "version_record_of X d (ve_version_id v) = Inr (Some v)"
    by (intro version_readable[OF ok]) (rule row_by_unique[OF _ v])
  then show ?thesis
    using parent_checks_succeed(1)[OF ok] by (simp add: get_children_def Let_def order_rows_def)
qed

text \<open>
  C4. A version that is once there can be read with its whole ancestry for ever, as long as the
  store is not bound to another generation identity: whatever writing calls of the store follow,
  in any order and under any faults, it is returned unchanged, its parent is a stored version of
  the same scope, and its children are exactly the versions that name it, each of which leads
  back to it. (Completed rollbacks are to a stored version of their workspace, as in C1. Binding
  the store to another identity makes every version unreadable: \<open>migrated_version_unreadable\<close>.)
\<close>

theorem versions_readable_forever:
  assumes "store_ok X (st_redactor st) (st_db st)" "v \<in> set (versions (st_db st))"
    and "(store_step X)\<^sup>*\<^sup>* st st'"
  shows "version_record_of X (st_db st') (ve_version_id v) = Inr (Some v)
    \<and> (case ve_parent_version_id v of
         None \<Rightarrow> get_parent X (st_db st') (ve_version_id v) = Inr None
       | Some g \<Rightarrow> \<exists>u. get_parent X (st_db st') (ve_version_id v) = Inr (Some u)
           \<and> ve_version_id u = g \<and> same_scope u v)
    \<and> (\<exists>cs. get_children X (st_db st') (ve_version_id v) = Inr cs
         \<and> set cs = {u \<in> set (versions (st_db st')). ve_parent_version_id u = Some (ve_version_id v)}
         \<and> list_all (\<lambda>u. get_parent X (st_db st') (ve_version_id u) = Inr (Some v)) cs)"
proof -
  let ?d = "st_db st'"
  from store_steps_ok[OF assms(3,1)] have ok: "versions_ok X ?d" and v: "v \<in> set (versions ?d)"
    using assms(2) by (auto simp: step_keeps_def store_ok_def prefix_def)
  have uq: "unique_by ve_version_id (versions ?d)" using ok by (simp add: versions_ok_def)
  note row = row_by_unique[OF uq v]
  let ?cs = "order_rows ve_version_id
      (filter (\<lambda>u. ve_parent_version_id u = Some (ve_version_id v)) (versions ?d))"
  have "get_parent X ?d (ve_version_id u) = Inr (Some v)" if "u \<in> set ?cs" for u
    using that get_parent_read(1)[OF ok, of u] row by (simp add: order_rows_def)
  then have cs: "list_all (\<lambda>u. get_parent X ?d (ve_version_id u) = Inr (Some v)) ?cs"
    by (simp add: list_all_iff)
  show ?thesis
  proof (intro conjI)
    show "version_record_of X ?d (ve_version_id v) = Inr (Some v)" by (rule version_readable[OF ok row])
    show "\<exists>cs. get_children X ?d (ve_version_id v) = Inr cs
         \<and> set cs = {u \<in> set (versions ?d). ve_parent_version_id u = Some (ve_version_id v)}
         \<and> list_all (\<lambda>u. get_parent X ?d (ve_version_id u) = Inr (Some v)) cs"
      using cs get_children_read[OF ok v] by (intro exI[of _ ?cs]) (simp add: order_rows_def)
    show "case ve_parent_version_id v of None \<Rightarrow> get_parent X ?d (ve_version_id v) = Inr None
       | Some g \<Rightarrow> \<exists>u. get_parent X ?d (ve_version_id v) = Inr (Some u)
           \<and> ve_version_id u = g \<and> same_scope u v"
      using get_parent_read[OF ok v] row_by_key by (auto split: option.split)
  qed
qed

text \<open>
  In every store where the invariant holds, reading the current version of a workspace gives exactly one of
  three answers: none, when none is selected; the selected version, of this workspace and its
  project; or the integrity error, precisely when the workspace has been moved to another
  environment since the selection. No other failure is possible.
\<close>

lemma current_version_outcomes:
  assumes "store_ok X r (st_db st)" "workspace_by r (st_db st) j = Some w"
  shows "case ws_version_head_id w of
      None \<Rightarrow> get_current_version X r (st_db st) j = Inr None
    | Some i \<Rightarrow> \<exists>v. row_by ve_version_id i (versions (st_db st)) = Some v
        \<and> ve_workspace_id v = ws_workspace_id w \<and> ve_project_id v = ws_project_id w
        \<and> get_current_version X r (st_db st) j =
            (if ve_environment_id v = ws_environment_id w then Inr (Some v)
             else Inl (Integrity ''workspace Version Head scope is inconsistent''))"
proof (cases "ws_version_head_id w")
  case (Some i)
  have ok: "versions_ok X (st_db st)" "heads_ok (st_db st)"
    using assms(1) by (simp_all add: store_ok_def)
  have "w \<in> set (workspaces (st_db st))" using assms(2) row_by_in unfolding workspace_by_def by fast
  with ok(2) Some obtain v where v: "row_by ve_version_id i (versions (st_db st)) = Some v"
    "ve_workspace_id v = ws_workspace_id w" "ve_project_id v = ws_project_id w"
    unfolding heads_ok_def by metis
  with Some assms(2) version_readable[OF ok(1) v(1)] show ?thesis
    by (simp add: get_current_version_def head_scope_def)
qed (simp add: get_current_version_def assms(2))

section \<open>The properties at a concrete store\<close>

text \<open>The sample creation, after the event of its snapshot: a store that has it all.\<close>

lemma sample_creation_written:
  obtains c d2 where "creation_checks sample_externals (st_db sample_creator) Version_Life.sample_creation = Inr (Inl c)"
    "cp_operation c = sample_creating" "versions_ok sample_externals d2" "versions d2 = [cp_version c]"
    "operations d2 = [complete_row c sample_creating]" "snapshots d2 = [sample_snapshot]"
    "repository_meta d2 = repository_meta (st_db sample_creator)"
proof -
  let ?X = sample_externals and ?d = "st_db sample_creator"
  obtain c where c: "creation_checks ?X ?d Version_Life.sample_creation = Inr (Inl c)" "cp_operation c = sample_creating"
    "ve_created_at (cp_version c) = ''d2''" using sample_creation_checked by (elim exE conjE)
  have par: "ve_parent_version_id (cp_version c) = None"
    using creation_checks_new(1)[OF c(1)] by (elim exE conjE) (metis version_row_simps(10) Version_Life.sample_creation_def
        version_publication.select_convs(7))
  let ?d1 = "?d\<lparr>versions := [cp_version c]\<rparr>"
  have ins: "insert_version (cp_version c) ?d = Inr ?d1" by (simp add: insert_version_def par)
  obtain d2 where cc: "complete_creation ?X c ?d1 = Inr d2" using sample_completion_runs[OF c(2,3)] by (elim exE)
  have w: "creation_write ?X c ?d = Inr d2" by (simp add: creation_write_def ins c(2) cc)
  have row: "row_by op_operation_id (op_operation_id (cp_operation c)) (operations ?d) = Some (cp_operation c)"
    by (simp add: c(2))
  note tb = creation_write_tables[OF sample_creator_ok(1) w row]
  have "ledger_ok default_redactor ?d1"
    using sample_creator_ok(1) by (simp add: ledger_ok_def events_ok_def journal_ok_def)
  from complete_creation_result[OF this cc] have "operations d2 = [complete_row c sample_creating]"
    by (simp add: c(2) update_where_def)
  with that[OF c(1,2)] creation_keeps[OF sample_creator_ok(1,2) c(1) w] tb show ?thesis
    by (simp add: history_kept_def)
qed

lemma sample_history:
  obtains st :: metadata_store and v where "store_ok sample_externals (st_redactor st) (st_db st)" "v \<in> set (versions (st_db st))"
    "st_redactor st = default_redactor" "workspaces (st_db st) = [sample_ready]"
proof -
  let ?X = sample_externals and ?i = "(''legacy-v0.1'', ''legacy'')"
  obtain c d2 where c: "creation_checks ?X (st_db sample_creator) Version_Life.sample_creation = Inr (Inl c)"
    "cp_operation c = sample_creating" and vok: "versions_ok ?X d2" and vs: "versions d2 = [cp_version c]"
    and ops: "operations d2 = [complete_row c sample_creating]" and sn: "snapshots d2 = [sample_snapshot]"
    and meta: "repository_meta d2 = repository_meta (st_db sample_creator)" by (rule sample_creation_written)
  let ?d0 = "(st_db sample_creator)\<lparr>operations := [complete_row c sample_creating],
     operation_journal := [sample_entry ''outcome_durable''], versions := [cp_version c]\<rparr>"
  have log: "events ?d0 = []" "event_envelopes ?d0 = []" by simp_all
  obtain row d' where ap: "append_event_envelope_tx ?X (snapshot_event ?i sample_publication) ?d0 = Inr (row, d')"
    and lo: "log_only ?d0 d'" by (rule first_envelope[OF log sample_publication_valid(2)])
  note tb = log_only_tables[OF lo, simplified]
  have e0: "events_ok ?d0" by (simp add: events_ok_def unique_by_def)
  note res = append_envelope_result[OF e0 ap]
  have "op_consistent (complete_row c sample_creating)"
    by (rule complete_row_consistent) (simp_all only: sample_creating_def started_row_consistent, simp)
  then have "ledger_ok default_redactor ?d0"
    by (simp add: ledger_ok_def journal_ok_def events_ok_def unique_by_def op_journaled_def)
      (simp add: sample_entry_def jo_key_def KNOWN_OUTCOME_PHASES_def)
  then have "ledger_ok default_redactor d'" by (rule ledger_ok_log[OF _ lo]) (use res in simp)
  moreover have "workspaces_ok default_redactor d'"
    using sample_creator_ok(3) by (simp add: workspaces_ok_def leases_ok_def tb)
  moreover have "snapshot_backed d' sample_snapshot"
  proof -
    have "row_by en_event_id (sp_event_id sample_publication) (event_envelopes d') = Some row"
      using res by (simp add: snapshot_event_def)
    moreover have "announces sample_snapshot row"
      using appended_envelope[OF e0 ap] by (simp add: announces_def snapshot_event_def sample_snapshot_def)
    ultimately show ?thesis
      by (simp add: snapshot_backed_def workspace_project_def tb)
        (simp add: sample_snapshot_def snapshot_row_def sample_publication_def sample_ready_def sample_workspace_def)
  qed
  then have "snapshots_ok d'" by (simp add: snapshots_ok_def tb unique_by_def)
  moreover have "versions_ok ?X d'"
    by (rule versions_ok_kept[OF history_kept_same[of d' d2] _ vok]) (simp_all add: tb vs ops sn meta)
  moreover have "heads_ok d'" by (simp add: heads_ok_def tb sample_ready_def sample_workspace_def)
  ultimately have "store_ok ?X default_redactor d'"
    using res by (simp add: store_ok_def publishing_ok_def)
  then show ?thesis
    by (intro that[of "sample_creator\<lparr>st_db := d'\<rparr>" "cp_version c"]) (simp_all add: tb)
qed

theorem store_invariant_witness:
  "store_ok sample_externals default_redactor (st_db sample_ready_store)"
proof -
  have "(store_step sample_externals)\<^sup>*\<^sup>* (open_store default_redactor) sample_ready_store"
    unfolding sample_ready_store_def
    by (rule rtranclp.rtrancl_into_rtrancl, rule r_into_rtranclp, rule store_step.workspace,
        rule workspace_step.environment) (rule store_step.workspace, rule workspace_step.create)
  from store_invariant[OF _ rtranclp.rtrancl_refl this] show ?thesis by simp
qed

theorem versions_readable_forever_witness:
  "\<exists>(st :: metadata_store) v. v \<in> set (versions (st_db st))
    \<and> version_record_of sample_externals (st_db (snd (create_version sample_externals (with_failpoint None st) Version_Life.sample_creation)))
        (ve_version_id v) = Inr (Some v)"
proof -
  obtain st :: metadata_store and v where ok: "store_ok sample_externals (st_redactor st) (st_db st)" "v \<in> set (versions (st_db st))"
    by (rule sample_history)
  have "(store_step sample_externals)\<^sup>*\<^sup>* st (snd (create_version sample_externals (with_failpoint None st) Version_Life.sample_creation))"
    by (rule r_into_rtranclp, rule store_step.create)
  from versions_readable_forever[OF ok this] ok(2) show ?thesis by blast
qed

lemma current_version_outcomes_witness:
  "\<exists>st :: metadata_store. versions (st_db st) \<noteq> []
    \<and> get_current_version sample_externals default_redactor (st_db st) ''w1'' = Inr None"
proof -
  obtain st :: metadata_store and v where ok: "store_ok sample_externals (st_redactor st) (st_db st)"
    and v: "v \<in> set (versions (st_db st))"
    and st: "st_redactor st = default_redactor" "workspaces (st_db st) = [sample_ready]" by (rule sample_history)
  have w: "workspace_by default_redactor (st_db st) ''w1'' = Some sample_ready"
    "ws_version_head_id sample_ready = None"
    by (simp_all add: workspace_by_def st sample_ready_def sample_workspace_def)
  from current_version_outcomes[OF ok[unfolded st] w(1)] w(2) v show ?thesis by (intro exI[of _ st]) auto
qed

end
