(* ===== verification/Store_Life.thy ===== *)
theory Store_Life
  imports Store_History
begin

text \<open>
  What becomes of single rows in a history of the whole store: of a journal entry, which the
  journal, the ledger, versions and life-cycle operations write, and of an execution, which
  resume attempts insert and adopted versions change.
\<close>

section \<open>Journal entries\<close>


section \<open>Executions\<close>

text \<open>
  C17. Whatever writing calls of the store are made, resume attempts and rollbacks included, in
  whatever order and with whatever faults, an execution is never lost and keeps its task, agent,
  project, parent, workspace, base version and the time of its creation; its state only moves
  along the allowed transitions and its revision never goes back. Once it is completed, failed,
  interrupted or unknown every column stays as it is, but for the version it has adopted and
  with it the revision and the time of the last update, which a terminal execution may still
  move. (Rollbacks and the generation identity as in C1.)
\<close>

theorem execution_life:
  assumes "(store_step X)\<^sup>*\<^sup>* st st'" "store_ok X (st_redactor st) (st_db st)"
    and "row_by ex_execution_id i (executions (st_db st)) = Some x"
  shows "\<exists>y. row_by ex_execution_id i (executions (st_db st')) = Some y
    \<and> (ex_execution_id y = ex_execution_id x \<and> ex_task_id y = ex_task_id x \<and> ex_agent_id y = ex_agent_id x
       \<and> ex_project_id y = ex_project_id x \<and> ex_parent_execution_id y = ex_parent_execution_id x
       \<and> ex_workspace_id y = ex_workspace_id x \<and> ex_base_version_id y = ex_base_version_id x
       \<and> ex_created_at y = ex_created_at x)
    \<and> execution_transition_allowed\<^sup>*\<^sup>* (ex_state x) (ex_state y) \<and> ex_revision x \<le> ex_revision y
    \<and> (execution_terminal (ex_state x) \<longrightarrow> y = x\<lparr>ex_current_version_id := ex_current_version_id y,
         ex_revision := ex_revision y, ex_updated_at := ex_updated_at y\<rparr>)"
proof -
  have "executions_kept (st_db st) (st_db st')"
    using store_steps_ok[OF assms(1,2)] by (simp add: step_keeps_def)
  with assms(3) obtain y where "row_by ex_execution_id i (executions (st_db st')) = Some y" "execution_evolves x y"
    unfolding keeps_rows_def by blast
  then show ?thesis unfolding execution_evolves_def by blast
qed

section \<open>At concrete stores\<close>



definition sample_worker :: metadata_store where
  "sample_worker = (open_store default_redactor)\<lparr>st_db := (empty_db default_redactor)
     \<lparr>executions := [sample_execution ''completed'']\<rparr>\<rparr>"

lemma sample_worker_ok: "store_ok sample_externals default_redactor (st_db sample_worker)"
proof -
  let ?e = "empty_db default_redactor"
  have "history_frame ?e (st_db sample_worker)"
    by (simp add: history_frame_def sample_worker_def workspace_project_def keeps_rows_def)
      (simp add: empty_db_def)
  moreover have "workspaces_ok default_redactor (st_db sample_worker)"
    using workspaces_ok_empty[OF default_policy_safe] by (simp add: workspaces_ok_def leases_ok_def sample_worker_def)
  moreover have "heads_ok (st_db sample_worker)"
    by (simp add: heads_ok_def sample_worker_def empty_db_def)
  ultimately show ?thesis
    using store_ok_frame[OF store_ok_empty[OF default_policy_safe]] by blast
qed

theorem execution_life_witness:
  "\<exists>y. row_by ex_execution_id ''o1'' (executions (st_db (snd (transition_execution_internal sample_externals
      (with_failpoint (Some AfterSqliteCommit) sample_worker)
      \<lparr>xq_execution_id = ''o1'', xq_next_state = ''running'', xq_outcome = None,
       xq_expected_revision = 0, xq_updated_at = ''d2'', xq_start_task = True\<rparr>)))) = Some y
    \<and> ex_state y = ''completed''"
proof -
  let ?q = "\<lparr>xq_execution_id = ''o1'', xq_next_state = ''running'', xq_outcome = None,
     xq_expected_revision = 0, xq_updated_at = ''d2'', xq_start_task = True\<rparr>"
  let ?st' = "snd (transition_execution_internal sample_externals (with_failpoint (Some AfterSqliteCommit) sample_worker) ?q)"
  have steps: "(store_step sample_externals)\<^sup>*\<^sup>* sample_worker ?st'"
    by (rule r_into_rtranclp, rule store_step.side, rule side_step.transition)
  have ok: "store_ok sample_externals (st_redactor sample_worker) (st_db sample_worker)"
    using sample_worker_ok by (simp add: sample_worker_def)
  have row: "row_by ex_execution_id ''o1'' (executions (st_db sample_worker)) = Some (sample_execution ''completed'')"
    by (simp add: sample_worker_def)
  obtain y where y: "row_by ex_execution_id ''o1'' (executions (st_db ?st')) = Some y"
    "execution_terminal (ex_state (sample_execution ''completed'')) \<longrightarrow> y = (sample_execution ''completed'')
       \<lparr>ex_current_version_id := ex_current_version_id y, ex_revision := ex_revision y, ex_updated_at := ex_updated_at y\<rparr>"
    using execution_life[OF steps ok row] by (elim exE conjE)
  have "execution_terminal (ex_state (sample_execution ''completed''))" by (simp add: execution_terminal_def)
  with y(2) have e: "y = (sample_execution ''completed'')\<lparr>ex_current_version_id := ex_current_version_id y,
      ex_revision := ex_revision y, ex_updated_at := ex_updated_at y\<rparr>" by (rule mp)
  have "ex_state y = ''completed''" by (subst e) simp
  with y(1) show ?thesis by (intro exI[of _ y]) simp
qed

end
