(* ===== verification/Protocol_Types.thy ===== *)
theory Protocol_Types
  imports Schema_Relations
begin

text \<open>
  The data of the external agent protocol (\<open>src/src/protocol.rs\<close>): commands and queries,
  requests and responses, the resources a response carries and their conversion from the rows
  of the store, and the failures with their conversion from the errors of the store. A command
  is a record with the fields of its Rust struct.
\<close>

section \<open>Commands and queries\<close>

definition external_agent_protocol_version :: utf8 where
  "external_agent_protocol_version = ''1.0''"

definition command_capabilities :: "utf8 list" where
  "command_capabilities = [''register_agent'', ''create_task'', ''create_workspace'',
     ''create_execution'', ''start_execution'', ''pause_execution'', ''complete_execution'',
     ''fail_execution'', ''interrupt_execution'', ''acquire_workspace_lease'',
     ''renew_workspace_lease'', ''release_workspace_lease'', ''publish_version'',
     ''set_execution_current_version'', ''create_checkpoint'', ''resume_from_checkpoint'',
     ''create_handoff'', ''materialize_version'', ''start_operation'', ''finish_operation'']"

definition query_capabilities :: "utf8 list" where
  "query_capabilities = [''hello'', ''get_agent'', ''get_task'', ''get_execution'',
     ''get_workspace'', ''get_version'', ''get_checkpoint'', ''get_handoff'', ''get_operation'',
     ''resolve_operation'', ''inspect_execution'', ''list_checkpoints'', ''list_handoffs'',
     ''diff_workspace_version'']"

record lease_authority =
  la_workspace_id :: utf8
  la_agent_id :: utf8
  la_epoch :: int
  la_expires_at_ms :: int

definition authority_of :: "lease_token \<Rightarrow> lease_authority" where
  "authority_of t = \<lparr>la_workspace_id = lt_workspace_id t, la_agent_id = lt_agent_id t,
     la_epoch = lt_epoch t, la_expires_at_ms = lt_expires_at_ms t\<rparr>"

definition token_of :: "lease_authority \<Rightarrow> lease_token" where
  "token_of a = \<lparr>lt_workspace_id = la_workspace_id a, lt_agent_id = la_agent_id a,
     lt_epoch = la_epoch a, lt_expires_at_ms = la_expires_at_ms a\<rparr>"

lemma token_of_authority [simp]: "token_of (authority_of t) = t"
  by (simp add: token_of_def authority_of_def)

record register_agent_command =
  pra_agent_id :: utf8
  pra_provider_metadata :: "utf8 option"
  pra_display_name :: "utf8 option"

record create_task_command =
  pct_task_id :: utf8
  pct_project_id :: utf8
  pct_goal_ref :: utf8
  pct_context_ref :: "utf8 option"

record create_workspace_command =
  pcw_workspace_id :: utf8
  pcw_project_id :: utf8
  pcw_binding_ref :: utf8
  pcw_branch_ref :: "utf8 option"
  pcw_environment_id :: "utf8 option"

record create_execution_command =
  pce_execution_id :: utf8
  pce_task_id :: utf8
  pce_parent_execution_id :: "utf8 option"
  pce_workspace_id :: "utf8 option"
  pce_base_version_id :: "utf8 option"

record execution_revision_command =
  per_execution_id :: utf8
  per_expected_revision :: int

record execution_outcome_command =
  peo_execution_id :: utf8
  peo_expected_revision :: int
  peo_outcome_code :: "utf8 option"

record start_operation_command =
  pso_execution_id :: utf8
  pso_action :: utf8

datatype operation_terminal_status = TCompleted | TFailed | TCancelled | TUnknown

definition terminal_as_str :: "operation_terminal_status \<Rightarrow> utf8" where
  "terminal_as_str s = (case s of TCompleted \<Rightarrow> ''completed'' | TFailed \<Rightarrow> ''failed''
     | TCancelled \<Rightarrow> ''cancelled'' | TUnknown \<Rightarrow> ''unknown'')"

record operation_failure_resource =
  pof_code :: utf8
  pof_retryable :: bool

record finish_operation_command =
  pfo_execution_id :: utf8
  pfo_status :: operation_terminal_status
  pfo_failure :: "operation_failure_resource option"

record acquire_lease_command =
  pal_execution_id :: utf8
  pal_workspace_id :: utf8
  pal_ttl_ms :: int

record renew_lease_command =
  prl_lease :: lease_authority
  prl_ttl_ms :: int

record release_lease_command =
  pll_lease :: lease_authority

record publish_version_command =
  ppv_execution_id :: utf8
  ppv_workspace_id :: utf8
  ppv_lease :: lease_authority
  ppv_expected_workspace_revision :: int
  ppv_parent_version_id :: "utf8 option"
  ppv_update_version_head :: bool

record set_execution_version_command =
  psv_execution_id :: utf8
  psv_version_id :: utf8
  psv_lease :: lease_authority
  psv_expected_execution_revision :: int
  psv_expected_workspace_revision :: int

record create_checkpoint_command =
  pcc_checkpoint_id :: utf8
  pcc_task_id :: utf8
  pcc_execution_id :: utf8
  pcc_workspace_id :: utf8
  pcc_version_id :: utf8
  pcc_source_operation_id :: "utf8 option"
  pcc_reason_code :: utf8

record resume_checkpoint_command =
  prc_execution_id :: utf8
  prc_task_id :: utf8
  prc_parent_execution_id :: "utf8 option"
  prc_workspace_id :: utf8
  prc_checkpoint_id :: utf8

record create_handoff_command =
  pch_handoff_id :: utf8
  pch_task_id :: utf8
  pch_from_execution_id :: utf8
  pch_to_execution_id :: utf8
  pch_source_version_id :: "utf8 option"
  pch_checkpoint_id :: "utf8 option"
  pch_reason_code :: utf8

record materialize_version_command =
  pmv_execution_id :: utf8
  pmv_workspace_id :: utf8
  pmv_source_version_id :: utf8
  pmv_lease :: lease_authority
  pmv_expected_workspace_revision :: int

record operation_request_query =
  poq_project_id :: utf8
  poq_request_id :: utf8

record diff_workspace_version_query =
  pdq_workspace_id :: utf8
  pdq_source_version_id :: utf8

text \<open>\<open>EntityQuery\<close> and \<open>TaskQuery\<close> have one text field each.\<close>

datatype protocol_call =
    Hello
  | RegisterAgent register_agent_command
  | CreateTask create_task_command
  | CreateWorkspace create_workspace_command
  | CreateExecution create_execution_command
  | StartExecution execution_revision_command
  | PauseExecution execution_outcome_command
  | CompleteExecution execution_outcome_command
  | FailExecution execution_outcome_command
  | InterruptExecution execution_outcome_command
  | AcquireWorkspaceLease acquire_lease_command
  | RenewWorkspaceLease renew_lease_command
  | ReleaseWorkspaceLease release_lease_command
  | PublishVersion publish_version_command
  | SetExecutionCurrentVersion set_execution_version_command
  | CreateCheckpoint create_checkpoint_command
  | ResumeFromCheckpoint resume_checkpoint_command
  | CreateHandoff create_handoff_command
  | MaterializeVersion materialize_version_command
  | StartOperation start_operation_command
  | FinishOperation finish_operation_command
  | GetAgent utf8
  | GetTask utf8
  | GetExecution utf8
  | GetWorkspace utf8
  | GetVersion utf8
  | GetCheckpoint utf8
  | GetHandoff utf8
  | GetOperation utf8
  | ResolveOperation operation_request_query
  | InspectExecution utf8
  | ListCheckpoints utf8
  | ListHandoffs utf8
  | DiffWorkspaceVersion diff_workspace_version_query

record protocol_request =
  pr_protocol_version :: utf8
  pr_request_id :: utf8
  pr_caller_agent_id :: "utf8 option"
  pr_issued_at :: utf8
  pr_operation_id :: "utf8 option"
  pr_call :: protocol_call

section \<open>Views of the control facade\<close>

text \<open>The views of \<open>src/src/control.rs\<close> that the protocol converts.\<close>

record lease_view =
  lv_workspace_id :: utf8
  lv_agent_id :: "utf8 option"
  lv_epoch :: int
  lv_expires_at_ms :: int
  lv_acquired_at_ms :: int
  lv_active :: bool

definition lease_view_from_record :: "lease_record \<Rightarrow> int \<Rightarrow> lease_view" where
  "lease_view_from_record l now_ms =
     \<lparr>lv_workspace_id = lr_workspace_id l, lv_agent_id = lr_agent_id l, lv_epoch = lr_epoch l,
      lv_expires_at_ms = lr_expires_at_ms l, lv_acquired_at_ms = lr_acquired_at_ms l,
      lv_active = (lr_agent_id l \<noteq> None \<and> lr_expires_at_ms l > now_ms)\<rparr>"

text \<open>\<open>WorkspaceView\<close> has the fields of \<open>WorkspaceRecord\<close>, so \<open>From\<close> is a copy and the model
  keeps the record. \<open>SnapshotView\<close> drops the manifest version, the redaction profile, the
  operation, the event and the generation of \<open>SnapshotRecord\<close>.\<close>

record snapshot_view =
  sw_snapshot_id :: utf8
  sw_root_digest :: utf8
  sw_workspace_id :: utf8
  sw_project_id :: utf8
  sw_environment_id :: "utf8 option"
  sw_file_count :: nat
  sw_total_bytes :: nat
  sw_created_at :: utf8

definition snapshot_view_of :: "snapshot_record \<Rightarrow> snapshot_view" where
  "snapshot_view_of s = \<lparr>sw_snapshot_id = sn_snapshot_id s, sw_root_digest = sn_root_digest s,
     sw_workspace_id = sn_workspace_id s, sw_project_id = sn_project_id s,
     sw_environment_id = sn_environment_id s, sw_file_count = sn_file_count s,
     sw_total_bytes = sn_total_bytes s, sw_created_at = sn_created_at s\<rparr>"

record publish_version_result =
  pvr_snapshot :: snapshot_view
  pvr_version :: version_record
  pvr_workspace :: workspace_record

record state_view =
  sv_agent :: agent_identity
  sv_task :: task_record
  sv_execution :: execution_record
  sv_workspace :: "workspace_record option"
  sv_lease :: "lease_view option"
  sv_base_version :: "version_record option"
  sv_current_version :: "version_record option"
  sv_checkpoints :: "checkpoint_record list"
  sv_handoffs :: "handoff_record list"
  sv_resume :: "resume_record option"

section \<open>Resources\<close>

record agent_resource =
  gr_agent_id :: utf8
  gr_provider_metadata :: "utf8 option"
  gr_display_name :: "utf8 option"
  gr_created_at :: utf8

record task_resource =
  tr_task_id :: utf8
  tr_project_id :: utf8
  tr_goal_ref :: utf8
  tr_context_ref :: "utf8 option"
  tr_state :: utf8
  tr_revision :: int
  tr_created_at :: utf8
  tr_updated_at :: utf8

record execution_resource =
  xr_execution_id :: utf8
  xr_task_id :: utf8
  xr_agent_id :: utf8
  xr_project_id :: utf8
  xr_parent_execution_id :: "utf8 option"
  xr_workspace_id :: "utf8 option"
  xr_base_version_id :: "utf8 option"
  xr_current_version_id :: "utf8 option"
  xr_state :: utf8
  xr_outcome_code :: "utf8 option"
  xr_revision :: int
  xr_created_at :: utf8
  xr_updated_at :: utf8

record workspace_resource =
  wr_workspace_id :: utf8
  wr_project_id :: utf8
  wr_branch_ref :: "utf8 option"
  wr_head :: "utf8 option"
  wr_version_head_id :: "utf8 option"
  wr_environment_id :: "utf8 option"
  wr_state :: utf8
  wr_revision :: int
  wr_created_at :: utf8
  wr_updated_at :: utf8

record lease_resource =
  le_authority :: lease_authority
  le_active :: bool

record workspace_inspection =
  wi_workspace :: workspace_resource
  wi_lease :: "lease_resource option"

record version_resource =
  vr_version_id :: utf8
  vr_workspace_id :: utf8
  vr_project_id :: utf8
  vr_snapshot_id :: utf8
  vr_creation_operation_id :: utf8
  vr_environment_id :: "utf8 option"
  vr_parent_version_id :: "utf8 option"
  vr_created_at :: utf8

record checkpoint_resource =
  kr_checkpoint_id :: utf8
  kr_task_id :: utf8
  kr_execution_id :: utf8
  kr_workspace_id :: utf8
  kr_version_id :: utf8
  kr_source_operation_id :: "utf8 option"
  kr_reason_code :: utf8
  kr_actor_agent_id :: utf8
  kr_request_id :: utf8
  kr_created_at :: utf8

record handoff_resource =
  dr_handoff_id :: utf8
  dr_task_id :: utf8
  dr_from_execution_id :: utf8
  dr_to_execution_id :: utf8
  dr_source_version_id :: "utf8 option"
  dr_checkpoint_id :: "utf8 option"
  dr_reason_code :: utf8
  dr_actor_agent_id :: utf8
  dr_request_id :: utf8
  dr_state :: utf8
  dr_created_at :: utf8
  dr_updated_at :: utf8

record resume_resource =
  ur_execution_id :: utf8
  ur_task_id :: utf8
  ur_agent_id :: utf8
  ur_source_version_id :: utf8
  ur_checkpoint_id :: "utf8 option"
  ur_request_id :: utf8
  ur_created_at :: utf8

record operation_resource =
  or_operation_id :: utf8
  or_execution_id :: "utf8 option"
  or_request_id :: utf8
  or_agent_id :: utf8
  or_workspace_id :: "utf8 option"
  or_action :: utf8
  or_state :: utf8
  or_recording_state :: utf8
  or_failure_code :: "utf8 option"
  or_started_at :: utf8
  or_finished_at :: "utf8 option"

end
