(* ===== verification/Control.thy ===== *)
theory Control
  imports Store_History Relation_Store Protocol_Types
begin

text \<open>
  The control facade (\<open>src/src/control.rs\<close>) over the metadata store: the views it returns, the
  operations of an execution, the inspection of an execution, and the publication of a version,
  which is a sequence of transactions that a retry picks up where the last run stopped. A method
  that only forwards to the store is not repeated here. The capture of the working tree is an
  argument of the publication.
\<close>

section \<open>Sequencing\<close>

text \<open>The question mark after a call that changes the state, and after one that only reads.\<close>

definition then_on :: "('e + 'a) \<times> 's \<Rightarrow> ('a \<Rightarrow> 's \<Rightarrow> ('e + 'b) \<times> 's) \<Rightarrow> ('e + 'b) \<times> 's" where
  "then_on m k = (case m of (Inl e, s) \<Rightarrow> (Inl e, s) | (Inr x, s) \<Rightarrow> k x s)"

definition check_on :: "'s \<Rightarrow> 'e + 'a \<Rightarrow> ('a \<Rightarrow> ('e + 'b) \<times> 's) \<Rightarrow> ('e + 'b) \<times> 's" where
  "check_on s x k = (case x of Inl e \<Rightarrow> (Inl e, s) | Inr y \<Rightarrow> k y)"

definition ok_or :: "'a option \<Rightarrow> 'e \<Rightarrow> 'e + 'a" where
  "ok_or x e = (case x of None \<Rightarrow> Inl e | Some y \<Rightarrow> Inr y)"

lemma then_on_simps [simp]:
  "then_on (Inl e, s) k = (Inl e, s)" "then_on (Inr x, s) k = k x s"
  by (simp_all add: then_on_def)

lemma check_on_simps [simp]:
  "check_on s (Inl e) k = (Inl e, s)" "check_on s (Inr y) k = k y"
  by (simp_all add: check_on_def)

lemma ok_or_simps [simp]: "ok_or None e = Inl e" "ok_or (Some y) e = Inr y"
  by (simp_all add: ok_or_def)

lemma ok_or_Inr [simp]: "ok_or x e = Inr y \<longleftrightarrow> x = Some y"
  by (cases x) simp_all

section \<open>Views\<close>

definition control_lease :: "redactor \<Rightarrow> db \<Rightarrow> utf8 \<Rightarrow> int \<Rightarrow> lease_view option" where
  "control_lease r d workspace_id now_ms =
     map_option (\<lambda>l. lease_view_from_record l now_ms) (workspace_lease r d workspace_id)"

definition find_version :: "externals \<Rightarrow> db \<Rightarrow> utf8 option \<Rightarrow> version_record option res" where
  "find_version X d i = (case i of None \<Rightarrow> Inr None | Some v \<Rightarrow> version_record_of X d v)"

definition control_state :: "externals \<Rightarrow> redactor \<Rightarrow> db \<Rightarrow> utf8 \<Rightarrow> int \<Rightarrow> state_view res" where
  "control_state X r d execution_id now_ms =
     try_then (execution_by X r d execution_id) (\<lambda>found.
     try_then (ok_or found (NotFound ''execution does not exist'')) (\<lambda>e.
     try_then (ok_or (task_by r d (ex_task_id e)) (Integrity ''execution task is missing'')) (\<lambda>t.
     try_then (ok_or (agent_identity_by r d (ex_agent_id e)) (Integrity ''execution agent is missing'')) (\<lambda>a.
     try_then (find_version X d (ex_base_version_id e)) (\<lambda>base.
     try_then (find_version X d (ex_current_version_id e)) (\<lambda>current.
     Inr \<lparr>sv_agent = a, sv_task = t, sv_execution = e,
       sv_workspace = Option.bind (ex_workspace_id e) (workspace_by r d),
       sv_lease = Option.bind (ex_workspace_id e) (\<lambda>w. control_lease r d w now_ms),
       sv_base_version = base, sv_current_version = current,
       sv_checkpoints = list_checkpoints d (tk_task_id t),
       sv_handoffs = list_handoffs d (tk_task_id t),
       sv_resume = resume_record_of d execution_id\<rparr>))))))"

section \<open>Operations of an execution\<close>

definition start_execution_operation ::
  "externals \<Rightarrow> metadata_store \<Rightarrow> utf8 \<Rightarrow> operation_envelope \<Rightarrow> utf8 \<Rightarrow> operation_record res \<times> metadata_store"
where
  "start_execution_operation X st execution_id e associated_at =
     then_on (start_operation X st e) (\<lambda>x st.
     then_on (attach_operation_to_execution X st \<lparr>eo_execution_id = execution_id,
         eo_operation_id = ov_operation_id e, eo_created_at = associated_at\<rparr>) (\<lambda>_ st.
     (Inr x, st)))"

definition finish_execution_operation ::
  "externals \<Rightarrow> metadata_store \<Rightarrow> utf8 \<Rightarrow> utf8 \<Rightarrow> operation_outcome \<Rightarrow> operation_record res \<times> metadata_store"
where
  "finish_execution_operation X st execution_id operation_id x =
     check_on st (execution_operation_read X (st_redactor st) (st_db st) execution_id operation_id) (\<lambda>found.
     if found = None
     then (Inl (NotFound ''Execution Operation association does not exist''), st)
     else finish_operation X st operation_id x)"

fun owned_records :: "redactor \<Rightarrow> db \<Rightarrow> execution_operation list \<Rightarrow> operation_record list res" where
  "owned_records r d [] = Inr []"
| "owned_records r d (o1 # os) =
     try_then (ok_or (operation_by r d (eo_operation_id o1))
       (Integrity ''execution references a missing durable Operation'')) (\<lambda>x.
     try_then (owned_records r d os) (\<lambda>xs. Inr (x # xs)))"

definition control_operations :: "externals \<Rightarrow> redactor \<Rightarrow> db \<Rightarrow> utf8 \<Rightarrow> operation_record list res" where
  "control_operations X r d execution_id =
     try_then (operations_for_execution X r d execution_id) (owned_records r d)"

section \<open>The publication of a version\<close>

record publish_request =
  pbr_workspace_id :: utf8
  pbr_lease :: lease_token
  pbr_expected_revision :: int
  pbr_now_ms :: int
  pbr_created_at :: utf8
  pbr_operation_id :: utf8
  pbr_request_id :: utf8
  pbr_session_id :: "utf8 option"
  pbr_tool :: "utf8 option"
  pbr_parent_version_id :: "utf8 option"
  pbr_update_version_head :: bool

text \<open>What the workspace was before the publication; it is kept in the operation.\<close>

record publication_before_state =
  pbs_workspace_revision :: int
  pbs_workspace_head :: "utf8 option"
  pbs_version_head_id :: "utf8 option"

definition before_state_of_workspace :: "workspace_record \<Rightarrow> publication_before_state" where
  "before_state_of_workspace w = \<lparr>pbs_workspace_revision = ws_revision w,
     pbs_workspace_head = ws_head w, pbs_version_head_id = ws_version_head_id w\<rparr>"

definition before_state_value :: "publication_before_state \<Rightarrow> json" where
  "before_state_value b = JObject [(''version_head_id'', opt_text_value (pbs_version_head_id b)),
     (''workspace_head'', opt_text_value (pbs_workspace_head b)),
     (''workspace_revision'', JNumber (show_int (pbs_workspace_revision b)))]"

text \<open>\<open>serde_json::from_value\<close> for that struct: from an object without other members, where a
  missing option is none, or from an array of the three fields in order. A number is an \<open>i64\<close> if
  its text is that of an integer in range.\<close>

definition json_opt_text :: "json option \<Rightarrow> utf8 option option" where
  "json_opt_text v = (case v of
     None \<Rightarrow> Some None | Some JNull \<Rightarrow> Some None | Some (JString s) \<Rightarrow> Some (Some s) | Some _ \<Rightarrow> None)"

definition before_state_fields ::
  "json option \<Rightarrow> json option \<Rightarrow> json option \<Rightarrow> publication_before_state option" where
  "before_state_fields revision head version_head =
     (case (Option.bind revision json_i64, json_opt_text head, json_opt_text version_head) of
        (Some n, Some h, Some v) \<Rightarrow> Some \<lparr>pbs_workspace_revision = n, pbs_workspace_head = h, pbs_version_head_id = v\<rparr>
      | _ \<Rightarrow> None)"

definition before_state_of_value :: "json \<Rightarrow> publication_before_state option" where
  "before_state_of_value v =
     (case v of
        JObject ms \<Rightarrow>
          if list_all (\<lambda>m. fst m \<in> {''workspace_revision'', ''workspace_head'', ''version_head_id''}) ms
          then before_state_fields (map_of ms ''workspace_revision'') (map_of ms ''workspace_head'')
            (map_of ms ''version_head_id'')
          else None
      | JArray [a, b, c] \<Rightarrow> before_state_fields (Some a) (Some b) (Some c)
      | _ \<Rightarrow> None)"

text \<open>The message of a failed conversion comes from \<open>serde_json\<close> and is an argument.\<close>

definition publication_before_state_of ::
  "(json \<Rightarrow> utf8) \<Rightarrow> operation_record \<Rightarrow> publication_before_state res" where
  "publication_before_state_of explain x =
     (if op_action x \<noteq> ''version.create''
      then Inl (Integrity ''Version publication operation has an invalid action'')
      else
        try_then (ok_or (op_before_state x) (Integrity ''Version publication operation has no before state'')) (\<lambda>v.
        case before_state_of_value v of
          None \<Rightarrow> Inl (Integrity (''Version publication before state is invalid: '' @ explain v))
        | Some b \<Rightarrow>
            if pbs_workspace_revision b < 0
            then Inl (Integrity ''Version publication before state has an invalid revision'')
            else Inr b))"

definition present_text :: "utf8 \<times> utf8 \<Rightarrow> unit res" where
  "present_text vl = (if trimmed_empty (fst vl) then Inl (InvalidInput (snd vl @ '' must not be empty'')) else Inr ())"

definition present_option :: "utf8 option \<times> utf8 \<Rightarrow> unit res" where
  "present_option vl = (case fst vl of None \<Rightarrow> Inr () | Some v \<Rightarrow> present_text (v, snd vl))"

definition validate_publish_request :: "publish_request \<Rightarrow> unit res" where
  "validate_publish_request q =
     try_then (check_all present_text [(pbr_workspace_id q, ''workspace id''),
       (lt_workspace_id (pbr_lease q), ''lease workspace id''),
       (lt_agent_id (pbr_lease q), ''lease agent id''), (pbr_created_at q, ''version created_at''),
       (pbr_operation_id q, ''operation id''), (pbr_request_id q, ''request id'')]) (\<lambda>_.
     try_then (check_all present_option [(pbr_session_id q, ''session id''), (pbr_tool q, ''tool''),
       (pbr_parent_version_id q, ''parent version id'')]) (\<lambda>_.
     if pbr_expected_revision q < 0
     then Inl (InvalidInput ''workspace revision must not be negative'') else Inr ()))"

definition validate_publish_lease :: "redactor \<Rightarrow> db \<Rightarrow> publish_request \<Rightarrow> unit res" where
  "validate_publish_lease r d q =
     (case workspace_lease r d (pbr_workspace_id q) of
        None \<Rightarrow> Inl (Conflict ''workspace lease is missing'')
      | Some l \<Rightarrow>
          if lt_workspace_id (pbr_lease q) \<noteq> pbr_workspace_id q
            \<or> lr_agent_id l \<noteq> Some (lt_agent_id (pbr_lease q))
            \<or> lr_epoch l \<noteq> lt_epoch (pbr_lease q) \<or> lr_expires_at_ms l \<le> pbr_now_ms q
          then Inl (Conflict ''workspace lease is stale or expired'') else Inr ())"

definition validate_publish_parent :: "externals \<Rightarrow> db \<Rightarrow> workspace_record \<Rightarrow> utf8 option \<Rightarrow> unit res" where
  "validate_publish_parent X d w parent =
     (case parent of
        None \<Rightarrow> Inr ()
      | Some i \<Rightarrow>
          try_then (version_record_of X d i) (\<lambda>found.
          try_then (ok_or found (NotFound ''version parent does not exist'')) (\<lambda>p.
          if ve_workspace_id p \<noteq> ws_workspace_id w \<or> ve_project_id p \<noteq> ws_project_id w
            \<or> ve_environment_id p \<noteq> ws_environment_id w
          then Inl (Conflict ''version parent scope does not match workspace'') else Inr ())))"

definition publish_operation_for_request ::
  "redactor \<Rightarrow> db \<Rightarrow> workspace_record \<Rightarrow> publish_request \<Rightarrow> operation_record option res" where
  "publish_operation_for_request r d w q =
     (case (operation_by r d (pbr_operation_id q),
        operation_record_for_request r d (ws_project_id w) (lt_agent_id (pbr_lease q)) (pbr_request_id q)) of
        (Some a, Some b) \<Rightarrow>
          if op_operation_id a = op_operation_id b then Inr (Some a)
          else Inl (Integrity ''Version publication operation indexes disagree'')
      | (None, Some _) \<Rightarrow> Inl (IdempotencyKeyReuse (pbr_request_id q))
      | (Some _, None) \<Rightarrow> Inl (Conflict ''operation identity is already used by another request'')
      | (None, None) \<Rightarrow> Inr None)"

definition publication_snapshot_reference :: "operation_record \<Rightarrow> utf8 res" where
  "publication_snapshot_reference x =
     (case filter (\<lambda>f. of_kind f = ''snapshot'') (op_input_refs x) of
        [] \<Rightarrow> Inl (Integrity ''Version publication operation has no Snapshot input'')
      | f # fs \<Rightarrow>
          if fs \<noteq> [] \<or> trimmed_empty (of_reference f)
          then Inl (Integrity ''Version publication operation has invalid Snapshot inputs'')
          else Inr (of_reference f))"

definition publication_operation ::
  "publish_request \<Rightarrow> workspace_record \<Rightarrow> snapshot_record \<Rightarrow> publication_before_state \<Rightarrow> operation_envelope"
where
  "publication_operation q w s b =
     \<lparr>ov_operation_id = pbr_operation_id q, ov_project_id = ws_project_id w,
      ov_request_id = pbr_request_id q, ov_agent_id = lt_agent_id (pbr_lease q),
      ov_session_id = (case pbr_session_id q of None \<Rightarrow> ''agent-control'' | Some i \<Rightarrow> i),
      ov_workspace_id = Some (ws_workspace_id w), ov_environment_id = ws_environment_id w,
      ov_parent_operation_id = None, ov_schema_version = ''0.1'',
      ov_started_at = pbr_created_at q,
      ov_tool = (case pbr_tool q of None \<Rightarrow> ''agent-control'' | Some t \<Rightarrow> t),
      ov_action = ''version.create'',
      ov_input_refs =
        \<lparr>of_kind = ''snapshot'', of_reference = sn_snapshot_id s,
         of_media_type = Some ''application/vnd.pong.snapshot''\<rparr>
        # (case pbr_parent_version_id q of
             None \<Rightarrow> []
           | Some i \<Rightarrow> [\<lparr>of_kind = ''version'', of_reference = i,
               of_media_type = Some ''application/vnd.pong.version''\<rparr>]),
      ov_output_refs = [],
      ov_resource = Some (JObject
        [(''expected_workspace_revision'', JNumber (show_int (pbs_workspace_revision b))),
         (''update_version_head'', JBool (pbr_update_version_head q)),
         (''workspace_id'', JString (ws_workspace_id w))]),
      ov_before_state = Some (before_state_value b), ov_after_state = None,
      ov_reversibility = ''REVERSIBLE'', ov_replayability = ''REPLAYABLE'',
      ov_side_effect = ''WORKSPACE'', ov_policy_decision = None\<rparr>"

definition next_revision :: "int \<Rightarrow> int res" where
  "next_revision n = ok_or (checked_add n 1) (ResourceExhausted ''workspace revision overflow'')"

definition publication_snapshot_revision :: "publication_before_state \<Rightarrow> snapshot_record \<Rightarrow> int res" where
  "publication_snapshot_revision b s =
     (if pbs_workspace_head b = Some (sn_root_digest s) then Inr (pbs_workspace_revision b)
      else next_revision (pbs_workspace_revision b))"

definition unpublished :: "workspace_record \<Rightarrow> publication_before_state \<Rightarrow> int \<Rightarrow> bool" where
  "unpublished w b revision \<longleftrightarrow> ws_revision w = revision \<and> ws_version_head_id w = pbs_version_head_id b"

definition validate_publication_stage ::
  "workspace_record \<Rightarrow> snapshot_record \<Rightarrow> publication_before_state \<Rightarrow> int \<Rightarrow> version_record option \<Rightarrow> bool \<Rightarrow>
    unit res"
where
  "validate_publication_stage w s b revision existing move_head =
     (let rest = (if \<not> unpublished w b revision
        then Inl (Conflict ''workspace revision is stale during Version publication'') else Inr ()) in
      if sn_workspace_id s \<noteq> ws_workspace_id w \<or> sn_project_id s \<noteq> ws_project_id w
        \<or> sn_environment_id s \<noteq> ws_environment_id w
      then Inl (Integrity ''Version publication Snapshot scope is inconsistent'')
      else if ws_head w \<noteq> Some (sn_root_digest s)
      then Inl (Conflict ''workspace head changed during Version publication'')
      else (case existing of
        None \<Rightarrow> rest
      | Some v \<Rightarrow>
          if ve_workspace_id v \<noteq> ws_workspace_id w \<or> ve_project_id v \<noteq> ws_project_id w
            \<or> ve_snapshot_id v \<noteq> sn_snapshot_id s \<or> ve_environment_id v \<noteq> ws_environment_id w
          then Inl (Integrity ''durable Version publication result is inconsistent'')
          else if move_head \<and> ws_version_head_id w = Some (ve_version_id v)
          then try_then (next_revision revision) (\<lambda>completed.
            if ws_revision w = completed then Inr () else rest)
          else rest))"

definition stored_workspace :: "redactor \<Rightarrow> db \<Rightarrow> utf8 \<Rightarrow> workspace_record res" where
  "stored_workspace r d i = ok_or (workspace_by r d i) (NotFound ''workspace does not exist'')"

text \<open>The last stage: the version is the head of the workspace, or it becomes it, or the head stays.\<close>

definition publish_head ::
  "externals \<Rightarrow> metadata_store \<Rightarrow> publish_request \<Rightarrow> publication_before_state \<Rightarrow> int \<Rightarrow> version_record \<Rightarrow>
    workspace_record \<Rightarrow> workspace_record res \<times> metadata_store"
where
  "publish_head X st q b revision v w =
     (if pbr_update_version_head q then
        if ws_version_head_id w = Some (ve_version_id v) then
          check_on st (next_revision revision) (\<lambda>completed.
          if ws_revision w \<noteq> completed then (Inl (Conflict ''workspace revision is stale''), st)
          else (Inr w, st))
        else if \<not> unpublished w b revision then (Inl (Conflict ''workspace revision is stale''), st)
        else set_version_head X st \<lparr>hq_workspace_id = ws_workspace_id w,
          hq_version_id = Some (ve_version_id v), hq_lease = pbr_lease q, hq_expected_revision = revision,
          hq_updated_at = pbr_created_at q, hq_now_ms = pbr_now_ms q\<rparr>
      else if \<not> unpublished w b revision then (Inl (Conflict ''workspace revision is stale''), st)
      else (Inr w, st))"

definition complete_version_publication ::
  "externals \<Rightarrow> metadata_store \<Rightarrow> publish_request \<Rightarrow> snapshot_record \<Rightarrow> publication_before_state \<Rightarrow>
    publish_version_result res \<times> metadata_store"
where
  "complete_version_publication X st q s b =
     (let r = st_redactor st; d = st_db st in
      check_on st (publication_snapshot_revision b s) (\<lambda>revision.
      let existing = find (\<lambda>v. ve_creation_operation_id v = pbr_operation_id q)
        (list_versions d (pbr_workspace_id q)) in
      check_on st (stored_workspace r d (pbr_workspace_id q)) (\<lambda>w.
      check_on st (validate_publication_stage w s b revision existing (pbr_update_version_head q)) (\<lambda>_.
      then_on (create_version X st \<lparr>vp_workspace_id = ws_workspace_id w, vp_project_id = ws_project_id w,
          vp_snapshot_id = sn_snapshot_id s, vp_creation_operation_id = pbr_operation_id q,
          vp_environment_id = ws_environment_id w, vp_created_at = pbr_created_at q,
          vp_parent_version_id = pbr_parent_version_id q\<rparr>) (\<lambda>v st.
      check_on st (stored_workspace (st_redactor st) (st_db st) (pbr_workspace_id q)) (\<lambda>w.
      then_on (publish_head X st q b revision v w) (\<lambda>w st.
      (Inr \<lparr>pvr_snapshot = snapshot_view_of s, pvr_version = v, pvr_workspace = w\<rparr>, st))))))))"

text \<open>
  \<open>snapshot_local_at_revision\<close> captures the working tree and publishes its snapshot; it answers
  with the id of the snapshot. It is an argument, called with the store, the workspace, the lease,
  the expected revision, the clock and the time of the request.
\<close>

type_synonym capture = "metadata_store \<Rightarrow> utf8 \<Rightarrow> lease_token \<Rightarrow> int \<Rightarrow> int \<Rightarrow> utf8 \<Rightarrow> utf8 res \<times> metadata_store"

definition resume_publication ::
  "externals \<Rightarrow> (json \<Rightarrow> utf8) \<Rightarrow> metadata_store \<Rightarrow> publish_request \<Rightarrow> workspace_record \<Rightarrow> operation_record \<Rightarrow>
    (snapshot_record \<times> publication_before_state) res \<times> metadata_store"
where
  "resume_publication X explain st q w x =
     check_on st (publication_before_state_of explain x) (\<lambda>b.
     if pbs_workspace_revision b \<noteq> pbr_expected_revision q
     then (Inl (IdempotencyKeyReuse (pbr_request_id q)), st)
     else check_on st (publication_snapshot_reference x) (\<lambda>i.
     check_on st (ok_or (snapshot_record_of (st_db st) i)
       (Integrity ''Version publication operation references a missing Snapshot'')) (\<lambda>s.
     then_on (start_operation X st (publication_operation q w s b)) (\<lambda>_ st. (Inr (s, b), st)))))"

definition begin_publication ::
  "externals \<Rightarrow> capture \<Rightarrow> metadata_store \<Rightarrow> publish_request \<Rightarrow> workspace_record \<Rightarrow>
    (snapshot_record \<times> publication_before_state) res \<times> metadata_store"
where
  "begin_publication X capture st q w =
     (if ws_revision w \<noteq> pbr_expected_revision q then (Inl (Conflict ''workspace revision is stale''), st)
      else then_on (capture st (pbr_workspace_id q) (pbr_lease q) (pbr_expected_revision q) (pbr_now_ms q)
          (pbr_created_at q)) (\<lambda>i st.
        check_on st (ok_or (snapshot_record_of (st_db st) i)
          (Integrity ''published snapshot metadata is missing'')) (\<lambda>s.
        let b = before_state_of_workspace w in
        then_on (start_operation X st (publication_operation q w s b)) (\<lambda>_ st. (Inr (s, b), st)))))"

definition publish_version ::
  "externals \<Rightarrow> (json \<Rightarrow> utf8) \<Rightarrow> capture \<Rightarrow> metadata_store \<Rightarrow> publish_request \<Rightarrow>
    publish_version_result res \<times> metadata_store"
where
  "publish_version X explain capture st q =
     (let r = st_redactor st; d = st_db st in
      check_on st (validate_publish_request q) (\<lambda>_.
      check_on st (stored_workspace r d (pbr_workspace_id q)) (\<lambda>w.
      check_on st (validate_publish_lease r d q) (\<lambda>_.
      check_on st (validate_publish_parent X d w (pbr_parent_version_id q)) (\<lambda>_.
      check_on st (publish_operation_for_request r d w q) (\<lambda>existing.
      then_on (case existing of
          Some x \<Rightarrow> resume_publication X explain st q w x
        | None \<Rightarrow> begin_publication X capture st q w) (\<lambda>sb st.
      complete_version_publication X st q (fst sb) (snd sb))))))))"

end
