(* ===== verification/Cas.thy ===== *)
theory Cas
  imports Canonical "HOL-Library.Word"
begin

text \<open>
  The content-addressed store of \<open>src/src/cas.rs\<close>: objects kept under the digest of their domain
  and bytes, published with a staging file and a hard link that never replaces, verified on every
  read, and moved to quarantine when they do not verify. The file system is part of the state: the
  three directories as maps, and the outcomes of the coming system calls as a list, so that every
  call of every operation may fail in any pattern. A digest is named by its hexadecimal text.
\<close>

section \<open>Failpoints\<close>

datatype cas_fail_point = StagingWrite | Publication | CasDirectorySync | StartupScan

definition cas_label :: "cas_fail_point \<Rightarrow> utf8" where
  "cas_label p = (case p of StagingWrite \<Rightarrow> ''cas_staging_write'' | Publication \<Rightarrow> ''cas_publication''
     | CasDirectorySync \<Rightarrow> ''cas_directory_sync'' | StartupScan \<Rightarrow> ''cas_startup_scan'')"

datatype cas_fault_action = Continue | FailNow | ShortWrite nat | DenyPermission | QuotaExhausted nat

type_synonym cas_failpoints = "(cas_fail_point \<times> cas_fault_action) option"

definition cas_take_if :: "cas_failpoints \<Rightarrow> cas_fail_point \<Rightarrow> cas_fault_action option \<times> cas_failpoints" where
  "cas_take_if armed point =
     (case armed of
        Some (p, action) \<Rightarrow> if p = point then (Some action, None) else (None, armed)
      | None \<Rightarrow> (None, None))"

definition fault_reason :: "cas_fault_action \<Rightarrow> utf8 option" where
  "fault_reason action =
     (case action of ShortWrite _ \<Rightarrow> Some ''short_write'' | DenyPermission \<Rightarrow> Some ''permission_denied''
      | QuotaExhausted _ \<Rightarrow> Some ''quota_exhausted'' | _ \<Rightarrow> None)"

definition fault_error :: "cas_fail_point \<Rightarrow> cas_fault_action \<Rightarrow> pong_error" where
  "fault_error point action =
     (let label = (case fault_reason action of
          None \<Rightarrow> cas_label point | Some reason \<Rightarrow> cas_label point @ '':'' @ reason) in
      case action of
        DenyPermission \<Rightarrow> PermissionDenied label
      | QuotaExhausted _ \<Rightarrow> ResourceExhausted label
      | _ \<Rightarrow> FaultInjected label)"

section \<open>The store and its host\<close>

text \<open>
  An entry at an object path: a regular file with its bytes, a link (and whether its target is
  there), or anything else. The host: the platform, the process, the clock at every suffix that
  is made, and the error for a path that is taken. A system call that fails does so with an error
  and, when it was a write, after some bytes.
\<close>

datatype node = Regular utf8 | Link bool | Special

record host =
  host_platform :: platform
  host_pid :: nat
  host_nanos :: "nat \<Rightarrow> nat"
  host_exists_error :: io_error

record cas =
  cas_host :: host
  cas_redactor :: redactor
  cas_failpoints :: cas_failpoints
  cas_objects :: "utf8 \<Rightarrow> node option"
  cas_staging :: "utf8 \<Rightarrow> utf8 option"
  cas_quarantine :: "utf8 \<Rightarrow> node option"
  cas_sequence :: nat
  cas_calls :: "(io_error \<times> nat) option list"
  cas_arrival :: "(utf8 \<times> node) option"

text \<open>A step ends with an answer and the store; a failure ends the steps after it.\<close>

definition andthen :: "'a res \<times> cas \<Rightarrow> ('a \<Rightarrow> cas \<Rightarrow> 'b res \<times> cas) \<Rightarrow> 'b res \<times> cas" where
  "andthen m f = (case m of (Inl e, cs) \<Rightarrow> (Inl e, cs) | (Inr x, cs) \<Rightarrow> f x cs)"

text \<open>One system call: what went wrong, if anything did.\<close>

definition host_call :: "cas \<Rightarrow> (io_error \<times> nat) option \<times> cas" where
  "host_call cs = (case cas_calls cs of [] \<Rightarrow> (None, cs) | c # rest \<Rightarrow> (c, cs\<lparr>cas_calls := rest\<rparr>))"

definition syscall :: "cas \<Rightarrow> unit res \<times> cas" where
  "syscall cs = (case host_call cs of
     (None, cs) \<Rightarrow> (Inr (), cs)
   | (Some (e, _), cs) \<Rightarrow> (Inl (from_io (host_platform (cas_host cs)) e), cs))"

definition take_fault :: "cas \<Rightarrow> cas_fail_point \<Rightarrow> cas_fault_action \<times> cas" where
  "take_fault cs point = (case cas_take_if (cas_failpoints cs) point of
     (fired, rest) \<Rightarrow> ((case fired of None \<Rightarrow> Continue | Some action \<Rightarrow> action), cs\<lparr>cas_failpoints := rest\<rparr>))"

text \<open>\<open>format!("{nanos:x}-{sequence:x}")\<close>.\<close>

definition hex_digit :: "nat \<Rightarrow> char" where
  "hex_digit n = (if n < 10 then byte (48 + n) else byte (87 + n))"

fun show_hex :: "nat \<Rightarrow> utf8" where
  "show_hex n = (if n < 16 then [hex_digit n] else show_hex (n div 16) @ [hex_digit (n mod 16)])"

declare show_hex.simps [simp del]

definition unique_suffix :: "cas \<Rightarrow> utf8 \<times> cas" where
  "unique_suffix cs =
     (show_hex (host_nanos (cas_host cs) (cas_sequence cs)) @ ''-'' @ show_hex (cas_sequence cs),
      cs\<lparr>cas_sequence := cas_sequence cs + 1\<rparr>)"

definition new_staging_path :: "cas \<Rightarrow> utf8 \<times> cas" where
  "new_staging_path cs = (case unique_suffix cs of
     (sfx, cs) \<Rightarrow> (''.object-'' @ show_nat (host_pid (cas_host cs)) @ ''-'' @ sfx, cs))"

section \<open>Verification and quarantine\<close>

definition sync_directory :: "cas \<Rightarrow> unit res \<times> cas" where
  "sync_directory cs = (case take_fault cs CasDirectorySync of
     (Continue, cs) \<Rightarrow> andthen (syscall cs) (\<lambda>_ cs. syscall cs)
   | (action, cs) \<Rightarrow> (Inl (fault_error CasDirectorySync action), cs))"

text \<open>A rename that fails leaves the object where it is; both outcomes are ignored.\<close>

definition quarantine :: "cas \<Rightarrow> utf8 \<Rightarrow> cas" where
  "quarantine cs digest = (case unique_suffix cs of (sfx, cs) \<Rightarrow>
     (case host_call cs of
        (None, cs) \<Rightarrow> snd (sync_directory
          (cs\<lparr>cas_quarantine := (cas_quarantine cs)(digest @ ''.'' @ sfx := cas_objects cs digest),
             cas_objects := (cas_objects cs)(digest := None)\<rparr>))
      | (Some _, cs) \<Rightarrow> snd (sync_directory cs)))"

definition ensure_regular_object :: "cas \<Rightarrow> utf8 \<Rightarrow> utf8 res \<times> cas" where
  "ensure_regular_object cs digest = andthen (syscall cs) (\<lambda>_ cs.
     (case cas_objects cs digest of
        None \<Rightarrow> Inl (NotFound (''CAS object '' @ digest @ '' does not exist''))
      | Some (Regular bytes) \<Rightarrow> Inr bytes
      | Some _ \<Rightarrow> Inl (Integrity (''CAS object '' @ digest @ '' is not a regular file'')), cs))"

text \<open>
  Opening, sizing and reading the file: three calls, after which its bytes are known. The code
  gives two failures of a call an answer of their own, by their kind: a file that disappears
  between two calls is reported as missing, a destination that appears is verified. Here files
  only appear (\<open>arrive\<close> below, which is that second case); a failing call of either kind is
  answered like any other, with the error of the host.
\<close>

definition read_object :: "cas \<Rightarrow> utf8 \<Rightarrow> utf8 res \<times> cas" where
  "read_object cs digest = andthen (ensure_regular_object cs digest) (\<lambda>bytes cs.
     andthen (syscall cs) (\<lambda>_ cs. andthen (syscall cs) (\<lambda>_ cs. andthen (syscall cs) (\<lambda>_ cs. (Inr bytes, cs)))))"

definition verify_existing :: "externals \<Rightarrow> cas \<Rightarrow> utf8 \<Rightarrow> utf8 \<Rightarrow> nat \<Rightarrow> unit res \<times> cas" where
  "verify_existing X cs domain digest expected_size = andthen (read_object cs digest) (\<lambda>bytes cs.
     if length bytes \<noteq> expected_size \<or> digest_for X domain bytes \<noteq> digest
     then (Inl (Integrity (''immutable CAS collision or corrupt object '' @ digest)), quarantine cs digest)
     else if contains_secret (cas_redactor cs) bytes
     then (Inl (Integrity ''configured secret detected in CAS object''), quarantine cs digest)
     else (Inr (), cs))"

definition get :: "externals \<Rightarrow> cas \<Rightarrow> utf8 \<Rightarrow> utf8 \<Rightarrow> utf8 res \<times> cas" where
  "get X cs domain digest =
     (case validate_domain domain of
        Inl e \<Rightarrow> (Inl e, cs)
      | Inr _ \<Rightarrow> andthen (read_object cs digest) (\<lambda>bytes cs.
          if digest_for X domain bytes \<noteq> digest
          then (Inl (Integrity (''CAS object '' @ digest @ '' failed size or digest verification'')),
            quarantine cs digest)
          else if contains_secret (cas_redactor cs) bytes
          then (Inl (Integrity ''configured secret detected in CAS object''), quarantine cs digest)
          else (Inr bytes, cs)))"

definition exists_object :: "cas \<Rightarrow> utf8 \<Rightarrow> bool \<times> cas" where
  "exists_object cs digest = (case host_call cs of
     (None, cs) \<Rightarrow> ((case cas_objects cs digest of Some (Regular _) \<Rightarrow> True | _ \<Rightarrow> False), cs)
   | (Some _, cs) \<Rightarrow> (False, cs))"

section \<open>Publication\<close>

text \<open>\<open>Path::exists\<close> follows links and answers no when the call fails.\<close>

definition path_exists :: "cas \<Rightarrow> utf8 \<Rightarrow> bool \<times> cas" where
  "path_exists cs digest = (case host_call cs of
     (None, cs) \<Rightarrow> ((case cas_objects cs digest of None \<Rightarrow> False | Some (Link target) \<Rightarrow> target | Some _ \<Rightarrow> True), cs)
   | (Some _, cs) \<Rightarrow> (False, cs))"

definition create_staging :: "cas \<Rightarrow> utf8 \<Rightarrow> unit res \<times> cas" where
  "create_staging cs name = andthen (syscall cs) (\<lambda>_ cs.
     if cas_staging cs name \<noteq> None
     then (Inl (from_io (host_platform (cas_host cs)) (host_exists_error (cas_host cs))), cs)
     else (Inr (), cs\<lparr>cas_staging := (cas_staging cs)(name := Some [])\<rparr>))"

definition write_all :: "cas \<Rightarrow> utf8 \<Rightarrow> utf8 \<Rightarrow> unit res \<times> cas" where
  "write_all cs name bytes = (case host_call cs of
     (None, cs) \<Rightarrow> (Inr (), cs\<lparr>cas_staging := (cas_staging cs)(name := Some bytes)\<rparr>)
   | (Some (e, n), cs) \<Rightarrow> (Inl (from_io (host_platform (cas_host cs)) e),
       cs\<lparr>cas_staging := (cas_staging cs)(name := Some (take n bytes))\<rparr>))"

definition write_staging :: "cas \<Rightarrow> utf8 \<Rightarrow> utf8 \<Rightarrow> unit res \<times> cas" where
  "write_staging cs name bytes = (case take_fault cs StagingWrite of
     (Continue, cs) \<Rightarrow> andthen (write_all cs name bytes) (\<lambda>_ cs. syscall cs)
   | (FailNow, cs) \<Rightarrow> (Inl (fault_error StagingWrite FailNow), cs)
   | (DenyPermission, cs) \<Rightarrow> (Inl (fault_error StagingWrite DenyPermission), cs)
   | (ShortWrite limit, cs) \<Rightarrow>
       andthen (if min limit (length bytes) > 0 then write_all cs name (take (min limit (length bytes)) bytes)
                else (Inr (), cs))
         (\<lambda>_ cs. (Inl (fault_error StagingWrite (ShortWrite limit)), cs))
   | (QuotaExhausted limit, cs) \<Rightarrow>
       andthen (if min limit (length bytes) > 0 then write_all cs name (take (min limit (length bytes)) bytes)
                else (Inr (), cs))
         (\<lambda>_ cs. (Inl (fault_error StagingWrite (QuotaExhausted limit)), cs)))"

definition remove_staging :: "cas \<Rightarrow> utf8 \<Rightarrow> unit res \<times> cas" where
  "remove_staging cs name = andthen (syscall cs) (\<lambda>_ cs.
     (Inr (), cs\<lparr>cas_staging := (cas_staging cs)(name := None)\<rparr>))"

text \<open>What another writer publishes between the check of the destination and the link.\<close>

definition arrive :: "cas \<Rightarrow> cas" where
  "arrive cs = (case cas_arrival cs of
     None \<Rightarrow> cs
   | Some (digest, n) \<Rightarrow> cs\<lparr>cas_arrival := None,
       cas_objects := (if cas_objects cs digest = None then (cas_objects cs)(digest := Some n)
         else cas_objects cs)\<rparr>)"

definition publish_staged ::
  "externals \<Rightarrow> cas \<Rightarrow> utf8 \<Rightarrow> utf8 \<Rightarrow> utf8 \<Rightarrow> nat \<Rightarrow> unit res \<times> cas" where
  "publish_staged X cs name domain expected expected_size =
     (let cs = arrive cs in
      case host_call cs of
        (Some (e, _), cs) \<Rightarrow>
          (Inl (from_io (host_platform (cas_host cs)) e), snd (remove_staging cs name))
      | (None, cs) \<Rightarrow>
          if cas_objects cs expected \<noteq> None
          then verify_existing X (snd (remove_staging cs name)) domain expected expected_size
          else andthen (remove_staging
              (cs\<lparr>cas_objects := (cas_objects cs)(expected := map_option Regular (cas_staging cs name))\<rparr>) name)
            (\<lambda>_ cs. andthen (sync_directory cs) (\<lambda>_ cs. sync_directory cs)))"

definition put_verified ::
  "externals \<Rightarrow> cas \<Rightarrow> utf8 \<Rightarrow> utf8 \<Rightarrow> utf8 \<Rightarrow> unit res \<times> cas" where
  "put_verified X cs domain expected bytes =
     (case validate_domain domain of Inl e \<Rightarrow> (Inl e, cs) | Inr _ \<Rightarrow>
     (case assert_clean_bytes (cas_redactor cs) bytes ''CAS publication'' of Inl e \<Rightarrow> (Inl e, cs) | Inr _ \<Rightarrow>
      if digest_for X domain bytes \<noteq> expected
      then (Inl (Integrity (''CAS digest mismatch: expected '' @ expected @ '', got '' @ digest_for X domain bytes)), cs)
      else (case path_exists cs expected of
        (True, cs) \<Rightarrow> verify_existing X cs domain expected (length bytes)
      | (False, cs) \<Rightarrow>
          andthen (syscall cs) (\<lambda>_ cs.
          case new_staging_path cs of (name, cs) \<Rightarrow>
          andthen (create_staging cs name) (\<lambda>_ cs.
          case write_staging cs name bytes of
            (Inl e, cs) \<Rightarrow> (Inl e, snd (remove_staging cs name))
          | (Inr _, cs) \<Rightarrow>
              (case take_fault cs Publication of
                 (Continue, cs) \<Rightarrow> publish_staged X cs name domain expected (length bytes)
               | (action, cs) \<Rightarrow>
                   (Inl (fault_error Publication action), snd (remove_staging cs name))))))))"

definition put :: "externals \<Rightarrow> cas \<Rightarrow> utf8 \<Rightarrow> utf8 \<Rightarrow> utf8 res \<times> cas" where
  "put X cs domain bytes =
     (case validate_domain domain of Inl e \<Rightarrow> (Inl e, cs) | Inr _ \<Rightarrow>
      andthen (put_verified X cs domain (digest_for X domain bytes) bytes)
        (\<lambda>_ cs. (Inr (digest_for X domain bytes), cs)))"


section \<open>What the steps leave alone\<close>

text \<open>Calls that only read change nothing but the list of coming outcomes, the failpoint and the
  counter of suffixes.\<close>

definition quiet :: "cas \<Rightarrow> cas \<Rightarrow> bool" where
  "quiet cs cs' \<longleftrightarrow> cas_host cs' = cas_host cs \<and> cas_redactor cs' = cas_redactor cs
     \<and> cas_objects cs' = cas_objects cs \<and> cas_staging cs' = cas_staging cs
     \<and> cas_arrival cs' = cas_arrival cs \<and> cas_sequence cs' = cas_sequence cs
     \<and> (cas_calls cs = [] \<longrightarrow> cas_calls cs' = [])"

lemma quiet_refl [simp]: "quiet cs cs"
  by (simp add: quiet_def)

lemma quiet_trans: "quiet a b \<Longrightarrow> quiet b c \<Longrightarrow> quiet a c"
  by (simp add: quiet_def)

lemma quietD:
  assumes "quiet cs cs'"
  shows "cas_host cs' = cas_host cs" "cas_redactor cs' = cas_redactor cs" "cas_objects cs' = cas_objects cs"
    "cas_staging cs' = cas_staging cs" "cas_arrival cs' = cas_arrival cs" "cas_sequence cs' = cas_sequence cs"
    "cas_calls cs = [] \<Longrightarrow> cas_calls cs' = []"
  using assms by (simp_all add: quiet_def)

lemma quiet_host_call: "host_call cs = (c, cs') \<Longrightarrow> quiet cs cs'"
  by (auto simp: host_call_def quiet_def split: list.splits)

lemma quiet_take_fault: "take_fault cs p = (a, cs') \<Longrightarrow> quiet cs cs'"
  by (auto simp: take_fault_def quiet_def split: prod.splits)

lemma andthen_rule:
  assumes "\<And>e cs'. m = (Inl e, cs') \<Longrightarrow> P (Inl e, cs')" "\<And>x cs'. m = (Inr x, cs') \<Longrightarrow> P (f x cs')"
  shows "P (andthen m f)"
  using assms by (simp add: andthen_def split: prod.split sum.split)

lemma quiet_syscall: "quiet cs (snd (syscall cs))"
  using quiet_host_call[of cs] by (auto simp: syscall_def split: prod.split option.split)

lemma syscall_rule:
  assumes "\<And>e cs'. quiet cs cs' \<Longrightarrow> P (Inl e, cs')" "\<And>cs'. quiet cs cs' \<Longrightarrow> P (f () cs')"
  shows "P (andthen (syscall cs) f)"
  by (rule andthen_rule[where P = P]) (use assms quiet_syscall[of cs] in auto)

lemma sync_rule:
  assumes "\<And>e cs'. quiet cs cs' \<Longrightarrow> P (Inl e, cs')" "\<And>cs'. quiet cs cs' \<Longrightarrow> P (Inr (), cs')"
  shows "P (sync_directory cs)"
proof -
  obtain a cs1 where f: "take_fault cs CasDirectorySync = (a, cs1)" by fastforce
  note q = quiet_take_fault[OF f]
  have "P (andthen (syscall cs1) (\<lambda>_ cs. syscall cs))"
  proof (rule syscall_rule)
    fix e cs' assume "quiet cs1 cs'" then show "P (Inl e, cs')" by (intro assms(1) quiet_trans[OF q])
  next
    fix cs' assume q': "quiet cs1 cs'"
    obtain r cs2 where s: "syscall cs' = (r, cs2)" by fastforce
    with quiet_syscall[of cs'] have "quiet cs cs2" using quiet_trans[OF quiet_trans[OF q q']] by simp
    with assms s show "P (syscall cs')" by (cases r) simp_all
  qed
  with assms(1)[OF q] show ?thesis by (simp add: sync_directory_def f split: cas_fault_action.split)
qed

lemma quiet_sync: "quiet cs (snd (sync_directory cs))"
  by (rule sync_rule[where P = "\<lambda>r. quiet cs (snd r)"]) simp_all

lemma andthen_simps [simp]:
  "andthen (Inl e, cs) f = (Inl e, cs)" "andthen (Inr x, cs) f = f x cs"
  "andthen (andthen m g) f = andthen m (\<lambda>x cs. andthen (g x cs) f)"
  by (auto simp: andthen_def split: prod.split sum.split)

text \<open>What reading an object finds.\<close>

lemma ensure_rule:
  assumes "\<And>e cs'. quiet cs cs' \<Longrightarrow> P (Inl e, cs')"
    and "\<And>bytes cs'. quiet cs cs' \<Longrightarrow> cas_objects cs digest = Some (Regular bytes) \<Longrightarrow> P (f bytes cs')"
  shows "P (andthen (ensure_regular_object cs digest) f)"
  unfolding ensure_regular_object_def andthen_simps
proof (rule syscall_rule)
  fix cs' assume q: "quiet cs cs'"
  then show "P (andthen (case cas_objects cs' digest of
        None \<Rightarrow> Inl (NotFound (''CAS object '' @ digest @ '' does not exist''))
      | Some (Regular bytes) \<Rightarrow> Inr bytes
      | Some _ \<Rightarrow> Inl (Integrity (''CAS object '' @ digest @ '' is not a regular file'')), cs') f)"
    unfolding quietD(3)[OF q] using assms by (simp split: option.split node.split)
qed (rule assms(1))

lemma read_rule:
  assumes "\<And>e cs'. quiet cs cs' \<Longrightarrow> P (Inl e, cs')"
    and "\<And>bytes cs'. quiet cs cs' \<Longrightarrow> cas_objects cs digest = Some (Regular bytes) \<Longrightarrow> P (f bytes cs')"
  shows "P (andthen (read_object cs digest) f)"
  unfolding read_object_def andthen_simps
proof (rule ensure_rule)
  fix bytes cs1 assume q1: "quiet cs cs1" and o: "cas_objects cs digest = Some (Regular bytes)"
  note fail = assms(1)[OF quiet_trans[OF q1]]
  show "P (andthen (syscall cs1) (\<lambda>x cs. andthen (syscall cs) (\<lambda>x cs. andthen (syscall cs) (\<lambda>x cs. f bytes cs))))"
  proof (rule syscall_rule, rule fail, assumption)
    fix cs2 assume q2: "quiet cs1 cs2"
    show "P (andthen (syscall cs2) (\<lambda>x cs. andthen (syscall cs) (\<lambda>x cs. f bytes cs)))"
    proof (rule syscall_rule, rule fail, erule quiet_trans[OF q2])
      fix cs3 assume q3: "quiet cs2 cs3"
      show "P (andthen (syscall cs3) (\<lambda>x cs. f bytes cs))"
        by (rule syscall_rule, rule fail, erule quiet_trans[OF quiet_trans[OF q2 q3]])
          (rule assms(2)[OF _ o], erule quiet_trans[OF quiet_trans[OF q1 quiet_trans[OF q2 q3]]])
    qed
  qed
qed (rule assms(1))

section \<open>Verification\<close>

text \<open>What a verified object is, for the domain and digest it is asked under.\<close>

definition verified :: "externals \<Rightarrow> redactor \<Rightarrow> utf8 \<Rightarrow> utf8 \<Rightarrow> utf8 \<Rightarrow> bool" where
  "verified X r domain digest bytes \<longleftrightarrow> validate_domain domain = Inr ()
     \<and> digest_for X domain bytes = digest \<and> \<not> contains_secret r bytes"

text \<open>A step keeps the files, or it moves away an object that did not verify.\<close>

definition dropped :: "cas \<Rightarrow> utf8 \<Rightarrow> cas \<Rightarrow> bool" where
  "dropped cs digest cs' \<longleftrightarrow> cas_host cs' = cas_host cs \<and> cas_redactor cs' = cas_redactor cs
     \<and> cas_staging cs' = cas_staging cs \<and> cas_arrival cs' = cas_arrival cs
     \<and> cas_sequence cs' = cas_sequence cs + 1 \<and> (cas_calls cs = [] \<longrightarrow> cas_calls cs' = [])
     \<and> (cas_objects cs' = cas_objects cs \<or> cas_objects cs' = (cas_objects cs)(digest := None))"

lemma quarantine_drops: "dropped cs digest (quarantine cs digest)"
proof -
  obtain sfx cs1 where s: "unique_suffix cs = (sfx, cs1)" by fastforce
  then have cs1: "cs1 = cs\<lparr>cas_sequence := cas_sequence cs + 1\<rparr>" by (simp add: unique_suffix_def)
  obtain c cs2 where h: "host_call cs1 = (c, cs2)" by fastforce
  note q = quiet_host_call[OF h, unfolded cs1]
  let ?cs3 = "cs2\<lparr>cas_quarantine := (cas_quarantine cs2)(digest @ ''.'' @ sfx := cas_objects cs2 digest),
             cas_objects := (cas_objects cs2)(digest := None)\<rparr>"
  show ?thesis
  proof (cases c)
    case None
    then have "quarantine cs digest = snd (sync_directory ?cs3)" by (simp add: quarantine_def s h)
    with quietD[OF quiet_sync[of ?cs3]] quietD[OF q] show ?thesis by (simp add: dropped_def)
  next
    case (Some e)
    then have "quarantine cs digest = snd (sync_directory cs2)" by (simp add: quarantine_def s h)
    with quietD[OF quiet_sync[of cs2]] quietD[OF q] show ?thesis by (simp add: dropped_def)
  qed
qed

lemma dropped_quiet: "quiet a b \<Longrightarrow> dropped b d c \<Longrightarrow> dropped a d c"
  by (simp add: dropped_def quiet_def)

lemma verify_rule:
  assumes valid: "validate_domain domain = Inr ()"
    and "\<And>e cs'. quiet cs cs' \<Longrightarrow> P (Inl e, cs')"
    and "\<And>e cs' bytes. dropped cs digest cs' \<Longrightarrow> cas_objects cs digest = Some (Regular bytes) \<Longrightarrow>
      \<not> (length bytes = n \<and> verified X (cas_redactor cs) domain digest bytes) \<Longrightarrow> P (Inl e, cs')"
    and "\<And>cs' bytes. quiet cs cs' \<Longrightarrow> cas_objects cs digest = Some (Regular bytes) \<Longrightarrow> length bytes = n \<Longrightarrow>
      verified X (cas_redactor cs) domain digest bytes \<Longrightarrow> P (Inr (), cs')"
  shows "P (verify_existing X cs domain digest n)"
  unfolding verify_existing_def
proof (rule read_rule, rule assms(2), assumption)
  fix bytes cs' assume q: "quiet cs cs'" and o: "cas_objects cs digest = Some (Regular bytes)"
  note d = dropped_quiet[OF q quarantine_drops]
  show "P (if length bytes \<noteq> n \<or> digest_for X domain bytes \<noteq> digest
     then (Inl (Integrity (''immutable CAS collision or corrupt object '' @ digest)), quarantine cs' digest)
     else if contains_secret (cas_redactor cs') bytes
     then (Inl (Integrity ''configured secret detected in CAS object''), quarantine cs' digest)
     else (Inr (), cs'))"
  proof (cases "length bytes = n \<and> verified X (cas_redactor cs) domain digest bytes")
    case True
    with assms(4)[OF q o] quietD(2)[OF q] show ?thesis by (simp add: verified_def)
  next
    case False
    from assms(3)[OF d o False] have "P (Inl e, quarantine cs' digest)" for e .
    with False quietD(2)[OF q] show ?thesis by (auto simp: verified_def valid)
  qed
qed

lemma get_rule:
  assumes "\<And>e. validate_domain domain = Inl e \<Longrightarrow> P (Inl e, cs)" "\<And>e cs'. quiet cs cs' \<Longrightarrow> P (Inl e, cs')"
    and "\<And>e cs' bytes. dropped cs digest cs' \<Longrightarrow> cas_objects cs digest = Some (Regular bytes) \<Longrightarrow>
      \<not> verified X (cas_redactor cs) domain digest bytes \<Longrightarrow> P (Inl e, cs')"
    and "\<And>cs' bytes. quiet cs cs' \<Longrightarrow> cas_objects cs digest = Some (Regular bytes) \<Longrightarrow>
      verified X (cas_redactor cs) domain digest bytes \<Longrightarrow> P (Inr bytes, cs')"
  shows "P (get X cs domain digest)"
proof (cases "validate_domain domain")
  case (Inr u)
  have "P (andthen (read_object cs digest) (\<lambda>bytes cs.
          if digest_for X domain bytes \<noteq> digest
          then (Inl (Integrity (''CAS object '' @ digest @ '' failed size or digest verification'')),
            quarantine cs digest)
          else if contains_secret (cas_redactor cs) bytes
          then (Inl (Integrity ''configured secret detected in CAS object''), quarantine cs digest)
          else (Inr bytes, cs)))"
  proof (rule read_rule, rule assms(2), assumption)
    fix bytes cs' assume q: "quiet cs cs'" and o: "cas_objects cs digest = Some (Regular bytes)"
    note d = dropped_quiet[OF q quarantine_drops]
    show "P (if digest_for X domain bytes \<noteq> digest
       then (Inl (Integrity (''CAS object '' @ digest @ '' failed size or digest verification'')), quarantine cs' digest)
       else if contains_secret (cas_redactor cs') bytes
       then (Inl (Integrity ''configured secret detected in CAS object''), quarantine cs' digest)
       else (Inr bytes, cs'))"
    proof (cases "verified X (cas_redactor cs) domain digest bytes")
      case True
      with assms(4)[OF q o] quietD(2)[OF q] show ?thesis by (simp add: verified_def)
    next
      case False
      from assms(3)[OF d o False] have "P (Inl e, quarantine cs' digest)" for e .
      with False quietD(2)[OF q] Inr show ?thesis by (auto simp: verified_def)
    qed
  qed
  with Inr show ?thesis by (simp add: get_def)
qed (simp add: get_def assms(1))


section \<open>What a publication leaves\<close>

text \<open>The name of the staging file a publication uses.\<close>

definition staging_name :: "host \<Rightarrow> nat \<Rightarrow> utf8" where
  "staging_name h i = ''.object-'' @ show_nat (host_pid h) @ ''-'' @ show_hex (host_nanos h i) @ ''-'' @ show_hex i"

lemma new_staging_path_eq:
  "new_staging_path cs = (staging_name (cas_host cs) (cas_sequence cs), cs\<lparr>cas_sequence := cas_sequence cs + 1\<rparr>)"
  by (simp add: new_staging_path_def unique_suffix_def staging_name_def)

text \<open>While the staging file is there: its contents, and everything else as at \<open>cs\<close>.\<close>

definition holding :: "cas \<Rightarrow> utf8 \<Rightarrow> utf8 \<Rightarrow> cas \<Rightarrow> bool" where
  "holding cs name c cs1 \<longleftrightarrow> cas_host cs1 = cas_host cs \<and> cas_redactor cs1 = cas_redactor cs
     \<and> cas_objects cs1 = cas_objects cs \<and> cas_arrival cs1 = cas_arrival cs
     \<and> cas_sequence cs1 = cas_sequence cs + 1 \<and> (cas_calls cs = [] \<longrightarrow> cas_calls cs1 = [])
     \<and> cas_staging cs name = None \<and> cas_staging cs1 = (cas_staging cs)(name := Some c)"

text \<open>At the end: the staging file is gone unless a system call failed; an object was added whole,
  moved away because it did not verify, or nothing happened; and an answer means a verified object.\<close>

definition tidy :: "cas \<Rightarrow> cas \<Rightarrow> bool" where
  "tidy cs cs' \<longleftrightarrow> cas_host cs' = cas_host cs \<and> cas_redactor cs' = cas_redactor cs
     \<and> cas_sequence cs \<le> cas_sequence cs' \<and> (cas_calls cs = [] \<longrightarrow> cas_calls cs' = [])
     \<and> (cas_staging cs' = cas_staging cs \<or> (cas_calls cs \<noteq> [] \<and> cas_sequence cs < cas_sequence cs'
          \<and> (\<exists>c. cas_staging cs' = (cas_staging cs)(staging_name (cas_host cs) (cas_sequence cs) := c))))"

definition placed :: "externals \<Rightarrow> cas \<Rightarrow> utf8 \<Rightarrow> utf8 \<Rightarrow> utf8 \<Rightarrow> unit res \<times> cas \<Rightarrow> bool" where
  "placed X cs domain digest bytes r \<longleftrightarrow>
     (let good = (\<lambda>b. length b = length bytes \<and> verified X (cas_redactor cs) domain digest b) in
      (cas_objects (snd r) = cas_objects cs
       \<or> (cas_objects (snd r) = (cas_objects cs)(digest := None)
          \<and> good bytes \<and> (\<exists>b. cas_objects cs digest = Some (Regular b) \<and> \<not> good b))
       \<or> (cas_objects cs digest = None \<and> good bytes \<and> cas_objects (snd r) = (cas_objects cs)(digest := Some (Regular bytes))))
      \<and> (fst r = Inr () \<longrightarrow> (\<exists>b. cas_objects (snd r) digest = Some (Regular b) \<and> good b)))"

definition put_left :: "externals \<Rightarrow> cas \<Rightarrow> utf8 \<Rightarrow> utf8 \<Rightarrow> utf8 \<Rightarrow> unit res \<times> cas \<Rightarrow> bool" where
  "put_left X cs domain digest bytes r \<longleftrightarrow> tidy cs (snd r)
     \<and> (placed X cs domain digest bytes r \<or> placed X (arrive cs) domain digest bytes r)"

lemma arrive_same [simp]:
  "cas_host (arrive cs) = cas_host cs" "cas_redactor (arrive cs) = cas_redactor cs"
  "cas_staging (arrive cs) = cas_staging cs" "cas_sequence (arrive cs) = cas_sequence cs"
  "cas_calls (arrive cs) = cas_calls cs"
  by (simp_all add: arrive_def split: option.split)

lemma holding_quiet: "holding cs name c a \<Longrightarrow> quiet a b \<Longrightarrow> holding cs name c b"
  by (simp add: holding_def quiet_def)

lemma holding_arrive: "holding cs name c a \<Longrightarrow> holding (arrive cs) name c (arrive a)"
  by (cases "cas_arrival cs") (auto simp: holding_def arrive_def)

text \<open>Removing the staging file, and the state after it.\<close>

definition removed :: "cas \<Rightarrow> utf8 \<Rightarrow> cas \<Rightarrow> bool" where
  "removed cs name cs1 \<longleftrightarrow> cas_host cs1 = cas_host cs \<and> cas_redactor cs1 = cas_redactor cs
     \<and> cas_arrival cs1 = cas_arrival cs \<and> cas_sequence cs1 = cas_sequence cs + 1
     \<and> (cas_calls cs = [] \<longrightarrow> cas_calls cs1 = [])
     \<and> (cas_staging cs1 = cas_staging cs \<or> (cas_calls cs \<noteq> [] \<and> (\<exists>c. cas_staging cs1 = (cas_staging cs)(name := Some c))))"

lemma remove_holding:
  assumes "holding cs name c a"
  shows "removed cs name (snd (remove_staging (a\<lparr>cas_objects := objs\<rparr>) name))
    \<and> cas_objects (snd (remove_staging (a\<lparr>cas_objects := objs\<rparr>) name)) = objs"
proof -
  have hold: "cas_staging cs name = None" "cas_staging a = (cas_staging cs)(name := Some c)"
    using assms by (simp_all add: holding_def)
  then have gone: "(cas_staging a)(name := None) = cas_staging cs" by (simp add: fun_upd_idem)
  show ?thesis
    using assms gone
    by (cases "cas_calls a")
      (auto simp: remove_staging_def syscall_def host_call_def removed_def holding_def split: option.split)
qed

lemma remove_held:
  assumes "holding cs name c a"
  shows "removed cs name (snd (remove_staging a name))" "cas_objects (snd (remove_staging a name)) = cas_objects cs"
  using remove_holding[OF assms, of "cas_objects a"] assms by (simp_all add: holding_def)

lemma removed_tidy:
  assumes "removed cs (staging_name (cas_host cs) (cas_sequence cs)) a" "quiet a b \<or> dropped a d b"
  shows "tidy cs b"
  using assms by (auto simp: removed_def quiet_def dropped_def tidy_def)

lemma tidy_arrive: "tidy (arrive cs) b \<Longrightarrow> tidy cs b"
  by (simp add: tidy_def)

lemma sync_then_rule:
  assumes "\<And>e cs'. quiet cs cs' \<Longrightarrow> P (Inl e, cs')" "\<And>cs'. quiet cs cs' \<Longrightarrow> P (f () cs')"
  shows "P (andthen (sync_directory cs) f)"
  by (rule sync_rule[where P = "\<lambda>r. P (andthen r f)"]) (use assms in simp_all)

text \<open>The three ends of a publication, after the staging file was removed.\<close>

lemma placed_same:
  assumes "removed cs (staging_name (cas_host cs) (cas_sequence cs)) a" "cas_objects a = cas_objects cs" "quiet a b"
  shows "tidy cs b \<and> placed X cs domain d bytes (Inl e, b)"
  using assms removed_tidy[of cs a b d] by (simp add: placed_def quiet_def)

lemma placed_new:
  assumes "removed cs (staging_name (cas_host cs) (cas_sequence cs)) a"
    and "cas_objects cs d = None" "cas_objects a = (cas_objects cs)(d := Some (Regular bytes))"
    and "verified X (cas_redactor cs) domain d bytes" "quiet a b"
  shows "tidy cs b \<and> placed X cs domain d bytes (out, b)"
  using assms removed_tidy[of cs a b d] by (simp add: placed_def quiet_def)

lemma placed_verified:
  assumes rem: "removed cs (staging_name (cas_host cs) (cas_sequence cs)) a" and o: "cas_objects a = cas_objects cs"
    and good: "verified X (cas_redactor cs) domain d bytes"
  shows "tidy cs (snd (verify_existing X a domain d (length bytes)))
    \<and> placed X cs domain d bytes (verify_existing X a domain d (length bytes))"
proof (rule verify_rule[where P = "\<lambda>r. tidy cs (snd r) \<and> placed X cs domain d bytes r"])
  show "validate_domain domain = Inr ()" using good by (simp add: verified_def)
next
  fix b e assume "quiet a b"
  with placed_same[OF rem o] show "tidy cs (snd (Inl e, b)) \<and> placed X cs domain d bytes (Inl e, b)" by simp
next
  have red: "cas_redactor a = cas_redactor cs" using rem by (simp add: removed_def)
  fix b' c e assume drop: "dropped a d b'" and c: "cas_objects a d = Some (Regular c)"
    and bad: "\<not> (length c = length bytes \<and> verified X (cas_redactor a) domain d c)"
  have "cas_objects b' = cas_objects cs \<or> cas_objects b' = (cas_objects cs)(d := None)"
    using drop o by (simp add: dropped_def)
  with removed_tidy[OF rem disjI2[OF drop]] c bad good show "tidy cs (snd (Inl e, b')) \<and> placed X cs domain d bytes (Inl e, b')"
    unfolding placed_def Let_def o red by auto
next
  have red: "cas_redactor a = cas_redactor cs" using rem by (simp add: removed_def)
  fix b c assume q: "quiet a b" and "cas_objects a d = Some (Regular c)" "length c = length bytes"
    "verified X (cas_redactor a) domain d c"
  with o red quietD(3)[OF q] removed_tidy[OF rem disjI1[OF q]]
  show "tidy cs (snd (Inr (), b)) \<and> placed X cs domain d bytes (Inr (), b)" by (simp add: placed_def)
qed

lemma publish_placed:
  assumes hold: "holding cs (staging_name (cas_host cs) (cas_sequence cs)) bytes a"
    and good: "verified X (cas_redactor cs) domain d bytes" and free: "arrive a = a"
  shows "tidy cs (snd (publish_staged X a (staging_name (cas_host cs) (cas_sequence cs)) domain d (length bytes)))
    \<and> placed X cs domain d bytes
        (publish_staged X a (staging_name (cas_host cs) (cas_sequence cs)) domain d (length bytes))"
proof -
  let ?name = "staging_name (cas_host cs) (cas_sequence cs)"
  let ?P = "\<lambda>r. tidy cs (snd r) \<and> placed X cs domain d bytes r"
  obtain c a2 where h: "host_call a = (c, a2)" by fastforce
  note hold2 = holding_quiet[OF hold quiet_host_call[OF h]]
  note rem = remove_held[OF hold2]
  have same: "cas_objects a2 = cas_objects cs" "cas_staging a2 ?name = Some bytes" using hold2 by (simp_all add: holding_def)
  show ?thesis
  proof (cases c)
    case (Some e)
    then have "publish_staged X a ?name domain d (length bytes)
        = (Inl (from_io (host_platform (cas_host a2)) (fst e)), snd (remove_staging a2 ?name))"
      by (simp add: publish_staged_def Let_def free h split: prod.split)
    with placed_same[OF rem quiet_refl] show ?thesis by simp
  next
    case None
    show ?thesis
    proof (cases "cas_objects cs d")
      case (Some n)
      with None have "publish_staged X a ?name domain d (length bytes)
          = verify_existing X (snd (remove_staging a2 ?name)) domain d (length bytes)"
        by (simp add: publish_staged_def Let_def free h same)
      with placed_verified[OF rem good] show ?thesis by simp
    next
      case n: None
      let ?a3 = "a2\<lparr>cas_objects := (cas_objects cs)(d := Some (Regular bytes))\<rparr>"
      note rem' = remove_holding[OF hold2, of "(cas_objects cs)(d := Some (Regular bytes))"]
      have "?P (andthen (remove_staging ?a3 ?name) (\<lambda>_ cs. andthen (sync_directory cs) (\<lambda>_ cs. sync_directory cs)))"
      proof (rule andthen_rule[where P = ?P])
        fix e b assume "remove_staging ?a3 ?name = (Inl e, b)"
        with placed_new[OF _ n _ good quiet_refl] rem' show "?P (Inl e, b)" by simp
      next
        fix x b assume "remove_staging ?a3 ?name = (Inr x, b)"
        with rem' have b: "removed cs ?name b" "cas_objects b = (cas_objects cs)(d := Some (Regular bytes))" by simp_all
        note fin = placed_new[OF b(1) n b(2) good]
        show "?P (andthen (sync_directory b) (\<lambda>_ cs. sync_directory cs))"
        proof (rule sync_then_rule[where P = ?P])
          fix e b' assume "quiet b b'" then show "?P (Inl e, b')" using fin by simp
        next
          fix b1 assume q: "quiet b b1"
          show "?P (sync_directory b1)" by (rule sync_rule[where P = ?P]) (use fin quiet_trans[OF q] in simp_all)
        qed
      qed
      with None n show ?thesis by (simp add: publish_staged_def Let_def free h same)
    qed
  qed
qed

lemma holding_write:
  assumes "holding cs name c a"
  shows "\<exists>c'. holding cs name c' (snd (write_all a name bytes)) \<and> (fst (write_all a name bytes) = Inr () \<longrightarrow> c' = bytes)"
proof -
  obtain h a2 where h: "host_call a = (h, a2)" by fastforce
  have held: "holding cs name c a2" by (rule holding_quiet[OF assms quiet_host_call[OF h]])
  then have "holding cs name c' (a2\<lparr>cas_staging := (cas_staging a2)(name := Some c')\<rparr>)" for c'
    by (simp add: holding_def)
  then show ?thesis by (auto simp: write_all_def h split: option.split)
qed

lemma write_holding:
  assumes "holding cs name c a"
  shows "\<exists>c'. holding cs name c' (snd (write_staging a name bytes)) \<and> (fst (write_staging a name bytes) = Inr () \<longrightarrow> c' = bytes)"
proof -
  obtain f a2 where f: "take_fault a StagingWrite = (f, a2)" by fastforce
  note held = holding_quiet[OF assms quiet_take_fault[OF f]]
  have cut: "\<exists>c'. holding cs name c' (snd (andthen (if b then write_all a2 name p else (Inr (), a2)) (\<lambda>_ cs. (Inl e, cs))))
      \<and> fst (andthen (if b then write_all a2 name p else (Inr (), a2)) (\<lambda>_ cs. (Inl e, cs))) \<noteq> Inr ()" for b p e
    using held holding_write[OF held, of p]
    by (cases b; cases "fst (write_all a2 name p)"; cases "write_all a2 name p") auto
  have full: "\<exists>c'. holding cs name c' (snd (andthen (write_all a2 name bytes) (\<lambda>_ cs. syscall cs)))
      \<and> (fst (andthen (write_all a2 name bytes) (\<lambda>_ cs. syscall cs)) = Inr () \<longrightarrow> c' = bytes)"
    using holding_write[OF held, of bytes]
    by (cases "fst (write_all a2 name bytes)"; cases "write_all a2 name bytes") (auto intro: holding_quiet[OF _ quiet_syscall])
  show ?thesis
  proof (cases f)
    case (ShortWrite limit)
    with cut[of "min limit (length bytes) > 0" "take (min limit (length bytes)) bytes"] show ?thesis
      by (simp only: write_staging_def f prod.case cas_fault_action.case) blast
  next
    case (QuotaExhausted limit)
    with cut[of "min limit (length bytes) > 0" "take (min limit (length bytes)) bytes"] show ?thesis
      by (simp only: write_staging_def f prod.case cas_fault_action.case) blast
  qed (use held full in \<open>auto simp: write_staging_def f\<close>)
qed

lemma publish_arrive: "publish_staged X (arrive a) name domain d n = publish_staged X a name domain d n"
proof -
  have "arrive (arrive a) = arrive a" by (simp add: arrive_def split: option.split)
  then show ?thesis by (simp add: publish_staged_def Let_def)
qed

lemma put_left_fail:
  assumes "quiet cs a"
  shows "put_left X cs domain d bytes (Inl e, a)" "quiet (a\<lparr>cas_sequence := cas_sequence a + 1\<rparr>) b \<Longrightarrow> put_left X cs domain d bytes (Inl e, b)"
  using assms by (simp_all add: put_left_def tidy_def placed_def quiet_def)

lemma put_left_removed:
  assumes "holding cs (staging_name (cas_host cs) (cas_sequence cs)) c a"
  shows "put_left X cs domain d bytes (Inl e, snd (remove_staging a (staging_name (cas_host cs) (cas_sequence cs))))"
  using placed_same[OF remove_held[OF assms] quiet_refl] by (simp add: put_left_def)

lemma put_left_published:
  assumes hold: "holding cs (staging_name (cas_host cs) (cas_sequence cs)) bytes a"
    and good: "verified X (cas_redactor cs) domain d bytes"
  shows "put_left X cs domain d bytes
    (publish_staged X a (staging_name (cas_host cs) (cas_sequence cs)) domain d (length bytes))"
proof -
  have again: "arrive (arrive a) = arrive a" by (simp add: arrive_def split: option.split)
  from publish_placed[of "arrive cs", OF _ _ again] holding_arrive[OF hold] good tidy_arrive
  show ?thesis by (simp add: put_left_def publish_arrive)
qed

lemma put_left_verified:
  assumes q: "quiet cs a" and good: "verified X (cas_redactor cs) domain d bytes"
  shows "put_left X cs domain d bytes (verify_existing X a domain d (length bytes))"
proof (rule verify_rule)
  show "validate_domain domain = Inr ()" using good by (simp add: verified_def)
next
  fix e b assume "quiet a b"
  with q quiet_trans show "put_left X cs domain d bytes (Inl e, b)" by (blast intro: put_left_fail(1))
next
  fix e b c assume "dropped a d b" and c: "cas_objects a d = Some (Regular c)"
    and bad: "\<not> (length c = length bytes \<and> verified X (cas_redactor a) domain d c)"
  note drop = dropped_quiet[OF q this(1)]
  have "cas_objects b = cas_objects cs \<or> cas_objects b = (cas_objects cs)(d := None)"
    using drop by (simp add: dropped_def)
  moreover have "tidy cs b" using drop by (auto simp: dropped_def tidy_def)
  ultimately show "put_left X cs domain d bytes (Inl e, b)"
    using c bad good unfolding put_left_def placed_def Let_def quietD(2,3)[OF q] by auto
next
  fix b c assume "quiet a b" and c: "cas_objects a d = Some (Regular c)" "length c = length bytes"
    "verified X (cas_redactor a) domain d c"
  note b = quiet_trans[OF q this(1)]
  with c quietD[OF q] quietD[OF b] show "put_left X cs domain d bytes (Inr (), b)"
    by (simp add: put_left_def placed_def tidy_def)
qed

lemma put_verified_left: "put_left X cs domain d bytes (put_verified X cs domain d bytes)"
proof (cases "validate_domain domain = Inr () \<and> \<not> contains_secret (cas_redactor cs) bytes \<and> digest_for X domain bytes = d")
  case False
  then have "\<exists>e. put_verified X cs domain d bytes = (Inl e, cs)"
    by (cases "validate_domain domain") (auto simp: put_verified_def assert_clean_bytes_def)
  with put_left_fail(1)[OF quiet_refl] show ?thesis by auto
next
  case True
  let ?P = "put_left X cs domain d bytes" and ?name = "staging_name (cas_host cs) (cas_sequence cs)"
  have good: "verified X (cas_redactor cs) domain d bytes" using True by (simp add: verified_def)
  obtain ex a where pe: "path_exists cs d = (ex, a)" by fastforce
  then have q: "quiet cs a"
    by (auto simp: path_exists_def dest: quiet_host_call split: prod.splits option.splits)
  have staged: "?P (case write_staging b ?name bytes of
            (Inl e, cs) \<Rightarrow> (Inl e, snd (remove_staging cs ?name))
          | (Inr _, cs) \<Rightarrow>
              (case take_fault cs Publication of
                 (Continue, cs) \<Rightarrow> publish_staged X cs ?name domain d (length bytes)
               | (action, cs) \<Rightarrow> (Inl (fault_error Publication action), snd (remove_staging cs ?name))))"
    if hold: "holding cs ?name [] b" for b
  proof -
    obtain out w where w: "write_staging b ?name bytes = (out, w)" by fastforce
    with write_holding[OF hold, of bytes] obtain c' where c: "holding cs ?name c' w" "out = Inr () \<longrightarrow> c' = bytes" by auto
    obtain f v where f: "take_fault w Publication = (f, v)" by fastforce
    note held = holding_quiet[OF c(1) quiet_take_fault[OF f]]
    show ?thesis
      using put_left_removed[OF c(1)] put_left_removed[OF held] put_left_published[OF _ good, of v] held c(2)
      by (cases out; cases f) (simp_all add: w f)
  qed
  have "?P (andthen (syscall a) (\<lambda>_ cs.
          case new_staging_path cs of (name, cs) \<Rightarrow>
          andthen (create_staging cs name) (\<lambda>_ cs.
          case write_staging cs name bytes of
            (Inl e, cs) \<Rightarrow> (Inl e, snd (remove_staging cs name))
          | (Inr _, cs) \<Rightarrow>
              (case take_fault cs Publication of
                 (Continue, cs) \<Rightarrow> publish_staged X cs name domain d (length bytes)
               | (action, cs) \<Rightarrow> (Inl (fault_error Publication action), snd (remove_staging cs name))))))"
  proof (rule syscall_rule)
    fix e b assume "quiet a b" then show "?P (Inl e, b)" by (intro put_left_fail(1) quiet_trans[OF q])
  next
    fix b assume "quiet a b"
    note qb = quiet_trans[OF q this]
    let ?b = "b\<lparr>cas_sequence := cas_sequence b + 1\<rparr>"
    have name: "new_staging_path b = (?name, ?b)" using quietD[OF qb] by (simp add: new_staging_path_eq)
    have "?P (andthen (create_staging ?b ?name) k)"
      if k: "\<And>c. holding cs ?name [] c \<Longrightarrow> ?P (k () c)" for k
      unfolding create_staging_def andthen_simps
    proof (rule syscall_rule)
      fix e c assume "quiet ?b c" then show "?P (Inl e, c)" by (rule put_left_fail(2)[OF qb])
    next
      fix c assume c: "quiet ?b c"
      show "?P (andthen (if cas_staging c ?name \<noteq> None
          then (Inl (from_io (host_platform (cas_host c)) (host_exists_error (cas_host c))), c)
          else (Inr (), c\<lparr>cas_staging := (cas_staging c)(?name := Some [])\<rparr>)) k)"
      proof (cases "cas_staging c ?name")
        case None
        then have "holding cs ?name [] (c\<lparr>cas_staging := (cas_staging c)(?name := Some [])\<rparr>)"
          using qb c by (simp add: holding_def quiet_def)
        with k None show ?thesis by simp
      qed (simp add: put_left_fail(2)[OF qb c])
    qed
    from this[OF staged] show "?P (case new_staging_path b of (name, cs) \<Rightarrow>
          andthen (create_staging cs name) (\<lambda>_ cs.
          case write_staging cs name bytes of
            (Inl e, cs) \<Rightarrow> (Inl e, snd (remove_staging cs name))
          | (Inr _, cs) \<Rightarrow>
              (case take_fault cs Publication of
                 (Continue, cs) \<Rightarrow> publish_staged X cs name domain d (length bytes)
               | (action, cs) \<Rightarrow> (Inl (fault_error Publication action), snd (remove_staging cs name)))))"
      unfolding name prod.case .
  qed
  with True show ?thesis by (cases ex) (simp_all add: put_verified_def assert_clean_bytes_def pe put_left_verified[OF q good])
qed


section \<open>Suffixes\<close>

text \<open>Two staging files of a process never have the same name: the suffix ends with the counter.\<close>

definition hex_value :: "char \<Rightarrow> nat" where
  "hex_value c = (if of_char c < (58::nat) then of_char c - 48 else of_char c - 87)"

lemma hex_value_digit: "n < 16 \<Longrightarrow> hex_value (hex_digit n) = n"
  by (auto simp: hex_value_def hex_digit_def byte_def)

lemma hex_digit_dash: "n < 16 \<Longrightarrow> hex_digit n \<noteq> CHR ''-''"
proof
  assume "n < 16" "hex_digit n = CHR ''-''"
  then have "hex_value CHR ''-'' = n" using hex_value_digit[of n] by simp
  moreover have "hex_value CHR ''-'' = 0" "hex_digit 0 \<noteq> CHR ''-''" by code_simp+
  ultimately show False using \<open>hex_digit n = CHR ''-''\<close> by simp
qed

fun read_hex :: "utf8 \<Rightarrow> nat" where
  "read_hex s = foldl (\<lambda>n c. 16 * n + hex_value c) 0 s"

lemma read_show_hex: "read_hex (show_hex n) = n"
proof (induction n rule: show_hex.induct)
  case (1 n)
  then show ?case by (subst show_hex.simps) (auto simp: hex_value_digit)
qed

lemma show_hex_dash: "CHR ''-'' \<notin> set (show_hex n)"
proof (induction n rule: show_hex.induct)
  case (1 n)
  have "CHR ''-'' \<noteq> hex_digit m" if "m < 16" for m using hex_digit_dash[OF that] by simp
  with 1 show ?case by (subst show_hex.simps) auto
qed

lemma staging_name_inj: "staging_name h i = staging_name h j \<Longrightarrow> i = j"
proof -
  assume "staging_name h i = staging_name h j"
  then have "show_hex (host_nanos h i) @ CHR ''-'' # show_hex i = show_hex (host_nanos h j) @ CHR ''-'' # show_hex j"
    by (simp add: staging_name_def)
  moreover have "dropWhile (\<lambda>c. c \<noteq> CHR ''-'') (show_hex m @ CHR ''-'' # s) = CHR ''-'' # s" for m s
    using show_hex_dash[of m] by (auto simp: dropWhile_append)
  ultimately have "show_hex i = show_hex j" by (metis list.inject)
  then show ?thesis using read_show_hex[of i] read_show_hex[of j] by simp
qed


section \<open>Histories\<close>

text \<open>An object some domain vouches for.\<close>

definition published :: "externals \<Rightarrow> redactor \<Rightarrow> utf8 \<Rightarrow> node \<Rightarrow> bool" where
  "published X r digest n \<longleftrightarrow> (\<exists>domain bytes. n = Regular bytes \<and> verified X r domain digest bytes)"

text \<open>SHA-256, taken to have no collisions.\<close>

definition collision_free :: "externals \<Rightarrow> bool" where
  "collision_free X \<longleftrightarrow> (\<forall>s t. sha256_hex X s = sha256_hex X t \<longrightarrow> s = t)"

lemma valid_domain_nul: "validate_domain domain = Inr () \<Longrightarrow> byte 0 \<notin> set domain"
  by (auto simp: validate_domain_def contains_nul_def byte_def split: if_splits)

lemma verified_unique:
  assumes "collision_free X" "verified X r domain digest bytes" "verified X r' domain' digest bytes'"
  shows "domain = domain' \<and> bytes = bytes'"
proof -
  have "digest_input domain bytes = digest_input domain' bytes'"
    using assms by (simp add: collision_free_def verified_def digest_for_def)
  from digest_input_inj[OF this] assms(2,3) valid_domain_nul show ?thesis by (auto simp: verified_def)
qed

text \<open>What a call meets: an armed failpoint, failing system calls, another writer.\<close>

definition disturbed ::
  "cas_failpoints \<Rightarrow> (io_error \<times> nat) option list \<Rightarrow> (utf8 \<times> node) option \<Rightarrow> cas \<Rightarrow> cas" where
  "disturbed fp calls other cs = cs\<lparr>cas_failpoints := fp, cas_calls := calls, cas_arrival := other\<rparr>"

lemma disturbed_simps [simp]:
  "cas_host (disturbed fp calls other cs) = cas_host cs" "cas_redactor (disturbed fp calls other cs) = cas_redactor cs"
  "cas_objects (disturbed fp calls other cs) = cas_objects cs"
  "cas_staging (disturbed fp calls other cs) = cas_staging cs"
  "cas_sequence (disturbed fp calls other cs) = cas_sequence cs"
  "cas_calls (disturbed fp calls other cs) = calls" "cas_failpoints (disturbed fp calls other cs) = fp"
  "cas_arrival (disturbed fp calls other cs) = other"
  by (simp_all add: disturbed_def)

definition honest :: "externals \<Rightarrow> cas \<Rightarrow> (utf8 \<times> node) option \<Rightarrow> bool" where
  "honest X cs other \<longleftrightarrow> (\<forall>k n. other = Some (k, n) \<longrightarrow> published X (cas_redactor cs) k n)"

inductive cas_step :: "externals \<Rightarrow> cas \<Rightarrow> cas \<Rightarrow> bool" for X where
  put: "honest X cs other \<Longrightarrow> cas_step X cs (snd (put X (disturbed fp calls other cs) domain bytes))"
| put_verified: "honest X cs other \<Longrightarrow>
    cas_step X cs (snd (put_verified X (disturbed fp calls other cs) domain digest bytes))"
| get: "cas_step X cs (snd (get X (disturbed fp calls other cs) domain digest))"
| exists: "cas_step X cs (snd (exists_object (disturbed fp calls other cs) digest))"

text \<open>The invariant: every object is published, and no staging name is used twice.\<close>

definition cas_ok :: "externals \<Rightarrow> cas \<Rightarrow> bool" where
  "cas_ok X cs \<longleftrightarrow> (\<forall>k n. cas_objects cs k = Some n \<longrightarrow> published X (cas_redactor cs) k n)
     \<and> (\<forall>name c. cas_staging cs name = Some c \<longrightarrow> (\<exists>i < cas_sequence cs. name = staging_name (cas_host cs) i))"

text \<open>How the objects change in one call on published objects.\<close>

definition objects_kept :: "externals \<Rightarrow> cas \<Rightarrow> cas \<Rightarrow> bool" where
  "objects_kept X cs cs' \<longleftrightarrow> cas_redactor cs' = cas_redactor cs \<and> cas_host cs' = cas_host cs
     \<and> (\<forall>k n. cas_objects cs' k = Some n \<longrightarrow> cas_objects cs k = Some n \<or> published X (cas_redactor cs) k n)"

lemma arrive_objects:
  "honest X cs (cas_arrival cs) \<Longrightarrow> cas_objects (arrive cs) k = Some n \<Longrightarrow>
    cas_objects cs k = Some n \<or> published X (cas_redactor cs) k n"
  by (auto simp: arrive_def honest_def split: option.splits if_splits)

lemma placed_objects:
  assumes "placed X cs domain d bytes r" "cas_objects (snd r) k = Some n"
  shows "cas_objects cs k = Some n \<or> published X (cas_redactor cs) k n"
proof -
  have "published X (cas_redactor cs) d (Regular bytes)" if "verified X (cas_redactor cs) domain d bytes"
    using that by (auto simp: published_def)
  with assms show ?thesis by (auto simp: placed_def Let_def split: if_splits)
qed

lemma put_objects:
  assumes "put_left X cs domain d bytes r" "honest X cs (cas_arrival cs)"
  shows "objects_kept X cs (snd r)"
proof -
  have same: "cas_redactor (snd r) = cas_redactor cs" "cas_host (snd r) = cas_host cs"
    using assms(1) by (simp_all add: put_left_def tidy_def)
  have "cas_objects cs k = Some n \<or> published X (cas_redactor cs) k n" if "cas_objects (snd r) k = Some n" for k n
    using assms(1) placed_objects[OF _ that, of X cs domain d bytes] placed_objects[OF _ that, of X "arrive cs" domain d bytes]
      arrive_objects[OF assms(2), of k n]
    by (auto simp: put_left_def)
  with same show ?thesis by (simp add: objects_kept_def)
qed

lemma put_snd: "snd (put X cs domain bytes) = snd (put_verified X cs domain (digest_for X domain bytes) bytes)"
  by (simp add: put_def put_verified_def andthen_def split: sum.split prod.split)

lemma get_left: "tidy cs (snd (get X cs domain d)) \<and> (cas_objects (snd (get X cs domain d)) = cas_objects cs
    \<or> cas_objects (snd (get X cs domain d)) = (cas_objects cs)(d := None))"
  by (rule get_rule[where P = "\<lambda>r. tidy cs (snd r) \<and> (cas_objects (snd r) = cas_objects cs
      \<or> cas_objects (snd r) = (cas_objects cs)(d := None))"])
    (auto simp: tidy_def quiet_def dropped_def)

lemma exists_quiet: "quiet cs (snd (exists_object cs d))"
  using quiet_host_call[of cs] by (auto simp: exists_object_def split: prod.split option.split)

lemma tidy_staging:
  assumes "tidy (disturbed fp calls other cs) cs'" "cas_ok X cs" "cas_staging cs' name = Some c"
  shows "\<exists>i < cas_sequence cs'. name = staging_name (cas_host cs') i"
proof -
  have host: "cas_host cs' = cas_host cs" and later: "cas_sequence cs \<le> cas_sequence cs'"
    using assms(1) by (simp_all add: tidy_def)
  have "cas_staging cs name = Some c \<or> (name = staging_name (cas_host cs) (cas_sequence cs) \<and> cas_sequence cs < cas_sequence cs')"
    using assms(1,3) by (auto simp: tidy_def split: if_splits)
  then show ?thesis
  proof
    assume "cas_staging cs name = Some c"
    with assms(2) obtain i where "i < cas_sequence cs" "name = staging_name (cas_host cs) i" unfolding cas_ok_def by blast
    with host later show ?thesis by (intro exI[of _ i]) simp
  qed (auto simp: host)
qed

lemma cas_step_ok:
  assumes "cas_step X cs cs'" "cas_ok X cs"
  shows "cas_ok X cs' \<and> objects_kept X cs cs'"
proof -
  have "\<exists>fp calls other. tidy (disturbed fp calls other cs) cs' \<and> objects_kept X cs cs'"
    using assms(1)
  proof (cases rule: cas_step.cases)
    case (put other fp calls domain bytes)
    let ?cs = "disturbed fp calls other cs"
    note left = put_verified_left[of X ?cs domain "digest_for X domain bytes" bytes]
    from put_objects[OF left] put(2) left show ?thesis
      by (auto simp: put(1) put_snd honest_def objects_kept_def put_left_def)
  next
    case (put_verified other fp calls domain digest bytes)
    let ?cs = "disturbed fp calls other cs"
    note left = put_verified_left[of X ?cs domain digest bytes]
    from put_objects[OF left] put_verified(2) left show ?thesis
      by (auto simp: put_verified(1) honest_def objects_kept_def put_left_def)
  next
    case (get fp calls other domain digest)
    let ?cs = "disturbed fp calls other cs"
    note left = get_left[of ?cs X domain digest, folded get(1)]
    then have "cas_redactor cs' = cas_redactor cs" "cas_host cs' = cas_host cs" by (simp_all add: tidy_def)
    with left have "objects_kept X cs cs'" by (auto simp: objects_kept_def split: if_splits)
    with left show ?thesis by blast
  next
    case (exists fp calls other digest)
    note q = exists_quiet[of "disturbed fp calls other cs" digest, folded exists(1)]
    then have "objects_kept X cs cs'" by (simp add: objects_kept_def quiet_def)
    moreover have "tidy (disturbed fp calls other cs) cs'" using q by (simp add: tidy_def quiet_def)
    ultimately show ?thesis by blast
  qed
  then obtain fp calls other where t: "tidy (disturbed fp calls other cs) cs'" and k: "objects_kept X cs cs'" by blast
  from tidy_staging[OF t assms(2)] have "\<forall>name c. cas_staging cs' name = Some c \<longrightarrow>
      (\<exists>i < cas_sequence cs'. name = staging_name (cas_host cs') i)" by blast
  moreover have "\<forall>x n. cas_objects cs' x = Some n \<longrightarrow> published X (cas_redactor cs') x n"
    using k assms(2) unfolding objects_kept_def cas_ok_def by metis
  ultimately show ?thesis using k by (simp add: cas_ok_def)
qed

lemma objects_kept_trans: "objects_kept X a b \<Longrightarrow> objects_kept X b c \<Longrightarrow> objects_kept X a c"
  unfolding objects_kept_def by auto

lemma cas_steps_ok: "(cas_step X)\<^sup>*\<^sup>* cs cs' \<Longrightarrow> cas_ok X cs \<Longrightarrow> cas_ok X cs' \<and> objects_kept X cs cs'"
proof (induction rule: rtranclp_induct)
  case (step b c)
  with cas_step_ok[OF step.hyps(2)] objects_kept_trans show ?case by blast
qed (simp add: objects_kept_def)

section \<open>An undisturbed call\<close>

definition calm :: "cas \<Rightarrow> cas" where
  "calm cs = disturbed None [] None cs"

lemma calm_calls [simp]:
  "cas_calls cs = [] \<Longrightarrow> host_call cs = (None, cs)" "cas_calls cs = [] \<Longrightarrow> syscall cs = (Inr (), cs)"
  by (simp_all add: host_call_def syscall_def)

lemma calm_fault [simp]: "cas_failpoints cs = None \<Longrightarrow> take_fault cs p = (Continue, cs)"
  by (simp add: take_fault_def cas_take_if_def)

lemma calm_read:
  "cas_calls cs = [] \<Longrightarrow> cas_objects cs d = Some (Regular bytes) \<Longrightarrow> read_object cs d = (Inr bytes, cs)"
  by (simp add: read_object_def ensure_regular_object_def)

lemma calm_get:
  assumes "cas_objects cs d = Some (Regular bytes)" "verified X (cas_redactor cs) domain d bytes"
  shows "get X (calm cs) domain d = (Inr bytes, calm cs)"
  using assms calm_read[of "calm cs" d bytes] by (simp add: get_def verified_def calm_def)

lemma calm_sync: "cas_calls cs = [] \<Longrightarrow> cas_failpoints cs = None \<Longrightarrow> sync_directory cs = (Inr (), cs)"
  by (simp add: sync_directory_def)

lemma calm_publish:
  assumes "cas_calls cs = []" "cas_failpoints cs = None" "cas_arrival cs = None" "cas_objects cs d = None"
    "cas_staging cs name = Some bytes"
  shows "fst (publish_staged X cs name domain d n) = Inr ()
    \<and> cas_objects (snd (publish_staged X cs name domain d n)) = (cas_objects cs)(d := Some (Regular bytes))"
  using assms by (simp add: publish_staged_def Let_def arrive_def remove_staging_def calm_sync)

lemma calm_put_new:
  assumes "verified X (cas_redactor cs) domain d bytes" "cas_objects cs d = None"
    and "cas_staging cs (staging_name (cas_host cs) (cas_sequence cs)) = None"
  shows "fst (put_verified X (calm cs) domain d bytes) = Inr ()
    \<and> cas_objects (snd (put_verified X (calm cs) domain d bytes)) d = Some (Regular bytes)"
  using assms
  by (simp add: put_verified_def verified_def assert_clean_bytes_def path_exists_def calm_def new_staging_path_eq
      create_staging_def write_staging_def write_all_def calm_publish)

lemma calm_put_old:
  assumes "verified X (cas_redactor cs) domain d bytes" "cas_objects cs d = Some (Regular bytes)"
  shows "put_verified X (calm cs) domain d bytes = (Inr (), calm cs)"
  using assms calm_read[of "calm cs" d bytes]
  by (simp add: put_verified_def verified_def assert_clean_bytes_def path_exists_def calm_def verify_existing_def)

lemma quarantined_calm:
  assumes "cas_calls cs = []" "cas_failpoints cs = None"
  shows "cas_objects (quarantine cs d) = (cas_objects cs)(d := None)"
  using assms by (simp add: quarantine_def unique_suffix_def calm_sync)

text \<open>
  Reading an object under another domain than the one it was stored under does not only fail: it
  moves the object away, although it is intact under its own domain.
\<close>

lemma get_other_domain_quarantines:
  assumes "cas_objects cs d = Some (Regular bytes)" "validate_domain domain = Inr ()" "digest_for X domain bytes \<noteq> d"
  shows "(\<exists>e. fst (get X (calm cs) domain d) = Inl (Integrity e))
    \<and> cas_objects (snd (get X (calm cs) domain d)) d = None"
  using assms calm_read[of "calm cs" d bytes] by (simp add: get_def calm_def quarantined_calm)

definition empty_cas :: "host \<Rightarrow> redactor \<Rightarrow> cas" where
  "empty_cas h r = \<lparr>cas_host = h, cas_redactor = r, cas_failpoints = None, cas_objects = (\<lambda>_. None),
     cas_staging = (\<lambda>_. None), cas_quarantine = (\<lambda>_. None), cas_sequence = 0, cas_calls = [],
     cas_arrival = None\<rparr>"

lemma empty_cas_ok: "cas_ok X (empty_cas h r)"
  by (simp add: cas_ok_def empty_cas_def)

lemma reached_ok: "(cas_step X)\<^sup>*\<^sup>* (empty_cas h r) cs \<Longrightarrow> cas_ok X cs"
  using cas_steps_ok empty_cas_ok by blast

lemma published_unique:
  "collision_free X \<Longrightarrow> published X r k n \<Longrightarrow> published X r' k n' \<Longrightarrow> n = n'"
  unfolding published_def using verified_unique by metis

lemma put_keeps_objects:
  assumes ok: "cas_ok X cs" and free: "collision_free X" and h: "honest X cs other" and o: "cas_objects cs k = Some n"
  shows "cas_objects (snd (put X (disturbed fp calls other cs) domain bytes)) k = Some n"
proof -
  let ?cs = "disturbed fp calls other cs" and ?d = "digest_for X domain bytes"
  have keep: "cas_objects (snd r) k = Some n"
    if p: "placed X base domain ?d bytes r" and on: "cas_objects base k = Some n"
      and pub: "\<And>m. cas_objects base ?d = Some m \<Longrightarrow> published X (cas_redactor cs) ?d m"
      and red: "cas_redactor base = cas_redactor cs" for base r
  proof (rule ccontr)
    assume "cas_objects (snd r) k \<noteq> Some n"
    with p on obtain b where b: "cas_objects base ?d = Some (Regular b)"
        "\<not> (length b = length bytes \<and> verified X (cas_redactor cs) domain ?d b)"
      and good: "verified X (cas_redactor cs) domain ?d bytes"
      by (auto simp: placed_def Let_def red split: if_splits)
    from good have "published X (cas_redactor cs) ?d (Regular bytes)" by (auto simp: published_def)
    with published_unique[OF free pub[OF b(1)]] have "b = bytes" by blast
    with b(2) good show False by simp
  qed
  have pub: "published X (cas_redactor cs) j m" if "cas_objects ?cs j = Some m" for j m
    using ok that unfolding cas_ok_def by simp
  have pub': "published X (cas_redactor cs) j m" if "cas_objects (arrive ?cs) j = Some m" for j m
    using arrive_objects[of X ?cs, OF _ that] h pub by (auto simp: honest_def)
  have on': "cas_objects (arrive ?cs) k = Some n" using o by (simp add: arrive_def split: option.split)
  let ?r = "put_verified X ?cs domain ?d bytes"
  from put_verified_left[of X ?cs domain ?d bytes] have "placed X ?cs domain ?d bytes ?r
      \<or> placed X (arrive ?cs) domain ?d bytes ?r" by (simp add: put_left_def)
  then have "cas_objects (snd ?r) k = Some n"
  proof
    assume p: "placed X ?cs domain ?d bytes ?r"
    show ?thesis by (rule keep[OF p _ pub]) (use o in simp_all)
  next
    assume p: "placed X (arrive ?cs) domain ?d bytes ?r"
    show ?thesis by (rule keep[OF p on' pub']) simp_all
  qed
  then show ?thesis unfolding put_snd .
qed

lemma calm_put:
  assumes ok: "cas_ok X cs" and free: "collision_free X" and dom: "validate_domain domain = Inr ()"
    and clean: "\<not> contains_secret (cas_redactor cs) bytes"
  shows "fst (put X (calm cs) domain bytes) = Inr (digest_for X domain bytes)"
proof -
  let ?d = "digest_for X domain bytes"
  have good: "verified X (cas_redactor cs) domain ?d bytes" using dom clean by (simp add: verified_def)
  have "fst (put_verified X (calm cs) domain ?d bytes) = Inr ()"
  proof (cases "cas_objects cs ?d")
    case None
    have "cas_staging cs (staging_name (cas_host cs) (cas_sequence cs)) = None"
    proof (rule ccontr)
      assume "cas_staging cs (staging_name (cas_host cs) (cas_sequence cs)) \<noteq> None"
      with ok obtain i where "i < cas_sequence cs"
        "staging_name (cas_host cs) (cas_sequence cs) = staging_name (cas_host cs) i" unfolding cas_ok_def by blast
      with staging_name_inj show False by blast
    qed
    with calm_put_new[OF good None] show ?thesis by simp
  next
    case (Some n)
    with ok have "published X (cas_redactor cs) ?d n" unfolding cas_ok_def by blast
    moreover from good have "published X (cas_redactor cs) ?d (Regular bytes)" by (auto simp: published_def)
    ultimately have "n = Regular bytes" by (rule published_unique[OF free])
    with calm_put_old[OF good] Some show ?thesis by simp
  qed
  then show ?thesis
    by (cases "put_verified X (calm cs) domain ?d bytes") (simp add: put_def dom)
qed

section \<open>Properties\<close>

text \<open>
  C22. A key names one object for ever: from an empty store and through any puts, reads and
  quarantines, any failing system calls, armed failpoints and other writers of the same program,
  two objects ever stored under the same digest are the same bytes, and every stored object has
  the digest of its key under a valid domain and holds no registered secret.
\<close>
theorem cas_objects_immutable:
  assumes "(cas_step X)\<^sup>*\<^sup>* (empty_cas h r) cs" "(cas_step X)\<^sup>*\<^sup>* cs cs'" "collision_free X"
    and "cas_objects cs k = Some n" "cas_objects cs' k = Some n'"
  shows "n' = n \<and> published X (cas_redactor cs) k n"
proof -
  note ok = reached_ok[OF assms(1)]
  from cas_steps_ok[OF assms(2) ok] have ok': "cas_ok X cs'" by (rule conjunct1)
  from ok assms(4) have "published X (cas_redactor cs) k n" unfolding cas_ok_def by blast
  moreover from ok' assms(5) have "published X (cas_redactor cs') k n'" unfolding cas_ok_def by blast
  ultimately show ?thesis using published_unique[OF assms(3)] by blast
qed

text \<open>
  C23. A put is all or nothing, whatever fails in it: it adds the whole object, or it leaves the
  objects as they were, or it moves away an object that did not verify under the key; it answers
  only with a verified object of the right size in place; and if no system call fails, no
  failpoint leaves anything in staging, however much of the bytes was written.
\<close>
theorem put_all_or_nothing:
  assumes "put_verified X (disturbed fp calls None cs) domain d bytes = (out, cs')"
  shows "(cas_objects cs' = cas_objects cs
      \<or> (cas_objects cs d = None \<and> verified X (cas_redactor cs) domain d bytes
         \<and> cas_objects cs' = (cas_objects cs)(d := Some (Regular bytes)))
      \<or> (cas_objects cs' = (cas_objects cs)(d := None)
         \<and> (\<exists>b. cas_objects cs d = Some (Regular b) \<and>
             \<not> (length b = length bytes \<and> verified X (cas_redactor cs) domain d b))))
    \<and> (out = Inr () \<longrightarrow> (\<exists>b. cas_objects cs' d = Some (Regular b) \<and> length b = length bytes
         \<and> verified X (cas_redactor cs) domain d b))
    \<and> (calls = [] \<longrightarrow> cas_staging cs' = cas_staging cs)"
proof -
  let ?cs = "disturbed fp calls None cs"
  have calm: "arrive ?cs = ?cs" by (simp add: arrive_def)
  from put_verified_left[of X ?cs domain d bytes] have "placed X ?cs domain d bytes (out, cs')" "tidy ?cs cs'"
    by (simp_all add: put_left_def calm assms)
  then show ?thesis by (auto simp: placed_def Let_def tidy_def)
qed

text \<open>
  C24. What a put has answered for, a get returns: the digest a put answers with, whatever
  disturbed it, gives back exactly the bytes under the same domain.
\<close>
theorem put_get_roundtrip:
  assumes "put X (disturbed fp calls other cs) domain bytes = (Inr d, cs')" "collision_free X"
  shows "d = digest_for X domain bytes \<and> get X (calm cs') domain d = (Inr bytes, calm cs')"
proof -
  let ?cs = "disturbed fp calls other cs"
  from assms(1) have d: "d = digest_for X domain bytes" and ok: "validate_domain domain = Inr ()"
    and put: "put_verified X ?cs domain d bytes = (Inr (), cs')"
    by (auto simp: put_def andthen_def split: sum.splits prod.splits)
  note left = put_verified_left[of X ?cs domain d bytes, unfolded put]
  then have red: "cas_redactor cs' = cas_redactor cs" by (simp add: put_left_def tidy_def)
  from left obtain b where b: "cas_objects cs' d = Some (Regular b)" "verified X (cas_redactor cs') domain d b"
    by (auto simp: put_left_def placed_def Let_def red)
  then have "digest_input domain b = digest_input domain bytes"
    using assms(2) by (simp add: verified_def d digest_for_def collision_free_def)
  with b d calm_get[OF b] show ?thesis by (simp add: digest_input_def)
qed

text \<open>
  C30. A put converges and destroys nothing: after any history, a put that was cut short in any
  way and made again undisturbed answers with the digest of its bytes, and every object that was
  there before either call is still there.
\<close>
theorem put_retry_converges:
  assumes "(cas_step X)\<^sup>*\<^sup>* (empty_cas h r) cs" "collision_free X" "honest X cs other"
    and "validate_domain domain = Inr ()" "\<not> contains_secret (cas_redactor cs) bytes"
    and "cs1 = snd (put X (disturbed fp calls other cs) domain bytes)"
  shows "fst (put X (calm cs1) domain bytes) = Inr (digest_for X domain bytes)
    \<and> (cas_objects cs k = Some n \<longrightarrow> cas_objects cs1 k = Some n
        \<and> cas_objects (snd (put X (calm cs1) domain bytes)) k = Some n)"
proof -
  note ok = reached_ok[OF assms(1)]
  have step: "cas_step X cs cs1" unfolding assms(6) by (rule cas_step.put[OF assms(3)])
  from cas_step_ok[OF step ok] have ok1: "cas_ok X cs1" and red: "cas_redactor cs1 = cas_redactor cs"
    by (simp_all add: objects_kept_def)
  have "honest X cs1 None" by (simp add: honest_def)
  from put_keeps_objects[OF ok1 assms(2) this, of k n None "[]", folded calm_def]
    put_keeps_objects[OF ok assms(2,3), of k n fp calls domain bytes, folded assms(6)]
    calm_put[OF ok1 assms(2,4)] assms(5)
  show ?thesis by (simp add: red)
qed


section \<open>The scan at start-up\<close>

text \<open>A directory entry as the scan meets it; any call that fails makes its entry unreadable.\<close>

datatype entry = FileEntry utf8 | LinkEntry | SpecialEntry | Unreadable io_error
  | DirEntry "(utf8 \<times> entry) list"

definition lock_file :: "utf8 \<Rightarrow> utf8 \<Rightarrow> bool" where
  "lock_file dir name \<longleftrightarrow> name = ''repository.lock'' \<and> dir = ''locks''"

definition child_path :: "platform \<Rightarrow> utf8 \<Rightarrow> utf8 \<Rightarrow> utf8" where
  "child_path os path name = path @ (if os = Windows then [CHR 0x5C] else ''/'') @ name"

fun scan_tree :: "platform \<Rightarrow> redactor \<Rightarrow> utf8 \<Rightarrow> utf8 \<Rightarrow> (utf8 \<times> entry) list \<Rightarrow> unit res"
  and scan_entry :: "platform \<Rightarrow> redactor \<Rightarrow> utf8 \<Rightarrow> utf8 \<Rightarrow> entry \<Rightarrow> unit res" where
  "scan_tree os r path dir [] = Inr ()"
| "scan_tree os r path dir ((name, e) # es) =
     (if lock_file dir name then scan_tree os r path dir es
      else try_then (scan_entry os r (child_path os path name) name e) (\<lambda>_. scan_tree os r path dir es))"
| "scan_entry os r path name (Unreadable err) = Inl (from_protected_io os err)"
| "scan_entry os r path name LinkEntry = Inl (Integrity ''CAS tree contains a symlink or reparse point'')"
| "scan_entry os r path name (DirEntry es) = scan_tree os r path name es"
| "scan_entry os r path name (FileEntry bytes) = assert_clean_bytes r bytes ''CAS-owned bytes''"
| "scan_entry os r path name SpecialEntry = Inl (Integrity (''CAS tree contains a non-regular entry: '' @ path))"

text \<open>Opening: the three directories are made if they are missing, then everything is scanned.\<close>

definition create_dir :: "host \<Rightarrow> utf8 \<Rightarrow> (utf8 \<times> entry) list \<Rightarrow> (utf8 \<times> entry) list res" where
  "create_dir h name es = (case map_of es name of
     None \<Rightarrow> Inr (es @ [(name, DirEntry [])])
   | Some (FileEntry _) \<Rightarrow> Inl (from_io (host_platform h) (host_exists_error h))
   | Some SpecialEntry \<Rightarrow> Inl (from_io (host_platform h) (host_exists_error h))
   | Some (Unreadable err) \<Rightarrow> Inl (from_io (host_platform h) err)
   | Some _ \<Rightarrow> Inr es)"

definition scan_existing_bytes ::
  "platform \<Rightarrow> redactor \<Rightarrow> cas_failpoints \<Rightarrow> utf8 \<Rightarrow> utf8 \<Rightarrow> (utf8 \<times> entry) list \<Rightarrow> unit res \<times> cas_failpoints" where
  "scan_existing_bytes os r fp path dir es = (case cas_take_if fp StartupScan of
     (Some Continue, fp) \<Rightarrow> (scan_tree os r path dir es, fp)
   | (None, fp) \<Rightarrow> (scan_tree os r path dir es, fp)
   | (Some action, fp) \<Rightarrow> (Inl (fault_error StartupScan action), fp))"

definition open_cas ::
  "host \<Rightarrow> redactor \<Rightarrow> cas_failpoints \<Rightarrow> utf8 \<Rightarrow> utf8 \<Rightarrow> (utf8 \<times> entry) list \<Rightarrow> unit res \<times> cas_failpoints" where
  "open_cas h r fp path dir es =
     (case try_then (create_dir h ''objects'' es) (\<lambda>es.
           try_then (create_dir h ''staging'' es) (create_dir h ''quarantine'')) of
        Inl e \<Rightarrow> (Inl e, fp)
      | Inr es \<Rightarrow> scan_existing_bytes (host_platform h) r fp path dir es)"

text \<open>The specification: every entry below the root, the lock of the repository apart.\<close>

inductive below :: "utf8 \<Rightarrow> (utf8 \<times> entry) list \<Rightarrow> entry \<Rightarrow> bool" where
  here: "(name, e) \<in> set es \<Longrightarrow> \<not> lock_file dir name \<Longrightarrow> below dir es e"
| inside: "(name, DirEntry es') \<in> set es \<Longrightarrow> \<not> lock_file dir name \<Longrightarrow> below name es' e \<Longrightarrow> below dir es e"

definition acceptable :: "redactor \<Rightarrow> entry \<Rightarrow> bool" where
  "acceptable r e \<longleftrightarrow> (case e of DirEntry _ \<Rightarrow> True | FileEntry bytes \<Rightarrow> \<not> contains_secret r bytes | _ \<Rightarrow> False)"

inductive_simps below_Nil [simp]: "below dir [] e"

lemma below_Cons:
  "below dir ((name, x) # es) e \<longleftrightarrow> below dir es e
    \<or> (\<not> lock_file dir name \<and> (e = x \<or> (\<exists>es'. x = DirEntry es' \<and> below name es' e)))"
  by (subst below.simps, subst (2) below.simps) auto

lemma scan_tree_iff:
  "scan_tree os r path dir es = Inr () \<longleftrightarrow> (\<forall>e. below dir es e \<longrightarrow> acceptable r e)"
  "scan_entry os r path name x = Inr () \<longleftrightarrow> acceptable r x
    \<and> (\<forall>e es'. x = DirEntry es' \<longrightarrow> below name es' e \<longrightarrow> acceptable r e)"
proof (induction os r path dir es and os r path name x rule: scan_tree_scan_entry.induct)
  case (2 os r path dir name e es)
  then show ?case
    by (cases "scan_entry os r (child_path os path name) name e") (auto simp: below_Cons)
qed (auto simp: acceptable_def assert_clean_bytes_def)

lemma below_append_dir:
  "(\<forall>e. below dir (es @ [(name, DirEntry [])]) e \<longrightarrow> acceptable r e) \<longleftrightarrow> (\<forall>e. below dir es e \<longrightarrow> acceptable r e)"
proof -
  have "below dir (es @ [(name, DirEntry [])]) e \<longleftrightarrow> below dir es e \<or> (\<not> lock_file dir name \<and> e = DirEntry [])" for e
    by (induction es) (auto simp: below_Cons)
  then show ?thesis by (auto simp: acceptable_def)
qed

text \<open>Where a directory of the store should be, there is one, a link, or nothing yet.\<close>

definition room_for :: "(utf8 \<times> entry) list \<Rightarrow> utf8 \<Rightarrow> bool" where
  "room_for es name \<longleftrightarrow> (case map_of es name of
     None \<Rightarrow> True | Some (DirEntry _) \<Rightarrow> True | Some LinkEntry \<Rightarrow> True | _ \<Rightarrow> False)"

lemma create_dir_cases:
  "(room_for es name \<and> (\<exists>es'. create_dir h name es = Inr es'
      \<and> ((\<forall>e. below dir es' e \<longrightarrow> acceptable r e) \<longleftrightarrow> (\<forall>e. below dir es e \<longrightarrow> acceptable r e))
      \<and> (\<forall>other. other \<noteq> name \<longrightarrow> room_for es' other = room_for es other)))
    \<or> (\<not> room_for es name \<and> (\<exists>e. create_dir h name es = Inl e))"
proof (cases "map_of es name")
  case None
  then show ?thesis by (simp add: create_dir_def room_for_def below_append_dir map_add_def split: option.split)
next
  case (Some e)
  then show ?thesis by (cases e) (simp_all add: create_dir_def room_for_def)
qed

text \<open>
  Opening a store accepts a tree exactly when it is sound: with no failpoint armed, it
  answers if and only if the three directories are there or can be made and every entry at any
  depth below the root, the repository lock apart, is a directory or a regular file without any
  registered secret.
\<close>
lemma open_scans_everything:
  "fst (open_cas h r None path dir es) = Inr ()
    \<longleftrightarrow> list_all (room_for es) [''objects'', ''staging'', ''quarantine''] \<and> (\<forall>e. below dir es e \<longrightarrow> acceptable r e)"
proof -
  note c1 = create_dir_cases[of es "''objects''" h dir r]
  show ?thesis
  proof (cases "create_dir h ''objects'' es")
    case (Inr es1)
    note c2 = create_dir_cases[of es1 "''staging''" h dir r]
    show ?thesis
    proof (cases "create_dir h ''staging'' es1")
      case i2: (Inr es2)
      note c3 = create_dir_cases[of es2 "''quarantine''" h dir r]
      show ?thesis
      proof (cases "create_dir h ''quarantine'' es2")
        case i3: (Inr es3)
        with Inr i2 c1 c2 c3 show ?thesis
          by (simp add: open_cas_def scan_existing_bytes_def cas_take_if_def scan_tree_iff)
      qed (use Inr i2 c1 c2 c3 in \<open>simp add: open_cas_def\<close>)
    qed (use Inr c1 c2 in \<open>simp add: open_cas_def\<close>)
  qed (use c1 in \<open>simp add: open_cas_def\<close>)
qed

section \<open>Digests as text\<close>

text \<open>
  A digest is an array of 32 bytes, written with the \<open>hex\<close> crate. The crate is a parameter: its
  two functions, and of its documented behaviour that decoding reverses encoding.
\<close>

record hex_codec =
  hex_encode :: "8 word list \<Rightarrow> utf8"
  hex_decode :: "utf8 \<Rightarrow> utf8 + 8 word list"

definition hex_laws :: "hex_codec \<Rightarrow> bool" where
  "hex_laws H \<longleftrightarrow> (\<forall>bytes. hex_decode H (hex_encode H bytes) = Inr bytes)"

definition digest_length :: nat where
  "digest_length = 32"

definition to_hex :: "hex_codec \<Rightarrow> 8 word list \<Rightarrow> utf8" where
  "to_hex H digest = hex_encode H digest"

definition from_hex :: "hex_codec \<Rightarrow> utf8 \<Rightarrow> 8 word list res" where
  "from_hex H v =
     (case hex_decode H v of
        Inl message \<Rightarrow> Inl (InvalidInput (''invalid digest: '' @ message))
      | Inr bytes \<Rightarrow>
          if length bytes = digest_length then Inr bytes
          else Inl (InvalidInput ''digest must contain exactly 64 hexadecimal characters''))"

text \<open>\<open>objects/<first two characters>/<the rest>\<close>.\<close>

definition object_path :: "hex_codec \<Rightarrow> 8 word list \<Rightarrow> utf8 \<times> utf8" where
  "object_path H digest = (take 2 (to_hex H digest), drop 2 (to_hex H digest))"

text \<open>
  Digests and their texts: only 32 bytes are ever accepted as a digest, the text of a digest
  reads back as that digest, and two digests never share an object path.
\<close>
lemma digest_text_roundtrip:
  assumes "hex_laws H" "length digest = digest_length"
  shows "from_hex H (to_hex H digest) = Inr digest
    \<and> (from_hex H v = Inr other \<longrightarrow> length other = 32)
    \<and> (object_path H digest = object_path H other \<longrightarrow> digest = other)"
proof -
  have inv: "hex_decode H (hex_encode H b) = Inr b" for b using assms(1) by (simp add: hex_laws_def)
  have path: "digest = other" if "object_path H digest = object_path H other"
  proof -
    from that have "take 2 (hex_encode H digest) = take 2 (hex_encode H other)"
      "drop 2 (hex_encode H digest) = drop 2 (hex_encode H other)" by (simp_all add: object_path_def to_hex_def)
    then have "hex_encode H digest = hex_encode H other" by (metis append_take_drop_id)
    then have "hex_decode H (hex_encode H digest) = hex_decode H (hex_encode H other)" by (rule arg_cong)
    then show ?thesis unfolding inv by (rule sum.inject(2)[THEN iffD1])
  qed
  have "from_hex H (to_hex H digest) = Inr digest"
    by (simp add: from_hex_def to_hex_def inv assms(2))
  moreover have "length other = 32" if "from_hex H v = Inr other" for v
    using that by (simp add: from_hex_def digest_length_def split: sum.splits if_splits)
  ultimately show ?thesis by (intro conjI impI path)
qed

fun encode_bytes :: "8 word list \<Rightarrow> utf8" where
  "encode_bytes [] = []"
| "encode_bytes (b # bs) = hex_digit (unat b div 16) # hex_digit (unat b mod 16) # encode_bytes bs"

fun decode_bytes :: "utf8 \<Rightarrow> utf8 + 8 word list" where
  "decode_bytes [] = Inr []"
| "decode_bytes [c] = Inl ''Odd number of digits''"
| "decode_bytes (c # d # cs) = (case decode_bytes cs of Inl e \<Rightarrow> Inl e
     | Inr bs \<Rightarrow> Inr (of_nat (16 * hex_value c + hex_value d) # bs))"

lemma sample_codec: "hex_laws \<lparr>hex_encode = encode_bytes, hex_decode = decode_bytes\<rparr>"
proof -
  have "decode_bytes (encode_bytes bs) = Inr bs" for bs
  proof (induction bs)
    case (Cons b bs)
    have "unat b < 256" using unsigned_less[of b, where ?'a = nat] by simp
    then have "hex_value (hex_digit (unat b div 16)) = unat b div 16" "hex_value (hex_digit (unat b mod 16)) = unat b mod 16"
      by (auto intro!: hex_value_digit)
    with Cons show ?case by simp
  qed simp
  then show ?thesis by (simp add: hex_laws_def)
qed

lemma digest_text_roundtrip_witness:
  "let H = \<lparr>hex_encode = encode_bytes, hex_decode = decode_bytes\<rparr>
   in from_hex H (to_hex H (replicate 32 255)) = Inr (replicate 32 255)"
  using digest_text_roundtrip[OF sample_codec, of "replicate 32 255"] by (simp add: digest_length_def Let_def)

section \<open>The properties at a concrete store\<close>

definition sample_host :: host where
  "sample_host = \<lparr>host_platform = Linux, host_pid = 7, host_nanos = (\<lambda>i. 1000 + i),
     host_exists_error = \<lparr>io_permission_denied = False, io_raw_os_error = Some 17\<rparr>\<rparr>"

definition sample_cas :: cas where
  "sample_cas = empty_cas sample_host default_redactor"

text \<open>A first put that is cut after the link by a failing directory sync.\<close>

definition cut_put :: cas where
  "cut_put = snd (put sample_externals (disturbed (Some (CasDirectorySync, FailNow)) [] None sample_cas)
     ''snapshot/v1'' ''hello'')"

lemma sample_collision_free: "collision_free sample_externals"
  by (simp add: collision_free_def sample_externals_def)

lemma sample_domain: "validate_domain ''snapshot/v1'' = Inr ()"
  by code_simp

lemma cut_reached: "(cas_step sample_externals)\<^sup>*\<^sup>* (empty_cas sample_host default_redactor) cut_put"
  unfolding cut_put_def sample_cas_def
  by (rule r_into_rtranclp, rule cas_step.put) (simp add: honest_def)

lemma sample_clean: "cas_redactor sample_cas = default_redactor" "\<not> contains_secret default_redactor s"
  by (simp_all add: sample_cas_def empty_cas_def contains_secret_def default_redactor_def)

lemma cut_object:
  "cas_objects cut_put (digest_for sample_externals ''snapshot/v1'' ''hello'') = Some (Regular ''hello'')"
proof -
  let ?d = "digest_for sample_externals ''snapshot/v1'' ''hello''"
  have "cas_objects (snd (put_verified sample_externals (disturbed (Some (CasDirectorySync, FailNow)) [] None sample_cas)
     ''snapshot/v1'' ?d ''hello'')) ?d = Some (Regular ''hello'')"
    by (simp add: put_verified_def sample_domain assert_clean_bytes_def sample_clean path_exists_def
        sample_cas_def empty_cas_def new_staging_path_eq create_staging_def write_staging_def write_all_def
        take_fault_def cas_take_if_def publish_staged_def arrive_def remove_staging_def sync_directory_def
        disturbed_def contains_secret_def default_redactor_def)
  then show ?thesis by (simp add: cut_put_def put_snd)
qed

theorem cas_objects_immutable_witness:
  "cas_objects (snd (get sample_externals (disturbed None [Some (\<lparr>io_permission_denied = False, io_raw_os_error = Some 5\<rparr>, 0)]
      None cut_put) ''snapshot/v1'' (digest_for sample_externals ''snapshot/v1'' ''hello'')))
    (digest_for sample_externals ''snapshot/v1'' ''hello'') = Some (Regular ''hello'')"
proof -
  let ?d = "digest_for sample_externals ''snapshot/v1'' ''hello''"
  let ?calls = "[Some (\<lparr>io_permission_denied = False, io_raw_os_error = Some 5\<rparr>, 0)]"
  let ?cs' = "snd (get sample_externals (disturbed None ?calls None cut_put) ''snapshot/v1'' ?d)"
  have step: "(cas_step sample_externals)\<^sup>*\<^sup>* cut_put ?cs'" by (rule r_into_rtranclp, rule cas_step.get)
  have "cas_objects ?cs' ?d \<noteq> None"
    using cut_object by (simp add: get_def sample_domain read_object_def ensure_regular_object_def syscall_def host_call_def
        disturbed_def)
  with cas_objects_immutable[OF cut_reached step sample_collision_free cut_object] show ?thesis by blast
qed

theorem put_all_or_nothing_witness:
  "cas_staging (snd (put_verified sample_externals (disturbed (Some (StagingWrite, ShortWrite 2)) [] None sample_cas)
      ''snapshot/v1'' (digest_for sample_externals ''snapshot/v1'' ''hello'') ''hello'')) = cas_staging sample_cas"
  using put_all_or_nothing[of sample_externals "Some (StagingWrite, ShortWrite 2)" "[]" sample_cas "''snapshot/v1''"
      "digest_for sample_externals ''snapshot/v1'' ''hello''" "''hello''"]
  by (cases "put_verified sample_externals (disturbed (Some (StagingWrite, ShortWrite 2)) [] None sample_cas)
      ''snapshot/v1'' (digest_for sample_externals ''snapshot/v1'' ''hello'') ''hello''") simp

lemma cut_again:
  "fst (put sample_externals (calm cut_put) ''snapshot/v1'' ''hello'')
    = Inr (digest_for sample_externals ''snapshot/v1'' ''hello'')"
  by (rule calm_put[OF reached_ok[OF cut_reached] sample_collision_free sample_domain])
    (simp add: contains_secret_def cas_steps_ok[OF cut_reached empty_cas_ok, unfolded objects_kept_def] empty_cas_def
      default_redactor_def)

theorem put_retry_converges_witness:
  "fst (put sample_externals (calm cut_put) ''snapshot/v1'' ''hello'')
    = Inr (digest_for sample_externals ''snapshot/v1'' ''hello'')"
proof -
  have "honest sample_externals (empty_cas sample_host default_redactor) None"
    "\<not> contains_secret (cas_redactor (empty_cas sample_host default_redactor)) ''hello''"
    using sample_clean by (simp_all add: honest_def empty_cas_def)
  from put_retry_converges[OF rtranclp.rtrancl_refl sample_collision_free this(1) sample_domain this(2)
      cut_put_def[unfolded sample_cas_def]]
  show ?thesis by blast
qed

theorem put_get_roundtrip_witness:
  "\<exists>cs'. fst (get sample_externals (calm cs') ''snapshot/v1'' (digest_for sample_externals ''snapshot/v1'' ''hello''))
      = Inr ''hello''"
proof -
  obtain cs' where "put sample_externals (calm cut_put) ''snapshot/v1'' ''hello''
      = (Inr (digest_for sample_externals ''snapshot/v1'' ''hello''), cs')"
    using cut_again by (cases "put sample_externals (calm cut_put) ''snapshot/v1'' ''hello''") auto
  from put_get_roundtrip[OF this[unfolded calm_def] sample_collision_free] show ?thesis by (intro exI[of _ cs']) (simp add: calm_def)
qed

lemma open_scans_everything_witness:
  "fst (open_cas sample_host default_redactor None ''r'' ''r'' [(''a'', FileEntry ''x'')]) = Inr ()
   \<and> fst (open_cas sample_host default_redactor None ''r'' ''r'' [(''a'', LinkEntry)]) \<noteq> Inr ()"
proof -
  have clean: "acceptable default_redactor (FileEntry ''x'')"
    by (simp add: acceptable_def contains_secret_def default_redactor_def)
  have link: "\<not> acceptable default_redactor LinkEntry" by (simp add: acceptable_def)
  have clear: "\<forall>e. below ''r'' [(''a'', FileEntry ''x'')] e \<longrightarrow> acceptable default_redactor e"
    using clean by (simp add: below_Cons lock_file_def)
  have bad: "below ''r'' [(''a'', LinkEntry)] LinkEntry" by (simp add: below_Cons lock_file_def)
  show ?thesis
    using open_scans_everything[of sample_host default_redactor "''r''" "''r''" "[(''a'', FileEntry ''x'')]"]
      open_scans_everything[of sample_host default_redactor "''r''" "''r''" "[(''a'', LinkEntry)]"]
      clear bad link by (auto simp: room_for_def)
qed

end
