(* ===== verification/Tree_Manifest.thy ===== *)
theory Tree_Manifest
  imports Schema "HOL-Library.List_Lexorder" "HOL-Library.Char_ord"
begin

text \<open>
  Workspace trees as data (\<open>src/src/workspace.rs\<close>): the paths a tree may hold, the manifest
  that lists a tree, its validation, and the comparison of two manifests. Paths are those of a
  Unix host, where a component is any text between slashes. The walk that fills a manifest is in
  \<open>Tree_Snapshot\<close>.
\<close>

section \<open>Paths\<close>

text \<open>\<open>str::split\<close> on one character.\<close>

fun split_on :: "char \<Rightarrow> utf8 \<Rightarrow> utf8 list" where
  "split_on c [] = [[]]"
| "split_on c (a # s) =
     (if a = c then [] # split_on c s
      else (case split_on c s of [] \<Rightarrow> [[a]] | p # ps \<Rightarrow> (a # p) # ps))"

fun join_with :: "utf8 \<Rightarrow> utf8 list \<Rightarrow> utf8" where
  "join_with sep [] = []"
| "join_with sep [p] = p"
| "join_with sep (p # q # ps) = p @ sep @ join_with sep (q # ps)"

text \<open>
  \<open>Path::components\<close> on Unix: a leading slash is the root, repeated slashes and dots are
  skipped, except that a dot in front of everything is kept.
\<close>

datatype component = RootDir | CurDir | ParentDir | Normal utf8

definition piece :: "utf8 \<Rightarrow> component list" where
  "piece p = (if p = [] \<or> p = ''.'' then [] else if p = ''..'' then [ParentDir] else [Normal p])"

definition path_components :: "utf8 \<Rightarrow> component list" where
  "path_components p =
     (let ps = split_on (CHR ''/'') p in
      (if starts_with p ''/'' then [RootDir] else if hd ps = ''.'' then [CurDir] else [])
      @ concat (map piece ps))"

text \<open>\<open>OsStr::to_str\<close> fails on bytes that are not well-formed UTF-8.\<close>

definition cont_byte :: "nat \<Rightarrow> nat \<Rightarrow> char \<Rightarrow> bool" where
  "cont_byte lo hi c = (let n = of_char c in lo \<le> n \<and> n \<le> hi)"

fun valid_utf8 :: "utf8 \<Rightarrow> bool" where
  "valid_utf8 [] = True"
| "valid_utf8 (a # s) =
     (let n = of_char a :: nat in
      if n < 128 then valid_utf8 s
      else if n < 194 then False
      else if n < 224 then
        (case s of b # s' \<Rightarrow> cont_byte 128 191 b \<and> valid_utf8 s' | _ \<Rightarrow> False)
      else if n < 240 then
        (case s of b # c # s' \<Rightarrow>
             cont_byte (if n = 224 then 160 else 128) (if n = 237 then 159 else 191) b
             \<and> cont_byte 128 191 c \<and> valid_utf8 s' | _ \<Rightarrow> False)
      else if n < 245 then
        (case s of b # c # d # s' \<Rightarrow>
             cont_byte (if n = 240 then 144 else 128) (if n = 244 then 143 else 191) b
             \<and> cont_byte 128 191 c \<and> cont_byte 128 191 d \<and> valid_utf8 s' | _ \<Rightarrow> False)
      else False)"

text \<open>\<open>char::is_control\<close>: the code points below 32, 127, and 128 to 159, whose encodings
  start with the byte 194.\<close>

fun has_control :: "utf8 \<Rightarrow> bool" where
  "has_control [] = False"
| "has_control (a # s) =
     (let n = of_char a :: nat in
      n < 32 \<or> n = 127
      \<or> (n = 194 \<and> (case s of b # _ \<Rightarrow> cont_byte 128 159 b | _ \<Rightarrow> False))
      \<or> has_control s)"

definition upper_char :: "char \<Rightarrow> char" where
  "upper_char c = (let n = of_char c :: nat in if 97 \<le> n \<and> n \<le> 122 then byte (n - 32) else c)"

definition to_ascii_uppercase :: "utf8 \<Rightarrow> utf8" where
  "to_ascii_uppercase s = map upper_char s"

definition reserved_name :: "utf8 \<Rightarrow> bool" where
  "reserved_name base \<longleftrightarrow> base \<in> {''CON'', ''PRN'', ''AUX'', ''NUL''}
     \<or> (length base = 4 \<and> (starts_with base ''COM'' \<or> starts_with base ''LPT'')
         \<and> base ! 3 \<in> set ''123456789'')"

definition validate_portable_component :: "utf8 \<Rightarrow> unit res" where
  "validate_portable_component v =
     (if length v > 255 \<or> ends_with v '' '' \<or> ends_with v ''.''
         \<or> has_control v \<or> list_ex (\<lambda>c. c \<in> set ''<>:|?*'' \<or> c = CHR 34) v
      then Inl (InvalidInput ''workspace path component is not portable'')
      else if reserved_name (to_ascii_uppercase (hd (split_on (CHR ''.'') v)))
      then Inl (InvalidInput ''workspace path uses a reserved portable name'')
      else Inr ())"

definition check_component :: "utf8 \<Rightarrow> unit res" where
  "check_component v =
     (if \<not> valid_utf8 v then Inl (InvalidInput ''workspace path is not valid UTF-8'')
      else if v = [] \<or> v = ''.'' \<or> v = ''..'' \<or> contains_nul v
      then Inl (InvalidInput ''workspace path is invalid'')
      else if CHR 92 \<in> set v
      then Inl (InvalidInput ''workspace path contains a non-portable separator'')
      else validate_portable_component v)"

fun path_parts :: "component list \<Rightarrow> utf8 list res" where
  "path_parts [] = Inr []"
| "path_parts (Normal v # cs) =
     try_then (check_component v) (\<lambda>_. try_then (path_parts cs) (\<lambda>ps. Inr (v # ps)))"
| "path_parts (CurDir # cs) = path_parts cs"
| "path_parts (ParentDir # cs) = Inl (InvalidInput ''workspace path escapes its root'')"
| "path_parts (RootDir # cs) = Inl (InvalidInput ''workspace path escapes its root'')"

definition normalize_relative_path :: "utf8 \<Rightarrow> utf8 res" where
  "normalize_relative_path p =
     try_then (path_parts (path_components p)) (\<lambda>parts.
     if parts = [] then Inl (InvalidInput ''workspace path is empty'')
     else
       let v = join_with ''/'' parts in
       if starts_with v ''/'' \<or> sublist ''//'' v \<or> CHR '':'' \<in> set v
       then Inl (InvalidInput ''workspace path is not portable'')
       else Inr v)"

text \<open>\<open>PathBuf::push\<close> of a component that is not absolute appends it after a separator.\<close>

definition push_component :: "utf8 \<Rightarrow> utf8 \<Rightarrow> utf8" where
  "push_component out c =
     (if starts_with c ''/'' then c
      else if out = [] \<or> ends_with out ''/'' then out @ c else out @ ''/'' @ c)"

definition safe_relative_path :: "utf8 \<Rightarrow> utf8 res" where
  "safe_relative_path p =
     try_then (normalize_relative_path p) (\<lambda>n. Inr (foldl push_component [] (split_on (CHR ''/'') n)))"

section \<open>Manifests\<close>

record tree_entry =
  te_path :: utf8
  te_kind :: utf8
  te_size :: nat
  te_digest :: "utf8 option"

record tree_manifest =
  tm_manifest_version :: nat
  tm_workspace_id :: utf8
  tm_project_id :: utf8
  tm_entries :: "tree_entry list"
  tm_redaction_profile_id :: utf8
  tm_redaction_profile_version :: utf8

definition tree_manifest_version :: nat where
  "tree_manifest_version = 1"

definition is_hex :: "char \<Rightarrow> bool" where
  "is_hex c = (let n = of_char c :: nat in
     (48 \<le> n \<and> n \<le> 57) \<or> (65 \<le> n \<and> n \<le> 70) \<or> (97 \<le> n \<and> n \<le> 102))"

definition is_prefixed_digest :: "utf8 \<Rightarrow> bool" where
  "is_prefixed_digest v \<longleftrightarrow> starts_with v ''sha256:''
     \<and> length (drop 7 v) = 64 \<and> list_all is_hex (drop 7 v)"

definition validate_entry_kind :: "tree_entry \<Rightarrow> unit res" where
  "validate_entry_kind e =
     (if te_kind e = ''directory'' \<and> te_size e = 0 \<and> te_digest e = None then Inr ()
      else if te_kind e = ''file'' then
        (case te_digest e of
           None \<Rightarrow> Inl (Integrity ''workspace tree manifest file lacks digest'')
         | Some d \<Rightarrow> if is_prefixed_digest d then Inr ()
             else Inl (Integrity ''workspace tree manifest digest is invalid''))
      else Inl (Unsupported ''workspace tree manifest entry kind is unsupported''))"

fun validate_entries :: "redactor \<Rightarrow> utf8 option \<Rightarrow> tree_entry list \<Rightarrow> unit res" where
  "validate_entries r previous [] = Inr ()"
| "validate_entries r previous (e # es) =
     (case normalize_relative_path (te_path e) of
        Inl _ \<Rightarrow> Inl (Integrity ''workspace tree manifest path is unsafe'')
      | Inr n \<Rightarrow>
          if n \<noteq> te_path e \<or> (case previous of None \<Rightarrow> False | Some p \<Rightarrow> \<not> p < te_path e)
          then Inl (Integrity ''workspace tree manifest paths are not canonical'')
          else try_then (assert_clean_bytes r (te_path e) ''workspace manifest path'') (\<lambda>_.
            try_then (validate_entry_kind e) (\<lambda>_. validate_entries r (Some (te_path e)) es)))"

definition validate_manifest :: "tree_manifest \<Rightarrow> utf8 \<Rightarrow> utf8 \<Rightarrow> redactor \<Rightarrow> unit res" where
  "validate_manifest m workspace_id project_id r =
     (if tm_manifest_version m \<noteq> tree_manifest_version \<or> tm_workspace_id m \<noteq> workspace_id
         \<or> tm_project_id m \<noteq> project_id \<or> tm_redaction_profile_id m \<noteq> profile_id r
         \<or> tm_redaction_profile_version m \<noteq> version r
      then Inl (Integrity ''workspace tree manifest identity is incompatible'')
      else validate_entries r None (tm_entries m))"

section \<open>Comparing manifests\<close>

datatype snapshot_change_type = Added | Removed | Modified | TypeChanged

record snapshot_diff_entry =
  sd_path :: utf8
  sd_change_type :: snapshot_change_type
  sd_old_digest :: "utf8 option"
  sd_new_digest :: "utf8 option"
  sd_old_size :: "nat option"
  sd_new_size :: "nat option"
  sd_old_type :: "utf8 option"
  sd_new_type :: "utf8 option"

record snapshot_diff =
  df_old_snapshot_id :: utf8
  df_new_snapshot_id :: utf8
  df_entries :: "snapshot_diff_entry list"

definition diff_entry ::
  "utf8 \<Rightarrow> snapshot_change_type \<Rightarrow> tree_entry option \<Rightarrow> tree_entry option \<Rightarrow> snapshot_diff_entry" where
  "diff_entry path change_type old new =
     \<lparr>sd_path = path, sd_change_type = change_type,
      sd_old_digest = Option.bind old te_digest, sd_new_digest = Option.bind new te_digest,
      sd_old_size = map_option te_size old, sd_new_size = map_option te_size new,
      sd_old_type = map_option te_kind old, sd_new_type = map_option te_kind new\<rparr>"

definition classify_diff_entry ::
  "tree_entry option \<Rightarrow> tree_entry option \<Rightarrow> snapshot_diff_entry option" where
  "classify_diff_entry old new =
     (case (old, new) of
        (Some a, Some b) \<Rightarrow>
          if te_kind a \<noteq> te_kind b then Some (diff_entry (te_path a) TypeChanged old new)
          else if te_kind a = ''file'' \<and> (te_digest a \<noteq> te_digest b \<or> te_size a \<noteq> te_size b)
          then Some (diff_entry (te_path a) Modified old new)
          else None
      | (Some a, None) \<Rightarrow> Some (diff_entry (te_path a) Removed old new)
      | (None, Some b) \<Rightarrow> Some (diff_entry (te_path b) Added old new)
      | (None, None) \<Rightarrow> None)"

definition push_change :: "'a option \<Rightarrow> 'a list \<Rightarrow> 'a list" where
  "push_change x xs = (case x of None \<Rightarrow> xs | Some y \<Rightarrow> y # xs)"

text \<open>The merge loop of \<open>diff_manifests\<close>; the lists are the entries from the two indices on.\<close>

fun merge_entries :: "tree_entry list \<Rightarrow> tree_entry list \<Rightarrow> snapshot_diff_entry list" where
  "merge_entries [] [] = []"
| "merge_entries (a # as) [] =
     push_change (classify_diff_entry (Some a) None) (merge_entries as [])"
| "merge_entries [] (b # bs) =
     push_change (classify_diff_entry None (Some b)) (merge_entries [] bs)"
| "merge_entries (a # as) (b # bs) =
     (if te_path a < te_path b
      then push_change (classify_diff_entry (Some a) None) (merge_entries as (b # bs))
      else if te_path b < te_path a
      then push_change (classify_diff_entry None (Some b)) (merge_entries (a # as) bs)
      else push_change (classify_diff_entry (Some a) (Some b)) (merge_entries as bs))"

definition diff_manifests :: "tree_manifest \<Rightarrow> tree_manifest \<Rightarrow> snapshot_diff_entry list" where
  "diff_manifests old new = merge_entries (tm_entries old) (tm_entries new)"

section \<open>Paths stay inside the tree\<close>

lemma split_on_nonempty [simp]: "split_on c s \<noteq> []"
  by (induction s) (auto split: list.splits)

lemma split_on_pieces: "p \<in> set (split_on c s) \<Longrightarrow> c \<notin> set p"
proof (induction s arbitrary: p)
  case (Cons a s)
  show ?case
  proof (cases "split_on c s")
    case (Cons q qs)
    with Cons.prems Cons.IH[of q] Cons.IH[of p] show ?thesis by (auto split: if_splits)
  qed simp
qed simp

lemma join_split: "join_with [c] (split_on c s) = s"
proof (induction s)
  case (Cons a s)
  obtain q qs where "split_on c s = q # qs" by (cases "split_on c s") auto
  with Cons.IH show ?case by (cases qs) auto
qed simp

lemma split_on_plain: "c \<notin> set p \<Longrightarrow> split_on c p = [p]"
  by (induction p) auto

lemma split_on_append:
  "c \<notin> set p \<Longrightarrow> split_on c (p @ c # s) = p # split_on c s"
  by (induction p) auto

lemma split_join:
  "ps \<noteq> [] \<Longrightarrow> (\<And>p. p \<in> set ps \<Longrightarrow> c \<notin> set p) \<Longrightarrow> split_on c (join_with [c] ps) = ps"
  by (induction "[c]" ps rule: join_with.induct) (auto simp: split_on_plain split_on_append)

text \<open>What \<open>normalize_relative_path\<close> lets through as one component.\<close>

definition safe_component :: "utf8 \<Rightarrow> bool" where
  "safe_component v \<longleftrightarrow> check_component v = Inr () \<and> CHR ''/'' \<notin> set v"

lemma safe_component_plain: "safe_component v \<Longrightarrow> piece v = [Normal v] \<and> v \<noteq> [] \<and> v \<noteq> ''.'' \<and> v \<noteq> ''..''"
  by (auto simp: safe_component_def check_component_def piece_def split: if_splits)

lemma safe_component_facts:
  "safe_component q \<Longrightarrow> q \<notin> {[], ''.'', ''..''} \<and> CHR ''/'' \<notin> set q \<and> CHR 92 \<notin> set q
    \<and> validate_portable_component q = Inr ()"
  by (auto simp: safe_component_def check_component_def split: if_splits)

lemma path_parts_ok: "path_parts cs = Inr ps \<Longrightarrow> (\<And>v. Normal v \<in> set cs \<Longrightarrow> CHR ''/'' \<notin> set v) \<Longrightarrow>
  \<forall>p \<in> set ps. safe_component p"
  by (induction cs arbitrary: ps rule: path_parts.induct) (auto simp: safe_component_def)

lemma path_parts_normal: "(\<And>p. p \<in> set ps \<Longrightarrow> safe_component p) \<Longrightarrow> path_parts (map Normal ps) = Inr ps"
  by (induction ps) (auto simp: safe_component_def)

lemma components_pieces: "Normal v \<in> set (path_components p) \<Longrightarrow> CHR ''/'' \<notin> set v"
  by (auto simp: path_components_def Let_def piece_def split: if_splits dest: split_on_pieces)

lemma components_of_join:
  assumes "ps \<noteq> []" "\<And>p. p \<in> set ps \<Longrightarrow> safe_component p"
  shows "path_components (join_with ''/'' ps) = map Normal ps"
proof -
  have slash: "CHR ''/'' \<notin> set p" if "p \<in> set ps" for p
    using assms(2)[OF that] by (simp add: safe_component_def)
  then have split: "split_on (CHR ''/'') (join_with ''/'' ps) = ps" using assms(1) by (intro split_join)
  have pieces: "concat (map piece ps) = map Normal ps"
    using assms(2) safe_component_plain by (induction ps) auto
  obtain q qs where ps: "ps = q # qs" using assms(1) by (cases ps) auto
  with assms(2) safe_component_plain have q: "q \<noteq> []" "q \<noteq> ''.''" by auto
  then obtain a q' where "q = a # q'" by (cases q) auto
  with slash[of q] ps have "\<not> starts_with (join_with ''/'' ps) ''/''"
    by (cases qs) (auto simp: starts_with_def)
  with split pieces ps q show ?thesis by (simp add: path_components_def)
qed

lemma normalize_parts:
  assumes "normalize_relative_path p = Inr v"
  obtains ps where "ps \<noteq> []" "\<And>q. q \<in> set ps \<Longrightarrow> safe_component q" "v = join_with ''/'' ps"
    "path_components v = map Normal ps" "split_on (CHR ''/'') v = ps"
proof -
  from assms obtain ps where ps: "path_parts (path_components p) = Inr ps" "ps \<noteq> []"
    "v = join_with ''/'' ps"
    by (auto simp: normalize_relative_path_def Let_def split: if_splits)
  then have safe: "\<And>q. q \<in> set ps \<Longrightarrow> safe_component q"
    using path_parts_ok components_pieces by blast
  then have "\<And>q. q \<in> set ps \<Longrightarrow> CHR ''/'' \<notin> set q" by (simp add: safe_component_def)
  with ps(2,3) have "split_on (CHR ''/'') v = ps" by (simp add: split_join)
  with ps safe components_of_join that show thesis by simp
qed

lemma normalize_idempotent:
  assumes "normalize_relative_path p = Inr v"
  shows "normalize_relative_path v = Inr v"
proof -
  from assms have rest: "\<not> (starts_with v ''/'' \<or> sublist ''//'' v \<or> CHR '':'' \<in> set v)"
    by (auto simp: normalize_relative_path_def Let_def split: if_splits)
  from assms obtain ps where "ps \<noteq> []" "\<And>q. q \<in> set ps \<Longrightarrow> safe_component q" "v = join_with ''/'' ps"
    "path_components v = map Normal ps" by (rule normalize_parts) blast
  with rest show ?thesis
    by (simp add: normalize_relative_path_def path_parts_normal)
qed

lemma push_join:
  "(\<And>q. q \<in> set ps \<Longrightarrow> safe_component q) \<Longrightarrow> out \<noteq> [] \<Longrightarrow> \<not> ends_with out ''/'' \<Longrightarrow>
    foldl push_component out ps = join_with ''/'' (out # ps)"
proof (induction ps arbitrary: out)
  case (Cons q qs)
  have q: "q \<noteq> []" "CHR ''/'' \<notin> set q"
    using Cons.prems(1)[of q] safe_component_plain[of q] by (auto simp: safe_component_def)
  then have "\<not> starts_with q ''/''" "\<not> ends_with (out @ ''/'' @ q) ''/''"
    by (auto simp: starts_with_def ends_with_def suffix_def prefix_def append_eq_append_conv2
        append_eq_Cons_conv Cons_eq_append_conv)
  with Cons.IH[of "out @ ''/'' @ q"] Cons.prems show ?case
    by (cases qs) (simp_all add: push_component_def)
qed simp

lemma safe_path_text:
  assumes "normalize_relative_path p = Inr v"
  shows "safe_relative_path p = Inr v"
proof -
  from assms obtain ps where ps: "ps \<noteq> []" "\<And>q. q \<in> set ps \<Longrightarrow> safe_component q"
    "v = join_with ''/'' ps" "split_on (CHR ''/'') v = ps" by (rule normalize_parts) blast
  obtain q qs where c: "ps = q # qs" using ps(1) by (cases ps) auto
  have q: "q \<noteq> []" "CHR ''/'' \<notin> set q"
    using ps(2)[of q] c safe_component_plain[of q] by (auto simp: safe_component_def)
  then have "push_component [] q = q" "\<not> ends_with q ''/''"
    by (auto simp: push_component_def starts_with_def ends_with_def suffix_def prefix_def)
  with push_join[of qs q] ps(2) c q(1) have "foldl push_component [] ps = join_with ''/'' ps" by simp
  with assms ps(3,4) show ?thesis by (simp add: safe_relative_path_def)
qed

text \<open>
  C28. A path that \<open>normalize_relative_path\<close> accepts is made of portable components only, none
  of them a step to the parent or to the root, it is its own normal form, and the path the tree
  is written at is that same text: no accepted path leaves its root or means another file when
  it is read back.
\<close>

theorem normalized_path_stays_inside:
  assumes "normalize_relative_path p = Inr v"
  shows "normalize_relative_path v = Inr v \<and> safe_relative_path p = Inr v
    \<and> (\<exists>parts. parts \<noteq> [] \<and> path_components v = map Normal parts \<and> v = join_with ''/'' parts
        \<and> (\<forall>q \<in> set parts. q \<notin> {[], ''.'', ''..''} \<and> CHR ''/'' \<notin> set q \<and> CHR 92 \<notin> set q
             \<and> validate_portable_component q = Inr ()))"
proof -
  from assms obtain ps where ps: "ps \<noteq> []" "\<And>q. q \<in> set ps \<Longrightarrow> safe_component q"
    "v = join_with ''/'' ps" "path_components v = map Normal ps" by (rule normalize_parts) blast
  have "\<forall>q \<in> set ps. q \<notin> {[], ''.'', ''..''} \<and> CHR ''/'' \<notin> set q \<and> CHR 92 \<notin> set q
      \<and> validate_portable_component q = Inr ()"
    using ps(2) safe_component_facts by blast
  with ps normalize_idempotent[OF assms] safe_path_text[OF assms] show ?thesis by blast
qed

theorem normalized_path_stays_inside_witness:
  "normalize_relative_path ''./src//a.txt'' = Inr ''src/a.txt''
   \<and> safe_relative_path ''./src//a.txt'' = Inr ''src/a.txt''
   \<and> (\<exists>parts. path_components ''src/a.txt'' = map Normal parts \<and> ''..'' \<notin> set parts)"
proof -
  have n: "normalize_relative_path ''./src//a.txt'' = Inr ''src/a.txt''" by code_simp
  show ?thesis using n normalized_path_stays_inside[OF n] by blast
qed

section \<open>A valid manifest\<close>

definition sorted_entries :: "tree_entry list \<Rightarrow> bool" where
  "sorted_entries es \<longleftrightarrow> sorted_wrt (\<lambda>a b. te_path a < te_path b) es"

definition entry_ok :: "tree_entry \<Rightarrow> bool" where
  "entry_ok e \<longleftrightarrow> validate_entry_kind e = Inr () \<and> normalize_relative_path (te_path e) = Inr (te_path e)"

definition entries_ok :: "tree_entry list \<Rightarrow> bool" where
  "entries_ok es \<longleftrightarrow> sorted_entries es \<and> list_all entry_ok es"

lemma validate_entries_sorted:
  "validate_entries r previous es = Inr () \<Longrightarrow>
    entries_ok es \<and> (\<forall>p. previous = Some p \<longrightarrow> (\<forall>e \<in> set es. p < te_path e))"
proof (induction r previous es rule: validate_entries.induct)
  case (2 r previous e es)
  then have n: "normalize_relative_path (te_path e) = Inr (te_path e)"
    and p: "case previous of None \<Rightarrow> True | Some p \<Rightarrow> p < te_path e"
    and k: "validate_entry_kind e = Inr ()" and v: "validate_entries r (Some (te_path e)) es = Inr ()"
    by (auto split: sum.splits if_splits option.splits)
  from "2.IH"[OF n] n p v have ih: "entries_ok es" "\<forall>x \<in> set es. te_path e < te_path x"
    by (auto split: option.splits)
  with n p k show ?case
    by (auto simp: entries_ok_def sorted_entries_def entry_ok_def split: option.splits)
qed (simp add: entries_ok_def sorted_entries_def)

lemma valid_manifest_entries:
  "validate_manifest m w p r = Inr () \<Longrightarrow> entries_ok (tm_entries m)"
  by (auto simp: validate_manifest_def dest: validate_entries_sorted split: if_splits)

lemma sorted_entries_above:
  "sorted_entries (e # es) \<Longrightarrow> x \<in> set es \<Longrightarrow> te_path e < te_path x"
  by (simp add: sorted_entries_def)

lemma sorted_entries_tail: "sorted_entries (e # es) \<Longrightarrow> sorted_entries es"
  by (simp add: sorted_entries_def)

lemma row_by_below:
  assumes "sorted_entries (e # es)" "p < te_path e"
  shows "row_by te_path p (e # es) = None"
proof -
  have below: "p < te_path x" if "x \<in> set (e # es)" for x
  proof (cases "x = e")
    case False
    with that have "te_path e < te_path x" using sorted_entries_above[OF assms(1)] by simp
    with assms(2) show ?thesis by (rule less_trans)
  qed (use assms(2) in simp)
  have "p \<notin> te_path ` set (e # es)"
  proof
    assume "p \<in> te_path ` set (e # es)"
    then obtain x where x: "x \<in> set (e # es)" and eq: "p = te_path x" by auto
    from below[OF x] show False unfolding eq by (rule less_irrefl[THEN notE])
  qed
  then show ?thesis by (rule row_by_None[THEN iffD2])
qed

lemma row_by_above:
  assumes "sorted_entries (e # es)"
  shows "row_by te_path (te_path e) es = None"
proof -
  have "te_path e \<notin> te_path ` set es"
  proof
    assume "te_path e \<in> te_path ` set es"
    then obtain x where x: "x \<in> set es" and eq: "te_path e = te_path x" by auto
    from sorted_entries_above[OF assms x] show False unfolding eq by (rule less_irrefl[THEN notE])
  qed
  then show ?thesis by (rule row_by_None[THEN iffD2])
qed

section \<open>The difference of two manifests\<close>

lemma row_by_push:
  "row_by sd_path p (push_change x ds) =
    (case x of Some y \<Rightarrow> if sd_path y = p then Some y else row_by sd_path p ds | None \<Rightarrow> row_by sd_path p ds)"
  by (simp add: push_change_def split: option.splits)

lemma classify_one [simp]:
  "classify_diff_entry (Some a) None = Some (diff_entry (te_path a) Removed (Some a) None)"
  "classify_diff_entry None (Some b) = Some (diff_entry (te_path b) Added None (Some b))"
  "classify_diff_entry None None = None"
  by (simp_all add: classify_diff_entry_def)

lemma diff_entry_path [simp]: "sd_path (diff_entry p c a b) = p"
  by (simp add: diff_entry_def)

lemma classify_path: "classify_diff_entry (Some a) b = Some d \<Longrightarrow> sd_path d = te_path a"
  by (cases b) (auto simp: classify_diff_entry_def split: if_splits)

text \<open>The merge visits every path of either side once, with what each side has there.\<close>

lemma merge_exact:
  "sorted_entries as \<Longrightarrow> sorted_entries bs \<Longrightarrow>
    row_by sd_path p (merge_entries as bs)
      = classify_diff_entry (row_by te_path p as) (row_by te_path p bs)"
proof (induction as bs rule: merge_entries.induct)
  case (2 a as)
  then show ?case
    using row_by_above[of a as] by (auto simp: row_by_push dest: sorted_entries_tail)
next
  case (3 b bs)
  then show ?case
    using row_by_above[of b bs] by (auto simp: row_by_push dest: sorted_entries_tail)
next
  case (4 a as b bs)
  consider "te_path a < te_path b" | "te_path b < te_path a" | "te_path a = te_path b" by fastforce
  then show ?case
  proof cases
    case 1
    then have "row_by te_path (te_path a) (b # bs) = None" by (rule row_by_below[OF "4.prems"(2)])
    then show ?thesis using 1 "4.IH"(1) "4.prems" row_by_above[of a as]
      by (auto simp: row_by_push dest: sorted_entries_tail)
  next
    case 2
    then have "row_by te_path (te_path b) (a # as) = None" by (rule row_by_below[OF "4.prems"(1)])
    then show ?thesis using 2 "4.IH"(2) "4.prems" row_by_above[of b bs]
      by (auto simp: row_by_push dest: sorted_entries_tail)
  next
    case 3
    have ih: "row_by sd_path p (merge_entries as bs)
        = classify_diff_entry (row_by te_path p as) (row_by te_path p bs)"
      using 3 "4.IH"(3) "4.prems" by (auto dest: sorted_entries_tail)
    have path: "sd_path d = te_path a" if "classify_diff_entry (Some a) (Some b) = Some d" for d
      by (rule classify_path[OF that])
    show ?thesis using 3 ih path row_by_above[OF "4.prems"(1)] row_by_above[OF "4.prems"(2)]
      by (auto simp: row_by_push split: option.splits)
  qed
qed simp

text \<open>
  What the new side has at a changed path can be read off the change, and a list of entries with
  the changes applied: the entries whose path did not change, and the new side of the others.
\<close>

definition patched_entry :: "snapshot_diff_entry \<Rightarrow> tree_entry option" where
  "patched_entry d =
     (case (sd_new_type d, sd_new_size d) of
        (Some k, Some n) \<Rightarrow> Some \<lparr>te_path = sd_path d, te_kind = k, te_size = n, te_digest = sd_new_digest d\<rparr>
      | _ \<Rightarrow> None)"

definition apply_diff :: "snapshot_diff_entry list \<Rightarrow> tree_entry list \<Rightarrow> tree_entry list" where
  "apply_diff ds es = sort_key te_path
     (filter (\<lambda>e. row_by sd_path (te_path e) ds = None) es @ List.map_filter patched_entry ds)"

lemma patched_classified:
  assumes "classify_diff_entry a (Some y) = Some d" "\<And>x. a = Some x \<Longrightarrow> te_path x = te_path y"
  shows "patched_entry d = Some y"
proof (cases a)
  case None
  with assms(1) show ?thesis by (auto simp: patched_entry_def diff_entry_def)
next
  case (Some x)
  with assms(2) have "te_path x = te_path y" by simp
  with Some assms(1) show ?thesis
    by (auto simp: classify_diff_entry_def patched_entry_def diff_entry_def split: if_splits)
qed

lemma patched_removed: "classify_diff_entry a None = Some d \<Longrightarrow> patched_entry d = None"
  by (cases a) (auto simp: patched_entry_def diff_entry_def)

lemma unchanged_entry:
  assumes "classify_diff_entry (Some a) (Some b) = None" "te_path a = te_path b" "entry_ok a" "entry_ok b"
  shows "a = b"
proof -
  have k: "te_kind a = te_kind b" using assms(1) by (auto simp: classify_diff_entry_def split: if_splits)
  have "te_size a = te_size b \<and> te_digest a = te_digest b"
  proof (cases "te_kind a = ''file''")
    case True
    with assms(1) k show ?thesis by (auto simp: classify_diff_entry_def split: if_splits)
  next
    case False
    with assms(3,4) k show ?thesis
      by (auto simp: entry_ok_def validate_entry_kind_def split: if_splits)
  qed
  with k assms(2) show ?thesis by simp
qed

lemma entries_ok_tail: "entries_ok (e # es) \<Longrightarrow> entries_ok es \<and> entry_ok e"
  by (simp add: entries_ok_def sorted_entries_def)

lemma row_by_ok: "entries_ok es \<Longrightarrow> row_by te_path p es = Some e \<Longrightarrow> entry_ok e \<and> te_path e = p \<and> e \<in> set es"
  by (auto simp: entries_ok_def list_all_iff dest: row_by_SomeD)

lemma sorted_entries_distinct:
  assumes "sorted_entries es"
  shows "distinct (map te_path es) \<and> sorted (map te_path es)"
proof -
  have "sorted_wrt (<) (map te_path es)" using assms by (simp add: sorted_entries_def sorted_wrt_map)
  then show ?thesis by (simp only: strict_sorted_iff)
qed

lemma row_by_sorted:
  assumes "sorted_entries es" "e \<in> set es"
  shows "row_by te_path (te_path e) es = Some e"
  using assms sorted_entries_distinct by (intro row_by_unique) (auto simp: unique_by_def)

text \<open>The paths of the changes are distinct.\<close>

lemma merge_paths_distinct:
  "sorted_entries as \<Longrightarrow> sorted_entries bs \<Longrightarrow> distinct (map sd_path (merge_entries as bs))"
proof (induction as bs rule: merge_entries.induct)
  case (2 a as)
  then show ?case
    using merge_exact[of as "[]" "te_path a"] row_by_above[of a as]
    by (auto simp: push_change_def row_by_None sorted_entries_def)
next
  case (3 b bs)
  then show ?case
    using merge_exact[of "[]" bs "te_path b"] row_by_above[of b bs]
    by (auto simp: push_change_def row_by_None sorted_entries_def)
next
  case (4 a as b bs)
  have sa: "sorted_entries as" "sorted_entries bs" using "4.prems" by (auto dest: sorted_entries_tail)
  consider "te_path a < te_path b" | "te_path b < te_path a" | "te_path a = te_path b" by fastforce
  then show ?case
  proof cases
    case 1
    have "row_by te_path (te_path a) (b # bs) = None" using row_by_below[OF "4.prems"(2) 1] .
    then have "te_path a \<notin> sd_path ` set (merge_entries as (b # bs))"
      using merge_exact[OF sa(1) "4.prems"(2), of "te_path a"] row_by_above[OF "4.prems"(1)]
      by (simp only: row_by_None[symmetric]) simp
    with 1 "4.IH"(1) sa "4.prems" show ?thesis by (simp add: push_change_def)
  next
    case 2
    have "row_by te_path (te_path b) (a # as) = None" using row_by_below[OF "4.prems"(1) 2] .
    then have "te_path b \<notin> sd_path ` set (merge_entries (a # as) bs)"
      using merge_exact[OF "4.prems"(1) sa(2), of "te_path b"] row_by_above[OF "4.prems"(2)]
      by (simp only: row_by_None[symmetric]) simp
    with 2 "4.IH"(2) sa "4.prems" show ?thesis by (simp add: push_change_def)
  next
    case 3
    have "te_path a \<notin> sd_path ` set (merge_entries as bs)"
      using merge_exact[OF sa, of "te_path a"] row_by_above[OF "4.prems"(1)] row_by_above[OF "4.prems"(2)] 3
      by (simp only: row_by_None[symmetric]) simp
    with 3 "4.IH"(3) sa classify_path[of a "Some b"] show ?thesis
      by (auto simp: push_change_def split: option.splits)
  qed
qed simp

lemma patched_path: "patched_entry d = Some e \<Longrightarrow> te_path e = sd_path d"
  by (auto simp: patched_entry_def split: option.splits)

lemma in_map_filter: "x \<in> set (List.map_filter f xs) \<longleftrightarrow> (\<exists>y \<in> set xs. f y = Some x)"
  by (induction xs) (auto simp: List.map_filter_simps split: option.splits)

lemma patched_paths_in: "te_path ` set (List.map_filter patched_entry ds) \<subseteq> sd_path ` set ds"
  using patched_path by (force simp: in_map_filter)

lemma patched_distinct:
  "distinct (map sd_path ds) \<Longrightarrow> distinct (map te_path (List.map_filter patched_entry ds))"
proof (induction ds)
  case (Cons d ds)
  show ?case
  proof (cases "patched_entry d")
    case (Some e)
    have "te_path e \<notin> te_path ` set (List.map_filter patched_entry ds)"
      using Cons.prems patched_paths_in[of ds] patched_path[OF Some] by auto
    with Some Cons show ?thesis by (simp add: List.map_filter_simps)
  qed (use Cons in \<open>simp add: List.map_filter_simps\<close>)
qed (simp add: List.map_filter_simps)

lemma patched_set:
  assumes as: "entries_ok as" and bs: "entries_ok bs" and ds: "ds = merge_entries as bs"
  shows "set (filter (\<lambda>e. row_by sd_path (te_path e) ds = None) as @ List.map_filter patched_entry ds)
    = set bs"
proof -
  have sorted: "sorted_entries as" "sorted_entries bs" using as bs by (simp_all add: entries_ok_def)
  have at: "row_by sd_path p ds = classify_diff_entry (row_by te_path p as) (row_by te_path p bs)" for p
    unfolding ds by (rule merge_exact[OF sorted])
  have kept: "e \<in> set bs" if "e \<in> set as" "row_by sd_path (te_path e) ds = None" for e
  proof (cases "row_by te_path (te_path e) bs")
    case None
    with that at[of "te_path e"] row_by_sorted[OF sorted(1) that(1)] show ?thesis by simp
  next
    case (Some b)
    note b = row_by_ok[OF bs Some]
    have "classify_diff_entry (Some e) (Some b) = None"
      using that(2) at[of "te_path e"] row_by_sorted[OF sorted(1) that(1)] Some by simp
    moreover have "entry_ok e" using as that(1) by (simp add: entries_ok_def list_all_iff)
    ultimately have "e = b" using b by (intro unchanged_entry) simp_all
    with b show ?thesis by simp
  qed
  have new: "e \<in> set bs" if "d \<in> set ds" "patched_entry d = Some e" for d e
  proof -
    note patched = that(2)
    have "row_by sd_path (sd_path d) ds = Some d"
      using that(1) merge_paths_distinct[OF sorted] ds by (intro row_by_unique) (simp_all add: unique_by_def)
    with at have c: "classify_diff_entry (row_by te_path (sd_path d) as) (row_by te_path (sd_path d) bs) = Some d"
      by simp
    obtain y where y: "row_by te_path (sd_path d) bs = Some y"
      using c patched patched_removed by (cases "row_by te_path (sd_path d) bs") auto
    have "patched_entry d = Some y"
      using c y row_by_ok[OF as] row_by_ok[OF bs y] by (intro patched_classified) auto
    with patched row_by_ok[OF bs y] show ?thesis by simp
  qed
  have covered: "e \<in> set as \<and> row_by sd_path (te_path e) ds = None
      \<or> (\<exists>d \<in> set ds. patched_entry d = Some e)" if "e \<in> set bs" for e
  proof -
    have e: "row_by te_path (te_path e) bs = Some e" by (rule row_by_sorted[OF sorted(2) that])
    show ?thesis
    proof (cases "row_by sd_path (te_path e) ds")
      case None
      with at[of "te_path e"] e obtain a where a: "row_by te_path (te_path e) as = Some a"
        by (cases "row_by te_path (te_path e) as") auto
      note ok = row_by_ok[OF as a] row_by_ok[OF bs e]
      have "a = e" using None at[of "te_path e"] e a ok by (intro unchanged_entry) simp_all
      with None ok show ?thesis by simp
    next
      case (Some d)
      with at[of "te_path e"] e
      have c: "classify_diff_entry (row_by te_path (te_path e) as) (Some e) = Some d" by simp
      have "patched_entry d = Some e"
        by (rule patched_classified[OF c]) (rule row_by_ok[OF as, THEN conjunct2, THEN conjunct1])
      with row_by_in[OF Some] show ?thesis by blast
    qed
  qed
  show ?thesis
  proof (intro set_eqI iffI)
    fix e assume "e \<in> set bs"
    from covered[OF this] show "e \<in> set (filter (\<lambda>e. row_by sd_path (te_path e) ds = None) as
        @ List.map_filter patched_entry ds)" by (auto simp: in_map_filter)
  qed (use kept new in \<open>auto simp: in_map_filter\<close>)
qed

lemma apply_merge:
  assumes as: "entries_ok as" and bs: "entries_ok bs"
  shows "apply_diff (merge_entries as bs) as = bs"
proof -
  let ?ds = "merge_entries as bs"
  let ?l = "filter (\<lambda>e. row_by sd_path (te_path e) ?ds = None) as @ List.map_filter patched_entry ?ds"
  have sorted: "sorted_entries as" "sorted_entries bs" using as bs by (simp_all add: entries_ok_def)
  have set: "set ?l = set bs" by (rule patched_set[OF as bs refl])
  have "te_path ` {e \<in> set as. row_by sd_path (te_path e) ?ds = None}
      \<inter> te_path ` set (List.map_filter patched_entry ?ds) = {}"
    using patched_paths_in[of ?ds] by (auto simp: row_by_None)
  then have "distinct (map te_path ?l)"
    using sorted_entries_distinct[OF sorted(1)] patched_distinct[OF merge_paths_distinct[OF sorted]]
    by (simp add: distinct_map_filter)
  then have d: "distinct (map te_path (sort_key te_path ?l))" by (simp only: distinct_map set_sort distinct_sort)
  have inj: "inj_on te_path (set (sort_key te_path ?l) \<union> set bs)"
    using sorted_entries_distinct[OF sorted(2)] set by (simp add: distinct_map)
  have "sort_key te_path ?l = bs"
    by (rule map_sorted_distinct_set_unique[OF inj sorted_sort_key d])
      (use sorted_entries_distinct[OF sorted(2)] set in simp_all)
  then show ?thesis by (simp add: apply_diff_def)
qed

lemma no_rows:
  assumes "\<And>k. row_by key k rows = None"
  shows "rows = []"
proof (cases rows)
  case (Cons x xs)
  with assms[of "key x"] show ?thesis by simp
qed

text \<open>
  C25. The difference of two valid manifests loses nothing: it lists each changed path once, with
  both sides of the change, applying it to the old entries gives the new entries, and it is empty
  only when the entries are the same.
\<close>

theorem diff_roundtrip:
  assumes "validate_manifest old w p r = Inr ()" "validate_manifest new w' p' r' = Inr ()"
  shows "apply_diff (diff_manifests old new) (tm_entries old) = tm_entries new
    \<and> distinct (map sd_path (diff_manifests old new))
    \<and> (\<forall>path. row_by sd_path path (diff_manifests old new)
        = classify_diff_entry (row_by te_path path (tm_entries old)) (row_by te_path path (tm_entries new)))
    \<and> (diff_manifests old new = [] \<longleftrightarrow> tm_entries old = tm_entries new)"
proof -
  note ok = valid_manifest_entries[OF assms(1)] valid_manifest_entries[OF assms(2)]
  then have sorted: "sorted_entries (tm_entries old)" "sorted_entries (tm_entries new)"
    by (simp_all add: entries_ok_def)
  note applied = apply_merge[OF ok] merge_exact[OF sorted] merge_paths_distinct[OF sorted]
  have empty: "merge_entries (tm_entries old) (tm_entries new) = []" if "tm_entries old = tm_entries new"
  proof -
    have "row_by sd_path q (merge_entries (tm_entries old) (tm_entries new)) = None" for q
      using applied(2)[of q] that by (simp add: classify_diff_entry_def split: option.split)
    then show ?thesis by (rule no_rows)
  qed
  have same: "tm_entries old = tm_entries new" if "merge_entries (tm_entries old) (tm_entries new) = []"
    using applied(1) that apply_merge[OF ok(1) ok(1)] sorted_entries_distinct[OF sorted(1)]
    by (simp add: apply_diff_def List.map_filter_simps sort_key_id_if_sorted)
  show ?thesis unfolding diff_manifests_def
    by (intro conjI allI iffI) (rule applied(1), rule applied(3), rule applied(2), erule same, erule empty)
qed

definition sample_digest :: "char \<Rightarrow> utf8" where
  "sample_digest c = ''sha256:'' @ replicate 64 c"

definition sample_manifest :: "tree_entry list \<Rightarrow> tree_manifest" where
  "sample_manifest es = \<lparr>tm_manifest_version = 1, tm_workspace_id = ''w'', tm_project_id = ''p'',
     tm_entries = es, tm_redaction_profile_id = ''default'', tm_redaction_profile_version = ''0.1''\<rparr>"

definition sample_tree_old :: tree_manifest where
  "sample_tree_old = sample_manifest
     [\<lparr>te_path = ''a'', te_kind = ''file'', te_size = 1, te_digest = Some (sample_digest (CHR ''0''))\<rparr>,
      \<lparr>te_path = ''b'', te_kind = ''directory'', te_size = 0, te_digest = None\<rparr>]"

definition sample_tree_new :: tree_manifest where
  "sample_tree_new = sample_manifest
     [\<lparr>te_path = ''a'', te_kind = ''file'', te_size = 1, te_digest = Some (sample_digest (CHR ''1''))\<rparr>,
      \<lparr>te_path = ''c'', te_kind = ''directory'', te_size = 0, te_digest = None\<rparr>]"

theorem diff_roundtrip_witness:
  "map (\<lambda>d. (sd_path d, sd_change_type d)) (diff_manifests sample_tree_old sample_tree_new)
     = [(''a'', Modified), (''b'', Removed), (''c'', Added)]
   \<and> apply_diff (diff_manifests sample_tree_old sample_tree_new) (tm_entries sample_tree_old)
     = tm_entries sample_tree_new"
proof -
  have v: "validate_manifest sample_tree_old ''w'' ''p'' default_redactor = Inr ()"
    "validate_manifest sample_tree_new ''w'' ''p'' default_redactor = Inr ()" by code_simp+
  have d: "map (\<lambda>d. (sd_path d, sd_change_type d)) (diff_manifests sample_tree_old sample_tree_new)
     = [(''a'', Modified), (''b'', Removed), (''c'', Added)]" by code_simp
  show ?thesis using diff_roundtrip[OF v, THEN conjunct1] d by blast
qed

end
