(* ===== verification/Protocol_Values.thy ===== *)
theory Protocol_Values
  imports Protocol_Types Tree_Manifest
begin

text \<open>
  What the external agent protocol answers with (\<open>src/src/protocol.rs\<close>): the conversion of the
  rows of the store to resources, results and responses, the failures and where they come from,
  and the checks on a request that need no store.
\<close>

section \<open>Conversions\<close>

definition agent_resource_of :: "agent_identity \<Rightarrow> agent_resource" where
  "agent_resource_of a = \<lparr>gr_agent_id = ai_agent_id a, gr_provider_metadata = Some (ai_provider a),
     gr_display_name = ai_display_name a, gr_created_at = ai_created_at a\<rparr>"

definition task_resource_of :: "task_record \<Rightarrow> task_resource" where
  "task_resource_of t = \<lparr>tr_task_id = tk_task_id t, tr_project_id = tk_project_id t,
     tr_goal_ref = tk_goal t, tr_context_ref = tk_context_ref t, tr_state = tk_state t,
     tr_revision = tk_revision t, tr_created_at = tk_created_at t, tr_updated_at = tk_updated_at t\<rparr>"

definition execution_resource_of :: "execution_record \<Rightarrow> execution_resource" where
  "execution_resource_of e = \<lparr>xr_execution_id = ex_execution_id e, xr_task_id = ex_task_id e,
     xr_agent_id = ex_agent_id e, xr_project_id = ex_project_id e,
     xr_parent_execution_id = ex_parent_execution_id e, xr_workspace_id = ex_workspace_id e,
     xr_base_version_id = ex_base_version_id e, xr_current_version_id = ex_current_version_id e,
     xr_state = ex_state e, xr_outcome_code = ex_outcome e, xr_revision = ex_revision e,
     xr_created_at = ex_created_at e, xr_updated_at = ex_updated_at e\<rparr>"

definition workspace_resource_of :: "workspace_record \<Rightarrow> workspace_resource" where
  "workspace_resource_of w = \<lparr>wr_workspace_id = ws_workspace_id w, wr_project_id = ws_project_id w,
     wr_branch_ref = ws_branch_ref w, wr_head = ws_head w, wr_version_head_id = ws_version_head_id w,
     wr_environment_id = ws_environment_id w, wr_state = ws_status w, wr_revision = ws_revision w,
     wr_created_at = ws_created_at w, wr_updated_at = ws_updated_at w\<rparr>"

definition version_resource_of :: "version_record \<Rightarrow> version_resource" where
  "version_resource_of v = \<lparr>vr_version_id = ve_version_id v, vr_workspace_id = ve_workspace_id v,
     vr_project_id = ve_project_id v, vr_snapshot_id = ve_snapshot_id v,
     vr_creation_operation_id = ve_creation_operation_id v, vr_environment_id = ve_environment_id v,
     vr_parent_version_id = ve_parent_version_id v, vr_created_at = ve_created_at v\<rparr>"

text \<open>\<open>SnapshotResource\<close> has the fields of \<open>SnapshotView\<close>, so \<open>From\<close> is a copy.\<close>

definition checkpoint_resource_of :: "checkpoint_record \<Rightarrow> checkpoint_resource" where
  "checkpoint_resource_of c = \<lparr>kr_checkpoint_id = cr_checkpoint_id c, kr_task_id = cr_task_id c,
     kr_execution_id = cr_execution_id c, kr_workspace_id = cr_workspace_id c,
     kr_version_id = cr_version_id c, kr_source_operation_id = cr_operation_id c,
     kr_reason_code = cr_reason c, kr_actor_agent_id = cr_actor_agent_id c,
     kr_request_id = cr_request_id c, kr_created_at = cr_created_at c\<rparr>"

definition handoff_resource_of :: "handoff_record \<Rightarrow> handoff_resource" where
  "handoff_resource_of h = \<lparr>dr_handoff_id = hr_handoff_id h, dr_task_id = hr_task_id h,
     dr_from_execution_id = hr_from_execution_id h, dr_to_execution_id = hr_to_execution_id h,
     dr_source_version_id = hr_source_version_id h, dr_checkpoint_id = hr_checkpoint_id h,
     dr_reason_code = hr_reason h, dr_actor_agent_id = hr_actor_agent_id h,
     dr_request_id = hr_request_id h, dr_state = hr_status h, dr_created_at = hr_created_at h,
     dr_updated_at = hr_updated_at h\<rparr>"

definition resume_resource_of :: "resume_record \<Rightarrow> resume_resource" where
  "resume_resource_of s = \<lparr>ur_execution_id = sr_execution_id s, ur_task_id = sr_task_id s,
     ur_agent_id = sr_agent_id s, ur_source_version_id = sr_source_version_id s,
     ur_checkpoint_id = sr_checkpoint_id s, ur_request_id = sr_request_id s,
     ur_created_at = sr_created_at s\<rparr>"

definition operation_resource_from_record :: "operation_record \<Rightarrow> utf8 option \<Rightarrow> operation_resource" where
  "operation_resource_from_record x execution_id =
     \<lparr>or_operation_id = op_operation_id x, or_execution_id = execution_id,
      or_request_id = op_request_id x, or_agent_id = op_agent_id x,
      or_workspace_id = op_workspace_id x, or_action = op_action x,
      or_state = op_lifecycle_status x, or_recording_state = op_recording_status x,
      or_failure_code = map_option oe_code (op_error x), or_started_at = op_started_at x,
      or_finished_at = op_finished_at x\<rparr>"

definition change_as_str :: "snapshot_change_type \<Rightarrow> utf8" where
  "change_as_str c = (case c of Added \<Rightarrow> ''ADDED'' | Removed \<Rightarrow> ''REMOVED''
     | Modified \<Rightarrow> ''MODIFIED'' | TypeChanged \<Rightarrow> ''TYPE_CHANGED'')"

text \<open>An entry of \<open>SnapshotDiffResource\<close> is the entry of the diff with the change as text.\<close>

record snapshot_diff_resource =
  fr_source_snapshot_id :: utf8
  fr_current_tree_id :: utf8
  fr_entries :: "(utf8 \<times> snapshot_diff_entry) list"

definition snapshot_diff_resource_of :: "snapshot_diff \<Rightarrow> snapshot_diff_resource" where
  "snapshot_diff_resource_of d = \<lparr>fr_source_snapshot_id = df_old_snapshot_id d,
     fr_current_tree_id = df_new_snapshot_id d,
     fr_entries = map (\<lambda>e. (change_as_str (sd_change_type e), e)) (df_entries d)\<rparr>"

definition lease_resource_from_view :: "lease_view \<Rightarrow> lease_resource option" where
  "lease_resource_from_view v =
     (case lv_agent_id v of
        None \<Rightarrow> None
      | Some agent_id \<Rightarrow> Some \<lparr>le_authority = \<lparr>la_workspace_id = lv_workspace_id v,
            la_agent_id = agent_id, la_epoch = lv_epoch v, la_expires_at_ms = lv_expires_at_ms v\<rparr>,
          le_active = lv_active v\<rparr>)"

record execution_inspection =
  in_agent :: agent_resource
  in_task :: task_resource
  in_execution :: execution_resource
  in_workspace :: "workspace_inspection option"
  in_base_version :: "version_resource option"
  in_current_version :: "version_resource option"
  in_checkpoints :: "checkpoint_resource list"
  in_handoffs :: "handoff_resource list"
  in_resume :: "resume_resource option"
  in_operations :: "operation_resource list"

definition inspection_from_state :: "state_view \<Rightarrow> operation_record list \<Rightarrow> execution_inspection" where
  "inspection_from_state s ops =
     (let execution_id = ex_execution_id (sv_execution s) in
      \<lparr>in_agent = agent_resource_of (sv_agent s), in_task = task_resource_of (sv_task s),
       in_execution = execution_resource_of (sv_execution s),
       in_workspace = map_option (\<lambda>w. \<lparr>wi_workspace = workspace_resource_of w,
         wi_lease = Option.bind (sv_lease s) lease_resource_from_view\<rparr>) (sv_workspace s),
       in_base_version = map_option version_resource_of (sv_base_version s),
       in_current_version = map_option version_resource_of (sv_current_version s),
       in_checkpoints = map checkpoint_resource_of
         (filter (\<lambda>c. cr_execution_id c = execution_id) (sv_checkpoints s)),
       in_handoffs = map handoff_resource_of
         (filter (\<lambda>h. hr_from_execution_id h = execution_id \<or> hr_to_execution_id h = execution_id)
           (sv_handoffs s)),
       in_resume = map_option resume_resource_of (sv_resume s),
       in_operations = map (\<lambda>x. operation_resource_from_record x (Some execution_id)) ops\<rparr>)"

section \<open>Results and responses\<close>

record hello_result =
  he_protocol_versions :: "utf8 list"
  he_commands :: "utf8 list"
  he_queries :: "utf8 list"
  he_mutation_acknowledgement :: utf8
  he_provider_neutral :: bool
  he_transport_neutral :: bool

definition hello :: hello_result where
  "hello = \<lparr>he_protocol_versions = [external_agent_protocol_version],
     he_commands = command_capabilities, he_queries = query_capabilities,
     he_mutation_acknowledgement = ''durable_or_error'', he_provider_neutral = True,
     he_transport_neutral = True\<rparr>"

record version_publication_resource =
  pu_snapshot :: snapshot_view
  pu_version :: version_resource
  pu_workspace :: workspace_resource
  pu_execution_id :: utf8
  pu_operation_attached :: bool

datatype (discs_sels) protocol_result =
    HelloResult hello_result
  | AgentResult agent_resource
  | TaskResult task_resource
  | ExecutionResult execution_resource
  | WorkspaceResult workspace_resource
  | WorkspaceInspectionResult workspace_inspection
  | LeaseResult lease_resource
  | ReleasedResult utf8 utf8
  | VersionResult version_resource
  | VersionPublicationResult version_publication_resource
  | SnapshotResult snapshot_view
  | CheckpointResult checkpoint_resource
  | CheckpointsResult "checkpoint_resource list"
  | HandoffResult handoff_resource
  | HandoffsResult "handoff_resource list"
  | ResumeResult resume_resource
  | OperationResult operation_resource
  | ExecutionInspectionResult execution_inspection
  | DiffResult snapshot_diff_resource

datatype protocol_error_code =
    UnsupportedVersionCode | ValidationErrorCode | UnauthorizedCode | ForbiddenCode | NotFoundCode
  | ConflictCode | IntegrityErrorCode | LeaseConflictCode | RevisionConflictCode
  | InvalidStateCode | IdempotencyConflictCode | NotSupportedCode | RecoveryRequiredCode
  | ResourceExhaustedCode | InternalErrorCode

record protocol_error_details =
  pd_entity_kind :: "utf8 option"
  pd_entity_id :: "utf8 option"
  pd_expected_revision :: "int option"
  pd_actual_revision :: "int option"

text \<open>\<open>ProtocolFailure\<close> and \<open>ProtocolError\<close> have the same fields; \<open>From\<close> is a copy.\<close>

record protocol_failure =
  pf_code :: protocol_error_code
  pf_message :: utf8
  pf_retryable :: bool
  pf_details :: "protocol_error_details option"

type_synonym 'a answer = "protocol_failure + 'a"

definition failure :: "protocol_error_code \<Rightarrow> utf8 \<Rightarrow> bool \<Rightarrow> protocol_failure" where
  "failure code message retryable =
     \<lparr>pf_code = code, pf_message = message, pf_retryable = retryable, pf_details = None\<rparr>"

definition with_entity :: "utf8 \<Rightarrow> utf8 \<Rightarrow> protocol_failure \<Rightarrow> protocol_failure" where
  "with_entity kind i f = f\<lparr>pf_details := Some \<lparr>pd_entity_kind = Some kind, pd_entity_id = Some i,
     pd_expected_revision = None, pd_actual_revision = None\<rparr>\<rparr>"

definition validation_failure :: "utf8 \<Rightarrow> protocol_failure" where
  "validation_failure message = failure ValidationErrorCode message False"

definition forbidden_failure :: "utf8 \<Rightarrow> protocol_failure" where
  "forbidden_failure message = failure ForbiddenCode message False"

definition not_found_failure :: "utf8 \<Rightarrow> utf8 \<Rightarrow> protocol_failure" where
  "not_found_failure kind i =
     with_entity kind i (failure NotFoundCode ''requested entity does not exist'' False)"

definition revision_failure :: "utf8 \<Rightarrow> utf8 \<Rightarrow> int \<Rightarrow> int \<Rightarrow> protocol_failure" where
  "revision_failure kind i expected actual =
     (failure RevisionConflictCode ''expected revision does not match durable state'' True)
       \<lparr>pf_details := Some \<lparr>pd_entity_kind = Some kind, pd_entity_id = Some i,
          pd_expected_revision = Some expected, pd_actual_revision = Some actual\<rparr>\<rparr>"

definition lease_failure :: "utf8 \<Rightarrow> protocol_failure" where
  "lease_failure workspace_id = with_entity ''workspace'' workspace_id
     (failure LeaseConflictCode
       ''Workspace lease authority is missing, stale, foreign, or expired'' True)"

definition failure_from_pong :: "pong_error \<Rightarrow> protocol_failure" where
  "failure_from_pong e =
     (case e of
        InvalidInput _ \<Rightarrow> failure ValidationErrorCode ''domain request validation failed'' False
      | Integrity _ \<Rightarrow> failure IntegrityErrorCode ''durable state failed integrity validation'' False
      | NotFound _ \<Rightarrow> failure NotFoundCode ''required durable entity does not exist'' False
      | Conflict _ \<Rightarrow> failure ConflictCode ''durable state conflicts with the request'' True
      | IdempotencyKeyReuse _ \<Rightarrow>
          failure IdempotencyConflictCode ''request identity was reused with different content'' False
      | Unsupported _ \<Rightarrow>
          failure NotSupportedCode ''operation is not supported by this implementation'' False
      | RecoveryRequired _ \<Rightarrow> failure RecoveryRequiredCode ''durable state requires explicit recovery'' True
      | ResourceExhausted _ \<Rightarrow>
          failure ResourceExhaustedCode ''a required host resource is exhausted'' True
      | PermissionDenied _ \<Rightarrow>
          failure ForbiddenCode ''operation was denied by the protected storage boundary'' False
      | PermissionDeniedWithOsError _ _ \<Rightarrow>
          failure ForbiddenCode ''operation was denied by the protected storage boundary'' False
      | FaultInjected _ \<Rightarrow> failure RecoveryRequiredCode
          ''operation result is unconfirmed; inspect durable state before retry'' True
      | Io _ \<Rightarrow> failure InternalErrorCode ''internal persistence failure'' True
      | Sqlite _ \<Rightarrow> failure InternalErrorCode ''internal persistence failure'' True
      | Serialization _ \<Rightarrow> failure InternalErrorCode ''internal persistence failure'' True)"

datatype workspace_binding_error = InvalidBinding | BindingNotFound | BindingForbidden
  | BindingUnavailable

definition failure_from_binding :: "workspace_binding_error \<Rightarrow> protocol_failure" where
  "failure_from_binding e =
     (case e of
        InvalidBinding \<Rightarrow> validation_failure ''workspace binding reference is invalid''
      | BindingNotFound \<Rightarrow> failure NotFoundCode ''workspace binding reference does not exist'' False
      | BindingForbidden \<Rightarrow> failure ForbiddenCode ''workspace binding reference is not authorized'' False
      | BindingUnavailable \<Rightarrow>
          failure InternalErrorCode ''workspace binding service is unavailable'' True)"

text \<open>The status of a response is \<open>Ok\<close> exactly when the sum is right.\<close>

datatype protocol_status = OkStatus | ErrorStatus

record protocol_response =
  ps_protocol_version :: utf8
  ps_request_id :: utf8
  ps_operation_id :: "utf8 option"
  ps_status :: protocol_status
  ps_result :: "protocol_result option"
  ps_error :: "protocol_failure option"

definition success_response :: "utf8 \<Rightarrow> utf8 option \<Rightarrow> protocol_result \<Rightarrow> protocol_response" where
  "success_response request_id operation_id result =
     \<lparr>ps_protocol_version = external_agent_protocol_version, ps_request_id = request_id,
      ps_operation_id = operation_id, ps_status = OkStatus, ps_result = Some result, ps_error = None\<rparr>"

definition failure_response :: "utf8 \<Rightarrow> utf8 option \<Rightarrow> protocol_failure \<Rightarrow> protocol_response" where
  "failure_response request_id operation_id f =
     \<lparr>ps_protocol_version = external_agent_protocol_version, ps_request_id = request_id,
      ps_operation_id = operation_id, ps_status = ErrorStatus, ps_result = None, ps_error = Some f\<rparr>"

definition invalid_envelope :: "utf8 option \<Rightarrow> protocol_response" where
  "invalid_envelope request_id =
     failure_response (case request_id of None \<Rightarrow> ''unknown'' | Some i \<Rightarrow> i) None
       (validation_failure ''request envelope is invalid'')"

section \<open>Checks that need no store\<close>

definition header_present :: "utf8 \<times> utf8 \<Rightarrow> unit answer" where
  "header_present vl = (if trimmed_empty (fst vl)
     then Inl (validation_failure (snd vl @ '' must not be empty'')) else Inr ())"

definition header_optional :: "utf8 option \<times> utf8 \<Rightarrow> unit answer" where
  "header_optional vl = (case fst vl of None \<Rightarrow> Inr () | Some v \<Rightarrow> header_present (v, snd vl))"

definition validate_request_header :: "protocol_request \<Rightarrow> unit answer" where
  "validate_request_header q =
     try_then (check_all header_present [(pr_protocol_version q, ''protocol_version''),
       (pr_request_id q, ''request_id''), (pr_issued_at q, ''issued_at'')]) (\<lambda>_.
     check_all header_optional [(pr_caller_agent_id q, ''caller_agent_id''),
       (pr_operation_id q, ''operation_id'')])"

definition required_caller :: "utf8 option \<Rightarrow> utf8 answer" where
  "required_caller caller = (case caller of
     None \<Rightarrow> Inl (failure UnauthorizedCode ''caller Agent identity is required'' False)
   | Some c \<Rightarrow> Inr c)"

definition required_operation_id :: "utf8 option \<Rightarrow> utf8 answer" where
  "required_operation_id operation_id = (case operation_id of
     None \<Rightarrow> Inl (validation_failure ''operation_id is required'') | Some i \<Rightarrow> Inr i)"

definition validate_operation_outcome_command :: "finish_operation_command \<Rightarrow> unit answer" where
  "validate_operation_outcome_command c =
     (case (pfo_status c, pfo_failure c) of
        (TCompleted, None) \<Rightarrow> Inr ()
      | (TCompleted, Some _) \<Rightarrow>
          Inl (validation_failure ''completed Operation must not include failure'')
      | (_, Some f) \<Rightarrow>
          if \<not> trimmed_empty (pof_code f) then Inr ()
          else Inl (validation_failure ''operation failure code must not be empty'')
      | (_, None) \<Rightarrow> Inl (validation_failure ''non-completed Operation must include failure''))"

definition protocol_execution_transition_allowed :: "utf8 \<Rightarrow> utf8 \<Rightarrow> bool" where
  "protocol_execution_transition_allowed current next_state =
     (if current = ''created''
      then next_state \<in> {''running'', ''paused'', ''failed'', ''interrupted'', ''unknown''}
      else if current = ''running''
      then next_state \<in> {''running'', ''paused'', ''completed'', ''failed'', ''interrupted'', ''unknown''}
      else if current = ''paused''
      then next_state \<in> {''paused'', ''running'', ''completed'', ''failed'', ''interrupted'', ''unknown''}
      else False)"

end
