(* ===== verification/Protocol.thy ===== *)
theory Protocol
  imports Control Protocol_Values
begin

text \<open>
  The dispatch of the external agent protocol (\<open>src/src/protocol.rs\<close>): one request in, one
  response out, over the metadata store. Every command checks who asks before it calls the
  control facade. The operations that work on the files of a workspace, and the service that
  resolves a binding reference, are arguments.
\<close>

section \<open>What surrounds the store\<close>

record protocol_host =
  ph_resolve :: "utf8 \<Rightarrow> workspace_binding_error + utf8"
  ph_create_workspace ::
    "metadata_store \<Rightarrow> create_workspace_command \<Rightarrow> utf8 \<Rightarrow> utf8 \<Rightarrow> workspace_record res \<times> metadata_store"
  ph_capture :: capture
  ph_materialize ::
    "metadata_store \<Rightarrow> materialize_version_command \<Rightarrow> int \<Rightarrow> utf8 \<Rightarrow> utf8 res \<times> metadata_store"
  ph_diff :: "db \<Rightarrow> diff_workspace_version_query \<Rightarrow> snapshot_diff res"
  ph_explain :: "json \<Rightarrow> utf8"

definition from_res :: "'a res \<Rightarrow> 'a answer" where
  "from_res x = (case x of Inl e \<Rightarrow> Inl (failure_from_pong e) | Inr y \<Rightarrow> Inr y)"

definition on_store :: "'a res \<times> metadata_store \<Rightarrow> 'a answer \<times> metadata_store" where
  "on_store m = (from_res (fst m), snd m)"

definition answer_with :: "('a \<Rightarrow> protocol_result) \<Rightarrow> 'a res \<times> metadata_store \<Rightarrow> protocol_result answer \<times> metadata_store"
where
  "answer_with f m = then_on (on_store m) (\<lambda>x st. (Inr (f x), st))"

lemma from_res_simps [simp]: "from_res (Inl e) = Inl (failure_from_pong e)" "from_res (Inr x) = Inr x"
  by (simp_all add: from_res_def)

lemma from_res_Inr [simp]: "from_res x = Inr y \<longleftrightarrow> x = Inr y"
  by (cases x) simp_all

lemma answer_with_store [simp]: "snd (answer_with f m) = snd m"
  by (cases m; cases "fst m") (simp_all add: answer_with_def on_store_def)

section \<open>Guards\<close>

definition require_registered_agent :: "redactor \<Rightarrow> db \<Rightarrow> utf8 \<Rightarrow> unit answer" where
  "require_registered_agent r d agent_id =
     (if agent_identity_by r d agent_id = None
      then Inl (with_entity ''agent'' agent_id
        (failure UnauthorizedCode ''caller Agent identity is not registered'' False))
      else Inr ())"

definition require_execution_owner ::
  "externals \<Rightarrow> redactor \<Rightarrow> db \<Rightarrow> utf8 \<Rightarrow> utf8 \<Rightarrow> execution_record answer" where
  "require_execution_owner X r d caller execution_id =
     try_then (from_res (execution_by X r d execution_id)) (\<lambda>found.
     try_then (ok_or found (not_found_failure ''execution'' execution_id)) (\<lambda>e.
     if ex_agent_id e \<noteq> caller
     then Inl (with_entity ''execution'' execution_id
       (forbidden_failure ''caller does not own the target Execution''))
     else Inr e))"

definition require_execution_transition ::
  "externals \<Rightarrow> redactor \<Rightarrow> db \<Rightarrow> utf8 \<Rightarrow> utf8 \<Rightarrow> int \<Rightarrow> utf8 \<Rightarrow> utf8 option \<Rightarrow> execution_record answer"
where
  "require_execution_transition X r d caller execution_id expected next_state outcome_code =
     (if expected < 0
      then Inl (validation_failure ''expected Execution revision must not be negative'')
      else try_then (require_execution_owner X r d caller execution_id) (\<lambda>e.
        if ex_state e = next_state \<and> ex_outcome e = outcome_code then Inr e
        else if ex_revision e \<noteq> expected
        then Inl (revision_failure ''execution'' execution_id expected (ex_revision e))
        else if \<not> protocol_execution_transition_allowed (ex_state e) next_state
        then Inl (with_entity ''execution'' execution_id
          (failure InvalidStateCode ''Execution lifecycle transition is not allowed'' False))
        else Inr e))"

definition require_execution_workspace ::
  "externals \<Rightarrow> redactor \<Rightarrow> db \<Rightarrow> utf8 \<Rightarrow> utf8 \<Rightarrow> utf8 \<Rightarrow> execution_record answer" where
  "require_execution_workspace X r d caller execution_id workspace_id =
     try_then (require_execution_owner X r d caller execution_id) (\<lambda>e.
     if ex_workspace_id e \<noteq> Some workspace_id
     then Inl (with_entity ''workspace'' workspace_id
       (forbidden_failure ''Execution does not own the target Workspace''))
     else Inr e)"

definition require_stored_workspace :: "redactor \<Rightarrow> db \<Rightarrow> utf8 \<Rightarrow> workspace_record answer" where
  "require_stored_workspace r d workspace_id =
     ok_or (workspace_by r d workspace_id) (not_found_failure ''workspace'' workspace_id)"

definition require_execution_version_revisions ::
  "externals \<Rightarrow> redactor \<Rightarrow> db \<Rightarrow> utf8 \<Rightarrow> set_execution_version_command \<Rightarrow> unit answer" where
  "require_execution_version_revisions X r d caller c =
     (let workspace_id = la_workspace_id (psv_lease c);
        execution_revision = psv_expected_execution_revision c;
        workspace_revision = psv_expected_workspace_revision c in
      if execution_revision < 0 \<or> workspace_revision < 0
      then Inl (validation_failure ''expected revision must not be negative'')
      else
        try_then (require_execution_workspace X r d caller (psv_execution_id c) workspace_id) (\<lambda>e.
        try_then (require_stored_workspace r d workspace_id) (\<lambda>w.
        if ex_current_version_id e = Some (psv_version_id c)
          \<and> ex_revision e = saturating_add execution_revision 1
          \<and> ws_revision w = saturating_add workspace_revision 1
        then Inr ()
        else if ex_revision e \<noteq> execution_revision
        then Inl (revision_failure ''execution'' (psv_execution_id c) execution_revision (ex_revision e))
        else if ws_revision w \<noteq> workspace_revision
        then Inl (revision_failure ''workspace'' workspace_id workspace_revision (ws_revision w))
        else Inr ())))"

definition require_workspace_revision :: "redactor \<Rightarrow> db \<Rightarrow> utf8 \<Rightarrow> int \<Rightarrow> unit answer" where
  "require_workspace_revision r d workspace_id expected =
     (if expected < 0
      then Inl (validation_failure ''expected Workspace revision must not be negative'')
      else try_then (require_stored_workspace r d workspace_id) (\<lambda>w.
        if ws_revision w \<noteq> expected
        then Inl (revision_failure ''workspace'' workspace_id expected (ws_revision w))
        else Inr ()))"

definition require_lease :: "redactor \<Rightarrow> db \<Rightarrow> utf8 \<Rightarrow> lease_authority \<Rightarrow> int \<Rightarrow> unit answer" where
  "require_lease r d caller a now_ms =
     (let conflict = lease_failure (la_workspace_id a) in
      if la_agent_id a \<noteq> caller then Inl conflict
      else (case control_lease r d (la_workspace_id a) now_ms of
        None \<Rightarrow> Inl conflict
      | Some l \<Rightarrow>
          if \<not> lv_active l \<or> lv_agent_id l \<noteq> Some caller \<or> lv_epoch l \<noteq> la_epoch a
            \<or> lv_expires_at_ms l \<noteq> la_expires_at_ms a
          then Inl conflict else Inr ()))"

section \<open>Handlers\<close>

text \<open>A handler takes the host, the caller, the request and the time, and the store.\<close>

record call_context =
  cx_caller :: utf8
  cx_request_id :: utf8
  cx_operation_id :: "utf8 option"
  cx_issued_at :: utf8
  cx_now_ms :: int

type_synonym handled = "protocol_result answer \<times> metadata_store"

definition execution_answer :: "execution_record res \<times> metadata_store \<Rightarrow> handled" where
  "execution_answer m = answer_with (\<lambda>e. ExecutionResult (execution_resource_of e)) m"

lemma execution_answer_store [simp]: "snd (execution_answer m) = snd m"
  by (simp add: execution_answer_def)

definition handle_create_execution ::
  "externals \<Rightarrow> call_context \<Rightarrow> create_execution_command \<Rightarrow> metadata_store \<Rightarrow> handled" where
  "handle_create_execution X cx c st = execution_answer (create_execution X st
     \<lparr>ec_execution_id = pce_execution_id c, ec_task_id = pce_task_id c, ec_agent_id = cx_caller cx,
      ec_parent_execution_id = pce_parent_execution_id c, ec_workspace_id = pce_workspace_id c,
      ec_base_version_id = pce_base_version_id c, ec_current_version_id = None,
      ec_created_at = cx_issued_at cx\<rparr>)"

definition handle_start_execution ::
  "externals \<Rightarrow> call_context \<Rightarrow> execution_revision_command \<Rightarrow> metadata_store \<Rightarrow> handled" where
  "handle_start_execution X cx c st =
     check_on st (require_execution_transition X (st_redactor st) (st_db st) (cx_caller cx)
       (per_execution_id c) (per_expected_revision c) ''running'' None) (\<lambda>_.
     execution_answer
       (start_execution X st (per_execution_id c) (per_expected_revision c) (cx_issued_at cx)))"

definition execution_transition ::
  "externals \<Rightarrow> call_context \<Rightarrow> execution_outcome_command \<Rightarrow> utf8 \<Rightarrow> metadata_store \<Rightarrow> handled" where
  "execution_transition X cx c next_state st =
     check_on st (require_execution_transition X (st_redactor st) (st_db st) (cx_caller cx)
       (peo_execution_id c) (peo_expected_revision c) next_state (peo_outcome_code c)) (\<lambda>_.
     execution_answer (finish_execution X st (peo_execution_id c) next_state (peo_outcome_code c)
       (peo_expected_revision c) (cx_issued_at cx)))"

definition granted :: "lease_token \<Rightarrow> protocol_result" where
  "granted t = LeaseResult \<lparr>le_authority = authority_of t, le_active = True\<rparr>"

definition handle_acquire_lease ::
  "externals \<Rightarrow> call_context \<Rightarrow> acquire_lease_command \<Rightarrow> metadata_store \<Rightarrow> handled" where
  "handle_acquire_lease X cx c st =
     (let r = st_redactor st; d = st_db st in
      check_on st (require_execution_workspace X r d (cx_caller cx) (pal_execution_id c)
        (pal_workspace_id c)) (\<lambda>_.
      if pal_ttl_ms c \<le> 0 then (Inl (validation_failure ''lease ttl_ms must be positive''), st)
      else (case Option.bind (control_lease r d (pal_workspace_id c) (cx_now_ms cx))
          (\<lambda>l. if lv_active l then Some l else None) of
        Some l \<Rightarrow>
          if lv_agent_id l = Some (cx_caller cx)
          then (map_sum id LeaseResult (ok_or (lease_resource_from_view l)
              (failure IntegrityErrorCode ''active lease has no Agent owner'' False)), st)
          else (Inl (lease_failure (pal_workspace_id c)), st)
      | None \<Rightarrow> answer_with granted (acquire_workspace_lease st
          \<lparr>aq_workspace_id = pal_workspace_id c, aq_agent_id = cx_caller cx,
           aq_now_ms = cx_now_ms cx, aq_ttl_ms = pal_ttl_ms c\<rparr>))))"

definition handle_renew_lease :: "call_context \<Rightarrow> renew_lease_command \<Rightarrow> metadata_store \<Rightarrow> handled" where
  "handle_renew_lease cx c st =
     check_on st (require_lease (st_redactor st) (st_db st) (cx_caller cx) (prl_lease c) (cx_now_ms cx)) (\<lambda>_.
     if prl_ttl_ms c \<le> 0 then (Inl (validation_failure ''lease ttl_ms must be positive''), st)
     else answer_with granted (renew_workspace_lease st
       \<lparr>nq_token = token_of (prl_lease c), nq_now_ms = cx_now_ms cx, nq_ttl_ms = prl_ttl_ms c\<rparr>))"

definition handle_release_lease :: "call_context \<Rightarrow> release_lease_command \<Rightarrow> metadata_store \<Rightarrow> handled" where
  "handle_release_lease cx c st =
     (let r = st_redactor st; d = st_db st; i = la_workspace_id (pll_lease c);
        released = ReleasedResult ''workspace_lease'' i in
      if (case control_lease r d i (cx_now_ms cx) of
            None \<Rightarrow> False
          | Some l \<Rightarrow> \<not> lv_active l \<and> lv_agent_id l = None \<and> lv_epoch l = la_epoch (pll_lease c))
      then (Inr released, st)
      else check_on st (require_lease r d (cx_caller cx) (pll_lease c) (cx_now_ms cx)) (\<lambda>_.
        answer_with (\<lambda>_. released) (release_workspace_lease st (token_of (pll_lease c), cx_now_ms cx))))"

definition handle_publish_version ::
  "externals \<Rightarrow> protocol_host \<Rightarrow> call_context \<Rightarrow> publish_version_command \<Rightarrow> metadata_store \<Rightarrow> handled" where
  "handle_publish_version X H cx c st =
     (let r = st_redactor st; d = st_db st in
      check_on st (required_operation_id (cx_operation_id cx)) (\<lambda>operation_id.
      check_on st (require_execution_workspace X r d (cx_caller cx) (ppv_execution_id c)
        (ppv_workspace_id c)) (\<lambda>_.
      check_on st (if operation_by r d operation_id = None
        then require_workspace_revision r d (ppv_workspace_id c) (ppv_expected_workspace_revision c)
        else Inr ()) (\<lambda>_.
      check_on st (require_lease r d (cx_caller cx) (ppv_lease c) (cx_now_ms cx)) (\<lambda>_.
      then_on (on_store (publish_version X (ph_explain H) (ph_capture H) st
        \<lparr>pbr_workspace_id = ppv_workspace_id c, pbr_lease = token_of (ppv_lease c),
         pbr_expected_revision = ppv_expected_workspace_revision c, pbr_now_ms = cx_now_ms cx,
         pbr_created_at = cx_issued_at cx, pbr_operation_id = operation_id,
         pbr_request_id = cx_request_id cx,
         pbr_session_id = Some (''protocol-request:'' @ cx_request_id cx),
         pbr_tool = Some ''external-agent-protocol'', pbr_parent_version_id = ppv_parent_version_id c,
         pbr_update_version_head = ppv_update_version_head c\<rparr>)) (\<lambda>p st.
      then_on (on_store (attach_operation_to_execution X st
        \<lparr>eo_execution_id = ppv_execution_id c, eo_operation_id = operation_id,
         eo_created_at = cx_issued_at cx\<rparr>)) (\<lambda>_ st.
      (Inr (VersionPublicationResult \<lparr>pu_snapshot = pvr_snapshot p,
         pu_version = version_resource_of (pvr_version p),
         pu_workspace = workspace_resource_of (pvr_workspace p),
         pu_execution_id = ppv_execution_id c, pu_operation_attached = True\<rparr>), st))))))))"

definition handle_set_current_version ::
  "externals \<Rightarrow> call_context \<Rightarrow> set_execution_version_command \<Rightarrow> metadata_store \<Rightarrow> handled" where
  "handle_set_current_version X cx c st =
     (let r = st_redactor st; d = st_db st in
      check_on st (require_execution_version_revisions X r d (cx_caller cx) c) (\<lambda>_.
      check_on st (require_lease r d (cx_caller cx) (psv_lease c) (cx_now_ms cx)) (\<lambda>_.
      execution_answer (set_execution_current_version X st
        \<lparr>vq_execution_id = psv_execution_id c, vq_version_id = psv_version_id c,
         vq_lease = token_of (psv_lease c),
         vq_expected_execution_revision = psv_expected_execution_revision c,
         vq_expected_workspace_revision = psv_expected_workspace_revision c,
         vq_updated_at = cx_issued_at cx, vq_now_ms = cx_now_ms cx\<rparr>))))"

definition handle_create_checkpoint ::
  "externals \<Rightarrow> call_context \<Rightarrow> create_checkpoint_command \<Rightarrow> metadata_store \<Rightarrow> handled" where
  "handle_create_checkpoint X cx c st =
     check_on st (require_execution_workspace X (st_redactor st) (st_db st) (cx_caller cx)
       (pcc_execution_id c) (pcc_workspace_id c)) (\<lambda>_.
     answer_with (\<lambda>k. CheckpointResult (checkpoint_resource_of k)) (create_checkpoint X st
       \<lparr>cc_checkpoint_id = pcc_checkpoint_id c, cc_task_id = pcc_task_id c,
        cc_execution_id = pcc_execution_id c, cc_workspace_id = pcc_workspace_id c,
        cc_version_id = pcc_version_id c, cc_operation_id = pcc_source_operation_id c,
        cc_reason = pcc_reason_code c, cc_actor_agent_id = cx_caller cx,
        cc_request_id = cx_request_id cx, cc_created_at = cx_issued_at cx\<rparr>))"

definition handle_resume ::
  "externals \<Rightarrow> call_context \<Rightarrow> resume_checkpoint_command \<Rightarrow> metadata_store \<Rightarrow> handled" where
  "handle_resume X cx c st =
     answer_with (\<lambda>x. ResumeResult (resume_resource_of x)) (resume_from_checkpoint X st
       \<lparr>sc_execution_id = prc_execution_id c, sc_task_id = prc_task_id c, sc_agent_id = cx_caller cx,
        sc_parent_execution_id = prc_parent_execution_id c, sc_workspace_id = Some (prc_workspace_id c),
        sc_source_version_id = None, sc_checkpoint_id = Some (prc_checkpoint_id c),
        sc_request_id = cx_request_id cx, sc_created_at = cx_issued_at cx\<rparr>)"

definition handle_create_handoff ::
  "externals \<Rightarrow> call_context \<Rightarrow> create_handoff_command \<Rightarrow> metadata_store \<Rightarrow> handled" where
  "handle_create_handoff X cx c st =
     check_on st (require_execution_owner X (st_redactor st) (st_db st) (cx_caller cx)
       (pch_from_execution_id c)) (\<lambda>_.
     answer_with (\<lambda>h. HandoffResult (handoff_resource_of h)) (create_handoff X st
       \<lparr>hc_handoff_id = pch_handoff_id c, hc_task_id = pch_task_id c,
        hc_from_execution_id = pch_from_execution_id c, hc_to_execution_id = pch_to_execution_id c,
        hc_source_version_id = pch_source_version_id c, hc_checkpoint_id = pch_checkpoint_id c,
        hc_reason = pch_reason_code c, hc_actor_agent_id = cx_caller cx,
        hc_requester_execution_id = Some (pch_from_execution_id c),
        hc_request_id = cx_request_id cx, hc_created_at = cx_issued_at cx\<rparr>))"

definition handle_materialize ::
  "externals \<Rightarrow> protocol_host \<Rightarrow> call_context \<Rightarrow> materialize_version_command \<Rightarrow> metadata_store \<Rightarrow> handled" where
  "handle_materialize X H cx c st =
     (let r = st_redactor st; d = st_db st in
      check_on st (require_execution_workspace X r d (cx_caller cx) (pmv_execution_id c)
        (pmv_workspace_id c)) (\<lambda>_.
      check_on st (require_workspace_revision r d (pmv_workspace_id c)
        (pmv_expected_workspace_revision c)) (\<lambda>_.
      check_on st (require_lease r d (cx_caller cx) (pmv_lease c) (cx_now_ms cx)) (\<lambda>_.
      answer_with SnapshotResult
        (then_on (ph_materialize H st c (cx_now_ms cx) (cx_issued_at cx)) (\<lambda>i st.
         check_on st (ok_or (snapshot_record_of (st_db st) i)
           (Integrity ''materialized snapshot metadata is missing'')) (\<lambda>s.
         (Inr (snapshot_view_of s), st))))))))"

definition execution_environment :: "redactor \<Rightarrow> db \<Rightarrow> execution_record \<Rightarrow> utf8 option answer" where
  "execution_environment r d e =
     (case ex_workspace_id e of
        None \<Rightarrow> Inr None
      | Some i \<Rightarrow> try_then (require_stored_workspace r d i) (\<lambda>w. Inr (ws_environment_id w)))"

definition runtime_operation ::
  "call_context \<Rightarrow> start_operation_command \<Rightarrow> utf8 \<Rightarrow> execution_record \<Rightarrow> utf8 option \<Rightarrow> operation_envelope" where
  "runtime_operation cx c operation_id e environment_id =
     \<lparr>ov_operation_id = operation_id, ov_project_id = ex_project_id e, ov_request_id = cx_request_id cx,
      ov_agent_id = cx_caller cx, ov_session_id = ''execution:'' @ pso_execution_id c,
      ov_workspace_id = ex_workspace_id e, ov_environment_id = environment_id,
      ov_parent_operation_id = None, ov_schema_version = ''0.1'', ov_started_at = cx_issued_at cx,
      ov_tool = ''external-agent-runtime'', ov_action = pso_action c, ov_input_refs = [],
      ov_output_refs = [], ov_resource = None, ov_before_state = None, ov_after_state = None,
      ov_reversibility = ''UNKNOWN'', ov_replayability = ''UNKNOWN'', ov_side_effect = ''EXTERNAL'',
      ov_policy_decision = None\<rparr>"

definition operation_answer :: "utf8 option \<Rightarrow> operation_record \<Rightarrow> protocol_result" where
  "operation_answer execution_id x = OperationResult (operation_resource_from_record x execution_id)"

definition handle_start_operation ::
  "externals \<Rightarrow> call_context \<Rightarrow> start_operation_command \<Rightarrow> metadata_store \<Rightarrow> handled" where
  "handle_start_operation X cx c st =
     (let r = st_redactor st; d = st_db st in
      check_on st (required_operation_id (cx_operation_id cx)) (\<lambda>operation_id.
      check_on st (require_execution_owner X r d (cx_caller cx) (pso_execution_id c)) (\<lambda>e.
      if ex_state e \<noteq> ''running''
      then (Inl (with_entity ''execution'' (pso_execution_id c)
        (failure InvalidStateCode ''Operation requires a running Execution'' False)), st)
      else if trimmed_empty (pso_action c)
      then (Inl (validation_failure ''operation action must not be empty''), st)
      else check_on st (execution_environment r d e) (\<lambda>environment_id.
        answer_with (operation_answer (Some (pso_execution_id c)))
          (start_execution_operation X st (pso_execution_id c)
            (runtime_operation cx c operation_id e environment_id) (cx_issued_at cx))))))"

definition reported_outcome :: "call_context \<Rightarrow> finish_operation_command \<Rightarrow> operation_outcome" where
  "reported_outcome cx c =
     \<lparr>oo_status = terminal_as_str (pfo_status c), oo_finished_at = cx_issued_at cx,
      oo_output_refs = None, oo_after_state = None,
      oo_result = (if terminal_as_str (pfo_status c) = ''completed''
        then Some (JObject [(''acknowledgement'', JString ''external Agent reported completion'')])
        else None),
      oo_error = map_option (\<lambda>f. \<lparr>oe_code = pof_code f,
          oe_message = ''external Agent reported a terminal Operation outcome'',
          oe_retryable = pof_retryable f, oe_details = None, oe_safe_to_expose = False\<rparr>) (pfo_failure c)\<rparr>"

definition require_own_operation :: "redactor \<Rightarrow> db \<Rightarrow> utf8 \<Rightarrow> utf8 \<Rightarrow> operation_record answer" where
  "require_own_operation r d caller i =
     try_then (ok_or (operation_by r d i) (not_found_failure ''operation'' i)) (\<lambda>x.
     if op_agent_id x \<noteq> caller
     then Inl (with_entity ''operation'' i (forbidden_failure ''caller does not own the target Operation''))
     else Inr x)"

definition handle_finish_operation ::
  "externals \<Rightarrow> call_context \<Rightarrow> finish_operation_command \<Rightarrow> metadata_store \<Rightarrow> handled" where
  "handle_finish_operation X cx c st =
     (let r = st_redactor st; d = st_db st in
      check_on st (required_operation_id (cx_operation_id cx)) (\<lambda>operation_id.
      check_on st (require_execution_owner X r d (cx_caller cx) (pfo_execution_id c)) (\<lambda>_.
      check_on st (require_own_operation r d (cx_caller cx) operation_id) (\<lambda>_.
      check_on st (validate_operation_outcome_command c) (\<lambda>_.
      answer_with (operation_answer (Some (pfo_execution_id c)))
        (finish_execution_operation X st (pfo_execution_id c) operation_id (reported_outcome cx c)))))))"

section \<open>Queries\<close>

definition operation_owner :: "externals \<Rightarrow> redactor \<Rightarrow> db \<Rightarrow> operation_record \<Rightarrow> protocol_result answer" where
  "operation_owner X r d x =
     try_then (from_res (execution_for_operation X r d (op_operation_id x))) (\<lambda>owner.
     Inr (operation_answer (map_option eo_execution_id owner) x))"

definition query_workspace :: "redactor \<Rightarrow> db \<Rightarrow> utf8 \<Rightarrow> int \<Rightarrow> protocol_result answer" where
  "query_workspace r d i now_ms =
     try_then (require_stored_workspace r d i) (\<lambda>w.
     Inr (WorkspaceInspectionResult \<lparr>wi_workspace = workspace_resource_of w,
       wi_lease = Option.bind (control_lease r d i now_ms) lease_resource_from_view\<rparr>))"

definition query_operation :: "externals \<Rightarrow> redactor \<Rightarrow> db \<Rightarrow> utf8 \<Rightarrow> utf8 \<Rightarrow> protocol_result answer" where
  "query_operation X r d caller i =
     try_then (require_own_operation r d caller i) (\<lambda>x.
     try_then (from_res (execution_for_operation X r d i)) (\<lambda>owner.
     Inr (operation_answer (map_option eo_execution_id owner) x)))"

definition query_inspection ::
  "externals \<Rightarrow> redactor \<Rightarrow> db \<Rightarrow> utf8 \<Rightarrow> utf8 \<Rightarrow> int \<Rightarrow> protocol_result answer" where
  "query_inspection X r d caller i now_ms =
     try_then (require_execution_owner X r d caller i) (\<lambda>_.
     try_then (from_res (control_state X r d i now_ms)) (\<lambda>s.
     try_then (from_res (control_operations X r d i)) (\<lambda>xs.
     Inr (ExecutionInspectionResult (inspection_from_state s xs)))))"

fun handle_query ::
  "externals \<Rightarrow> protocol_host \<Rightarrow> call_context \<Rightarrow> protocol_call \<Rightarrow> redactor \<Rightarrow> db \<Rightarrow> protocol_result answer"
where
  "handle_query X H cx (GetAgent i) r d =
     try_then (ok_or (agent_identity_by r d i) (not_found_failure ''agent'' i))
       (\<lambda>a. Inr (AgentResult (agent_resource_of a)))"
| "handle_query X H cx (GetTask i) r d =
     try_then (ok_or (task_by r d i) (not_found_failure ''task'' i))
       (\<lambda>t. Inr (TaskResult (task_resource_of t)))"
| "handle_query X H cx (GetExecution i) r d =
     try_then (require_execution_owner X r d (cx_caller cx) i)
       (\<lambda>e. Inr (ExecutionResult (execution_resource_of e)))"
| "handle_query X H cx (GetWorkspace i) r d = query_workspace r d i (cx_now_ms cx)"
| "handle_query X H cx (GetVersion i) r d =
     try_then (from_res (version_record_of X d i)) (\<lambda>found.
     try_then (ok_or found (not_found_failure ''version'' i))
       (\<lambda>v. Inr (VersionResult (version_resource_of v))))"
| "handle_query X H cx (GetCheckpoint i) r d =
     try_then (ok_or (checkpoint_by d i) (not_found_failure ''checkpoint'' i))
       (\<lambda>k. Inr (CheckpointResult (checkpoint_resource_of k)))"
| "handle_query X H cx (GetHandoff i) r d =
     try_then (ok_or (handoff_by d i) (not_found_failure ''handoff'' i))
       (\<lambda>h. Inr (HandoffResult (handoff_resource_of h)))"
| "handle_query X H cx (GetOperation i) r d = query_operation X r d (cx_caller cx) i"
| "handle_query X H cx (ResolveOperation q) r d =
     try_then (ok_or (operation_record_for_request r d (poq_project_id q) (cx_caller cx) (poq_request_id q))
       (not_found_failure ''operation'' (poq_request_id q))) (operation_owner X r d)"
| "handle_query X H cx (InspectExecution i) r d = query_inspection X r d (cx_caller cx) i (cx_now_ms cx)"
| "handle_query X H cx (ListCheckpoints i) r d =
     Inr (CheckpointsResult (map checkpoint_resource_of (list_checkpoints d i)))"
| "handle_query X H cx (ListHandoffs i) r d =
     Inr (HandoffsResult (map handoff_resource_of (list_handoffs d i)))"
| "handle_query X H cx (DiffWorkspaceVersion q) r d =
     try_then (from_res (ph_diff H d q)) (\<lambda>x. Inr (DiffResult (snapshot_diff_resource_of x)))"
| "handle_query X H cx _ r d =
     Inl (failure InternalErrorCode ''protocol dispatcher reached an invalid state'' False)"

section \<open>Dispatch\<close>

fun dispatch_authenticated ::
  "externals \<Rightarrow> protocol_host \<Rightarrow> call_context \<Rightarrow> protocol_call \<Rightarrow> metadata_store \<Rightarrow> handled"
where
  "dispatch_authenticated X H cx (CreateTask c) st =
     answer_with (\<lambda>t. TaskResult (task_resource_of t)) (create_task st
       \<lparr>tc_task_id = pct_task_id c, tc_project_id = pct_project_id c, tc_goal = pct_goal_ref c,
        tc_context_ref = pct_context_ref c, tc_created_at = cx_issued_at cx\<rparr>)"
| "dispatch_authenticated X H cx (CreateWorkspace c) st =
     check_on st (map_sum failure_from_binding id (ph_resolve H (pcw_binding_ref c))) (\<lambda>path.
     answer_with (\<lambda>w. WorkspaceResult (workspace_resource_of w))
       (ph_create_workspace H st c path (cx_issued_at cx)))"
| "dispatch_authenticated X H cx (CreateExecution c) st = handle_create_execution X cx c st"
| "dispatch_authenticated X H cx (StartExecution c) st = handle_start_execution X cx c st"
| "dispatch_authenticated X H cx (PauseExecution c) st = execution_transition X cx c ''paused'' st"
| "dispatch_authenticated X H cx (CompleteExecution c) st = execution_transition X cx c ''completed'' st"
| "dispatch_authenticated X H cx (FailExecution c) st = execution_transition X cx c ''failed'' st"
| "dispatch_authenticated X H cx (InterruptExecution c) st = execution_transition X cx c ''interrupted'' st"
| "dispatch_authenticated X H cx (AcquireWorkspaceLease c) st = handle_acquire_lease X cx c st"
| "dispatch_authenticated X H cx (RenewWorkspaceLease c) st = handle_renew_lease cx c st"
| "dispatch_authenticated X H cx (ReleaseWorkspaceLease c) st = handle_release_lease cx c st"
| "dispatch_authenticated X H cx (PublishVersion c) st = handle_publish_version X H cx c st"
| "dispatch_authenticated X H cx (SetExecutionCurrentVersion c) st = handle_set_current_version X cx c st"
| "dispatch_authenticated X H cx (CreateCheckpoint c) st = handle_create_checkpoint X cx c st"
| "dispatch_authenticated X H cx (ResumeFromCheckpoint c) st = handle_resume X cx c st"
| "dispatch_authenticated X H cx (CreateHandoff c) st = handle_create_handoff X cx c st"
| "dispatch_authenticated X H cx (MaterializeVersion c) st = handle_materialize X H cx c st"
| "dispatch_authenticated X H cx (StartOperation c) st = handle_start_operation X cx c st"
| "dispatch_authenticated X H cx (FinishOperation c) st = handle_finish_operation X cx c st"
| "dispatch_authenticated X H cx call st =
     (handle_query X H cx call (st_redactor st) (st_db st), st)"

definition register_agent :: "protocol_request \<Rightarrow> register_agent_command \<Rightarrow> metadata_store \<Rightarrow> handled" where
  "register_agent q c st =
     check_on st (required_caller (pr_caller_agent_id q)) (\<lambda>caller.
     if caller \<noteq> pra_agent_id c
     then (Inl (forbidden_failure ''an Agent may register only its own asserted identity''), st)
     else answer_with (\<lambda>a. AgentResult (agent_resource_of a)) (create_agent_identity st
       \<lparr>ai_agent_id = pra_agent_id c,
        ai_provider = (case pra_provider_metadata c of None \<Rightarrow> ''unspecified'' | Some p \<Rightarrow> p),
        ai_display_name = pra_display_name c, ai_created_at = pr_issued_at q\<rparr>))"

definition context_of :: "protocol_request \<Rightarrow> utf8 \<Rightarrow> int \<Rightarrow> call_context" where
  "context_of q caller now_ms = \<lparr>cx_caller = caller, cx_request_id = pr_request_id q,
     cx_operation_id = pr_operation_id q, cx_issued_at = pr_issued_at q, cx_now_ms = now_ms\<rparr>"

definition dispatch_request ::
  "externals \<Rightarrow> protocol_host \<Rightarrow> protocol_request \<Rightarrow> int \<Rightarrow> metadata_store \<Rightarrow> handled" where
  "dispatch_request X H q now_ms st =
     check_on st (validate_request_header q) (\<lambda>_.
     if pr_protocol_version q \<noteq> external_agent_protocol_version
     then (Inl (failure UnsupportedVersionCode ''protocol version is not supported'' False), st)
     else (case pr_call q of
        Hello \<Rightarrow> (Inr (HelloResult hello), st)
      | RegisterAgent c \<Rightarrow> register_agent q c st
      | call \<Rightarrow>
          check_on st (required_caller (pr_caller_agent_id q)) (\<lambda>caller.
          check_on st (require_registered_agent (st_redactor st) (st_db st) caller) (\<lambda>_.
          dispatch_authenticated X H (context_of q caller now_ms) call st))))"

definition handle_protocol ::
  "externals \<Rightarrow> protocol_host \<Rightarrow> protocol_request \<Rightarrow> int \<Rightarrow> metadata_store \<Rightarrow> protocol_response \<times> metadata_store"
where
  "handle_protocol X H q now_ms st =
     (case dispatch_request X H q now_ms st of
        (Inr result, st) \<Rightarrow> (success_response (pr_request_id q) (pr_operation_id q) result, st)
      | (Inl f, st) \<Rightarrow> (failure_response (pr_request_id q) (pr_operation_id q) f, st))"

lemma handle_protocol_store: "snd (handle_protocol X H q now_ms st) = snd (dispatch_request X H q now_ms st)"
  by (cases "dispatch_request X H q now_ms st"; cases "fst (dispatch_request X H q now_ms st)")
    (simp_all add: handle_protocol_def)

section \<open>Who may write\<close>

text \<open>What a caller must hold in the store for a command to reach it.\<close>

definition owns :: "externals \<Rightarrow> redactor \<Rightarrow> db \<Rightarrow> utf8 \<Rightarrow> utf8 \<Rightarrow> (execution_record \<Rightarrow> bool) \<Rightarrow> bool" where
  "owns X r d caller i ok \<longleftrightarrow>
     (\<exists>e. execution_by X r d i = Inr (Some e) \<and> ex_agent_id e = caller \<and> ok e)"

definition in_workspace :: "utf8 \<Rightarrow> execution_record \<Rightarrow> bool" where
  "in_workspace w e \<longleftrightarrow> ex_workspace_id e = Some w"

definition may_become :: "utf8 \<Rightarrow> utf8 option \<Rightarrow> int \<Rightarrow> execution_record \<Rightarrow> bool" where
  "may_become s outcome revision e \<longleftrightarrow> 0 \<le> revision
     \<and> ((ex_state e = s \<and> ex_outcome e = outcome)
        \<or> (ex_revision e = revision \<and> execution_transition_allowed (ex_state e) s))"

definition holds_lease :: "redactor \<Rightarrow> db \<Rightarrow> utf8 \<Rightarrow> lease_authority \<Rightarrow> int \<Rightarrow> bool" where
  "holds_lease r d caller a now_ms \<longleftrightarrow> la_agent_id a = caller
     \<and> (\<exists>l. workspace_lease r d (la_workspace_id a) = Some l \<and> lr_agent_id l = Some caller
          \<and> lr_epoch l = la_epoch a \<and> lr_expires_at_ms l = la_expires_at_ms a \<and> now_ms < lr_expires_at_ms l)"

text \<open>
  The expected revisions. A publication either starts, at the revision the workspace is at, or
  goes on under an operation that has recorded this revision when it started; a change of the
  current version meets both revisions, or has been made at exactly these revisions already.
\<close>

definition recorded_revision :: "operation_record \<Rightarrow> int \<Rightarrow> bool" where
  "recorded_revision x n \<longleftrightarrow> op_action x = ''version.create'' \<and> (\<exists>v b. op_before_state x = Some v
     \<and> before_state_of_value v = Some b \<and> pbs_workspace_revision b = n)"

definition at_workspace_revision :: "redactor \<Rightarrow> db \<Rightarrow> utf8 \<Rightarrow> int \<Rightarrow> bool" where
  "at_workspace_revision r d i n \<longleftrightarrow> 0 \<le> n \<and> (\<exists>w. workspace_by r d i = Some w \<and> ws_revision w = n)"

definition publishes_at :: "redactor \<Rightarrow> db \<Rightarrow> utf8 \<Rightarrow> publish_version_command \<Rightarrow> bool" where
  "publishes_at r d operation_id c \<longleftrightarrow> la_workspace_id (ppv_lease c) = ppv_workspace_id c
     \<and> (case operation_by r d operation_id of
          None \<Rightarrow> at_workspace_revision r d (ppv_workspace_id c) (ppv_expected_workspace_revision c)
        | Some x \<Rightarrow> recorded_revision x (ppv_expected_workspace_revision c))"

definition adopts_at :: "redactor \<Rightarrow> db \<Rightarrow> set_execution_version_command \<Rightarrow> execution_record \<Rightarrow> bool" where
  "adopts_at r d c e \<longleftrightarrow> in_workspace (la_workspace_id (psv_lease c)) e
     \<and> 0 \<le> psv_expected_execution_revision c \<and> 0 \<le> psv_expected_workspace_revision c
     \<and> (\<exists>w. workspace_by r d (la_workspace_id (psv_lease c)) = Some w
          \<and> ((ex_revision e = psv_expected_execution_revision c \<and> ws_revision w = psv_expected_workspace_revision c)
             \<or> (ex_current_version_id e = Some (psv_version_id c)
                \<and> ex_revision e = saturating_add (psv_expected_execution_revision c) 1
                \<and> ws_revision w = saturating_add (psv_expected_workspace_revision c) 1)))"

fun permitted :: "externals \<Rightarrow> redactor \<Rightarrow> db \<Rightarrow> utf8 \<Rightarrow> int \<Rightarrow> utf8 option \<Rightarrow> protocol_call \<Rightarrow> bool" where
  "permitted X r d caller now_ms operation_id (CreateTask c) = True"
| "permitted X r d caller now_ms operation_id (CreateWorkspace c) = True"
| "permitted X r d caller now_ms operation_id (CreateExecution c) = True"
| "permitted X r d caller now_ms operation_id (ResumeFromCheckpoint c) = True"
| "permitted X r d caller now_ms operation_id (StartExecution c) =
     owns X r d caller (per_execution_id c) (may_become ''running'' None (per_expected_revision c))"
| "permitted X r d caller now_ms operation_id (PauseExecution c) =
     owns X r d caller (peo_execution_id c) (may_become ''paused'' (peo_outcome_code c) (peo_expected_revision c))"
| "permitted X r d caller now_ms operation_id (CompleteExecution c) =
     owns X r d caller (peo_execution_id c) (may_become ''completed'' (peo_outcome_code c) (peo_expected_revision c))"
| "permitted X r d caller now_ms operation_id (FailExecution c) =
     owns X r d caller (peo_execution_id c) (may_become ''failed'' (peo_outcome_code c) (peo_expected_revision c))"
| "permitted X r d caller now_ms operation_id (InterruptExecution c) =
     owns X r d caller (peo_execution_id c) (may_become ''interrupted'' (peo_outcome_code c) (peo_expected_revision c))"
| "permitted X r d caller now_ms operation_id (AcquireWorkspaceLease c) =
     (owns X r d caller (pal_execution_id c) (in_workspace (pal_workspace_id c)) \<and> 0 < pal_ttl_ms c
      \<and> (\<forall>l. workspace_lease r d (pal_workspace_id c) = Some l \<longrightarrow> lr_agent_id l = None \<or> lr_expires_at_ms l \<le> now_ms))"
| "permitted X r d caller now_ms operation_id (RenewWorkspaceLease c) =
     (holds_lease r d caller (prl_lease c) now_ms \<and> 0 < prl_ttl_ms c)"
| "permitted X r d caller now_ms operation_id (ReleaseWorkspaceLease c) = holds_lease r d caller (pll_lease c) now_ms"
| "permitted X r d caller now_ms operation_id (PublishVersion c) =
     (owns X r d caller (ppv_execution_id c) (in_workspace (ppv_workspace_id c))
      \<and> holds_lease r d caller (ppv_lease c) now_ms
      \<and> (case operation_id of None \<Rightarrow> False | Some i \<Rightarrow> publishes_at r d i c))"
| "permitted X r d caller now_ms operation_id (SetExecutionCurrentVersion c) =
     (owns X r d caller (psv_execution_id c) (adopts_at r d c) \<and> holds_lease r d caller (psv_lease c) now_ms)"
| "permitted X r d caller now_ms operation_id (CreateCheckpoint c) =
     owns X r d caller (pcc_execution_id c) (in_workspace (pcc_workspace_id c))"
| "permitted X r d caller now_ms operation_id (CreateHandoff c) =
     owns X r d caller (pch_from_execution_id c) (\<lambda>_. True)"
| "permitted X r d caller now_ms operation_id (MaterializeVersion c) =
     (owns X r d caller (pmv_execution_id c) (in_workspace (pmv_workspace_id c))
      \<and> holds_lease r d caller (pmv_lease c) now_ms
      \<and> at_workspace_revision r d (pmv_workspace_id c) (pmv_expected_workspace_revision c))"
| "permitted X r d caller now_ms operation_id (StartOperation c) =
     (owns X r d caller (pso_execution_id c) (\<lambda>e. ex_state e = ''running'') \<and> operation_id \<noteq> None)"
| "permitted X r d caller now_ms operation_id (FinishOperation c) =
     (owns X r d caller (pfo_execution_id c) (\<lambda>_. True)
      \<and> (\<exists>i x. operation_id = Some i \<and> operation_by r d i = Some x \<and> op_agent_id x = caller))"
| "permitted X r d caller now_ms operation_id _ = False"

lemma transition_tables_agree: "protocol_execution_transition_allowed s t = execution_transition_allowed s t"
  by (auto simp: protocol_execution_transition_allowed_def execution_transition_allowed_def)

lemma owner_Inr:
  "require_execution_owner X r d caller i = Inr e \<longleftrightarrow>
    execution_by X r d i = Inr (Some e) \<and> ex_agent_id e = caller"
  by (auto simp: require_execution_owner_def)

lemma transition_Inr:
  "require_execution_transition X r d caller i revision s outcome = Inr e \<Longrightarrow>
    owns X r d caller i (may_become s outcome revision)"
  by (auto simp: require_execution_transition_def owner_Inr owns_def may_become_def transition_tables_agree
      split: if_splits)

lemma workspace_Inr:
  "require_execution_workspace X r d caller i w = Inr e \<Longrightarrow> owns X r d caller i (in_workspace w)"
  by (auto simp: require_execution_workspace_def owner_Inr owns_def in_workspace_def split: if_splits)

lemma lease_Inr: "require_lease r d caller a now_ms = Inr u \<Longrightarrow> holds_lease r d caller a now_ms"
  by (auto simp: require_lease_def Let_def control_lease_def lease_view_from_record_def holds_lease_def
      split: if_splits option.splits)

lemma versions_Inr:
  "require_execution_version_revisions X r d caller c = Inr u \<Longrightarrow>
    owns X r d caller (psv_execution_id c) (adopts_at r d c)"
  by (auto simp: require_execution_version_revisions_def require_execution_workspace_def require_stored_workspace_def
      Let_def owner_Inr owns_def adopts_at_def in_workspace_def split: if_splits)

lemma revision_Inr: "require_workspace_revision r d i n = Inr u \<Longrightarrow> at_workspace_revision r d i n"
  by (auto simp: require_workspace_revision_def require_stored_workspace_def at_workspace_revision_def split: if_splits)

lemma check_changes: "snd (check_on st x k) \<noteq> st \<Longrightarrow> \<exists>y. x = Inr y \<and> snd (k y) \<noteq> st"
  by (cases x) simp_all

text \<open>A handler that changes the store has passed its guards.\<close>

lemma start_guarded:
  "snd (handle_start_execution X cx c st) \<noteq> st \<Longrightarrow>
    owns X (st_redactor st) (st_db st) (cx_caller cx) (per_execution_id c)
      (may_become ''running'' None (per_expected_revision c))"
  by (auto simp: handle_start_execution_def dest!: check_changes transition_Inr)

lemma transition_guarded:
  "snd (execution_transition X cx c s st) \<noteq> st \<Longrightarrow>
    owns X (st_redactor st) (st_db st) (cx_caller cx) (peo_execution_id c)
      (may_become s (peo_outcome_code c) (peo_expected_revision c))"
  by (auto simp: execution_transition_def dest!: check_changes transition_Inr)

lemma acquire_guarded:
  assumes "snd (handle_acquire_lease X cx c st) \<noteq> st"
  shows "permitted X (st_redactor st) (st_db st) (cx_caller cx) (cx_now_ms cx) oid (AcquireWorkspaceLease c)"
proof -
  from check_changes[OF assms[unfolded handle_acquire_lease_def Let_def]] obtain e where
    "require_execution_workspace X (st_redactor st) (st_db st) (cx_caller cx) (pal_execution_id c)
      (pal_workspace_id c) = Inr e" and rest: "0 < pal_ttl_ms c"
    "Option.bind (control_lease (st_redactor st) (st_db st) (pal_workspace_id c) (cx_now_ms cx))
          (\<lambda>l. if lv_active l then Some l else None) = None"
    by (auto split: if_splits option.splits)
  with workspace_Inr show ?thesis
    by (auto simp: control_lease_def lease_view_from_record_def split: if_splits option.splits)
qed

text \<open>A publication that goes on under a recorded operation was recorded at this revision.\<close>

definition acts :: "'s \<Rightarrow> ('e + 'a) \<times> 's \<Rightarrow> bool" where
  "acts st m \<longleftrightarrow> snd m \<noteq> st \<or> is_ok (fst m)"

lemma acts_check_on: "acts st (check_on st x k) \<Longrightarrow> \<exists>y. x = Inr y \<and> acts st (k y)"
  by (cases x) (auto simp: acts_def)

lemma acts_then_on: "acts st (then_on m k) \<Longrightarrow> acts st m"
  by (cases m; cases "fst m") (auto simp: acts_def)

lemma acts_refused [simp]: "\<not> acts st (Inl e, st)"
  by (simp add: acts_def)

lemma resumed_at:
  assumes "acts st (resume_publication X explain st q w x)"
  shows "recorded_revision x (pbr_expected_revision q)"
proof -
  from acts_check_on[OF assms[unfolded resume_publication_def]] obtain b where
    b: "publication_before_state_of explain x = Inr b" "pbs_workspace_revision b = pbr_expected_revision q"
    by (auto split: if_splits)
  then show ?thesis
    by (auto simp: publication_before_state_of_def recorded_revision_def split: if_splits option.splits)
qed

lemma publish_checked:
  assumes "acts st (publish_version X explain capture st q)"
  shows "lt_workspace_id (pbr_lease q) = pbr_workspace_id q
    \<and> (case operation_by (st_redactor st) (st_db st) (pbr_operation_id q) of
         None \<Rightarrow> True | Some x \<Rightarrow> recorded_revision x (pbr_expected_revision q))"
proof -
  from assms obtain w existing where
    lease: "validate_publish_lease (st_redactor st) (st_db st) q = Inr ()"
    and found: "publish_operation_for_request (st_redactor st) (st_db st) w q = Inr existing"
    and run: "acts st (case existing of Some x \<Rightarrow> resume_publication X explain st q w x
        | None \<Rightarrow> begin_publication X capture st q w)"
    by (auto simp: publish_version_def Let_def dest!: acts_check_on acts_then_on)
  have "case operation_by (st_redactor st) (st_db st) (pbr_operation_id q) of
      None \<Rightarrow> True | Some x \<Rightarrow> recorded_revision x (pbr_expected_revision q)"
    using found run resumed_at
    by (fastforce simp: publish_operation_for_request_def split: option.splits if_splits)
  with lease show ?thesis by (simp add: validate_publish_lease_def split: option.splits if_splits)
qed

lemma publish_guarded:
  assumes "snd (handle_publish_version X H cx c st) \<noteq> st"
  shows "permitted X (st_redactor st) (st_db st) (cx_caller cx) (cx_now_ms cx) (cx_operation_id cx) (PublishVersion c)"
proof -
  let ?r = "st_redactor st" and ?d = "st_db st"
  have "acts st (handle_publish_version X H cx c st)" using assms by (simp add: acts_def)
  then obtain i where i: "cx_operation_id cx = Some i"
    and own: "owns X ?r ?d (cx_caller cx) (ppv_execution_id c) (in_workspace (ppv_workspace_id c))"
    and lease: "holds_lease ?r ?d (cx_caller cx) (ppv_lease c) (cx_now_ms cx)"
    and rev: "operation_by ?r ?d i = None \<Longrightarrow>
      at_workspace_revision ?r ?d (ppv_workspace_id c) (ppv_expected_workspace_revision c)"
    and "acts st (on_store (publish_version X (ph_explain H) (ph_capture H) st
        \<lparr>pbr_workspace_id = ppv_workspace_id c, pbr_lease = token_of (ppv_lease c),
         pbr_expected_revision = ppv_expected_workspace_revision c, pbr_now_ms = cx_now_ms cx,
         pbr_created_at = cx_issued_at cx, pbr_operation_id = i, pbr_request_id = cx_request_id cx,
         pbr_session_id = Some (''protocol-request:'' @ cx_request_id cx),
         pbr_tool = Some ''external-agent-protocol'', pbr_parent_version_id = ppv_parent_version_id c,
         pbr_update_version_head = ppv_update_version_head c\<rparr>))"
    by (auto simp: handle_publish_version_def Let_def required_operation_id_def
        dest!: acts_check_on workspace_Inr lease_Inr acts_then_on split: option.splits if_splits
        dest: revision_Inr)
  then obtain q where run: "acts st (on_store (publish_version X (ph_explain H) (ph_capture H) st q))"
    and q: "pbr_operation_id q = i" "pbr_workspace_id q = ppv_workspace_id c"
      "lt_workspace_id (pbr_lease q) = la_workspace_id (ppv_lease c)"
      "pbr_expected_revision q = ppv_expected_workspace_revision c"
    by (metis publish_request.select_convs(1,2,3,6) token_of_def lease_token.select_convs(1))
  have "acts st (publish_version X (ph_explain H) (ph_capture H) st q)"
    using run by (cases "fst (publish_version X (ph_explain H) (ph_capture H) st q)")
      (simp_all add: acts_def on_store_def)
  from publish_checked[OF this] q rev have "publishes_at ?r ?d i c"
    by (simp add: publishes_at_def split: option.splits)
  with i own lease show ?thesis by simp
qed

lemma materialize_guarded:
  "snd (handle_materialize X H cx c st) \<noteq> st \<Longrightarrow>
    permitted X (st_redactor st) (st_db st) (cx_caller cx) (cx_now_ms cx) oid (MaterializeVersion c)"
  by (auto simp: handle_materialize_def Let_def dest!: check_changes workspace_Inr lease_Inr revision_Inr)

lemma finish_guarded:
  "snd (handle_finish_operation X cx c st) \<noteq> st \<Longrightarrow>
    permitted X (st_redactor st) (st_db st) (cx_caller cx) (cx_now_ms cx) (cx_operation_id cx) (FinishOperation c)"
  by (auto simp: handle_finish_operation_def Let_def required_operation_id_def owner_Inr owns_def
      require_own_operation_def dest!: check_changes split: option.splits if_splits)

lemma start_operation_guarded:
  "snd (handle_start_operation X cx c st) \<noteq> st \<Longrightarrow>
    permitted X (st_redactor st) (st_db st) (cx_caller cx) (cx_now_ms cx) (cx_operation_id cx) (StartOperation c)"
  by (auto simp: handle_start_operation_def Let_def required_operation_id_def owner_Inr owns_def
      dest!: check_changes split: option.splits if_splits)

lemma small_handlers_guarded:
  "snd (handle_renew_lease cx c st) \<noteq> st \<Longrightarrow>
    holds_lease (st_redactor st) (st_db st) (cx_caller cx) (prl_lease c) (cx_now_ms cx) \<and> 0 < prl_ttl_ms c"
  "snd (handle_release_lease cx c' st) \<noteq> st \<Longrightarrow>
    holds_lease (st_redactor st) (st_db st) (cx_caller cx) (pll_lease c') (cx_now_ms cx)"
  "snd (handle_set_current_version X cx cv st) \<noteq> st \<Longrightarrow>
    permitted X (st_redactor st) (st_db st) (cx_caller cx) (cx_now_ms cx) oid (SetExecutionCurrentVersion cv)"
  "snd (handle_create_checkpoint X cx cc st) \<noteq> st \<Longrightarrow>
    permitted X (st_redactor st) (st_db st) (cx_caller cx) (cx_now_ms cx) oid (CreateCheckpoint cc)"
  "snd (handle_create_handoff X cx ch st) \<noteq> st \<Longrightarrow>
    permitted X (st_redactor st) (st_db st) (cx_caller cx) (cx_now_ms cx) oid (CreateHandoff ch)"
  by (auto simp: handle_renew_lease_def handle_release_lease_def Let_def handle_set_current_version_def
      handle_create_checkpoint_def handle_create_handoff_def owner_Inr owns_def in_workspace_def
      dest!: check_changes lease_Inr versions_Inr workspace_Inr split: if_splits)

lemma dispatch_guarded:
  assumes "snd (dispatch_authenticated X H cx call st) \<noteq> st"
  shows "permitted X (st_redactor st) (st_db st) (cx_caller cx) (cx_now_ms cx) (cx_operation_id cx) call"
  using assms start_guarded transition_guarded acquire_guarded publish_guarded materialize_guarded
    finish_guarded start_operation_guarded small_handlers_guarded
  by (cases call) (simp_all del: permitted.simps(10,13,14,15,16,17,18,19))

lemma writes_authorised:
  "snd (handle_protocol X H q now_ms st) = st
   \<or> (validate_request_header q = Inr () \<and> pr_protocol_version q = ''1.0''
      \<and> (\<exists>caller. pr_caller_agent_id q = Some caller
          \<and> ((\<exists>c. pr_call q = RegisterAgent c \<and> pra_agent_id c = caller)
             \<or> (agent_identity_by (st_redactor st) (st_db st) caller \<noteq> None
                \<and> permitted X (st_redactor st) (st_db st) caller now_ms (pr_operation_id q) (pr_call q)))))"
proof (cases "snd (dispatch_request X H q now_ms st) = st")
  case True
  then show ?thesis by (simp add: handle_protocol_store)
next
  case False
  let ?r = "st_redactor st" and ?d = "st_db st"
  from check_changes[OF False[unfolded dispatch_request_def]] have head: "validate_request_header q = Inr ()"
    "pr_protocol_version q = ''1.0''"
    by (auto simp: external_agent_protocol_version_def split: if_splits)
  show ?thesis
  proof (cases "\<exists>c. pr_call q = RegisterAgent c")
    case True
    with False head have "\<exists>caller c. pr_caller_agent_id q = Some caller \<and> pr_call q = RegisterAgent c
        \<and> pra_agent_id c = caller"
      by (auto simp: dispatch_request_def register_agent_def required_caller_def external_agent_protocol_version_def
          split: option.splits if_splits)
    with head show ?thesis by blast
  next
    case other: False
    obtain caller where caller: "pr_caller_agent_id q = Some caller"
      and known: "require_registered_agent ?r ?d caller = Inr ()"
      and run: "snd (dispatch_authenticated X H (context_of q caller now_ms) (pr_call q) st) \<noteq> st"
      using False head other
      by (cases "pr_call q"; cases "pr_caller_agent_id q")
        (auto simp: dispatch_request_def required_caller_def external_agent_protocol_version_def dest!: check_changes)
    from dispatch_guarded[OF run] caller known head show ?thesis
      by (auto simp: context_of_def require_registered_agent_def split: if_splits)
  qed
qed

text \<open>
  C3. The protocol never writes for a caller that may not: after any request, whatever the
  faults and the files do, the store is as it was, or the caller registered its own identity, or
  the caller is a registered agent and holds what the command asks for in the store it met: its
  own execution in the right state and revision, the workspace of that execution, the live lease
  with its epoch and expiry, the expected revision of the workspace (a publication may go on
  under an operation that recorded this revision when it started, a change of the current version
  may repeat one made at exactly these revisions), its own operation. Creating a task, a
  workspace or an execution and resuming from a checkpoint ask for the registration only.
  Queries write nothing.
\<close>

theorem protocol_writes_authorised:
  "snd (handle_protocol X H q now_ms st) = st
   \<or> (validate_request_header q = Inr () \<and> pr_protocol_version q = ''1.0''
      \<and> (\<exists>caller. pr_caller_agent_id q = Some caller
          \<and> ((\<exists>c. pr_call q = RegisterAgent c \<and> pra_agent_id c = caller)
             \<or> (agent_identity_by (st_redactor st) (st_db st) caller \<noteq> None
                \<and> permitted X (st_redactor st) (st_db st) caller now_ms (pr_operation_id q) (pr_call q)))))"
  by (rule writes_authorised)

end
