(* ===== verification/Protocol_Replies.thy ===== *)
theory Protocol_Replies
  imports Protocol
begin

text \<open>
  What a response of the external agent protocol looks like, whatever the request, the store and
  the host do: its kind of result is the one of the call, and a failure carries one of the fixed
  messages of \<open>src/src/protocol.rs\<close> and is retryable as its code says.
\<close>

section \<open>The shape of a response\<close>

text \<open>Every call has one kind of result.\<close>

definition result_fits :: "protocol_call \<Rightarrow> protocol_result \<Rightarrow> bool" where
  "result_fits call x =
     (case call of
        Hello \<Rightarrow> is_HelloResult x | RegisterAgent _ \<Rightarrow> is_AgentResult x
      | CreateTask _ \<Rightarrow> is_TaskResult x
      | CreateWorkspace _ \<Rightarrow> is_WorkspaceResult x
      | CreateExecution _ \<Rightarrow> is_ExecutionResult x
      | StartExecution _ \<Rightarrow> is_ExecutionResult x
      | PauseExecution _ \<Rightarrow> is_ExecutionResult x
      | CompleteExecution _ \<Rightarrow> is_ExecutionResult x
      | FailExecution _ \<Rightarrow> is_ExecutionResult x
      | InterruptExecution _ \<Rightarrow> is_ExecutionResult x
      | AcquireWorkspaceLease _ \<Rightarrow> is_LeaseResult x
      | RenewWorkspaceLease _ \<Rightarrow> is_LeaseResult x
      | ReleaseWorkspaceLease _ \<Rightarrow> is_ReleasedResult x
      | PublishVersion _ \<Rightarrow> is_VersionPublicationResult x
      | SetExecutionCurrentVersion _ \<Rightarrow> is_ExecutionResult x
      | CreateCheckpoint _ \<Rightarrow> is_CheckpointResult x
      | ResumeFromCheckpoint _ \<Rightarrow> is_ResumeResult x
      | CreateHandoff _ \<Rightarrow> is_HandoffResult x
      | MaterializeVersion _ \<Rightarrow> is_SnapshotResult x
      | StartOperation _ \<Rightarrow> is_OperationResult x
      | FinishOperation _ \<Rightarrow> is_OperationResult x
      | GetAgent _ \<Rightarrow> is_AgentResult x | GetTask _ \<Rightarrow> is_TaskResult x
      | GetExecution _ \<Rightarrow> is_ExecutionResult x
      | GetWorkspace _ \<Rightarrow> is_WorkspaceInspectionResult x
      | GetVersion _ \<Rightarrow> is_VersionResult x
      | GetCheckpoint _ \<Rightarrow> is_CheckpointResult x
      | GetHandoff _ \<Rightarrow> is_HandoffResult x
      | GetOperation _ \<Rightarrow> is_OperationResult x
      | ResolveOperation _ \<Rightarrow> is_OperationResult x
      | InspectExecution _ \<Rightarrow> is_ExecutionInspectionResult x
      | ListCheckpoints _ \<Rightarrow> is_CheckpointsResult x
      | ListHandoffs _ \<Rightarrow> is_HandoffsResult x
      | DiffWorkspaceVersion _ \<Rightarrow> is_DiffResult x)"

definition retryable_codes :: "protocol_error_code set" where
  "retryable_codes = {ConflictCode, LeaseConflictCode, RevisionConflictCode, RecoveryRequiredCode,
     ResourceExhaustedCode, InternalErrorCode}"

text \<open>The messages of the protocol; none of them quotes the store or the request.\<close>

definition protocol_messages :: "utf8 list" where
  "protocol_messages = map (\<lambda>l. l @ '' must not be empty'')
     [''protocol_version'', ''request_id'', ''issued_at'', ''caller_agent_id'', ''operation_id'']
   @ [''protocol version is not supported'', ''an Agent may register only its own asserted identity'',
      ''caller Agent identity is required'', ''caller Agent identity is not registered'',
      ''operation_id is required'', ''requested entity does not exist'',
      ''caller does not own the target Execution'', ''Execution does not own the target Workspace'',
      ''caller does not own the target Operation'', ''expected revision does not match durable state'',
      ''expected Execution revision must not be negative'', ''expected revision must not be negative'',
      ''expected Workspace revision must not be negative'',
      ''Execution lifecycle transition is not allowed'', ''Operation requires a running Execution'',
      ''operation action must not be empty'', ''lease ttl_ms must be positive'',
      ''Workspace lease authority is missing, stale, foreign, or expired'',
      ''completed Operation must not include failure'', ''operation failure code must not be empty'',
      ''non-completed Operation must include failure'', ''domain request validation failed'',
      ''durable state failed integrity validation'', ''required durable entity does not exist'',
      ''durable state conflicts with the request'', ''request identity was reused with different content'',
      ''operation is not supported by this implementation'', ''durable state requires explicit recovery'',
      ''a required host resource is exhausted'', ''operation was denied by the protected storage boundary'',
      ''operation result is unconfirmed; inspect durable state before retry'',
      ''internal persistence failure'', ''workspace binding reference is invalid'',
      ''workspace binding reference does not exist'', ''workspace binding reference is not authorized'',
      ''workspace binding service is unavailable'']"

definition failure_ok :: "protocol_failure \<Rightarrow> bool" where
  "failure_ok f \<longleftrightarrow> pf_message f \<in> set protocol_messages \<and> (pf_retryable f \<longleftrightarrow> pf_code f \<in> retryable_codes)"

definition answer_ok :: "('a \<Rightarrow> bool) \<Rightarrow> 'a answer \<Rightarrow> bool" where
  "answer_ok P x = (case x of Inl f \<Rightarrow> failure_ok f | Inr y \<Rightarrow> P y)"

lemmas failure_defs = failure_ok_def retryable_codes_def protocol_messages_def failure_def with_entity_def
  validation_failure_def forbidden_failure_def not_found_failure_def revision_failure_def lease_failure_def

lemma failure_ok_from_pong [simp]: "failure_ok (failure_from_pong e)"
  by (cases e) (simp_all add: failure_from_pong_def failure_defs)

lemma failure_ok_from_binding [simp]: "failure_ok (failure_from_binding e)"
  by (cases e) (simp_all add: failure_from_binding_def failure_defs)

lemma failure_ok_made [simp]:
  "failure_ok (not_found_failure kind i)" "failure_ok (revision_failure kind i n m)" "failure_ok (lease_failure i)"
  "failure_ok (with_entity kind i f) \<longleftrightarrow> failure_ok f"
  by (simp_all add: failure_defs)

section \<open>Answers keep their shape through the combinators\<close>

lemma answer_ok_simps [simp]: "answer_ok P (Inl f) \<longleftrightarrow> failure_ok f" "answer_ok P (Inr x) \<longleftrightarrow> P x"
  by (simp_all add: answer_ok_def)

abbreviation checked :: "'a answer \<Rightarrow> bool" where
  "checked \<equiv> answer_ok (\<lambda>_. True)"

lemma try_then_ok: "checked x \<Longrightarrow> (\<And>y. answer_ok P (k y)) \<Longrightarrow> answer_ok P (try_then x k)"
  by (cases x) simp_all

lemma check_on_ok: "checked x \<Longrightarrow> (\<And>y. answer_ok P (fst (k y))) \<Longrightarrow> answer_ok P (fst (check_on st x k))"
  by (cases x) simp_all

lemma then_on_ok: "checked (fst m) \<Longrightarrow> (\<And>y s. answer_ok P (fst (k y s))) \<Longrightarrow> answer_ok P (fst (then_on m k))"
  by (cases m; cases "fst m") simp_all

lemma from_res_ok [simp]: "checked (from_res x)"
  by (cases x) simp_all

lemma on_store_ok [simp]: "checked (fst (on_store m))"
  by (simp add: on_store_def)

lemma ok_or_ok [simp]: "checked (ok_or x f) \<longleftrightarrow> x \<noteq> None \<or> failure_ok f"
  by (cases x) simp_all

lemma answer_with_ok: "(\<And>x. P (f x)) \<Longrightarrow> answer_ok P (fst (answer_with f m))"
  unfolding answer_with_def by (rule then_on_ok) simp_all

lemma if_ok: "(b \<Longrightarrow> answer_ok P x) \<Longrightarrow> (\<not> b \<Longrightarrow> answer_ok P y) \<Longrightarrow> answer_ok P (if b then x else y)"
  by simp

lemma if_fst_ok:
  "(b \<Longrightarrow> answer_ok P (fst x)) \<Longrightarrow> (\<not> b \<Longrightarrow> answer_ok P (fst y)) \<Longrightarrow> answer_ok P (fst (if b then x else y))"
  by simp

named_theorems answer_intro \<open>an answer has the shape asked for\<close>

lemmas [answer_intro] = try_then_ok check_on_ok then_on_ok answer_with_ok if_ok if_fst_ok

section \<open>The guards\<close>

lemma registered_ok [answer_intro]: "checked (require_registered_agent r d i)"
  by (simp add: require_registered_agent_def) (simp add: failure_defs)

lemma owner_ok [answer_intro]: "checked (require_execution_owner X r d caller i)"
  unfolding require_execution_owner_def
  by (intro answer_intro) (simp_all, simp add: failure_defs)

lemma transition_ok [answer_intro]: "checked (require_execution_transition X r d caller i n s out)"
  unfolding require_execution_transition_def
  by (intro answer_intro) (simp_all, simp_all add: failure_defs)

lemma workspace_ok [answer_intro]: "checked (require_execution_workspace X r d caller i w)"
  unfolding require_execution_workspace_def
  by (intro answer_intro) (simp_all, simp_all add: failure_defs)

lemma stored_ok [answer_intro]: "checked (require_stored_workspace r d i)"
  by (simp add: require_stored_workspace_def)

lemma versions_ok [answer_intro]: "checked (require_execution_version_revisions X r d caller c)"
  unfolding require_execution_version_revisions_def Let_def
  by (intro answer_intro) (simp_all, simp_all add: failure_defs)

lemma revision_ok [answer_intro]: "checked (require_workspace_revision r d i n)"
  unfolding require_workspace_revision_def
  by (intro answer_intro) (simp_all, simp_all add: failure_defs)

lemma lease_ok [answer_intro]: "checked (require_lease r d caller a now_ms)"
  by (simp add: require_lease_def Let_def split: option.split)

lemma own_operation_ok [answer_intro]: "checked (require_own_operation r d caller i)"
  unfolding require_own_operation_def
  by (intro answer_intro) (simp_all, simp_all add: failure_defs)

lemma environment_ok [answer_intro]: "checked (execution_environment r d e)"
  by (auto simp: execution_environment_def split: option.split intro!: answer_intro)

lemma header_ok [answer_intro]: "checked (validate_request_header q)"
  by (auto simp: validate_request_header_def header_present_def header_optional_def failure_defs
      split: option.split intro!: answer_intro)

lemma caller_ok [answer_intro]: "checked (required_caller i)"
  by (simp add: required_caller_def failure_defs split: option.split)

lemma operation_id_ok [answer_intro]: "checked (required_operation_id i)"
  by (simp add: required_operation_id_def failure_defs split: option.split)

lemma outcome_ok [answer_intro]: "checked (validate_operation_outcome_command c)"
  by (simp add: validate_operation_outcome_command_def failure_defs split: option.split operation_terminal_status.split)

section \<open>The handlers\<close>

lemma execution_answer_ok [answer_intro]: "answer_ok is_ExecutionResult (fst (execution_answer m))"
  unfolding execution_answer_def by (rule answer_with_ok) simp

lemma transition_answer_ok [answer_intro]:
  "answer_ok is_ExecutionResult (fst (execution_transition X cx c s st))"
  unfolding execution_transition_def by (intro answer_intro)

lemma acquire_ok: "answer_ok is_LeaseResult (fst (handle_acquire_lease X cx c st))"
  unfolding handle_acquire_lease_def Let_def
  by (auto simp: granted_def lease_resource_from_view_def failure_defs split: option.split
      intro!: answer_intro split del: if_split)

lemma renew_ok: "answer_ok is_LeaseResult (fst (handle_renew_lease cx c st))"
  unfolding handle_renew_lease_def
  by (intro answer_intro) (simp_all add: granted_def, simp add: failure_defs)

lemma release_ok: "answer_ok is_ReleasedResult (fst (handle_release_lease cx c st))"
  unfolding handle_release_lease_def Let_def by (intro answer_intro) simp_all

lemma publish_ok: "answer_ok is_VersionPublicationResult (fst (handle_publish_version X H cx c st))"
  unfolding handle_publish_version_def Let_def by (intro answer_intro) simp_all

lemma materialize_ok: "answer_ok is_SnapshotResult (fst (handle_materialize X H cx c st))"
  unfolding handle_materialize_def Let_def by (intro answer_intro) simp_all

lemma start_operation_ok: "answer_ok is_OperationResult (fst (handle_start_operation X cx c st))"
  unfolding handle_start_operation_def Let_def
  by (intro answer_intro) (simp_all add: operation_answer_def, simp_all add: failure_defs)

lemma finish_operation_ok: "answer_ok is_OperationResult (fst (handle_finish_operation X cx c st))"
  unfolding handle_finish_operation_def Let_def
  by (intro answer_intro) (simp_all add: operation_answer_def)

lemma execution_commands_ok:
  "answer_ok is_ExecutionResult (fst (handle_create_execution X cx c1 st))"
  "answer_ok is_ExecutionResult (fst (handle_start_execution X cx c2 st))"
  "answer_ok is_ExecutionResult (fst (handle_set_current_version X cx c3 st))"
  unfolding handle_create_execution_def handle_start_execution_def handle_set_current_version_def Let_def
  by (intro answer_intro)+

lemma relation_commands_ok:
  "answer_ok is_CheckpointResult (fst (handle_create_checkpoint X cx c1 st))"
  "answer_ok is_ResumeResult (fst (handle_resume X cx c2 st))"
  "answer_ok is_HandoffResult (fst (handle_create_handoff X cx c3 st))"
  unfolding handle_create_checkpoint_def handle_resume_def handle_create_handoff_def
  by ((intro answer_intro; simp), (intro answer_intro; simp), (intro answer_intro; simp))

lemmas handlers_ok = acquire_ok renew_ok release_ok publish_ok materialize_ok start_operation_ok
  finish_operation_ok execution_commands_ok relation_commands_ok transition_answer_ok

definition is_query :: "protocol_call \<Rightarrow> bool" where
  "is_query call \<longleftrightarrow> (case call of GetAgent _ \<Rightarrow> True | GetTask _ \<Rightarrow> True | GetExecution _ \<Rightarrow> True
     | GetWorkspace _ \<Rightarrow> True | GetVersion _ \<Rightarrow> True | GetCheckpoint _ \<Rightarrow> True | GetHandoff _ \<Rightarrow> True
     | GetOperation _ \<Rightarrow> True | ResolveOperation _ \<Rightarrow> True | InspectExecution _ \<Rightarrow> True
     | ListCheckpoints _ \<Rightarrow> True | ListHandoffs _ \<Rightarrow> True | DiffWorkspaceVersion _ \<Rightarrow> True | _ \<Rightarrow> False)"

lemma queries_ok:
  "is_query call \<Longrightarrow> answer_ok (result_fits call) (handle_query X H cx call r d)"
  by (cases call)
    (auto simp: is_query_def result_fits_def query_workspace_def query_operation_def query_inspection_def
      operation_owner_def operation_answer_def intro!: answer_intro)

lemma binding_ok [simp]: "checked (map_sum failure_from_binding id x)"
  by (cases x) simp_all

lemma dispatch_ok:
  "call \<noteq> Hello \<Longrightarrow> \<nexists>c. call = RegisterAgent c \<Longrightarrow>
    answer_ok (result_fits call) (fst (dispatch_authenticated X H cx call st))"
  using queries_ok[of call]
  by (cases call)
    (auto simp: handlers_ok result_fits_def[abs_def] is_query_def intro!: answer_with_ok check_on_ok)

lemma register_ok: "answer_ok (result_fits (RegisterAgent c)) (fst (register_agent q c st))"
  unfolding register_agent_def
  by (intro answer_intro) (simp_all add: result_fits_def, simp add: failure_defs)

lemma request_ok: "answer_ok (result_fits (pr_call q)) (fst (dispatch_request X H q now_ms st))"
proof -
  have version: "failure_ok (failure UnsupportedVersionCode ''protocol version is not supported'' False)"
    by (simp add: failure_defs)
  show ?thesis
    unfolding dispatch_request_def
    by (cases "pr_call q")
      (auto simp: version register_ok result_fits_def[of Hello] dispatch_ok
        simp del: dispatch_authenticated.simps intro!: answer_intro)
qed

text \<open>
  C9. Every response of the protocol is typed: it repeats the request and the operation id and
  names the version of the protocol, and either it is \<open>Ok\<close> with a result of the kind of the call
  and no error, or it is \<open>Error\<close> with no result and a failure whose message is one of the fixed
  messages and which is retryable exactly when its code says so. The dispatcher's own internal
  error is never among them.
\<close>

theorem responses_typed:
  "ps_protocol_version (fst (handle_protocol X H q now_ms st)) = ''1.0''
   \<and> ps_request_id (fst (handle_protocol X H q now_ms st)) = pr_request_id q
   \<and> ps_operation_id (fst (handle_protocol X H q now_ms st)) = pr_operation_id q
   \<and> ((\<exists>x. result_fits (pr_call q) x \<and> ps_status (fst (handle_protocol X H q now_ms st)) = OkStatus
          \<and> ps_result (fst (handle_protocol X H q now_ms st)) = Some x
          \<and> ps_error (fst (handle_protocol X H q now_ms st)) = None)
      \<or> (\<exists>f. failure_ok f \<and> ps_status (fst (handle_protocol X H q now_ms st)) = ErrorStatus
          \<and> ps_result (fst (handle_protocol X H q now_ms st)) = None
          \<and> ps_error (fst (handle_protocol X H q now_ms st)) = Some f))"
proof -
  obtain x s where run: "dispatch_request X H q now_ms st = (x, s)" by (cases "dispatch_request X H q now_ms st")
  have "answer_ok (result_fits (pr_call q)) x" using request_ok[of q X H now_ms st] run by simp
  then show ?thesis
    by (cases x) (simp_all add: handle_protocol_def run success_response_def failure_response_def
      external_agent_protocol_version_def)
qed

end
