(* ===== verification/Remote_Access.thy ===== *)
theory Remote_Access
  imports Protocol_Types
begin

text \<open>
  The remote access boundary (\<open>src/src/remote.rs\<close>): an authenticated principal is bound to a
  session that lives in memory, and a session lets a request through only when it is alive and
  covers the agent the request asserts. A session is a row of a map, as in the source.
\<close>

section \<open>Data\<close>

record remote_access_capabilities =
  rc_contract_version :: utf8
  rc_authentication_required :: bool
  rc_reauthentication_required_on_reconnect :: bool
  rc_core_restart_invalidates_sessions :: bool
  rc_disconnect_cancels_operations :: bool
  rc_durable_state_reconciliation :: bool

record authenticated_principal =
  ap_principal_id :: utf8
  ap_agent_ids :: "utf8 list"

record remote_session =
  rs_session_id :: utf8
  rs_principal_id :: utf8
  rs_established_at_ms :: int
  rs_expires_at_ms :: int

datatype remote_access_error_code = AuthenticationRequired | AuthenticationFailed | SessionExpired
  | InvalidPrincipal | InvalidAgentBinding | RemoteForbidden | CoreUnavailable

record remote_access_error =
  re_code :: remote_access_error_code
  re_message :: utf8
  re_retryable :: bool

definition remote_error :: "remote_access_error_code \<Rightarrow> utf8 \<Rightarrow> bool \<Rightarrow> remote_access_error" where
  "remote_error code message retryable =
     \<lparr>re_code = code, re_message = message, re_retryable = retryable\<rparr>"

definition authentication_required :: remote_access_error where
  "authentication_required = remote_error AuthenticationRequired ''caller authentication is required'' False"

definition authentication_failed :: remote_access_error where
  "authentication_failed = remote_error AuthenticationFailed ''caller authentication failed'' False"

definition core_unavailable :: remote_access_error where
  "core_unavailable = remote_error CoreUnavailable ''Pong Core is unavailable'' True"

record bound_session =
  bs_view :: remote_session
  bs_agent_ids :: "utf8 set"

type_synonym sessions = "utf8 \<rightharpoonup> bound_session"

definition remote_capabilities :: remote_access_capabilities where
  "remote_capabilities = \<lparr>rc_contract_version = ''1'', rc_authentication_required = True,
     rc_reauthentication_required_on_reconnect = True, rc_core_restart_invalidates_sessions = True,
     rc_disconnect_cancels_operations = False, rc_durable_state_reconciliation = True\<rparr>"

section \<open>Operations\<close>

definition bind_authenticated ::
  "sessions \<Rightarrow> authenticated_principal \<Rightarrow> utf8 \<Rightarrow> int \<Rightarrow> int \<Rightarrow> (remote_access_error + remote_session) \<times> sessions"
where
  "bind_authenticated S p session_id now_ms ttl_ms =
     (if trimmed_empty (ap_principal_id p) \<or> trimmed_empty session_id \<or> ap_agent_ids p = []
        \<or> list_ex trimmed_empty (ap_agent_ids p) \<or> ttl_ms \<le> 0
      then (Inl (remote_error InvalidPrincipal ''authenticated Principal or session binding is invalid'' False), S)
      else (case checked_add now_ms ttl_ms of
        None \<Rightarrow> (Inl (remote_error InvalidPrincipal ''session lifetime is invalid'' False), S)
      | Some expires_at_ms \<Rightarrow>
          if S session_id \<noteq> None
          then (Inl (remote_error RemoteForbidden ''session identity is already bound'' False), S)
          else
            let view = \<lparr>rs_session_id = session_id, rs_principal_id = ap_principal_id p,
              rs_established_at_ms = now_ms, rs_expires_at_ms = expires_at_ms\<rparr> in
            (Inr view, S(session_id \<mapsto> \<lparr>bs_view = view, bs_agent_ids = set (ap_agent_ids p)\<rparr>))))"

record authorized_request =
  az_session :: remote_session
  az_request :: protocol_request

definition authorize ::
  "sessions \<Rightarrow> utf8 \<Rightarrow> protocol_request \<Rightarrow> int \<Rightarrow> (remote_access_error + authorized_request) \<times> sessions"
where
  "authorize S session_id q now_ms =
     (case S session_id of
        None \<Rightarrow> (Inl (remote_error AuthenticationRequired ''an authenticated session is required'' False), S)
      | Some s \<Rightarrow>
          if now_ms \<ge> rs_expires_at_ms (bs_view s)
          then (Inl (remote_error SessionExpired ''authenticated session has expired'' True), S(session_id := None))
          else
            (case (if pr_call q = Hello then Inr ()
               else (case pr_caller_agent_id q of
                 None \<Rightarrow> Inl (remote_error InvalidAgentBinding
                   ''protocol request has no Principal-bound Agent identity'' False)
               | Some agent_id \<Rightarrow>
                   if agent_id \<notin> bs_agent_ids s
                   then Inl (remote_error RemoteForbidden
                     ''Principal is not authorized for the asserted Agent'' False)
                   else Inr ())) of
               Inl e \<Rightarrow> (Inl e, S)
             | Inr _ \<Rightarrow> (Inr \<lparr>az_session = bs_view s, az_request = q\<rparr>, S)))"

definition disconnect :: "sessions \<Rightarrow> utf8 \<Rightarrow> bool \<times> sessions" where
  "disconnect S session_id = (S session_id \<noteq> None, S(session_id := None))"

definition invalidate_all :: "sessions \<Rightarrow> sessions" where
  "invalidate_all S = Map.empty"

definition session_view :: "sessions \<Rightarrow> utf8 \<Rightarrow> remote_session option" where
  "session_view S session_id = map_option bs_view (S session_id)"

section \<open>What a session allows\<close>

text \<open>The request a principal may send: a greeting, or one whose agent it covers.\<close>

definition covers :: "utf8 list \<Rightarrow> protocol_request \<Rightarrow> bool" where
  "covers agents q \<longleftrightarrow> pr_call q = Hello \<or> (\<exists>a. pr_caller_agent_id q = Some a \<and> a \<in> set agents)"

lemma bind_Inr:
  assumes "bind_authenticated S p i now_ms ttl = (Inr v, S')"
  shows "S i = None" and "rs_expires_at_ms v = now_ms + ttl" and "0 < ttl" and "\<not> trimmed_empty (ap_principal_id p)"
    and "S' = S(i \<mapsto> \<lparr>bs_view = v, bs_agent_ids = set (ap_agent_ids p)\<rparr>)"
  using assms by (auto simp: bind_authenticated_def checked_add_def Let_def split: if_splits)

lemma bind_principal:
  "bind_authenticated S p i now_ms ttl = (Inr v, S') \<Longrightarrow> rs_principal_id v = ap_principal_id p"
  by (auto simp: bind_authenticated_def checked_add_def Let_def split: if_splits)

lemma bind_Inl: "bind_authenticated S p i now_ms ttl = (Inl e, S') \<Longrightarrow> S' = S"
  by (auto simp: bind_authenticated_def Let_def split: if_splits option.splits)

lemma authorize_Inr:
  assumes "authorize S i q now_ms = (Inr z, S')" and "S i = Some s"
  shows "az_request z = q" and "now_ms < rs_expires_at_ms (bs_view s)"
    and "pr_call q = Hello \<or> (\<exists>a. pr_caller_agent_id q = Some a \<and> a \<in> bs_agent_ids s)"
  using assms by (auto simp: authorize_def split: if_splits option.splits)

lemma authorize_others: "snd (authorize S i q now_ms) = S \<or> snd (authorize S i q now_ms) = S(i := None)"
  by (auto simp: authorize_def split: option.split sum.split)

text \<open>A live session decides by the agents it was bound to and by nothing else.\<close>

lemma authorize_bound:
  assumes "bind_authenticated S p i t0 ttl = (Inr v, S')" and "now_ms < t0 + ttl"
  shows "(\<exists>z. authorize S' i q now_ms = (Inr z, S') \<and> az_request z = q) \<longleftrightarrow> covers (ap_agent_ids p) q"
  using bind_Inr[OF assms(1)] assms(2) by (auto simp: authorize_def covers_def split: option.split)

section \<open>Histories\<close>

text \<open>The calls a boundary has served since the core started, oldest first.\<close>

datatype remote_op =
    BindSession authenticated_principal utf8 int int
  | AuthorizeRequest utf8 protocol_request int
  | DisconnectSession utf8
  | InvalidateSessions

fun remote_step :: "remote_op \<Rightarrow> sessions \<Rightarrow> sessions" where
  "remote_step (BindSession p i now_ms ttl) S = snd (bind_authenticated S p i now_ms ttl)"
| "remote_step (AuthorizeRequest i q now_ms) S = snd (authorize S i q now_ms)"
| "remote_step (DisconnectSession i) S = snd (disconnect S i)"
| "remote_step InvalidateSessions S = invalidate_all S"

definition served :: "remote_op list \<Rightarrow> sessions" where
  "served ops = fold remote_step ops Map.empty"

text \<open>
  The call that bound a session, when it succeeded in the state it met and nothing has ended the
  session since: the row is the one this call stored.
\<close>

definition bound_by :: "remote_op list \<Rightarrow> utf8 \<Rightarrow> bound_session \<Rightarrow> bool" where
  "bound_by ops i s \<longleftrightarrow> (\<exists>earlier later p t0 ttl. ops = earlier @ BindSession p i t0 ttl # later
     \<and> fst (bind_authenticated (served earlier) p i t0 ttl) = Inr (bs_view s)
     \<and> bs_agent_ids s = set (ap_agent_ids p)
     \<and> DisconnectSession i \<notin> set later \<and> InvalidateSessions \<notin> set later)"

lemma bound_by_later:
  assumes "bound_by ops i s" and "x \<noteq> DisconnectSession i" and "x \<noteq> InvalidateSessions"
  shows "bound_by (ops @ [x]) i s"
proof -
  from assms(1) obtain earlier later p t0 ttl where found: "ops = earlier @ BindSession p i t0 ttl # later"
    "fst (bind_authenticated (served earlier) p i t0 ttl) = Inr (bs_view s)" "bs_agent_ids s = set (ap_agent_ids p)"
    "DisconnectSession i \<notin> set later" "InvalidateSessions \<notin> set later"
    by (auto simp: bound_by_def)
  have "ops @ [x] = earlier @ BindSession p i t0 ttl # (later @ [x])" using found(1) by simp
  moreover have "DisconnectSession i \<notin> set (later @ [x])" "InvalidateSessions \<notin> set (later @ [x])"
    using found(4,5) assms(2,3) by auto
  ultimately show ?thesis using found(2,3) unfolding bound_by_def by blast
qed

lemma bind_made:
  assumes "bind_authenticated (served ops) p i now_ms ttl = (Inr v, S')"
  shows "bound_by (ops @ [BindSession p i now_ms ttl]) i \<lparr>bs_view = v, bs_agent_ids = set (ap_agent_ids p)\<rparr>"
  unfolding bound_by_def using assms
  by - (rule exI[of _ ops], rule exI[of _ "[]"], rule exI[of _ p], rule exI[of _ now_ms], rule exI[of _ ttl], simp)

lemma step_bound:
  assumes before: "\<And>i s. served ops i = Some s \<Longrightarrow> bound_by ops i s"
    and after: "remote_step x (served ops) i = Some s"
  shows "bound_by (ops @ [x]) i s"
proof (cases x)
  case (BindSession p j t0 ttl)
  let ?S = "served ops"
  obtain res S' where run: "bind_authenticated ?S p j t0 ttl = (res, S')" by (cases "bind_authenticated ?S p j t0 ttl")
  show ?thesis
  proof (cases res)
    case (Inl e)
    with run after BindSession bind_Inl[of ?S p j t0 ttl e S'] before show ?thesis
      by (auto intro: bound_by_later)
  next
    case (Inr v)
    with bind_Inr(5)[of ?S p j t0 ttl v S'] bind_made[of ops p j t0 ttl v S'] run after BindSession before
    show ?thesis by (auto intro: bound_by_later split: if_splits)
  qed
next
  case (AuthorizeRequest j q t)
  with after authorize_others[of "served ops" j q t] have "served ops i = Some s" by (auto split: if_splits)
  with before AuthorizeRequest show ?thesis by (auto intro: bound_by_later)
next
  case (DisconnectSession j)
  with after before show ?thesis by (auto simp: disconnect_def intro: bound_by_later split: if_splits)
next
  case InvalidateSessions
  with after show ?thesis by (simp add: invalidate_all_def)
qed

lemma served_bound: "served ops i = Some s \<Longrightarrow> bound_by ops i s"
proof (induction ops arbitrary: i s rule: rev_induct)
  case Nil
  then show ?case by (simp add: served_def)
next
  case (snoc x ops)
  have "bound_by ops i s" if "served ops i = Some s" for i s using snoc.IH that .
  then show ?case using step_bound[of ops x i s] snoc.prems by (simp add: served_def)
qed

text \<open>
  C20. A request passes the remote boundary only under a binding that is still good: after any
  history of calls, a request that is authorised was sent over a session that some earlier call
  bound for a principal and successfully so, in the state that call met; the view it answered is
  the session of the request, the principal covers the agent the request asserts (a greeting
  asserts none), the binding has not expired, and no call since has disconnected that session or
  invalidated them all.
\<close>

theorem authorised_only_while_bound:
  assumes "authorize (served ops) session_id q now_ms = (Inr z, S')"
  shows "az_request z = q \<and> (\<exists>earlier later p t0 ttl. ops = earlier @ BindSession p session_id t0 ttl # later
    \<and> fst (bind_authenticated (served earlier) p session_id t0 ttl) = Inr (az_session z)
    \<and> rs_principal_id (az_session z) = ap_principal_id p
    \<and> covers (ap_agent_ids p) q \<and> now_ms < t0 + ttl
    \<and> DisconnectSession session_id \<notin> set later \<and> InvalidateSessions \<notin> set later)"
proof -
  from assms obtain s where found: "served ops session_id = Some s" "az_session z = bs_view s"
    by (auto simp: authorize_def split: option.splits sum.splits if_splits)
  note gone = authorize_Inr[OF assms found(1)]
  from served_bound[OF found(1)] obtain earlier later p t0 ttl where
    ops: "ops = earlier @ BindSession p session_id t0 ttl # later"
    and bind: "fst (bind_authenticated (served earlier) p session_id t0 ttl) = Inr (bs_view s)"
    and rest: "bs_agent_ids s = set (ap_agent_ids p)" "DisconnectSession session_id \<notin> set later"
      "InvalidateSessions \<notin> set later" unfolding bound_by_def by blast
  obtain S1 where run: "bind_authenticated (served earlier) p session_id t0 ttl = (Inr (bs_view s), S1)"
    using bind by (metis prod.collapse)
  have "covers (ap_agent_ids p) q" using gone(3) rest(1) by (simp add: covers_def)
  moreover have "now_ms < t0 + ttl" using gone(2) bind_Inr(2)[OF run] by simp
  moreover have "rs_principal_id (bs_view s) = ap_principal_id p" by (rule bind_principal[OF run])
  ultimately show ?thesis unfolding found(2) using gone(1) ops bind rest(2,3) by blast
qed

definition sample_remote_request :: protocol_request where
  "sample_remote_request = \<lparr>pr_protocol_version = ''1.0'', pr_request_id = ''r'', pr_caller_agent_id = Some ''a'',
     pr_issued_at = ''t'', pr_operation_id = None, pr_call = GetTask ''k''\<rparr>"

theorem authorised_only_while_bound_witness:
  "\<exists>earlier later p t0 ttl v.
    [BindSession \<lparr>ap_principal_id = ''p'', ap_agent_ids = [''a'']\<rparr> ''s'' 5 10, DisconnectSession ''u'']
      = earlier @ BindSession p ''s'' t0 ttl # later
    \<and> fst (bind_authenticated (served earlier) p ''s'' t0 ttl) = Inr v
    \<and> covers (ap_agent_ids p) sample_remote_request \<and> 14 < t0 + ttl
    \<and> DisconnectSession ''s'' \<notin> set later \<and> InvalidateSessions \<notin> set later"
proof -
  let ?p = "\<lparr>ap_principal_id = ''p'', ap_agent_ids = [''a'']\<rparr>"
  let ?ops = "[BindSession ?p ''s'' 5 10, DisconnectSession ''u'']"
  have "\<exists>z S'. authorize (served ?ops) ''s'' sample_remote_request 14 = (Inr z, S')"
    by (simp add: served_def bind_authenticated_def checked_add_def authorize_def disconnect_def Let_def
        sample_remote_request_def white1_def)
  then show ?thesis using authorised_only_while_bound[of ?ops "''s''" sample_remote_request 14] by metis
qed

end
