(* ===== verification/Http_Limits.thy ===== *)
theory Http_Limits
  imports Remote_Access Canonical "HOL-Library.Word"
begin

text \<open>
  What the HTTP transport keeps besides sessions (\<open>src/src/http_transport.rs\<close>): its configuration,
  the credential grants of the static verifier, the rate limiter and the metrics. Counters are
  machine words; the locks of the source hold no code that can panic, so the models of the
  verifier and of the metrics have no poisoned state.
\<close>

section \<open>Configuration\<close>

datatype ip_addr = V4 "8 word" "8 word" "8 word" "8 word" | V6 "128 word"

fun is_loopback :: "ip_addr \<Rightarrow> bool" where
  "is_loopback (V4 a b c d) = (a = 127)"
| "is_loopback (V6 w) = (w = 1)"

record http_server_config =
  hc_listen_ip :: ip_addr
  hc_listen_port :: "16 word"
  hc_allow_non_loopback :: bool
  hc_max_body_bytes :: nat
  hc_session_ttl_ms :: int
  hc_worker_threads :: nat
  hc_max_response_bytes :: nat
  hc_rate_limit_requests :: nat
  hc_rate_limit_window_ms :: int
  hc_rate_limit_max_principals :: nat

definition response_too_large_body :: utf8 where
  "response_too_large_body =
     ''{\"code\":\"RESPONSE_TOO_LARGE\",\"message\":\"HTTP response is too large\",\"retryable\":false}''"

definition min_http_max_response_bytes :: nat where
  "min_http_max_response_bytes = length response_too_large_body"

definition default_config :: http_server_config where
  "default_config = \<lparr>hc_listen_ip = V4 127 0 0 1, hc_listen_port = 0, hc_allow_non_loopback = False,
     hc_max_body_bytes = 1024 * 1024, hc_session_ttl_ms = 30000, hc_worker_threads = 8,
     hc_max_response_bytes = 4 * 1024 * 1024, hc_rate_limit_requests = 120,
     hc_rate_limit_window_ms = 60000, hc_rate_limit_max_principals = 1024\<rparr>"

text \<open>\<open>HttpServerError\<close> is its message.\<close>

definition validate_config :: "http_server_config \<Rightarrow> utf8 + unit" where
  "validate_config c =
     (if \<not> is_loopback (hc_listen_ip c) \<and> \<not> hc_allow_non_loopback c
      then Inl ''non-loopback HTTP binding requires explicit authorization''
      else if hc_max_body_bytes c = 0 \<or> hc_max_response_bytes c < min_http_max_response_bytes
        \<or> hc_session_ttl_ms c \<le> 0 \<or> hc_worker_threads c = 0 \<or> hc_rate_limit_requests c = 0
        \<or> hc_rate_limit_window_ms c \<le> 0 \<or> hc_rate_limit_max_principals c = 0
      then Inl ''HTTP server limits are invalid''
      else Inr ())"

section \<open>Credential grants\<close>

record credential_grant =
  cg_credential :: utf8
  cg_principal_id :: utf8
  cg_agent_ids :: "utf8 list"
  cg_expires_at_ms :: "int option"

record principal_grant =
  pg_principal_id :: utf8
  pg_agent_ids :: "utf8 list"
  pg_expires_at_ms :: "int option"

text \<open>The verifier keeps the grants by the digest of their credential; the credential is not kept.\<close>

type_synonym grants = "utf8 \<rightharpoonup> principal_grant"

definition validate_grant :: "credential_grant \<Rightarrow> utf8 + unit" where
  "validate_grant g =
     (if trimmed_empty (cg_credential g) \<or> trimmed_empty (cg_principal_id g) \<or> cg_agent_ids g = []
        \<or> list_ex trimmed_empty (cg_agent_ids g)
      then Inl ''credential grant is invalid'' else Inr ())"

definition grant_parts :: "externals \<Rightarrow> credential_grant \<Rightarrow> utf8 + utf8 \<times> principal_grant" where
  "grant_parts X g = try_then (validate_grant g) (\<lambda>_. Inr (sha256_hex X (cg_credential g),
     \<lparr>pg_principal_id = cg_principal_id g, pg_agent_ids = cg_agent_ids g,
      pg_expires_at_ms = cg_expires_at_ms g\<rparr>))"

fun insert_grants :: "externals \<Rightarrow> grants \<Rightarrow> credential_grant list \<Rightarrow> utf8 + grants" where
  "insert_grants X G [] = Inr G"
| "insert_grants X G (g # gs) =
     try_then (grant_parts X g) (\<lambda>(digest, p).
     if G digest \<noteq> None then Inl ''credential is duplicated''
     else insert_grants X (G(digest \<mapsto> p)) gs)"

definition index_grants :: "externals \<Rightarrow> credential_grant list \<Rightarrow> utf8 + grants" where
  "index_grants X gs =
     (if gs = [] then Inl ''at least one credential grant is required''
      else insert_grants X Map.empty gs)"

definition add_grant :: "externals \<Rightarrow> grants \<Rightarrow> credential_grant \<Rightarrow> (utf8 + unit) \<times> grants" where
  "add_grant X G g =
     (case grant_parts X g of
        Inl e \<Rightarrow> (Inl e, G)
      | Inr (digest, p) \<Rightarrow>
          if G digest \<noteq> None then (Inl ''credential is duplicated'', G) else (Inr (), G(digest \<mapsto> p)))"

definition replace_grants :: "externals \<Rightarrow> grants \<Rightarrow> credential_grant list \<Rightarrow> (utf8 + unit) \<times> grants" where
  "replace_grants X G gs = (case index_grants X gs of Inl e \<Rightarrow> (Inl e, G) | Inr G' \<Rightarrow> (Inr (), G'))"

definition revoke_grant :: "externals \<Rightarrow> grants \<Rightarrow> utf8 \<Rightarrow> bool \<times> grants" where
  "revoke_grant X G credential = (let digest = sha256_hex X credential in (G digest \<noteq> None, G(digest := None)))"

definition authenticate ::
  "externals \<Rightarrow> grants \<Rightarrow> utf8 \<Rightarrow> int \<Rightarrow> remote_access_error + authenticated_principal" where
  "authenticate X G credential now_ms =
     (case G (sha256_hex X credential) of
        None \<Rightarrow> Inl authentication_failed
      | Some g \<Rightarrow>
          if (case pg_expires_at_ms g of None \<Rightarrow> False | Some t \<Rightarrow> now_ms \<ge> t)
          then Inl authentication_failed
          else Inr \<lparr>ap_principal_id = pg_principal_id g, ap_agent_ids = pg_agent_ids g\<rparr>)"

section \<open>Rate limiter\<close>

text \<open>\<open>i64::saturating_sub\<close>. A row is a principal, the start of its window and its count.\<close>

definition saturating_sub :: "int \<Rightarrow> int \<Rightarrow> int" where
  "saturating_sub a b = max (- (2 ^ 63)) (min (a - b) (2 ^ 63 - 1))"

record rate_limiter =
  rl_limit :: nat
  rl_window_ms :: int
  rl_max_principals :: nat
  rl_principals :: "(utf8 \<times> int \<times> nat) list"

record rate_decision =
  rd_allowed :: bool
  rd_tracked_principals :: nat
  rd_capacity_rejected :: bool

definition new_limiter :: "nat \<Rightarrow> int \<Rightarrow> nat \<Rightarrow> rate_limiter" where
  "new_limiter limit window_ms max_principals = \<lparr>rl_limit = limit, rl_window_ms = window_ms,
     rl_max_principals = max_principals, rl_principals = []\<rparr>"

definition retained :: "rate_limiter \<Rightarrow> int \<Rightarrow> (utf8 \<times> int \<times> nat) list" where
  "retained l now_ms =
     filter (\<lambda>x. saturating_sub now_ms (fst (snd x)) < rl_window_ms l) (rl_principals l)"

definition allow :: "rate_limiter \<Rightarrow> utf8 \<Rightarrow> int \<Rightarrow> rate_decision \<times> rate_limiter" where
  "allow l p now_ms =
     (let rows = retained l now_ms; found = row_by fst p rows in
      if found = None \<and> rl_max_principals l \<le> length rows
      then (\<lparr>rd_allowed = False, rd_tracked_principals = length rows, rd_capacity_rejected = True\<rparr>,
        l\<lparr>rl_principals := rows\<rparr>)
      else
        let entry = (case found of None \<Rightarrow> (now_ms, 0) | Some x \<Rightarrow> snd x);
          entry = (if rl_window_ms l \<le> saturating_sub now_ms (fst entry) then (now_ms, 0) else entry);
          allowed = snd entry < rl_limit l;
          rows = upsert fst (p, fst entry, if allowed then snd entry + 1 else snd entry) rows in
        (\<lparr>rd_allowed = allowed, rd_tracked_principals = length rows, rd_capacity_rejected = False\<rparr>,
         l\<lparr>rl_principals := rows\<rparr>))"

section \<open>Metrics\<close>

record http_request_correlation =
  ho_request_id :: utf8
  ho_operation_id :: "utf8 option"
  ho_principal_id :: utf8
  ho_agent_id :: "utf8 option"
  ho_execution_id :: "utf8 option"
  ho_workspace_id :: "utf8 option"
  ho_status :: nat
  ho_latency_ms :: "64 word"

datatype http_diagnostic_outcome = RequestCompleted | AuthRejected | AuthzRejected | RateLimited
  | MalformedRequest | ProtocolErrorOutcome | RevisionConflictOutcome | LeaseConflictOutcome
  | OperationAccepted | OperationCompleted | OperationFailed | UnknownOutcome | CoreDown | ServerShutdown

record http_diagnostic_event =
  hd_request_id :: "utf8 option"
  hd_operation_id :: "utf8 option"
  hd_principal_id :: "utf8 option"
  hd_agent_id :: "utf8 option"
  hd_execution_id :: "utf8 option"
  hd_workspace_id :: "utf8 option"
  hd_status :: "nat option"
  hd_outcome :: http_diagnostic_outcome
  hd_latency_ms :: "64 word"

record http_metrics =
  hm_requests_total :: "64 word"
  hm_error_responses :: "64 word"
  hm_auth_rejections :: "64 word"
  hm_authorization_rejections :: "64 word"
  hm_rate_limit_rejections :: "64 word"
  hm_payload_rejections :: "64 word"
  hm_active_requests :: "64 word"
  hm_peak_active_requests :: "64 word"
  hm_worker_threads :: nat
  hm_handler_panics :: "64 word"
  hm_tracked_principals :: "64 word"
  hm_peak_tracked_principals :: "64 word"
  hm_capacity_rejections :: "64 word"
  hm_recent_requests :: "http_request_correlation list"
  hm_recent_diagnostics :: "http_diagnostic_event list"

definition new_metrics :: "nat \<Rightarrow> http_metrics" where
  "new_metrics worker_threads = \<lparr>hm_requests_total = 0, hm_error_responses = 0, hm_auth_rejections = 0,
     hm_authorization_rejections = 0, hm_rate_limit_rejections = 0, hm_payload_rejections = 0,
     hm_active_requests = 0, hm_peak_active_requests = 0, hm_worker_threads = worker_threads,
     hm_handler_panics = 0, hm_tracked_principals = 0, hm_peak_tracked_principals = 0,
     hm_capacity_rejections = 0, hm_recent_requests = [], hm_recent_diagnostics = []\<rparr>"

definition http_diagnostic_capacity :: nat where
  "http_diagnostic_capacity = 64"

definition push_recent :: "'a \<Rightarrow> 'a list \<Rightarrow> 'a list" where
  "push_recent x xs = (if http_diagnostic_capacity \<le> length xs then tl xs else xs) @ [x]"

definition record_request :: "http_request_correlation \<Rightarrow> http_metrics \<Rightarrow> http_metrics" where
  "record_request x m = m\<lparr>hm_recent_requests := push_recent x (hm_recent_requests m)\<rparr>"

definition record_diagnostic :: "http_diagnostic_event \<Rightarrow> http_metrics \<Rightarrow> http_metrics" where
  "record_diagnostic x m = m\<lparr>hm_recent_diagnostics := push_recent x (hm_recent_diagnostics m)\<rparr>"

definition rate_limiter_size :: "rate_decision \<Rightarrow> http_metrics \<Rightarrow> http_metrics" where
  "rate_limiter_size r m =
     (let tracked = of_nat (min (rd_tracked_principals r) (2 ^ 64 - 1)) in
      m\<lparr>hm_tracked_principals := tracked,
        hm_peak_tracked_principals := max (hm_peak_tracked_principals m) tracked,
        hm_capacity_rejections := hm_capacity_rejections m + (if rd_capacity_rejected r then 1 else 0)\<rparr>)"

definition request_started :: "http_metrics \<Rightarrow> http_metrics" where
  "request_started m =
     (let active = hm_active_requests m + 1 in
      m\<lparr>hm_requests_total := hm_requests_total m + 1, hm_active_requests := active,
        hm_peak_active_requests := max (hm_peak_active_requests m) active\<rparr>)"

definition request_dropped :: "http_metrics \<Rightarrow> http_metrics" where
  "request_dropped m = m\<lparr>hm_active_requests := hm_active_requests m - 1\<rparr>"

definition mark_error :: "http_metrics \<Rightarrow> http_metrics" where
  "mark_error m = m\<lparr>hm_error_responses := hm_error_responses m + 1\<rparr>"

end
