(* ===== verification/Http_Transport.thy ===== *)
theory Http_Transport
  imports Protocol Http_Limits
begin

text \<open>
  One request through the HTTP transport (\<open>src/src/http_transport.rs\<close>) and the dispatcher behind it
  (\<open>src/src/core_service.rs\<close>). The pipeline is the one of \<open>handle_request\<close>: address, method and
  content type, credential, declared length, rate limit, body, envelope, session, dispatch. The
  verifier and the dispatcher are arguments, as they are trait objects in the source; so are the
  clock, the JSON library and whether the peer took the response.
\<close>

section \<open>Text of the headers\<close>

fun trim_start :: "utf8 \<Rightarrow> utf8" where
  "trim_start [] = []"
| "trim_start (a # s) =
     (if white1 a then trim_start s
      else (case s of
        [] \<Rightarrow> [a]
      | b # s' \<Rightarrow>
          (if white2 a b then trim_start s'
           else (case s' of
             [] \<Rightarrow> [a, b]
           | c # s'' \<Rightarrow> (if white3 a b c then trim_start s'' else a # s)))))"

fun trim_end :: "utf8 \<Rightarrow> utf8" where
  "trim_end [] = []"
| "trim_end (a # s) = (if trimmed_empty (a # s) then [] else a # trim_end s)"

text \<open>A text of visible ASCII characters is trimmed to itself.\<close>

lemma trim_end_plain: "list_all plain_char s \<Longrightarrow> trim_end s = s"
  by (induction s) (simp_all add: plain_not_empty del: trimmed_empty.simps)

lemma trim_start_plain: "list_all plain_char s \<Longrightarrow> trim_start s = s"
proof (cases s)
  case (Cons a t)
  assume "list_all plain_char s"
  with Cons have "\<not> white1 a" "plain_char a" by (simp_all add: plain_char_def)
  with Cons plain_not_white[of a] show ?thesis
    by (simp only: trim_start.simps if_False) (simp split: list.split)
qed simp

fun has_whitespace :: "utf8 \<Rightarrow> bool" where
  "has_whitespace [] = False"
| "has_whitespace (a # s) \<longleftrightarrow> white1 a
     \<or> (case s of [] \<Rightarrow> False | b # s' \<Rightarrow> white2 a b
         \<or> (case s' of [] \<Rightarrow> False | c # _ \<Rightarrow> white3 a b c))
     \<or> has_whitespace s"

definition same_ascii :: "utf8 \<Rightarrow> utf8 \<Rightarrow> bool" where
  "same_ascii a b \<longleftrightarrow> to_ascii_lowercase a = to_ascii_lowercase b"

datatype http_method = Post | OtherMethod utf8

text \<open>
  What \<open>tiny_http\<close> hands over: the body is none if reading it fails. The declared length is the
  one of the header, if any.
\<close>

record http_request =
  ht_url :: utf8
  ht_method :: http_method
  ht_headers :: "(utf8 \<times> utf8) list"
  ht_body_length :: "nat option"
  ht_body :: "utf8 option"

definition http_protocol_path :: utf8 where
  "http_protocol_path = ''/v1/protocol''"

definition has_json_content_type :: "http_request \<Rightarrow> bool" where
  "has_json_content_type req = list_ex (\<lambda>(field, v). same_ascii field ''Content-Type''
     \<and> same_ascii (trim_end (trim_start (takeWhile (\<lambda>c. c \<noteq> CHR '';'') v))) ''application/json'') (ht_headers req)"

definition split_once_space :: "utf8 \<Rightarrow> (utf8 \<times> utf8) option" where
  "split_once_space v = (case dropWhile (\<lambda>c. c \<noteq> CHR '' '') v of
     [] \<Rightarrow> None | _ # rest \<Rightarrow> Some (takeWhile (\<lambda>c. c \<noteq> CHR '' '') v, rest))"

definition bearer_credential :: "http_request \<Rightarrow> remote_access_error + utf8" where
  "bearer_credential req =
     (case map snd (filter (\<lambda>h. same_ascii (fst h) ''Authorization'') (ht_headers req)) of
        [] \<Rightarrow> Inl authentication_required
      | [v] \<Rightarrow>
          (case split_once_space v of
             None \<Rightarrow> Inl authentication_failed
           | Some (scheme, credential) \<Rightarrow>
               if \<not> same_ascii scheme ''Bearer'' \<or> trimmed_empty credential \<or> has_whitespace credential
               then Inl authentication_failed
               else Inr credential)
      | _ \<Rightarrow> Inl authentication_failed)"

section \<open>Responses\<close>

datatype http_body = ProtocolBody protocol_response | RemoteBody remote_access_error
  | TransportBody utf8 utf8 bool

record http_response =
  hp_status :: nat
  hp_headers :: "(utf8 \<times> utf8) list"
  hp_body :: utf8

text \<open>The parts of \<open>serde_json\<close> the transport calls.\<close>

record http_codec =
  co_request :: "utf8 \<Rightarrow> protocol_request option"
  co_value :: "utf8 \<Rightarrow> json option"
  co_encode :: "http_body \<Rightarrow> utf8 option"

definition serialization_failed_body :: utf8 where
  "serialization_failed_body =
     ''{\"code\":\"INTERNAL_ERROR\",\"message\":\"response serialization failed\",\"retryable\":false}''"

definition respond_json :: "http_codec \<Rightarrow> nat \<Rightarrow> nat \<Rightarrow> http_body \<Rightarrow> http_response" where
  "respond_json C max_bytes status x =
     (let data = (case co_encode C x of None \<Rightarrow> serialization_failed_body | Some d \<Rightarrow> d);
        large = max_bytes < length data in
      \<lparr>hp_status = (if large then 500 else status),
       hp_headers = [(''Content-Type'', ''application/json''), (''Cache-Control'', ''no-store''),
         (''X-Content-Type-Options'', ''nosniff'')],
       hp_body = (if large then response_too_large_body else data)\<rparr>)"

definition remote_error_status :: "remote_access_error \<Rightarrow> nat" where
  "remote_error_status e =
     (case re_code e of
        AuthenticationRequired \<Rightarrow> 401 | AuthenticationFailed \<Rightarrow> 401 | SessionExpired \<Rightarrow> 401
      | InvalidPrincipal \<Rightarrow> 400 | InvalidAgentBinding \<Rightarrow> 400
      | RemoteForbidden \<Rightarrow> 403 | CoreUnavailable \<Rightarrow> 503)"

definition protocol_http_status :: "protocol_response \<Rightarrow> nat" where
  "protocol_http_status x =
     (if ps_status x = OkStatus then 200
      else (case map_option pf_code (ps_error x) of
        Some UnauthorizedCode \<Rightarrow> 401
      | Some ForbiddenCode \<Rightarrow> 403
      | Some NotFoundCode \<Rightarrow> 404
      | Some ConflictCode \<Rightarrow> 409 | Some LeaseConflictCode \<Rightarrow> 409 | Some RevisionConflictCode \<Rightarrow> 409
      | Some InvalidStateCode \<Rightarrow> 409 | Some IdempotencyConflictCode \<Rightarrow> 409
      | Some RecoveryRequiredCode \<Rightarrow> 409
      | Some ResourceExhaustedCode \<Rightarrow> 429
      | Some NotSupportedCode \<Rightarrow> 501
      | Some InternalErrorCode \<Rightarrow> 500 | Some IntegrityErrorCode \<Rightarrow> 500
      | _ \<Rightarrow> 400))"

definition protocol_diagnostic_outcome :: "protocol_response \<Rightarrow> http_diagnostic_outcome" where
  "protocol_diagnostic_outcome x =
     (case ps_error x of
        Some f \<Rightarrow> (case pf_code f of
            RevisionConflictCode \<Rightarrow> RevisionConflictOutcome
          | LeaseConflictCode \<Rightarrow> LeaseConflictOutcome
          | RecoveryRequiredCode \<Rightarrow> UnknownOutcome
          | _ \<Rightarrow> ProtocolErrorOutcome)
      | None \<Rightarrow> (case ps_result x of
            Some (OperationResult r) \<Rightarrow>
              if or_state r = ''running'' then OperationAccepted
              else if or_state r = ''completed'' then OperationCompleted
              else if or_state r = ''failed'' \<or> or_state r = ''cancelled'' then OperationFailed
              else RequestCompleted
          | _ \<Rightarrow> RequestCompleted))"

text \<open>\<open>correlation_resources\<close> looks the two ids up in the JSON of the call; these are the fields it finds.\<close>

definition correlation_resources :: "protocol_call \<Rightarrow> utf8 option \<times> utf8 option" where
  "correlation_resources call =
     (case call of
        CreateWorkspace c \<Rightarrow> (None, Some (pcw_workspace_id c))
      | CreateExecution c \<Rightarrow> (Some (pce_execution_id c), pce_workspace_id c)
      | StartExecution c \<Rightarrow> (Some (per_execution_id c), None)
      | PauseExecution c \<Rightarrow> (Some (peo_execution_id c), None)
      | CompleteExecution c \<Rightarrow> (Some (peo_execution_id c), None)
      | FailExecution c \<Rightarrow> (Some (peo_execution_id c), None)
      | InterruptExecution c \<Rightarrow> (Some (peo_execution_id c), None)
      | AcquireWorkspaceLease c \<Rightarrow> (Some (pal_execution_id c), Some (pal_workspace_id c))
      | RenewWorkspaceLease c \<Rightarrow> (None, Some (la_workspace_id (prl_lease c)))
      | ReleaseWorkspaceLease c \<Rightarrow> (None, Some (la_workspace_id (pll_lease c)))
      | PublishVersion c \<Rightarrow> (Some (ppv_execution_id c), Some (ppv_workspace_id c))
      | SetExecutionCurrentVersion c \<Rightarrow> (Some (psv_execution_id c), Some (la_workspace_id (psv_lease c)))
      | CreateCheckpoint c \<Rightarrow> (Some (pcc_execution_id c), Some (pcc_workspace_id c))
      | ResumeFromCheckpoint c \<Rightarrow> (Some (prc_execution_id c), Some (prc_workspace_id c))
      | CreateHandoff c \<Rightarrow> (Some (pch_from_execution_id c), None)
      | MaterializeVersion c \<Rightarrow> (Some (pmv_execution_id c), Some (pmv_workspace_id c))
      | StartOperation c \<Rightarrow> (Some (pso_execution_id c), None)
      | FinishOperation c \<Rightarrow> (Some (pfo_execution_id c), None)
      | DiffWorkspaceVersion c \<Rightarrow> (None, Some (pdq_workspace_id c))
      | _ \<Rightarrow> (None, None))"

definition json_member :: "utf8 \<Rightarrow> json \<Rightarrow> json option" where
  "json_member k v = (case v of JObject fs \<Rightarrow> map_of (rev fs) k | _ \<Rightarrow> None)"

definition request_id_from_invalid_json :: "http_codec \<Rightarrow> utf8 \<Rightarrow> utf8 option" where
  "request_id_from_invalid_json C body =
     (case Option.bind (co_value C body) (json_member ''request_id'') of
        Some (JString i) \<Rightarrow> if trimmed_empty i then None else Some i
      | _ \<Rightarrow> None)"

section \<open>State\<close>

text \<open>A poisoned lock is read here as in the source; nothing that runs under these two can panic.\<close>

record http_state =
  hs_sessions :: sessions
  hs_sessions_poisoned :: bool
  hs_next_session :: "64 word"
  hs_max_body_bytes :: nat
  hs_session_ttl_ms :: int
  hs_max_response_bytes :: nat
  hs_limiter :: rate_limiter
  hs_limiter_poisoned :: bool
  hs_metrics :: http_metrics

definition start_server :: "http_server_config \<Rightarrow> utf8 + http_state" where
  "start_server c = try_then (validate_config c) (\<lambda>_. Inr
     \<lparr>hs_sessions = Map.empty, hs_sessions_poisoned = False, hs_next_session = 1,
      hs_max_body_bytes = hc_max_body_bytes c, hs_session_ttl_ms = hc_session_ttl_ms c,
      hs_max_response_bytes = hc_max_response_bytes c,
      hs_limiter = new_limiter (hc_rate_limit_requests c) (hc_rate_limit_window_ms c)
        (hc_rate_limit_max_principals c),
      hs_limiter_poisoned = False, hs_metrics = new_metrics (hc_worker_threads c)\<rparr>)"

text \<open>The clock readings of one request, and whether the response was delivered.\<close>

record http_env =
  en_authentication_ms :: int
  en_now_ms :: int
  en_recorded_latency :: "64 word"
  en_latency :: "64 word"
  en_delivered :: bool

datatype dispatch_outcome = Answered protocol_response | DispatchError | Panicked

type_synonym 'c dispatcher = "protocol_request \<Rightarrow> int \<Rightarrow> 'c \<Rightarrow> dispatch_outcome \<times> 'c"
type_synonym verifier = "utf8 \<Rightarrow> int \<Rightarrow> remote_access_error + authenticated_principal"

definition on_metrics :: "(http_metrics \<Rightarrow> http_metrics) \<Rightarrow> http_state \<Rightarrow> http_state" where
  "on_metrics f s = s\<lparr>hs_metrics := f (hs_metrics s)\<rparr>"

definition diagnostic_event :: "http_env \<Rightarrow> http_diagnostic_outcome \<Rightarrow> nat option \<Rightarrow> http_diagnostic_event" where
  "diagnostic_event E outcome status = \<lparr>hd_request_id = None, hd_operation_id = None, hd_principal_id = None,
     hd_agent_id = None, hd_execution_id = None, hd_workspace_id = None, hd_status = status,
     hd_outcome = outcome, hd_latency_ms = en_latency E\<rparr>"

text \<open>The event of a request whose envelope was read.\<close>

definition request_event ::
  "http_env \<Rightarrow> http_diagnostic_outcome \<Rightarrow> nat option \<Rightarrow> protocol_request \<Rightarrow> utf8 \<Rightarrow> http_diagnostic_event" where
  "request_event E outcome status q principal_id =
     (diagnostic_event E outcome status)
       \<lparr>hd_request_id := Some (pr_request_id q), hd_operation_id := pr_operation_id q,
        hd_principal_id := Some principal_id, hd_agent_id := pr_caller_agent_id q,
        hd_execution_id := fst (correlation_resources (pr_call q)),
        hd_workspace_id := snd (correlation_resources (pr_call q))\<rparr>"

definition respond_protocol :: "http_codec \<Rightarrow> http_state \<Rightarrow> protocol_response \<Rightarrow> http_response" where
  "respond_protocol C s x = respond_json C (hs_max_response_bytes s) (protocol_http_status x) (ProtocolBody x)"

definition respond_remote_error :: "http_codec \<Rightarrow> http_state \<Rightarrow> remote_access_error \<Rightarrow> http_response" where
  "respond_remote_error C s e = respond_json C (hs_max_response_bytes s) (remote_error_status e) (RemoteBody e)"

definition respond_transport_error :: "http_codec \<Rightarrow> http_state \<Rightarrow> nat \<Rightarrow> utf8 \<Rightarrow> utf8 \<Rightarrow> http_response" where
  "respond_transport_error C s status code message =
     respond_json C (hs_max_response_bytes s) status (TransportBody code message False)"

section \<open>The pipeline\<close>

text \<open>
  A stage ends the request with a response or goes on with a value; either way it has a state.
  A refused request is counted, recorded and answered.
\<close>

type_synonym 'a stage = "(http_response + 'a) \<times> http_state"

definition bump_auth :: "http_metrics \<Rightarrow> http_metrics" where
  "bump_auth m = m\<lparr>hm_auth_rejections := hm_auth_rejections m + 1\<rparr>"

definition bump_authorization :: "http_metrics \<Rightarrow> http_metrics" where
  "bump_authorization m = m\<lparr>hm_authorization_rejections := hm_authorization_rejections m + 1\<rparr>"

definition bump_rate :: "http_metrics \<Rightarrow> http_metrics" where
  "bump_rate m = m\<lparr>hm_rate_limit_rejections := hm_rate_limit_rejections m + 1\<rparr>"

definition bump_payload :: "http_metrics \<Rightarrow> http_metrics" where
  "bump_payload m = m\<lparr>hm_payload_rejections := hm_payload_rejections m + 1\<rparr>"

definition refuse ::
  "http_codec \<Rightarrow> http_state \<Rightarrow> http_diagnostic_event \<Rightarrow> (http_metrics \<Rightarrow> http_metrics) \<Rightarrow> http_response \<Rightarrow> 'a stage"
where
  "refuse C s event bump response =
     (Inl response, on_metrics (\<lambda>m. record_diagnostic event (bump (mark_error m))) s)"

definition check_endpoint :: "http_codec \<Rightarrow> http_env \<Rightarrow> http_request \<Rightarrow> http_state \<Rightarrow> unit stage" where
  "check_endpoint C E req s =
     (let malformed = (\<lambda>status code message. refuse C s (diagnostic_event E MalformedRequest (Some status)) id
        (respond_transport_error C s status code message)) in
      if ht_url req \<noteq> http_protocol_path then malformed 404 ''NOT_FOUND'' ''HTTP endpoint was not found''
      else if ht_method req \<noteq> Post then malformed 405 ''METHOD_NOT_ALLOWED'' ''HTTP method is not allowed''
      else if \<not> has_json_content_type req
      then malformed 415 ''UNSUPPORTED_MEDIA_TYPE'' ''application/json is required''
      else (Inr (), s))"

definition identify :: "http_codec \<Rightarrow> verifier \<Rightarrow> http_env \<Rightarrow> http_request \<Rightarrow> http_state \<Rightarrow> authenticated_principal stage" where
  "identify C V E req s =
     (case try_then (bearer_credential req) (\<lambda>credential. V credential (en_authentication_ms E)) of
        Inl e \<Rightarrow> refuse C s (diagnostic_event E AuthRejected (Some 401)) bump_auth (respond_remote_error C s e)
      | Inr p \<Rightarrow> (Inr p, s))"

definition principal_event ::
  "http_env \<Rightarrow> http_diagnostic_outcome \<Rightarrow> nat \<Rightarrow> authenticated_principal \<Rightarrow> http_diagnostic_event" where
  "principal_event E outcome status p =
     (diagnostic_event E outcome (Some status))\<lparr>hd_principal_id := Some (ap_principal_id p)\<rparr>"

definition too_large :: "http_codec \<Rightarrow> http_env \<Rightarrow> authenticated_principal \<Rightarrow> http_state \<Rightarrow> 'a stage" where
  "too_large C E p s = refuse C s (principal_event E MalformedRequest 413 p) bump_payload
     (respond_transport_error C s 413 ''PAYLOAD_TOO_LARGE'' ''HTTP body is too large'')"

definition check_length :: "http_codec \<Rightarrow> http_env \<Rightarrow> http_request \<Rightarrow> authenticated_principal \<Rightarrow> http_state \<Rightarrow> unit stage" where
  "check_length C E req p s =
     (case ht_body_length req of
        Some n \<Rightarrow> if hs_max_body_bytes s < n then too_large C E p s else (Inr (), s)
      | None \<Rightarrow> (Inr (), s))"

definition limit_rate :: "http_codec \<Rightarrow> http_env \<Rightarrow> authenticated_principal \<Rightarrow> http_state \<Rightarrow> unit stage" where
  "limit_rate C E p s =
     (let (decision, limiter) =
        (if hs_limiter_poisoned s
         then (\<lparr>rd_allowed = False, rd_tracked_principals = 0, rd_capacity_rejected = False\<rparr>, hs_limiter s)
         else allow (hs_limiter s) (ap_principal_id p) (en_authentication_ms E));
        s = on_metrics (rate_limiter_size decision) (s\<lparr>hs_limiter := limiter\<rparr>) in
      if rd_allowed decision then (Inr (), s)
      else refuse C s (principal_event E RateLimited 429 p) bump_rate
        (respond_transport_error C s 429 ''RATE_LIMITED'' ''request rate limit exceeded''))"

text \<open>\<open>take(max_body_bytes.saturating_add(1))\<close>: one byte more than allowed is enough to refuse.\<close>

definition read_body :: "http_codec \<Rightarrow> http_env \<Rightarrow> http_request \<Rightarrow> authenticated_principal \<Rightarrow> http_state \<Rightarrow> utf8 stage" where
  "read_body C E req p s =
     (case ht_body req of
        None \<Rightarrow> refuse C s (principal_event E MalformedRequest 400 p) id
          (respond_transport_error C s 400 ''INVALID_REQUEST'' ''HTTP body could not be read'')
      | Some sent \<Rightarrow>
          let body = take (min (hs_max_body_bytes s + 1) (2 ^ 64 - 1)) sent in
          if hs_max_body_bytes s < length body then too_large C E p s else (Inr body, s))"

definition read_envelope ::
  "http_codec \<Rightarrow> http_env \<Rightarrow> authenticated_principal \<Rightarrow> utf8 \<Rightarrow> http_state \<Rightarrow> protocol_request stage" where
  "read_envelope C E p body s =
     (case co_request C body of
        Some q \<Rightarrow> (Inr q, s)
      | None \<Rightarrow>
          let i = request_id_from_invalid_json C body in
          refuse C s ((principal_event E MalformedRequest 400 p)\<lparr>hd_request_id := i\<rparr>) id
            (respond_protocol C s (invalid_envelope i)))"

definition session_name :: "http_env \<Rightarrow> 64 word \<Rightarrow> utf8" where
  "session_name E n = ''http-'' @ show_int (en_now_ms E) @ ''-'' @ show_nat (unat n)"

text \<open>A session lives for one request; only a refusal to bind leaves no diagnostic.\<close>

definition authorize_request ::
  "http_codec \<Rightarrow> http_env \<Rightarrow> authenticated_principal \<Rightarrow> protocol_request \<Rightarrow> http_state \<Rightarrow> protocol_request stage" where
  "authorize_request C E p q s =
     (let i = session_name E (hs_next_session s); now_ms = en_now_ms E;
        s = s\<lparr>hs_next_session := hs_next_session s + 1\<rparr> in
      if hs_sessions_poisoned s
      then refuse C s (request_event E CoreDown (Some 503) q (ap_principal_id p)) id
        (respond_remote_error C s core_unavailable)
      else (case bind_authenticated (hs_sessions s) p i now_ms (hs_session_ttl_ms s) of
        (Inl e, _) \<Rightarrow> (Inl (respond_remote_error C s e), on_metrics (\<lambda>m. bump_authorization (mark_error m)) s)
      | (Inr _, S) \<Rightarrow>
          let (outcome, S) = authorize S i q now_ms; s = s\<lparr>hs_sessions := snd (disconnect S i)\<rparr> in
          (case outcome of
             Inl e \<Rightarrow> refuse C s (request_event E AuthzRejected (Some (remote_error_status e)) q (ap_principal_id p))
               bump_authorization (respond_remote_error C s e)
           | Inr z \<Rightarrow> (Inr (az_request z), s))))"

definition admitted_request ::
  "http_codec \<Rightarrow> verifier \<Rightarrow> http_env \<Rightarrow> http_request \<Rightarrow> http_state \<Rightarrow> (authenticated_principal \<times> protocol_request) stage"
where
  "admitted_request C V E req s =
     then_on (check_endpoint C E req s) (\<lambda>_ s.
     then_on (identify C V E req s) (\<lambda>p s.
     then_on (check_length C E req p s) (\<lambda>_ s.
     then_on (limit_rate C E p s) (\<lambda>_ s.
     then_on (read_body C E req p s) (\<lambda>body s.
     then_on (read_envelope C E p body s) (\<lambda>q s.
     then_on (authorize_request C E p q s) (\<lambda>q s.
     (Inr (p, q), s))))))))"

definition correlation_of ::
  "http_env \<Rightarrow> protocol_request \<Rightarrow> utf8 \<Rightarrow> nat \<Rightarrow> http_request_correlation" where
  "correlation_of E q principal_id status = \<lparr>ho_request_id = pr_request_id q, ho_operation_id = pr_operation_id q,
     ho_principal_id = principal_id, ho_agent_id = pr_caller_agent_id q,
     ho_execution_id = fst (correlation_resources (pr_call q)),
     ho_workspace_id = snd (correlation_resources (pr_call q)), ho_status = status,
     ho_latency_ms = en_recorded_latency E\<rparr>"

definition record_answer :: "http_env \<Rightarrow> protocol_request \<Rightarrow> utf8 \<Rightarrow> protocol_response \<Rightarrow> http_metrics \<Rightarrow> http_metrics" where
  "record_answer E q principal_id x m =
     (let status = protocol_http_status x; m = (if 400 \<le> status then mark_error m else m) in
      record_diagnostic (request_event E
          (if en_delivered E then protocol_diagnostic_outcome x else UnknownOutcome) (Some status) q principal_id)
        (record_request (correlation_of E q principal_id status) m))"

text \<open>
  A response of none is a handler that panicked: it unwinds past the response, the guard of the
  active requests is dropped all the same.
\<close>

definition handle_request ::
  "http_codec \<Rightarrow> verifier \<Rightarrow> 'c dispatcher \<Rightarrow> http_env \<Rightarrow> http_request \<Rightarrow> http_state \<Rightarrow> 'c \<Rightarrow>
    http_response option \<times> http_state \<times> 'c"
where
  "handle_request C V D E req s core =
     (case admitted_request C V E req (on_metrics request_started s) of
        (Inl response, s) \<Rightarrow> (Some response, on_metrics request_dropped s, core)
      | (Inr (p, q), s) \<Rightarrow>
          (case D q (en_now_ms E) core of
             (Answered x, core) \<Rightarrow> (Some (respond_protocol C s x),
               on_metrics (\<lambda>m. request_dropped (record_answer E q (ap_principal_id p) x m)) s, core)
           | (DispatchError, core) \<Rightarrow> (Some (respond_remote_error C s core_unavailable),
               on_metrics (\<lambda>m. request_dropped (record_diagnostic
                 (request_event E CoreDown (Some 503) q (ap_principal_id p)) (mark_error m))) s, core)
           | (Panicked, core) \<Rightarrow> (None, on_metrics request_dropped s, core)))"

definition panic_event :: http_diagnostic_event where
  "panic_event = \<lparr>hd_request_id = None, hd_operation_id = None, hd_principal_id = None, hd_agent_id = None,
     hd_execution_id = None, hd_workspace_id = None, hd_status = Some 500, hd_outcome = CoreDown, hd_latency_ms = 0\<rparr>"

text \<open>
  The loop of a worker, for one request. Of what a worker calls, only the dispatcher may panic
  here; the verifier and the codec are total functions, and a write of the response that fails
  is the field \<open>en_delivered\<close>.
\<close>

definition serve_request ::
  "http_codec \<Rightarrow> verifier \<Rightarrow> 'c dispatcher \<Rightarrow> http_env \<Rightarrow> http_request \<Rightarrow> http_state \<Rightarrow> 'c \<Rightarrow>
    http_response option \<times> http_state \<times> 'c"
where
  "serve_request C V D E req s core =
     (case handle_request C V D E req s core of
        (Some response, s, core) \<Rightarrow> (Some response, s, core)
      | (None, s, core) \<Rightarrow> (None, on_metrics (\<lambda>m. record_diagnostic panic_event
          (m\<lparr>hm_error_responses := hm_error_responses m + 1, hm_handler_panics := hm_handler_panics m + 1\<rparr>)) s, core))"

section \<open>The dispatcher of the core\<close>

text \<open>
  \<open>AgentProtocolCore\<close> holds the repository in a mutex. A call that panics poisons it; whether a
  call panics, and what it leaves of the store, is an argument.
\<close>

record protocol_core =
  pc_store :: metadata_store
  pc_poisoned :: bool

definition core_dispatch ::
  "(protocol_request \<Rightarrow> int \<Rightarrow> metadata_store \<Rightarrow> metadata_store option) \<Rightarrow> externals \<Rightarrow> protocol_host \<Rightarrow> protocol_core dispatcher"
where
  "core_dispatch panics X H q now_ms core =
     (if pc_poisoned core then (DispatchError, core)
      else (case panics q now_ms (pc_store core) of
        Some st \<Rightarrow> (Panicked, core\<lparr>pc_store := st, pc_poisoned := True\<rparr>)
      | None \<Rightarrow>
          let (x, st) = handle_protocol X H q now_ms (pc_store core) in
          (Answered x, core\<lparr>pc_store := st\<rparr>)))"

end
