(* ===== verification/Http_Bounds.thy ===== *)
theory Http_Bounds
  imports Http_Limits
begin

text \<open>
  What the grants and the rate limiter of the HTTP transport guarantee over any history: whom a
  credential authenticates, how many requests of a principal pass in a window, and how many
  principals the limiter tracks.
\<close>

section \<open>Credentials\<close>

definition principal_of :: "credential_grant \<Rightarrow> authenticated_principal" where
  "principal_of g = \<lparr>ap_principal_id = cg_principal_id g, ap_agent_ids = cg_agent_ids g\<rparr>"

definition live_grant :: "int \<Rightarrow> credential_grant \<Rightarrow> bool" where
  "live_grant now_ms g \<longleftrightarrow> (case cg_expires_at_ms g of None \<Rightarrow> True | Some t \<Rightarrow> now_ms < t)"

definition stored_grant :: "credential_grant \<Rightarrow> principal_grant" where
  "stored_grant g = \<lparr>pg_principal_id = cg_principal_id g, pg_agent_ids = cg_agent_ids g,
     pg_expires_at_ms = cg_expires_at_ms g\<rparr>"

lemma grant_parts_Inr:
  "grant_parts X g = Inr y \<longleftrightarrow> validate_grant g = Inr () \<and> y = (sha256_hex X (cg_credential g), stored_grant g)"
  by (auto simp: grant_parts_def stored_grant_def)

lemma insert_grants_lookup:
  "insert_grants X G gs = Inr G' \<Longrightarrow>
    (G' k = Some p \<longleftrightarrow> G k = Some p \<or> (\<exists>g\<in>set gs. sha256_hex X (cg_credential g) = k \<and> stored_grant g = p))"
proof (induction gs arbitrary: G)
  case Nil
  then show ?case by simp
next
  case (Cons g gs)
  let ?d = "sha256_hex X (cg_credential g)"
  from Cons.prems have fresh: "G ?d = None" and rest: "insert_grants X (G(?d \<mapsto> stored_grant g)) gs = Inr G'"
    by (auto simp: grant_parts_Inr split: if_splits)
  from Cons.IH[OF rest] fresh show ?case by auto
qed

lemma index_grants_lookup:
  "index_grants X gs = Inr G \<Longrightarrow>
    G k = Some p \<longleftrightarrow> (\<exists>g\<in>set gs. sha256_hex X (cg_credential g) = k \<and> stored_grant g = p)"
  using insert_grants_lookup[of X Map.empty gs G k p] by (auto simp: index_grants_def split: if_splits)

lemma authenticate_Inr:
  "authenticate X G c now_ms = Inr p \<longleftrightarrow>
    (\<exists>g. G (sha256_hex X c) = Some (stored_grant g) \<and> live_grant now_ms g \<and> p = principal_of g)"
proof
  assume "authenticate X G c now_ms = Inr p"
  then obtain s where s: "G (sha256_hex X c) = Some s" "\<not> (case pg_expires_at_ms s of None \<Rightarrow> False | Some t \<Rightarrow> now_ms \<ge> t)"
    "p = \<lparr>ap_principal_id = pg_principal_id s, ap_agent_ids = pg_agent_ids s\<rparr>"
    by (auto simp: authenticate_def split: option.splits if_splits)
  let ?g = "\<lparr>cg_credential = c, cg_principal_id = pg_principal_id s, cg_agent_ids = pg_agent_ids s,
    cg_expires_at_ms = pg_expires_at_ms s\<rparr>"
  have "stored_grant ?g = s" by (simp add: stored_grant_def)
  with s show "\<exists>g. G (sha256_hex X c) = Some (stored_grant g) \<and> live_grant now_ms g \<and> p = principal_of g"
    by (intro exI[of _ ?g]) (auto simp: live_grant_def principal_of_def split: option.splits)
next
  assume "\<exists>g. G (sha256_hex X c) = Some (stored_grant g) \<and> live_grant now_ms g \<and> p = principal_of g"
  then show "authenticate X G c now_ms = Inr p"
    by (auto simp: authenticate_def stored_grant_def live_grant_def principal_of_def split: option.splits)
qed

lemma same_stored: "stored_grant g = stored_grant h \<Longrightarrow> principal_of g = principal_of h \<and> live_grant t g = live_grant t h"
  by (simp add: stored_grant_def principal_of_def live_grant_def)

text \<open>
  C38. A bearer credential authenticates exactly whom it was granted to: over the grants a
  verifier was built from, a credential yields a principal iff some grant has its digest, has not
  expired, and names that principal and its agents; once revoked, the credential yields nothing,
  and every credential with another digest yields what it did.
\<close>

theorem credentials_authenticate:
  assumes "index_grants X gs = Inr G"
  shows "(authenticate X G c now_ms = Inr p \<longleftrightarrow>
      (\<exists>g\<in>set gs. sha256_hex X (cg_credential g) = sha256_hex X c \<and> live_grant now_ms g \<and> principal_of g = p))
    \<and> authenticate X (snd (revoke_grant X G c)) c now_ms = Inl authentication_failed
    \<and> (sha256_hex X other = sha256_hex X c
        \<or> authenticate X (snd (revoke_grant X G c)) other now_ms = authenticate X G other now_ms)"
proof (intro conjI)
  show "authenticate X G c now_ms = Inr p \<longleftrightarrow>
      (\<exists>g\<in>set gs. sha256_hex X (cg_credential g) = sha256_hex X c \<and> live_grant now_ms g \<and> principal_of g = p)"
    unfolding authenticate_Inr index_grants_lookup[OF assms] using same_stored by metis
qed (auto simp: authenticate_def revoke_grant_def Let_def)

section \<open>Windows of one principal\<close>

text \<open>The entry of a principal, its admitted times, the window and the limit, after a call at a time.\<close>

definition times_from :: "int \<Rightarrow> int list \<Rightarrow> nat" where
  "times_from t T = length (filter (\<lambda>a. t \<le> a) T)"

definition times_in :: "int \<Rightarrow> int \<Rightarrow> int list \<Rightarrow> nat" where
  "times_in t u T = length (filter (\<lambda>a. t \<le> a \<and> a < u) T)"

lemmas times_defs = times_from_def times_in_def

lemma times_add [simp]:
  "times_from t (T @ [a]) = times_from t T + (if t \<le> a then 1 else 0)"
  "times_in t u (T @ [a]) = times_in t u T + (if t \<le> a \<and> a < u then 1 else 0)"
  by (simp_all add: times_defs)

lemma times_in_from: "times_in t u T \<le> times_from t T"
  unfolding times_defs by (induction T) auto

lemma times_from_mono: "s \<le> t \<Longrightarrow> times_from t T \<le> times_from s T"
  unfolding times_defs by (induction T) auto

lemma times_split: "t \<le> s \<Longrightarrow> times_in t u T \<le> times_in t s T + times_from s T"
  unfolding times_defs by (induction T) auto

lemma times_from_none: "(\<And>a. a \<in> set T \<Longrightarrow> a < t) \<Longrightarrow> times_from t T = 0"
  by (fastforce simp: times_defs filter_empty_conv)

definition window_ok :: "int \<Rightarrow> nat \<Rightarrow> (int \<times> nat) option \<Rightarrow> int \<Rightarrow> int list \<Rightarrow> bool" where
  "window_ok w n e now T \<longleftrightarrow> (\<forall>t. times_in t (t + w) T < 2 * n) \<and>
     (case e of
        None \<Rightarrow> (\<forall>a\<in>set T. a < now) \<and> (\<forall>t. now - w < t \<longrightarrow> times_from t T < n)
      | Some (s, c) \<Rightarrow> s \<le> now \<and> now < s + w \<and> 0 < c \<and> c \<le> n \<and> (\<forall>a\<in>set T. a \<le> now)
          \<and> times_from s T \<le> c \<and> times_from (s + 1) T < c \<and> (\<forall>t. s - w < t \<longrightarrow> times_in t s T < n))"

definition expire :: "int \<Rightarrow> int \<Rightarrow> (int \<times> nat) option \<Rightarrow> (int \<times> nat) option" where
  "expire w now e = (case e of None \<Rightarrow> None | Some (s, c) \<Rightarrow> if now < s + w then Some (s, c) else None)"

lemma window_empty: "0 < n \<Longrightarrow> window_ok w n None now []"
  by (simp add: window_ok_def times_defs)

lemma window_expire:
  assumes ok: "window_ok w n e now T" and later: "now \<le> now'"
  shows "window_ok w n (expire w now' e) now' T"
proof (cases e)
  case None
  with ok later show ?thesis by (auto simp: window_ok_def expire_def)
next
  case (Some x)
  obtain s c where x: "x = (s, c)" by (cases x)
  with ok Some have e: "s \<le> now" "now < s + w" "c \<le> n" "\<forall>a\<in>set T. a \<le> now" "times_from (s + 1) T < c"
    by (simp_all add: window_ok_def)
  show ?thesis
  proof (cases "now' < s + w")
    case True
    with ok later Some x show ?thesis by (auto simp: window_ok_def expire_def)
  next
    case False
    have "times_from t T < n" if "now' - w < t" for t
      using times_from_mono[of "s + 1" t T] that False e(3,5) by linarith
    with ok False Some x e later show ?thesis by (auto simp: window_ok_def expire_def)
  qed
qed

text \<open>The first call of a window, and a later one.\<close>

lemma window_first:
  assumes ok: "window_ok w n None now T" and "0 < w" "0 < n"
  shows "window_ok w n (Some (now, 1)) now (T @ [now])"
proof -
  from ok have old: "\<And>a. a \<in> set T \<Longrightarrow> a < now" "\<And>t. now - w < t \<Longrightarrow> times_from t T < n"
    by (simp_all add: window_ok_def)
  have few: "times_in t u T < n" if "now - w < t" for t u
    using times_in_from[of t u T] old(2)[OF that] by linarith
  have "times_in t (t + w) (T @ [now]) < 2 * n" for t
    using ok few[of t "t + w"] assms(3) by (auto simp: window_ok_def)
  moreover have "times_from now T = 0" "times_from (now + 1) T = 0"
    using old(1) by (force intro!: times_from_none)+
  moreover have "\<forall>a\<in>set T. a \<le> now" using old(1) by (blast intro: less_imp_le)
  ultimately show ?thesis using few assms(2,3) by (simp add: window_ok_def)
qed

lemma window_admit:
  assumes ok: "window_ok w n (Some (s, c)) now T" and room: "c < n"
  shows "window_ok w n (Some (s, c + 1)) now (T @ [now])"
proof -
  from ok have e: "s \<le> now" "now < s + w" "times_from s T \<le> c" "times_from (s + 1) T < c"
    "\<forall>t. s - w < t \<longrightarrow> times_in t s T < n" "\<forall>t. times_in t (t + w) T < 2 * n"
    by (simp_all add: window_ok_def)
  have "times_in t (t + w) (T @ [now]) < 2 * n" for t
  proof (cases "t \<le> now \<and> now < t + w")
    case False
    then show ?thesis using e(6) by auto
  next
    case True
    have "times_in t (t + w) T + 1 < 2 * n"
    proof (cases "s \<le> t")
      case True
      then show ?thesis
        using times_in_from[of t "t + w" T] times_from_mono[of s t T] e(3) room by linarith
    next
      case False
      have "times_in t s T < n" using e(1,5) True by simp
      moreover have "times_in t (t + w) T \<le> times_in t s T + times_from s T" using False by (intro times_split) simp
      ultimately show ?thesis using e(3) room by linarith
    qed
    with True show ?thesis by simp
  qed
  with ok room e show ?thesis by (auto simp: window_ok_def)
qed

section \<open>The limiter\<close>

definition times_of :: "utf8 \<Rightarrow> (utf8 \<times> int) list \<Rightarrow> int list" where
  "times_of p A = map snd (filter (\<lambda>x. fst x = p) A)"

definition entry_of :: "rate_limiter \<Rightarrow> utf8 \<Rightarrow> (int \<times> nat) option" where
  "entry_of l p = map_option snd (row_by fst p (rl_principals l))"

text \<open>One call and a run of calls; the run keeps the admitted calls with their times, oldest first.\<close>

definition admit_call :: "utf8 \<times> int \<Rightarrow> rate_limiter \<times> (utf8 \<times> int) list \<Rightarrow> rate_limiter \<times> (utf8 \<times> int) list" where
  "admit_call c s = (let r = allow (fst s) (fst c) (snd c) in
     (snd r, if rd_allowed (fst r) then snd s @ [c] else snd s))"

definition limiter_run :: "rate_limiter \<Rightarrow> (utf8 \<times> int) list \<Rightarrow> rate_limiter \<times> (utf8 \<times> int) list" where
  "limiter_run l calls = fold admit_call calls (l, [])"

definition limiter_ok :: "int \<Rightarrow> rate_limiter \<times> (utf8 \<times> int) list \<Rightarrow> bool" where
  "limiter_ok now s \<longleftrightarrow> unique_by fst (rl_principals (fst s))
     \<and> length (rl_principals (fst s)) \<le> rl_max_principals (fst s)
     \<and> (\<forall>p. window_ok (rl_window_ms (fst s)) (rl_limit (fst s)) (entry_of (fst s) p) now (times_of p (snd s)))"

lemma row_by_filter:
  "unique_by key rows \<Longrightarrow> row_by key k (filter P rows)
    = (case row_by key k rows of None \<Rightarrow> None | Some r \<Rightarrow> if P r then Some r else None)"
proof (induction rows)
  case (Cons r rows)
  have "row_by key (key r) (filter P rows) = None" if "key r \<notin> key ` set rows"
    using that by (auto simp: row_by_None)
  with Cons show ?case by (auto simp: unique_by_def)
qed simp

lemma unique_by_filter: "unique_by key rows \<Longrightarrow> unique_by key (filter P rows)"
  by (simp add: unique_by_def distinct_map_filter)

lemma saturating_sub_less: "s \<le> now \<Longrightarrow> w < 2 ^ 63 \<Longrightarrow> saturating_sub now s < w \<longleftrightarrow> now < s + w"
  by (auto simp: saturating_sub_def)

lemma times_of_add [simp]: "times_of p (A @ [(q, t)]) = times_of p A @ (if q = p then [t] else [])"
  by (simp add: times_of_def)

lemma retained_entry:
  assumes ok: "limiter_ok now (l, A)" and later: "now \<le> now'" and w: "rl_window_ms l < 2 ^ 63"
  shows "map_option snd (row_by fst p (retained l now')) = expire (rl_window_ms l) now' (entry_of l p)"
proof (cases "row_by fst p (rl_principals l)")
  case None
  with ok show ?thesis by (simp add: retained_def row_by_filter limiter_ok_def entry_of_def expire_def)
next
  case (Some x)
  obtain s c where x: "snd x = (s, c)" by (cases "snd x")
  from ok have "window_ok (rl_window_ms l) (rl_limit l) (entry_of l p) now (times_of p A)"
    by (simp add: limiter_ok_def)
  with Some x have "s \<le> now" by (simp add: window_ok_def entry_of_def)
  with ok later w Some x show ?thesis
    by (simp add: retained_def row_by_filter limiter_ok_def entry_of_def expire_def saturating_sub_less)
qed

lemma allow_ok:
  assumes ok: "limiter_ok now (l, A)" and later: "now \<le> now'" and w: "0 < rl_window_ms l" "rl_window_ms l < 2 ^ 63"
    and n: "0 < rl_limit l"
  shows "limiter_ok now' (admit_call (p, now') (l, A))"
proof -
  let ?w = "rl_window_ms l" and ?n = "rl_limit l" and ?rows = "retained l now'"
  have rows: "unique_by fst ?rows" "length ?rows \<le> rl_max_principals l"
    using ok by (auto simp: retained_def limiter_ok_def unique_by_filter intro: le_trans[OF length_filter_le])
  have kept: "window_ok ?w ?n (map_option snd (row_by fst q ?rows)) now' (times_of q A)" for q
    using ok window_expire[of ?w ?n _ now _ now'] later by (simp add: retained_entry[OF ok later w(2)] limiter_ok_def)
  show ?thesis
  proof (cases "row_by fst p ?rows = None \<and> rl_max_principals l \<le> length ?rows")
    case True
    with rows kept show ?thesis
      by (simp add: admit_call_def allow_def Let_def limiter_ok_def entry_of_def)
  next
    case False
    define e where "e = (case row_by fst p ?rows of None \<Rightarrow> (now', 0) | Some x \<Rightarrow> snd x)"
    obtain s c where e: "e = (s, c)" by (cases e)
    define row where "row = (p, s, if c < ?n then c + 1 else c)"
    have live: "\<not> ?w \<le> saturating_sub now' s"
      using kept[of p] e saturating_sub_less[of s now' ?w] w
      by (auto simp: window_ok_def e_def split: option.splits)
    have entry: "map_option snd (row_by fst q (upsert fst row ?rows))
        = (if q = p then Some (snd row) else map_option snd (row_by fst q ?rows))" for q
      by (simp add: row_by_upsert row_def)
    have run: "admit_call (p, now') (l, A)
        = (l\<lparr>rl_principals := upsert fst row ?rows\<rparr>, if c < ?n then A @ [(p, now')] else A)"
      unfolding admit_call_def allow_def Let_def fst_conv snd_conv if_not_P[OF False] e_def[symmetric]
      using live e by (simp add: row_def)
    have new: "window_ok ?w ?n (Some (snd row)) now' (times_of p (if c < ?n then A @ [(p, now')] else A))"
    proof (cases "row_by fst p ?rows")
      case None
      with e kept[of p] show ?thesis
        using window_first[of ?w ?n now' "times_of p A"] w n by (simp add: row_def e_def)
    next
      case (Some x)
      with e kept[of p] show ?thesis
        using window_admit[of ?w ?n s c now' "times_of p A"] by (auto simp: row_def e_def)
    qed
    have size: "length (upsert fst row ?rows) \<le> rl_max_principals l"
      using False rows(2) by (auto simp: upsert_def row_def)
    with kept run new show ?thesis
      using unique_by_upsert[OF rows(1)] by (cases "c < ?n") (simp_all add: limiter_ok_def entry_of_def entry)
  qed
qed

lemma admit_call_config:
  "rl_window_ms (fst (admit_call c s)) = rl_window_ms (fst s) \<and> rl_limit (fst (admit_call c s)) = rl_limit (fst s)
    \<and> rl_max_principals (fst (admit_call c s)) = rl_max_principals (fst s)"
  by (simp add: admit_call_def allow_def Let_def)

lemma run_ok:
  assumes "limiter_ok now s" and "0 < rl_window_ms (fst s)" "rl_window_ms (fst s) < 2 ^ 63" and "0 < rl_limit (fst s)"
    and "sorted (map snd calls)" and "\<forall>c\<in>set calls. now \<le> snd c"
  shows "\<exists>now'. limiter_ok now' (fold admit_call calls s)
    \<and> rl_window_ms (fst (fold admit_call calls s)) = rl_window_ms (fst s)
    \<and> rl_limit (fst (fold admit_call calls s)) = rl_limit (fst s)
    \<and> rl_max_principals (fst (fold admit_call calls s)) = rl_max_principals (fst s)"
  using assms
proof (induction calls arbitrary: s now)
  case Nil
  then show ?case by auto
next
  case (Cons c calls)
  have "limiter_ok (snd c) (admit_call c s)"
    using allow_ok[of now "fst s" "snd s" "snd c" "fst c"] Cons.prems by simp
  from Cons.IH[OF this] Cons.prems admit_call_config[of c s] show ?case by simp
qed

text \<open>
  C10. The limiter bounds what a principal gets: for calls in order of time, any interval as
  long as the window has fewer than twice the limit of admitted calls of one principal (a window
  is fixed from its first call, so an interval can meet two of them, and then misses the first
  call of the older), and the limiter never tracks more principals than it was allowed to.
\<close>

theorem rate_limit_bounds:
  assumes "0 < window_ms" "window_ms < 2 ^ 63" "0 < limit" and "sorted (map snd calls)"
  shows "times_in t (t + window_ms) (times_of p (snd (limiter_run (new_limiter limit window_ms capacity) calls)))
      < 2 * limit
    \<and> length (rl_principals (fst (limiter_run (new_limiter limit window_ms capacity) calls))) \<le> capacity"
proof -
  let ?l = "new_limiter limit window_ms capacity"
  let ?now = "if calls = [] then 0 else snd (hd calls)"
  have "limiter_ok ?now (?l, [])"
    using assms(3) by (simp add: limiter_ok_def new_limiter_def unique_by_def entry_of_def times_of_def window_empty)
  moreover have "\<forall>c\<in>set calls. ?now \<le> snd c" using assms(4) by (cases calls) auto
  ultimately obtain now' where "limiter_ok now' (limiter_run ?l calls)"
    "rl_window_ms (fst (limiter_run ?l calls)) = window_ms" "rl_limit (fst (limiter_run ?l calls)) = limit"
    "rl_max_principals (fst (limiter_run ?l calls)) = capacity"
    using run_ok[of ?now "(?l, [])" calls] assms by (auto simp: limiter_run_def new_limiter_def)
  then show ?thesis by (auto simp: limiter_ok_def window_ok_def)
qed

text \<open>The bound is met: with a limit of two in a window of ten, three calls pass from 9 to 18.\<close>

definition sample_calls :: "(utf8 \<times> int) list" where
  "sample_calls = [(''p'', 0), (''p'', 9), (''p'', 9), (''q'', 9), (''p'', 10), (''p'', 11), (''p'', 12)]"

theorem rate_limit_bounds_witness:
  "times_in 9 (9 + 10) (times_of ''p'' (snd (limiter_run (new_limiter 2 10 1) sample_calls))) < 2 * 2
   \<and> times_in 9 (9 + 10) (times_of ''p'' (snd (limiter_run (new_limiter 2 10 1) sample_calls))) = 3
   \<and> length (rl_principals (fst (limiter_run (new_limiter 2 10 1) sample_calls))) \<le> 1"
proof -
  have "sorted (map snd sample_calls)" by (simp add: sample_calls_def)
  moreover have "times_in 9 (9 + 10) (times_of ''p'' (snd (limiter_run (new_limiter 2 10 1) sample_calls))) = 3"
    by code_simp
  ultimately show ?thesis using rate_limit_bounds[of 10 2 sample_calls 9 "''p''" 1] by simp
qed

text \<open>A verifier with two grants, one of which expires.\<close>

definition sample_grants :: "credential_grant list" where
  "sample_grants = [\<lparr>cg_credential = ''k'', cg_principal_id = ''p'', cg_agent_ids = [''a''], cg_expires_at_ms = Some 9\<rparr>,
     \<lparr>cg_credential = ''m'', cg_principal_id = ''q'', cg_agent_ids = [''b''], cg_expires_at_ms = None\<rparr>]"

definition sample_verifier :: "externals \<Rightarrow> grants" where
  "sample_verifier X = (case index_grants X sample_grants of Inl e \<Rightarrow> Map.empty | Inr G \<Rightarrow> G)"

definition plain_externals :: externals where
  "plain_externals = \<lparr>json_str = (\<lambda>s. s), sha256_hex = (\<lambda>s. s), json_parse = (\<lambda>s. Inl s), debug_str = (\<lambda>s. s)\<rparr>"

theorem credentials_authenticate_witness:
  "(authenticate plain_externals (sample_verifier plain_externals) ''k'' 8 = Inr \<lparr>ap_principal_id = ''p'', ap_agent_ids = [''a'']\<rparr>
    \<longleftrightarrow> (\<exists>g\<in>set sample_grants. sha256_hex plain_externals (cg_credential g) = sha256_hex plain_externals ''k''
        \<and> live_grant 8 g \<and> principal_of g = \<lparr>ap_principal_id = ''p'', ap_agent_ids = [''a'']\<rparr>))
   \<and> authenticate plain_externals (snd (revoke_grant plain_externals (sample_verifier plain_externals) ''k'')) ''k'' 8
      = Inl authentication_failed"
proof -
  have "index_grants plain_externals sample_grants = Inr (sample_verifier plain_externals)"
    by (simp add: sample_verifier_def index_grants_def sample_grants_def grant_parts_def validate_grant_def
        plain_externals_def white1_def white2_def)
  from credentials_authenticate[OF this, of "''k''" 8 "\<lparr>ap_principal_id = ''p'', ap_agent_ids = [''a'']\<rparr>" "''k''"]
  show ?thesis by blast
qed

end
