(* ===== verification/Http_Safety.thy ===== *)
theory Http_Safety
  imports Http_Transport Http_Bounds
begin

text \<open>
  What the HTTP transport guarantees for any requests it is sent: who reaches the core, what a
  request leaves behind, how large a response is, and what a panic of the core costs.
\<close>

section \<open>A run of requests\<close>

fun serve_all ::
  "http_codec \<Rightarrow> verifier \<Rightarrow> 'c dispatcher \<Rightarrow> (http_env \<times> http_request) list \<Rightarrow> http_state \<Rightarrow> 'c \<Rightarrow>
    http_response option list \<times> http_state \<times> 'c"
where
  "serve_all C V D [] s core = ([], s, core)"
| "serve_all C V D ((E, req) # rest) s core =
     (let (r, s, core) = serve_request C V D E req s core; (rs, s, core) = serve_all C V D rest s core in
      (r # rs, s, core))"

section \<open>What a stage keeps\<close>

definition rings_ok :: "http_metrics \<Rightarrow> bool" where
  "rings_ok m \<longleftrightarrow> length (hm_recent_requests m) \<le> http_diagnostic_capacity
     \<and> length (hm_recent_diagnostics m) \<le> http_diagnostic_capacity"

definition keeps :: "http_state \<Rightarrow> http_state \<Rightarrow> bool" where
  "keeps s s' \<longleftrightarrow> hs_sessions s' = hs_sessions s \<and> hs_max_response_bytes s' = hs_max_response_bytes s
     \<and> hs_max_body_bytes s' = hs_max_body_bytes s
     \<and> hm_active_requests (hs_metrics s') = hm_active_requests (hs_metrics s)
     \<and> (rings_ok (hs_metrics s') \<or> \<not> rings_ok (hs_metrics s))"

definition refusal_ok :: "http_state \<Rightarrow> http_response \<Rightarrow> bool" where
  "refusal_ok s r \<longleftrightarrow> 400 \<le> hp_status r
     \<and> (length (hp_body r) \<le> hs_max_response_bytes s \<or> hs_max_response_bytes s < min_http_max_response_bytes)"

definition stage_ok :: "http_state \<Rightarrow> 'a stage \<Rightarrow> bool" where
  "stage_ok s m \<longleftrightarrow> keeps s (snd m) \<and> (case fst m of Inl r \<Rightarrow> refusal_ok s r | Inr _ \<Rightarrow> True)"

lemma keeps_refl [simp]: "keeps s s"
  by (simp add: keeps_def)

lemma keeps_trans: "keeps s t \<Longrightarrow> keeps t u \<Longrightarrow> keeps s u"
  by (auto simp: keeps_def)

lemma refusal_keeps: "keeps s t \<Longrightarrow> refusal_ok t r \<Longrightarrow> refusal_ok s r"
  by (simp add: keeps_def refusal_ok_def)

lemma then_on_stage:
  assumes "stage_ok s m" and "\<And>x t. m = (Inr x, t) \<Longrightarrow> stage_ok t (k x t)"
  shows "stage_ok s (then_on m k)"
proof (cases m)
  case (Pair x t)
  show ?thesis
  proof (cases x)
    case (Inl r)
    with Pair assms(1) show ?thesis by (simp add: stage_ok_def)
  next
    case (Inr y)
    with Pair assms have "keeps s t" "stage_ok t (k y t)" by (simp_all add: stage_ok_def)
    with Pair Inr show ?thesis
      by (auto simp: stage_ok_def intro: keeps_trans refusal_keeps split: sum.splits)
  qed
qed

lemma push_recent_size: "length xs \<le> http_diagnostic_capacity \<Longrightarrow> length (push_recent x xs) \<le> http_diagnostic_capacity"
  by (auto simp: push_recent_def http_diagnostic_capacity_def)

lemma metric_updates [simp]:
  "hm_active_requests (mark_error m) = hm_active_requests m" "rings_ok (mark_error m) = rings_ok m"
  "hm_active_requests (bump_auth m) = hm_active_requests m" "rings_ok (bump_auth m) = rings_ok m"
  "hm_active_requests (bump_authorization m) = hm_active_requests m" "rings_ok (bump_authorization m) = rings_ok m"
  "hm_active_requests (bump_rate m) = hm_active_requests m" "rings_ok (bump_rate m) = rings_ok m"
  "hm_active_requests (bump_payload m) = hm_active_requests m" "rings_ok (bump_payload m) = rings_ok m"
  "hm_active_requests (rate_limiter_size d m) = hm_active_requests m" "rings_ok (rate_limiter_size d m) = rings_ok m"
  "hm_active_requests (record_diagnostic x m) = hm_active_requests m"
  "hm_active_requests (record_request y m) = hm_active_requests m"
  by (simp_all add: mark_error_def bump_auth_def bump_authorization_def bump_rate_def bump_payload_def
      rate_limiter_size_def record_diagnostic_def record_request_def rings_ok_def Let_def)

lemma rings_record [intro]:
  "rings_ok m \<Longrightarrow> rings_ok (record_diagnostic x m)" "rings_ok m \<Longrightarrow> rings_ok (record_request y m)"
  by (simp_all add: rings_ok_def record_diagnostic_def record_request_def push_recent_size)

lemma respond_json_ok:
  "400 \<le> status \<Longrightarrow> refusal_ok s (respond_json C (hs_max_response_bytes s) status x)"
  by (auto simp: refusal_ok_def respond_json_def min_http_max_response_bytes_def Let_def)

lemma refusals_ok [simp]:
  "refusal_ok s (respond_remote_error C s e)"
  "400 \<le> status \<Longrightarrow> refusal_ok s (respond_transport_error C s status code message)"
  "refusal_ok s (respond_protocol C s (invalid_envelope i))"
  unfolding respond_remote_error_def respond_transport_error_def respond_protocol_def
  by (auto intro!: respond_json_ok simp: remote_error_status_def protocol_http_status_def invalid_envelope_def
      failure_response_def validation_failure_def failure_def split: remote_access_error_code.split)

lemma refuse_ok:
  assumes "refusal_ok s r" and "\<And>m. hm_active_requests (bump m) = hm_active_requests m"
    and "\<And>m. rings_ok (bump m) = rings_ok m"
  shows "stage_ok s (refuse C s event bump r)"
proof -
  have "rings_ok (record_diagnostic event (bump (mark_error (hs_metrics s)))) \<or> \<not> rings_ok (hs_metrics s)"
    using assms(3)[of "mark_error (hs_metrics s)"] by auto
  with assms(1,2) show ?thesis by (simp add: stage_ok_def refuse_def keeps_def on_metrics_def)
qed

lemma pass_ok [simp]: "stage_ok s (Inr x, s)"
  by (simp add: stage_ok_def)

section \<open>Every stage\<close>

lemma endpoint_ok: "stage_ok s (check_endpoint C E req s)"
  by (auto simp: check_endpoint_def Let_def intro!: refuse_ok)

lemma identify_ok: "stage_ok s (identify C V E req s)"
  by (auto simp: identify_def intro!: refuse_ok split: sum.split)

lemma too_large_ok: "stage_ok s (too_large C E p s)"
  by (auto simp: too_large_def intro!: refuse_ok)

lemma length_ok: "stage_ok s (check_length C E req p s)"
  by (auto simp: check_length_def too_large_ok split: option.split)

lemma stage_after: "keeps s t \<Longrightarrow> stage_ok t m \<Longrightarrow> stage_ok s m"
  by (auto simp: stage_ok_def intro: keeps_trans refusal_keeps split: sum.splits)

lemma limit_rate_ok: "stage_ok s (limit_rate C E p s)"
proof -
  obtain d l where run: "(if hs_limiter_poisoned s
         then (\<lparr>rd_allowed = False, rd_tracked_principals = 0, rd_capacity_rejected = False\<rparr>, hs_limiter s)
         else allow (hs_limiter s) (ap_principal_id p) (en_authentication_ms E)) = (d, l)"
    by (meson surj_pair)
  let ?t = "on_metrics (rate_limiter_size d) (s\<lparr>hs_limiter := l\<rparr>)"
  have "keeps s ?t" by (simp add: keeps_def on_metrics_def)
  then show ?thesis
    unfolding limit_rate_def run Let_def prod.case
    by (auto intro!: stage_after[of s ?t] refuse_ok)
qed

lemma body_ok: "stage_ok s (read_body C E req p s)"
  by (auto simp: read_body_def Let_def too_large_ok intro!: refuse_ok split: option.split)

lemma envelope_ok: "stage_ok s (read_envelope C E p body s)"
  by (auto simp: read_envelope_def Let_def intro!: refuse_ok split: option.split)

lemma session_gone:
  assumes "bind_authenticated S p i now_ms ttl = (Inr v, S')"
  shows "snd (disconnect (snd (authorize S' i q now_ms)) i) = S"
proof (rule ext)
  fix k
  from bind_Inr[OF assms] have S: "S i = None" "S' = S(i \<mapsto> \<lparr>bs_view = v, bs_agent_ids = set (ap_agent_ids p)\<rparr>)"
    by simp_all
  with authorize_others[of S' i q now_ms]
  show "snd (disconnect (snd (authorize S' i q now_ms)) i) k = S k" by (auto simp: disconnect_def)
qed

lemma authorize_ok: "stage_ok s (authorize_request C E p q s)"
proof -
  let ?i = "session_name E (hs_next_session s)" and ?t = "s\<lparr>hs_next_session := hs_next_session s + 1\<rparr>"
  have t: "keeps s ?t" by (simp add: keeps_def)
  obtain res S' where bind: "bind_authenticated (hs_sessions s) p ?i (en_now_ms E) (hs_session_ttl_ms s) = (res, S')"
    by (meson surj_pair)
  obtain out S'' where auth: "authorize S' ?i q (en_now_ms E) = (out, S'')" by (meson surj_pair)
  show ?thesis
  proof (cases "hs_sessions_poisoned s")
    case True
    then show ?thesis
      using t by (auto simp: authorize_request_def Let_def intro!: stage_after[of s ?t] refuse_ok)
  next
    case False
    show ?thesis
    proof (cases res)
      case (Inl e)
      have "keeps s (on_metrics (\<lambda>m. bump_authorization (mark_error m)) ?t)"
        by (simp add: keeps_def on_metrics_def)
      moreover have "refusal_ok s (respond_remote_error C ?t e)"
        using refusal_keeps[OF t refusals_ok(1)] .
      ultimately show ?thesis using False bind Inl by (simp add: authorize_request_def Let_def stage_ok_def)
    next
      case (Inr v)
      let ?u = "?t\<lparr>hs_sessions := snd (disconnect S'' ?i)\<rparr>"
      have "snd (disconnect S'' ?i) = hs_sessions s"
        using session_gone[of "hs_sessions s" p ?i "en_now_ms E" _ v S' q] bind Inr auth by simp
      then have "keeps s ?u" by (simp add: keeps_def)
      then show ?thesis
        using False bind Inr auth
        by (auto simp: authorize_request_def Let_def intro!: stage_after[of s ?u] refuse_ok split: sum.split)
    qed
  qed
qed

lemma admitted_ok: "stage_ok s (admitted_request C V E req s)"
  unfolding admitted_request_def
  by (intro then_on_stage endpoint_ok identify_ok length_ok limit_rate_ok body_ok envelope_ok authorize_ok pass_ok)

section \<open>What a request leaves\<close>

lemma drop_started: "hm_active_requests (request_dropped m) = hm_active_requests m - 1"
  "rings_ok (request_dropped m) = rings_ok m" "hm_active_requests (request_started m) = hm_active_requests m + 1"
  "rings_ok (request_started m) = rings_ok m"
  by (simp_all add: request_dropped_def request_started_def rings_ok_def Let_def)

text \<open>\<open>settled s s'\<close>: the request is over, and nothing but counters, rings and the limiter moved.\<close>

lemma admitted_settles:
  assumes "admitted_request C V E req (on_metrics request_started s) = (x, t)"
    and "\<And>m. hm_active_requests (f m) = hm_active_requests m" "\<And>m. rings_ok m \<Longrightarrow> rings_ok (f m)"
  shows "keeps s (on_metrics (\<lambda>m. request_dropped (f m)) t)"
proof -
  have "keeps (on_metrics request_started s) t"
    using admitted_ok[of "on_metrics request_started s" C V E req] assms(1) by (simp add: stage_ok_def)
  then show ?thesis using assms(2,3) by (auto simp: keeps_def on_metrics_def drop_started)
qed

lemma record_answer_keeps:
  "hm_active_requests (record_answer E q i x m) = hm_active_requests m" "rings_ok m \<Longrightarrow> rings_ok (record_answer E q i x m)"
  by (auto simp: record_answer_def Let_def intro!: rings_record)

lemma respond_json_size:
  "min_http_max_response_bytes \<le> n \<Longrightarrow> length (hp_body (respond_json C n status x)) \<le> n"
  by (auto simp: respond_json_def min_http_max_response_bytes_def Let_def)

lemma handled_keeps:
  assumes "handle_request C V D E req s core = (r, s', core')"
  shows "keeps s s' \<and> (case r of None \<Rightarrow> True | Some x \<Rightarrow>
    length (hp_body x) \<le> hs_max_response_bytes s \<or> hs_max_response_bytes s < min_http_max_response_bytes)"
proof -
  obtain a t where run: "admitted_request C V E req (on_metrics request_started s) = (a, t)" by (meson surj_pair)
  note stage = admitted_ok[of "on_metrics request_started s" C V E req, unfolded run stage_ok_def fst_conv snd_conv]
  have max: "hs_max_response_bytes t = hs_max_response_bytes s"
    using stage by (simp add: keeps_def on_metrics_def)
  note settles = admitted_settles[OF run]
  show ?thesis
  proof (cases a)
    case (Inl x)
    with assms run settles[of "\<lambda>m. m"] stage show ?thesis
      by (auto simp: handle_request_def refusal_ok_def on_metrics_def)
  next
    case (Inr pq)
    obtain p q where pq: "pq = (p, q)" by (cases pq)
    obtain out c where out: "D q (en_now_ms E) core = (out, c)" by (meson surj_pair)
    show ?thesis
    proof (cases out)
      case (Answered x)
      with assms run Inr pq out settles[of "record_answer E q (ap_principal_id p) x"] respond_json_size max
      show ?thesis by (auto simp: handle_request_def record_answer_keeps respond_protocol_def)
    next
      case DispatchError
      let ?f = "\<lambda>m. record_diagnostic (request_event E CoreDown (Some 503) q (ap_principal_id p)) (mark_error m)"
      have "keeps s (on_metrics (\<lambda>m. request_dropped (?f m)) t)" by (rule settles) (auto intro!: rings_record)
      with assms run Inr pq out DispatchError respond_json_size max
      show ?thesis by (auto simp: handle_request_def respond_remote_error_def)
    next
      case Panicked
      with assms run Inr pq out settles[of "\<lambda>m. m"] show ?thesis by (auto simp: handle_request_def)
    qed
  qed
qed

lemma served_keeps:
  assumes "serve_request C V D E req s core = (r, s', core')"
  shows "keeps s s' \<and> (case r of None \<Rightarrow> True | Some x \<Rightarrow>
    length (hp_body x) \<le> hs_max_response_bytes s \<or> hs_max_response_bytes s < min_http_max_response_bytes)"
proof -
  obtain r1 s1 c1 where run: "handle_request C V D E req s core = (r1, s1, c1)" by (rule prod_cases3)
  note before = handled_keeps[OF run]
  show ?thesis
  proof (cases r1)
    case None
    have "keeps s1 (on_metrics (\<lambda>m. record_diagnostic panic_event
        (m\<lparr>hm_error_responses := hm_error_responses m + 1, hm_handler_panics := hm_handler_panics m + 1\<rparr>)) s1)"
      by (auto simp: keeps_def on_metrics_def rings_ok_def record_diagnostic_def push_recent_size)
    with None assms run before show ?thesis by (auto simp: serve_request_def intro: keeps_trans)
  next
    case (Some x)
    with assms run before show ?thesis by (simp add: serve_request_def)
  qed
qed

lemma served_all_keeps:
  "serve_all C V D reqs s core = (rs, s', core') \<Longrightarrow> keeps s s' \<and> (\<forall>x. Some x \<in> set rs \<longrightarrow>
    length (hp_body x) \<le> hs_max_response_bytes s \<or> hs_max_response_bytes s < min_http_max_response_bytes)"
proof (induction reqs arbitrary: s s' core core' rs)
  case Nil
  then show ?case by simp
next
  case (Cons er reqs)
  obtain E req where er: "er = (E, req)" by (cases er)
  obtain r s1 c1 where one: "serve_request C V D E req s core = (r, s1, c1)" by (rule prod_cases3)
  obtain rs1 s2 c2 where rest: "serve_all C V D reqs s1 c1 = (rs1, s2, c2)" by (rule prod_cases3)
  from Cons.prems er one rest have out: "rs = r # rs1" "s2 = s'" by simp_all
  from Cons.IH[OF rest] served_keeps[OF one] out show ?case
    by (auto simp: keeps_def split: option.splits)
qed

lemma started:
  assumes "start_server c = Inr s"
  shows "min_http_max_response_bytes \<le> hs_max_response_bytes s" "hs_max_response_bytes s = hc_max_response_bytes c"
    "hs_sessions s = Map.empty" "hm_active_requests (hs_metrics s) = 0" "rings_ok (hs_metrics s)"
  using assms by (auto simp: start_server_def validate_config_def new_metrics_def rings_ok_def split: if_splits)

text \<open>
  C19. A server stays within its bounds: started on a configuration it accepts, after any
  requests, whatever verifier, dispatcher, clock and JSON library it runs on and even when
  handlers panic, no response is larger than the configured limit, no session is left behind, no
  request is counted as active, and the two rings of the diagnostics hold at most 64 entries.
\<close>

theorem server_bounds:
  assumes "start_server c = Inr s" and "serve_all C V D reqs s core = (rs, s', core')"
  shows "list_all (\<lambda>r. case r of None \<Rightarrow> True | Some x \<Rightarrow> length (hp_body x) \<le> hc_max_response_bytes c) rs
    \<and> hs_sessions s' = Map.empty \<and> hm_active_requests (hs_metrics s') = 0
    \<and> length (hm_recent_requests (hs_metrics s')) \<le> 64 \<and> length (hm_recent_diagnostics (hs_metrics s')) \<le> 64"
  using started[OF assms(1)] served_all_keeps[OF assms(2)]
  by (auto simp: keeps_def rings_ok_def http_diagnostic_capacity_def list_all_iff split: option.split)

section \<open>Who reaches the core\<close>

lemma endpoint_pass: "check_endpoint C E req s = (Inr u, t) \<Longrightarrow>
    t = s \<and> ht_url req = http_protocol_path \<and> ht_method req = Post \<and> has_json_content_type req"
  by (auto simp: check_endpoint_def refuse_def Let_def split: if_splits)

lemma identify_pass: "identify C V E req s = (Inr p, t) \<Longrightarrow>
    t = s \<and> (\<exists>c. bearer_credential req = Inr c \<and> V c (en_authentication_ms E) = Inr p)"
  by (cases "bearer_credential req") (auto simp: identify_def refuse_def split: sum.splits)

lemma length_pass: "check_length C E req p s = (Inr u, t) \<Longrightarrow> t = s"
  by (auto simp: check_length_def too_large_def refuse_def split: option.splits if_splits)

lemma rate_pass: "limit_rate C E p s = (Inr u, t) \<Longrightarrow>
    rd_allowed (fst (allow (hs_limiter s) (ap_principal_id p) (en_authentication_ms E)))
    \<and> hs_max_body_bytes t = hs_max_body_bytes s"
  by (auto simp: limit_rate_def refuse_def on_metrics_def Let_def split: if_splits prod.splits)

lemma body_pass: "read_body C E req p s = (Inr body, t) \<Longrightarrow>
    t = s \<and> length body \<le> hs_max_body_bytes s \<and> (\<exists>sent. ht_body req = Some sent \<and> prefix body sent)"
  by (auto simp: read_body_def too_large_def refuse_def Let_def take_is_prefix split: option.splits if_splits)

lemma envelope_pass: "read_envelope C E p body s = (Inr q, t) \<Longrightarrow> t = s \<and> co_request C body = Some q"
  by (auto simp: read_envelope_def refuse_def Let_def split: option.splits)

lemma authorize_pass:
  assumes "authorize_request C E p q s = (Inr q', t)"
  shows "q' = q \<and> covers (ap_agent_ids p) q"
proof -
  let ?i = "session_name E (hs_next_session s)"
  obtain res S' where bind: "bind_authenticated (hs_sessions s) p ?i (en_now_ms E) (hs_session_ttl_ms s) = (res, S')"
    by (meson surj_pair)
  obtain out S'' where auth: "authorize S' ?i q (en_now_ms E) = (out, S'')" by (meson surj_pair)
  from assms bind auth obtain v z where ok: "res = Inr v" "out = Inr z" "q' = az_request z"
    by (auto simp: authorize_request_def refuse_def Let_def split: if_splits sum.splits)
  from bind_Inr(5)[OF bind[unfolded ok(1)]] have "S' ?i = Some \<lparr>bs_view = v, bs_agent_ids = set (ap_agent_ids p)\<rparr>"
    by simp
  from authorize_Inr[OF auth[unfolded ok(2)] this] ok(3) show ?thesis by (auto simp: covers_def)
qed

definition admits :: "http_codec \<Rightarrow> verifier \<Rightarrow> http_env \<Rightarrow> http_request \<Rightarrow> http_state \<Rightarrow> authenticated_principal \<Rightarrow>
    protocol_request \<Rightarrow> bool" where
  "admits C V E req s p q \<longleftrightarrow> ht_url req = http_protocol_path \<and> ht_method req = Post
     \<and> has_json_content_type req
     \<and> (\<exists>c. bearer_credential req = Inr c \<and> V c (en_authentication_ms E) = Inr p)
     \<and> rd_allowed (fst (allow (hs_limiter s) (ap_principal_id p) (en_authentication_ms E)))
     \<and> (\<exists>body sent. ht_body req = Some sent \<and> prefix body sent \<and> length body \<le> hs_max_body_bytes s
          \<and> co_request C body = Some q)
     \<and> covers (ap_agent_ids p) q"

lemma then_on_Inr: "then_on m k = (Inr y, t) \<longleftrightarrow> (\<exists>x u. m = (Inr x, u) \<and> k x u = (Inr y, t))"
  by (cases m; cases "fst m") auto

lemma admitted_pass: "admitted_request C V E req s = (Inr (p, q), t) \<Longrightarrow> admits C V E req s p q"
  unfolding admitted_request_def then_on_Inr admits_def
  by (auto dest!: endpoint_pass identify_pass length_pass rate_pass body_pass envelope_pass authorize_pass)

lemma core_reached:
  "snd (snd (serve_request C V D E req s core)) = core
   \<or> (\<exists>p q. admits C V E req (on_metrics request_started s) p q
        \<and> snd (snd (serve_request C V D E req s core)) = snd (D q (en_now_ms E) core))"
proof -
  obtain a t where run: "admitted_request C V E req (on_metrics request_started s) = (a, t)" by (meson surj_pair)
  show ?thesis
  proof (cases a)
    case (Inl x)
    with run show ?thesis by (simp add: serve_request_def handle_request_def)
  next
    case (Inr pq)
    obtain p q where pq: "pq = (p, q)" by (cases pq)
    obtain out c where out: "D q (en_now_ms E) core = (out, c)" by (meson surj_pair)
    have "snd (snd (serve_request C V D E req s core)) = c"
      using run Inr pq out by (cases out) (simp_all add: serve_request_def handle_request_def)
    with admitted_pass run Inr pq out show ?thesis by fastforce
  qed
qed

text \<open>
  C2. The whole way in is guarded: with credential grants, the protocol and the store behind
  it, one HTTP request changes the store only if it is a POST of JSON to the protocol path, its
  one bearer credential has the digest of a grant that has not expired, the limiter lets the
  grant's principal through, the body is within the limit and is a request that the principal may
  send, and then: the call panicked in the core, which may leave anything, or the agent the
  request asserts is one of the grant's agents and either registers itself or is registered and
  holds in the store what the command asks for, the expected revisions included.
\<close>

theorem store_changes_only_for_granted:
  "pc_store (snd (snd (serve_request C (authenticate X G) (core_dispatch panics X H) E req s core))) = pc_store core
   \<or> (\<exists>credential g body sent q.
        ht_url req = ''/v1/protocol'' \<and> ht_method req = Post \<and> has_json_content_type req
        \<and> bearer_credential req = Inr credential \<and> G (sha256_hex X credential) = Some g
        \<and> (pg_expires_at_ms g = None \<or> (\<exists>t. pg_expires_at_ms g = Some t \<and> en_authentication_ms E < t))
        \<and> rd_allowed (fst (allow (hs_limiter s) (pg_principal_id g) (en_authentication_ms E)))
        \<and> ht_body req = Some sent \<and> prefix body sent \<and> length body \<le> hs_max_body_bytes s
        \<and> co_request C body = Some q \<and> covers (pg_agent_ids g) q \<and> \<not> pc_poisoned core
        \<and> (panics q (en_now_ms E) (pc_store core) \<noteq> None
           \<or> (\<exists>caller. pr_caller_agent_id q = Some caller \<and> caller \<in> set (pg_agent_ids g)
              \<and> ((\<exists>c. pr_call q = RegisterAgent c \<and> pra_agent_id c = caller)
                 \<or> (agent_identity_by (st_redactor (pc_store core)) (st_db (pc_store core)) caller \<noteq> None
                    \<and> permitted X (st_redactor (pc_store core)) (st_db (pc_store core)) caller (en_now_ms E)
                        (pr_operation_id q) (pr_call q))))))"
proof (cases "pc_store (snd (snd (serve_request C (authenticate X G) (core_dispatch panics X H) E req s core)))
    = pc_store core")
  case False
  let ?D = "core_dispatch panics X H" and ?st = "pc_store core"
  from False core_reached[of C "authenticate X G" ?D E req s core] obtain p q where
    adm: "admits C (authenticate X G) E req (on_metrics request_started s) p q"
    and reach: "pc_store (snd (?D q (en_now_ms E) core)) \<noteq> ?st" by fastforce
  from reach have alive: "\<not> pc_poisoned core" by (auto simp: core_dispatch_def)
  from adm obtain c where c: "bearer_credential req = Inr c" "authenticate X G c (en_authentication_ms E) = Inr p"
    by (auto simp: admits_def)
  then obtain g where g: "G (sha256_hex X c) = Some g" "p = \<lparr>ap_principal_id = pg_principal_id g, ap_agent_ids = pg_agent_ids g\<rparr>"
    "pg_expires_at_ms g = None \<or> (\<exists>t. pg_expires_at_ms g = Some t \<and> en_authentication_ms E < t)"
    by (auto simp: authenticate_def split: option.splits if_splits)
  from adm obtain body sent where body: "ht_body req = Some sent" "prefix body sent"
    "length body \<le> hs_max_body_bytes s" "co_request C body = Some q" by (auto simp: admits_def on_metrics_def)
  have head: "ht_url req = ''/v1/protocol''" "ht_method req = Post" "has_json_content_type req"
    "rd_allowed (fst (allow (hs_limiter s) (pg_principal_id g) (en_authentication_ms E)))"
    using adm g(2) by (simp_all add: admits_def http_protocol_path_def on_metrics_def)
  have cov: "covers (pg_agent_ids g) q" using adm g(2) by (simp add: admits_def)
  have right: "panics q (en_now_ms E) ?st \<noteq> None \<or> (\<exists>caller. pr_caller_agent_id q = Some caller
      \<and> caller \<in> set (pg_agent_ids g) \<and> ((\<exists>c. pr_call q = RegisterAgent c \<and> pra_agent_id c = caller)
        \<or> (agent_identity_by (st_redactor ?st) (st_db ?st) caller \<noteq> None
           \<and> permitted X (st_redactor ?st) (st_db ?st) caller (en_now_ms E) (pr_operation_id q) (pr_call q))))"
  proof (cases "panics q (en_now_ms E) ?st")
    case None
    with reach have "snd (handle_protocol X H q (en_now_ms E) ?st) \<noteq> ?st"
      by (auto simp: core_dispatch_def split: prod.splits if_splits)
    with writes_authorised[of X H q "en_now_ms E" ?st] obtain caller where caller: "pr_caller_agent_id q = Some caller"
      and right: "(\<exists>c. pr_call q = RegisterAgent c \<and> pra_agent_id c = caller)
        \<or> (agent_identity_by (st_redactor ?st) (st_db ?st) caller \<noteq> None
           \<and> permitted X (st_redactor ?st) (st_db ?st) caller (en_now_ms E) (pr_operation_id q) (pr_call q))"
      by auto
    then have "pr_call q \<noteq> Hello" by auto
    with cov caller have "caller \<in> set (pg_agent_ids g)" by (auto simp: covers_def)
    with caller right show ?thesis by blast
  qed simp
  show ?thesis
    by (rule disjI2, rule exI[of _ c], rule exI[of _ g], rule exI[of _ body], rule exI[of _ sent], rule exI[of _ q],
        intro conjI head c(1) g(1,3) body cov alive right)
qed simp

section \<open>What a panic costs\<close>

lemma dead_core:
  assumes "pc_poisoned core"
  shows "\<exists>x. fst (serve_request C V (core_dispatch panics X H) E req s core) = Some x \<and> 400 \<le> hp_status x
    \<and> snd (snd (serve_request C V (core_dispatch panics X H) E req s core)) = core"
proof -
  obtain a t where run: "admitted_request C V E req (on_metrics request_started s) = (a, t)" by (meson surj_pair)
  note stage = admitted_ok[of "on_metrics request_started s" C V E req, unfolded run stage_ok_def fst_conv snd_conv]
  show ?thesis
  proof (cases a)
    case (Inl x)
    with run stage show ?thesis by (simp add: serve_request_def handle_request_def refusal_ok_def)
  next
    case (Inr pq)
    have "400 \<le> hp_status (respond_remote_error C t core_unavailable)"
      using refusals_ok(1)[of t C core_unavailable] by (simp add: refusal_ok_def)
    with run Inr assms show ?thesis
      by (cases pq) (simp add: serve_request_def handle_request_def core_dispatch_def)
  qed
qed

text \<open>
  C21. A panic under the dispatcher of the core takes the core down: once one call has panicked,
  every later request of any client is refused with an error status and the store is never
  touched again, until the process restarts. The worker survives, the mutex of the repository
  does not.
\<close>

theorem panic_ends_service:
  assumes "core_dispatch panics X H q now_ms core = (Panicked, core1)"
    and "serve_all C V (core_dispatch panics X H) reqs s core1 = (rs, s', core2)"
  shows "core2 = core1 \<and> list_all (\<lambda>r. \<exists>x. r = Some x \<and> 400 \<le> hp_status x) rs"
proof -
  have "pc_poisoned core1"
    using assms(1) by (auto simp: core_dispatch_def split: if_splits option.splits prod.splits)
  with assms(2) show ?thesis
  proof (induction reqs arbitrary: s s' rs)
    case Nil
    then show ?case by simp
  next
    case (Cons er reqs)
    obtain E req where er: "er = (E, req)" by (cases er)
    obtain x s1 where one: "serve_request C V (core_dispatch panics X H) E req s core1 = (Some x, s1, core1)"
      "400 \<le> hp_status x"
      using dead_core[OF Cons.prems(2), of C V panics X H E req s] by (metis prod.collapse)
    obtain rs1 s2 c2 where rest: "serve_all C V (core_dispatch panics X H) reqs s1 core1 = (rs1, s2, c2)"
      by (rule prod_cases3)
    from Cons.prems(1) er one rest have "rs = Some x # rs1" "s' = s2" "core2 = c2" by simp_all
    with Cons.IH[of s1 rs1 s2] rest one(2) Cons.prems(2) show ?case by auto
  qed
qed

section \<open>An oversized answer\<close>

text \<open>
  A response that is too large is replaced and sent with status 500, after the counters and the
  correlation were written with the status of the response it replaces.
\<close>

lemma oversized_answer_counted_as_success:
  assumes "admitted_request C V E req (on_metrics request_started s) = (Inr (p, q), t)"
    and "D q (en_now_ms E) core = (Answered x, core')" and "ps_status x = OkStatus"
    and "co_encode C (ProtocolBody x) = Some data" and "hs_max_response_bytes t < length data"
  shows "\<exists>r s'. serve_request C V D E req s core = (Some r, s', core') \<and> hp_status r = 500
    \<and> hp_body r = response_too_large_body \<and> hm_error_responses (hs_metrics s') = hm_error_responses (hs_metrics t)
    \<and> ho_status (last (hm_recent_requests (hs_metrics s'))) = 200"
  using assms
  by (simp add: serve_request_def handle_request_def respond_protocol_def respond_json_def Let_def on_metrics_def
      request_dropped_def record_answer_def protocol_http_status_def record_request_def record_diagnostic_def
      correlation_of_def push_recent_def)

section \<open>Samples\<close>

definition sample_host :: protocol_host where
  "sample_host = \<lparr>ph_resolve = (\<lambda>_. Inl BindingNotFound), ph_create_workspace = (\<lambda>st _ _ _. (Inl (NotFound ''w''), st)),
     ph_capture = (\<lambda>st _ _ _ _ _. (Inl (NotFound ''w''), st)), ph_materialize = (\<lambda>st _ _ _. (Inl (NotFound ''w''), st)),
     ph_diff = (\<lambda>_ _. Inl (NotFound ''w'')), ph_explain = (\<lambda>_. ''invalid'')\<rparr>"

definition sample_hello :: protocol_request where
  "sample_hello = \<lparr>pr_protocol_version = ''1.0'', pr_request_id = ''r'', pr_caller_agent_id = None,
     pr_issued_at = ''t'', pr_operation_id = None, pr_call = Hello\<rparr>"

definition sample_codec :: http_codec where
  "sample_codec = \<lparr>co_request = (\<lambda>b. if b = ''hello'' then Some sample_hello else None), co_value = (\<lambda>_. None),
     co_encode = (\<lambda>_. Some ''answer'')\<rparr>"

definition sample_env :: http_env where
  "sample_env = \<lparr>en_authentication_ms = 7, en_now_ms = 8, en_recorded_latency = 1, en_latency = 1, en_delivered = True\<rparr>"

definition sample_post :: "utf8 \<Rightarrow> http_request" where
  "sample_post body = \<lparr>ht_url = ''/v1/protocol'', ht_method = Post,
     ht_headers = [(''content-type'', ''application/json; charset=utf-8''), (''Authorization'', ''Bearer k'')],
     ht_body_length = Some (length body), ht_body = Some body\<rparr>"

definition sample_requests :: "(http_env \<times> http_request) list" where
  "sample_requests = [(sample_env, sample_post ''hello''), (sample_env, (sample_post ''hello'')\<lparr>ht_url := ''/''\<rparr>),
     (sample_env, sample_post ''nonsense'')]"

definition sample_server :: http_state where
  "sample_server = \<lparr>hs_sessions = Map.empty, hs_sessions_poisoned = False, hs_next_session = 1,
     hs_max_body_bytes = 1048576, hs_session_ttl_ms = 30000, hs_max_response_bytes = 4194304,
     hs_limiter = new_limiter 120 60000 1024, hs_limiter_poisoned = False, hs_metrics = new_metrics 8\<rparr>"

definition sample_core :: protocol_core where
  "sample_core = \<lparr>pc_store = open_store default_redactor, pc_poisoned = False\<rparr>"

definition sample_panics :: "protocol_request \<Rightarrow> int \<Rightarrow> metadata_store \<Rightarrow> metadata_store option" where
  "sample_panics q now_ms st = (if now_ms = 0 then Some st else None)"

definition sample_run :: "protocol_core \<Rightarrow> http_response option list \<times> http_state \<times> protocol_core" where
  "sample_run core = serve_all sample_codec (authenticate plain_externals (sample_verifier plain_externals))
     (core_dispatch sample_panics plain_externals sample_host) sample_requests sample_server core"

lemma sample_start: "start_server default_config = Inr sample_server"
  by (simp add: sample_server_def start_server_def validate_config_def default_config_def
      min_http_max_response_bytes_def response_too_large_body_def)

lemma sample_run_parts: "sample_run core = (fst (sample_run core), fst (snd (sample_run core)), snd (snd (sample_run core)))"
  by simp

theorem server_bounds_witness:
  "list_all (\<lambda>r. case r of None \<Rightarrow> True | Some x \<Rightarrow> length (hp_body x) \<le> 4194304) (fst (sample_run sample_core))
   \<and> hs_sessions (fst (snd (sample_run sample_core))) = Map.empty
   \<and> hm_active_requests (hs_metrics (fst (snd (sample_run sample_core)))) = 0"
proof -
  have "hc_max_response_bytes default_config = 4194304" by (simp add: default_config_def)
  from server_bounds[OF sample_start sample_run_parts[of sample_core, unfolded sample_run_def], unfolded this]
  show ?thesis unfolding sample_run_def by blast
qed

theorem panic_ends_service_witness:
  "core_dispatch sample_panics plain_externals sample_host sample_hello 0 sample_core
     = (Panicked, sample_core\<lparr>pc_poisoned := True\<rparr>)
   \<and> list_all (\<lambda>r. \<exists>x. r = Some x \<and> 400 \<le> hp_status x) (fst (sample_run (sample_core\<lparr>pc_poisoned := True\<rparr>)))"
proof -
  have "core_dispatch sample_panics plain_externals sample_host sample_hello 0 sample_core
     = (Panicked, sample_core\<lparr>pc_poisoned := True\<rparr>)"
    by (simp add: core_dispatch_def sample_core_def sample_panics_def)
  moreover from panic_ends_service[OF this sample_run_parts[of "sample_core\<lparr>pc_poisoned := True\<rparr>", unfolded sample_run_def]]
  have "list_all (\<lambda>r. \<exists>x. r = Some x \<and> 400 \<le> hp_status x) (fst (sample_run (sample_core\<lparr>pc_poisoned := True\<rparr>)))"
    by (simp add: sample_run_def)
  ultimately show ?thesis by blast
qed

text \<open>The greeting of the run passes every stage and is answered.\<close>

lemma greeting_answered:
  "core_dispatch sample_panics X H sample_hello 8 sample_core
   = (Answered (success_response ''r'' None (HelloResult hello)), sample_core)"
proof -
  have "\<not> white2 CHR ''1'' CHR ''.''" "\<not> white3 CHR ''1'' CHR ''.'' CHR ''0''" by code_simp+
  then show ?thesis
    by (simp add: core_dispatch_def sample_core_def sample_panics_def handle_protocol_def sample_hello_def
        dispatch_request_def validate_request_header_def header_present_def header_optional_def
        external_agent_protocol_version_def white1_def)
qed

lemma greeting_enters:
  "check_endpoint C E (sample_post ''hello'') s = (Inr (), s)"
  "identify C (authenticate plain_externals (sample_verifier plain_externals)) sample_env (sample_post ''hello'') s
    = (Inr \<lparr>ap_principal_id = ''p'', ap_agent_ids = [''a'']\<rparr>, s)"
proof -
  have "list_all plain_char ''application/json''" by code_simp
  note trim = trim_end_plain[OF this] trim_start_plain[OF this]
  have "same_ascii ''content-type'' ''Content-Type''" by code_simp
  then have "has_json_content_type (sample_post ''hello'')"
    by (simp add: has_json_content_type_def sample_post_def trim same_ascii_def del: trim_start.simps trim_end.simps)
  then show "check_endpoint C E (sample_post ''hello'') s = (Inr (), s)"
    by (simp add: check_endpoint_def sample_post_def http_protocol_path_def)
  have "\<not> same_ascii ''content-type'' ''Authorization''" "same_ascii ''Authorization'' ''Authorization''"
    "same_ascii ''Bearer'' ''Bearer''" by code_simp+
  then have "bearer_credential (sample_post ''hello'') = Inr ''k''"
    by (simp add: bearer_credential_def sample_post_def split_once_space_def white1_def)
  then show "identify C (authenticate plain_externals (sample_verifier plain_externals)) sample_env (sample_post ''hello'') s
    = (Inr \<lparr>ap_principal_id = ''p'', ap_agent_ids = [''a'']\<rparr>, s)"
    by (simp add: identify_def sample_env_def sample_verifier_def index_grants_def sample_grants_def grant_parts_def
        validate_grant_def plain_externals_def white1_def white2_def authenticate_def)
qed

lemma greeting_limited:
  "hs_limiter s = new_limiter 120 60000 1024 \<Longrightarrow> \<not> hs_limiter_poisoned s \<Longrightarrow>
    \<exists>l m. limit_rate C sample_env \<lparr>ap_principal_id = ''p'', ap_agent_ids = [''a'']\<rparr> s
      = (Inr (), s\<lparr>hs_limiter := l, hs_metrics := m\<rparr>)"
  by (simp add: limit_rate_def allow_def new_limiter_def retained_def upsert_def saturating_sub_def sample_env_def
      on_metrics_def Let_def) blast

lemma greeting_read:
  "hs_max_body_bytes s = 1048576 \<Longrightarrow> check_length C E (sample_post ''hello'') p s = (Inr (), s)"
  "hs_max_body_bytes s = 1048576 \<Longrightarrow> read_body C E (sample_post ''hello'') p s = (Inr ''hello'', s)"
  "read_envelope sample_codec E p ''hello'' s = (Inr sample_hello, s)"
  by (simp_all add: check_length_def read_body_def read_envelope_def sample_post_def sample_codec_def Let_def)

lemma greeting_authorized:
  assumes "hs_sessions s = Map.empty" "\<not> hs_sessions_poisoned s" "hs_session_ttl_ms s = 30000"
  shows "\<exists>n S. authorize_request C sample_env \<lparr>ap_principal_id = ''p'', ap_agent_ids = [''a'']\<rparr> sample_hello s
    = (Inr sample_hello, s\<lparr>hs_next_session := n, hs_sessions := S\<rparr>)"
proof -
  have plain: "plain_char CHR ''h''" "plain_char CHR ''p''" "plain_char CHR ''a''" by code_simp+
  have "\<not> trimmed_empty (session_name sample_env n)" for n
    unfolding session_name_def append_Cons by (rule plain_not_empty[OF plain(1)])
  with assms show ?thesis
    by (simp add: authorize_request_def Let_def bind_authenticated_def checked_add_def authorize_def sample_hello_def
        plain_not_empty plain disconnect_def del: trimmed_empty.simps) (simp add: sample_env_def, blast)
qed

lemma greeting_admitted:
  "\<exists>t. admitted_request sample_codec (authenticate plain_externals (sample_verifier plain_externals)) sample_env
      (sample_post ''hello'') (on_metrics request_started sample_server)
      = (Inr (\<lparr>ap_principal_id = ''p'', ap_agent_ids = [''a'']\<rparr>, sample_hello), t) \<and> hs_max_response_bytes t = 4194304"
proof -
  let ?p = "\<lparr>ap_principal_id = ''p'', ap_agent_ids = [''a'']\<rparr>"
  let ?s = "on_metrics request_started sample_server"
  have start: "hs_limiter ?s = new_limiter 120 60000 1024" "\<not> hs_limiter_poisoned ?s" "hs_max_body_bytes ?s = 1048576"
    by (simp_all add: sample_server_def on_metrics_def)
  from greeting_limited[OF start(1,2)] obtain l m where limited:
    "limit_rate sample_codec sample_env ?p ?s = (Inr (), ?s\<lparr>hs_limiter := l, hs_metrics := m\<rparr>)" by blast
  let ?t = "?s\<lparr>hs_limiter := l, hs_metrics := m\<rparr>"
  have t: "hs_sessions ?t = Map.empty" "\<not> hs_sessions_poisoned ?t" "hs_session_ttl_ms ?t = 30000"
    "hs_max_body_bytes ?t = 1048576" by (simp_all add: sample_server_def on_metrics_def)
  from greeting_authorized[OF t(1-3)] obtain n S where
    "authorize_request sample_codec sample_env ?p sample_hello ?t
      = (Inr sample_hello, ?t\<lparr>hs_next_session := n, hs_sessions := S\<rparr>)" by blast
  then have "admitted_request sample_codec (authenticate plain_externals (sample_verifier plain_externals)) sample_env
      (sample_post ''hello'') ?s = (Inr (?p, sample_hello), ?t\<lparr>hs_next_session := n, hs_sessions := S\<rparr>)"
    unfolding admitted_request_def greeting_enters then_on_simps greeting_read(1)[OF start(3)] limited
      greeting_read(2)[OF t(4)] greeting_read(3) by simp
  then show ?thesis by (simp add: sample_server_def on_metrics_def)
qed

lemma greeting_served:
  "map_option hp_status (fst (serve_request sample_codec (authenticate plain_externals (sample_verifier plain_externals))
     (core_dispatch sample_panics X H) sample_env (sample_post ''hello'') sample_server sample_core)) = Some 200"
proof -
  from greeting_admitted obtain t where t: "admitted_request sample_codec
      (authenticate plain_externals (sample_verifier plain_externals)) sample_env
      (sample_post ''hello'') (on_metrics request_started sample_server)
      = (Inr (\<lparr>ap_principal_id = ''p'', ap_agent_ids = [''a'']\<rparr>, sample_hello), t)" "hs_max_response_bytes t = 4194304"
    by blast
  have "en_now_ms sample_env = 8" by (simp add: sample_env_def)
  with t show ?thesis
    by (simp add: serve_request_def handle_request_def greeting_answered respond_protocol_def respond_json_def
        Let_def success_response_def protocol_http_status_def sample_codec_def sample_server_def on_metrics_def)
qed

text \<open>A call that panics after it wrote: the greeting passes every guard and the store is changed.\<close>

definition half_written :: "protocol_request \<Rightarrow> int \<Rightarrow> metadata_store \<Rightarrow> metadata_store option" where
  "half_written q now_ms st = Some (st\<lparr>st_db := (st_db st)\<lparr>agent_identities := agent_identities (st_db st) @
     [\<lparr>ai_agent_id = ''a'', ai_provider = ''p'', ai_display_name = None, ai_created_at = ''t''\<rparr>]\<rparr>\<rparr>)"

lemma greeting_half_written:
  "pc_store (snd (snd (serve_request sample_codec (authenticate plain_externals (sample_verifier plain_externals))
     (core_dispatch half_written X H) sample_env (sample_post ''hello'') sample_server sample_core))) \<noteq> pc_store sample_core"
proof -
  from greeting_admitted obtain t where t: "admitted_request sample_codec
      (authenticate plain_externals (sample_verifier plain_externals)) sample_env
      (sample_post ''hello'') (on_metrics request_started sample_server)
      = (Inr (\<lparr>ap_principal_id = ''p'', ap_agent_ids = [''a'']\<rparr>, sample_hello), t)" by blast
  have "core_dispatch half_written X H sample_hello n sample_core
      = (Panicked, \<lparr>pc_store = the (half_written sample_hello n (pc_store sample_core)), pc_poisoned = True\<rparr>)" for n
    by (simp add: core_dispatch_def half_written_def sample_core_def)
  moreover have "the (half_written sample_hello n st) \<noteq> st" for n st
    by (auto simp: half_written_def dest: arg_cong[where f = "\<lambda>st. agent_identities (st_db st)"])
  ultimately show ?thesis using t by (simp add: serve_request_def handle_request_def)
qed

theorem store_changes_only_for_granted_witness:
  "pc_store (snd (snd (serve_request sample_codec (authenticate plain_externals (sample_verifier plain_externals))
     (core_dispatch half_written plain_externals sample_host) sample_env (sample_post ''hello'') sample_server sample_core)))
     \<noteq> pc_store sample_core
   \<and> (\<exists>credential g. bearer_credential (sample_post ''hello'') = Inr credential
        \<and> sample_verifier plain_externals credential = Some g \<and> covers (pg_agent_ids g) sample_hello)
   \<and> pc_store (snd (snd (serve_request sample_codec (authenticate plain_externals (sample_verifier plain_externals))
     (core_dispatch half_written plain_externals sample_host) sample_env ((sample_post ''hello'')\<lparr>ht_url := ''/''\<rparr>)
     sample_server sample_core))) = pc_store sample_core"
proof -
  let ?G = "sample_verifier plain_externals"
  have hello: "q = sample_hello" if "co_request sample_codec body = Some q" for q body
    using that by (simp add: sample_codec_def split: if_splits)
  have digest: "sha256_hex plain_externals c = c" for c by (simp add: plain_externals_def)
  from store_changes_only_for_granted[of sample_codec plain_externals ?G half_written sample_host sample_env
      "sample_post ''hello''" sample_server sample_core] greeting_half_written[of plain_externals sample_host]
  have "\<exists>credential g. bearer_credential (sample_post ''hello'') = Inr credential
      \<and> ?G credential = Some g \<and> covers (pg_agent_ids g) sample_hello"
    unfolding digest by (metis hello)
  moreover from store_changes_only_for_granted[of sample_codec plain_externals ?G half_written sample_host sample_env
      "(sample_post ''hello'')\<lparr>ht_url := ''/''\<rparr>" sample_server sample_core]
  have "pc_store (snd (snd (serve_request sample_codec (authenticate plain_externals ?G)
     (core_dispatch half_written plain_externals sample_host) sample_env ((sample_post ''hello'')\<lparr>ht_url := ''/''\<rparr>)
     sample_server sample_core))) = pc_store sample_core" by simp
  ultimately show ?thesis using greeting_half_written by blast
qed

end
