(* ===== verification/Spec2Isabelle.thy ===== *)
theory Spec2Isabelle
  imports Task_Store Ref_Store Journal_Store Workspace_Store Event_Store Operation_Store Snapshot_Store Version_Life Execution_Store Route_Store Relation_Store Rollback_Store Projection_Store Lifecycle_Store Migration_Store Store_Life Control Cas Tree_Manifest Protocol_Replies Http_Safety
begin

text \<open>
  Pong keeps a durable record of what agents do: their tasks, executions and operations, the
  workspaces they hold leases on, the snapshots and versions they publish, and the events all of
  this leaves behind. The core of the program is the metadata store (\<open>src/src/metadata.rs\<close>), one
  SQLite database behind a Rust type whose methods each run one immediate transaction. This
  library models that store table by table and method by method, with the redaction, the
  canonical JSON and the error values it is built on, and proves what makes it correct.

  \<^bold>\<open>How the model corresponds to the code.\<close> A table is the list of its rows in insertion order;
  \<open>row_by\<close>, \<open>update_where\<close>, \<open>upsert\<close> and \<open>order_rows\<close> (theory \<open>Prelude\<close>) are the queries the code
  uses. Rows and requests are records with the names of the Rust structs (\<open>Schema\<close>,
  \<open>Schema_Relations\<close>); the record \<open>db\<close> has one field per table. A text is the list of its UTF-8
  bytes. A fallible function returns \<open>Inl\<close> its \<open>PongError\<close> or \<open>Inr\<close> its value, and \<open>try_then\<close> is
  the question mark of Rust. A method that writes is a function from the store to its answer and
  the store it leaves: \<open>run_op\<close> (theory \<open>Store\<close>) redacts and checks the request, runs the body of
  the transaction on the current database, and commits between the two failpoints of the code,
  which a test arms to fail right before or right after the commit. A body ends in an error, in
  an answer without a write (\<open>Finished\<close>) or in the new database with what is read back from it
  (\<open>Commit\<close>). A body that looks at a failpoint between its statements works on the store itself
  (\<open>Snapshot_Store\<close>, \<open>Version_Store\<close>, \<open>Projection_Store\<close>).

  \<^bold>\<open>Theories.\<close>
  \<^item> \<open>Prelude\<close>: strings, results, tables, and the locales \<open>lifecycle\<close> (a status that never leaves
    its terminal values) and \<open>fencing\<close> (a token of an older epoch is dead).
  \<^item> \<open>Errors\<close> (\<open>error.rs\<close>), \<open>Redaction\<close> (\<open>redaction.rs\<close>), \<open>Canonical\<close> (\<open>canonical.rs\<close> and the
    digest of \<open>cas.rs\<close>): under a safe policy, one whose secrets have no bracket and are not part
    of the word in the marker, no registered secret is left in a redacted text or value; a digest
    determines the JSON value up to member order.
  \<^item> \<open>Store\<close>: failpoints, commits, and the locales \<open>store_op\<close> (a body keeps an invariant) and
    \<open>idempotent_op\<close> (a committed request is answered from what it wrote), which the methods
    interpret.
  \<^item> \<open>Task_Store\<close>, \<open>Ref_Store\<close>, \<open>Journal_Store\<close>, \<open>Workspace_Store\<close>, \<open>Event_Store\<close>,
    \<open>Operation_Store\<close>, \<open>Snapshot_Store\<close>, \<open>Version_Store\<close>, \<open>Version_Life\<close>, \<open>Execution_Store\<close>,
    \<open>Route_Store\<close>, \<open>Relation_Store\<close>, \<open>Rollback_Store\<close>: one group of methods each, in the order
    of the code, with what they promise. The locale \<open>request_table\<close> holds what the tables of
    request records share; hand-offs, checkpoints, resumes and rollbacks interpret it.
  \<^item> \<open>Projection_Store\<close>: read models maintained from the event log; a rebuild after a fault ends
    where applying the events one by one ends, when every handler is registered before an event
    of its type is applied.
  \<^item> \<open>Lifecycle_Store\<close>: \<open>apply_workspace_lifecycle_operation\<close>, one transaction over workspaces,
    leases, journal, ledger and log; it commits what a start, a guarded status change and a
    finish would write, all or nothing (\<open>lifecycle_operation_atomic\<close>).
  \<^item> \<open>Migration_Store\<close>: the metadata side of an offline generation migration; what it binds, what
    it leaves alone, and that it makes stored versions unreadable.
  \<^item> \<open>Store_Calls\<close>: what the calls of each component do to the tables of the others.
  \<^item> \<open>Store_History\<close>: \<open>store_step\<close>, every writing call of the store with any failpoint armed; one
    invariant for the whole store, and what the versions rest on it. Two steps are guarded: a
    rollback is completed to a stored version of its own workspace, as its only caller does, and
    the generation identity is set only while no version is stored or to what it is.
  \<^item> \<open>Store_Life\<close>: what becomes of a journal entry and of an execution in such a history.
  \<^item> \<open>Cas\<close> (\<open>cas.rs\<close>): the content-addressed object store over a file system of bytes, with system
    calls that may fail and another process that may write the same object in between.
  \<^item> \<open>Tree_Manifest\<close> (\<open>workspace.rs\<close>): portable paths, tree manifests and their comparison.
  \<^item> \<open>Control\<close> (\<open>control.rs\<close>): the facade over the stores. An operation is started, worked on and
    finished by calls of the ledger; publishing a version is a resumable sequence of
    transactions; an execution is inspected with everything recorded under it.
  \<^item> \<open>Protocol_Types\<close>, \<open>Protocol_Values\<close>, \<open>Protocol\<close>, \<open>Protocol_Replies\<close> (\<open>protocol.rs\<close>): the
    agent protocol. The first two hold the messages and their conversions, the third the guards
    (registration, ownership of an execution, lease, expected revisions, own operation) and the
    dispatcher of all commands and queries, the last what an answer may be.
  \<^item> \<open>Remote_Access\<close> (\<open>remote.rs\<close>): sessions bound for an authenticated principal, their expiry,
    disconnection and invalidation.
  \<^item> \<open>Http_Limits\<close>, \<open>Http_Bounds\<close> (\<open>http_transport.rs\<close>): the configuration, the credential
    grants, the rate limiter and the metrics, and what bounds them.
  \<^item> \<open>Http_Transport\<close>, \<open>Http_Safety\<close> (\<open>http_transport.rs\<close>, \<open>core_service.rs\<close>): one request from
    its bytes to its answer, down to the dispatcher under its mutex. Only the dispatcher may
    panic in the model; the verifier of credentials and the JSON codec are total.

  \<^bold>\<open>What the properties show.\<close> Safety under faults: publication and version creation are all or
  nothing, a retry of an interrupted call converges, a request key stays bound to what it
  started. Fencing: an old lease never writes again, and two agents never hold one workspace.
  Life cycles: tasks, journal entries, operations and executions only move forward; what
  may still change at their end (the version an execution has adopted, the journal entry of an
  operation that is finished later) is stated exactly. Refinement: references are compare-and-swap registers, the ancestry walk
  of versions is a finite lineage. Content: a stored object is never replaced, comes back as it
  was put, and is refused when its bytes no longer have its digest. Invariants: dense event streams, routes, checkpoints and
  hand-offs inside the scope of their task. Access: a message of the protocol writes only for a
  caller that registers its own identity or is registered and owns the execution, holds the lease
  or the operation and names the revisions that its command asks for; a request over HTTP reaches
  the dispatcher only with a live grant that covers its agent, a session is used only by the
  principal it was bound for, and every answer has the type its command announces.
  Bounds: no client passes its rate, the tables of clients and of sessions never outgrow their
  configuration, and a panic in the dispatcher stops the service. Some properties state behaviour that a caller would
  not expect (a selected version that becomes unreadable, a start that leaves its task alone);
  they are proved as the code behaves.

  \<^bold>\<open>Bounds.\<close> Columns of type \<open>i64\<close> are integers. Where the code checks for overflow
  (\<open>checked_add\<close>, \<open>saturating_add\<close>) the check is in the model with the limits of 64 bits; revision
  counters are incremented by SQLite itself and are not bounded here. The walks over parents
  need no fuel: their set of visited ids grows within the ids of stored rows, which is the
  measure of their termination proofs.

  \<^bold>\<open>Parameters.\<close> SHA-256, the escaping of a JSON string, the JSON parser and the \<open>Debug\<close>
  rendering of a text come from libraries and are the fields of \<open>externals\<close>; where a property
  needs the escaping to be injective it says so. The handler of a projection and the outcomes of
  system calls are arguments too. So are the operations on files that the protocol calls
  (\<open>protocol_host\<close>), the JSON codec of the transport (\<open>http_codec\<close>) and the clock. The transport
  takes the protocol as a function of the store. \<open>collision_free\<close> states that SHA-256 separates the inputs it is
  used on, \<open>hex_laws\<close> what the \<open>hex\<close> crate documents, \<open>stable_handlers\<close> that a handler, given
  a state that the parser reads back from its canonical text, returns such a state again. SQLite is trusted to roll back an uncommitted
  transaction and to keep a committed one, and its unique indexes are in the models of the
  inserts that can violate them.

  \<^bold>\<open>Step relations.\<close> \<open>workspace_step\<close>, \<open>event_step\<close>, \<open>ledger_step\<close> and \<open>journal_step\<close> are the
  calls of one component; the histories of leases, of the log and of operations are stated over
  them. \<open>execution_step\<close>, \<open>route_step\<close>, \<open>relation_step\<close>, \<open>rollback_step\<close> and \<open>projection_step\<close> add
  a step for the rest of the store, with what the component relies on as its premise.
  \<open>store_step\<close> has them all.

  \<^bold>\<open>Not modelled.\<close> The schema text and its migrations (statements SQLite executes); the traversal
  of a working tree when it is captured, materialised or restored; the repository facade with
  its directory layout and process locks; the listener, the worker threads and the client side
  of the sockets; the command line. Of \<open>migrate_locked\<close> only the block that binds the copied
  metadata file is modelled, not the files around it. The manifest lists each of them with its reason.
\<close>

end
